(* ===== verification/Prelude.thy ===== *)
theory Prelude imports
  Complex_Main
  "HOL-Library.AList"
  "HOL-Library.Char_ord"
  "HOL-Library.List_Lexorder"
  "HOL-Library.Product_Lexorder"
  "HOL-Library.Multiset"
begin

text \<open>
  The prelude of the development: the vocabulary every component of the model shares.

  \<^item> Python strings are lists of code points. The type \<open>string\<close> of HOL has 256 characters, so
    the model covers the strings whose code points are below 256; the string operations the
    source calls (\<open>strip\<close>, \<open>lower\<close>, \<open>replace\<close>, \<open>split\<close>, \<open>startswith\<close>, substring test) are
    written out over code points. Lists and pairs are ordered lexicographically, as Python
    orders strings and tuples.
  \<^item> A Python exception is a value of type \<open>exn\<close>, one constructor per exception class of
    the program, with the message it carries.
  \<^item> An operation that reads or writes project files is a program \<open>('w, 'a) prog\<close>: it takes
    the state of the world and returns the exception or the result, with the world after it. An
    exception does not undo the writes done before it, as in the source.
  \<^item> A project file is a value of type \<open>'a doc_file\<close>, which lists the ways reading and parsing
    it can end; the YAML and JSON libraries and the shape checks of pydantic decide which case
    a file is in, and the code under \<open>src/\<close> decides what to do about it.
\<close>

section \<open>Collections of lemmas\<close>

named_theorems prog_simps \<open>running a program on a world\<close>
named_theorems frame_intros \<open>rules that show a program leaves a part of the world alone\<close>
named_theorems pres_intros \<open>rules that show a program keeps an invariant\<close>

section \<open>Errors\<close>

datatype exn =
    OSError string
  | RuntimeError string
  | ValueError string
  | TypeError string
  | PermissionError string
  | TimeoutExpired string
  | NotImplementedError
  | ValidationError string
  | StateError string
  | StateTransitionError string
  | AtomicWriteError string
  | ConfigError string
  | SchemaConfigError string
  | GateLoadError string
  | EventLogError string
  | LessonStoreError string
  | ReflectionStoreError string
  | ArtifactRegistryError string
  | ContextPrunerError string
  | LazyContextError string
  | DaemonStateError string
  | DaemonProcessError string
  | ProjectNotFoundError string
  | ProjectAlreadyInitializedError string
  | UnboundSenderError string
  | ChannelPermissionError string
  | ChannelRateLimitError string
  | ChannelDuplicateError string
  | ChannelAlreadyBoundError string
  | AgentLoadError string
  | AgentExecutionError string
  | AdapterRegistryError string
  | UnsupportedAdapterCapability string
  | ManifestError string
  | ExtensionConflictError string
  | ExtensionPermissionError string
  | ExtensionSignatureError string
  | ACPRegistryError string
  | ACPClientError string
  | FileNotFoundError string
  | KeyError string
  | SpawnError int string
  | ClaudeSettingsError string
  | ReplayError string
  | OtherException string

text \<open>\<open>str(exc)\<close>: the message of an exception.\<close>

primrec exn_message :: "exn \<Rightarrow> string" where
  "exn_message (OSError m) = m"
| "exn_message (RuntimeError m) = m"
| "exn_message (ValueError m) = m"
| "exn_message (TypeError m) = m"
| "exn_message (PermissionError m) = m"
| "exn_message (TimeoutExpired m) = m"
| "exn_message NotImplementedError = []"
| "exn_message (ValidationError m) = m"
| "exn_message (StateError m) = m"
| "exn_message (StateTransitionError m) = m"
| "exn_message (AtomicWriteError m) = m"
| "exn_message (ConfigError m) = m"
| "exn_message (SchemaConfigError m) = m"
| "exn_message (GateLoadError m) = m"
| "exn_message (EventLogError m) = m"
| "exn_message (LessonStoreError m) = m"
| "exn_message (ReflectionStoreError m) = m"
| "exn_message (ArtifactRegistryError m) = m"
| "exn_message (ContextPrunerError m) = m"
| "exn_message (LazyContextError m) = m"
| "exn_message (DaemonStateError m) = m"
| "exn_message (DaemonProcessError m) = m"
| "exn_message (ProjectNotFoundError m) = m"
| "exn_message (ProjectAlreadyInitializedError m) = m"
| "exn_message (UnboundSenderError m) = m"
| "exn_message (ChannelPermissionError m) = m"
| "exn_message (ChannelRateLimitError m) = m"
| "exn_message (ChannelDuplicateError m) = m"
| "exn_message (ChannelAlreadyBoundError m) = m"
| "exn_message (AgentLoadError m) = m"
| "exn_message (AgentExecutionError m) = m"
| "exn_message (AdapterRegistryError m) = m"
| "exn_message (UnsupportedAdapterCapability m) = m"
| "exn_message (ManifestError m) = m"
| "exn_message (ExtensionConflictError m) = m"
| "exn_message (ExtensionPermissionError m) = m"
| "exn_message (ExtensionSignatureError m) = m"
| "exn_message (ACPRegistryError m) = m"
| "exn_message (ACPClientError m) = m"
| "exn_message (FileNotFoundError m) = m"
| "exn_message (KeyError m) = m"
| "exn_message (SpawnError _ m) = m"
| "exn_message (ClaudeSettingsError m) = m"
| "exn_message (ReplayError m) = m"
| "exn_message (OtherException m) = m"

section \<open>Programs over a world\<close>

type_synonym ('w, 'a) prog = "'w \<Rightarrow> (exn + 'a) \<times> 'w"

definition ret :: "'a \<Rightarrow> ('w, 'a) prog" where
  "ret x = (\<lambda>w. (Inr x, w))"

definition throw :: "exn \<Rightarrow> ('w, 'a) prog" where
  "throw e = (\<lambda>w. (Inl e, w))"

definition bindp :: "('w, 'a) prog \<Rightarrow> ('a \<Rightarrow> ('w, 'b) prog) \<Rightarrow> ('w, 'b) prog" where
  "bindp m f = (\<lambda>w. case m w of (Inl e, w') \<Rightarrow> (Inl e, w') | (Inr x, w') \<Rightarrow> f x w')"

definition thenp :: "('w, 'a) prog \<Rightarrow> ('w, 'b) prog \<Rightarrow> ('w, 'b) prog" where
  "thenp m n = bindp m (\<lambda>_. n)"

text \<open>\<open>try: m except: h\<close>. The handler says which exceptions it takes by re-raising the others.\<close>

definition catchp :: "('w, 'a) prog \<Rightarrow> (exn \<Rightarrow> ('w, 'a) prog) \<Rightarrow> ('w, 'a) prog" where
  "catchp m h = (\<lambda>w. case m w of (Inl e, w') \<Rightarrow> h e w' | (Inr x, w') \<Rightarrow> (Inr x, w'))"

definition asks :: "('w \<Rightarrow> 'a) \<Rightarrow> ('w, 'a) prog" where
  "asks f = (\<lambda>w. (Inr (f w), w))"

definition updates :: "('w \<Rightarrow> 'w) \<Rightarrow> ('w, unit) prog" where
  "updates f = (\<lambda>w. (Inr (), f w))"

definition lift_result :: "exn + 'a \<Rightarrow> ('w, 'a) prog" where
  "lift_result r = (\<lambda>w. (r, w))"

text \<open>Results without a world: one after the other, and one for each element.\<close>

definition bindr :: "exn + 'a \<Rightarrow> ('a \<Rightarrow> exn + 'b) \<Rightarrow> exn + 'b" where
  "bindr r f = (case r of Inl e \<Rightarrow> Inl e | Inr x \<Rightarrow> f x)"

primrec mapr :: "('a \<Rightarrow> exn + 'b) \<Rightarrow> 'a list \<Rightarrow> exn + 'b list" where
  "mapr f [] = Inr []"
| "mapr f (x # xs) = bindr (f x) (\<lambda>y. bindr (mapr f xs) (\<lambda>ys. Inr (y # ys)))"

lemma bindr_simps [simp]: "bindr (Inl e) f = Inl e" "bindr (Inr x) f = f x"
  by (simp_all add: bindr_def)

lemma bindr_Inr: "bindr r f = Inr y \<longleftrightarrow> (\<exists>x. r = Inr x \<and> f x = Inr y)"
  by (cases r) simp_all

lemma bindr_Inl: "bindr r f = Inl e \<longleftrightarrow> r = Inl e \<or> (\<exists>x. r = Inr x \<and> f x = Inl e)"
  by (cases r) simp_all

lemma mapr_Inr: "mapr f xs = Inr ys \<longleftrightarrow> list_all2 (\<lambda>x y. f x = Inr y) xs ys"
  by (induction xs arbitrary: ys) (auto simp: bindr_Inr list_all2_Cons1)

lemma mapr_Inl: "mapr f xs = Inl e \<Longrightarrow> \<exists>x\<in>set xs. f x = Inl e"
  by (induction xs) (auto simp: bindr_Inl)

lemma mapr_fails: "x \<in> set xs \<Longrightarrow> f x = Inl e \<Longrightarrow> \<exists>e'. mapr f xs = Inl e'"
proof (induction xs)
  case (Cons y ys)
  then show ?case by (cases "f y"; cases "mapr f ys") auto
qed simp

definition whenp :: "bool \<Rightarrow> ('w, unit) prog \<Rightarrow> ('w, unit) prog" where
  "whenp b m = (if b then m else ret ())"

primrec mapp :: "('a \<Rightarrow> ('w, 'b) prog) \<Rightarrow> 'a list \<Rightarrow> ('w, 'b list) prog" where
  "mapp f [] = ret []"
| "mapp f (x # xs) = bindp (f x) (\<lambda>y. bindp (mapp f xs) (\<lambda>ys. ret (y # ys)))"

text \<open>A loop that carries a state, and a program of a world run by an object with a state of its own.\<close>

primrec foldp :: "('a \<Rightarrow> 's \<Rightarrow> ('w, 's) prog) \<Rightarrow> 'a list \<Rightarrow> 's \<Rightarrow> ('w, 's) prog" where
  "foldp f [] s = ret s"
| "foldp f (x # xs) s = bindp (f x s) (foldp f xs)"

definition with_local :: "('w, 'a) prog \<Rightarrow> ('l \<times> 'w, 'a) prog" where
  "with_local m = (\<lambda>(l, w). case m w of (r, w') \<Rightarrow> (r, (l, w')))"

lemma with_local_run [prog_simps]: "with_local m (l, w) = (case m w of (r, w') \<Rightarrow> (r, (l, w')))"
  by (simp add: with_local_def)

lemma ret_run [prog_simps]: "ret x w = (Inr x, w)"
  by (simp add: ret_def)

lemma throw_run [prog_simps]: "throw e w = (Inl e, w)"
  by (simp add: throw_def)

lemma asks_run [prog_simps]: "asks f w = (Inr (f w), w)"
  by (simp add: asks_def)

lemma updates_run [prog_simps]: "updates f w = (Inr (), f w)"
  by (simp add: updates_def)

lemma lift_result_run [prog_simps]: "lift_result r w = (r, w)"
  by (simp add: lift_result_def)

lemma bindp_run [prog_simps]:
  "bindp m f w = (case m w of (Inl e, w') \<Rightarrow> (Inl e, w') | (Inr x, w') \<Rightarrow> f x w')"
  by (simp add: bindp_def)

lemma thenp_run [prog_simps]:
  "thenp m n w = (case m w of (Inl e, w') \<Rightarrow> (Inl e, w') | (Inr x, w') \<Rightarrow> n w')"
  by (simp add: thenp_def bindp_def)

lemma catchp_run [prog_simps]:
  "catchp m h w = (case m w of (Inl e, w') \<Rightarrow> h e w' | (Inr x, w') \<Rightarrow> (Inr x, w'))"
  by (simp add: catchp_def)

lemma whenp_run [prog_simps]: "whenp b m w = (if b then m w else (Inr (), w))"
  by (simp add: whenp_def ret_run)

lemma bindp_ret [simp]: "bindp (ret x) f = f x"
  by (simp add: bindp_def ret_def fun_eq_iff)

lemma bindp_throw [simp]: "bindp (throw e) f = throw e"
  by (simp add: bindp_def throw_def fun_eq_iff)

lemma bindp_assoc: "bindp (bindp m f) g = bindp m (\<lambda>x. bindp (f x) g)"
  by (auto simp: bindp_def fun_eq_iff split: prod.splits sum.splits)

text \<open>The invariant rule for the loop: \<open>I\<close> relates the elements already passed, the state and the world.\<close>

lemma foldp_invariant:
  assumes "foldp f xs s w = (Inr t, w')" and "I [] s w"
    and "\<And>pre x post s w s' w'. xs = pre @ x # post \<Longrightarrow> I pre s w \<Longrightarrow> f x s w = (Inr s', w') \<Longrightarrow>
      I (pre @ [x]) s' w'"
  shows "I xs t w'"
proof -
  have "foldp f ys s w = (Inr t, w') \<Longrightarrow> I pre s w \<Longrightarrow> pre @ ys = xs \<Longrightarrow> I (pre @ ys) t w'" for ys pre s w
  proof (induction ys arbitrary: pre s w)
    case Nil
    then show ?case by (simp add: ret_run)
  next
    case (Cons y ys)
    from Cons.prems(1) obtain s1 w1 where y: "f y s w = (Inr s1, w1)" and rest: "foldp f ys s1 w1 = (Inr t, w')"
      by (auto simp: bindp_run split: prod.splits sum.splits)
    have "I (pre @ [y]) s1 w1" using assms(3) [OF _ Cons.prems(2) y] Cons.prems(3) by metis
    from Cons.IH [OF rest this] Cons.prems(3) show ?case by simp
  qed
  from this [of xs s w "[]"] assms(1,2) show ?thesis by simp
qed

subsection \<open>What a program leaves alone\<close>

text \<open>
  \<open>unchanged f m\<close>: however \<open>m\<close> ends, the part \<open>f\<close> of the world is what it was. \<open>keeps I m\<close>:
  however \<open>m\<close> ends, the invariant \<open>I\<close> holds after it if it held before.
\<close>

definition unchanged :: "('w \<Rightarrow> 'c) \<Rightarrow> ('w, 'a) prog \<Rightarrow> bool" where
  "unchanged f m \<longleftrightarrow> (\<forall>w. f (snd (m w)) = f w)"

definition keeps :: "('w \<Rightarrow> bool) \<Rightarrow> ('w, 'a) prog \<Rightarrow> bool" where
  "keeps I m \<longleftrightarrow> (\<forall>w. I w \<longrightarrow> I (snd (m w)))"

lemma unchangedI: "(\<And>w. f (snd (m w)) = f w) \<Longrightarrow> unchanged f m"
  by (simp add: unchanged_def)

lemma unchangedD: "unchanged f m \<Longrightarrow> f (snd (m w)) = f w"
  by (simp add: unchanged_def)

lemma unchanged_result: "unchanged f m \<Longrightarrow> m w = (r, w') \<Longrightarrow> f w' = f w"
  by (metis snd_conv unchangedD)

lemma keepsI: "(\<And>w. I w \<Longrightarrow> I (snd (m w))) \<Longrightarrow> keeps I m"
  by (simp add: keeps_def)

lemma keepsD: "keeps I m \<Longrightarrow> I w \<Longrightarrow> I (snd (m w))"
  by (simp add: keeps_def)

lemma keeps_result: "keeps I m \<Longrightarrow> m w = (r, w') \<Longrightarrow> I w \<Longrightarrow> I w'"
  by (metis snd_conv keepsD)

lemma unchanged_keeps: "unchanged f m \<Longrightarrow> keeps (\<lambda>w. P (f w)) m"
  by (simp add: unchanged_def keeps_def)

lemma unchanged_basic [frame_intros]:
  "unchanged f (ret x)" "unchanged f (throw e)" "unchanged f (asks g)"
  "unchanged f (lift_result r)"
  by (simp_all add: unchanged_def prog_simps)

lemma unchanged_bindp [frame_intros]:
  assumes "unchanged f m" and "\<And>x. unchanged f (g x)"
  shows "unchanged f (bindp m g)"
proof (rule unchangedI)
  fix w
  show "f (snd (bindp m g w)) = f w"
  proof (cases "m w")
    case (Pair r w')
    with assms(1) have eq: "f w' = f w" by (rule unchanged_result)
    show ?thesis
    proof (cases r)
      case (Inl e)
      with Pair eq show ?thesis by (simp add: bindp_run)
    next
      case (Inr x)
      with Pair eq show ?thesis
        using unchangedD [OF assms(2), of x w'] by (simp add: bindp_run)
    qed
  qed
qed

lemma unchanged_thenp [frame_intros]:
  "unchanged f m \<Longrightarrow> unchanged f n \<Longrightarrow> unchanged f (thenp m n)"
  by (simp add: thenp_def unchanged_bindp)

lemma unchanged_catchp [frame_intros]:
  assumes "unchanged f m" and "\<And>e. unchanged f (h e)"
  shows "unchanged f (catchp m h)"
proof (rule unchangedI)
  fix w
  show "f (snd (catchp m h w)) = f w"
  proof (cases "m w")
    case (Pair r w')
    with assms(1) have eq: "f w' = f w" by (rule unchanged_result)
    show ?thesis
    proof (cases r)
      case (Inl e)
      with Pair eq show ?thesis
        using unchangedD [OF assms(2), of e w'] by (simp add: catchp_run)
    next
      case (Inr x)
      with Pair eq show ?thesis by (simp add: catchp_run)
    qed
  qed
qed

lemma unchanged_if [frame_intros]:
  "(b \<Longrightarrow> unchanged f m) \<Longrightarrow> (\<not> b \<Longrightarrow> unchanged f n) \<Longrightarrow> unchanged f (if b then m else n)"
  by simp

lemma unchanged_whenp [frame_intros]: "unchanged f m \<Longrightarrow> unchanged f (whenp b m)"
  by (simp add: whenp_def unchanged_basic)

lemma unchanged_mapp [frame_intros]:
  "(\<And>x. unchanged f (g x)) \<Longrightarrow> unchanged f (mapp g xs)"
  by (induction xs) (auto intro!: frame_intros)

lemma unchanged_updates [frame_intros]:
  "(\<And>w. f (g w) = f w) \<Longrightarrow> unchanged f (updates g)"
  by (simp add: unchanged_def prog_simps)

lemma unchanged_case_option [frame_intros]:
  "unchanged f m \<Longrightarrow> (\<And>x. unchanged f (g x)) \<Longrightarrow>
   unchanged f (case v of None \<Rightarrow> m | Some x \<Rightarrow> g x)"
  by (cases v) auto

lemma keeps_basic [pres_intros]:
  "keeps I (ret x)" "keeps I (throw e)" "keeps I (asks g)" "keeps I (lift_result r)"
  by (simp_all add: keeps_def prog_simps)

lemma keeps_bindp [pres_intros]:
  assumes "keeps I m" and "\<And>x. keeps I (g x)"
  shows "keeps I (bindp m g)"
proof (rule keepsI)
  fix w assume "I w"
  show "I (snd (bindp m g w))"
  proof (cases "m w")
    case (Pair r w')
    from keeps_result [OF assms(1) Pair \<open>I w\<close>] have "I w'" .
    then show ?thesis
      using Pair keepsD [OF assms(2)] by (cases r) (auto simp: bindp_run)
  qed
qed

lemma keeps_thenp [pres_intros]: "keeps I m \<Longrightarrow> keeps I n \<Longrightarrow> keeps I (thenp m n)"
  by (simp add: thenp_def keeps_bindp)

lemma keeps_if [pres_intros]:
  "(b \<Longrightarrow> keeps I m) \<Longrightarrow> (\<not> b \<Longrightarrow> keeps I n) \<Longrightarrow> keeps I (if b then m else n)"
  by simp

section \<open>Python strings\<close>

definition ord :: "char \<Rightarrow> nat" where
  "ord c = of_char c"

definition nl :: string where
  "nl = [char_of (10::nat)]"

text \<open>\<open>str.isspace\<close> for one character below code point 256.\<close>

definition py_isspace :: "char \<Rightarrow> bool" where
  "py_isspace c = (let n = ord c in
     (9 \<le> n \<and> n \<le> 13) \<or> (28 \<le> n \<and> n \<le> 32) \<or> n = 133 \<or> n = 160)"

definition is_line_break :: "char \<Rightarrow> bool" where
  "is_line_break c = (let n = ord c in (10 \<le> n \<and> n \<le> 13) \<or> (28 \<le> n \<and> n \<le> 30) \<or> n = 133)"

text \<open>\<open>str.splitlines\<close>; a carriage return and the line feed after it are one break.\<close>

fun lines_from :: "string \<Rightarrow> string \<Rightarrow> string list" where
  "lines_from cur [] = (if cur = [] then [] else [rev cur])"
| "lines_from cur (c # cs) = (if \<not> is_line_break c then lines_from (c # cur) cs
     else rev cur # (case cs of [] \<Rightarrow> [] | d # ds \<Rightarrow>
       if ord c = 13 \<and> ord d = 10 then lines_from [] ds else lines_from [] cs))"

definition splitlines :: "string \<Rightarrow> string list" where
  "splitlines s = lines_from [] s"

definition lstrip :: "string \<Rightarrow> string" where
  "lstrip s = dropWhile py_isspace s"

definition strip :: "string \<Rightarrow> string" where
  "strip s = rev (dropWhile py_isspace (rev (dropWhile py_isspace s)))"

text \<open>\<open>str.lower\<close>: the letters A to Z, and the Latin-1 capitals.\<close>

definition lower_char :: "char \<Rightarrow> char" where
  "lower_char c = (let n = ord c in
     if (65 \<le> n \<and> n \<le> 90) \<or> (192 \<le> n \<and> n \<le> 222 \<and> n \<noteq> 215)
     then char_of (n + 32) else c)"

definition lower :: "string \<Rightarrow> string" where
  "lower s = map lower_char s"

definition replace_char :: "char \<Rightarrow> char \<Rightarrow> string \<Rightarrow> string" where
  "replace_char a b s = map (\<lambda>c. if c = a then b else c) s"

fun split_on :: "char \<Rightarrow> string \<Rightarrow> string list" where
  "split_on d [] = [[]]"
| "split_on d (c # cs) =
     (if c = d then [] # split_on d cs
      else (case split_on d cs of [] \<Rightarrow> [[c]] | p # ps \<Rightarrow> (c # p) # ps))"

fun starts_with :: "string \<Rightarrow> string \<Rightarrow> bool" where
  "starts_with [] s = True"
| "starts_with (p # ps) [] = False"
| "starts_with (p # ps) (c # cs) = (p = c \<and> starts_with ps cs)"

definition ends_with :: "string \<Rightarrow> string \<Rightarrow> bool" where
  "ends_with s suffix = starts_with (rev suffix) (rev s)"

text \<open>The last component of a path.\<close>

definition base_name :: "string \<Rightarrow> string" where
  "base_name p = last (split_on CHR ''/'' p)"

text \<open>Python's \<open>needle in haystack\<close> for strings.\<close>

fun is_substring :: "string \<Rightarrow> string \<Rightarrow> bool" where
  "is_substring p [] = (p = [])"
| "is_substring p (c # cs) = (starts_with p (c # cs) \<or> is_substring p cs)"

fun join :: "string \<Rightarrow> string list \<Rightarrow> string" where
  "join sep [] = []"
| "join sep [x] = x"
| "join sep (x # y # ys) = x @ sep @ join sep (y # ys)"

fun show_nat :: "nat \<Rightarrow> string" where
  "show_nat n =
     (if n < 10 then [char_of (48 + n)] else show_nat (n div 10) @ [char_of (48 + n mod 10)])"

declare show_nat.simps [simp del]

definition show_int :: "int \<Rightarrow> string" where
  "show_int i = (if i < 0 then ''-'' @ show_nat (nat (- i)) else show_nat (nat i))"

lemma show_nat_digits [simp]:
  "show_nat 0 = ''0''" "show_nat (Suc 0) = ''1''" "show_nat 2 = ''2''" "show_nat 3 = ''3''"
  "show_nat 4 = ''4''" "show_nat 5 = ''5''" "show_nat 6 = ''6''" "show_nat 7 = ''7''"
  by code_simp+

lemma strip_no_space: "strip s \<noteq> [] \<Longrightarrow> \<not> py_isspace (hd (strip s)) \<and> \<not> py_isspace (last (strip s))"
proof -
  assume ne: "strip s \<noteq> []"
  define t where "t = dropWhile py_isspace s"
  have s: "strip s = rev (dropWhile py_isspace (rev t))" by (simp add: strip_def t_def)
  with ne have d: "dropWhile py_isspace (rev t) \<noteq> []" by auto
  then have tne: "t \<noteq> []" by auto
  have "last (strip s) = hd (dropWhile py_isspace (rev t))"
    using s d by (simp add: last_rev)
  moreover have "\<not> py_isspace (hd (dropWhile py_isspace (rev t)))"
    using d by (rule hd_dropWhile)
  moreover have "hd (strip s) = hd t"
  proof -
    obtain pre where "rev t = pre @ dropWhile py_isspace (rev t)"
      by (metis takeWhile_dropWhile_id)
    then have "t = strip s @ rev pre" by (metis rev_append rev_rev_ident s)
    then show ?thesis using ne by (metis hd_append2)
  qed
  moreover have "\<not> py_isspace (hd t)"
    using tne unfolding t_def by (rule hd_dropWhile)
  ultimately show ?thesis by simp
qed

lemma dropWhile_hd: "xs = [] \<or> \<not> P (hd xs) \<Longrightarrow> dropWhile P xs = xs"
  by (cases xs) auto

lemma strip_id: "s = [] \<or> (\<not> py_isspace (hd s) \<and> \<not> py_isspace (last s)) \<Longrightarrow> strip s = s"
  by (auto simp: strip_def dropWhile_hd hd_rev)

lemma strip_idem [simp]: "strip (strip s) = strip s"
  using strip_no_space [of s] by (cases "strip s = []") (simp_all add: strip_id)

lemma strip_Nil [simp]: "strip [] = []"
  by (simp add: strip_def)

lemma length_strip: "length (strip s) \<le> length s"
proof -
  have "length (strip s) \<le> length (dropWhile py_isspace s)"
    using length_dropWhile_le [of py_isspace "rev (dropWhile py_isspace s)"]
    by (simp add: strip_def)
  also have "\<dots> \<le> length s" by (rule length_dropWhile_le)
  finally show ?thesis .
qed

lemma split_on_ne [simp]: "split_on d s \<noteq> []"
  by (induction s) (auto split: list.splits)

lemma replace_char_idem [simp]:
  "a \<noteq> b \<Longrightarrow> replace_char a b (replace_char a b s) = replace_char a b s"
  by (simp add: replace_char_def)

lemma starts_with_append: "starts_with p s \<longleftrightarrow> (\<exists>t. s = p @ t)"
  by (induction p s rule: starts_with.induct) auto

section \<open>Lists, dictionaries and sorting\<close>

text \<open>Python's \<open>next((x for x in xs if p(x)), None)\<close> is the library's \<open>List.find\<close>.\<close>

lemma find_Some_set: "List.find P xs = Some x \<Longrightarrow> x \<in> set xs \<and> P x"
  by (induction xs) (auto split: if_splits)

lemma find_None: "List.find P xs = None \<longleftrightarrow> (\<forall>x\<in>set xs. \<not> P x)"
  by (induction xs) auto

text \<open>
  The loop \<open>for x in xs: if p(x): mutate x; break\<close>: the first element that satisfies the
  predicate is replaced.
\<close>

fun update_first :: "('a \<Rightarrow> bool) \<Rightarrow> ('a \<Rightarrow> 'a) \<Rightarrow> 'a list \<Rightarrow> 'a list" where
  "update_first p f [] = []"
| "update_first p f (x # xs) = (if p x then f x # xs else x # update_first p f xs)"

lemma length_update_first [simp]: "length (update_first p f xs) = length xs"
  by (induction xs) auto

lemma map_update_first [simp]:
  "(\<And>x. g (f x) = g x) \<Longrightarrow> map g (update_first p f xs) = map g xs"
  by (induction xs) auto

lemma update_first_None: "List.find p xs = None \<Longrightarrow> update_first p f xs = xs"
  by (induction xs) (auto split: if_splits)

lemma update_first_find:
  "List.find p xs = Some x \<Longrightarrow> p (f x) \<Longrightarrow> List.find p (update_first p f xs) = Some (f x)"
  by (induction xs) (auto split: if_splits)

lemma find_cong_set: "(\<And>x. x \<in> set xs \<Longrightarrow> p x = q x) \<Longrightarrow> List.find p xs = List.find q xs"
  by (induction xs) auto

lemma update_first_find_other:
  assumes "\<And>x. p x \<Longrightarrow> \<not> q x" and "\<And>x. p x \<Longrightarrow> \<not> q (f x)"
  shows "List.find q (update_first p f xs) = List.find q xs"
  using assms by (induction xs) auto

lemma set_update_first:
  "y \<in> set (update_first p f xs) \<Longrightarrow> y \<in> set xs \<or> (\<exists>x\<in>set xs. p x \<and> y = f x)"
  by (induction xs) (auto split: if_splits)

text \<open>
  \<open>for x in xs: if x not in acc: acc.append(x)\<close>: the elements in order of first occurrence.
\<close>

fun add_new :: "'a list \<Rightarrow> 'a list \<Rightarrow> 'a list" where
  "add_new acc [] = acc"
| "add_new acc (x # xs) = add_new (if x \<in> set acc then acc else acc @ [x]) xs"

lemma set_add_new [simp]: "set (add_new acc xs) = set acc \<union> set xs"
  by (induction acc xs rule: add_new.induct) auto

lemma distinct_add_new: "distinct acc \<Longrightarrow> distinct (add_new acc xs)"
  by (induction acc xs rule: add_new.induct) auto

lemma add_new_distinct:
  "distinct (acc @ xs) \<Longrightarrow> add_new acc xs = acc @ xs"
  by (induction acc xs rule: add_new.induct) auto

lemma add_new_subset: "set xs \<subseteq> set acc \<Longrightarrow> add_new acc xs = acc"
  by (induction acc xs rule: add_new.induct) auto

text \<open>\<open>sorted(set(xs))\<close>, and \<open>sorted(xs, reverse=True)\<close>, which keeps the order of equal keys.\<close>

definition sorted_set :: "'a::linorder list \<Rightarrow> 'a list" where
  "sorted_set xs = sort (remdups xs)"

definition sort_desc :: "('a \<Rightarrow> 'b::linorder) \<Rightarrow> 'a list \<Rightarrow> 'a list" where
  "sort_desc f xs = rev (sort_key f (rev xs))"

lemma sorted_set_props [simp]:
  "set (sorted_set xs) = set xs" "sorted (sorted_set xs)" "distinct (sorted_set xs)"
  by (simp_all add: sorted_set_def)

lemma sorted_set_idem [simp]: "sorted_set (sorted_set xs) = sorted_set xs"
  by (simp add: sorted_set_def sorted_sort_id)

lemma sort_desc_props [simp]:
  "set (sort_desc f xs) = set xs" "length (sort_desc f xs) = length xs"
  "mset (sort_desc f xs) = mset xs"
  by (simp_all add: sort_desc_def)

lemma sort_desc_sorted: "sorted_wrt (\<lambda>x y. f y \<le> f x) (sort_desc f xs)"
proof -
  have "sorted_wrt (\<lambda>x y. f x \<le> f y) (sort_key f (rev xs))"
    using sorted_sort_key [of f "rev xs"] by (simp add: sorted_map)
  then show ?thesis by (simp add: sort_desc_def sorted_wrt_rev)
qed

text \<open>\<open>xs[:n]\<close>: a negative bound counts from the end.\<close>

definition slice_to :: "int \<Rightarrow> 'a list \<Rightarrow> 'a list" where
  "slice_to n xs = (if 0 \<le> n then take (nat n) xs else take (length xs - nat (- n)) xs)"

lemma set_slice_to: "set (slice_to n xs) \<subseteq> set xs"
  by (auto simp: slice_to_def dest: in_set_takeD)

lemma length_slice_to: "0 \<le> n \<Longrightarrow> length (slice_to n xs) = min (nat n) (length xs)"
  by (simp add: slice_to_def min.commute)

text \<open>A dictionary in insertion order is an association list: \<open>AList.update\<close> is \<open>d[k] = v\<close>.\<close>

type_synonym ('k, 'v) dict = "('k \<times> 'v) list"

definition dict_get :: "('k, 'v) dict \<Rightarrow> 'k \<Rightarrow> 'v option" where
  "dict_get d k = map_of d k"

definition dict_set :: "'k \<Rightarrow> 'v \<Rightarrow> ('k, 'v) dict \<Rightarrow> ('k, 'v) dict" where
  "dict_set k v d = AList.update k v d"

definition dict_merge :: "('k, 'v) dict \<Rightarrow> ('k, 'v) dict \<Rightarrow> ('k, 'v) dict" where
  "dict_merge d e = foldl (\<lambda>acc (k, v). dict_set k v acc) d e"

lemma dict_get_set [simp]:
  "dict_get (dict_set k v d) k' = (if k' = k then Some v else dict_get d k')"
  by (simp add: dict_get_def dict_set_def update_conv')

lemma dict_get_Nil [simp]: "dict_get [] k = None"
  by (simp add: dict_get_def)

lemma dict_keys_set: "fst ` set (dict_set k v d) = insert k (fst ` set d)"
  by (simp add: dict_set_def dom_update)

lemma distinct_dict_set [simp]: "distinct (map fst d) \<Longrightarrow> distinct (map fst (dict_set k v d))"
  by (simp add: dict_set_def distinct_update)

section \<open>JSON values\<close>

text \<open>
  The values of untyped dictionaries (\<open>dict[str, Any]\<close>). Python floats are modelled as
  reals: the model computes exactly where the machine rounds to 53 bits.
\<close>

datatype json =
    JNull
  | JBool bool
  | JInt int
  | JFloat real
  | JStr string
  | JArr "json list"
  | JObj "(string \<times> json) list"

type_synonym json_obj = "(string, json) dict"

definition opt_str :: "string option \<Rightarrow> json" where
  "opt_str v = (case v of None \<Rightarrow> JNull | Some s \<Rightarrow> JStr s)"

section \<open>Files\<close>

text \<open>
  What reading a document file can give: the file does not exist, the system refuses to read it,
  it is not syntactically valid, it is empty, it holds something other than a mapping, it does
  not have the shape of the schema (the message is pydantic's), or it holds a document.
\<close>

datatype 'a doc_file =
    Absent
  | Unreadable
  | BadSyntax
  | EmptyDoc
  | NotMapping
  | BadShape string
  | Doc 'a

definition file_exists :: "'a doc_file \<Rightarrow> bool" where
  "file_exists f = (case f of Absent \<Rightarrow> False | _ \<Rightarrow> True)"

section \<open>The environment\<close>

text \<open>
  What the program reads from outside and does not control: the clock, fresh identifiers, the
  outcome of each write, the hash function, the regular expression engine. Each is a function of
  how many times it was consulted before (the counters are in the world), so every reading may
  differ, or a function of its arguments.
\<close>

record file_entry =
  fe_content :: string
  fe_mtime :: real

type_synonym file_system = "string \<rightharpoonup> file_entry"

text \<open>
  \<open>run_process\<close> is \<open>subprocess.run\<close>: the exit code with the captured output, or the exception,
  and the project's files after the command. \<open>parse_json\<close> is \<open>json.loads\<close>, \<open>str_of\<close> is
  \<open>str(value)\<close>, \<open>coerce_int\<close> and \<open>coerce_float\<close> are pydantic's lax conversions.
\<close>

record env =
  root_path :: string
  now_at :: "nat \<Rightarrow> string"
  iso_now_at :: "nat \<Rightarrow> string"
  elapsed_ms_at :: "nat \<Rightarrow> real"
  epoch_ms_at :: "nat \<Rightarrow> int"
  uuid_at :: "nat \<Rightarrow> string"
  uuid_hex_at :: "nat \<Rightarrow> string"
  write_ok_at :: "nat \<Rightarrow> string \<Rightarrow> bool"
  sha256_hex :: "string \<Rightarrow> string"
  re_search :: "string \<Rightarrow> string \<Rightarrow> exn + bool"
  run_process :: "nat \<Rightarrow> string list \<Rightarrow> int \<Rightarrow> file_system \<Rightarrow>
    (exn + int \<times> string \<times> string) \<times> file_system"
  parse_json :: "string \<Rightarrow> exn + json"
  str_of :: "json \<Rightarrow> string"
  coerce_int :: "json \<Rightarrow> int option"
  coerce_float :: "json \<Rightarrow> real option"
  format_mtime :: "real \<Rightarrow> string"
  parse_time :: "string \<Rightarrow> real option"

text \<open>\<open>int(x)\<close> of a float truncates towards zero.\<close>

definition trunc :: "real \<Rightarrow> int" where
  "trunc r = (if 0 \<le> r then \<lfloor>r\<rfloor> else \<lceil>r\<rceil>)"

end
