(* ===== verification/Schemas.thy ===== *)
theory Schemas imports Prelude begin

text \<open>
  The data of the program: the pydantic models of \<open>schemas/\<close>, \<open>gates/models.py\<close>,
  \<open>events/model.py\<close>, \<open>memory/models.py\<close>, \<open>context/models.py\<close> and the dataclasses of
  \<open>hooks/registry.py\<close>. A model class is a record, a \<open>Literal\<close> or a string enumeration a
  datatype with its text. Record fields carry a prefix of the class, since field names of
  different classes coincide. An untyped dictionary is an association list of JSON values.
\<close>

section \<open>Pipeline state (schemas/state.py)\<close>

datatype stage_status = NotStarted | Active | Blocked | ReviewNeeded | Complete | Skipped

primrec stage_status_text :: "stage_status \<Rightarrow> string" where
  "stage_status_text NotStarted = ''not_started''"
| "stage_status_text Active = ''active''"
| "stage_status_text Blocked = ''blocked''"
| "stage_status_text ReviewNeeded = ''review_needed''"
| "stage_status_text Complete = ''complete''"
| "stage_status_text Skipped = ''skipped''"

record stage_state =
  stg_id :: string
  stg_status :: stage_status
  stg_entered_at :: "string option"
  stg_completed_at :: "string option"
  stg_blocked_reason :: "string option"
  stg_artifacts :: "string list"
  stg_extra :: json_obj

record pipeline_state =
  ps_schema_version :: string
  ps_project_id :: string
  ps_profile :: string
  ps_current :: "string option"
  ps_stages :: "stage_state list"
  ps_gates :: json_obj
  ps_last_event_id :: "string option"
  ps_created_at :: string
  ps_updated_at :: string
  ps_metadata :: json_obj
  ps_extra :: json_obj

text \<open>\<open>model_dump\<close>: the fields in declaration order, then the extra keys.\<close>

definition dump_stage :: "stage_state \<Rightarrow> json" where
  "dump_stage s = JObj ([
     (''stage_id'', JStr (stg_id s)),
     (''status'', JStr (stage_status_text (stg_status s))),
     (''entered_at'', opt_str (stg_entered_at s)),
     (''completed_at'', opt_str (stg_completed_at s)),
     (''blocked_reason'', opt_str (stg_blocked_reason s)),
     (''artifacts'', JArr (map JStr (stg_artifacts s)))] @ stg_extra s)"

definition dump_state :: "pipeline_state \<Rightarrow> json_obj" where
  "dump_state s = [
     (''schema_version'', JStr (ps_schema_version s)),
     (''project_id'', JStr (ps_project_id s)),
     (''profile'', JStr (ps_profile s)),
     (''current_stage_id'', opt_str (ps_current s)),
     (''stages'', JArr (map dump_stage (ps_stages s))),
     (''gates'', JObj (ps_gates s)),
     (''last_event_id'', opt_str (ps_last_event_id s)),
     (''created_at'', JStr (ps_created_at s)),
     (''updated_at'', JStr (ps_updated_at s)),
     (''metadata'', JObj (ps_metadata s))] @ ps_extra s"

section \<open>Configuration (schemas/config.py)\<close>

record project_config =
  pc_name :: string
  pc_root_policy :: string

record security_config =
  sc_profile :: string

record hooks_config =
  hc_enabled :: bool

record forge_config =
  cf_schema_version :: string
  cf_project :: project_config
  cf_profile :: string
  cf_default_adapter :: string
  cf_adapters :: "(string, json_obj) dict"
  cf_security :: security_config
  cf_hooks :: hooks_config
  cf_features :: json_obj

definition supported_profiles :: "string list" where
  "supported_profiles = [''minimal'', ''standard'', ''expert'']"

text \<open>
  The two field validators raise the \<open>ConfigError\<close> of \<open>schemas/config.py\<close>, which is not the
  class of the same name in \<open>config/loader.py\<close> and which pydantic does not turn into a
  \<open>ValidationError\<close>.
\<close>

definition check_config_fields :: "forge_config \<Rightarrow> exn + forge_config" where
  "check_config_fields c =
     (if strip (cf_schema_version c) = []
      then Inl (SchemaConfigError ''Invalid Forge config. `schema_version` is required'')
      else if strip (cf_default_adapter c) = []
      then Inl (SchemaConfigError ''Invalid Forge config. `default_adapter` is required'')
      else Inr c)"

section \<open>Gates (gates/models.py)\<close>

record gate_criterion =
  gc_id :: string
  gc_name :: string
  gc_type :: string
  gc_stage_id :: "string option"
  gc_severity :: string
  gc_enabled :: bool
  gc_criteria :: json_obj
  gc_timeout_seconds :: "int option"

record gate_result =
  gr_gate_id :: string
  gr_stage_id :: "string option"
  gr_status :: string
  gr_summary :: string
  gr_details :: json_obj
  gr_started_at :: string
  gr_finished_at :: string
  gr_duration_ms :: int
  gr_blocking :: bool
  gr_fix_hint :: "string option"
  gr_metadata :: json_obj

record external_command_gate =
  ecg_id :: string
  ecg_name :: string
  ecg_command :: "string list"
  ecg_timeout_seconds :: int
  ecg_severity :: string
  ecg_enabled :: bool

record metric_threshold_gate =
  mtg_id :: string
  mtg_name :: string
  mtg_metric_file :: string
  mtg_metric_key :: string
  mtg_threshold :: real
  mtg_operator :: string
  mtg_severity :: string
  mtg_enabled :: bool

definition dump_gate_result :: "gate_result \<Rightarrow> json" where
  "dump_gate_result r = JObj [
     (''gate_id'', JStr (gr_gate_id r)),
     (''stage_id'', opt_str (gr_stage_id r)),
     (''status'', JStr (gr_status r)),
     (''summary'', JStr (gr_summary r)),
     (''details'', JObj (gr_details r)),
     (''started_at'', JStr (gr_started_at r)),
     (''finished_at'', JStr (gr_finished_at r)),
     (''duration_ms'', JInt (gr_duration_ms r)),
     (''blocking'', JBool (gr_blocking r)),
     (''fix_hint'', opt_str (gr_fix_hint r)),
     (''metadata'', JObj (gr_metadata r))]"

section \<open>Lifecycle events and hooks (events/model.py, hooks/)\<close>

definition event_types :: "string list" where
  "event_types = [
     ''SessionStart'', ''UserPromptSubmit'', ''StageStarted'', ''StageCompleted'',
     ''StageBlocked'', ''StageOverride'', ''GateStarted'', ''GateCompleted'', ''Stop'',
     ''SubagentStop'', ''SessionEnd'', ''ArtifactChanged'', ''HookStarted'', ''HookCompleted'',
     ''HookFailed'', ''HookTimedOut'', ''BacktrackTicketCreated'', ''BacktrackTicketApproved'',
     ''BacktrackReworkStarted'', ''BacktrackReworkCompleted'', ''SecurityActionAudited'',
     ''ACPRegistryDiscovered'', ''ACPAgentInstalled'', ''ACPSessionStarted'',
     ''ACPSessionClosed'', ''ExternalCommandGateEvaluated'', ''MetricThresholdGateEvaluated'',
     ''StateSaved'', ''TokenBudgetExceeded'']"

record event_actor =
  ea_type :: string
  ea_id :: string

record lifecycle_event =
  ev_schema_version :: string
  ev_id :: string
  ev_correlation_id :: "string option"
  ev_type :: string
  ev_timestamp :: string
  ev_session_id :: "string option"
  ev_stage_id :: "string option"
  ev_actor :: event_actor
  ev_payload :: json_obj
  ev_redactions :: "string list"

text \<open>
  A hook is any callable. The model of one invocation is how it ends: it returns, it raises, or
  it is still running when the timeout expires.
\<close>

datatype hook_outcome = HookReturns | HookRaises string | HookOverruns

record registered_hook =
  hk_event_type :: string
  hk_name :: string
  hk_handler :: "lifecycle_event \<Rightarrow> hook_outcome"
  hk_order :: int
  hk_timeout_seconds :: real
  hk_blocking :: bool

record hook_result =
  hr_hook_name :: string
  hr_status :: string
  hr_error :: "string option"
  hr_duration_ms :: real

record hook_timing =
  ht_event_type :: string
  ht_hook_name :: string
  ht_status :: string
  ht_duration_ms :: real
  ht_recorded_at :: string

section \<open>Memory (memory/models.py)\<close>

datatype lesson_status = LsPending | LsApproved | LsDeprecated

datatype lesson_source = SrcManual | SrcInferred | SrcReflection

record lesson =
  ls_id :: string
  ls_text :: string
  ls_status :: lesson_status
  ls_confidence :: real
  ls_tags :: "string list"
  ls_stage_id :: "string option"
  ls_source :: lesson_source
  ls_created_at :: string
  ls_updated_at :: string
  ls_approved_at :: "string option"
  ls_deprecated_at :: "string option"
  ls_last_used_at :: "string option"
  ls_use_count :: int
  ls_dormant :: bool
  ls_dormant_at :: "string option"
  ls_metadata :: json_obj

record lesson_document =
  ld_schema_version :: string
  ld_lessons :: "lesson list"

record reflection =
  rf_id :: string
  rf_stage_id :: "string option"
  rf_event_type :: string
  rf_summary :: string
  rf_observations :: "string list"
  rf_lesson_ids :: "string list"
  rf_created_at :: string
  rf_metadata :: json_obj

text \<open>\<open>memory/global_store.py\<close> and \<open>memory/project_profiles.py\<close>: the documents under \<open>~/.forge\<close>.\<close>

record lesson_usage =
  gu_lesson_id :: string
  gu_project_paths :: "string list"
  gu_usage_count :: int
  gu_first_used_at :: string
  gu_last_used_at :: string

record global_document =
  gd_lessons :: "lesson list"
  gd_usage :: "lesson_usage list"

record project_profile =
  pp_project_path :: string
  pp_languages :: "string list"
  pp_frameworks :: "string list"
  pp_tools :: "string list"
  pp_patterns :: "string list"
  pp_last_updated :: string

section \<open>Artifacts and context selections (context/models.py)\<close>

datatype artifact_status = Fresh | Stale | MissingArtifact

primrec artifact_status_text :: "artifact_status \<Rightarrow> string" where
  "artifact_status_text Fresh = ''fresh''"
| "artifact_status_text Stale = ''stale''"
| "artifact_status_text MissingArtifact = ''missing''"

record artifact =
  art_id :: string
  art_path :: string
  art_stage_id :: "string option"
  art_kind :: string
  art_status :: artifact_status
  art_dependencies :: "string list"
  art_dependents :: "string list"
  art_content_hash :: "string option"
  art_modified_at :: "string option"
  art_token_estimate :: nat
  art_registered_at :: string
  art_updated_at :: string
  art_metadata :: json_obj

record graph_node =
  gn_id :: string
  gn_path :: string
  gn_stage_id :: "string option"
  gn_status :: artifact_status

record graph_edge =
  ge_source :: string
  ge_target :: string

record artifact_graph =
  ag_nodes :: "graph_node list"
  ag_edges :: "graph_edge list"

record selected_item =
  si_artifact_id :: string
  si_path :: string
  si_priority :: nat
  si_token_estimate :: nat
  si_reason :: string
  si_content :: string

record omitted_item =
  oi_path :: string
  oi_reason :: string
  oi_token_estimate :: nat

record context_selection =
  cs_selection_id :: string
  cs_stage_id :: string
  cs_token_budget :: int
  cs_total_tokens :: nat
  cs_selected :: "selected_item list"
  cs_omitted :: "omitted_item list"
  cs_created_at :: string

section \<open>Backtrack tickets (schemas/backtrack.py)\<close>

datatype ticket_status = TkOpen | TkApproved | TkInProgress | TkResolved | TkRejected

record ticket =
  tk_id :: string
  tk_status :: ticket_status
  tk_reason :: string
  tk_source_stage :: string
  tk_target_stage :: string
  tk_affected :: "string list"
  tk_requires_approval :: bool
  tk_created_at :: string
  tk_resolved_at :: "string option"

section \<open>Security (schemas/security.py)\<close>

datatype security_policy = PolAllow | PolDeny | PolPrompt

datatype security_decision = DecAllowed | DecDenied | DecWarned | DecFailed

primrec policy_text :: "security_policy \<Rightarrow> string" where
  "policy_text PolAllow = ''allow''"
| "policy_text PolDeny = ''deny''"
| "policy_text PolPrompt = ''prompt''"

primrec decision_text :: "security_decision \<Rightarrow> string" where
  "decision_text DecAllowed = ''allowed''"
| "decision_text DecDenied = ''denied''"
| "decision_text DecWarned = ''warned''"
| "decision_text DecFailed = ''failed''"

record capability_rule =
  cr_capability :: string
  cr_policy :: security_policy
  cr_requires_approval :: bool
  cr_timeout_seconds :: "int option"

record security_profile =
  sp_profile_id :: string
  sp_default_policy :: security_policy
  sp_capabilities :: "capability_rule list"
  sp_audit_enabled :: bool

record audit_entry =
  ae_audit_id :: string
  ae_timestamp :: string
  ae_actor :: json_obj
  ae_action :: string
  ae_target :: json
  ae_capability :: "string option"
  ae_decision :: security_decision
  ae_reason :: "string option"

section \<open>Channels (schemas/channel.py)\<close>

datatype trust_level = Untrusted | Trusted

primrec trust_text :: "trust_level \<Rightarrow> string" where
  "trust_text Untrusted = ''untrusted''"
| "trust_text Trusted = ''trusted''"

record channel_message =
  cm_channel_id :: string
  cm_sender :: string
  cm_text :: string
  cm_trust_level :: trust_level

record channel_identity =
  ci_channel_id :: string
  ci_sender :: string
  ci_forge_identity :: "string option"
  ci_bound :: bool
  ci_pairing_code :: "string option"

record feedback_item =
  fb_id :: string
  fb_channel_id :: string
  fb_sender :: string
  fb_text :: string
  fb_trust_level :: trust_level
  fb_created_at :: string
  fb_status :: string

section \<open>Daemon state (schemas/daemon.py)\<close>

datatype task_outcome = TaskOk | TaskError

datatype alert_severity = SevInfo | SevWarning | SevCritical

record daemon_task_state =
  dt_last_run_at :: "string option"
  dt_last_status :: "task_outcome option"
  dt_runs :: int
  dt_failures :: int
  dt_last_error :: "string option"

record daemon_alert =
  da_id :: string
  da_created_at :: string
  da_source :: string
  da_severity :: alert_severity
  da_message :: string
  da_metadata :: json_obj

record daemon_state =
  ds_daemon_id :: string
  ds_pid :: int
  ds_project_root :: string
  ds_started_at :: string
  ds_last_heartbeat :: "string option"
  ds_tasks :: "(string, daemon_task_state) dict"
  ds_alerts :: "daemon_alert list"

section \<open>Agents (agents/models.py, adapters/base.py)\<close>

record output_artifact =
  oa_path :: string
  oa_kind :: string
  oa_description :: "string option"

record agent_definition =
  ad_id :: string
  ad_name :: string
  ad_category :: string
  ad_role :: string
  ad_prompt :: string
  ad_stage_ids :: "string list"
  ad_default_tools :: "string list"
  ad_output_contract_id :: "string option"

record contract_requirement =
  cq_id :: string
  cq_type :: string
  cq_path :: string
  cq_description :: "string option"
  cq_blocking :: bool

record output_contract =
  oc_id :: string
  oc_stage_id :: string
  oc_persona_id :: string
  oc_required :: "contract_requirement list"

record contract_check =
  ck_requirement_id :: string
  ck_passed :: bool
  ck_blocking :: bool
  ck_summary :: string

record contract_result =
  cv_contract_id :: string
  cv_stage_id :: string
  cv_passed :: bool
  cv_checks :: "contract_check list"

record agent_handle =
  ah_handle_id :: string
  ah_provider :: string
  ah_persona_id :: string
  ah_stage_id :: "string option"
  ah_status :: string
  ah_outputs :: "output_artifact list"
  ah_metadata :: json_obj

record agent_run =
  ar_run_id :: string
  ar_adapter :: string
  ar_handle_id :: string
  ar_persona_id :: string
  ar_stage_id :: string
  ar_status :: string
  ar_started_at :: string
  ar_completed_at :: string
  ar_outputs :: "output_artifact list"
  ar_contract :: contract_result
  ar_metadata :: json_obj

section \<open>Extensions (schemas/extension.py)\<close>

datatype extension_point = KernelAdapterPoint | StageAgentPoint | GateCriteriaPoint | ProfilePackPoint

record extension_manifest =
  em_schema_version :: string
  em_name :: string
  em_version :: string
  em_point :: extension_point
  em_entry_point :: string
  em_description :: string
  em_permissions :: "string list"
  em_signed :: bool
  em_forge_min_version :: "string option"

record installed_extension =
  ix_manifest :: extension_manifest
  ix_source_path :: string
  ix_installed_at :: string
  ix_signature_verified :: bool

section \<open>Trace spans (schemas/tracing.py)\<close>

datatype span_kind = ReasoningSpan | AuditSpan

datatype span_status = SpanUnset | SpanOk | SpanError

record span =
  sx_trace_id :: string
  sx_span_id :: string
  sx_parent :: "string option"
  sx_name :: string
  sx_kind :: span_kind
  sx_start :: string
  sx_end :: "string option"
  sx_status :: span_status
  sx_attributes :: json_obj

section \<open>The observer (schemas/observer.py)\<close>

record observer_config =
  oc_enabled :: bool
  oc_poll_interval :: real
  oc_cleanup_interval :: real
  oc_health_interval :: real
  oc_metrics_interval :: real
  oc_stale_max_age :: real

record agent_metrics =
  mt_uptime_seconds :: real
  mt_restarts :: int
  mt_last_check :: "string option"

record observer_metrics =
  om_collected_at :: "string option"
  om_agents :: "(string \<times> agent_metrics) list"

end
