(* ===== verification/World.thy ===== *)
theory World imports Schemas begin

text \<open>
  The state a Forge process works on: the files of the project (\<open>.forge/\<close>, \<open>pipeline/\<close> and the
  project's own files), the daemon's state file, the SQLite event store, and the counters that
  index the readings of the environment. Every operation of the components is a program over
  this record.
\<close>

text \<open>A line of a JSONL log: blank, unreadable as the record type, or a record.\<close>

datatype 'a log_line = BlankLine | BadLine string | GoodLine 'a

record event_row =
  er_event_id :: nat
  er_stream_id :: string
  er_event_type :: string
  er_payload :: json_obj
  er_version :: nat

record snapshot_row =
  sr_stream_id :: string
  sr_state :: json_obj
  sr_event_version :: nat

record event_db =
  db_rows :: "event_row list"
  db_seq :: nat
  db_snapshots :: "snapshot_row list"

record world =
  w_clock :: nat
  w_uuids :: nat
  w_writes :: nat
  w_fs :: file_system
  w_config :: "forge_config doc_file"
  w_state :: "pipeline_state doc_file"
  w_state_md :: "string option"
  w_events :: "lifecycle_event log_line list option"
  w_timings :: "hook_timing log_line list option"
  w_db :: event_db
  w_gates :: "gate_criterion list doc_file"
  w_lessons :: "lesson_document doc_file"
  w_reflections :: "(string \<times> reflection doc_file) list option"
  w_artifacts :: "artifact list doc_file"
  w_graph :: "artifact_graph option"
  w_selections :: "context_selection list"
  w_stages_yaml :: bool
  w_tickets :: "ticket list doc_file"
  w_audit :: "audit_entry list option"
  w_identities :: "channel_identity list doc_file"
  w_feedback :: "feedback_item log_line list option"
  w_daemon :: "daemon_state doc_file"
  w_global :: "global_document doc_file"
  w_profiles :: "project_profile list doc_file"
  w_skills :: "(string \<times> json_obj doc_file) list option"
  w_personas :: "(string \<times> agent_definition doc_file) list"
  w_contracts :: "(string \<times> output_contract doc_file) list"
  w_agent_runs :: "agent_run list"
  w_extensions :: "installed_extension list doc_file"
  w_spans :: "span list option"
  w_backups :: "(nat \<times> forge_config doc_file) list"
  w_acp_installed :: "json doc_file"
  w_acp_cache :: "json option"
  w_acp_cache_file :: "json option"
  w_acp_files :: "string \<rightharpoonup> string"
  w_requests :: nat
  w_metrics :: "observer_metrics doc_file"
  w_claude_dir :: bool

definition empty_db :: event_db where
  "empty_db = \<lparr>db_rows = [], db_seq = 0, db_snapshots = []\<rparr>"

definition empty_world :: world where
  "empty_world = \<lparr>
     w_clock = 0, w_uuids = 0, w_writes = 0, w_fs = Map.empty, w_config = Absent,
     w_state = Absent, w_state_md = None, w_events = None, w_timings = None, w_db = empty_db,
     w_gates = Absent, w_lessons = Absent, w_reflections = None, w_artifacts = Absent,
     w_graph = None, w_selections = [], w_stages_yaml = False, w_tickets = Absent,
     w_audit = None, w_identities = Absent, w_feedback = None, w_daemon = Absent,
     w_global = Absent, w_profiles = Absent,
     w_skills = None, w_personas = [], w_contracts = [], w_agent_runs = [],
     w_extensions = Absent, w_spans = None, w_backups = [],
     w_acp_installed = Absent, w_acp_cache = None, w_acp_cache_file = None, w_acp_files = Map.empty, w_requests = 0, w_metrics = Absent,
     w_claude_dir = False\<rparr>"

section \<open>Reading the environment\<close>

definition utc_now :: "env \<Rightarrow> (world, string) prog" where
  "utc_now E = (\<lambda>w. (Inr (now_at E (w_clock w)), w\<lparr>w_clock := Suc (w_clock w)\<rparr>))"

definition iso_now :: "env \<Rightarrow> (world, string) prog" where
  "iso_now E = (\<lambda>w. (Inr (iso_now_at E (w_clock w)), w\<lparr>w_clock := Suc (w_clock w)\<rparr>))"

definition elapsed_ms :: "env \<Rightarrow> (world, real) prog" where
  "elapsed_ms E = (\<lambda>w. (Inr (elapsed_ms_at E (w_clock w)), w\<lparr>w_clock := Suc (w_clock w)\<rparr>))"

definition epoch_ms :: "env \<Rightarrow> (world, int) prog" where
  "epoch_ms E = (\<lambda>w. (Inr (epoch_ms_at E (w_clock w)), w\<lparr>w_clock := Suc (w_clock w)\<rparr>))"

definition uuid4 :: "env \<Rightarrow> (world, string) prog" where
  "uuid4 E = (\<lambda>w. (Inr (uuid_at E (w_uuids w)), w\<lparr>w_uuids := Suc (w_uuids w)\<rparr>))"

definition uuid4_hex :: "env \<Rightarrow> (world, string) prog" where
  "uuid4_hex E = (\<lambda>w. (Inr (uuid_hex_at E (w_uuids w)), w\<lparr>w_uuids := Suc (w_uuids w)\<rparr>))"

lemmas env_reads = utc_now_def iso_now_def elapsed_ms_def epoch_ms_def uuid4_def uuid4_hex_def

declare env_reads [prog_simps]

text \<open>
  One attempt to write a file: the system accepts it, and the new content is in place, or it
  refuses, and the file is as it was. A write that tears a file (possible for the stores that do
  not write through a temporary file) is outside the model.
\<close>

definition write_file :: "env \<Rightarrow> string \<Rightarrow> (world \<Rightarrow> world) \<Rightarrow> (world, unit) prog" where
  "write_file E path put = (\<lambda>w.
     let w1 = w\<lparr>w_writes := Suc (w_writes w)\<rparr> in
     if write_ok_at E (w_writes w) path then (Inr (), put w1)
     else (Inl (OSError path), w1))"

definition writes_succeed :: "env \<Rightarrow> bool" where
  "writes_succeed E \<longleftrightarrow> (\<forall>n p. write_ok_at E n p)"

lemma write_file_run [prog_simps]:
  "write_file E path put w =
     (if write_ok_at E (w_writes w) path
      then (Inr (), put (w\<lparr>w_writes := Suc (w_writes w)\<rparr>))
      else (Inl (OSError path), w\<lparr>w_writes := Suc (w_writes w)\<rparr>))"
  by (simp add: write_file_def Let_def)

lemma write_file_ok:
  "writes_succeed E \<Longrightarrow> write_file E path put w = (Inr (), put (w\<lparr>w_writes := Suc (w_writes w)\<rparr>))"
  by (simp add: write_file_run writes_succeed_def)

lemma env_reads_unchanged [frame_intros]:
  assumes "\<And>w n. f (w\<lparr>w_clock := n\<rparr>) = f w" and "\<And>w n. f (w\<lparr>w_uuids := n\<rparr>) = f w"
  shows "unchanged f (utc_now E)" "unchanged f (iso_now E)" "unchanged f (elapsed_ms E)"
    "unchanged f (epoch_ms E)" "unchanged f (uuid4 E)" "unchanged f (uuid4_hex E)"
  using assms by (simp_all add: unchanged_def env_reads)

lemma write_file_unchanged [frame_intros]:
  assumes "\<And>w n. f (w\<lparr>w_writes := n\<rparr>) = f w" and "\<And>w. f (put w) = f w"
  shows "unchanged f (write_file E path put)"
  using assms by (auto simp: unchanged_def write_file_run)

section \<open>A concrete environment\<close>

text \<open>An environment to run the model in: the clock counts, every write succeeds.\<close>

definition demo_env :: env where
  "demo_env = \<lparr>
     root_path = ''/p'',
     now_at = (\<lambda>n. ''t'' @ show_nat n),
     iso_now_at = (\<lambda>n. ''l'' @ show_nat n),
     elapsed_ms_at = (\<lambda>_. 1),
     epoch_ms_at = (\<lambda>n. int n),
     uuid_at = (\<lambda>n. ''u'' @ show_nat n),
     uuid_hex_at = (\<lambda>n. ''abcdef0'' @ show_nat n),
     write_ok_at = (\<lambda>_ _. True),
     sha256_hex = (\<lambda>s. s),
     re_search = (\<lambda>p s. Inr (is_substring p s)),
     run_process = (\<lambda>_ _ _ fs. (Inr (0, [], []), fs)),
     parse_json = (\<lambda>s. Inr (JStr s)),
     str_of = (\<lambda>_. ''value''),
     coerce_int = (\<lambda>j. case j of JInt i \<Rightarrow> Some i | _ \<Rightarrow> None),
     coerce_float = (\<lambda>j. case j of JFloat r \<Rightarrow> Some r | JInt i \<Rightarrow> Some (of_int i) | _ \<Rightarrow> None),
     format_mtime = (\<lambda>_. ''mtime''),
     parse_time = (\<lambda>s. case s of [] \<Rightarrow> None | c # cs \<Rightarrow> Some (of_nat (length cs)))\<rparr>"

lemma demo_env_writes [simp]: "writes_succeed demo_env"
  by (simp add: writes_succeed_def demo_env_def)

end
