(* ===== verification/Interfaces.thy ===== *)
theory Interfaces imports World begin

text \<open>
  The interfaces between the components, as locales over an arbitrary world.

  \<^item> \<open>journal\<close>: an append-only log. Providers: the event log, the hook timing log, the security
    audit log.
  \<^item> \<open>document_store\<close>: a file that holds one document, read and written as a whole. Providers: the
    configuration, the lesson store, the global lessons and profiles, the ticket registry, the
    daemon state, the channel identities, the extension index. What is proved of \<open>edit\<close> holds of
    every operation of that shape (adding a lesson or changing its status, recording an extension).
  \<^item> \<open>transition_system\<close>: a state type, initial states, steps and an invariant, with the
    invariant's laws; \<open>progressing_system\<close> adds a measure that falls. Providers: the pipeline's
    life cycle and its work, the life cycle of a ticket.
\<close>

section \<open>Append-only logs\<close>

locale journal =
  fixes append :: "'e \<Rightarrow> ('w, unit) prog"
    and entries :: "'w \<Rightarrow> 'e list"
  assumes append_ok: "append e w = (Inr (), w') \<Longrightarrow> entries w' = entries w @ [e]"
    and append_refused: "append e w = (Inl x, w') \<Longrightarrow> entries w' = entries w"
begin

text \<open>One append leaves every earlier entry in place, whatever its outcome.\<close>

lemma append_grows: "\<exists>es. entries (snd (append e w)) = entries w @ es \<and> set es \<subseteq> {e}"
proof (cases "append e w")
  case (Pair r w')
  then show ?thesis
  proof (cases r)
    case (Inl x)
    with Pair have "entries w' = entries w" by (blast intro: append_refused)
    with Pair show ?thesis by (intro exI [of _ "[]"]) simp
  next
    case (Inr u)
    with Pair have "entries w' = entries w @ [e]" by (auto intro: append_ok)
    with Pair show ?thesis by (intro exI [of _ "[e]"]) simp
  qed
qed

lemma append_keeps_entry: "x \<in> set (entries w) \<Longrightarrow> x \<in> set (entries (snd (append e w)))"
  using append_grows [of e w] by auto

lemma append_length: "length (entries w) \<le> length (entries (snd (append e w)))"
  using append_grows [of e w] by auto

text \<open>A program that only appends grows the log: the rule for longer programs.\<close>

definition grows :: "('w, 'a) prog \<Rightarrow> bool" where
  "grows m \<longleftrightarrow> (\<forall>w. \<exists>es. entries (snd (m w)) = entries w @ es)"

lemma grows_append: "grows (append e)"
  using append_grows unfolding grows_def by blast

lemma grows_unchanged: "unchanged entries m \<Longrightarrow> grows m"
  by (auto simp: grows_def unchanged_def)

lemma grows_bindp:
  assumes "grows m" and "\<And>x. grows (f x)"
  shows "grows (bindp m f)"
  unfolding grows_def
proof
  fix w
  obtain r w1 where m: "m w = (r, w1)" by (cases "m w")
  from assms(1) m obtain es where es: "entries w1 = entries w @ es"
    unfolding grows_def by (metis snd_conv)
  show "\<exists>es. entries (snd (bindp m f w)) = entries w @ es"
  proof (cases r)
    case (Inl e)
    with m es show ?thesis by (simp add: bindp_run)
  next
    case (Inr x)
    from assms(2) obtain es' where "entries (snd (f x w1)) = entries w1 @ es'"
      unfolding grows_def by blast
    with m es Inr show ?thesis by (simp add: bindp_run)
  qed
qed

lemma grows_thenp: "grows m \<Longrightarrow> grows n \<Longrightarrow> grows (thenp m n)"
  by (simp add: thenp_def grows_bindp)

lemma growsD: "grows m \<Longrightarrow> m w = (r, w') \<Longrightarrow> \<exists>es. entries w' = entries w @ es"
  unfolding grows_def by (metis snd_conv)

end

section \<open>Document stores\<close>

text \<open>
  The shape of every mutating operation of a store: load the document, look something up in it
  (which may raise), read the clock or a fresh identifier, save the changed document and return.
\<close>

definition edit :: "('w, 'd) prog \<Rightarrow> ('d \<Rightarrow> ('w, unit) prog) \<Rightarrow> ('d \<Rightarrow> exn + 'k) \<Rightarrow> ('w, 'x) prog
    \<Rightarrow> ('k \<Rightarrow> 'x \<Rightarrow> 'd \<Rightarrow> 'd) \<Rightarrow> ('k \<Rightarrow> 'x \<Rightarrow> 'y) \<Rightarrow> ('w, 'y) prog" where
  "edit load save look m f res =
     bindp load (\<lambda>d. bindp (lift_result (look d)) (\<lambda>k. bindp m (\<lambda>x.
       thenp (save (f k x d)) (ret (res k x)))))"

lemma edit_unchanged [frame_intros]:
  "unchanged f load \<Longrightarrow> (\<And>d. unchanged f (save d)) \<Longrightarrow> unchanged f m \<Longrightarrow>
   unchanged f (edit load save look m g res)"
  unfolding edit_def by (intro frame_intros) auto

text \<open>
  \<open>load\<close> reads the document, or raises, and writes nothing. \<open>valid\<close> is the invariant of the
  documents the schema's validators let through. After \<open>save d\<close> of a valid document has returned,
  \<open>load\<close> gives it back; after \<open>save d\<close> has raised, the store is as it was.
\<close>

locale document_store =
  fixes load :: "('w, 'd) prog"
    and save :: "'d \<Rightarrow> ('w, unit) prog"
    and valid :: "'d \<Rightarrow> bool"
  assumes load_pure: "snd (load w) = w"
    and save_load: "valid d \<Longrightarrow> save d w = (Inr (), w') \<Longrightarrow> fst (load w') = Inr d"
    and save_refused: "save d w = (Inl x, w') \<Longrightarrow> fst (load w') = fst (load w)"
    and load_valid: "fst (load w) = Inr d \<Longrightarrow> valid d"
begin

definition contents :: "'w \<Rightarrow> exn + 'd" where
  "contents w = fst (load w)"

lemma load_run: "load w = (contents w, w)"
  by (metis contents_def load_pure prod.collapse)

lemma save_contents: "valid d \<Longrightarrow> save d w = (Inr (), w') \<Longrightarrow> contents w' = Inr d"
  by (simp add: contents_def save_load)

lemma contents_valid: "contents w = Inr d \<Longrightarrow> valid d"
  by (simp add: contents_def load_valid)

text \<open>
  An edit that returns has put the changed document in place; one that raises has left the store
  as it was, so no partial update is ever visible.
\<close>

lemma edit_ok:
  assumes run: "edit load save look m f res w = (Inr y, w')"
    and m: "unchanged contents m"
    and keep: "\<And>d k x w1 w2. valid d \<Longrightarrow> look d = Inr k \<Longrightarrow> m w1 = (Inr x, w2) \<Longrightarrow> valid (f k x d)"
  shows "\<exists>d k x w1 w2. contents w = Inr d \<and> look d = Inr k \<and> m w1 = (Inr x, w2) \<and>
    contents w' = Inr (f k x d) \<and> y = res k x"
proof -
  from run obtain d k x w1 where
    d: "contents w = Inr d" "look d = Inr k" "m w = (Inr x, w1)"
      "save (f k x d) w1 = (Inr (), w')" "y = res k x"
    by (auto simp: edit_def prog_simps load_run split: sum.splits prod.splits)
  from d(1) have "valid d" by (rule contents_valid)
  with d keep have "contents w' = Inr (f k x d)" by (blast intro: save_contents)
  with d show ?thesis by blast
qed

lemma edit_refused:
  assumes run: "edit load save look m f res w = (Inl e, w')" and m: "unchanged contents m"
  shows "contents w' = contents w"
proof (cases "contents w")
  case (Inl x)
  with run show ?thesis by (auto simp: edit_def bindp_run load_run)
next
  case (Inr d)
  show ?thesis
  proof (cases "look d")
    case (Inl x)
    with run Inr show ?thesis by (auto simp: edit_def bindp_run load_run lift_result_run)
  next
    case look: (Inr k)
    obtain r w1 where m1: "m w = (r, w1)" by (cases "m w")
    with m have eq: "contents w1 = contents w" by (rule unchanged_result)
    show ?thesis
    proof (cases r)
      case (Inl x)
      with run Inr look m1 eq show ?thesis
        by (auto simp: edit_def bindp_run load_run lift_result_run)
    next
      case r: (Inr x)
      with run Inr look m1 have "save (f k x d) w1 = (Inl e, w')"
        by (auto simp: edit_def prog_simps load_run split: sum.splits prod.splits)
      then have "contents w' = contents w1" unfolding contents_def by (rule save_refused)
      with eq show ?thesis by simp
    qed
  qed
qed

lemma save_all_or_nothing:
  assumes "valid d"
  shows "contents (snd (save d w)) = Inr d \<or> contents (snd (save d w)) = contents w"
proof (cases "save d w")
  case (Pair r w')
  show ?thesis
  proof (cases r)
    case (Inl x)
    with Pair have "fst (load w') = fst (load w)" by (blast intro: save_refused)
    with Pair show ?thesis by (simp add: contents_def)
  next
    case (Inr u)
    with Pair assms have "contents w' = Inr d" by (auto intro: save_contents)
    with Pair show ?thesis by simp
  qed
qed

end

section \<open>Transition systems\<close>

locale transition_system =
  fixes init :: "'s \<Rightarrow> bool"
    and step :: "'s \<Rightarrow> 's \<Rightarrow> bool"
    and invariant :: "'s \<Rightarrow> bool"
  assumes init_inv: "init s \<Longrightarrow> invariant s"
    and step_inv: "step s t \<Longrightarrow> invariant s \<Longrightarrow> invariant t"
begin

lemma steps_inv: "step\<^sup>*\<^sup>* s t \<Longrightarrow> invariant s \<Longrightarrow> invariant t"
  by (induction rule: rtranclp_induct) (auto intro: step_inv)

lemma reachable_inv: "init s \<Longrightarrow> step\<^sup>*\<^sup>* s t \<Longrightarrow> invariant t"
  by (blast intro: steps_inv init_inv)

end

text \<open>
  A transition system whose steps only move forward along a measure: no step is taken twice in
  the same direction, and a run is never longer than the measure of its start.
\<close>

locale progressing_system = transition_system init step invariant
  for init :: "'s \<Rightarrow> bool" and step and invariant +
  fixes rank :: "'s \<Rightarrow> nat"
  assumes step_rank: "step s t \<Longrightarrow> invariant s \<Longrightarrow> rank t < rank s"
begin

lemma run_length: "(step ^^ n) s t \<Longrightarrow> invariant s \<Longrightarrow> n + rank t \<le> rank s"
proof (induction n arbitrary: t)
  case 0
  then show ?case by simp
next
  case (Suc n)
  then obtain u where u: "(step ^^ n) s u" "step u t" by auto
  then have "invariant u" using Suc.prems(2) steps_inv relpowp_imp_rtranclp by metis
  with u have "rank t < rank u" by (blast intro: step_rank)
  moreover from Suc u have "n + rank u \<le> rank s" by blast
  ultimately show ?case by simp
qed

end

end
