(* ===== verification/Lifecycle.thy ===== *)
theory Lifecycle imports Interfaces begin

text \<open>
  The abstract specification of the pipeline: a list of stages with their status and the current
  stage, and the four moves it can make. The state manager is shown to implement it (theory
  \<open>StateManager\<close>): whatever an operation writes to \<open>state.json\<close>, and however it ends, the state
  moved along these steps only.
\<close>

section \<open>States and moves\<close>

record lifecycle =
  lc_stages :: "(string \<times> stage_status) list"
  lc_current :: "string option"

datatype move = Start string | Complete_it string | Block string | Override string

inductive lstep :: "move \<Rightarrow> lifecycle \<Rightarrow> lifecycle \<Rightarrow> bool" where
  start: "lc_stages s = xs @ (sid, st) # ys \<Longrightarrow> st \<notin> {Active, Complete} \<Longrightarrow>
    \<forall>x\<in>set (lc_stages s). snd x \<noteq> Active \<Longrightarrow> xs = [] \<or> snd (last xs) = Complete \<Longrightarrow>
    lstep (Start sid) s \<lparr>lc_stages = xs @ (sid, Active) # ys, lc_current = Some sid\<rparr>"
| complete: "lc_stages s = xs @ (sid, Active) # ys \<Longrightarrow>
    lstep (Complete_it sid) s \<lparr>lc_stages = xs @ (sid, Complete) # ys, lc_current = None\<rparr>"
| block: "lc_stages s = xs @ (sid, Active) # ys \<Longrightarrow>
    lstep (Block sid) s (s\<lparr>lc_stages := xs @ (sid, Blocked) # ys\<rparr>)"
| override: "sid \<in> fst ` set (lc_stages s) \<Longrightarrow>
    lstep (Override sid) s \<lparr>lc_stages = map (\<lambda>(x, st). if x = sid then (x, Active)
        else if st = Active then (x, Blocked) else (x, st)) (lc_stages s),
      lc_current = Some sid\<rparr>"

inductive_cases lstep_StartE: "lstep (Start sid) s t"
inductive_cases lstep_CompleteE: "lstep (Complete_it sid) s t"
inductive_cases lstep_BlockE: "lstep (Block sid) s t"
inductive_cases lstep_OverrideE: "lstep (Override sid) s t"

lemmas lstep_cases = lstep_StartE lstep_CompleteE lstep_BlockE lstep_OverrideE

fun lrun :: "move list \<Rightarrow> lifecycle \<Rightarrow> lifecycle \<Rightarrow> bool" where
  "lrun [] s t = (s = t)"
| "lrun (m # ms) s t = (\<exists>u. lstep m s u \<and> lrun ms u t)"

lemma lrun_append: "lrun (ms @ ns) s t \<longleftrightarrow> (\<exists>u. lrun ms s u \<and> lrun ns u t)"
  by (induction ms arbitrary: s) auto

section \<open>The invariant of every run\<close>

text \<open>
  Stage identifiers are distinct, at most one stage is active, an active stage is the current
  one, and the current stage is a stage of the pipeline that is active or blocked.
\<close>

definition active_ids :: "lifecycle \<Rightarrow> string list" where
  "active_ids s = map fst (filter (\<lambda>x. snd x = Active) (lc_stages s))"

definition lc_inv :: "lifecycle \<Rightarrow> bool" where
  "lc_inv s \<longleftrightarrow> distinct (map fst (lc_stages s)) \<and>
     (\<forall>x\<in>set (lc_stages s). snd x = Active \<longrightarrow> lc_current s = Some (fst x)) \<and>
     (\<forall>c. lc_current s = Some c \<longrightarrow> (c, Active) \<in> set (lc_stages s) \<or> (c, Blocked) \<in> set (lc_stages s))"

lemma lstep_ids: "lstep m s t \<Longrightarrow> map fst (lc_stages t) = map fst (lc_stages s)"
  by (induction rule: lstep.induct) auto

lemma lstep_inv: "lstep m s t \<Longrightarrow> lc_inv s \<Longrightarrow> lc_inv t"
proof -
  assume step: "lstep m s t" and inv: "lc_inv s"
  have d: "distinct (map fst (lc_stages t))"
    using inv lstep_ids [OF step] by (simp add: lc_inv_def)
  show ?thesis
    using step
  proof cases
    case (start xs sid st ys)
    with inv d show ?thesis by (auto simp: lc_inv_def)
  next
    case (complete xs sid ys)
    with inv d show ?thesis by (auto simp: lc_inv_def rev_image_eqI)
  next
    case (block xs sid ys)
    have "lc_current s = Some sid" using inv block(3) by (simp add: lc_inv_def)
    moreover from this have "\<forall>x\<in>set xs \<union> set ys. snd x = Active \<longrightarrow> sid = fst x"
      using inv block(3) by (auto simp: lc_inv_def)
    ultimately show ?thesis using d block(2) by (simp add: lc_inv_def ball_Un)
  next
    case (override sid)
    then obtain b where b: "(sid, b) \<in> set (lc_stages s)" by auto
    have "(sid, Active) \<in> set (lc_stages t)"
      unfolding override(2) using b by (auto intro!: image_eqI [of _ _ "(sid, b)"])
    moreover have "\<forall>x\<in>set (lc_stages t). snd x = Active \<longrightarrow> fst x = sid"
      unfolding override(2) by (auto split: if_splits)
    moreover have "lc_current t = Some sid" unfolding override(2) by simp
    ultimately show ?thesis using d by (simp add: lc_inv_def)
  qed
qed

lemma lc_inv_one_active: "lc_inv s \<Longrightarrow> length (active_ids s) \<le> 1"
proof -
  assume inv: "lc_inv s"
  have "set (active_ids s) \<subseteq> set_option (lc_current s)"
    using inv by (auto simp: active_ids_def lc_inv_def)
  then have "card (set (active_ids s)) \<le> 1"
    using card_mono [of "set_option (lc_current s)" "set (active_ids s)"]
    by (cases "lc_current s") auto
  moreover have "distinct (active_ids s)"
    using inv by (simp add: active_ids_def lc_inv_def distinct_map_filter)
  ultimately show ?thesis by (metis distinct_card)
qed

text \<open>The initial states: a non-empty pipeline with its first stage active, the others not started.\<close>

definition lc_init :: "lifecycle \<Rightarrow> bool" where
  "lc_init s \<longleftrightarrow> (\<exists>sid rest. s = \<lparr>lc_stages = (sid, Active) # map (\<lambda>x. (x, NotStarted)) rest,
     lc_current = Some sid\<rparr> \<and> distinct (sid # rest))"

lemma lc_init_inv: "lc_init s \<Longrightarrow> lc_inv s"
  by (auto simp: lc_init_def lc_inv_def comp_def)

interpretation lifecycle: transition_system lc_init "\<lambda>s t. \<exists>m. lstep m s t" lc_inv
  by unfold_locales (auto intro: lc_init_inv lstep_inv)

lemma lrun_inv: "lrun ms s t \<Longrightarrow> lc_inv s \<Longrightarrow> lc_inv t"
  by (induction ms arbitrary: s) (auto intro: lstep_inv)

lemma lrun_ids: "lrun ms s t \<Longrightarrow> map fst (lc_stages t) = map fst (lc_stages s)"
proof (induction ms arbitrary: s)
  case (Cons m ms)
  then obtain u where "lstep m s u" "lrun ms u t" by auto
  with Cons.IH [of u] lstep_ids [of m s u] show ?case by simp
qed simp

section \<open>Runs without overrides\<close>

text \<open>
  Without overrides the stages are worked on strictly in order: the complete stages are a prefix,
  at most one stage after it has been touched, and everything behind it has not started.
\<close>

definition in_order :: "lifecycle \<Rightarrow> bool" where
  "in_order s \<longleftrightarrow> (\<exists>done todo. lc_stages s = done @ todo \<and> (\<forall>x\<in>set done. snd x = Complete) \<and>
     (todo \<noteq> [] \<longrightarrow> snd (hd todo) \<in> {NotStarted, Active, Blocked}) \<and>
     (\<forall>x\<in>set (tl todo). snd x = NotStarted))"

definition forward :: "lifecycle \<Rightarrow> lifecycle \<Rightarrow> bool" where
  "forward s t \<longleftrightarrow> (\<exists>m. lstep m s t \<and> (\<forall>sid. m \<noteq> Override sid))"

lemma lc_init_in_order: "lc_init s \<Longrightarrow> in_order s"
proof -
  assume "lc_init s"
  then obtain sid rest where "lc_stages s = (sid, Active) # map (\<lambda>x. (x, NotStarted)) rest"
    by (auto simp: lc_init_def)
  then show ?thesis
    unfolding in_order_def by (intro exI [of _ "[]"] exI [of _ "lc_stages s"]) auto
qed

text \<open>The stage that is neither complete nor untouched is the first of the rest.\<close>

lemma in_order_split:
  assumes "in_order s" and "lc_stages s = xs @ (sid, st) # ys"
    and "st \<noteq> Complete" and "st \<noteq> NotStarted \<or> xs = [] \<or> snd (last xs) = Complete"
  shows "(\<forall>x\<in>set xs. snd x = Complete) \<and> (\<forall>y\<in>set ys. snd y = NotStarted)"
proof -
  from assms(1) obtain d t where dt: "lc_stages s = d @ t" "\<forall>x\<in>set d. snd x = Complete"
    "t \<noteq> [] \<longrightarrow> snd (hd t) \<in> {NotStarted, Active, Blocked}" "\<forall>x\<in>set (tl t). snd x = NotStarted"
    unfolding in_order_def by blast
  from assms(2) dt(1) have "xs @ (sid, st) # ys = d @ t" by simp
  then consider us where "xs = d @ us" "t = us @ (sid, st) # ys"
    | us where "d = xs @ us" "(sid, st) # ys = us @ t"
    by (auto simp: append_eq_append_conv2)
  then show ?thesis
  proof cases
    case 1
    show ?thesis
    proof (cases us)
      case Nil
      with 1 dt show ?thesis by auto
    next
      case (Cons u us')
      with 1 dt(4) have "st = NotStarted" "\<forall>x\<in>set us'. snd x = NotStarted" by auto
      with assms(4) have "xs = [] \<or> snd (last xs) = Complete" by simp
      with 1 Cons have "snd (last us) = Complete" by simp
      moreover have "\<forall>x\<in>set us. snd x \<noteq> Complete" using 1 Cons dt(3,4) by auto
      ultimately show ?thesis using Cons by (metis last_in_set list.distinct(1))
    qed
  next
    case 2
    then show ?thesis
    proof (cases us)
      case Nil
      with 2 dt show ?thesis by (cases t) auto
    next
      case (Cons u us')
      with 2 dt(2) assms(3) show ?thesis by auto
    qed
  qed
qed

lemma in_orderI:
  assumes "\<forall>x\<in>set xs. snd x = Complete" and "\<forall>y\<in>set ys. snd y = NotStarted"
    and "lc_stages s = xs @ (sid, st) # ys" and "st \<in> {NotStarted, Active, Blocked, Complete}"
  shows "in_order s"
proof (cases "st = Complete")
  case True
  with assms show ?thesis
    unfolding in_order_def
    by (intro exI [of _ "xs @ [(sid, st)]"] exI [of _ ys]) (cases ys; simp)
next
  case False
  with assms show ?thesis
    unfolding in_order_def by (intro exI [of _ xs] exI [of _ "(sid, st) # ys"]) auto
qed

lemma forward_in_order:
  assumes "forward s t" and "in_order s"
  shows "in_order t"
proof -
  from assms(1) obtain m where m: "lstep m s t" "\<And>sid. m \<noteq> Override sid"
    by (auto simp: forward_def)
  from m(1) show ?thesis
  proof cases
    case (start xs sid st ys)
    have "(\<forall>x\<in>set xs. snd x = Complete) \<and> (\<forall>y\<in>set ys. snd y = NotStarted)"
      by (rule in_order_split [OF assms(2) start(3)]) (use start(4,6) in simp_all)
    then show ?thesis using start(2) by (intro in_orderI [of xs ys t sid Active]) simp_all
  next
    case (complete xs sid ys)
    have "(\<forall>x\<in>set xs. snd x = Complete) \<and> (\<forall>y\<in>set ys. snd y = NotStarted)"
      by (rule in_order_split [OF assms(2) complete(3)]) simp_all
    then show ?thesis using complete(2) by (intro in_orderI [of xs ys t sid Complete]) simp_all
  next
    case (block xs sid ys)
    have "(\<forall>x\<in>set xs. snd x = Complete) \<and> (\<forall>y\<in>set ys. snd y = NotStarted)"
      by (rule in_order_split [OF assms(2) block(3)]) simp_all
    then show ?thesis using block(2) by (intro in_orderI [of xs ys t sid Blocked]) simp_all
  next
    case (override sid)
    with m(2) show ?thesis by blast
  qed
qed

lemma lrun_in_order: "lrun ms s t \<Longrightarrow> \<forall>sid. Override sid \<notin> set ms \<Longrightarrow> in_order s \<Longrightarrow> in_order t"
proof (induction ms arbitrary: s)
  case (Cons m ms)
  then obtain u where u: "lstep m s u" "lrun ms u t" by auto
  with Cons.prems(2) have "forward s u" by (auto simp: forward_def)
  then have "in_order u" using Cons.prems(3) by (rule forward_in_order)
  with Cons.IH [OF u(2)] Cons.prems(2) show ?case by simp
qed simp

section \<open>Progress\<close>

text \<open>
  The work left: two moves for a stage that is not active, one for an active stage. Starting and
  completing reduce it, so a run of such moves is at most twice as long as the pipeline.
\<close>

definition effort :: "stage_status \<Rightarrow> nat" where
  "effort st = (case st of Complete \<Rightarrow> 0 | Active \<Rightarrow> 1 | _ \<Rightarrow> 2)"

definition work_left :: "lifecycle \<Rightarrow> nat" where
  "work_left s = sum_list (map (effort \<circ> snd) (lc_stages s))"

definition progress :: "lifecycle \<Rightarrow> lifecycle \<Rightarrow> bool" where
  "progress s t \<longleftrightarrow> (\<exists>sid. lstep (Start sid) s t \<or> lstep (Complete_it sid) s t)"

lemma progress_work: "progress s t \<Longrightarrow> work_left t < work_left s"
  by (auto simp: progress_def work_left_def effort_def elim!: lstep_cases
      split: stage_status.splits)

lemma work_left_bound: "work_left s \<le> 2 * length (lc_stages s)"
proof -
  have "sum_list (map (effort \<circ> snd) xs) \<le> 2 * length xs" for xs :: "(string \<times> stage_status) list"
  proof (induction xs)
    case (Cons x xs)
    have "effort (snd x) \<le> 2" by (cases "snd x") (simp_all add: effort_def)
    with Cons show ?case by simp
  qed simp
  then show ?thesis by (simp add: work_left_def)
qed

interpretation pipeline_work: progressing_system lc_init progress lc_inv work_left
proof unfold_locales
  fix s t assume "progress s t" "lc_inv s"
  then show "lc_inv t" by (auto simp: progress_def intro: lstep_inv)
next
  fix s t assume "progress s t" "lc_inv s"
  then show "work_left t < work_left s" by (intro progress_work)
qed (rule lc_init_inv)

lemma progress_run_bound:
  assumes "(progress ^^ n) s t" and "lc_inv s"
  shows "n \<le> 2 * length (lc_stages s)"
  using pipeline_work.run_length [OF assms] work_left_bound [of s] by simp

end
