(* ===== verification/Hooks.thy ===== *)
theory Hooks imports Interfaces begin

text \<open>
  Lifecycle hooks: \<open>hooks/registry.py\<close> and \<open>hooks/timing.py\<close>. A registry is the list of
  registered hooks in registration order. \<open>run_hooks\<close> is the loop of \<open>HookRegistry.run\<close>; the
  thread pool of \<open>_run_one\<close> is reduced to the outcome of the handler (\<open>hook_outcome\<close>).
\<close>

section \<open>Registration and order\<close>

definition register :: "string \<Rightarrow> (lifecycle_event \<Rightarrow> hook_outcome) \<Rightarrow> string option \<Rightarrow> string
    \<Rightarrow> int \<Rightarrow> real \<Rightarrow> bool \<Rightarrow> registered_hook list \<Rightarrow> registered_hook list" where
  "register event_type handler name handler_name order timeout blocking hooks =
     hooks @ [\<lparr>hk_event_type = event_type,
       hk_name = (case name of Some (c # cs) \<Rightarrow> c # cs | _ \<Rightarrow> handler_name),
       hk_handler = handler, hk_order = order, hk_timeout_seconds = timeout,
       hk_blocking = blocking\<rparr>]"

definition hooks_for :: "string \<Rightarrow> registered_hook list \<Rightarrow> registered_hook list" where
  "hooks_for event_type hooks =
     sort_key (\<lambda>h. (hk_order h, hk_name h)) (filter (\<lambda>h. hk_event_type h = event_type) hooks)"

lemma set_hooks_for [simp]:
  "set (hooks_for t hooks) = {h \<in> set hooks. hk_event_type h = t}"
  by (simp add: hooks_for_def)

lemma hooks_for_sorted: "sorted (map (\<lambda>h. (hk_order h, hk_name h)) (hooks_for t hooks))"
  by (simp add: hooks_for_def)

lemma hooks_for_mset:
  "mset (hooks_for t hooks) = filter_mset (\<lambda>h. hk_event_type h = t) (mset hooks)"
  by (simp add: hooks_for_def)

lemma hooks_for_register:
  "mset (hooks_for t (register t' f n hn i s b hooks)) =
     (if t' = t
      then add_mset \<lparr>hk_event_type = t',
        hk_name = (case n of Some (c # cs) \<Rightarrow> c # cs | _ \<Rightarrow> hn),
        hk_handler = f, hk_order = i, hk_timeout_seconds = s, hk_blocking = b\<rparr>
        (mset (hooks_for t hooks))
      else mset (hooks_for t hooks))"
  by (simp add: hooks_for_mset register_def)

section \<open>Running hooks\<close>

definition run_one :: "env \<Rightarrow> registered_hook \<Rightarrow> lifecycle_event \<Rightarrow> (world, hook_result) prog" where
  "run_one E h ev = bindp (elapsed_ms E) (\<lambda>d. ret (case hk_handler h ev of
       HookOverruns \<Rightarrow> \<lparr>hr_hook_name = hk_name h, hr_status = ''timed_out'',
         hr_error = Some ''timeout'', hr_duration_ms = d\<rparr>
     | HookRaises m \<Rightarrow> \<lparr>hr_hook_name = hk_name h, hr_status = ''failed'',
         hr_error = Some m, hr_duration_ms = d\<rparr>
     | HookReturns \<Rightarrow> \<lparr>hr_hook_name = hk_name h, hr_status = ''succeeded'',
         hr_error = None, hr_duration_ms = d\<rparr>))"

text \<open>\<open>str(x)\<close> of an optional string in a message.\<close>

definition none_text :: "string option \<Rightarrow> string" where
  "none_text v = (case v of None \<Rightarrow> ''None'' | Some s \<Rightarrow> s)"

fun run_loop :: "env \<Rightarrow> lifecycle_event \<Rightarrow> registered_hook list \<Rightarrow> hook_result list
    \<Rightarrow> (world, hook_result list) prog" where
  "run_loop E ev [] results = ret results"
| "run_loop E ev (h # hs) results = bindp (run_one E h ev) (\<lambda>r.
     if hk_blocking h \<and> hr_status r \<noteq> ''succeeded''
     then throw (RuntimeError (''Blocking hook `'' @ hk_name h @ ''` failed: '' @
            none_text (hr_error r)))
     else run_loop E ev hs (results @ [r]))"

definition run_hooks :: "env \<Rightarrow> registered_hook list \<Rightarrow> lifecycle_event
    \<Rightarrow> (world, hook_result list) prog" where
  "run_hooks E hooks ev = run_loop E ev (hooks_for (ev_type ev) hooks) []"

text \<open>A hook stops the event when it is blocking and does not return in time.\<close>

definition stops :: "lifecycle_event \<Rightarrow> registered_hook \<Rightarrow> bool" where
  "stops ev h \<longleftrightarrow> hk_blocking h \<and> hk_handler h ev \<noteq> HookReturns"

definition outcome_status :: "hook_outcome \<Rightarrow> string" where
  "outcome_status out = (case out of HookReturns \<Rightarrow> ''succeeded'' | HookRaises _ \<Rightarrow> ''failed''
     | HookOverruns \<Rightarrow> ''timed_out'')"

lemma run_one_run:
  "\<exists>r. run_one E h ev w = (Inr r, w\<lparr>w_clock := Suc (w_clock w)\<rparr>) \<and>
     hr_hook_name r = hk_name h \<and> hr_status r = outcome_status (hk_handler h ev)"
  by (cases "hk_handler h ev") (simp_all add: run_one_def prog_simps outcome_status_def)

lemma outcome_succeeded [simp]: "outcome_status out = ''succeeded'' \<longleftrightarrow> out = HookReturns"
  by (cases out) (simp_all add: outcome_status_def)

lemma run_loop_unchanged:
  assumes "\<And>w n. f (w\<lparr>w_clock := n\<rparr>) = f w"
  shows "unchanged f (run_loop E ev hs results)"
proof (induction hs arbitrary: results)
  case Nil
  show ?case by (simp add: frame_intros)
next
  case (Cons h hs)
  have "unchanged f (run_one E h ev)"
    using assms by (auto simp: run_one_def unchanged_def prog_simps)
  with Cons.IH show ?case by (auto intro!: frame_intros)
qed

lemma run_hooks_unchanged:
  "(\<And>w n. f (w\<lparr>w_clock := n\<rparr>) = f w) \<Longrightarrow> unchanged f (run_hooks E hooks ev)"
  by (simp add: run_hooks_def run_loop_unchanged)

text \<open>
  The loop reaches the end exactly when no hook stops the event; then there is one result per
  hook, in order, with the status of its outcome.
\<close>

lemma run_loop_ok:
  "\<forall>h\<in>set hs. \<not> stops ev h \<Longrightarrow> \<exists>rs w'. run_loop E ev hs results w = (Inr (results @ rs), w') \<and>
     map hr_hook_name rs = map hk_name hs \<and>
     map hr_status rs = map (\<lambda>h. outcome_status (hk_handler h ev)) hs"
proof (induction hs arbitrary: results w)
  case Nil
  then show ?case by (simp add: prog_simps)
next
  case (Cons h hs)
  obtain r where r: "run_one E h ev w = (Inr r, w\<lparr>w_clock := Suc (w_clock w)\<rparr>)"
      "hr_hook_name r = hk_name h" "hr_status r = outcome_status (hk_handler h ev)"
    using run_one_run by blast
  let ?w = "w\<lparr>w_clock := Suc (w_clock w)\<rparr>"
  from Cons.prems r have go: "\<not> (hk_blocking h \<and> hr_status r \<noteq> ''succeeded'')"
    by (auto simp: stops_def)
  from Cons.prems have "\<forall>h\<in>set hs. \<not> stops ev h" by simp
  from Cons.IH [OF this, of "results @ [r]" ?w] obtain rs w' where
    "run_loop E ev hs (results @ [r]) ?w = (Inr (results @ r # rs), w')"
    "map hr_hook_name rs = map hk_name hs"
    "map hr_status rs = map (\<lambda>h. outcome_status (hk_handler h ev)) hs" by auto
  with r go show ?case by (intro exI [of _ "r # rs"] exI [of _ w']) (auto simp: bindp_run)
qed

lemma run_loop_stopped:
  "\<exists>h\<in>set hs. stops ev h \<Longrightarrow> \<exists>m w'. run_loop E ev hs results w = (Inl (RuntimeError m), w')"
proof (induction hs arbitrary: results w)
  case Nil
  then show ?case by simp
next
  case (Cons h hs)
  obtain r where r: "run_one E h ev w = (Inr r, w\<lparr>w_clock := Suc (w_clock w)\<rparr>)"
      "hr_status r = outcome_status (hk_handler h ev)"
    using run_one_run by blast
  show ?case
  proof (cases "stops ev h")
    case True
    with r show ?thesis by (auto simp: stops_def prog_simps)
  next
    case False
    with Cons.prems have "\<exists>h\<in>set hs. stops ev h" by simp
    from Cons.IH [OF this, of "results @ [r]"] r False show ?thesis
      by (auto simp: stops_def bindp_run)
  qed
qed

definition stopped :: "registered_hook list \<Rightarrow> lifecycle_event \<Rightarrow> bool" where
  "stopped hooks ev \<longleftrightarrow> (\<exists>h\<in>set hooks. hk_event_type h = ev_type ev \<and> stops ev h)"

lemma run_hooks_ok:
  "\<not> stopped hooks ev \<Longrightarrow> \<exists>rs w'. run_hooks E hooks ev w = (Inr rs, w') \<and>
     map hr_hook_name rs = map hk_name (hooks_for (ev_type ev) hooks) \<and>
     map hr_status rs = map (\<lambda>h. outcome_status (hk_handler h ev)) (hooks_for (ev_type ev) hooks)"
  using run_loop_ok [of "hooks_for (ev_type ev) hooks" ev E "[]" w]
  by (auto simp: run_hooks_def stopped_def)

lemma run_hooks_stopped:
  "stopped hooks ev \<Longrightarrow> \<exists>m w'. run_hooks E hooks ev w = (Inl (RuntimeError m), w')"
  using run_loop_stopped [of "hooks_for (ev_type ev) hooks" ev E "[]" w]
  by (auto simp: run_hooks_def stopped_def)

lemma stopped_Nil [simp]: "\<not> stopped [] ev"
  by (simp add: stopped_def)

section \<open>Hook timings (hooks/timing.py)\<close>

definition forge_path :: "env \<Rightarrow> string \<Rightarrow> string" where
  "forge_path E name = root_path E @ ''/.forge/'' @ name"

definition timing_append :: "env \<Rightarrow> hook_timing list \<Rightarrow> (world, unit) prog" where
  "timing_append E timings =
     (if timings = [] then ret ()
      else write_file E (forge_path E ''hook-timings.jsonl'')
        (\<lambda>w. w\<lparr>w_timings := Some (case w_timings w of None \<Rightarrow> map GoodLine timings
                                  | Some ls \<Rightarrow> ls @ map GoodLine timings)\<rparr>))"

fun good_lines :: "'a log_line list \<Rightarrow> 'a list" where
  "good_lines [] = []"
| "good_lines (BlankLine # ls) = good_lines ls"
| "good_lines (BadLine _ # ls) = good_lines ls"
| "good_lines (GoodLine x # ls) = x # good_lines ls"

definition timing_read_all :: "world \<Rightarrow> hook_timing list" where
  "timing_read_all w = (case w_timings w of None \<Rightarrow> [] | Some ls \<Rightarrow> good_lines ls)"

lemma good_lines_append [simp]: "good_lines (xs @ ys) = good_lines xs @ good_lines ys"
  by (induction xs rule: good_lines.induct) auto

lemma good_lines_map [simp]: "good_lines (map GoodLine xs) = xs"
  by (induction xs) auto

interpretation timings: journal "\<lambda>t. timing_append E [t]" timing_read_all
  by unfold_locales
    (auto simp: timing_append_def timing_read_all_def prog_simps split: if_splits option.splits)

lemma timing_append_unchanged [frame_intros]:
  assumes "\<And>w n. f (w\<lparr>w_writes := n\<rparr>) = f w" and "\<And>w x. f (w\<lparr>w_timings := x\<rparr>) = f w"
  shows "unchanged f (timing_append E ts)"
  using assms by (auto simp: timing_append_def intro!: frame_intros)

end
