(* ===== verification/Events.thy ===== *)
theory Events imports Hooks begin

text \<open>
  Lifecycle events: \<open>events/model.py\<close> (building a normalized event), \<open>events/log.py\<close> (the JSONL
  log) and \<open>events/bus.py\<close> (append, then dispatch hooks, then record their timings).
\<close>

section \<open>Building an event\<close>

definition new_event :: "env \<Rightarrow> string \<Rightarrow> string option \<Rightarrow> string option \<Rightarrow> string option
    \<Rightarrow> string \<Rightarrow> string \<Rightarrow> json_obj \<Rightarrow> (world, lifecycle_event) prog" where
  "new_event E event_type stage_id session_id correlation_id actor_type actor_id payload =
     bindp (uuid4 E) (\<lambda>u. bindp (utc_now E) (\<lambda>t.
       if event_type \<notin> set event_types then throw (ValidationError event_type)
       else ret \<lparr>ev_schema_version = ''0.1'', ev_id = ''evt-'' @ u,
         ev_correlation_id = correlation_id, ev_type = event_type, ev_timestamp = t,
         ev_session_id = session_id, ev_stage_id = stage_id,
         ev_actor = \<lparr>ea_type = actor_type, ea_id = actor_id\<rparr>,
         ev_payload = payload, ev_redactions = []\<rparr>))"

lemma new_event_unchanged [frame_intros]:
  assumes "\<And>w n. f (w\<lparr>w_clock := n\<rparr>) = f w" and "\<And>w n. f (w\<lparr>w_uuids := n\<rparr>) = f w"
  shows "unchanged f (new_event E t s se c ty i p)"
  unfolding new_event_def using assms by (intro frame_intros) auto

lemma new_event_ok:
  "t \<in> set event_types \<Longrightarrow> \<exists>ev. new_event E t s se c ty i p w =
     (Inr ev, w\<lparr>w_uuids := Suc (w_uuids w), w_clock := Suc (w_clock w)\<rparr>) \<and>
     ev_type ev = t \<and> ev_stage_id ev = s \<and> ev_payload ev = p \<and>
     ev_actor ev = \<lparr>ea_type = ty, ea_id = i\<rparr> \<and> ev_session_id ev = se \<and> ev_correlation_id ev = c"
  by (simp add: new_event_def prog_simps)

section \<open>The event log\<close>

definition events_path :: "env \<Rightarrow> string" where
  "events_path E = forge_path E ''events.jsonl''"

definition append_event :: "env \<Rightarrow> lifecycle_event \<Rightarrow> (world, unit) prog" where
  "append_event E ev = write_file E (events_path E)
     (\<lambda>w. w\<lparr>w_events := Some (case w_events w of None \<Rightarrow> [GoodLine ev]
                              | Some ls \<Rightarrow> ls @ [GoodLine ev])\<rparr>)"

fun read_lines :: "string \<Rightarrow> nat \<Rightarrow> lifecycle_event log_line list \<Rightarrow> exn + lifecycle_event list" where
  "read_lines path n [] = Inr []"
| "read_lines path n (BlankLine # ls) = read_lines path (Suc n) ls"
| "read_lines path n (BadLine m # ls) =
     Inl (EventLogError (''Invalid event log line '' @ show_nat n @ '' in '' @ path))"
| "read_lines path n (GoodLine ev # ls) =
     (case read_lines path (Suc n) ls of Inl e \<Rightarrow> Inl e | Inr evs \<Rightarrow> Inr (ev # evs))"

definition read_events :: "env \<Rightarrow> (world, lifecycle_event list) prog" where
  "read_events E = bindp (asks w_events) (\<lambda>log. case log of
       None \<Rightarrow> ret []
     | Some ls \<Rightarrow> lift_result (read_lines (events_path E) 1 ls))"

fun filter_events :: "string option \<Rightarrow> string option \<Rightarrow> lifecycle_event list
    \<Rightarrow> lifecycle_event list" where
  "filter_events event_type stage_id [] = []"
| "filter_events event_type stage_id (ev # evs) =
     (if event_type \<noteq> None \<and> Some (ev_type ev) \<noteq> event_type
      then filter_events event_type stage_id evs
      else if stage_id \<noteq> None \<and> ev_stage_id ev \<noteq> stage_id
      then filter_events event_type stage_id evs
      else ev # filter_events event_type stage_id evs)"

definition log_entries :: "world \<Rightarrow> lifecycle_event list" where
  "log_entries w = (case w_events w of None \<Rightarrow> [] | Some ls \<Rightarrow> good_lines ls)"

lemma append_event_unchanged [frame_intros]:
  assumes "\<And>w n. f (w\<lparr>w_writes := n\<rparr>) = f w" and "\<And>w x. f (w\<lparr>w_events := x\<rparr>) = f w"
  shows "unchanged f (append_event E ev)"
  using assms by (auto simp: append_event_def intro!: frame_intros)

interpretation event_log: journal "append_event E" log_entries for E
  by unfold_locales
    (auto simp: append_event_def log_entries_def prog_simps split: if_splits option.splits)

lemma read_lines_append:
  "read_lines p n (xs @ ys) =
     (case read_lines p n xs of Inl e \<Rightarrow> Inl e
      | Inr es \<Rightarrow> map_sum id (\<lambda>es'. es @ es') (read_lines p (n + length xs) ys))"
proof (induction p n xs rule: read_lines.induct)
  case (1 path n)
  then show ?case by (cases "read_lines path n ys") auto
next
  case (2 path n ls)
  then show ?case by (cases "read_lines path (Suc n) ls") auto
next
  case (4 path n ev ls)
  then show ?case
    by (cases "read_lines path (Suc n) ls"; cases "read_lines path (Suc (n + length ls)) ys") auto
qed auto

lemma read_lines_good: "read_lines p n (map GoodLine evs) = Inr evs"
  by (induction evs arbitrary: n) auto

lemma read_lines_entries: "read_lines p n ls = Inr evs \<Longrightarrow> evs = good_lines ls"
  by (induction p n ls arbitrary: evs rule: read_lines.induct) (auto split: sum.splits)

lemma read_events_run:
  "read_events E w = ((case w_events w of None \<Rightarrow> Inr []
     | Some ls \<Rightarrow> read_lines (events_path E) 1 ls), w)"
  by (simp add: read_events_def prog_simps split: option.splits)

text \<open>Reading back after an append: what was readable, and the new event last.\<close>

lemma read_after_append:
  assumes "read_events E w = (Inr evs, w)" and "append_event E ev w = (Inr (), w')"
  shows "read_events E w' = (Inr (evs @ [ev]), w')"
  using assms
  by (auto simp: read_events_run append_event_def prog_simps read_lines_append
      split: option.splits if_splits)

lemma filter_events_eq:
  "filter_events t s evs = filter (\<lambda>ev. (t = None \<or> t = Some (ev_type ev)) \<and>
     (s = None \<or> s = ev_stage_id ev)) evs"
  by (induction t s evs rule: filter_events.induct) auto

section \<open>The event bus\<close>

definition record_timings :: "env \<Rightarrow> string \<Rightarrow> hook_result list \<Rightarrow> (world, unit) prog" where
  "record_timings E event_type results =
     (if results = [] then ret ()
      else catchp
        (bindp (mapp (\<lambda>r. bindp (iso_now E) (\<lambda>t. ret
             \<lparr>ht_event_type = event_type, ht_hook_name = hr_hook_name r,
              ht_status = hr_status r, ht_duration_ms = hr_duration_ms r,
              ht_recorded_at = t\<rparr>)) results)
           (timing_append E))
        (\<lambda>e. ret ()))"

definition emit :: "env \<Rightarrow> registered_hook list \<Rightarrow> lifecycle_event
    \<Rightarrow> (world, hook_result list) prog" where
  "emit E hooks ev =
     thenp (append_event E ev)
       (bindp (run_hooks E hooks ev) (\<lambda>results.
          thenp (record_timings E (ev_type ev) results) (ret results)))"

definition emit_transition :: "env \<Rightarrow> registered_hook list \<Rightarrow> string \<Rightarrow> pipeline_state \<Rightarrow> string
    \<Rightarrow> string option \<Rightarrow> (world, lifecycle_event \<times> hook_result list) prog" where
  "emit_transition E hooks event_type state stage_id reason =
     bindp (new_event E event_type (Some stage_id) None None ''core'' ''state-manager''
              [(''project_id'', JStr (ps_project_id state)), (''reason'', opt_str reason)])
       (\<lambda>ev. bindp (emit E hooks ev) (\<lambda>results. ret (ev, results)))"

text \<open>
  A part of the world that no clock reading, identifier, write count, log line or timing line
  touches is outside the reach of the bus.
\<close>

definition bus_blind :: "(world \<Rightarrow> 'c) \<Rightarrow> bool" where
  "bus_blind f \<longleftrightarrow> (\<forall>w n x y. f (w\<lparr>w_clock := n\<rparr>) = f w \<and> f (w\<lparr>w_uuids := n\<rparr>) = f w \<and>
     f (w\<lparr>w_writes := n\<rparr>) = f w \<and> f (w\<lparr>w_events := x\<rparr>) = f w \<and> f (w\<lparr>w_timings := y\<rparr>) = f w)"

lemma bus_blindD:
  assumes "bus_blind f"
  shows "f (w\<lparr>w_clock := n\<rparr>) = f w" "f (w\<lparr>w_uuids := n\<rparr>) = f w" "f (w\<lparr>w_writes := n\<rparr>) = f w"
    "f (w\<lparr>w_events := x\<rparr>) = f w" "f (w\<lparr>w_timings := y\<rparr>) = f w"
  using assms by (auto simp: bus_blind_def)

lemma bus_blind_fields [simp]:
  "bus_blind w_fs" "bus_blind w_config" "bus_blind w_state" "bus_blind w_state_md"
  "bus_blind w_db" "bus_blind w_gates" "bus_blind w_lessons" "bus_blind w_reflections"
  "bus_blind w_artifacts" "bus_blind w_graph" "bus_blind w_tickets" "bus_blind w_audit"
  "bus_blind w_daemon"
  by (simp_all add: bus_blind_def)

lemma record_timings_unchanged:
  assumes "\<And>w n. f (w\<lparr>w_clock := n\<rparr>) = f w" "\<And>w n. f (w\<lparr>w_writes := n\<rparr>) = f w"
    "\<And>w x. f (w\<lparr>w_timings := x\<rparr>) = f w" "\<And>w n. f (w\<lparr>w_uuids := n\<rparr>) = f w"
  shows "unchanged f (record_timings E t rs)"
  unfolding record_timings_def using assms by (intro frame_intros) auto

lemma emit_unchanged [frame_intros]:
  assumes "bus_blind f"
  shows "unchanged f (emit E hooks ev)"
  unfolding emit_def
  using bus_blindD [OF assms]
  by (intro frame_intros run_hooks_unchanged record_timings_unchanged) auto

lemma new_event_blind [frame_intros]:
  "bus_blind f \<Longrightarrow> unchanged f (new_event E t s se c ty i p)"
  by (rule new_event_unchanged) (auto dest: bus_blindD)

lemma emit_transition_unchanged [frame_intros]:
  "bus_blind f \<Longrightarrow> unchanged f (emit_transition E hooks t st sid r)"
  unfolding emit_transition_def by (intro frame_intros)

lemma append_event_cases:
  obtains w' where "append_event E ev w = (Inr (), w')" "log_entries w' = log_entries w @ [ev]"
  | w' where "append_event E ev w = (Inl (OSError (events_path E)), w')"
      "log_entries w' = log_entries w"
proof (cases "append_event E ev w")
  case (Pair r w')
  then show thesis
  proof (cases r)
    case (Inl e)
    with Pair have "e = OSError (events_path E)"
      by (auto simp: append_event_def write_file_run split: if_splits)
    with Pair Inl event_log.append_refused show thesis using that(2) by blast
  next
    case (Inr u)
    with Pair event_log.append_ok show thesis using that(1) by auto
  qed
qed

lemma record_timings_never_raises: "\<exists>w'. record_timings E t rs w = (Inr (), w')"
  by (auto simp: record_timings_def prog_simps split: prod.splits sum.splits)

lemma log_entries_blind:
  "log_entries (w\<lparr>w_clock := n\<rparr>) = log_entries w" "log_entries (w\<lparr>w_uuids := n\<rparr>) = log_entries w"
  "log_entries (w\<lparr>w_writes := n\<rparr>) = log_entries w"
  "log_entries (w\<lparr>w_timings := x\<rparr>) = log_entries w"
  "log_entries (w\<lparr>w_state := st\<rparr>) = log_entries w"
  "log_entries (w\<lparr>w_state_md := md\<rparr>) = log_entries w"
  "log_entries (w\<lparr>w_db := db\<rparr>) = log_entries w"
  "log_entries (w\<lparr>w_lessons := l\<rparr>) = log_entries w"
  "log_entries (w\<lparr>w_reflections := rf\<rparr>) = log_entries w"
  by (simp_all add: log_entries_def)

lemma after_append_log:
  "unchanged log_entries (bindp (run_hooks E hooks ev) (\<lambda>results.
     thenp (record_timings E t results) (ret results)))"
  by (intro frame_intros run_hooks_unchanged record_timings_unchanged)
    (simp_all add: log_entries_blind)

text \<open>
  An emitted event is in the log whatever its hooks do: the append comes first, and a blocking
  hook that fails raises after it.
\<close>

lemma emit_logs:
  assumes "emit E hooks ev w = (r, w')" and "r \<noteq> Inl (OSError (events_path E))"
  shows "log_entries w' = log_entries w @ [ev]"
proof (rule append_event_cases [of E ev w])
  fix w1 assume a: "append_event E ev w = (Inr (), w1)" "log_entries w1 = log_entries w @ [ev]"
  with assms(1) have "bindp (run_hooks E hooks ev) (\<lambda>results.
     thenp (record_timings E (ev_type ev) results) (ret results)) w1 = (r, w')"
    by (simp add: emit_def thenp_run)
  from unchanged_result [OF after_append_log this] a show ?thesis by simp
next
  fix w1 assume "append_event E ev w = (Inl (OSError (events_path E)), w1)"
  with assms show ?thesis by (simp add: emit_def thenp_run)
qed

text \<open>How \<open>emit\<close> ends: the log refuses, a blocking hook stops the event, or it returns.\<close>

lemma emit_ends:
  assumes "append_event E ev w = (Inr (), w1)"
  shows "(stopped hooks ev \<longrightarrow> (\<exists>m w'. emit E hooks ev w = (Inl (RuntimeError m), w'))) \<and>
    (\<not> stopped hooks ev \<longrightarrow> (\<exists>rs w'. emit E hooks ev w = (Inr rs, w')))"
proof (intro conjI impI)
  assume "stopped hooks ev"
  from run_hooks_stopped [OF this, of E w1] assms
  show "\<exists>m w'. emit E hooks ev w = (Inl (RuntimeError m), w')"
    by (auto simp: emit_def prog_simps)
next
  assume "\<not> stopped hooks ev"
  from run_hooks_ok [OF this, of E w1] obtain rs w2 where r: "run_hooks E hooks ev w1 = (Inr rs, w2)"
    by blast
  obtain w3 where "record_timings E (ev_type ev) rs w2 = (Inr (), w3)"
    using record_timings_never_raises by blast
  with assms r show "\<exists>rs w'. emit E hooks ev w = (Inr rs, w')"
    by (auto simp: emit_def prog_simps)
qed

section \<open>Properties\<close>

text \<open>An event is logged before its hooks run, and hooks run in order. When writes are accepted,
  \<open>emit\<close> always appends the event as the last of the log. It raises \<open>RuntimeError\<close> exactly when a
  blocking hook registered for the event's type raises or overruns its timeout. Otherwise it returns
  one result per hook of that type, in the order of (order, name), each with the status of its
  handler's outcome.\<close>

lemma emit_logs_then_runs_hooks:
  assumes "writes_succeed E"
  shows "\<exists>r w'. emit E hooks ev w = (r, w') \<and> log_entries w' = log_entries w @ [ev] \<and>
    (if \<exists>h\<in>set hooks. hk_event_type h = ev_type ev \<and> hk_blocking h \<and> hk_handler h ev \<noteq> HookReturns
     then \<exists>m. r = Inl (RuntimeError m)
     else \<exists>rs. r = Inr rs \<and> map hr_hook_name rs = map hk_name (hooks_for (ev_type ev) hooks) \<and>
       map hr_status rs = map (\<lambda>h. outcome_status (hk_handler h ev)) (hooks_for (ev_type ev) hooks) \<and>
       sorted (map (\<lambda>h. (hk_order h, hk_name h)) (hooks_for (ev_type ev) hooks)))"
proof -
  obtain w1 where a: "append_event E ev w = (Inr (), w1)"
    using assms by (simp add: append_event_def write_file_ok)
  obtain r w' where e: "emit E hooks ev w = (r, w')" by (cases "emit E hooks ev w")
  have st: "stopped hooks ev \<longleftrightarrow>
      (\<exists>h\<in>set hooks. hk_event_type h = ev_type ev \<and> hk_blocking h \<and> hk_handler h ev \<noteq> HookReturns)"
    by (auto simp: stopped_def stops_def)
  show ?thesis
  proof (cases "stopped hooks ev")
    case True
    with emit_ends [OF a, of hooks] e obtain m where r: "r = Inl (RuntimeError m)" by auto
    with emit_logs [OF e] have "log_entries w' = log_entries w @ [ev]" by simp
    with e r True show ?thesis unfolding st [symmetric] by simp
  next
    case False
    obtain rs w2 where h: "run_hooks E hooks ev w1 = (Inr rs, w2)"
      "map hr_hook_name rs = map hk_name (hooks_for (ev_type ev) hooks)"
      "map hr_status rs = map (\<lambda>h. outcome_status (hk_handler h ev)) (hooks_for (ev_type ev) hooks)"
      using run_hooks_ok [OF False, of E w1] by blast
    obtain w3 where t: "record_timings E (ev_type ev) rs w2 = (Inr (), w3)"
      using record_timings_never_raises by blast
    have r: "r = Inr rs" using e a h(1) t by (simp add: emit_def bindp_run thenp_run ret_run)
    with emit_logs [OF e] have "log_entries w' = log_entries w @ [ev]" by simp
    with e r False h(2,3) show ?thesis
      unfolding st [symmetric] by (simp add: hooks_for_sorted)
  qed
qed

definition demo_hook :: "string \<Rightarrow> int \<Rightarrow> hook_outcome \<Rightarrow> registered_hook" where
  "demo_hook nm n out = \<lparr>hk_event_type = ''StageStarted'', hk_name = nm, hk_handler = (\<lambda>_. out),
     hk_order = n, hk_timeout_seconds = 5, hk_blocking = True\<rparr>"

definition demo_event :: lifecycle_event where
  "demo_event = \<lparr>ev_schema_version = ''0.1'', ev_id = ''e1'', ev_correlation_id = None,
     ev_type = ''StageStarted'', ev_timestamp = ''t'', ev_session_id = None, ev_stage_id = Some ''srs'',
     ev_actor = \<lparr>ea_type = ''core'', ea_id = ''state-manager''\<rparr>, ev_payload = [], ev_redactions = []\<rparr>"

lemma emit_logs_then_runs_hooks_witness:
  "\<exists>m w'. emit demo_env [demo_hook ''a'' 1 HookReturns, demo_hook ''b'' 0 HookOverruns] demo_event empty_world
     = (Inl (RuntimeError m), w') \<and> log_entries w' = [demo_event]"
proof -
  let ?hooks = "[demo_hook ''a'' 1 HookReturns, demo_hook ''b'' 0 HookOverruns]"
  have "\<exists>h\<in>set ?hooks. hk_event_type h = ev_type demo_event \<and> hk_blocking h \<and>
      hk_handler h demo_event \<noteq> HookReturns"
    by (simp add: demo_hook_def demo_event_def)
  moreover have "log_entries empty_world = []" by (simp add: log_entries_def empty_world_def)
  ultimately show ?thesis
    using emit_logs_then_runs_hooks [OF demo_env_writes, of ?hooks demo_event empty_world]
    by (auto simp del: set_simps)
qed

text \<open>The event log reads back what was appended: if the log reads as \<open>evs\<close>, then after an append
  that was accepted it reads as \<open>evs\<close> followed by the event, and filtering the longer log by type
  and stage gives the filtered old log, then the event if it matches.\<close>

theorem event_log_reads_back:
  assumes "read_events E w = (Inr evs, w)" and "append_event E ev w = (Inr (), w')"
  shows "read_events E w' = (Inr (evs @ [ev]), w') \<and>
    filter_events t s (evs @ [ev]) = filter_events t s evs @
      (if (t = None \<or> t = Some (ev_type ev)) \<and> (s = None \<or> s = ev_stage_id ev) then [ev] else [])"
  using read_after_append [OF assms] by (simp add: filter_events_eq)

lemma event_log_reads_back_witness:
  "\<exists>w'. append_event demo_env demo_event empty_world = (Inr (), w') \<and>
     read_events demo_env w' = (Inr [demo_event], w')"
proof -
  obtain w' where a: "append_event demo_env demo_event empty_world = (Inr (), w')"
    by (simp add: append_event_def write_file_ok)
  have "read_events demo_env empty_world = (Inr [], empty_world)"
    by (simp add: read_events_run empty_world_def)
  from event_log_reads_back [OF this a] a show ?thesis by simp
qed

end
