(* ===== verification/EventStore.thy ===== *)
theory EventStore imports Events begin

text \<open>
  The SQLite event store, \<open>events/store.py\<close>: an append-only table of events with one version
  counter per stream, and one snapshot per stream. The two tables are lists of rows; the SQL of
  the source is written out as the list operation it stands for. A statement the database refuses
  (disk full, locked file) raises, and the transaction leaves the tables as they were.
\<close>

section \<open>Writing\<close>

definition db_path :: "env \<Rightarrow> string" where
  "db_path E = forge_path E ''events.db''"

text \<open>\<open>SELECT COALESCE(MAX(version), 0) + 1 FROM events WHERE stream_id = ?\<close>\<close>

definition next_version :: "event_db \<Rightarrow> string \<Rightarrow> nat" where
  "next_version db sid =
     foldr max (map er_version (filter (\<lambda>r. er_stream_id r = sid) (db_rows db))) 0 + 1"

definition append_row :: "string \<Rightarrow> string \<Rightarrow> json_obj \<Rightarrow> event_db \<Rightarrow> event_db" where
  "append_row sid ty payload db = db\<lparr>
     db_seq := Suc (db_seq db),
     db_rows := db_rows db @ [\<lparr>er_event_id = Suc (db_seq db), er_stream_id = sid,
       er_event_type = ty, er_payload = payload, er_version = next_version db sid\<rparr>]\<rparr>"

definition store_append :: "env \<Rightarrow> string \<Rightarrow> string \<Rightarrow> json_obj \<Rightarrow> (world, nat) prog" where
  "store_append E sid ty payload =
     thenp (write_file E (db_path E) (\<lambda>w. w\<lparr>w_db := append_row sid ty payload (w_db w)\<rparr>))
       (asks (\<lambda>w. db_seq (w_db w)))"

definition append_state_event :: "env \<Rightarrow> string \<Rightarrow> json_obj \<Rightarrow> (world, nat) prog" where
  "append_state_event E sid state = store_append E sid ''StateSaved'' [(''state'', JObj state)]"

text \<open>\<open>INSERT OR REPLACE INTO snapshots\<close>: the row of the stream goes, a new one comes last.\<close>

definition put_snapshot :: "string \<Rightarrow> json_obj \<Rightarrow> nat \<Rightarrow> event_db \<Rightarrow> event_db" where
  "put_snapshot sid state v db = db\<lparr>
     db_snapshots := filter (\<lambda>r. sr_stream_id r \<noteq> sid) (db_snapshots db) @
       [\<lparr>sr_stream_id = sid, sr_state = state, sr_event_version = v\<rparr>]\<rparr>"

definition save_snapshot :: "env \<Rightarrow> string \<Rightarrow> json_obj \<Rightarrow> nat \<Rightarrow> (world, unit) prog" where
  "save_snapshot E sid state v =
     write_file E (db_path E) (\<lambda>w. w\<lparr>w_db := put_snapshot sid state v (w_db w)\<rparr>)"

section \<open>Reading\<close>

text \<open>\<open>ORDER BY event_id\<close> is a stable sort of the table.\<close>

definition read_stream :: "event_db \<Rightarrow> string \<Rightarrow> event_row list" where
  "read_stream db sid = sort_key er_event_id (filter (\<lambda>r. er_stream_id r = sid) (db_rows db))"

definition read_stream_from :: "event_db \<Rightarrow> string \<Rightarrow> nat \<Rightarrow> event_row list" where
  "read_stream_from db sid v =
     sort_key er_event_id (filter (\<lambda>r. er_stream_id r = sid \<and> v < er_version r) (db_rows db))"

definition read_all :: "event_db \<Rightarrow> event_row list" where
  "read_all db = sort_key er_event_id (db_rows db)"

definition read_by_type :: "event_db \<Rightarrow> string \<Rightarrow> event_row list" where
  "read_by_type db ty = sort_key er_event_id (filter (\<lambda>r. er_event_type r = ty) (db_rows db))"

definition load_snapshot :: "event_db \<Rightarrow> string \<Rightarrow> snapshot_row option" where
  "load_snapshot db sid = List.find (\<lambda>r. sr_stream_id r = sid) (db_snapshots db)"

text \<open>
  One event of the replay loop: \<open>state.update(payload["state"])\<close> when the payload has a state. The
  value of \<open>"state"\<close> is a dictionary in every event \<open>append_state_event\<close> writes; another value
  makes \<open>dict.update\<close> raise.
\<close>

definition apply_row :: "event_row \<Rightarrow> json_obj \<Rightarrow> exn + json_obj" where
  "apply_row r state = (case dict_get (er_payload r) ''state'' of
       None \<Rightarrow> Inr state
     | Some (JObj s) \<Rightarrow> Inr (dict_merge state s)
     | Some _ \<Rightarrow> Inl (TypeError ''state''))"

fun replay_rows :: "nat \<Rightarrow> event_row list \<Rightarrow> json_obj \<Rightarrow> exn + json_obj" where
  "replay_rows start [] state = Inr state"
| "replay_rows start (r # rs) state =
     (if er_version r \<le> start then replay_rows start rs state
      else (case apply_row r state of Inl e \<Rightarrow> Inl e
            | Inr state' \<Rightarrow> replay_rows start rs state'))"

definition replay_state :: "event_db \<Rightarrow> string \<Rightarrow> exn + json_obj option" where
  "replay_state db sid =
     (let events = read_stream db sid in
      if events = [] then Inr None
      else case load_snapshot db sid of
          None \<Rightarrow> map_sum id Some (replay_rows 0 events [])
        | Some snap \<Rightarrow>
            map_sum id Some (replay_rows (sr_event_version snap) events (sr_state snap)))"

section \<open>The invariant of the tables\<close>

declare upt_Suc [simp del]

definition versions_of :: "event_db \<Rightarrow> string \<Rightarrow> nat list" where
  "versions_of db sid = map er_version (filter (\<lambda>r. er_stream_id r = sid) (db_rows db))"

definition wf_db :: "event_db \<Rightarrow> bool" where
  "wf_db db \<longleftrightarrow> map er_event_id (db_rows db) = [1..<Suc (length (db_rows db))] \<and>
     db_seq db = length (db_rows db) \<and>
     (\<forall>sid. versions_of db sid = [1..<Suc (length (versions_of db sid))]) \<and>
     distinct (map sr_stream_id (db_snapshots db))"

lemma upt_snoc: "[1..<Suc (Suc n)] = [1..<Suc n] @ [Suc n]"
  by (simp add: upt_Suc)

lemma foldr_max_upt: "foldr max [1..<Suc n] (0::nat) = n"
proof (induction n)
  case (Suc n)
  have "foldr max xs (Suc n) = Suc n" if "\<forall>x\<in>set xs. x \<le> n" for xs :: "nat list"
    using that by (induction xs) auto
  then show ?case by (simp add: upt_Suc)
qed simp

lemma next_version_wf: "wf_db db \<Longrightarrow> next_version db sid = Suc (length (versions_of db sid))"
  unfolding next_version_def wf_db_def versions_of_def [symmetric]
  by (metis Suc_eq_plus1 foldr_max_upt)

lemma wf_empty_db [simp]: "wf_db empty_db"
  by (simp add: wf_db_def empty_db_def versions_of_def)

lemma versions_append_row:
  "wf_db db \<Longrightarrow> versions_of (append_row sid ty p db) s =
     (if s = sid then versions_of db s @ [Suc (length (versions_of db s))] else versions_of db s)"
  using next_version_wf [of db sid] by (simp add: versions_of_def append_row_def)

lemma wf_append_row: "wf_db db \<Longrightarrow> wf_db (append_row sid ty p db)"
proof -
  assume wf: "wf_db db"
  have "versions_of (append_row sid ty p db) s =
      [1..<Suc (length (versions_of (append_row sid ty p db) s))]" for s
  proof (cases "s = sid")
    case True
    from wf have "versions_of db s = [1..<Suc (length (versions_of db s))]"
      by (simp add: wf_db_def)
    with True show ?thesis using wf by (metis versions_append_row length_append_singleton upt_snoc)
  next
    case False
    with wf show ?thesis by (simp add: versions_append_row) (simp add: wf_db_def)
  qed
  moreover have "map er_event_id (db_rows (append_row sid ty p db)) =
      [1..<Suc (length (db_rows (append_row sid ty p db)))]"
    using wf by (simp add: wf_db_def append_row_def upt_Suc)
  ultimately show ?thesis using wf by (simp add: wf_db_def append_row_def)
qed

lemma wf_put_snapshot: "wf_db db \<Longrightarrow> wf_db (put_snapshot sid st v db)"
  by (auto simp: wf_db_def put_snapshot_def versions_of_def distinct_map_filter)

lemma store_append_run:
  assumes "store_append E sid ty p w = (r, w')"
  shows "(r = Inr (Suc (db_seq (w_db w))) \<and> w_db w' = append_row sid ty p (w_db w)) \<or>
    (r = Inl (OSError (db_path E)) \<and> w_db w' = w_db w)"
  using assms by (auto simp: store_append_def prog_simps append_row_def split: if_splits)

lemma store_append_unchanged [frame_intros]:
  assumes "\<And>w n. f (w\<lparr>w_writes := n\<rparr>) = f w" and "\<And>w x. f (w\<lparr>w_db := x\<rparr>) = f w"
  shows "unchanged f (append_state_event E sid st)"
  unfolding append_state_event_def store_append_def using assms by (intro frame_intros) auto

lemma sorted_key_filter:
  "sorted (map f xs) \<Longrightarrow> sort_key f (filter P xs) = filter P xs"
  by (simp add: sort_key_id_if_sorted sorted_filter)

lemma wf_sorted: "wf_db db \<Longrightarrow> sorted (map er_event_id (db_rows db))"
  by (simp add: wf_db_def)

lemma read_stream_wf: "wf_db db \<Longrightarrow> read_stream db sid = filter (\<lambda>r. er_stream_id r = sid) (db_rows db)"
  by (simp add: read_stream_def sorted_key_filter wf_sorted)

lemma read_stream_append:
  "wf_db db \<Longrightarrow> read_stream (append_row sid ty p db) s =
     (if s = sid then read_stream db s @ [\<lparr>er_event_id = Suc (db_seq db), er_stream_id = sid,
        er_event_type = ty, er_payload = p, er_version = Suc (length (read_stream db s))\<rparr>]
      else read_stream db s)"
  using next_version_wf [of db sid]
  by (simp only: read_stream_wf wf_append_row) (simp add: append_row_def versions_of_def)

lemma read_stream_versions:
  "wf_db db \<Longrightarrow> map er_version (read_stream db sid) = [1..<Suc (length (read_stream db sid))]"
  by (metis length_map read_stream_wf versions_of_def wf_db_def)

lemma read_stream_from_wf:
  "wf_db db \<Longrightarrow> read_stream_from db sid v = drop v (read_stream db sid)"
proof -
  assume wf: "wf_db db"
  have "read_stream_from db sid v = filter (\<lambda>r. v < er_version r) (read_stream db sid)"
    using wf by (simp add: read_stream_from_def read_stream_wf sorted_key_filter wf_sorted
        conj_commute)
  moreover have "filter (\<lambda>r. v < er_version r) xs = drop (v - k) xs"
    if "map er_version xs = [Suc k..<Suc k + length xs]" for xs k
    using that
  proof (induction xs arbitrary: k)
    case (Cons x xs)
    then have "er_version x = Suc k" "map er_version xs = [Suc (Suc k)..<Suc (Suc k) + length xs]"
      by (auto simp: upt_rec [of "Suc k"])
    with Cons.IH [of "Suc k"] have "filter (\<lambda>r. v < er_version r) xs = drop (v - Suc k) xs"
      by simp
    moreover have "drop (v - k) (x # xs) = (if v \<le> k then x # xs else drop (v - Suc k) xs)"
      by (simp add: drop_Cons')
    ultimately show ?case using \<open>er_version x = Suc k\<close> by (cases "v \<le> k") auto
  qed simp
  from this [of "read_stream db sid" 0] have
    "filter (\<lambda>r. v < er_version r) (read_stream db sid) = drop v (read_stream db sid)"
    using read_stream_versions [OF wf, of sid] by simp
  ultimately show ?thesis by simp
qed

section \<open>Replay\<close>

lemma replay_rows_append:
  "replay_rows start (xs @ ys) st =
     (case replay_rows start xs st of Inl e \<Rightarrow> Inl e | Inr st' \<Rightarrow> replay_rows start ys st')"
proof (induction start xs st rule: replay_rows.induct)
  case (2 start r rs state)
  then show ?case by (cases "apply_row r state") auto
qed simp

lemma replay_rows_skip:
  "\<forall>r\<in>set rs. er_version r \<le> start \<Longrightarrow> replay_rows start rs st = Inr st"
  by (induction rs) auto

lemma replay_rows_all:
  "\<forall>r\<in>set rs. start < er_version r \<Longrightarrow> replay_rows start rs st = replay_rows 0 rs st"
proof (induction rs arbitrary: st)
  case (Cons r rs)
  then show ?case by (cases "apply_row r st") auto
qed simp

text \<open>
  Splitting a stream at a version: the first \<open>v\<close> events are the ones a snapshot at version \<open>v\<close>
  covers.
\<close>

lemma stream_split:
  assumes "wf_db db"
  shows "\<forall>r\<in>set (take v (read_stream db sid)). er_version r \<le> v"
    and "\<forall>r\<in>set (drop v (read_stream db sid)). v < er_version r"
proof -
  let ?s = "read_stream db sid"
  have vs: "map er_version ?s = [1..<Suc (length ?s)]" using assms by (rule read_stream_versions)
  then have "map er_version (take v ?s) = take v [1..<Suc (length ?s)]"
    and "map er_version (drop v ?s) = drop v [1..<Suc (length ?s)]"
    by (simp_all only: take_map [symmetric] drop_map [symmetric])
  then have "er_version ` set (take v ?s) = set (take v [1..<Suc (length ?s)])"
    and "er_version ` set (drop v ?s) = set (drop v [1..<Suc (length ?s)])"
    by (metis list.set_map)+
  moreover have "set (take v [1..<Suc n]) \<subseteq> {..v}" for n
    by (cases "v \<le> n") (auto simp: take_upt)
  moreover have "set (drop v [1..<Suc n]) \<subseteq> {v<..}" for n
    by (auto simp: drop_upt)
  ultimately show "\<forall>r\<in>set (take v ?s). er_version r \<le> v" "\<forall>r\<in>set (drop v ?s). v < er_version r"
    by blast+
qed

lemma replay_from_version:
  assumes "wf_db db"
  shows "replay_rows v (read_stream db sid) st = replay_rows 0 (drop v (read_stream db sid)) st"
proof -
  let ?s = "read_stream db sid"
  have "replay_rows v ?s st = replay_rows v (take v ?s @ drop v ?s) st" by simp
  also have "\<dots> = replay_rows v (drop v ?s) st"
    using replay_rows_skip [OF stream_split(1) [OF assms]] unfolding replay_rows_append by simp
  also have "\<dots> = replay_rows 0 (drop v ?s) st"
    by (rule replay_rows_all [OF stream_split(2) [OF assms]])
  finally show ?thesis .
qed

lemma dict_merge_Nil [simp]: "dict_merge st [] = st"
  by (simp add: dict_merge_def)

lemma dict_merge_Cons [simp]: "dict_merge st ((k, v) # d) = dict_merge (dict_set k v st) d"
  by (simp add: dict_merge_def)

lemma dict_get_merge:
  "distinct (map fst d) \<Longrightarrow> dict_get (dict_merge st d) k =
     (case dict_get d k of None \<Rightarrow> dict_get st k | Some v \<Rightarrow> Some v)"
proof (induction d arbitrary: st)
  case (Cons kv d)
  obtain a b where kv: "kv = (a, b)" by fastforce
  with Cons.prems have "map_of d a = None" by (simp add: map_of_eq_None_iff)
  with Cons kv show ?case by (auto simp: dict_get_def dict_set_def update_conv' split: option.splits)
qed simp

section \<open>Properties\<close>

text \<open>The event store keeps its tables well formed: event ids are 1, 2, 3, ... in table order,
  the versions of every stream are 1, 2, 3, ... without a gap or a repetition, and each stream has
  at most one snapshot. Appending and snapshotting keep this whether or not the database accepts
  the statement, and a successful append returns the fresh event id.\<close>

theorem store_keeps_versions_gapless:
  assumes "wf_db (w_db w)"
  shows "wf_db (w_db (snd (store_append E sid ty p w))) \<and>
    wf_db (w_db (snd (save_snapshot E sid st v w))) \<and>
    fst (store_append E sid ty p w) \<in> {Inr (Suc (length (db_rows (w_db w)))), Inl (OSError (db_path E))} \<and>
    map er_version (read_stream (w_db w) s) = [1..<Suc (length (read_stream (w_db w) s))]"
proof -
  obtain r w' where run: "store_append E sid ty p w = (r, w')" by (cases "store_append E sid ty p w")
  from store_append_run [OF run] assms run
  have "wf_db (w_db (snd (store_append E sid ty p w)))"
    by (auto simp: wf_append_row)
  moreover from store_append_run [OF run] assms run
  have "fst (store_append E sid ty p w) \<in>
      {Inr (Suc (length (db_rows (w_db w)))), Inl (OSError (db_path E))}"
    by (auto simp: wf_db_def)
  moreover have "wf_db (w_db (snd (save_snapshot E sid st v w)))"
    using assms by (simp add: save_snapshot_def write_file_run wf_put_snapshot)
  ultimately show ?thesis using read_stream_versions [OF assms, of s] by blast
qed

lemma store_keeps_versions_gapless_witness:
  "map er_version (read_stream (w_db (snd (store_append demo_env ''s'' ''t'' []
     (snd (store_append demo_env ''s'' ''t'' [] empty_world))))) ''s'') = [1, 2]"
proof -
  let ?w1 = "snd (store_append demo_env ''s'' ''t'' [] empty_world)"
  let ?w2 = "snd (store_append demo_env ''s'' ''t'' [] ?w1)"
  have "wf_db (w_db empty_world)" by (simp add: empty_world_def)
  then have "wf_db (w_db ?w1)" using store_keeps_versions_gapless by blast
  then have "wf_db (w_db ?w2)" using store_keeps_versions_gapless by blast
  then have "map er_version (read_stream (w_db ?w2) ''s'') =
      [1..<Suc (length (read_stream (w_db ?w2) ''s''))]"
    using store_keeps_versions_gapless by blast
  moreover have "length (read_stream (w_db ?w2) ''s'') = 2" by code_simp
  ultimately show ?thesis by (simp add: upt_rec)
qed

text \<open>C10: Replaying a stream from its snapshot gives what replaying the whole stream gives: when the
  snapshot's state is the state after the first \<open>event_version\<close> events, \<open>replay_state\<close> returns the
  state after all events, and None exactly for an empty stream.\<close>

theorem replay_from_snapshot_eq_full_replay:
  assumes "wf_db db" and "load_snapshot db sid = Some snap"
    and "replay_rows 0 (take (sr_event_version snap) (read_stream db sid)) [] = Inr (sr_state snap)"
  shows "replay_state db sid =
    (if read_stream db sid = [] then Inr None
     else map_sum id Some (replay_rows 0 (read_stream db sid) []))"
proof -
  let ?s = "read_stream db sid" and ?v = "sr_event_version snap"
  have "replay_rows 0 ?s [] = replay_rows 0 (take ?v ?s @ drop ?v ?s) []" by simp
  also have "\<dots> = replay_rows 0 (drop ?v ?s) (sr_state snap)"
    using assms(3) unfolding replay_rows_append by simp
  also have "\<dots> = replay_rows ?v ?s (sr_state snap)"
    by (rule replay_from_version [OF assms(1), symmetric])
  finally show ?thesis using assms(2) by (simp add: replay_state_def Let_def)
qed

definition demo_db :: event_db where
  "demo_db = append_row ''s'' ''StateSaved'' [(''state'', JObj [(''b'', JInt 2)])]
     (put_snapshot ''s'' [(''a'', JInt 1)] 1
       (append_row ''s'' ''StateSaved'' [(''state'', JObj [(''a'', JInt 1)])] empty_db))"

lemma replay_from_snapshot_eq_full_replay_witness:
  "replay_state demo_db ''s'' = Inr (Some [(''a'', JInt 1), (''b'', JInt 2)])"
proof -
  have wf: "wf_db demo_db"
    unfolding demo_db_def by (intro wf_append_row wf_put_snapshot wf_empty_db)
  have snap: "load_snapshot demo_db ''s'' =
      Some \<lparr>sr_stream_id = ''s'', sr_state = [(''a'', JInt 1)], sr_event_version = 1\<rparr>" (is "_ = Some ?sn")
    by code_simp
  have pre: "replay_rows 0 (take (sr_event_version ?sn) (read_stream demo_db ''s'')) [] =
      Inr (sr_state ?sn)" by code_simp
  show ?thesis
    unfolding replay_from_snapshot_eq_full_replay [OF wf snap pre] by code_simp
qed



declare upt_Suc [simp]

end
