(* ===== verification/Gates.thy ===== *)
theory Gates imports EventStore begin

text \<open>
  Quality gates: \<open>gates/loader.py\<close>, \<open>gates/evaluator.py\<close> and \<open>gates/coordinator.py\<close>. A checker
  returns its status, summary, fix hint and details, or raises; \<open>evaluate_gate\<close> turns an exception
  into an \<open>error\<close> status, applies the severity and builds the result. The message texts of
  pydantic are reduced to the name of the field.
\<close>

section \<open>Loading the gate file\<close>

definition gate_path :: "env \<Rightarrow> string" where
  "gate_path E = root_path E @ ''/pipeline/gates.yaml''"

definition load_gate_file :: "env \<Rightarrow> (world, gate_criterion list) prog" where
  "load_gate_file E = (\<lambda>w. (case w_gates w of
       Absent \<Rightarrow> Inl (GateLoadError (''Could not read gate file: '' @ gate_path E))
     | Unreadable \<Rightarrow> Inl (GateLoadError (''Could not read gate file: '' @ gate_path E))
     | BadSyntax \<Rightarrow> Inl (GateLoadError (''Gate file is not valid YAML: '' @ gate_path E))
     | EmptyDoc \<Rightarrow> Inr []
     | NotMapping \<Rightarrow>
         Inl (GateLoadError (''Gate file must contain a YAML mapping: '' @ gate_path E))
     | BadShape m \<Rightarrow> Inl (GateLoadError m)
     | Doc gates \<Rightarrow> Inr gates, w))"

definition gates_for_stage :: "env \<Rightarrow> string \<Rightarrow> (world, gate_criterion list) prog" where
  "gates_for_stage E stage_id = bindp (load_gate_file E) (\<lambda>gates. ret
     (sort_key gc_id (filter (\<lambda>g. gc_enabled g \<and>
        (gc_stage_id g = None \<or> gc_stage_id g = Some stage_id)) gates)))"

section \<open>The checkers\<close>

type_synonym check = "string \<times> string \<times> string option \<times> json_obj"

definition check_required_file :: "gate_criterion \<Rightarrow> (world, check) prog" where
  "check_required_file g = (case dict_get (gc_criteria g) ''path'' of
       Some (JStr path) \<Rightarrow>
         if strip path = [] then ret (''error'', ''Gate `'' @ gc_id g @ ''` requires criteria.path.'', None, [])
         else bindp (asks w_fs) (\<lambda>fs.
           if fs path \<noteq> None
           then ret (''pass'', ''Required file exists: '' @ path, None, [(''path'', JStr path)])
           else ret (''fail'', ''Required file is missing: '' @ path,
             Some (''Create `'' @ path @ ''` before completing this stage.''),
             [(''path'', JStr path)]))
     | _ \<Rightarrow> ret (''error'', ''Gate `'' @ gc_id g @ ''` requires criteria.path.'', None, []))"

definition check_pattern :: "env \<Rightarrow> gate_criterion \<Rightarrow> (world, check) prog" where
  "check_pattern E g = (case dict_get (gc_criteria g) ''path'' of
       Some (JStr path) \<Rightarrow>
         if strip path = [] then ret (''error'', ''Gate `'' @ gc_id g @ ''` requires criteria.path.'', None, [])
         else (case dict_get (gc_criteria g) ''pattern'' of
           Some (JStr (c # cs)) \<Rightarrow> let pat = c # cs in bindp (asks w_fs) (\<lambda>fs. case fs path of
               None \<Rightarrow> ret (''fail'', ''Pattern file is missing: '' @ path,
                 Some (''Create `'' @ path @ ''` and include pattern `'' @ pat @ ''`.''),
                 [(''path'', JStr path), (''pattern'', JStr pat)])
             | Some f \<Rightarrow> bindp (lift_result (re_search E pat (fe_content f))) (\<lambda>found.
                 if found then ret (''pass'', ''Pattern `'' @ pat @ ''` found in '' @ path, None,
                   [(''path'', JStr path), (''pattern'', JStr pat)])
                 else ret (''fail'', ''Pattern `'' @ pat @ ''` not found in '' @ path,
                   Some (''Update `'' @ path @ ''` so it matches `'' @ pat @ ''`.''),
                   [(''path'', JStr path), (''pattern'', JStr pat)])))
         | _ \<Rightarrow> ret (''error'', ''Gate `'' @ gc_id g @ ''` requires criteria.pattern.'', None, []))
     | _ \<Rightarrow> ret (''error'', ''Gate `'' @ gc_id g @ ''` requires criteria.path.'', None, []))"

text \<open>\<open>list(value)\<close>: a list, the characters of a string, the keys of a dictionary.\<close>

fun list_of :: "json \<Rightarrow> exn + json list" where
  "list_of (JArr xs) = Inr xs"
| "list_of (JStr s) = Inr (map (\<lambda>c. JStr [c]) s)"
| "list_of (JObj d) = Inr (map (JStr \<circ> fst) d)"
| "list_of _ = Inl (TypeError ''object is not iterable'')"

fun strings_of :: "json list \<Rightarrow> exn + string list" where
  "strings_of [] = Inr []"
| "strings_of (JStr s # xs) = (case strings_of xs of Inl e \<Rightarrow> Inl e | Inr ss \<Rightarrow> Inr (s # ss))"
| "strings_of (_ # xs) = Inl (ValidationError ''command'')"

definition get_default :: "json_obj \<Rightarrow> string \<Rightarrow> json \<Rightarrow> json" where
  "get_default d k v = (case dict_get d k of None \<Rightarrow> v | Some x \<Rightarrow> x)"

definition command_gate :: "env \<Rightarrow> gate_criterion \<Rightarrow> exn + external_command_gate" where
  "command_gate E g =
     (case list_of (get_default (gc_criteria g) ''command'' (JArr [])) of Inl e \<Rightarrow> Inl e
      | Inr xs \<Rightarrow> (case strings_of xs of Inl e \<Rightarrow> Inl e
      | Inr cmd \<Rightarrow> (case coerce_int E (get_default (gc_criteria g) ''timeout'' (JInt 30)) of
            None \<Rightarrow> Inl (ValidationError ''timeout_seconds'')
          | Some t \<Rightarrow> Inr \<lparr>ecg_id = gc_id g, ecg_name = gc_name g, ecg_command = cmd,
              ecg_timeout_seconds = t, ecg_severity = gc_severity g,
              ecg_enabled = gc_enabled g\<rparr>)))"

definition metric_gate :: "env \<Rightarrow> gate_criterion \<Rightarrow> exn + metric_threshold_gate" where
  "metric_gate E g =
     (case (get_default (gc_criteria g) ''metric_file'' (JStr []),
            get_default (gc_criteria g) ''metric_key'' (JStr []),
            coerce_float E (get_default (gc_criteria g) ''threshold'' (JFloat 0)),
            get_default (gc_criteria g) ''operator'' (JStr ''>='')) of
        (JStr file, JStr key, Some thr, JStr opr) \<Rightarrow>
          Inr \<lparr>mtg_id = gc_id g, mtg_name = gc_name g, mtg_metric_file = file,
            mtg_metric_key = key, mtg_threshold = thr, mtg_operator = opr,
            mtg_severity = gc_severity g, mtg_enabled = gc_enabled g\<rparr>
      | _ \<Rightarrow> Inl (ValidationError ''metric gate''))"

text \<open>
  \<open>GateEvaluator.evaluate_external_command\<close>. \<open>run\<close> is the security enforcer's \<open>run_command\<close> when
  the evaluator has one, \<open>subprocess.run\<close> otherwise.
\<close>

definition evaluate_external_command ::
    "env \<Rightarrow> (string list \<Rightarrow> int \<Rightarrow> (world, int \<times> string \<times> string) prog)
     \<Rightarrow> external_command_gate \<Rightarrow> (world, string \<times> string \<times> json_obj) prog" where
  "evaluate_external_command E run gate =
     catchp
       (bindp (run (ecg_command gate) (ecg_timeout_seconds gate)) (\<lambda>(rc, out, err).
          ret (if rc = 0 then ''pass'' else ''fail'', ''Command exited with '' @ show_int rc,
               [(''stdout'', JStr out), (''stderr'', JStr err)])))
       (\<lambda>e. case e of
            TimeoutExpired _ \<Rightarrow> ret (''error'',
              ''Command timed out after '' @ show_int (ecg_timeout_seconds gate) @ ''s'', [])
          | _ \<Rightarrow> ret (''error'', exn_message e, []))"

definition subprocess_run :: "env \<Rightarrow> string list \<Rightarrow> int \<Rightarrow> (world, int \<times> string \<times> string) prog" where
  "subprocess_run E cmd timeout = (\<lambda>w.
     let (r, fs) = run_process E (w_clock w) cmd timeout (w_fs w)
     in (r, w\<lparr>w_clock := Suc (w_clock w), w_fs := fs\<rparr>))"

definition num_of :: "json \<Rightarrow> real option" where
  "num_of v = (case v of JInt i \<Rightarrow> Some (of_int i) | JFloat r \<Rightarrow> Some r
     | JBool b \<Rightarrow> Some (if b then 1 else 0) | _ \<Rightarrow> None)"

text \<open>The comparison chain: an unknown operator never passes; a value that is not a number
  raises, except under \<open>==\<close>, where it is simply different.\<close>

definition compare_metric :: "string \<Rightarrow> json \<Rightarrow> real \<Rightarrow> exn + bool" where
  "compare_metric opr value threshold =
     (if opr = ''>='' then (case num_of value of None \<Rightarrow> Inl (TypeError ''>='') | Some v \<Rightarrow> Inr (threshold \<le> v))
      else if opr = ''>'' then (case num_of value of None \<Rightarrow> Inl (TypeError ''>'') | Some v \<Rightarrow> Inr (threshold < v))
      else if opr = ''<='' then (case num_of value of None \<Rightarrow> Inl (TypeError ''<='') | Some v \<Rightarrow> Inr (v \<le> threshold))
      else if opr = ''<'' then (case num_of value of None \<Rightarrow> Inl (TypeError ''<'') | Some v \<Rightarrow> Inr (v < threshold))
      else if opr = ''=='' then Inr (num_of value = Some threshold)
      else Inr False)"

definition evaluate_metric_threshold ::
    "env \<Rightarrow> metric_threshold_gate \<Rightarrow> (world, string \<times> string) prog" where
  "evaluate_metric_threshold E gate = bindp (asks w_fs) (\<lambda>fs. case fs (mtg_metric_file gate) of
       None \<Rightarrow> ret (''error'', ''Metric file '' @ mtg_metric_file gate @ '' not found'')
     | Some f \<Rightarrow> catchp
         (bindp (lift_result (parse_json E (fe_content f))) (\<lambda>data. case data of
            JObj d \<Rightarrow> (case get_default d (mtg_metric_key gate) JNull of
                JNull \<Rightarrow> ret (''error'', ''Metric key '' @ mtg_metric_key gate @ '' not found in '' @
                  mtg_metric_file gate)
              | value \<Rightarrow> bindp (lift_result (compare_metric (mtg_operator gate) value (mtg_threshold gate)))
                  (\<lambda>passed. ret (if passed then ''pass'' else ''fail'',
                     ''Metric '' @ mtg_metric_key gate @ '' is '' @ str_of E value @ '' (Threshold '' @
                     mtg_operator gate @ '' '' @ str_of E (JFloat (mtg_threshold gate)) @ '')'')))
          | _ \<Rightarrow> throw (TypeError ''get'')))
         (\<lambda>e. ret (''error'', exn_message e)))"

section \<open>Evaluating a gate\<close>

definition run_check :: "env \<Rightarrow> gate_criterion \<Rightarrow> (world, check) prog" where
  "run_check E g =
     (if gc_type g = ''required_file'' then check_required_file g
      else if gc_type g = ''pattern'' then check_pattern E g
      else if gc_type g = ''external_command'' then
        bindp (lift_result (command_gate E g)) (\<lambda>cg.
          bindp (evaluate_external_command E (subprocess_run E) cg) (\<lambda>(st, summary, details).
            ret (st, summary, None, details)))
      else if gc_type g = ''metric_threshold'' then
        bindp (lift_result (metric_gate E g)) (\<lambda>mg.
          bindp (evaluate_metric_threshold E mg) (\<lambda>(st, summary). ret (st, summary, None, [])))
      else ret (''error'', ''Unsupported gate type `'' @ gc_type g @ ''`.'',
        Some ''Use: required_file, pattern, external_command, or metric_threshold.'', []))"

definition apply_severity :: "string \<Rightarrow> string \<Rightarrow> string" where
  "apply_severity severity status =
     (if status = ''fail'' \<and> severity \<in> {''warning'', ''advisory''}
      then (if severity = ''warning'' then ''warn'' else ''skipped'') else status)"

definition evaluate_gate :: "env \<Rightarrow> gate_criterion \<Rightarrow> (world, gate_result) prog" where
  "evaluate_gate E g = bindp (utc_now E) (\<lambda>started.
     bindp (catchp (run_check E g)
       (\<lambda>e. ret (''error'', ''Gate `'' @ gc_id g @ ''` errored: '' @ exn_message e,
          Some ''Inspect the gate criteria and project files.'', [(''error'', JStr (exn_message e))])))
     (\<lambda>(status0, summary, fix_hint, details). let status = apply_severity (gc_severity g) status0 in
      bindp (elapsed_ms E) (\<lambda>ms. bindp (utc_now E) (\<lambda>finished. ret
        \<lparr>gr_gate_id = gc_id g, gr_stage_id = gc_stage_id g, gr_status = status,
         gr_summary = summary, gr_details = details, gr_started_at = started,
         gr_finished_at = finished, gr_duration_ms = trunc ms,
         gr_blocking = (status \<in> {''fail'', ''error''} \<and> gc_severity g = ''blocking''),
         gr_fix_hint = fix_hint,
         gr_metadata = [(''severity'', JStr (gc_severity g)), (''type'', JStr (gc_type g))]\<rparr>))))"

definition has_blocking_failures :: "gate_result list \<Rightarrow> bool" where
  "has_blocking_failures results = list_ex gr_blocking results"

text \<open>\<open>_emit\<close>: without an event bus nothing is logged.\<close>

definition gate_emit :: "env \<Rightarrow> registered_hook list option \<Rightarrow> string \<Rightarrow> string \<Rightarrow> json_obj
    \<Rightarrow> (world, unit) prog" where
  "gate_emit E bus event_type stage_id payload = (case bus of
       None \<Rightarrow> ret ()
     | Some hooks \<Rightarrow> bindp (new_event E event_type (Some stage_id) None None ''core''
           ''gate-coordinator'' payload)
         (\<lambda>ev. bindp (emit E hooks ev) (\<lambda>_. ret ())))"

definition evaluate_stage :: "env \<Rightarrow> registered_hook list option \<Rightarrow> string
    \<Rightarrow> (world, gate_result list) prog" where
  "evaluate_stage E bus stage_id =
     thenp (gate_emit E bus ''GateStarted'' stage_id [(''stage_id'', JStr stage_id)])
       (bindp (gates_for_stage E stage_id) (\<lambda>gates.
        bindp (mapp (evaluate_gate E) gates) (\<lambda>results.
          thenp (gate_emit E bus ''GateCompleted'' stage_id
              [(''stage_id'', JStr stage_id),
               (''blocking_failed'', JBool (has_blocking_failures results)),
               (''result_count'', JInt (int (length results)))])
            (ret results))))"

definition py_bool :: "bool \<Rightarrow> string" where
  "py_bool b = (if b then ''True'' else ''False'')"

definition render_report :: "gate_result list \<Rightarrow> string" where
  "render_report results =
     (if results = [] then join nl [''# Forge Gate Report'', [], ''No gates evaluated.''] @ nl
      else join nl ([''# Forge Gate Report'', []] @ concat (map (\<lambda>r.
        [''## '' @ gr_gate_id r @ '': '' @ gr_status r, [], gr_summary r] @
        (case gr_fix_hint r of Some (c # cs) \<Rightarrow> [''Fix: '' @ c # cs] | _ \<Rightarrow> []) @
        [''Blocking: '' @ py_bool (gr_blocking r), []]) results)))"

section \<open>What evaluation leaves alone\<close>

definition gate_blind :: "(world \<Rightarrow> 'c) \<Rightarrow> bool" where
  "gate_blind f \<longleftrightarrow> bus_blind f \<and> (\<forall>w x. f (w\<lparr>w_fs := x\<rparr>) = f w)"

lemma gate_blindD: "gate_blind f \<Longrightarrow> bus_blind f" "gate_blind f \<Longrightarrow> f (w\<lparr>w_fs := x\<rparr>) = f w"
  by (simp_all add: gate_blind_def)

lemma gate_blind_fields [simp]:
  "gate_blind w_config" "gate_blind w_state" "gate_blind w_state_md" "gate_blind w_db"
  "gate_blind w_gates" "gate_blind w_lessons" "gate_blind w_reflections"
  by (simp_all add: gate_blind_def)

lemma env_reads_blind [frame_intros]:
  assumes "bus_blind f"
  shows "unchanged f (utc_now E)" "unchanged f (elapsed_ms E)" "unchanged f (iso_now E)"
    "unchanged f (uuid4 E)" "unchanged f (uuid4_hex E)" "unchanged f (epoch_ms E)"
  using bus_blindD [OF assms] by (auto intro!: env_reads_unchanged)

lemma load_gate_file_unchanged [frame_intros]: "unchanged f (load_gate_file E)"
  by (simp add: unchanged_def load_gate_file_def)

lemma checks_unchanged [frame_intros]:
  "unchanged f (check_required_file g)" "unchanged f (check_pattern E g)"
  by (auto simp: unchanged_def check_required_file_def check_pattern_def prog_simps Let_def
      split: option.splits json.splits list.splits sum.splits if_splits)

lemma subprocess_run_unchanged [frame_intros]:
  assumes "gate_blind f"
  shows "unchanged f (subprocess_run E cmd t)"
proof (rule unchangedI)
  fix w
  have "f (w\<lparr>w_clock := n, w_fs := fs\<rparr>) = f w" for n fs
    using gate_blindD(2) [OF assms, where w = "w\<lparr>w_clock := n\<rparr>" and x = fs]
      bus_blindD(1) [OF gate_blindD(1) [OF assms], where w = w and n = n] by simp
  then show "f (snd (subprocess_run E cmd t w)) = f w"
    by (simp add: subprocess_run_def split: prod.split)
qed

lemma external_unchanged [frame_intros]:
  assumes "\<And>c t. unchanged f (run c t)"
  shows "unchanged f (evaluate_external_command E run g)"
  unfolding evaluate_external_command_def using assms
  by (intro frame_intros) (auto intro!: frame_intros split: exn.split prod.split)

lemma metric_unchanged [frame_intros]: "unchanged f (evaluate_metric_threshold E g)"
  unfolding evaluate_metric_threshold_def
  by (intro frame_intros) (auto intro!: frame_intros split: json.split)

lemma run_check_unchanged [frame_intros]:
  assumes "gate_blind f"
  shows "unchanged f (run_check E g)"
  unfolding run_check_def using assms
  by (intro frame_intros) (auto intro!: frame_intros split: prod.split)

lemma evaluate_gate_unchanged [frame_intros]:
  assumes "gate_blind f"
  shows "unchanged f (evaluate_gate E g)"
  unfolding evaluate_gate_def
  by (intro frame_intros gate_blindD(1) [OF assms])
    (auto intro!: frame_intros gate_blindD(1) [OF assms] assms simp: Let_def split: prod.split)

lemma gate_emit_unchanged [frame_intros]:
  "bus_blind f \<Longrightarrow> unchanged f (gate_emit E bus t sid p)"
  unfolding gate_emit_def by (intro frame_intros)

lemma evaluate_stage_unchanged [frame_intros]:
  assumes "gate_blind f"
  shows "unchanged f (evaluate_stage E bus sid)"
  unfolding evaluate_stage_def gates_for_stage_def using assms
  by (intro frame_intros gate_blindD(1))

section \<open>How evaluation ends\<close>

lemma evaluate_gate_total: "\<exists>r w'. evaluate_gate E g w = (Inr r, w')"
  by (auto simp: evaluate_gate_def prog_simps Let_def split: prod.splits sum.splits)

lemma mapp_total:
  assumes "\<And>x w. \<exists>y w'. f x w = (Inr y, w')"
  shows "\<exists>ys w'. mapp f xs w = (Inr ys, w') \<and> length ys = length xs"
proof (induction xs arbitrary: w)
  case (Cons x xs)
  obtain y w1 where y: "f x w = (Inr y, w1)" using assms by blast
  obtain ys w2 where "mapp f xs w1 = (Inr ys, w2)" "length ys = length xs" using Cons.IH by blast
  with y show ?case by (simp add: prog_simps)
qed (simp add: prog_simps)

lemma mapp_all:
  assumes "mapp f xs w = (Inr ys, w')" and "\<And>x w y w'. f x w = (Inr y, w') \<Longrightarrow> P x y"
  shows "list_all2 P xs ys"
  using assms(1)
proof (induction xs arbitrary: w ys)
  case Nil
  then show ?case by (simp add: prog_simps)
next
  case (Cons x xs)
  then obtain y w1 zs where "f x w = (Inr y, w1)" "mapp f xs w1 = (Inr zs, w')" "ys = y # zs"
    by (auto simp: prog_simps split: prod.splits sum.splits)
  with Cons.IH assms(2) show ?case by auto
qed

definition checked_statuses :: "string set" where
  "checked_statuses = {''pass'', ''fail'', ''error''}"

lemma check_required_status:
  "check_required_file g w = (Inr (st, x), w') \<Longrightarrow> st \<in> checked_statuses"
  by (auto simp: check_required_file_def checked_statuses_def prog_simps
      split: option.splits json.splits if_splits)

lemma check_pattern_status:
  "check_pattern E g w = (Inr (st, x), w') \<Longrightarrow> st \<in> checked_statuses"
  by (auto simp: check_pattern_def checked_statuses_def prog_simps Let_def
      split: option.splits json.splits list.splits sum.splits if_splits)

lemma external_status:
  "evaluate_external_command E run g w = (Inr (st, x), w') \<Longrightarrow> st \<in> checked_statuses"
  by (auto simp: evaluate_external_command_def checked_statuses_def prog_simps
      split: prod.splits sum.splits exn.splits if_splits)

lemma metric_status:
  "evaluate_metric_threshold E g w = (Inr (st, x), w') \<Longrightarrow> st \<in> checked_statuses"
  by (auto simp: evaluate_metric_threshold_def checked_statuses_def prog_simps
      split: option.splits json.splits sum.splits if_splits)

lemma run_check_status:
  assumes "run_check E g w = (Inr (st, x), w')"
  shows "st \<in> checked_statuses"
  using assms
  by (auto simp: run_check_def bindp_run ret_run lift_result_run checked_statuses_def
      dest: check_required_status [unfolded checked_statuses_def]
        check_pattern_status [unfolded checked_statuses_def]
        external_status [unfolded checked_statuses_def]
        metric_status [unfolded checked_statuses_def]
      split: if_splits prod.splits sum.splits)

lemma evaluate_gate_result:
  assumes "evaluate_gate E g w = (Inr r, w')"
  shows "gr_gate_id r = gc_id g \<and> gr_stage_id r = gc_stage_id g \<and>
    (gr_blocking r \<longleftrightarrow> gc_severity g = ''blocking'' \<and> gr_status r \<in> {''fail'', ''error''}) \<and>
    (\<exists>st \<in> checked_statuses. gr_status r = apply_severity (gc_severity g) st)"
proof -
  let ?h = "\<lambda>e. ret (''error'', ''Gate `'' @ gc_id g @ ''` errored: '' @ exn_message e,
      Some ''Inspect the gate criteria and project files.'', [(''error'', JStr (exn_message e))])"
  from assms obtain st summary hint details w1 where
    c: "catchp (run_check E g) ?h (w\<lparr>w_clock := Suc (w_clock w)\<rparr>) =
      (Inr (st, summary, hint, details), w1)"
    and r: "gr_gate_id r = gc_id g" "gr_stage_id r = gc_stage_id g"
      "gr_status r = apply_severity (gc_severity g) st"
      "gr_blocking r \<longleftrightarrow> apply_severity (gc_severity g) st \<in> {''fail'', ''error''} \<and>
         gc_severity g = ''blocking''"
    by (auto simp: evaluate_gate_def bindp_run env_reads ret_run Let_def
        split: prod.splits sum.splits)
  from c have "st \<in> checked_statuses"
    by (auto simp: catchp_run ret_run checked_statuses_def
        dest: run_check_status [unfolded checked_statuses_def]
        split: prod.splits sum.splits)
  with r show ?thesis by auto
qed

section \<open>Properties\<close>

lemma set_sort_gates:
  "gates_for_stage E sid w = (Inr gates, w') \<Longrightarrow> w' = w \<and> (\<exists>all. load_gate_file E w = (Inr all, w) \<and>
     gates = sort_key gc_id (filter (\<lambda>g. gc_enabled g \<and>
        (gc_stage_id g = None \<or> gc_stage_id g = Some sid)) all))"
  by (auto simp: gates_for_stage_def bindp_run ret_run load_gate_file_def
      split: prod.splits sum.splits doc_file.splits)

lemma evaluate_stage_gates:
  assumes "evaluate_stage E bus sid w = (Inr results, w')"
  shows "\<exists>gates w1 w2. gates_for_stage E sid w1 = (Inr gates, w1) \<and> w_gates w1 = w_gates w \<and>
    mapp (evaluate_gate E) gates w1 = (Inr results, w2)"
proof -
  from assms obtain w1 where 1: "gate_emit E bus ''GateStarted'' sid [(''stage_id'', JStr sid)] w =
      (Inr (), w1)"
    and rest: "bindp (gates_for_stage E sid) (\<lambda>gates. bindp (mapp (evaluate_gate E) gates)
      (\<lambda>results. thenp (gate_emit E bus ''GateCompleted'' sid
              [(''stage_id'', JStr sid),
               (''blocking_failed'', JBool (has_blocking_failures results)),
               (''result_count'', JInt (int (length results)))]) (ret results))) w1 = (Inr results, w')"
    by (auto simp: evaluate_stage_def thenp_run split: prod.splits sum.splits)
  have "w_gates w1 = w_gates w"
    using unchanged_result [OF gate_emit_unchanged [of w_gates] 1] by simp
  moreover from rest obtain gates w2 where "gates_for_stage E sid w1 = (Inr gates, w1)"
    "mapp (evaluate_gate E) gates w1 = (Inr results, w2)"
    by (auto simp: bindp_run thenp_run ret_run split: prod.splits sum.splits dest: set_sort_gates)
  ultimately show ?thesis by blast
qed

text \<open>Evaluating a gate never raises. Whatever its type, its criteria and the checker's failures,
  the result names the gate, its status is the checker's \<open>pass\<close>, \<open>fail\<close> or \<open>error\<close> as the severity
  turns it (a failed \<open>warning\<close> gate warns, a failed \<open>advisory\<close> gate is skipped), and it blocks
  exactly when the gate's severity is \<open>blocking\<close> and the status is \<open>fail\<close> or \<open>error\<close>.\<close>

lemma gate_verdict:
  "\<exists>r w' st. evaluate_gate E g w = (Inr r, w') \<and> gr_gate_id r = gc_id g \<and>
     gr_stage_id r = gc_stage_id g \<and> st \<in> {''pass'', ''fail'', ''error''} \<and>
     gr_status r = (if st = ''fail'' \<and> gc_severity g = ''warning'' then ''warn''
       else if st = ''fail'' \<and> gc_severity g = ''advisory'' then ''skipped'' else st) \<and>
     gr_blocking r = (gc_severity g = ''blocking'' \<and> gr_status r \<noteq> ''pass'')"
proof -
  obtain r w' where run: "evaluate_gate E g w = (Inr r, w')" using evaluate_gate_total by blast
  from evaluate_gate_result [OF this] obtain st where
    st: "st \<in> checked_statuses" "gr_status r = apply_severity (gc_severity g) st" and
    r: "gr_gate_id r = gc_id g" "gr_stage_id r = gc_stage_id g"
      "gr_blocking r \<longleftrightarrow> gc_severity g = ''blocking'' \<and> gr_status r \<in> {''fail'', ''error''}" by blast
  from st r have "gr_blocking r = (gc_severity g = ''blocking'' \<and> gr_status r \<noteq> ''pass'')"
    by (auto simp: checked_statuses_def apply_severity_def)
  with run st r show ?thesis
    by (intro exI [of _ r] exI [of _ w'] exI [of _ st])
      (auto simp: checked_statuses_def apply_severity_def)
qed

text \<open>A stage's evaluation that returns has evaluated every enabled gate of the stage (or of no
  stage) in the gate file, no other gate, each once, in the order of the gate ids; it blocks when
  one of the results blocks, and it leaves the gate file, the pipeline state and the lessons as
  they were.\<close>

theorem stage_evaluation_covers_gates:
  assumes "evaluate_stage E bus sid w = (Inr results, w')" and "load_gate_file E w = (Inr all, w)"
  shows "map gr_gate_id results = map gc_id (sort_key gc_id
      (filter (\<lambda>g. gc_enabled g \<and> (gc_stage_id g = None \<or> gc_stage_id g = Some sid)) all)) \<and>
    (has_blocking_failures results \<longleftrightarrow> (\<exists>r\<in>set results. gr_blocking r)) \<and>
    w_gates w' = w_gates w \<and> w_state w' = w_state w \<and> w_lessons w' = w_lessons w"
proof -
  from evaluate_stage_gates [OF assms(1)] obtain gates w1 w2 where
    g: "gates_for_stage E sid w1 = (Inr gates, w1)" "w_gates w1 = w_gates w"
      "mapp (evaluate_gate E) gates w1 = (Inr results, w2)" by blast
  from g(2) have "fst (load_gate_file E w1) = fst (load_gate_file E w)"
    by (simp add: load_gate_file_def)
  with assms(2) g(1) have gates: "gates = sort_key gc_id (filter (\<lambda>g. gc_enabled g \<and>
      (gc_stage_id g = None \<or> gc_stage_id g = Some sid)) all)"
    by (auto dest!: set_sort_gates)
  have "list_all2 (\<lambda>g r. gr_gate_id r = gc_id g) gates results"
    using g(3) by (rule mapp_all) (blast dest: evaluate_gate_result)
  then have "map gr_gate_id results = map gc_id gates"
    by (induction rule: list_all2_induct) auto
  then show ?thesis
    using gates evaluate_stage_unchanged [of w_state E bus sid, THEN unchanged_result, OF _ assms(1)]
      evaluate_stage_unchanged [of w_lessons E bus sid, THEN unchanged_result, OF _ assms(1)]
      evaluate_stage_unchanged [of w_gates E bus sid, THEN unchanged_result, OF _ assms(1)]
    by (simp add: has_blocking_failures_def list_ex_iff)
qed

definition demo_gate :: gate_criterion where
  "demo_gate = \<lparr>gc_id = ''srs_exists'', gc_name = ''SRS file exists'', gc_type = ''required_file'',
     gc_stage_id = Some ''srs'', gc_severity = ''blocking'', gc_enabled = True,
     gc_criteria = [(''path'', JStr ''SRS.md'')], gc_timeout_seconds = None\<rparr>"

lemma stage_evaluation_covers_gates_witness:
  "\<exists>results w'. evaluate_stage demo_env None ''srs'' (empty_world\<lparr>w_gates := Doc [demo_gate]\<rparr>) =
     (Inr results, w') \<and> map gr_gate_id results = [''srs_exists''] \<and> has_blocking_failures results"
proof -
  let ?w = "empty_world\<lparr>w_gates := Doc [demo_gate]\<rparr>"
  have load: "load_gate_file demo_env ?w = (Inr [demo_gate], ?w)"
    by (simp add: load_gate_file_def)
  have gates: "gates_for_stage demo_env ''srs'' ?w = (Inr [demo_gate], ?w)"
    by (simp add: gates_for_stage_def bindp_run load ret_run) (simp add: demo_gate_def)
  obtain r w1 where r: "evaluate_gate demo_env demo_gate ?w = (Inr r, w1)"
    using evaluate_gate_total by blast
  then have b: "gr_blocking r"
    by (auto simp: evaluate_gate_def run_check_def check_required_file_def demo_gate_def
        prog_simps empty_world_def apply_severity_def Let_def dict_get_def strip_def
        py_isspace_def ord_def)
  have run: "evaluate_stage demo_env None ''srs'' ?w = (Inr [r], w1)"
    using r gates by (simp add: evaluate_stage_def gate_emit_def prog_simps)
  from stage_evaluation_covers_gates [OF run load] run b show ?thesis
    by (auto simp: demo_gate_def)
qed

text \<open>A blocking \<open>required_file\<close> gate with a path lets the stage pass exactly when the project has
  a file at that path.\<close>

theorem required_file_gate_blocks_iff_missing:
  assumes "gc_type g = ''required_file''" and "dict_get (gc_criteria g) ''path'' = Some (JStr path)"
    and "strip path \<noteq> []" and "gc_severity g = ''blocking''"
  shows "\<exists>r w'. evaluate_gate E g w = (Inr r, w') \<and>
    (gr_blocking r \<longleftrightarrow> w_fs w path = None) \<and>
    gr_status r = (if w_fs w path = None then ''fail'' else ''pass'')"
  using assms
  by (auto simp: evaluate_gate_def run_check_def check_required_file_def prog_simps
      apply_severity_def Let_def)

lemma required_file_gate_blocks_iff_missing_witness:
  "\<exists>r w'. evaluate_gate demo_env demo_gate empty_world = (Inr r, w') \<and> gr_blocking r"
proof -
  have "gc_type demo_gate = ''required_file''"
    "dict_get (gc_criteria demo_gate) ''path'' = Some (JStr ''SRS.md'')" "strip ''SRS.md'' \<noteq> []"
    "gc_severity demo_gate = ''blocking''"
    by (simp_all add: demo_gate_def dict_get_def strip_def py_isspace_def ord_def)
  from required_file_gate_blocks_iff_missing [OF this, of demo_env empty_world] show ?thesis
    by (auto simp: empty_world_def)
qed

end
