(* ===== verification/Config.thy ===== *)
theory Config imports Interfaces begin

text \<open>
  Project configuration: \<open>config/loader.py\<close>, \<open>config/writer.py\<close> and the always-on monitor's
  section of it, \<open>health/monitor_config.py\<close>. The shape checks of \<open>ForgeConfig\<close> are pydantic's
  (the file's \<open>BadShape\<close>), its two field validators are \<open>check_config_fields\<close>.
\<close>

definition config_path :: "env \<Rightarrow> string" where
  "config_path E = root_path E @ ''/.forge/config.yaml''"

definition load_config :: "env \<Rightarrow> (world, forge_config) prog" where
  "load_config E = (\<lambda>w. (case w_config w of
       Absent \<Rightarrow> Inl (ConfigError (''Could not read config file: '' @ config_path E))
     | Unreadable \<Rightarrow> Inl (ConfigError (''Could not read config file: '' @ config_path E))
     | BadSyntax \<Rightarrow> Inl (ConfigError (''Config file is not valid YAML: '' @ config_path E))
     | EmptyDoc \<Rightarrow> Inl (ConfigError (''Config file is empty: '' @ config_path E))
     | NotMapping \<Rightarrow> Inl (ConfigError (''Config file must contain a YAML mapping: '' @ config_path E))
     | BadShape m \<Rightarrow> Inl (ConfigError m)
     | Doc c \<Rightarrow> check_config_fields c, w))"

text \<open>
  \<open>save_config\<close> writes through a temporary file and \<open>os.replace\<close>, and turns an operating system
  error into the loader's \<open>ConfigError\<close>.
\<close>

definition save_config :: "env \<Rightarrow> forge_config \<Rightarrow> (world, unit) prog" where
  "save_config E c = catchp (write_file E (config_path E) (\<lambda>w. w\<lparr>w_config := Doc c\<rparr>))
     (\<lambda>e. case e of
          OSError m \<Rightarrow> throw (ConfigError (''Could not write config file: '' @ config_path E @ '': '' @ m))
        | _ \<Rightarrow> throw e)"

lemma load_config_unchanged [frame_intros]: "unchanged f (load_config E)"
  by (simp add: unchanged_def load_config_def)

definition valid_config :: "forge_config \<Rightarrow> bool" where
  "valid_config c \<longleftrightarrow> check_config_fields c = Inr c"

lemma check_config_fields_id: "check_config_fields c = Inr d \<Longrightarrow> d = c"
  by (auto simp: check_config_fields_def split: if_splits)

interpretation config_store: document_store "load_config E" "save_config E" valid_config for E
proof unfold_locales
  fix w show "snd (load_config E w) = w" by (simp add: load_config_def)
next
  fix d w w' assume "valid_config d" "save_config E d w = (Inr (), w')"
  then show "fst (load_config E w') = Inr d"
    by (auto simp: save_config_def prog_simps load_config_def valid_config_def split: if_splits)
next
  fix d w x w' assume "save_config E d w = (Inl x, w')"
  then show "fst (load_config E w') = fst (load_config E w)"
    by (auto simp: save_config_def prog_simps load_config_def split: if_splits)
next
  fix w d assume "fst (load_config E w) = Inr d"
  then show "valid_config d"
    by (auto simp: load_config_def valid_config_def split: doc_file.splits
        dest: check_config_fields_id)
qed

section \<open>The monitor's configuration\<close>

record health_monitor_config =
  hm_enabled :: bool
  hm_cost_cap_usd :: "real option"

text \<open>A boolean is an \<open>int\<close> in Python; it is rejected before the numeric check.\<close>

definition positive_float :: "json option \<Rightarrow> real option" where
  "positive_float value = (case value of
       Some (JInt i) \<Rightarrow> if 0 < i then Some (of_int i) else None
     | Some (JFloat r) \<Rightarrow> if 0 < r then Some r else None
     | _ \<Rightarrow> None)"

definition load_health_monitor_config :: "json_obj \<Rightarrow> health_monitor_config" where
  "load_health_monitor_config features = (case dict_get features ''health_monitor'' of
       Some (JBool True) \<Rightarrow> \<lparr>hm_enabled = True, hm_cost_cap_usd = None\<rparr>
     | Some (JObj section) \<Rightarrow>
         \<lparr>hm_enabled = (case dict_get section ''enabled'' of Some (JBool b) \<Rightarrow> b | _ \<Rightarrow> False),
          hm_cost_cap_usd = positive_float (dict_get section ''cost_cap_usd'')\<rparr>
     | _ \<Rightarrow> \<lparr>hm_enabled = False, hm_cost_cap_usd = None\<rparr>)"

definition load_monitor_config_from_project :: "env \<Rightarrow> (world, health_monitor_config) prog" where
  "load_monitor_config_from_project E = catchp
     (bindp (load_config E) (\<lambda>c. ret (load_health_monitor_config (cf_features c))))
     (\<lambda>e. case e of
          ConfigError _ \<Rightarrow> ret \<lparr>hm_enabled = False, hm_cost_cap_usd = None\<rparr>
        | SchemaConfigError _ \<Rightarrow> ret \<lparr>hm_enabled = False, hm_cost_cap_usd = None\<rparr>
        | _ \<Rightarrow> throw e)"

definition resolve_cost_cap_usd :: "env \<Rightarrow> (world, real option) prog" where
  "resolve_cost_cap_usd E =
     bindp (load_monitor_config_from_project E) (\<lambda>c. ret (hm_cost_cap_usd c))"

lemma load_config_cases:
  obtains c where "load_config E w = (Inr c, w)"
  | m where "load_config E w = (Inl (ConfigError m), w)"
  | m where "load_config E w = (Inl (SchemaConfigError m), w)"
proof -
  have "(\<exists>c. load_config E w = (Inr c, w)) \<or> (\<exists>m. load_config E w = (Inl (ConfigError m), w)) \<or>
      (\<exists>m. load_config E w = (Inl (SchemaConfigError m), w))"
    by (cases "w_config w") (simp_all add: load_config_def check_config_fields_def)
  then show thesis using that by blast
qed

text \<open>Resolving the cap never raises, and a resolved cap is positive.\<close>

lemma resolve_cost_cap_total:
  "\<exists>cap. resolve_cost_cap_usd E w = (Inr cap, w) \<and> (\<forall>c. cap = Some c \<longrightarrow> 0 < c)"
proof -
  have pos: "positive_float v = Some c \<Longrightarrow> 0 < c" for v c
    by (auto simp: positive_float_def split: option.splits json.splits if_splits)
  have hm: "hm_cost_cap_usd (load_health_monitor_config f) = Some c \<Longrightarrow> 0 < c" for f c
    by (auto simp: load_health_monitor_config_def dest: pos split: option.splits json.splits
        bool.splits)
  show ?thesis
    by (rule load_config_cases [of E w])
      (auto simp: resolve_cost_cap_usd_def load_monitor_config_from_project_def prog_simps
        dest: hm)
qed

lemma resolve_cost_cap_unchanged [frame_intros]: "unchanged f (resolve_cost_cap_usd E)"
  using resolve_cost_cap_total by (metis unchangedI snd_conv)

end
