(* ===== verification/Lessons.thy ===== *)
theory Lessons imports Interfaces begin

text \<open>
  The project lesson store: \<open>memory/lessons.py\<close> over the models of \<open>memory/models.py\<close>. The two
  field validators of \<open>Lesson\<close> run whenever a lesson is built and whenever the store is read, so
  \<open>load\<close> validates every lesson of the file.
\<close>

section \<open>The validators\<close>

definition normalize_tags :: "string list \<Rightarrow> string list" where
  "normalize_tags tags =
     add_new [] (filter (\<lambda>t. t \<noteq> []) (map (\<lambda>t. lower (strip t)) tags))"

definition validate_lesson :: "lesson \<Rightarrow> exn + lesson" where
  "validate_lesson l =
     (if strip (ls_text l) = [] then Inl (ValidationError ''Lesson text is required'')
      else if \<not> (0 \<le> ls_confidence l \<and> ls_confidence l \<le> 1)
      then Inl (ValidationError ''confidence'')
      else Inr (l\<lparr>ls_text := strip (ls_text l), ls_tags := normalize_tags (ls_tags l)\<rparr>))"

fun validate_all :: "lesson list \<Rightarrow> exn + lesson list" where
  "validate_all [] = Inr []"
| "validate_all (l # ls) = (case validate_lesson l of Inl e \<Rightarrow> Inl e
     | Inr l' \<Rightarrow> (case validate_all ls of Inl e \<Rightarrow> Inl e | Inr ls' \<Rightarrow> Inr (l' # ls')))"

definition wf_lesson :: "lesson \<Rightarrow> bool" where
  "wf_lesson l \<longleftrightarrow> validate_lesson l = Inr l"

definition wf_lessons :: "lesson_document \<Rightarrow> bool" where
  "wf_lessons d \<longleftrightarrow> list_all wf_lesson (ld_lessons d)"

lemma ord_char_of: "ord (char_of (n :: nat)) = n mod 256"
  by (simp add: ord_def)

lemma ord_lt: "ord c < 256"
  by (simp add: ord_def)

lemma lower_char_idem [simp]: "lower_char (lower_char c) = lower_char c"
  using ord_lt [of c] by (auto simp: lower_char_def Let_def ord_char_of)

lemma isspace_lower [simp]: "py_isspace (lower_char c) = py_isspace c"
  using ord_lt [of c] by (auto simp: lower_char_def py_isspace_def Let_def ord_char_of)

lemma strip_lower: "strip (lower s) = lower (strip s)"
proof -
  have "dropWhile py_isspace (map lower_char s) = map lower_char (dropWhile py_isspace s)" for s
    by (induction s) auto
  then show ?thesis by (simp add: strip_def lower_def rev_map)
qed

lemma lower_idem [simp]: "lower (lower s) = lower s"
  by (simp add: lower_def)

lemma lower_Nil_iff [simp]: "lower s = [] \<longleftrightarrow> s = []"
  by (simp add: lower_def)

text \<open>Normalized tags are distinct, non-empty, stripped and in lower case, and stay as they are.\<close>

lemma normalize_tags_props:
  "distinct (normalize_tags ts)"
  "t \<in> set (normalize_tags ts) \<Longrightarrow> t \<noteq> [] \<and> lower (strip t) = t"
  by (auto simp: normalize_tags_def distinct_add_new strip_lower)

lemma normalize_tags_idem [simp]: "normalize_tags (normalize_tags ts) = normalize_tags ts"
proof -
  let ?n = "normalize_tags ts"
  have "map (\<lambda>t. lower (strip t)) ?n = ?n"
    using normalize_tags_props(2) [of _ ts] by (simp add: map_idI)
  moreover have "filter (\<lambda>t. t \<noteq> []) ?n = ?n"
    using normalize_tags_props(2) [of _ ts] by (simp add: filter_id_conv)
  ultimately show ?thesis
    using normalize_tags_props(1) [of ts] add_new_distinct [of "[]" ?n]
    by (simp add: normalize_tags_def [of ?n])
qed

lemma validate_lesson_wf: "validate_lesson l = Inr l' \<Longrightarrow> wf_lesson l'"
  by (auto simp: wf_lesson_def validate_lesson_def split: if_splits)

lemma validate_all_wf: "validate_all ls = Inr ls' \<Longrightarrow> list_all wf_lesson ls'"
  by (induction ls arbitrary: ls') (auto split: sum.splits dest: validate_lesson_wf)

lemma validate_all_id: "list_all wf_lesson ls \<Longrightarrow> validate_all ls = Inr ls"
  by (induction ls) (auto simp: wf_lesson_def)

lemma validate_all_length: "validate_all ls = Inr ls' \<Longrightarrow> map ls_id ls' = map ls_id ls"
  by (induction ls arbitrary: ls')
    (auto simp: validate_lesson_def split: sum.splits if_splits)

lemma wf_lesson_iff:
  "wf_lesson l \<longleftrightarrow> ls_text l \<noteq> [] \<and> strip (ls_text l) = ls_text l \<and>
     0 \<le> ls_confidence l \<and> ls_confidence l \<le> 1 \<and> normalize_tags (ls_tags l) = ls_tags l"
proof -
  have "l\<lparr>ls_text := a, ls_tags := b\<rparr> = l \<longleftrightarrow> a = ls_text l \<and> b = ls_tags l" for a b
    by (cases l) auto
  then show ?thesis by (auto simp: wf_lesson_def validate_lesson_def)
qed

section \<open>Loading and saving\<close>

definition lessons_path :: "env \<Rightarrow> string" where
  "lessons_path E = root_path E @ ''/.forge/lessons.yaml''"

definition empty_lessons :: lesson_document where
  "empty_lessons = \<lparr>ld_schema_version = ''0.1'', ld_lessons = []\<rparr>"

definition lesson_load :: "env \<Rightarrow> (world, lesson_document) prog" where
  "lesson_load E = (\<lambda>w. (case w_lessons w of
       Absent \<Rightarrow> Inr empty_lessons
     | Unreadable \<Rightarrow> Inl (LessonStoreError (''Could not read lesson store: '' @ lessons_path E))
     | BadSyntax \<Rightarrow> Inl (LessonStoreError (''Lesson store is not valid YAML: '' @ lessons_path E))
     | EmptyDoc \<Rightarrow> Inr empty_lessons
     | NotMapping \<Rightarrow>
         Inl (LessonStoreError (''Lesson store must contain a YAML mapping: '' @ lessons_path E))
     | BadShape m \<Rightarrow> Inl (LessonStoreError (''Invalid lesson store: '' @ m))
     | Doc d \<Rightarrow> (case validate_all (ld_lessons d) of
           Inl e \<Rightarrow> Inl (LessonStoreError (''Invalid lesson store: '' @ exn_message e))
         | Inr ls \<Rightarrow> Inr (d\<lparr>ld_lessons := ls\<rparr>)), w))"

definition lesson_save :: "env \<Rightarrow> lesson_document \<Rightarrow> (world, unit) prog" where
  "lesson_save E d = write_file E (lessons_path E) (\<lambda>w. w\<lparr>w_lessons := Doc d\<rparr>)"

lemma lesson_load_unchanged [frame_intros]: "unchanged f (lesson_load E)"
  by (simp add: unchanged_def lesson_load_def)

lemma lesson_save_unchanged [frame_intros]:
  assumes "\<And>w n. f (w\<lparr>w_writes := n\<rparr>) = f w" and "\<And>w x. f (w\<lparr>w_lessons := x\<rparr>) = f w"
  shows "unchanged f (lesson_save E d)"
  unfolding lesson_save_def using assms by (intro frame_intros) auto

interpretation lesson_store: document_store "lesson_load E" "lesson_save E" wf_lessons for E
proof unfold_locales
  fix w show "snd (lesson_load E w) = w" by (simp add: lesson_load_def)
next
  fix d w w' assume "wf_lessons d" "lesson_save E d w = (Inr (), w')"
  then show "fst (lesson_load E w') = Inr d"
    by (auto simp: lesson_save_def write_file_run lesson_load_def wf_lessons_def validate_all_id
        split: if_splits)
next
  fix d w x w' assume "lesson_save E d w = (Inl x, w')"
  then show "fst (lesson_load E w') = fst (lesson_load E w)"
    by (auto simp: lesson_save_def write_file_run lesson_load_def split: if_splits)
next
  fix w d assume "fst (lesson_load E w) = Inr d"
  then show "wf_lessons d"
    by (auto simp: lesson_load_def wf_lessons_def empty_lessons_def dest: validate_all_wf
        split: doc_file.splits sum.splits)
qed

section \<open>Operations\<close>

text \<open>\<open>list\<close>: the three filters, then creation order.\<close>

definition lesson_list :: "env \<Rightarrow> lesson_status option \<Rightarrow> string option \<Rightarrow> string option
    \<Rightarrow> (world, lesson list) prog" where
  "lesson_list E status stage_id tag = bindp (lesson_load E) (\<lambda>d.
     let ls = ld_lessons d;
         ls = (case status of None \<Rightarrow> ls | Some s \<Rightarrow> filter (\<lambda>l. ls_status l = s) ls);
         ls = (case stage_id of None \<Rightarrow> ls
               | Some s \<Rightarrow> filter (\<lambda>l. ls_stage_id l \<in> {None, Some s}) ls);
         ls = (case tag of None \<Rightarrow> ls
               | Some t \<Rightarrow> filter (\<lambda>l. lower (strip t) \<in> set (ls_tags l)) ls)
     in ret (sort_key (\<lambda>l. (ls_created_at l, ls_id l)) ls))"

definition lesson_add :: "env \<Rightarrow> string \<Rightarrow> real \<Rightarrow> string list \<Rightarrow> string option \<Rightarrow> lesson_source
    \<Rightarrow> lesson_status option \<Rightarrow> json_obj \<Rightarrow> (world, lesson) prog" where
  "lesson_add E text confidence tags stage_id source status metadata =
     bindp (utc_now E) (\<lambda>t. bindp (uuid4 E) (\<lambda>u.
     bindp (lift_result (validate_lesson
       \<lparr>ls_id = ''lesson-'' @ u, ls_text = text,
        ls_status = (case status of None \<Rightarrow> LsPending | Some s \<Rightarrow> s),
        ls_confidence = confidence, ls_tags = tags, ls_stage_id = stage_id, ls_source = source,
        ls_created_at = t, ls_updated_at = t, ls_approved_at = None, ls_deprecated_at = None,
        ls_last_used_at = None, ls_use_count = 0, ls_dormant = False, ls_dormant_at = None,
        ls_metadata = metadata\<rparr>)) (\<lambda>l.
     edit (lesson_load E) (lesson_save E) Inr (ret ())
       (\<lambda>_ _ d. d\<lparr>ld_lessons := ld_lessons d @ [l]\<rparr>) (\<lambda>_ _. l))))"

definition require_lesson :: "string \<Rightarrow> lesson_document \<Rightarrow> exn + lesson" where
  "require_lesson lid d = (case List.find (\<lambda>l. ls_id l = lid) (ld_lessons d) of
       Some l \<Rightarrow> Inr l
     | None \<Rightarrow> Inl (LessonStoreError (''Unknown lesson `'' @ lid @ ''`.'')))"

text \<open>Mutating the required lesson in the loaded document.\<close>

definition change_lesson :: "env \<Rightarrow> (string \<Rightarrow> lesson \<Rightarrow> lesson) \<Rightarrow> string \<Rightarrow> (world, lesson) prog" where
  "change_lesson E change lid =
     edit (lesson_load E) (lesson_save E) (require_lesson lid) (utc_now E)
       (\<lambda>_ t d. d\<lparr>ld_lessons := update_first (\<lambda>l. ls_id l = lid) (change t) (ld_lessons d)\<rparr>)
       (\<lambda>l t. change t l)"

definition set_approved :: "string \<Rightarrow> lesson \<Rightarrow> lesson" where
  "set_approved t l = l\<lparr>ls_status := LsApproved, ls_approved_at := Some t,
     ls_deprecated_at := None, ls_updated_at := t\<rparr>"

definition set_deprecated :: "string \<Rightarrow> lesson \<Rightarrow> lesson" where
  "set_deprecated t l = l\<lparr>ls_status := LsDeprecated, ls_deprecated_at := Some t,
     ls_updated_at := t\<rparr>"

definition set_awake :: "string \<Rightarrow> lesson \<Rightarrow> lesson" where
  "set_awake t l = l\<lparr>ls_dormant := False, ls_dormant_at := None, ls_updated_at := t\<rparr>"

definition lesson_approve :: "env \<Rightarrow> string \<Rightarrow> (world, lesson) prog" where
  "lesson_approve E lid = change_lesson E set_approved lid"

definition lesson_deprecate :: "env \<Rightarrow> string \<Rightarrow> (world, lesson) prog" where
  "lesson_deprecate E lid = change_lesson E set_deprecated lid"

definition lesson_revive :: "env \<Rightarrow> string \<Rightarrow> (world, lesson) prog" where
  "lesson_revive E lid = change_lesson E set_awake lid"

definition eligible :: "string option \<Rightarrow> real \<Rightarrow> lesson \<Rightarrow> bool" where
  "eligible stage_id min_confidence l \<longleftrightarrow> \<not> ls_dormant l \<and> min_confidence \<le> ls_confidence l \<and>
     (ls_stage_id l = None \<or> stage_id = None \<or> ls_stage_id l = stage_id)"

definition approved_for_context :: "env \<Rightarrow> string option \<Rightarrow> real \<Rightarrow> int
    \<Rightarrow> (world, lesson list) prog" where
  "approved_for_context E stage_id min_confidence limit =
     bindp (lesson_list E (Some LsApproved) None None) (\<lambda>ls. ret
       (slice_to limit (sort_desc (\<lambda>l. (ls_confidence l, ls_updated_at l))
          (filter (eligible stage_id min_confidence) ls))))"

record rendered_lesson =
  rl_id :: string
  rl_text :: string
  rl_confidence :: real
  rl_tags :: "string list"
  rl_stage_id :: "string option"

definition render_lesson :: "lesson \<Rightarrow> rendered_lesson" where
  "render_lesson l = \<lparr>rl_id = ls_id l, rl_text = ls_text l, rl_confidence = ls_confidence l,
     rl_tags = ls_tags l, rl_stage_id = ls_stage_id l\<rparr>"

definition mark_used :: "string \<Rightarrow> lesson \<Rightarrow> lesson" where
  "mark_used t l = l\<lparr>ls_last_used_at := Some t, ls_use_count := ls_use_count l + 1\<rparr>"

text \<open>
  The loop over the document: a lesson whose id was selected is marked and rendered. The table
  \<open>rendered\<close> is keyed by id.
\<close>

fun render_loop :: "string list \<Rightarrow> string \<Rightarrow> lesson list \<Rightarrow> (string, rendered_lesson) dict
    \<Rightarrow> lesson list \<times> (string, rendered_lesson) dict" where
  "render_loop ids t [] rendered = ([], rendered)"
| "render_loop ids t (l # ls) rendered =
     (if ls_id l \<notin> set ids
      then (let (ls', r) = render_loop ids t ls rendered in (l # ls', r))
      else (let (ls', r) = render_loop ids t ls (dict_set (ls_id l) (render_lesson l) rendered)
            in (mark_used t l # ls', r)))"

definition lookup_all :: "('k, 'v) dict \<Rightarrow> 'k list \<Rightarrow> 'v list" where
  "lookup_all d ks = map (\<lambda>k. the (dict_get d k)) ks"

definition render_context :: "env \<Rightarrow> string option \<Rightarrow> real \<Rightarrow> int
    \<Rightarrow> (world, rendered_lesson list) prog" where
  "render_context E stage_id min_confidence limit =
     bindp (approved_for_context E stage_id min_confidence limit) (\<lambda>selected.
       let ids = map ls_id selected in
       if ids = [] then ret []
       else bindp (lesson_load E) (\<lambda>d. bindp (utc_now E) (\<lambda>t.
         let (ls, rendered) = render_loop ids t (ld_lessons d) [] in
         thenp (lesson_save E (d\<lparr>ld_lessons := ls\<rparr>)) (ret (lookup_all rendered ids)))))"

section \<open>What the operations do to the document\<close>

lemma lesson_contents: "lesson_store.contents E w = fst (lesson_load E w)"
  by (simp add: lesson_store.contents_def)

lemma contents_blind:
  "lesson_store.contents E (w\<lparr>w_clock := n\<rparr>) = lesson_store.contents E w"
  "lesson_store.contents E (w\<lparr>w_uuids := n\<rparr>) = lesson_store.contents E w"
  by (simp_all only: lesson_contents) (simp_all add: lesson_load_def)

lemma reads_keep_lessons [frame_intros]:
  "unchanged (lesson_store.contents E) (utc_now E')" "unchanged (lesson_store.contents E) (uuid4 E')"
  by (simp_all add: unchanged_def env_reads contents_blind)

definition mutations :: "(string \<Rightarrow> lesson \<Rightarrow> lesson) set" where
  "mutations = {set_approved, set_deprecated, set_awake}"

lemma mutations_wf: "c \<in> mutations \<Longrightarrow> wf_lesson l \<Longrightarrow> wf_lesson (c t l)"
  by (auto simp: mutations_def wf_lesson_iff set_approved_def set_deprecated_def set_awake_def)

lemma mutations_id [simp]: "c \<in> mutations \<Longrightarrow> ls_id (c t l) = ls_id l"
  by (auto simp: mutations_def set_approved_def set_deprecated_def set_awake_def)

lemma update_first_wf:
  "(\<And>l. wf_lesson l \<Longrightarrow> wf_lesson (f l)) \<Longrightarrow> list_all wf_lesson ls \<Longrightarrow>
   list_all wf_lesson (update_first p f ls)"
  by (induction ls) auto

lemma change_lesson_cases:
  assumes "c \<in> mutations" and run: "change_lesson E c lid w = (r, w')"
  shows "case r of
      Inl e \<Rightarrow> lesson_store.contents E w' = lesson_store.contents E w
    | Inr l \<Rightarrow> \<exists>d k t. lesson_store.contents E w = Inr d \<and> require_lesson lid d = Inr k \<and>
        l = c t k \<and> lesson_store.contents E w' =
          Inr (d\<lparr>ld_lessons := update_first (\<lambda>l. ls_id l = lid) (c t) (ld_lessons d)\<rparr>)"
proof (cases r)
  case (Inl e)
  with run lesson_store.edit_refused reads_keep_lessons(1) show ?thesis
    unfolding change_lesson_def by fastforce
next
  case (Inr l)
  have keep: "wf_lessons d \<Longrightarrow>
      wf_lessons (d\<lparr>ld_lessons := update_first (\<lambda>l. ls_id l = lid) (c t) (ld_lessons d)\<rparr>)" for d t
    using assms(1) by (simp add: wf_lessons_def update_first_wf mutations_wf)
  from Inr run have "change_lesson E c lid w = (Inr l, w')" by simp
  from lesson_store.edit_ok [OF this [unfolded change_lesson_def] reads_keep_lessons(1) keep] Inr
  show ?thesis by fastforce
qed

lemma find_mem_id: "List.find (\<lambda>l. ls_id l = i) ls = Some l \<Longrightarrow> ls_id l = i"
  by (auto dest: find_Some_set)

lemma render_loop_lessons:
  "fst (render_loop ids t ls r) = map (\<lambda>l. if ls_id l \<in> set ids then mark_used t l else l) ls"
  by (induction ids t ls r rule: render_loop.induct) (auto split: prod.splits)

lemma render_loop_other:
  "i \<notin> ls_id ` set ls \<Longrightarrow> dict_get (snd (render_loop ids t ls r)) i = dict_get r i"
  by (induction ids t ls r rule: render_loop.induct) (auto split: prod.splits)

lemma render_loop_rendered:
  "distinct (map ls_id ls) \<Longrightarrow> l \<in> set ls \<Longrightarrow> ls_id l \<in> set ids \<Longrightarrow>
   dict_get (snd (render_loop ids t ls r)) (ls_id l) = Some (render_lesson l)"
proof (induction ids t ls r rule: render_loop.induct)
  case (2 ids t x ls r)
  show ?case
  proof (cases "l = x")
    case True
    from 2(3) have "ls_id x \<notin> ls_id ` set ls" by simp
    with True 2(5) render_loop_other [OF this, of ids t "dict_set (ls_id x) (render_lesson x) r"]
    show ?thesis by (auto split: prod.splits)
  next
    case False
    with 2 show ?thesis by (auto split: prod.splits)
  qed
qed simp

lemma lesson_list_run:
  "lesson_list E status sid tag w = (case lesson_store.contents E w of
      Inl e \<Rightarrow> (Inl e, w)
    | Inr d \<Rightarrow> (Inr (sort_key (\<lambda>l. (ls_created_at l, ls_id l)) (filter (\<lambda>l.
         (case status of None \<Rightarrow> True | Some s \<Rightarrow> ls_status l = s) \<and>
         (case sid of None \<Rightarrow> True | Some s \<Rightarrow> ls_stage_id l \<in> {None, Some s}) \<and>
         (case tag of None \<Rightarrow> True | Some t \<Rightarrow> lower (strip t) \<in> set (ls_tags l))) (ld_lessons d))), w))"
  by (auto simp: lesson_list_def bindp_run ret_run lesson_store.load_run Let_def conj_commute
      conj_left_commute split: sum.split option.split)

lemma approved_run:
  "approved_for_context E sid mc limit w = (case lesson_store.contents E w of
      Inl e \<Rightarrow> (Inl e, w)
    | Inr d \<Rightarrow> (Inr (slice_to limit (sort_desc (\<lambda>l. (ls_confidence l, ls_updated_at l))
        (filter (eligible sid mc) (sort_key (\<lambda>l. (ls_created_at l, ls_id l))
          (filter (\<lambda>l. ls_status l = LsApproved) (ld_lessons d)))))), w))"
  by (simp add: approved_for_context_def bindp_run ret_run lesson_list_run split: sum.split)

section \<open>Properties\<close>

text \<open>The lesson store round-trips: whatever document \<open>load\<close> returns (text and tags normalized by
  the validators), saving it and loading it again returns the same document, so the normalization
  is idempotent and a read-modify-write never changes a lesson it does not mean to.\<close>

theorem lesson_store_roundtrip:
  assumes "fst (lesson_load E w) = Inr d" and "lesson_save E d w1 = (Inr (), w2)"
  shows "lesson_load E w2 = (Inr d, w2)"
  using lesson_store.save_contents [OF _ assms(2)] lesson_store.load_valid [OF assms(1)]
  by (simp add: lesson_store.load_run)

definition demo_lesson :: lesson where
  "demo_lesson = \<lparr>ls_id = ''lesson-1'', ls_text = '' use tests '', ls_status = LsApproved,
     ls_confidence = 9 / 10, ls_tags = ['' QA'', ''qa'', '' ''], ls_stage_id = None,
     ls_source = SrcManual, ls_created_at = ''t0'', ls_updated_at = ''t0'', ls_approved_at = None,
     ls_deprecated_at = None, ls_last_used_at = None, ls_use_count = 0, ls_dormant = False,
     ls_dormant_at = None, ls_metadata = []\<rparr>"

definition demo_lesson_world :: world where
  "demo_lesson_world = empty_world\<lparr>w_lessons :=
     Doc \<lparr>ld_schema_version = ''0.1'', ld_lessons = [demo_lesson]\<rparr>\<rparr>"

definition demo_lesson_norm :: lesson where
  "demo_lesson_norm = demo_lesson\<lparr>ls_text := ''use tests'', ls_tags := [''qa'']\<rparr>"

lemma validate_demo: "validate_lesson demo_lesson = Inr demo_lesson_norm"
proof -
  have "strip '' use tests '' = ''use tests''" "normalize_tags ['' QA'', ''qa'', '' ''] = [''qa'']"
    by code_simp+
  then show ?thesis by (simp add: validate_lesson_def demo_lesson_def demo_lesson_norm_def)
qed

lemma demo_norm_fields:
  "ls_id demo_lesson_norm = ''lesson-1''" "ls_status demo_lesson_norm = LsApproved"
  "ls_confidence demo_lesson_norm = 9 / 10" "ls_dormant demo_lesson_norm = False"
  "ls_stage_id demo_lesson_norm = None"
  by (simp_all add: demo_lesson_norm_def demo_lesson_def)

lemma demo_lesson_contents:
  "lesson_load demo_env demo_lesson_world =
     (Inr \<lparr>ld_schema_version = ''0.1'', ld_lessons = [demo_lesson_norm]\<rparr>, demo_lesson_world)"
  by (simp add: lesson_load_def demo_lesson_world_def validate_demo)

lemma lesson_store_roundtrip_witness:
  "\<exists>w2. lesson_load demo_env w2 =
     (Inr \<lparr>ld_schema_version = ''0.1'', ld_lessons = [demo_lesson_norm]\<rparr>, w2) \<and>
     demo_lesson_norm \<noteq> demo_lesson"
proof -
  let ?d = "\<lparr>ld_schema_version = ''0.1'', ld_lessons = [demo_lesson_norm]\<rparr>"
  obtain w2 where "lesson_save demo_env ?d empty_world = (Inr (), w2)"
    by (simp add: lesson_save_def write_file_ok)
  moreover have "fst (lesson_load demo_env demo_lesson_world) = Inr ?d"
    by (simp add: demo_lesson_contents)
  ultimately have "lesson_load demo_env w2 = (Inr ?d, w2)" by (rule lesson_store_roundtrip [rotated])
  then show ?thesis by (auto simp: demo_lesson_norm_def demo_lesson_def)
qed

text \<open>Approving, deprecating or reviving a lesson changes that lesson and nothing else. When the
  operation returns, reading the store gives the old document with the first lesson of that id
  changed (same ids, same order, same number of lessons); when it raises (unknown id, unreadable
  or unwritable store), reading the store gives what it gave before.\<close>

theorem lesson_mutation_is_local:
  assumes "c \<in> mutations"
  shows "case change_lesson E c lid w of
      (Inl e, w') \<Rightarrow> fst (lesson_load E w') = fst (lesson_load E w)
    | (Inr l, w') \<Rightarrow> \<exists>d d' t k. fst (lesson_load E w) = Inr d \<and> fst (lesson_load E w') = Inr d' \<and>
        List.find (\<lambda>l. ls_id l = lid) (ld_lessons d) = Some k \<and> l = c t k \<and>
        List.find (\<lambda>l. ls_id l = lid) (ld_lessons d') = Some l \<and>
        map ls_id (ld_lessons d') = map ls_id (ld_lessons d) \<and>
        filter (\<lambda>l. ls_id l \<noteq> lid) (ld_lessons d') = filter (\<lambda>l. ls_id l \<noteq> lid) (ld_lessons d)"
proof -
  obtain r w' where run: "change_lesson E c lid w = (r, w')" by (cases "change_lesson E c lid w")
  have other: "filter (\<lambda>l. ls_id l \<noteq> lid) (update_first (\<lambda>l. ls_id l = lid) (c t) ls) =
      filter (\<lambda>l. ls_id l \<noteq> lid) ls" for t ls
    using assms by (induction ls) auto
  show ?thesis
  proof (cases r)
    case (Inl e)
    with run change_lesson_cases [OF assms run] show ?thesis by (simp add: lesson_contents)
  next
    case (Inr l)
    with change_lesson_cases [OF assms run] obtain d k t where
      d: "lesson_store.contents E w = Inr d" "require_lesson lid d = Inr k" "l = c t k"
        "lesson_store.contents E w' =
          Inr (d\<lparr>ld_lessons := update_first (\<lambda>l. ls_id l = lid) (c t) (ld_lessons d)\<rparr>)" by auto
    from d(2) have k: "List.find (\<lambda>l. ls_id l = lid) (ld_lessons d) = Some k"
      by (auto simp: require_lesson_def split: option.splits)
    with assms d(3) have "List.find (\<lambda>l. ls_id l = lid)
        (update_first (\<lambda>l. ls_id l = lid) (c t) (ld_lessons d)) = Some l"
      using update_first_find [OF k, of "c t"] find_mem_id [OF k] by simp
    with run Inr d k other assms show ?thesis
      by (auto simp: lesson_contents intro!: exI [of _ d] exI [of _ t])
  qed
qed

lemma lesson_mutation_is_local_witness:
  "\<exists>l w'. lesson_approve demo_env ''lesson-1'' demo_lesson_world = (Inr l, w') \<and>
     (\<exists>d'. fst (lesson_load demo_env w') = Inr d' \<and> map ls_id (ld_lessons d') = [''lesson-1''])"
proof -
  have m: "set_approved \<in> mutations" by (simp add: mutations_def)
  have "\<exists>l w'. change_lesson demo_env set_approved ''lesson-1'' demo_lesson_world = (Inr l, w')"
    by (simp add: change_lesson_def edit_def bindp_run demo_lesson_contents lift_result_run
        require_lesson_def thenp_run lesson_save_def write_file_ok utc_now_def ret_run)
      (simp add: demo_lesson_norm_def demo_lesson_def lift_result_run thenp_run write_file_ok ret_run)
  then obtain l w' where run: "change_lesson demo_env set_approved ''lesson-1'' demo_lesson_world =
      (Inr l, w')" by blast
  from lesson_mutation_is_local [OF m, where E = demo_env and lid = "''lesson-1''"
      and w = demo_lesson_world] run
  show ?thesis by (auto simp: lesson_approve_def demo_lesson_contents demo_norm_fields)
qed

text \<open>The lessons injected into an agent's context are safe and the best ones: each is approved,
  awake, at least as confident as required and of the stage (or of no stage); there are at most
  \<open>limit\<close> of them, in descending order of confidence (then of last update); and no approved,
  eligible lesson that was left out ranks above one that was taken.\<close>

theorem context_lessons_top_ranked:
  assumes "approved_for_context E sid mc limit w = (Inr sel, w')" and "0 \<le> limit"
    and "fst (lesson_load E w) = Inr d"
  shows "set sel \<subseteq> {l \<in> set (ld_lessons d). ls_status l = LsApproved \<and> eligible sid mc l} \<and>
    int (length sel) \<le> limit \<and>
    sorted_wrt (\<lambda>x y. (ls_confidence y, ls_updated_at y) \<le> (ls_confidence x, ls_updated_at x)) sel \<and>
    (\<forall>l \<in> set (ld_lessons d). \<forall>s \<in> set sel. ls_status l = LsApproved \<and> eligible sid mc l \<and> l \<notin> set sel \<longrightarrow>
       (ls_confidence l, ls_updated_at l) \<le> (ls_confidence s, ls_updated_at s))"
proof -
  let ?key = "\<lambda>l. (ls_confidence l, ls_updated_at l)"
  define all where "all = sort_desc ?key (filter (eligible sid mc)
      (sort_key (\<lambda>l. (ls_created_at l, ls_id l))
        (filter (\<lambda>l. ls_status l = LsApproved) (ld_lessons d))))"
  from assms(1,3) have "sel = slice_to limit all"
    by (simp add: approved_run all_def lesson_contents)
  with assms(2) have sel: "sel = take (nat limit) all" by (simp add: slice_to_def)
  have set_all: "set all = {l \<in> set (ld_lessons d). ls_status l = LsApproved \<and> eligible sid mc l}"
    by (auto simp: all_def)
  have sorted: "sorted_wrt (\<lambda>x y. ?key y \<le> ?key x) all"
    unfolding all_def by (rule sort_desc_sorted)
  have "?key l \<le> ?key s" if "s \<in> set sel" "l \<in> set all" "l \<notin> set sel" for l s
  proof -
    have "set all = set sel \<union> set (drop (nat limit) all)"
      using sel by (metis append_take_drop_id set_append)
    with that have "l \<in> set (drop (nat limit) all)" by blast
    moreover have "sorted_wrt (\<lambda>x y. ?key y \<le> ?key x) (sel @ drop (nat limit) all)"
      using sorted sel by simp
    ultimately show ?thesis using that(1) by (auto simp: sorted_wrt_append)
  qed
  moreover have "sorted_wrt (\<lambda>x y. ?key y \<le> ?key x) sel"
    using sorted sel by (simp add: sorted_wrt_take)
  moreover have "int (length sel) \<le> limit" using sel assms(2) by simp
  moreover have "set sel \<subseteq> set all" using sel by (auto dest: in_set_takeD)
  ultimately show ?thesis using set_all by blast
qed

lemma demo_selection:
  "approved_for_context demo_env None (1 / 2) 5 demo_lesson_world =
     (Inr [demo_lesson_norm], demo_lesson_world)"
  by (simp add: approved_run lesson_contents demo_lesson_contents eligible_def slice_to_def
      sort_desc_def demo_norm_fields)

lemma context_lessons_top_ranked_witness:
  "fst (approved_for_context demo_env None (1 / 2) 5 demo_lesson_world) = Inr [demo_lesson_norm] \<and>
   int (length [demo_lesson_norm]) \<le> 5"
proof -
  have load: "fst (lesson_load demo_env demo_lesson_world) =
      Inr \<lparr>ld_schema_version = ''0.1'', ld_lessons = [demo_lesson_norm]\<rparr>"
    by (simp add: demo_lesson_contents)
  have "(0::int) \<le> 5" by simp
  from context_lessons_top_ranked [OF demo_selection this load] demo_selection
  show ?thesis by simp
qed

text \<open>Rendering counts as usage, exactly once per injected lesson: when \<open>render_context\<close> returns a
  non-empty context from a store whose ids are distinct, it returns the selected lessons in rank
  order as they were stored, and the store afterwards differs only in that each of them has its
  \<open>use_count\<close> increased by one and \<open>last_used_at\<close> set.\<close>

lemma render_counts_usage_once:
  assumes "render_context E sid mc limit w = (Inr out, w')" and "out \<noteq> []"
    and "fst (lesson_load E w) = Inr d" and "distinct (map ls_id (ld_lessons d))"
    and "approved_for_context E sid mc limit w = (Inr sel, w)"
  shows "out = map render_lesson sel \<and>
    (\<exists>t. fst (lesson_load E w') = Inr (d\<lparr>ld_lessons :=
       map (\<lambda>l. if ls_id l \<in> ls_id ` set sel then mark_used t l else l) (ld_lessons d)\<rparr>))"
proof -
  have load: "lesson_load E v = (lesson_store.contents E v, v)" for v
    by (rule lesson_store.load_run)
  let ?ids = "map ls_id sel" and ?t = "now_at E (w_clock w)"
  from assms(1,2,5) have ids: "?ids \<noteq> []"
    by (auto simp: render_context_def bindp_run ret_run split: if_splits)
  obtain ls rendered where rl: "render_loop ?ids ?t (ld_lessons d) [] = (ls, rendered)"
    by (cases "render_loop ?ids ?t (ld_lessons d) []")
  from assms(1,5) assms(3) [folded lesson_contents] ids rl have
    save: "lesson_save E (d\<lparr>ld_lessons := ls\<rparr>) (w\<lparr>w_clock := Suc (w_clock w)\<rparr>) = (Inr (), w')"
    and out: "out = lookup_all rendered ?ids"
    by (auto simp: render_context_def bindp_run thenp_run ret_run utc_now_def load Let_def
        split: prod.splits sum.splits if_splits)
  from rl have ls: "ls = map (\<lambda>l. if ls_id l \<in> set ?ids then mark_used ?t l else l) (ld_lessons d)"
    using render_loop_lessons [of ?ids ?t "ld_lessons d" "[]"] by simp
  have "wf_lessons d" using assms(3) by (rule lesson_store.load_valid)
  then have "wf_lessons (d\<lparr>ld_lessons := ls\<rparr>)"
    unfolding ls by (auto simp: wf_lessons_def list_all_iff wf_lesson_iff mark_used_def)
  from lesson_store.save_contents [OF this save]
  have after: "fst (lesson_load E w') = Inr (d\<lparr>ld_lessons := ls\<rparr>)" by (simp add: lesson_contents)
  have "set sel \<subseteq> set (ld_lessons d)"
  proof -
    from assms(3,5) have "sel = slice_to limit (sort_desc (\<lambda>l. (ls_confidence l, ls_updated_at l))
        (filter (eligible sid mc) (sort_key (\<lambda>l. (ls_created_at l, ls_id l))
          (filter (\<lambda>l. ls_status l = LsApproved) (ld_lessons d)))))"
      by (simp add: approved_run lesson_contents)
    then show ?thesis
      using set_slice_to [of limit "sort_desc (\<lambda>l. (ls_confidence l, ls_updated_at l))
        (filter (eligible sid mc) (sort_key (\<lambda>l. (ls_created_at l, ls_id l))
          (filter (\<lambda>l. ls_status l = LsApproved) (ld_lessons d))))"] by auto
  qed
  then have "dict_get rendered (ls_id l) = Some (render_lesson l)" if "l \<in> set sel" for l
    using that render_loop_rendered [OF assms(4), of l ?ids ?t "[]"] rl by auto
  then have "out = map render_lesson sel" unfolding out lookup_all_def by simp
  with after ls show ?thesis by auto
qed

lemma render_counts_usage_once_witness:
  "\<exists>w' t. render_context demo_env None (1 / 2) 5 demo_lesson_world =
      (Inr [render_lesson demo_lesson_norm], w') \<and>
    fst (lesson_load demo_env w') = Inr \<lparr>ld_schema_version = ''0.1'',
      ld_lessons = [mark_used t demo_lesson_norm]\<rparr>"
proof -
  let ?d = "\<lparr>ld_schema_version = ''0.1'', ld_lessons = [demo_lesson_norm]\<rparr>"
  have load: "fst (lesson_load demo_env demo_lesson_world) = Inr ?d"
    by (simp add: demo_lesson_contents)
  obtain out w' where run: "render_context demo_env None (1 / 2) 5 demo_lesson_world = (Inr out, w')"
    and ne: "out \<noteq> []"
    by (simp add: render_context_def bindp_run demo_selection demo_lesson_contents Let_def
        utc_now_def thenp_run ret_run lesson_save_def write_file_ok lookup_all_def demo_norm_fields
        demo_lesson_contents)
  have "distinct (map ls_id (ld_lessons ?d))" by simp
  from render_counts_usage_once [OF run ne load this demo_selection] run
  show ?thesis by (auto simp: demo_norm_fields)
qed

end
