(* ===== verification/Reflections.thy ===== *)
theory Reflections imports Lessons Events begin

text \<open>
  The reflection store, \<open>memory/reflections.py\<close>: one YAML file per reflection under
  \<open>.forge/reflections/\<close>. The directory is a dictionary from paths to files. \<open>save\<close> replaces the
  colons of the whole path, so the file name can be used on every system.
\<close>

section \<open>Paths\<close>

definition reflections_dir :: "env \<Rightarrow> string" where
  "reflections_dir E = root_path E @ ''/.forge/reflections''"

definition reflection_path :: "env \<Rightarrow> reflection \<Rightarrow> string" where
  "reflection_path E r = replace_char CHR '':'' CHR ''-''
     (reflections_dir E @ ''/'' @ rf_created_at r @ ''-'' @ rf_id r @ ''.yaml'')"

text \<open>\<open>reflections_dir.glob("*.yaml")\<close>: the files directly in the directory with that suffix.\<close>

definition in_reflections_dir :: "env \<Rightarrow> string \<Rightarrow> bool" where
  "in_reflections_dir E p \<longleftrightarrow> starts_with (reflections_dir E @ ''/'') p \<and>
     CHR ''/'' \<notin> set (drop (length (reflections_dir E) + 1) p) \<and> ends_with p ''.yaml''"

section \<open>Operations\<close>

definition reflection_save :: "env \<Rightarrow> reflection \<Rightarrow> (world, unit) prog" where
  "reflection_save E r = write_file E (reflection_path E r) (\<lambda>w. w\<lparr>w_reflections :=
     Some (dict_set (reflection_path E r) (Doc r)
       (case w_reflections w of None \<Rightarrow> [] | Some files \<Rightarrow> files))\<rparr>)"

definition reflection_add :: "env \<Rightarrow> string \<Rightarrow> string \<Rightarrow> string option \<Rightarrow> string list \<Rightarrow> string list
    \<Rightarrow> json_obj \<Rightarrow> (world, reflection) prog" where
  "reflection_add E event_type summary stage_id observations lesson_ids metadata =
     bindp (utc_now E) (\<lambda>t. bindp (uuid4 E) (\<lambda>u.
       if summary = [] then throw (ValidationError ''summary'')
       else let r = \<lparr>rf_id = ''reflection-'' @ u, rf_stage_id = stage_id,
           rf_event_type = event_type, rf_summary = summary, rf_observations = observations,
           rf_lesson_ids = lesson_ids, rf_created_at = t, rf_metadata = metadata\<rparr>
         in thenp (reflection_save E r) (ret r)))"

definition record_stage_completion :: "env \<Rightarrow> string \<Rightarrow> (world, reflection) prog" where
  "record_stage_completion E stage_id =
     bindp (lesson_add E
        (''Review completed `'' @ stage_id @ ''` stage for reusable lessons before future work.'')
        (4 / 10) [''reflection'', ''stage-completion''] (Some stage_id) SrcReflection
        (Some LsPending) [(''queued_by'', JStr ''ReflectionStore.record_stage_completion'')])
     (\<lambda>l. reflection_add E ''StageCompleted''
        (''Stage `'' @ stage_id @ ''` completed; reflection captured for lesson review.'')
        (Some stage_id)
        [''A stage completion occurred.'',
         ''A pending lesson extraction item was queued for human approval.'']
        [ls_id l] [(''lesson_extraction_status'', JStr ''pending_approval'')])"

definition load_file :: "string \<Rightarrow> reflection doc_file \<Rightarrow> exn + reflection" where
  "load_file path f = (case f of
       Absent \<Rightarrow> Inl (ReflectionStoreError (''Could not read reflection: '' @ path))
     | Unreadable \<Rightarrow> Inl (ReflectionStoreError (''Could not read reflection: '' @ path))
     | BadSyntax \<Rightarrow> Inl (ReflectionStoreError (''Reflection is not valid YAML: '' @ path))
     | EmptyDoc \<Rightarrow>
         Inl (ReflectionStoreError (''Reflection file must contain a YAML mapping: '' @ path))
     | NotMapping \<Rightarrow>
         Inl (ReflectionStoreError (''Reflection file must contain a YAML mapping: '' @ path))
     | BadShape m \<Rightarrow>
         Inl (ReflectionStoreError (''Invalid reflection file '' @ path @ '': '' @ m))
     | Doc r \<Rightarrow> Inr r)"

fun load_files :: "(string \<times> reflection doc_file) list \<Rightarrow> exn + reflection list" where
  "load_files [] = Inr []"
| "load_files ((p, f) # fs) = (case load_file p f of Inl e \<Rightarrow> Inl e
     | Inr r \<Rightarrow> (case load_files fs of Inl e \<Rightarrow> Inl e | Inr rs \<Rightarrow> Inr (r # rs)))"

definition reflection_list :: "env \<Rightarrow> string option \<Rightarrow> (world, reflection list) prog" where
  "reflection_list E stage_id = bindp (asks w_reflections) (\<lambda>dir. case dir of
       None \<Rightarrow> ret []
     | Some files \<Rightarrow>
         bindp (lift_result (load_files (sort_key fst (filter (\<lambda>(p, f). in_reflections_dir E p) files))))
           (\<lambda>rs. ret (sort_key (\<lambda>r. (rf_created_at r, rf_id r))
              (case stage_id of None \<Rightarrow> rs | Some s \<Rightarrow> filter (\<lambda>r. rf_stage_id r = Some s) rs))))"

definition reflection_get :: "env \<Rightarrow> string \<Rightarrow> (world, reflection) prog" where
  "reflection_get E rid = bindp (reflection_list E None) (\<lambda>rs.
     case List.find (\<lambda>r. rf_id r = rid) rs of
       Some r \<Rightarrow> ret r
     | None \<Rightarrow> throw (ReflectionStoreError (''Unknown reflection `'' @ rid @ ''`.'')))"

section \<open>What the operations leave alone\<close>

lemma lesson_add_unchanged [frame_intros]:
  assumes "\<And>w n. f (w\<lparr>w_clock := n\<rparr>) = f w" "\<And>w n. f (w\<lparr>w_uuids := n\<rparr>) = f w"
    "\<And>w n. f (w\<lparr>w_writes := n\<rparr>) = f w" "\<And>w x. f (w\<lparr>w_lessons := x\<rparr>) = f w"
  shows "unchanged f (lesson_add E t c ts s src st m)"
  unfolding lesson_add_def using assms by (intro frame_intros) auto

lemma reflection_add_unchanged [frame_intros]:
  assumes "\<And>w n. f (w\<lparr>w_clock := n\<rparr>) = f w" "\<And>w n. f (w\<lparr>w_uuids := n\<rparr>) = f w"
    "\<And>w n. f (w\<lparr>w_writes := n\<rparr>) = f w" "\<And>w x. f (w\<lparr>w_reflections := x\<rparr>) = f w"
  shows "unchanged f (reflection_add E t s st obs ls m)"
  unfolding reflection_add_def reflection_save_def Let_def using assms by (intro frame_intros) auto

lemma record_stage_completion_unchanged [frame_intros]:
  assumes "bus_blind f" "\<And>w x. f (w\<lparr>w_lessons := x\<rparr>) = f w" "\<And>w x. f (w\<lparr>w_reflections := x\<rparr>) = f w"
  shows "unchanged f (record_stage_completion E s)"
  unfolding record_stage_completion_def using assms bus_blindD [OF assms(1)]
  by (intro frame_intros) auto

section \<open>Reading the directory\<close>

lemma load_file_Inr [simp]: "load_file p f = Inr r \<longleftrightarrow> f = Doc r"
  by (auto simp: load_file_def split: doc_file.splits)

lemma load_files_Inr: "load_files fs = Inr rs \<longleftrightarrow> map snd fs = map Doc rs"
proof (induction fs arbitrary: rs)
  case Nil
  show ?case by auto
next
  case (Cons f fs)
  obtain p d where f: "f = (p, d)" by (cases f)
  show ?case
  proof (cases "load_files fs")
    case (Inl e)
    with Cons.IH have "map snd fs \<noteq> map Doc ys" for ys by simp
    with Inl f show ?thesis
      by (cases d) (auto simp: Cons_eq_map_conv load_file_def)
  next
    case (Inr ys)
    have "map snd fs = map Doc zs \<longleftrightarrow> zs = ys" for zs
      using Cons.IH [of zs] Inr by auto
    with Inr f show ?thesis
      by (cases d) (auto simp: Cons_eq_map_conv load_file_def)
  qed
qed

lemma load_files_ex: "(\<exists>rs. load_files fs = Inr rs) \<longleftrightarrow> (\<forall>f\<in>set fs. \<exists>r. snd f = Doc r)"
proof -
  have "(\<exists>rs. map snd fs = map Doc rs) \<longleftrightarrow> (\<forall>f\<in>set fs. \<exists>r. snd f = Doc r)"
    by (induction fs) (auto simp: Cons_eq_map_conv)
  then show ?thesis by (simp add: load_files_Inr)
qed

lemma dict_set_fresh: "k \<notin> fst ` set d \<Longrightarrow> dict_set k v d = d @ [(k, v)]"
  unfolding dict_set_def by (induction d) auto

definition reflection_files :: "env \<Rightarrow> world \<Rightarrow> (string \<times> reflection doc_file) list" where
  "reflection_files E w = (case w_reflections w of None \<Rightarrow> []
     | Some fs \<Rightarrow> filter (\<lambda>(p, f). in_reflections_dir E p) fs)"

text \<open>What \<open>list\<close> returns: exactly the reflections of the files, when every file is readable.\<close>

lemma reflection_list_mset:
  "(\<exists>rs. reflection_list E None w = (Inr rs, w) \<and> mset rs = mset xs) \<longleftrightarrow>
     mset (map snd (reflection_files E w)) = mset (map Doc xs)"
proof -
  define fs where "fs = sort_key fst (reflection_files E w)"
  have run: "reflection_list E None w = (map_sum id (sort_key (\<lambda>r. (rf_created_at r, rf_id r)))
      (load_files fs), w)"
    by (cases "w_reflections w"; cases "load_files fs")
      (auto simp: reflection_list_def prog_simps fs_def reflection_files_def)
  have fs: "mset (map snd fs) = mset (map snd (reflection_files E w))"
    by (simp add: fs_def)
  have inj: "image_mset Doc a = image_mset Doc b \<longleftrightarrow> a = b" for a b :: "reflection multiset"
    using multiset.inj_map_strong [of a b Doc Doc] by (metis doc_file.inject)
  show ?thesis
  proof
    assume "\<exists>rs. reflection_list E None w = (Inr rs, w) \<and> mset rs = mset xs"
    then obtain ys where "load_files fs = Inr ys" "mset ys = mset xs"
      using run by (cases "load_files fs") auto
    then show "mset (map snd (reflection_files E w)) = mset (map Doc xs)"
      using fs load_files_Inr by (metis mset_map)
  next
    assume a: "mset (map snd (reflection_files E w)) = mset (map Doc xs)"
    then have "set (map snd fs) = set (map Doc xs)" using fs by (metis mset_eq_setD)
    then have "\<forall>f\<in>set fs. \<exists>r. snd f = Doc r" by auto
    then obtain ys where ys: "load_files fs = Inr ys" using load_files_ex by blast
    then have "image_mset Doc (mset ys) = image_mset Doc (mset xs)"
      using a fs load_files_Inr [of fs ys] by (metis mset_map)
    with ys run show "\<exists>rs. reflection_list E None w = (Inr rs, w) \<and> mset rs = mset xs"
      by (auto simp: inj)
  qed
qed

lemma reflection_save_files:
  assumes "reflection_save E r w = (Inr (), w')"
    and "reflection_path E r \<notin> fst ` set (case w_reflections w of None \<Rightarrow> [] | Some fs \<Rightarrow> fs)"
    and "in_reflections_dir E (reflection_path E r)"
  shows "reflection_files E w' = reflection_files E w @ [(reflection_path E r, Doc r)]"
  using assms
  by (auto simp: reflection_save_def write_file_run reflection_files_def dict_set_fresh
      split: if_splits option.splits)

lemma reflection_path_in_dir:
  assumes "CHR '':'' \<notin> set (root_path E)" and "CHR ''/'' \<notin> set (rf_created_at r @ rf_id r)"
  shows "in_reflections_dir E (reflection_path E r)"
proof -
  have dir: "replace_char CHR '':'' CHR ''-'' (reflections_dir E) = reflections_dir E"
    using assms(1) by (auto simp: replace_char_def reflections_dir_def intro!: map_idI)
  define t where "t = replace_char CHR '':'' CHR ''-'' (rf_created_at r @ ''-'' @ rf_id r)"
  have p: "reflection_path E r = reflections_dir E @ ''/'' @ t @ ''.yaml''"
    using dir by (simp add: reflection_path_def t_def replace_char_def)
  have "CHR ''/'' \<notin> set t" using assms(2) by (auto simp: t_def replace_char_def)
  then show ?thesis
    by (auto simp: in_reflections_dir_def p starts_with_append ends_with_def)
qed

section \<open>Properties\<close>

text \<open>A reflection that was added is found again: if the reflections are listable and \<open>add\<close>
  returns, then \<open>list\<close> afterwards gives the old reflections and the new one, once, provided the
  file name is not taken and the project's path has no colon (\<open>save\<close> rewrites colons in the
  whole path, not only in the file name).\<close>

theorem added_reflection_is_listed:
  assumes "reflection_add E ty summary sid obs ls md w = (Inr r, w')"
    and "reflection_list E None w = (Inr rs, w)"
    and "CHR '':'' \<notin> set (root_path E)" and "CHR ''/'' \<notin> set (rf_created_at r @ rf_id r)"
    and "reflection_path E r \<notin> fst ` set (case w_reflections w of None \<Rightarrow> [] | Some fs \<Rightarrow> fs)"
  shows "\<exists>rs'. reflection_list E None w' = (Inr rs', w') \<and> mset rs' = add_mset r (mset rs) \<and>
    rf_summary r = summary \<and> rf_stage_id r = sid \<and> rf_observations r = obs \<and> rf_lesson_ids r = ls"
proof -
  define w1 where "w1 = w\<lparr>w_clock := Suc (w_clock w), w_uuids := Suc (w_uuids w)\<rparr>"
  have w1: "w_reflections w1 = w_reflections w" by (simp add: w1_def)
  from assms(1) have save: "reflection_save E r w1 = (Inr (), w')"
    and r: "rf_summary r = summary" "rf_stage_id r = sid" "rf_observations r = obs" "rf_lesson_ids r = ls"
    by (auto simp: reflection_add_def prog_simps Let_def w1_def
        split: if_splits prod.splits sum.splits)
  have "reflection_files E w' = reflection_files E w1 @ [(reflection_path E r, Doc r)]"
    using w1 assms(3-5)
    by (intro reflection_save_files [OF save] reflection_path_in_dir) auto
  moreover have "reflection_files E w1 = reflection_files E w"
    using w1 by (simp add: reflection_files_def)
  moreover have "mset (map snd (reflection_files E w)) = mset (map Doc rs)"
    using assms(2) reflection_list_mset by blast
  ultimately have "mset (map snd (reflection_files E w')) = mset (map Doc (r # rs))" by simp
  with r show ?thesis using reflection_list_mset [of E w' "r # rs"] by auto
qed

lemma added_reflection_is_listed_witness:
  "\<exists>r w' rs'. reflection_add demo_env ''StageCompleted'' ''done'' None [] [] [] empty_world = (Inr r, w') \<and>
     reflection_list demo_env None w' = (Inr rs', w') \<and> mset rs' = {#r#}"
proof -
  let ?r = "\<lparr>rf_id = ''reflection-u0'', rf_stage_id = None, rf_event_type = ''StageCompleted'',
    rf_summary = ''done'', rf_observations = [], rf_lesson_ids = [], rf_created_at = ''t0'',
    rf_metadata = []\<rparr>"
  have "uuid_at demo_env 0 = ''u0''" "now_at demo_env 0 = ''t0''"
    by (simp_all add: demo_env_def)
  then obtain w' where run: "reflection_add demo_env ''StageCompleted'' ''done'' None [] [] [] empty_world =
      (Inr ?r, w')"
    by (simp add: reflection_add_def prog_simps Let_def reflection_save_def
        write_file_ok [OF demo_env_writes, unfolded write_file_run]) (simp add: empty_world_def demo_env_def)
  have list: "reflection_list demo_env None empty_world = (Inr [], empty_world)"
    by (simp add: reflection_list_def prog_simps empty_world_def)
  from added_reflection_is_listed [OF run list] run show ?thesis
    by (simp add: demo_env_def empty_world_def)
qed

end
