(* ===== verification/StateManager.thy ===== *)
theory StateManager imports Lifecycle Gates Config Reflections begin

text \<open>
  The pipeline state manager, \<open>core/state_manager.py\<close>, with the loader of \<open>state.json\<close> from
  \<open>project/status.py\<close>. Each operation is the whole handler: load, guards, the change of the
  in-memory state, \<open>save\<close> (state file, then configuration, then the markdown mirror, then the
  best-effort event store), then the lifecycle event with its hooks. The theorems relate what is
  in \<open>state.json\<close> before and after to the moves of theory \<open>Lifecycle\<close>, whatever fails on the way.
\<close>

section \<open>Loading\<close>

definition state_path :: "env \<Rightarrow> string" where
  "state_path E = root_path E @ ''/.forge/state.json''"

definition state_markdown_path :: "env \<Rightarrow> string" where
  "state_markdown_path E = root_path E @ ''/pipeline/state.md''"

definition load_state :: "env \<Rightarrow> (world, pipeline_state) prog" where
  "load_state E = (\<lambda>w. (case w_state w of
       Absent \<Rightarrow> Inl (StateError (''Could not read state file: '' @ state_path E))
     | Unreadable \<Rightarrow> Inl (StateError (''Could not read state file: '' @ state_path E))
     | BadSyntax \<Rightarrow> Inl (StateError (''State file is not valid JSON: '' @ state_path E))
     | EmptyDoc \<Rightarrow> Inl (StateError (''State file is not valid JSON: '' @ state_path E))
     | NotMapping \<Rightarrow> Inl (StateError ''PipelineState'')
     | BadShape m \<Rightarrow> Inl (StateError m)
     | Doc st \<Rightarrow> Inr st, w))"

section \<open>Saving\<close>

text \<open>
  \<open>_atomic_write_text\<close>: the directory is made first, and an error there is not wrapped; then a
  temporary file is written and moved over the target, and an error there removes it again.
\<close>

definition atomic_write :: "env \<Rightarrow> string \<Rightarrow> (world \<Rightarrow> world) \<Rightarrow> (world, unit) prog" where
  "atomic_write E path put =
     thenp (write_file E (path @ ''/..'') (\<lambda>w. w))
       (bindp (uuid4 E) (\<lambda>_. catchp (write_file E path put)
          (\<lambda>e. throw (AtomicWriteError (''Failed to atomically write '' @ path)))))"

definition render_state_markdown :: "forge_config \<Rightarrow> pipeline_state \<Rightarrow> string" where
  "render_state_markdown c st = join nl (
     [''# Forge Pipeline State'', [],
      ''This file is generated from `.forge/state.json`. Do not treat it as canonical.'', [],
      ''- Project: '' @ pc_name (cf_project c),
      ''- Profile: '' @ cf_profile c,
      ''- State schema version: '' @ ps_schema_version st,
      ''- Current stage: '' @ (case ps_current st of Some (x # xs) \<Rightarrow> x # xs | _ \<Rightarrow> ''none''),
      ''- Updated at: '' @ ps_updated_at st, [], ''## Stages'', []] @
     map (\<lambda>s. ''- '' @ stg_id s @ '': '' @ stage_status_text (stg_status s)) (ps_stages st) @ [[]])"

definition put_state :: "pipeline_state \<Rightarrow> world \<Rightarrow> world" where
  "put_state st w = w\<lparr>w_state := Doc st\<rparr>"

definition put_markdown :: "string \<Rightarrow> world \<Rightarrow> world" where
  "put_markdown s w = w\<lparr>w_state_md := Some s\<rparr>"

definition dual_write :: "env \<Rightarrow> pipeline_state \<Rightarrow> (world, unit) prog" where
  "dual_write E st = catchp
     (bindp (append_state_event E (''project/'' @ ps_project_id st) (dump_state st)) (\<lambda>_. ret ()))
     (\<lambda>e. ret ())"

definition state_save :: "env \<Rightarrow> pipeline_state \<Rightarrow> (world, pipeline_state) prog" where
  "state_save E st0 = bindp (utc_now E) (\<lambda>t. let st = st0\<lparr>ps_updated_at := t\<rparr> in
     thenp (atomic_write E (state_path E) (put_state st))
       (bindp (load_config E) (\<lambda>c.
          thenp (atomic_write E (state_markdown_path E) (put_markdown (render_state_markdown c st)))
            (thenp (dual_write E st) (ret st)))))"

definition log_transition :: "env \<Rightarrow> registered_hook list \<Rightarrow> string \<Rightarrow> pipeline_state \<Rightarrow> string
    \<Rightarrow> string option \<Rightarrow> (world, pipeline_state) prog" where
  "log_transition E hooks event_type st stage_id reason =
     bindp (emit_transition E hooks event_type st stage_id reason) (\<lambda>(ev, results).
       let st' = st\<lparr>ps_last_event_id := Some (ev_id ev)\<rparr> in
       thenp (atomic_write E (state_path E) (put_state st')) (ret st'))"

section \<open>Looking up stages\<close>

definition unknown_stage :: "string \<Rightarrow> exn" where
  "unknown_stage stage_id = StateTransitionError (''Unknown stage `'' @ stage_id @ ''`.'')"

definition find_stage :: "pipeline_state \<Rightarrow> string \<Rightarrow> exn + stage_state" where
  "find_stage st stage_id = (case List.find (\<lambda>s. stg_id s = stage_id) (ps_stages st) of
       Some s \<Rightarrow> Inr s | None \<Rightarrow> Inl (unknown_stage stage_id))"

fun index_from :: "nat \<Rightarrow> stage_state list \<Rightarrow> string \<Rightarrow> exn + nat" where
  "index_from n [] stage_id = Inl (unknown_stage stage_id)"
| "index_from n (s # ss) stage_id =
     (if stg_id s = stage_id then Inr n else index_from (Suc n) ss stage_id)"

definition stage_index :: "pipeline_state \<Rightarrow> string \<Rightarrow> exn + nat" where
  "stage_index st stage_id = index_from 0 (ps_stages st) stage_id"

definition first_not_started_stage :: "pipeline_state \<Rightarrow> stage_state option" where
  "first_not_started_stage st = List.find (\<lambda>s. stg_status s = NotStarted) (ps_stages st)"

section \<open>The transitions\<close>

text \<open>\<open>x or d\<close> for an optional string: the empty string counts as missing.\<close>

definition or_else :: "string option \<Rightarrow> (world, string) prog \<Rightarrow> (world, string) prog" where
  "or_else v m = (case v of Some (c # cs) \<Rightarrow> ret (c # cs) | _ \<Rightarrow> m)"

definition start_guard :: "pipeline_state \<Rightarrow> nat \<Rightarrow> string \<Rightarrow> exn + stage_state" where
  "start_guard st i stage_id =
     (let stage = ps_stages st ! i in
      if stg_status stage = Active
      then Inl (StateTransitionError (''Stage `'' @ stage_id @ ''` is already active.''))
      else if stg_status stage = Complete
      then Inl (StateTransitionError (''Stage `'' @ stage_id @ ''` is already complete.''))
      else if list_ex (\<lambda>s. stg_status s = Active) (ps_stages st)
      then Inl (StateTransitionError
             ''Another stage is already active. Complete it before starting a new stage.'')
      else if 0 < i \<and> stg_status (ps_stages st ! (i - 1)) \<noteq> Complete
      then Inl (StateTransitionError (''Previous stage `'' @ stg_id (ps_stages st ! (i - 1)) @
             ''` must be complete first.''))
      else Inr stage)"

definition activate :: "nat \<Rightarrow> stage_state \<Rightarrow> string \<Rightarrow> pipeline_state \<Rightarrow> pipeline_state" where
  "activate i stage t st = st\<lparr>ps_stages := (ps_stages st)[i :=
       stage\<lparr>stg_status := Active, stg_entered_at := Some t, stg_blocked_reason := None\<rparr>],
     ps_current := Some (stg_id stage)\<rparr>"

definition start_stage :: "env \<Rightarrow> registered_hook list \<Rightarrow> string \<Rightarrow> (world, pipeline_state) prog" where
  "start_stage E hooks stage_id =
     bindp (load_state E) (\<lambda>st. bindp (lift_result (stage_index st stage_id)) (\<lambda>i.
     bindp (lift_result (start_guard st i stage_id)) (\<lambda>stage.
     bindp (or_else (stg_entered_at stage) (utc_now E)) (\<lambda>t.
     bindp (state_save E (activate i stage t st)) (\<lambda>st1.
     log_transition E hooks ''StageStarted'' st1 (stg_id stage) None)))))"

definition gate_block_reason :: "gate_result list \<Rightarrow> string" where
  "gate_block_reason results = (let blocking = filter gr_blocking results in
     if blocking = [] then ''Gate evaluation blocked this stage.''
     else join ''; '' (map gr_summary blocking))"

definition record_gates :: "string \<Rightarrow> gate_result list \<Rightarrow> pipeline_state \<Rightarrow> pipeline_state" where
  "record_gates stage_id results st = st\<lparr>ps_gates := dict_set stage_id
     (JObj [(''blocked'', JBool (has_blocking_failures results)),
            (''results'', JArr (map dump_gate_result results))]) (ps_gates st)\<rparr>"

definition set_stage :: "string \<Rightarrow> (stage_state \<Rightarrow> stage_state) \<Rightarrow> pipeline_state \<Rightarrow> pipeline_state" where
  "set_stage stage_id f st =
     st\<lparr>ps_stages := update_first (\<lambda>s. stg_id s = stage_id) f (ps_stages st)\<rparr>"

definition finish_stage :: "string \<Rightarrow> stage_state \<Rightarrow> stage_state" where
  "finish_stage t s = s\<lparr>stg_status := Complete, stg_completed_at := Some t,
     stg_blocked_reason := None\<rparr>"

definition block_stage :: "string \<Rightarrow> stage_state \<Rightarrow> stage_state" where
  "block_stage reason s = s\<lparr>stg_status := Blocked, stg_blocked_reason := Some reason\<rparr>"

definition complete_stage :: "env \<Rightarrow> registered_hook list \<Rightarrow> string \<Rightarrow> (world, pipeline_state) prog" where
  "complete_stage E hooks stage_id =
     bindp (load_state E) (\<lambda>st. bindp (lift_result (find_stage st stage_id)) (\<lambda>stage.
     if stg_status stage \<noteq> Active
     then throw (StateTransitionError
            (''Stage `'' @ stage_id @ ''` must be active before it can complete.''))
     else bindp (evaluate_stage E (Some hooks) stage_id) (\<lambda>results.
       let st1 = record_gates stage_id results st in
       if list_ex gr_blocking results
       then (let reason = gate_block_reason results in
         bindp (state_save E (set_stage stage_id (block_stage reason) st1)) (\<lambda>st2.
         bindp (log_transition E hooks ''StageBlocked'' st2 stage_id None) (\<lambda>_.
         throw (StateTransitionError reason))))
       else bindp (utc_now E) (\<lambda>t.
         bindp (state_save E ((set_stage stage_id (finish_stage t) st1)\<lparr>ps_current := None\<rparr>)) (\<lambda>st2.
         bindp (log_transition E hooks ''StageCompleted'' st2 stage_id None) (\<lambda>st3.
         bindp (record_stage_completion E stage_id) (\<lambda>_. ret st3)))))))"

definition advance :: "env \<Rightarrow> registered_hook list \<Rightarrow> (world, pipeline_state) prog" where
  "advance E hooks = bindp (load_state E) (\<lambda>st. case ps_current st of
       None \<Rightarrow> (case first_not_started_stage st of
           None \<Rightarrow> throw (StateTransitionError ''Pipeline is already complete.'')
         | Some next_st \<Rightarrow> start_stage E hooks (stg_id next_st))
     | Some cur \<Rightarrow> bindp (lift_result (stage_index st cur)) (\<lambda>i.
         if stg_status (ps_stages st ! i) \<noteq> Active
         then throw (StateTransitionError (''Current stage `'' @ cur @ ''` is not active.''))
         else thenp (complete_stage E hooks cur)
           (if length (ps_stages st) \<le> i + 1
            then bindp (load_state E) (\<lambda>st'. state_save E (st'\<lparr>ps_current := None\<rparr>))
            else start_stage E hooks (stg_id (ps_stages st ! (i + 1))))))"

definition override_status :: "string \<Rightarrow> string \<Rightarrow> stage_state \<Rightarrow> stage_state" where
  "override_status target t s =
     (if stg_id s = target
      then s\<lparr>stg_status := Active, stg_blocked_reason := None, stg_entered_at :=
             (case stg_entered_at s of Some (c # cs) \<Rightarrow> Some (c # cs) | _ \<Rightarrow> Some t)\<rparr>
      else if stg_status s = Active
      then s\<lparr>stg_status := Blocked,
             stg_blocked_reason := Some (''Superseded by override to `'' @ target @ ''`.'')\<rparr>
      else s)"

definition override_stage :: "env \<Rightarrow> registered_hook list \<Rightarrow> string \<Rightarrow> string
    \<Rightarrow> (world, pipeline_state) prog" where
  "override_stage E hooks stage_id reason =
     (if strip reason = [] then throw (StateTransitionError ''Override requires a non-empty reason.'')
      else bindp (load_state E) (\<lambda>st. bindp (lift_result (find_stage st stage_id)) (\<lambda>target.
        bindp (utc_now E) (\<lambda>t.
        bindp (state_save E (st\<lparr>ps_stages := map (override_status (stg_id target) t) (ps_stages st),
                                ps_current := Some (stg_id target)\<rparr>)) (\<lambda>st1.
        log_transition E hooks ''StageOverride'' st1 (stg_id target) (Some (strip reason)))))))"

definition list_stages :: "env \<Rightarrow> (world, stage_state list) prog" where
  "list_stages E = bindp (load_state E) (\<lambda>st. ret (ps_stages st))"

definition validate_state_file :: "env \<Rightarrow> (world, pipeline_state) prog" where
  "validate_state_file E = catchp (load_state E)
     (\<lambda>e. throw (StateError (''Invalid state file: '' @ state_path E)))"

section \<open>Commands\<close>

text \<open>One invocation of the manager, and a session: invocations one after the other, each with
  whatever outcome it has.\<close>

datatype command = CmdStart string | CmdComplete string | CmdAdvance | CmdOverride string string

primrec run_command :: "env \<Rightarrow> registered_hook list \<Rightarrow> command \<Rightarrow> (world, pipeline_state) prog" where
  "run_command E hooks (CmdStart s) = start_stage E hooks s"
| "run_command E hooks (CmdComplete s) = complete_stage E hooks s"
| "run_command E hooks CmdAdvance = advance E hooks"
| "run_command E hooks (CmdOverride s r) = override_stage E hooks s r"

primrec run_commands :: "env \<Rightarrow> registered_hook list \<Rightarrow> command list \<Rightarrow> world \<Rightarrow> world" where
  "run_commands E hooks [] w = w"
| "run_commands E hooks (c # cs) w = run_commands E hooks cs (snd (run_command E hooks c w))"

section \<open>What saving and logging do to the state file\<close>

definition lc_of :: "pipeline_state \<Rightarrow> lifecycle" where
  "lc_of st = \<lparr>lc_stages = map (\<lambda>s. (stg_id s, stg_status s)) (ps_stages st),
     lc_current = ps_current st\<rparr>"

text \<open>The same state, written at another time and after another event.\<close>

definition stamped :: "pipeline_state \<Rightarrow> pipeline_state \<Rightarrow> bool" where
  "stamped st st' \<longleftrightarrow> (\<exists>t i. st' = st\<lparr>ps_updated_at := t, ps_last_event_id := i\<rparr>)"

lemma stamped_refl: "stamped st st"
  unfolding stamped_def
  by (intro exI [of _ "ps_updated_at st"] exI [of _ "ps_last_event_id st"]) simp

lemma stamped_trans: "stamped a b \<Longrightarrow> stamped b c \<Longrightarrow> stamped a c"
  unfolding stamped_def by (elim exE) (simp, blast)

lemma stamped_updates [simp]:
  "stamped st (st\<lparr>ps_updated_at := t\<rparr>)" "stamped st (st\<lparr>ps_last_event_id := i\<rparr>)"
proof -
  show "stamped st (st\<lparr>ps_updated_at := t\<rparr>)"
    unfolding stamped_def by (intro exI [of _ t] exI [of _ "ps_last_event_id st"]) simp
  show "stamped st (st\<lparr>ps_last_event_id := i\<rparr>)"
    unfolding stamped_def by (intro exI [of _ "ps_updated_at st"] exI [of _ i]) simp
qed

lemma stamped_fields:
  assumes "stamped st st'"
  shows "lc_of st' = lc_of st" "ps_stages st' = ps_stages st" "ps_current st' = ps_current st"
    "ps_gates st' = ps_gates st" "ps_project_id st' = ps_project_id st"
  using assms by (auto simp: stamped_def lc_of_def)

lemma atomic_write_unchanged [frame_intros]:
  assumes "\<And>w n. f (w\<lparr>w_writes := n\<rparr>) = f w" "\<And>w n. f (w\<lparr>w_uuids := n\<rparr>) = f w"
    "\<And>w n. f (w\<lparr>w_clock := n\<rparr>) = f w" "\<And>w. f (put w) = f w"
  shows "unchanged f (atomic_write E p put)"
  unfolding atomic_write_def using assms by (intro frame_intros) auto

lemma atomic_write_state:
  assumes "atomic_write E p (put_state st) w = (r, w')"
  shows "(r = Inr () \<and> w_state w' = Doc st) \<or> (\<exists>e. r = Inl e \<and> w_state w' = w_state w)"
  using assms by (auto simp: atomic_write_def prog_simps put_state_def split: if_splits)

lemma dual_write_ok: "\<exists>w'. dual_write E st w = (Inr (), w')"
  by (auto simp: dual_write_def prog_simps split: prod.splits sum.splits)

lemma dual_write_unchanged [frame_intros]:
  assumes "\<And>w n. f (w\<lparr>w_writes := n\<rparr>) = f w" "\<And>w x. f (w\<lparr>w_db := x\<rparr>) = f w"
  shows "unchanged f (dual_write E st)"
  unfolding dual_write_def using assms by (intro frame_intros) auto

text \<open>The part of a save after the state file.\<close>

definition save_rest :: "env \<Rightarrow> pipeline_state \<Rightarrow> (world, pipeline_state) prog" where
  "save_rest E st = bindp (load_config E) (\<lambda>c.
     thenp (atomic_write E (state_markdown_path E) (put_markdown (render_state_markdown c st)))
       (thenp (dual_write E st) (ret st)))"

lemma save_rest_unchanged: "unchanged w_state (save_rest E st)"
  unfolding save_rest_def by (intro frame_intros) (auto simp: put_markdown_def)

lemma save_rest_result: "save_rest E st w = (Inr st', w') \<Longrightarrow> st' = st"
  by (auto simp: save_rest_def prog_simps split: prod.splits sum.splits)

lemma state_save_result:
  assumes "state_save E st w = (r, w')"
  shows "case r of
      Inr st' \<Rightarrow> stamped st st' \<and> w_state w' = Doc st'
    | Inl e \<Rightarrow> w_state w' = w_state w \<or> (\<exists>st'. stamped st st' \<and> w_state w' = Doc st')"
proof -
  define st' where "st' = st\<lparr>ps_updated_at := now_at E (w_clock w)\<rparr>"
  let ?w = "w\<lparr>w_clock := Suc (w_clock w)\<rparr>"
  have st': "stamped st st'" by (simp add: st'_def)
  have run: "state_save E st w = thenp (atomic_write E (state_path E) (put_state st')) (save_rest E st') ?w"
    by (simp add: state_save_def bindp_run utc_now_def st'_def save_rest_def Let_def)
  obtain r1 w1 where a: "atomic_write E (state_path E) (put_state st') ?w = (r1, w1)"
    by (cases "atomic_write E (state_path E) (put_state st') ?w")
  from atomic_write_state [OF a] show ?thesis
  proof
    assume ok: "r1 = Inr () \<and> w_state w1 = Doc st'"
    with run a assms have rest: "save_rest E st' w1 = (r, w')" by (simp add: thenp_run)
    from unchanged_result [OF save_rest_unchanged rest] ok have "w_state w' = Doc st'" by simp
    with st' rest show ?thesis by (cases r) (auto dest: save_rest_result)
  next
    assume "\<exists>e. r1 = Inl e \<and> w_state w1 = w_state ?w"
    with run a assms show ?thesis by (auto simp: thenp_run)
  qed
qed

lemma log_transition_result:
  assumes "log_transition E hooks ty st sid reason w = (r, w')"
  shows "case r of
      Inr st' \<Rightarrow> stamped st st' \<and> w_state w' = Doc st'
    | Inl e \<Rightarrow> w_state w' = w_state w"
proof -
  obtain r1 w1 where e: "emit_transition E hooks ty st sid reason w = (r1, w1)"
    by (cases "emit_transition E hooks ty st sid reason w")
  have keep: "w_state w1 = w_state w"
    using unchanged_result [OF emit_transition_unchanged e, of w_state] by simp
  show ?thesis
  proof (cases r1)
    case (Inl x)
    with e assms keep show ?thesis by (auto simp: log_transition_def bindp_run)
  next
    case (Inr x)
    obtain ev rs where x: "x = (ev, rs)" by (cases x)
    let ?st = "st\<lparr>ps_last_event_id := Some (ev_id ev)\<rparr>"
    obtain r2 w2 where a: "atomic_write E (state_path E) (put_state ?st) w1 = (r2, w2)"
      by (cases "atomic_write E (state_path E) (put_state ?st) w1")
    from atomic_write_state [OF a] e assms keep Inr x a show ?thesis
      by (auto simp: log_transition_def bindp_run thenp_run ret_run Let_def)
  qed
qed

text \<open>
  A save followed by an event and by something that leaves the state file alone: the file holds
  the new state, or nothing happened to it and the whole raised.
\<close>

lemma save_log_result:
  assumes run: "bindp (state_save E st) (\<lambda>st1. bindp (log_transition E hooks ty st1 sid reason) k) w = (r, w')"
    and k: "\<And>x. unchanged w_state (k x)"
  shows "((\<exists>e. r = Inl e) \<and> w_state w' = w_state w) \<or>
    (\<exists>st'. stamped st st' \<and> w_state w' = Doc st' \<and> (\<forall>y. r = Inr y \<longrightarrow> (\<exists>w2. k st' w2 = (Inr y, w'))))"
proof -
  obtain r1 w1 where s: "state_save E st w = (r1, w1)" by (cases "state_save E st w")
  show ?thesis
  proof (cases r1)
    case (Inl e)
    with s run state_save_result [OF s] show ?thesis by (auto simp: bindp_run)
  next
    case (Inr st1)
    with state_save_result [OF s] have st1: "stamped st st1" "w_state w1 = Doc st1" by auto
    obtain r2 w2 where l: "log_transition E hooks ty st1 sid reason w1 = (r2, w2)"
      by (cases "log_transition E hooks ty st1 sid reason w1")
    show ?thesis
    proof (cases r2)
      case (Inl e)
      with s l run Inr log_transition_result [OF l] st1 show ?thesis by (auto simp: bindp_run)
    next
      case r2: (Inr st2)
      with log_transition_result [OF l] st1 have st2: "stamped st st2" "w_state w2 = Doc st2"
        by (auto intro: stamped_trans)
      from s l run Inr r2 have "k st2 w2 = (r, w')" by (simp add: bindp_run)
      with unchanged_result [OF k this] st2 show ?thesis by auto
    qed
  qed
qed

section \<open>The operations as moves\<close>

lemma index_from_Inr:
  "index_from n ss sid = Inr i \<Longrightarrow> \<exists>xs s ys. ss = xs @ s # ys \<and> i = n + length xs \<and>
     stg_id s = sid \<and> (\<forall>x\<in>set xs. stg_id x \<noteq> sid)"
proof (induction n ss sid rule: index_from.induct)
  case (2 n s ss sid)
  show ?case
  proof (cases "stg_id s = sid")
    case True
    with 2 show ?thesis by (intro exI [of _ "[]"] exI [of _ s] exI [of _ ss]) auto
  next
    case False
    with 2 obtain xs s' ys where "ss = xs @ s' # ys" "i = Suc n + length xs" "stg_id s' = sid"
      "\<forall>x\<in>set xs. stg_id x \<noteq> sid" by auto
    with False show ?thesis by (intro exI [of _ "s # xs"] exI [of _ s'] exI [of _ ys]) auto
  qed
qed simp

lemma stage_index_Inr:
  assumes "stage_index st sid = Inr i"
  obtains xs s ys where "ps_stages st = xs @ s # ys" "i = length xs" "stg_id s = sid"
    "\<forall>x\<in>set xs. stg_id x \<noteq> sid"
  using assms index_from_Inr unfolding stage_index_def by (metis add_0)

lemma find_split:
  "List.find p ss = Some s \<Longrightarrow> \<exists>xs ys. ss = xs @ s # ys \<and> p s \<and> (\<forall>x\<in>set xs. \<not> p x)"
proof (induction ss)
  case (Cons a ss)
  show ?case
  proof (cases "p a")
    case True
    with Cons.prems show ?thesis by (intro exI [of _ "[]"] exI [of _ ss]) auto
  next
    case False
    with Cons obtain xs ys where "ss = xs @ s # ys" "p s" "\<forall>x\<in>set xs. \<not> p x" by auto
    with False show ?thesis by (intro exI [of _ "a # xs"] exI [of _ ys]) auto
  qed
qed simp

lemma find_stage_Inr:
  assumes "find_stage st sid = Inr s"
  obtains xs ys where "ps_stages st = xs @ s # ys" "stg_id s = sid" "\<forall>x\<in>set xs. stg_id x \<noteq> sid"
  using assms find_split [of "\<lambda>s. stg_id s = sid" "ps_stages st" s] that
  by (auto simp: find_stage_def split: option.splits)

lemma update_first_split:
  "\<forall>x\<in>set xs. \<not> p x \<Longrightarrow> p s \<Longrightarrow> update_first p f (xs @ s # ys) = xs @ f s # ys"
  by (induction xs) auto

lemma load_state_Doc: "w_state w = Doc st \<Longrightarrow> load_state E w = (Inr st, w)"
  by (simp add: load_state_def)

lemma load_state_Inr: "load_state E w = (Inr st, w') \<longleftrightarrow> w' = w \<and> w_state w = Doc st"
  by (auto simp: load_state_def split: doc_file.splits)

lemma or_else_unchanged [frame_intros]: "unchanged f m \<Longrightarrow> unchanged f (or_else v m)"
  unfolding or_else_def by (auto intro!: frame_intros split: option.split list.split)

lemma bindp_ret_right: "bindp m ret = m"
  by (auto simp: bindp_def ret_def fun_eq_iff split: prod.split sum.split)

lemma or_else_returns: "\<exists>t w'. or_else v (utc_now E) w = (Inr t, w')"
  by (simp add: or_else_def prog_simps split: option.split list.split)

lemma activate_step:
  assumes "stage_index st sid = Inr i" and "start_guard st i sid = Inr stage"
  shows "lstep (Start sid) (lc_of st) (lc_of (activate i stage t st)) \<and> stg_id stage = sid"
proof -
  from assms(1) obtain xs s ys where st: "ps_stages st = xs @ s # ys" "i = length xs" "stg_id s = sid"
    "\<forall>x\<in>set xs. stg_id x \<noteq> sid" by (rule stage_index_Inr)
  let ?p = "\<lambda>s. (stg_id s, stg_status s)"
  from assms(2) st have g: "stage = s" "stg_status s \<notin> {Active, Complete}"
    "\<forall>x\<in>set (ps_stages st). stg_status x \<noteq> Active"
    "xs = [] \<or> stg_status (ps_stages st ! (length xs - 1)) = Complete"
    by (auto simp: start_guard_def Let_def list_ex_iff split: if_splits)
  have "xs = [] \<or> snd (last (map ?p xs)) = Complete"
    using g(4) st(1) by (cases xs rule: rev_cases) (auto simp: nth_append)
  then have "lstep (Start sid) (lc_of st)
      \<lparr>lc_stages = map ?p xs @ (sid, Active) # map ?p ys, lc_current = Some sid\<rparr>"
    using g st by (intro lstep.start [where st = "stg_status s"]) (auto simp: lc_of_def)
  moreover have "lc_of (activate i stage t st) =
      \<lparr>lc_stages = map ?p xs @ (sid, Active) # map ?p ys, lc_current = Some sid\<rparr>"
    using st g(1) by (simp add: lc_of_def activate_def)
  ultimately show ?thesis using st g(1) by simp
qed

lemma finish_step:
  assumes "find_stage st sid = Inr stage" and "stg_status stage = Active"
  shows "lstep (Complete_it sid) (lc_of st)
      (lc_of ((set_stage sid (finish_stage t) (record_gates sid rs st))\<lparr>ps_current := None\<rparr>))"
    and "lstep (Block sid) (lc_of st) (lc_of (set_stage sid (block_stage rsn) (record_gates sid rs st)))"
proof -
  from assms(1) obtain xs ys where st: "ps_stages st = xs @ stage # ys" "stg_id stage = sid"
    "\<forall>x\<in>set xs. stg_id x \<noteq> sid" by (rule find_stage_Inr)
  let ?p = "\<lambda>s. (stg_id s, stg_status s)"
  have lc: "lc_stages (lc_of st) = map ?p xs @ (sid, Active) # map ?p ys"
    using st assms(2) by (simp add: lc_of_def)
  show "lstep (Complete_it sid) (lc_of st)
      (lc_of ((set_stage sid (finish_stage t) (record_gates sid rs st))\<lparr>ps_current := None\<rparr>))"
    using lstep.complete [OF lc] st
    by (simp add: lc_of_def set_stage_def record_gates_def finish_stage_def update_first_split)
  show "lstep (Block sid) (lc_of st) (lc_of (set_stage sid (block_stage rsn) (record_gates sid rs st)))"
    using lstep.block [OF lc] st
    by (simp add: lc_of_def set_stage_def record_gates_def block_stage_def update_first_split)
qed

lemma override_step:
  assumes "find_stage st sid = Inr target"
  shows "lstep (Override sid) (lc_of st)
      (lc_of (st\<lparr>ps_stages := map (override_status (stg_id target) t) (ps_stages st),
                  ps_current := Some (stg_id target)\<rparr>)) \<and> stg_id target = sid"
proof -
  from assms obtain xs ys where st: "ps_stages st = xs @ target # ys" "stg_id target = sid"
    by (rule find_stage_Inr)
  then have "sid \<in> fst ` set (lc_stages (lc_of st))" by (auto simp: lc_of_def)
  note step = lstep.override [OF this]
  have "lc_of (st\<lparr>ps_stages := map (override_status sid t) (ps_stages st), ps_current := Some sid\<rparr>) =
      \<lparr>lc_stages = map (\<lambda>(x, st). if x = sid then (x, Active)
        else if st = Active then (x, Blocked) else (x, st)) (lc_stages (lc_of st)),
       lc_current = Some sid\<rparr>"
    by (simp add: lc_of_def override_status_def)
  with step st(2) show ?thesis by simp
qed

text \<open>Where the state file is after an operation: where it was, or one move further.\<close>

definition moved :: "move list \<Rightarrow> pipeline_state \<Rightarrow> world \<Rightarrow> bool" where
  "moved ms st w \<longleftrightarrow> (\<exists>st'. w_state w = Doc st' \<and> lrun ms (lc_of st) (lc_of st'))"

lemma moved_Nil: "w_state w = Doc st \<Longrightarrow> moved [] st w"
  by (simp add: moved_def)

lemma start_stage_moves:
  assumes "w_state w = Doc st" and "start_stage E hooks sid w = (r, w')"
  shows "(\<exists>st'. w_state w' = Doc st' \<and> lstep (Start sid) (lc_of st) (lc_of st') \<and>
      (\<forall>y. r = Inr y \<longrightarrow> y = st')) \<or> ((\<exists>e. r = Inl e) \<and> w_state w' = Doc st)"
proof (cases "stage_index st sid")
  case (Inl e)
  with assms show ?thesis by (auto simp: start_stage_def bindp_run load_state_Doc lift_result_run)
next
  case i: (Inr i)
  show ?thesis
  proof (cases "start_guard st i sid")
    case (Inl e)
    with assms i show ?thesis by (auto simp: start_stage_def bindp_run load_state_Doc lift_result_run)
  next
    case g: (Inr stage)
    obtain t w1 where t: "or_else (stg_entered_at stage) (utc_now E) w = (Inr t, w1)"
      using or_else_returns by blast
    have w1: "w_state w1 = Doc st"
      using unchanged_result [OF or_else_unchanged t, of w_state] assms(1)
      by (simp add: frame_intros)
    let ?st = "activate i stage t st"
    have "bindp (state_save E ?st) (\<lambda>st1. log_transition E hooks ''StageStarted'' st1 (stg_id stage) None) w1 = (r, w')"
      using assms i g t by (simp add: start_stage_def bindp_run load_state_Doc lift_result_run)
    then have "bindp (state_save E ?st) (\<lambda>st1. bindp (log_transition E hooks ''StageStarted'' st1
        (stg_id stage) None) ret) w1 = (r, w')"
      by (simp add: bindp_ret_right)
    from save_log_result [OF this] w1 activate_step [OF i g, of t] show ?thesis
      by (auto simp: stamped_fields ret_run unchanged_basic)
  qed
qed

definition finished :: "string \<Rightarrow> string \<Rightarrow> gate_result list \<Rightarrow> pipeline_state \<Rightarrow> pipeline_state" where
  "finished sid t results st =
     (set_stage sid (finish_stage t) (record_gates sid results st))\<lparr>ps_current := None\<rparr>"

definition blocked :: "string \<Rightarrow> gate_result list \<Rightarrow> pipeline_state \<Rightarrow> pipeline_state" where
  "blocked sid results st =
     set_stage sid (block_stage (gate_block_reason results)) (record_gates sid results st)"

lemma complete_stage_cases:
  assumes st: "w_state w = Doc st" and run: "complete_stage E hooks sid w = (r, w')"
  obtains (refused) e where "r = Inl e" "w_state w' = Doc st"
  | (blocked) stage results w1 st' e where "find_stage st sid = Inr stage" "stg_status stage = Active"
      "evaluate_stage E (Some hooks) sid w = (Inr results, w1)" "list_ex gr_blocking results"
      "r = Inl e" "stamped (blocked sid results st) st'" "w_state w' = Doc st'"
  | (completed) stage results w1 t st' where "find_stage st sid = Inr stage" "stg_status stage = Active"
      "evaluate_stage E (Some hooks) sid w = (Inr results, w1)" "\<not> list_ex gr_blocking results"
      "stamped (finished sid t results st) st'" "w_state w' = Doc st'" "\<forall>y. r = Inr y \<longrightarrow> y = st'"
proof -
  note begin_run = complete_stage_def bindp_run load_state_Doc [OF st] lift_result_run
  consider e where "find_stage st sid = Inl e"
    | stage where "find_stage st sid = Inr stage" "stg_status stage \<noteq> Active"
    | stage where "find_stage st sid = Inr stage" "stg_status stage = Active"
    by (cases "find_stage st sid") auto
  then show thesis
  proof cases
    case (1 e)
    with run st show thesis by (intro refused) (auto simp: begin_run)
  next
    case (2 stage)
    with run st show thesis by (intro refused) (auto simp: begin_run throw_run)
  next
    case f: (3 stage)
    obtain q w1 where ev: "evaluate_stage E (Some hooks) sid w = (q, w1)"
      by (cases "evaluate_stage E (Some hooks) sid w")
    have w1: "w_state w1 = Doc st"
      using unchanged_result [OF evaluate_stage_unchanged ev, of w_state] st by simp
    show thesis
    proof (cases q)
      case (Inl e)
      with run f ev w1 show thesis by (intro refused) (auto simp: begin_run)
    next
      case q: (Inr results)
      show thesis
      proof (cases "list_ex gr_blocking results")
        case True
        let ?k = "\<lambda>_. throw (StateTransitionError (gate_block_reason results)) :: (world, pipeline_state) prog"
        have b: "bindp (state_save E (blocked sid results st)) (\<lambda>st2. bindp
            (log_transition E hooks ''StageBlocked'' st2 sid None) ?k) w1 = (r, w')"
          using run f ev q True by (simp add: begin_run Let_def blocked_def)
        have k: "unchanged w_state (?k x)" for x by (rule unchanged_basic)
        have e: "\<exists>e. r = Inl e"
          using b by (auto simp: bindp_run throw_run split: prod.splits sum.splits)
        then obtain e where e: "r = Inl e" by blast
        from save_log_result [OF b k] w1 e show thesis
        proof (elim disjE exE conjE)
          fix st' assume "stamped (blocked sid results st) st'" "w_state w' = Doc st'"
          then show thesis using blocked f ev q True e by blast
        qed (use refused e in auto)
      next
        case False
        let ?t = "now_at E (w_clock w1)" and ?w1 = "w1\<lparr>w_clock := Suc (w_clock w1)\<rparr>"
        let ?k = "\<lambda>st3. bindp (record_stage_completion E sid) (\<lambda>_. ret st3)"
        have b: "bindp (state_save E (finished sid ?t results st)) (\<lambda>st2. bindp
            (log_transition E hooks ''StageCompleted'' st2 sid None) ?k) ?w1 = (r, w')"
          using run f ev q False by (simp add: begin_run Let_def finished_def utc_now_def)
        have k: "unchanged w_state (?k x)" for x by (intro frame_intros) simp_all
        have res: "?k x v = (Inr y, v') \<Longrightarrow> y = x" for x y v v'
          by (auto simp: bindp_run ret_run split: prod.splits sum.splits)
        from save_log_result [OF b k] show thesis
        proof (elim disjE exE conjE)
          fix e assume "r = Inl e" "w_state w' = w_state ?w1"
          then show thesis using refused w1 by simp
        next
          fix st' assume "stamped (finished sid ?t results st) st'" "w_state w' = Doc st'"
            "\<forall>y. r = Inr y \<longrightarrow> (\<exists>w2. ?k st' w2 = (Inr y, w'))"
          then show thesis using completed f ev q False res by metis
        qed
      qed
    qed
  qed
qed

lemma complete_stage_moves:
  assumes "w_state w = Doc st" and "complete_stage E hooks sid w = (r, w')"
  shows "(\<exists>st' m. w_state w' = Doc st' \<and> m \<in> {Complete_it sid, Block sid} \<and>
      lstep m (lc_of st) (lc_of st') \<and>
      (\<forall>y. r = Inr y \<longrightarrow> y = st' \<and> m = Complete_it sid \<and> ps_current st' = None)) \<or>
    ((\<exists>e. r = Inl e) \<and> w_state w' = Doc st)"
  using assms
proof (cases rule: complete_stage_cases)
  case (refused e)
  then show ?thesis by blast
next
  case (blocked stage results w1 st' e)
  then have "lstep (Block sid) (lc_of st) (lc_of st')"
    using finish_step(2) by (auto simp: stamped_fields blocked_def)
  with blocked show ?thesis by blast
next
  case (completed stage results w1 t st')
  then have "lstep (Complete_it sid) (lc_of st) (lc_of st')" "ps_current st' = None"
    using finish_step(1) by (auto simp: stamped_fields finished_def)
  with completed show ?thesis by blast
qed

lemma override_stage_moves:
  assumes st: "w_state w = Doc st" and run: "override_stage E hooks sid reason w = (r, w')"
  shows "(\<exists>st'. w_state w' = Doc st' \<and> lstep (Override sid) (lc_of st) (lc_of st') \<and>
      (\<forall>y. r = Inr y \<longrightarrow> y = st')) \<or> ((\<exists>e. r = Inl e) \<and> w_state w' = Doc st)"
proof (cases "strip reason = []")
  case True
  with st run show ?thesis by (auto simp: override_stage_def throw_run)
next
  case ne: False
  note begin_run = override_stage_def bindp_run load_state_Doc [OF st] lift_result_run utc_now_def
  show ?thesis
  proof (cases "find_stage st sid")
    case (Inl e)
    with ne st run show ?thesis by (auto simp: begin_run)
  next
    case (Inr target)
    define t where "t = now_at E (w_clock w)"
    let ?st = "st\<lparr>ps_stages := map (override_status (stg_id target) t) (ps_stages st),
                  ps_current := Some (stg_id target)\<rparr>"
    have "bindp (state_save E ?st) (\<lambda>st1. bindp (log_transition E hooks ''StageOverride'' st1
        (stg_id target) (Some (strip reason))) ret) (w\<lparr>w_clock := Suc (w_clock w)\<rparr>) = (r, w')"
      using ne Inr run by (simp add: bindp_ret_right) (simp add: begin_run t_def)
    from save_log_result [OF this] st override_step [OF Inr, of t] show ?thesis
      by (auto simp: stamped_fields ret_run unchanged_basic)
  qed
qed

text \<open>How a command ends: at most two moves, none of them an override unless it is one; a command
  that returns returns what the file holds.\<close>

definition command_moves :: "command \<Rightarrow> move list \<Rightarrow> bool" where
  "command_moves c ms \<longleftrightarrow> length ms \<le> 2 \<and> (case c of
       CmdOverride s r \<Rightarrow> set ms \<subseteq> {Override s}
     | _ \<Rightarrow> (\<forall>s. Override s \<notin> set ms))"

lemma advance_moves:
  assumes st: "w_state w = Doc st" and run: "advance E hooks w = (r, w')"
  shows "\<exists>ms. moved ms st w' \<and> command_moves CmdAdvance ms \<and> (\<forall>y. r = Inr y \<longrightarrow> w_state w' = Doc y)"
proof -
  note begin_run = advance_def bindp_run load_state_Doc [OF st] lift_result_run
  have stay: ?thesis if "r = Inl e" "w_state w' = Doc st" for e
    using that by (intro exI [of _ "[]"]) (simp add: moved_Nil command_moves_def)
  have start: "\<exists>ms. moved ms st0 w' \<and> length ms \<le> 1 \<and> (\<forall>s. Override s \<notin> set ms) \<and>
      (\<forall>y. r = Inr y \<longrightarrow> w_state w' = Doc y)"
    if "start_stage E hooks sid w0 = (r, w')" "w_state w0 = Doc st0" for sid w0 st0
    using start_stage_moves [OF that(2,1)]
  proof (elim disjE exE conjE)
    fix st' assume a: "w_state w' = Doc st'" "lstep (Start sid) (lc_of st0) (lc_of st')"
      "\<forall>y. r = Inr y \<longrightarrow> y = st'"
    then show ?thesis by (intro exI [of _ "[Start sid]"]) (simp add: moved_def)
  next
    fix e assume "r = Inl e" "w_state w' = Doc st0"
    then show ?thesis by (intro exI [of _ "[]"]) (simp add: moved_Nil)
  qed
  show ?thesis
  proof (cases "ps_current st")
    case None
    show ?thesis
    proof (cases "first_not_started_stage st")
      case N2: None
      with None run st show ?thesis by (intro stay) (auto simp: begin_run throw_run)
    next
      case (Some nxt)
      with None run have "start_stage E hooks (stg_id nxt) w = (r, w')" by (simp add: begin_run)
      from start [OF this st] show ?thesis by (auto simp: command_moves_def)
    qed
  next
    case (Some cur)
    show ?thesis
    proof (cases "stage_index st cur")
      case (Inl e)
      with Some run st show ?thesis by (intro stay) (auto simp: begin_run)
    next
      case i: (Inr i)
      show ?thesis
      proof (cases "stg_status (ps_stages st ! i) = Active")
        case False
        with Some i run st show ?thesis by (intro stay) (auto simp: begin_run throw_run)
      next
        case act: True
        obtain q w1 where c: "complete_stage E hooks cur w = (q, w1)"
          by (cases "complete_stage E hooks cur w")
        let ?rest = "if length (ps_stages st) \<le> i + 1
            then bindp (load_state E) (\<lambda>st'. state_save E (st'\<lparr>ps_current := None\<rparr>))
            else start_stage E hooks (stg_id (ps_stages st ! (i + 1)))"
        have run': "thenp (complete_stage E hooks cur) ?rest w = (r, w')"
          using Some i act run by (simp add: begin_run)
        note cm = complete_stage_moves [OF st c]
        show ?thesis
        proof (cases q)
          case (Inl e)
          with c run' have "r = Inl e" "w' = w1" by (simp_all add: thenp_run)
          with cm show ?thesis
          proof (elim disjE exE conjE)
            fix st' m assume "w_state w1 = Doc st'" "m \<in> {Complete_it cur, Block cur}"
              "lstep m (lc_of st) (lc_of st')"
            with \<open>r = Inl e\<close> \<open>w' = w1\<close> show ?thesis
              by (intro exI [of _ "[m]"]) (auto simp: moved_def command_moves_def)
          qed (use stay in auto)
        next
          case (Inr st1)
          with cm have st1: "w_state w1 = Doc st1" "lstep (Complete_it cur) (lc_of st) (lc_of st1)"
            "ps_current st1 = None" by auto
          from run' c Inr have rest: "?rest w1 = (r, w')" by (simp add: thenp_run)
          show ?thesis
          proof (cases "length (ps_stages st) \<le> i + 1")
            case True
            have "st1\<lparr>ps_current := None\<rparr> = st1" using st1(3) by simp
            with rest True have sv: "state_save E st1 w1 = (r, w')"
              by (simp add: bindp_run load_state_Doc [OF st1(1)])
            have "\<exists>st2. w_state w' = Doc st2 \<and> lc_of st2 = lc_of st1 \<and> (\<forall>y. r = Inr y \<longrightarrow> y = st2)"
              using state_save_result [OF sv] st1(1) by (cases r) (auto simp: stamped_fields)
            with st1(2) show ?thesis
              by (intro exI [of _ "[Complete_it cur]"]) (auto simp: moved_def command_moves_def)
          next
            case False
            with rest have "start_stage E hooks (stg_id (ps_stages st ! (i + 1))) w1 = (r, w')" by simp
            from start [OF this st1(1)] obtain ms where "moved ms st1 w'" "length ms \<le> 1"
              "\<forall>s. Override s \<notin> set ms" "\<forall>y. r = Inr y \<longrightarrow> w_state w' = Doc y" by blast
            with st1(2) show ?thesis
              by (intro exI [of _ "Complete_it cur # ms"]) (auto simp: moved_def command_moves_def)
          qed
        qed
      qed
    qed
  qed
qed

lemma at_most_one_move:
  assumes "(\<exists>st'. w_state w' = Doc st' \<and> lstep m (lc_of st) (lc_of st') \<and> (\<forall>y. r = Inr y \<longrightarrow> y = st')) \<or>
      ((\<exists>e. r = Inl e) \<and> w_state w' = Doc st)"
    and "command_moves c [m]" and "command_moves c []"
  shows "\<exists>ms. moved ms st w' \<and> command_moves c ms \<and> (\<forall>y. r = Inr y \<longrightarrow> w_state w' = Doc y)"
  using assms(1)
proof (elim disjE exE conjE)
  fix st' assume "w_state w' = Doc st'" "lstep m (lc_of st) (lc_of st')" "\<forall>y. r = Inr y \<longrightarrow> y = st'"
  with assms(2) show ?thesis by (intro exI [of _ "[m]"]) (simp add: moved_def)
next
  fix e assume "r = Inl e" "w_state w' = Doc st"
  with assms(3) show ?thesis by (intro exI [of _ "[]"]) (simp add: moved_Nil)
qed

lemma run_command_moves:
  assumes "w_state w = Doc st" and "run_command E hooks c w = (r, w')"
  shows "\<exists>ms. moved ms st w' \<and> command_moves c ms \<and> (\<forall>y. r = Inr y \<longrightarrow> w_state w' = Doc y)"
proof (cases c)
  case (CmdStart s)
  with assms have "start_stage E hooks s w = (r, w')" by simp
  from at_most_one_move [OF start_stage_moves [OF assms(1) this], of c] CmdStart show ?thesis
    by (simp add: command_moves_def)
next
  case (CmdComplete s)
  with assms have "complete_stage E hooks s w = (r, w')" by simp
  from complete_stage_moves [OF assms(1) this] obtain m where
    "(\<exists>st'. w_state w' = Doc st' \<and> lstep m (lc_of st) (lc_of st') \<and> (\<forall>y. r = Inr y \<longrightarrow> y = st')) \<or>
      ((\<exists>e. r = Inl e) \<and> w_state w' = Doc st)" "m \<in> {Complete_it s, Block s}" by blast
  from at_most_one_move [OF this(1), of c] this(2) CmdComplete show ?thesis
    by (auto simp: command_moves_def)
next
  case CmdAdvance
  with advance_moves [of w st E hooks r w'] assms show ?thesis by simp
next
  case (CmdOverride s rsn)
  with assms have "override_stage E hooks s rsn w = (r, w')" by simp
  from at_most_one_move [OF override_stage_moves [OF assms(1) this], of c] CmdOverride show ?thesis
    by (simp add: command_moves_def)
qed

lemma run_commands_moves:
  "w_state w = Doc st \<Longrightarrow> \<exists>ms. moved ms st (run_commands E hooks cs w) \<and>
     length ms \<le> 2 * length cs \<and>
     ((\<forall>c\<in>set cs. \<forall>s r. c \<noteq> CmdOverride s r) \<longrightarrow> (\<forall>s. Override s \<notin> set ms))"
proof (induction cs arbitrary: w st)
  case Nil
  then show ?case by (intro exI [of _ "[]"]) (simp add: moved_Nil)
next
  case (Cons c cs)
  obtain r w1 where c: "run_command E hooks c w = (r, w1)" by (cases "run_command E hooks c w")
  from run_command_moves [OF Cons.prems c] obtain ms where ms: "moved ms st w1" "command_moves c ms"
    by blast
  then obtain st1 where st1: "w_state w1 = Doc st1" "lrun ms (lc_of st) (lc_of st1)"
    by (auto simp: moved_def)
  from Cons.IH [OF st1(1)] obtain ns where ns: "moved ns st1 (run_commands E hooks cs w1)"
    "length ns \<le> 2 * length cs"
    "(\<forall>c\<in>set cs. \<forall>s r. c \<noteq> CmdOverride s r) \<longrightarrow> (\<forall>s. Override s \<notin> set ns)" by blast
  have "\<forall>s r. c \<noteq> CmdOverride s r \<Longrightarrow> \<forall>s. Override s \<notin> set ms"
    using ms(2) by (cases c) (auto simp: command_moves_def)
  with ms st1 ns c show ?case
    by (intro exI [of _ "ms @ ns"]) (auto simp: moved_def lrun_append command_moves_def)
qed

end
