(* ===== verification/Pipeline.thy ===== *)
theory Pipeline imports StateManager begin

text \<open>
  The correctness of the pipeline: what holds of \<open>state.json\<close> after any session of commands, what
  a gate can stop, when commands succeed, and what they log. The work is done by the simulation
  of theory \<open>StateManager\<close> and the invariants of theory \<open>Lifecycle\<close>.
\<close>

section \<open>A concrete project\<close>

definition demo_config :: forge_config where
  "demo_config = \<lparr>cf_schema_version = ''0.1'',
     cf_project = \<lparr>pc_name = ''Demo'', pc_root_policy = ''project_only''\<rparr>,
     cf_profile = ''minimal'', cf_default_adapter = ''dummy'', cf_adapters = [],
     cf_security = \<lparr>sc_profile = ''baseline''\<rparr>, cf_hooks = \<lparr>hc_enabled = False\<rparr>,
     cf_features = []\<rparr>"

definition demo_stage :: "string \<Rightarrow> stage_status \<Rightarrow> stage_state" where
  "demo_stage sid st = \<lparr>stg_id = sid, stg_status = st, stg_entered_at = None,
     stg_completed_at = None, stg_blocked_reason = None, stg_artifacts = [], stg_extra = []\<rparr>"

definition demo_state :: pipeline_state where
  "demo_state = \<lparr>ps_schema_version = ''0.1'', ps_project_id = ''p1'', ps_profile = ''minimal'',
     ps_current = Some ''srs'', ps_stages = [demo_stage ''srs'' Active, demo_stage ''build'' NotStarted],
     ps_gates = [], ps_last_event_id = None, ps_created_at = ''t'', ps_updated_at = ''t'',
     ps_metadata = [], ps_extra = []\<rparr>"

definition demo_project :: world where
  "demo_project = empty_world\<lparr>w_config := Doc demo_config, w_state := Doc demo_state,
     w_gates := EmptyDoc\<rparr>"

lemma demo_project_state [simp]: "w_state demo_project = Doc demo_state"
  by (simp add: demo_project_def)

lemma demo_state_lc: "lc_of demo_state =
    \<lparr>lc_stages = [(''srs'', Active), (''build'', NotStarted)], lc_current = Some ''srs''\<rparr>"
  by (simp add: lc_of_def demo_state_def demo_stage_def)

lemma demo_state_inv: "lc_inv (lc_of demo_state)" "in_order (lc_of demo_state)"
proof -
  have "lc_init (lc_of demo_state)"
    unfolding lc_init_def demo_state_lc by (intro exI [of _ "''srs''"] exI [of _ "[''build'']"]) simp
  then show "lc_inv (lc_of demo_state)" "in_order (lc_of demo_state)"
    by (rule lc_init_inv, intro lc_init_in_order)
qed

section \<open>Sessions\<close>

text \<open>C2: The state manager implements the abstract pipeline. Take any session of commands (start,
  complete, advance, override), with any outcomes: gates that block, hooks that raise, refused
  writes, an unreadable configuration. What \<open>state.json\<close> holds afterwards is reached from what it
  held before by at most two abstract moves per command, so a failed command never leaves a state
  that is not reachable.\<close>

theorem manager_refines_lifecycle:
  assumes "w_state w = Doc st"
  shows "\<exists>ms st'. w_state (run_commands E hooks cs w) = Doc st' \<and>
    lrun ms (lc_of st) (lc_of st') \<and> length ms \<le> 2 * length cs"
  using run_commands_moves [OF assms, of E hooks cs] by (auto simp: moved_def)

lemma manager_refines_lifecycle_witness:
  "\<exists>ms st'. w_state (run_commands demo_env [] [CmdAdvance, CmdOverride ''srs'' ''redo''] demo_project) = Doc st' \<and>
    lrun ms (lc_of demo_state) (lc_of st') \<and> length ms \<le> 4"
  using manager_refines_lifecycle [OF demo_project_state, of demo_env "[]"
      "[CmdAdvance, CmdOverride ''srs'' ''redo'']"] by simp

text \<open>C3: After any session the pipeline is sane: the stages are the ones the project was created with,
  in their order, at most one is active, an active stage is the current stage, and the current
  stage, if any, is active or blocked.\<close>

theorem sessions_keep_one_active_stage:
  assumes "w_state w = Doc st" and "lc_inv (lc_of st)"
  shows "\<exists>st'. w_state (run_commands E hooks cs w) = Doc st' \<and>
    map stg_id (ps_stages st') = map stg_id (ps_stages st) \<and>
    length (filter (\<lambda>s. stg_status s = Active) (ps_stages st')) \<le> 1 \<and>
    (\<forall>s\<in>set (ps_stages st'). stg_status s = Active \<longrightarrow> ps_current st' = Some (stg_id s)) \<and>
    (\<forall>c. ps_current st' = Some c \<longrightarrow>
       (\<exists>s\<in>set (ps_stages st'). stg_id s = c \<and> stg_status s \<in> {Active, Blocked}))"
proof -
  obtain ms st' where st': "w_state (run_commands E hooks cs w) = Doc st'"
    "lrun ms (lc_of st) (lc_of st')"
    using run_commands_moves [OF assms(1), of E hooks cs] by (auto simp: moved_def)
  have inv: "lc_inv (lc_of st')" using lrun_inv [OF st'(2) assms(2)] .
  from lrun_ids [OF st'(2)] have "map stg_id (ps_stages st') = map stg_id (ps_stages st)"
    by (simp add: lc_of_def comp_def)
  moreover have "length (filter (\<lambda>s. stg_status s = Active) (ps_stages st')) \<le> 1"
    using lc_inv_one_active [OF inv] by (simp add: active_ids_def lc_of_def filter_map comp_def)
  moreover have "\<forall>s\<in>set (ps_stages st'). stg_status s = Active \<longrightarrow> ps_current st' = Some (stg_id s)"
    using inv by (simp add: lc_inv_def lc_of_def)
  moreover have "\<exists>s\<in>set (ps_stages st'). stg_id s = c \<and> stg_status s \<in> {Active, Blocked}"
    if "ps_current st' = Some c" for c
  proof -
    let ?p = "\<lambda>s. (stg_id s, stg_status s)"
    from inv that have "(c, Active) \<in> ?p ` set (ps_stages st') \<or> (c, Blocked) \<in> ?p ` set (ps_stages st')"
      by (simp add: lc_inv_def lc_of_def)
    then show ?thesis by (elim disjE imageE) (metis insertCI prod.inject)+
  qed
  ultimately show ?thesis using st'(1) by blast
qed

lemma sessions_keep_one_active_stage_witness:
  "\<exists>st'. w_state (run_commands demo_env [] [CmdAdvance] demo_project) = Doc st' \<and>
    map stg_id (ps_stages st') = [''srs'', ''build'']"
  using sessions_keep_one_active_stage [OF demo_project_state demo_state_inv(1), of demo_env "[]" "[CmdAdvance]"]
  by (auto simp: demo_state_def demo_stage_def)

text \<open>C4: Without an override the stages are worked on strictly in order, whatever fails: if a stage
  has been touched (it is not \<open>not_started\<close>), every stage before it is complete.\<close>

theorem sessions_work_in_order:
  assumes "w_state w = Doc st" and "in_order (lc_of st)"
    and "\<forall>c\<in>set cs. \<forall>s r. c \<noteq> CmdOverride s r"
  shows "\<exists>st'. w_state (run_commands E hooks cs w) = Doc st' \<and>
    (\<forall>i j. i < j \<and> j < length (ps_stages st') \<and> stg_status (ps_stages st' ! j) \<noteq> NotStarted \<longrightarrow>
       stg_status (ps_stages st' ! i) = Complete)"
proof -
  obtain ms st' where st': "w_state (run_commands E hooks cs w) = Doc st'"
    "lrun ms (lc_of st) (lc_of st')" "\<forall>s. Override s \<notin> set ms"
    using run_commands_moves [OF assms(1), of E hooks cs] assms(3) by (auto simp: moved_def)
  from lrun_in_order [OF st'(2,3) assms(2)] obtain front todo where
    o: "map (\<lambda>s. (stg_id s, stg_status s)) (ps_stages st') = front @ todo" "\<forall>x\<in>set front. snd x = Complete"
      "\<forall>x\<in>set (tl todo). snd x = NotStarted"
    by (auto simp: in_order_def lc_of_def)
  have "stg_status (ps_stages st' ! i) = Complete"
    if "i < j" "j < length (ps_stages st')" "stg_status (ps_stages st' ! j) \<noteq> NotStarted" for i j
  proof -
    have nth: "snd ((front @ todo) ! k) = stg_status (ps_stages st' ! k)" if "k < length (ps_stages st')" for k
      using that unfolding o(1) [symmetric] by simp
    have len: "length (ps_stages st') = length front + length todo"
      using arg_cong [OF o(1), of length] by simp
    show ?thesis
    proof (cases "i < length front")
      case True
      with that o(2) nth [of i] show ?thesis by (simp add: nth_append)
    next
      case False
      define k where "k = j - Suc (length front)"
      have k: "j = length front + Suc k" "Suc k < length todo" using that False len by (auto simp: k_def)
      then have "todo ! Suc k = tl todo ! k" "k < length (tl todo)" by (cases todo; simp)+
      with o(3) have "snd (todo ! Suc k) = NotStarted" by simp
      with that nth [of j] k show ?thesis by (simp add: nth_append)
    qed
  qed
  with st'(1) show ?thesis by blast
qed

lemma sessions_work_in_order_witness:
  "\<exists>st'. w_state (run_commands demo_env [] [CmdStart ''build'', CmdAdvance] demo_project) = Doc st' \<and>
    (\<forall>i j. i < j \<and> j < length (ps_stages st') \<and> stg_status (ps_stages st' ! j) \<noteq> NotStarted \<longrightarrow>
       stg_status (ps_stages st' ! i) = Complete)"
proof -
  have "\<forall>c\<in>set [CmdStart ''build'', CmdAdvance]. \<forall>s r. c \<noteq> CmdOverride s r" by simp
  from sessions_work_in_order [OF demo_project_state demo_state_inv(2) this] show ?thesis .
qed

section \<open>When operations succeed\<close>

text \<open>
  Nothing outside the pipeline stands in the way: every write is accepted, the configuration loads
  and no blocking hook fails.
\<close>

definition healthy :: "env \<Rightarrow> registered_hook list \<Rightarrow> world \<Rightarrow> bool" where
  "healthy E hooks w \<longleftrightarrow> writes_succeed E \<and> (\<exists>c. load_config E w = (Inr c, w)) \<and>
     (\<forall>ev. \<not> stopped hooks ev)"

lemma healthy_config: "healthy E hooks w \<Longrightarrow> w_config w' = w_config w \<Longrightarrow> healthy E hooks w'"
  by (auto simp: healthy_def load_config_def)

lemma atomic_write_ok:
  "writes_succeed E \<Longrightarrow> atomic_write E p put w =
     (Inr (), put (w\<lparr>w_uuids := Suc (w_uuids w), w_writes := Suc (Suc (w_writes w))\<rparr>))"
  by (simp add: atomic_write_def prog_simps writes_succeed_def)

definition save_blind :: "(world \<Rightarrow> 'c) \<Rightarrow> bool" where
  "save_blind f \<longleftrightarrow> (\<forall>w n. f (w\<lparr>w_clock := n\<rparr>) = f w \<and> f (w\<lparr>w_uuids := n\<rparr>) = f w \<and>
     f (w\<lparr>w_writes := n\<rparr>) = f w) \<and> (\<forall>w x. f (w\<lparr>w_state := x\<rparr>) = f w) \<and>
     (\<forall>w x. f (w\<lparr>w_state_md := x\<rparr>) = f w) \<and> (\<forall>w x. f (w\<lparr>w_db := x\<rparr>) = f w)"

lemma save_blind_fields [simp]:
  "save_blind w_config" "save_blind w_gates" "save_blind w_lessons" "save_blind w_fs"
  "save_blind w_events" "save_blind log_entries" "save_blind w_reflections"
  by (simp_all add: save_blind_def log_entries_def)

lemma state_save_unchanged:
  assumes "save_blind f"
  shows "unchanged f (state_save E st)"
  unfolding state_save_def Let_def put_state_def put_markdown_def
  using assms by (intro frame_intros) (auto simp: save_blind_def)

lemma log_transition_unchanged:
  assumes "save_blind f" and "bus_blind f"
  shows "unchanged f (log_transition E hooks ty st sid reason)"
  unfolding log_transition_def Let_def using assms
  by (intro frame_intros assms(2))
    (auto simp: split_beta save_blind_def put_state_def intro!: frame_intros)

lemma state_save_ok:
  assumes "healthy E hooks w"
  obtains st' w' c where "state_save E st w = (Inr st', w')" "stamped st st'" "w_state w' = Doc st'"
    "load_config E w = (Inr c, w)" "w_state_md w' = Some (render_state_markdown c st')"
    "log_entries w' = log_entries w" "healthy E hooks w'"
proof -
  from assms obtain c where c: "load_config E w = (Inr c, w)" and ws: "writes_succeed E"
    by (auto simp: healthy_def)
  have load: "load_config E v = (Inr c, v)" if "w_config v = w_config w" for v
    using c that by (simp add: load_config_def)
  define st' where "st' = st\<lparr>ps_updated_at := now_at E (w_clock w)\<rparr>"
  obtain g where g: "\<And>v. dual_write E st' v = (Inr (), g v)"
    using dual_write_ok by metis
  have md: "w_state_md (g v) = w_state_md v" for v
    by (rule unchanged_result [OF dual_write_unchanged g]) simp_all
  have "\<exists>w2. state_save E st w = (Inr st', w2) \<and> w_state_md w2 = Some (render_state_markdown c st')"
    by (simp add: state_save_def prog_simps Let_def atomic_write_ok [OF ws] load put_state_def
        put_markdown_def g md flip: st'_def)
  then obtain w2 where run: "state_save E st w = (Inr st', w2)"
    and md: "w_state_md w2 = Some (render_state_markdown c st')" by blast
  have "log_entries w2 = log_entries w" "w_config w2 = w_config w"
    using unchanged_result [OF state_save_unchanged run, of log_entries]
      unchanged_result [OF state_save_unchanged run, of w_config] by simp_all
  with state_save_result [OF run] md c run assms show thesis
    using that healthy_config by auto
qed

lemma emit_transition_ok:
  assumes "healthy E hooks w" and "ty \<in> set event_types"
  obtains ev rs w' where "emit_transition E hooks ty st sid reason w = (Inr (ev, rs), w')"
    "log_entries w' = log_entries w @ [ev]" "ev_type ev = ty" "ev_stage_id ev = Some sid"
    "ev_payload ev = [(''project_id'', JStr (ps_project_id st)), (''reason'', opt_str reason)]"
    "healthy E hooks w'"
proof -
  let ?p = "[(''project_id'', JStr (ps_project_id st)), (''reason'', opt_str reason)]"
  obtain ev where ev: "new_event E ty (Some sid) None None ''core'' ''state-manager'' ?p w =
      (Inr ev, w\<lparr>w_uuids := Suc (w_uuids w), w_clock := Suc (w_clock w)\<rparr>)"
    "ev_type ev = ty" "ev_stage_id ev = Some sid" "ev_payload ev = ?p"
    using new_event_ok [OF assms(2)] by blast
  let ?w = "w\<lparr>w_uuids := Suc (w_uuids w), w_clock := Suc (w_clock w)\<rparr>"
  obtain w1 where a: "append_event E ev ?w = (Inr (), w1)"
    using assms(1) by (simp add: append_event_def write_file_ok healthy_def)
  with emit_ends [OF a, of hooks] assms(1) obtain rs w2 where e: "emit E hooks ev ?w = (Inr rs, w2)"
    by (auto simp: healthy_def)
  have run: "emit_transition E hooks ty st sid reason w = (Inr (ev, rs), w2)"
    using ev(1) e by (simp add: emit_transition_def bindp_run ret_run)
  have "log_entries w2 = log_entries w @ [ev]"
    using emit_logs [OF e] by (simp add: log_entries_blind)
  moreover have "w_config w2 = w_config w"
    using unchanged_result [OF emit_transition_unchanged run, of w_config] by simp
  ultimately show thesis using that run ev assms(1) healthy_config by blast
qed

lemma log_transition_ok:
  assumes "healthy E hooks w" and "ty \<in> set event_types"
  obtains ev w' where
    "log_transition E hooks ty st sid reason w = (Inr (st\<lparr>ps_last_event_id := Some (ev_id ev)\<rparr>), w')"
    "w_state w' = Doc (st\<lparr>ps_last_event_id := Some (ev_id ev)\<rparr>)"
    "log_entries w' = log_entries w @ [ev]" "ev_type ev = ty" "ev_stage_id ev = Some sid"
    "ev_payload ev = [(''project_id'', JStr (ps_project_id st)), (''reason'', opt_str reason)]"
    "healthy E hooks w'"
proof -
  obtain ev rs w1 where e: "emit_transition E hooks ty st sid reason w = (Inr (ev, rs), w1)"
    "log_entries w1 = log_entries w @ [ev]" "ev_type ev = ty" "ev_stage_id ev = Some sid"
    "ev_payload ev = [(''project_id'', JStr (ps_project_id st)), (''reason'', opt_str reason)]"
    "healthy E hooks w1"
    using emit_transition_ok [OF assms] by metis
  let ?st = "st\<lparr>ps_last_event_id := Some (ev_id ev)\<rparr>"
  have a: "atomic_write E (state_path E) (put_state ?st) w1 = (Inr (), put_state ?st
      (w1\<lparr>w_uuids := Suc (w_uuids w1), w_writes := Suc (Suc (w_writes w1))\<rparr>))" (is "_ = (_, ?w)")
    using assms(1) by (intro atomic_write_ok) (simp add: healthy_def)
  have run: "log_transition E hooks ty st sid reason w = (Inr ?st, ?w)"
    using e(1) a by (simp add: log_transition_def bindp_run thenp_run ret_run Let_def)
  have "healthy E hooks ?w" using e(6) by (rule healthy_config) (simp add: put_state_def)
  then show thesis
    using that run e by (simp add: put_state_def log_entries_def)
qed

text \<open>A save and its event, together.\<close>

lemma save_log_ok:
  assumes "healthy E hooks w" and "ty \<in> set event_types"
  obtains ev st' w' where
    "bindp (state_save E st) (\<lambda>st1. log_transition E hooks ty st1 sid reason) w = (Inr st', w')"
    "stamped st st'" "w_state w' = Doc st'" "ps_last_event_id st' = Some (ev_id ev)"
    "log_entries w' = log_entries w @ [ev]" "ev_type ev = ty" "ev_stage_id ev = Some sid"
    "ev_payload ev = [(''project_id'', JStr (ps_project_id st)), (''reason'', opt_str reason)]"
    "healthy E hooks w'"
proof -
  obtain st1 w1 where s: "state_save E st w = (Inr st1, w1)" "stamped st st1"
    "log_entries w1 = log_entries w" "healthy E hooks w1"
    using state_save_ok [OF assms(1)] by metis
  obtain ev w2 where l:
    "log_transition E hooks ty st1 sid reason w1 = (Inr (st1\<lparr>ps_last_event_id := Some (ev_id ev)\<rparr>), w2)"
    "w_state w2 = Doc (st1\<lparr>ps_last_event_id := Some (ev_id ev)\<rparr>)"
    "log_entries w2 = log_entries w1 @ [ev]" "ev_type ev = ty" "ev_stage_id ev = Some sid"
    "ev_payload ev = [(''project_id'', JStr (ps_project_id st1)), (''reason'', opt_str reason)]"
    "healthy E hooks w2"
    using log_transition_ok [OF s(4) assms(2)] by metis
  have "stamped st (st1\<lparr>ps_last_event_id := Some (ev_id ev)\<rparr>)"
    using s(2) by (rule stamped_trans) simp
  with s l show thesis
    by (intro that [of "st1\<lparr>ps_last_event_id := Some (ev_id ev)\<rparr>" w2 ev])
      (simp_all add: bindp_run stamped_fields)
qed

abbreviation lc_pair :: "stage_state \<Rightarrow> string \<times> stage_status" where
  "lc_pair s \<equiv> (stg_id s, stg_status s)"

lemma index_from_split:
  "\<forall>x\<in>set xs. stg_id x \<noteq> stg_id s \<Longrightarrow> index_from n (xs @ s # ys) (stg_id s) = Inr (n + length xs)"
  by (induction xs arbitrary: n) auto

lemma find_split_stage:
  "\<forall>x\<in>set xs. stg_id x \<noteq> stg_id s \<Longrightarrow> List.find (\<lambda>x. stg_id x = stg_id s) (xs @ s # ys) = Some s"
  by (induction xs) auto

definition startable :: "pipeline_state \<Rightarrow> nat \<Rightarrow> bool" where
  "startable st i \<longleftrightarrow> stg_status (ps_stages st ! i) \<noteq> Complete \<and>
     (\<forall>s\<in>set (ps_stages st). stg_status s \<noteq> Active) \<and>
     (i = 0 \<or> stg_status (ps_stages st ! (i - 1)) = Complete)"

lemma start_guard_iff:
  "i < length (ps_stages st) \<Longrightarrow>
   (if startable st i then start_guard st i sid = Inr (ps_stages st ! i)
    else \<exists>m. start_guard st i sid = Inl (StateTransitionError m))"
  by (auto simp: start_guard_def startable_def Let_def list_ex_iff)

lemma start_stage_ok:
  assumes h: "healthy E hooks w" and st: "w_state w = Doc st"
    and i: "stage_index st sid = Inr i" and g: "start_guard st i sid = Inr stage"
  obtains st' w' ev t where "start_stage E hooks sid w = (Inr st', w')" "w_state w' = Doc st'"
    "stamped (activate i stage t st) st'" "ps_last_event_id st' = Some (ev_id ev)"
    "log_entries w' = log_entries w @ [ev]" "ev_type ev = ''StageStarted''" "ev_stage_id ev = Some sid"
    "healthy E hooks w'"
proof -
  have "\<exists>t w1. or_else (stg_entered_at stage) (utc_now E) w = (Inr t, w1) \<and>
      (w1 = w \<or> w1 = w\<lparr>w_clock := Suc (w_clock w)\<rparr>)"
    by (simp add: or_else_def prog_simps split: option.split list.split)
  then obtain t w1 where t: "or_else (stg_entered_at stage) (utc_now E) w = (Inr t, w1)"
    and w1: "w_config w1 = w_config w" "log_entries w1 = log_entries w"
    by (auto simp: log_entries_blind)
  have h1: "healthy E hooks w1" using h w1(1) by (rule healthy_config)
  have ty: "''StageStarted'' \<in> set event_types" by (simp add: event_types_def)
  obtain ev st' w' where sl:
    "bindp (state_save E (activate i stage t st)) (\<lambda>st1. log_transition E hooks ''StageStarted'' st1
       (stg_id stage) None) w1 = (Inr st', w')"
    "stamped (activate i stage t st) st'" "w_state w' = Doc st'" "ps_last_event_id st' = Some (ev_id ev)"
    "log_entries w' = log_entries w1 @ [ev]" "ev_type ev = ''StageStarted''"
    "ev_stage_id ev = Some (stg_id stage)" "healthy E hooks w'"
    using save_log_ok [OF h1 ty] by metis
  have "stg_id stage = sid" using activate_step [OF i g] by simp
  moreover have "start_stage E hooks sid w = (Inr st', w')"
    using sl(1) i g t by (simp add: start_stage_def bindp_run load_state_Doc [OF st] lift_result_run)
  ultimately show thesis using that sl w1(2) by simp
qed

text \<open>Starting a stage, exactly. In a healthy project \<open>start_stage\<close> succeeds if and only if the
  stage is not complete, no stage (itself included) is active and the stage before it is complete.
  Then that stage is active and current, no other stage changes, the file holds the returned
  state, and the log has grown by one \<open>StageStarted\<close> event of the stage, which the state points to.
  Otherwise it raises \<open>StateTransitionError\<close> and changes nothing at all.\<close>

lemma start_stage_exact:
  assumes "healthy E hooks w" and "w_state w = Doc st"
    and "ps_stages st = xs @ s # ys" and "stg_id s = sid" and "\<forall>x\<in>set xs. stg_id x \<noteq> sid"
  shows "if startable st (length xs)
    then \<exists>st' w' ev s'. start_stage E hooks sid w = (Inr st', w') \<and> w_state w' = Doc st' \<and>
      ps_stages st' = xs @ s' # ys \<and> stg_id s' = sid \<and> stg_status s' = Active \<and>
      ps_current st' = Some sid \<and> log_entries w' = log_entries w @ [ev] \<and>
      ev_type ev = ''StageStarted'' \<and> ev_stage_id ev = Some sid \<and> ps_last_event_id st' = Some (ev_id ev)
    else \<exists>m. start_stage E hooks sid w = (Inl (StateTransitionError m), w)"
proof -
  have i: "stage_index st sid = Inr (length xs)"
    using assms(3-5) index_from_split [of xs s 0 ys] by (simp add: stage_index_def)
  have len: "length xs < length (ps_stages st)" using assms(3) by simp
  show ?thesis
  proof (cases "startable st (length xs)")
    case True
    with start_guard_iff [OF len, of sid] assms(3) have g: "start_guard st (length xs) sid = Inr s" by simp
    obtain st' w' ev t where r: "start_stage E hooks sid w = (Inr st', w')" "w_state w' = Doc st'"
      "stamped (activate (length xs) s t st) st'" "ps_last_event_id st' = Some (ev_id ev)"
      "log_entries w' = log_entries w @ [ev]" "ev_type ev = ''StageStarted''" "ev_stage_id ev = Some sid"
      using start_stage_ok [OF assms(1,2) i g] by metis
    have "ps_stages st' = xs @ (s\<lparr>stg_status := Active, stg_entered_at := Some t,
        stg_blocked_reason := None\<rparr>) # ys" "ps_current st' = Some sid"
      using stamped_fields [OF r(3)] assms(3,4) by (simp_all add: activate_def)
    with r assms(4) True show ?thesis by auto
  next
    case False
    with start_guard_iff [OF len, of sid] i show ?thesis
      by (auto simp: start_stage_def bindp_run load_state_Doc [OF assms(2)] lift_result_run)
  qed
qed

lemma demo_healthy: "w_config w = Doc demo_config \<Longrightarrow> healthy demo_env [] w"
proof -
  have "check_config_fields demo_config = Inr demo_config" by code_simp
  then show "w_config w = Doc demo_config \<Longrightarrow> healthy demo_env [] w"
    by (simp add: healthy_def load_config_def)
qed

definition demo_state2 :: pipeline_state where
  "demo_state2 = demo_state\<lparr>ps_current := None,
     ps_stages := [demo_stage ''srs'' Complete, demo_stage ''build'' NotStarted]\<rparr>"

definition demo_project2 :: world where
  "demo_project2 = demo_project\<lparr>w_state := Doc demo_state2\<rparr>"

lemma start_stage_exact_witness:
  "\<exists>st' w' s'. start_stage demo_env [] ''build'' demo_project2 = (Inr st', w') \<and>
     ps_stages st' = [demo_stage ''srs'' Complete, s'] \<and> stg_status s' = Active \<and>
     ps_current st' = Some ''build''"
proof -
  have h: "healthy demo_env [] demo_project2"
    by (rule demo_healthy) (simp add: demo_project2_def demo_project_def)
  have st: "w_state demo_project2 = Doc demo_state2" by (simp add: demo_project2_def)
  have ss: "ps_stages demo_state2 = [demo_stage ''srs'' Complete] @ demo_stage ''build'' NotStarted # []"
    by (simp add: demo_state2_def)
  have "startable demo_state2 1" by (simp add: startable_def demo_state2_def demo_stage_def)
  moreover have "stg_id (demo_stage ''build'' NotStarted) = ''build''" "\<forall>x\<in>set [demo_stage ''srs'' Complete]. stg_id x \<noteq> ''build''"
    by (simp_all add: demo_stage_def)
  ultimately show ?thesis
    using start_stage_exact [OF h st ss, of "''build''"] by auto
qed

section \<open>Gates\<close>

text \<open>C1: No stage is completed past a blocking gate. Whatever happens during \<open>complete_stage\<close> (hooks,
  refused writes, an unreadable configuration), if a stage is \<open>complete\<close> in the state file
  afterwards that was not \<open>complete\<close> before, then it is the requested stage, its gates were
  evaluated in this call, none of the results blocks, and the state records exactly those results.\<close>

theorem completion_needs_passing_gates:
  assumes "w_state w = Doc st" and "complete_stage E hooks sid w = (r, w')"
  shows "\<exists>st'. w_state w' = Doc st' \<and>
    (\<forall>s. s \<in> set (ps_stages st') \<and> stg_status s = Complete \<and> s \<notin> set (ps_stages st) \<longrightarrow>
      stg_id s = sid \<and> (\<exists>results w1. evaluate_stage E (Some hooks) sid w = (Inr results, w1) \<and>
        (\<forall>q\<in>set results. \<not> gr_blocking q) \<and>
        dict_get (ps_gates st') sid = Some (JObj [(''blocked'', JBool False),
          (''results'', JArr (map dump_gate_result results))])))"
  using assms
proof (cases rule: complete_stage_cases)
  case (refused e)
  then show ?thesis by auto
next
  case (blocked stage results w1 st' e)
  have "s \<in> set (ps_stages st)" if "s \<in> set (ps_stages st')" "stg_status s = Complete" for s
  proof -
    from that(1) blocked(6) have "s \<in> set (update_first (\<lambda>x. stg_id x = sid)
        (block_stage (gate_block_reason results)) (ps_stages st))"
      by (simp add: stamped_fields blocked_def set_stage_def record_gates_def)
    with that(2) show ?thesis by (auto dest!: set_update_first simp: block_stage_def)
  qed
  with blocked(7) show ?thesis by blast
next
  case (completed stage results w1 t st')
  from completed(4) have nb: "has_blocking_failures results = False" "\<forall>q\<in>set results. \<not> gr_blocking q"
    by (simp_all add: has_blocking_failures_def list_ex_iff)
  have "stg_id s = sid" if "s \<in> set (ps_stages st')" "s \<notin> set (ps_stages st)" for s
  proof -
    from that(1) completed(5) have "s \<in> set (update_first (\<lambda>x. stg_id x = sid) (finish_stage t) (ps_stages st))"
      by (simp add: stamped_fields finished_def set_stage_def record_gates_def)
    with that(2) show ?thesis by (auto dest!: set_update_first simp: finish_stage_def)
  qed
  moreover have "dict_get (ps_gates st') sid = Some (JObj [(''blocked'', JBool False),
      (''results'', JArr (map dump_gate_result results))])"
    using stamped_fields(4) [OF completed(5)] nb(1)
    by (simp add: finished_def set_stage_def record_gates_def)
  ultimately show ?thesis using completed(3,6) nb(2) by blast
qed

lemma completion_needs_passing_gates_witness:
  "\<exists>st'. w_state (snd (complete_stage demo_env [] ''build'' demo_project)) = Doc st' \<and>
    (\<forall>s. s \<in> set (ps_stages st') \<and> stg_status s = Complete \<longrightarrow> stg_id s = ''build'')"
proof -
  obtain r w' where run: "complete_stage demo_env [] ''build'' demo_project = (r, w')"
    by (cases "complete_stage demo_env [] ''build'' demo_project")
  have "\<forall>s\<in>set (ps_stages demo_state). stg_status s \<noteq> Complete"
    by (simp add: demo_state_def demo_stage_def)
  with completion_needs_passing_gates [OF demo_project_state run] run show ?thesis by auto
qed

text \<open>C6: A blocking gate stops the stage and says why. In a healthy project, completing the active
  stage when a gate result blocks raises \<open>StateTransitionError\<close> with the summaries of the blocking
  results; the stage is then \<open>blocked\<close> with that reason, the other stages and the current stage are
  as before, the results are recorded, and a \<open>StageBlocked\<close> event is the last one in the log.\<close>

theorem blocking_gate_blocks_stage:
  assumes "healthy E hooks w" and "w_state w = Doc st"
    and "ps_stages st = xs @ s # ys" and "stg_id s = sid" and "\<forall>x\<in>set xs. stg_id x \<noteq> sid"
    and "stg_status s = Active"
    and "evaluate_stage E (Some hooks) sid w = (Inr results, w1)" and "list_ex gr_blocking results"
  shows "\<exists>w' st' s' ev. complete_stage E hooks sid w =
      (Inl (StateTransitionError (join ''; '' (map gr_summary (filter gr_blocking results)))), w') \<and>
    w_state w' = Doc st' \<and> ps_stages st' = xs @ s' # ys \<and> stg_id s' = sid \<and> stg_status s' = Blocked \<and>
    stg_blocked_reason s' = Some (join ''; '' (map gr_summary (filter gr_blocking results))) \<and>
    ps_current st' = ps_current st \<and>
    dict_get (ps_gates st') sid = Some (JObj [(''blocked'', JBool True),
      (''results'', JArr (map dump_gate_result results))]) \<and>
    log_entries w' = log_entries w1 @ [ev] \<and> ev_type ev = ''StageBlocked'' \<and> ev_stage_id ev = Some sid"
proof -
  have f: "find_stage st sid = Inr s"
    using assms(3-5) find_split_stage [of xs s ys] by (simp add: find_stage_def)
  let ?reason = "join ''; '' (map gr_summary (filter gr_blocking results))"
  have reason: "gate_block_reason results = ?reason"
    using assms(8) by (auto simp: gate_block_reason_def Let_def list_ex_iff filter_empty_conv)
  have "w_config w1 = w_config w"
    using unchanged_result [OF evaluate_stage_unchanged assms(7), of w_config] by simp
  with assms(1) have h1: "healthy E hooks w1" by (rule healthy_config)
  have ty: "''StageBlocked'' \<in> set event_types" by (simp add: event_types_def)
  obtain ev st' w' where sl:
    "bindp (state_save E (blocked sid results st)) (\<lambda>st1. log_transition E hooks ''StageBlocked'' st1
       sid None) w1 = (Inr st', w')"
    "stamped (blocked sid results st) st'" "w_state w' = Doc st'"
    "log_entries w' = log_entries w1 @ [ev]" "ev_type ev = ''StageBlocked''" "ev_stage_id ev = Some sid"
    using save_log_ok [OF h1 ty, of "blocked sid results st" sid None] by blast
  have "complete_stage E hooks sid w = (Inl (StateTransitionError ?reason), w')"
    using sl(1) f assms(6-8) reason
    by (auto simp: complete_stage_def bindp_run load_state_Doc [OF assms(2)] lift_result_run Let_def
        blocked_def throw_run split: prod.splits sum.splits)
  moreover have "ps_stages st' = xs @ block_stage ?reason s # ys" "ps_current st' = ps_current st"
    using stamped_fields [OF sl(2)] assms(3-5) reason
    by (simp_all add: blocked_def set_stage_def record_gates_def update_first_split)
  moreover have "dict_get (ps_gates st') sid = Some (JObj [(''blocked'', JBool True),
      (''results'', JArr (map dump_gate_result results))])"
    using stamped_fields(4) [OF sl(2)] assms(8)
    by (simp add: blocked_def set_stage_def record_gates_def has_blocking_failures_def)
  ultimately show ?thesis using sl assms(4)
    by (intro exI [of _ w'] exI [of _ st'] exI [of _ "block_stage ?reason s"] exI [of _ ev])
      (simp add: block_stage_def)
qed

text \<open>In a healthy project with a readable gate file, the evaluation returns.\<close>

lemma gate_emit_ok:
  assumes "healthy E hooks w" and "ty \<in> set event_types"
  shows "\<exists>w'. gate_emit E (Some hooks) ty sid p w = (Inr (), w') \<and> healthy E hooks w'"
proof -
  obtain ev where ev: "new_event E ty (Some sid) None None ''core'' ''gate-coordinator'' p w =
      (Inr ev, w\<lparr>w_uuids := Suc (w_uuids w), w_clock := Suc (w_clock w)\<rparr>)"
    using new_event_ok [OF assms(2)] by blast
  let ?w = "w\<lparr>w_uuids := Suc (w_uuids w), w_clock := Suc (w_clock w)\<rparr>"
  obtain w1 where a: "append_event E ev ?w = (Inr (), w1)"
    using assms(1) by (simp add: append_event_def write_file_ok healthy_def)
  with emit_ends [OF a, of hooks] assms(1) obtain rs w2 where e: "emit E hooks ev ?w = (Inr rs, w2)"
    by (auto simp: healthy_def)
  have "gate_emit E (Some hooks) ty sid p w = (Inr (), w2)"
    using ev e by (simp add: gate_emit_def bindp_run ret_run)
  moreover from this have "w_config w2 = w_config w"
    using unchanged_result [OF gate_emit_unchanged, of w_config E "Some hooks" ty sid p w] by simp
  ultimately show ?thesis using assms(1) healthy_config by blast
qed

lemma evaluate_stage_returns:
  assumes "healthy E hooks w" and "gates_for_stage E sid w = (Inr gs, w)"
  shows "\<exists>w1 results w2 w3. w_fs w1 = w_fs w \<and> mapp (evaluate_gate E) gs w1 = (Inr results, w2) \<and>
    evaluate_stage E (Some hooks) sid w = (Inr results, w3)"
proof -
  have ty: "''GateStarted'' \<in> set event_types" "''GateCompleted'' \<in> set event_types"
    by (simp_all add: event_types_def)
  obtain w1 where e1: "gate_emit E (Some hooks) ''GateStarted'' sid [(''stage_id'', JStr sid)] w = (Inr (), w1)"
    "healthy E hooks w1" using gate_emit_ok [OF assms(1) ty(1)] by blast
  have same: "w_gates w1 = w_gates w" "w_fs w1 = w_fs w"
    using unchanged_result [OF gate_emit_unchanged e1(1), of w_gates]
      unchanged_result [OF gate_emit_unchanged e1(1), of w_fs] by simp_all
  have g1: "gates_for_stage E sid w1 = (Inr gs, w1)"
    using assms(2) same(1)
    by (auto simp: gates_for_stage_def bindp_run ret_run load_gate_file_def split: doc_file.splits sum.splits)
  obtain results w2 where m: "mapp (evaluate_gate E) gs w1 = (Inr results, w2)"
    using mapp_total [of "evaluate_gate E" gs w1] evaluate_gate_total by blast
  have "unchanged w_config (mapp (evaluate_gate E) gs)"
    by (intro unchanged_mapp evaluate_gate_unchanged) simp
  with m have "w_config w2 = w_config w1" by (metis snd_conv unchangedD)
  with e1(2) have "healthy E hooks w2" by (rule healthy_config)
  then obtain w3 where e2: "gate_emit E (Some hooks) ''GateCompleted'' sid
      [(''stage_id'', JStr sid), (''blocking_failed'', JBool (has_blocking_failures results)),
       (''result_count'', JInt (int (length results)))] w2 = (Inr (), w3)"
    using gate_emit_ok [OF _ ty(2)] by blast
  have "evaluate_stage E (Some hooks) sid w = (Inr results, w3)"
    using e1(1) g1 m e2 by (simp add: evaluate_stage_def bindp_run thenp_run ret_run)
  with m same(2) show ?thesis by blast
qed

definition demo_gated :: world where
  "demo_gated = demo_project\<lparr>w_gates := Doc [demo_gate]\<rparr>"

lemma demo_gated_blocks:
  "\<exists>r w1. evaluate_stage demo_env (Some []) ''srs'' demo_gated = (Inr [r], w1) \<and> gr_blocking r"
proof -
  have h: "healthy demo_env [] demo_gated"
    by (rule demo_healthy) (simp add: demo_gated_def demo_project_def)
  have gates: "gates_for_stage demo_env ''srs'' demo_gated = (Inr [demo_gate], demo_gated)"
    by (simp add: gates_for_stage_def bindp_run load_gate_file_def ret_run demo_gated_def)
      (simp add: demo_gate_def)
  obtain w1 results w2 w3 where ev: "w_fs w1 = w_fs demo_gated"
    "mapp (evaluate_gate demo_env) [demo_gate] w1 = (Inr results, w2)"
    "evaluate_stage demo_env (Some []) ''srs'' demo_gated = (Inr results, w3)"
    using evaluate_stage_returns [OF h gates] by blast
  obtain r w4 where r: "evaluate_gate demo_env demo_gate w1 = (Inr r, w4)"
    using evaluate_gate_total by blast
  have "gr_blocking r"
    using r ev(1) by (auto simp: evaluate_gate_def run_check_def check_required_file_def demo_gate_def
        demo_gated_def demo_project_def prog_simps empty_world_def apply_severity_def Let_def
        dict_get_def strip_def py_isspace_def ord_def)
  moreover have "results = [r]" using ev(2) r by (simp add: bindp_run ret_run)
  ultimately show ?thesis using ev(3) by blast
qed

lemma blocking_gate_blocks_stage_witness:
  "\<exists>m w' st'. complete_stage demo_env [] ''srs'' demo_gated = (Inl (StateTransitionError m), w') \<and>
     w_state w' = Doc st' \<and> stg_status (hd (ps_stages st')) = Blocked \<and> ps_current st' = Some ''srs''"
proof -
  have h: "healthy demo_env [] demo_gated"
    by (rule demo_healthy) (simp add: demo_gated_def demo_project_def)
  have st: "w_state demo_gated = Doc demo_state" by (simp add: demo_gated_def)
  have ss: "ps_stages demo_state = [] @ demo_stage ''srs'' Active # [demo_stage ''build'' NotStarted]"
    by (simp add: demo_state_def)
  have a: "stg_id (demo_stage ''srs'' Active) = ''srs''" "stg_status (demo_stage ''srs'' Active) = Active"
    by (simp_all add: demo_stage_def)
  obtain r w1 where ev: "evaluate_stage demo_env (Some []) ''srs'' demo_gated = (Inr [r], w1)" "gr_blocking r"
    using demo_gated_blocks by blast
  then have "list_ex gr_blocking [r]" by simp
  from blocking_gate_blocks_stage [OF h st ss a(1) _ a(2) ev(1) this]
  obtain w' st' s' ev' where "complete_stage demo_env [] ''srs'' demo_gated =
      (Inl (StateTransitionError (join ''; '' (map gr_summary (filter gr_blocking [r])))), w')"
    "w_state w' = Doc st'" "ps_stages st' = [] @ s' # [demo_stage ''build'' NotStarted]"
    "stg_status s' = Blocked" "ps_current st' = ps_current demo_state" by auto
  then show ?thesis by (auto simp: demo_state_def)
qed

section \<open>Completing and advancing\<close>

lemma completion_text_ok:
  "strip (''Review completed `'' @ sid @ ''` stage for reusable lessons before future work.'') \<noteq> []"
proof -
  let ?s = "''Review completed `'' @ sid @ ''` stage for reusable lessons before future work.''"
  have h: "\<not> py_isspace (CHR ''R'')" "\<not> py_isspace (CHR ''.'')"
    by (simp_all add: py_isspace_def ord_def)
  have "hd ?s = CHR ''R''" "last ?s = CHR ''.''" by simp_all
  with h have "strip ?s = ?s" by (intro strip_id) simp
  then show ?thesis by simp
qed

lemma lesson_add_ok:
  assumes "writes_succeed E" and "fst (lesson_load E w) = Inr d"
    and "strip text \<noteq> []" and "0 \<le> c" and "c \<le> 1"
  shows "\<exists>l w' d'. lesson_add E text c tags sid src status md w = (Inr l, w') \<and>
    fst (lesson_load E w') = Inr d'"
proof -
  let ?w = "w\<lparr>w_clock := Suc (w_clock w), w_uuids := Suc (w_uuids w)\<rparr>"
  let ?l0 = "\<lparr>ls_id = ''lesson-'' @ uuid_at E (w_uuids w), ls_text = text,
        ls_status = (case status of None \<Rightarrow> LsPending | Some s \<Rightarrow> s),
        ls_confidence = c, ls_tags = tags, ls_stage_id = sid, ls_source = src,
        ls_created_at = now_at E (w_clock w), ls_updated_at = now_at E (w_clock w),
        ls_approved_at = None, ls_deprecated_at = None,
        ls_last_used_at = None, ls_use_count = 0, ls_dormant = False, ls_dormant_at = None,
        ls_metadata = md\<rparr>"
  obtain l where l: "validate_lesson ?l0 = Inr l"
    using assms(3-5) by (simp add: validate_lesson_def)
  have load: "lesson_load E ?w = (Inr d, ?w)"
    using assms(2) by (simp add: lesson_load_def)
  have wf: "wf_lessons (d\<lparr>ld_lessons := ld_lessons d @ [l]\<rparr>)"
    using lesson_store.load_valid [OF assms(2)] validate_lesson_wf [OF l] by (simp add: wf_lessons_def)
  obtain w' where sv: "lesson_save E (d\<lparr>ld_lessons := ld_lessons d @ [l]\<rparr>) ?w = (Inr (), w')"
    using assms(1) by (simp add: lesson_save_def write_file_ok)
  have run: "lesson_add E text c tags sid src status md w = (Inr l, w')"
    using l load sv
    by (simp add: lesson_add_def edit_def bindp_run thenp_run ret_run lift_result_run env_reads)
  have "fst (lesson_load E w') = Inr (d\<lparr>ld_lessons := ld_lessons d @ [l]\<rparr>)"
    using lesson_store.save_load [OF wf sv] .
  with run show ?thesis by blast
qed

lemma record_stage_completion_ok:
  assumes "writes_succeed E" and "fst (lesson_load E w) = Inr d"
  shows "\<exists>rf w' d'. record_stage_completion E sid w = (Inr rf, w') \<and> fst (lesson_load E w') = Inr d'"
proof -
  obtain l w1 d1 where l: "lesson_add E
        (''Review completed `'' @ sid @ ''` stage for reusable lessons before future work.'')
        (4 / 10) [''reflection'', ''stage-completion''] (Some sid) SrcReflection
        (Some LsPending) [(''queued_by'', JStr ''ReflectionStore.record_stage_completion'')] w = (Inr l, w1)"
    "fst (lesson_load E w1) = Inr d1"
    using lesson_add_ok [OF assms completion_text_ok, of "4 / 10"] by fastforce
  have add: "\<exists>rf w2. reflection_add E ty s st obs ls md w1 = (Inr rf, w2) \<and> w_lessons w2 = w_lessons w1"
    if "s \<noteq> []" for ty s st obs ls md
    using that assms(1)
    by (simp add: reflection_add_def bindp_run thenp_run ret_run env_reads Let_def reflection_save_def
        write_file_ok)
  from l add show ?thesis
    by (fastforce simp: record_stage_completion_def bindp_run lesson_load_def)
qed

lemma complete_stage_ok:
  assumes h: "healthy E hooks w" and st: "w_state w = Doc st"
    and ss: "ps_stages st = xs @ s # ys" "stg_id s = sid" "\<forall>x\<in>set xs. stg_id x \<noteq> sid"
      "stg_status s = Active"
    and ev: "evaluate_stage E (Some hooks) sid w = (Inr results, w1)" "\<not> list_ex gr_blocking results"
    and ls: "fst (lesson_load E w) = Inr d"
  obtains st' w' d' t where "complete_stage E hooks sid w = (Inr st', w')" "w_state w' = Doc st'"
    "ps_stages st' = xs @ finish_stage t s # ys" "ps_current st' = None" "healthy E hooks w'"
    "fst (lesson_load E w') = Inr d'" "w_gates w' = w_gates w"
proof -
  have f: "find_stage st sid = Inr s"
    using ss find_split_stage [of xs s ys] by (simp add: find_stage_def)
  have "w_config w1 = w_config w"
    using unchanged_result [OF evaluate_stage_unchanged ev(1), of w_config] by simp
  with h have h1: "healthy E hooks w1" by (rule healthy_config)
  have l1: "w_lessons w1 = w_lessons w" "w_gates w1 = w_gates w"
    using unchanged_result [OF evaluate_stage_unchanged ev(1), of w_lessons]
      unchanged_result [OF evaluate_stage_unchanged ev(1), of w_gates] by simp_all
  let ?t = "now_at E (w_clock w1)" and ?w1 = "w1\<lparr>w_clock := Suc (w_clock w1)\<rparr>"
  have h2: "healthy E hooks ?w1" using h1 by (rule healthy_config) simp
  have ty: "''StageCompleted'' \<in> set event_types" by (simp add: event_types_def)
  let ?sl = "bindp (state_save E (finished sid ?t results st)) (\<lambda>st1.
      log_transition E hooks ''StageCompleted'' st1 sid None)"
  obtain ev' st' w2 where sl: "?sl ?w1 = (Inr st', w2)"
    "stamped (finished sid ?t results st) st'" "w_state w2 = Doc st'" "healthy E hooks w2"
    using save_log_ok [OF h2 ty, of "finished sid ?t results st" sid None] by blast
  have un: "unchanged f ?sl" if "save_blind f" "bus_blind f" for f :: "world \<Rightarrow> 'c"
    using that by (intro frame_intros state_save_unchanged log_transition_unchanged)
  have l2: "w_lessons w2 = w_lessons w" "w_gates w2 = w_gates w"
    using unchanged_result [OF un sl(1), of w_lessons] unchanged_result [OF un sl(1), of w_gates] l1
    by simp_all
  then have ld2: "fst (lesson_load E w2) = Inr d" using ls by (simp add: lesson_load_def)
  obtain rf w3 d3 where r: "record_stage_completion E sid w2 = (Inr rf, w3)" "fst (lesson_load E w3) = Inr d3"
    using record_stage_completion_ok [OF _ ld2, of sid] h by (auto simp: healthy_def)
  have w3: "w_state w3 = w_state w2" "w_config w3 = w_config w2" "w_gates w3 = w_gates w2"
    using unchanged_result [OF record_stage_completion_unchanged r(1), of w_state]
      unchanged_result [OF record_stage_completion_unchanged r(1), of w_config]
      unchanged_result [OF record_stage_completion_unchanged r(1), of w_gates] by simp_all
  have "complete_stage E hooks sid w = (Inr st', w3)"
    using f ss(4) ev sl(1) r(1)
    by (auto simp: complete_stage_def bindp_run load_state_Doc [OF st] lift_result_run Let_def
        env_reads finished_def ret_run split: prod.splits sum.splits)
  moreover have "ps_stages st' = xs @ finish_stage ?t s # ys" "ps_current st' = None"
    using stamped_fields [OF sl(2)] ss
    by (simp_all add: finished_def set_stage_def record_gates_def update_first_split)
  moreover have "healthy E hooks w3" using sl(4) w3(2) by (rule healthy_config)
  ultimately show thesis using that sl(3) w3 r(2) l2 by simp
qed

lemma start_stage_gates:
  "unchanged w_gates (start_stage E hooks sid)" "unchanged w_lessons (start_stage E hooks sid)"
proof -
  have "unchanged f (start_stage E hooks sid)" if "save_blind f" "bus_blind f" for f :: "world \<Rightarrow> 'c"
    unfolding start_stage_def using that
    by (intro frame_intros state_save_unchanged log_transition_unchanged)
      (auto simp: save_blind_def unchanged_def load_state_def)
  from this [of w_gates] this [of w_lessons]
  show "unchanged w_gates (start_stage E hooks sid)" "unchanged w_lessons (start_stage E hooks sid)"
    by simp_all
qed

text \<open>One \<open>advance\<close> whose gates pass: the active stage completes and the next one starts.\<close>

lemma advance_ok:
  assumes h: "healthy E hooks w" and st: "w_state w = Doc st"
    and ss: "ps_stages st = xs @ s # ys" "ps_current st = Some (stg_id s)" "stg_status s = Active"
      "distinct (map stg_id (ps_stages st))" "\<forall>x\<in>set (xs @ ys). stg_status x \<notin> {Active}"
      "ys \<noteq> [] \<longrightarrow> stg_status (hd ys) \<noteq> Complete"
    and ev: "evaluate_stage E (Some hooks) (stg_id s) w = (Inr results, w1)" "\<not> list_ex gr_blocking results"
    and ls: "fst (lesson_load E w) = Inr d"
  shows "\<exists>st' w' d' s'. advance E hooks w = (Inr st', w') \<and> w_state w' = Doc st' \<and>
    lc_pair s' = (stg_id s, Complete) \<and> healthy E hooks w' \<and> w_gates w' = w_gates w \<and>
    fst (lesson_load E w') = Inr d' \<and>
    (case ys of [] \<Rightarrow> ps_stages st' = xs @ [s'] \<and> ps_current st' = None
     | y # zs \<Rightarrow> (\<exists>y'. ps_stages st' = xs @ s' # y' # zs \<and> lc_pair y' = (stg_id y, Active) \<and>
         ps_current st' = Some (stg_id y)))"
proof -
  have xs: "\<forall>x\<in>set xs. stg_id x \<noteq> stg_id s" using ss(1,4) by simp (metis image_eqI)
  have i: "stage_index st (stg_id s) = Inr (length xs)"
    using xs ss(1) index_from_split [of xs s 0 ys] by (simp add: stage_index_def)
  obtain st1 w2 d1 t where c: "complete_stage E hooks (stg_id s) w = (Inr st1, w2)" "w_state w2 = Doc st1"
    "ps_stages st1 = xs @ finish_stage t s # ys" "ps_current st1 = None" "healthy E hooks w2"
    "fst (lesson_load E w2) = Inr d1" "w_gates w2 = w_gates w"
    using complete_stage_ok [OF h st ss(1) refl xs ss(3) ev ls] by metis
  let ?s = "finish_stage t s"
  have s': "lc_pair ?s = (stg_id s, Complete)" by (simp add: finish_stage_def)
  note begin_run = advance_def bindp_run load_state_Doc [OF st] lift_result_run thenp_run
  show ?thesis
  proof (cases ys)
    case Nil
    have st1: "st1\<lparr>ps_current := None\<rparr> = st1" using c(4) by simp
    obtain st' w' where sv: "state_save E st1 w2 = (Inr st', w')" "stamped st1 st'" "w_state w' = Doc st'"
      "healthy E hooks w'"
      using state_save_ok [OF c(5)] by metis
    have "advance E hooks w = (Inr st', w')"
      using Nil ss i c(1) sv(1) st1
      by (simp add: begin_run load_state_Doc [OF c(2)])
    moreover have "w_gates w' = w_gates w2" "w_lessons w' = w_lessons w2"
      using unchanged_result [OF state_save_unchanged sv(1), of w_gates]
        unchanged_result [OF state_save_unchanged sv(1), of w_lessons] by simp_all
    moreover have "ps_stages st' = xs @ [?s]" "ps_current st' = None"
      using stamped_fields [OF sv(2)] c(3,4) Nil by simp_all
    ultimately show ?thesis using sv c(6,7) s' Nil
      by (intro exI [of _ st'] exI [of _ w'] exI [of _ d1] exI [of _ ?s]) (simp add: lesson_load_def)
  next
    case (Cons y zs)
    have ids: "stg_id s \<noteq> stg_id y" "\<forall>x\<in>set xs. stg_id x \<noteq> stg_id y"
      using ss(1,4) Cons by simp_all (metis image_eqI)
    have st1: "ps_stages st1 = (xs @ [?s]) @ y # zs" using c(3) Cons by simp
    have i1: "stage_index st1 (stg_id y) = Inr (Suc (length xs))"
      using index_from_split [of "xs @ [?s]" y 0 zs] ids st1
      by (simp add: stage_index_def finish_stage_def)
    have "\<forall>x\<in>set (ps_stages st1). stg_status x \<noteq> Active"
      using ss(5) st1 Cons by (auto simp: finish_stage_def)
    then have "startable st1 (Suc (length xs))"
      using st1 ss(6) Cons by (simp add: startable_def nth_append finish_stage_def)
    then have g: "start_guard st1 (Suc (length xs)) (stg_id y) = Inr y"
      using start_guard_iff [of "Suc (length xs)" st1 "stg_id y"] st1 by (simp add: nth_append)
    obtain st' w' t' where sv: "start_stage E hooks (stg_id y) w2 = (Inr st', w')" "w_state w' = Doc st'"
      "stamped (activate (Suc (length xs)) y t' st1) st'" "healthy E hooks w'"
      using start_stage_ok [OF c(5,2) i1 g] by metis
    have "advance E hooks w = (Inr st', w')"
      using Cons ss i c(1) sv(1) by (simp add: begin_run nth_append)
    moreover have "w_gates w' = w_gates w2" "w_lessons w' = w_lessons w2"
      using unchanged_result [OF start_stage_gates(1) sv(1)]
        unchanged_result [OF start_stage_gates(2) sv(1)] by simp_all
    moreover have "ps_stages st' = xs @ ?s # y\<lparr>stg_status := Active, stg_entered_at := Some t',
        stg_blocked_reason := None\<rparr> # zs" "ps_current st' = Some (stg_id y)"
      using stamped_fields [OF sv(3)] st1 by (simp_all add: activate_def list_update_append)
    ultimately show ?thesis using sv c(6,7) s' Cons
      by (intro exI [of _ st'] exI [of _ w'] exI [of _ d1] exI [of _ ?s]) (simp add: lesson_load_def)
  qed
qed

lemma no_gates_pass:
  assumes "healthy E hooks w" and "fst (load_gate_file E w) = Inr gs" and "\<not> list_ex gc_enabled gs"
  shows "\<exists>w1. evaluate_stage E (Some hooks) sid w = (Inr [], w1)"
proof -
  have "load_gate_file E w = (Inr gs, w)"
    using assms(2) by (auto simp: load_gate_file_def)
  then have "gates_for_stage E sid w = (Inr [], w)"
    using assms(3) by (simp add: gates_for_stage_def bindp_run ret_run list_ex_iff)
  from evaluate_stage_returns [OF assms(1) this] show ?thesis by (auto simp: ret_run)
qed

lemma advances_complete:
  assumes "healthy E hooks w" and "w_state w = Doc st"
    and "ps_stages st = xs @ s # ys" "ps_current st = Some (stg_id s)" "stg_status s = Active"
      "distinct (map stg_id (ps_stages st))" "\<forall>x\<in>set xs. stg_status x = Complete"
      "\<forall>y\<in>set ys. stg_status y = NotStarted"
    and "fst (load_gate_file E w) = Inr gs" "\<not> list_ex gc_enabled gs"
    and "fst (lesson_load E w) = Inr d"
  shows "\<exists>st'. w_state (run_commands E hooks (replicate (Suc (length ys)) CmdAdvance) w) = Doc st' \<and>
    map lc_pair (ps_stages st') = map (\<lambda>x. (stg_id x, Complete)) (ps_stages st) \<and> ps_current st' = None"
  using assms
proof (induction ys arbitrary: w st xs s d)
  case Nil
  obtain w1 where ev: "evaluate_stage E (Some hooks) (stg_id s) w = (Inr [], w1)"
    using no_gates_pass [OF Nil.prems(1,9,10)] by blast
  have na: "\<forall>x\<in>set (xs @ []). stg_status x \<notin> {Active}" using Nil.prems(7) by simp
  have "\<exists>st' w' d' s'. advance E hooks w = (Inr st', w') \<and> w_state w' = Doc st' \<and>
    lc_pair s' = (stg_id s, Complete) \<and> healthy E hooks w' \<and> w_gates w' = w_gates w \<and>
    fst (lesson_load E w') = Inr d' \<and> (case [] of [] \<Rightarrow> ps_stages st' = xs @ [s'] \<and> ps_current st' = None
     | y # zs \<Rightarrow> (\<exists>y'. ps_stages st' = xs @ s' # y' # zs \<and> lc_pair y' = (stg_id y, Active) \<and>
         ps_current st' = Some (stg_id y)))"
    by (rule advance_ok [OF Nil.prems(1-6) na _ ev _ Nil.prems(11)]) simp_all
  then obtain st' w' s' where "advance E hooks w = (Inr st', w')" "w_state w' = Doc st'"
    "lc_pair s' = (stg_id s, Complete)" "ps_stages st' = xs @ [s']" "ps_current st' = None" by auto
  with Nil.prems(3,7) show ?case by simp
next
  case (Cons y ys)
  obtain w1 where ev: "evaluate_stage E (Some hooks) (stg_id s) w = (Inr [], w1)"
    using no_gates_pass [OF Cons.prems(1,9,10)] by blast
  have na: "\<forall>x\<in>set (xs @ y # ys). stg_status x \<notin> {Active}" using Cons.prems(7,8) by auto
  have "\<exists>st' w' d' s'. advance E hooks w = (Inr st', w') \<and> w_state w' = Doc st' \<and>
    lc_pair s' = (stg_id s, Complete) \<and> healthy E hooks w' \<and> w_gates w' = w_gates w \<and>
    fst (lesson_load E w') = Inr d' \<and> (case y # ys of [] \<Rightarrow> ps_stages st' = xs @ [s'] \<and> ps_current st' = None
     | y # zs \<Rightarrow> (\<exists>y'. ps_stages st' = xs @ s' # y' # zs \<and> lc_pair y' = (stg_id y, Active) \<and>
         ps_current st' = Some (stg_id y)))"
    by (rule advance_ok [OF Cons.prems(1-6) na _ ev _ Cons.prems(11)]) (use Cons.prems(8) in simp_all)
  then obtain st1 w1 d1 s' y' where a: "advance E hooks w = (Inr st1, w1)" "w_state w1 = Doc st1"
    "lc_pair s' = (stg_id s, Complete)" "healthy E hooks w1" "w_gates w1 = w_gates w"
    "fst (lesson_load E w1) = Inr d1" "ps_stages st1 = xs @ s' # y' # ys" "lc_pair y' = (stg_id y, Active)"
    "ps_current st1 = Some (stg_id y)" by auto
  have "\<exists>st'. w_state (run_commands E hooks (replicate (Suc (length ys)) CmdAdvance) w1) = Doc st' \<and>
    map lc_pair (ps_stages st') = map (\<lambda>x. (stg_id x, Complete)) (ps_stages st1) \<and> ps_current st' = None"
  proof (rule Cons.IH [OF a(4,2), of "xs @ [s']" y'])
    show "fst (load_gate_file E w1) = Inr gs"
      using Cons.prems(9) a(5) by (simp add: load_gate_file_def)
    show "distinct (map stg_id (ps_stages st1))"
      using Cons.prems(3,6) a(3,7,8) by simp
  qed (use Cons.prems a in auto)
  moreover have "map (\<lambda>x. (stg_id x, Complete)) (ps_stages st1) = map (\<lambda>x. (stg_id x, Complete)) (ps_stages st)"
    using Cons.prems(3) a(3,7,8) by simp
  ultimately show ?case using a(1) by simp
qed

text \<open>C5: The pipeline can be driven to its end. In a healthy project whose enabled gates are none, from
  the state \<open>forge init\<close> creates (the first stage active, the others not started), as many \<open>advance\<close>
  commands as there are stages complete every stage, in order, and leave no stage current.\<close>

theorem advances_complete_the_pipeline:
  assumes "healthy E hooks w" and "w_state w = Doc st" and "lc_init (lc_of st)"
    and "fst (load_gate_file E w) = Inr gs" and "\<not> list_ex gc_enabled gs"
    and "fst (lesson_load E w) = Inr d"
  shows "\<exists>st'. w_state (run_commands E hooks (replicate (length (ps_stages st)) CmdAdvance) w) = Doc st' \<and>
    map stg_id (ps_stages st') = map stg_id (ps_stages st) \<and>
    (\<forall>s\<in>set (ps_stages st'). stg_status s = Complete) \<and> ps_current st' = None"
proof -
  from assms(3) obtain sid rest where init: "map lc_pair (ps_stages st) = (sid, Active) # map (\<lambda>x. (x, NotStarted)) rest"
    "ps_current st = Some sid" "distinct (sid # rest)"
    by (auto simp: lc_init_def lc_of_def)
  from init(1) obtain s ys where s: "ps_stages st = s # ys" "stg_id s = sid" "stg_status s = Active"
    "map lc_pair ys = map (\<lambda>x. (x, NotStarted)) rest" by auto
  have ys: "map stg_id ys = rest" "\<forall>y\<in>set ys. stg_status y = NotStarted"
  proof -
    from s(4) have "map fst (map lc_pair ys) = map fst (map (\<lambda>x. (x, NotStarted)) rest)"
      and "snd ` set (map lc_pair ys) \<subseteq> {NotStarted}" by (simp_all only: s(4)) auto
    then show "map stg_id ys = rest" "\<forall>y\<in>set ys. stg_status y = NotStarted"
      by (auto simp: comp_def image_subset_iff)
  qed
  have "\<exists>st'. w_state (run_commands E hooks (replicate (Suc (length ys)) CmdAdvance) w) = Doc st' \<and>
    map lc_pair (ps_stages st') = map (\<lambda>x. (stg_id x, Complete)) (ps_stages st) \<and> ps_current st' = None"
    by (rule advances_complete [OF assms(1,2), of "[]" s])
      (use s ys init assms in simp_all)
  then obtain st' where st': "w_state (run_commands E hooks (replicate (Suc (length ys)) CmdAdvance) w) = Doc st'"
    "map lc_pair (ps_stages st') = map (\<lambda>x. (stg_id x, Complete)) (ps_stages st)" "ps_current st' = None" by blast
  have "map fst (map lc_pair (ps_stages st')) = map stg_id (ps_stages st)"
    "set (map snd (map lc_pair (ps_stages st'))) \<subseteq> {Complete}"
    unfolding st'(2) by (auto simp: comp_def)
  then have "map stg_id (ps_stages st') = map stg_id (ps_stages st)"
    "\<forall>s\<in>set (ps_stages st'). stg_status s = Complete"
    by (auto simp: comp_def)
  with st' s(1) show ?thesis by simp
qed

lemma advances_complete_the_pipeline_witness:
  "\<exists>st'. w_state (run_commands demo_env [] [CmdAdvance, CmdAdvance] demo_project) = Doc st' \<and>
    map stg_id (ps_stages st') = [''srs'', ''build''] \<and> (\<forall>s\<in>set (ps_stages st'). stg_status s = Complete)"
proof -
  have h: "healthy demo_env [] demo_project" by (rule demo_healthy) (simp add: demo_project_def)
  have init: "lc_init (lc_of demo_state)"
    unfolding lc_init_def demo_state_lc by (intro exI [of _ "''srs''"] exI [of _ "[''build'']"]) simp
  have gs: "fst (load_gate_file demo_env demo_project) = Inr []" "\<not> list_ex gc_enabled []"
    by (simp_all add: load_gate_file_def demo_project_def)
  have ls: "fst (lesson_load demo_env demo_project) = Inr empty_lessons"
    by (simp add: lesson_load_def demo_project_def empty_world_def)
  have "length (ps_stages demo_state) = 2" "map stg_id (ps_stages demo_state) = [''srs'', ''build'']"
    by (simp_all add: demo_state_def demo_stage_def)
  with advances_complete_the_pipeline [OF h demo_project_state init gs ls] show ?thesis
    by (auto simp: numeral_2_eq_2)
qed

section \<open>Partial failures\<close>

text \<open>Saving does not depend on the event store. If the configuration loads and every write except
  to \<open>events.db\<close> is accepted, \<open>save\<close> returns; the state file holds the returned state, the
  markdown mirror shows it, and the event store either has one new \<open>StateSaved\<close> row with the whole
  state in the project's stream, or is as it was.\<close>

lemma save_survives_event_store_failure:
  assumes "load_config E w = (Inr c, w)" and "\<forall>n p. p \<noteq> db_path E \<longrightarrow> write_ok_at E n p"
  shows "\<exists>st' w'. state_save E st w = (Inr st', w') \<and> w_state w' = Doc st' \<and>
    ps_stages st' = ps_stages st \<and> ps_current st' = ps_current st \<and>
    w_state_md w' = Some (render_state_markdown c st') \<and>
    w_db w' \<in> {w_db w, append_row (''project/'' @ ps_project_id st) ''StateSaved''
      [(''state'', JObj (dump_state st'))] (w_db w)}"
proof -
  have load: "load_config E v = (Inr c, v)" if "w_config v = w_config w" for v
    using assms(1) that by (simp add: load_config_def)
  have paths: "state_path E \<noteq> db_path E" "state_markdown_path E \<noteq> db_path E"
    "state_path E @ ''/..'' \<noteq> db_path E" "state_markdown_path E @ ''/..'' \<noteq> db_path E"
    by (simp_all add: state_path_def state_markdown_path_def db_path_def forge_path_def)
  have aw: "atomic_write E p put v =
      (Inr (), put (v\<lparr>w_uuids := Suc (w_uuids v), w_writes := Suc (Suc (w_writes v))\<rparr>))"
    if "p \<noteq> db_path E" "p @ ''/..'' \<noteq> db_path E" for p put v
    using that assms(2) by (simp add: atomic_write_def prog_simps)
  define st' where "st' = st\<lparr>ps_updated_at := now_at E (w_clock w)\<rparr>"
  obtain g where g: "\<And>v. dual_write E st' v = (Inr (), g v)" using dual_write_ok by metis
  have gs: "w_state (g v) = w_state v" "w_state_md (g v) = w_state_md v" for v
    by (rule unchanged_result [OF dual_write_unchanged g]; simp)+
  have db: "w_db (g v) \<in> {w_db v, append_row (''project/'' @ ps_project_id st) ''StateSaved''
      [(''state'', JObj (dump_state st'))] (w_db v)}" for v
  proof -
    obtain r v' where a: "append_state_event E (''project/'' @ ps_project_id st') (dump_state st') v = (r, v')"
      by (cases "append_state_event E (''project/'' @ ps_project_id st') (dump_state st') v")
    then have "g v = v'" using g [of v]
      by (cases r) (auto simp: dual_write_def catchp_run bindp_run ret_run)
    with store_append_run [OF a [unfolded append_state_event_def]] show ?thesis
      by (auto simp: st'_def)
  qed
  have run: "\<exists>v. state_save E st w = (Inr st', g v) \<and> w_state v = Doc st' \<and> w_db v = w_db w \<and>
      w_state_md v = Some (render_state_markdown c st')"
    by (simp add: state_save_def prog_simps Let_def aw paths load put_state_def put_markdown_def g
        flip: st'_def) (rule exI, rule conjI, rule refl, simp)
  then obtain v where v: "state_save E st w = (Inr st', g v)" "w_state v = Doc st'" "w_db v = w_db w"
    "w_state_md v = Some (render_state_markdown c st')" by blast
  show ?thesis
    using v gs [of v] db [of v] by (intro exI [of _ st'] exI [of _ "g v"]) (simp add: st'_def)
qed

definition no_db_env :: env where
  "no_db_env = demo_env\<lparr>write_ok_at := (\<lambda>_ p. p \<noteq> ''/p/.forge/events.db'')\<rparr>"

lemma save_survives_event_store_failure_witness:
  "\<exists>st' w'. state_save no_db_env demo_state demo_project = (Inr st', w') \<and> w_state w' = Doc st' \<and>
    ps_current st' = Some ''srs''"
proof -
  have c: "load_config no_db_env demo_project = (Inr demo_config, demo_project)"
  proof -
    have "check_config_fields demo_config = Inr demo_config" by code_simp
    then show ?thesis by (simp add: load_config_def demo_project_def)
  qed
  have w: "\<forall>n p. p \<noteq> db_path no_db_env \<longrightarrow> write_ok_at no_db_env n p"
    by (simp add: no_db_env_def db_path_def forge_path_def demo_env_def)
  from save_survives_event_store_failure [OF c w, of demo_state] show ?thesis
    by (auto simp: demo_state_def)
qed

text \<open>A transition can happen without its event. When the configuration cannot be loaded, starting
  a startable stage raises the loader's error, and yet the stage is active and current in
  \<open>state.json\<close>; no lifecycle event was appended, the mirror and the event store were not updated.
  (The README states that every mutation appends a lifecycle event.)\<close>

lemma start_without_config_moves_silently:
  assumes "writes_succeed E" and "w_state w = Doc st" and "load_config E w = (Inl e, w)"
    and "ps_stages st = xs @ s # ys" and "stg_id s = sid" and "\<forall>x\<in>set xs. stg_id x \<noteq> sid"
    and "startable st (length xs)"
  shows "\<exists>w' st' s'. start_stage E hooks sid w = (Inl e, w') \<and> w_state w' = Doc st' \<and>
    ps_stages st' = xs @ s' # ys \<and> stg_status s' = Active \<and> ps_current st' = Some sid \<and>
    w_events w' = w_events w \<and> w_state_md w' = w_state_md w \<and> w_db w' = w_db w"
proof -
  have i: "stage_index st sid = Inr (length xs)"
    using assms(4-6) index_from_split [of xs s 0 ys] by (simp add: stage_index_def)
  have g: "start_guard st (length xs) sid = Inr s"
    using start_guard_iff [of "length xs" st sid] assms(4,7) by simp
  have "\<exists>t w1. or_else (stg_entered_at s) (utc_now E) w = (Inr t, w1) \<and>
      (w1 = w \<or> w1 = w\<lparr>w_clock := Suc (w_clock w)\<rparr>)"
    by (simp add: or_else_def prog_simps split: option.split list.split)
  then obtain t w1 where t: "or_else (stg_entered_at s) (utc_now E) w = (Inr t, w1)"
    and w1: "w_config w1 = w_config w" "w_events w1 = w_events w" "w_state_md w1 = w_state_md w"
      "w_db w1 = w_db w" by auto
  have load: "load_config E v = (Inl e, v)" if "w_config v = w_config w" for v
    using assms(3) that by (simp add: load_config_def)
  have "\<exists>w'. state_save E (activate (length xs) s t st) w1 = (Inl e, w') \<and>
      w_state w' = Doc ((activate (length xs) s t st)\<lparr>ps_updated_at := now_at E (w_clock w1)\<rparr>) \<and>
      w_events w' = w_events w1 \<and> w_state_md w' = w_state_md w1 \<and> w_db w' = w_db w1"
    by (simp add: state_save_def prog_simps Let_def atomic_write_ok [OF assms(1)] load w1 put_state_def)
  then obtain w' where sv: "state_save E (activate (length xs) s t st) w1 = (Inl e, w')"
    "w_state w' = Doc ((activate (length xs) s t st)\<lparr>ps_updated_at := now_at E (w_clock w1)\<rparr>)"
    "w_events w' = w_events w1" "w_state_md w' = w_state_md w1" "w_db w' = w_db w1" by blast
  have "start_stage E hooks sid w = (Inl e, w')"
    using sv(1) i g t by (simp add: start_stage_def bindp_run load_state_Doc [OF assms(2)] lift_result_run)
  with sv w1 assms(4,5) show ?thesis by (simp add: activate_def)
qed

lemma start_without_config_moves_silently_witness:
  "\<exists>w' st' e. start_stage demo_env [] ''build'' (demo_project2\<lparr>w_config := Absent\<rparr>) = (Inl e, w') \<and>
     w_state w' = Doc st' \<and> ps_current st' = Some ''build'' \<and> w_events w' = None"
proof -
  let ?w = "demo_project2\<lparr>w_config := Absent\<rparr>"
  have st: "w_state ?w = Doc demo_state2" by (simp add: demo_project2_def)
  obtain e where load: "load_config demo_env ?w = (Inl e, ?w)" by (simp add: load_config_def)
  have ss: "ps_stages demo_state2 = [demo_stage ''srs'' Complete] @ demo_stage ''build'' NotStarted # []"
    by (simp add: demo_state2_def)
  have "startable demo_state2 (length [demo_stage ''srs'' Complete])"
    by (simp add: startable_def demo_state2_def demo_stage_def)
  moreover have "stg_id (demo_stage ''build'' NotStarted) = ''build''"
    "\<forall>x\<in>set [demo_stage ''srs'' Complete]. stg_id x \<noteq> ''build''"
    by (simp_all add: demo_stage_def)
  moreover have "w_events ?w = None" by (simp add: demo_project2_def demo_project_def empty_world_def)
  ultimately show ?thesis
    using start_without_config_moves_silently [OF demo_env_writes st load ss, of "''build''" "[]"] by auto
qed

end
