(* ===== verification/Scaffold.thy ===== *)
theory Scaffold imports Pipeline begin

text \<open>
  Creating a project: \<open>project/profiles.py\<close> (the built-in stage and gate templates) and
  \<open>project/scaffold.py\<close> (\<open>forge init\<close>), with the placeholder table of \<open>adapters/registry.py\<close>.
  The files no component of the model reads back (the session log, the agent runs, the spans, the
  patterns, the task README) are entries of the project's file system.
\<close>

section \<open>Profiles\<close>

record stage_template =
  tp_id :: string
  tp_name :: string
  tp_description :: string
  tp_order :: nat
  tp_required_artifacts :: "string list"
  tp_gate_ids :: "string list"

definition template :: "string \<Rightarrow> string \<Rightarrow> string \<Rightarrow> nat \<Rightarrow> stage_template" where
  "template i n d k = \<lparr>tp_id = i, tp_name = n, tp_description = d, tp_order = k,
     tp_required_artifacts = [], tp_gate_ids = []\<rparr>"

definition srs_template :: stage_template where
  "srs_template = (template ''srs'' ''SRS'' ''Define the software requirements.'' 1)
     \<lparr>tp_required_artifacts := [''SRS.md''], tp_gate_ids := [''srs_exists'']\<rparr>"

definition minimal_stages :: "stage_template list" where
  "minimal_stages = [srs_template,
     template ''build'' ''Build'' ''Implement the planned solution.'' 2,
     template ''deploy'' ''Deploy'' ''Prepare and perform deployment.'' 3]"

definition standard_stages :: "stage_template list" where
  "standard_stages = [srs_template,
     template ''product'' ''Product'' ''Clarify product goals and user value.'' 2,
     template ''architecture'' ''Architecture'' ''Decide architecture and major boundaries.'' 3,
     template ''spec'' ''Spec'' ''Create implementation specifications.'' 4,
     template ''plan'' ''Plan'' ''Create an implementation plan.'' 5,
     template ''build'' ''Build'' ''Implement the planned solution.'' 6,
     template ''eval'' ''Eval'' ''Evaluate quality and correctness.'' 7,
     template ''deploy'' ''Deploy'' ''Prepare and perform deployment.'' 8,
     template ''monitor'' ''Monitor'' ''Observe runtime behavior.'' 9,
     template ''feedback'' ''Feedback'' ''Collect and analyze feedback.'' 10,
     template ''resolve'' ''Resolve'' ''Resolve discovered issues.'' 11,
     template ''release'' ''Release'' ''Finalize release artifacts.'' 12]"

definition expert_stages :: "stage_template list" where
  "expert_stages = standard_stages"

definition get_profile_stages :: "string \<Rightarrow> exn + stage_template list" where
  "get_profile_stages profile =
     (if profile = ''minimal'' then Inr minimal_stages
      else if profile = ''standard'' then Inr standard_stages
      else if profile = ''expert'' then Inr expert_stages
      else Inl (ValueError (''Unsupported profile: '' @ profile)))"

record stage_definition =
  sd_template :: stage_template
  sd_allowed_transitions :: "string list"
  sd_agent_personas :: "string list"

text \<open>The comprehension over \<open>enumerate(stages)\<close>: each stage may be followed by the next one.\<close>

fun stage_definitions :: "stage_template list \<Rightarrow> stage_definition list" where
  "stage_definitions [] = []"
| "stage_definitions (s # ss) = \<lparr>sd_template = s,
     sd_allowed_transitions = (case ss of [] \<Rightarrow> [] | t # _ \<Rightarrow> [tp_id t]),
     sd_agent_personas = []\<rparr> # stage_definitions ss"

definition build_stage_document :: "string \<Rightarrow> exn + stage_definition list" where
  "build_stage_document profile = map_sum id stage_definitions (get_profile_stages profile)"

definition srs_gate :: gate_criterion where
  "srs_gate = \<lparr>gc_id = ''srs_exists'', gc_name = ''SRS file exists'', gc_type = ''required_file'',
     gc_stage_id = Some ''srs'', gc_severity = ''blocking'', gc_enabled = True,
     gc_criteria = [(''path'', JStr ''SRS.md'')], gc_timeout_seconds = None\<rparr>"

definition build_gate_document :: "string \<Rightarrow> gate_criterion list" where
  "build_gate_document profile = (if profile \<in> set supported_profiles then [srs_gate] else [])"

section \<open>Adapter placeholders\<close>

definition adapter_class_names :: "(string \<times> string) list" where
  "adapter_class_names = [
     (''dummy'', ''DummyAdapter''), (''claude_code'', ''ClaudeCodeAdapter''),
     (''claude_raw'', ''ClaudeRawAdapter''), (''claude_sdk'', ''ClaudeSDKAdapter''),
     (''codex'', ''CodexAdapter''), (''openclaw'', ''OpenClawAdapter''),
     (''opencode'', ''OpenCodeAdapter''), (''local_llm'', ''LocalLLMAdapter''),
     (''human'', ''HumanAdapter'')]"

definition adapter_priority :: "string list" where
  "adapter_priority = [''dummy'', ''claude_code'', ''claude_raw'', ''claude_sdk'', ''codex'',
     ''openclaw'', ''opencode'', ''local_llm'', ''human'']"

definition adapter_placeholder_config :: "(string, json_obj) dict" where
  "adapter_placeholder_config = map (\<lambda>aid. (aid,
     [(''enabled'', JBool (aid = ''dummy'')),
      (''implementation'', JStr (the (dict_get adapter_class_names aid))),
      (''phase'', JStr (if aid = ''dummy'' then ''05'' else ''05.5''))])) adapter_priority"

text \<open>\<open>adapters[k][field] = v\<close>, and \<open>adapters[k].update(options)\<close>.\<close>

definition set_option_of :: "string \<Rightarrow> string \<Rightarrow> json \<Rightarrow> (string, json_obj) dict \<Rightarrow> (string, json_obj) dict" where
  "set_option_of k field v d = (case dict_get d k of
       None \<Rightarrow> d | Some opts \<Rightarrow> dict_set k (dict_set field v opts) d)"

definition update_options :: "string \<Rightarrow> json_obj \<Rightarrow> (string, json_obj) dict \<Rightarrow> (string, json_obj) dict" where
  "update_options k new d = (case dict_get d k of
       None \<Rightarrow> d | Some opts \<Rightarrow> dict_set k (dict_merge opts new) d)"

section \<open>forge init\<close>

definition build_config :: "string \<Rightarrow> string \<Rightarrow> string \<Rightarrow> json_obj \<Rightarrow> exn + forge_config" where
  "build_config project_name profile default_adapter options =
     (if profile \<notin> set supported_profiles
      then Inl (ValueError (''Unsupported profile: '' @ profile))
      else if default_adapter \<notin> set adapter_priority
      then Inl (ValueError (''Unsupported adapter: '' @ default_adapter @ ''. Choose one of: '' @
             join '', '' adapter_priority))
      else if project_name = [] then Inl (ValidationError ''name'')
      else check_config_fields
        \<lparr>cf_schema_version = ''0.1'',
         cf_project = \<lparr>pc_name = project_name, pc_root_policy = ''project_only''\<rparr>,
         cf_profile = profile, cf_default_adapter = default_adapter,
         cf_adapters = (let a = set_option_of ''dummy'' ''enabled'' (JBool (default_adapter = ''dummy''))
             adapter_placeholder_config;
           a = set_option_of default_adapter ''enabled'' (JBool True) a
           in if options = [] then a else update_options default_adapter options a),
         cf_security = \<lparr>sc_profile = ''baseline''\<rparr>, cf_hooks = \<lparr>hc_enabled = False\<rparr>,
         cf_features = [(''daemon'', JBool False), (''channels'', JBool False),
           (''openclaw'', JBool False), (''plugins'', JBool False),
           (''health_monitor'', JBool False)]\<rparr>)"

fun initial_stages :: "string \<Rightarrow> nat \<Rightarrow> stage_template list \<Rightarrow> stage_state list" where
  "initial_stages t n [] = []"
| "initial_stages t n (s # ss) = \<lparr>stg_id = tp_id s,
     stg_status = (if n = 0 then Active else NotStarted),
     stg_entered_at = (if n = 0 then Some t else None), stg_completed_at = None,
     stg_blocked_reason = None, stg_artifacts = [], stg_extra = []\<rparr> # initial_stages t (Suc n) ss"

definition build_state :: "env \<Rightarrow> string \<Rightarrow> (world, pipeline_state) prog" where
  "build_state E profile = bindp (utc_now E) (\<lambda>t.
     bindp (lift_result (get_profile_stages profile)) (\<lambda>stages. bindp (uuid4 E) (\<lambda>u. ret
       \<lparr>ps_schema_version = ''0.1'', ps_project_id = ''forge-'' @ u, ps_profile = profile,
        ps_current = (case stages of [] \<Rightarrow> None | s # _ \<Rightarrow> Some (tp_id s)),
        ps_stages = initial_stages t 0 stages, ps_gates = [], ps_last_event_id = None,
        ps_created_at = t, ps_updated_at = t, ps_metadata = [(''created_by'', JStr ''forge init'')],
        ps_extra = []\<rparr>)))"

definition state_markdown :: "forge_config \<Rightarrow> pipeline_state \<Rightarrow> string" where
  "state_markdown c st = ''# Forge Pipeline State'' @ nl @ nl @
     ''This file is a human-readable mirror generated from Forge OS machine state. '' @
     ''Do not treat it as the canonical source of truth.'' @ nl @ nl @
     ''- Project: '' @ pc_name (cf_project c) @ nl @ ''- Profile: '' @ cf_profile c @ nl @
     ''- State schema version: '' @ ps_schema_version st @ nl @ ''- Current stage: '' @
     (case ps_current st of Some (x # xs) \<Rightarrow> x # xs | _ \<Rightarrow> ''none'') @ nl @ nl @ ''## Stages'' @ nl @ nl @
     join nl (map (\<lambda>s. ''- '' @ stg_id s @ '': '' @ stage_status_text (stg_status s)) (ps_stages st)) @ nl"

definition write_text :: "env \<Rightarrow> string \<Rightarrow> (world \<Rightarrow> bool) \<Rightarrow> (world \<Rightarrow> world) \<Rightarrow> bool
    \<Rightarrow> (world, unit) prog" where
  "write_text E path present put overwrite = bindp (asks present) (\<lambda>b.
     if b \<and> \<not> overwrite
     then throw (ProjectAlreadyInitializedError (''Refusing to overwrite existing file: '' @ path))
     else write_file E path put)"

text \<open>The files in the order they are written: path, whether it is there, and its new content.\<close>

definition put_file :: "string \<Rightarrow> string \<Rightarrow> world \<Rightarrow> world" where
  "put_file path content w =
     w\<lparr>w_fs := (w_fs w)(path \<mapsto> \<lparr>fe_content = content, fe_mtime = 0\<rparr>)\<rparr>"

type_synonym scaffold_file = "string \<times> (world \<Rightarrow> bool) \<times> (world \<Rightarrow> world)"

definition plain_file :: "string \<Rightarrow> string \<Rightarrow> scaffold_file" where
  "plain_file path content = (path, \<lambda>w. w_fs w path \<noteq> None, put_file path content)"

definition scaffold_files :: "forge_config \<Rightarrow> pipeline_state \<Rightarrow> string \<Rightarrow> scaffold_file list" where
  "scaffold_files c st profile = [
     (''.forge/config.yaml'', \<lambda>w. file_exists (w_config w), \<lambda>w. w\<lparr>w_config := Doc c\<rparr>),
     (''.forge/state.json'', \<lambda>w. file_exists (w_state w), \<lambda>w. w\<lparr>w_state := Doc st\<rparr>),
     (''.forge/events.jsonl'', \<lambda>w. w_events w \<noteq> None, \<lambda>w. w\<lparr>w_events := Some []\<rparr>),
     plain_file ''.forge/session-log.jsonl'' [],
     (''.forge/agent-runs.jsonl'', \<lambda>w. w_agent_runs w \<noteq> [], \<lambda>w. w\<lparr>w_agent_runs := []\<rparr>),
     (''.forge/context-selections.jsonl'', \<lambda>w. w_selections w \<noteq> [], \<lambda>w. w\<lparr>w_selections := []\<rparr>),
     (''.forge/hook-timings.jsonl'', \<lambda>w. w_timings w \<noteq> None, \<lambda>w. w\<lparr>w_timings := Some []\<rparr>),
     (''.forge/security-audit.jsonl'', \<lambda>w. w_audit w \<noteq> None, \<lambda>w. w\<lparr>w_audit := Some []\<rparr>),
     (''.forge/traces/spans.jsonl'', \<lambda>w. w_spans w \<noteq> None, \<lambda>w. w\<lparr>w_spans := Some []\<rparr>),
     (''.forge/lessons.yaml'', \<lambda>w. file_exists (w_lessons w), \<lambda>w. w\<lparr>w_lessons := Doc empty_lessons\<rparr>),
     plain_file ''.forge/patterns.jsonl'' [],
     (''.forge/artifacts.json'', \<lambda>w. file_exists (w_artifacts w), \<lambda>w. w\<lparr>w_artifacts := Doc []\<rparr>),
     (''.forge/adg.json'', \<lambda>w. w_graph w \<noteq> None,
        \<lambda>w. w\<lparr>w_graph := Some \<lparr>ag_nodes = [], ag_edges = []\<rparr>\<rparr>),
     (''pipeline/state.md'', \<lambda>w. w_state_md w \<noteq> None,
        \<lambda>w. w\<lparr>w_state_md := Some (state_markdown c st)\<rparr>),
     (''pipeline/stages.yaml'', w_stages_yaml, \<lambda>w. w\<lparr>w_stages_yaml := True\<rparr>),
     (''pipeline/gates.yaml'', \<lambda>w. file_exists (w_gates w),
        \<lambda>w. w\<lparr>w_gates := Doc (build_gate_document profile)\<rparr>),
     plain_file ''tasks/README.md'' (''# Forge Tasks'' @ nl @ nl @
        ''Use this directory for task plans and implementation notes.'' @ nl)]"

fun write_all :: "env \<Rightarrow> bool \<Rightarrow> scaffold_file list \<Rightarrow> (world, unit) prog" where
  "write_all E overwrite [] = ret ()"
| "write_all E overwrite ((path, present, put) # fs) =
     thenp (write_text E path present put overwrite) (write_all E overwrite fs)"

text \<open>\<open>forge_exists\<close> says whether the directory \<open>.forge\<close> is there.\<close>

definition initialize_project :: "env \<Rightarrow> bool \<Rightarrow> string \<Rightarrow> string \<Rightarrow> string \<Rightarrow> json_obj \<Rightarrow> bool
    \<Rightarrow> (world, string) prog" where
  "initialize_project E forge_exists project_name profile default_adapter options overwrite =
     (if profile \<notin> set supported_profiles
      then throw (ValueError (''Unsupported profile: '' @ profile))
      else if forge_exists \<and> \<not> overwrite
      then throw (ProjectAlreadyInitializedError (''Forge project already exists at '' @ root_path E @
             ''. Use --force to overwrite Phase 01 files.''))
      else bindp (lift_result (build_config project_name profile default_adapter options)) (\<lambda>c.
           bindp (build_state E profile) (\<lambda>st.
           thenp (write_file E (root_path E) (\<lambda>w. w))
             (thenp (write_all E overwrite (scaffold_files c st profile)) (ret (root_path E))))))"

section \<open>Properties\<close>

lemma get_profile_stages_supported:
  assumes "profile \<in> set supported_profiles"
  obtains ss where "get_profile_stages profile = Inr (srs_template # ss)"
    "distinct (map tp_id (srs_template # ss))"
proof -
  have d: "distinct (map tp_id minimal_stages)" "distinct (map tp_id standard_stages)"
    by (simp_all add: minimal_stages_def standard_stages_def template_def srs_template_def)
  from assms consider "profile = ''minimal''" | "profile \<in> {''standard'', ''expert''}"
    by (auto simp: supported_profiles_def)
  then show thesis
  proof cases
    case 1
    with d(1) show thesis
      by (intro that [of "tl minimal_stages"])
        (simp_all add: get_profile_stages_def minimal_stages_def)
  next
    case 2
    with d(2) show thesis
      by (intro that [of "tl standard_stages"])
        (auto simp: get_profile_stages_def expert_stages_def standard_stages_def)
  qed
qed

lemma initial_stages_rest:
  "map lc_pair (initial_stages t (Suc n) ss) = map (\<lambda>x. (tp_id x, NotStarted)) ss"
  by (induction ss arbitrary: n) auto

lemma build_state_ok:
  assumes "profile \<in> set supported_profiles"
  obtains st ss where "build_state E profile w = (Inr st, w\<lparr>w_clock := Suc (w_clock w), w_uuids := Suc (w_uuids w)\<rparr>)"
    "get_profile_stages profile = Inr ss" "lc_init (lc_of st)"
    "map stg_id (ps_stages st) = map tp_id ss" "hd ss = srs_template" "ss \<noteq> []"
proof -
  obtain ss where ss: "get_profile_stages profile = Inr (srs_template # ss)"
    "distinct (map tp_id (srs_template # ss))"
    using get_profile_stages_supported [OF assms] by blast
  let ?t = "now_at E (w_clock w)"
  obtain st where st: "build_state E profile w = (Inr st, w\<lparr>w_clock := Suc (w_clock w), w_uuids := Suc (w_uuids w)\<rparr>)"
    "ps_stages st = initial_stages ?t 0 (srs_template # ss)" "ps_current st = Some (tp_id srs_template)"
    using ss(1) by (simp add: build_state_def prog_simps)
  have lc: "map lc_pair (ps_stages st) = (tp_id srs_template, Active) # map (\<lambda>x. (x, NotStarted)) (map tp_id ss)"
    using st(2) initial_stages_rest [of ?t 0 ss] by (simp add: comp_def)
  then have "lc_init (lc_of st)"
    unfolding lc_init_def lc_of_def using st(3) ss(2)
    by (intro exI [of _ "tp_id srs_template"] exI [of _ "map tp_id ss"]) simp
  moreover have "map stg_id (ps_stages st) = map tp_id (srs_template # ss)"
    using arg_cong [OF lc, of "map fst"] by (simp add: comp_def)
  ultimately show thesis using that st(1) ss(1) by simp
qed

lemma build_config_ok:
  assumes "profile \<in> set supported_profiles" and "a \<in> set adapter_priority" and "name \<noteq> []"
  shows "\<exists>c. build_config name profile a options = Inr c \<and> check_config_fields c = Inr c \<and>
    cf_default_adapter c = a \<and> cf_profile c = profile \<and> pc_name (cf_project c) = name"
proof -
  have "\<forall>x\<in>set adapter_priority. strip x \<noteq> []" by code_simp
  moreover have "strip ''0.1'' \<noteq> []" by code_simp
  ultimately show ?thesis
    using assms by (simp add: build_config_def check_config_fields_def)
qed

text \<open>What the written files hold after all of them have been written.\<close>

definition fresh_project :: "world \<Rightarrow> bool" where
  "fresh_project w \<longleftrightarrow> w_config w = Absent \<and> w_state w = Absent \<and> w_events w = None \<and>
     w_selections w = [] \<and> w_timings w = None \<and> w_audit w = None \<and> w_lessons w = Absent \<and>
     w_artifacts w = Absent \<and> w_graph w = None \<and> w_state_md w = None \<and> \<not> w_stages_yaml w \<and>
     w_gates w = Absent \<and> w_agent_runs w = [] \<and> w_spans w = None \<and>
     (\<forall>p\<in>{''.forge/session-log.jsonl'', ''.forge/patterns.jsonl'', ''tasks/README.md''}. w_fs w p = None)"

lemma write_text_ok:
  "writes_succeed E \<Longrightarrow> overwrite \<or> \<not> present w \<Longrightarrow>
   write_text E path present put overwrite w = (Inr (), put (w\<lparr>w_writes := Suc (w_writes w)\<rparr>))"
  by (auto simp: write_text_def bindp_run asks_run write_file_ok)

lemma write_all_ok:
  assumes "writes_succeed E" and "overwrite \<or> fresh_project w"
  shows "\<exists>w'. write_all E overwrite (scaffold_files c st profile) w = (Inr (), w') \<and>
    w_config w' = Doc c \<and> w_state w' = Doc st \<and> w_events w' = Some [] \<and>
    w_lessons w' = Doc empty_lessons \<and> w_artifacts w' = Doc [] \<and>
    w_gates w' = Doc (build_gate_document profile) \<and> w_fs w' ''SRS.md'' = w_fs w ''SRS.md''"
proof (cases overwrite)
  case True
  with assms(1) show ?thesis
    by (simp add: scaffold_files_def plain_file_def put_file_def thenp_run write_text_ok ret_run)
next
  case False
  with assms(2) have "fresh_project w" by simp
  with assms(1) show ?thesis
    by (simp add: scaffold_files_def plain_file_def put_file_def thenp_run write_text_ok ret_run
        fresh_project_def file_exists_def)
qed



text \<open>\<open>forge init\<close> enables exactly the chosen adapter: in the generated configuration every adapter
  of the priority list has an entry, and the entry of the default adapter, and no other, has
  \<open>enabled\<close> set to true (as long as the caller's options do not set \<open>enabled\<close> themselves).\<close>

theorem init_enables_only_chosen_adapter:
  assumes "build_config name profile a options = Inr c"
    and "\<forall>(k, v)\<in>set options. k \<noteq> ''enabled''"
  shows "map fst (cf_adapters c) = adapter_priority \<and>
    (\<forall>b opts. dict_get (cf_adapters c) b = Some opts \<longrightarrow>
       (dict_get opts ''enabled'' = Some (JBool True) \<longleftrightarrow> b = a))"
proof -
  have merge: "\<forall>(k, v)\<in>set new. k \<noteq> ''enabled'' \<Longrightarrow>
      dict_get (dict_merge opts new) ''enabled'' = dict_get opts ''enabled''" for opts new
    by (induction new arbitrary: opts) auto
  have keys: "dict_get d k \<noteq> None \<Longrightarrow> map fst (dict_set k v d) = map fst d" for k v and d :: "(string, json_obj) dict"
    unfolding dict_get_def dict_set_def by (induction d) (auto split: if_splits)
  from assms(1) have a: "a \<in> set adapter_priority" by (auto simp: build_config_def split: if_splits)
  define d1 where "d1 = set_option_of ''dummy'' ''enabled'' (JBool (a = ''dummy'')) adapter_placeholder_config"
  define d2 where "d2 = set_option_of a ''enabled'' (JBool True) d1"
  have c: "cf_adapters c = (if options = [] then d2 else update_options a options d2)"
    using assms(1) by (auto simp: build_config_def check_config_fields_def Let_def d1_def d2_def split: if_splits)
  have d2: "map fst d2 = adapter_priority \<and>
      (\<forall>(b, opts)\<in>set d2. dict_get opts ''enabled'' = Some (JBool True) \<longleftrightarrow> b = a)"
  proof -
    have "\<forall>a\<in>set adapter_priority. let d = set_option_of a ''enabled'' (JBool True)
        (set_option_of ''dummy'' ''enabled'' (JBool (a = ''dummy'')) adapter_placeholder_config) in
        map fst d = adapter_priority \<and>
        list_all (\<lambda>(b, opts). (case dict_get opts ''enabled'' of Some (JBool True) \<Rightarrow> True | _ \<Rightarrow> False) = (b = a)) d"
      by code_simp
    moreover have "(case v of Some (JBool True) \<Rightarrow> True | _ \<Rightarrow> False) = (v = Some (JBool True))" for v
      by (auto split: option.split json.split bool.split)
    ultimately show ?thesis using a by (simp add: d1_def d2_def list_all_iff Let_def)
  qed
  have get2: "dict_get opts ''enabled'' = Some (JBool True) \<longleftrightarrow> b = a" if "dict_get d2 b = Some opts" for b opts
    using d2 map_of_SomeD [OF that [unfolded dict_get_def]] by auto
  show ?thesis
  proof (cases "options = []")
    case True
    with c d2 get2 show ?thesis by simp
  next
    case False
    from d2 a have "dict_get d2 a \<noteq> None"
      by (metis dict_get_def list.set_map map_of_eq_None_iff)
    then obtain oa where oa: "dict_get d2 a = Some oa" by blast
    have "cf_adapters c = dict_set a (dict_merge oa options) d2"
      using False c oa by (simp add: update_options_def)
    moreover have "map fst (dict_set a (dict_merge oa options) d2) = adapter_priority"
      using keys oa d2 by simp
    ultimately show ?thesis
      using get2 [OF oa] get2 merge [OF assms(2)] by auto
  qed
qed

lemma init_enables_only_chosen_adapter_witness:
  "\<exists>c opts. build_config ''Demo'' ''minimal'' ''codex'' [(''model'', JStr ''m'')] = Inr c \<and>
     dict_get (cf_adapters c) ''codex'' = Some opts \<and> dict_get opts ''enabled'' = Some (JBool True)"
proof -
  have "''minimal'' \<in> set supported_profiles" "''codex'' \<in> set adapter_priority" "''Demo'' \<noteq> []"
    by (simp_all add: supported_profiles_def adapter_priority_def)
  from build_config_ok [OF this] obtain c where c: "build_config ''Demo'' ''minimal'' ''codex'' [(''model'', JStr ''m'')] = Inr c"
    by blast
  from init_enables_only_chosen_adapter [OF c]
  have p: "map fst (cf_adapters c) = adapter_priority"
    "\<forall>b opts. dict_get (cf_adapters c) b = Some opts \<longrightarrow>
       (dict_get opts ''enabled'' = Some (JBool True) \<longleftrightarrow> b = ''codex'')" by auto
  have "''codex'' \<in> set (map fst (cf_adapters c))" unfolding p(1) by (simp add: adapter_priority_def)
  then obtain opts where "dict_get (cf_adapters c) ''codex'' = Some opts"
    unfolding dict_get_def by (metis list.set_map map_of_eq_None_iff not_None_eq)
  with c p(2) show ?thesis by blast
qed

end
