(* ===== verification/Artifacts.thy ===== *)
theory Artifacts imports Interfaces begin

text \<open>
  The artifact registry, \<open>context/registry.py\<close> over \<open>context/models.py\<close>: registering project
  files with their dependencies, refreshing their status from the file system, and propagating
  staleness to everything downstream. The recursion of \<open>_mark_downstream_stale\<close> runs on fuel; the
  fuel given is two more than the number of artifacts, which is shown to be enough.
\<close>

section \<open>Paths and token estimates\<close>

definition backslash :: char where
  "backslash = char_of (92::nat)"

definition unify_slashes :: "string \<Rightarrow> string" where
  "unify_slashes s = replace_char backslash CHR ''/'' (strip s)"

definition bad_path :: "string \<Rightarrow> bool" where
  "bad_path p \<longleftrightarrow> starts_with ''/'' p \<or> ''..'' \<in> set (split_on CHR ''/'' p) \<or> p = []"

definition normalize_path :: "string \<Rightarrow> exn + string" where
  "normalize_path p = (let n = unify_slashes p in
     if bad_path n
     then Inl (ArtifactRegistryError ''Artifact path must be non-empty and project-relative.'')
     else Inr n)"

definition estimate_tokens :: "string \<Rightarrow> nat" where
  "estimate_tokens text = (let s = strip text in
     if s = [] then 0 else max 1 ((length s + 3) div 4))"

section \<open>The validators of the schema\<close>

definition normalize_edges :: "string list \<Rightarrow> string list" where
  "normalize_edges es = add_new [] (filter (\<lambda>e. e \<noteq> []) (map unify_slashes es))"

definition validate_artifact :: "artifact \<Rightarrow> exn + artifact" where
  "validate_artifact a = (let p = unify_slashes (art_path a) in
     if p = [] then Inl (ValidationError ''Artifact path is required'')
     else if starts_with ''/'' p \<or> ''..'' \<in> set (split_on CHR ''/'' p)
     then Inl (ValidationError ''Artifact path must be project-relative'')
     else Inr (a\<lparr>art_path := p, art_dependencies := normalize_edges (art_dependencies a),
                 art_dependents := normalize_edges (art_dependents a)\<rparr>))"

fun validate_artifacts :: "artifact list \<Rightarrow> exn + artifact list" where
  "validate_artifacts [] = Inr []"
| "validate_artifacts (a # as) = (case validate_artifact a of Inl e \<Rightarrow> Inl e
     | Inr a' \<Rightarrow> (case validate_artifacts as of Inl e \<Rightarrow> Inl e | Inr as' \<Rightarrow> Inr (a' # as')))"

definition wf_artifact :: "artifact \<Rightarrow> bool" where
  "wf_artifact a \<longleftrightarrow> validate_artifact a = Inr a"

section \<open>Loading, the graph, saving\<close>

definition registry_path :: "env \<Rightarrow> string" where
  "registry_path E = root_path E @ ''/.forge/artifacts.json''"

definition graph_path :: "env \<Rightarrow> string" where
  "graph_path E = root_path E @ ''/.forge/adg.json''"

definition load_artifacts :: "env \<Rightarrow> (world, artifact list) prog" where
  "load_artifacts E = (\<lambda>w. (case w_artifacts w of
       Absent \<Rightarrow> Inr []
     | Unreadable \<Rightarrow>
         Inl (ArtifactRegistryError (''Could not read artifact registry: '' @ registry_path E))
     | BadSyntax \<Rightarrow>
         Inl (ArtifactRegistryError (''Artifact registry is invalid JSON: '' @ registry_path E))
     | EmptyDoc \<Rightarrow>
         Inl (ArtifactRegistryError (''Artifact registry is invalid JSON: '' @ registry_path E))
     | NotMapping \<Rightarrow> Inl (ArtifactRegistryError ''Invalid artifact registry: mapping'')
     | BadShape m \<Rightarrow> Inl (ArtifactRegistryError (''Invalid artifact registry: '' @ m))
     | Doc as \<Rightarrow> (case validate_artifacts as of
           Inl e \<Rightarrow> Inl (ArtifactRegistryError (''Invalid artifact registry: '' @ exn_message e))
         | Inr as' \<Rightarrow> Inr as'), w))"

definition build_graph :: "artifact list \<Rightarrow> artifact_graph" where
  "build_graph as = (let s = sort_key art_path as in
     \<lparr>ag_nodes = map (\<lambda>a. \<lparr>gn_id = art_id a, gn_path = art_path a, gn_stage_id = art_stage_id a,
        gn_status = art_status a\<rparr>) s,
      ag_edges = concat (map (\<lambda>a. map (\<lambda>d. \<lparr>ge_source = d, ge_target = art_path a\<rparr>)
        (filter (\<lambda>d. d \<in> art_path ` set as) (sort (art_dependencies a)))) s)\<rparr>)"

definition save_artifacts :: "env \<Rightarrow> artifact list \<Rightarrow> (world, unit) prog" where
  "save_artifacts E as =
     thenp (write_file E (registry_path E) (\<lambda>w. w\<lparr>w_artifacts := Doc as\<rparr>))
       (write_file E (graph_path E) (\<lambda>w. w\<lparr>w_graph := Some (build_graph as)\<rparr>))"

section \<open>Dependents\<close>

text \<open>
  \<open>_rebuild_dependents\<close>: the table \<open>by_path\<close> maps a path to the last artifact with it, so only that
  one collects its dependents.
\<close>

fun collect_dependents :: "artifact list \<Rightarrow> artifact list \<Rightarrow> artifact list" where
  "collect_dependents all [] = []"
| "collect_dependents all (a # as) = a\<lparr>art_dependents :=
     (if art_path a \<in> art_path ` set as then []
      else sort (add_new [] (map art_path
        (filter (\<lambda>b. art_path a \<in> set (art_dependencies b)) all))))\<rparr> # collect_dependents all as"

definition rebuild_dependents :: "artifact list \<Rightarrow> artifact list" where
  "rebuild_dependents as = collect_dependents as as"

section \<open>Registering\<close>

record snapshot =
  sn_status :: artifact_status
  sn_content_hash :: "string option"
  sn_modified_at :: "string option"
  sn_token_estimate :: nat

definition take_snapshot :: "env \<Rightarrow> file_system \<Rightarrow> string \<Rightarrow> snapshot" where
  "take_snapshot E fs path = (case fs path of
       None \<Rightarrow> \<lparr>sn_status = MissingArtifact, sn_content_hash = None, sn_modified_at = None,
         sn_token_estimate = 0\<rparr>
     | Some f \<Rightarrow> \<lparr>sn_status = Fresh, sn_content_hash = Some (sha256_hex E (fe_content f)),
         sn_modified_at = Some (format_mtime E (fe_mtime f)),
         sn_token_estimate = estimate_tokens (fe_content f)\<rparr>)"

definition set_snapshot :: "snapshot \<Rightarrow> artifact \<Rightarrow> artifact" where
  "set_snapshot sn a = a\<lparr>art_content_hash := sn_content_hash sn,
     art_modified_at := sn_modified_at sn, art_token_estimate := sn_token_estimate sn\<rparr>"

definition find_artifact :: "artifact list \<Rightarrow> string \<Rightarrow> artifact option" where
  "find_artifact as path = List.find (\<lambda>a. art_path a = path) as"

definition update_registered :: "string option \<Rightarrow> string list \<Rightarrow> string \<Rightarrow> json_obj \<Rightarrow> snapshot
    \<Rightarrow> string \<Rightarrow> artifact \<Rightarrow> artifact" where
  "update_registered stage_id deps kind metadata sn t a = set_snapshot sn (a\<lparr>
     art_stage_id := (case stage_id of Some (c # cs) \<Rightarrow> Some (c # cs) | _ \<Rightarrow> art_stage_id a),
     art_kind := kind,
     art_dependencies := (if deps = [] then art_dependencies a else deps),
     art_status := sn_status sn, art_updated_at := t,
     art_metadata := dict_merge (art_metadata a) metadata\<rparr>)"

definition register_artifact :: "env \<Rightarrow> string \<Rightarrow> string option \<Rightarrow> string list \<Rightarrow> string \<Rightarrow> json_obj
    \<Rightarrow> (world, artifact) prog" where
  "register_artifact E path stage_id deps kind metadata =
     bindp (load_artifacts E) (\<lambda>as. bindp (lift_result (normalize_path path)) (\<lambda>p.
     bindp (utc_now E) (\<lambda>t. bindp (asks w_fs) (\<lambda>fs. let sn = take_snapshot E fs p in
     bindp (case find_artifact as p of
         None \<Rightarrow> bindp (uuid4 E) (\<lambda>u. bindp (lift_result (validate_artifact
             \<lparr>art_id = ''artifact-'' @ u, art_path = p, art_stage_id = stage_id, art_kind = kind,
              art_status = sn_status sn, art_dependencies = deps, art_dependents = [],
              art_content_hash = sn_content_hash sn, art_modified_at = sn_modified_at sn,
              art_token_estimate = sn_token_estimate sn, art_registered_at = t,
              art_updated_at = t, art_metadata = metadata\<rparr>)) (\<lambda>a. ret (as @ [a])))
       | Some _ \<Rightarrow> ret (update_first (\<lambda>a. art_path a = p)
             (update_registered stage_id deps kind metadata sn t) as))
     (\<lambda>as1. let as2 = rebuild_dependents as1 in
       thenp (save_artifacts E as2) (ret (the (find_artifact as2 p))))))))"

definition default_dependencies :: "env \<Rightarrow> string \<Rightarrow> (world, string list) prog" where
  "default_dependencies E stage_id =
     (if stage_id = ''srs'' then ret []
      else bindp (asks w_stages_yaml) (\<lambda>there. if \<not> there then ret []
        else bindp (load_artifacts E) (\<lambda>as. ret (sort (map art_path
          (filter (\<lambda>a. art_stage_id a \<noteq> None \<and> art_stage_id a \<noteq> Some stage_id) as))))))"

definition register_stage_outputs :: "env \<Rightarrow> string \<Rightarrow> string list \<Rightarrow> (world, artifact list) prog" where
  "register_stage_outputs E stage_id outputs =
     mapp (\<lambda>p. bindp (default_dependencies E stage_id) (\<lambda>deps.
       register_artifact E p (Some stage_id) deps ''file''
         [(''registered_by'', JStr ''stage_agent'')])) (sorted_set outputs)"

section \<open>Refreshing\<close>

text \<open>
  The state of the recursion: the visited paths, the artifacts, the clock. \<open>mark\<close> goes through the
  artifacts in order; each that depends on the current path becomes stale and is descended into.
\<close>

type_synonym marking = "string list \<times> artifact list \<times> nat"

definition set_stale :: "string \<Rightarrow> artifact \<Rightarrow> artifact" where
  "set_stale t a = a\<lparr>art_status := Stale, art_updated_at := t\<rparr>"

primrec mark :: "nat \<Rightarrow> env \<Rightarrow> string \<Rightarrow> marking \<Rightarrow> marking" where
  "mark 0 = (\<lambda>E current m. m)"
| "mark (Suc n) = (\<lambda>E current (visited, as, clock).
     if current \<in> set visited then (visited, as, clock)
     else foldl (\<lambda>(visited, as, clock) i.
         if current \<in> set (art_dependencies (as ! i))
         then mark n E (art_path (as ! i))
           (visited, as[i := set_stale (now_at E clock) (as ! i)], Suc clock)
         else (visited, as, clock))
       (current # visited, as, clock) [0..<length as])"

text \<open>The path itself is fresh again afterwards, unless it is missing; of several artifacts with the
  path the last one is meant.\<close>

fun update_last :: "('a \<Rightarrow> bool) \<Rightarrow> ('a \<Rightarrow> 'a) \<Rightarrow> 'a list \<Rightarrow> 'a list" where
  "update_last p f [] = []"
| "update_last p f (x # xs) =
     (if p x \<and> \<not> list_ex p xs then f x # xs else x # update_last p f xs)"

definition restore_fresh :: "artifact \<Rightarrow> artifact" where
  "restore_fresh a = (if art_status a \<noteq> MissingArtifact then a\<lparr>art_status := Fresh\<rparr> else a)"

definition mark_downstream_stale :: "env \<Rightarrow> string \<Rightarrow> artifact list \<Rightarrow> nat \<Rightarrow> artifact list \<times> nat" where
  "mark_downstream_stale E path as clock =
     (let (visited, as', clock') = mark (Suc (Suc (length as))) E path ([], as, clock) in
      (update_last (\<lambda>a. art_path a = path) restore_fresh as', clock'))"

text \<open>\<open>before_hashes\<close>: the last artifact with a path gives its hash.\<close>

definition hash_before :: "artifact list \<Rightarrow> string \<Rightarrow> string option" where
  "hash_before as path = (case List.find (\<lambda>a. art_path a = path) (rev as) of
       None \<Rightarrow> None | Some a \<Rightarrow> art_content_hash a)"

definition refresh_one :: "env \<Rightarrow> file_system \<Rightarrow> (string \<Rightarrow> string option) \<Rightarrow> artifact list \<times> nat \<Rightarrow> nat
    \<Rightarrow> artifact list \<times> nat" where
  "refresh_one E fs before = (\<lambda>(as, clock) i.
     let a = as ! i; sn = take_snapshot E fs (art_path a);
         changed = (before (art_path a) \<noteq> sn_content_hash sn);
         status = (if sn_status sn = MissingArtifact then MissingArtifact
                   else if art_status a \<noteq> Stale then Fresh else Stale);
         as1 = as[i := (set_snapshot sn a)\<lparr>art_status := status, art_updated_at := now_at E clock\<rparr>]
     in if changed \<and> sn_status sn \<noteq> MissingArtifact
        then mark_downstream_stale E (art_path a) as1 (Suc clock)
        else (as1, Suc clock))"

definition refresh_all :: "env \<Rightarrow> file_system \<Rightarrow> artifact list \<Rightarrow> nat \<Rightarrow> artifact list \<times> nat" where
  "refresh_all E fs as clock =
     foldl (refresh_one E fs (hash_before as)) (as, clock) [0..<length as]"

definition refresh :: "env \<Rightarrow> (world, artifact list) prog" where
  "refresh E = bindp (load_artifacts E) (\<lambda>as. bindp (asks (\<lambda>w. refresh_all E (w_fs w) as (w_clock w)))
     (\<lambda>(as1, clock). thenp (updates (\<lambda>w. w\<lparr>w_clock := clock\<rparr>))
       (let as2 = rebuild_dependents as1 in thenp (save_artifacts E as2) (ret as2))))"

section \<open>Queries\<close>

definition list_artifacts :: "env \<Rightarrow> artifact_status option \<Rightarrow> string option \<Rightarrow> (world, artifact list) prog" where
  "list_artifacts E status stage_id = bindp (load_artifacts E) (\<lambda>as. ret (sort_key art_path
     (filter (\<lambda>a. stage_id = None \<or> art_stage_id a = stage_id)
       (filter (\<lambda>a. status = None \<or> Some (art_status a) = status) as))))"

definition stale_count :: "env \<Rightarrow> (world, nat) prog" where
  "stale_count E = bindp (load_artifacts E) (\<lambda>as. ret (length (filter (\<lambda>a. art_status a = Stale) as)))"

definition coerce_status :: "string \<Rightarrow> exn + artifact_status" where
  "coerce_status v = (if v = ''fresh'' then Inr Fresh else if v = ''stale'' then Inr Stale
     else if v = ''missing'' then Inr MissingArtifact
     else Inl (ArtifactRegistryError (''Unsupported artifact status `'' @ v @ ''`.'')))"

section \<open>What marking does\<close>

text \<open>\<open>feeds as p q\<close>: the artifact at \<open>q\<close> lists \<open>p\<close> among its dependencies.\<close>

definition feeds :: "artifact list \<Rightarrow> string \<Rightarrow> string \<Rightarrow> bool" where
  "feeds as p q \<longleftrightarrow> (\<exists>a\<in>set as. art_path a = q \<and> p \<in> set (art_dependencies a))"

definition downstream :: "artifact list \<Rightarrow> string \<Rightarrow> artifact \<Rightarrow> bool" where
  "downstream as p a \<longleftrightarrow> (\<exists>d\<in>set (art_dependencies a). (feeds as)\<^sup>*\<^sup>* p d)"

text \<open>Marking changes statuses and time stamps only.\<close>

definition core :: "artifact \<Rightarrow> artifact" where
  "core a = a\<lparr>art_status := Fresh, art_updated_at := []\<rparr>"

lemma core_set_stale [simp]: "core (set_stale t a) = core a"
  by (simp add: core_def set_stale_def)

lemma core_simps [simp]: "art_path (core a) = art_path a" "art_dependencies (core a) = art_dependencies a"
  by (simp_all add: core_def)

lemma core_fields:
  assumes "core a = core b"
  shows "art_path a = art_path b" "art_dependencies a = art_dependencies b"
    "art_content_hash a = art_content_hash b" "art_id a = art_id b"
  using assms by (cases a; cases b; simp add: core_def)+

lemma core_list:
  assumes "map core as = map core bs"
  shows "length as = length bs" "map art_path as = map art_path bs"
    "i < length as \<Longrightarrow> core (as ! i) = core (bs ! i)" "feeds as = feeds bs"
proof -
  show len: "length as = length bs" using assms by (metis length_map)
  show nth: "i < length as \<Longrightarrow> core (as ! i) = core (bs ! i)" for i
    using assms len by (metis nth_map)
  have "map art_path xs = map art_path (map core xs)" for xs
    by (simp add: comp_def)
  with assms show "map art_path as = map art_path bs" by metis
  have f: "feeds xs p q \<longleftrightarrow> (\<exists>x\<in>set (map core xs). art_path x = q \<and> p \<in> set (art_dependencies x))" for xs p q
    by (simp add: feeds_def)
  show "feeds as = feeds bs" by (intro ext) (simp only: f assms)
qed

definition extends :: "string \<Rightarrow> marking \<Rightarrow> marking \<Rightarrow> bool" where
  "extends r m m' \<longleftrightarrow> (case (m, m') of ((vis, as, c), (vis', as', c')) \<Rightarrow>
     map core as' = map core as \<and> set vis \<subseteq> set vis' \<and>
     (\<forall>v\<in>set vis' - set vis. (feeds as)\<^sup>*\<^sup>* r v) \<and>
     (\<forall>j<length as. art_status (as' ! j) = art_status (as ! j) \<or>
        (art_status (as' ! j) = Stale \<and> (\<exists>d\<in>set (art_dependencies (as ! j)). d \<in> set vis'))))"

definition closes :: "marking \<Rightarrow> marking \<Rightarrow> bool" where
  "closes m m' \<longleftrightarrow> (case (m, m') of ((vis, as, c), (vis', as', c')) \<Rightarrow>
     \<forall>v\<in>set vis' - set vis. \<forall>j<length as. v \<in> set (art_dependencies (as ! j)) \<longrightarrow>
       art_status (as' ! j) = Stale \<and> art_path (as ! j) \<in> set vis')"

lemma extends_refl: "extends r m m"
  by (cases m) (simp add: extends_def)

lemma extends_stale:
  "extends r (vis, as, c) (vis', as', c') \<Longrightarrow> j < length as \<Longrightarrow> art_status (as ! j) = Stale \<Longrightarrow>
   art_status (as' ! j) = Stale"
  by (auto simp: extends_def)

lemma extends_trans:
  assumes "extends r m1 m2" and "extends r m2 m3"
  shows "extends r m1 m3"
proof -
  obtain v1 a1 c1 v2 a2 c2 v3 a3 c3 where m: "m1 = (v1, a1, c1)" "m2 = (v2, a2, c2)" "m3 = (v3, a3, c3)"
    by (cases m1, cases m2, cases m3) auto
  from assms m have c: "map core a2 = map core a1" "map core a3 = map core a2"
    by (simp_all add: extends_def)
  note f = core_list(4) [OF c(1)]
  have d: "art_dependencies (a2 ! j) = art_dependencies (a1 ! j)" if "j < length a1" for j
    using core_list(1) [OF c(1)] core_list(3) [OF c(1), of j] that core_fields(2) by metis
  have l: "length a2 = length a1" using core_list(1) [OF c(1)] .
  from assms m f have sub: "set v1 \<subseteq> set v2" "set v2 \<subseteq> set v3"
    and r1: "\<forall>v\<in>set v2 - set v1. (feeds a1)\<^sup>*\<^sup>* r v" and r2: "\<forall>v\<in>set v3 - set v2. (feeds a1)\<^sup>*\<^sup>* r v"
    and s1: "\<forall>j<length a1. art_status (a2 ! j) = art_status (a1 ! j) \<or>
        (art_status (a2 ! j) = Stale \<and> (\<exists>d\<in>set (art_dependencies (a1 ! j)). d \<in> set v2))"
    and s2: "\<forall>j<length a2. art_status (a3 ! j) = art_status (a2 ! j) \<or>
        (art_status (a3 ! j) = Stale \<and> (\<exists>d\<in>set (art_dependencies (a2 ! j)). d \<in> set v3))"
    by (simp_all add: extends_def)
  have "art_status (a3 ! j) = art_status (a1 ! j) \<or>
      (art_status (a3 ! j) = Stale \<and> (\<exists>d\<in>set (art_dependencies (a1 ! j)). d \<in> set v3))"
    if "j < length a1" for j
    using s1 s2 that l d [OF that] sub(2) by (metis subsetD)
  then show ?thesis using m c sub r1 r2 by (auto simp: extends_def)
qed

lemma closes_trans:
  assumes "extends r m1 m2" and "extends r m2 m3" and "closes m1 m2" and "closes m2 m3"
  shows "closes m1 m3"
proof -
  obtain v1 a1 c1 v2 a2 c2 v3 a3 c3 where m: "m1 = (v1, a1, c1)" "m2 = (v2, a2, c2)" "m3 = (v3, a3, c3)"
    by (cases m1, cases m2, cases m3) auto
  from assms m have c: "map core a2 = map core a1" by (simp add: extends_def)
  have d: "art_dependencies (a2 ! j) = art_dependencies (a1 ! j)" "art_path (a2 ! j) = art_path (a1 ! j)"
    if "j < length a1" for j
    using core_list(1) [OF c] core_list(3) [OF c, of j] that core_fields(1,2) by metis+
  have l: "length a2 = length a1" using core_list(1) [OF c] .
  have sub: "set v2 \<subseteq> set v3" using assms(2) m by (simp add: extends_def)
  have "art_status (a3 ! j) = Stale \<and> art_path (a1 ! j) \<in> set v3"
    if v: "v \<in> set v3 - set v1" and j: "j < length a1" "v \<in> set (art_dependencies (a1 ! j))" for v j
  proof (cases "v \<in> set v2")
    case True
    with v have "v \<in> set v2 - set v1" by simp
    with assms(3) m j have "art_status (a2 ! j) = Stale \<and> art_path (a1 ! j) \<in> set v2"
      unfolding closes_def by simp
    with extends_stale [of r v2 a2 c2 v3 a3 c3 j] assms(2) m sub j l show ?thesis by auto
  next
    case False
    with v have "v \<in> set v3 - set v2" by simp
    moreover have "j < length a2" "v \<in> set (art_dependencies (a2 ! j))" using j l d [OF j(1)] by simp_all
    ultimately have "art_status (a3 ! j) = Stale \<and> art_path (a2 ! j) \<in> set v3"
      using assms(4) m unfolding closes_def by simp
    with d [OF j(1)] show ?thesis by simp
  qed
  with m show ?thesis by (simp add: closes_def)
qed

text \<open>One step of the loop of \<open>mark\<close>, with the recursive call as a parameter.\<close>

definition mark_step :: "(string \<Rightarrow> marking \<Rightarrow> marking) \<Rightarrow> env \<Rightarrow> string \<Rightarrow> marking \<Rightarrow> nat \<Rightarrow> marking" where
  "mark_step rec E cur = (\<lambda>(visited, as, clock) i.
     if cur \<in> set (art_dependencies (as ! i))
     then rec (art_path (as ! i)) (visited, as[i := set_stale (now_at E clock) (as ! i)], Suc clock)
     else (visited, as, clock))"

lemma mark_Suc:
  "mark (Suc n) E cur (vis, as, c) = (if cur \<in> set vis then (vis, as, c)
     else foldl (mark_step (mark n E) E cur) (cur # vis, as, c) [0..<length as])"
  by (simp add: mark_step_def split_beta)

lemma mark_one_extends:
  assumes "cur \<in> set vis" and "i < length as" and "cur \<in> set (art_dependencies (as ! i))"
  shows "extends r (vis, as, c) (vis, as[i := set_stale t (as ! i)], c')"
  using assms by (auto simp: extends_def nth_list_update map_update list_update_same_conv set_stale_def core_def
      intro!: nth_equalityI)

lemma extends_weaken:
  assumes "feeds as r q" and "extends q (vis, as, c) m'"
  shows "extends r (vis, as, c) m'"
  using assms by (auto simp: extends_def split: prod.splits intro: converse_rtranclp_into_rtranclp)

lemma extends_visited:
  "extends r (vis, as, c) (vis', as', c') \<Longrightarrow> set vis \<subseteq> set vis' \<and> length as' = length as \<and>
     map core as' = map core as"
  by (auto simp: extends_def dest: core_list(1))

lemma mark_step_extends:
  assumes rec: "\<And>p m. extends p m (rec p m)" and "cur \<in> set vis" and "i < length as"
  shows "extends cur (vis, as, c) (mark_step rec E cur (vis, as, c) i)"
proof (cases "cur \<in> set (art_dependencies (as ! i))")
  case True
  let ?as = "as[i := set_stale (now_at E c) (as ! i)]"
  have one: "extends cur (vis, as, c) (vis, ?as, Suc c)"
    using assms True by (intro mark_one_extends)
  have "feeds as cur (art_path (as ! i))"
    using assms(3) True by (auto simp: feeds_def)
  moreover have "feeds ?as = feeds as"
    using extends_visited [OF one] core_list(4) by blast
  ultimately have "extends cur (vis, ?as, Suc c) (rec (art_path (as ! i)) (vis, ?as, Suc c))"
    by (intro extends_weaken [OF _ rec]) simp
  with one True show ?thesis by (auto simp: mark_step_def intro: extends_trans)
qed (simp add: mark_step_def extends_refl)

lemma mark_fold_extends:
  assumes rec: "\<And>p m. extends p m (rec p m)"
  shows "cur \<in> set vis \<Longrightarrow> \<forall>i\<in>set is. i < length as \<Longrightarrow>
    extends cur (vis, as, c) (foldl (mark_step rec E cur) (vis, as, c) is)"
proof (induction "is" arbitrary: vis as c)
  case (Cons i "is")
  obtain v1 a1 c1 where m1: "mark_step rec E cur (vis, as, c) i = (v1, a1, c1)"
    by (cases "mark_step rec E cur (vis, as, c) i") auto
  have e: "extends cur (vis, as, c) (v1, a1, c1)"
    using mark_step_extends [OF rec Cons.prems(1), of i as c E] Cons.prems(2) m1 by simp
  then have "cur \<in> set v1" "\<forall>i\<in>set is. i < length a1"
    using extends_visited [OF e] Cons.prems by auto
  from Cons.IH [OF this, of c1] e m1 show ?case by (auto intro: extends_trans)
qed (simp add: extends_refl)

lemma mark_extends: "extends cur m (mark n E cur m)"
proof (induction n arbitrary: cur m)
  case 0
  show ?case by (simp add: extends_refl)
next
  case (Suc n)
  obtain vis as c where m: "m = (vis, as, c)" by (cases m)
  show ?case
  proof (cases "cur \<in> set vis")
    case True
    with m show ?thesis by (simp only: mark_Suc) (simp add: extends_refl)
  next
    case False
    have "extends cur (vis, as, c) (cur # vis, as, c)" by (auto simp: extends_def)
    moreover have "extends cur (cur # vis, as, c)
        (foldl (mark_step (mark n E) E cur) (cur # vis, as, c) [0..<length as])"
      by (rule mark_fold_extends [OF Suc.IH]) auto
    ultimately show ?thesis using False m by (simp only: mark_Suc) (auto intro: extends_trans)
  qed
qed

text \<open>
  With enough fuel (more than the number of paths not yet visited) nothing is left out: the
  current path is visited, and every artifact fed by a newly visited path is stale and visited.
\<close>

definition all_paths :: "artifact list \<Rightarrow> string set" where
  "all_paths as = art_path ` set as"

definition room :: "nat \<Rightarrow> string \<Rightarrow> marking \<Rightarrow> bool" where
  "room n cur m \<longleftrightarrow> (case m of (vis, as, c) \<Rightarrow> card (insert cur (all_paths as) - set vis) < n)"

definition complete_for :: "string \<Rightarrow> marking \<Rightarrow> marking \<Rightarrow> bool" where
  "complete_for cur m m' \<longleftrightarrow> closes m m' \<and> cur \<in> set (fst m')"

lemma all_paths_core: "map core as = map core bs \<Longrightarrow> all_paths as = all_paths bs"
  unfolding all_paths_def using core_list(2) by (metis list.set_map)

lemma finite_all_paths [simp]: "finite (all_paths as)"
  by (simp add: all_paths_def)

lemma mark_fold_closes:
  assumes ext: "\<And>p m. extends p m (rec p m)"
    and rec: "\<And>p vis as c. cur \<in> set vis \<Longrightarrow> p \<in> all_paths as \<Longrightarrow> card (all_paths as - set vis) \<le> k \<Longrightarrow>
      complete_for p (vis, as, c) (rec p (vis, as, c))"
  shows "cur \<in> set vis \<Longrightarrow> \<forall>i\<in>set is. i < length as \<Longrightarrow> card (all_paths as - set vis) \<le> k \<Longrightarrow>
    foldl (mark_step rec E cur) (vis, as, c) is = (vis', as', c') \<Longrightarrow>
    closes (vis, as, c) (vis', as', c') \<and>
    (\<forall>i\<in>set is. cur \<in> set (art_dependencies (as ! i)) \<longrightarrow>
       art_status (as' ! i) = Stale \<and> art_path (as ! i) \<in> set vis')"
proof (induction "is" arbitrary: vis as c)
  case Nil
  then show ?case by (simp add: closes_def)
next
  case (Cons i "is")
  obtain v1 a1 c1 where m1: "mark_step rec E cur (vis, as, c) i = (v1, a1, c1)"
    by (cases "mark_step rec E cur (vis, as, c) i") auto
  have i: "i < length as" using Cons.prems(2) by simp
  have e1: "extends cur (vis, as, c) (v1, a1, c1)"
    using mark_step_extends [OF ext Cons.prems(1) i, of c E] m1 by simp
  note v1 = extends_visited [OF e1]
  have ap: "all_paths a1 = all_paths as" using v1 all_paths_core by blast
  have cv1: "cur \<in> set v1" and l1: "\<forall>i\<in>set is. i < length a1" using v1 Cons.prems by auto
  have "all_paths a1 - set v1 \<subseteq> all_paths as - set vis" using ap v1 by auto
  then have k1: "card (all_paths a1 - set v1) \<le> k"
    using Cons.prems(3) card_mono [of "all_paths as - set vis" "all_paths a1 - set v1"] by simp
  have rest: "foldl (mark_step rec E cur) (v1, a1, c1) is = (vis', as', c')"
    using Cons.prems(4) m1 by simp
  have e2: "extends cur (v1, a1, c1) (vis', as', c')"
    using mark_fold_extends [OF ext cv1 l1, of c1 E] rest by simp
  from Cons.IH [OF cv1 l1 k1 rest] have ih: "closes (v1, a1, c1) (vis', as', c')"
    "\<forall>i\<in>set is. cur \<in> set (art_dependencies (a1 ! i)) \<longrightarrow>
       art_status (as' ! i) = Stale \<and> art_path (a1 ! i) \<in> set vis'" by blast+
  have same: "art_dependencies (a1 ! j) = art_dependencies (as ! j)" "art_path (a1 ! j) = art_path (as ! j)"
    if "j < length as" for j
    using core_list(3) [of a1 as j] v1 that core_fields(1,2) by metis+
  have step: "closes (vis, as, c) (v1, a1, c1) \<and> (cur \<in> set (art_dependencies (as ! i)) \<longrightarrow>
      art_status (a1 ! i) = Stale \<and> art_path (as ! i) \<in> set v1)"
  proof (cases "cur \<in> set (art_dependencies (as ! i))")
    case True
    let ?as = "as[i := set_stale (now_at E c) (as ! i)]"
    have one: "extends cur (vis, as, c) (vis, ?as, Suc c)"
      using Cons.prems(1) i True by (intro mark_one_extends)
    have pa: "all_paths ?as = all_paths as" using extends_visited [OF one] all_paths_core by blast
    have m1': "rec (art_path (as ! i)) (vis, ?as, Suc c) = (v1, a1, c1)"
      using m1 True by (simp add: mark_step_def)
    have "complete_for (art_path (as ! i)) (vis, ?as, Suc c) (v1, a1, c1)"
      unfolding m1' [symmetric] using Cons.prems(1,3) i pa
      by (intro rec) (auto simp: all_paths_def)
    then have c2: "closes (vis, ?as, Suc c) (v1, a1, c1)" "art_path (as ! i) \<in> set v1"
      by (simp_all add: complete_for_def)
    have e3: "extends (art_path (as ! i)) (vis, ?as, Suc c) (v1, a1, c1)" using ext m1' by metis
    have "art_status (a1 ! i) = Stale"
      using extends_stale [OF e3, of i] i by (simp add: set_stale_def)
    moreover have "closes (vis, as, c) (vis, ?as, Suc c)" by (simp add: closes_def)
    moreover have "feeds as cur (art_path (as ! i))" using i True by (auto simp: feeds_def)
    then have "extends cur (vis, ?as, Suc c) (v1, a1, c1)"
      using e3 extends_visited [OF one] core_list(4) by (intro extends_weaken [OF _ e3]) metis
    ultimately show ?thesis using closes_trans [OF one] c2 by blast
  next
    case False
    with m1 show ?thesis by (simp add: mark_step_def closes_def)
  qed
  have "art_status (as' ! j) = Stale \<and> art_path (as ! j) \<in> set vis'"
    if j: "j \<in> set (i # is)" "cur \<in> set (art_dependencies (as ! j))" for j
  proof (cases "j = i")
    case True
    with step j have "art_status (a1 ! i) = Stale" "art_path (as ! i) \<in> set v1" by auto
    with True extends_stale [OF e2, of i] extends_visited [OF e2] v1 i show ?thesis by auto
  next
    case False
    with j Cons.prems(2) have "j \<in> set is" "j < length as" by auto
    with ih(2) same [of j] j show ?thesis by metis
  qed
  with closes_trans [OF e1 e2] step ih(1) show ?case by blast
qed

lemma mark_complete:
  "room n cur m \<Longrightarrow> complete_for cur m (mark n E cur m)"
proof (induction n arbitrary: cur m)
  case 0
  then show ?case by (simp add: room_def split: prod.splits)
next
  case (Suc n)
  obtain vis as c where m: "m = (vis, as, c)" by (cases m)
  show ?case
  proof (cases "cur \<in> set vis")
    case True
    with m show ?thesis by (simp only: mark_Suc) (simp add: complete_for_def closes_def)
  next
    case False
    obtain vis' as' c' where r: "foldl (mark_step (mark n E) E cur) (cur # vis, as, c) [0..<length as] =
        (vis', as', c')"
      by (cases "foldl (mark_step (mark n E) E cur) (cur # vis, as, c) [0..<length as]") auto
    have "card (insert cur (all_paths as) - set vis) < Suc n"
      using Suc.prems m by (simp add: room_def)
    moreover have "insert cur (all_paths as) - set vis = insert cur (all_paths as - set (cur # vis))"
      using False by auto
    ultimately have k: "card (all_paths as - set (cur # vis)) < n"
      by (simp add: card_insert_if)
    have rec: "complete_for p (v, a, d) (mark n E p (v, a, d))"
      if "cur \<in> set v" "p \<in> all_paths a" "card (all_paths a - set v) \<le> card (all_paths as - set (cur # vis))" for p v a d
    proof (rule Suc.IH)
      have "insert p (all_paths a) - set v = all_paths a - set v" using that(2) by auto
      with that(3) k show "room n p (v, a, d)" by (simp add: room_def)
    qed
    have ext: "extends cur (vis, as, c) (cur # vis, as, c)" by (auto simp: extends_def)
    have e2: "extends cur (cur # vis, as, c) (vis', as', c')"
      using mark_fold_extends [of "mark n E" cur "cur # vis" "[0..<length as]" as c E] mark_extends r by simp
    have cl: "closes (cur # vis, as, c) (vis', as', c')"
      "\<forall>i<length as. cur \<in> set (art_dependencies (as ! i)) \<longrightarrow>
         art_status (as' ! i) = Stale \<and> art_path (as ! i) \<in> set vis'"
      using mark_fold_closes [of "mark n E" cur "card (all_paths as - set (cur # vis))", OF mark_extends rec _ _ le_refl r]
      by auto
    have "cur \<in> set vis'" using extends_visited [OF e2] by auto
    moreover have "closes (vis, as, c) (vis', as', c')"
      using cl unfolding closes_def by (auto 0 3)
    ultimately show ?thesis using False m r by (simp only: mark_Suc) (simp add: complete_for_def)
  qed
qed

text \<open>What \<open>mark\<close> does from an empty visited set: exactly the artifacts downstream become stale.\<close>

lemma mark_downstream:
  assumes "mark (Suc (Suc (length as))) E path ([], as, c) = (vis', as', c')"
  shows "map core as' = map core as" and "j < length as \<Longrightarrow> art_status (as' ! j) =
    (if downstream as path (as ! j) then Stale else art_status (as ! j))"
proof -
  have e: "extends path ([], as, c) (vis', as', c')" using mark_extends assms by metis
  then show core: "map core as' = map core as" by (simp add: extends_def)
  have "card (all_paths as) \<le> length as"
    unfolding all_paths_def by (rule order_trans [OF card_image_le card_length]) simp
  then have "room (Suc (Suc (length as))) path ([], as, c)"
    by (simp add: room_def card_insert_if)
  from mark_complete [OF this, of E] assms have cl: "closes ([], as, c) (vis', as', c')" "path \<in> set vis'"
    by (simp_all add: complete_for_def)
  have sound: "(feeds as)\<^sup>*\<^sup>* path v" if "v \<in> set vis'" for v
    using e that by (simp add: extends_def)
  have compl: "v \<in> set vis'" if "(feeds as)\<^sup>*\<^sup>* path v" for v
    using that
  proof (induction rule: rtranclp_induct)
    case (step v q)
    then obtain j where "j < length as" "art_path (as ! j) = q" "v \<in> set (art_dependencies (as ! j))"
      unfolding feeds_def by (metis in_set_conv_nth)
    with step.IH cl(1) show ?case by (auto simp: closes_def)
  qed (rule cl(2))
  assume j: "j < length as"
  show "art_status (as' ! j) = (if downstream as path (as ! j) then Stale else art_status (as ! j))"
  proof (cases "downstream as path (as ! j)")
    case True
    then obtain d where "d \<in> set (art_dependencies (as ! j))" "d \<in> set vis'"
      unfolding downstream_def using compl by blast
    with cl(1) j True show ?thesis by (auto simp: closes_def)
  next
    case False
    with sound have "\<not> (\<exists>d\<in>set (art_dependencies (as ! j)). d \<in> set vis')"
      unfolding downstream_def by blast
    with e j False show ?thesis by (auto simp: extends_def)
  qed
qed

lemma length_update_last [simp]: "length (update_last p f xs) = length xs"
  by (induction xs) auto

lemma update_last_nth:
  "j < length xs \<Longrightarrow> update_last p f xs ! j = xs ! j \<or> (p (xs ! j) \<and> update_last p f xs ! j = f (xs ! j))"
  by (induction xs arbitrary: j) (auto simp: nth_Cons split: nat.splits)

lemma map_update_last: "(\<And>x. g (f x) = g x) \<Longrightarrow> map g (update_last p f xs) = map g xs"
  by (induction xs) auto

lemma core_restore [simp]: "core (restore_fresh a) = core a"
  by (simp add: core_def restore_fresh_def)

text \<open>The whole of \<open>_mark_downstream_stale\<close>, for the artifacts at other paths.\<close>

lemma mark_downstream_stale_effect:
  assumes "mark_downstream_stale E path as c = (as', c')"
  shows "map core as' = map core as" and "j < length as \<Longrightarrow> art_path (as ! j) \<noteq> path \<Longrightarrow>
    art_status (as' ! j) = (if downstream as path (as ! j) then Stale else art_status (as ! j))"
proof -
  obtain vis1 as1 c1 where m: "mark (Suc (Suc (length as))) E path ([], as, c) = (vis1, as1, c1)"
    by (cases "mark (Suc (Suc (length as))) E path ([], as, c)") auto
  with assms have as': "as' = update_last (\<lambda>a. art_path a = path) restore_fresh as1"
    by (simp add: mark_downstream_stale_def del: mark.simps)
  note core1 = mark_downstream(1) [OF m]
  then show "map core as' = map core as" by (simp add: as' map_update_last)
  assume j: "j < length as" "art_path (as ! j) \<noteq> path"
  have l1: "j < length as1" "art_path (as1 ! j) = art_path (as ! j)"
    using core_list(1) [OF core1] core_list(3) [OF core1, of j] j core_fields(1) by metis+
  then have "as' ! j = as1 ! j"
    using j(2) update_last_nth [OF l1(1), of "\<lambda>a. art_path a = path" restore_fresh] by (simp add: as')
  with mark_downstream(2) [OF m j(1)] show "art_status (as' ! j) =
      (if downstream as path (as ! j) then Stale else art_status (as ! j))" by simp
qed

section \<open>What refreshing does\<close>

definition skel :: "artifact \<Rightarrow> string \<times> string list" where
  "skel a = (art_path a, art_dependencies a)"

lemma core_skel: "map core as = map core bs \<Longrightarrow> map skel as = map skel bs"
proof -
  have "map skel xs = map skel (map core xs)" for xs by (simp add: skel_def comp_def)
  then show "map core as = map core bs \<Longrightarrow> map skel as = map skel bs" by metis
qed

lemma skel_list:
  assumes "map skel as = map skel bs"
  shows "length as = length bs" "j < length as \<Longrightarrow> art_path (as ! j) = art_path (bs ! j)"
    "j < length as \<Longrightarrow> art_dependencies (as ! j) = art_dependencies (bs ! j)" "feeds as = feeds bs"
proof -
  show len: "length as = length bs" using assms by (metis length_map)
  have "j < length as \<Longrightarrow> skel (as ! j) = skel (bs ! j)" for j
    using assms len by (metis nth_map)
  then show "j < length as \<Longrightarrow> art_path (as ! j) = art_path (bs ! j)"
    "j < length as \<Longrightarrow> art_dependencies (as ! j) = art_dependencies (bs ! j)"
    by (auto simp: skel_def)
  have f: "feeds xs p q \<longleftrightarrow> (\<exists>x\<in>set (map skel xs). fst x = q \<and> p \<in> set (snd x))" for xs p q
    by (simp add: feeds_def skel_def)
  show "feeds as = feeds bs" by (intro ext) (simp only: f assms)
qed

text \<open>A path whose file exists and is not what was hashed at the last refresh.\<close>

definition changed_file :: "env \<Rightarrow> file_system \<Rightarrow> artifact list \<Rightarrow> string \<Rightarrow> bool" where
  "changed_file E fs as p \<longleftrightarrow> (\<exists>f. fs p = Some f \<and> hash_before as p \<noteq> Some (sha256_hex E (fe_content f)))"

definition kept_file :: "env \<Rightarrow> file_system \<Rightarrow> artifact list \<Rightarrow> string \<Rightarrow> bool" where
  "kept_file E fs as p \<longleftrightarrow> (\<exists>f. fs p = Some f \<and> hash_before as p = Some (sha256_hex E (fe_content f)))"

definition refreshed :: "env \<Rightarrow> file_system \<Rightarrow> artifact list \<Rightarrow> nat \<Rightarrow> artifact list \<Rightarrow> bool" where
  "refreshed E fs as k bs \<longleftrightarrow> map skel bs = map skel as \<and>
     (\<forall>j<k. art_content_hash (bs ! j) = sn_content_hash (take_snapshot E fs (art_path (as ! j)))) \<and>
     (\<forall>j<length as. kept_file E fs as (art_path (as ! j)) \<longrightarrow>
        (art_status (bs ! j) = Stale \<longleftrightarrow> art_status (as ! j) = Stale \<or>
          (\<exists>i<k. changed_file E fs as (art_path (as ! i)) \<and> downstream as (art_path (as ! i)) (as ! j))) \<and>
        (j < k \<longrightarrow> art_status (bs ! j) \<noteq> MissingArtifact))"

lemma refresh_one_refreshed:
  assumes r: "refreshed E fs as k bs" and k: "k < length as"
    and step: "refresh_one E fs (hash_before as) (bs, c) k = (cs, c')"
  shows "refreshed E fs as (Suc k) cs"
proof -
  let ?p = "art_path (as ! k)"
  let ?sn = "take_snapshot E fs ?p"
  from r have sk: "map skel bs = map skel as" by (simp add: refreshed_def)
  note sl = skel_list [OF sk]
  have kb: "k < length bs" and pk: "art_path (bs ! k) = ?p" using k sl by auto
  define st where "st = (if sn_status ?sn = MissingArtifact then MissingArtifact
      else if art_status (bs ! k) \<noteq> Stale then Fresh else Stale)"
  define ds where "ds = bs[k := (set_snapshot ?sn (bs ! k))\<lparr>art_status := st, art_updated_at := now_at E c\<rparr>]"
  have skd: "map skel ds = map skel as"
    unfolding sk [symmetric] ds_def using kb
    by (intro nth_equalityI) (auto simp: nth_list_update skel_def set_snapshot_def)
  note sld = skel_list [OF skd]
  have ch: "changed_file E fs as ?p \<longleftrightarrow> hash_before as ?p \<noteq> sn_content_hash ?sn \<and> sn_status ?sn \<noteq> MissingArtifact"
    by (auto simp: changed_file_def take_snapshot_def split: option.splits)
  have kept: "kept_file E fs as ?p \<Longrightarrow> sn_status ?sn = Fresh"
    by (auto simp: kept_file_def take_snapshot_def)
  have dsj: "art_content_hash (ds ! j) = (if j = k then sn_content_hash ?sn else art_content_hash (bs ! j))"
    "art_status (ds ! j) = (if j = k then st else art_status (bs ! j))" if "j < length as" for j
    using that kb by (auto simp: ds_def nth_list_update set_snapshot_def)
  show ?thesis
  proof (cases "changed_file E fs as ?p")
    case False
    with step have cs: "cs = ds"
      using ch pk by (auto simp: refresh_one_def Let_def ds_def st_def)
    have "art_status (cs ! j) = Stale \<longleftrightarrow> art_status (as ! j) = Stale \<or>
        (\<exists>i<Suc k. changed_file E fs as (art_path (as ! i)) \<and> downstream as (art_path (as ! i)) (as ! j))"
      "j < Suc k \<Longrightarrow> art_status (cs ! j) \<noteq> MissingArtifact"
      if j: "j < length as" "kept_file E fs as (art_path (as ! j))" for j
    proof -
      have "(\<exists>i<Suc k. changed_file E fs as (art_path (as ! i)) \<and> downstream as (art_path (as ! i)) (as ! j)) \<longleftrightarrow>
          (\<exists>i<k. changed_file E fs as (art_path (as ! i)) \<and> downstream as (art_path (as ! i)) (as ! j))"
        using False by (auto simp: less_Suc_eq)
      moreover have "art_status (bs ! j) = Stale \<longleftrightarrow> art_status (as ! j) = Stale \<or>
          (\<exists>i<k. changed_file E fs as (art_path (as ! i)) \<and> downstream as (art_path (as ! i)) (as ! j))"
        "j < k \<Longrightarrow> art_status (bs ! j) \<noteq> MissingArtifact"
        using r j by (simp_all add: refreshed_def)
      ultimately show "art_status (cs ! j) = Stale \<longleftrightarrow> art_status (as ! j) = Stale \<or>
        (\<exists>i<Suc k. changed_file E fs as (art_path (as ! i)) \<and> downstream as (art_path (as ! i)) (as ! j))"
        "j < Suc k \<Longrightarrow> art_status (cs ! j) \<noteq> MissingArtifact"
        using cs dsj [OF j(1)] kept j(2) by (auto simp: st_def less_Suc_eq)
    qed
    moreover have "art_content_hash (cs ! j) = sn_content_hash (take_snapshot E fs (art_path (as ! j)))"
      if "j < Suc k" for j
      using that r k cs dsj [of j] by (auto simp: refreshed_def less_Suc_eq)
    ultimately show ?thesis using cs skd by (simp add: refreshed_def)
  next
    case True
    with step ch pk have m: "mark_downstream_stale E ?p ds (Suc c) = (cs, c')"
      by (auto simp: refresh_one_def Let_def ds_def st_def)
    note eff = mark_downstream_stale_effect [OF m]
    have skc: "map skel cs = map skel as" using core_skel [OF eff(1)] skd by simp
    have dn: "downstream ds q (ds ! j) \<longleftrightarrow> downstream as q (as ! j)" if "j < length as" for q j
      using sld that unfolding downstream_def by simp
    have hash: "art_content_hash (cs ! j) = art_content_hash (ds ! j)" if "j < length as" for j
      using core_list(3) [OF eff(1), of j] core_list(1) [OF eff(1)] sld(1) that core_fields(3) by metis
    have "art_status (cs ! j) = Stale \<longleftrightarrow> art_status (as ! j) = Stale \<or>
        (\<exists>i<Suc k. changed_file E fs as (art_path (as ! i)) \<and> downstream as (art_path (as ! i)) (as ! j))"
      "j < Suc k \<Longrightarrow> art_status (cs ! j) \<noteq> MissingArtifact"
      if j: "j < length as" "kept_file E fs as (art_path (as ! j))" for j
    proof -
      have ne: "art_path (as ! j) \<noteq> ?p"
        using True j(2) by (auto simp: changed_file_def kept_file_def)
      then have jk: "j \<noteq> k" by auto
      have st_c: "art_status (cs ! j) = (if downstream as ?p (as ! j) then Stale else art_status (bs ! j))"
        using eff(2) [of j] j(1) sld ne dn [OF j(1)] dsj(2) [OF j(1)] jk by simp
      have old: "art_status (bs ! j) = Stale \<longleftrightarrow> art_status (as ! j) = Stale \<or>
          (\<exists>i<k. changed_file E fs as (art_path (as ! i)) \<and> downstream as (art_path (as ! i)) (as ! j))"
        "j < k \<Longrightarrow> art_status (bs ! j) \<noteq> MissingArtifact"
        using r j by (simp_all add: refreshed_def)
      show "art_status (cs ! j) = Stale \<longleftrightarrow> art_status (as ! j) = Stale \<or>
        (\<exists>i<Suc k. changed_file E fs as (art_path (as ! i)) \<and> downstream as (art_path (as ! i)) (as ! j))"
        using st_c old(1) True by (auto simp: less_Suc_eq)
      show "j < Suc k \<Longrightarrow> art_status (cs ! j) \<noteq> MissingArtifact"
        using st_c old(2) jk by (auto simp: less_Suc_eq)
    qed
    moreover have "art_content_hash (cs ! j) = sn_content_hash (take_snapshot E fs (art_path (as ! j)))"
      if "j < Suc k" for j
      using that r k hash [of j] dsj [of j] by (auto simp: refreshed_def less_Suc_eq)
    ultimately show ?thesis using skc by (simp add: refreshed_def)
  qed
qed

lemma refresh_all_refreshed:
  "refresh_all E fs as c = (bs, c') \<Longrightarrow> refreshed E fs as (length as) bs"
proof -
  have "k \<le> length as \<Longrightarrow> refreshed E fs as k (fst (foldl (refresh_one E fs (hash_before as)) (as, c) [0..<k]))" for k
  proof (induction k)
    case 0
    then show ?case by (simp add: refreshed_def)
  next
    case (Suc k)
    obtain bs c1 where b: "foldl (refresh_one E fs (hash_before as)) (as, c) [0..<k] = (bs, c1)"
      by (cases "foldl (refresh_one E fs (hash_before as)) (as, c) [0..<k]")
    obtain cs c2 where s: "refresh_one E fs (hash_before as) (bs, c1) k = (cs, c2)"
      by (cases "refresh_one E fs (hash_before as) (bs, c1) k")
    from Suc b have "refreshed E fs as k bs" by simp
    from refresh_one_refreshed [OF this _ s] Suc.prems b s show ?case by simp
  qed
  from this [of "length as"] show "refresh_all E fs as c = (bs, c') \<Longrightarrow> refreshed E fs as (length as) bs"
    by (simp add: refresh_all_def)
qed

lemma collect_nth:
  "length (collect_dependents all as) = length as"
  "j < length as \<Longrightarrow> \<exists>ds. collect_dependents all as ! j = (as ! j)\<lparr>art_dependents := ds\<rparr>"
  by (induction as arbitrary: j) (auto simp: nth_Cons split: nat.splits)

lemma rebuild_nth:
  assumes "j < length as"
  shows "art_path (rebuild_dependents as ! j) = art_path (as ! j)"
    "art_dependencies (rebuild_dependents as ! j) = art_dependencies (as ! j)"
    "art_status (rebuild_dependents as ! j) = art_status (as ! j)"
    "art_content_hash (rebuild_dependents as ! j) = art_content_hash (as ! j)"
  using collect_nth(2) [OF assms, of as] by (auto simp: rebuild_dependents_def)

lemma length_rebuild [simp]: "length (rebuild_dependents as) = length as"
  by (simp add: rebuild_dependents_def collect_nth(1))

lemma find_collect:
  "List.find (\<lambda>a. art_path a = p) xs = Some x \<Longrightarrow>
   \<exists>ds. List.find (\<lambda>a. art_path a = p) (collect_dependents all xs) = Some (x\<lparr>art_dependents := ds\<rparr>)"
  by (induction all xs rule: collect_dependents.induct) (auto split: if_splits)

lemma isspace_unify [simp]:
  "py_isspace (if c = backslash then CHR ''/'' else c) = py_isspace c"
  by (auto simp: backslash_def py_isspace_def ord_def)

lemma unify_idem [simp]: "unify_slashes (unify_slashes s) = unify_slashes s"
proof -
  have "strip (replace_char backslash CHR ''/'' t) = replace_char backslash CHR ''/'' (strip t)" for t
  proof -
    have "dropWhile py_isspace (replace_char backslash CHR ''/'' u) =
        replace_char backslash CHR ''/'' (dropWhile py_isspace u)" for u
      by (induction u) (auto simp: replace_char_def)
    then show ?thesis by (simp add: strip_def) (simp add: replace_char_def rev_map)
  qed
  moreover have "backslash \<noteq> CHR ''/''" by code_simp
  ultimately show ?thesis by (simp add: unify_slashes_def)
qed

lemma save_artifacts_run:
  assumes "save_artifacts E as w = (Inr (), w')"
  shows "w_artifacts w' = Doc as \<and> w_graph w' = Some (build_graph as)"
  using assms by (auto simp: save_artifacts_def prog_simps split: if_splits)

lemma load_artifacts_pure: "load_artifacts E w = (r, w') \<Longrightarrow> w' = w"
  by (simp add: load_artifacts_def)

text \<open>What registering a path leaves in the registry.\<close>

lemma register_artifact_result:
  assumes "register_artifact E path sid deps kind md w = (Inr a, w')"
  shows "art_path a = replace_char backslash CHR ''/'' (strip path) \<and> art_path a \<noteq> [] \<and>
    \<not> starts_with ''/'' (art_path a) \<and> ''..'' \<notin> set (split_on CHR ''/'' (art_path a)) \<and>
    (\<exists>as. w_artifacts w' = Doc as \<and> a \<in> set as) \<and>
    art_status a = (if w_fs w (art_path a) = None then MissingArtifact else Fresh) \<and>
    art_content_hash a = map_option (\<lambda>f. sha256_hex E (fe_content f)) (w_fs w (art_path a)) \<and>
    (sid \<noteq> None \<and> sid \<noteq> Some [] \<longrightarrow> art_stage_id a = sid)"
proof -
  let ?p = "unify_slashes path"
  from assms obtain as where load: "load_artifacts E w = (Inr as, w)"
    by (auto simp: register_artifact_def bindp_run load_artifacts_def split: prod.splits sum.splits)
  have good: "\<not> bad_path ?p"
    using assms load by (auto simp: register_artifact_def bindp_run lift_result_run normalize_path_def Let_def
        split: if_splits)
  let ?w = "w\<lparr>w_clock := Suc (w_clock w)\<rparr>"
  let ?sn = "take_snapshot E (w_fs w) ?p"
  obtain as1 b w1 where as1: "List.find (\<lambda>a. art_path a = ?p) as1 = Some b" "art_status b = sn_status ?sn"
      "art_content_hash b = sn_content_hash ?sn" "sid \<noteq> None \<and> sid \<noteq> Some [] \<longrightarrow> art_stage_id b = sid"
    and save: "save_artifacts E (rebuild_dependents as1) w1 = (Inr (), w')"
    and a: "a = the (find_artifact (rebuild_dependents as1) ?p)"
  proof (cases "find_artifact as ?p")
    case None
    then obtain a0 where a0: "validate_artifact
        \<lparr>art_id = ''artifact-'' @ uuid_at E (w_uuids w), art_path = ?p, art_stage_id = sid, art_kind = kind,
              art_status = sn_status ?sn, art_dependencies = deps, art_dependents = [],
              art_content_hash = sn_content_hash ?sn, art_modified_at = sn_modified_at ?sn,
              art_token_estimate = sn_token_estimate ?sn, art_registered_at = now_at E (w_clock w),
              art_updated_at = now_at E (w_clock w), art_metadata = md\<rparr> = Inr a0"
      and rest: "thenp (save_artifacts E (rebuild_dependents (as @ [a0])))
        (ret (the (find_artifact (rebuild_dependents (as @ [a0])) ?p)))
        (?w\<lparr>w_uuids := Suc (w_uuids w)\<rparr>) = (Inr a, w')"
      using assms load good
      by (auto simp: register_artifact_def bindp_run lift_result_run normalize_path_def Let_def env_reads
          asks_run ret_run split: sum.splits prod.splits)
    from a0 have "art_path a0 = ?p" "art_status a0 = sn_status ?sn" "art_content_hash a0 = sn_content_hash ?sn" "art_stage_id a0 = sid"
      by (auto simp: validate_artifact_def Let_def unify_idem split: if_splits)
    moreover have "List.find (\<lambda>a. art_path a = ?p) (as @ [a0]) = Some a0"
      using None calculation(1) unfolding find_artifact_def
      by (induction as) (auto split: if_splits)
    ultimately show thesis using that [of "as @ [a0]" a0] rest
      by (auto simp: thenp_run ret_run split: prod.splits sum.splits)
  next
    case (Some a0)
    let ?f = "update_registered sid deps kind md ?sn (now_at E (w_clock w))"
    have rest: "thenp (save_artifacts E (rebuild_dependents (update_first (\<lambda>a. art_path a = ?p) ?f as)))
        (ret (the (find_artifact (rebuild_dependents (update_first (\<lambda>a. art_path a = ?p) ?f as)) ?p))) ?w = (Inr a, w')"
      using assms load good Some
      by (auto simp: register_artifact_def bindp_run lift_result_run normalize_path_def Let_def env_reads
          asks_run ret_run split: sum.splits prod.splits)
    have "List.find (\<lambda>a. art_path a = ?p) (update_first (\<lambda>a. art_path a = ?p) ?f as) = Some (?f a0)"
      using Some find_Some_set [of "\<lambda>a. art_path a = ?p" as a0] unfolding find_artifact_def
      by (intro update_first_find) (auto simp: update_registered_def set_snapshot_def)
    moreover have "sid \<noteq> None \<and> sid \<noteq> Some [] \<longrightarrow> art_stage_id (?f a0) = sid"
      by (auto simp: update_registered_def set_snapshot_def split: list.splits)
    ultimately show thesis using that [of "update_first (\<lambda>a. art_path a = ?p) ?f as" "?f a0"] rest
      by (auto simp: thenp_run ret_run update_registered_def set_snapshot_def split: prod.splits sum.splits)
  qed
  obtain ds where f: "find_artifact (rebuild_dependents as1) ?p = Some (b\<lparr>art_dependents := ds\<rparr>)"
    using find_collect [OF as1(1), of as1] by (auto simp: find_artifact_def rebuild_dependents_def)
  with a have a': "a = b\<lparr>art_dependents := ds\<rparr>" by simp
  have path: "art_path b = ?p" using find_Some_set [OF as1(1)] by simp
  have "a \<in> set (rebuild_dependents as1)"
    using f find_Some_set a' unfolding find_artifact_def by metis
  with save_artifacts_run [OF save] a' path as1(2-4) good show ?thesis
    by (auto simp: bad_path_def unify_slashes_def take_snapshot_def split: option.splits)
qed

section \<open>Properties\<close>

text \<open>C12: A refresh propagates staleness to exactly what is downstream of a change. When it returns, the
  registry on disk has the same artifacts with the same dependencies, each with the hash of its
  file as it is now; and an artifact whose own file is unchanged is stale if and only if it was
  stale before or some changed file is upstream of it along any chain of dependencies (cycles
  included). Otherwise it is fresh.\<close>

theorem refresh_propagates_staleness:
  assumes "load_artifacts E w = (Inr as, w)" and "refresh E w = (Inr out, w')"
  shows "w_artifacts w' = Doc out \<and> length out = length as \<and>
    (\<forall>j<length as. art_path (out ! j) = art_path (as ! j) \<and>
       art_dependencies (out ! j) = art_dependencies (as ! j) \<and>
       art_content_hash (out ! j) =
         map_option (\<lambda>f. sha256_hex E (fe_content f)) (w_fs w (art_path (as ! j))) \<and>
       (kept_file E (w_fs w) as (art_path (as ! j)) \<longrightarrow> art_status (out ! j) =
          (if art_status (as ! j) = Stale \<or> (\<exists>i<length as.
              changed_file E (w_fs w) as (art_path (as ! i)) \<and> downstream as (art_path (as ! i)) (as ! j))
           then Stale else Fresh)))"
proof -
  obtain bs c where all: "refresh_all E (w_fs w) as (w_clock w) = (bs, c)"
    by (cases "refresh_all E (w_fs w) as (w_clock w)")
  from assms all have out: "out = rebuild_dependents bs"
    and save: "save_artifacts E out (w\<lparr>w_clock := c\<rparr>) = (Inr (), w')"
    by (auto simp: refresh_def bindp_run asks_run thenp_run updates_run ret_run Let_def
        split: prod.splits sum.splits)
  have r: "refreshed E (w_fs w) as (length as) bs" using all by (rule refresh_all_refreshed)
  then have sk: "map skel bs = map skel as" by (simp add: refreshed_def)
  note sl = skel_list [OF sk]
  have len: "length out = length as" by (simp add: out sl(1))
  have "art_path (out ! j) = art_path (as ! j) \<and> art_dependencies (out ! j) = art_dependencies (as ! j) \<and>
      art_content_hash (out ! j) = map_option (\<lambda>f. sha256_hex E (fe_content f)) (w_fs w (art_path (as ! j))) \<and>
      (kept_file E (w_fs w) as (art_path (as ! j)) \<longrightarrow> art_status (out ! j) =
          (if art_status (as ! j) = Stale \<or> (\<exists>i<length as.
              changed_file E (w_fs w) as (art_path (as ! i)) \<and> downstream as (art_path (as ! i)) (as ! j))
           then Stale else Fresh))" if j: "j < length as" for j
  proof -
    have jb: "j < length bs" using j sl by simp
    have "art_content_hash (bs ! j) = map_option (\<lambda>f. sha256_hex E (fe_content f)) (w_fs w (art_path (as ! j)))"
      using r j by (auto simp: refreshed_def take_snapshot_def split: option.splits)
    moreover have "art_status (bs ! j) =
          (if art_status (as ! j) = Stale \<or> (\<exists>i<length as.
              changed_file E (w_fs w) as (art_path (as ! i)) \<and> downstream as (art_path (as ! i)) (as ! j))
           then Stale else Fresh)" if "kept_file E (w_fs w) as (art_path (as ! j))"
    proof -
      have "art_status (bs ! j) = Stale \<longleftrightarrow> art_status (as ! j) = Stale \<or> (\<exists>i<length as.
          changed_file E (w_fs w) as (art_path (as ! i)) \<and> downstream as (art_path (as ! i)) (as ! j))"
        "art_status (bs ! j) \<noteq> MissingArtifact"
        using r j that unfolding refreshed_def by blast+
      then show ?thesis by (cases "art_status (bs ! j)") auto
    qed
    ultimately show ?thesis using rebuild_nth [OF jb] sl j jb by (simp add: out)
  qed
  with save_artifacts_run [OF save] len show ?thesis by simp
qed

definition demo_artifact :: "string \<Rightarrow> string list \<Rightarrow> string \<Rightarrow> artifact" where
  "demo_artifact p deps h = \<lparr>art_id = p, art_path = p, art_stage_id = Some ''srs'', art_kind = ''file'',
     art_status = Fresh, art_dependencies = deps, art_dependents = [], art_content_hash = Some h,
     art_modified_at = None, art_token_estimate = 1, art_registered_at = ''t'', art_updated_at = ''t'',
     art_metadata = []\<rparr>"

definition demo_registry :: world where
  "demo_registry = empty_world\<lparr>
     w_fs := [''a'' \<mapsto> \<lparr>fe_content = ''new'', fe_mtime = 0\<rparr>, ''b'' \<mapsto> \<lparr>fe_content = ''old'', fe_mtime = 0\<rparr>],
     w_artifacts := Doc [demo_artifact ''b'' [''a''] ''old'', demo_artifact ''a'' [] ''old'']\<rparr>"

lemma demo_registry_load:
  "load_artifacts demo_env demo_registry =
     (Inr [demo_artifact ''b'' [''a''] ''old'', demo_artifact ''a'' [] ''old''], demo_registry)"
proof -
  have "validate_artifacts [demo_artifact ''b'' [''a''] ''old'', demo_artifact ''a'' [] ''old''] =
      Inr [demo_artifact ''b'' [''a''] ''old'', demo_artifact ''a'' [] ''old'']"
    by code_simp
  then show ?thesis by (simp add: load_artifacts_def demo_registry_def)
qed

lemma refresh_propagates_staleness_witness:
  "\<exists>out w'. refresh demo_env demo_registry = (Inr out, w') \<and> art_path (out ! 0) = ''b'' \<and>
     art_status (out ! 0) = Stale"
proof -
  let ?as = "[demo_artifact ''b'' [''a''] ''old'', demo_artifact ''a'' [] ''old'']"
  obtain bs c where all: "refresh_all demo_env (w_fs demo_registry) ?as (w_clock demo_registry) = (bs, c)"
    by (cases "refresh_all demo_env (w_fs demo_registry) ?as (w_clock demo_registry)")
  obtain w' where "save_artifacts demo_env (rebuild_dependents bs) (demo_registry\<lparr>w_clock := c\<rparr>) = (Inr (), w')"
    by (simp add: save_artifacts_def thenp_run write_file_ok)
  then have run: "refresh demo_env demo_registry = (Inr (rebuild_dependents bs), w')"
    using all by (simp add: refresh_def bindp_run demo_registry_load asks_run thenp_run updates_run ret_run Let_def)
  have "kept_file demo_env (w_fs demo_registry) ?as ''b''" "changed_file demo_env (w_fs demo_registry) ?as ''a''"
    by (simp_all add: kept_file_def changed_file_def demo_registry_def hash_before_def demo_artifact_def demo_env_def)
  moreover have "downstream ?as ''a'' (?as ! 0)"
    by (simp add: downstream_def demo_artifact_def)
  ultimately show ?thesis
    using refresh_propagates_staleness [OF demo_registry_load run] run
    by (force simp: demo_artifact_def)
qed

text \<open>The stored graph and the dependents mirror the dependencies. After \<open>rebuild_dependents\<close> on a
  registry with distinct paths, \<open>p\<close> is a dependent of an artifact exactly when the artifact at \<open>p\<close>
  lists it as a dependency, each list of dependents is sorted without repetition, and the edges of
  the graph are exactly the dependencies on registered paths.\<close>

theorem graph_mirrors_dependencies:
  assumes "distinct (map art_path as)" and "a \<in> set (rebuild_dependents as)"
  shows "(p \<in> set (art_dependents a) \<longleftrightarrow> (\<exists>b\<in>set as. art_path b = p \<and> art_path a \<in> set (art_dependencies b))) \<and>
    sorted (art_dependents a) \<and> distinct (art_dependents a) \<and>
    ((\<exists>e\<in>set (ag_edges (build_graph as)). ge_source e = art_path a \<and> ge_target e = p) \<longleftrightarrow>
      p \<in> set (art_dependents a))"
proof -
  have gen: "art_dependents x = sort (add_new [] (map art_path (filter (\<lambda>b. art_path x \<in> set (art_dependencies b)) all))) \<and>
      art_path x \<in> art_path ` set ys"
    if "distinct (map art_path ys)" "x \<in> set (collect_dependents all ys)" for ys all x
    using that by (induction all ys rule: collect_dependents.induct) auto
  from gen [OF assms(1), of a as] assms(2)
  have d: "art_dependents a = sort (add_new [] (map art_path (filter (\<lambda>b. art_path a \<in> set (art_dependencies b)) as)))"
    and reg: "art_path a \<in> art_path ` set as"
    by (simp_all add: rebuild_dependents_def)
  have p: "p \<in> set (art_dependents a) \<longleftrightarrow> (\<exists>b\<in>set as. art_path b = p \<and> art_path a \<in> set (art_dependencies b))"
    unfolding d by auto
  have "(\<exists>e\<in>set (ag_edges (build_graph as)). ge_source e = art_path a \<and> ge_target e = p) \<longleftrightarrow>
      (\<exists>b\<in>set as. art_path b = p \<and> art_path a \<in> set (art_dependencies b))"
    using reg unfolding build_graph_def Let_def by (simp add: bex_Un) blast
  with p show ?thesis unfolding d by (simp add: distinct_add_new)
qed

lemma graph_mirrors_dependencies_witness:
  "\<exists>a\<in>set (rebuild_dependents [demo_artifact ''b'' [''a''] ''h'', demo_artifact ''a'' [] ''h'']).
     art_dependents a = [''b''] \<and> sorted (art_dependents a)"
proof -
  let ?as = "[demo_artifact ''b'' [''a''] ''h'', demo_artifact ''a'' [] ''h'']"
  have r: "rebuild_dependents ?as = [demo_artifact ''b'' [''a''] ''h'',
      (demo_artifact ''a'' [] ''h'')\<lparr>art_dependents := [''b'']\<rparr>]" by code_simp
  have "distinct (map art_path ?as)" by (simp add: demo_artifact_def)
  from graph_mirrors_dependencies [OF this, of "(demo_artifact ''a'' [] ''h'')\<lparr>art_dependents := [''b'']\<rparr>"] r
  show ?thesis by auto
qed

text \<open>Registered paths stay inside the project. Whatever path is given to \<open>register\<close>, if it returns,
  the artifact is stored under the path with its backslashes turned and its ends stripped, which
  is not empty, not absolute and has no \<open>..\<close> component; its status says whether the file exists
  and its hash is that of the file.\<close>

theorem registered_paths_stay_inside:
  assumes "register_artifact E path sid deps kind md w = (Inr a, w')"
  shows "art_path a = replace_char backslash CHR ''/'' (strip path) \<and> art_path a \<noteq> [] \<and>
    \<not> starts_with ''/'' (art_path a) \<and> ''..'' \<notin> set (split_on CHR ''/'' (art_path a)) \<and>
    (\<exists>as. w_artifacts w' = Doc as \<and> a \<in> set as) \<and>
    art_status a = (if w_fs w (art_path a) = None then MissingArtifact else Fresh) \<and>
    art_content_hash a = map_option (\<lambda>f. sha256_hex E (fe_content f)) (w_fs w (art_path a))"
  using register_artifact_result [OF assms] by blast

lemma registered_paths_stay_inside_witness:
  "\<exists>a w'. register_artifact demo_env '' docs/x.md '' None [] ''file'' [] empty_world = (Inr a, w') \<and>
     art_path a = ''docs/x.md'' \<and> art_status a = MissingArtifact"
proof -
  have n: "normalize_path '' docs/x.md '' = Inr ''docs/x.md''" by code_simp
  let ?a = "\<lparr>art_id = ''artifact-'' @ uuid_at demo_env 0, art_path = ''docs/x.md'', art_stage_id = None,
    art_kind = ''file'', art_status = MissingArtifact, art_dependencies = [], art_dependents = [],
    art_content_hash = None, art_modified_at = None, art_token_estimate = 0,
    art_registered_at = now_at demo_env 0, art_updated_at = now_at demo_env 0, art_metadata = []\<rparr>"
  have v: "validate_artifact ?a = Inr ?a"
  proof -
    have "unify_slashes ''docs/x.md'' = ''docs/x.md''" "''..'' \<notin> set (split_on CHR ''/'' ''docs/x.md'')"
      by code_simp+
    then show ?thesis by (simp add: validate_artifact_def normalize_edges_def)
  qed
  have "\<exists>a w'. register_artifact demo_env '' docs/x.md '' None [] ''file'' [] empty_world = (Inr a, w')"
    using n v by (simp add: register_artifact_def bindp_run load_artifacts_def empty_world_def lift_result_run
        env_reads asks_run take_snapshot_def find_artifact_def Let_def ret_run thenp_run save_artifacts_def
        write_file_ok)
  then obtain a w' where run: "register_artifact demo_env '' docs/x.md '' None [] ''file'' [] empty_world = (Inr a, w')"
    by blast
  have "replace_char backslash CHR ''/'' (strip '' docs/x.md '') = ''docs/x.md''" by code_simp
  with registered_paths_stay_inside [OF run] run show ?thesis by (auto simp: empty_world_def)
qed

end
