(* ===== verification/Pruner.thy ===== *)
theory Pruner imports Artifacts begin

text \<open>
  The context pruner, \<open>context/pruner.py\<close>: spreading activation from the artifacts of a stage
  along the dependencies, and the greedy selection of fresh artifacts within a token budget, with
  the content cache a pruner object keeps between selections.
\<close>

section \<open>Spreading activation\<close>

text \<open>
  \<open>priorities\<close> is a map from paths to priorities. The recursion of \<open>visit\<close> runs on fuel; a chain of
  nested visits assigns to pairwise different registered paths, so two more than the number of
  artifacts is enough.
\<close>

type_synonym priorities = "string \<rightharpoonup> nat"

definition by_path :: "artifact list \<Rightarrow> (string, artifact) dict" where
  "by_path as = foldl (\<lambda>d a. dict_set (art_path a) a d) [] as"

definition covered :: "priorities \<Rightarrow> string \<Rightarrow> nat \<Rightarrow> bool" where
  "covered pri p n = (case pri p of None \<Rightarrow> False | Some e \<Rightarrow> e \<le> n)"

primrec visit :: "nat \<Rightarrow> (string, artifact) dict \<Rightarrow> string \<Rightarrow> nat \<Rightarrow> priorities \<Rightarrow> priorities" where
  "visit 0 = (\<lambda>d path priority pri. pri)"
| "visit (Suc n) = (\<lambda>d path priority pri.
     if covered pri path priority then pri
     else let pri1 = pri(path \<mapsto> priority) in
       case dict_get d path of
         None \<Rightarrow> pri1
       | Some a \<Rightarrow> foldl (\<lambda>pri dependency. visit n d dependency (priority + 1) pri) pri1
           (sort (art_dependencies a)))"

definition stage_paths :: "string \<Rightarrow> artifact list \<Rightarrow> string list" where
  "stage_paths stage_id as =
     (let own = sort (map art_path (filter (\<lambda>a. art_stage_id a = Some stage_id) as)) in
      if own = [] then sort (map art_path as) else own)"

definition spread_activation :: "string \<Rightarrow> artifact list \<Rightarrow> priorities" where
  "spread_activation stage_id as =
     foldl (\<lambda>pri p. visit (Suc (Suc (length as))) (by_path as) p 0 pri) Map.empty
       (stage_paths stage_id as)"

section \<open>The content cache\<close>

record pruner =
  pr_mtimes :: "string \<rightharpoonup> real"
  pr_contents :: "string \<rightharpoonup> string"

definition new_pruner :: pruner where
  "new_pruner = \<lparr>pr_mtimes = Map.empty, pr_contents = Map.empty\<rparr>"

definition clear_cache :: "pruner \<Rightarrow> pruner" where
  "clear_cache pr = pr\<lparr>pr_mtimes := Map.empty, pr_contents := Map.empty\<rparr>"

definition cache_hit :: "pruner \<Rightarrow> string \<Rightarrow> real \<Rightarrow> string option" where
  "cache_hit pr p mtime = (if pr_mtimes pr p = Some mtime then pr_contents pr p else None)"

definition read_artifact :: "string \<Rightarrow> (pruner \<times> world, string) prog" where
  "read_artifact p = (\<lambda>(pr, w). case w_fs w p of
       None \<Rightarrow> (Inl (ContextPrunerError (''Could not stat selected artifact `'' @ p @ ''`.'')), (pr, w))
     | Some f \<Rightarrow> (case cache_hit pr p (fe_mtime f) of
         Some cached \<Rightarrow> (Inr cached, (pr, w))
       | None \<Rightarrow> (Inr (fe_content f),
           (pr\<lparr>pr_mtimes := (pr_mtimes pr)(p \<mapsto> fe_mtime f),
               pr_contents := (pr_contents pr)(p \<mapsto> fe_content f)\<rparr>, w))))"

section \<open>Selection\<close>

definition reason :: "string \<Rightarrow> artifact \<Rightarrow> nat \<Rightarrow> string" where
  "reason stage_id a priority =
     (if art_stage_id a = Some stage_id then ''stage_artifact''
      else if priority > 0 then ''dependency_traversal''
      else ''fallback_artifact'')"

definition candidates :: "priorities \<Rightarrow> artifact list \<Rightarrow> artifact list" where
  "candidates pri as = sort_key (\<lambda>a. (the (pri (art_path a)), art_path a))
     (filter (\<lambda>a. pri (art_path a) \<noteq> None) as)"

type_synonym selecting = "nat \<times> selected_item list \<times> omitted_item list"

definition omit :: "artifact \<Rightarrow> string \<Rightarrow> omitted_item" where
  "omit a r = \<lparr>oi_path = art_path a, oi_reason = r, oi_token_estimate = art_token_estimate a\<rparr>"

definition consider_artifact :: "string \<Rightarrow> int \<Rightarrow> priorities \<Rightarrow> artifact \<Rightarrow> selecting
    \<Rightarrow> (pruner \<times> world, selecting) prog" where
  "consider_artifact stage_id budget pri a = (\<lambda>(total, selected, omitted).
     if art_status a \<noteq> Fresh
     then ret (total, selected, omitted @ [omit a (''artifact_status_'' @ artifact_status_text (art_status a))])
     else if int (total + art_token_estimate a) > budget
     then ret (total, selected, omitted @ [omit a ''token_budget_exceeded''])
     else bindp (read_artifact (art_path a)) (\<lambda>content. ret (total + art_token_estimate a,
       selected @ [\<lparr>si_artifact_id = art_id a, si_path = art_path a,
         si_priority = the (pri (art_path a)), si_token_estimate = art_token_estimate a,
         si_reason = reason stage_id a (the (pri (art_path a))), si_content = content\<rparr>],
       omitted)))"

definition selections_path :: "env \<Rightarrow> string" where
  "selections_path E = root_path E @ ''/.forge/context-selections.jsonl''"

definition append_selection :: "env \<Rightarrow> context_selection \<Rightarrow> (world, unit) prog" where
  "append_selection E sel = write_file E (selections_path E)
     (\<lambda>w. w\<lparr>w_selections := w_selections w @ [sel]\<rparr>)"

definition select :: "env \<Rightarrow> string \<Rightarrow> int \<Rightarrow> (pruner \<times> world, context_selection) prog" where
  "select E stage_id budget =
     (if budget < 1 then throw (ContextPrunerError ''Context token budget must be positive.'')
      else bindp (with_local (refresh E)) (\<lambda>doc.
        let as = map snd (by_path doc); pri = spread_activation stage_id as in
        bindp (foldp (consider_artifact stage_id budget pri) (candidates pri as) (0, [], []))
          (\<lambda>(total, selected, omitted).
        bindp (with_local (utc_now E)) (\<lambda>t. bindp (with_local (uuid4 E)) (\<lambda>u.
        let sel = \<lparr>cs_selection_id = ''context-'' @ u, cs_stage_id = stage_id,
          cs_token_budget = budget, cs_total_tokens = total, cs_selected = selected,
          cs_omitted = omitted, cs_created_at = t\<rparr> in
        thenp (with_local (append_selection E sel)) (ret sel))))))"

section \<open>Activation is distance\<close>

definition needs :: "(string, artifact) dict \<Rightarrow> string \<Rightarrow> string \<Rightarrow> bool" where
  "needs d p q \<longleftrightarrow> (\<exists>a. dict_get d p = Some a \<and> q \<in> set (art_dependencies a))"

text \<open>A visit changes entries only, downwards, to priorities from \<open>q\<close> on, and what it changed it has
  spread to the dependencies.\<close>

definition spread_from :: "(string, artifact) dict \<Rightarrow> nat \<Rightarrow> priorities \<Rightarrow> priorities \<Rightarrow> bool" where
  "spread_from d q pri pri' \<longleftrightarrow>
     (\<forall>p n. covered pri p n \<longrightarrow> covered pri' p n) \<and>
     (\<forall>p n. pri' p = Some n \<longrightarrow> pri p = Some n \<or> q \<le> n) \<and>
     (\<forall>p. covered pri p q \<longrightarrow> pri' p = pri p) \<and>
     (\<forall>p n. pri' p = Some n \<longrightarrow> pri p \<noteq> Some n \<longrightarrow> (\<forall>u. needs d p u \<longrightarrow> covered pri' u (Suc n)))"

definition sound_from :: "(string, artifact) dict \<Rightarrow> string \<Rightarrow> nat \<Rightarrow> priorities \<Rightarrow> priorities \<Rightarrow> bool" where
  "sound_from d p q pri pri' \<longleftrightarrow>
     (\<forall>r n. pri' r = Some n \<longrightarrow> pri r = Some n \<or> (\<exists>k. n = q + k \<and> (needs d ^^ k) p r))"

lemma spread_refl: "spread_from d q pri pri"
  by (simp add: spread_from_def)

lemma coveredI: "pri p = Some m \<Longrightarrow> m \<le> n \<Longrightarrow> covered pri p n"
  by (simp add: covered_def)

lemma covered_mono: "covered pri p m \<Longrightarrow> m \<le> n \<Longrightarrow> covered pri p n"
  by (auto simp: covered_def split: option.splits)

lemma spread_trans:
  assumes a: "spread_from d q p1 p2" and b: "spread_from d q p2 p3"
  shows "spread_from d q p1 p3"
  unfolding spread_from_def
proof (intro conjI allI impI)
  show "covered p3 p n" if "covered p1 p n" for p n using a b that by (simp add: spread_from_def)
  show "p1 p = Some n \<or> q \<le> n" if "p3 p = Some n" for p n
    using a b that unfolding spread_from_def by blast
  show "p3 p = p1 p" if "covered p1 p q" for p using a b that by (simp add: spread_from_def)
  show "covered p3 u (Suc n)" if "p3 p = Some n" "p1 p \<noteq> Some n" "needs d p u" for p n u
  proof (cases "p2 p = Some n")
    case True
    with a that have "covered p2 u (Suc n)" by (simp add: spread_from_def)
    with b show ?thesis by (simp add: spread_from_def)
  next
    case False
    with b that show ?thesis by (simp add: spread_from_def)
  qed
qed

lemma spread_weaken: "spread_from d (Suc q) pri pri' \<Longrightarrow> spread_from d q pri pri'"
  using covered_mono [of pri _ q "Suc q"] by (fastforce simp: spread_from_def)

text \<open>The registered paths not yet covered at a priority: what the fuel counts.\<close>

definition open_paths :: "(string, artifact) dict \<Rightarrow> priorities \<Rightarrow> nat \<Rightarrow> string set" where
  "open_paths d pri q = {p \<in> fst ` set d. \<not> covered pri p q}"

lemma finite_open [simp]: "finite (open_paths d pri q)"
  by (simp add: open_paths_def)

lemma open_mono: "spread_from d q pri pri' \<Longrightarrow> open_paths d pri' q \<subseteq> open_paths d pri q"
  by (auto simp: open_paths_def spread_from_def)

lemma open_step:
  assumes "\<not> covered pri p q" and "dict_get d p = Some a"
  shows "card (open_paths d (pri(p \<mapsto> q)) (Suc q)) < card (open_paths d pri q)"
proof (rule psubset_card_mono)
  have "p \<in> fst ` set d" using assms(2) unfolding dict_get_def by (metis domI dom_map_of_conv_image_fst)
  then have "p \<in> open_paths d pri q" "p \<notin> open_paths d (pri(p \<mapsto> q)) (Suc q)"
    using assms by (auto simp: open_paths_def covered_def)
  moreover have "open_paths d (pri(p \<mapsto> q)) (Suc q) \<subseteq> open_paths d pri q"
    by (auto simp: open_paths_def covered_def split: if_splits option.splits)
  ultimately show "open_paths d (pri(p \<mapsto> q)) (Suc q) \<subset> open_paths d pri q" by blast
qed simp

lemma visit_fold:
  assumes visit: "\<And>p pri. p \<in> set ps \<Longrightarrow> card (open_paths d pri q) < n \<Longrightarrow>
      spread_from d q pri (visit n d p q pri) \<and> covered (visit n d p q pri) p q \<and>
      sound_from d p q pri (visit n d p q pri)"
    and fuel: "card (open_paths d pri q) < n"
  shows "let pri' = foldl (\<lambda>pri p. visit n d p q pri) pri ps in
    spread_from d q pri pri' \<and> (\<forall>p\<in>set ps. covered pri' p q) \<and>
    (\<forall>r m. pri' r = Some m \<longrightarrow> pri r = Some m \<or> (\<exists>p\<in>set ps. \<exists>k. m = q + k \<and> (needs d ^^ k) p r))"
  using assms
proof (induction ps arbitrary: pri)
  case Nil
  then show ?case by (simp add: spread_refl)
next
  case (Cons p ps)
  let ?p1 = "visit n d p q pri"
  let ?p2 = "foldl (\<lambda>pri p. visit n d p q pri) ?p1 ps"
  from Cons.prems(1) [of p pri] Cons.prems(2)
  have 1: "spread_from d q pri ?p1" "covered ?p1 p q" "sound_from d p q pri ?p1" by auto
  have "card (open_paths d ?p1 q) \<le> card (open_paths d pri q)"
    using open_mono [OF 1(1)] by (intro card_mono) simp_all
  with Cons have 2: "spread_from d q ?p1 ?p2" "\<forall>p\<in>set ps. covered ?p2 p q"
      "\<forall>r m. ?p2 r = Some m \<longrightarrow> ?p1 r = Some m \<or> (\<exists>p\<in>set ps. \<exists>k. m = q + k \<and> (needs d ^^ k) p r)"
    by (simp_all add: Let_def)
  have "covered ?p2 p q" using 1(2) 2(1) by (simp add: spread_from_def)
  moreover have "pri r = Some m \<or> (\<exists>p\<in>set (p # ps). \<exists>k. m = q + k \<and> (needs d ^^ k) p r)"
    if "?p2 r = Some m" for r m
    using that 2(3) 1(3) unfolding sound_from_def by (metis list.set_intros(1,2))
  ultimately show ?case using spread_trans [OF 1(1) 2(1)] 2(2) by (simp add: Let_def)
qed

lemma visit_spreads:
  "card (open_paths d pri q) < n \<Longrightarrow>
   spread_from d q pri (visit n d p q pri) \<and> covered (visit n d p q pri) p q \<and>
   sound_from d p q pri (visit n d p q pri)"
proof (induction n arbitrary: p q pri)
  case 0
  then show ?case by simp
next
  case (Suc n)
  show ?case
  proof (cases "covered pri p q")
    case True
    then show ?thesis by (simp add: spread_refl sound_from_def)
  next
    case open_p: False
    let ?p1 = "pri(p \<mapsto> q)"
    have mono: "covered ?p1 r m" if "covered pri r m" for r m
      using that open_p by (auto simp: covered_def split: option.splits)
    have keep: "?p1 r = pri r" if "covered pri r q" for r using that open_p by auto
    show ?thesis
    proof (cases "dict_get d p")
      case None
      then have run: "visit (Suc n) d p q pri = ?p1" using open_p by (simp add: Let_def)
      have "spread_from d q pri ?p1"
        using None mono open_p by (auto simp: spread_from_def needs_def split: if_splits)
      moreover have "covered ?p1 p q" by (simp add: covered_def)
      moreover have "sound_from d p q pri ?p1"
        by (auto simp: sound_from_def intro: exI [of _ 0])
      ultimately show ?thesis by (simp only: run)
    next
      case (Some a)
      let ?ds = "sort (art_dependencies a)"
      define pri' where "pri' = foldl (\<lambda>pri u. visit n d u (Suc q) pri) ?p1 ?ds"
      have run: "visit (Suc n) d p q pri = pri'" using open_p Some by (simp add: pri'_def Let_def)
      have "card (open_paths d ?p1 (Suc q)) < n"
        using open_step [OF open_p Some] Suc.prems by simp
      from visit_fold [OF Suc.IH this, of ?ds]
      have f: "spread_from d (Suc q) ?p1 pri'" "\<forall>u\<in>set (art_dependencies a). covered pri' u (Suc q)"
        "\<And>r m. pri' r = Some m \<Longrightarrow> ?p1 r = Some m \<or>
           (\<exists>u\<in>set (art_dependencies a). \<exists>k. m = Suc q + k \<and> (needs d ^^ k) u r)"
        by (simp_all add: pri'_def Let_def)
      have p': "pri' p = Some q" using f(1) coveredI [of ?p1 p q "Suc q"] by (simp add: spread_from_def)
      have "spread_from d q pri pri'"
        unfolding spread_from_def
      proof (intro conjI allI impI)
        show "covered pri' r m" if "covered pri r m" for r m
          using mono [OF that] f(1) by (simp add: spread_from_def)
        show "pri r = Some m \<or> q \<le> m" if "pri' r = Some m" for r m
          using f(1) that unfolding spread_from_def by (metis Suc_leD fun_upd_apply nat_le_linear option.inject)
        show "pri' r = pri r" if "covered pri r q" for r
          using keep [OF that] f(1) covered_mono [OF mono [OF that], of "Suc q"] by (simp add: spread_from_def)
        show "covered pri' u (Suc m)" if "pri' r = Some m" "pri r \<noteq> Some m" "needs d r u" for r m u
        proof (cases "r = p")
          case True
          with that p' Some f(2) show ?thesis by (auto simp: needs_def)
        next
          case False
          with that f(1) show ?thesis by (simp add: spread_from_def)
        qed
      qed
      moreover have "covered pri' p q" using p' by (simp add: covered_def)
      moreover have "sound_from d p q pri pri'"
        unfolding sound_from_def
      proof (intro allI impI)
        fix r m assume r: "pri' r = Some m"
        from f(3) [OF r] show "pri r = Some m \<or> (\<exists>k. m = q + k \<and> (needs d ^^ k) p r)"
        proof (elim disjE bexE exE conjE)
          assume "?p1 r = Some m"
          then show ?thesis by (cases "r = p") (auto intro: exI [of _ 0])
        next
          fix u k assume "u \<in> set (art_dependencies a)" "m = Suc q + k" "(needs d ^^ k) u r"
          then have "m = q + Suc k" "(needs d ^^ Suc k) p r"
            using Some by (auto simp: needs_def simp del: relpowp.simps intro!: relpowp_Suc_I2)
          then show ?thesis by blast
        qed
      qed
      ultimately show ?thesis by (simp only: run)
    qed
  qed
qed

section \<open>Artifacts by path\<close>

lemma by_path_snoc: "by_path (as @ [a]) = dict_set (art_path a) a (by_path as)"
  by (simp add: by_path_def)

lemma by_path_props:
  "distinct (map fst (by_path as)) \<and> fst ` set (by_path as) = art_path ` set as \<and>
   (\<forall>x\<in>set (by_path as). fst x = art_path (snd x) \<and> snd x \<in> set as) \<and> length (by_path as) \<le> length as"
proof (induction as rule: rev_induct)
  case Nil
  then show ?case by (simp add: by_path_def)
next
  case (snoc a as)
  let ?d = "dict_set (art_path a) a (by_path as)"
  have "set (dict_set k v d) \<subseteq> insert (k, v) (set d)" for k v and d :: "(string, artifact) dict"
    unfolding dict_set_def by (induction d) auto
  then have sub: "x = (art_path a, a) \<or> x \<in> set (by_path as)" if "x \<in> set ?d" for x using that by blast
  have "length (dict_set k v d) \<le> Suc (length d)" for k v and d :: "(string, artifact) dict"
    unfolding dict_set_def by (induction d) auto
  from this [of "art_path a" a "by_path as"] snoc have "length ?d \<le> length (as @ [a])" by simp
  moreover have "\<forall>x\<in>set ?d. fst x = art_path (snd x) \<and> snd x \<in> set (as @ [a])" using sub snoc by fastforce
  moreover have "distinct (map fst ?d)" using snoc by simp
  moreover have "fst ` set ?d = art_path ` set (as @ [a])"
    using snoc unfolding dict_keys_set by (simp only: set_append list.set image_Un) blast
  ultimately show ?case unfolding by_path_snoc by blast
qed

lemma card_open: "card (open_paths (by_path as) pri q) < Suc (Suc (length as))"
proof -
  have "card (open_paths (by_path as) pri q) \<le> card (fst ` set (by_path as))"
    by (intro card_mono) (auto simp: open_paths_def)
  also have "\<dots> \<le> length (by_path as)" by (metis card_length length_map list.set_map)
  also have "\<dots> \<le> length as" using by_path_props by blast
  finally show ?thesis by simp
qed

lemma spread_activation_closed:
  fixes sid as
  defines "pri \<equiv> spread_activation sid as" and "d \<equiv> by_path as"
  shows "s \<in> set (stage_paths sid as) \<Longrightarrow> (needs d ^^ n) s p \<Longrightarrow> covered pri p n"
    and "pri p = Some n \<Longrightarrow> \<exists>s\<in>set (stage_paths sid as). (needs d ^^ n) s p"
proof -
  have f: "spread_from d 0 Map.empty pri \<and> (\<forall>s\<in>set (stage_paths sid as). covered pri s 0) \<and>
      (\<forall>r m. pri r = Some m \<longrightarrow> Map.empty r = Some m \<or> (\<exists>s\<in>set (stage_paths sid as). \<exists>k. m = 0 + k \<and> (needs d ^^ k) s r))"
    using visit_fold [of "stage_paths sid as" "by_path as" 0 "Suc (Suc (length as))" Map.empty,
        OF visit_spreads card_open]
    unfolding assms spread_activation_def Let_def by blast
  show "\<exists>s\<in>set (stage_paths sid as). (needs d ^^ n) s p" if "pri p = Some n" using f that by auto
  assume s: "s \<in> set (stage_paths sid as)"
  show "(needs d ^^ n) s p \<Longrightarrow> covered pri p n"
  proof (induction n arbitrary: p)
    case 0
    with s f show ?case by simp
  next
    case (Suc n)
    then obtain r where r: "(needs d ^^ n) s r" "needs d r p" by auto
    then obtain m where m: "pri r = Some m" "m \<le> n" using Suc.IH [OF r(1)] by (cases "pri r") (auto simp: covered_def)
    with f r(2) have "covered pri p (Suc m)" by (auto simp: spread_from_def)
    with m(2) show ?case by (auto intro: covered_mono)
  qed
qed

section \<open>What a selection does\<close>

text \<open>A cache is coherent with the files when an entry with the file's present time has its content.\<close>

definition coherent :: "pruner \<Rightarrow> file_system \<Rightarrow> bool" where
  "coherent pr fs \<longleftrightarrow> (\<forall>p f c. fs p = Some f \<longrightarrow> cache_hit pr p (fe_mtime f) = Some c \<longrightarrow> c = fe_content f)"

lemma read_artifact_run:
  assumes "coherent pr (w_fs w)"
  shows "\<exists>pr'. coherent pr' (w_fs w) \<and> read_artifact p (pr, w) =
    (case w_fs w p of
       None \<Rightarrow> (Inl (ContextPrunerError (''Could not stat selected artifact `'' @ p @ ''`.'')), (pr', w))
     | Some f \<Rightarrow> (Inr (fe_content f), (pr', w)))"
proof (cases "w_fs w p")
  case None
  with assms show ?thesis by (auto simp: read_artifact_def)
next
  case (Some f)
  show ?thesis
  proof (cases "cache_hit pr p (fe_mtime f)")
    case None
    with Some assms show ?thesis
      by (auto simp: read_artifact_def coherent_def cache_hit_def split: if_splits)
  next
    case hit: (Some c)
    with Some assms have "c = fe_content f" by (auto simp: coherent_def)
    with Some hit assms show ?thesis by (auto simp: read_artifact_def)
  qed
qed

lemma coherent_new [simp]: "coherent new_pruner fs" "coherent (clear_cache pr) fs"
  by (simp_all add: coherent_def cache_hit_def new_pruner_def clear_cache_def)

text \<open>With coherent caches the outcome of one step, and of the loop, does not depend on the cache.\<close>

lemma consider_blind:
  assumes "coherent pr1 (w_fs w)" and "coherent pr2 (w_fs w)"
  shows "\<exists>pr1' pr2' r. consider_artifact sid b pri a s (pr1, w) = (r, (pr1', w)) \<and>
    consider_artifact sid b pri a s (pr2, w) = (r, (pr2', w)) \<and>
    coherent pr1' (w_fs w) \<and> coherent pr2' (w_fs w)"
proof -
  obtain total sel om where s: "s = (total, sel, om)" by (cases s)
  from read_artifact_run [OF assms(1), of "art_path a"] read_artifact_run [OF assms(2), of "art_path a"]
  show ?thesis using assms unfolding s consider_artifact_def
    by (cases "w_fs w (art_path a)") (auto simp: prog_simps)
qed

lemma consider_loop_blind:
  assumes "coherent pr1 (w_fs w)" and "coherent pr2 (w_fs w)"
  shows "\<exists>pr1' pr2' r. foldp (consider_artifact sid b pri) as s (pr1, w) = (r, (pr1', w)) \<and>
    foldp (consider_artifact sid b pri) as s (pr2, w) = (r, (pr2', w)) \<and>
    coherent pr1' (w_fs w) \<and> coherent pr2' (w_fs w)"
  using assms
proof (induction as arbitrary: pr1 pr2 s)
  case Nil
  then show ?case by (simp add: ret_run)
next
  case (Cons a as)
  from consider_blind [OF Cons.prems] obtain q1 q2 r where 1:
    "consider_artifact sid b pri a s (pr1, w) = (r, (q1, w))"
    "consider_artifact sid b pri a s (pr2, w) = (r, (q2, w))" "coherent q1 (w_fs w)" "coherent q2 (w_fs w)"
    by blast
  show ?case
  proof (cases r)
    case (Inl e)
    with 1 show ?thesis by (simp add: bindp_run)
  next
    case (Inr t)
    with 1 Cons.IH [OF 1(3,4), of t] show ?thesis by (auto simp: bindp_run)
  qed
qed

lemma selection_run:
  assumes "select E sid b (pr, w) = (Inr sel, (pr', w'))"
  shows "\<exists>doc w1. 1 \<le> b \<and> refresh E w = (Inr doc, w1) \<and>
    (let as = map snd (by_path doc); p = spread_activation sid as in
      foldp (consider_artifact sid b p) (candidates p as) (0, [], []) (pr, w1) =
        (Inr (cs_total_tokens sel, cs_selected sel, cs_omitted sel), (pr', w1))) \<and>
    w_selections w' = w_selections w1 @ [sel] \<and> w_artifacts w' = w_artifacts w1 \<and> cs_stage_id sel = sid"
proof -
  have b: "1 \<le> b" using assms by (auto simp: select_def throw_run split: if_splits)
  obtain r w1 where r: "refresh E w = (r, w1)" by (cases "refresh E w")
  with assms b obtain doc where doc: "r = Inr doc" by (cases r) (auto simp: select_def bindp_run with_local_run)
  let ?as = "map snd (by_path doc)"
  let ?p = "spread_activation sid ?as"
  let ?loop = "foldp (consider_artifact sid b ?p) (candidates ?p ?as) (0, [], [])"
  have blind: "snd (snd (?loop (pr, w1))) = w1"
  proof -
    have "unchanged snd (consider_artifact sid b p a s)" for p a s
      unfolding consider_artifact_def
      by (cases s) (auto simp: unchanged_def prog_simps read_artifact_def split: option.splits prod.splits)
    then have "unchanged snd (foldp (consider_artifact sid b p) as s)" for p as s
      by (induction as arbitrary: s) (auto intro: frame_intros)
    then show ?thesis by (simp add: unchanged_def)
  qed
  obtain r2 pr2 where loop: "?loop (pr, w1) = (r2, (pr2, w1))"
    using blind by (metis prod.collapse)
  with assms b r doc obtain t where t: "r2 = Inr t"
    by (cases r2) (auto simp: select_def bindp_run with_local_run Let_def)
  obtain total selected omitted where s: "t = (total, selected, omitted)" by (cases t)
  show ?thesis
    using assms b r doc loop t s
    by (auto simp: select_def bindp_run thenp_run with_local_run Let_def env_reads append_selection_def
        write_file_run ret_run split: if_splits)
qed


definition item_of :: "priorities \<Rightarrow> artifact \<Rightarrow> selected_item \<Rightarrow> bool" where
  "item_of pri a it \<longleftrightarrow> art_status a = Fresh \<and> si_path it = art_path a \<and>
     si_token_estimate it = art_token_estimate a \<and> si_priority it = the (pri (art_path a))"

definition item_key :: "selected_item \<Rightarrow> nat \<times> string" where
  "item_key it = (si_priority it, si_path it)"

lemma consider_cases:
  assumes "consider_artifact sid b pri a (tot, sel, om) (pr, w) = (Inr (tot', sel', om'), (pr', w'))"
  shows "(\<exists>it. sel' = sel @ [it] \<and> item_of pri a it \<and> om' = om \<and> int tot' \<le> b \<and>
      tot' = tot + art_token_estimate a \<and> read_artifact (art_path a) (pr, w) = (Inr (si_content it), (pr', w'))) \<or>
    (\<exists>o'. sel' = sel \<and> om' = om @ [o'] \<and> oi_path o' = art_path a \<and> tot' = tot \<and> (pr', w') = (pr, w) \<and>
      (art_status a \<noteq> Fresh \<or> b < int (tot + art_token_estimate a)))"
proof (cases "art_status a \<noteq> Fresh \<or> int (tot + art_token_estimate a) > b")
  case True
  with assms show ?thesis
    by (intro disjI2) (auto simp: consider_artifact_def ret_run omit_def split: if_splits)
next
  case False
  then obtain c where "read_artifact (art_path a) (pr, w) = (Inr c, (pr', w'))"
    using assms by (auto simp: consider_artifact_def bindp_run ret_run split: prod.splits sum.splits)
  with assms False show ?thesis
    by (intro disjI1) (auto simp: consider_artifact_def bindp_run ret_run item_of_def)
qed

lemma loop_selects:
  assumes run: "foldp (consider_artifact sid b pri) cs (0, [], []) (pr, w) = (Inr (tot, sel, om), (pr', w'))"
    and b: "1 \<le> b" and sorted: "sorted (map (\<lambda>a. (the (pri (art_path a)), art_path a)) cs)"
  shows "int tot \<le> b \<and> tot = sum_list (map si_token_estimate sel) \<and>
    mset (map si_path sel) + mset (map oi_path om) = mset (map art_path cs) \<and>
    (\<forall>it\<in>set sel. \<exists>a\<in>set cs. item_of pri a it) \<and> sorted (map item_key sel)"
proof -
  let ?I = "\<lambda>pre (tot, sel, om) (_ :: pruner \<times> world). int tot \<le> b \<and> tot = sum_list (map si_token_estimate sel) \<and>
    mset (map si_path sel) + mset (map oi_path om) = mset (map art_path pre) \<and>
    (\<forall>it\<in>set sel. \<exists>a\<in>set pre. item_of pri a it) \<and> sorted (map item_key sel)"
  have "?I cs (tot, sel, om) (pr', w')"
  proof (rule foldp_invariant [OF run, where I = ?I])
    show "?I [] (0, [], []) (pr, w)" using b by simp
  next
    fix pre x post s v s' v'
    assume cs: "cs = pre @ x # post" and I: "?I pre s v"
      and step: "consider_artifact sid b pri x s v = (Inr s', v')"
    obtain t se o1 t' se' o1' where s: "s = (t, se, o1)" "s' = (t', se', o1')" by (cases s, cases s') auto
    from step s consider_cases [of sid b pri x t se o1 "fst v" "snd v" t' se' o1' "fst v'" "snd v'"]
    consider it where "se' = se @ [it]" "item_of pri x it" "o1' = o1" "int t' \<le> b" "t' = t + art_token_estimate x"
      | om1 where "se' = se" "o1' = o1 @ [om1]" "oi_path om1 = art_path x" "t' = t" by auto
    then show "?I (pre @ [x]) s' v'"
    proof cases
      case 1
      have "item_key i \<le> item_key it" if "i \<in> set se" for i
      proof -
        from I s that obtain a where "a \<in> set pre" "item_of pri a i" by auto
        moreover have "(the (pri (art_path a)), art_path a) \<le> (the (pri (art_path x)), art_path x)"
          using sorted calculation(1) unfolding cs by (simp add: sorted_append)
        ultimately show ?thesis using 1(2) by (simp add: item_of_def item_key_def)
      qed
      then have "sorted (map item_key se')" using I s 1 by (simp add: sorted_append)
      with I s 1 show ?thesis by (auto simp: item_of_def)
    next
      case 2
      with I s show ?thesis by auto
    qed
  qed
  then show ?thesis by simp
qed

lemma candidates_props:
  "set (candidates pri as) = {a \<in> set as. pri (art_path a) \<noteq> None}"
  "sorted (map (\<lambda>a. (the (pri (art_path a)), art_path a)) (candidates pri as))"
  "distinct (map art_path as) \<Longrightarrow> distinct (map art_path (candidates pri as))"
proof -
  show "set (candidates pri as) = {a \<in> set as. pri (art_path a) \<noteq> None}" by (auto simp: candidates_def)
  show "sorted (map (\<lambda>a. (the (pri (art_path a)), art_path a)) (candidates pri as))" by (simp add: candidates_def)
  have "mset (map art_path (candidates pri as)) = mset (map art_path (filter (\<lambda>a. pri (art_path a) \<noteq> None) as))"
    by (simp add: candidates_def)
  then show "distinct (map art_path as) \<Longrightarrow> distinct (map art_path (candidates pri as))"
    by (metis distinct_map_filter mset_eq_imp_distinct_iff)
qed

lemma values_props:
  "distinct (map art_path (map snd (by_path as)))" "set (map snd (by_path as)) \<subseteq> set as"
  "art_path ` set (map snd (by_path as)) = art_path ` set as"
proof -
  have "map art_path (map snd (by_path as)) = map fst (by_path as)"
    using by_path_props [of as] by simp
  with by_path_props [of as] show "distinct (map art_path (map snd (by_path as)))" by metis
  show "set (map snd (by_path as)) \<subseteq> set as" using by_path_props [of as] by auto
  have "art_path ` set (map snd (by_path as)) = fst ` set (by_path as)"
    using by_path_props [of as] by (auto simp: image_iff)
  with by_path_props [of as] show "art_path ` set (map snd (by_path as)) = art_path ` set as" by metis
qed

lemma refresh_unchanged:
  "unchanged w_selections (refresh E)" "unchanged w_fs (refresh E)"
  unfolding refresh_def load_artifacts_def save_artifacts_def Let_def
  by (auto simp: case_prod_beta unchanged_def prog_simps split: sum.splits prod.splits if_splits)

lemma refresh_saved: "refresh E w = (Inr doc, w') \<Longrightarrow> w_artifacts w' = Doc doc"
  by (auto simp: refresh_def bindp_run thenp_run asks_run updates_run ret_run Let_def
      dest!: save_artifacts_run split: prod.splits sum.splits)

section \<open>Properties\<close>

text \<open>C13: Activation is distance. The priority of a path is the length of the shortest chain of
  dependencies that leads to it from an artifact of the stage (from any artifact, when the stage
  has none): the priorities do not depend on the order of the depth-first traversal, cycles
  included, and a path no chain reaches has none.\<close>

theorem activation_is_distance:
  "spread_activation sid as p = Some n \<longleftrightarrow>
     (\<exists>s\<in>set (stage_paths sid as). (needs (by_path as) ^^ n) s p) \<and>
     (\<forall>m<n. \<forall>s\<in>set (stage_paths sid as). \<not> (needs (by_path as) ^^ m) s p)"
proof -
  note c = spread_activation_closed [where sid = sid and as = as]
  have "n \<le> m" if "spread_activation sid as p = Some n" "s \<in> set (stage_paths sid as)"
      "(needs (by_path as) ^^ m) s p" for s m n
    using c(1) [OF that(2,3)] that(1) by (simp add: covered_def)
  moreover have "\<exists>k. spread_activation sid as p = Some k \<and> k \<le> n"
    if "s \<in> set (stage_paths sid as)" "(needs (by_path as) ^^ n) s p" for s
    using c(1) [OF that] by (auto simp: covered_def split: option.splits)
  ultimately show ?thesis using c(2) by (metis le_neq_implies_less not_less)
qed

lemma activation_is_distance_witness:
  "(\<exists>s\<in>set (stage_paths ''srs'' [demo_artifact ''a'' [''b''] ''h'']).
      (needs (by_path [demo_artifact ''a'' [''b''] ''h'']) ^^ 1) s ''b'') \<and>
   spread_activation ''srs'' [demo_artifact ''a'' [''b''] ''h''] ''b'' = Some 1"
proof -
  have "spread_activation ''srs'' [demo_artifact ''a'' [''b''] ''h''] ''b'' = Some 1" by code_simp
  with activation_is_distance [of "''srs''" "[demo_artifact ''a'' [''b''] ''h'']" "''b''" 1]
  show ?thesis by blast
qed

text \<open>C14: A selection keeps the budget and covers what is reachable. When it returns, the tokens it
  counts are those of the selected artifacts and stay within the budget; every registered
  artifact reachable from the stage is selected or omitted, exactly once; the selected ones are
  fresh in the registry as just refreshed and stand by distance and then path; and the selection
  is appended to the audit log.\<close>

theorem selection_keeps_budget:
  assumes "select E sid b (pr, w) = (Inr sel, (pr', w'))"
  shows "\<exists>doc. w_artifacts w' = Doc doc \<and> w_selections w' = w_selections w @ [sel] \<and>
    int (cs_total_tokens sel) \<le> b \<and>
    cs_total_tokens sel = sum_list (map si_token_estimate (cs_selected sel)) \<and>
    distinct (map si_path (cs_selected sel) @ map oi_path (cs_omitted sel)) \<and>
    set (map si_path (cs_selected sel)) \<union> set (map oi_path (cs_omitted sel)) =
      {p \<in> art_path ` set doc. spread_activation sid (map snd (by_path doc)) p \<noteq> None} \<and>
    sorted (map (\<lambda>it. (si_priority it, si_path it)) (cs_selected sel)) \<and>
    (\<forall>it\<in>set (cs_selected sel).
       spread_activation sid (map snd (by_path doc)) (si_path it) = Some (si_priority it) \<and>
       (\<exists>a\<in>set doc. art_path a = si_path it \<and> art_status a = Fresh \<and>
          si_token_estimate it = art_token_estimate a))"
proof -
  from selection_run [OF assms] obtain doc w1 where b: "1 \<le> b" and r: "refresh E w = (Inr doc, w1)"
    and loop: "foldp (consider_artifact sid b (spread_activation sid (map snd (by_path doc))))
        (candidates (spread_activation sid (map snd (by_path doc))) (map snd (by_path doc)))
        (0, [], []) (pr, w1) = (Inr (cs_total_tokens sel, cs_selected sel, cs_omitted sel), (pr', w1))"
    and w': "w_selections w' = w_selections w1 @ [sel]" "w_artifacts w' = w_artifacts w1"
    by (auto simp: Let_def)
  let ?p = "spread_activation sid (map snd (by_path doc))"
  let ?cs = "candidates ?p (map snd (by_path doc))"
  note l = loop_selects [OF loop b candidates_props(2)]
  then have ms: "mset (map si_path (cs_selected sel) @ map oi_path (cs_omitted sel)) = mset (map art_path ?cs)"
    by simp
  have "distinct (map si_path (cs_selected sel) @ map oi_path (cs_omitted sel))"
    using mset_eq_imp_distinct_iff [OF ms] candidates_props(3) values_props(1) by blast
  moreover have "set (map si_path (cs_selected sel)) \<union> set (map oi_path (cs_omitted sel)) =
      {p \<in> art_path ` set doc. ?p p \<noteq> None}"
  proof -
    have "set (map si_path (cs_selected sel)) \<union> set (map oi_path (cs_omitted sel)) = art_path ` set ?cs"
      using mset_eq_setD [OF ms] by simp
    also have "\<dots> = {p \<in> art_path ` set (map snd (by_path doc)). ?p p \<noteq> None}"
      by (auto simp: candidates_props(1))
    finally show ?thesis unfolding values_props(3) .
  qed
  moreover have "?p (si_path it) = Some (si_priority it) \<and> (\<exists>a\<in>set doc. art_path a = si_path it \<and>
      art_status a = Fresh \<and> si_token_estimate it = art_token_estimate a)" if it: "it \<in> set (cs_selected sel)" for it
  proof -
    from l it obtain a where "a \<in> set ?cs" "item_of ?p a it" by blast
    moreover from this(1) have "a \<in> set doc" "?p (art_path a) \<noteq> None"
      using values_props(2) [of doc] by (auto simp: candidates_props(1))
    ultimately show ?thesis by (auto simp: item_of_def)
  qed
  moreover have "sorted (map (\<lambda>it. (si_priority it, si_path it)) (cs_selected sel))"
    using l by (simp add: item_key_def [abs_def])
  ultimately show ?thesis
    using l w' refresh_saved [OF r] unchanged_result [OF refresh_unchanged(1) r] by simp
qed

lemma demo_pruning:
  "case select demo_env ''srs'' 10 (new_pruner, demo_registry) of (r, (pr', w')) \<Rightarrow>
     (case r of Inl _ \<Rightarrow> False
      | Inr sel \<Rightarrow> map si_content (cs_selected sel) = [''new''] \<and> map oi_path (cs_omitted sel) = [''b''])"
  by code_simp

lemma selection_keeps_budget_witness:
  "\<exists>sel pr' w'. select demo_env ''srs'' 10 (new_pruner, demo_registry) = (Inr sel, (pr', w')) \<and>
     map si_content (cs_selected sel) = [''new''] \<and> int (cs_total_tokens sel) \<le> 10"
proof -
  obtain sel pr' w' where run: "select demo_env ''srs'' 10 (new_pruner, demo_registry) = (Inr sel, (pr', w'))"
    and sel: "map si_content (cs_selected sel) = [''new'']"
    using demo_pruning by (auto split: prod.splits sum.splits)
  from selection_keeps_budget [OF run] have "int (cs_total_tokens sel) \<le> 10" by blast
  with run sel show ?thesis by (intro exI conjI)
qed



end
