(* ===== verification/TokenBudget.thy ===== *)
theory TokenBudget imports World begin

text \<open>
  The budget monitor, \<open>context/token_monitor.py\<close>: grading the tokens a session used against its
  budget. The levels are ordered by severity, so that the grading can be stated to be monotone.
\<close>

datatype budget_level = LvOk | LvWarn | LvError

primrec level_rank :: "budget_level \<Rightarrow> nat" where
  "level_rank LvOk = 0"
| "level_rank LvWarn = 1"
| "level_rank LvError = 2"

instantiation budget_level :: linorder
begin

definition less_eq_budget_level :: "budget_level \<Rightarrow> budget_level \<Rightarrow> bool" where
  "less_eq_budget_level a b \<longleftrightarrow> level_rank a \<le> level_rank b"

definition less_budget_level :: "budget_level \<Rightarrow> budget_level \<Rightarrow> bool" where
  "less_budget_level a b \<longleftrightarrow> level_rank a < level_rank b"

instance
proof
  show "x \<le> y \<Longrightarrow> y \<le> x \<Longrightarrow> x = y" for x y :: budget_level
    by (cases x; cases y; simp add: less_eq_budget_level_def)
qed (auto simp: less_eq_budget_level_def less_budget_level_def)

end

primrec level_text :: "budget_level \<Rightarrow> string" where
  "level_text LvOk = ''ok''"
| "level_text LvWarn = ''warn''"
| "level_text LvError = ''error''"

record budget_evaluation =
  be_total_tokens :: int
  be_token_budget :: int
  be_ratio :: real
  be_level :: budget_level

definition default_warn_ratio :: real where
  "default_warn_ratio = 80 / 100"

definition evaluate_session_budget :: "int \<Rightarrow> int \<Rightarrow> real \<Rightarrow> budget_evaluation" where
  "evaluate_session_budget total_tokens token_budget warn_ratio =
     (let budget = max token_budget 0; used = max total_tokens 0;
          ratio = (if budget > 0 then of_int used / of_int budget else if used > 0 then 1 else 0);
          level = (if ratio \<ge> 1 then LvError else if ratio \<ge> warn_ratio then LvWarn else LvOk)
      in \<lparr>be_total_tokens = used, be_token_budget = budget, be_ratio = ratio, be_level = level\<rparr>)"

definition resolve_warn_ratio :: "json_obj \<Rightarrow> real" where
  "resolve_warn_ratio features = (case dict_get features ''token_monitor'' of
       Some (JObj monitor) \<Rightarrow> (case dict_get monitor ''warn_ratio'' of
           Some (JInt i) \<Rightarrow> if 0 < i \<and> i \<le> 1 then of_int i else default_warn_ratio
         | Some (JFloat r) \<Rightarrow> if 0 < r \<and> r \<le> 1 then r else default_warn_ratio
         | _ \<Rightarrow> default_warn_ratio)
     | _ \<Rightarrow> default_warn_ratio)"

lemma warn_ratio_range: "0 < resolve_warn_ratio features \<and> resolve_warn_ratio features \<le> 1"
  by (auto simp: resolve_warn_ratio_def default_warn_ratio_def split: option.splits json.splits)

lemma evaluate_level:
  assumes "0 < wr" and "wr \<le> 1" and "0 < budget"
  shows "be_level (evaluate_session_budget used budget wr) = LvError \<longleftrightarrow> budget \<le> used"
    and "be_level (evaluate_session_budget used budget wr) = LvOk \<longleftrightarrow> of_int used < wr * of_int budget"
proof -
  have b: "0 < wr * of_int budget" "wr * of_int budget \<le> of_int budget" using assms by simp_all
  show "be_level (evaluate_session_budget used budget wr) = LvError \<longleftrightarrow> budget \<le> used"
    using assms by (auto simp: evaluate_session_budget_def Let_def max_def)
  show "be_level (evaluate_session_budget used budget wr) = LvOk \<longleftrightarrow> of_int used < wr * of_int budget"
  proof (cases "0 \<le> used")
    case True
    with assms b show ?thesis
      by (simp add: evaluate_session_budget_def Let_def max_def pos_le_divide_eq)
  next
    case False
    then have "(of_int used :: real) < 0" by simp
    with False assms b show ?thesis by (simp add: evaluate_session_budget_def Let_def max_def)
  qed
qed

lemma ratio_mono:
  "used \<le> used' \<Longrightarrow> budget' \<le> budget \<Longrightarrow>
   be_ratio (evaluate_session_budget used budget wr) \<le> be_ratio (evaluate_session_budget used' budget' wr) \<or>
   1 \<le> be_ratio (evaluate_session_budget used' budget' wr)"
proof (cases "0 < budget'")
  case True
  assume m: "used \<le> used'" "budget' \<le> budget"
  have "of_int (max used 0) / of_int budget \<le> (of_int (max used' 0) / of_int budget' :: real)"
    using m True by (intro frac_le) auto
  with True m show ?thesis by (simp add: evaluate_session_budget_def Let_def)
next
  case False
  assume m: "used \<le> used'" "budget' \<le> budget"
  with False show ?thesis by (auto simp: evaluate_session_budget_def Let_def)
qed

text \<open>Grading is monotone and its thresholds are the documented ones: more tokens or a smaller
  budget never give a milder level; with a ratio resolved from any configuration whatever (which
  always lies above 0 and at most at 1), the level is \<open>error\<close> exactly from full utilization on, and
  \<open>ok\<close> exactly below the warning ratio.\<close>

theorem budget_grading_monotone:
  assumes "used \<le> used'" and "budget' \<le> budget" and "0 < budget'"
  shows "be_level (evaluate_session_budget used budget (resolve_warn_ratio features))
      \<le> be_level (evaluate_session_budget used' budget' (resolve_warn_ratio features)) \<and>
    (be_level (evaluate_session_budget used budget (resolve_warn_ratio features)) = LvError \<longleftrightarrow> budget \<le> used) \<and>
    (be_level (evaluate_session_budget used budget (resolve_warn_ratio features)) = LvOk \<longleftrightarrow>
       of_int used < resolve_warn_ratio features * of_int budget)"
proof -
  let ?r = "resolve_warn_ratio features"
  note wr = warn_ratio_range [of features]
  have lvl: "be_level (evaluate_session_budget u b ?r) =
      (let q = be_ratio (evaluate_session_budget u b ?r) in if q \<ge> 1 then LvError else if q \<ge> ?r then LvWarn else LvOk)" for u b
    by (simp add: evaluate_session_budget_def Let_def)
  have "be_level (evaluate_session_budget used budget ?r) \<le> be_level (evaluate_session_budget used' budget' ?r)"
    using ratio_mono [OF assms(1,2), of ?r] unfolding lvl [of used] lvl [of used'] Let_def
    by (auto simp: less_eq_budget_level_def)
  moreover note evaluate_level [of ?r budget used]
  ultimately show ?thesis using wr assms by simp
qed

lemma budget_grading_monotone_witness:
  "be_level (evaluate_session_budget 1700 2000 (resolve_warn_ratio [])) \<le>
   be_level (evaluate_session_budget 2100 2000 (resolve_warn_ratio []))"
  using budget_grading_monotone [of 1700 2100 2000 2000 "[]"] by simp

end
