(* ===== verification/JsonText.thy ===== *)
theory JsonText imports World begin

text \<open>
  The parts of Python's standard library that turn values into text and numbers: \<open>str(value)\<close>,
  \<open>json.dumps(value, sort_keys=True)\<close> with its escapes, \<open>round(x, 2)\<close>. How a float is written is a
  parameter, \<open>repr\<close>; rounding is on reals, half to even.
\<close>

definition py_str :: "env \<Rightarrow> json \<Rightarrow> string" where
  "py_str E j = (case j of JStr s \<Rightarrow> s | _ \<Rightarrow> str_of E j)"

text \<open>The operations of a value whose type is not known: \<open>value.get(k, d)\<close>, \<open>k in value\<close>, \<open>value[k]\<close> and
  iterating over it, with the errors the interpreter raises.\<close>

fun python_type :: "json \<Rightarrow> string" where
  "python_type JNull = ''NoneType''"
| "python_type (JBool _) = ''bool''"
| "python_type (JInt _) = ''int''"
| "python_type (JFloat _) = ''float''"
| "python_type (JStr _) = ''str''"
| "python_type (JArr _) = ''list''"
| "python_type (JObj _) = ''dict''"

definition quoted :: "string \<Rightarrow> string" where
  "quoted s = [CHR 0x27] @ s @ [CHR 0x27]"

definition no_attribute :: "json \<Rightarrow> string \<Rightarrow> exn" where
  "no_attribute j a = OtherException (quoted (python_type j) @ '' object has no attribute '' @ quoted a)"

definition field :: "json_obj \<Rightarrow> string \<Rightarrow> json \<Rightarrow> json" where
  "field m k d = (case dict_get m k of Some v \<Rightarrow> v | None \<Rightarrow> d)"

definition json_get :: "json \<Rightarrow> string \<Rightarrow> json \<Rightarrow> exn + json" where
  "json_get j k d = (case j of JObj m \<Rightarrow> Inr (field m k d) | _ \<Rightarrow> Inl (no_attribute j ''get''))"

definition json_has :: "string \<Rightarrow> json \<Rightarrow> exn + bool" where
  "json_has k j = (case j of JObj m \<Rightarrow> Inr (dict_get m k \<noteq> None) | JArr xs \<Rightarrow> Inr (JStr k \<in> set xs)
     | JStr s \<Rightarrow> Inr (is_substring k s)
     | _ \<Rightarrow> Inl (TypeError (''argument of type '' @ quoted (python_type j) @ '' is not iterable'')))"

definition json_item :: "json \<Rightarrow> string \<Rightarrow> exn + json" where
  "json_item j k = (case j of
       JObj m \<Rightarrow> (case dict_get m k of Some v \<Rightarrow> Inr v | None \<Rightarrow> Inl (KeyError (quoted k)))
     | JArr _ \<Rightarrow> Inl (TypeError ''list indices must be integers or slices, not str'')
     | JStr _ \<Rightarrow> Inl (TypeError (''string indices must be integers, not '' @ quoted ''str''))
     | _ \<Rightarrow> Inl (TypeError (quoted (python_type j) @ '' object is not subscriptable'')))"

definition json_iter :: "json \<Rightarrow> exn + json list" where
  "json_iter j = (case j of JArr xs \<Rightarrow> Inr xs | JObj m \<Rightarrow> Inr (map (\<lambda>(k, _). JStr k) m)
     | JStr s \<Rightarrow> Inr (map (\<lambda>c. JStr [c]) s)
     | _ \<Rightarrow> Inl (TypeError (quoted (python_type j) @ '' object is not iterable'')))"

lemma json_ops_dict [simp]:
  "json_get (JObj m) k d = Inr (field m k d)"
  "json_has k (JObj m) = Inr (dict_get m k \<noteq> None)"
  "json_item (JObj m) k = (case dict_get m k of Some v \<Rightarrow> Inr v | None \<Rightarrow> Inl (KeyError (quoted k)))"
  "json_iter (JArr xs) = Inr xs"
  by (simp_all add: json_get_def json_has_def json_item_def json_iter_def)

lemma json_get_Inr: "json_get j k d = Inr v \<longleftrightarrow> (\<exists>m. j = JObj m \<and> v = field m k d)"
  by (cases j) (auto simp: json_get_def)

text \<open>\<open>bool(value)\<close>\<close>

definition truthy :: "json \<Rightarrow> bool" where
  "truthy j = (case j of JNull \<Rightarrow> False | JBool b \<Rightarrow> b | JInt i \<Rightarrow> i \<noteq> 0 | JFloat r \<Rightarrow> r \<noteq> 0 | JStr s \<Rightarrow> s \<noteq> []
     | JArr xs \<Rightarrow> xs \<noteq> [] | JObj kvs \<Rightarrow> kvs \<noteq> [])"

text \<open>\<open>value.replace("Z", "+00:00")\<close>, before a time stamp is parsed\<close>

definition utc_suffix :: "string \<Rightarrow> string" where
  "utc_suffix v = concat (map (\<lambda>c. if c = CHR ''Z'' then ''+00:00'' else [c]) v)"

definition quote_char :: char where
  "quote_char = char_of (34::nat)"

definition hex_digit :: "nat \<Rightarrow> char" where
  "hex_digit n = (if n < 10 then char_of (48 + n) else char_of (87 + n))"

definition escape_char :: "char \<Rightarrow> string" where
  "escape_char c = (let n = ord c; b = char_of (92::nat) in
     if n = 34 \<or> n = 92 then [b, c]
     else if n = 8 then [b, CHR ''b'']
     else if n = 9 then [b, CHR ''t'']
     else if n = 10 then [b, CHR ''n'']
     else if n = 12 then [b, CHR ''f'']
     else if n = 13 then [b, CHR ''r'']
     else if n < 32 \<or> 126 < n then [b, CHR ''u'', CHR ''0'', CHR ''0'', hex_digit (n div 16), hex_digit (n mod 16)]
     else [c])"

definition dumps_string :: "string \<Rightarrow> string" where
  "dumps_string s = quote_char # concat (map escape_char s) @ [quote_char]"

text \<open>\<open>repr\<close> of a string: the quote is the double one when the text has single quotes only.\<close>

definition repr_char :: "char \<Rightarrow> char \<Rightarrow> string" where
  "repr_char q c = (let n = ord c; b = char_of (92::nat) in
     if c = q \<or> c = b then [b, c]
     else if n = 9 then [b, CHR ''t'']
     else if n = 10 then [b, CHR ''n'']
     else if n = 13 then [b, CHR ''r'']
     else if n < 32 \<or> (127 \<le> n \<and> n \<le> 160) \<or> n = 173 then [b, CHR ''x'', hex_digit (n div 16), hex_digit (n mod 16)]
     else [c])"

definition py_repr :: "string \<Rightarrow> string" where
  "py_repr s = (let q = (if CHR 0x27 \<in> set s \<and> quote_char \<notin> set s then quote_char else CHR 0x27) in
     q # concat (map (repr_char q) s) @ [q])"

fun json_dumps :: "(real \<Rightarrow> string) \<Rightarrow> json \<Rightarrow> string" where
  "json_dumps repr JNull = ''null''"
| "json_dumps repr (JBool b) = (if b then ''true'' else ''false'')"
| "json_dumps repr (JInt i) = show_int i"
| "json_dumps repr (JFloat r) = repr r"
| "json_dumps repr (JStr s) = dumps_string s"
| "json_dumps repr (JArr xs) = ''['' @ join '', '' (map (json_dumps repr) xs) @ '']''"
| "json_dumps repr (JObj kvs) = ''{'' @ join '', '' (map (\<lambda>(k, v). dumps_string k @ '': '' @ v)
     (sort_key fst (map (\<lambda>(k, v). (k, json_dumps repr v)) kvs))) @ ''}''"

definition round_half_even :: "real \<Rightarrow> int" where
  "round_half_even r = (let f = \<lfloor>r\<rfloor>; d = r - of_int f in
     if d < 1 / 2 then f else if 1 / 2 < d then f + 1 else if even f then f else f + 1)"

definition round_digits :: "nat \<Rightarrow> real \<Rightarrow> real" where
  "round_digits k r = of_int (round_half_even (r * 10 ^ k)) / 10 ^ k"

text \<open>\<open>f"{x:.kf}"\<close> for a number that is not negative, and \<open>f"{x:.0%}"\<close>.\<close>

definition pad_zeros :: "nat \<Rightarrow> string \<Rightarrow> string" where
  "pad_zeros k s = replicate (k - length s) CHR ''0'' @ s"

definition format_fixed :: "nat \<Rightarrow> real \<Rightarrow> string" where
  "format_fixed k r = (let n = nat (round_half_even (r * 10 ^ k)) in
     show_nat (n div 10 ^ k) @ (if k = 0 then [] else ''.'' @ pad_zeros k (show_nat (n mod 10 ^ k))))"

definition format_percent :: "real \<Rightarrow> string" where
  "format_percent r = format_fixed 0 (r * 100) @ ''%''"

lemma round_half_even_bounds: "\<bar>of_int (round_half_even r) - r\<bar> \<le> 1 / 2"
  by (simp add: round_half_even_def Let_def split: if_splits)

lemma round_half_even_mono: "r \<le> s \<Longrightarrow> round_half_even r \<le> round_half_even s"
proof (cases "\<lfloor>r\<rfloor> = \<lfloor>s\<rfloor>")
  case True
  moreover assume "r \<le> s"
  ultimately show ?thesis by (simp add: round_half_even_def Let_def)
next
  case False
  moreover assume "r \<le> s"
  ultimately have "\<lfloor>r\<rfloor> + 1 \<le> \<lfloor>s\<rfloor>" using floor_mono [of r s] by linarith
  moreover have "round_half_even r \<le> \<lfloor>r\<rfloor> + 1" "\<lfloor>s\<rfloor> \<le> round_half_even s"
    by (simp_all add: round_half_even_def Let_def)
  ultimately show ?thesis by linarith
qed

lemma round_digits_mono: "r \<le> s \<Longrightarrow> round_digits k r \<le> round_digits k s"
  by (simp add: round_digits_def divide_right_mono round_half_even_mono mult_right_mono)

end
