(* ===== verification/Lazy.thy ===== *)
theory Lazy imports Lessons Artifacts JsonText begin

text \<open>
  The lazy context builder, \<open>context/lazy.py\<close>, and the skill reader it uses,
  \<open>context/skills_reader.py\<close>: a menu of skills and an index of low-confidence lessons, trimmed to a
  quarter of the token budget. How \<open>json.dumps\<close> writes a float is the parameter \<open>repr\<close>.
\<close>

section \<open>Reading the skill records\<close>

definition is_yaml_name :: "string \<Rightarrow> bool" where
  "is_yaml_name n \<longleftrightarrow> 5 < length n \<and> drop (length n - 5) n = ''.yaml''"

definition file_stem :: "string \<Rightarrow> string" where
  "file_stem n = take (length n - 5) n"

definition set_default :: "'k \<Rightarrow> 'v \<Rightarrow> ('k, 'v) dict \<Rightarrow> ('k, 'v) dict" where
  "set_default k v d = (if dict_get d k = None then dict_set k v d else d)"

definition record_of_file :: "string \<times> json_obj doc_file \<Rightarrow> json_obj option" where
  "record_of_file = (\<lambda>(n, f). if \<not> is_yaml_name n then None
     else (case f of Doc d \<Rightarrow> Some (set_default ''name'' (JStr (file_stem n)) d) | _ \<Rightarrow> None))"

definition list_records :: "world \<Rightarrow> json_obj list" where
  "list_records w = (case w_skills w of None \<Rightarrow> []
     | Some files \<Rightarrow> List.map_filter record_of_file (sort_key fst files))"

definition get_record :: "world \<Rightarrow> string \<Rightarrow> json_obj option" where
  "get_record w n = List.find (\<lambda>r. dict_get r ''name'' = Some (JStr n)) (list_records w)"

section \<open>The menu and the index\<close>

record menu_entry =
  me_name :: string
  me_description :: string

record index_entry =
  ie_id :: string
  ie_summary :: string
  ie_confidence :: real
  ie_tags :: "string list"

definition menu_json :: "menu_entry \<Rightarrow> json" where
  "menu_json e = JObj [(''name'', JStr (me_name e)), (''description'', JStr (me_description e))]"

definition index_json :: "index_entry \<Rightarrow> json" where
  "index_json e = JObj [(''id'', JStr (ie_id e)), (''summary'', JStr (ie_summary e)),
     (''confidence'', JFloat (ie_confidence e)), (''tags'', JArr (map JStr (ie_tags e)))]"

definition entry_tokens :: "(real \<Rightarrow> string) \<Rightarrow> json \<Rightarrow> nat" where
  "entry_tokens repr e = estimate_tokens (json_dumps repr e)"

definition first_line :: "string \<Rightarrow> string" where
  "first_line text = takeWhile (\<lambda>c. \<not> is_line_break c) (strip text)"

text \<open>\<open>record.get("status") in MENU_STATUSES\<close> raises on an unhashable value.\<close>

definition on_menu :: "json_obj \<Rightarrow> exn + bool" where
  "on_menu r = (case dict_get r ''status'' of
       Some (JArr _) \<Rightarrow> Inl (TypeError (''unhashable type: '' @ [CHR 0x27] @ ''list'' @ [CHR 0x27]))
     | Some (JObj _) \<Rightarrow> Inl (TypeError (''unhashable type: '' @ [CHR 0x27] @ ''dict'' @ [CHR 0x27]))
     | Some (JStr s) \<Rightarrow> Inr (s = ''installed'' \<or> s = ''approved'')
     | _ \<Rightarrow> Inr False)"

primrec menu_records :: "json_obj list \<Rightarrow> exn + json_obj list" where
  "menu_records [] = Inr []"
| "menu_records (r # rs) = (case on_menu r of Inl e \<Rightarrow> Inl e
     | Inr keep \<Rightarrow> (case menu_records rs of Inl e \<Rightarrow> Inl e
         | Inr rs' \<Rightarrow> Inr (if keep then r # rs' else rs')))"

definition text_field :: "env \<Rightarrow> string \<Rightarrow> json_obj \<Rightarrow> string" where
  "text_field E k r = (case dict_get r k of None \<Rightarrow> [] | Some v \<Rightarrow> py_str E v)"

definition skill_menu :: "env \<Rightarrow> (world, menu_entry list) prog" where
  "skill_menu E = (\<lambda>w. (case menu_records (list_records w) of Inl e \<Rightarrow> Inl e
     | Inr rs \<Rightarrow> Inr (sort_key me_name (map (\<lambda>r. \<lparr>me_name = text_field E ''name'' r,
         me_description = first_line (text_field E ''description'' r)\<rparr>) rs)), w))"

definition expand_skill :: "string \<Rightarrow> (world, json_obj) prog" where
  "expand_skill n = (\<lambda>w. (case get_record w n of
       None \<Rightarrow> Inl (LazyContextError (''Unknown skill `'' @ n @ ''`.''))
     | Some r \<Rightarrow> Inr r, w))"

definition low_confidence_lessons :: "env \<Rightarrow> string option \<Rightarrow> real \<Rightarrow> (world, lesson list) prog" where
  "low_confidence_lessons E stage_id max_confidence =
     bindp (catchp (lesson_list E (Some LsApproved) stage_id None)
       (\<lambda>e. case e of
          LessonStoreError m \<Rightarrow> throw (LazyContextError (''Could not load lessons for lazy context: '' @ m))
        | _ \<Rightarrow> throw e))
       (\<lambda>ls. ret (filter (\<lambda>l. ls_confidence l < max_confidence) ls))"

definition index_entry_of :: "lesson \<Rightarrow> index_entry" where
  "index_entry_of l = \<lparr>ie_id = ls_id l, ie_summary = take 80 (ls_text l),
     ie_confidence = ls_confidence l, ie_tags = ls_tags l\<rparr>"

definition lesson_index :: "env \<Rightarrow> real \<Rightarrow> string option \<Rightarrow> (world, index_entry list) prog" where
  "lesson_index E max_confidence stage_id =
     bindp (low_confidence_lessons E stage_id max_confidence) (\<lambda>ls. ret (map index_entry_of ls))"

section \<open>Trimming\<close>

record lazy_bundle =
  bu_stage_id :: string
  bu_skills_menu :: "menu_entry list"
  bu_lesson_index :: "index_entry list"
  bu_token_budget :: int
  bu_lazy_tokens :: nat
  bu_trimmed :: "string list"
  bu_within_budget :: bool

definition entry_key :: "index_entry \<Rightarrow> real \<times> string" where
  "entry_key e = (ie_confidence e, ie_id e)"

definition lazy_total :: "(real \<Rightarrow> string) \<Rightarrow> menu_entry list \<Rightarrow> index_entry list \<Rightarrow> nat" where
  "lazy_total repr menu index =
     sum_list (map (entry_tokens repr) (map menu_json menu @ map index_json index))"

lemma arg_min_list_mem: "xs \<noteq> [] \<Longrightarrow> arg_min_list f xs \<in> set xs"
  by (rule arg_min_list_in)

function trim_index :: "(real \<Rightarrow> string) \<Rightarrow> nat \<Rightarrow> menu_entry list \<Rightarrow> index_entry list \<Rightarrow> string list
    \<Rightarrow> index_entry list \<times> string list" where
  "trim_index repr cap menu index trimmed =
     (if cap < lazy_total repr menu index \<and> index \<noteq> []
      then let victim = arg_min_list entry_key index in
        trim_index repr cap menu (remove1 victim index) (trimmed @ [''lesson:'' @ ie_id victim])
      else (index, trimmed))"
  by pat_completeness auto

termination
  by (relation "measure (\<lambda>(repr, cap, menu, index, trimmed). length index)")
    (auto simp: length_remove1 arg_min_list_mem neq_Nil_conv split: if_splits)

function trim_menu :: "(real \<Rightarrow> string) \<Rightarrow> nat \<Rightarrow> index_entry list \<Rightarrow> menu_entry list \<Rightarrow> string list
    \<Rightarrow> menu_entry list \<times> string list" where
  "trim_menu repr cap index menu trimmed =
     (if cap < lazy_total repr menu index \<and> menu \<noteq> []
      then trim_menu repr cap index (butlast menu) (trimmed @ [''skill:'' @ me_name (last menu)])
      else (menu, trimmed))"
  by pat_completeness auto

termination
  by (relation "measure (\<lambda>(repr, cap, index, menu, trimmed). length menu)") auto

declare trim_index.simps [simp del] trim_menu.simps [simp del]

definition lazy_budget :: "int \<Rightarrow> nat" where
  "lazy_budget token_budget = nat (max 1 (token_budget div 4))"

definition build :: "env \<Rightarrow> (real \<Rightarrow> string) \<Rightarrow> string \<Rightarrow> int \<Rightarrow> (world, lazy_bundle) prog" where
  "build E repr stage_id token_budget =
     (if token_budget < 1
      then throw (LazyContextError ''Lazy context token budget must be positive.'')
      else bindp (skill_menu E) (\<lambda>menu. bindp (lesson_index E (7 / 10) (Some stage_id)) (\<lambda>index.
        let cap = lazy_budget token_budget;
            (index', trimmed) = trim_index repr cap menu index [];
            (menu', trimmed') = trim_menu repr cap index' menu trimmed;
            lazy_tokens = lazy_total repr menu' index'
        in ret \<lparr>bu_stage_id = stage_id, bu_skills_menu = menu', bu_lesson_index = index',
             bu_token_budget = token_budget, bu_lazy_tokens = lazy_tokens, bu_trimmed = trimmed',
             bu_within_budget = (lazy_tokens \<le> cap)\<rparr>)))"

record lazy_stats =
  st_eager_tokens :: nat
  st_lazy_tokens :: nat
  st_reduction_pct :: real
  st_budget :: int
  st_within_budget :: bool

definition stats :: "env \<Rightarrow> (real \<Rightarrow> string) \<Rightarrow> string \<Rightarrow> int \<Rightarrow> (world, lazy_stats) prog" where
  "stats E repr stage_id token_budget = bindp (build E repr stage_id token_budget) (\<lambda>b.
     bindp (\<lambda>w. (menu_records (list_records w), w)) (\<lambda>rs.
     bindp (low_confidence_lessons E (Some stage_id) (7 / 10)) (\<lambda>ls.
     let eager = sum_list (map (\<lambda>r. entry_tokens repr (JObj r)) rs)
               + sum_list (map (\<lambda>l. estimate_tokens (ls_text l)) ls);
         lazy = bu_lazy_tokens b
     in ret \<lparr>st_eager_tokens = eager, st_lazy_tokens = lazy,
          st_reduction_pct = (if 0 < eager
            then round_digits 2 ((real eager - real lazy) / real eager * 100) else 0),
          st_budget = token_budget, st_within_budget = bu_within_budget b\<rparr>)))"

section \<open>What trimming does\<close>

lemma estimate_pos_mono: "estimate_tokens s = 0 \<longleftrightarrow> strip s = []"
  by (simp add: estimate_tokens_def Let_def)

lemma trim_index_props:
  assumes "trim_index repr cap menu index trimmed = (index', trimmed')"
  shows "(lazy_total repr menu index' \<le> cap \<or> index' = []) \<and> mset index' \<subseteq># mset index \<and>
    (\<forall>e\<in>#mset index - mset index'. \<forall>k\<in>set index'. entry_key e \<le> entry_key k) \<and>
    (lazy_total repr menu index \<le> cap \<longrightarrow> index' = index \<and> trimmed' = trimmed) \<and>
    length trimmed' + length index' = length trimmed + length index"
  using assms
proof (induction repr cap menu index trimmed rule: trim_index.induct)
  case (1 repr cap menu index trimmed)
  show ?case
  proof (cases "cap < lazy_total repr menu index \<and> index \<noteq> []")
    case False
    with "1.prems" show ?thesis by (subst (asm) trim_index.simps) auto
  next
    case True
    let ?v = "arg_min_list entry_key index"
    have v: "?v \<in> set index" using True by (simp add: arg_min_list_mem)
    have le: "entry_key ?v \<le> entry_key k" if "k \<in> set index" for k
      using True that by (simp add: f_arg_min_list_f)
    from "1.prems" True have run: "trim_index repr cap menu (remove1 ?v index)
        (trimmed @ [''lesson:'' @ ie_id ?v]) = (index', trimmed')"
      by (subst (asm) trim_index.simps) (simp add: Let_def)
    from "1.IH" [OF True refl run] have ih:
      "lazy_total repr menu index' \<le> cap \<or> index' = []" "mset index' \<subseteq># mset (remove1 ?v index)"
      "\<forall>e\<in>#mset (remove1 ?v index) - mset index'. \<forall>k\<in>set index'. entry_key e \<le> entry_key k"
      "length trimmed' + length index' = length (trimmed @ [''lesson:'' @ ie_id ?v]) + length (remove1 ?v index)"
      by blast+
    have sub: "set index' \<subseteq> set index"
      using ih(2) set_remove1_subset [of ?v index] by (metis mset_subset_eqD set_mset_mset subset_iff)
    have split: "mset index = add_mset ?v (mset (remove1 ?v index))" using v by simp
    have "\<forall>e\<in>#mset index - mset index'. \<forall>k\<in>set index'. entry_key e \<le> entry_key k"
    proof (intro ballI)
      fix e k assume e: "e \<in># mset index - mset index'" and k: "k \<in> set index'"
      have "mset index - mset index' = add_mset ?v (mset (remove1 ?v index) - mset index')"
        using split ih(2) by (metis add_mset_add_single multiset_diff_union_assoc union_commute)
      with e have "e = ?v \<or> e \<in># mset (remove1 ?v index) - mset index'" by simp
      with ih(3) k le sub show "entry_key e \<le> entry_key k" by blast
    qed
    moreover have "mset index' \<subseteq># mset index"
      by (rule subset_mset.trans [OF ih(2)]) simp
    moreover have "length (remove1 ?v index) = length index - 1" "index \<noteq> []" using v True by (auto simp: length_remove1)
    ultimately show ?thesis using ih(1,4) True by (cases index) auto
  qed
qed

lemma trim_menu_props:
  assumes "trim_menu repr cap index menu trimmed = (menu', trimmed')"
  shows "(lazy_total repr menu' index \<le> cap \<or> menu' = []) \<and> (\<exists>rest. menu = menu' @ rest) \<and>
    (lazy_total repr menu index \<le> cap \<longrightarrow> menu' = menu \<and> trimmed' = trimmed) \<and>
    length trimmed' + length menu' = length trimmed + length menu"
  using assms
proof (induction repr cap index menu trimmed rule: trim_menu.induct)
  case (1 repr cap index menu trimmed)
  show ?case
  proof (cases "cap < lazy_total repr menu index \<and> menu \<noteq> []")
    case False
    with "1.prems" show ?thesis by (subst (asm) trim_menu.simps) auto
  next
    case True
    with "1.prems" have run: "trim_menu repr cap index (butlast menu)
        (trimmed @ [''skill:'' @ me_name (last menu)]) = (menu', trimmed')"
      by (subst (asm) trim_menu.simps) simp
    from "1.IH" [OF True run] obtain rest where ih:
      "lazy_total repr menu' index \<le> cap \<or> menu' = []" "butlast menu = menu' @ rest"
      "length trimmed' + length menu' = length (trimmed @ [''skill:'' @ me_name (last menu)]) + length (butlast menu)"
      by blast
    have "menu = menu' @ (rest @ [last menu])"
      using ih(2) True by (metis append_butlast_last_id append_assoc)
    moreover from this have "length menu = Suc (length menu' + length rest)"
      by (metis add_Suc_right length_append length_append_singleton)
    ultimately show ?thesis using ih True by (intro conjI exI [of _ "rest @ [last menu]"]) simp_all
  qed
qed

lemma skill_menu_pure: "skill_menu E w = (r, w') \<Longrightarrow> w' = w"
  by (simp add: skill_menu_def)

lemma lesson_index_pure: "lesson_index E mc sid w = (r, w') \<Longrightarrow> w' = w"
  by (auto simp: lesson_index_def low_confidence_lessons_def bindp_run catchp_run throw_run ret_run
      lesson_list_run split: sum.splits exn.splits prod.splits)

section \<open>Property\<close>

text \<open>The lazy context always fits. A bundle that is built is within its budget, a quarter of the
  stage's budget but at least one token, and its token count is that of what it holds. What was
  dropped to get there are the lessons of lowest confidence, then the end of the alphabetical
  skill menu, and no skill was dropped while a lesson was left; everything dropped is recorded,
  and nothing is dropped when everything fits.\<close>

lemma lazy_context_fits:
  assumes "build E repr sid b w = (Inr bu, w')"
  shows "bu_within_budget bu \<and> bu_lazy_tokens bu \<le> nat (max 1 (b div 4)) \<and>
    bu_lazy_tokens bu = lazy_total repr (bu_skills_menu bu) (bu_lesson_index bu) \<and>
    (\<exists>menu index. skill_menu E w = (Inr menu, w) \<and> lesson_index E (7 / 10) (Some sid) w = (Inr index, w) \<and>
       mset (bu_lesson_index bu) \<subseteq># mset index \<and>
       (\<forall>e\<in>#mset index - mset (bu_lesson_index bu). \<forall>k\<in>set (bu_lesson_index bu). entry_key e \<le> entry_key k) \<and>
       (\<exists>rest. menu = bu_skills_menu bu @ rest) \<and>
       (bu_lesson_index bu \<noteq> [] \<longrightarrow> bu_skills_menu bu = menu) \<and>
       length (bu_trimmed bu) + length (bu_lesson_index bu) + length (bu_skills_menu bu) = length index + length menu \<and>
       (lazy_total repr menu index \<le> nat (max 1 (b div 4)) \<longrightarrow>
          bu_skills_menu bu = menu \<and> bu_lesson_index bu = index \<and> bu_trimmed bu = []))"
proof -
  obtain menu index where m: "skill_menu E w = (Inr menu, w)" and i: "lesson_index E (7 / 10) (Some sid) w = (Inr index, w)"
    using assms skill_menu_pure lesson_index_pure
    by (fastforce simp: build_def bindp_run throw_run split: if_splits prod.splits sum.splits)
  let ?cap = "lazy_budget b"
  obtain index' tr where ti: "trim_index repr ?cap menu index [] = (index', tr)"
    by (cases "trim_index repr ?cap menu index []")
  obtain menu' tr' where tm: "trim_menu repr ?cap index' menu tr = (menu', tr')"
    by (cases "trim_menu repr ?cap index' menu tr")
  have bu: "bu = \<lparr>bu_stage_id = sid, bu_skills_menu = menu', bu_lesson_index = index', bu_token_budget = b,
      bu_lazy_tokens = lazy_total repr menu' index', bu_trimmed = tr',
      bu_within_budget = (lazy_total repr menu' index' \<le> ?cap)\<rparr>"
    using assms m i ti tm by (simp add: build_def bindp_run throw_run ret_run Let_def split: if_splits)
  note a = trim_index_props [OF ti] and c = trim_menu_props [OF tm]
  have kept: "menu' = menu" if "index' \<noteq> []" using a c that by blast
  have fits: "lazy_total repr menu' index' \<le> ?cap"
  proof (cases "index' = []")
    case True
    with c show ?thesis by (cases "menu' = []") (auto simp: lazy_total_def)
  next
    case False
    with a kept show ?thesis by auto
  qed
  have "length tr' + length index' + length menu' = length index + length menu"
    using a c by simp
  moreover have "menu' = menu \<and> index' = index \<and> tr' = []" if "lazy_total repr menu index \<le> ?cap"
    using a c that by auto
  ultimately have "skill_menu E w = (Inr menu, w) \<and> lesson_index E (7 / 10) (Some sid) w = (Inr index, w) \<and>
      mset index' \<subseteq># mset index \<and>
      (\<forall>e\<in>#mset index - mset index'. \<forall>k\<in>set index'. entry_key e \<le> entry_key k) \<and>
      (\<exists>rest. menu = menu' @ rest) \<and> (index' \<noteq> [] \<longrightarrow> menu' = menu) \<and>
      length tr' + length index' + length menu' = length index + length menu \<and>
      (lazy_total repr menu index \<le> ?cap \<longrightarrow> menu' = menu \<and> index' = index \<and> tr' = [])"
    using m i a c kept by blast
  with fits show ?thesis unfolding bu lazy_budget_def by simp
qed

definition demo_lazy_world :: world where
  "demo_lazy_world = demo_lesson_world\<lparr>
     w_lessons := Doc \<lparr>ld_schema_version = ''0.1'', ld_lessons = [demo_lesson\<lparr>ls_confidence := 1 / 2\<rparr>]\<rparr>,
     w_skills := Some [(''qa.yaml'', Doc [(''status'', JStr ''installed''), (''description'', JStr ''Run all the tests'')])]\<rparr>"

lemma lazy_context_fits_witness:
  "\<exists>bu w'. build demo_env (\<lambda>_. ''0.5'') ''srs'' 40 demo_lazy_world = (Inr bu, w') \<and> bu_lazy_tokens bu \<le> 10"
proof -
  have m: "fst (skill_menu demo_env demo_lazy_world) = Inr [\<lparr>me_name = ''qa'', me_description = ''Run all the tests''\<rparr>]"
    by code_simp
  have "validate_lesson (demo_lesson\<lparr>ls_confidence := 1 / 2\<rparr>) = Inr (demo_lesson_norm\<lparr>ls_confidence := 1 / 2\<rparr>)"
  proof -
    have "strip '' use tests '' = ''use tests''" "normalize_tags ['' QA'', ''qa'', '' ''] = [''qa'']"
      by code_simp+
    then show ?thesis by (simp add: validate_lesson_def demo_lesson_def demo_lesson_norm_def)
  qed
  then have "lesson_load demo_env demo_lazy_world =
      (Inr \<lparr>ld_schema_version = ''0.1'', ld_lessons = [demo_lesson_norm\<lparr>ls_confidence := 1 / 2\<rparr>]\<rparr>, demo_lazy_world)"
    by (simp add: lesson_load_def demo_lazy_world_def)
  then have "\<exists>i. lesson_index demo_env (7 / 10) (Some ''srs'') demo_lazy_world = (Inr i, demo_lazy_world)"
    by (simp add: lesson_index_def low_confidence_lessons_def lesson_list_def bindp_run catchp_run ret_run Let_def)
  then obtain i where i: "lesson_index demo_env (7 / 10) (Some ''srs'') demo_lazy_world = (Inr i, demo_lazy_world)"
    by blast
  have "\<exists>bu. build demo_env (\<lambda>_. ''0.5'') ''srs'' 40 demo_lazy_world = (Inr bu, demo_lazy_world)"
    using m i by (auto simp: build_def bindp_run ret_run Let_def skill_menu_def case_prod_beta)
  then obtain bu where run: "build demo_env (\<lambda>_. ''0.5'') ''srs'' 40 demo_lazy_world = (Inr bu, demo_lazy_world)"
    by blast
  from lazy_context_fits [OF run] run show ?thesis by auto
qed

end
