(* ===== verification/GlobalMemory.thy ===== *)
theory GlobalMemory imports Lessons begin

text \<open>
  The memory under \<open>~/.forge\<close>: the lessons promoted across projects with their usage,
  \<open>memory/global_store.py\<close>, and the project profiles, \<open>memory/project_profiles.py\<close>. Both stores read
  a file they cannot use as an empty document, so their loading never raises.
\<close>

section \<open>The global lesson store\<close>

definition global_path :: string where
  "global_path = ''~/.forge/memory.yaml''"

definition empty_global :: global_document where
  "empty_global = \<lparr>gd_lessons = [], gd_usage = []\<rparr>"

definition global_load :: "(world, global_document) prog" where
  "global_load = (\<lambda>w. (Inr (case w_global w of
       Doc d \<Rightarrow> (case validate_all (gd_lessons d) of
           Inl _ \<Rightarrow> empty_global
         | Inr ls \<Rightarrow> d\<lparr>gd_lessons := ls\<rparr>)
     | _ \<Rightarrow> empty_global), w))"

definition global_save :: "env \<Rightarrow> global_document \<Rightarrow> (world, unit) prog" where
  "global_save E d = write_file E global_path (\<lambda>w. w\<lparr>w_global := Doc d\<rparr>)"

definition list_global_lessons :: "(world, lesson list) prog" where
  "list_global_lessons = bindp global_load (\<lambda>d. ret (gd_lessons d))"

definition touch_usage :: "string \<Rightarrow> string \<Rightarrow> lesson_usage \<Rightarrow> lesson_usage" where
  "touch_usage t project u = (let paths = add_new (gu_project_paths u) [project] in
     u\<lparr>gu_project_paths := paths, gu_usage_count := int (length paths), gu_last_used_at := t\<rparr>)"

definition record_usage :: "string \<Rightarrow> string \<Rightarrow> string \<Rightarrow> global_document \<Rightarrow> global_document" where
  "record_usage t lid project d =
     (if \<exists>u\<in>set (gd_usage d). gu_lesson_id u = lid
      then d\<lparr>gd_usage := update_first (\<lambda>u. gu_lesson_id u = lid) (touch_usage t project) (gd_usage d)\<rparr>
      else d\<lparr>gd_usage := gd_usage d @ [\<lparr>gu_lesson_id = lid, gu_project_paths = [project],
         gu_usage_count = 1, gu_first_used_at = t, gu_last_used_at = t\<rparr>]\<rparr>)"

definition promote_lesson :: "env \<Rightarrow> lesson \<Rightarrow> string \<Rightarrow> (world, lesson) prog" where
  "promote_lesson E l project = bindp global_load (\<lambda>d.
     case List.find (\<lambda>g. ls_text g = ls_text l) (gd_lessons d) of
       Some g \<Rightarrow> bindp (utc_now E) (\<lambda>t. thenp (global_save E (record_usage t (ls_id g) project d)) (ret g))
     | None \<Rightarrow> bindp (utc_now E) (\<lambda>t. bindp (uuid4 E) (\<lambda>u.
         bindp (lift_result (validate_lesson
           \<lparr>ls_id = ''lesson-'' @ u, ls_text = ls_text l, ls_status = LsApproved,
            ls_confidence = ls_confidence l, ls_tags = ls_tags l, ls_stage_id = ls_stage_id l,
            ls_source = SrcManual, ls_created_at = t, ls_updated_at = t, ls_approved_at = None,
            ls_deprecated_at = None, ls_last_used_at = None, ls_use_count = 0, ls_dormant = False,
            ls_dormant_at = None, ls_metadata =
              [(''promoted_from'', JStr project), (''original_id'', JStr (ls_id l))]\<rparr>)) (\<lambda>g.
         bindp (utc_now E) (\<lambda>t2. thenp (global_save E
             (record_usage t2 (ls_id g) project (d\<lparr>gd_lessons := gd_lessons d @ [g]\<rparr>))) (ret g))))))"

definition get_usage :: "string \<Rightarrow> (world, lesson_usage option) prog" where
  "get_usage lid = bindp global_load (\<lambda>d. ret (List.find (\<lambda>u. gu_lesson_id u = lid) (gd_usage d)))"

record suggestion =
  sg_lesson_id :: string
  sg_text :: string
  sg_usage_count :: int
  sg_projects :: "string list"

definition suggest_one :: "int \<Rightarrow> global_document \<Rightarrow> lesson_usage \<Rightarrow> suggestion option" where
  "suggest_one min_projects d u = (if gu_usage_count u < min_projects then None
     else (case List.find (\<lambda>l. ls_id l = gu_lesson_id u) (gd_lessons d) of
       None \<Rightarrow> None
     | Some l \<Rightarrow> Some \<lparr>sg_lesson_id = ls_id l, sg_text = take 80 (ls_text l),
         sg_usage_count = gu_usage_count u, sg_projects = gu_project_paths u\<rparr>))"

definition suggest_promotions :: "int \<Rightarrow> (world, suggestion list) prog" where
  "suggest_promotions min_projects = bindp global_load (\<lambda>d.
     ret (List.map_filter (suggest_one min_projects d) (gd_usage d)))"

definition wf_global :: "global_document \<Rightarrow> bool" where
  "wf_global d \<longleftrightarrow> list_all wf_lesson (gd_lessons d)"

interpretation global_store: document_store global_load "global_save E" wf_global for E
proof unfold_locales
  fix w show "snd (global_load w) = w" by (simp add: global_load_def)
next
  fix d w w' assume "wf_global d" "global_save E d w = (Inr (), w')"
  then show "fst (global_load w') = Inr d"
    by (auto simp: global_save_def write_file_run global_load_def wf_global_def validate_all_id
        split: if_splits)
next
  fix d w x w' assume "global_save E d w = (Inl x, w')"
  then show "fst (global_load w') = fst (global_load w)"
    by (auto simp: global_save_def write_file_run global_load_def split: if_splits)
next
  fix w d assume "fst (global_load w) = Inr d"
  then show "wf_global d"
    by (auto simp: global_load_def wf_global_def empty_global_def dest: validate_all_wf
        split: doc_file.splits sum.splits)
qed

section \<open>Project profiles\<close>

definition profiles_path :: string where
  "profiles_path = ''~/.forge/profiles.yaml''"

definition profiles_load :: "(world, project_profile list) prog" where
  "profiles_load = (\<lambda>w. (Inr (case w_profiles w of Doc ps \<Rightarrow> ps | _ \<Rightarrow> []), w))"

definition profiles_save :: "env \<Rightarrow> project_profile list \<Rightarrow> (world, unit) prog" where
  "profiles_save E ps = write_file E profiles_path (\<lambda>w. w\<lparr>w_profiles := Doc ps\<rparr>)"

interpretation profile_store: document_store profiles_load "profiles_save E" "\<lambda>_. True" for E
  by unfold_locales
    (auto simp: profiles_load_def profiles_save_def write_file_run split: if_splits)

definition get_profile :: "string \<Rightarrow> (world, project_profile option) prog" where
  "get_profile path = bindp profiles_load (\<lambda>ps. ret (List.find (\<lambda>p. pp_project_path p = path) ps))"

definition fresh_profile :: "string \<Rightarrow> string \<Rightarrow> project_profile" where
  "fresh_profile path t = \<lparr>pp_project_path = path, pp_languages = [], pp_frameworks = [],
     pp_tools = [], pp_patterns = [], pp_last_updated = t\<rparr>"

text \<open>The profile looked up, appended first when there is none.\<close>

definition with_profile :: "env \<Rightarrow> string \<Rightarrow> project_profile list \<Rightarrow> (world, project_profile list) prog" where
  "with_profile E path ps = (if \<exists>p\<in>set ps. pp_project_path p = path then ret ps
     else bindp (utc_now E) (\<lambda>t. ret (ps @ [fresh_profile path t])))"

definition merge_profile :: "string list \<Rightarrow> string list \<Rightarrow> string list \<Rightarrow> string \<Rightarrow> project_profile \<Rightarrow> project_profile" where
  "merge_profile languages frameworks tools t p = p\<lparr>
     pp_languages := add_new (pp_languages p) languages,
     pp_frameworks := add_new (pp_frameworks p) frameworks,
     pp_tools := add_new (pp_tools p) tools, pp_last_updated := t\<rparr>"

definition upsert_profile :: "env \<Rightarrow> string \<Rightarrow> string list \<Rightarrow> string list \<Rightarrow> string list
    \<Rightarrow> (world, project_profile) prog" where
  "upsert_profile E path languages frameworks tools = bindp profiles_load (\<lambda>ps.
     bindp (with_profile E path ps) (\<lambda>ps1. bindp (utc_now E) (\<lambda>t.
     let ps2 = update_first (\<lambda>p. pp_project_path p = path) (merge_profile languages frameworks tools t) ps1 in
     thenp (profiles_save E ps2) (ret (the (List.find (\<lambda>p. pp_project_path p = path) ps2))))))"

definition note_pattern :: "string \<Rightarrow> string \<Rightarrow> project_profile \<Rightarrow> project_profile" where
  "note_pattern pattern t p = p\<lparr>pp_patterns := add_new (pp_patterns p) [pattern], pp_last_updated := t\<rparr>"

definition add_pattern :: "env \<Rightarrow> string \<Rightarrow> string \<Rightarrow> (world, unit) prog" where
  "add_pattern E path pattern = bindp profiles_load (\<lambda>ps.
     bindp (with_profile E path ps) (\<lambda>ps1. bindp (utc_now E) (\<lambda>t.
     profiles_save E (update_first (\<lambda>p. pp_project_path p = path) (note_pattern pattern t) ps1))))"

lemma merge_profile_path [simp]: "pp_project_path (merge_profile a b c t p) = pp_project_path p"
  by (simp add: merge_profile_def)

lemma note_pattern_path [simp]: "pp_project_path (note_pattern x t p) = pp_project_path p"
  by (simp add: note_pattern_def)

lemma find_append_None:
  "List.find P xs = None \<Longrightarrow> List.find P (xs @ [x]) = (if P x then Some x else None)"
  by (induction xs) (auto split: if_splits)

lemma find_append_other: "\<not> P x \<Longrightarrow> List.find P (xs @ [x]) = List.find P xs"
  by (induction xs) auto

lemma with_profile_result:
  assumes "with_profile E path ps w = (r, w')"
  shows "\<exists>ps1 p t. r = Inr ps1 \<and> List.find (\<lambda>p. pp_project_path p = path) ps1 = Some p \<and>
    (List.find (\<lambda>p. pp_project_path p = path) ps = Some p \<or>
     List.find (\<lambda>p. pp_project_path p = path) ps = None \<and> p = fresh_profile path t) \<and>
    (\<forall>q. q \<noteq> path \<longrightarrow> List.find (\<lambda>p. pp_project_path p = q) ps1 = List.find (\<lambda>p. pp_project_path p = q) ps) \<and>
    w_profiles w' = w_profiles w"
proof (cases "List.find (\<lambda>p. pp_project_path p = path) ps")
  case None
  then have "\<not> (\<exists>p\<in>set ps. pp_project_path p = path)" by (auto simp: find_None)
  with assms have r: "r = Inr (ps @ [fresh_profile path (now_at E (w_clock w))])" "w_profiles w' = w_profiles w"
    by (auto simp: with_profile_def bindp_run env_reads ret_run)
  then show ?thesis using None
    by (intro exI [of _ "ps @ [fresh_profile path (now_at E (w_clock w))]"]
          exI [of _ "fresh_profile path (now_at E (w_clock w))"] exI [of _ "now_at E (w_clock w)"])
      (simp add: find_append_None find_append_other fresh_profile_def)
next
  case (Some p)
  then have "\<exists>p\<in>set ps. pp_project_path p = path" using find_Some_set by fastforce
  with assms Some show ?thesis by (auto simp: with_profile_def ret_run)
qed

text \<open>An upsert merges into the project's own profile and leaves every other project's as it is.\<close>

lemma upsert_profile_merges:
  assumes "upsert_profile E path ls fs ts w = (Inr p', w')" and "profile_store.contents w = Inr ps"
  shows "\<exists>ps'. profile_store.contents w' = Inr ps' \<and>
    List.find (\<lambda>p. pp_project_path p = path) ps' = Some p' \<and>
    set (pp_languages p') = set ls \<union> (case List.find (\<lambda>p. pp_project_path p = path) ps of
       None \<Rightarrow> {} | Some p \<Rightarrow> set (pp_languages p)) \<and>
    (\<forall>q. q \<noteq> path \<longrightarrow> List.find (\<lambda>p. pp_project_path p = q) ps' = List.find (\<lambda>p. pp_project_path p = q) ps)"
proof -
  obtain r w1 where wp: "with_profile E path ps w = (r, w1)" by (cases "with_profile E path ps w")
  from with_profile_result [OF wp] obtain ps1 p t where p: "r = Inr ps1"
      "List.find (\<lambda>p. pp_project_path p = path) ps1 = Some p"
      "List.find (\<lambda>p. pp_project_path p = path) ps = Some p \<or>
       List.find (\<lambda>p. pp_project_path p = path) ps = None \<and> p = fresh_profile path t"
      "\<forall>q. q \<noteq> path \<longrightarrow> List.find (\<lambda>p. pp_project_path p = q) ps1 = List.find (\<lambda>p. pp_project_path p = q) ps"
    by blast
  let ?m = "merge_profile ls fs ts (now_at E (w_clock w1))"
  let ?ps2 = "update_first (\<lambda>p. pp_project_path p = path) ?m ps1"
  have f: "List.find (\<lambda>p. pp_project_path p = path) ?ps2 = Some (?m p)"
    using p(2) find_Some_set [OF p(2)] by (intro update_first_find) auto
  have o: "List.find (\<lambda>p. pp_project_path p = q) ?ps2 = List.find (\<lambda>p. pp_project_path p = q) ps1" if "q \<noteq> path" for q
    using that by (intro update_first_find_other) auto
  from assms wp p(1) f obtain w2 where "profiles_save E ?ps2 w2 = (Inr (), w')" "p' = ?m p"
    by (auto simp: upsert_profile_def bindp_run thenp_run profile_store.load_run env_reads ret_run Let_def
        split: prod.splits sum.splits)
  moreover from this(1) have "profile_store.contents w' = Inr ?ps2" by (intro profile_store.save_contents) simp_all
  ultimately show ?thesis using f o p(3,4)
    by (intro exI [of _ ?ps2]) (auto simp: merge_profile_def fresh_profile_def)
qed

section \<open>Usage counts projects\<close>

definition usage_inv :: "global_document \<Rightarrow> bool" where
  "usage_inv d \<longleftrightarrow> distinct (map gu_lesson_id (gd_usage d)) \<and> distinct (map ls_text (gd_lessons d)) \<and>
     (\<forall>u\<in>set (gd_usage d). gu_usage_count u = int (length (gu_project_paths u)) \<and>
        distinct (gu_project_paths u) \<and> gu_lesson_id u \<in> ls_id ` set (gd_lessons d))"

definition projects_of :: "global_document \<Rightarrow> string \<Rightarrow> string list" where
  "projects_of d lid = (case List.find (\<lambda>u. gu_lesson_id u = lid) (gd_usage d) of
     None \<Rightarrow> [] | Some u \<Rightarrow> gu_project_paths u)"

lemma touch_usage_simps [simp]:
  "gu_lesson_id (touch_usage t p u) = gu_lesson_id u"
  "gu_project_paths (touch_usage t p u) = add_new (gu_project_paths u) [p]"
  "gu_usage_count (touch_usage t p u) = int (length (add_new (gu_project_paths u) [p]))"
  by (simp_all add: touch_usage_def Let_def)

lemma record_usage_lessons [simp]: "gd_lessons (record_usage t lid p d) = gd_lessons d"
  by (simp add: record_usage_def)

lemma record_usage_inv:
  assumes "usage_inv d" and "lid \<in> ls_id ` set (gd_lessons d)"
  shows "usage_inv (record_usage t lid p d)"
proof (cases "\<exists>u\<in>set (gd_usage d). gu_lesson_id u = lid")
  case True
  let ?us = "update_first (\<lambda>u. gu_lesson_id u = lid) (touch_usage t p) (gd_usage d)"
  have "gu_usage_count u = int (length (gu_project_paths u)) \<and> distinct (gu_project_paths u) \<and>
      gu_lesson_id u \<in> ls_id ` set (gd_lessons d)" if "u \<in> set ?us" for u
    using set_update_first [OF that] assms unfolding usage_inv_def by (auto split: if_splits)
  moreover have "map gu_lesson_id ?us = map gu_lesson_id (gd_usage d)" by simp
  ultimately show ?thesis using True assms(1) unfolding usage_inv_def record_usage_def
    by (simp del: map_update_first)
next
  case False
  with assms show ?thesis by (auto simp: record_usage_def usage_inv_def)
qed

lemma projects_of_record:
  "projects_of (record_usage t lid p d) k =
     (if k = lid then add_new (projects_of d lid) [p] else projects_of d k)"
proof (cases "List.find (\<lambda>u. gu_lesson_id u = lid) (gd_usage d)")
  case None
  then have no: "\<not> (\<exists>u\<in>set (gd_usage d). gu_lesson_id u = lid)" by (auto simp: find_None)
  have snoc: "List.find P (xs @ [x]) = (case List.find P xs of None \<Rightarrow> if P x then Some x else None | Some y \<Rightarrow> Some y)"
    for P xs and x :: lesson_usage by (induction xs) auto
  from no None show ?thesis by (simp add: projects_of_def record_usage_def snoc split: option.split)
next
  case (Some u)
  then have yes: "\<exists>u\<in>set (gd_usage d). gu_lesson_id u = lid"
    using find_Some_set by fastforce
  let ?us = "update_first (\<lambda>u. gu_lesson_id u = lid) (touch_usage t p) (gd_usage d)"
  have u: "gu_lesson_id u = lid" using find_Some_set [OF Some] by simp
  show ?thesis
  proof (cases "k = lid")
    case True
    have "List.find (\<lambda>u. gu_lesson_id u = lid) ?us = Some (touch_usage t p u)"
      using Some u by (intro update_first_find) simp_all
    with True yes Some show ?thesis by (simp add: projects_of_def record_usage_def)
  next
    case False
    then have "List.find (\<lambda>u. gu_lesson_id u = k) ?us = List.find (\<lambda>u. gu_lesson_id u = k) (gd_usage d)"
      by (intro update_first_find_other) auto
    with False yes show ?thesis by (simp add: projects_of_def record_usage_def)
  qed
qed

lemma promote_cases:
  assumes "promote_lesson E l project w = (Inr g, w')" and "wf_lesson l"
    and d: "global_store.contents w = Inr d"
  shows "ls_text g = ls_text l \<and> (\<exists>t d0. global_store.contents w' = Inr (record_usage t (ls_id g) project d0) \<and>
    g \<in> set (gd_lessons d0) \<and> gd_usage d0 = gd_usage d \<and> wf_global d0 \<and>
    (d0 = d \<or> (d0 = d\<lparr>gd_lessons := gd_lessons d @ [g]\<rparr> \<and> ls_text g \<notin> ls_text ` set (gd_lessons d))))"
proof -
  have wfd: "wf_global d" using global_store.contents_valid [OF d] .
  have save: "global_store.contents w2 = Inr x" if "global_save E x w1 = (Inr (), w2)" "wf_global x" for x w1 w2
    using global_store.save_contents [OF that(2,1)] .
  have wfr: "wf_global (record_usage t i p x) = wf_global x" for t i p x by (simp add: wf_global_def)
  show ?thesis
  proof (cases "List.find (\<lambda>g. ls_text g = ls_text l) (gd_lessons d)")
    case (Some a)
    then have a: "a \<in> set (gd_lessons d)" "ls_text a = ls_text l" using find_Some_set by fastforce+
    from Some assms(1) obtain t w1 where "g = a" and
      "global_save E (record_usage t (ls_id a) project d) w1 = (Inr (), w')"
      by (auto simp: promote_lesson_def bindp_run thenp_run global_store.load_run d ret_run env_reads
          split: prod.splits sum.splits)
    with a wfd wfr save show ?thesis by blast
  next
    case None
    then have fresh: "ls_text l \<notin> ls_text ` set (gd_lessons d)" by (auto simp: find_None)
    from None assms(1) obtain t t2 u w1 where v: "validate_lesson
           \<lparr>ls_id = ''lesson-'' @ u, ls_text = ls_text l, ls_status = LsApproved,
            ls_confidence = ls_confidence l, ls_tags = ls_tags l, ls_stage_id = ls_stage_id l,
            ls_source = SrcManual, ls_created_at = t, ls_updated_at = t, ls_approved_at = None,
            ls_deprecated_at = None, ls_last_used_at = None, ls_use_count = 0, ls_dormant = False,
            ls_dormant_at = None, ls_metadata =
              [(''promoted_from'', JStr project), (''original_id'', JStr (ls_id l))]\<rparr> = Inr g"
      and s: "global_save E (record_usage t2 (ls_id g) project (d\<lparr>gd_lessons := gd_lessons d @ [g]\<rparr>)) w1 = (Inr (), w')"
      by (auto simp: promote_lesson_def bindp_run thenp_run global_store.load_run d ret_run env_reads
          lift_result_run split: prod.splits sum.splits)
    have same: "ls_text g = ls_text l"
      using v assms(2) by (auto simp: validate_lesson_def wf_lesson_iff split: if_splits)
    have "wf_global (d\<lparr>gd_lessons := gd_lessons d @ [g]\<rparr>)"
      using wfd validate_lesson_wf [OF v] by (simp add: wf_global_def)
    then show ?thesis using save [OF s] wfr fresh same
      by (intro conjI exI [of _ t2] exI [of _ "d\<lparr>gd_lessons := gd_lessons d @ [g]\<rparr>"]) auto
  qed
qed

section \<open>Property\<close>

text \<open>Promotion counts projects and never duplicates a lesson. From a store whose usage counts are
  right, promoting a lesson of a project gives a lesson with the same text; the store then holds
  that text once, the lesson's projects are those it had before with this one added at most once,
  no other lesson's projects change, and every usage count is again the number of distinct
  projects.\<close>

lemma promotion_counts_projects:
  assumes "promote_lesson E l project w = (Inr g, w')" and "wf_lesson l"
    and "global_load w = (Inr d, w)" and "usage_inv d"
  shows "ls_text g = ls_text l \<and> (\<exists>d'. global_load w' = (Inr d', w') \<and> usage_inv d' \<and>
    g \<in> set (gd_lessons d') \<and> set (gd_lessons d) \<subseteq> set (gd_lessons d') \<and>
    projects_of d' (ls_id g) = (if project \<in> set (projects_of d (ls_id g)) then projects_of d (ls_id g)
      else projects_of d (ls_id g) @ [project]) \<and>
    (\<forall>k. k \<noteq> ls_id g \<longrightarrow> projects_of d' k = projects_of d k))"
proof -
  have d: "global_store.contents w = Inr d" using assms(3) by (simp add: global_store.contents_def)
  from promote_cases [OF assms(1,2) d] obtain t d0 where same: "ls_text g = ls_text l"
    and c: "global_store.contents w' = Inr (record_usage t (ls_id g) project d0)"
    and g: "g \<in> set (gd_lessons d0)" and u: "gd_usage d0 = gd_usage d"
    and d0: "d0 = d \<or> (d0 = d\<lparr>gd_lessons := gd_lessons d @ [g]\<rparr> \<and> ls_text g \<notin> ls_text ` set (gd_lessons d))"
    by blast
  have "usage_inv d0" using assms(4) d0 by (auto simp: usage_inv_def)
  then have "usage_inv (record_usage t (ls_id g) project d0)" using g by (intro record_usage_inv) auto
  moreover have "projects_of d0 = projects_of d" by (simp add: projects_of_def u fun_eq_iff)
  moreover have "global_load w' = (Inr (record_usage t (ls_id g) project d0), w')"
    using c by (simp add: global_store.load_run)
  ultimately show ?thesis using same g d0
    by (intro conjI exI [of _ "record_usage t (ls_id g) project d0"]) (auto simp: projects_of_record)
qed

definition demo_global :: world where
  "demo_global = empty_world\<lparr>w_global := Doc \<lparr>gd_lessons = [demo_lesson_norm], gd_usage =
     [\<lparr>gu_lesson_id = ''lesson-1'', gu_project_paths = [''/a''], gu_usage_count = 1,
       gu_first_used_at = ''t'', gu_last_used_at = ''t''\<rparr>]\<rparr>\<rparr>"

lemma promotion_counts_projects_witness:
  "\<exists>g w' d'. promote_lesson demo_env demo_lesson_norm ''/b'' demo_global = (Inr g, w') \<and>
     global_load w' = (Inr d', w') \<and> usage_inv d'"
proof -
  let ?d = "\<lparr>gd_lessons = [demo_lesson_norm], gd_usage =
     [\<lparr>gu_lesson_id = ''lesson-1'', gu_project_paths = [''/a''], gu_usage_count = 1,
       gu_first_used_at = ''t'', gu_last_used_at = ''t''\<rparr>]\<rparr>"
  have wf: "wf_lesson demo_lesson_norm" using validate_demo by (rule validate_lesson_wf)
  then have load: "global_load demo_global = (Inr ?d, demo_global)"
    by (simp add: global_load_def demo_global_def wf_lesson_def)
  have inv: "usage_inv ?d" by (simp add: usage_inv_def demo_norm_fields)
  have "\<exists>w'. promote_lesson demo_env demo_lesson_norm ''/b'' demo_global = (Inr demo_lesson_norm, w')"
    by (simp add: promote_lesson_def bindp_run thenp_run load env_reads global_save_def write_file_ok ret_run)
  then obtain w' where run: "promote_lesson demo_env demo_lesson_norm ''/b'' demo_global = (Inr demo_lesson_norm, w')"
    by blast
  from promotion_counts_projects [OF run wf load inv] run show ?thesis by blast
qed

end
