(* ===== verification/Backtrack.thy ===== *)
theory Backtrack imports Artifacts begin

text \<open>
  Rework: the ticket registry, \<open>project/backtrack_registry.py\<close>, and the planner over the artifact
  graph, \<open>project/rework_planner.py\<close>. The breadth-first search of the planner is a function whose
  termination is proved: every path enters the queue at most once after the seeds.
\<close>

section \<open>The ticket registry\<close>

definition tickets_path :: "env \<Rightarrow> string" where
  "tickets_path E = root_path E @ ''/.forge/backtrack.json''"

text \<open>Any failure to read the registry gives an empty one.\<close>

definition tickets_load :: "(world, ticket list) prog" where
  "tickets_load = (\<lambda>w. (Inr (case w_tickets w of Doc ts \<Rightarrow> ts | _ \<Rightarrow> []), w))"

definition tickets_save :: "env \<Rightarrow> ticket list \<Rightarrow> (world, unit) prog" where
  "tickets_save E ts = write_file E (tickets_path E) (\<lambda>w. w\<lparr>w_tickets := Doc ts\<rparr>)"

definition create_ticket :: "env \<Rightarrow> ticket \<Rightarrow> (world, unit) prog" where
  "create_ticket E tk = bindp tickets_load (\<lambda>ts. tickets_save E (ts @ [tk]))"

definition get_ticket :: "string \<Rightarrow> (world, ticket option) prog" where
  "get_ticket tid = bindp tickets_load (\<lambda>ts. ret (List.find (\<lambda>t. tk_id t = tid) ts))"

definition update_ticket :: "env \<Rightarrow> string \<Rightarrow> (ticket \<Rightarrow> ticket) \<Rightarrow> (world, ticket option) prog" where
  "update_ticket E tid f = bindp tickets_load (\<lambda>ts.
     case List.find (\<lambda>t. tk_id t = tid) ts of
       None \<Rightarrow> ret None
     | Some t \<Rightarrow> thenp (tickets_save E (update_first (\<lambda>t. tk_id t = tid) f ts)) (ret (Some (f t))))"

definition list_tickets :: "(world, ticket list) prog" where
  "list_tickets = tickets_load"

interpretation ticket_store: document_store tickets_load "tickets_save E" "\<lambda>_. True" for E
  by unfold_locales (auto simp: tickets_load_def tickets_save_def write_file_run split: if_splits)

section \<open>The affected artifacts\<close>

fun enqueue :: "string list \<Rightarrow> string list \<Rightarrow> string list \<Rightarrow> string list \<times> string list" where
  "enqueue affected queue [] = (affected, queue)"
| "enqueue affected queue (d # ds) =
     (if d \<in> set affected then enqueue affected queue ds
      else enqueue (affected @ [d]) (queue @ [d]) ds)"

lemma enqueue_props:
  assumes "enqueue aff q ds = (aff', q')"
  shows "set aff' = set aff \<union> set ds" "set q \<subseteq> set q'" "set q' \<subseteq> set q \<union> set ds"
    "set aff' - set aff \<subseteq> set q'"
  using assms by (induction aff q ds rule: enqueue.induct) (auto split: if_splits)

definition all_dependents :: "artifact list \<Rightarrow> string set" where
  "all_dependents as = (\<Union>a\<in>set as. set (art_dependents a))"

lemma finite_all_dependents [simp]: "finite (all_dependents as)"
  by (simp add: all_dependents_def)

function affected_search :: "artifact list \<Rightarrow> string list \<Rightarrow> string list \<Rightarrow> string list" where
  "affected_search as affected [] = affected"
| "affected_search as affected (current # queue) =
     (case find_artifact as current of
        None \<Rightarrow> affected_search as affected queue
      | Some a \<Rightarrow> affected_search as (fst (enqueue affected queue (art_dependents a)))
          (snd (enqueue affected queue (art_dependents a))))"
  by pat_completeness auto

termination
proof (relation "measures [\<lambda>(as, aff, q). card (all_dependents as - set aff), \<lambda>(as, aff, q). length q]", goal_cases)
  case 1
  then show ?case by simp
next
  case (2 as affected current queue)
  then show ?case by simp
next
  case (3 as affected current queue a)
  obtain aff' q' where e: "enqueue affected queue (art_dependents a) = (aff', q')"
    by (cases "enqueue affected queue (art_dependents a)")
  note p = enqueue_props [OF e]
  have "a \<in> set as" using find_Some_set [of "\<lambda>a. art_path a = current" as a] 3 by (simp add: find_artifact_def)
  then have sub: "set (art_dependents a) \<subseteq> all_dependents as" by (auto simp: all_dependents_def)
  show ?case
  proof (cases "set (art_dependents a) \<subseteq> set affected")
    case True
    have "enqueue affected queue ds = (affected, queue)" if "set ds \<subseteq> set affected" for ds
      using that by (induction ds) auto
    with True e show ?thesis by simp
  next
    case False
    then have "all_dependents as - set aff' \<subset> all_dependents as - set affected"
      using p(1) sub by auto
    then have "card (all_dependents as - set aff') < card (all_dependents as - set affected)"
      by (intro psubset_card_mono) simp_all
    with e show ?thesis by simp
  qed
qed

definition affected_artifacts :: "env \<Rightarrow> string \<Rightarrow> (world, string list \<times> string list) prog" where
  "affected_artifacts E target = bindp (load_artifacts E) (\<lambda>as.
     let seeds = map art_path (filter (\<lambda>a. art_stage_id a = Some target) as);
         affected = affected_search as seeds seeds;
         stages = sorted_set (List.map_filter (\<lambda>a.
           if art_path a \<in> set affected \<and> art_stage_id a \<noteq> Some target then art_stage_id a else None) as)
     in ret (sorted_set affected, stages))"

definition upper_char :: "char \<Rightarrow> char" where
  "upper_char c = (if 97 \<le> ord c \<and> ord c \<le> 122 then char_of (ord c - 32) else c)"

definition create_backtrack_ticket :: "env \<Rightarrow> string \<Rightarrow> string \<Rightarrow> string \<Rightarrow> (world, string) prog" where
  "create_backtrack_ticket E reason source target = bindp (uuid4_hex E) (\<lambda>u.
     let tid = ''BT-'' @ map upper_char (take 6 u) in
     bindp (affected_artifacts E target) (\<lambda>(affected, stages). bindp (iso_now E) (\<lambda>t.
     thenp (create_ticket E \<lparr>tk_id = tid, tk_status = TkOpen, tk_reason = reason,
         tk_source_stage = source, tk_target_stage = target, tk_affected = affected,
         tk_requires_approval = True, tk_created_at = t, tk_resolved_at = None\<rparr>)
       (ret tid))))"

definition get_downstream_stages :: "env \<Rightarrow> string \<Rightarrow> (world, string list) prog" where
  "get_downstream_stages E target = bindp (affected_artifacts E target) (\<lambda>(_, stages). ret stages)"

definition set_status :: "ticket_status \<Rightarrow> ticket \<Rightarrow> ticket" where
  "set_status s t = t\<lparr>tk_status := s\<rparr>"

definition approve_ticket :: "env \<Rightarrow> string \<Rightarrow> (world, bool) prog" where
  "approve_ticket E tid = bindp (update_ticket E tid (set_status TkApproved)) (\<lambda>r. ret (r \<noteq> None))"

definition stale_at :: "string \<Rightarrow> artifact list \<Rightarrow> artifact list" where
  "stale_at path as = update_first (\<lambda>a. art_path a = path) (\<lambda>a. a\<lparr>art_status := Stale\<rparr>) as"

definition run_rework :: "env \<Rightarrow> string \<Rightarrow> (world, bool) prog" where
  "run_rework E tid = bindp (get_ticket tid) (\<lambda>tk. case tk of
       None \<Rightarrow> ret False
     | Some t \<Rightarrow> if tk_status t \<noteq> TkApproved then ret False
       else bindp (load_artifacts E) (\<lambda>as. thenp (save_artifacts E (fold stale_at (tk_affected t) as))
         (bindp (update_ticket E tid (set_status TkInProgress)) (\<lambda>_. ret True))))"

text \<open>The loop of \<open>resolve_ticket\<close>: each stale artifact of the ticket becomes fresh, at a new time.\<close>

fun clear_stale :: "env \<Rightarrow> string list \<Rightarrow> nat \<Rightarrow> artifact list \<Rightarrow> artifact list \<times> nat" where
  "clear_stale E paths clock [] = ([], clock)"
| "clear_stale E paths clock (a # as) =
     (if art_path a \<in> set paths \<and> art_status a = Stale
      then (let (as', clock') = clear_stale E paths (Suc clock) as in
        (a\<lparr>art_status := Fresh, art_updated_at := now_at E clock\<rparr> # as', clock'))
      else (let (as', clock') = clear_stale E paths clock as in (a # as', clock')))"

definition clear_affected :: "env \<Rightarrow> string list \<Rightarrow> (world, unit) prog" where
  "clear_affected E paths = (if paths = [] then ret ()
     else bindp (load_artifacts E) (\<lambda>as. bindp (asks w_clock) (\<lambda>c.
       let (as', c') = clear_stale E paths c as in
       thenp (updates (\<lambda>w. w\<lparr>w_clock := c'\<rparr>))
         (whenp (\<exists>a\<in>set as. art_path a \<in> set paths \<and> art_status a = Stale) (save_artifacts E as')))))"

definition resolve_ticket :: "env \<Rightarrow> string \<Rightarrow> (world, bool) prog" where
  "resolve_ticket E tid = bindp (get_ticket tid) (\<lambda>tk. case tk of
       None \<Rightarrow> ret False
     | Some t \<Rightarrow> thenp (clear_affected E (tk_affected t))
         (bindp (update_ticket E tid (set_status TkResolved)) (\<lambda>r. ret (r \<noteq> None))))"

section \<open>What the search finds\<close>

definition dependent_edge :: "artifact list \<Rightarrow> string \<Rightarrow> string \<Rightarrow> bool" where
  "dependent_edge as p q \<longleftrightarrow> (\<exists>a. find_artifact as p = Some a \<and> q \<in> set (art_dependents a))"

lemma affected_search_sound:
  "set q \<subseteq> R \<Longrightarrow> set aff \<subseteq> R \<Longrightarrow> (\<And>p r. p \<in> R \<Longrightarrow> dependent_edge as p r \<Longrightarrow> r \<in> R) \<Longrightarrow>
   set (affected_search as aff q) \<subseteq> R"
proof (induction as aff q rule: affected_search.induct)
  case (1 as aff)
  then show ?case by simp
next
  case (2 as aff c q)
  show ?case
  proof (cases "find_artifact as c")
    case None
    with 2 show ?thesis by simp
  next
    case (Some a)
    obtain aff' q' where e: "enqueue aff q (art_dependents a) = (aff', q')"
      by (cases "enqueue aff q (art_dependents a)")
    have "set (art_dependents a) \<subseteq> R" using 2(3,5) Some by (auto simp: dependent_edge_def)
    with enqueue_props(1,3) [OF e] "2.prems" have "set q' \<subseteq> R" "set aff' \<subseteq> R" by auto
    with "2.IH"(2) [OF Some] "2.prems"(3) e Some show ?thesis by simp
  qed
qed

lemma affected_search_closed:
  "set q \<subseteq> set aff \<Longrightarrow> (\<And>p r. p \<in> set aff - set q \<Longrightarrow> dependent_edge as p r \<Longrightarrow> r \<in> set aff) \<Longrightarrow>
   set aff \<subseteq> set (affected_search as aff q) \<and>
   (\<forall>p r. p \<in> set (affected_search as aff q) \<longrightarrow> dependent_edge as p r \<longrightarrow> r \<in> set (affected_search as aff q))"
proof (induction as aff q rule: affected_search.induct)
  case (1 as aff)
  then show ?case by simp
next
  case (2 as aff c q)
  show ?case
  proof (cases "find_artifact as c")
    case None
    then have "\<not> dependent_edge as c r" for r by (simp add: dependent_edge_def)
    then have "r \<in> set aff" if "p \<in> set aff - set q" "dependent_edge as p r" for p r
      using "2.prems"(2) [of p r] that by (cases "p = c") auto
    with "2.IH"(1) [OF None] "2.prems"(1) None show ?thesis by simp
  next
    case (Some a)
    obtain aff' q' where e: "enqueue aff q (art_dependents a) = (aff', q')"
      by (cases "enqueue aff q (art_dependents a)")
    note p = enqueue_props [OF e]
    have "set q' \<subseteq> set aff'" using p(1,3) "2.prems"(1) by auto
    moreover have "r \<in> set aff'" if "x \<in> set aff' - set q'" "dependent_edge as x r" for x r
    proof (cases "x = c")
      case True
      with that Some p(1) show ?thesis by (auto simp: dependent_edge_def)
    next
      case False
      with that p have "x \<in> set aff - set (c # q)" by auto
      with "2.prems"(2) that(2) p(1) show ?thesis by blast
    qed
    ultimately have "set aff' \<subseteq> set (affected_search as aff' q') \<and>
        (\<forall>p r. p \<in> set (affected_search as aff' q') \<longrightarrow> dependent_edge as p r \<longrightarrow> r \<in> set (affected_search as aff' q'))"
      using "2.IH"(2) [OF Some] e by simp
    with p(1) Some e show ?thesis by auto
  qed
qed

lemma affected_search_exact:
  "set (affected_search as seeds seeds) = {p. \<exists>s\<in>set seeds. (dependent_edge as)\<^sup>*\<^sup>* s p}" (is "?L = ?R")
proof
  show "?L \<subseteq> ?R"
    by (rule affected_search_sound) (auto intro: rtranclp.rtrancl_into_rtrancl)
  have c: "set seeds \<subseteq> ?L" "\<And>p r. p \<in> ?L \<Longrightarrow> dependent_edge as p r \<Longrightarrow> r \<in> ?L"
    using affected_search_closed [of seeds seeds as] by auto
  have "(dependent_edge as)\<^sup>*\<^sup>* s p \<Longrightarrow> s \<in> set seeds \<Longrightarrow> p \<in> ?L" for s p
    by (induction rule: rtranclp_induct) (use c in blast)+
  then show "?R \<subseteq> ?L" by auto
qed

lemma stale_at_simps [simp]:
  "map art_path (stale_at p as) = map art_path as" "length (stale_at p as) = length as"
  by (simp_all add: stale_at_def)

lemma fold_stale_paths: "map art_path (fold stale_at ps as) = map art_path as"
  by (induction ps arbitrary: as) simp_all

lemma stale_at_nth:
  "distinct (map art_path as) \<Longrightarrow> j < length as \<Longrightarrow> stale_at p as ! j =
     (if art_path (as ! j) = p then (as ! j)\<lparr>art_status := Stale\<rparr> else as ! j)"
proof (induction as arbitrary: j)
  case Nil
  then show ?case by simp
next
  case (Cons a as)
  show ?case
  proof (cases j)
    case 0
    then show ?thesis by (simp add: stale_at_def)
  next
    case (Suc i)
    have "as ! i \<in> set as" using Cons.prems Suc by simp
    then have "art_path (as ! i) \<in> art_path ` set as" by (rule imageI)
    with Cons.prems have "art_path (as ! i) \<noteq> art_path a" by auto
    with Cons Suc show ?thesis by (auto simp: stale_at_def)
  qed
qed

lemma fold_stale_nth:
  "distinct (map art_path as) \<Longrightarrow> j < length as \<Longrightarrow> fold stale_at ps as ! j =
     (if art_path (as ! j) \<in> set ps then (as ! j)\<lparr>art_status := Stale\<rparr> else as ! j)"
proof (induction ps arbitrary: as)
  case Nil
  then show ?case by simp
next
  case (Cons p ps)
  from Cons.prems have "distinct (map art_path (stale_at p as))" "j < length (stale_at p as)" by simp_all
  from Cons.IH [OF this] Cons.prems show ?case by (simp add: stale_at_nth)
qed

section \<open>The life of a ticket\<close>

text \<open>What the operations do to the status of a ticket. Approving and resolving do not look at the
  status, so both are possible from any.\<close>

inductive ticket_step :: "ticket_status \<Rightarrow> ticket_status \<Rightarrow> bool" where
  approved: "ticket_step s TkApproved"
| started: "ticket_step TkApproved TkInProgress"
| resolved: "ticket_step s TkResolved"

code_pred ticket_step .

inductive_simps ticket_step_in_progress: "ticket_step s TkInProgress"
inductive_cases ticket_step_cases: "ticket_step s t"

interpretation ticket_life: transition_system "\<lambda>s. s = TkOpen" ticket_step "\<lambda>s. s \<noteq> TkRejected"
  by unfold_locales (auto elim: ticket_step_cases)

lemma ticket_in_progress_approved: "ticket_step\<^sup>*\<^sup>* TkOpen s \<Longrightarrow> s = TkInProgress \<Longrightarrow> ticket_step\<^sup>*\<^sup>* TkOpen TkApproved"
  by (auto intro: ticket_step.intros)

definition tickets_of :: "world \<Rightarrow> ticket list" where
  "tickets_of w = (case w_tickets w of Doc ts \<Rightarrow> ts | _ \<Rightarrow> [])"

definition status_of :: "world \<Rightarrow> string \<Rightarrow> ticket_status option" where
  "status_of w tid = map_option tk_status (List.find (\<lambda>t. tk_id t = tid) (tickets_of w))"

lemma tickets_load_run: "tickets_load w = (Inr (tickets_of w), w)"
  by (simp add: tickets_load_def tickets_of_def)

lemma update_ticket_result:
  assumes "update_ticket E tid (set_status s) w = (Inr r, w')"
  shows "case r of None \<Rightarrow> List.find (\<lambda>t. tk_id t = tid) (tickets_of w) = None \<and> w' = w
    | Some _ \<Rightarrow> status_of w' tid = Some s \<and> status_of w tid \<noteq> None \<and>
        (\<forall>k. k \<noteq> tid \<longrightarrow> status_of w' k = status_of w k) \<and> w_artifacts w' = w_artifacts w"
proof (cases "List.find (\<lambda>t. tk_id t = tid) (tickets_of w)")
  case None
  with assms show ?thesis by (auto simp: update_ticket_def bindp_run tickets_load_run ret_run)
next
  case (Some t)
  let ?ts = "update_first (\<lambda>t. tk_id t = tid) (set_status s) (tickets_of w)"
  from Some assms have r: "r = Some (set_status s t)" and w': "w_tickets w' = Doc ?ts" "w_artifacts w' = w_artifacts w"
    by (auto simp: update_ticket_def bindp_run thenp_run tickets_load_run ret_run tickets_save_def write_file_run
        split: if_splits)
  have "List.find (\<lambda>t. tk_id t = tid) ?ts = Some (set_status s t)"
    using find_Some_set [OF Some] Some by (intro update_first_find) (auto simp: set_status_def)
  moreover have "List.find (\<lambda>t. tk_id t = k) ?ts = List.find (\<lambda>t. tk_id t = k) (tickets_of w)" if "k \<noteq> tid" for k
    using that by (intro update_first_find_other) (auto simp: set_status_def)
  ultimately show ?thesis using r w' Some by (simp add: status_of_def tickets_of_def set_status_def)
qed

lemma load_artifacts_same: "w_artifacts w = w_artifacts v \<Longrightarrow> fst (load_artifacts E w) = fst (load_artifacts E v)"
  by (simp add: load_artifacts_def)

lemma save_artifacts_unchanged:
  "unchanged w_tickets (save_artifacts E as)" "unchanged w_fs (save_artifacts E as)"
  by (auto simp: unchanged_def save_artifacts_def prog_simps)

section \<open>Properties\<close>

text \<open>C16: The impact of reworking a stage is computed completely, and the search always ends. Whenever
  the registry can be read, the planner returns the sorted paths that are reachable along the
  dependents from the artifacts of the stage, each once, cycles included; and the sorted stages,
  other than the target, that own one of them.\<close>

theorem rework_impact_is_reachability:
  assumes "load_artifacts E w = (Inr as, w)"
  shows "\<exists>affected stages. affected_artifacts E target w = (Inr (affected, stages), w) \<and>
    set affected = {p. \<exists>a\<in>set as. art_stage_id a = Some target \<and> (dependent_edge as)\<^sup>*\<^sup>* (art_path a) p} \<and>
    sorted affected \<and> distinct affected \<and>
    set stages = {s. s \<noteq> target \<and> (\<exists>a\<in>set as. art_stage_id a = Some s \<and> art_path a \<in> set affected)} \<and>
    sorted stages \<and> distinct stages"
proof -
  let ?seeds = "map art_path (filter (\<lambda>a. art_stage_id a = Some target) as)"
  let ?aff = "affected_search as ?seeds ?seeds"
  let ?st = "List.map_filter (\<lambda>a. if art_path a \<in> set ?aff \<and> art_stage_id a \<noteq> Some target
    then art_stage_id a else None) as"
  have run: "affected_artifacts E target w = (Inr (sorted_set ?aff, sorted_set ?st), w)"
    using assms by (simp add: affected_artifacts_def bindp_run ret_run Let_def)
  have "set ?aff = {p. \<exists>a\<in>set as. art_stage_id a = Some target \<and> (dependent_edge as)\<^sup>*\<^sup>* (art_path a) p}"
    unfolding affected_search_exact by auto
  moreover have "set ?st = {s. s \<noteq> target \<and> (\<exists>a\<in>set as. art_stage_id a = Some s \<and> art_path a \<in> set ?aff)}"
    by (force simp: List.map_filter_def image_iff split: if_splits)
  ultimately show ?thesis using run by simp
qed

lemma rework_impact_is_reachability_witness:
  "\<exists>affected stages. affected_artifacts demo_env ''srs'' demo_registry = (Inr (affected, stages), demo_registry) \<and>
     sorted affected \<and> distinct affected"
  using rework_impact_is_reachability [OF demo_registry_load, of "''srs''"] by (elim exE conjE) (intro exI conjI)

text \<open>Rework needs an approved ticket. \<open>run_rework\<close> returns true only for a ticket that is approved,
  which is then in progress, and every registered artifact it names is stale while the others, and
  the other tickets, are as they were; otherwise it returns false and nothing has changed.\<close>

lemma rework_needs_approval:
  assumes "run_rework E tid w = (Inr b, w')"
  shows "(b \<longrightarrow> status_of w tid = Some TkApproved \<and> status_of w' tid = Some TkInProgress \<and>
      (\<forall>k. k \<noteq> tid \<longrightarrow> status_of w' k = status_of w k) \<and>
      (\<exists>t as as'. List.find (\<lambda>t. tk_id t = tid) (tickets_of w) = Some t \<and> load_artifacts E w = (Inr as, w) \<and>
         w_artifacts w' = Doc as' \<and> map art_path as' = map art_path as \<and>
         (distinct (map art_path as) \<longrightarrow> (\<forall>j<length as. as' ! j =
            (if art_path (as ! j) \<in> set (tk_affected t) then (as ! j)\<lparr>art_status := Stale\<rparr> else as ! j))))) \<and>
    (\<not> b \<longrightarrow> status_of w tid \<noteq> Some TkApproved \<and> w' = w)"
proof (cases "List.find (\<lambda>t. tk_id t = tid) (tickets_of w)")
  case None
  with assms show ?thesis
    by (auto simp: run_rework_def get_ticket_def bindp_run tickets_load_run ret_run status_of_def)
next
  case (Some t)
  show ?thesis
  proof (cases "tk_status t = TkApproved")
    case False
    with Some assms show ?thesis
      by (auto simp: run_rework_def get_ticket_def bindp_run tickets_load_run ret_run status_of_def)
  next
    case True
    with Some assms obtain as w0 w1 r where b: "b = True" and load: "load_artifacts E w = (Inr as, w0)"
      and save: "save_artifacts E (fold stale_at (tk_affected t) as) w0 = (Inr (), w1)"
      and upd: "update_ticket E tid (set_status TkInProgress) w1 = (Inr r, w')"
      by (auto simp: run_rework_def get_ticket_def bindp_run thenp_run tickets_load_run ret_run
          split: prod.splits sum.splits)
    have w0: "w0 = w" using load_artifacts_pure [OF load] .
    have tk: "tickets_of w1 = tickets_of w"
      using unchanged_result [OF save_artifacts_unchanged(1) save] w0 by (simp add: tickets_of_def)
    then have st: "status_of w1 k = status_of w k" for k by (simp add: status_of_def)
    obtain t' where "r = Some t'"
      using update_ticket_result [OF upd] Some tk by (cases r) auto
    with update_ticket_result [OF upd] have u: "status_of w' tid = Some TkInProgress"
      "\<forall>k. k \<noteq> tid \<longrightarrow> status_of w' k = status_of w k" "w_artifacts w' = w_artifacts w1" by (simp_all add: st)
    have "w_artifacts w' = Doc (fold stale_at (tk_affected t) as)"
      using save_artifacts_run [OF save] u(3) by simp
    moreover have "status_of w tid = Some TkApproved" using Some True by (simp add: status_of_def)
    moreover have "load_artifacts E w = (Inr as, w)" using load w0 by simp
    ultimately show ?thesis using u b Some fold_stale_paths [of "tk_affected t" as] fold_stale_nth [of as]
      by blast
  qed
qed

definition demo_ticket :: ticket where
  "demo_ticket = \<lparr>tk_id = ''BT-1'', tk_status = TkApproved, tk_reason = ''r'', tk_source_stage = ''plan'',
     tk_target_stage = ''srs'', tk_affected = [''a''], tk_requires_approval = True,
     tk_created_at = ''t'', tk_resolved_at = None\<rparr>"

lemma rework_needs_approval_witness:
  "\<exists>w'. run_rework demo_env ''BT-1'' (demo_registry\<lparr>w_tickets := Doc [demo_ticket]\<rparr>) = (Inr True, w') \<and>
     status_of w' ''BT-1'' = Some TkInProgress"
proof -
  let ?w = "demo_registry\<lparr>w_tickets := Doc [demo_ticket]\<rparr>"
  have "\<exists>r. load_artifacts demo_env ?w = (Inr r, ?w)"
    using demo_registry_load load_artifacts_same [of ?w demo_registry demo_env]
    by (simp add: load_artifacts_def)
  then have "\<exists>w'. run_rework demo_env ''BT-1'' ?w = (Inr True, w')"
    by (auto simp: run_rework_def get_ticket_def bindp_run thenp_run tickets_load_run tickets_of_def ret_run demo_ticket_def
        save_artifacts_def write_file_ok update_ticket_def tickets_save_def)
  then obtain w' where run: "run_rework demo_env ''BT-1'' ?w = (Inr True, w')" by blast
  from rework_needs_approval [OF run] run show ?thesis by blast
qed

end
