(* ===== verification/Security.thy ===== *)
theory Security imports Gates begin

text \<open>
  The security audit log, \<open>project/security_audit.py\<close>, and the enforcer,
  \<open>project/security_enforcer.py\<close>: deciding an action from the profile, auditing the decision, and
  running a command only when it is not denied.
\<close>

section \<open>The audit log\<close>

definition audit_path :: "env \<Rightarrow> string" where
  "audit_path E = root_path E @ ''/.forge/security-audit.jsonl''"

definition audit_entries :: "world \<Rightarrow> audit_entry list" where
  "audit_entries w = (case w_audit w of None \<Rightarrow> [] | Some es \<Rightarrow> es)"

definition audit_log :: "env \<Rightarrow> audit_entry \<Rightarrow> (world, unit) prog" where
  "audit_log E e = write_file E (audit_path E) (\<lambda>w. w\<lparr>w_audit := Some (audit_entries w @ [e])\<rparr>)"

definition audit_read_all :: "(world, audit_entry list) prog" where
  "audit_read_all = asks audit_entries"

interpretation security_audit: journal "audit_log E" audit_entries for E
  by unfold_locales (auto simp: audit_log_def write_file_run audit_entries_def split: if_splits)

section \<open>Deciding an action\<close>

definition matching_rule :: "security_profile \<Rightarrow> string option \<Rightarrow> capability_rule option" where
  "matching_rule prof capability =
     List.find (\<lambda>r. Some (cr_capability r) = capability) (sp_capabilities prof)"

definition effective_policy :: "security_profile \<Rightarrow> string option \<Rightarrow> security_policy" where
  "effective_policy prof capability = (case matching_rule prof capability of
     Some r \<Rightarrow> cr_policy r | None \<Rightarrow> sp_default_policy prof)"

primrec decide :: "security_policy \<Rightarrow> security_decision" where
  "decide PolAllow = DecAllowed"
| "decide PolDeny = DecDenied"
| "decide PolPrompt = DecWarned"

definition audit :: "env \<Rightarrow> string \<Rightarrow> json_obj \<Rightarrow> string \<Rightarrow> json \<Rightarrow> string option \<Rightarrow> security_decision
    \<Rightarrow> string \<Rightarrow> (world, unit) prog" where
  "audit E prefix actor action target capability decision why =
     bindp (epoch_ms E) (\<lambda>ms. bindp (iso_now E) (\<lambda>t.
       audit_log E \<lparr>ae_audit_id = prefix @ show_int ms, ae_timestamp = t, ae_actor = actor,
         ae_action = action, ae_target = target, ae_capability = capability,
         ae_decision = decision, ae_reason = Some why\<rparr>))"

definition validate_action :: "env \<Rightarrow> security_profile \<Rightarrow> json_obj \<Rightarrow> string \<Rightarrow> json \<Rightarrow> string option
    \<Rightarrow> (world, security_decision) prog" where
  "validate_action E prof actor action target capability =
     (let policy = effective_policy prof capability; decision = decide policy in
      thenp (whenp (sp_audit_enabled prof)
          (audit E ''AUD-'' actor action target capability decision
             (''Policy '' @ policy_text policy @ '' applied'')))
        (ret decision))"

definition command_json :: "string list \<Rightarrow> json" where
  "command_json cmd = JArr (map JStr cmd)"

definition effective_timeout :: "int option \<Rightarrow> int" where
  "effective_timeout t = (case t of None \<Rightarrow> 30 | Some n \<Rightarrow> if n = 0 then 30 else n)"

definition run_secured :: "env \<Rightarrow> security_profile \<Rightarrow> json_obj \<Rightarrow> string list \<Rightarrow> int option
    \<Rightarrow> (world, int \<times> string \<times> string) prog" where
  "run_secured E prof actor cmd timeout =
     bindp (validate_action E prof actor ''execute_command'' (command_json cmd) (Some ''shell'')) (\<lambda>decision.
       if decision = DecDenied
       then throw (PermissionError (''Command execution denied by security profile: '' @ str_of E (command_json cmd)))
       else let limit = effective_timeout timeout in
         catchp (subprocess_run E cmd limit) (\<lambda>e. case e of
             TimeoutExpired _ \<Rightarrow> thenp (whenp (sp_audit_enabled prof)
                 (audit E ''AUD-TO-'' actor ''execute_command_timeout'' (command_json cmd) (Some ''shell'')
                    DecFailed (''Command timed out after '' @ show_int limit @ ''s'')))
               (throw e)
           | _ \<Rightarrow> throw e))"

section \<open>What is audited\<close>

definition audit_of :: "string \<Rightarrow> json \<Rightarrow> security_decision \<Rightarrow> audit_entry \<Rightarrow> bool" where
  "audit_of action target decision e \<longleftrightarrow>
     ae_action e = action \<and> ae_target e = target \<and> ae_decision e = decision"

lemma audit_ok:
  assumes "audit E prefix actor action target cap dec why w = (Inr (), w')"
  shows "\<exists>e. audit_of action target dec e \<and> audit_entries w' = audit_entries w @ [e]"
  using assms by (auto simp: audit_def env_reads prog_simps audit_log_def audit_entries_def audit_of_def split: if_splits)

lemma audit_grows:
  assumes "audit E prefix actor action target cap dec why w = (r, w')"
  shows "\<exists>es. audit_entries w' = audit_entries w @ es"
  using assms
  by (auto simp: audit_def env_reads prog_simps audit_log_def audit_entries_def split: if_splits)

lemma audit_keeps_files: "unchanged w_fs (audit E prefix actor action target cap dec why)"
  by (auto simp: unchanged_def audit_def env_reads prog_simps audit_log_def)

lemma validate_action_run:
  assumes "validate_action E prof actor action target cap w = (r, w')"
  shows "w_fs w' = w_fs w \<and> (\<exists>es. audit_entries w' = audit_entries w @ es) \<and>
    (\<forall>d. r = Inr d \<longrightarrow> d = decide (effective_policy prof cap) \<and>
       (sp_audit_enabled prof \<longrightarrow> (\<exists>e. audit_of action target d e \<and> audit_entries w' = audit_entries w @ [e])))"
proof (cases "sp_audit_enabled prof")
  case False
  with assms show ?thesis by (auto simp: validate_action_def Let_def prog_simps)
next
  case True
  let ?d = "decide (effective_policy prof cap)"
  let ?a = "audit E ''AUD-'' actor action target cap ?d (''Policy '' @ policy_text (effective_policy prof cap) @ '' applied'')"
  obtain r1 w1 where a: "?a w = (r1, w1)" by (cases "?a w")
  with True assms have r: "w' = w1" "r = (case r1 of Inl e \<Rightarrow> Inl e | Inr _ \<Rightarrow> Inr ?d)"
    by (auto simp: validate_action_def Let_def thenp_run whenp_run ret_run split: sum.splits)
  show ?thesis
    using r audit_grows [OF a] unchanged_result [OF audit_keeps_files a] audit_ok [of E _ actor action target cap ?d _ w w1] a
    by (cases r1) auto
qed

section \<open>Property\<close>

text \<open>C17: A denied command never runs, and with auditing on nothing runs unaudited. When the rule for
  \<open>shell\<close>, or the default of the profile, denies, \<open>run_command\<close> raises and the files are as they
  were. When the command returns a result, the policy did not deny it and, if the profile audits,
  an entry with the decision was written for this very command. Whatever happens,
  the audit log only grows.\<close>

theorem denied_commands_never_run:
  assumes "run_secured E prof actor cmd timeout w = (r, w')"
  shows "(effective_policy prof (Some ''shell'') = PolDeny \<longrightarrow> (\<exists>e. r = Inl e) \<and> w_fs w' = w_fs w) \<and>
    (\<forall>out. r = Inr out \<longrightarrow> effective_policy prof (Some ''shell'') \<noteq> PolDeny \<and>
       (sp_audit_enabled prof \<longrightarrow> (\<exists>e. audit_entries w' = audit_entries w @ [e] \<and>
          audit_of ''execute_command'' (command_json cmd) (decide (effective_policy prof (Some ''shell''))) e))) \<and>
    (\<exists>es. audit_entries w' = audit_entries w @ es)"
proof -
  let ?v = "validate_action E prof actor ''execute_command'' (command_json cmd) (Some ''shell'')"
  let ?p = "effective_policy prof (Some ''shell'')"
  obtain r1 w1 where v: "?v w = (r1, w1)" by (cases "?v w")
  note val = validate_action_run [OF v]
  show ?thesis
  proof (cases r1)
    case (Inl e)
    with assms v val show ?thesis by (auto simp: run_secured_def bindp_run)
  next
    case (Inr d)
    with val have d: "d = decide ?p" by simp
    show ?thesis
    proof (cases "d = DecDenied")
      case True
      with d have "?p = PolDeny" by (cases ?p) auto
      with assms v val Inr True show ?thesis by (auto simp: run_secured_def bindp_run throw_run)
    next
      case False
      with d have np: "?p \<noteq> PolDeny" by auto
      obtain r2 w2 where s: "subprocess_run E cmd (effective_timeout timeout) w1 = (r2, w2)"
        by (cases "subprocess_run E cmd (effective_timeout timeout) w1")
      then have a2: "audit_entries w2 = audit_entries w1"
        by (auto simp: subprocess_run_def Let_def audit_entries_def split: prod.splits)
      show ?thesis
      proof (cases r2)
        case (Inr out)
        with assms v \<open>r1 = Inr d\<close> False s have "r = Inr out" "w' = w2"
          by (simp_all add: run_secured_def bindp_run catchp_run Let_def)
        with val \<open>r1 = Inr d\<close> d np a2 show ?thesis by auto
      next
        case (Inl e)
        let ?to = "whenp (sp_audit_enabled prof) (audit E ''AUD-TO-'' actor ''execute_command_timeout''
          (command_json cmd) (Some ''shell'') DecFailed
          (''Command timed out after '' @ show_int (effective_timeout timeout) @ ''s''))"
        obtain r3 w3 where to: "?to w2 = (r3, w3)" by (cases "?to w2")
        then have "\<exists>es. audit_entries w3 = audit_entries w2 @ es"
          using audit_grows by (cases "sp_audit_enabled prof") (auto simp: whenp_run)
        moreover have "(\<exists>x. r = Inl x) \<and> (w' = w2 \<or> w' = w3)"
          using assms v \<open>r1 = Inr d\<close> False s Inl to
          by (cases e) (auto simp: run_secured_def bindp_run catchp_run thenp_run throw_run Let_def split: sum.splits)
        ultimately show ?thesis using val np a2 by auto
      qed
    qed
  qed
qed

definition demo_security :: security_profile where
  "demo_security = \<lparr>sp_profile_id = ''strict'', sp_default_policy = PolAllow, sp_capabilities =
     [\<lparr>cr_capability = ''shell'', cr_policy = PolDeny, cr_requires_approval = False, cr_timeout_seconds = None\<rparr>],
     sp_audit_enabled = True\<rparr>"

lemma denied_commands_never_run_witness:
  "\<exists>e w'. run_secured demo_env demo_security [] [''rm'', ''x''] None empty_world = (Inl e, w') \<and>
     w_fs w' = w_fs empty_world \<and> (\<exists>es. audit_entries w' = audit_entries empty_world @ es)"
proof -
  obtain r w' where run: "run_secured demo_env demo_security [] [''rm'', ''x''] None empty_world = (r, w')"
    by (cases "run_secured demo_env demo_security [] [''rm'', ''x''] None empty_world")
  have "effective_policy demo_security (Some ''shell'') = PolDeny"
    by (simp add: effective_policy_def matching_rule_def demo_security_def)
  with denied_commands_never_run [OF run] run show ?thesis by blast
qed

end
