(* ===== verification/Channels.thy ===== *)
theory Channels imports Security Events JsonText begin

text \<open>
  The channel subsystem, \<open>channels/\<close>: identities bound by a confirmed pairing code, the default-deny
  authorization of channel actions, the feedback queue with its deduplication and rate limit, and the
  normalization of messages into lifecycle events.
\<close>

section \<open>Messages and adapters (normalize.py, base.py, console.py)\<close>

definition normalize_message :: "env \<Rightarrow> channel_message \<Rightarrow> (world, lifecycle_event) prog" where
  "normalize_message E m = new_event E ''UserPromptSubmit'' None None None ''channel'' (cm_sender m)
     [(''channel_id'', JStr (cm_channel_id m)), (''text'', JStr (cm_text m)),
      (''trust_level'', JStr (trust_text (cm_trust_level m))), (''source'', JStr ''channel'')]"

definition on_message :: "env \<Rightarrow> string \<Rightarrow> string \<Rightarrow> string \<Rightarrow> (world, lifecycle_event) prog" where
  "on_message E channel_id text sender = normalize_message E
     \<lparr>cm_channel_id = channel_id, cm_sender = sender, cm_text = text, cm_trust_level = Untrusted\<rparr>"

definition base_send_message :: "string \<Rightarrow> (world, unit) prog" where
  "base_send_message text = throw NotImplementedError"

definition console_on_message :: "env \<Rightarrow> string \<Rightarrow> string \<Rightarrow> (world, lifecycle_event) prog" where
  "console_on_message E = on_message E ''console''"

lemma on_message_untrusted:
  "\<exists>ev w'. on_message E c t s w = (Inr ev, w') \<and> ev_type ev = ''UserPromptSubmit'' \<and>
     ev_actor ev = \<lparr>ea_type = ''channel'', ea_id = s\<rparr> \<and>
     dict_get (ev_payload ev) ''trust_level'' = Some (JStr ''untrusted'') \<and>
     dict_get (ev_payload ev) ''text'' = Some (JStr t)"
  by (simp add: on_message_def normalize_message_def new_event_def prog_simps event_types_def dict_get_def)

section \<open>Identities (identity.py)\<close>

definition identities_path :: "env \<Rightarrow> string" where
  "identities_path E = root_path E @ ''/.forge/channels/identities.json''"

definition identities_load :: "(world, channel_identity list) prog" where
  "identities_load = (\<lambda>w. (case w_identities w of
       Absent \<Rightarrow> Inr []
     | Doc is \<Rightarrow> Inr is
     | Unreadable \<Rightarrow> Inl (OSError ''identities.json'')
     | BadSyntax \<Rightarrow> Inl (ValueError ''identities.json'')
     | EmptyDoc \<Rightarrow> Inl (ValueError ''identities.json'')
     | NotMapping \<Rightarrow> Inl (OtherException ''identities.json'')
     | BadShape m \<Rightarrow> Inl (ValidationError m), w))"

definition identities_write :: "env \<Rightarrow> channel_identity list \<Rightarrow> (world, unit) prog" where
  "identities_write E is = write_file E (identities_path E) (\<lambda>w. w\<lparr>w_identities := Doc is\<rparr>)"

interpretation identity_store: document_store identities_load "identities_write E" "\<lambda>_. True" for E
  by unfold_locales (auto simp: identities_load_def identities_write_def write_file_run split: if_splits)

definition is_identity :: "string \<Rightarrow> string \<Rightarrow> channel_identity \<Rightarrow> bool" where
  "is_identity c s i \<longleftrightarrow> ci_channel_id i = c \<and> ci_sender i = s"

definition get_identity :: "string \<Rightarrow> string \<Rightarrow> (world, channel_identity option) prog" where
  "get_identity c s = bindp identities_load (\<lambda>is. ret (List.find (is_identity c s) is))"

definition is_bound :: "string \<Rightarrow> string \<Rightarrow> (world, bool) prog" where
  "is_bound c s = bindp (get_identity c s) (\<lambda>i. ret (case i of None \<Rightarrow> False | Some i \<Rightarrow> ci_bound i))"

definition upsert_identity :: "env \<Rightarrow> channel_identity \<Rightarrow> (world, unit) prog" where
  "upsert_identity E i = bindp identities_load (\<lambda>is. identities_write E
     (filter (\<lambda>e. \<not> is_identity (ci_channel_id i) (ci_sender i) e) is @ [i]))"

definition begin_pairing :: "env \<Rightarrow> string \<Rightarrow> string \<Rightarrow> (world, string) prog" where
  "begin_pairing E c s = bindp (is_bound c s) (\<lambda>b.
     if b then throw (ChannelAlreadyBoundError
       (py_repr s @ '' on '' @ py_repr c @ '' is already bound; unbind before re-pairing''))
     else bindp (uuid4_hex E) (\<lambda>u. let code = take 8 u in
       thenp (upsert_identity E \<lparr>ci_channel_id = c, ci_sender = s, ci_forge_identity = None,
           ci_bound = False, ci_pairing_code = Some code\<rparr>) (ret code)))"

definition confirm :: "env \<Rightarrow> string \<Rightarrow> string \<Rightarrow> string \<Rightarrow> string \<Rightarrow> (world, bool) prog" where
  "confirm E c s code forge_identity = bindp (get_identity c s) (\<lambda>i. case i of
       None \<Rightarrow> ret False
     | Some i \<Rightarrow> if ci_pairing_code i \<noteq> Some code then ret False
       else thenp (upsert_identity E (i\<lparr>ci_bound := True, ci_forge_identity := Some forge_identity,
           ci_pairing_code := None\<rparr>)) (ret True))"

section \<open>Authorization (policy.py)\<close>

definition unbound_allowed :: "string list" where
  "unbound_allowed = [''status'', ''feedback'']"

definition authorize_channel_action :: "env \<Rightarrow> security_profile \<Rightarrow> string \<Rightarrow> channel_identity option
    \<Rightarrow> (world, unit) prog" where
  "authorize_channel_action E prof action identity =
     (if action \<in> set unbound_allowed then ret ()
      else case identity of
        None \<Rightarrow> throw (UnboundSenderError (''sender must bind a Forge identity before action '' @ py_repr action))
      | Some i \<Rightarrow> if \<not> ci_bound i
          then throw (UnboundSenderError (''sender must bind a Forge identity before action '' @ py_repr action))
          else bindp (validate_action E prof [(''type'', JStr ''channel''), (''id'', JStr (ci_sender i))]
              (''channel_'' @ action) JNull (Some action)) (\<lambda>d.
            if d \<noteq> DecAllowed then throw (ChannelPermissionError
              (''channel action '' @ py_repr action @ '' not allowed by the security profile''))
            else ret ()))"

section \<open>The feedback queue (intake.py)\<close>

text \<open>
  An item is written as one JSON text without ASCII escapes, and read back with \<open>splitlines\<close>, which
  also breaks at U+0085. The line-break characters below 32 are escaped by the writer.
\<close>

definition nel :: char where
  "nel = char_of (133::nat)"

definition compact_escape :: "char \<Rightarrow> string" where
  "compact_escape c = (if 126 < ord c then [c] else escape_char c)"

definition compact_field :: "string \<Rightarrow> string \<Rightarrow> string" where
  "compact_field k v = dumps_string k @ '':'' @ [quote_char] @ concat (map compact_escape v) @ [quote_char]"

definition feedback_json :: "feedback_item \<Rightarrow> string" where
  "feedback_json i = ''{'' @ join '','' [compact_field ''feedback_id'' (fb_id i),
     compact_field ''channel_id'' (fb_channel_id i), compact_field ''sender'' (fb_sender i),
     compact_field ''text'' (fb_text i), compact_field ''trust_level'' (trust_text (fb_trust_level i)),
     compact_field ''created_at'' (fb_created_at i), compact_field ''status'' (fb_status i)] @ ''}''"

definition feedback_lines :: "feedback_item \<Rightarrow> feedback_item log_line list" where
  "feedback_lines i = (if nel \<notin> set (feedback_json i) then [GoodLine i]
     else map (\<lambda>p. if strip p = [] then BlankLine else BadLine p) (split_on nel (feedback_json i)))"

fun parse_feedback :: "feedback_item log_line list \<Rightarrow> exn + feedback_item list" where
  "parse_feedback [] = Inr []"
| "parse_feedback (BlankLine # ls) = parse_feedback ls"
| "parse_feedback (BadLine m # ls) = Inl (ValidationError m)"
| "parse_feedback (GoodLine i # ls) = (case parse_feedback ls of Inl e \<Rightarrow> Inl e | Inr is \<Rightarrow> Inr (i # is))"

definition feedback_file :: "world \<Rightarrow> feedback_item log_line list" where
  "feedback_file w = (case w_feedback w of None \<Rightarrow> [] | Some ls \<Rightarrow> ls)"

definition list_pending :: "(world, feedback_item list) prog" where
  "list_pending = (\<lambda>w. (case parse_feedback (feedback_file w) of Inl e \<Rightarrow> Inl e
     | Inr is \<Rightarrow> Inr (filter (\<lambda>i. fb_status i = ''pending'') is), w))"

record feedback_queue =
  fq_max_per_window :: int
  fq_window_seconds :: real

definition within_window :: "env \<Rightarrow> feedback_queue \<Rightarrow> real \<Rightarrow> string \<Rightarrow> bool" where
  "within_window E q moment created_at = (case parse_time E created_at of
     None \<Rightarrow> False | Some created \<Rightarrow> moment - created < fq_window_seconds q)"

definition feedback_path :: "env \<Rightarrow> string" where
  "feedback_path E = root_path E @ ''/.forge/channels/feedback.jsonl''"

definition append_feedback :: "env \<Rightarrow> feedback_item \<Rightarrow> (world, unit) prog" where
  "append_feedback E i = write_file E (feedback_path E)
     (\<lambda>w. w\<lparr>w_feedback := Some (feedback_file w @ feedback_lines i)\<rparr>)"

definition is_duplicate :: "feedback_item \<Rightarrow> feedback_item \<Rightarrow> bool" where
  "is_duplicate i e \<longleftrightarrow> fb_sender e = fb_sender i \<and> fb_text e = fb_text i"

definition recent_of :: "env \<Rightarrow> feedback_queue \<Rightarrow> real \<Rightarrow> string \<Rightarrow> feedback_item list \<Rightarrow> feedback_item list" where
  "recent_of E q moment s existing =
     filter (\<lambda>e. fb_sender e = s \<and> within_window E q moment (fb_created_at e)) existing"

text \<open>\<open>moment\<close> is the argument \<open>now\<close>, or the caller's reading of the clock.\<close>

definition submit :: "env \<Rightarrow> feedback_queue \<Rightarrow> feedback_item \<Rightarrow> real \<Rightarrow> (world, feedback_item) prog" where
  "submit E q i moment = bindp list_pending (\<lambda>existing.
     if list_ex (is_duplicate i) existing
     then throw (ChannelDuplicateError (''duplicate feedback from '' @ py_repr (fb_sender i)))
     else if fq_max_per_window q \<le> int (length (recent_of E q moment (fb_sender i) existing))
     then throw (ChannelRateLimitError (''sender '' @ py_repr (fb_sender i) @ '' exceeded '' @
       show_int (fq_max_per_window q) @ '' items per '' @ show_int (round_half_even (fq_window_seconds q)) @ ''s''))
     else thenp (append_feedback E i) (ret i))"

section \<open>Lemmas on the queue\<close>

lemma parse_feedback_append:
  "parse_feedback (xs @ ys) = (case parse_feedback xs of Inl e \<Rightarrow> Inl e
     | Inr is \<Rightarrow> (case parse_feedback ys of Inl e \<Rightarrow> Inl e | Inr js \<Rightarrow> Inr (is @ js)))"
  by (induction xs rule: parse_feedback.induct) (auto split: sum.splits)

lemma escape_nel: "compact_escape nel = [nel]"
  by code_simp

lemma nel_in_json: "nel \<in> set (fb_text i) \<Longrightarrow> nel \<in> set (feedback_json i)"
proof -
  assume "nel \<in> set (fb_text i)"
  then have "nel \<in> set (concat (map compact_escape (fb_text i)))"
    using escape_nel by (auto intro!: bexI [of _ nel])
  then show ?thesis by (simp add: feedback_json_def compact_field_def)
qed

lemma split_on_head:
  "c \<noteq> d \<Longrightarrow> \<exists>p ps. split_on d (c # cs) = (c # p) # ps"
  by (auto split: list.splits)

lemma feedback_lines_bad:
  assumes "nel \<in> set (fb_text i)"
  shows "\<exists>p ls. feedback_lines i = BadLine p # ls"
proof -
  obtain cs where cs: "feedback_json i = CHR 0x7B # cs" by (simp add: feedback_json_def)
  have ne: "CHR 0x7B \<noteq> nel" by code_simp
  obtain p ps where s: "split_on nel (feedback_json i) = (CHR 0x7B # p) # ps"
    using split_on_head [OF ne, of cs] cs by metis
  have "strip (CHR 0x7B # p) \<noteq> []"
  proof -
    have sp: "\<not> py_isspace (CHR 0x7B)" by code_simp
    have "dropWhile py_isspace (xs @ [CHR 0x7B]) \<noteq> []" for xs
      using sp by (induction xs) auto
    then show ?thesis using sp by (simp add: strip_def)
  qed
  then show ?thesis using nel_in_json [OF assms] s by (simp add: feedback_lines_def)
qed

lemma submit_ok:
  assumes "submit E q i m w = (Inr r, w')"
  shows "r = i \<and> feedback_file w' = feedback_file w @ feedback_lines i \<and> (\<exists>es. list_pending w = (Inr es, w) \<and>
    list_all (\<lambda>e. \<not> is_duplicate i e) es \<and> int (length (recent_of E q m (fb_sender i) es)) < fq_max_per_window q)"
proof -
  obtain x where lp: "list_pending w = (x, w)" by (simp add: list_pending_def)
  with assms obtain es where x: "x = Inr es" by (cases x) (auto simp: submit_def bindp_run)
  with lp assms show ?thesis
    by (auto simp: submit_def bindp_run thenp_run throw_run ret_run append_feedback_def write_file_run
        feedback_file_def list_all_iff list_ex_iff split: if_splits)
qed

section \<open>Properties\<close>

text \<open>C20: Channel actions fail closed. An action other than reading the status and giving feedback is
  authorized only for a bound identity under an explicit \<open>allow\<close> of the security profile for
  that action; an unknown or unbound sender is refused before the profile is even consulted, and
  no authorization touches the project's files.\<close>

theorem channel_actions_fail_closed:
  assumes "authorize_channel_action E prof action identity w = (r, w')"
  shows "(r = Inr () \<longrightarrow> action \<in> {''status'', ''feedback''} \<or>
      (\<exists>i. identity = Some i \<and> ci_bound i \<and> effective_policy prof (Some action) = PolAllow)) \<and>
    (action \<notin> {''status'', ''feedback''} \<and> (\<forall>i. identity = Some i \<longrightarrow> \<not> ci_bound i) \<longrightarrow>
      (\<exists>m. r = Inl (UnboundSenderError m)) \<and> w' = w) \<and> w_fs w' = w_fs w"
proof (cases "action \<in> set unbound_allowed \<or> (\<forall>i. identity = Some i \<longrightarrow> \<not> ci_bound i)")
  case True
  with assms show ?thesis
    by (auto simp: authorize_channel_action_def unbound_allowed_def ret_run throw_run split: option.splits if_splits)
next
  case False
  then obtain i where i: "identity = Some i" "ci_bound i" "action \<notin> set unbound_allowed" by auto
  let ?v = "validate_action E prof [(''type'', JStr ''channel''), (''id'', JStr (ci_sender i))]
    (''channel_'' @ action) JNull (Some action)"
  obtain r1 w1 where v: "?v w = (r1, w1)" by (cases "?v w")
  from assms i v have "w' = w1" and r: "r = Inr () \<longrightarrow> r1 = Inr DecAllowed"
    by (auto simp: authorize_channel_action_def bindp_run throw_run ret_run split: sum.splits if_splits)
  moreover have "decide p = DecAllowed \<Longrightarrow> p = PolAllow" for p by (cases p) auto
  ultimately show ?thesis using validate_action_run [OF v] i by (auto simp: unbound_allowed_def)
qed

lemma channel_actions_fail_closed_witness:
  "\<exists>m. authorize_channel_action demo_env demo_security ''deploy'' None empty_world =
     (Inl (UnboundSenderError m), empty_world)"
proof -
  obtain r w' where run: "authorize_channel_action demo_env demo_security ''deploy'' None empty_world = (r, w')"
    by (cases "authorize_channel_action demo_env demo_security ''deploy'' None empty_world")
  from channel_actions_fail_closed [OF run] run show ?thesis by auto
qed

text \<open>The feedback queue deduplicates and limits, but one character jams it. An accepted item is no
  duplicate of a pending one and its sender had fewer than the limit of recent pending items; an
  item whose JSON text has no U+0085 is read back as the last one. But an accepted text with that
  character breaks the file: listing raises from then on, and so does every later submission by
  anyone.\<close>

lemma feedback_queue_limits_and_jams:
  assumes "submit E q i m w = (Inr r, w')" and "fb_status i = ''pending''"
  shows "(\<exists>es. list_pending w = (Inr es, w) \<and> (\<forall>e\<in>set es. \<not> is_duplicate i e) \<and>
      int (length (recent_of E q m (fb_sender i) es)) < fq_max_per_window q \<and>
      (nel \<notin> set (feedback_json i) \<longrightarrow> list_pending w' = (Inr (es @ [i]), w'))) \<and>
    (nel \<in> set (fb_text i) \<longrightarrow> (\<exists>x. list_pending w' = (Inl (ValidationError x), w') \<and>
      (\<forall>q2 j m2. submit E q2 j m2 w' = (Inl (ValidationError x), w'))))"
proof -
  from submit_ok [OF assms(1)] obtain es where f: "feedback_file w' = feedback_file w @ feedback_lines i"
    and es: "list_pending w = (Inr es, w)" "list_all (\<lambda>e. \<not> is_duplicate i e) es"
      "int (length (recent_of E q m (fb_sender i) es)) < fq_max_per_window q" by blast
  from es(1) obtain its where pis: "parse_feedback (feedback_file w) = Inr its" "es = filter (\<lambda>i. fb_status i = ''pending'') its"
    by (auto simp: list_pending_def split: sum.splits)
  have "list_pending w' = (Inr (es @ [i]), w')" if "nel \<notin> set (feedback_json i)"
    using that pis assms(2) by (simp add: list_pending_def f parse_feedback_append feedback_lines_def)
  moreover have "\<exists>x. list_pending w' = (Inl (ValidationError x), w') \<and>
      (\<forall>q2 j m2. submit E q2 j m2 w' = (Inl (ValidationError x), w'))" if "nel \<in> set (fb_text i)"
  proof -
    from feedback_lines_bad [OF that] obtain p ls where "feedback_lines i = BadLine p # ls" by blast
    with pis have lp: "list_pending w' = (Inl (ValidationError p), w')"
      by (simp add: list_pending_def f parse_feedback_append)
    then show ?thesis by (simp add: submit_def bindp_run)
  qed
  ultimately show ?thesis using es by (auto simp: list_all_iff)
qed

definition demo_feedback :: "string \<Rightarrow> feedback_item" where
  "demo_feedback t = \<lparr>fb_id = ''fb-1'', fb_channel_id = ''console'', fb_sender = ''ann'', fb_text = t,
     fb_trust_level = Untrusted, fb_created_at = ''t'', fb_status = ''pending''\<rparr>"

lemma feedback_queue_limits_and_jams_witness:
  "\<exists>x w'. submit demo_env \<lparr>fq_max_per_window = 5, fq_window_seconds = 60\<rparr> (demo_feedback [nel]) 0 empty_world
     = (Inr (demo_feedback [nel]), w') \<and> list_pending w' = (Inl (ValidationError x), w')"
proof -
  let ?q = "\<lparr>fq_max_per_window = 5, fq_window_seconds = 60\<rparr>"
  have "\<exists>w'. submit demo_env ?q (demo_feedback [nel]) 0 empty_world = (Inr (demo_feedback [nel]), w')"
    by (simp add: submit_def bindp_run thenp_run list_pending_def feedback_file_def empty_world_def
        recent_of_def append_feedback_def write_file_ok ret_run)
  then obtain w' where run: "submit demo_env ?q (demo_feedback [nel]) 0 empty_world = (Inr (demo_feedback [nel]), w')"
    by blast
  from feedback_queue_limits_and_jams [OF run] run show ?thesis by (auto simp: demo_feedback_def)
qed

end
