(* ===== verification/Daemon.thy ===== *)
theory Daemon imports Interfaces begin

text \<open>
  The daemon's state store, \<open>daemon/state.py\<close>, and its interval scheduler, \<open>daemon/scheduler.py\<close>,
  with the heartbeat task and the callbacks that record every run, \<open>daemon/tasks.py\<close> and
  \<open>daemon/runner.py\<close>.
\<close>

section \<open>The state store\<close>

definition daemon_path :: string where
  "daemon_path = ''~/.forge/daemon/state.json''"

definition daemon_load :: "(world, daemon_state option) prog" where
  "daemon_load = (\<lambda>w. (case w_daemon w of
       Absent \<Rightarrow> Inr None
     | Doc s \<Rightarrow> Inr (Some s)
     | Unreadable \<Rightarrow> Inl (DaemonStateError (''Failed to read daemon state file: '' @ daemon_path))
     | _ \<Rightarrow> Inl (DaemonStateError (''Corrupt daemon state file: '' @ daemon_path)), w))"

definition daemon_save :: "env \<Rightarrow> daemon_state \<Rightarrow> (world, unit) prog" where
  "daemon_save E s = bindp (uuid4 E) (\<lambda>_.
     catchp (write_file E daemon_path (\<lambda>w. w\<lparr>w_daemon := Doc s\<rparr>)) (\<lambda>e. case e of
         OSError _ \<Rightarrow> throw (DaemonStateError (''Failed to atomically write '' @ daemon_path))
       | _ \<Rightarrow> throw e))"

definition daemon_clear :: "(world, unit) prog" where
  "daemon_clear = updates (\<lambda>w. w\<lparr>w_daemon := Absent\<rparr>)"

definition daemon_put :: "env \<Rightarrow> daemon_state option \<Rightarrow> (world, unit) prog" where
  "daemon_put E s = (case s of None \<Rightarrow> daemon_clear | Some s \<Rightarrow> daemon_save E s)"

interpretation daemon_store: document_store daemon_load "daemon_put E" "\<lambda>_. True" for E
  by unfold_locales
    (auto simp: daemon_load_def daemon_put_def daemon_clear_def daemon_save_def env_reads bindp_run
      catchp_run updates_run throw_run write_file_run split: option.splits if_splits)

definition load_required :: "string \<Rightarrow> (world, daemon_state) prog" where
  "load_required action = bindp daemon_load (\<lambda>s. case s of
       None \<Rightarrow> throw (DaemonStateError (''No daemon state at '' @ daemon_path @ ''; cannot '' @ action @
         ''. Is the daemon running?''))
     | Some s \<Rightarrow> ret s)"

definition max_alerts :: nat where
  "max_alerts = 100"

definition same_alert :: "daemon_alert \<Rightarrow> daemon_alert \<Rightarrow> bool" where
  "same_alert a b \<longleftrightarrow> da_source a = da_source b \<and> da_severity a = da_severity b \<and>
     da_message a = da_message b"

definition push_alert :: "daemon_alert \<Rightarrow> daemon_alert list \<Rightarrow> daemon_alert list" where
  "push_alert a as = (let combined = as @ [a] in drop (length combined - max_alerts) combined)"

definition add_alert :: "env \<Rightarrow> daemon_alert \<Rightarrow> (world, daemon_state) prog" where
  "add_alert E a = bindp (load_required ''add an alert'') (\<lambda>s.
     if ds_alerts s \<noteq> [] \<and> same_alert (last (ds_alerts s)) a then ret s
     else let s' = s\<lparr>ds_alerts := push_alert a (ds_alerts s)\<rparr> in
       thenp (daemon_save E s') (ret s'))"

definition fresh_task_state :: daemon_task_state where
  "fresh_task_state = \<lparr>dt_last_run_at = None, dt_last_status = None, dt_runs = 0, dt_failures = 0,
     dt_last_error = None\<rparr>"

definition count_run :: "string \<Rightarrow> task_outcome \<Rightarrow> string option \<Rightarrow> daemon_task_state \<Rightarrow> daemon_task_state" where
  "count_run t status err ts =
     (let ts = ts\<lparr>dt_last_run_at := Some t, dt_last_status := Some status, dt_runs := dt_runs ts + 1\<rparr> in
      if status = TaskError then ts\<lparr>dt_failures := dt_failures ts + 1, dt_last_error := err\<rparr> else ts)"

definition record_task_run :: "env \<Rightarrow> string \<Rightarrow> task_outcome \<Rightarrow> string option \<Rightarrow> (world, unit) prog" where
  "record_task_run E name status err =
     bindp (load_required (''record a run of task `'' @ name @ ''`'')) (\<lambda>s. bindp (utc_now E) (\<lambda>t.
       let ts = (case dict_get (ds_tasks s) name of None \<Rightarrow> fresh_task_state | Some ts \<Rightarrow> ts) in
       daemon_save E (s\<lparr>ds_tasks := dict_set name (count_run t status err ts) (ds_tasks s)\<rparr>)))"

section \<open>The heartbeat and the final stamp\<close>

definition heartbeat :: "env \<Rightarrow> (world, json_obj option) prog" where
  "heartbeat E = bindp daemon_load (\<lambda>s. case s of
       None \<Rightarrow> throw (DaemonStateError (''No daemon state at '' @ daemon_path @ ''; heartbeat cannot update it.''))
     | Some s \<Rightarrow> bindp (utc_now E) (\<lambda>t. thenp (daemon_save E (s\<lparr>ds_last_heartbeat := Some t\<rparr>))
         (ret (Some [(''last_heartbeat'', JStr t)]))))"

definition only_daemon_errors :: "exn \<Rightarrow> (world, unit) prog" where
  "only_daemon_errors e = (case e of DaemonStateError _ \<Rightarrow> ret () | _ \<Rightarrow> throw e)"

definition stamp_final_heartbeat :: "env \<Rightarrow> (world, unit) prog" where
  "stamp_final_heartbeat E = catchp (bindp daemon_load (\<lambda>s. case s of
       None \<Rightarrow> ret ()
     | Some s \<Rightarrow> bindp (utc_now E) (\<lambda>t. daemon_save E (s\<lparr>ds_last_heartbeat := Some t\<rparr>))))
     only_daemon_errors"

definition initial_state :: "env \<Rightarrow> int \<Rightarrow> string \<Rightarrow> (world, daemon_state) prog" where
  "initial_state E pid project_root = bindp (uuid4_hex E) (\<lambda>u. bindp (utc_now E) (\<lambda>t.
     let s = \<lparr>ds_daemon_id = ''daemon-'' @ u, ds_pid = pid, ds_project_root = project_root,
       ds_started_at = t, ds_last_heartbeat = None, ds_tasks = [], ds_alerts = []\<rparr>
     in thenp (daemon_save E s) (ret s)))"

definition on_result :: "env \<Rightarrow> string \<Rightarrow> json_obj option \<Rightarrow> (world, unit) prog" where
  "on_result E name result = catchp (record_task_run E name TaskOk None) only_daemon_errors"

definition on_error :: "env \<Rightarrow> string \<Rightarrow> exn \<Rightarrow> (world, unit) prog" where
  "on_error E name e = catchp (record_task_run E name TaskError (Some (exn_message e))) only_daemon_errors"

section \<open>The scheduler\<close>

record 'w scheduled_task =
  st_name :: string
  st_interval :: real
  st_run :: "('w, json_obj option) prog"

type_synonym next_due = "string \<rightharpoonup> real"

text \<open>A callback's own exception is logged and dropped.\<close>

definition isolated :: "('w, unit) prog \<Rightarrow> ('w, unit) prog" where
  "isolated m = catchp m (\<lambda>_. ret ())"

definition run_task :: "(string \<Rightarrow> json_obj option \<Rightarrow> ('w, unit) prog)
    \<Rightarrow> (string \<Rightarrow> exn \<Rightarrow> ('w, unit) prog) \<Rightarrow> 'w scheduled_task \<Rightarrow> ('w, unit) prog" where
  "run_task res err t = (\<lambda>w. case st_run t w of
       (Inl e, w') \<Rightarrow> isolated (err (st_name t) e) w'
     | (Inr r, w') \<Rightarrow> isolated (res (st_name t) r) w')"

definition is_due :: "next_due \<Rightarrow> real \<Rightarrow> string \<Rightarrow> bool" where
  "is_due due now n = (case due n of None \<Rightarrow> True | Some d \<Rightarrow> \<not> now < d)"

definition pending_step :: "(string \<Rightarrow> json_obj option \<Rightarrow> ('w, unit) prog)
    \<Rightarrow> (string \<Rightarrow> exn \<Rightarrow> ('w, unit) prog) \<Rightarrow> real \<Rightarrow> 'w scheduled_task \<Rightarrow> string list
    \<Rightarrow> (next_due \<times> 'w, string list) prog" where
  "pending_step res err now t names = (\<lambda>(due, w).
     if \<not> is_due due now (st_name t) then (Inr names, (due, w))
     else bindp (with_local (run_task res err t)) (\<lambda>_. ret (names @ [st_name t]))
       (due(st_name t \<mapsto> now + st_interval t), w))"

definition run_pending :: "(string \<Rightarrow> json_obj option \<Rightarrow> ('w, unit) prog)
    \<Rightarrow> (string \<Rightarrow> exn \<Rightarrow> ('w, unit) prog) \<Rightarrow> 'w scheduled_task list \<Rightarrow> real
    \<Rightarrow> (next_due \<times> 'w, string list) prog" where
  "run_pending res err tasks now = foldp (pending_step res err now) tasks []"

text \<open>
  \<open>run_forever\<close>: \<open>stop k\<close> is what the \<open>k\<close>-th look at the stop event sees, \<open>clock k\<close> what the clock
  reads in that pass. The loop ends when the event is seen set.
\<close>

partial_function (option) run_forever :: "(string \<Rightarrow> json_obj option \<Rightarrow> ('w, unit) prog)
    \<Rightarrow> (string \<Rightarrow> exn \<Rightarrow> ('w, unit) prog) \<Rightarrow> 'w scheduled_task list \<Rightarrow> (nat \<Rightarrow> bool) \<Rightarrow> (nat \<Rightarrow> real)
    \<Rightarrow> nat \<Rightarrow> next_due \<times> 'w \<Rightarrow> (next_due \<times> 'w) option" where
  "run_forever res err tasks stop clock k s =
     (if stop k then Some s
      else let s' = snd (run_pending res err tasks (clock k) s) in
        if stop (Suc k) then Some s'
        else run_forever res err tasks stop clock (Suc (Suc k)) s')"

section \<open>Lemmas\<close>

lemma load_required_run: "load_required a w = (case daemon_load w of
    (Inl e, _) \<Rightarrow> (Inl e, w)
  | (Inr None, _) \<Rightarrow> (Inl (DaemonStateError (''No daemon state at '' @ daemon_path @ ''; cannot '' @ a @
      ''. Is the daemon running?'')), w)
  | (Inr (Some s), _) \<Rightarrow> (Inr s, w))"
  by (auto simp: load_required_def daemon_load_def bindp_run throw_run ret_run split: doc_file.split option.split)

lemma daemon_save_ok: "daemon_save E s w = (Inr (), w') \<Longrightarrow> w_daemon w' = Doc s"
  by (auto simp: daemon_save_def bindp_run env_reads catchp_run write_file_run throw_run split: if_splits)

lemma daemon_save_cases:
  "daemon_save E s w = (r, w') \<Longrightarrow> (r = Inr () \<and> w_daemon w' = Doc s) \<or>
     ((\<exists>m. r = Inl (DaemonStateError m)) \<and> w_daemon w' = w_daemon w)"
  by (auto simp: daemon_save_def bindp_run env_reads catchp_run write_file_run throw_run split: if_splits)

text \<open>The alert list: at most \<open>MAX_ALERTS\<close> entries, no two neighbours alike.\<close>

fun no_repeats :: "daemon_alert list \<Rightarrow> bool" where
  "no_repeats (a # b # as) = (\<not> same_alert a b \<and> no_repeats (b # as))"
| "no_repeats as = True"

lemma no_repeats_snoc:
  "no_repeats (as @ [a]) \<longleftrightarrow> no_repeats as \<and> (as \<noteq> [] \<longrightarrow> \<not> same_alert (last as) a)"
  by (induction as rule: no_repeats.induct) auto

lemma no_repeats_tl: "no_repeats as \<Longrightarrow> no_repeats (tl as)"
  by (cases as rule: no_repeats.cases) auto

lemma no_repeats_drop: "no_repeats as \<Longrightarrow> no_repeats (drop n as)"
  by (induction n arbitrary: as) (auto simp: drop_Suc dest: no_repeats_tl)

definition alerts_ok :: "daemon_alert list \<Rightarrow> bool" where
  "alerts_ok as \<longleftrightarrow> length as \<le> max_alerts \<and> no_repeats as"

lemma push_alert_ok:
  assumes "no_repeats as" and "as = [] \<or> \<not> same_alert (last as) a"
  shows "alerts_ok (push_alert a as) \<and> last (push_alert a as) = a \<and> push_alert a as \<noteq> []"
  using assms by (auto simp: alerts_ok_def push_alert_def Let_def no_repeats_snoc max_alerts_def intro: no_repeats_drop)

section \<open>Properties\<close>

text \<open>The alert list stays bounded and says each thing once. Adding an alert to a state with no two
  equal neighbours gives a list of at most 100 alerts with no two equal neighbours, whose last says
  what was to be said; a repetition of the last alert changes nothing at all, and the state
  returned is the state on disk.\<close>

theorem alerts_stay_bounded:
  assumes "add_alert E a w = (Inr s', w')" and "w_daemon w = Doc s" and "alerts_ok (ds_alerts s)"
  shows "w_daemon w' = Doc s' \<and> alerts_ok (ds_alerts s') \<and> ds_alerts s' \<noteq> [] \<and>
    same_alert (last (ds_alerts s')) a \<and>
    (if ds_alerts s \<noteq> [] \<and> same_alert (last (ds_alerts s)) a then w' = w
     else length (ds_alerts s') = min 100 (Suc (length (ds_alerts s))) \<and> last (ds_alerts s') = a)"
proof (cases "ds_alerts s \<noteq> [] \<and> same_alert (last (ds_alerts s)) a")
  case True
  with assms show ?thesis
    by (auto simp: add_alert_def bindp_run load_required_run daemon_load_def ret_run)
next
  case False
  then have "daemon_save E (s\<lparr>ds_alerts := push_alert a (ds_alerts s)\<rparr>) w = (Inr (), w')"
    and s': "s' = s\<lparr>ds_alerts := push_alert a (ds_alerts s)\<rparr>"
    using assms(1,2) by (auto simp: add_alert_def bindp_run load_required_run daemon_load_def thenp_run ret_run Let_def
        split: prod.splits sum.splits)
  moreover have "same_alert a a" by (simp add: same_alert_def)
  ultimately show ?thesis
    using False assms(3) daemon_save_ok push_alert_ok [of "ds_alerts s" a]
    by (auto simp: alerts_ok_def push_alert_def Let_def max_alerts_def)
qed

definition demo_alert :: daemon_alert where
  "demo_alert = \<lparr>da_id = ''1'', da_created_at = ''t'', da_source = ''observer'', da_severity = SevWarning,
     da_message = ''down'', da_metadata = []\<rparr>"

definition demo_daemon :: daemon_state where
  "demo_daemon = \<lparr>ds_daemon_id = ''d'', ds_pid = 7, ds_project_root = ''/p'', ds_started_at = ''t'',
     ds_last_heartbeat = None, ds_tasks = [], ds_alerts = []\<rparr>"

lemma alerts_stay_bounded_witness:
  "\<exists>s' w'. add_alert demo_env demo_alert (empty_world\<lparr>w_daemon := Doc demo_daemon\<rparr>) = (Inr s', w') \<and>
     w_daemon w' = Doc s' \<and> length (ds_alerts s') = 1"
proof -
  let ?w = "empty_world\<lparr>w_daemon := Doc demo_daemon\<rparr>"
  have "\<exists>s' w'. add_alert demo_env demo_alert ?w = (Inr s', w')"
    by (simp add: add_alert_def bindp_run load_required_run daemon_load_def demo_daemon_def thenp_run
        daemon_save_def env_reads catchp_run write_file_ok ret_run Let_def)
  then obtain s' w' where run: "add_alert demo_env demo_alert ?w = (Inr s', w')" by blast
  from alerts_stay_bounded [OF run] run show ?thesis by (auto simp: demo_daemon_def alerts_ok_def)
qed


definition demo_task :: "string \<Rightarrow> world scheduled_task" where
  "demo_task n = \<lparr>st_name = n, st_interval = 30, st_run = throw (RuntimeError ''boom'')\<rparr>"


text \<open>The daemon loop ends once it is told to stop, and starts no task after that. When the first
  look that sees the stop event set is the \<open>n\<close>-th, the loop returns, having made the passes before
  that look, one for every two looks, in order and each on the state the one before left.\<close>

lemma daemon_loop_stops:
  assumes "stop n" and "k \<le> n" and "\<forall>m. k \<le> m \<and> m < n \<longrightarrow> \<not> stop m"
  shows "run_forever res err tasks stop clock k s =
    Some (fold (\<lambda>j s. snd (run_pending res err tasks (clock (k + 2 * j)) s)) [0..<(n - k + 1) div 2] s)"
  using assms(2,3)
proof (induction "n - k" arbitrary: k s rule: less_induct)
  case less
  consider "n = k" | "n = Suc k" | d where "n = Suc (Suc (k + d))"
    using less.prems(1) by (metis add_Suc_right le_Suc_ex not0_implies_Suc add_0_right)
  then show ?case
  proof cases
    case 1
    with assms(1) show ?thesis by (subst run_forever.simps) simp
  next
    case 2
    with assms(1) less.prems(2) have "\<not> stop k" "stop (Suc k)" by auto
    with 2 show ?thesis by (subst run_forever.simps) (simp add: Let_def)
  next
    case 3
    with less.prems(2) have "\<not> stop k" "\<not> stop (Suc k)" by auto
    then have "run_forever res err tasks stop clock k s =
        run_forever res err tasks stop clock (Suc (Suc k)) (snd (run_pending res err tasks (clock k) s))"
      by (subst run_forever.simps) (simp add: Let_def)
    also have "\<dots> = Some (fold (\<lambda>j s. snd (run_pending res err tasks (clock (Suc (Suc k) + 2 * j)) s))
        [0..<(n - Suc (Suc k) + 1) div 2] (snd (run_pending res err tasks (clock k) s)))"
      using 3 less.prems(2) by (intro less.hyps) auto
    also have "\<dots> = Some (fold (\<lambda>j s. snd (run_pending res err tasks (clock (k + 2 * j)) s))
        [0..<(n - k + 1) div 2] s)"
      using 3 by (simp add: upt_conv_Cons map_Suc_upt [symmetric] fold_map comp_def del: upt_Suc)
    finally show ?thesis .
  qed
qed

lemma daemon_loop_stops_witness:
  "run_forever (on_result demo_env) (on_error demo_env) [demo_task ''a''] (\<lambda>k. 5 \<le> k) real 0 (Map.empty, empty_world) =
     Some (fold (\<lambda>j s. snd (run_pending (on_result demo_env) (on_error demo_env) [demo_task ''a''] (real (2 * j)) s))
       [0..<3] (Map.empty, empty_world))"
  using daemon_loop_stops [of "\<lambda>k. 5 \<le> k" 5 0 "on_result demo_env" "on_error demo_env" "[demo_task ''a'']" real] by simp

end
