(* ===== verification/Cost.thy ===== *)
theory Cost imports Config EventStore Daemon JsonText begin

text \<open>
  Recorded spend and what watches it: the aggregation of the spawn events, \<open>cost/aggregator.py\<close>, the
  cost-cap health check, \<open>health/cost_cap.py\<close> with the result type of \<open>health/checker.py\<close>, and the
  daemon's self-throttle, \<open>daemon/throttle.py\<close>.
\<close>

section \<open>Aggregating recorded spend\<close>

text \<open>
  What opening \<open>events.db\<close> and reading the completed spawns gives: there is no file, the store cannot
  be read, or the decoded payloads (\<open>None\<close> for one that is no JSON text). It is SQLite's answer for
  the files as they are, so a function of the world.
\<close>

datatype db_reading = NoDb | UnreadableDb | Payloads "json option list"

record cost_totals =
  ct_total_cost_usd :: "real option"
  ct_priced_spawns :: nat
  ct_total_spawns :: nat
  ct_readable :: bool

definition empty_totals :: cost_totals where
  "empty_totals = \<lparr>ct_total_cost_usd = None, ct_priced_spawns = 0, ct_total_spawns = 0, ct_readable = True\<rparr>"

definition unreadable_totals :: cost_totals where
  "unreadable_totals = \<lparr>ct_total_cost_usd = None, ct_priced_spawns = 0, ct_total_spawns = 0, ct_readable = False\<rparr>"

definition as_cost :: "json option \<Rightarrow> real option" where
  "as_cost v = (case v of
       Some (JInt i) \<Rightarrow> if i < 0 then None else Some (of_int i)
     | Some (JFloat r) \<Rightarrow> if r < 0 then None else Some r
     | _ \<Rightarrow> None)"

definition decode :: "json option \<Rightarrow> json_obj option" where
  "decode raw = (case raw of Some (JObj p) \<Rightarrow> Some p | _ \<Rightarrow> None)"

definition dict_field :: "string \<Rightarrow> json_obj \<Rightarrow> json_obj" where
  "dict_field k p = (case dict_get p k of Some (JObj m) \<Rightarrow> m | _ \<Rightarrow> [])"

definition spawn_cost :: "json_obj \<Rightarrow> real option" where
  "spawn_cost p = as_cost (dict_get (dict_field ''metadata'' p) ''total_cost_usd'')"

fun sum_costs :: "real option \<times> nat \<times> nat \<Rightarrow> json option list \<Rightarrow> real option \<times> nat \<times> nat" where
  "sum_costs acc [] = acc"
| "sum_costs (tot, priced, spawns) (raw # raws) = (case decode raw of
       None \<Rightarrow> sum_costs (tot, priced, spawns) raws
     | Some p \<Rightarrow> (case spawn_cost p of
         None \<Rightarrow> sum_costs (tot, priced, Suc spawns) raws
       | Some c \<Rightarrow> sum_costs (Some ((case tot of None \<Rightarrow> 0 | Some t \<Rightarrow> t) + c), Suc priced, Suc spawns) raws))"

definition totals :: "db_reading \<Rightarrow> cost_totals" where
  "totals rd = (case rd of NoDb \<Rightarrow> empty_totals | UnreadableDb \<Rightarrow> unreadable_totals
     | Payloads raws \<Rightarrow> (case sum_costs (None, 0, 0) raws of (tot, priced, spawns) \<Rightarrow>
         \<lparr>ct_total_cost_usd = map_option (round_digits 6) tot, ct_priced_spawns = priced,
          ct_total_spawns = spawns, ct_readable = True\<rparr>))"

text \<open>The reading of a store of the model: the payloads its rows carry.\<close>

definition completed_payloads :: "event_db \<Rightarrow> db_reading" where
  "completed_payloads db =
     Payloads (map (\<lambda>r. Some (JObj (er_payload r))) (read_by_type db ''AdapterSpawnCompleted''))"

definition spent :: "cost_totals \<Rightarrow> real" where
  "spent t = (case ct_total_cost_usd t of None \<Rightarrow> 0 | Some c \<Rightarrow> c)"

definition costs_of :: "json option list \<Rightarrow> real list" where
  "costs_of raws = List.map_filter (\<lambda>raw. case decode raw of None \<Rightarrow> None | Some p \<Rightarrow> spawn_cost p) raws"

lemma sum_costs_eq:
  "sum_costs (tot, priced, spawns) raws =
     ((if costs_of raws = [] then tot else Some ((case tot of None \<Rightarrow> 0 | Some t \<Rightarrow> t) + sum_list (costs_of raws))),
      priced + length (costs_of raws), spawns + length (filter (\<lambda>r. decode r \<noteq> None) raws))"
  by (induction "(tot, priced, spawns)" raws arbitrary: tot priced spawns rule: sum_costs.induct)
    (auto simp: costs_of_def List.map_filter_def split: option.splits)

lemma spawn_cost_nonneg: "spawn_cost p = Some c \<Longrightarrow> 0 \<le> c"
  by (auto simp: spawn_cost_def as_cost_def split: option.splits json.splits if_splits)

lemma costs_nonneg: "c \<in> set (costs_of raws) \<Longrightarrow> 0 \<le> c"
  by (auto simp: costs_of_def List.map_filter_def spawn_cost_nonneg split: option.splits)

lemma spent_payloads: "spent (totals (Payloads raws)) = round_digits 6 (sum_list (costs_of raws))"
  by (auto simp: spent_def totals_def sum_costs_eq round_digits_def round_half_even_def)

text \<open>Recorded spend never falls when events are added.\<close>

lemma spent_mono: "spent (totals (Payloads raws)) \<le> spent (totals (Payloads (raws @ later)))"
proof -
  have "0 \<le> sum_list (costs_of later)" using costs_nonneg by (intro sum_list_nonneg) auto
  moreover have "costs_of (raws @ later) = costs_of raws @ costs_of later"
    by (simp add: costs_of_def List.map_filter_def)
  ultimately show ?thesis by (simp add: spent_payloads round_digits_mono)
qed

section \<open>The health check\<close>

record health_result =
  hr_healthy :: bool
  hr_message :: string
  hr_details :: json_obj
  hr_recommendations :: "string list"

definition cap_warn_ratio :: real where
  "cap_warn_ratio = 80 / 100"

definition opt_float :: "real option \<Rightarrow> json" where
  "opt_float v = (case v of None \<Rightarrow> JNull | Some r \<Rightarrow> JFloat r)"

definition cost_cap_result :: "real option \<Rightarrow> cost_totals \<Rightarrow> health_result" where
  "cost_cap_result cap t = (let s = spent t;
     details = [(''cost_cap_usd'', opt_float cap), (''spent_usd'', JFloat (round_digits 6 s)),
       (''priced_spawns'', JInt (int (ct_priced_spawns t))), (''total_spawns'', JInt (int (ct_total_spawns t)))]
   in case cap of
     None \<Rightarrow> \<lparr>hr_healthy = True, hr_message = ''No cost cap configured.'', hr_details = details, hr_recommendations = []\<rparr>
   | Some c \<Rightarrow>
     if c \<le> 0
     then \<lparr>hr_healthy = True, hr_message = ''No cost cap configured.'', hr_details = details, hr_recommendations = []\<rparr>
     else if \<not> ct_readable t
     then \<lparr>hr_healthy = False,
        hr_message = ''Cannot read recorded spend (events.db unreadable); cost cap cannot be enforced.'',
        hr_details = details, hr_recommendations =
          [''Repair or remove the corrupt .forge/events.db so spend can be metered.'']\<rparr>
     else let ratio = s / c; details = dict_set ''ratio'' (JFloat (round_digits 3 ratio)) details;
          advice = [''Reduce recorded activity or raise the configured cost cap.''] in
       if ratio \<ge> 1
       then \<lparr>hr_healthy = False, hr_message = ''Recorded spend $'' @ format_fixed 2 s @ '' is over the $'' @
           format_fixed 2 c @ '' cost cap.'', hr_details = details, hr_recommendations = advice\<rparr>
       else if ratio \<ge> cap_warn_ratio
       then \<lparr>hr_healthy = False, hr_message = ''Recorded spend $'' @ format_fixed 2 s @ '' is approaching the $'' @
           format_fixed 2 c @ '' cost cap ('' @ format_percent ratio @ '').'', hr_details = details,
           hr_recommendations = advice\<rparr>
       else \<lparr>hr_healthy = True, hr_message = ''Recorded spend $'' @ format_fixed 2 s @ '' within the $'' @
           format_fixed 2 c @ '' cost cap ('' @ format_percent ratio @ '').'', hr_details = details,
           hr_recommendations = []\<rparr>)"

definition cost_cap_check :: "env \<Rightarrow> (world \<Rightarrow> db_reading) \<Rightarrow> real option \<Rightarrow> (world, health_result) prog" where
  "cost_cap_check E readdb injected =
     bindp (case injected of Some c \<Rightarrow> ret (Some c) | None \<Rightarrow> resolve_cost_cap_usd E) (\<lambda>cap.
     bindp (asks readdb) (\<lambda>rd. ret (cost_cap_result cap (totals rd))))"

section \<open>The throttle\<close>

datatype throttle_reason = OverCap | StoreUnreadable

primrec reason_text :: "throttle_reason \<Rightarrow> string" where
  "reason_text OverCap = ''over_cap''"
| "reason_text StoreUnreadable = ''store_unreadable''"

primrec alert_message :: "throttle_reason \<Rightarrow> string" where
  "alert_message OverCap = ''Always-on cost cap reached; throttling daemon maintenance.''"
| "alert_message StoreUnreadable = ''Recorded spend is unreadable (corrupt events.db); throttling daemon maintenance as a precaution until spend can be metered.''"

record throttle_decision =
  td_throttled :: bool
  td_spent_usd :: real
  td_cost_cap_usd :: "real option"
  td_ratio :: "real option"
  td_reason :: "throttle_reason option"

definition throttle_ratio :: real where
  "throttle_ratio = cap_warn_ratio"

definition decide_throttle :: "real option \<Rightarrow> cost_totals \<Rightarrow> throttle_decision" where
  "decide_throttle cap t = (let s = spent t;
     clear = \<lparr>td_throttled = False, td_spent_usd = s, td_cost_cap_usd = cap, td_ratio = None, td_reason = None\<rparr>
   in case cap of None \<Rightarrow> clear | Some c \<Rightarrow>
     if c \<le> 0 then clear
     else if \<not> ct_readable t then clear\<lparr>td_throttled := True, td_reason := Some StoreUnreadable\<rparr>
     else let ratio = s / c; th = (ratio \<ge> throttle_ratio) in
       clear\<lparr>td_throttled := th, td_ratio := Some ratio, td_reason := (if th then Some OverCap else None)\<rparr>)"

definition evaluate :: "env \<Rightarrow> (world \<Rightarrow> db_reading) \<Rightarrow> real option \<Rightarrow> (world, throttle_decision) prog" where
  "evaluate E readdb injected =
     bindp (case injected of Some c \<Rightarrow> ret (Some c) | None \<Rightarrow> resolve_cost_cap_usd E) (\<lambda>cap.
     bindp (asks readdb) (\<lambda>rd. ret (decide_throttle cap (totals rd))))"

definition decision_metrics :: "throttle_decision \<Rightarrow> json_obj" where
  "decision_metrics d = [(''spent_usd'', JFloat (round_digits 6 (td_spent_usd d))),
     (''cost_cap_usd'', opt_float (td_cost_cap_usd d)),
     (''ratio'', opt_float (map_option (round_digits 3) (td_ratio d)))]"

definition reason_json :: "throttle_reason option \<Rightarrow> json" where
  "reason_json r = opt_str (map_option reason_text r)"

definition record_throttle_alert :: "env \<Rightarrow> string \<Rightarrow> throttle_decision \<Rightarrow> (world, bool) prog" where
  "record_throttle_alert E task d = bindp (uuid4 E) (\<lambda>u. bindp (utc_now E) (\<lambda>t.
     catchp (bindp (add_alert E \<lparr>da_id = u, da_created_at = t, da_source = ''cost-throttle'',
         da_severity = SevWarning,
         da_message = (case td_reason d of None \<Rightarrow> alert_message OverCap | Some r \<Rightarrow> alert_message r),
         da_metadata = (''task'', JStr task) # (''reason'', reason_json (td_reason d)) # decision_metrics d\<rparr>)
       (\<lambda>_. ret True))
     (\<lambda>e. case e of DaemonStateError _ \<Rightarrow> ret False | _ \<Rightarrow> throw e)))"

definition throttle_gate :: "env \<Rightarrow> (world \<Rightarrow> db_reading) \<Rightarrow> real option \<Rightarrow> string
    \<Rightarrow> (world, json_obj option) prog \<Rightarrow> (world, json_obj option) prog" where
  "throttle_gate E readdb injected task run = bindp (evaluate E readdb injected) (\<lambda>d.
     if \<not> td_throttled d then run
     else bindp (record_throttle_alert E task d) (\<lambda>_.
       ret (Some ((''throttled'', JBool True) # (''task'', JStr task) #
         (''reason'', reason_json (td_reason d)) # decision_metrics d))))"

lemma evaluate_run: "\<exists>cap. evaluate E readdb injected w = (Inr (decide_throttle cap (totals (readdb w))), w) \<and>
    (case injected of Some c \<Rightarrow> cap = Some c | None \<Rightarrow> resolve_cost_cap_usd E w = (Inr cap, w))"
proof (cases injected)
  case None
  obtain cap where "resolve_cost_cap_usd E w = (Inr cap, w)" using resolve_cost_cap_total by blast
  with None show ?thesis by (auto simp: evaluate_def bindp_run asks_run ret_run)
next
  case (Some c)
  then show ?thesis by (simp add: evaluate_def bindp_run asks_run ret_run)
qed

lemma decide_throttle_iff:
  "td_throttled (decide_throttle cap t) \<longleftrightarrow>
     (\<exists>c>0. cap = Some c \<and> (\<not> ct_readable t \<or> 8 / 10 * c \<le> spent t))"
  by (cases cap) (auto simp: decide_throttle_def Let_def throttle_ratio_def cap_warn_ratio_def pos_le_divide_eq)

text \<open>The world but for the daemon's state file and the counters of the environment.\<close>

definition beyond_daemon :: "world \<Rightarrow> world" where
  "beyond_daemon w = w\<lparr>w_daemon := Absent, w_uuids := 0, w_writes := 0, w_clock := 0\<rparr>"

lemma daemon_programs_stay_home [frame_intros]:
  "unchanged beyond_daemon (utc_now E)" "unchanged beyond_daemon (uuid4 E)"
  "unchanged beyond_daemon (daemon_save E s)" "unchanged beyond_daemon daemon_load"
proof -
  show "unchanged beyond_daemon (utc_now E)" "unchanged beyond_daemon (uuid4 E)" "unchanged beyond_daemon daemon_load"
    by (simp_all add: unchanged_def env_reads beyond_daemon_def daemon_load_def)
  show "unchanged beyond_daemon (daemon_save E s)"
    by (auto simp: unchanged_def daemon_save_def bindp_run env_reads catchp_run write_file_run throw_run beyond_daemon_def)
qed

lemma load_required_stays_home [frame_intros]: "unchanged f (load_required a)"
  by (auto simp: unchanged_def load_required_run split: sum.split option.split prod.split)

lemma add_alert_stays_home [frame_intros]: "unchanged beyond_daemon (add_alert E a)"
  unfolding add_alert_def Let_def by (intro frame_intros)

lemma add_alert_errors:
  assumes "add_alert E a w = (Inl e, w')"
  shows "\<exists>m. e = DaemonStateError m"
proof (cases "w_daemon w")
  case (Doc s)
  let ?s = "s\<lparr>ds_alerts := push_alert a (ds_alerts s)\<rparr>"
  have "daemon_save E ?s w = (Inl e, w')"
    using assms Doc by (auto simp: add_alert_def bindp_run load_required_run daemon_load_def thenp_run ret_run Let_def
        split: if_splits prod.splits sum.splits)
  from daemon_save_cases [OF this] show ?thesis by auto
qed (use assms in \<open>auto simp: add_alert_def bindp_run load_required_run daemon_load_def\<close>)

definition drop_daemon_errors :: "exn \<Rightarrow> (world, bool) prog" where
  "drop_daemon_errors e = (case e of DaemonStateError _ \<Rightarrow> ret False | _ \<Rightarrow> throw e)"

lemma drop_daemon_errors_home [frame_intros]: "unchanged f (drop_daemon_errors e)"
  by (cases e) (simp_all add: drop_daemon_errors_def unchanged_basic)

text \<open>Raising an alert is best-effort: it always returns.\<close>

lemma best_effort_alert:
  "\<exists>b. fst (catchp (bindp (add_alert E a) (\<lambda>_. ret True)) drop_daemon_errors w) = Inr b"
proof -
  obtain r1 w1 where a: "add_alert E a w = (r1, w1)" by (cases "add_alert E a w")
  show ?thesis
  proof (cases r1)
    case (Inl e)
    with a obtain m where "e = DaemonStateError m" using add_alert_errors by blast
    with Inl a show ?thesis by (auto simp: catchp_run bindp_run drop_daemon_errors_def ret_run)
  next
    case (Inr y)
    with a show ?thesis by (auto simp: catchp_run bindp_run ret_run)
  qed
qed

lemma record_throttle_alert_total:
  assumes "record_throttle_alert E task d w = (r, w')"
  shows "(\<exists>b. r = Inr b) \<and> beyond_daemon w' = beyond_daemon w"
proof -
  have "unchanged beyond_daemon (record_throttle_alert E task d)"
    unfolding record_throttle_alert_def drop_daemon_errors_def [symmetric] by (intro frame_intros)
  moreover have "\<exists>b. fst (record_throttle_alert E task d w) = Inr b"
    using best_effort_alert unfolding record_throttle_alert_def drop_daemon_errors_def [symmetric]
    by (simp add: bindp_run env_reads)
  ultimately show ?thesis using assms unchanged_result by fastforce
qed

section \<open>Property\<close>



end
