(* ===== verification/Health.thy ===== *)
theory Health imports Cost StateManager Lessons Artifacts TokenBudget begin

text \<open>
  The health checks, \<open>health/\<close>: the always-on monitors of hook latency and token budget, the checks
  of the project's state, gates, memory and artifacts, the sweep that alerts the daemon,
  \<open>health/monitor.py\<close>, and the daemon's task list, \<open>daemon/tasks.py\<close>. The sign U+2265 of two
  messages is written \<open>>=\<close>.
\<close>

section \<open>Token budget (token_budget.py)\<close>

definition health_warn_ratio :: "env \<Rightarrow> (world, real) prog" where
  "health_warn_ratio E = catchp (bindp (load_config E) (\<lambda>c. ret (resolve_warn_ratio (cf_features c))))
     (\<lambda>e. case e of ConfigError _ \<Rightarrow> ret default_warn_ratio
        | SchemaConfigError _ \<Rightarrow> ret default_warn_ratio | _ \<Rightarrow> throw e)"

record breach =
  br_stage_id :: string
  br_total_tokens :: int
  br_token_budget :: int
  br_ratio :: real
  br_level :: budget_level

definition breach_of :: "real \<Rightarrow> context_selection \<Rightarrow> breach option" where
  "breach_of warn_ratio r =
     (let ev = evaluate_session_budget (int (cs_total_tokens r)) (cs_token_budget r) warn_ratio in
      if be_level ev = LvOk then None
      else Some \<lparr>br_stage_id = cs_stage_id r, br_total_tokens = be_total_tokens ev,
        br_token_budget = be_token_budget ev, br_ratio = round_digits 3 (be_ratio ev), br_level = be_level ev\<rparr>)"

definition breach_json :: "breach \<Rightarrow> json" where
  "breach_json b = JObj [(''stage_id'', JStr (br_stage_id b)), (''total_tokens'', JInt (br_total_tokens b)),
     (''token_budget'', JInt (br_token_budget b)), (''ratio'', JFloat (br_ratio b)),
     (''level'', JStr (level_text (br_level b)))]"

definition token_budget_result :: "real \<Rightarrow> context_selection list \<Rightarrow> health_result" where
  "token_budget_result warn_ratio records =
     (let breaches = sort_desc br_ratio (List.map_filter (breach_of warn_ratio) records);
          n = length records;
          details = [(''selections'', JInt (int n)), (''warn_ratio'', JFloat warn_ratio),
            (''over_budget'', JInt (int (length breaches))), (''breaches'', JArr (map breach_json breaches))]
      in if breaches = []
         then \<lparr>hr_healthy = True, hr_message = ''All '' @ show_nat n @ '' context selection(s) within token budget.'',
           hr_details = details, hr_recommendations = []\<rparr>
         else let stages = join '', '' (sorted_set (map br_stage_id breaches)) in
           \<lparr>hr_healthy = False, hr_message = show_nat (length breaches) @ '' of '' @ show_nat n @
              '' context selection(s) at >= '' @ format_percent warn_ratio @ '' of token budget: '' @ stages @ ''.'',
            hr_details = details,
            hr_recommendations = [''Trim injected context for stage(s): '' @ stages @ ''.'']\<rparr>)"

definition token_budget_check :: "env \<Rightarrow> real option \<Rightarrow> (world, health_result) prog" where
  "token_budget_check E injected = bindp (asks w_selections) (\<lambda>records.
     if records = []
     then ret \<lparr>hr_healthy = True, hr_message = ''No context selections recorded yet.'',
       hr_details = [(''selections'', JInt 0)], hr_recommendations = []\<rparr>
     else bindp (case injected of Some r \<Rightarrow> ret r | None \<Rightarrow> health_warn_ratio E) (\<lambda>wr.
       ret (token_budget_result wr records)))"

section \<open>Hook latency (hook_latency.py)\<close>

record slow_hook =
  sh_hook_name :: string
  sh_samples :: nat
  sh_mean_ms :: real
  sh_max_ms :: real

definition samples_of :: "hook_timing list \<Rightarrow> string \<Rightarrow> real list" where
  "samples_of ts n = map ht_duration_ms (filter (\<lambda>t. ht_hook_name t = n) ts)"

definition mean :: "real list \<Rightarrow> real" where
  "mean xs = sum_list xs / real (length xs)"

definition slow_hook_of :: "real \<Rightarrow> int \<Rightarrow> hook_timing list \<Rightarrow> string \<Rightarrow> slow_hook option" where
  "slow_hook_of threshold min_samples ts n = (let xs = samples_of ts n in
     if min_samples \<le> int (length xs) \<and> threshold \<le> mean xs
     then Some \<lparr>sh_hook_name = n, sh_samples = length xs, sh_mean_ms = round_digits 1 (mean xs),
       sh_max_ms = round_digits 1 (Max (set xs))\<rparr>
     else None)"

definition slow_hook_json :: "slow_hook \<Rightarrow> json" where
  "slow_hook_json h = JObj [(''hook_name'', JStr (sh_hook_name h)), (''samples'', JInt (int (sh_samples h))),
     (''mean_ms'', JFloat (sh_mean_ms h)), (''max_ms'', JFloat (sh_max_ms h))]"

definition hook_latency_result :: "real \<Rightarrow> int \<Rightarrow> hook_timing list \<Rightarrow> health_result" where
  "hook_latency_result threshold min_samples ts =
     (let hooks = add_new [] (map ht_hook_name ts);
          slow = sort_desc sh_mean_ms (List.map_filter (slow_hook_of threshold min_samples ts) hooks);
          details = [(''hooks_tracked'', JInt (int (length hooks))), (''threshold_ms'', JFloat threshold),
            (''min_samples'', JInt min_samples), (''slow_hooks'', JArr (map slow_hook_json slow))]
      in if slow = []
         then \<lparr>hr_healthy = True, hr_message = ''All '' @ show_nat (length hooks) @ '' hook(s) within latency budget.'',
           hr_details = details, hr_recommendations = []\<rparr>
         else let names = join '', '' (map sh_hook_name slow) in
           \<lparr>hr_healthy = False, hr_message = show_nat (length slow) @ '' hook(s) persistently slow (mean >= '' @
              format_fixed 0 threshold @ ''ms over >= '' @ show_int min_samples @ '' runs): '' @ names @ ''.'',
            hr_details = details,
            hr_recommendations = [''Review or optimize slow hook(s): '' @ names @ ''.'']\<rparr>)"

definition hook_latency_check :: "real \<Rightarrow> int \<Rightarrow> (world, health_result) prog" where
  "hook_latency_check threshold min_samples = bindp (asks timing_read_all) (\<lambda>ts.
     if ts = [] then ret \<lparr>hr_healthy = True, hr_message = ''No hook timings recorded yet.'',
       hr_details = [(''hooks_tracked'', JInt 0)], hr_recommendations = []\<rparr>
     else ret (hook_latency_result threshold min_samples ts))"

section \<open>State, gates, memory, artifacts\<close>

definition failed_check :: "string \<Rightarrow> string list \<Rightarrow> exn \<Rightarrow> (world, health_result) prog" where
  "failed_check what advice e = ret \<lparr>hr_healthy = False, hr_message = what @ exn_message e, hr_details = [],
     hr_recommendations = advice\<rparr>"

definition count_if :: "('a \<Rightarrow> bool) \<Rightarrow> 'a list \<Rightarrow> nat" where
  "count_if p xs = length (filter p xs)"

definition state_check :: "env \<Rightarrow> (world, health_result) prog" where
  "state_check E = bindp (asks w_state) (\<lambda>f.
     if \<not> file_exists f
     then ret \<lparr>hr_healthy = False, hr_message = ''state.json not found. Run forge init first.'', hr_details = [],
       hr_recommendations = [''Run `forge init --path .` to initialize the project.'']\<rparr>
     else catchp (bindp (load_state E) (\<lambda>st.
         let completed = count_if (\<lambda>s. stg_status s = Complete) (ps_stages st); tot = length (ps_stages st) in
         ret \<lparr>hr_healthy = True, hr_message = ''State machine healthy. '' @ show_nat completed @ ''/'' @
              show_nat tot @ '' stages completed.'',
           hr_details = [(''project_id'', JStr (ps_project_id st)), (''profile'', JStr (ps_profile st)),
             (''current_stage'', opt_str (ps_current st)), (''stages_completed'', JInt (int completed)),
             (''stages_total'', JInt (int tot)), (''last_event_id'', opt_str (ps_last_event_id st))],
           hr_recommendations = []\<rparr>))
       (failed_check ''Failed to load state: '' [''Run `forge stage override` to repair state, or re-init.'']))"

definition gates_check :: "env \<Rightarrow> (world, health_result) prog" where
  "gates_check E = bindp (asks w_gates) (\<lambda>f.
     if \<not> file_exists f
     then ret \<lparr>hr_healthy = False, hr_message = ''No gates.yaml found. Project may not have configured gates.'',
       hr_details = [], hr_recommendations = [''Create pipeline/gates.yaml or run `forge init --force`.'']\<rparr>
     else catchp (bindp (load_gate_file E) (\<lambda>gates.
         let enabled = filter gc_enabled gates; blocking = count_if (\<lambda>g. gc_severity g = ''blocking'') enabled in
         ret \<lparr>hr_healthy = True, hr_message = show_nat (length enabled) @ '' gates enabled ('' @
             show_nat blocking @ '' blocking).'',
           hr_details = [(''total_gates'', JInt (int (length gates))), (''enabled_gates'', JInt (int (length enabled))),
             (''blocking_gates'', JInt (int blocking)), (''types'', JArr (map JStr (remdups (map gc_type gates))))],
           hr_recommendations = []\<rparr>))
       (failed_check ''Failed to load gates: '' []))"

definition memory_check :: "env \<Rightarrow> (world, health_result) prog" where
  "memory_check E = catchp (bindp (lesson_list E None None None) (\<lambda>ls.
     let approved = count_if (\<lambda>l. ls_status l = LsApproved) ls;
         pending = count_if (\<lambda>l. ls_status l = LsPending) ls;
         deprecated = count_if (\<lambda>l. ls_status l = LsDeprecated) ls in
     ret \<lparr>hr_healthy = True, hr_message = show_nat (length ls) @ '' lessons ('' @ show_nat approved @
           '' approved, '' @ show_nat pending @ '' pending).'',
       hr_details = [(''total_lessons'', JInt (int (length ls))), (''approved'', JInt (int approved)),
         (''pending'', JInt (int pending)), (''deprecated'', JInt (int deprecated))],
       hr_recommendations = (if pending > 0
         then [show_nat pending @ '' pending lessons. Use `forge lesson approve`.''] else [])\<rparr>))
     (failed_check ''Failed to load lessons: '' [])"

definition adg_check :: "env \<Rightarrow> (world, health_result) prog" where
  "adg_check E = catchp (bindp (load_artifacts E) (\<lambda>as.
     let stale = count_if (\<lambda>a. art_status a = Stale) as;
         missing = count_if (\<lambda>a. art_status a = MissingArtifact) as;
         fresh = count_if (\<lambda>a. art_status a = Fresh) as in
     ret \<lparr>hr_healthy = (stale = 0 \<and> missing = 0),
       hr_message = show_nat (length as) @ '' artifacts ('' @ show_nat fresh @ '' fresh, '' @ show_nat stale @
         '' stale, '' @ show_nat missing @ '' missing).'',
       hr_details = [(''total_artifacts'', JInt (int (length as))), (''fresh'', JInt (int fresh)),
         (''stale'', JInt (int stale)), (''missing'', JInt (int missing)),
         (''total_token_estimate'', JInt (int (sum_list (map art_token_estimate as))))],
       hr_recommendations =
         (if stale > 0 then [show_nat stale @ '' stale artifacts. Run `forge artifact refresh`.''] else []) @
         (if missing > 0 then [show_nat missing @ '' missing artifacts. Regenerate or remove them.''] else [])\<rparr>))
     (failed_check ''Failed to load artifact registry: '' [])"

section \<open>The sweep (monitor.py)\<close>

type_synonym checker = "(world, health_result) prog"

definition default_checkers :: "env \<Rightarrow> (world \<Rightarrow> db_reading) \<Rightarrow> (string \<times> checker) list" where
  "default_checkers E readdb = [(''hook_latency'', hook_latency_check 1000 3),
     (''token_budget'', token_budget_check E None), (''cost_cap'', cost_cap_check E readdb None)]"

definition health_alert :: "env \<Rightarrow> string \<Rightarrow> health_result \<Rightarrow> (world, bool) prog" where
  "health_alert E name r = bindp (uuid4 E) (\<lambda>u. bindp (utc_now E) (\<lambda>t.
     catchp (bindp (add_alert E \<lparr>da_id = u, da_created_at = t, da_source = ''health-'' @ name,
         da_severity = SevWarning, da_message = hr_message r,
         da_metadata = [(''checker'', JStr name), (''recommendations'', JArr (map JStr (hr_recommendations r)))]\<rparr>)
       (\<lambda>_. ret True)) drop_daemon_errors))"

record sweep =
  sw_checked :: nat
  sw_unhealthy :: nat
  sw_alerted :: nat

definition sweep_one :: "env \<Rightarrow> string \<times> checker \<Rightarrow> sweep \<Rightarrow> (world, sweep) prog" where
  "sweep_one E = (\<lambda>(name, check) s w. case check w of
       (Inl e, w') \<Rightarrow> (Inr s, w')
     | (Inr r, w') \<Rightarrow> (let s1 = s\<lparr>sw_checked := Suc (sw_checked s)\<rparr> in
         if hr_healthy r then (Inr s1, w')
         else let s2 = s1\<lparr>sw_unhealthy := Suc (sw_unhealthy s1)\<rparr> in
           bindp (health_alert E name r) (\<lambda>b. ret (if b then s2\<lparr>sw_alerted := Suc (sw_alerted s2)\<rparr> else s2)) w'))"

definition monitor_check :: "env \<Rightarrow> (string \<times> checker) list \<Rightarrow> (world, sweep) prog" where
  "monitor_check E checkers = foldp (sweep_one E) checkers \<lparr>sw_checked = 0, sw_unhealthy = 0, sw_alerted = 0\<rparr>"

lemma health_alert_total:
  assumes "health_alert E name r w = (x, w')"
  shows "(\<exists>b. x = Inr b) \<and> beyond_daemon w' = beyond_daemon w"
proof -
  have "unchanged beyond_daemon (health_alert E name r)"
    unfolding health_alert_def by (intro frame_intros)
  moreover have "\<exists>b. fst (health_alert E name r w) = Inr b"
    using best_effort_alert by (simp add: health_alert_def bindp_run env_reads)
  ultimately show ?thesis using assms unchanged_result by fastforce
qed

text \<open>A sweep always returns, counts what it did, and never alerts about a healthy checker.\<close>

lemma monitor_check_total:
  "\<exists>s w'. monitor_check E checkers w = (Inr s, w') \<and> sw_alerted s \<le> sw_unhealthy s \<and>
     sw_unhealthy s \<le> sw_checked s \<and> sw_checked s \<le> length checkers"
proof -
  have "\<exists>s' w'. foldp (sweep_one E) cs s w = (Inr s', w') \<and> sw_alerted s' \<le> sw_unhealthy s' \<and>
      sw_unhealthy s' \<le> sw_checked s' \<and> sw_checked s' \<le> sw_checked s + length cs"
    if "sw_alerted s \<le> sw_unhealthy s" "sw_unhealthy s \<le> sw_checked s" for cs s w
    using that
  proof (induction cs arbitrary: s w)
    case Nil
    then show ?case by (simp add: ret_run)
  next
    case (Cons c cs)
    have "\<exists>s1 w1. sweep_one E c s w = (Inr s1, w1) \<and> sw_alerted s1 \<le> sw_unhealthy s1 \<and>
        sw_unhealthy s1 \<le> sw_checked s1 \<and> sw_checked s1 \<le> Suc (sw_checked s)"
    proof -
      obtain n ck where c: "c = (n, ck)" by (cases c)
      obtain r w0 where ck: "ck w = (r, w0)" by (cases "ck w")
      show ?thesis
      proof (cases r)
        case (Inl e)
        with c ck Cons.prems show ?thesis by (simp add: sweep_one_def)
      next
        case (Inr h)
        obtain b w1 where a: "health_alert E n h w0 = (b, w1)" by (cases "health_alert E n h w0")
        with health_alert_total [OF a] obtain b' where "b = Inr b'" by blast
        with a Inr c ck Cons.prems show ?thesis
          by (cases "hr_healthy h"; cases b') (simp_all add: sweep_one_def Let_def bindp_run ret_run)
      qed
    qed
    then obtain s1 w1 where 1: "sweep_one E c s w = (Inr s1, w1)" "sw_alerted s1 \<le> sw_unhealthy s1"
      "sw_unhealthy s1 \<le> sw_checked s1" "sw_checked s1 \<le> Suc (sw_checked s)" by blast
    from Cons.IH [OF 1(2,3), of w1] 1 show ?case by (force simp: bindp_run)
  qed
  from this [of "\<lparr>sw_checked = 0, sw_unhealthy = 0, sw_alerted = 0\<rparr>" checkers w] show ?thesis
    by (simp add: monitor_check_def)
qed

text \<open>The latency check flags a hook exactly when it ran often enough and is slow on average.\<close>

lemma latency_unhealthy_iff:
  "\<not> hr_healthy (hook_latency_result thr ms ts) \<longleftrightarrow>
     (\<exists>n\<in>ht_hook_name ` set ts. ms \<le> int (length (samples_of ts n)) \<and> thr \<le> mean (samples_of ts n))"
proof -
  have e: "sort_desc f xs = [] \<longleftrightarrow> xs = []" for f :: "slow_hook \<Rightarrow> real" and xs by (metis length_0_conv sort_desc_props(2))
  have m: "List.map_filter g xs = [] \<longleftrightarrow> (\<forall>x\<in>set xs. g x = None)" for g :: "string \<Rightarrow> slow_hook option" and xs
    by (induction xs) (auto simp: List.map_filter_def)
  show ?thesis
    by (auto simp: hook_latency_result_def Let_def e m slow_hook_of_def)
qed

end
