(* ===== verification/Dreamer.thy ===== *)
theory Dreamer imports Reflections JsonText begin

text \<open>
  The Dreamer, \<open>dreamer/\<close>: confidence decay and dormancy of lessons, the daily digest of the event
  log, and the detection of tensions with the re-ingestion of reflections. Timestamps are read
  through \<open>parse_time\<close>, the library's \<open>fromisoformat\<close>, as points of one time line in seconds. The
  dash of the digest's title is written \<open>--\<close>.
\<close>

section \<open>Timestamps (timeutil.py)\<close>

definition parse_timestamp :: "env \<Rightarrow> string \<Rightarrow> exn + real" where
  "parse_timestamp E v = (case parse_time E (utc_suffix v) of
       None \<Rightarrow> Inl (ValueError v) | Some t \<Rightarrow> Inr t)"

section \<open>Decay (decay.py)\<close>

definition decayed_confidence :: "real \<Rightarrow> real \<Rightarrow> real \<Rightarrow> exn + real" where
  "decayed_confidence confidence days half_life =
     (if half_life \<le> 0 then Inl (ValueError ''half_life_days must be positive'')
      else Inr (max (confidence * (1 / 2) powr (days / half_life)) 0))"

record decay_report =
  dr_examined :: nat
  dr_decayed :: nat
  dr_dormant_ids :: "string list"

text \<open>\<open>a or b or c\<close> for optional strings: the first that is neither missing nor empty.\<close>

definition last_use :: "lesson \<Rightarrow> string" where
  "last_use l = (case ls_last_used_at l of Some (c # cs) \<Rightarrow> c # cs
     | _ \<Rightarrow> (case ls_approved_at l of Some (c # cs) \<Rightarrow> c # cs | _ \<Rightarrow> ls_updated_at l))"

definition decays :: "lesson \<Rightarrow> bool" where
  "decays l \<longleftrightarrow> ls_status l = LsApproved \<and> \<not> ls_dormant l"

definition days_since :: "real \<Rightarrow> real \<Rightarrow> real" where
  "days_since reference t = max ((reference - t) / 86400) 0"

record decay_settings =
  dc_half_life :: real
  dc_threshold :: real
  dc_dormancy_days :: real

definition decay_lesson :: "decay_settings \<Rightarrow> string \<Rightarrow> real \<Rightarrow> lesson \<Rightarrow> exn + lesson" where
  "decay_lesson ds timestamp days l = (case decayed_confidence (ls_confidence l) days (dc_half_life ds) of
       Inl e \<Rightarrow> Inl e
     | Inr c \<Rightarrow> let l' = l\<lparr>ls_confidence := c\<rparr> in
         Inr (if c < dc_threshold ds \<or> dc_dormancy_days ds < days
              then l'\<lparr>ls_dormant := True, ls_dormant_at := Some timestamp\<rparr> else l'))"

fun decay_loop :: "env \<Rightarrow> decay_settings \<Rightarrow> string \<Rightarrow> real \<Rightarrow> decay_report \<Rightarrow> lesson list
    \<Rightarrow> exn + (lesson list \<times> decay_report)" where
  "decay_loop E ds timestamp reference r [] = Inr ([], r)"
| "decay_loop E ds timestamp reference r (l # ls) =
     (if \<not> decays l
      then (case decay_loop E ds timestamp reference r ls of Inl e \<Rightarrow> Inl e | Inr (ls', r') \<Rightarrow> Inr (l # ls', r'))
      else (case parse_timestamp E (last_use l) of Inl e \<Rightarrow> Inl e | Inr t \<Rightarrow>
        (case decay_lesson ds timestamp (days_since reference t) l of Inl e \<Rightarrow> Inl e | Inr l' \<Rightarrow>
          (case decay_loop E ds timestamp reference
              \<lparr>dr_examined = Suc (dr_examined r),
               dr_decayed = (if ls_confidence l' < ls_confidence l then Suc (dr_decayed r) else dr_decayed r),
               dr_dormant_ids = (if ls_dormant l' then dr_dormant_ids r @ [ls_id l] else dr_dormant_ids r)\<rparr> ls of
             Inl e \<Rightarrow> Inl e | Inr (ls', r') \<Rightarrow> Inr (l' # ls', r')))))"

definition check_settings :: "decay_settings \<Rightarrow> exn + unit" where
  "check_settings ds =
     (if dc_half_life ds \<le> 0 then Inl (ValueError ''half_life_days must be positive'')
      else if dc_dormancy_days ds \<le> 0 then Inl (ValueError ''dormancy_days must be positive'')
      else if \<not> (0 \<le> dc_threshold ds \<and> dc_threshold ds \<le> 1)
      then Inl (ValueError ''dormancy_threshold must be within [0, 1]'') else Inr ())"

definition apply_decay :: "env \<Rightarrow> string option \<Rightarrow> decay_settings \<Rightarrow> (world, decay_report) prog" where
  "apply_decay E now ds = bindp (lift_result (check_settings ds)) (\<lambda>_.
     bindp (case now of Some (c # cs) \<Rightarrow> ret (c # cs) | _ \<Rightarrow> utc_now E) (\<lambda>timestamp.
     bindp (lift_result (parse_timestamp E timestamp)) (\<lambda>reference.
     bindp (lesson_load E) (\<lambda>d.
     bindp (lift_result (decay_loop E ds timestamp reference
       \<lparr>dr_examined = 0, dr_decayed = 0, dr_dormant_ids = []\<rparr> (ld_lessons d))) (\<lambda>(ls, r).
     thenp (lesson_save E (d\<lparr>ld_lessons := ls\<rparr>)) (ret r))))))"

section \<open>The daily digest (digest.py)\<close>

definition stage_transition_types :: "string list" where
  "stage_transition_types = [''StageStarted'', ''StageCompleted'', ''StageBlocked'', ''StageOverride'']"

definition gate_types :: "string list" where
  "gate_types = [''GateStarted'', ''GateCompleted'']"

definition agent_actor_types :: "string list" where
  "agent_actor_types = [''adapter'', ''agent'']"

definition stage_or_dash :: "lifecycle_event \<Rightarrow> string" where
  "stage_or_dash ev = (case ev_stage_id ev of Some (c # cs) \<Rightarrow> c # cs | _ \<Rightarrow> ''-'')"

definition payload_text :: "env \<Rightarrow> string \<Rightarrow> json \<Rightarrow> lifecycle_event \<Rightarrow> string" where
  "payload_text E k dflt ev = py_str E (case dict_get (ev_payload ev) k of None \<Rightarrow> dflt | Some v \<Rightarrow> v)"

definition backtick :: "string \<Rightarrow> string" where
  "backtick s = ''`'' @ s @ ''`''"

definition section_lines :: "string \<Rightarrow> string list \<Rightarrow> string list" where
  "section_lines title ls = (if ls = [] then [] else [[], ''## '' @ title, []] @ ls)"

definition render_digest :: "env \<Rightarrow> string \<Rightarrow> lifecycle_event list \<Rightarrow> string" where
  "render_digest E date events = join nl (
     [''# Daily Digest -- '' @ date, [], ''Total events: '' @ show_nat (length events), [],
      ''## Events by type'', []] @
     map (\<lambda>ty. ''- '' @ ty @ '': '' @ show_nat (length (filter (\<lambda>ev. ev_type ev = ty) events)))
       (sorted_set (map ev_type events)) @
     section_lines ''Stage transitions'' (map (\<lambda>ev. ''- '' @ ev_timestamp ev @ '' '' @ backtick (ev_type ev) @
         '' stage='' @ stage_or_dash ev)
       (filter (\<lambda>ev. ev_type ev \<in> set stage_transition_types) events)) @
     section_lines ''Agent runs'' (map (\<lambda>ev. ''- '' @ ev_timestamp ev @ '' '' @ backtick (ev_type ev) @
         '' adapter='' @ ea_id (ev_actor ev) @ '' stage='' @ stage_or_dash ev @ '' status='' @
         payload_text E ''status'' (JStr ''unknown'') ev)
       (filter (\<lambda>ev. ea_type (ev_actor ev) \<in> set agent_actor_types) events)) @
     section_lines ''Gate results'' (map (\<lambda>ev. ''- '' @ ev_timestamp ev @ '' '' @ backtick (ev_type ev) @
         '' stage='' @ stage_or_dash ev @
         (if ev_type ev = ''GateCompleted''
          then '' blocking_failed='' @ payload_text E ''blocking_failed'' (JBool False) ev @
            '' result_count='' @ payload_text E ''result_count'' (JInt 0) ev else []))
       (filter (\<lambda>ev. ev_type ev \<in> set gate_types) events)) @ [[]])"

definition digest_path :: "string \<Rightarrow> string" where
  "digest_path date = ''pipeline/log/daily-'' @ date @ ''.md''"

definition events_of_day :: "string \<Rightarrow> lifecycle_event list \<Rightarrow> lifecycle_event list" where
  "events_of_day date evs = sort_key (\<lambda>ev. (ev_timestamp ev, ev_id ev))
     (filter (\<lambda>ev. take 10 (ev_timestamp ev) = date) evs)"

text \<open>\<open>mtime\<close> is the time the file system gives the file.\<close>

definition write_digest :: "env \<Rightarrow> real \<Rightarrow> string option \<Rightarrow> string option \<Rightarrow> (world, string option) prog" where
  "write_digest E mtime for_date now =
     bindp (case for_date of Some (c # cs) \<Rightarrow> ret (c # cs)
            | _ \<Rightarrow> bindp (case now of Some (c # cs) \<Rightarrow> ret (c # cs) | _ \<Rightarrow> utc_now E) (\<lambda>t. ret (take 10 t)))
       (\<lambda>date. bindp (read_events E) (\<lambda>evs. let day = events_of_day date evs in
         if day = [] then ret None
         else thenp (write_file E (root_path E @ ''/'' @ digest_path date) (\<lambda>w. w\<lparr>w_fs := (w_fs w)
             (digest_path date \<mapsto> \<lparr>fe_content = render_digest E date day, fe_mtime = mtime\<rparr>)\<rparr>))
           (ret (Some (digest_path date)))))"

section \<open>Tensions (tensions.py)\<close>

definition negative_markers :: "string list" where
  "negative_markers = [''never'', ''avoid'', ''don'' @ [CHR 0x27] @ ''t'', ''do not'', ''disable'']"

definition positive_markers :: "string list" where
  "positive_markers = [''always'', ''prefer'', ''ensure'', ''do '', ''enable'']"

definition polarity_words :: "string list" where
  "polarity_words = [''never'', ''avoid'', ''don'' @ [CHR 0x27] @ ''t'', ''dont'', ''do'', ''not'', ''always'',
     ''prefer'', ''ensure'', ''enable'', ''disable'']"

definition is_word_char :: "char \<Rightarrow> bool" where
  "is_word_char c \<longleftrightarrow> (97 \<le> ord c \<and> ord c \<le> 122) \<or> c = CHR 0x27"

text \<open>\<open>re.findall("[a-z']+", s)\<close>: the maximal runs of word characters.\<close>

fun word_runs :: "string \<Rightarrow> string \<Rightarrow> string list" where
  "word_runs cur [] = (if cur = [] then [] else [cur])"
| "word_runs cur (c # cs) =
     (if is_word_char c then word_runs (cur @ [c]) cs
      else if cur = [] then word_runs [] cs else cur # word_runs [] cs)"

definition content_words :: "string \<Rightarrow> string list" where
  "content_words text = filter (\<lambda>w. 5 \<le> length w \<and> w \<notin> set polarity_words) (word_runs [] (lower text))"

definition shared_content_words :: "string \<Rightarrow> string \<Rightarrow> string list" where
  "shared_content_words a b = sorted_set (filter (\<lambda>w. w \<in> set (content_words b)) (content_words a))"

definition has_marker :: "string list \<Rightarrow> string \<Rightarrow> bool" where
  "has_marker ms text = list_ex (\<lambda>m. is_substring m (lower text)) ms"

definition has_opposite_polarity :: "string \<Rightarrow> string \<Rightarrow> bool" where
  "has_opposite_polarity a b \<longleftrightarrow>
     (has_marker negative_markers a \<and> has_marker positive_markers b) \<or>
     (has_marker positive_markers a \<and> has_marker negative_markers b)"

definition shares_scope :: "lesson \<Rightarrow> lesson \<Rightarrow> bool" where
  "shares_scope a b \<longleftrightarrow> (ls_stage_id a \<noteq> None \<and> ls_stage_id a = ls_stage_id b) \<or>
     set (ls_tags a) \<inter> set (ls_tags b) \<noteq> {}"

record tension =
  tn_lesson_a :: string
  tn_lesson_b :: string
  tn_shared_terms :: "string list"
  tn_reason :: string

definition tension_of :: "lesson \<Rightarrow> lesson \<Rightarrow> tension option" where
  "tension_of a b = (if \<not> shares_scope a b then None
     else if \<not> has_opposite_polarity (ls_text a) (ls_text b) then None
     else let terms = shared_content_words (ls_text a) (ls_text b) in
       if terms = [] then None
       else Some \<lparr>tn_lesson_a = ls_id a, tn_lesson_b = ls_id b, tn_shared_terms = terms,
         tn_reason = ''Approved lessons give opposite guidance over shared terms: '' @ join '', '' terms @ ''.''\<rparr>)"

fun tension_pairs :: "lesson list \<Rightarrow> tension list" where
  "tension_pairs [] = []"
| "tension_pairs (a # ls) = List.map_filter (tension_of a) ls @ tension_pairs ls"

definition detect_tensions :: "lesson list \<Rightarrow> tension list" where
  "detect_tensions ls = tension_pairs (sort_key (\<lambda>l. (ls_created_at l, ls_id l))
     (filter (\<lambda>l. ls_status l = LsApproved) ls))"

section \<open>Re-ingestion\<close>

fun recent_reflections :: "env \<Rightarrow> real \<Rightarrow> reflection list \<Rightarrow> exn + reflection list" where
  "recent_reflections E start [] = Inr []"
| "recent_reflections E start (r # rs) = (case parse_timestamp E (rf_created_at r) of Inl e \<Rightarrow> Inl e
     | Inr t \<Rightarrow> (case recent_reflections E start rs of Inl e \<Rightarrow> Inl e
         | Inr rs' \<Rightarrow> Inr (if start \<le> t then r # rs' else rs')))"

definition recurring_stages :: "reflection list \<Rightarrow> string list" where
  "recurring_stages rs = (let sids = List.map_filter rf_stage_id rs in
     filter (\<lambda>s. 3 \<le> count_list sids s) (sorted_set sids))"

text \<open>\<open>shown\<close> is how \<open>f"{window_days:g}"\<close> writes the window.\<close>

definition friction_text :: "string \<Rightarrow> string \<Rightarrow> string" where
  "friction_text shown stage_id = ''Stage `'' @ stage_id @ ''` accumulated 3+ reflections within the last '' @
     shown @ '' days; review the recurring friction and extract a durable lesson.''"

definition propose_lesson :: "env \<Rightarrow> string \<Rightarrow> string list \<Rightarrow> string \<Rightarrow> string list \<Rightarrow> (world, string list) prog" where
  "propose_lesson E shown pending stage_id proposed =
     (let text = friction_text shown stage_id in
      if text \<in> set pending then ret proposed
      else bindp (lesson_add E text (4 / 10) [''dreamer'', ''reingest''] (Some stage_id) SrcReflection None [])
        (\<lambda>l. ret (proposed @ [ls_id l])))"

definition tension_summary :: "tension \<Rightarrow> string" where
  "tension_summary t = ''Tension between lessons `'' @ tn_lesson_a t @ ''` and `'' @ tn_lesson_b t @
     ''`: opposite guidance over shared terms '' @ join '', '' (tn_shared_terms t) @ ''.''"

definition record_tension :: "env \<Rightarrow> tension \<Rightarrow> string list \<Rightarrow> (world, string list) prog" where
  "record_tension E t summaries = (let s = tension_summary t in
     if s \<in> set summaries then ret summaries
     else thenp (reflection_add E ''DreamerTension'' s None [] []
         [(''lesson_a'', JStr (tn_lesson_a t)), (''lesson_b'', JStr (tn_lesson_b t)),
          (''shared_terms'', JArr (map JStr (tn_shared_terms t)))])
       (ret (summaries @ [s])))"

record reingest_report =
  rr_reflections_scanned :: nat
  rr_tensions :: "tension list"
  rr_lessons_proposed :: "string list"

definition reingest_reflections :: "env \<Rightarrow> string option \<Rightarrow> real \<Rightarrow> string \<Rightarrow> (world, reingest_report) prog" where
  "reingest_reflections E now window_days shown =
     bindp (case now of Some (c # cs) \<Rightarrow> ret (c # cs) | _ \<Rightarrow> utc_now E) (\<lambda>timestamp.
     bindp (lift_result (parse_timestamp E timestamp)) (\<lambda>reference.
     bindp (reflection_list E None) (\<lambda>all.
     bindp (lift_result (recent_reflections E (reference - window_days * 86400) all)) (\<lambda>recent.
     bindp (lesson_list E (Some LsPending) None None) (\<lambda>pending.
     bindp (foldp (propose_lesson E shown (map ls_text pending)) (recurring_stages recent) []) (\<lambda>proposed.
     bindp (lesson_list E (Some LsApproved) None None) (\<lambda>approved.
     let tensions = detect_tensions approved in
     thenp (foldp (record_tension E) tensions (map rf_summary all))
       (ret \<lparr>rr_reflections_scanned = length recent, rr_tensions = tensions, rr_lessons_proposed = proposed\<rparr>))))))))"

section \<open>What decay does\<close>

definition decayed_to :: "env \<Rightarrow> decay_settings \<Rightarrow> string \<Rightarrow> real \<Rightarrow> lesson \<Rightarrow> lesson \<Rightarrow> bool" where
  "decayed_to E ds ts ref l l' \<longleftrightarrow> (if decays l
     then \<exists>t. parse_timestamp E (last_use l) = Inr t \<and> decay_lesson ds ts (days_since ref t) l = Inr l'
     else l' = l)"

lemma decay_loop_pointwise:
  "decay_loop E ds ts ref r ls = Inr (ls', r') \<Longrightarrow> list_all2 (decayed_to E ds ts ref) ls ls' \<and>
     dr_examined r' = dr_examined r + length (filter decays ls)"
proof (induction ls arbitrary: r ls' r')
  case Nil
  then show ?case by simp
next
  case (Cons l ls)
  show ?case
  proof (cases "decays l")
    case False
    with Cons.prems obtain ls1 where "decay_loop E ds ts ref r ls = Inr (ls1, r')" "ls' = l # ls1"
      by (auto split: sum.splits)
    with Cons.IH [OF this(1)] False show ?thesis by (simp add: decayed_to_def)
  next
    case True
    with Cons.prems obtain t l' r1 ls1 where h: "parse_timestamp E (last_use l) = Inr t"
        "decay_lesson ds ts (days_since ref t) l = Inr l'" "ls' = l' # ls1"
      and r1: "decay_loop E ds ts ref r1 ls = Inr (ls1, r')" "dr_examined r1 = Suc (dr_examined r)"
      by (auto split: sum.splits)
    from Cons.IH [OF r1(1)] h r1(2) True show ?thesis by (simp add: decayed_to_def)
  qed
qed

lemma decay_lesson_result:
  assumes "decay_lesson ds ts days l = Inr l'"
  shows "0 < dc_half_life ds \<and> ls_confidence l' = max (ls_confidence l * (1 / 2) powr (days / dc_half_life ds)) 0 \<and>
    l' = l\<lparr>ls_confidence := ls_confidence l', ls_dormant := ls_dormant l', ls_dormant_at := ls_dormant_at l'\<rparr> \<and>
    (ls_dormant l' \<longleftrightarrow> ls_dormant l \<or> ls_confidence l' < dc_threshold ds \<or> dc_dormancy_days ds < days)"
  using assms by (auto simp: decay_lesson_def decayed_confidence_def Let_def split: if_splits)

lemma decay_update_fields:
  "l' = l\<lparr>ls_confidence := c, ls_dormant := dm, ls_dormant_at := da\<rparr> \<Longrightarrow>
     last_use l' = last_use l \<and> ls_id l' = ls_id l \<and> ls_status l' = ls_status l \<and> ls_text l' = ls_text l \<and>
     ls_tags l' = ls_tags l"
  by (simp add: last_use_def split: option.split list.split)

lemma decay_factor: "0 \<le> x \<Longrightarrow> (1 / 2 :: real) powr x \<le> 1 \<and> 0 < (1 / 2 :: real) powr x"
  using powr_mono' [of 0 x "1 / 2 :: real"] by simp

lemma decayed_to_props:
  assumes "decayed_to E ds ts ref l l'" and "0 \<le> ls_confidence l" and "ls_confidence l \<le> 1"
  shows "l' = l\<lparr>ls_confidence := ls_confidence l', ls_dormant := ls_dormant l', ls_dormant_at := ls_dormant_at l'\<rparr> \<and>
    0 \<le> ls_confidence l' \<and> ls_confidence l' \<le> ls_confidence l \<and> (ls_dormant l \<longrightarrow> l' = l) \<and>
    (ls_status l \<noteq> LsApproved \<longrightarrow> l' = l)"
proof (cases "decays l")
  case False
  with assms show ?thesis by (simp add: decayed_to_def)
next
  case True
  with assms(1) obtain t where d: "decay_lesson ds ts (days_since ref t) l = Inr l'" by (auto simp: decayed_to_def)
  note res = decay_lesson_result [OF d]
  have "0 \<le> days_since ref t / dc_half_life ds" using res by (simp add: days_since_def)
  from decay_factor [OF this] assms(2)
  have le: "ls_confidence l * (1 / 2) powr (days_since ref t / dc_half_life ds) \<le> ls_confidence l"
    by (simp add: mult_left_le)
  have "ls_confidence l' = max (ls_confidence l * (1 / 2) powr (days_since ref t / dc_half_life ds)) 0"
    using res by blast
  with le assms(2) have "0 \<le> ls_confidence l' \<and> ls_confidence l' \<le> ls_confidence l" by simp
  with res True show ?thesis unfolding decays_def by blast
qed

lemma decayed_wf:
  "list_all2 (decayed_to E ds ts ref) ls ls' \<Longrightarrow> list_all wf_lesson ls \<Longrightarrow> list_all wf_lesson ls'"
proof (induction rule: list_all2_induct)
  case Nil
  then show ?case by simp
next
  case (Cons l ls l' ls')
  then have l: "wf_lesson l" by simp
  then have "0 \<le> ls_confidence l" "ls_confidence l \<le> 1" by (simp_all add: wf_lesson_iff)
  note p = decayed_to_props [OF Cons.hyps(1) this]
  then have e: "l' = l\<lparr>ls_confidence := ls_confidence l', ls_dormant := ls_dormant l', ls_dormant_at := ls_dormant_at l'\<rparr>"
    by blast
  have "0 \<le> ls_confidence l'" "ls_confidence l' \<le> 1" using p \<open>ls_confidence l \<le> 1\<close> by linarith+
  with l decay_update_fields [OF e] have "wf_lesson l'" by (simp add: wf_lesson_iff)
  with Cons show ?case by simp
qed

lemma apply_decay_run:
  assumes "apply_decay E (Some ts) ds w = (Inr r, w')" and "ts \<noteq> []" and "lesson_store.contents E w = Inr d"
  shows "\<exists>ref ls'. parse_timestamp E ts = Inr ref \<and> list_all2 (decayed_to E ds ts ref) (ld_lessons d) ls' \<and>
    lesson_store.contents E w' = Inr (d\<lparr>ld_lessons := ls'\<rparr>) \<and> dr_examined r = length (filter decays (ld_lessons d))"
proof -
  have ts: "(case Some ts of Some (c # cs) \<Rightarrow> ret (c # cs) | _ \<Rightarrow> utc_now E) = ret ts"
    using assms(2) by (cases ts) auto
  from assms(1,3) obtain ref ls' where ref: "parse_timestamp E ts = Inr ref"
    and loop: "decay_loop E ds ts ref \<lparr>dr_examined = 0, dr_decayed = 0, dr_dormant_ids = []\<rparr> (ld_lessons d) = Inr (ls', r)"
    and save: "lesson_save E (d\<lparr>ld_lessons := ls'\<rparr>) w = (Inr (), w')"
    unfolding apply_decay_def ts
    by (auto simp: bindp_run ret_run lift_result_run thenp_run lesson_store.load_run split: sum.splits prod.splits)
  note p = decay_loop_pointwise [OF loop]
  have "wf_lessons d" using lesson_store.contents_valid [OF assms(3)] .
  then have "wf_lessons (d\<lparr>ld_lessons := ls'\<rparr>)" using p decayed_wf unfolding wf_lessons_def by auto
  from lesson_store.save_contents [OF this save] ref p show ?thesis by auto
qed

section \<open>Properties\<close>

text \<open>The Dreamer only proposes. A decay run keeps every lesson, in order, with everything but its
  confidence and its dormancy; confidences never rise and stay in range; lessons that are not
  approved, or already dormant, are left alone; and it examines exactly the others.\<close>

lemma decay_only_proposes:
  assumes "apply_decay E (Some ts) ds w = (Inr r, w')" and "ts \<noteq> []" and "lesson_load E w = (Inr d, w)"
  shows "\<exists>ls'. lesson_load E w' = (Inr (d\<lparr>ld_lessons := ls'\<rparr>), w') \<and> length ls' = length (ld_lessons d) \<and>
    dr_examined r = length (filter decays (ld_lessons d)) \<and>
    (\<forall>j<length ls'. let l = ld_lessons d ! j; l' = ls' ! j in
       l' = l\<lparr>ls_confidence := ls_confidence l', ls_dormant := ls_dormant l', ls_dormant_at := ls_dormant_at l'\<rparr> \<and>
       0 \<le> ls_confidence l' \<and> ls_confidence l' \<le> ls_confidence l \<and> (\<not> decays l \<longrightarrow> l' = l))"
proof -
  have c: "lesson_store.contents E w = Inr d" using assms(3) by (simp add: lesson_store.contents_def)
  from apply_decay_run [OF assms(1,2) c] obtain ref ls' where
    a: "list_all2 (decayed_to E ds ts ref) (ld_lessons d) ls'"
    and c': "lesson_store.contents E w' = Inr (d\<lparr>ld_lessons := ls'\<rparr>)"
    and ex: "dr_examined r = length (filter decays (ld_lessons d))" by blast
  have wf: "list_all wf_lesson (ld_lessons d)" using lesson_store.contents_valid [OF c] by (simp add: wf_lessons_def)
  have len: "length ls' = length (ld_lessons d)" using list_all2_lengthD [OF a] by simp
  have "ls' ! j = (ld_lessons d ! j)\<lparr>ls_confidence := ls_confidence (ls' ! j), ls_dormant := ls_dormant (ls' ! j),
        ls_dormant_at := ls_dormant_at (ls' ! j)\<rparr> \<and>
      0 \<le> ls_confidence (ls' ! j) \<and> ls_confidence (ls' ! j) \<le> ls_confidence (ld_lessons d ! j) \<and>
      (\<not> decays (ld_lessons d ! j) \<longrightarrow> ls' ! j = ld_lessons d ! j)" if j: "j < length ls'" for j
  proof -
    have dj: "decayed_to E ds ts ref (ld_lessons d ! j) (ls' ! j)" using list_all2_nthD2 [OF a j] .
    have "wf_lesson (ld_lessons d ! j)" using wf j len by (simp add: list_all_length)
    then have "0 \<le> ls_confidence (ld_lessons d ! j)" "ls_confidence (ld_lessons d ! j) \<le> 1"
      by (simp_all add: wf_lesson_iff)
    from decayed_to_props [OF dj this] dj show ?thesis by (simp add: decayed_to_def)
  qed
  with c' len ex show ?thesis unfolding Let_def by (auto simp: lesson_store.load_run)
qed

definition demo_decay :: decay_settings where
  "demo_decay = \<lparr>dc_half_life = 30, dc_threshold = 3 / 10, dc_dormancy_days = 30\<rparr>"

definition demo_clock :: env where
  "demo_clock = demo_env\<lparr>parse_time := (\<lambda>s. Some (if s = ''now'' then 864000 else 0))\<rparr>"

definition demo_decay_world :: world where
  "demo_decay_world = empty_world\<lparr>w_lessons := Doc \<lparr>ld_schema_version = ''0.1'', ld_lessons = [demo_lesson_norm]\<rparr>\<rparr>"

lemma demo_decay_load:
  "lesson_load demo_clock demo_decay_world =
     (Inr \<lparr>ld_schema_version = ''0.1'', ld_lessons = [demo_lesson_norm]\<rparr>, demo_decay_world)"
  using validate_lesson_wf [OF validate_demo] by (simp add: lesson_load_def demo_decay_world_def wf_lesson_def)

lemma demo_decay_times:
  "parse_timestamp demo_clock ''now'' = Inr 864000" "parse_timestamp demo_clock (last_use demo_lesson_norm) = Inr 0"
  by (simp_all add: parse_timestamp_def utc_suffix_def demo_clock_def last_use_def demo_lesson_norm_def demo_lesson_def)

definition demo_aged :: "nat \<Rightarrow> lesson" where
  "demo_aged n = demo_lesson_norm\<lparr>ls_confidence := 9 / 10 * ((1 / 2) powr (10 / 30)) ^ n\<rparr>"

lemma demo_aged_0: "demo_aged 0 = demo_lesson_norm"
  by (simp add: demo_aged_def demo_lesson_norm_def demo_lesson_def)

lemma demo_aged_awake: "decays (demo_aged n)" "last_use (demo_aged n) = last_use demo_lesson_norm"
  by (simp_all add: demo_aged_def decays_def demo_norm_fields last_use_def split: option.split list.split)

lemma demo_decay_confidence:
  assumes "n \<le> 1"
  shows "3 / 10 \<le> 9 / 10 * ((1 / 2 :: real) powr (10 / 30)) ^ Suc n"
proof -
  have "(1 / 2 :: real) powr 1 \<le> (1 / 2) powr ((10 / 30) * (1 + n))" using assms by (intro powr_mono') simp_all
  also have "\<dots> = ((1 / 2) powr (10 / 30)) ^ Suc n"
    using powr_powr [of "1 / 2 :: real" "10 / 30" "real (Suc n)"]
      powr_realpow [of "(1 / 2 :: real) powr (10 / 30)" "Suc n"] by simp
  finally show ?thesis by simp
qed

lemma demo_decay_step:
  "n \<le> 1 \<Longrightarrow> decay_lesson demo_decay ''now'' 10 (demo_aged n) = Inr (demo_aged (Suc n))"
  using demo_decay_confidence [of n]
  by (simp add: decay_lesson_def decayed_confidence_def demo_decay_def Let_def demo_aged_def mult.commute mult.left_commute)

lemma demo_decay_run:
  assumes "n \<le> 1" and load: "lesson_load demo_clock w = (Inr \<lparr>ld_schema_version = ''0.1'', ld_lessons = [demo_aged n]\<rparr>, w)"
  shows "\<exists>r w'. apply_decay demo_clock (Some ''now'') demo_decay w = (Inr r, w') \<and>
     lesson_load demo_clock w' = (Inr \<lparr>ld_schema_version = ''0.1'', ld_lessons = [demo_aged (Suc n)]\<rparr>, w')"
proof -
  have d: "days_since 864000 0 = 10" by (simp add: days_since_def)
  with demo_aged_awake demo_decay_times demo_decay_step [OF assms(1)]
  have "\<exists>r. decay_loop demo_clock demo_decay ''now'' 864000
      \<lparr>dr_examined = 0, dr_decayed = 0, dr_dormant_ids = []\<rparr> [demo_aged n] = Inr ([demo_aged (Suc n)], r)" by simp
  moreover have "write_ok_at demo_clock m p" for m p by (simp add: demo_clock_def demo_env_def)
  ultimately have "\<exists>r w'. apply_decay demo_clock (Some ''now'') demo_decay w = (Inr r, w')"
    using demo_decay_times load
    by (auto simp: apply_decay_def bindp_run lift_result_run check_settings_def demo_decay_def ret_run
        thenp_run lesson_save_def write_file_run)
  then obtain r w' where run: "apply_decay demo_clock (Some ''now'') demo_decay w = (Inr r, w')" by blast
  have c: "lesson_store.contents demo_clock w = Inr \<lparr>ld_schema_version = ''0.1'', ld_lessons = [demo_aged n]\<rparr>"
    by (simp add: lesson_store.contents_def load)
  from apply_decay_run [OF run _ c] obtain ref ls' where r: "parse_timestamp demo_clock ''now'' = Inr ref"
      "list_all2 (decayed_to demo_clock demo_decay ''now'' ref) [demo_aged n] ls'"
    and c': "lesson_store.contents demo_clock w' = Inr \<lparr>ld_schema_version = ''0.1'', ld_lessons = ls'\<rparr>" by auto
  from r d demo_aged_awake demo_decay_times demo_decay_step [OF assms(1)] have "ls' = [demo_aged (Suc n)]"
    by (auto simp: decayed_to_def list_all2_Cons1)
  with run c' show ?thesis by (auto simp: lesson_store.load_run)
qed

lemma decay_only_proposes_witness:
  "\<exists>r w'. apply_decay demo_clock (Some ''now'') demo_decay demo_decay_world = (Inr r, w') \<and> dr_examined r = 1"
proof -
  obtain r w' where run: "apply_decay demo_clock (Some ''now'') demo_decay demo_decay_world = (Inr r, w')"
    using demo_decay_run [of 0 demo_decay_world] demo_decay_load unfolding demo_aged_0 by auto
  from decay_only_proposes [OF run _ demo_decay_load] run show ?thesis
    by (auto simp: decays_def demo_norm_fields)
qed

text \<open>Decay compounds with every run. A second run at the very same moment multiplies the confidence
  by the decay factor again, although no time has passed: after two runs a lesson that stayed awake
  has the confidence it should have after twice the time since its last use.\<close>

lemma repeated_decay_compounds:
  assumes "apply_decay E (Some ts) ds w = (Inr r1, w1)" and "apply_decay E (Some ts) ds w1 = (Inr r2, w2)"
    and "ts \<noteq> []" and "lesson_load E w = (Inr d, w)" and "j < length (ld_lessons d)"
    and "decays (ld_lessons d ! j)" and "parse_timestamp E ts = Inr ref"
    and "parse_timestamp E (last_use (ld_lessons d ! j)) = Inr t" and "days_since ref t \<le> dc_dormancy_days ds"
    and "dc_threshold ds \<le> ls_confidence (ld_lessons d ! j) * (1 / 2) powr (days_since ref t / dc_half_life ds)"
  shows "\<exists>d2. lesson_load E w2 = (Inr d2, w2) \<and> ls_id (ld_lessons d2 ! j) = ls_id (ld_lessons d ! j) \<and>
    ls_confidence (ld_lessons d2 ! j) =
      ls_confidence (ld_lessons d ! j) * (1 / 2) powr (2 * days_since ref t / dc_half_life ds)"
proof -
  let ?l = "ld_lessons d ! j" and ?f = "(1 / 2 :: real) powr (days_since ref t / dc_half_life ds)"
  have c: "lesson_store.contents E w = Inr d" using assms(4) by (simp add: lesson_store.contents_def)
  from apply_decay_run [OF assms(1,3) c] assms(7) obtain ls1 where
    a1: "list_all2 (decayed_to E ds ts ref) (ld_lessons d) ls1"
    and c1: "lesson_store.contents E w1 = Inr (d\<lparr>ld_lessons := ls1\<rparr>)" by auto
  from apply_decay_run [OF assms(2,3) c1] assms(7) obtain ls2 where
    a2: "list_all2 (decayed_to E ds ts ref) ls1 ls2"
    and c2: "lesson_store.contents E w2 = Inr (d\<lparr>ld_lessons := ls2\<rparr>)" by auto
  have j1: "j < length ls1" using list_all2_lengthD [OF a1] assms(5) by simp
  have "wf_lesson ?l" using lesson_store.contents_valid [OF c] assms(5) by (simp add: wf_lessons_def list_all_length)
  then have conf: "0 \<le> ls_confidence ?l" by (simp add: wf_lesson_iff)
  from list_all2_nthD [OF a1 assms(5)] assms(6,8) have d1: "decay_lesson ds ts (days_since ref t) ?l = Inr (ls1 ! j)"
    by (auto simp: decayed_to_def)
  note r1 = decay_lesson_result [OF d1]
  have f: "0 < ?f" by simp
  then have k1: "ls_confidence (ls1 ! j) = ls_confidence ?l * ?f" using r1 conf by simp
  with r1 assms(6,9,10) have awake: "\<not> ls_dormant (ls1 ! j)" by (auto simp: decays_def)
  have e1: "ls1 ! j = ?l\<lparr>ls_confidence := ls_confidence (ls1 ! j), ls_dormant := ls_dormant (ls1 ! j),
      ls_dormant_at := ls_dormant_at (ls1 ! j)\<rparr>" using r1 by blast
  have same: "last_use (ls1 ! j) = last_use ?l" "ls_status (ls1 ! j) = ls_status ?l" "ls_id (ls1 ! j) = ls_id ?l"
    using decay_update_fields [OF e1] by blast+
  with awake assms(6) have "decays (ls1 ! j)" by (simp add: decays_def)
  with list_all2_nthD [OF a2 j1] same(1) assms(8) have d2: "decay_lesson ds ts (days_since ref t) (ls1 ! j) = Inr (ls2 ! j)"
    by (auto simp: decayed_to_def)
  note r2 = decay_lesson_result [OF d2]
  have "ls_confidence (ls2 ! j) = ls_confidence ?l * ?f * ?f" using r2 k1 conf f by simp
  also have "\<dots> = ls_confidence ?l * (1 / 2) powr (2 * days_since ref t / dc_half_life ds)"
    by (simp add: powr_add [symmetric])
  finally have k2: "ls_confidence (ls2 ! j) = ls_confidence ?l * (1 / 2) powr (2 * days_since ref t / dc_half_life ds)" .
  have e2: "ls2 ! j = (ls1 ! j)\<lparr>ls_confidence := ls_confidence (ls2 ! j), ls_dormant := ls_dormant (ls2 ! j),
      ls_dormant_at := ls_dormant_at (ls2 ! j)\<rparr>" using r2 by blast
  have "ls_id (ls2 ! j) = ls_id (ls1 ! j)" using decay_update_fields [OF e2] by blast
  with same k2 c2 show ?thesis
    by (intro exI [of _ "d\<lparr>ld_lessons := ls2\<rparr>"]) (simp add: lesson_store.load_run)
qed

lemma repeated_decay_compounds_witness:
  "\<exists>r1 w1 r2 w2 d2. apply_decay demo_clock (Some ''now'') demo_decay demo_decay_world = (Inr r1, w1) \<and>
     apply_decay demo_clock (Some ''now'') demo_decay w1 = (Inr r2, w2) \<and> lesson_load demo_clock w2 = (Inr d2, w2) \<and>
     ls_confidence (ld_lessons d2 ! 0) = 9 / 10 * (1 / 2) powr (2 * 10 / 30)"
proof -
  have load: "lesson_load demo_clock demo_decay_world =
      (Inr \<lparr>ld_schema_version = ''0.1'', ld_lessons = [demo_aged 0]\<rparr>, demo_decay_world)"
    using demo_decay_load demo_aged_0 by simp
  from demo_decay_run [OF _ this] obtain r1 w1 where
    run1: "apply_decay demo_clock (Some ''now'') demo_decay demo_decay_world = (Inr r1, w1)"
    and l1: "lesson_load demo_clock w1 = (Inr \<lparr>ld_schema_version = ''0.1'', ld_lessons = [demo_aged 1]\<rparr>, w1)" by auto
  from demo_decay_run [OF _ l1] obtain r2 w2 where
    run2: "apply_decay demo_clock (Some ''now'') demo_decay w1 = (Inr r2, w2)" by auto
  have d: "days_since 864000 0 = 10" by (simp add: days_since_def)
  have t: "parse_timestamp demo_clock (last_use (demo_aged 0)) = Inr 0" using demo_aged_awake(2) demo_decay_times by simp
  from repeated_decay_compounds [OF run1 run2 _ load, of 0 864000 0] d t demo_aged_awake(1) [of 0]
    demo_decay_times(1) demo_decay_confidence [of 0] obtain d2 where "lesson_load demo_clock w2 = (Inr d2, w2)"
    "ls_confidence (ld_lessons d2 ! 0) = 9 / 10 * (1 / 2) powr (2 * 10 / 30)"
    by (auto simp: demo_decay_def demo_aged_def)
  with run1 run2 show ?thesis by blast
qed

end
