(* ===== verification/Agents.thy ===== *)
theory Agents imports Scaffold JsonText begin

text \<open>
  Stage agents, \<open>agents/\<close>: loading personas and output contracts (the bundled ones and the project's
  own), checking a contract, the adapter interface of \<open>adapters/base.py\<close>, the registry that picks the
  configured adapter, and the deterministic dummy adapter in its two variants. An adapter is a
  record of what it is and what spawning an agent does; the factories of the real back ends are
  entries of the registry the model is given. A path names a file of the project; \<open>mtime\<close> is the
  time the file system gives a written file.
\<close>

section \<open>Loading personas and contracts (loader.py)\<close>

definition agent_document :: "string \<Rightarrow> string \<times> 'a doc_file \<Rightarrow> exn + 'a" where
  "agent_document what = (\<lambda>(path, f). case f of
       Absent \<Rightarrow> Inl (AgentLoadError (''Could not read agent document: '' @ path))
     | Unreadable \<Rightarrow> Inl (AgentLoadError (''Could not read agent document: '' @ path))
     | BadSyntax \<Rightarrow> Inl (AgentLoadError (''Agent document is not valid YAML: '' @ path))
     | EmptyDoc \<Rightarrow> Inl (AgentLoadError (''Agent document must contain a YAML mapping: '' @ path))
     | NotMapping \<Rightarrow> Inl (AgentLoadError (''Agent document must contain a YAML mapping: '' @ path))
     | BadShape m \<Rightarrow> Inl (AgentLoadError (''Invalid '' @ what @ '' in '' @ path @ '': '' @ m))
     | Doc d \<Rightarrow> Inr d)"

text \<open>The local files in the order of their paths, each overriding the entry of its id.\<close>

fun load_overrides :: "string \<Rightarrow> ('a \<Rightarrow> string) \<Rightarrow> (string \<times> 'a doc_file) list \<Rightarrow> (string, 'a) dict
    \<Rightarrow> exn + (string, 'a) dict" where
  "load_overrides what key [] d = Inr d"
| "load_overrides what key (f # fs) d = (case agent_document what f of Inl e \<Rightarrow> Inl e
     | Inr x \<Rightarrow> load_overrides what key fs (dict_set (key x) x d))"

definition by_id :: "('a \<Rightarrow> string) \<Rightarrow> 'a list \<Rightarrow> (string, 'a) dict" where
  "by_id key xs = foldl (\<lambda>d x. dict_set (key x) x d) [] xs"

definition stage_persona :: "string \<Rightarrow> string \<Rightarrow> string \<Rightarrow> string \<Rightarrow> agent_definition" where
  "stage_persona i name role stage = \<lparr>ad_id = i, ad_name = name, ad_category = ''stage'', ad_role = role,
     ad_prompt = ''Act as the Forge OS '' @ name @ ''. Work only within the active `'' @ stage @
       ''` stage and produce the declared contract outputs.'',
     ad_stage_ids = [stage], ad_default_tools = [''read_file'', ''write_file'', ''list_files''],
     ad_output_contract_id = Some (stage @ ''_outputs'')\<rparr>"

definition cross_persona :: "string \<Rightarrow> string \<Rightarrow> string \<Rightarrow> agent_definition" where
  "cross_persona i name role = \<lparr>ad_id = i, ad_name = name, ad_category = ''cross_stage'', ad_role = role,
     ad_prompt = ''Act as the Forge OS '' @ name @
       ''. Support all lifecycle stages without mutating canonical state.'',
     ad_stage_ids = [], ad_default_tools = [''read_file'', ''list_files''], ad_output_contract_id = None\<rparr>"

definition builtin_personas :: "agent_definition list" where
  "builtin_personas = [
     stage_persona ''builder'' ''Builder'' ''Implement planned changes according to constraints.'' ''build'',
     stage_persona ''devops'' ''DevOps'' ''Prepare deployment, operations, and release automation.'' ''deploy'',
     stage_persona ''evaluator'' ''Evaluator'' ''Assess correctness, quality, and readiness.'' ''eval'',
     cross_persona ''gate_checker'' ''Gate Checker'' ''Review gate expectations and failure reasons.'',
     cross_persona ''lesson_extractor'' ''Lesson Extractor'' ''Extract durable lessons from completed work.'',
     stage_persona ''observer'' ''Observer'' ''Monitor runtime behavior and operational signals.'' ''monitor'',
     stage_persona ''planner'' ''Planner'' ''Break work into deterministic milestones and tasks.'' ''plan'',
     stage_persona ''product_designer'' ''Product Designer''
       ''Shape product goals, user value, and experience constraints.'' ''product'',
     cross_persona ''reflector'' ''Reflector'' ''Reflect on lifecycle progress and preserve insights.'',
     stage_persona ''release_manager'' ''Release Manager'' ''Finalize release notes and release readiness.'' ''release'',
     stage_persona ''requirements_analyst'' ''Requirements Analyst'' ''Clarify and document software requirements.'' ''srs'',
     stage_persona ''resolver'' ''Resolver'' ''Resolve prioritized defects and regressions.'' ''resolve'',
     cross_persona ''skill_miner'' ''Skill Miner'' ''Identify reusable skills and patterns.'',
     stage_persona ''spec_writer'' ''Spec Writer'' ''Produce precise implementation specifications.'' ''spec'',
     stage_persona ''system_architect'' ''System Architect''
       ''Define architecture, boundaries, and major design decisions.'' ''architecture'',
     stage_persona ''triage'' ''Triage'' ''Analyze feedback and classify issues.'' ''feedback'']"

definition builtin_contract :: "string \<times> string \<Rightarrow> output_contract" where
  "builtin_contract = (\<lambda>(stage, persona). \<lparr>oc_id = stage @ ''_outputs'', oc_stage_id = stage, oc_persona_id = persona,
     oc_required = [\<lparr>cq_id = stage @ ''_primary_artifact'', cq_type = ''file_exists'',
       cq_path = (if stage = ''srs'' then ''SRS.md'' else ''pipeline/log/'' @ stage @ ''-agent-output.md''),
       cq_description = Some (''Primary deterministic output for the '' @ stage @ '' stage.''), cq_blocking = True\<rparr>]\<rparr>)"

definition builtin_contracts :: "output_contract list" where
  "builtin_contracts = map builtin_contract [(''architecture'', ''system_architect''), (''build'', ''builder''),
     (''deploy'', ''devops''), (''eval'', ''evaluator''), (''feedback'', ''triage''), (''monitor'', ''observer''),
     (''plan'', ''planner''), (''product'', ''product_designer''), (''release'', ''release_manager''),
     (''resolve'', ''resolver''), (''spec'', ''spec_writer''), (''srs'', ''requirements_analyst'')]"

definition load_personas :: "(world, (string, agent_definition) dict) prog" where
  "load_personas = (\<lambda>w. (load_overrides ''agent persona'' ad_id (sort_key fst (w_personas w))
     (by_id ad_id builtin_personas), w))"

definition load_contracts :: "(world, (string, output_contract) dict) prog" where
  "load_contracts = (\<lambda>w. (load_overrides ''output contract'' oc_id (sort_key fst (w_contracts w))
     (by_id oc_id builtin_contracts), w))"

definition serves_stage :: "string \<Rightarrow> agent_definition \<Rightarrow> bool" where
  "serves_stage stage_id p \<longleftrightarrow> ad_category p = ''stage'' \<and> stage_id \<in> set (ad_stage_ids p)"

definition persona_for_stage :: "string \<Rightarrow> (world, agent_definition) prog" where
  "persona_for_stage stage_id = bindp load_personas (\<lambda>d.
     case List.find (serves_stage stage_id) (sort_key ad_id (map snd d)) of
       Some p \<Rightarrow> ret p
     | None \<Rightarrow> throw (AgentLoadError (''No stage persona configured for stage `'' @ stage_id @ ''`.'')))"

definition contract_for_persona :: "agent_definition \<Rightarrow> (world, output_contract) prog" where
  "contract_for_persona p = (case ad_output_contract_id p of
       None \<Rightarrow> throw (AgentLoadError (''Persona `'' @ ad_id p @ ''` does not declare an output contract.''))
     | Some cid \<Rightarrow> bindp load_contracts (\<lambda>d. case dict_get d cid of
           Some c \<Rightarrow> ret c
         | None \<Rightarrow> throw (AgentLoadError (''Output contract `'' @ cid @ ''` for persona `'' @ ad_id p @
             ''` was not found.''))))"

section \<open>Checking a contract (models.py)\<close>

definition check_requirement :: "file_system \<Rightarrow> contract_requirement \<Rightarrow> contract_check" where
  "check_requirement fs q = (let passed = (cq_type q = ''file_exists'' \<and> fs (cq_path q) \<noteq> None) in
     \<lparr>ck_requirement_id = cq_id q, ck_passed = passed, ck_blocking = cq_blocking q,
      ck_summary = (if passed then ''Required output exists: '' else ''Required output is missing: '') @ cq_path q\<rparr>)"

definition validate_contract :: "output_contract \<Rightarrow> (world, contract_result) prog" where
  "validate_contract c = bindp (asks w_fs) (\<lambda>fs. let checks = map (check_requirement fs) (oc_required c) in
     ret \<lparr>cv_contract_id = oc_id c, cv_stage_id = oc_stage_id c,
       cv_passed = (filter (\<lambda>k. ck_blocking k \<and> \<not> ck_passed k) checks = []), cv_checks = checks\<rparr>)"

section \<open>Adapters (base.py, dummy.py, async_dummy.py)\<close>

record kernel_adapter =
  ka_id :: string
  ka_capabilities :: "string list"
  ka_default_tools :: "string list"
  ka_spawn :: "agent_definition \<Rightarrow> string \<Rightarrow> string list \<Rightarrow> (world, agent_handle) prog"

definition supports :: "kernel_adapter \<Rightarrow> string \<Rightarrow> bool" where
  "supports a capability \<longleftrightarrow> capability \<in> set (ka_capabilities a)"

definition intersect_tools :: "string list \<Rightarrow> string list \<Rightarrow> string list" where
  "intersect_tools defaults requested = filter (\<lambda>t. t \<in> set defaults) requested"

definition dummy_tools :: "string list" where
  "dummy_tools = [''read_file'', ''write_file'', ''list_files'']"

definition default_output_path :: "string \<Rightarrow> string" where
  "default_output_path stage_id =
     (if stage_id = ''srs'' then ''SRS.md'' else ''pipeline/log/'' @ stage_id @ ''-agent-output.md'')"

definition artifact_content :: "string \<Rightarrow> agent_definition \<Rightarrow> string \<Rightarrow> string" where
  "artifact_content class persona stage_id = ''# '' @ ad_name persona @ '' Output'' @ nl @ nl @
     ''Stage: `'' @ stage_id @ ''`'' @ nl @ nl @
     ''This deterministic artifact was generated by `'' @ class @ ''` for testing.'' @ nl"

definition write_output :: "env \<Rightarrow> real \<Rightarrow> string \<Rightarrow> string \<Rightarrow> agent_definition \<Rightarrow> string \<Rightarrow> (world, output_artifact) prog" where
  "write_output E mtime class label persona stage_id = (let path = default_output_path stage_id in
     bindp (asks w_fs) (\<lambda>fs. thenp
       (whenp (fs path = None) (write_file E (root_path E @ ''/'' @ path) (\<lambda>w. w\<lparr>w_fs := (w_fs w)
          (path \<mapsto> \<lparr>fe_content = artifact_content class persona stage_id, fe_mtime = mtime\<rparr>)\<rparr>)))
       (ret \<lparr>oa_path = path, oa_kind = ''file'', oa_description = Some (label @ ad_name persona)\<rparr>)))"

definition write_outputs :: "env \<Rightarrow> real \<Rightarrow> string \<Rightarrow> string \<Rightarrow> agent_definition \<Rightarrow> (world, output_artifact list) prog" where
  "write_outputs E mtime class label persona =
     mapp (write_output E mtime class label persona) (take 1 (ad_stage_ids persona))"

definition first_stage :: "agent_definition \<Rightarrow> string option" where
  "first_stage p = (case ad_stage_ids p of [] \<Rightarrow> None | s # _ \<Rightarrow> Some s)"

definition completed_handle :: "string \<Rightarrow> string \<Rightarrow> agent_definition \<Rightarrow> string \<Rightarrow> string list \<Rightarrow> output_artifact list
    \<Rightarrow> agent_handle" where
  "completed_handle hid provider persona context granted outputs = \<lparr>ah_handle_id = hid, ah_provider = provider,
     ah_persona_id = ad_id persona, ah_stage_id = first_stage persona, ah_status = ''completed'',
     ah_outputs = outputs, ah_metadata = [(''context_length'', JInt (int (length context))),
       (''tools'', JArr (map JStr granted)), (''deterministic'', JBool True)]\<rparr>"

definition dummy_spawn :: "env \<Rightarrow> real \<Rightarrow> bool \<Rightarrow> agent_definition \<Rightarrow> string \<Rightarrow> string list \<Rightarrow> (world, agent_handle) prog" where
  "dummy_spawn E mtime create_outputs persona context tools =
     bindp (if create_outputs
       then write_outputs E mtime ''DummyAdapter'' ''Deterministic dummy output for '' persona else ret []) (\<lambda>outputs.
     bindp (uuid4 E) (\<lambda>u. ret (completed_handle (''agent-'' @ u) ''dummy'' persona context
       (intersect_tools dummy_tools tools) outputs)))"

definition dummy_adapter :: "env \<Rightarrow> real \<Rightarrow> bool \<Rightarrow> kernel_adapter" where
  "dummy_adapter E mtime create_outputs = \<lparr>ka_id = ''dummy'', ka_capabilities = [''stop_agent'', ''get_status''],
     ka_default_tools = dummy_tools, ka_spawn = dummy_spawn E mtime create_outputs\<rparr>"

definition async_dummy_spawn :: "env \<Rightarrow> real \<Rightarrow> bool \<Rightarrow> agent_definition \<Rightarrow> string \<Rightarrow> string list \<Rightarrow> (world, agent_handle) prog" where
  "async_dummy_spawn E mtime create_outputs persona context tools =
     bindp (if create_outputs
       then write_outputs E mtime ''AsyncDummyAdapter'' ''Deterministic async dummy output for '' persona else ret [])
       (\<lambda>outputs. bindp (uuid4 E) (\<lambda>u. ret (completed_handle (''async-agent-'' @ u) ''async-dummy'' persona context
         (intersect_tools dummy_tools tools) outputs)))"

section \<open>The adapter registry (registry.py)\<close>

type_synonym adapter_factory = "json_obj \<Rightarrow> (world, kernel_adapter) prog"

type_synonym adapter_registry = "(string, adapter_factory) dict"

definition register_adapter :: "string \<Rightarrow> adapter_factory \<Rightarrow> adapter_registry \<Rightarrow> exn + adapter_registry" where
  "register_adapter adapter_id factory reg =
     (if strip adapter_id = [] then Inl (AdapterRegistryError ''Adapter id is required.'')
      else Inr (dict_set adapter_id factory reg))"

definition placeholder_adapter :: "string \<Rightarrow> kernel_adapter" where
  "placeholder_adapter adapter_id = \<lparr>ka_id = adapter_id, ka_capabilities = [], ka_default_tools = [],
     ka_spawn = (\<lambda>_ _ _. throw (AdapterRegistryError
       ((case dict_get adapter_class_names adapter_id of Some c \<Rightarrow> c | None \<Rightarrow> adapter_id) @
        '' is configured but not available. Check that the optional dependency is installed.'')))\<rparr>"

definition create_adapter :: "adapter_registry \<Rightarrow> string \<Rightarrow> json_obj \<Rightarrow> (world, kernel_adapter) prog" where
  "create_adapter reg adapter_id config = (case dict_get reg adapter_id of
       Some factory \<Rightarrow> factory config
     | None \<Rightarrow> if adapter_id \<in> set adapter_priority then ret (placeholder_adapter adapter_id)
         else throw (AdapterRegistryError (''Unknown adapter `'' @ adapter_id @ ''`.'')))"

definition dummy_factory :: "env \<Rightarrow> real \<Rightarrow> adapter_factory" where
  "dummy_factory E mtime config = ret (dummy_adapter E mtime
     (truthy (case dict_get config ''create_outputs'' of Some v \<Rightarrow> v | None \<Rightarrow> JBool True)))"

definition create_adapter_from_config :: "adapter_registry \<Rightarrow> forge_config \<Rightarrow> (world, kernel_adapter) prog" where
  "create_adapter_from_config reg c = (let aid = cf_default_adapter c;
     config = (case dict_get (cf_adapters c) aid of Some x \<Rightarrow> x | None \<Rightarrow> []);
     enabled = (case dict_get config ''enabled'' of Some v \<Rightarrow> truthy v | None \<Rightarrow> aid = ''dummy'')
   in if \<not> enabled then throw (AdapterRegistryError (''Configured default adapter `'' @ aid @ ''` is disabled.''))
      else create_adapter reg aid config)"

section \<open>Lemmas\<close>

lemma agents_unchanged [frame_intros]:
  "unchanged f load_personas" "unchanged f load_contracts" "unchanged f (persona_for_stage sid)"
  "unchanged f (contract_for_persona p)" "unchanged f (validate_contract c)"
  by (auto simp: unchanged_def load_personas_def load_contracts_def persona_for_stage_def contract_for_persona_def
      validate_contract_def prog_simps Let_def split: option.splits sum.splits)

lemma load_overrides_get:
  "load_overrides what key fs d = Inr d' \<Longrightarrow> dict_get d' k =
     (case List.find (\<lambda>x. key x = k) (rev (List.map_filter (\<lambda>f. case agent_document what f of Inr x \<Rightarrow> Some x | Inl _ \<Rightarrow> None) fs)) of
        Some x \<Rightarrow> Some x | None \<Rightarrow> dict_get d k)"
proof (induction what key fs d rule: load_overrides.induct)
  case (1 what key d)
  then show ?case by (simp add: map_filter_simps)
next
  case (2 what key f fs d)
  from 2(2) obtain x where x: "agent_document what f = Inr x"
    and r: "load_overrides what key fs (dict_set (key x) x d) = Inr d'"
    by (auto split: sum.splits)
  have app: "List.find P (xs @ [y]) = (case List.find P xs of Some z \<Rightarrow> Some z | None \<Rightarrow> if P y then Some y else None)"
    for P and xs and y :: 'a by (induction xs) auto
  from 2(1) [OF x r] x show ?case
    by (auto simp: map_filter_simps app split: option.splits)
qed

lemma by_id_distinct:
  assumes "distinct (map key xs)"
  shows "map snd (by_id key xs) = xs" and "dict_get (by_id key xs) k = List.find (\<lambda>x. key x = k) xs"
proof -
  have "distinct (map key (rev ys)) \<Longrightarrow> foldr (\<lambda>x d. dict_set (key x) x d) ys [] = map (\<lambda>x. (key x, x)) (rev ys)" for ys
  proof (induction ys)
    case (Cons y ys)
    have "k \<notin> key ` set zs \<Longrightarrow> dict_set k y (map (\<lambda>x. (key x, x)) zs) = map (\<lambda>x. (key x, x)) zs @ [(k, y)]" for k and zs
      by (induction zs) (auto simp: dict_set_def)
    with Cons show ?case by auto
  qed simp
  from this [of "rev xs"] assms have e: "by_id key xs = map (\<lambda>x. (key x, x)) xs"
    by (simp add: by_id_def foldl_conv_foldr)
  then show "map snd (by_id key xs) = xs" by (simp add: comp_def)
  have "dict_get (map (\<lambda>x. (key x, x)) ys) k = List.find (\<lambda>x. key x = k) ys" for ys
    by (induction ys) (auto simp: dict_get_def)
  with e show "dict_get (by_id key xs) k = List.find (\<lambda>x. key x = k) xs" by simp
qed

lemma builtin_ids: "sorted (map ad_id builtin_personas)" "distinct (map ad_id builtin_personas)"
  "distinct (map oc_id builtin_contracts)"
  by code_simp+

lemma builtin_sorted: "sort_key ad_id (map snd (by_id ad_id builtin_personas)) = builtin_personas"
  using builtin_ids by (simp add: by_id_distinct sort_key_id_if_sorted)

definition builtin_agent_ok :: "string \<Rightarrow> bool" where
  "builtin_agent_ok s \<longleftrightarrow> (case List.find (serves_stage s) builtin_personas of
       None \<Rightarrow> False
     | Some p \<Rightarrow> ad_stage_ids p = [s] \<and> (case ad_output_contract_id p of None \<Rightarrow> False
         | Some cid \<Rightarrow> List.find (\<lambda>c. oc_id c = cid) builtin_contracts = Some (builtin_contract (s, ad_id p))))"

lemma builtin_agents_ok: "list_all builtin_agent_ok (map tp_id standard_stages)"
  by code_simp

lemma profile_stage_ids:
  assumes "get_profile_stages profile = Inr ts" and "t \<in> set ts"
  shows "tp_id t \<in> set (map tp_id standard_stages)"
proof -
  have "list_all (\<lambda>t. tp_id t \<in> set (map tp_id standard_stages)) minimal_stages" by code_simp
  with assms show ?thesis
    by (auto simp: get_profile_stages_def expert_stages_def list_all_iff split: if_splits)
qed

lemma write_outputs_one:
  assumes "ad_stage_ids p = [s]" and "write_outputs E mtime class label p w = (Inr outs, w')"
  shows "w_fs w' (default_output_path s) \<noteq> None \<and> map oa_path outs = [default_output_path s] \<and>
    (\<forall>q f. w_fs w q = Some f \<longrightarrow> w_fs w' q = Some f)"
  using assms by (auto simp: write_outputs_def write_output_def prog_simps Let_def split: if_splits sum.splits prod.splits)

section \<open>Properties\<close>

text \<open>Every stage of every profile has its agent. Without local overrides, each stage's persona
  and contract are found and belong to each other and to the stage; and when the dummy adapter, allowed
  to write, runs that persona, the contract then passes, and no file that was there has changed.\<close>

theorem every_stage_has_its_agent:
  assumes "get_profile_stages profile = Inr ts" and "t \<in> set ts"
    and "w_personas w = []" and "w_contracts w = []"
  shows "\<exists>p c. persona_for_stage (tp_id t) w = (Inr p, w) \<and> contract_for_persona p w = (Inr c, w) \<and>
    ad_stage_ids p = [tp_id t] \<and> oc_stage_id c = tp_id t \<and> oc_persona_id c = ad_id p \<and>
    (\<forall>E mtime context tools w2 h w3. dummy_spawn E mtime True p context tools w2 = (Inr h, w3) \<longrightarrow>
       ah_status h = ''completed'' \<and> (\<exists>v. validate_contract c w3 = (Inr v, w3) \<and> cv_passed v) \<and>
       (\<forall>q f. w_fs w2 q = Some f \<longrightarrow> w_fs w3 q = Some f))"
proof -
  let ?s = "tp_id t"
  have "builtin_agent_ok ?s" using builtin_agents_ok profile_stage_ids [OF assms(1,2)]
    unfolding list_all_iff by (rule bspec)
  then obtain p cid where p: "List.find (serves_stage ?s) builtin_personas = Some p"
    and s: "ad_stage_ids p = [?s]" and cid: "ad_output_contract_id p = Some cid"
    and c: "List.find (\<lambda>c. oc_id c = cid) builtin_contracts = Some (builtin_contract (?s, ad_id p))"
    by (auto simp: builtin_agent_ok_def split: option.splits)
  let ?c = "builtin_contract (?s, ad_id p)"
  have 1: "persona_for_stage ?s w = (Inr p, w)" using p assms(3)
    by (simp add: persona_for_stage_def load_personas_def prog_simps builtin_sorted)
  have 2: "contract_for_persona p w = (Inr ?c, w)" using c cid assms(4)
    by (simp add: contract_for_persona_def load_contracts_def prog_simps by_id_distinct builtin_ids)
  have 3: "ah_status h = ''completed'' \<and> (\<exists>v. validate_contract ?c w3 = (Inr v, w3) \<and> cv_passed v) \<and>
      (\<forall>q f. w_fs w2 q = Some f \<longrightarrow> w_fs w3 q = Some f)"
    if run: "dummy_spawn E mtime True p ctx tools w2 = (Inr h, w3)" for E mtime ctx tools w2 h w3
  proof -
    from run obtain outs w4 where o: "write_outputs E mtime ''DummyAdapter'' ''Deterministic dummy output for '' p w2 = (Inr outs, w4)"
      and h: "ah_status h = ''completed''" "w_fs w3 = w_fs w4"
      by (auto simp: dummy_spawn_def prog_simps completed_handle_def split: sum.splits prod.splits)
    from write_outputs_one [OF s o] h show ?thesis
      by (auto simp: validate_contract_def prog_simps Let_def builtin_contract_def check_requirement_def default_output_path_def)
  qed
  have "oc_stage_id ?c = ?s" "oc_persona_id ?c = ad_id p" by (simp_all add: builtin_contract_def)
  with 1 2 3 s show ?thesis by blast
qed

lemma every_stage_has_its_agent_witness:
  "\<exists>p c. persona_for_stage ''deploy'' empty_world = (Inr p, empty_world) \<and>
     contract_for_persona p empty_world = (Inr c, empty_world) \<and> oc_stage_id c = ''deploy'' \<and> oc_persona_id c = ad_id p"
proof -
  have t: "template ''deploy'' ''Deploy'' ''Prepare and perform deployment.'' 3 \<in> set minimal_stages"
    by (simp add: minimal_stages_def)
  have "get_profile_stages ''minimal'' = Inr minimal_stages" by (simp add: get_profile_stages_def)
  from every_stage_has_its_agent [OF this t, of empty_world] show ?thesis
    by (auto simp: empty_world_def template_def)
qed

end
