(* ===== verification/Executor.thy ===== *)
theory Executor imports Agents Pruner Lazy TokenBudget begin

text \<open>
  Running a stage agent, \<open>agents/executor.py\<close>: persona and contract, the configured adapter, the
  context (approved lessons, pruned artifacts, lazy menu), the budget monitor, the spawn, and what is
  recorded afterwards. The pruner is made for the run. \<open>repr\<close> writes a float, \<open>reg\<close> is the adapter
  registry.
\<close>

section \<open>The context (\<open>_stage_context\<close>)\<close>

definition dump_item :: "selected_item \<Rightarrow> json" where
  "dump_item i = JObj [(''artifact_id'', JStr (si_artifact_id i)), (''path'', JStr (si_path i)),
     (''priority'', JInt (int (si_priority i))), (''token_estimate'', JInt (int (si_token_estimate i))),
     (''reason'', JStr (si_reason i)), (''content'', JStr (si_content i))]"

definition dump_omitted :: "omitted_item \<Rightarrow> json" where
  "dump_omitted i = JObj [(''path'', JStr (oi_path i)), (''reason'', JStr (oi_reason i)),
     (''token_estimate'', JInt (int (oi_token_estimate i)))]"

definition dump_selection :: "context_selection \<Rightarrow> json" where
  "dump_selection s = JObj [(''schema_version'', JStr ''0.1''), (''selection_id'', JStr (cs_selection_id s)),
     (''stage_id'', JStr (cs_stage_id s)), (''token_budget'', JInt (cs_token_budget s)),
     (''total_tokens'', JInt (int (cs_total_tokens s))), (''selected'', JArr (map dump_item (cs_selected s))),
     (''omitted'', JArr (map dump_omitted (cs_omitted s))), (''created_at'', JStr (cs_created_at s))]"

definition dump_rendered :: "rendered_lesson \<Rightarrow> json" where
  "dump_rendered l = JObj [(''id'', JStr (rl_id l)), (''text'', JStr (rl_text l)),
     (''confidence'', JFloat (rl_confidence l)), (''tags'', JArr (map JStr (rl_tags l))),
     (''stage_id'', opt_str (rl_stage_id l))]"

definition dump_bundle :: "lazy_bundle \<Rightarrow> json" where
  "dump_bundle b = JObj [(''schema_version'', JStr ''0.1''), (''stage_id'', JStr (bu_stage_id b)),
     (''skills_menu'', JArr (map menu_json (bu_skills_menu b))),
     (''lesson_index'', JArr (map index_json (bu_lesson_index b))),
     (''token_budget'', JInt (bu_token_budget b)), (''lazy_tokens'', JInt (int (bu_lazy_tokens b))),
     (''trimmed'', JArr (map JStr (bu_trimmed b))), (''within_budget'', JBool (bu_within_budget b))]"

definition lazy_section :: "env \<Rightarrow> (real \<Rightarrow> string) \<Rightarrow> string \<Rightarrow> (world, json) prog" where
  "lazy_section E repr stage_id = catchp (bindp (build E repr stage_id 2000) (\<lambda>b. ret (dump_bundle b)))
     (\<lambda>e. let degraded = ret (JObj [(''skills_menu'', JArr []), (''lesson_index'', JArr []),
          (''error'', JStr (exn_message e))])
       in case e of LazyContextError _ \<Rightarrow> degraded | OSError _ \<Rightarrow> degraded | _ \<Rightarrow> throw e)"

definition requirement_json :: "contract_requirement \<Rightarrow> json" where
  "requirement_json q = JObj [(''path'', JStr (cq_path q)), (''type'', JStr (cq_type q)),
     (''description'', opt_str (cq_description q)), (''blocking'', JBool (cq_blocking q))]"

definition stage_context :: "env \<Rightarrow> (real \<Rightarrow> string) \<Rightarrow> pipeline_state \<Rightarrow> string \<Rightarrow> rendered_lesson list
    \<Rightarrow> context_selection \<Rightarrow> output_contract \<Rightarrow> (world, string) prog" where
  "stage_context E repr st stage_id lessons sel contract = bindp (lazy_section E repr stage_id) (\<lambda>lazy.
     ret (json_dumps repr (JObj [
       (''project_id'', JStr (ps_project_id st)), (''profile'', JStr (ps_profile st)),
       (''current_stage_id'', opt_str (ps_current st)), (''stage_id'', JStr stage_id),
       (''execution_mode'', JStr ''batch''), (''approved_lessons'', JArr (map dump_rendered lessons)),
       (''selected_context'', dump_selection sel), (''lazy_context'', lazy),
       (''required_outputs'', JArr (map requirement_json (oc_required contract)))])))"

section \<open>The budget monitor (\<open>_monitor_token_budget\<close>)\<close>

definition monitor_features :: "env \<Rightarrow> (world, json_obj) prog" where
  "monitor_features E = catchp (bindp (load_config E) (\<lambda>c. ret (cf_features c))) (\<lambda>_. ret [])"

definition budget_payload :: "budget_evaluation \<Rightarrow> context_selection \<Rightarrow> json_obj" where
  "budget_payload ev sel = [(''level'', JStr (level_text (be_level ev))),
     (''total_tokens'', JInt (be_total_tokens ev)), (''token_budget'', JInt (be_token_budget ev)),
     (''ratio'', JFloat (round_digits 4 (be_ratio ev))), (''selection_id'', JStr (cs_selection_id sel))]"

definition monitor_token_budget :: "env \<Rightarrow> string \<Rightarrow> context_selection \<Rightarrow> (world, unit) prog" where
  "monitor_token_budget E stage_id sel = bindp (monitor_features E) (\<lambda>features.
     let ev = evaluate_session_budget (int (cs_total_tokens sel)) (cs_token_budget sel) (resolve_warn_ratio features) in
     if be_level ev = LvOk then ret ()
     else bindp (new_event E ''TokenBudgetExceeded'' (Some stage_id) None None ''core'' ''context-pruner''
            (budget_payload ev sel)) (\<lambda>event.
       catchp (append_event E event) (\<lambda>e. case e of OSError _ \<Rightarrow> ret () | _ \<Rightarrow> throw e)))"

section \<open>The run\<close>

definition agent_setup_error :: "exn \<Rightarrow> (world, 'a) prog" where
  "agent_setup_error e = (case e of AgentLoadError m \<Rightarrow> throw (AgentExecutionError m)
     | AdapterRegistryError m \<Rightarrow> throw (AgentExecutionError m)
     | ConfigError m \<Rightarrow> throw (AgentExecutionError m) | _ \<Rightarrow> throw e)"

definition setup_agent :: "env \<Rightarrow> adapter_registry \<Rightarrow> string
    \<Rightarrow> (world, agent_definition \<times> output_contract \<times> kernel_adapter) prog" where
  "setup_agent E reg stage_id = catchp (bindp (load_config E) (\<lambda>config.
     bindp (persona_for_stage stage_id) (\<lambda>persona. bindp (contract_for_persona persona) (\<lambda>contract.
     bindp (create_adapter_from_config reg config) (\<lambda>adapter. ret (persona, contract, adapter))))))
     agent_setup_error"

definition select_context :: "env \<Rightarrow> string \<Rightarrow> (world, context_selection) prog" where
  "select_context E stage_id = catchp (\<lambda>w. case select E stage_id 2000 (new_pruner, w) of (r, (_, w')) \<Rightarrow> (r, w'))
     (\<lambda>e. case e of ContextPrunerError m \<Rightarrow> throw (AgentExecutionError m) | _ \<Rightarrow> throw e)"

definition spawn :: "kernel_adapter \<Rightarrow> agent_definition \<Rightarrow> string \<Rightarrow> (world, agent_handle) prog" where
  "spawn adapter persona context = catchp
     (ka_spawn adapter persona context
       (if ad_default_tools persona = [] then ka_default_tools adapter else ad_default_tools persona))
     (\<lambda>e. case e of AdapterRegistryError m \<Rightarrow> throw (AgentExecutionError m) | _ \<Rightarrow> throw e)"

definition run_status :: "contract_result \<Rightarrow> agent_handle \<Rightarrow> string" where
  "run_status v h = (if cv_passed v \<and> ah_status h = ''completed'' then ''completed'' else ''contract_failed'')"

definition register_outputs :: "env \<Rightarrow> string \<Rightarrow> string list \<Rightarrow> (world, unit) prog" where
  "register_outputs E stage_id paths = catchp (thenp (register_stage_outputs E stage_id paths) (ret ()))
     (\<lambda>e. case e of ArtifactRegistryError m \<Rightarrow> throw (AgentExecutionError m) | _ \<Rightarrow> throw e)"

definition agent_runs_path :: "env \<Rightarrow> string" where
  "agent_runs_path E = root_path E @ ''/.forge/agent-runs.jsonl''"

definition append_run :: "env \<Rightarrow> agent_run \<Rightarrow> (world, unit) prog" where
  "append_run E r = write_file E (agent_runs_path E) (\<lambda>w. w\<lparr>w_agent_runs := w_agent_runs w @ [r]\<rparr>)"

definition append_agent_event :: "env \<Rightarrow> agent_run \<Rightarrow> (world, unit) prog" where
  "append_agent_event E r = bindp (new_event E ''SubagentStop'' (Some (ar_stage_id r)) None None ''adapter'' (ar_adapter r)
       [(''run_id'', JStr (ar_run_id r)), (''persona_id'', JStr (ar_persona_id r)), (''status'', JStr (ar_status r)),
        (''contract_passed'', JBool (cv_passed (ar_contract r)))])
     (append_event E)"

definition run_metadata :: "agent_handle \<Rightarrow> rendered_lesson list \<Rightarrow> context_selection \<Rightarrow> json_obj" where
  "run_metadata h lessons sel = [(''adapter_metadata'', JObj (ah_metadata h)),
     (''approved_lessons'', JArr (map dump_rendered lessons)), (''context_selection_id'', JStr (cs_selection_id sel)),
     (''context_total_tokens'', JInt (int (cs_total_tokens sel))),
     (''context_paths'', JArr (map (\<lambda>i. JStr (si_path i)) (cs_selected sel)))]"

text \<open>What follows the spawn: the contract check, the record, and the verdict. \<open>prefix\<close> and \<open>more\<close> are
  what the asynchronous variant changes.\<close>

definition failed_summary :: "output_contract \<Rightarrow> contract_result \<Rightarrow> string" where
  "failed_summary contract v = (let s = join ''; '' (map ck_summary (filter (\<lambda>k. \<not> ck_passed k) (cv_checks v))) in
     if s = [] then ''Output contract `'' @ oc_id contract @ ''` failed.'' else s)"

definition conclude_run :: "env \<Rightarrow> string \<Rightarrow> json_obj \<Rightarrow> string \<Rightarrow> string \<Rightarrow> agent_definition \<Rightarrow> output_contract
    \<Rightarrow> rendered_lesson list \<Rightarrow> context_selection \<Rightarrow> agent_handle \<Rightarrow> (world, agent_run) prog" where
  "conclude_run E prefix extra started_at stage_id persona contract lessons sel h =
     bindp (validate_contract contract) (\<lambda>v. bindp (utc_now E) (\<lambda>t. bindp (uuid4 E) (\<lambda>u.
     let r = \<lparr>ar_run_id = prefix @ u, ar_adapter = ah_provider h, ar_handle_id = ah_handle_id h,
       ar_persona_id = ad_id persona, ar_stage_id = stage_id, ar_status = run_status v h,
       ar_started_at = started_at, ar_completed_at = t, ar_outputs = ah_outputs h, ar_contract = v,
       ar_metadata = run_metadata h lessons sel @ extra\<rparr> in
     thenp (register_outputs E stage_id (map oa_path (ah_outputs h)))
     (thenp (append_run E r) (thenp (append_agent_event E r)
       (if cv_passed v then ret r else throw (AgentExecutionError (failed_summary contract v))))))))"

definition run_stage_agent :: "env \<Rightarrow> (real \<Rightarrow> string) \<Rightarrow> adapter_registry \<Rightarrow> pipeline_state \<Rightarrow> string
    \<Rightarrow> (world, agent_run) prog" where
  "run_stage_agent E repr reg st stage_id =
     bindp (setup_agent E reg stage_id) (\<lambda>(persona, contract, adapter).
     bindp (utc_now E) (\<lambda>started_at.
     bindp (render_context E (Some stage_id) (8 / 10) 5) (\<lambda>lessons.
     bindp (select_context E stage_id) (\<lambda>sel.
     thenp (monitor_token_budget E stage_id sel) (
     bindp (stage_context E repr st stage_id lessons sel contract) (\<lambda>context.
     bindp (spawn adapter persona context) (\<lambda>h.
     conclude_run E ''run-'' [] started_at stage_id persona contract lessons sel h)))))))"

text \<open>The asynchronous variant reads no configuration and always runs the asynchronous dummy adapter.\<close>

definition setup_async :: "string \<Rightarrow> (world, agent_definition \<times> output_contract) prog" where
  "setup_async stage_id = catchp (bindp (persona_for_stage stage_id) (\<lambda>persona.
     bindp (contract_for_persona persona) (\<lambda>contract. ret (persona, contract)))) agent_setup_error"

definition run_stage_agent_async :: "env \<Rightarrow> (real \<Rightarrow> string) \<Rightarrow> real \<Rightarrow> pipeline_state \<Rightarrow> string
    \<Rightarrow> (world, agent_run) prog" where
  "run_stage_agent_async E repr mtime st stage_id =
     bindp (setup_async stage_id) (\<lambda>(persona, contract).
     bindp (utc_now E) (\<lambda>started_at.
     bindp (render_context E (Some stage_id) (8 / 10) 5) (\<lambda>lessons.
     bindp (select_context E stage_id) (\<lambda>sel.
     thenp (monitor_token_budget E stage_id sel) (
     bindp (stage_context E repr st stage_id lessons sel contract) (\<lambda>context.
     bindp (catchp (async_dummy_spawn E mtime True persona context (ad_default_tools persona)) (\<lambda>e. case e of
         AdapterRegistryError m \<Rightarrow> throw (AgentExecutionError m) | _ \<Rightarrow> throw e)) (\<lambda>h.
     conclude_run E ''async-run-'' [(''async'', JBool True)] started_at stage_id persona contract lessons sel h)))))))"

section \<open>What a run leaves alone\<close>

text \<open>The parts of the world that none of the steps around the spawn touches.\<close>

definition agent_blind :: "(world \<Rightarrow> 'c) \<Rightarrow> bool" where
  "agent_blind f \<longleftrightarrow> (\<forall>w n. f (w\<lparr>w_clock := n\<rparr>) = f w) \<and> (\<forall>w n. f (w\<lparr>w_uuids := n\<rparr>) = f w) \<and>
     (\<forall>w n. f (w\<lparr>w_writes := n\<rparr>) = f w) \<and> (\<forall>w x. f (w\<lparr>w_lessons := x\<rparr>) = f w) \<and>
     (\<forall>w x. f (w\<lparr>w_artifacts := x\<rparr>) = f w) \<and> (\<forall>w x. f (w\<lparr>w_graph := x\<rparr>) = f w) \<and>
     (\<forall>w x. f (w\<lparr>w_selections := x\<rparr>) = f w) \<and> (\<forall>w x. f (w\<lparr>w_events := x\<rparr>) = f w)"

lemma agent_blind_fields [simp]:
  "agent_blind w_state" "agent_blind w_state_md" "agent_blind w_config" "agent_blind w_gates" "agent_blind w_tickets"
  "agent_blind w_fs" "agent_blind w_agent_runs" "agent_blind w_db" "agent_blind w_daemon"
  by (simp_all add: agent_blind_def)

lemma load_artifacts_unchanged [frame_intros]: "unchanged f (load_artifacts E)"
  by (simp add: unchanged_def load_artifacts_def)

lemma agent_blindD:
  assumes "agent_blind f"
  shows "unchanged f (utc_now E)" "unchanged f (uuid4 E)" "unchanged f (new_event E t s se c ty i p)"
    "unchanged f (append_event E ev)" "unchanged f (lesson_save E d)" "unchanged f (save_artifacts E as)"
    "unchanged f (append_selection E sel)"
proof -
  show "unchanged f (utc_now E)" "unchanged f (uuid4 E)" "unchanged f (append_event E ev)" "unchanged f (lesson_save E d)"
    "unchanged f (append_selection E sel)" "unchanged f (save_artifacts E as)"
    using assms unfolding agent_blind_def save_artifacts_def append_selection_def append_event_def lesson_save_def
    by (auto intro!: write_file_unchanged unchanged_thenp env_reads_unchanged)
  show "unchanged f (new_event E t s se c ty i p)"
    using assms by (auto simp: agent_blind_def intro!: new_event_unchanged)
qed

lemma refresh_blind: "agent_blind f \<Longrightarrow> unchanged f (refresh E)"
  unfolding refresh_def Let_def
  by (rule unchangedI) (auto simp: agent_blind_def load_artifacts_def save_artifacts_def case_prod_beta prog_simps
      split: sum.splits prod.splits if_splits)

lemma unchanged_foldp [frame_intros]: "(\<And>x s. unchanged f (g x s)) \<Longrightarrow> unchanged f (foldp g xs s)"
  by (induction xs arbitrary: s) (auto intro: frame_intros)

lemma with_local_blind: "unchanged f m \<Longrightarrow> unchanged (\<lambda>(l, w). f w) (with_local m)"
  by (rule unchangedI) (auto simp: with_local_run dest: unchanged_result split: prod.split)

lemma select_blind:
  assumes "agent_blind f"
  shows "unchanged (\<lambda>(l, w). f w) (select E sid b)"
proof -
  have c: "unchanged (\<lambda>(l, w). f w) (consider_artifact sid b pri a s)" for pri a s
    unfolding consider_artifact_def
    by (cases s) (auto simp: unchanged_def prog_simps read_artifact_def split: option.splits prod.splits)
  show ?thesis unfolding select_def Let_def
    by (auto intro!: frame_intros c with_local_blind refresh_blind agent_blindD assms split: prod.split)
qed

lemma select_context_blind: "agent_blind f \<Longrightarrow> unchanged f (select_context E sid)"
  unfolding select_context_def
  by (intro frame_intros) (auto intro!: unchangedI frame_intros dest: unchanged_result [OF select_blind] split: exn.split prod.split)

lemma render_context_blind: "agent_blind f \<Longrightarrow> unchanged f (render_context E sid c n)"
  unfolding render_context_def approved_for_context_def lesson_list_def Let_def
  by (auto intro!: frame_intros agent_blindD split: prod.split)

text \<open>Registering outputs touches less: the event log, too, stays as it is.\<close>

definition registry_blind :: "(world \<Rightarrow> 'c) \<Rightarrow> bool" where
  "registry_blind f \<longleftrightarrow> (\<forall>w n. f (w\<lparr>w_clock := n\<rparr>) = f w) \<and> (\<forall>w n. f (w\<lparr>w_uuids := n\<rparr>) = f w) \<and>
     (\<forall>w n. f (w\<lparr>w_writes := n\<rparr>) = f w) \<and> (\<forall>w x. f (w\<lparr>w_artifacts := x\<rparr>) = f w) \<and>
     (\<forall>w x. f (w\<lparr>w_graph := x\<rparr>) = f w)"

lemma registry_blind_fields [simp]: "registry_blind w_events" "agent_blind f \<Longrightarrow> registry_blind f"
  by (simp_all add: registry_blind_def agent_blind_def)

lemma register_outputs_blind:
  assumes "registry_blind f"
  shows "unchanged f (register_outputs E sid ps)"
proof -
  have b: "unchanged f (utc_now E)" "unchanged f (uuid4 E)" "unchanged f (save_artifacts E as)" for as
    using assms unfolding registry_blind_def save_artifacts_def
    by (auto intro!: write_file_unchanged unchanged_thenp env_reads_unchanged)
  show ?thesis
    unfolding register_outputs_def register_stage_outputs_def default_dependencies_def register_artifact_def Let_def
    by (auto intro!: frame_intros b split: exn.split option.split)
qed

lemma monitor_blind: "agent_blind f \<Longrightarrow> unchanged f (monitor_token_budget E sid sel)"
  unfolding monitor_token_budget_def monitor_features_def Let_def
  by (auto intro!: frame_intros agent_blindD split: exn.split)

lemma lazy_reads_unchanged [frame_intros]: "unchanged f (skill_menu E)" "unchanged f (lesson_index E c sid)"
  using skill_menu_pure lesson_index_pure by (metis unchangedI prod.collapse)+

lemma stage_context_blind: "unchanged f (stage_context E repr st sid ls sel c)"
  unfolding stage_context_def lazy_section_def build_def Let_def
  by (auto intro!: frame_intros split: exn.split prod.split)

section \<open>Outcomes\<close>

definition contract_on :: "file_system \<Rightarrow> output_contract \<Rightarrow> contract_result" where
  "contract_on fs c = \<lparr>cv_contract_id = oc_id c, cv_stage_id = oc_stage_id c,
     cv_passed = (\<forall>q\<in>set (oc_required c). cq_blocking q \<longrightarrow> ck_passed (check_requirement fs q)),
     cv_checks = map (check_requirement fs) (oc_required c)\<rparr>"

lemma validate_contract_run: "validate_contract c w = (Inr (contract_on (w_fs w) c), w)"
proof -
  have "ck_blocking (check_requirement fs q) = cq_blocking q" for fs q by (simp add: check_requirement_def Let_def)
  then show ?thesis
    by (simp add: validate_contract_def contract_on_def prog_simps Let_def filter_empty_conv)
qed

definition records_run :: "string \<Rightarrow> agent_definition \<Rightarrow> output_contract \<Rightarrow> agent_run \<Rightarrow> lifecycle_event \<Rightarrow> bool" where
  "records_run sid p c x ev \<longleftrightarrow> ev_type ev = ''SubagentStop'' \<and> ev_stage_id ev = Some sid \<and>
     ev_payload ev = [(''run_id'', JStr (ar_run_id x)), (''persona_id'', JStr (ad_id p)),
       (''status'', JStr (ar_status x)), (''contract_passed'', JBool (cv_passed (ar_contract x)))]"

lemma append_agent_event_ok:
  assumes "append_agent_event E x w = (Inr (), w')"
  shows "\<exists>ev. log_entries w' = log_entries w @ [ev] \<and> ev_type ev = ''SubagentStop'' \<and> ev_stage_id ev = Some (ar_stage_id x) \<and>
    ev_payload ev = [(''run_id'', JStr (ar_run_id x)), (''persona_id'', JStr (ar_persona_id x)),
      (''status'', JStr (ar_status x)), (''contract_passed'', JBool (cv_passed (ar_contract x)))]"
proof -
  have "''SubagentStop'' \<in> set event_types" by (simp add: event_types_def)
  from new_event_ok [OF this] obtain ev where ev: "new_event E ''SubagentStop'' (Some (ar_stage_id x)) None None ''adapter''
      (ar_adapter x) [(''run_id'', JStr (ar_run_id x)), (''persona_id'', JStr (ar_persona_id x)),
        (''status'', JStr (ar_status x)), (''contract_passed'', JBool (cv_passed (ar_contract x)))] w =
      (Inr ev, w\<lparr>w_uuids := Suc (w_uuids w), w_clock := Suc (w_clock w)\<rparr>)"
    "ev_type ev = ''SubagentStop''" "ev_stage_id ev = Some (ar_stage_id x)"
    "ev_payload ev = [(''run_id'', JStr (ar_run_id x)), (''persona_id'', JStr (ar_persona_id x)),
        (''status'', JStr (ar_status x)), (''contract_passed'', JBool (cv_passed (ar_contract x)))]" by metis
  with assms have "append_event E ev (w\<lparr>w_uuids := Suc (w_uuids w), w_clock := Suc (w_clock w)\<rparr>) = (Inr (), w')"
    by (simp add: append_agent_event_def bindp_run)
  from event_log.append_ok [OF this] ev(2-4) show ?thesis by (auto simp: log_entries_def)
qed

lemma conclude_run_outcome:
  assumes "conclude_run E pf ex t0 sid p c ls sel h w = (r, w')"
  shows "w_fs w' = w_fs w \<and> ((w_agent_runs w' = w_agent_runs w \<and> (\<exists>e. r = Inl e)) \<or>
    (\<exists>x. w_agent_runs w' = w_agent_runs w @ [x] \<and> ar_persona_id x = ad_id p \<and> ar_stage_id x = sid \<and>
       ar_contract x = contract_on (w_fs w) c \<and> ar_status x = run_status (contract_on (w_fs w) c) h \<and>
       ar_outputs x = ah_outputs h \<and>
       (\<forall>y. r = Inr y \<longrightarrow> y = x \<and> cv_passed (ar_contract x) \<and>
          (\<exists>ev. log_entries w' = log_entries w @ [ev] \<and> records_run sid p c x ev))))"
proof -
  let ?v = "contract_on (w_fs w) c"
  define t u where "t = now_at E (w_clock w)" and "u = uuid_at E (w_uuids w)"
  define w1 where "w1 = w\<lparr>w_clock := Suc (w_clock w), w_uuids := Suc (w_uuids w)\<rparr>"
  define x where "x = \<lparr>ar_run_id = pf @ u, ar_adapter = ah_provider h, ar_handle_id = ah_handle_id h,
     ar_persona_id = ad_id p, ar_stage_id = sid, ar_status = run_status ?v h, ar_started_at = t0,
     ar_completed_at = t, ar_outputs = ah_outputs h, ar_contract = ?v, ar_metadata = run_metadata h ls sel @ ex\<rparr>"
  let ?rest = "thenp (append_run E x) (thenp (append_agent_event E x)
       (if cv_passed ?v then ret x else throw (AgentExecutionError (failed_summary c ?v))))"
  have run: "thenp (register_outputs E sid (map oa_path (ah_outputs h))) ?rest w1 = (r, w')"
    using assms by (auto simp: conclude_run_def bindp_run validate_contract_run env_reads Let_def x_def w1_def t_def u_def)
  obtain r2 w2 where reg: "register_outputs E sid (map oa_path (ah_outputs h)) w1 = (r2, w2)" by fastforce
  note b = unchanged_result [OF register_outputs_blind reg]
  have w2: "w_fs w2 = w_fs w" "w_agent_runs w2 = w_agent_runs w" "log_entries w2 = log_entries w"
    using b [of w_fs] b [of w_agent_runs] b [of w_events] by (simp_all add: w1_def log_entries_def)
  obtain r3 w3 where app: "append_run E x w2 = (r3, w3)" by fastforce
  have w3: "w_fs w3 = w_fs w" "log_entries w3 = log_entries w"
      "w_agent_runs w3 = (case r3 of Inl _ \<Rightarrow> w_agent_runs w | Inr _ \<Rightarrow> w_agent_runs w @ [x])"
    using app w2 by (auto simp: append_run_def write_file_run log_entries_def split: if_splits)
  obtain r4 w4 where ev: "append_agent_event E x w3 = (r4, w4)" by fastforce
  have blind: "unchanged w_agent_runs (append_agent_event E x)" "unchanged w_fs (append_agent_event E x)"
    unfolding append_agent_event_def by (auto intro!: frame_intros agent_blindD)
  have w4: "w_fs w4 = w_fs w" "w_agent_runs w4 = w_agent_runs w3"
    using unchanged_result [OF blind(2) ev] unchanged_result [OF blind(1) ev] w3 by simp_all
  have e: "\<exists>v. log_entries w4 = log_entries w @ [v] \<and> records_run sid p c x v" if "r4 = Inr ()"
    using append_agent_event_ok [of E x w3 w4] ev that w3(2) by (simp add: records_run_def x_def)
  have xf: "ar_persona_id x = ad_id p" "ar_stage_id x = sid" "ar_contract x = ?v" "ar_status x = run_status ?v h"
    "ar_outputs x = ah_outputs h" by (simp_all add: x_def)
  show ?thesis
  proof (cases r2)
    case (Inl e)
    with run reg w2 show ?thesis by (auto simp: thenp_run)
  next
    case r2: (Inr u)
    show ?thesis
    proof (cases r3)
      case (Inl e)
      with run reg r2 app w3 show ?thesis by (auto simp: thenp_run)
    next
      case r3: (Inr u)
      show ?thesis
      proof (cases r4)
        case (Inl e)
        with run reg r2 app r3 ev w3 w4 xf show ?thesis by (auto simp: thenp_run)
      next
        case (Inr u)
        with run reg r2 app r3 ev have "w' = w4" "r = (if cv_passed ?v then Inr x
            else Inl (AgentExecutionError (failed_summary c ?v)))"
          by (auto simp: thenp_run ret_run throw_run split: if_splits)
        with e Inr r3 w3 w4 xf show ?thesis by (auto split: if_splits)
      qed
    qed
  qed
qed

text \<open>Adapters of a registry that leave a part of the world alone, whatever configuration picks them.\<close>

definition adapters_respect :: "(world \<Rightarrow> 'c) \<Rightarrow> adapter_registry \<Rightarrow> bool" where
  "adapters_respect f reg \<longleftrightarrow> (\<forall>c w r w'. create_adapter_from_config reg c w = (r, w') \<longrightarrow> f w' = f w \<and>
     (\<forall>a. r = Inr a \<longrightarrow> (\<forall>p ctx tools. unchanged f (ka_spawn a p ctx tools))))"

lemma agent_setup_error_unchanged: "unchanged f (agent_setup_error e)" "agent_setup_error e w = (Inr x, w') \<longleftrightarrow> False"
  by (simp_all add: agent_setup_error_def unchanged_def throw_run split: exn.split)

lemma pure_run: "unchanged id m \<Longrightarrow> m w = (r, w') \<Longrightarrow> w' = w"
  by (drule unchanged_result) auto

lemma setup_agent_run:
  assumes "adapters_respect f reg" and "setup_agent E reg sid w = (r, w')"
  shows "f w' = f w" and "r = Inr (p, c, a) \<Longrightarrow> persona_for_stage sid w = (Inr p, w) \<and>
    contract_for_persona p w = (Inr c, w) \<and> (\<forall>q ctx tools. unchanged f (ka_spawn a q ctx tools))"
proof -
  have "unchanged f (create_adapter_from_config reg cfg)" for cfg
    using assms(1) by (auto simp: adapters_respect_def unchanged_def) (metis prod.collapse)
  then have "unchanged f (setup_agent E reg sid)" unfolding setup_agent_def
    by (intro frame_intros agent_setup_error_unchanged)
  from unchanged_result [OF this assms(2)] show "f w' = f w" .
  assume "r = Inr (p, c, a)"
  with assms(2) have "\<exists>cfg w0. load_config E w = (Inr cfg, w0) \<and> (\<exists>w1. persona_for_stage sid w0 = (Inr p, w1) \<and>
      (\<exists>w2. contract_for_persona p w1 = (Inr c, w2) \<and> create_adapter_from_config reg cfg w2 = (Inr a, w')))"
    by (auto simp: setup_agent_def catchp_run bindp_run ret_run agent_setup_error_unchanged(2) split: sum.splits prod.splits)
  then show "persona_for_stage sid w = (Inr p, w) \<and>
    contract_for_persona p w = (Inr c, w) \<and> (\<forall>q ctx tools. unchanged f (ka_spawn a q ctx tools))"
    using pure_run [OF load_config_unchanged] pure_run [OF agents_unchanged(3)] pure_run [OF agents_unchanged(4)] assms(1)
    unfolding adapters_respect_def by metis
qed

text \<open>A program that, leaving \<open>f\<close> alone, either fails or comes to a point from which \<open>P\<close> relates the
  world there to the outcome.\<close>

definition comes_to :: "(world \<Rightarrow> 'c) \<Rightarrow> (world \<Rightarrow> (exn + 'a) \<times> world \<Rightarrow> bool) \<Rightarrow> (world, 'a) prog \<Rightarrow> bool" where
  "comes_to f P m \<longleftrightarrow> (\<forall>w. ((\<exists>e. fst (m w) = Inl e) \<and> f (snd (m w)) = f w) \<or> (\<exists>w1. f w1 = f w \<and> P w1 (m w)))"

lemma comes_to_here: "(\<And>w. P w (m w)) \<Longrightarrow> comes_to f P m"
  unfolding comes_to_def by blast

lemma comes_to_bindp:
  assumes "unchanged f m" and "\<And>x. comes_to f P (g x)"
  shows "comes_to f P (bindp m g)"
  unfolding comes_to_def
proof
  fix w
  show "((\<exists>e. fst (bindp m g w) = Inl e) \<and> f (snd (bindp m g w)) = f w) \<or> (\<exists>w1. f w1 = f w \<and> P w1 (bindp m g w))"
  proof (cases "m w")
    case (Pair r w1)
    note eq = unchanged_result [OF assms(1) Pair]
    show ?thesis
    proof (cases r)
      case (Inl e)
      with Pair eq show ?thesis by (simp add: bindp_run)
    next
      case (Inr x)
      from assms(2) [of x] have "((\<exists>e. fst (g x w1) = Inl e) \<and> f (snd (g x w1)) = f w1) \<or> (\<exists>w2. f w2 = f w1 \<and> P w2 (g x w1))"
        unfolding comes_to_def by blast
      with Pair Inr eq show ?thesis by (simp add: bindp_run)
    qed
  qed
qed

lemma comes_to_thenp: "unchanged f m \<Longrightarrow> comes_to f P n \<Longrightarrow> comes_to f P (thenp m n)"
  unfolding thenp_def by (rule comes_to_bindp)

lemma spawn_respects:
  assumes "\<forall>q ctx tools. unchanged f (ka_spawn a q ctx tools)"
  shows "unchanged f (spawn a p ctx)"
  unfolding spawn_def using assms by (auto intro!: frame_intros split: exn.split)

text \<open>Up to the spawn a run only reads and prepares; then it concludes.\<close>

lemma run_reaches_conclusion:
  assumes "run_stage_agent E repr reg st sid w = (r, w')" and "agent_blind f" and "adapters_respect f reg"
  shows "((\<exists>e. r = Inl e) \<and> f w' = f w) \<or> (\<exists>p c t0 ls sel h w1. persona_for_stage sid w = (Inr p, w) \<and>
    contract_for_persona p w = (Inr c, w) \<and> f w1 = f w \<and>
    conclude_run E ''run-'' [] t0 sid p c ls sel h w1 = (r, w'))"
proof (cases "setup_agent E reg sid w")
  case (Pair r0 w0)
  note keeps = setup_agent_run(1) [OF assms(3) Pair]
  show ?thesis
  proof (cases r0)
    case (Inl e)
    with Pair keeps assms(1) show ?thesis by (auto simp: run_stage_agent_def bindp_run)
  next
    case (Inr pca)
    then obtain p c a where r0: "r0 = Inr (p, c, a)" by (cases pca) auto
    note su = setup_agent_run(2) [OF assms(3) Pair r0]
    let ?P = "\<lambda>w1 out. \<exists>t0 ls sel h. conclude_run E ''run-'' [] t0 sid p c ls sel h w1 = out"
    let ?rest = "bindp (utc_now E) (\<lambda>t0. bindp (render_context E (Some sid) (8 / 10) 5) (\<lambda>ls.
        bindp (select_context E sid) (\<lambda>sel. thenp (monitor_token_budget E sid sel) (
        bindp (stage_context E repr st sid ls sel c) (\<lambda>ctx. bindp (spawn a p ctx) (\<lambda>h.
        conclude_run E ''run-'' [] t0 sid p c ls sel h))))))"
    have blind: "unchanged f (spawn a p ctx)" for ctx using spawn_respects su by blast
    have reach: "comes_to f ?P ?rest"
      by (intro comes_to_bindp comes_to_thenp agent_blindD(1) render_context_blind select_context_blind monitor_blind
        stage_context_blind blind assms(2)) (rule comes_to_here, blast)
    have run: "?rest w0 = (r, w')" using assms(1) Pair r0 by (simp add: run_stage_agent_def bindp_run)
    from reach [unfolded comes_to_def, rule_format, of w0] have
      "((\<exists>e. r = Inl e) \<and> f w' = f w0) \<or> (\<exists>w1. f w1 = f w0 \<and> ?P w1 (r, w'))"
      unfolding run by simp
    with keeps su show ?thesis by auto
  qed
qed

lemma conclude_blind:
  assumes "agent_blind f" and "\<And>w x. f (w\<lparr>w_agent_runs := x\<rparr>) = f w"
  shows "unchanged f (conclude_run E pf ex t0 sid p c ls sel h)"
proof -
  have "unchanged f (append_run E r)" for r
    using assms unfolding append_run_def agent_blind_def by (auto intro!: write_file_unchanged)
  moreover have "unchanged f (append_agent_event E r)" for r
    unfolding append_agent_event_def using assms(1) by (intro frame_intros agent_blindD)
  moreover have "unchanged f (register_outputs E sid ps)" for ps using assms(1) by (simp add: register_outputs_blind)
  ultimately show ?thesis unfolding conclude_run_def Let_def using assms(1)
    by (intro frame_intros agents_unchanged agent_blindD)
qed

section \<open>A dry run goes through\<close>

definition path_ok :: "string \<Rightarrow> bool" where
  "path_ok p \<longleftrightarrow> unify_slashes p \<noteq> [] \<and> \<not> (starts_with ''/'' (unify_slashes p) \<or>
     ''..'' \<in> set (split_on CHR ''/'' (unify_slashes p)))"

lemma validate_artifact_ok:
  "(\<exists>a'. validate_artifact a = Inr a') \<longleftrightarrow> path_ok (art_path a)"
  "validate_artifact a = Inr a' \<Longrightarrow> path_ok (art_path a')"
  by (auto simp: validate_artifact_def path_ok_def Let_def split: if_splits)

lemma validate_artifacts_ok:
  "(\<exists>as'. validate_artifacts as = Inr as') \<longleftrightarrow> (\<forall>a\<in>set as. path_ok (art_path a))"
proof (induction as)
  case (Cons a as)
  then show ?case using validate_artifact_ok(1) [of a] by (auto split: sum.splits)
qed simp

lemma validate_artifacts_paths:
  "validate_artifacts as = Inr as' \<Longrightarrow> a \<in> set as' \<Longrightarrow> path_ok (art_path a)"
  by (induction as arbitrary: as') (auto dest: validate_artifact_ok(2) split: sum.splits)

definition registry_ok :: "env \<Rightarrow> world \<Rightarrow> bool" where
  "registry_ok E w \<longleftrightarrow> (\<exists>as. load_artifacts E w = (Inr as, w))"

lemma registry_okI: "w_artifacts w = Doc as \<Longrightarrow> \<forall>a\<in>set as. path_ok (art_path a) \<Longrightarrow> registry_ok E w"
  using validate_artifacts_ok [of as] by (auto simp: registry_ok_def load_artifacts_def)

lemma registry_ok_paths:
  "load_artifacts E w = (Inr as, w) \<Longrightarrow> a \<in> set as \<Longrightarrow> path_ok (art_path a)"
  by (auto simp: load_artifacts_def dest: validate_artifacts_paths split: doc_file.splits sum.splits)

lemma registry_ok_cong: "w_artifacts w' = w_artifacts w \<Longrightarrow> registry_ok E w' = registry_ok E w"
  by (simp add: registry_ok_def load_artifacts_def)

text \<open>After a refresh an artifact whose file is gone is not fresh.\<close>

definition fresh_exists :: "file_system \<Rightarrow> artifact list \<Rightarrow> nat \<Rightarrow> artifact list \<Rightarrow> bool" where
  "fresh_exists fs as k bs \<longleftrightarrow> length bs = length as \<and> (\<forall>j<length as. art_path (bs ! j) = art_path (as ! j)) \<and>
     (\<forall>j<length as. j < k \<longrightarrow> art_status (bs ! j) = Fresh \<longrightarrow> fs (art_path (bs ! j)) \<noteq> None)"

lemma refresh_one_fresh:
  assumes r: "fresh_exists fs as k bs" and k: "k < length as"
    and step: "refresh_one E fs before (bs, c) k = (cs, c')"
  shows "fresh_exists fs as (Suc k) cs"
proof -
  let ?p = "art_path (bs ! k)"
  let ?sn = "take_snapshot E fs ?p"
  define st where "st = (if sn_status ?sn = MissingArtifact then MissingArtifact
      else if art_status (bs ! k) \<noteq> Stale then Fresh else Stale)"
  define ds where "ds = bs[k := (set_snapshot ?sn (bs ! k))\<lparr>art_status := st, art_updated_at := now_at E c\<rparr>]"
  have miss: "sn_status ?sn = MissingArtifact \<longleftrightarrow> fs ?p = None" by (simp add: take_snapshot_def split: option.split)
  have ds: "length ds = length as" "\<And>j. j < length as \<Longrightarrow> art_path (ds ! j) = art_path (as ! j)"
    "\<And>j. j < length as \<Longrightarrow> art_status (ds ! j) = (if j = k then st else art_status (bs ! j))"
    using r k by (auto simp: ds_def fresh_exists_def nth_list_update set_snapshot_def)
  have fd: "fs (art_path (ds ! j)) \<noteq> None" if "j < Suc k" "art_status (ds ! j) = Fresh" for j
    using that k r ds(3) [of j] ds(2) [of j] miss by (auto simp: fresh_exists_def st_def less_Suc_eq split: if_splits)
  show ?thesis
  proof (cases "before ?p \<noteq> sn_content_hash ?sn \<and> sn_status ?sn \<noteq> MissingArtifact")
    case False
    with step have "cs = ds" by (auto simp: refresh_one_def Let_def ds_def st_def)
    with ds(1,2) fd show ?thesis unfolding fresh_exists_def by blast
  next
    case True
    with step have m: "mark_downstream_stale E ?p ds (Suc c) = (cs, c')"
      by (auto simp: refresh_one_def Let_def ds_def st_def)
    note eff = mark_downstream_stale_effect [OF m]
    have len: "length cs = length as" using core_list(1) [OF eff(1)] ds(1) by simp
    have pth: "art_path (cs ! j) = art_path (ds ! j)" if "j < length as" for j
      using core_list(3) [OF eff(1), of j] that len core_fields(1) by metis
    have "fs (art_path (cs ! j)) \<noteq> None" if j: "j < Suc k" and f: "art_status (cs ! j) = Fresh" for j
    proof (cases "art_path (ds ! j) = ?p")
      case True
      with pth [of j] j k miss \<open>before ?p \<noteq> sn_content_hash ?sn \<and> sn_status ?sn \<noteq> MissingArtifact\<close> show ?thesis by auto
    next
      case False
      with eff(2) [of j] ds(1) j k f have "art_status (ds ! j) = Fresh" by (auto split: if_splits)
      with fd [OF j] pth [of j] j k show ?thesis by auto
    qed
    with len pth ds(2) show ?thesis unfolding fresh_exists_def by (intro conjI allI impI; metis)
  qed
qed

lemma refresh_all_fresh: "refresh_all E fs as c = (bs, c') \<Longrightarrow> fresh_exists fs as (length as) bs"
proof -
  have "k \<le> length as \<Longrightarrow> fresh_exists fs as k (fst (foldl (refresh_one E fs (hash_before as)) (as, c) [0..<k]))" for k
  proof (induction k)
    case (Suc k)
    obtain bs c1 where b: "foldl (refresh_one E fs (hash_before as)) (as, c) [0..<k] = (bs, c1)" by fastforce
    obtain cs c2 where s: "refresh_one E fs (hash_before as) (bs, c1) k = (cs, c2)" by fastforce
    from Suc b have "fresh_exists fs as k bs" by simp
    from refresh_one_fresh [OF this _ s] Suc.prems b s show ?case by simp
  qed (simp add: fresh_exists_def)
  from this [of "length as"] show "refresh_all E fs as c = (bs, c') \<Longrightarrow> fresh_exists fs as (length as) bs"
    by (simp add: refresh_all_def)
qed

lemma refresh_ok:
  assumes "writes_succeed E" and "registry_ok E w"
  shows "\<exists>out w'. refresh E w = (Inr out, w') \<and> w_fs w' = w_fs w \<and> registry_ok E w' \<and>
    (\<forall>a\<in>set out. art_status a = Fresh \<longrightarrow> w_fs w (art_path a) \<noteq> None)"
proof -
  obtain as where as: "load_artifacts E w = (Inr as, w)" using assms(2) by (auto simp: registry_ok_def)
  obtain bs c where all: "refresh_all E (w_fs w) as (w_clock w) = (bs, c)" by fastforce
  note f = refresh_all_fresh [OF all]
  let ?out = "rebuild_dependents bs"
  have nth: "art_path (?out ! j) = art_path (bs ! j)" "art_status (?out ! j) = art_status (bs ! j)" if "j < length bs" for j
    using rebuild_nth [OF that] by simp_all
  obtain w' where save: "save_artifacts E ?out (w\<lparr>w_clock := c\<rparr>) = (Inr (), w')"
    using assms(1) by (simp add: save_artifacts_def thenp_run write_file_ok)
  have run: "refresh E w = (Inr ?out, w')"
    using as all save by (simp add: refresh_def prog_simps Let_def)
  have "\<forall>a\<in>set ?out. path_ok (art_path a)"
  proof
    fix a assume "a \<in> set ?out"
    then obtain j where "j < length bs" "a = ?out ! j" by (auto simp: in_set_conv_nth)
    with nth [of j] f have "art_path a = art_path (as ! j)" "j < length as" by (simp_all add: fresh_exists_def)
    with registry_ok_paths [OF as, of "as ! j"] show "path_ok (art_path a)" by simp
  qed
  then have "registry_ok E w'" using registry_okI save_artifacts_run [OF save] by metis
  moreover have "w_fs w' = w_fs w" using unchanged_result [OF refresh_blind run, of w_fs] by simp
  moreover have "w_fs w (art_path a) \<noteq> None" if "a \<in> set ?out" "art_status a = Fresh" for a
    using that f nth by (auto simp: in_set_conv_nth fresh_exists_def)
  ultimately show ?thesis using run by auto
qed

lemma consider_ok:
  assumes "art_status a = Fresh \<longrightarrow> w_fs w (art_path a) \<noteq> None"
  shows "\<exists>t pr'. consider_artifact sid b pri a s (pr, w) = (Inr t, (pr', w))"
  using assms by (cases s) (auto simp: consider_artifact_def prog_simps read_artifact_def split: option.split)

lemma consider_loop_ok:
  "\<forall>a\<in>set as. art_status a = Fresh \<longrightarrow> w_fs w (art_path a) \<noteq> None \<Longrightarrow>
     \<exists>t pr'. foldp (consider_artifact sid b pri) as s (pr, w) = (Inr t, (pr', w))"
proof (induction as arbitrary: s pr)
  case (Cons a as)
  from Cons.prems obtain t pr1 where "consider_artifact sid b pri a s (pr, w) = (Inr t, (pr1, w))"
    using consider_ok [of a w] by (meson list.set_intros(1))
  with Cons.IH [of t pr1] Cons.prems show ?case by (simp add: bindp_run)
qed (auto simp: ret_run)

lemma select_context_ok:
  assumes "writes_succeed E" and "registry_ok E w"
  shows "\<exists>sel w'. select_context E sid w = (Inr sel, w') \<and> registry_ok E w'"
proof -
  obtain out w1 where r: "refresh E w = (Inr out, w1)" "w_fs w1 = w_fs w" "registry_ok E w1"
    "\<forall>a\<in>set out. art_status a = Fresh \<longrightarrow> w_fs w (art_path a) \<noteq> None" using refresh_ok [OF assms] by blast
  let ?as = "map snd (by_path out)" and ?p = "spread_activation sid (map snd (by_path out))"
  have "\<forall>a\<in>set (candidates ?p ?as). art_status a = Fresh \<longrightarrow> w_fs w1 (art_path a) \<noteq> None"
    using r(2,4) candidates_props(1) [of ?p ?as] values_props(2) [of out] by auto
  from consider_loop_ok [OF this, where sid = sid and b = 2000 and pri = ?p and s = "(0, [], [])" and pr = new_pruner]
  obtain tot sel om pr' where
    "foldp (consider_artifact sid 2000 ?p) (candidates ?p ?as) (0, [], []) (new_pruner, w1) = (Inr (tot, sel, om), (pr', w1))"
    by auto
  with r(1) assms(1) have "\<exists>s w'. select_context E sid w = (Inr s, w') \<and> w_artifacts w' = w_artifacts w1"
    by (simp add: select_context_def select_def catchp_run prog_simps Let_def append_selection_def writes_succeed_def)
  with r(3) registry_ok_cong show ?thesis by blast
qed

lemma render_context_ok:
  assumes "writes_succeed E" and "fst (lesson_load E w) = Inr d"
  shows "\<exists>ls w' d'. render_context E sid mc n w = (Inr ls, w') \<and> fst (lesson_load E w') = Inr d'"
proof -
  have c: "lesson_store.contents E w = Inr d" using assms(2) by (simp add: lesson_contents)
  then obtain sel where sel: "approved_for_context E sid mc n w = (Inr sel, w)" by (simp add: approved_run)
  show ?thesis
  proof (cases "map ls_id sel = []")
    case True
    with sel assms(2) show ?thesis by (auto simp: render_context_def bindp_run ret_run)
  next
    case False
    let ?t = "now_at E (w_clock w)" and ?w = "w\<lparr>w_clock := Suc (w_clock w)\<rparr>"
    obtain ls rendered where rl: "render_loop (map ls_id sel) ?t (ld_lessons d) [] = (ls, rendered)" by fastforce
    then have ls: "ls = map (\<lambda>l. if ls_id l \<in> set (map ls_id sel) then mark_used ?t l else l) (ld_lessons d)"
      using render_loop_lessons [of "map ls_id sel" ?t "ld_lessons d" "[]"] by simp
    have "wf_lessons d" using assms(2) by (rule lesson_store.load_valid)
    then have wf: "wf_lessons (d\<lparr>ld_lessons := ls\<rparr>)"
      unfolding ls by (auto simp: wf_lessons_def list_all_iff wf_lesson_iff mark_used_def)
    obtain w' where save: "lesson_save E (d\<lparr>ld_lessons := ls\<rparr>) ?w = (Inr (), w')"
      using assms(1) by (simp add: lesson_save_def write_file_ok)
    have load: "lesson_load E w = (Inr d, w)" using lesson_store.load_run [of E w] c by simp
    from sel False load rl save have "\<exists>out. render_context E sid mc n w = (Inr out, w')"
      by (simp add: render_context_def bindp_run thenp_run ret_run utc_now_def Let_def)
    with lesson_store.save_contents [OF wf save] show ?thesis by (auto simp: lesson_contents)
  qed
qed

lemma stage_context_ok:
  assumes "fst (skill_menu E w) = Inr menu" and "fst (lesson_load E w) = Inr d"
  shows "\<exists>ctx. stage_context E repr st sid ls sel c w = (Inr ctx, w)"
proof -
  have m: "skill_menu E w = (Inr menu, w)" using assms(1) skill_menu_pure by (metis prod.collapse)
  obtain x where "lesson_list E (Some LsApproved) (Some sid) None w = (Inr x, w)"
    using assms(2) by (simp add: lesson_list_run lesson_contents)
  then have "\<exists>i. lesson_index E (7 / 10) (Some sid) w = (Inr i, w)"
    by (simp add: lesson_index_def low_confidence_lessons_def bindp_run catchp_run ret_run)
  then obtain i where i: "lesson_index E (7 / 10) (Some sid) w = (Inr i, w)" by blast
  have "\<exists>b. build E repr sid 2000 w = (Inr b, w)"
    using m i by (simp add: build_def bindp_run ret_run Let_def split: prod.split)
  then show ?thesis by (auto simp: stage_context_def lazy_section_def bindp_run catchp_run ret_run)
qed

lemma monitor_ok: "writes_succeed E \<Longrightarrow> \<exists>w'. monitor_token_budget E sid sel w = (Inr (), w')"
proof -
  assume "writes_succeed E"
  moreover have "\<exists>fe. monitor_features E w = (Inr fe, w)"
  proof -
    obtain r where "load_config E w = (r, w)" by (simp add: load_config_def)
    then show ?thesis by (cases r) (simp_all add: monitor_features_def catchp_run bindp_run ret_run)
  qed
  then obtain fe where "monitor_features E w = (Inr fe, w)" by blast
  moreover have "''TokenBudgetExceeded'' \<in> set event_types" by (simp add: event_types_def)
  ultimately show ?thesis
    by (simp add: monitor_token_budget_def bindp_run ret_run Let_def new_event_def env_reads catchp_run
        append_event_def write_file_ok)
qed

lemma register_outputs_ok:
  assumes "writes_succeed E" and "registry_ok E w" and "normalize_path p = Inr p"
  shows "\<exists>w'. register_outputs E sid [p] w = (Inr (), w')"
proof -
  obtain as where as: "load_artifacts E w = (Inr as, w)" using assms(2) by (auto simp: registry_ok_def)
  have srt: "sorted_set [p] = [p]" by (simp add: sorted_set_def)
  have pok: "path_ok p" using assms(3) by (auto simp: normalize_path_def bad_path_def path_ok_def Let_def split: if_splits)
  have "\<exists>deps. default_dependencies E sid w = (Inr deps, w)"
    using as by (cases "sid = ''srs''"; cases "w_stages_yaml w") (simp_all add: default_dependencies_def prog_simps)
  then obtain deps where deps: "default_dependencies E sid w = (Inr deps, w)" by blast
  have v: "\<exists>a'. validate_artifact a = Inr a'" if "art_path a = p" for a using validate_artifact_ok(1) [of a] pok that by simp
  have "\<exists>a w'. register_artifact E p (Some sid) deps k md w = (Inr a, w')" for k md
  proof -
    let ?w = "w\<lparr>w_clock := Suc (w_clock w)\<rparr>"
    let ?sn = "take_snapshot E (w_fs w) p"
    let ?new = "\<lparr>art_id = ''artifact-'' @ uuid_at E (w_uuids w), art_path = p, art_stage_id = Some sid, art_kind = k,
              art_status = sn_status ?sn, art_dependencies = deps, art_dependents = [],
              art_content_hash = sn_content_hash ?sn, art_modified_at = sn_modified_at ?sn,
              art_token_estimate = sn_token_estimate ?sn, art_registered_at = now_at E (w_clock w),
              art_updated_at = now_at E (w_clock w), art_metadata = md\<rparr>"
    obtain a' where "validate_artifact ?new = Inr a'" using v [of ?new] by auto
    with as assms(1,3) show ?thesis
      by (simp add: register_artifact_def bindp_run thenp_run ret_run lift_result_run asks_run env_reads Let_def
          save_artifacts_def write_file_ok split: option.split)
  qed
  then obtain a w' where "register_artifact E p (Some sid) deps ''file'' [(''registered_by'', JStr ''stage_agent'')] w = (Inr a, w')"
    by blast
  with deps srt show ?thesis
    by (simp add: register_outputs_def register_stage_outputs_def catchp_run thenp_run bindp_run ret_run)
qed

lemma output_paths_normal: "list_all (\<lambda>t. normalize_path (default_output_path (tp_id t)) =
    Inr (default_output_path (tp_id t))) standard_stages"
  by code_simp

lemma conclude_ok:
  assumes "writes_succeed E" and "registry_ok E w" and "map oa_path (ah_outputs h) = [p]" and "normalize_path p = Inr p"
    and "cv_passed (contract_on (w_fs w) c)" and "ah_status h = ''completed''"
  shows "\<exists>x w'. conclude_run E pf ex t0 sid q c ls sel h w = (Inr x, w') \<and> ar_status x = ''completed''"
proof -
  let ?w = "w\<lparr>w_clock := Suc (w_clock w), w_uuids := Suc (w_uuids w)\<rparr>"
  have "registry_ok E ?w" using assms(2) registry_ok_cong [of ?w w] by simp
  from register_outputs_ok [OF assms(1) this assms(4)] obtain w1 where
    r: "register_outputs E sid [p] ?w = (Inr (), w1)" by blast
  have a: "\<exists>w2. append_run E x w1 = (Inr (), w2)" for x using assms(1) by (simp add: append_run_def write_file_ok)
  have e: "\<exists>w3. append_agent_event E x w2 = (Inr (), w3)" for x w2
    using assms(1) by (simp add: append_agent_event_def new_event_def event_types_def bindp_run ret_run env_reads
        append_event_def write_file_ok)
  let ?x = "\<lparr>ar_run_id = pf @ uuid_at E (w_uuids w), ar_adapter = ah_provider h, ar_handle_id = ah_handle_id h,
     ar_persona_id = ad_id q, ar_stage_id = sid, ar_status = run_status (contract_on (w_fs w) c) h, ar_started_at = t0,
     ar_completed_at = now_at E (w_clock w), ar_outputs = ah_outputs h, ar_contract = contract_on (w_fs w) c,
     ar_metadata = run_metadata h ls sel @ ex\<rparr>"
  obtain w2 where a2: "append_run E ?x w1 = (Inr (), w2)" using a by blast
  obtain w3 where a3: "append_agent_event E ?x w2 = (Inr (), w3)" using e by blast
  have "conclude_run E pf ex t0 sid q c ls sel h w = (Inr ?x, w3)"
    using r a2 a3 assms(3,5) by (simp add: conclude_run_def bindp_run thenp_run validate_contract_run env_reads ret_run Let_def)
  moreover have "ar_status ?x = ''completed''" using assms(5,6) by (simp add: run_status_def)
  ultimately show ?thesis by blast
qed

lemma step_frames:
  "unchanged w_artifacts (render_context E sid mc n)" "unchanged w_artifacts (monitor_token_budget E s sel)"
  "unchanged w_lessons (monitor_token_budget E s sel)" "unchanged w_lessons (select_context E s)"
proof -
  show "unchanged w_artifacts (render_context E sid mc n)"
    unfolding render_context_def approved_for_context_def lesson_list_def Let_def
    by (auto intro!: frame_intros split: prod.split)
  show "unchanged w_artifacts (monitor_token_budget E s sel)" "unchanged w_lessons (monitor_token_budget E s sel)"
    unfolding monitor_token_budget_def monitor_features_def Let_def
    by (auto intro!: frame_intros split: exn.split)
  have r: "unchanged w_lessons (refresh E)"
    unfolding refresh_def load_artifacts_def save_artifacts_def Let_def
    by (auto simp: case_prod_beta unchanged_def prog_simps split: sum.splits prod.splits if_splits)
  have c: "unchanged (\<lambda>(l, w). w_lessons w) (consider_artifact sid b pri a s)" for sid b pri a s
    unfolding consider_artifact_def
    by (cases s) (auto simp: unchanged_def prog_simps read_artifact_def split: option.splits prod.splits)
  have "unchanged (\<lambda>(l, w). w_lessons w) (select E s b)" for b
    unfolding select_def append_selection_def Let_def
    by (auto intro!: frame_intros c with_local_blind r split: prod.split)
  from unchanged_result [OF this] show "unchanged w_lessons (select_context E s)"
    unfolding select_context_def
    by (intro frame_intros) (auto intro!: unchangedI frame_intros split: exn.split prod.split)
qed

lemma dry_run_returns:
  assumes "writes_succeed E" and "load_config E w = (Inr cfg, w)"
    and "create_adapter_from_config reg cfg w = (Inr (dummy_adapter E mtime True), w)"
    and "w_personas w = []" and "w_contracts w = []" and "get_profile_stages profile = Inr ts" and "t \<in> set ts"
    and "fst (lesson_load E w) = Inr d" and "registry_ok E w" and "fst (skill_menu E w) = Inr menu"
  shows "\<exists>x w'. run_stage_agent E repr reg st (tp_id t) w = (Inr x, w') \<and> ar_status x = ''completed'' \<and>
    cv_passed (ar_contract x) \<and> w_fs w' (default_output_path (tp_id t)) \<noteq> None"
proof -
  let ?sid = "tp_id t"
  from every_stage_has_its_agent [OF assms(6,7,4,5)] obtain p c where
    p: "persona_for_stage ?sid w = (Inr p, w)" and c: "contract_for_persona p w = (Inr c, w)"
    and stage: "ad_stage_ids p = [?sid]" and v: "\<And>ctx tools w2 h w3. dummy_spawn E mtime True p ctx tools w2 = (Inr h, w3) \<Longrightarrow>
       ah_status h = ''completed'' \<and> (\<exists>v. validate_contract c w3 = (Inr v, w3) \<and> cv_passed v)" by metis
  have su: "setup_agent E reg ?sid w = (Inr (p, c, dummy_adapter E mtime True), w)"
    using assms(2,3) p c by (simp add: setup_agent_def catchp_run bindp_run ret_run)
  let ?w0 = "w\<lparr>w_clock := Suc (w_clock w)\<rparr>"
  have "fst (lesson_load E ?w0) = Inr d" using assms(8) by (simp add: lesson_load_def)
  from render_context_ok [OF assms(1) this] obtain ls w1 d1 where
    r: "render_context E (Some ?sid) (8 / 10) 5 ?w0 = (Inr ls, w1)" "fst (lesson_load E w1) = Inr d1" by blast
  have skills: "agent_blind w_skills" by (simp add: agent_blind_def)
  have 1: "w_artifacts w1 = w_artifacts w" "w_skills w1 = w_skills w"
    using unchanged_result [OF step_frames(1) r(1)] unchanged_result [OF render_context_blind [OF skills] r(1)] by simp_all
  then have "registry_ok E w1" using assms(9) registry_ok_cong by blast
  from select_context_ok [OF assms(1) this] obtain sel w2 where
    s: "select_context E ?sid w1 = (Inr sel, w2)" "registry_ok E w2" by blast
  have 2: "w_lessons w2 = w_lessons w1" "w_skills w2 = w_skills w"
    using unchanged_result [OF step_frames(4) s(1)] unchanged_result [OF select_context_blind [OF skills] s(1)] 1 by simp_all
  obtain w3 where m: "monitor_token_budget E ?sid sel w2 = (Inr (), w3)" using monitor_ok [OF assms(1)] by blast
  have 3: "w_artifacts w3 = w_artifacts w2" "w_lessons w3 = w_lessons w1" "w_skills w3 = w_skills w"
    using unchanged_result [OF step_frames(2) m] unchanged_result [OF step_frames(3) m]
      unchanged_result [OF monitor_blind [OF skills] m] 2 by simp_all
  have "fst (skill_menu E w3) = Inr menu" "fst (lesson_load E w3) = Inr d1"
    using 3 assms(10) r(2) by (simp_all add: skill_menu_def list_records_def lesson_load_def)
  from stage_context_ok [OF this] obtain ctx where
    ctx: "stage_context E repr st ?sid ls sel c w3 = (Inr ctx, w3)" by blast
  let ?tools = "if ad_default_tools p = [] then dummy_tools else ad_default_tools p"
  have "\<exists>h w4. dummy_spawn E mtime True p ctx ?tools w3 = (Inr h, w4) \<and> w_artifacts w4 = w_artifacts w3 \<and>
      map oa_path (ah_outputs h) = [default_output_path ?sid]"
    using stage assms(1)
    by (simp add: dummy_spawn_def write_outputs_def write_output_def completed_handle_def prog_simps Let_def writes_succeed_def)
  then obtain h w4 where h: "dummy_spawn E mtime True p ctx ?tools w3 = (Inr h, w4)" "w_artifacts w4 = w_artifacts w3"
    "map oa_path (ah_outputs h) = [default_output_path ?sid]" by (elim exE conjE)
  from v [OF h(1)] have ok: "ah_status h = ''completed''" "cv_passed (contract_on (w_fs w4) c)"
    by (auto simp: validate_contract_run)
  have "registry_ok E w4" using s(2) 3(1) h(2) registry_ok_cong by metis
  moreover have "normalize_path (default_output_path ?sid) = Inr (default_output_path ?sid)"
    using output_paths_normal profile_stage_ids [OF assms(6,7)] by (auto simp: list_all_iff)
  ultimately obtain x w5 where fin: "conclude_run E ''run-'' [] (now_at E (w_clock w)) ?sid p c ls sel h w4 = (Inr x, w5)"
      "ar_status x = ''completed''"
    using conclude_ok [OF assms(1) _ h(3) _ ok(2,1)] by blast
  have sp: "spawn (dummy_adapter E mtime True) p ctx w3 = (Inr h, w4)"
    unfolding spawn_def dummy_adapter_def catchp_run kernel_adapter.simps h(1) by simp
  have run: "run_stage_agent E repr reg st ?sid w = (Inr x, w5)"
    using su r(1) s(1) m ctx sp fin(1) by (simp add: run_stage_agent_def bindp_run thenp_run env_reads)
  have out: "w_fs w4 (default_output_path ?sid) \<noteq> None"
    using h(1) write_outputs_one [OF stage] by (auto simp: dummy_spawn_def prog_simps split: sum.splits prod.splits)
  from conclude_run_outcome [OF fin(1)] out have "w_fs w5 (default_output_path ?sid) \<noteq> None" "cv_passed (ar_contract x)"
    by auto
  with run fin(2) show ?thesis by blast
qed

section \<open>Properties\<close>

text \<open>C7: An agent run is accounted for. When a run returns a record, the contract of the stage's persona
  holds on the files as they are then, every blocking output included; the record is the last entry of
  the run log and the last lifecycle event announces it. When the contract fails, the run raises,
  and whatever happens at most one record is added and it carries the verdict of the contract:
  only a run whose contract passed is \<open>completed\<close>.\<close>

theorem agent_run_is_accounted_for:
  assumes "run_stage_agent E repr reg st sid w = (r, w')" and "adapters_respect w_agent_runs reg"
  shows "(w_agent_runs w' = w_agent_runs w \<and> (\<exists>e. r = Inl e)) \<or>
    (\<exists>p c x. persona_for_stage sid w = (Inr p, w) \<and> contract_for_persona p w = (Inr c, w) \<and>
       w_agent_runs w' = w_agent_runs w @ [x] \<and> ar_persona_id x = ad_id p \<and> ar_stage_id x = sid \<and>
       ar_contract x = contract_on (w_fs w') c \<and> (ar_status x = ''completed'' \<longrightarrow> cv_passed (ar_contract x)) \<and>
       (\<not> cv_passed (ar_contract x) \<longrightarrow> (\<exists>e. r = Inl e)) \<and>
       (\<forall>y. r = Inr y \<longrightarrow> y = x \<and> (\<forall>q\<in>set (oc_required c). cq_blocking q \<longrightarrow> w_fs w' (cq_path q) \<noteq> None) \<and>
          (\<exists>ev. log_entries w' \<noteq> [] \<and> last (log_entries w') = ev \<and> records_run sid p c x ev)))"
proof -
  from run_reaches_conclusion [OF assms(1) agent_blind_fields(7) assms(2)] show ?thesis
  proof (elim disjE exE conjE)
    fix p c t0 ls sel h w1
    assume p: "persona_for_stage sid w = (Inr p, w)" and c: "contract_for_persona p w = (Inr c, w)"
      and w1: "w_agent_runs w1 = w_agent_runs w" and run: "conclude_run E ''run-'' [] t0 sid p c ls sel h w1 = (r, w')"
    have block: "w_fs w' (cq_path q) \<noteq> None"
      if "cv_passed (contract_on (w_fs w') c)" "q \<in> set (oc_required c)" "cq_blocking q" for q
      using that by (auto simp: contract_on_def check_requirement_def Let_def)
    from conclude_run_outcome [OF run] w1 show ?thesis
    proof (elim conjE disjE exE)
      fix x
      assume fs: "w_fs w' = w_fs w1" and x: "w_agent_runs w' = w_agent_runs w1 @ [x]" "ar_persona_id x = ad_id p"
          "ar_stage_id x = sid" "ar_contract x = contract_on (w_fs w1) c"
          "ar_status x = run_status (contract_on (w_fs w1) c) h"
        and ok: "\<forall>y. r = Inr y \<longrightarrow> y = x \<and> cv_passed (ar_contract x) \<and>
          (\<exists>ev. log_entries w' = log_entries w1 @ [ev] \<and> records_run sid p c x ev)"
      have "\<not> cv_passed (ar_contract x) \<longrightarrow> (\<exists>e. r = Inl e)" using ok by (cases r) auto
      moreover have "\<forall>y. r = Inr y \<longrightarrow> y = x \<and> (\<forall>q\<in>set (oc_required c). cq_blocking q \<longrightarrow> w_fs w' (cq_path q) \<noteq> None) \<and>
          (\<exists>ev. log_entries w' \<noteq> [] \<and> last (log_entries w') = ev \<and> records_run sid p c x ev)"
        using ok x(4) fs block by auto
      moreover have "ar_status x = ''completed'' \<longrightarrow> cv_passed (ar_contract x)"
        using x(4,5) by (simp add: run_status_def split: if_splits)
      ultimately show ?thesis using p c w1 x(1-4) fs by auto
    qed (auto simp: w1)
  qed auto
qed

text \<open>Running agents never advances the pipeline. With adapters that leave the pipeline's files alone,
  a run, whatever its outcome (a missing persona, a disabled adapter, a failed spawn, a failed
  contract, an unwritable log), leaves the pipeline state, its mirror, the configuration, the gates
  and the tickets as they were; the asynchronous variant does so without any assumption.\<close>

lemma agent_runs_never_advance_state:
  assumes "adapters_respect (\<lambda>w. (w_state w, w_state_md w, w_config w, w_gates w, w_tickets w)) reg"
  shows "unchanged (\<lambda>w. (w_state w, w_state_md w, w_config w, w_gates w, w_tickets w)) (run_stage_agent E repr reg st sid) \<and>
    unchanged (\<lambda>w. (w_state w, w_state_md w, w_config w, w_gates w, w_tickets w)) (run_stage_agent_async E repr mtime st sid)"
proof -
  let ?f = "\<lambda>w. (w_state w, w_state_md w, w_config w, w_gates w, w_tickets w)"
  have b: "agent_blind ?f" by (simp add: agent_blind_def)
  have cb: "unchanged ?f (conclude_run E pf ex t0 sid p c ls sel h)" for pf ex t0 p c ls sel h
    by (rule conclude_blind [OF b]) simp
  have "unchanged ?f (run_stage_agent E repr reg st sid)"
  proof (rule unchangedI)
    fix w
    obtain r w' where run: "run_stage_agent E repr reg st sid w = (r, w')" by fastforce
    from run_reaches_conclusion [OF run b assms] unchanged_result [OF cb] have "?f w' = ?f w" by metis
    with run show "?f (snd (run_stage_agent E repr reg st sid w)) = ?f w" by simp
  qed
  moreover have "unchanged ?f (async_dummy_spawn E mtime True p ctx tools)" for p ctx tools
    unfolding async_dummy_spawn_def write_outputs_def write_output_def Let_def
    by (intro frame_intros write_file_unchanged agent_blindD [OF b]) auto
  then have "unchanged ?f (run_stage_agent_async E repr mtime st sid)"
    unfolding run_stage_agent_async_def setup_async_def
    by (auto intro!: frame_intros agent_setup_error_unchanged(1) agent_blindD(1) [OF b] render_context_blind [OF b]
      select_context_blind [OF b] monitor_blind [OF b] stage_context_blind cb split: exn.split)
  ultimately show ?thesis by blast
qed

text \<open>A dry run goes through. In a project whose files can be read and written, with the dummy adapter
  configured and no local agent files, running the agent of any stage of any profile returns: the run
  is completed, the stage's contract is satisfied, and the file it asks for is there.\<close>

lemma dry_run_completes:
  assumes "writes_succeed E" and "load_config E w = (Inr cfg, w)"
    and "create_adapter_from_config reg cfg w = (Inr (dummy_adapter E mtime True), w)"
    and "w_personas w = []" and "w_contracts w = []" and "get_profile_stages profile = Inr ts" and "t \<in> set ts"
    and "fst (lesson_load E w) = Inr d" and "registry_ok E w" and "fst (skill_menu E w) = Inr menu"
  shows "\<exists>x w'. run_stage_agent E repr reg st (tp_id t) w = (Inr x, w') \<and> ar_status x = ''completed'' \<and>
    cv_passed (ar_contract x) \<and> w_fs w' (default_output_path (tp_id t)) \<noteq> None"
  using assms by (rule dry_run_returns)

definition demo_adapters :: adapter_registry where
  "demo_adapters = [(''dummy'', dummy_factory demo_env 0)]"

lemma demo_adapter: "create_adapter_from_config demo_adapters demo_config w = (Inr (dummy_adapter demo_env 0 True), w)"
  by (simp add: create_adapter_from_config_def demo_config_def create_adapter_def demo_adapters_def dummy_factory_def
      dict_get_def truthy_def ret_run)

lemma demo_adapters_respect:
  assumes "agent_blind f" and "\<And>w x. f (w\<lparr>w_fs := x\<rparr>) = f w"
  shows "adapters_respect f demo_adapters"
proof -
  have u: "\<And>w n. f (w\<lparr>w_writes := n\<rparr>) = f w" using assms(1) by (simp add: agent_blind_def)
  have s: "unchanged f (dummy_spawn demo_env 0 b p ctx tools)" for b p ctx tools
    unfolding dummy_spawn_def write_outputs_def write_output_def Let_def
    by (intro frame_intros write_file_unchanged agent_blindD(2) [OF assms(1)]) (simp_all add: u assms(2))
  show ?thesis unfolding adapters_respect_def
    by (auto simp: create_adapter_from_config_def create_adapter_def demo_adapters_def dummy_factory_def dict_get_def
        placeholder_adapter_def dummy_adapter_def prog_simps Let_def s intro: unchanged_basic split: if_splits)
qed

lemma demo_project_facts:
  "srs_template \<in> set minimal_stages" "get_profile_stages ''minimal'' = Inr minimal_stages" "tp_id srs_template = ''srs''"
  "load_config demo_env demo_project = (Inr demo_config, demo_project)"
  "fst (lesson_load demo_env demo_project) = Inr \<lparr>ld_schema_version = ''0.1'', ld_lessons = []\<rparr>"
  "registry_ok demo_env demo_project" "fst (skill_menu demo_env demo_project) = Inr []"
  "w_personas demo_project = []" "w_contracts demo_project = []"
proof -
  have "check_config_fields demo_config = Inr demo_config" by code_simp
  then show "load_config demo_env demo_project = (Inr demo_config, demo_project)"
    by (simp add: load_config_def demo_project_def)
qed (simp_all add: minimal_stages_def get_profile_stages_def srs_template_def template_def lesson_load_def
    registry_ok_def load_artifacts_def skill_menu_def list_records_def demo_project_def empty_world_def empty_lessons_def)

lemma dry_run_completes_witness:
  "\<exists>x w'. run_stage_agent demo_env (\<lambda>_. []) demo_adapters demo_state ''srs'' demo_project = (Inr x, w') \<and>
     ar_status x = ''completed'' \<and> cv_passed (ar_contract x) \<and> w_fs w' ''SRS.md'' \<noteq> None"
  using dry_run_completes [OF demo_env_writes demo_project_facts(4) demo_adapter demo_project_facts(8,9,2,1,5,6,7),
      where repr = "\<lambda>_. []" and st = demo_state]
  by (simp add: demo_project_facts(3) default_output_path_def)

lemma agent_run_is_accounted_for_witness:
  "\<exists>x w' p c. run_stage_agent demo_env (\<lambda>_. []) demo_adapters demo_state ''srs'' demo_project = (Inr x, w') \<and>
     persona_for_stage ''srs'' demo_project = (Inr p, demo_project) \<and>
     contract_for_persona p demo_project = (Inr c, demo_project) \<and> w_agent_runs w' = [x] \<and>
     ar_contract x = contract_on (w_fs w') c"
proof -
  obtain x w' where run: "run_stage_agent demo_env (\<lambda>_. []) demo_adapters demo_state ''srs'' demo_project = (Inr x, w')"
    using dry_run_returns [OF demo_env_writes demo_project_facts(4) demo_adapter demo_project_facts(8,9,2,1,5,6,7),
      where repr = "\<lambda>_. []" and st = demo_state]
    by (auto simp: demo_project_facts(3))
  have "adapters_respect w_agent_runs demo_adapters" by (rule demo_adapters_respect) simp_all
  from agent_run_is_accounted_for [OF run this] run show ?thesis
    by (auto simp: demo_project_def empty_world_def)
qed

lemma agent_runs_never_advance_state_witness:
  "w_state (snd (run_stage_agent demo_env (\<lambda>_. []) demo_adapters demo_state ''srs'' demo_project)) = Doc demo_state"
proof -
  let ?f = "\<lambda>w. (w_state w, w_state_md w, w_config w, w_gates w, w_tickets w)"
  have "adapters_respect ?f demo_adapters" by (rule demo_adapters_respect) (simp_all add: agent_blind_def)
  from agent_runs_never_advance_state [OF this] have "unchanged ?f (run_stage_agent demo_env (\<lambda>_. []) demo_adapters demo_state ''srs'')"
    by blast
  from unchangedD [OF this, of demo_project] show ?thesis by (simp add: demo_project_def)
qed

end
