(* ===== verification/Bridge.thy ===== *)
theory Bridge imports Executor begin

text \<open>
  The bridge from the asynchronous kernel adapters to the synchronous interface,
  \<open>adapters/bridge.py\<close> over \<open>kernel/types.py\<close>. The inner adapter's generator is a state \<open>'g\<close> with one
  step: given the value sent to it, it raises, stops, or yields an event and goes on; \<open>start\<close> is its state
  when it is made. It may go on for ever, so the bridge's loop is a partial function. What the
  generator does when it is closed is not modelled. \<open>repr_exn\<close> is how Python writes an exception.
\<close>

section \<open>Kernel types (types.py)\<close>

datatype event_kind = SessionStarted | TextDelta | ThinkingDelta | ToolUseProposed | ServerToolExecuted
  | PlanUpdated | DiffUpdated | AgentCompleted | AgentFailed

record tool_proposal =
  tu_id :: string
  tu_name :: string
  tu_abstract :: string
  tu_inputs :: json
  tu_payload :: json_obj

datatype kernel_event = Event event_kind json_obj | Proposal tool_proposal

record tool_result =
  tr_tool_use_id :: string
  tr_content :: json
  tr_is_error :: bool

record agent_persona =
  ap_name :: string
  ap_role :: string
  ap_goal :: string
  ap_constraints :: "string list"
  ap_allowed_tools :: "string list"
  ap_allowed_server_tools :: "string list"
  ap_output_contract :: json_obj
  ap_preferred_model :: string
  ap_max_tokens :: int
  ap_temperature :: real
  ap_thinking_budget_tokens :: "int option"
  ap_setting_sources :: "string list"
  ap_enable_skills :: bool

record kernel_capabilities =
  kc_kernel_id :: string
  kc_streaming :: bool
  kc_deterministic_output :: bool
  kc_extended_thinking :: bool
  kc_prompt_caching :: bool
  kc_vision :: bool
  kc_batch_api :: bool
  kc_hooks_native :: bool
  kc_subagents_native :: bool
  kc_mcp_remote :: bool
  kc_mcp_local_stdio :: bool
  kc_client_tools :: "string list"
  kc_server_tools :: "string list"
  kc_max_context_tokens :: int

section \<open>The bridge (bridge.py)\<close>

definition agent_def_to_persona :: "agent_definition \<Rightarrow> agent_persona" where
  "agent_def_to_persona a = \<lparr>ap_name = ad_name a, ap_role = ad_role a, ap_goal = ad_prompt a,
     ap_constraints = [], ap_allowed_tools = ad_default_tools a, ap_allowed_server_tools = [], ap_output_contract = [],
     ap_preferred_model = ''claude-opus-4-7'', ap_max_tokens = 4096, ap_temperature = 0,
     ap_thinking_budget_tokens = None, ap_setting_sources = [], ap_enable_skills = False\<rparr>"

definition bridge_id :: "string \<Rightarrow> string" where
  "bridge_id inner_id = ''bridge:'' @ inner_id"

definition optional_capabilities :: "kernel_capabilities \<Rightarrow> string set" where
  "optional_capabilities c = set (map fst (filter snd [(''streaming'', kc_streaming c),
     (''deterministic_output'', kc_deterministic_output c), (''extended_thinking'', kc_extended_thinking c),
     (''prompt_caching'', kc_prompt_caching c), (''vision'', kc_vision c), (''batch_api'', kc_batch_api c),
     (''hooks_native'', kc_hooks_native c), (''subagents_native'', kc_subagents_native c),
     (''mcp_remote'', kc_mcp_remote c), (''mcp_local_stdio'', kc_mcp_local_stdio c)]))"

definition bridge_supports :: "kernel_capabilities \<Rightarrow> string \<Rightarrow> bool" where
  "bridge_supports c capability \<longleftrightarrow> capability \<in> set (kc_client_tools c @ kc_server_tools c)"

definition decline :: "tool_proposal \<Rightarrow> tool_result" where
  "decline p = \<lparr>tr_tool_use_id = tu_id p, tr_content = JStr (''[forge bridge] Tool execution not available yet (bridge auto-declined '' @
     py_repr (tu_abstract p) @ ''). Wire a proposal_handler or use the full Forge pipeline.''),
     tr_is_error = True\<rparr>"

record bridge =
  bg_adapter_id :: string
  bg_auto_decline :: bool
  bg_handler :: "(tool_proposal \<Rightarrow> (world, tool_result) prog) option"

definition handle_proposal :: "bridge \<Rightarrow> tool_proposal \<Rightarrow> (world, tool_result) prog" where
  "handle_proposal b p = (case bg_handler b of
       Some handler \<Rightarrow> handler p
     | None \<Rightarrow> if bg_auto_decline b then ret (decline p)
         else throw (RuntimeError (''AsyncToSyncBridge: received ToolUseProposal '' @ py_repr (tu_id p) @
           '' but auto_decline_proposals=False and no proposal_handler was provided.'')))"

type_synonym 'g generator = "'g \<Rightarrow> tool_result option \<Rightarrow> (world, (kernel_event \<times> 'g) option) prog"

definition text_part :: "json_obj \<Rightarrow> json" where
  "text_part payload = (case dict_get payload ''text'' of Some v \<Rightarrow> v | None \<Rightarrow> JStr [])"

definition fail_reason :: "env \<Rightarrow> json_obj \<Rightarrow> json" where
  "fail_reason E payload = (case dict_get payload ''reason'' of
       Some v \<Rightarrow> if truthy v then v else JStr (str_of E (JObj payload))
     | None \<Rightarrow> JStr (str_of E (JObj payload)))"

partial_function (option) drain :: "env \<Rightarrow> bridge \<Rightarrow> 'g generator \<Rightarrow> 'g \<Rightarrow> tool_result option \<Rightarrow> json list
    \<Rightarrow> world \<Rightarrow> ((exn + json list \<times> string \<times> json) \<times> world) option" where
  "drain E b step g send texts w = (case step g send w of
       (Inl e, w1) \<Rightarrow> Some (Inl e, w1)
     | (Inr None, w1) \<Rightarrow> Some (Inr (texts, ''completed'', JNull), w1)
     | (Inr (Some (ev, g')), w1) \<Rightarrow> (case ev of
           Proposal p \<Rightarrow> (case handle_proposal b p w1 of
               (Inl e, w2) \<Rightarrow> Some (Inl e, w2)
             | (Inr r, w2) \<Rightarrow> drain E b step g' (Some r) texts w2)
         | Event kind payload \<Rightarrow>
             if kind = TextDelta then drain E b step g' None (texts @ [text_part payload]) w1
             else if kind = AgentCompleted then Some (Inr (texts, ''completed'', JNull), w1)
             else if kind = AgentFailed then Some (Inr (texts, ''failed'', fail_reason E payload), w1)
             else drain E b step g' None texts w1))"

text \<open>\<open>''.join\<close>, which raises on the first item that is not a string; \<open>n\<close> is its position.\<close>

fun join_parts :: "nat \<Rightarrow> json list \<Rightarrow> exn + string" where
  "join_parts n [] = Inr []"
| "join_parts n (x # xs) = (case x of
       JStr s \<Rightarrow> (case join_parts (Suc n) xs of Inl e \<Rightarrow> Inl e | Inr t \<Rightarrow> Inr (s @ t))
     | _ \<Rightarrow> Inl (TypeError (''sequence item '' @ show_nat n @ '': expected str instance, '' @ python_type x @ '' found'')))"

definition stream_outputs :: "string \<Rightarrow> output_artifact list" where
  "stream_outputs t = (if t = [] then [] else [\<lparr>oa_path = ''(stream)'', oa_kind = ''text'', oa_description = Some (take 200 t)\<rparr>])"

definition stream_handle :: "env \<Rightarrow> string \<Rightarrow> string \<Rightarrow> json list \<times> string \<times> json \<Rightarrow> (world, agent_handle) prog" where
  "stream_handle E bid name = (\<lambda>(texts, status, why). bindp (lift_result (join_parts 0 texts)) (\<lambda>full.
     let t = strip full in bindp (uuid4 E) (\<lambda>u. ret \<lparr>ah_handle_id = ''agent-'' @ u, ah_provider = bid,
       ah_persona_id = name, ah_stage_id = None, ah_status = status, ah_outputs = stream_outputs t,
       ah_metadata = [(''fail_reason'', why), (''full_text'', JStr t)]\<rparr>)))"

definition failed_handle :: "env \<Rightarrow> (exn \<Rightarrow> string) \<Rightarrow> string \<Rightarrow> agent_definition \<Rightarrow> exn \<Rightarrow> (world, agent_handle) prog" where
  "failed_handle E repr_exn bid persona e = bindp (uuid4 E) (\<lambda>u. ret \<lparr>ah_handle_id = ''agent-'' @ u, ah_provider = bid,
     ah_persona_id = ad_id persona, ah_stage_id = None, ah_status = ''failed'', ah_outputs = [],
     ah_metadata = [(''error'', JStr (repr_exn e))]\<rparr>)"

type_synonym 'g starter = "agent_persona \<Rightarrow> string \<Rightarrow> string list \<Rightarrow> string \<Rightarrow> 'g"

definition run_async :: "env \<Rightarrow> bridge \<Rightarrow> 'g generator \<Rightarrow> 'g starter \<Rightarrow> agent_persona \<Rightarrow> string \<Rightarrow> string list
    \<Rightarrow> string \<Rightarrow> world \<Rightarrow> ((exn + agent_handle) \<times> world) option" where
  "run_async E b step start persona context tools aggregate_id w =
     (case drain E b step (start persona context tools aggregate_id) None [] w of
       None \<Rightarrow> None
     | Some (Inl e, w1) \<Rightarrow> Some (Inl e, w1)
     | Some (Inr out, w1) \<Rightarrow> Some (stream_handle E (bg_adapter_id b) (ap_name persona) out w1))"

definition bridge_spawn_async :: "env \<Rightarrow> bridge \<Rightarrow> 'g generator \<Rightarrow> 'g starter \<Rightarrow> agent_definition \<Rightarrow> string
    \<Rightarrow> string list \<Rightarrow> world \<Rightarrow> ((exn + agent_handle) \<times> world) option" where
  "bridge_spawn_async E b step start persona context tools =
     run_async E b step start (agent_def_to_persona persona) context tools (ad_id persona)"

definition bridge_spawn :: "env \<Rightarrow> (exn \<Rightarrow> string) \<Rightarrow> bridge \<Rightarrow> 'g generator \<Rightarrow> 'g starter \<Rightarrow> agent_definition
    \<Rightarrow> string \<Rightarrow> string list \<Rightarrow> world \<Rightarrow> ((exn + agent_handle) \<times> world) option" where
  "bridge_spawn E repr_exn b step start persona context tools w =
     (case run_async E b step start (agent_def_to_persona persona) context tools (ad_id persona) w of
       None \<Rightarrow> None
     | Some (Inl e, w1) \<Rightarrow> Some (failed_handle E repr_exn (bg_adapter_id b) persona e w1)
     | Some (Inr h, w1) \<Rightarrow> Some (Inr h, w1))"

section \<open>Traces\<close>

text \<open>The events a generator yields to the declining bridge, up to the one that ends the loop or to the
  end of the stream, with every proposal answered by an error.\<close>

definition ends_stream :: "kernel_event \<Rightarrow> bool" where
  "ends_stream ev = (case ev of Proposal _ \<Rightarrow> False | Event k _ \<Rightarrow> k \<in> {AgentCompleted, AgentFailed})"

definition reply :: "kernel_event \<Rightarrow> tool_result option" where
  "reply ev = (case ev of Proposal p \<Rightarrow> Some (decline p) | Event _ _ \<Rightarrow> None)"

inductive yields :: "'g generator \<Rightarrow> 'g \<Rightarrow> tool_result option \<Rightarrow> world \<Rightarrow> kernel_event list \<Rightarrow> world \<Rightarrow> bool"
  for step where
  Stops: "step g send w = (Inr None, w') \<Longrightarrow> yields step g send w [] w'"
| Ends: "step g send w = (Inr (Some (ev, g')), w') \<Longrightarrow> ends_stream ev \<Longrightarrow> yields step g send w [ev] w'"
| Goes: "step g send w = (Inr (Some (ev, g')), w1) \<Longrightarrow> \<not> ends_stream ev \<Longrightarrow> yields step g' (reply ev) w1 evs w' \<Longrightarrow>
    yields step g send w (ev # evs) w'"

fun texts_of :: "kernel_event list \<Rightarrow> json list" where
  "texts_of [] = []"
| "texts_of (Event TextDelta payload # evs) = text_part payload # texts_of evs"
| "texts_of (ev # evs) = texts_of evs"

definition verdict_of :: "env \<Rightarrow> kernel_event list \<Rightarrow> string \<times> json" where
  "verdict_of E evs = (case evs of [] \<Rightarrow> (''completed'', JNull) | _ \<Rightarrow> (case last evs of
     Event AgentFailed payload \<Rightarrow> (''failed'', fail_reason E payload) | _ \<Rightarrow> (''completed'', JNull)))"

definition declining :: "string \<Rightarrow> bridge" where
  "declining bid = \<lparr>bg_adapter_id = bid, bg_auto_decline = True, bg_handler = None\<rparr>"

lemma verdict_goes: "\<not> ends_stream ev \<Longrightarrow> verdict_of E (ev # evs) = verdict_of E evs"
  by (cases evs) (auto simp: verdict_of_def ends_stream_def split: kernel_event.splits event_kind.splits)

lemma texts_of_other: "k \<noteq> TextDelta \<Longrightarrow> texts_of (Event k x # evs) = texts_of evs"
  by (cases k) simp_all

lemma drain_trace:
  "yields step g send w evs w' \<Longrightarrow>
     drain E (declining bid) step g send texts w = Some (Inr (texts @ texts_of evs, verdict_of E evs), w')"
proof (induction arbitrary: texts rule: yields.induct)
  case (Stops g send w w')
  then show ?case by (subst drain.simps) (simp add: verdict_of_def)
next
  case (Ends g send w ev g' w')
  then show ?case
    by (subst drain.simps) (auto simp: ends_stream_def verdict_of_def split: kernel_event.splits)
next
  case (Goes g send w ev g' w1 evs w')
  from Goes(1,2,4) show ?case
    by (subst drain.simps, cases ev)
      (auto simp: verdict_goes ends_stream_def reply_def handle_proposal_def declining_def ret_run texts_of_other)
qed

lemma join_parts_map: "join_parts n (map JStr ss) = Inr (concat ss)"
  by (induction ss arbitrary: n) auto

lemma join_parts_total: "(\<exists>ss. xs = map JStr ss) \<or> (\<exists>m. join_parts n xs = Inl (TypeError m))"
proof (induction xs arbitrary: n)
  case (Cons x xs)
  show ?case
  proof (cases x)
    case (JStr s)
    from Cons.IH [of "Suc n"] show ?thesis
    proof
      assume "\<exists>ss. xs = map JStr ss"
      then obtain ss where "xs = map JStr ss" by blast
      with JStr have "x # xs = map JStr (s # ss)" by simp
      then show ?thesis by (intro disjI1 exI)
    qed (auto simp: JStr)
  qed auto
qed auto

text \<open>The bridge's answer never is an exception.\<close>

lemma failed_handle_run: "failed_handle E rx bid persona e w = (Inr \<lparr>ah_handle_id = ''agent-'' @ uuid_at E (w_uuids w),
    ah_provider = bid, ah_persona_id = ad_id persona, ah_stage_id = None, ah_status = ''failed'', ah_outputs = [],
    ah_metadata = [(''error'', JStr (rx e))]\<rparr>, w\<lparr>w_uuids := Suc (w_uuids w)\<rparr>)"
  by (simp add: failed_handle_def prog_simps)

lemma stream_handle_run:
  "stream_handle E bid name (map JStr ss, status, why) w = (Inr \<lparr>ah_handle_id = ''agent-'' @ uuid_at E (w_uuids w),
    ah_provider = bid, ah_persona_id = name, ah_stage_id = None, ah_status = status,
    ah_outputs = stream_outputs (strip (concat ss)),
    ah_metadata = [(''fail_reason'', why), (''full_text'', JStr (strip (concat ss)))]\<rparr>, w\<lparr>w_uuids := Suc (w_uuids w)\<rparr>)"
  by (simp add: stream_handle_def prog_simps join_parts_map Let_def)

lemma bridge_spawn_answers:
  assumes "drain E b step (start (agent_def_to_persona persona) ctx tools (ad_id persona)) None [] w \<noteq> None"
  shows "\<exists>h w'. bridge_spawn E rx b step start persona ctx tools w = Some (Inr h, w')"
proof -
  obtain r w1 where d: "drain E b step (start (agent_def_to_persona persona) ctx tools (ad_id persona)) None [] w = Some (r, w1)"
    using assms by auto
  obtain q w2 where "run_async E b step start (agent_def_to_persona persona) ctx tools (ad_id persona) w = Some (q, w2)"
  proof (cases r)
    case (Inl e)
    with d that show thesis by (simp add: run_async_def)
  next
    case (Inr out)
    with d that show thesis
      by (cases "stream_handle E (bg_adapter_id b) (ap_name (agent_def_to_persona persona)) out w1") (simp add: run_async_def)
  qed
  then show ?thesis by (cases q) (simp_all add: bridge_spawn_def failed_handle_run)
qed

text \<open>The loop ends over every generator whose states descend along a well-founded relation.\<close>

lemma drain_ends:
  assumes "wf R" and step: "\<And>g send w ev g' w1. step g send w = (Inr (Some (ev, g')), w1) \<Longrightarrow> (g', g) \<in> R"
  shows "drain E b step g send texts w \<noteq> None"
  using assms(1)
proof (induction g arbitrary: send texts w rule: wf_induct_rule)
  case (less g)
  show ?case
  proof (cases "step g send w")
    case (Pair r w1)
    consider e where "r = Inl e" | "r = Inr None" | ev g' where "r = Inr (Some (ev, g'))"
      by (cases r) (auto, metis not_None_eq surj_pair)
    then show ?thesis
    proof cases
      case 3
      with Pair step have "(g', g) \<in> R" by blast
      note ih = less.IH [OF this]
      from Pair 3 ih show ?thesis
        by (subst drain.simps) (auto split: kernel_event.split prod.split sum.split)
    qed (use Pair in \<open>subst drain.simps; simp\<close>)+
  qed
qed

section \<open>Properties\<close>

text \<open>C8: The bridge always ends and never raises. If the inner generator makes progress (some measure
  of its state falls with every event, whatever it is sent), spawning through any bridge returns a
  handle: proposals, handlers that raise, generators that raise and malformed text all end in a handle.\<close>

theorem bridge_always_returns:
  fixes rank :: "'g \<Rightarrow> nat"
  assumes "\<And>g send w ev g' w1. step g send w = (Inr (Some (ev, g')), w1) \<Longrightarrow> rank g' < rank g"
  shows "\<exists>h w'. bridge_spawn E rx b step start persona ctx tools w = Some (Inr h, w')"
proof (rule bridge_spawn_answers, rule drain_ends)
  show "wf (measure rank)" by simp
  show "(g', g) \<in> measure rank" if "step g send w = (Inr (Some (ev, g')), w1)" for g send w ev g' w1
    using assms [OF that] by simp
qed

text \<open>A generator that replays a list of events.\<close>

definition replaying :: "kernel_event list generator" where
  "replaying g send w = (Inr (case g of [] \<Rightarrow> None | ev # evs \<Rightarrow> Some (ev, evs)), w)"

definition demo_proposal :: tool_proposal where
  "demo_proposal = \<lparr>tu_id = ''t1'', tu_name = ''Bash'', tu_abstract = ''Bash'', tu_inputs = JObj [], tu_payload = []\<rparr>"

definition demo_events :: "kernel_event list" where
  "demo_events = [Event TextDelta [(''text'', JStr ''hi'')], Proposal demo_proposal, Event AgentCompleted []]"

definition demo_persona :: agent_definition where
  "demo_persona = stage_persona ''builder'' ''Builder'' ''r'' ''build''"

lemma bridge_always_returns_witness:
  "\<exists>h w'. bridge_spawn demo_env exn_message (declining ''bridge:x'') replaying (\<lambda>_ _ _ _. demo_events)
     demo_persona ''go'' [] empty_world = Some (Inr h, w')"
  by (rule bridge_always_returns [where rank = length]) (auto simp: replaying_def split: list.splits)

text \<open>The bridge reports what the kernel said and executes nothing. When the inner generator, each of
  its proposals answered with an error, yields \<open>evs\<close>, the handle has the status of the last event
  (failed with its reason, or completed), the text is what the text events said, stripped, and the
  bridge itself changed nothing but the supply of identifiers.\<close>

lemma bridge_reports_the_stream:
  assumes "yields step (start (agent_def_to_persona persona) ctx tools (ad_id persona)) None w evs w1"
    and "texts_of evs = map JStr ss"
  shows "\<exists>h. bridge_spawn E rx (declining bid) step start persona ctx tools w = Some (Inr h, w1\<lparr>w_uuids := Suc (w_uuids w1)\<rparr>) \<and>
    ah_persona_id h = ad_name persona \<and> ah_status h = fst (verdict_of E evs) \<and>
    ah_metadata h = [(''fail_reason'', snd (verdict_of E evs)), (''full_text'', JStr (strip (concat ss)))] \<and>
    map oa_path (ah_outputs h) = (if strip (concat ss) = [] then [] else [''(stream)''])"
proof -
  obtain st re where v: "verdict_of E evs = (st, re)" by fastforce
  with drain_trace [OF assms(1), of E bid "[]"] assms(2) show ?thesis
    by (simp add: bridge_spawn_def run_async_def stream_handle_run declining_def stream_outputs_def agent_def_to_persona_def)
qed

lemma bridge_reports_the_stream_witness:
  "\<exists>h. bridge_spawn demo_env exn_message (declining ''bridge:x'') replaying (\<lambda>_ _ _ _. demo_events)
     demo_persona ''go'' [] empty_world =
     Some (Inr h, empty_world\<lparr>w_uuids := 1\<rparr>) \<and> ah_status h = ''completed'' \<and> map oa_path (ah_outputs h) = [''(stream)'']"
proof -
  have y: "yields replaying demo_events None empty_world demo_events empty_world"
    unfolding demo_events_def
    by (rule yields.Goes, simp add: replaying_def, simp add: ends_stream_def,
        rule yields.Goes, simp add: replaying_def, simp add: ends_stream_def,
        rule yields.Ends, simp add: replaying_def, simp add: ends_stream_def)
  have t: "texts_of demo_events = map JStr [''hi'']"
    by (simp add: demo_events_def text_part_def dict_get_def texts_of_other)
  have "strip ''hi'' = ''hi''" by code_simp
  moreover have "w_uuids empty_world = 0" by (simp add: empty_world_def)
  moreover have "verdict_of demo_env demo_events = (''completed'', JNull)" by (simp add: verdict_of_def demo_events_def)
  ultimately show ?thesis
    using bridge_reports_the_stream [where start = "\<lambda>_ _ _ _. demo_events" and persona = demo_persona and ctx = "''go''" and tools = "[]",
      OF y t, of demo_env exn_message "''bridge:x''"] by auto
qed

text \<open>A bridged kernel's text becomes a phantom artifact. The bridge names its output \<open>(stream)\<close>, and the
  executor registers every output path: unless a file of that name happens to exist, the registry
  then holds an artifact of the stage that is missing.\<close>

lemma bridged_text_registers_phantom:
  assumes "register_outputs E sid (map oa_path (stream_outputs t)) w = (Inr (), w')" and "t \<noteq> []"
    and "w_fs w ''(stream)'' = None" and "sid \<noteq> []"
  shows "\<exists>as a. w_artifacts w' = Doc as \<and> a \<in> set as \<and> art_path a = ''(stream)'' \<and> art_stage_id a = Some sid \<and>
    art_status a = MissingArtifact"
proof -
  have p: "map oa_path (stream_outputs t) = [''(stream)'']" using assms(2) by (simp add: stream_outputs_def)
  have u: "replace_char backslash CHR ''/'' (strip ''(stream)'') = ''(stream)''" by code_simp
  have q: "sorted_set [''(stream)''] = [''(stream)'']" by (simp add: sorted_set_def)
  have d: "default_dependencies E sid w = (r, w2) \<Longrightarrow> w2 = w" for r w2
    by (auto simp: default_dependencies_def prog_simps load_artifacts_def split: if_splits prod.splits sum.splits)
  obtain deps a where "register_artifact E ''(stream)'' (Some sid) deps ''file'' [(''registered_by'', JStr ''stage_agent'')] w = (Inr a, w')"
    using assms(1) by (auto simp: p q register_outputs_def register_stage_outputs_def catchp_run thenp_run bindp_run ret_run throw_def
        split: prod.splits sum.splits exn.splits dest!: d)
  from register_artifact_result [OF this] u assms(3,4) show ?thesis by auto
qed

lemma bridged_text_registers_phantom_witness:
  "\<exists>w'. register_outputs demo_env ''build'' (map oa_path (stream_outputs ''hi'')) empty_world = (Inr (), w') \<and>
     (\<exists>as a. w_artifacts w' = Doc as \<and> a \<in> set as \<and> art_path a = ''(stream)'' \<and> art_status a = MissingArtifact)"
proof -
  have "normalize_path ''(stream)'' = Inr ''(stream)''" by code_simp
  moreover have "registry_ok demo_env empty_world" by (simp add: registry_ok_def load_artifacts_def empty_world_def)
  moreover have "map oa_path (stream_outputs ''hi'') = [''(stream)'']" by (simp add: stream_outputs_def)
  ultimately obtain w' where run: "register_outputs demo_env ''build'' (map oa_path (stream_outputs ''hi'')) empty_world = (Inr (), w')"
    using register_outputs_ok [of demo_env empty_world "''(stream)''"] by auto
  from bridged_text_registers_phantom [OF this] run show ?thesis by (auto simp: empty_world_def)
qed

end
