(* ===== verification/Extensions.thy ===== *)
theory Extensions imports Security JsonText begin

text \<open>
  Extensions: loading a manifest, \<open>extensions/manifest.py\<close>, the index of installed ones,
  \<open>extensions/store.py\<close>, the gated installation, \<open>extensions/installer.py\<close>, and the operations of
  \<open>use_cases/extensions.py\<close>. The source directory is what reading its manifest gives. In the index
  file \<open>NotMapping\<close> is a document that is no sequence and \<open>BadShape\<close> an entry pydantic rejects.
\<close>

section \<open>Manifests\<close>

record extension_source =
  xs_path :: string
  xs_manifest_path :: string
  xs_manifest :: "extension_manifest doc_file"

definition check_manifest :: "extension_manifest \<Rightarrow> exn + extension_manifest" where
  "check_manifest m = (if strip (em_name m) = [] then Inl (ValidationError ''extension name must be non-empty'')
     else if strip (em_version m) = [] then Inl (ValidationError ''extension version must be non-empty'')
     else Inr m)"

definition valid_manifest :: "extension_manifest \<Rightarrow> bool" where
  "valid_manifest m \<longleftrightarrow> check_manifest m = Inr m"

definition load_manifest :: "extension_source \<Rightarrow> exn + extension_manifest" where
  "load_manifest src = (let p = xs_manifest_path src;
     invalid = (\<lambda>m. Inl (ManifestError (''Invalid extension manifest '' @ p @ '': '' @ m))) in
     case xs_manifest src of
       Absent \<Rightarrow> Inl (ManifestError (''No extension manifest found at '' @ p))
     | Unreadable \<Rightarrow> Inl (OSError p)
     | BadSyntax \<Rightarrow> Inl (ManifestError (''Invalid YAML in '' @ p))
     | EmptyDoc \<Rightarrow> invalid ''name: Field required''
     | NotMapping \<Rightarrow> Inl (ManifestError (''Manifest must be a mapping: '' @ p))
     | BadShape m \<Rightarrow> invalid m
     | Doc m \<Rightarrow> (case check_manifest m of Inl e \<Rightarrow> invalid (exn_message e) | Inr m' \<Rightarrow> Inr m'))"

section \<open>The index\<close>

definition index_path :: "env \<Rightarrow> string" where
  "index_path E = root_path E @ ''/.forge/extensions/installed.json''"

definition valid_index :: "installed_extension list \<Rightarrow> bool" where
  "valid_index xs \<longleftrightarrow> (\<forall>x\<in>set xs. valid_manifest (ix_manifest x))"

definition ext_name :: "installed_extension \<Rightarrow> string" where
  "ext_name x = em_name (ix_manifest x)"

definition list_installed :: "env \<Rightarrow> (world, installed_extension list) prog" where
  "list_installed E = (\<lambda>w. (case w_extensions w of
       Absent \<Rightarrow> Inr []
     | Unreadable \<Rightarrow> Inl (OSError (index_path E))
     | BadSyntax \<Rightarrow> Inl (ValueError (index_path E))
     | EmptyDoc \<Rightarrow> Inl (ValueError (index_path E))
     | NotMapping \<Rightarrow> Inl (TypeError (index_path E))
     | BadShape m \<Rightarrow> Inl (ValidationError m)
     | Doc xs \<Rightarrow> (case List.find (\<lambda>x. \<not> valid_manifest (ix_manifest x)) xs of
           None \<Rightarrow> Inr xs
         | Some x \<Rightarrow> Inl (ValidationError (case check_manifest (ix_manifest x) of Inl e \<Rightarrow> exn_message e | Inr _ \<Rightarrow> []))), w))"

definition get_extension :: "env \<Rightarrow> string \<Rightarrow> (world, installed_extension option) prog" where
  "get_extension E name = bindp (list_installed E) (\<lambda>xs. ret (List.find (\<lambda>x. ext_name x = name) xs))"

definition write_index :: "env \<Rightarrow> installed_extension list \<Rightarrow> (world, unit) prog" where
  "write_index E xs = write_file E (index_path E) (\<lambda>w. w\<lparr>w_extensions := Doc xs\<rparr>)"

definition with_extension :: "installed_extension \<Rightarrow> installed_extension list \<Rightarrow> installed_extension list" where
  "with_extension x xs = filter (\<lambda>y. ext_name y \<noteq> ext_name x) xs @ [x]"

definition record_extension :: "env \<Rightarrow> installed_extension \<Rightarrow> (world, unit) prog" where
  "record_extension E x =
     edit (list_installed E) (write_index E) Inr (ret ()) (\<lambda>_ _ xs. with_extension x xs) (\<lambda>_ _. ())"

definition remove_extension :: "env \<Rightarrow> string \<Rightarrow> (world, bool) prog" where
  "remove_extension E name = bindp (list_installed E) (\<lambda>xs. let remaining = filter (\<lambda>x. ext_name x \<noteq> name) xs in
     if length remaining = length xs then ret False
     else thenp (write_index E remaining) (ret True))"

lemma find_invalid: "List.find (\<lambda>x. \<not> valid_manifest (ix_manifest x)) xs = None \<longleftrightarrow> valid_index xs"
  by (auto simp: find_None_iff valid_index_def)

interpretation extension_index: document_store "list_installed E" "write_index E" valid_index for E
proof
  show "snd (list_installed E w) = w" for E w by (simp add: list_installed_def)
  show "fst (list_installed E w') = Inr d" if "valid_index d" "write_index E d w = (Inr (), w')" for E d w w'
    using that find_invalid [of d] by (auto simp: write_index_def write_file_run list_installed_def split: if_splits)
  show "fst (list_installed E w') = fst (list_installed E w)" if "write_index E d w = (Inl x, w')" for E d w x w'
    using that by (auto simp: write_index_def write_file_run list_installed_def split: if_splits)
  show "valid_index d" if "fst (list_installed E w) = Inr d" for E w d
    using that find_invalid [of d] by (auto simp: list_installed_def valid_index_def split: doc_file.splits option.splits)
qed

section \<open>Installing\<close>

definition extension_actor :: json_obj where
  "extension_actor = [(''type'', JStr ''extension''), (''id'', JStr ''forge-plug'')]"

definition detect_conflicts :: "extension_manifest \<Rightarrow> installed_extension list \<Rightarrow> string list" where
  "detect_conflicts m installed = map (\<lambda>x. ''extension '' @ [CHR 0x27] @ em_name m @ [CHR 0x27] @ '' already installed (version '' @
     em_version (ix_manifest x) @ '')'') (filter (\<lambda>x. ext_name x = em_name m) installed)"

primrec check_permissions :: "env \<Rightarrow> security_profile \<Rightarrow> string \<Rightarrow> string list \<Rightarrow> (world, unit) prog" where
  "check_permissions E prof name [] = ret ()"
| "check_permissions E prof name (p # ps) =
     bindp (validate_action E prof extension_actor ''install_extension'' (JStr name) (Some p)) (\<lambda>decision.
       if decision \<noteq> DecAllowed
       then throw (ExtensionPermissionError (''extension '' @ [CHR 0x27] @ name @ [CHR 0x27] @ '' requires capability '' @ [CHR 0x27] @ p @
         [CHR 0x27] @ '' not allowed by the security profile (decision='' @ decision_text decision @ '')''))
       else check_permissions E prof name ps)"

definition validate_permissions :: "env \<Rightarrow> security_profile \<Rightarrow> extension_manifest \<Rightarrow> (world, unit) prog" where
  "validate_permissions E prof m = check_permissions E prof (em_name m) (em_permissions m)"

text \<open>No signature can be verified yet, whatever the manifest says of itself.\<close>

definition verify_signature :: "extension_source \<Rightarrow> extension_manifest \<Rightarrow> bool" where
  "verify_signature src m = False"

text \<open>\<open>logging\<close> says whether the caller passed an audit log.\<close>

definition audit_unsigned :: "env \<Rightarrow> bool \<Rightarrow> extension_manifest \<Rightarrow> (world, unit) prog" where
  "audit_unsigned E logging m = (if \<not> logging then ret () else bindp (iso_now E) (\<lambda>t.
     audit_log E \<lparr>ae_audit_id = ''EXT-UNSIGNED-'' @ em_name m @ ''-'' @ em_version m, ae_timestamp = t,
       ae_actor = extension_actor, ae_action = ''ExtensionUnsignedInstalled'', ae_target = JStr (em_name m),
       ae_capability = Some ''extension_install'', ae_decision = DecWarned,
       ae_reason = Some ''Unsigned extension installed with allow_unsigned''\<rparr>))"

definition install_extension :: "env \<Rightarrow> security_profile \<Rightarrow> bool \<Rightarrow> bool \<Rightarrow> extension_source
    \<Rightarrow> (world, installed_extension) prog" where
  "install_extension E prof allow_unsigned logging src =
     bindp (lift_result (load_manifest src)) (\<lambda>m. bindp (list_installed E) (\<lambda>installed.
       let conflicts = detect_conflicts m installed in
       if conflicts \<noteq> [] then throw (ExtensionConflictError (join ''; '' conflicts))
       else thenp (validate_permissions E prof m) (let verified = verify_signature src m in
         if \<not> verified \<and> \<not> allow_unsigned
         then throw (ExtensionSignatureError (''extension '' @ [CHR 0x27] @ em_name m @ [CHR 0x27] @
           '' is not verified; pass allow_unsigned to install it''))
         else bindp (iso_now E) (\<lambda>t. let x = \<lparr>ix_manifest = m, ix_source_path = xs_path src, ix_installed_at = t,
             ix_signature_verified = verified\<rparr> in
           thenp (record_extension E x) (thenp (whenp (\<not> verified) (audit_unsigned E logging m)) (ret x))))))"

section \<open>The operations of the command line (use_cases/extensions.py)\<close>

text \<open>The profile built into the use case denies everything; a result is an error text or a success.\<close>

definition builtin_profile :: security_profile where
  "builtin_profile = \<lparr>sp_profile_id = ''default'', sp_default_policy = PolDeny, sp_capabilities = [],
     sp_audit_enabled = True\<rparr>"

definition extension_error :: "exn \<Rightarrow> bool" where
  "extension_error e = (case e of ManifestError _ \<Rightarrow> True | ExtensionConflictError _ \<Rightarrow> True
     | ExtensionPermissionError _ \<Rightarrow> True | ExtensionSignatureError _ \<Rightarrow> True | _ \<Rightarrow> False)"

definition uc_install :: "env \<Rightarrow> bool \<Rightarrow> extension_source \<Rightarrow> (world, string + installed_extension) prog" where
  "uc_install E allow_unsigned src = catchp
     (bindp (install_extension E builtin_profile allow_unsigned True src) (\<lambda>x. ret (Inr x)))
     (\<lambda>e. if extension_error e then ret (Inl (exn_message e)) else throw e)"

definition uc_remove :: "env \<Rightarrow> string \<Rightarrow> (world, string + string) prog" where
  "uc_remove E name = bindp (remove_extension E name) (\<lambda>removed.
     ret (if removed then Inr name else Inl (''extension '' @ [CHR 0x27] @ name @ [CHR 0x27] @ '' is not installed'')))"

section \<open>The index as a map\<close>

definition index_map :: "installed_extension list \<Rightarrow> string \<Rightarrow> installed_extension option" where
  "index_map xs = map_of (map (\<lambda>x. (ext_name x, x)) xs)"

lemma index_map_simps [simp]:
  "index_map [] = Map.empty" "index_map (x # xs) = (index_map xs)(ext_name x \<mapsto> x)"
  by (simp_all add: index_map_def)

lemma find_index_map: "List.find (\<lambda>x. ext_name x = n) xs = index_map xs n"
  by (induction xs) auto

lemma index_map_without: "index_map (filter (\<lambda>x. ext_name x \<noteq> n) xs) = (index_map xs)(n := None)"
  by (induction xs) auto

lemma index_map_snoc: "ext_name x \<notin> ext_name ` set xs \<Longrightarrow> index_map (xs @ [x]) = (index_map xs)(ext_name x \<mapsto> x)"
  by (induction xs) (auto simp: fun_upd_twist)

lemma index_map_with: "index_map (with_extension x xs) = (index_map xs)(ext_name x \<mapsto> x)"
  unfolding with_extension_def by (subst index_map_snoc) (auto simp: index_map_without)

lemma with_extension_new: "ext_name x \<notin> ext_name ` set xs \<Longrightarrow> with_extension x xs = xs @ [x]"
  unfolding with_extension_def by (auto simp: filter_id_conv) (metis imageI)

lemma conflicts_iff: "detect_conflicts m xs = [] \<longleftrightarrow> em_name m \<notin> ext_name ` set xs"
  by (auto simp: detect_conflicts_def filter_empty_conv) (metis imageI)

lemma length_filter_same: "length (filter P xs) = length xs \<longleftrightarrow> (\<forall>x\<in>set xs. P x)"
proof (induction xs)
  case (Cons x xs)
  then show ?case by auto (metis Suc_n_not_le_n length_filter_le)
qed simp

text \<open>Recording, removing and looking up are the operations of a map from names.\<close>

lemma extension_index_is_a_map:
  assumes "fst (list_installed E w) = Inr xs"
  shows "valid_manifest (ix_manifest x) \<Longrightarrow> record_extension E x w = (Inr (), w') \<Longrightarrow>
      \<exists>ys. fst (list_installed E w') = Inr ys \<and> index_map ys = (index_map xs)(ext_name x \<mapsto> x)"
    and "remove_extension E n w = (Inr b, w') \<Longrightarrow>
      \<exists>ys. fst (list_installed E w') = Inr ys \<and> index_map ys = (index_map xs)(n := None) \<and> (b \<longleftrightarrow> index_map xs n \<noteq> None)"
    and "get_extension E n w = (Inr (index_map xs n), w)"
proof -
  have c: "extension_index.contents E w = Inr xs" using assms by (simp add: extension_index.contents_def)
  have l: "list_installed E w = (Inr xs, w)" using extension_index.load_run [of E w] c by simp
  have v: "valid_index xs" using extension_index.contents_valid [OF c] .
  show "\<exists>ys. fst (list_installed E w') = Inr ys \<and> index_map ys = (index_map xs)(ext_name x \<mapsto> x)"
    if m: "valid_manifest (ix_manifest x)" and run: "record_extension E x w = (Inr (), w')"
  proof -
    have keep: "valid_index (with_extension x d)" if "valid_index d" for d
      using that m by (auto simp: valid_index_def with_extension_def)
    have "\<exists>d k u w1 w2. extension_index.contents E w = Inr d \<and> (Inr d :: exn + _) = Inr k \<and>
        (ret () :: (world, unit) prog) w1 = (Inr u, w2) \<and> extension_index.contents E w' = Inr (with_extension x d) \<and> () = ()"
      by (rule extension_index.edit_ok [OF run [unfolded record_extension_def] unchanged_basic(1)]) (rule keep)
    then obtain d where "extension_index.contents E w = Inr d" "extension_index.contents E w' = Inr (with_extension x d)"
      by blast
    with c show ?thesis by (auto simp: extension_index.contents_def index_map_with)
  qed
  show "get_extension E n w = (Inr (index_map xs n), w)"
    by (simp add: get_extension_def bindp_run l ret_run find_index_map)
  show "\<exists>ys. fst (list_installed E w') = Inr ys \<and> index_map ys = (index_map xs)(n := None) \<and> (b \<longleftrightarrow> index_map xs n \<noteq> None)"
    if run: "remove_extension E n w = (Inr b, w')"
  proof (cases "length (filter (\<lambda>x. ext_name x \<noteq> n) xs) = length xs")
    case True
    then have "\<forall>x\<in>set xs. ext_name x \<noteq> n" by (simp add: length_filter_same)
    then have "index_map xs n = None" unfolding find_index_map [symmetric] find_None_iff by blast
    moreover from True run l have "b = False" "w' = w" by (simp_all add: remove_extension_def bindp_run ret_run Let_def)
    ultimately show ?thesis using assms by auto
  next
    case False
    let ?ys = "filter (\<lambda>x. ext_name x \<noteq> n) xs"
    from False run l have "write_index E ?ys w = (Inr (), w')" "b"
      by (auto simp: remove_extension_def bindp_run thenp_run ret_run Let_def split: prod.splits sum.splits)
    moreover have "valid_index ?ys" using v by (auto simp: valid_index_def)
    ultimately have "fst (list_installed E w') = Inr ?ys" by (blast intro: extension_index.save_load)
    moreover have "index_map xs n \<noteq> None"
    proof
      assume "index_map xs n = None"
      then have "\<forall>x\<in>set xs. ext_name x \<noteq> n" unfolding find_index_map [symmetric] find_None_iff by blast
      then have "?ys = xs" by (simp add: filter_id_conv)
      with False show False by simp
    qed
    ultimately show ?thesis using \<open>b\<close> by (auto simp: index_map_without)
  qed
qed

section \<open>What the gates do\<close>

lemma validate_action_keeps_index: "unchanged w_extensions (validate_action E prof actor action target cap)"
  by (rule unchangedI) (auto simp: validate_action_def audit_def audit_log_def Let_def prog_simps)

lemma check_permissions_run:
  "check_permissions E prof name ps w = (r, w') \<Longrightarrow> w_extensions w' = w_extensions w \<and>
     (\<exists>es. audit_entries w' = audit_entries w @ es) \<and>
     (r = Inr () \<longrightarrow> (\<forall>p\<in>set ps. effective_policy prof (Some p) = PolAllow))"
proof (induction ps arbitrary: w)
  case Nil
  then show ?case by (simp add: ret_run)
next
  case (Cons p ps)
  obtain r1 w1 where v: "validate_action E prof extension_actor ''install_extension'' (JStr name) (Some p) w = (r1, w1)"
    by fastforce
  note a = validate_action_run [OF v] and k = unchanged_result [OF validate_action_keeps_index v]
  show ?case
  proof (cases "r1 = Inr DecAllowed")
    case True
    with Cons.prems v have "check_permissions E prof name ps w1 = (r, w')" by (simp add: bindp_run)
    moreover have "effective_policy prof (Some p) = PolAllow"
      using a True by (cases "effective_policy prof (Some p)") auto
    ultimately show ?thesis using Cons.IH [of w1] a k by auto
  next
    case False
    with Cons.prems v have "w' = w1" "\<exists>e. r = Inl e" by (auto simp: bindp_run throw_run split: sum.splits)
    with a k show ?thesis by auto
  qed
qed

lemma list_installed_cong: "w_extensions v = w_extensions w \<Longrightarrow> fst (list_installed E v) = fst (list_installed E w)"
  by (simp add: list_installed_def)

text \<open>The last part of an installation, when every gate has passed.\<close>

definition finish_install :: "env \<Rightarrow> extension_source \<Rightarrow> extension_manifest \<Rightarrow> (world, installed_extension) prog" where
  "finish_install E src m = bindp (iso_now E) (\<lambda>t. let x = \<lparr>ix_manifest = m, ix_source_path = xs_path src,
      ix_installed_at = t, ix_signature_verified = False\<rparr> in
    thenp (record_extension E x) (thenp (audit_unsigned E True m) (ret x)))"

lemma finish_install_run:
  assumes "fst (list_installed E w) = Inr xs" and "em_name m \<notin> ext_name ` set xs" and "valid_manifest m"
    and "finish_install E src m w = (r, w')"
  shows "(\<exists>x. r = Inr x \<and> ix_manifest x = m \<and> \<not> ix_signature_verified x \<and> fst (list_installed E w') = Inr (xs @ [x]) \<and>
      (\<exists>e. audit_entries w' = audit_entries w @ [e] \<and> ae_action e = ''ExtensionUnsignedInstalled'' \<and>
        ae_target e = JStr (em_name m))) \<or>
    (\<exists>p. r = Inl (OSError p) \<and> audit_entries w' = audit_entries w \<and> (w_extensions w' = w_extensions w \<or> p = audit_path E))"
proof -
  let ?x = "\<lparr>ix_manifest = m, ix_source_path = xs_path src, ix_installed_at = iso_now_at E (w_clock w), ix_signature_verified = False\<rparr>"
  let ?w = "w\<lparr>w_clock := Suc (w_clock w)\<rparr>"
  have "fst (list_installed E ?w) = Inr xs" using assms(1) list_installed_cong [of ?w w] by simp
  then have l: "list_installed E ?w = (Inr xs, ?w)" by (metis extension_index.load_pure prod.collapse)
  have n: "with_extension ?x xs = xs @ [?x]" using assms(2) by (intro with_extension_new) (simp add: ext_name_def)
  have "valid_index xs" using assms(1) extension_index.load_valid by blast
  with assms(3) have v: "valid_index (xs @ [?x])" by (auto simp: valid_index_def)
  have rec: "record_extension E ?x ?w = write_index E (xs @ [?x]) ?w"
    by (auto simp: record_extension_def edit_def bindp_run thenp_run lift_result_run ret_run l n write_index_def
        write_file_run split: prod.splits)
  show ?thesis
  proof (cases "write_ok_at E (w_writes w) (index_path E)")
    case False
    with assms(4) rec show ?thesis
      by (auto simp: finish_install_def env_reads bindp_run thenp_run Let_def write_index_def write_file_run audit_entries_def)
  next
    case True
    then have wr: "write_index E (xs @ [?x]) ?w = (Inr (), ?w\<lparr>w_writes := Suc (w_writes w), w_extensions := Doc (xs @ [?x])\<rparr>)"
      by (simp add: write_index_def write_file_run)
    have reread: "fst (list_installed E v) = Inr (xs @ [?x])" if "w_extensions v = Doc (xs @ [?x])" for v
      using extension_index.save_load [OF v wr] that by (subst list_installed_cong) auto
    from assms(4) rec wr show ?thesis
      by (cases "write_ok_at E (Suc (w_writes w)) (audit_path E)")
        (auto simp: finish_install_def env_reads bindp_run thenp_run ret_run Let_def audit_unsigned_def audit_log_def
          write_file_run audit_entries_def reread)
  qed
qed

section \<open>Properties\<close>


definition demo_manifest :: "string list \<Rightarrow> extension_manifest" where
  "demo_manifest ps = \<lparr>em_schema_version = ''0.1.0'', em_name = ''x'', em_version = ''1'', em_point = ProfilePackPoint,
     em_entry_point = ''x:main'', em_description = [], em_permissions = ps, em_signed = True, em_forge_min_version = None\<rparr>"

definition demo_source :: "string list \<Rightarrow> extension_source" where
  "demo_source ps = \<lparr>xs_path = ''/x'', xs_manifest_path = ''/x/extension.yaml'', xs_manifest = Doc (demo_manifest ps)\<rparr>"

lemma demo_source_loads: "load_manifest (demo_source ps) = Inr (demo_manifest ps)"
proof -
  have "strip ''x'' = ''x''" "strip ''1'' = ''1''" by code_simp+
  then show ?thesis by (simp add: load_manifest_def demo_source_def demo_manifest_def check_manifest_def)
qed


text \<open>The profile built into the command line allows no permission, so it installs no extension that
  declares one, whatever the caller consents to.\<close>

lemma command_line_installs_no_permissions:
  assumes "load_manifest src = Inr m" and "em_permissions m \<noteq> []" and "uc_install E consent src w = (Inr out, w')"
  shows "\<exists>msg. out = Inl msg"
proof -
  obtain p ps where "em_permissions m = p # ps" using assms(2) by (cases "em_permissions m") auto
  moreover have "effective_policy builtin_profile (Some p) = PolDeny"
    by (simp add: effective_policy_def matching_rule_def builtin_profile_def)
  ultimately have "r1 \<noteq> Inr ()" if "validate_permissions E builtin_profile m v = (r1, w1)" for r1 v w1
    using check_permissions_run [OF that [unfolded validate_permissions_def]] by auto
  with assms(1,3) show ?thesis
    by (auto simp: uc_install_def catchp_run bindp_run thenp_run ret_run throw_run install_extension_def lift_result_run Let_def
        split: sum.splits prod.splits if_splits)
qed

text \<open>The audit entry is written after the index: when that write alone is refused, the extension is
  installed and no entry says so.\<close>

lemma unsigned_install_can_go_unaudited:
  "\<exists>E e w'. install_extension E builtin_profile True True (demo_source []) empty_world = (Inl e, w') \<and>
     (\<exists>x. w_extensions w' = Doc [x]) \<and> audit_entries w' = []"
proof -
  let ?E = "demo_env\<lparr>write_ok_at := \<lambda>n p. n = 0\<rparr>"
  have "\<exists>e w'. install_extension ?E builtin_profile True True (demo_source []) empty_world = (Inl e, w') \<and>
     (\<exists>x. w_extensions w' = Doc [x]) \<and> audit_entries w' = []"
    by (simp add: install_extension_def demo_source_loads bindp_run thenp_run lift_result_run list_installed_def
        detect_conflicts_def validate_permissions_def demo_manifest_def verify_signature_def Let_def ret_run env_reads
        record_extension_def edit_def write_index_def write_file_run with_extension_def audit_unsigned_def audit_log_def
        whenp_def audit_entries_def empty_world_def)
  then show ?thesis by blast
qed

end
