(* ===== verification/Tracing.thy ===== *)
theory Tracing imports Config Hooks Security JsonText begin

text \<open>
  Tracing: the configuration, \<open>tracing/config.py\<close>, the projection of the two sources into spans,
  \<open>tracing/tracer.py\<close>, the sink, \<open>tracing/sink.py\<close>, and the index, \<open>tracing/index.py\<close>. What SQLite
  and the file system give for the sources is a function of the world; a line of the audit file
  is good when it is JSON. The sink's file is only ever written as a whole by \<open>sink_write\<close>, so the
  lines it would skip when reading do not arise.
\<close>

section \<open>Configuration\<close>

record tracing_config =
  tc_enabled :: bool
  tc_otlp_endpoint :: "string option"

definition tracing_off :: tracing_config where
  "tracing_off = \<lparr>tc_enabled = False, tc_otlp_endpoint = None\<rparr>"

definition clean_endpoint :: "json option \<Rightarrow> string option" where
  "clean_endpoint v = (case v of Some (JStr s) \<Rightarrow> if strip s = [] then None else Some s | _ \<Rightarrow> None)"

definition load_tracing_config :: "json_obj \<Rightarrow> tracing_config" where
  "load_tracing_config features = (case dict_get features ''tracing'' of
       Some (JBool True) \<Rightarrow> tracing_off\<lparr>tc_enabled := True\<rparr>
     | Some (JObj section) \<Rightarrow> \<lparr>tc_enabled = (case dict_get section ''enabled'' of Some (JBool b) \<Rightarrow> b | _ \<Rightarrow> False),
         tc_otlp_endpoint = clean_endpoint (dict_get section ''otlp_endpoint'')\<rparr>
     | _ \<Rightarrow> tracing_off)"

definition load_tracing_config_from_project :: "env \<Rightarrow> (world, tracing_config) prog" where
  "load_tracing_config_from_project E = catchp
     (bindp (load_config E) (\<lambda>c. ret (load_tracing_config (cf_features c))))
     (\<lambda>e. case e of ConfigError _ \<Rightarrow> ret tracing_off | SchemaConfigError _ \<Rightarrow> ret tracing_off | _ \<Rightarrow> throw e)"

section \<open>Spans\<close>

definition decode_payload :: "env \<Rightarrow> json option \<Rightarrow> json_obj" where
  "decode_payload E raw = (case raw of
       Some (JStr t) \<Rightarrow> (case parse_json E t of Inr (JObj kvs) \<Rightarrow> kvs | _ \<Rightarrow> [])
     | _ \<Rightarrow> [])"

definition reasoning_status :: "string \<Rightarrow> span_status" where
  "reasoning_status ty = (if ty = ''AdapterSpawnFailed'' then SpanError
     else if ty = ''AdapterSpawnCompleted'' then SpanOk else SpanUnset)"

definition audit_status :: "json option \<Rightarrow> span_status" where
  "audit_status decision = (case decision of
       Some (JStr d) \<Rightarrow> if d \<in> {''denied'', ''failed''} then SpanError
         else if d \<in> {''allowed'', ''warned''} then SpanOk else SpanUnset
     | _ \<Rightarrow> SpanUnset)"

definition truthy_field :: "json_obj \<Rightarrow> string \<Rightarrow> bool" where
  "truthy_field kvs k = (case dict_get kvs k of None \<Rightarrow> False | Some v \<Rightarrow> truthy v)"

definition field_text :: "env \<Rightarrow> json_obj \<Rightarrow> string \<Rightarrow> string" where
  "field_text E kvs k = (case dict_get kvs k of None \<Rightarrow> [] | Some v \<Rightarrow> py_str E v)"

definition reasoning_span :: "env \<Rightarrow> json_obj \<Rightarrow> span option" where
  "reasoning_span E row = (case dict_get row ''stream_id'' of
       Some (JStr sid) \<Rightarrow>
         if sid = [] then None
         else if dict_get row ''event_id'' \<in> {None, Some JNull} \<or> \<not> truthy_field row ''event_type'' \<or>
           \<not> truthy_field row ''created_at'' then None
         else Some \<lparr>sx_trace_id = sid, sx_span_id = field_text E row ''event_id'', sx_parent = None,
           sx_name = field_text E row ''event_type'', sx_kind = ReasoningSpan,
           sx_start = field_text E row ''created_at'', sx_end = None,
           sx_status = reasoning_status (field_text E row ''event_type''),
           sx_attributes = decode_payload E (dict_get row ''payload'')\<rparr>
     | _ \<Rightarrow> None)"

definition reasoning_spans_from_rows :: "env \<Rightarrow> json_obj list \<Rightarrow> span list" where
  "reasoning_spans_from_rows E rows = List.map_filter (reasoning_span E) rows"

definition audit_span :: "env \<Rightarrow> json \<Rightarrow> span option" where
  "audit_span E entry = (case entry of
       JObj kvs \<Rightarrow> (case dict_get kvs ''audit_id'' of
           Some (JStr aid) \<Rightarrow>
             if aid = [] \<or> \<not> truthy_field kvs ''timestamp'' then None
             else Some \<lparr>sx_trace_id = aid, sx_span_id = aid, sx_parent = None,
               sx_name = (if truthy_field kvs ''action'' then field_text E kvs ''action'' else ''security-audit''),
               sx_kind = AuditSpan, sx_start = field_text E kvs ''timestamp'', sx_end = None,
               sx_status = audit_status (dict_get kvs ''decision''),
               sx_attributes = filter (\<lambda>(k, v). k \<notin> {''audit_id'', ''timestamp''}) kvs\<rparr>
         | _ \<Rightarrow> None)
     | _ \<Rightarrow> None)"

definition audit_spans_from_entries :: "env \<Rightarrow> json list \<Rightarrow> span list" where
  "audit_spans_from_entries E entries = List.map_filter (audit_span E) entries"

section \<open>The tracer\<close>

datatype row_reading = NoRows | UnreadableRows | Rows "json_obj list"

datatype audit_reading = NoAudit | UnreadableAudit | UndecodableAudit | AuditLines "json log_line list"

record trace_sources =
  ts_rows :: "world \<Rightarrow> row_reading"
  ts_audit :: "world \<Rightarrow> audit_reading"

definition is_object :: "json \<Rightarrow> bool" where
  "is_object j = (case j of JObj _ \<Rightarrow> True | _ \<Rightarrow> False)"

definition reasoning_spans :: "env \<Rightarrow> row_reading \<Rightarrow> span list" where
  "reasoning_spans E r = (case r of Rows rows \<Rightarrow> reasoning_spans_from_rows E rows | _ \<Rightarrow> [])"

text \<open>Only an operating system error is caught: bytes that are no UTF-8 raise a \<open>ValueError\<close>.\<close>

definition audit_spans :: "env \<Rightarrow> audit_reading \<Rightarrow> exn + span list" where
  "audit_spans E a = (case a of
       NoAudit \<Rightarrow> Inr []
     | UnreadableAudit \<Rightarrow> Inr []
     | UndecodableAudit \<Rightarrow> Inl (ValueError ''utf-8'')
     | AuditLines ls \<Rightarrow> Inr (audit_spans_from_entries E (filter is_object (good_lines ls))))"

definition trace_collect :: "env \<Rightarrow> trace_sources \<Rightarrow> (world, span list) prog" where
  "trace_collect E T = bindp (asks (\<lambda>w. reasoning_spans E (ts_rows T w))) (\<lambda>rs.
     bindp (\<lambda>w. (audit_spans E (ts_audit T w), w)) (\<lambda>as. ret (rs @ as)))"

definition sink_path :: "env \<Rightarrow> string" where
  "sink_path E = root_path E @ ''/.forge/traces/spans.jsonl''"

definition sink_write :: "env \<Rightarrow> span list \<Rightarrow> (world, unit) prog" where
  "sink_write E spans = bindp (uuid4 E) (\<lambda>_. write_file E (sink_path E) (\<lambda>w. w\<lparr>w_spans := Some spans\<rparr>))"

definition sink_read_all :: "(world, span list) prog" where
  "sink_read_all = asks (\<lambda>w. case w_spans w of None \<Rightarrow> [] | Some ss \<Rightarrow> ss)"

definition resolved_config :: "env \<Rightarrow> tracing_config option \<Rightarrow> (world, tracing_config) prog" where
  "resolved_config E injected = (case injected of Some c \<Rightarrow> ret c | None \<Rightarrow> load_tracing_config_from_project E)"

definition emit_spans :: "env \<Rightarrow> trace_sources \<Rightarrow> tracing_config option \<Rightarrow> (world, nat) prog" where
  "emit_spans E T injected = bindp (resolved_config E injected) (\<lambda>c.
     if \<not> tc_enabled c then ret 0
     else bindp (trace_collect E T) (\<lambda>spans. thenp (sink_write E spans) (ret (length spans))))"

section \<open>The index\<close>

definition span_key :: "span \<Rightarrow> string \<times> string" where
  "span_key s = (sx_start s, sx_span_id s)"

definition add_span :: "(string, span list) dict \<Rightarrow> span \<Rightarrow> (string, span list) dict" where
  "add_span d s = dict_set (sx_trace_id s)
     ((case dict_get d (sx_trace_id s) of None \<Rightarrow> [] | Some ss \<Rightarrow> ss) @ [s]) d"

definition trace_index :: "span list \<Rightarrow> (string, span list) dict" where
  "trace_index spans = map (\<lambda>(t, ss). (t, sort_key span_key ss)) (foldl add_span [] spans)"

definition trace_ids :: "(string, span list) dict \<Rightarrow> string list" where
  "trace_ids ix = map fst ix"

definition spans_for :: "(string, span list) dict \<Rightarrow> string \<Rightarrow> span list" where
  "spans_for ix t = (case dict_get ix t of None \<Rightarrow> [] | Some ss \<Rightarrow> ss)"

section \<open>The views (use_cases/observability.py)\<close>

record span_view =
  sv_trace_id :: string
  sv_span_id :: string
  sv_parent :: "string option"
  sv_name :: string
  sv_kind :: string
  sv_start :: string
  sv_end :: "string option"
  sv_status :: string
  sv_attributes :: json_obj

record trace_summary =
  tm_trace_id :: string
  tm_root_name :: string
  tm_span_count :: nat
  tm_kinds :: "string list"
  tm_start :: string
  tm_status :: string

record trace_detail =
  td_trace_id :: string
  td_found :: bool
  td_span_count :: nat
  td_kinds :: "string list"
  td_status :: string
  td_spans :: "span_view list"

primrec kind_text :: "span_kind \<Rightarrow> string" where
  "kind_text ReasoningSpan = ''reasoning''"
| "kind_text AuditSpan = ''audit''"

primrec status_text :: "span_status \<Rightarrow> string" where
  "status_text SpanUnset = ''unset''"
| "status_text SpanOk = ''ok''"
| "status_text SpanError = ''error''"

definition span_view_of :: "span \<Rightarrow> span_view" where
  "span_view_of s = \<lparr>sv_trace_id = sx_trace_id s, sv_span_id = sx_span_id s, sv_parent = sx_parent s, sv_name = sx_name s,
     sv_kind = kind_text (sx_kind s), sv_start = sx_start s, sv_end = sx_end s, sv_status = status_text (sx_status s),
     sv_attributes = sx_attributes s\<rparr>"

definition kinds_of :: "span list \<Rightarrow> string list" where
  "kinds_of spans = sorted_set (map (\<lambda>s. kind_text (sx_kind s)) spans)"

definition sort_instant :: "env \<Rightarrow> string \<Rightarrow> nat \<times> real" where
  "sort_instant E start_time = (case parse_time E (utc_suffix start_time) of None \<Rightarrow> (1, 0) | Some t \<Rightarrow> (0, t))"

definition rollup_status :: "span list \<Rightarrow> string" where
  "rollup_status spans = status_text (if SpanError \<in> sx_status ` set spans then SpanError
     else if SpanOk \<in> sx_status ` set spans then SpanOk else SpanUnset)"

definition summarize :: "string \<Rightarrow> span list \<Rightarrow> trace_summary" where
  "summarize t spans = \<lparr>tm_trace_id = t, tm_root_name = sx_name (hd spans), tm_span_count = length spans,
     tm_kinds = kinds_of spans, tm_start = sx_start (hd spans), tm_status = rollup_status spans\<rparr>"

definition list_traces :: "env \<Rightarrow> trace_sources \<Rightarrow> (world, trace_summary list) prog" where
  "list_traces E T = bindp (trace_collect E T) (\<lambda>spans. let ix = trace_index spans in
     ret (sort_key (\<lambda>m. (sort_instant E (tm_start m), tm_trace_id m))
       (map (\<lambda>t. summarize t (spans_for ix t)) (trace_ids ix))))"

definition get_trace :: "env \<Rightarrow> trace_sources \<Rightarrow> string \<Rightarrow> (world, trace_detail) prog" where
  "get_trace E T t = bindp (trace_collect E T) (\<lambda>all. let spans = spans_for (trace_index all) t in
     ret \<lparr>td_trace_id = t, td_found = (spans \<noteq> []), td_span_count = length spans, td_kinds = kinds_of spans,
       td_status = rollup_status spans, td_spans = map span_view_of spans\<rparr>)"

section \<open>Lemmas on the index\<close>

lemma spans_for_add: "spans_for (add_span d s) t = spans_for d t @ (if sx_trace_id s = t then [s] else [])"
  by (simp add: spans_for_def add_span_def)

lemma spans_for_fold: "spans_for (foldl add_span d ss) t = spans_for d t @ filter (\<lambda>s. sx_trace_id s = t) ss"
  by (induction ss arbitrary: d) (simp_all add: spans_for_add)

lemma trace_ids_fold: "map fst (foldl add_span d ss) = add_new (map fst d) (map sx_trace_id ss)"
  by (induction ss arbitrary: d) (simp_all add: add_span_def dict_set_def update_keys)

lemma dict_get_map_values: "dict_get (map (\<lambda>(t, x). (t, f x)) d) k = map_option f (dict_get d k)"
  by (induction d) (auto simp: dict_get_def)

lemma mset_groups:
  "distinct ts \<Longrightarrow> mset (concat (map (\<lambda>t. filter (\<lambda>x. f x = t) xs) ts)) = mset (filter (\<lambda>x. f x \<in> set ts) xs)"
proof (induction ts)
  case (Cons t ts)
  have "mset (filter (\<lambda>x. f x = t) xs) + mset (filter (\<lambda>x. f x \<in> set ts) xs) = mset (filter (\<lambda>x. f x = t \<or> f x \<in> set ts) xs)"
    using Cons.prems by (induction xs) auto
  with Cons show ?case by simp
qed simp

lemma spans_for_index: "spans_for (trace_index spans) t = sort_key span_key (filter (\<lambda>s. sx_trace_id s = t) spans)"
proof -
  have "spans_for (trace_index spans) t = sort_key span_key (spans_for (foldl add_span [] spans) t)"
    by (simp add: spans_for_def trace_index_def dict_get_map_values split: option.split)
  then show ?thesis by (simp add: spans_for_fold) (simp add: spans_for_def)
qed

lemma trace_ids_index: "trace_ids (trace_index spans) = add_new [] (map sx_trace_id spans)"
  using trace_ids_fold [of "[]" spans] by (simp add: trace_ids_def trace_index_def comp_def case_prod_beta)

section \<open>Lemmas on the projection\<close>

lemma resolved_config_pure: "resolved_config E injected w = (r, w') \<Longrightarrow> w' = w \<and> (\<exists>c. r = Inr c)"
proof (cases injected)
  case None
  assume "resolved_config E injected w = (r, w')"
  with None show ?thesis
    by (rule_tac load_config_cases [of E w])
      (auto simp: resolved_config_def load_tracing_config_from_project_def prog_simps)
qed (auto simp: resolved_config_def ret_run)

lemma trace_collect_run: "trace_collect E T w = (case audit_spans E (ts_audit T w) of
     Inl e \<Rightarrow> Inl e | Inr as \<Rightarrow> Inr (reasoning_spans E (ts_rows T w) @ as), w)"
  by (auto simp: trace_collect_def bindp_run asks_run ret_run split: sum.split)

text \<open>Collecting reads everything that can be read: lines that are no JSON, or no object, cost their
  own span and no other, and the only thing that stops it is an audit file that is no UTF-8.\<close>

lemma collect_is_tolerant:
  "(\<exists>spans. fst (trace_collect E T w) = Inr spans) \<longleftrightarrow> ts_audit T w \<noteq> UndecodableAudit"
  by (auto simp: trace_collect_run audit_spans_def split: audit_reading.splits)

lemma bad_lines_cost_nothing:
  "audit_spans E (AuditLines (ls @ BadLine m # ls')) = audit_spans E (AuditLines (ls @ ls'))"
  "audit_spans E (AuditLines (ls @ BlankLine # ls')) = audit_spans E (AuditLines (ls @ ls'))"
  by (simp_all add: audit_spans_def good_lines_append)

text \<open>What an audit entry of the enforcer becomes.\<close>

definition audit_json :: "audit_entry \<Rightarrow> json" where
  "audit_json e = JObj [(''schema_version'', JStr ''0.1.0''), (''audit_id'', JStr (ae_audit_id e)),
     (''timestamp'', JStr (ae_timestamp e)), (''actor'', JObj (ae_actor e)), (''action'', JStr (ae_action e)),
     (''target'', ae_target e), (''capability'', opt_str (ae_capability e)), (''decision'', JStr (decision_text (ae_decision e))),
     (''approval'', JNull), (''reason'', opt_str (ae_reason e)), (''redactions'', JArr [])]"

definition recorded_audit :: "world \<Rightarrow> audit_reading" where
  "recorded_audit w = (case w_audit w of None \<Rightarrow> NoAudit | Some es \<Rightarrow> AuditLines (map (GoodLine \<circ> audit_json) es))"

lemma audit_entry_span:
  assumes "ae_audit_id e \<noteq> []" and "ae_timestamp e \<noteq> []"
  shows "\<exists>s. audit_span E (audit_json e) = Some s \<and> sx_trace_id s = ae_audit_id e \<and> sx_start s = ae_timestamp e \<and>
    sx_name s = (if ae_action e = [] then ''security-audit'' else ae_action e) \<and>
    sx_status s = (if ae_decision e \<in> {DecDenied, DecFailed} then SpanError else SpanOk)"
  using assms
  by (cases "ae_decision e") (simp_all add: audit_json_def audit_span_def truthy_field_def field_text_def dict_get_def
      truthy_def py_str_def audit_status_def)

text \<open>A listed trace is one that can be looked up, and the two views agree on it.\<close>

lemma listed_traces_are_found:
  assumes "list_traces E T w = (Inr ms, w')" and "m \<in> set ms"
  shows "\<exists>d. get_trace E T (tm_trace_id m) w = (Inr d, w) \<and> td_found d \<and> td_span_count d = tm_span_count m \<and>
    td_kinds d = tm_kinds m \<and> td_status d = tm_status m"
proof -
  from assms obtain spans where c: "trace_collect E T w = (Inr spans, w)"
    by (auto simp: list_traces_def bindp_run trace_collect_run split: sum.splits)
  with assms obtain t where t: "t \<in> set (trace_ids (trace_index spans))" "m = summarize t (spans_for (trace_index spans) t)"
    by (auto simp: list_traces_def bindp_run ret_run Let_def)
  from t(1) have "filter (\<lambda>s. sx_trace_id s = t) spans \<noteq> []" by (auto simp: trace_ids_index filter_empty_conv)
  then have "spans_for (trace_index spans) t \<noteq> []" by (simp add: spans_for_index) (metis length_0_conv length_sort)
  with c t(2) show ?thesis by (simp add: get_trace_def bindp_run ret_run Let_def summarize_def)
qed

section \<open>Properties\<close>

text \<open>The index groups the spans and invents nothing. The traces are the trace ids in the order they
  are first seen, each once; the spans of a trace are exactly those that carry its id, ordered by
  start and identifier, ties in the order of the source; and over all traces every span occurs as
  often as it was given.\<close>

lemma trace_index_groups:
  "trace_ids (trace_index spans) = add_new [] (map sx_trace_id spans) \<and> distinct (trace_ids (trace_index spans)) \<and>
   (\<forall>t. spans_for (trace_index spans) t = sort_key span_key (filter (\<lambda>s. sx_trace_id s = t) spans)) \<and>
   mset (concat (map (spans_for (trace_index spans)) (trace_ids (trace_index spans)))) = mset spans"
proof -
  let ?ids = "trace_ids (trace_index spans)"
  have d: "distinct ?ids" by (simp add: trace_ids_index distinct_add_new)
  have "mset (concat (map (spans_for (trace_index spans)) ts)) =
      mset (concat (map (\<lambda>t. filter (\<lambda>s. sx_trace_id s = t) spans) ts))" for ts
    by (induction ts) (simp_all add: spans_for_index)
  also have "mset (concat (map (\<lambda>t. filter (\<lambda>s. sx_trace_id s = t) spans) ?ids)) = mset (filter (\<lambda>s. sx_trace_id s \<in> set ?ids) spans)"
    by (rule mset_groups [OF d])
  also have "filter (\<lambda>s. sx_trace_id s \<in> set ?ids) spans = spans"
    by (simp add: trace_ids_index filter_id_conv)
  finally have "mset (concat (map (spans_for (trace_index spans)) ?ids)) = mset spans" .
  with d show ?thesis using trace_ids_index spans_for_index by blast
qed

text \<open>Emitting is off by default and idempotent. While tracing is disabled (or the configuration cannot
  be loaded) it writes nothing at all. Enabled, it replaces the sink by the projection of the two
  sources, and doing it again with the sources unchanged leaves the same spans and reports the same
  number, so nothing is ever duplicated.\<close>

lemma emit_projects_the_sources:
  assumes "\<And>w n k ss. ts_rows T (w\<lparr>w_writes := n, w_uuids := k, w_spans := ss\<rparr>) = ts_rows T w"
    and "\<And>w n k ss. ts_audit T (w\<lparr>w_writes := n, w_uuids := k, w_spans := ss\<rparr>) = ts_audit T w"
    and "emit_spans E T injected w = (Inr n, w')"
  shows "\<exists>c. resolved_config E injected w = (Inr c, w) \<and> (\<not> tc_enabled c \<longrightarrow> n = 0 \<and> w' = w) \<and>
    (tc_enabled c \<longrightarrow> (\<exists>spans. trace_collect E T w = (Inr spans, w) \<and> w_spans w' = Some spans \<and> n = length spans \<and>
      (\<forall>m w''. emit_spans E T injected w' = (Inr m, w'') \<longrightarrow> m = n \<and> w_spans w'' = w_spans w')))"
proof -
  obtain r where "resolved_config E injected w = (r, w)" "\<exists>c. r = Inr c"
    using resolved_config_pure [of E injected w] by (metis prod.collapse)
  then obtain c where c: "resolved_config E injected w = (Inr c, w)" by auto
  show ?thesis
  proof (cases "tc_enabled c")
    case False
    with assms(3) c show ?thesis by (auto simp: emit_spans_def bindp_run ret_run)
  next
    case True
    with assms(3) c obtain spans where sp: "trace_collect E T w = (Inr spans, w)"
      by (auto simp: emit_spans_def bindp_run trace_collect_run split: sum.splits)
    let ?v = "w\<lparr>w_writes := Suc (w_writes w), w_uuids := Suc (w_uuids w), w_spans := Some spans\<rparr>"
    from assms(3) c True sp have v: "w' = ?v" "n = length spans"
      by (auto simp: emit_spans_def bindp_run thenp_run ret_run sink_write_def env_reads write_file_run split: if_splits)
    have "trace_collect E T ?v = (Inr spans, ?v)"
      using sp assms(1,2) by (auto simp: trace_collect_run split: sum.splits)
    moreover have "resolved_config E injected ?v = (Inr c, ?v)"
    proof -
      have "fst (load_config E ?v) = fst (load_config E w)" by (simp add: load_config_def)
      with c resolved_config_pure [of E injected ?v] show ?thesis
        by (cases injected) (auto simp: resolved_config_def ret_run load_tracing_config_from_project_def catchp_run bindp_run
            load_config_def throw_run split: sum.splits doc_file.splits exn.splits)
    qed
    ultimately have "m = n \<and> w_spans w'' = w_spans w'" if "emit_spans E T injected w' = (Inr m, w'')" for m w''
      using that True v
      by (auto simp: emit_spans_def bindp_run thenp_run ret_run sink_write_def env_reads write_file_run split: if_splits)
    with c True sp v show ?thesis by auto
  qed
qed

definition demo_sources :: trace_sources where
  "demo_sources = \<lparr>ts_rows = (\<lambda>_. NoRows), ts_audit = recorded_audit\<rparr>"

definition demo_audited :: world where
  "demo_audited = empty_world\<lparr>w_audit := Some [\<lparr>ae_audit_id = ''a1'', ae_timestamp = ''t'', ae_actor = [], ae_action = ''x'',
     ae_target = JNull, ae_capability = None, ae_decision = DecDenied, ae_reason = None\<rparr>]\<rparr>"

lemma demo_emit: "\<exists>w'. emit_spans demo_env demo_sources (Some (tracing_off\<lparr>tc_enabled := True\<rparr>)) demo_audited = (Inr 1, w')"
  by (simp add: emit_spans_def resolved_config_def ret_run bindp_run trace_collect_run demo_sources_def recorded_audit_def
      demo_audited_def audit_json_def audit_spans_def audit_spans_from_entries_def reasoning_spans_def is_object_def
      audit_span_def dict_get_def truthy_field_def truthy_def sink_write_def env_reads thenp_run write_file_ok)

lemma emit_projects_the_sources_witness:
  "\<exists>w' s. emit_spans demo_env demo_sources (Some (tracing_off\<lparr>tc_enabled := True\<rparr>)) demo_audited = (Inr 1, w') \<and>
     w_spans w' = Some [s]"
proof -
  obtain w' where run: "emit_spans demo_env demo_sources (Some (tracing_off\<lparr>tc_enabled := True\<rparr>)) demo_audited = (Inr 1, w')"
    using demo_emit by blast
  have "ts_rows demo_sources (w\<lparr>w_writes := n, w_uuids := k, w_spans := ss\<rparr>) = ts_rows demo_sources w"
    "ts_audit demo_sources (w\<lparr>w_writes := n, w_uuids := k, w_spans := ss\<rparr>) = ts_audit demo_sources w" for w n k ss
    by (simp_all add: demo_sources_def recorded_audit_def)
  from emit_projects_the_sources [OF this run] obtain spans where "w_spans w' = Some spans" "1 = length spans"
    by (auto simp: resolved_config_def ret_run)
  then have "\<exists>s. w_spans w' = Some [s]" by (cases spans) auto
  with run show ?thesis by blast
qed

end
