(* ===== verification/Adapters.thy ===== *)
theory Adapters imports Agents begin

text \<open>
  Inspecting and switching the kernels, \<open>use_cases/adapters.py\<close>: which adapters can be constructed, and
  enabling one or making it the default in \<open>config.yaml\<close>. \<open>reg\<close> is the registry of factories; what it
  does not hold is a placeholder.
\<close>

section \<open>Status\<close>

record adapter_status =
  as_adapter_id :: string
  as_implementation :: string
  as_enabled :: bool
  as_is_default :: bool
  as_available :: bool
  as_reason :: string
  as_capabilities :: "string list"

record adapter_mutation =
  am_adapter_id :: string
  am_enabled :: bool
  am_is_default :: bool
  am_available :: bool
  am_reason :: string
  am_changed :: bool

definition row_of :: "forge_config \<Rightarrow> string \<Rightarrow> json_obj" where
  "row_of c aid = (case dict_get (cf_adapters c) aid of Some opts \<Rightarrow> opts | None \<Rightarrow> [])"

definition row_enabled :: "string \<Rightarrow> json_obj \<Rightarrow> bool" where
  "row_enabled aid opts = (case dict_get opts ''enabled'' of Some v \<Rightarrow> truthy v | None \<Rightarrow> aid = ''dummy'')"

definition probe_adapter :: "adapter_registry \<Rightarrow> string \<Rightarrow> json_obj \<Rightarrow> (world, bool \<times> string \<times> string list) prog" where
  "probe_adapter reg aid opts = catchp
     (bindp (create_adapter reg aid opts) (\<lambda>a.
        ret (if dict_get reg aid = None then (False, ''not implemented'', []) else (True, [], sorted_set (ka_capabilities a)))))
     (\<lambda>e. ret (False, exn_message e, []))"

definition adapter_status_of :: "adapter_registry \<Rightarrow> forge_config \<Rightarrow> string \<Rightarrow> (world, adapter_status) prog" where
  "adapter_status_of reg c aid = bindp (probe_adapter reg aid (row_of c aid)) (\<lambda>(available, why, caps).
     ret \<lparr>as_adapter_id = aid, as_implementation = the (dict_get adapter_class_names aid),
       as_enabled = row_enabled aid (row_of c aid), as_is_default = (aid = cf_default_adapter c),
       as_available = available, as_reason = why, as_capabilities = caps\<rparr>)"

definition adapters_status :: "env \<Rightarrow> adapter_registry \<Rightarrow> (world, adapter_status list) prog" where
  "adapters_status E reg = bindp (load_config E) (\<lambda>c. mapp (adapter_status_of reg c) adapter_priority)"

section \<open>Switching\<close>

definition entry_of :: "forge_config \<Rightarrow> string \<Rightarrow> json_obj" where
  "entry_of c aid = (case dict_get (cf_adapters c) aid of Some opts \<Rightarrow> opts
     | None \<Rightarrow> [(''implementation'', JStr (the (dict_get adapter_class_names aid)))])"

definition switched :: "string \<Rightarrow> bool \<Rightarrow> bool \<Rightarrow> forge_config \<Rightarrow> forge_config" where
  "switched aid enabled make_default c = c\<lparr>
     cf_adapters := dict_set aid (dict_set ''enabled'' (JBool enabled) (entry_of c aid)) (cf_adapters c),
     cf_default_adapter := (if make_default then aid else cf_default_adapter c)\<rparr>"

definition cannot_disable :: "string \<Rightarrow> string" where
  "cannot_disable aid = ''Cannot disable `'' @ aid @ ''` while it is the default adapter. '' @
     ''Set another adapter as default first: `forge adapter enable <id> --default`.''"

definition set_enabled :: "env \<Rightarrow> adapter_registry \<Rightarrow> string \<Rightarrow> bool \<Rightarrow> bool \<Rightarrow> (world, adapter_mutation) prog" where
  "set_enabled E reg aid enabled0 make_default =
     (if aid \<notin> set adapter_priority
      then throw (AdapterRegistryError (''Unknown adapter `'' @ aid @ ''`. Known adapters: '' @
        join '', '' adapter_priority @ ''.''))
      else bindp (load_config E) (\<lambda>c.
        if \<not> enabled0 \<and> aid = cf_default_adapter c
        then throw (AdapterRegistryError (cannot_disable aid))
        else let enabled = (enabled0 \<or> make_default);
            was_enabled = row_enabled aid (entry_of c aid); was_default = (cf_default_adapter c = aid);
            changed = (was_enabled \<noteq> enabled \<or> make_default \<and> \<not> was_default) in
          bindp (lift_result (check_config_fields (switched aid enabled make_default c))) (\<lambda>v.
          thenp (whenp changed (save_config E v))
          (bindp (probe_adapter reg aid (row_of v aid)) (\<lambda>(available, why, caps).
             ret \<lparr>am_adapter_id = aid, am_enabled = enabled, am_is_default = (cf_default_adapter v = aid),
               am_available = available, am_reason = why, am_changed = changed\<rparr>)))))"

section \<open>Lemmas\<close>

lemma create_adapter_unchanged:
  assumes "\<And>aid factory opts. dict_get reg aid = Some factory \<Longrightarrow> unchanged f (factory opts)"
  shows "unchanged f (create_adapter reg aid opts)"
  using assms by (auto simp: create_adapter_def unchanged_def ret_run throw_run split: option.split)

lemma probe_total: "\<exists>x. fst (probe_adapter reg aid opts w) = Inr x"
  by (auto simp: probe_adapter_def catchp_run bindp_run ret_run split: sum.split prod.split)

lemma probe_unchanged:
  assumes "\<And>aid factory opts. dict_get reg aid = Some factory \<Longrightarrow> unchanged f (factory opts)"
  shows "unchanged f (probe_adapter reg aid opts)"
  unfolding probe_adapter_def
  by (intro unchanged_catchp unchanged_bindp create_adapter_unchanged assms unchanged_basic) auto

text \<open>A switch never touches another adapter's row, and the enabled default stays enabled.\<close>

lemma switched_rows:
  "row_of (switched aid enabled d c) aid' = (if aid' = aid then dict_set ''enabled'' (JBool enabled) (entry_of c aid)
     else row_of c aid')"
  by (simp add: row_of_def switched_def)

lemma switched_enabled: "row_enabled aid (row_of (switched aid enabled d c) aid) = enabled"
  by (simp add: switched_rows row_enabled_def truthy_def)

lemma entry_enabled: "row_enabled aid (entry_of c aid) = row_enabled aid (row_of c aid)"
  by (simp add: entry_of_def row_of_def row_enabled_def dict_get_def split: option.split)

lemma check_config_id: "check_config_fields c = Inr v \<Longrightarrow> v = c"
  by (auto simp: check_config_fields_def split: if_splits)

lemma load_config_Inr: "load_config E w = (Inr c, w) \<longleftrightarrow> w_config w = Doc c \<and> check_config_fields c = Inr c"
  by (auto simp: load_config_def dest: check_config_id split: doc_file.splits)

section \<open>Property\<close>

text \<open>Switching kernels changes exactly what was asked. When \<open>set_enabled\<close> returns, the configuration
  on disk loads, the adapter is enabled as asked (always, if it is made the default), it is the
  default if that was asked and the default is the old one otherwise, and every other adapter's row
  is as it was; if nothing had to change the file was not written. When it raises, the file is as
  it was. A default that was enabled before is followed by a default that is enabled.\<close>

lemma switching_kernels_is_exact:
  assumes "\<forall>a factory opts. dict_get reg a = Some factory \<longrightarrow> unchanged w_config (factory opts)"
    and "set_enabled E reg aid on make_default w = (r, w')"
  shows "(\<forall>e. r = Inl e \<longrightarrow> w_config w' = w_config w) \<and>
    (\<forall>m. r = Inr m \<longrightarrow> aid \<in> set adapter_priority \<and> (\<exists>c c'. w_config w = Doc c \<and> w_config w' = Doc c' \<and>
      load_config E w' = (Inr c', w') \<and> row_enabled aid (row_of c' aid) = (on \<or> make_default) \<and> am_enabled m = (on \<or> make_default) \<and>
      cf_default_adapter c' = (if make_default then aid else cf_default_adapter c) \<and>
      (\<forall>a. a \<noteq> aid \<longrightarrow> row_of c' a = row_of c a) \<and> (\<not> am_changed m \<longrightarrow> c' = c) \<and>
      (row_enabled (cf_default_adapter c) (row_of c (cf_default_adapter c)) \<longrightarrow>
        row_enabled (cf_default_adapter c') (row_of c' (cf_default_adapter c')))))"
proof (cases "aid \<in> set adapter_priority")
  case False
  with assms(2) show ?thesis by (auto simp: set_enabled_def throw_run)
next
  case known: True
  obtain r1 where l: "load_config E w = (r1, w)" by (simp add: load_config_def)
  show ?thesis
  proof (cases r1)
    case (Inl e)
    with known l assms(2) show ?thesis by (auto simp: set_enabled_def bindp_run)
  next
    case (Inr c)
    with l have c: "w_config w = Doc c" "check_config_fields c = Inr c" by (simp_all add: load_config_Inr)
    let ?on = "on \<or> make_default"
    let ?v = "switched aid ?on make_default c"
    let ?changed = "row_enabled aid (entry_of c aid) \<noteq> ?on \<or> make_default \<and> cf_default_adapter c \<noteq> aid"
    show ?thesis
    proof (cases "\<not> on \<and> aid = cf_default_adapter c \<or> (\<exists>e. check_config_fields ?v = Inl e)")
      case True
      with known l Inr assms(2) show ?thesis
        by (auto simp: set_enabled_def bindp_run throw_run lift_result_run Let_def split: if_splits)
    next
      case False
      then have v: "check_config_fields ?v = Inr ?v" by (cases "check_config_fields ?v") (auto dest: check_config_id)
      obtain r2 w2 where s: "whenp ?changed (save_config E ?v) w = (r2, w2)" by fastforce
      have rest: "r = Inl e \<and> w' = w2" if "r2 = Inl e" for e
        using that s known l Inr assms(2) False v by (auto simp: set_enabled_def bindp_run thenp_run lift_result_run Let_def)
      show ?thesis
      proof (cases r2)
        case (Inl e)
        with s have "w_config w2 = w_config w" by (auto simp: whenp_run save_config_def prog_simps split: if_splits exn.splits)
        with rest [OF Inl] show ?thesis by simp
      next
        case ok: (Inr u)
        from s ok c(1) have w2: "w_config w2 = (if ?changed then Doc ?v else Doc c)"
          by (auto simp: whenp_run ret_run save_config_def prog_simps split: if_splits exn.splits)
        obtain x w3 where p: "probe_adapter reg aid (row_of ?v aid) w2 = (Inr x, w3)"
          using probe_total [of reg aid "row_of ?v aid" w2] by (metis prod.collapse)
        have "unchanged w_config (probe_adapter reg aid (row_of ?v aid))"
          by (rule probe_unchanged) (rule assms(1) [rule_format])
        from unchanged_result [OF this p] have w3: "w_config w3 = w_config w2" .
        have m: "w' = w3 \<and> (\<exists>m. r = Inr m \<and> am_enabled m = ?on \<and> am_changed m = ?changed)"
          using s ok p known l Inr assms(2) False v
          by (cases x) (auto simp: set_enabled_def bindp_run thenp_run lift_result_run ret_run Let_def)
        define c' where "c' = (if ?changed then ?v else c)"
        have disk: "w_config w' = Doc c'" "load_config E w' = (Inr c', w')"
          using m w3 w2 v c(2) by (auto simp: c'_def load_config_Inr)
        have e: "row_enabled aid (row_of c' aid) = ?on"
          by (auto simp: c'_def switched_enabled entry_enabled)
        have d: "cf_default_adapter c' = (if make_default then aid else cf_default_adapter c)"
          by (auto simp: c'_def switched_def)
        have o: "row_of c' a = row_of c a" if "a \<noteq> aid" for a
          using that by (auto simp: c'_def switched_rows)
        have "row_enabled (cf_default_adapter c') (row_of c' (cf_default_adapter c'))"
          if "row_enabled (cf_default_adapter c) (row_of c (cf_default_adapter c))"
          using that e d o False by (cases "cf_default_adapter c' = aid") (auto split: if_splits)
        with m known c(1) disk e d o show ?thesis by (auto simp: c'_def)
      qed
    qed
  qed
qed

definition demo_kernels :: forge_config where
  "demo_kernels = \<lparr>cf_schema_version = ''0.1'', cf_project = \<lparr>pc_name = ''p'', pc_root_policy = ''project_only''\<rparr>,
     cf_profile = ''minimal'', cf_default_adapter = ''dummy'', cf_adapters = [(''dummy'', [(''enabled'', JBool True)])],
     cf_security = \<lparr>sc_profile = ''baseline''\<rparr>, cf_hooks = \<lparr>hc_enabled = False\<rparr>, cf_features = []\<rparr>"

lemma switching_kernels_is_exact_witness:
  "\<exists>m w'. set_enabled demo_env [(''dummy'', dummy_factory demo_env 0)] ''human'' False True (empty_world\<lparr>w_config := Doc demo_kernels\<rparr>) = (Inr m, w') \<and>
     (\<exists>c'. w_config w' = Doc c' \<and> cf_default_adapter c' = ''human'' \<and> row_enabled ''human'' (row_of c' ''human'') \<and>
       row_of c' ''dummy'' = [(''enabled'', JBool True)])"
proof -
  let ?reg = "[(''dummy'', dummy_factory demo_env 0)]" and ?w = "empty_world\<lparr>w_config := Doc demo_kernels\<rparr>"
  have f: "\<forall>a factory opts. dict_get ?reg a = Some factory \<longrightarrow> unchanged w_config (factory opts)"
    by (auto simp: dict_get_def dummy_factory_def unchanged_def ret_run split: if_splits)
  have "strip ''0.1'' \<noteq> []" "strip ''dummy'' \<noteq> []" "strip ''human'' \<noteq> []" by code_simp+
  then have c: "check_config_fields demo_kernels = Inr demo_kernels"
    "check_config_fields (switched ''human'' True True demo_kernels) = Inr (switched ''human'' True True demo_kernels)"
    by (simp_all add: check_config_fields_def demo_kernels_def switched_def)
  have k: "''human'' \<in> set adapter_priority" "cf_default_adapter demo_kernels = ''dummy''"
    by (simp_all add: adapter_priority_def demo_kernels_def)
  have l: "load_config demo_env ?w = (Inr demo_kernels, ?w)" using c(1) by (simp add: load_config_Inr)
  obtain m w' where run: "set_enabled demo_env ?reg ''human'' False True ?w = (Inr m, w')"
  proof -
    obtain x v where p: "probe_adapter ?reg ''human'' (row_of (switched ''human'' True True demo_kernels) ''human'')
        (?w\<lparr>w_writes := Suc (w_writes ?w), w_config := Doc (switched ''human'' True True demo_kernels)\<rparr>) = (Inr x, v)"
      by (metis probe_total prod.collapse)
    then show thesis
      using that c k by (cases x) (auto simp: set_enabled_def bindp_run thenp_run l lift_result_run whenp_def Let_def ret_run
          save_config_def catchp_run write_file_ok)
  qed
  from switching_kernels_is_exact [OF f run] have
    "\<exists>c'. w_config w' = Doc c' \<and> row_enabled ''human'' (row_of c' ''human'') \<and> cf_default_adapter c' = ''human'' \<and>
      row_of c' ''dummy'' = row_of demo_kernels ''dummy''" by auto
  with run show ?thesis by (auto simp: row_of_def demo_kernels_def dict_get_def)
qed

end
