(* ===== verification/Doctor.thy ===== *)
theory Doctor imports Adapters Security begin

text \<open>
  The environment diagnosis and its guarded repair: \<open>health/doctor.py\<close>, \<open>health/remediation.py\<close> and
  \<open>use_cases/doctor.py\<close> over \<open>schemas/doctor.py\<close>. \<open>H\<close> is what the installation shows when it is asked, a
  function of the world since a repair may change it; \<open>sp\<close> runs a command. The doctor is asked about
  the root of the model's project, and no directory above that is a project.
\<close>

section \<open>Reports (schemas/doctor.py)\<close>

datatype doctor_status = DocPass | DocWarn | DocFail | DocInfo

record doctor_check =
  dk_name :: string
  dk_status :: doctor_status
  dk_detail :: string
  dk_remedy :: "string option"

definition report_ok :: "doctor_check list \<Rightarrow> bool" where
  "report_ok checks \<longleftrightarrow> \<not> list_ex (\<lambda>k. dk_status k = DocFail) checks"

definition report_counts :: "doctor_check list \<Rightarrow> (string \<times> nat) list" where
  "report_counts checks = map (\<lambda>(n, s). (n, length (filter (\<lambda>k. dk_status k = s) checks)))
     [(''pass'', DocPass), (''warn'', DocWarn), (''fail'', DocFail), (''info'', DocInfo)]"

datatype remediation_kind = CreateVenv | InstallDeps | InitProject | RebuildConfig

datatype remediation_outcome = FixApplied | FixFailed | FixSkipped | FixBlocked

record remediation_action =
  ra_kind :: remediation_kind
  ra_check_name :: string
  ra_description :: string
  ra_command :: "string option"
  ra_requires_force :: bool

record remediation_result =
  rr_action :: remediation_action
  rr_outcome :: remediation_outcome
  rr_detail :: string
  rr_recheck :: "doctor_status option"

record fix_report =
  fr_dry_run :: bool
  fr_planned :: "remediation_action list"
  fr_results :: "remediation_result list"
  fr_refused :: bool
  fr_refusal_reason :: "string option"
  fr_final :: "doctor_check list option"

definition fix_applied_any :: "fix_report \<Rightarrow> bool" where
  "fix_applied_any f \<longleftrightarrow> list_ex (\<lambda>r. rr_outcome r = FixApplied) (fr_results f)"

definition fix_ok :: "fix_report \<Rightarrow> bool" where
  "fix_ok f \<longleftrightarrow> \<not> fr_refused f \<and> \<not> list_ex (\<lambda>r. rr_outcome r = FixFailed) (fr_results f)"

section \<open>The checks (health/doctor.py)\<close>

record host =
  ho_python :: "nat \<times> nat"
  ho_prefix :: string
  ho_base_prefix :: string
  ho_forge_version :: "string option"
  ho_has_module :: "string \<Rightarrow> bool"
  ho_executable :: string
  ho_forge_dir :: bool
  ho_forge_writable :: bool

definition check_python_runtime :: "host \<Rightarrow> doctor_check" where
  "check_python_runtime h = (let rendered = show_nat (fst (ho_python h)) @ ''.'' @ show_nat (snd (ho_python h)) in
     if ho_python h < (3, 11)
     then \<lparr>dk_name = ''Python runtime'', dk_status = DocFail, dk_detail = ''Python '' @ rendered @ '' is below the required 3.11'',
       dk_remedy = Some ''Use Python 3.11+''\<rparr>
     else \<lparr>dk_name = ''Python runtime'', dk_status = DocPass, dk_detail = ''Python '' @ rendered, dk_remedy = None\<rparr>)"

definition check_virtualenv :: "host \<Rightarrow> doctor_check" where
  "check_virtualenv h = (if ho_prefix h \<noteq> ho_base_prefix h
     then \<lparr>dk_name = ''Virtualenv'', dk_status = DocPass, dk_detail = ''active ('' @ ho_prefix h @ '')'', dk_remedy = None\<rparr>
     else \<lparr>dk_name = ''Virtualenv'', dk_status = DocWarn, dk_detail = ''not running inside a virtualenv'',
       dk_remedy = Some ''Activate a virtualenv (e.g. `.venv`)''\<rparr>)"

definition check_forge_install :: "host \<Rightarrow> doctor_check" where
  "check_forge_install h = (case ho_forge_version h of
       None \<Rightarrow> \<lparr>dk_name = ''forge-os install'', dk_status = DocFail,
         dk_detail = ''forge-os is not installed in this environment'', dk_remedy = Some ''`pip install -e .`''\<rparr>
     | Some v \<Rightarrow> \<lparr>dk_name = ''forge-os install'', dk_status = DocPass, dk_detail = ''forge-os '' @ v, dk_remedy = None\<rparr>)"

definition core_dependencies :: "string list" where
  "core_dependencies = [''pydantic'', ''yaml'', ''typer'', ''rich'']"

definition check_core_dependencies :: "host \<Rightarrow> doctor_check" where
  "check_core_dependencies h = (let missing = filter (\<lambda>m. \<not> ho_has_module h m) core_dependencies in
     if missing \<noteq> []
     then \<lparr>dk_name = ''Core dependencies'', dk_status = DocFail, dk_detail = ''missing: '' @ join '', '' missing,
       dk_remedy = Some ''`pip install -e .[dev]`''\<rparr>
     else \<lparr>dk_name = ''Core dependencies'', dk_status = DocPass,
       dk_detail = ''all present ('' @ join '', '' core_dependencies @ '')'', dk_remedy = None\<rparr>)"

definition install_checks :: "host \<Rightarrow> doctor_check list" where
  "install_checks h = [check_python_runtime h, check_virtualenv h, check_forge_install h, check_core_dependencies h]"

definition head_line :: "string \<Rightarrow> exn + string" where
  "head_line s = (case splitlines s of [] \<Rightarrow> Inl (OtherException ''list index out of range'') | l # _ \<Rightarrow> Inr l)"

definition check_config_valid :: "env \<Rightarrow> (world, doctor_check) prog" where
  "check_config_valid E = catchp
     (bindp (load_config E) (\<lambda>_. ret \<lparr>dk_name = ''Config validity'', dk_status = DocPass,
        dk_detail = ''config.yaml loaded and validated'', dk_remedy = None\<rparr>))
     (\<lambda>e. case e of
         ConfigError m \<Rightarrow> bindp (lift_result (head_line m)) (\<lambda>l. ret \<lparr>dk_name = ''Config validity'', dk_status = DocFail,
           dk_detail = l, dk_remedy = Some (''Fix '' @ config_path E)\<rparr>)
       | _ \<Rightarrow> throw e)"

definition check_forge_writable :: "env \<Rightarrow> host \<Rightarrow> doctor_check" where
  "check_forge_writable E h = (if ho_forge_writable h
     then \<lparr>dk_name = ''.forge writable'', dk_status = DocPass, dk_detail = root_path E @ ''/.forge is writable'', dk_remedy = None\<rparr>
     else \<lparr>dk_name = ''.forge writable'', dk_status = DocFail, dk_detail = root_path E @ ''/.forge is not writable'',
       dk_remedy = Some ''Check directory permissions''\<rparr>)"

section \<open>The report (use_cases/doctor.py, project/detect.py)\<close>

definition is_forge_project :: "world \<Rightarrow> bool" where
  "is_forge_project w \<longleftrightarrow> file_exists (w_config w) \<and> file_exists (w_state w)"

definition find_project_root :: "(string \<Rightarrow> bool) \<Rightarrow> string list \<Rightarrow> exn + string" where
  "find_project_root is_project candidates = (case List.find is_project candidates of
       Some d \<Rightarrow> Inr d
     | None \<Rightarrow> Inl (ProjectNotFoundError ''No Forge project found. Run `forge init` first.''))"

definition detect_root :: "env \<Rightarrow> world \<Rightarrow> string option" where
  "detect_root E w = (case find_project_root (\<lambda>_. is_forge_project w) [root_path E] of Inr d \<Rightarrow> Some d | Inl _ \<Rightarrow> None)"

definition adapter_detail :: "adapter_status list \<Rightarrow> string" where
  "adapter_detail statuses = (let available = map as_adapter_id (filter as_available statuses);
       unavailable = map (\<lambda>s. as_adapter_id s @ '' ('' @ as_reason s @ '')'') (filter (\<lambda>s. \<not> as_available s) statuses) in
     show_nat (length available) @ '' available: '' @ (if available = [] then ''none'' else join '', '' available) @
     (if unavailable = [] then [] else ''; '' @ show_nat (length unavailable) @ '' unavailable: '' @ join '', '' unavailable))"

definition adapter_check :: "env \<Rightarrow> adapter_registry \<Rightarrow> (world, doctor_check) prog" where
  "adapter_check E reg = (let info = (\<lambda>d. \<lparr>dk_name = ''Adapters'', dk_status = DocInfo, dk_detail = d, dk_remedy = None\<rparr>) in
     catchp (bindp (adapters_status E reg) (\<lambda>ss. ret (info (adapter_detail ss))))
       (\<lambda>e. bindp (lift_result (head_line (''skipped -- '' @ exn_message e))) (\<lambda>l. ret (info l))))"

definition no_project_check :: doctor_check where
  "no_project_check = \<lparr>dk_name = ''Forge project'', dk_status = DocInfo, dk_detail = ''skipped -- not in a Forge project'',
     dk_remedy = Some ''`forge init` to create one''\<rparr>"

definition doctor_run :: "env \<Rightarrow> (world \<Rightarrow> host) \<Rightarrow> adapter_registry \<Rightarrow> (world, doctor_check list) prog" where
  "doctor_run E H reg = bindp (asks H) (\<lambda>h. bindp (asks (detect_root E)) (\<lambda>found. case found of
       None \<Rightarrow> ret (install_checks h @ [no_project_check])
     | Some root_dir \<Rightarrow> bindp (check_config_valid E) (\<lambda>c. bindp (asks H) (\<lambda>h2. bindp (adapter_check E reg) (\<lambda>a.
         ret (install_checks h @ [\<lparr>dk_name = ''Forge project'', dk_status = DocPass, dk_detail = ''detected at '' @ root_dir,
           dk_remedy = None\<rparr>, c, check_forge_writable E h2, a]))))))"

section \<open>The plan (health/remediation.py)\<close>

definition check_named :: "doctor_check list \<Rightarrow> string \<Rightarrow> doctor_check option" where
  "check_named checks n = List.find (\<lambda>k. dk_name k = n) (rev checks)"

definition has_status :: "doctor_check list \<Rightarrow> string \<Rightarrow> doctor_status \<Rightarrow> bool" where
  "has_status checks n s \<longleftrightarrow> (case check_named checks n of Some k \<Rightarrow> dk_status k = s | None \<Rightarrow> False)"

definition build_remediation_plan :: "env \<Rightarrow> host \<Rightarrow> doctor_check list \<Rightarrow> remediation_action list" where
  "build_remediation_plan E h checks = (let interpreter = base_name (ho_executable h) in
     (if has_status checks ''Virtualenv'' DocWarn then [\<lparr>ra_kind = CreateVenv, ra_check_name = ''Virtualenv'',
        ra_description = ''Create a virtualenv at '' @ root_path E @ ''/.venv'',
        ra_command = Some (interpreter @ '' -m venv .venv''), ra_requires_force = False\<rparr>] else []) @
     (if has_status checks ''Core dependencies'' DocFail \<or> has_status checks ''forge-os install'' DocFail
      then [\<lparr>ra_kind = InstallDeps, ra_check_name = ''Core dependencies'',
        ra_description = ''Install the project and its dependencies'',
        ra_command = Some (interpreter @ '' -m pip install -e '' @ [CHR 0x27] @ ''.[dev]'' @ [CHR 0x27]), ra_requires_force = False\<rparr>] else []) @
     (if has_status checks ''Forge project'' DocInfo then [\<lparr>ra_kind = InitProject, ra_check_name = ''Forge project'',
        ra_description = ''Initialize a Forge project at '' @ root_path E, ra_command = None,
        ra_requires_force = ho_forge_dir h\<rparr>] else []) @
     (if has_status checks ''Config validity'' DocFail then [\<lparr>ra_kind = RebuildConfig, ra_check_name = ''Config validity'',
        ra_description = ''Rebuild .forge/config.yaml from defaults (backs up the invalid file)'',
        ra_command = None, ra_requires_force = False\<rparr>] else []))"

section \<open>The repairs (health/remediation.py)\<close>

record runner =
  rn_create_venv :: "(world, bool \<times> string) prog"
  rn_install_deps :: "(world, bool \<times> string) prog"
  rn_init_project :: "bool \<Rightarrow> (world, bool \<times> string) prog"
  rn_rebuild_config :: "(world, bool \<times> string) prog"

type_synonym shell = "string list \<Rightarrow> (world, int \<times> string \<times> string) prog"

definition run_fix_command :: "shell \<Rightarrow> string list \<Rightarrow> (world, bool \<times> string) prog" where
  "run_fix_command sp cmd = (let quoted = ''`'' @ join '' '' cmd @ ''`'' in catchp
     (bindp (sp cmd) (\<lambda>(code, out, err). ret (if code = 0 then (True, quoted @ '' succeeded'')
        else let tail = splitlines (strip (if err \<noteq> [] then err else out)) in
          (False, quoted @ '' failed: '' @ (if tail = [] then ''exit '' @ show_int code else last tail)))))
     (\<lambda>e. case e of OSError m \<Rightarrow> ret (False, ''could not run '' @ hd cmd @ '': '' @ m) | _ \<Rightarrow> throw e))"

text \<open>The first free backup name: \<open>.bak\<close> (0), \<open>.bak.1\<close>, \<open>.bak.2\<close>, and so on.\<close>

function free_suffix :: "nat list \<Rightarrow> nat \<Rightarrow> nat" where
  "free_suffix used n = (if n \<in> set used then free_suffix used (Suc n) else n)"
  by auto

termination
proof (relation "measure (\<lambda>(used, n). card (set used - {..<n}))")
  fix used :: "nat list" and n
  assume "n \<in> set used"
  then have "set used - {..<Suc n} \<subset> set used - {..<n}" by auto
  then show "((used, Suc n), (used, n)) \<in> measure (\<lambda>(used, n). card (set used - {..<n}))"
    by (auto intro!: psubset_card_mono)
qed simp

declare free_suffix.simps [simp del]

definition backup_name :: "nat \<Rightarrow> string" where
  "backup_name n = (if n = 0 then ''config.yaml.bak'' else ''config.yaml.bak.'' @ show_nat n)"

definition audit_config_rewrite :: "env \<Rightarrow> (world, unit) prog" where
  "audit_config_rewrite E = bindp (epoch_ms E) (\<lambda>ms. bindp (iso_now E) (\<lambda>t. audit_log E
     \<lparr>ae_audit_id = ''AUD-'' @ show_int ms, ae_timestamp = t, ae_actor = [(''type'', JStr ''doctor_autofix'')],
      ae_action = ''doctor_autofix_config_rewrite'', ae_target = JStr (config_path E), ae_capability = None,
      ae_decision = DecAllowed, ae_reason = Some ''rebuilt invalid config.yaml from defaults''\<rparr>))"

definition move_config_aside :: "env \<Rightarrow> nat \<Rightarrow> (world, unit) prog" where
  "move_config_aside E n = bindp (asks (\<lambda>w. file_exists (w_config w))) (\<lambda>present. whenp present
     (write_file E (config_path E) (\<lambda>w. w\<lparr>w_backups := (n, w_config w) # w_backups w, w_config := Absent\<rparr>)))"

definition write_default_config :: "env \<Rightarrow> (world, unit) prog" where
  "write_default_config E = bindp (lift_result (build_config (base_name (root_path E)) ''minimal'' ''dummy'' []))
     (\<lambda>c. write_file E (config_path E) (\<lambda>w. w\<lparr>w_config := Doc c\<rparr>))"

definition rebuild_config :: "env \<Rightarrow> (world, bool \<times> string) prog" where
  "rebuild_config E = thenp (write_file E (root_path E @ ''/.forge'') (\<lambda>w. w))
     (bindp (asks (\<lambda>w. free_suffix (map fst (w_backups w)) 0)) (\<lambda>n.
      thenp (move_config_aside E n) (thenp (write_default_config E) (thenp (audit_config_rewrite E)
        (ret (True, ''rebuilt '' @ config_path E @ '' from defaults (backup at '' @ root_path E @ ''/.forge/'' @ backup_name n @ '')''))))))"

definition executor :: "env \<Rightarrow> (world \<Rightarrow> host) \<Rightarrow> shell \<Rightarrow> runner" where
  "executor E H sp = \<lparr>
     rn_create_venv = bindp (asks H) (\<lambda>h. run_fix_command sp [ho_executable h, ''-m'', ''venv'', root_path E @ ''/.venv'']),
     rn_install_deps = bindp (asks H) (\<lambda>h. run_fix_command sp [ho_executable h, ''-m'', ''pip'', ''install'', ''-e'', ''.[dev]'']),
     rn_init_project = (\<lambda>force. bindp (asks H) (\<lambda>h. catchp
       (bindp (initialize_project E (ho_forge_dir h) (base_name (root_path E)) ''minimal'' ''dummy'' [] force)
         (\<lambda>d. ret (True, ''initialized Forge project at '' @ d)))
       (\<lambda>e. case e of ProjectAlreadyInitializedError m \<Rightarrow> ret (False, m) | _ \<Rightarrow> throw e))),
     rn_rebuild_config = rebuild_config E\<rparr>"

section \<open>The guarded fix (use_cases/doctor.py)\<close>

definition run_action :: "runner \<Rightarrow> bool \<Rightarrow> remediation_action \<Rightarrow> (world, bool \<times> string) prog" where
  "run_action rn force a = (case ra_kind a of CreateVenv \<Rightarrow> rn_create_venv rn | InstallDeps \<Rightarrow> rn_install_deps rn
     | InitProject \<Rightarrow> rn_init_project rn force | RebuildConfig \<Rightarrow> rn_rebuild_config rn)"

definition recheck :: "env \<Rightarrow> (world \<Rightarrow> host) \<Rightarrow> remediation_action \<Rightarrow> (world, doctor_status) prog" where
  "recheck E H a = (case ra_kind a of
       InitProject \<Rightarrow> asks (\<lambda>w. if is_forge_project w then DocPass else DocFail)
     | CreateVenv \<Rightarrow> asks (\<lambda>w. if w_fs w ''.venv/pyvenv.cfg'' \<noteq> None then DocPass else DocFail)
     | InstallDeps \<Rightarrow> asks (\<lambda>w. dk_status (check_core_dependencies (H w)))
     | RebuildConfig \<Rightarrow> bindp (check_config_valid E) (\<lambda>k. ret (dk_status k)))"

definition approved :: "bool \<Rightarrow> (remediation_action \<Rightarrow> bool) option \<Rightarrow> remediation_action \<Rightarrow> bool" where
  "approved assume_yes confirm a \<longleftrightarrow> assume_yes \<or> (case confirm of Some g \<Rightarrow> g a | None \<Rightarrow> False)"

definition apply_action :: "env \<Rightarrow> (world \<Rightarrow> host) \<Rightarrow> runner \<Rightarrow> bool \<Rightarrow> bool \<Rightarrow> (remediation_action \<Rightarrow> bool) option
    \<Rightarrow> remediation_action \<Rightarrow> (world, remediation_result) prog" where
  "apply_action E H rn assume_yes force confirm a =
     (if ra_requires_force a \<and> \<not> force
      then ret \<lparr>rr_action = a, rr_outcome = FixBlocked,
        rr_detail = ''refusing to overwrite an existing .forge/ without --force'', rr_recheck = None\<rparr>
      else if \<not> approved assume_yes confirm a
      then ret \<lparr>rr_action = a, rr_outcome = FixSkipped, rr_detail = ''declined by operator'', rr_recheck = None\<rparr>
      else bindp (run_action rn force a) (\<lambda>(done_ok, detail).
        if \<not> done_ok then ret \<lparr>rr_action = a, rr_outcome = FixFailed, rr_detail = detail, rr_recheck = None\<rparr>
        else bindp (recheck E H a) (\<lambda>s. ret \<lparr>rr_action = a, rr_outcome = (if s = DocFail then FixFailed else FixApplied),
          rr_detail = detail, rr_recheck = Some s\<rparr>)))"

definition fix_environment :: "env \<Rightarrow> (world \<Rightarrow> host) \<Rightarrow> adapter_registry \<Rightarrow> runner \<Rightarrow> bool \<Rightarrow> bool \<Rightarrow> bool \<Rightarrow> bool
    \<Rightarrow> (remediation_action \<Rightarrow> bool) option \<Rightarrow> (world, fix_report) prog" where
  "fix_environment E H reg rn dry_run assume_yes force interactive confirm =
     bindp (doctor_run E H reg) (\<lambda>report. bindp (asks H) (\<lambda>h.
     let plan = build_remediation_plan E h report;
         base = \<lparr>fr_dry_run = dry_run, fr_planned = plan, fr_results = [], fr_refused = False,
           fr_refusal_reason = None, fr_final = None\<rparr> in
     if dry_run then ret base
     else if plan = [] then ret (base\<lparr>fr_final := Some report\<rparr>)
     else if \<not> interactive \<and> \<not> assume_yes
     then ret (base\<lparr>fr_refused := True,
       fr_refusal_reason := Some ''non-interactive environment -- re-run with --yes to apply fixes''\<rparr>)
     else bindp (mapp (apply_action E H rn assume_yes force confirm) plan) (\<lambda>results.
       bindp (doctor_run E H reg) (\<lambda>final. ret (base\<lparr>fr_results := results, fr_final := Some final\<rparr>)))))"

section \<open>Lemmas\<close>

lemma thenp_InrE:
  assumes "thenp m n w = (Inr x, w')"
  obtains u w1 where "m w = (Inr u, w1)" "n w1 = (Inr x, w')"
  using assms by (auto simp: thenp_run split: prod.splits sum.splits)

lemma write_file_InrE:
  assumes "write_file E path put w = (Inr u, w')"
  obtains "w' = put (w\<lparr>w_writes := Suc (w_writes w)\<rparr>)"
  using assms by (auto simp: write_file_run split: if_splits)

lemma splitlines_nonempty: "s \<noteq> [] \<Longrightarrow> splitlines s \<noteq> []"
proof -
  have "cur \<noteq> [] \<or> t \<noteq> [] \<Longrightarrow> lines_from cur t \<noteq> []" for cur t
    by (induction cur t rule: lines_from.induct) auto
  then show "s \<noteq> [] \<Longrightarrow> splitlines s \<noteq> []" by (simp add: splitlines_def)
qed

lemma head_line_ok: "s \<noteq> [] \<Longrightarrow> \<exists>l. head_line s = Inr l"
  using splitlines_nonempty by (auto simp: head_line_def split: list.split)

lemma free_suffix_free: "free_suffix used n \<notin> set used \<and> n \<le> free_suffix used n \<and> (\<forall>k. n \<le> k \<and> k < free_suffix used n \<longrightarrow> k \<in> set used)"
proof (induction used n rule: free_suffix.induct)
  case (1 used n)
  show ?case
  proof (cases "n \<in> set used")
    case True
    then have e: "free_suffix used n = free_suffix used (Suc n)" by (subst free_suffix.simps) simp
    from 1 True have ih: "free_suffix used (Suc n) \<notin> set used" "Suc n \<le> free_suffix used (Suc n)"
      "\<forall>k. Suc n \<le> k \<and> k < free_suffix used (Suc n) \<longrightarrow> k \<in> set used" by blast+
    have "k \<in> set used" if "n \<le> k" "k < free_suffix used (Suc n)" for k
      using that True ih(3) by (cases "k = n") auto
    with e ih show ?thesis by simp
  next
    case False
    then show ?thesis by (subst (1 2 3) free_suffix.simps) auto
  qed
qed

lemma check_config_valid_pure: "snd (check_config_valid E w) = w"
  by (rule load_config_cases [of E w])
    (auto simp: check_config_valid_def catchp_run bindp_run ret_run throw_run lift_result_run split: sum.split)

lemma adapters_status_unchanged:
  assumes "\<forall>a factory opts. dict_get reg a = Some factory \<longrightarrow> unchanged f (factory opts)"
  shows "unchanged f (adapters_status E reg)"
  unfolding adapters_status_def adapter_status_of_def
  by (intro unchanged_bindp load_config_unchanged unchanged_mapp probe_unchanged)
    (use assms in \<open>auto simp: unchanged_def ret_run split: prod.split\<close>)

lemma adapter_check_total: "\<exists>k. fst (adapter_check E reg w) = Inr k"
proof -
  obtain r w1 where "adapters_status E reg w = (r, w1)" by fastforce
  moreover have "\<exists>l. head_line (''skipped -- '' @ m) = Inr l" for m by (rule head_line_ok) simp
  ultimately show ?thesis
    by (cases r) (auto simp: adapter_check_def catchp_run bindp_run ret_run lift_result_run Let_def split: sum.split,
        metis Inl_Inr_False)
qed

lemma adapter_check_unchanged:
  assumes "\<forall>a factory opts. dict_get reg a = Some factory \<longrightarrow> unchanged f (factory opts)"
  shows "unchanged f (adapter_check E reg)"
  unfolding adapter_check_def Let_def
  by (intro unchanged_catchp unchanged_bindp adapters_status_unchanged [OF assms] unchanged_basic)

lemma doctor_run_unchanged:
  assumes "\<forall>a factory opts. dict_get reg a = Some factory \<longrightarrow> unchanged f (factory opts)"
  shows "unchanged f (doctor_run E H reg)"
proof -
  have "unchanged f (check_config_valid E)" by (simp add: unchanged_def check_config_valid_pure)
  then show ?thesis
    unfolding doctor_run_def
    by (intro unchanged_bindp unchanged_case_option unchanged_basic adapter_check_unchanged [OF assms])
qed

lemma apply_action_result:
  assumes "apply_action E H rn assume_yes force confirm a v = (Inr x, v')"
  shows "rr_action x = a" "rr_outcome x = FixBlocked \<longleftrightarrow> ra_requires_force a \<and> \<not> force"
    "rr_outcome x \<in> {FixApplied, FixFailed} \<Longrightarrow> approved assume_yes confirm a"
    "rr_outcome x = FixApplied \<Longrightarrow> rr_recheck x \<notin> {None, Some DocFail}"
    "\<not> approved assume_yes confirm a \<Longrightarrow> v' = v"
  using assms by (auto simp: apply_action_def bindp_run ret_run split: if_splits prod.splits sum.splits)

lemma apply_plan:
  assumes "mapp (apply_action E H rn assume_yes force confirm) as v = (Inr xs, v')"
  shows "map rr_action xs = as \<and> (\<forall>x\<in>set xs. \<exists>u u'. apply_action E H rn assume_yes force confirm (rr_action x) u = (Inr x, u')) \<and>
    ((\<forall>a\<in>set as. \<not> approved assume_yes confirm a) \<longrightarrow> v' = v)"
  using assms
proof (induction as arbitrary: xs v)
  case (Cons a as)
  then obtain x ys u where x: "apply_action E H rn assume_yes force confirm a v = (Inr x, u)"
    and ys: "mapp (apply_action E H rn assume_yes force confirm) as u = (Inr ys, v')" "xs = x # ys"
    by (auto simp: bindp_run ret_run split: prod.splits sum.splits)
  have "rr_action x = a" "\<not> approved assume_yes confirm a \<longrightarrow> u = v" using apply_action_result [OF x] by auto
  with Cons.IH [OF ys(1)] x ys(2) show ?case by auto
qed (simp add: ret_run)

section \<open>Properties\<close>

text \<open>The diagnosis raises in one case only. It reports every defect of the installation and of a
  configuration file the loader rejects, but a project whose configuration fails a validator of the
  schema (a blank \<open>schema_version\<close> or \<open>default_adapter\<close>) makes it raise that error instead.\<close>

lemma doctor_raises_only_for_schema_errors:
  assumes "w_config w \<noteq> BadShape []"
  shows "fst (doctor_run E H reg w) = Inl e \<longleftrightarrow>
    is_forge_project w \<and> (\<exists>m. e = SchemaConfigError m \<and> fst (load_config E w) = Inl (SchemaConfigError m))"
proof (cases "is_forge_project w")
  case False
  then show ?thesis by (simp add: doctor_run_def bindp_run asks_run ret_run detect_root_def find_project_root_def)
next
  case True
  obtain k w1 where a: "adapter_check E reg w = (Inr k, w1)"
    using adapter_check_total [of E reg w] by (metis prod.collapse)
  show ?thesis
  proof (rule load_config_cases [of E w])
    fix c assume "load_config E w = (Inr c, w)"
    with True a show ?thesis
      by (simp add: doctor_run_def bindp_run asks_run ret_run detect_root_def find_project_root_def check_config_valid_def catchp_run)
  next
    fix m assume l: "load_config E w = (Inl (ConfigError m), w)"
    have "m \<noteq> []"
      using l assms by (cases "w_config w") (auto simp: load_config_def check_config_fields_def split: if_splits)
    then obtain line where "head_line m = Inr line" using head_line_ok by blast
    with True a l show ?thesis
      by (simp add: doctor_run_def bindp_run asks_run ret_run detect_root_def find_project_root_def check_config_valid_def
          catchp_run lift_result_run)
  next
    fix m assume "load_config E w = (Inl (SchemaConfigError m), w)"
    with True show ?thesis
      by (auto simp: doctor_run_def bindp_run asks_run throw_run detect_root_def find_project_root_def check_config_valid_def catchp_run)
  qed
qed

definition demo_host :: host where
  "demo_host = \<lparr>ho_python = (3, 12), ho_prefix = ''/v'', ho_base_prefix = ''/usr'', ho_forge_version = Some ''1'',
     ho_has_module = (\<lambda>_. True), ho_executable = ''/v/bin/python'', ho_forge_dir = True, ho_forge_writable = True\<rparr>"

definition demo_blank_version :: world where
  "demo_blank_version = empty_world\<lparr>w_config := Doc (demo_kernels\<lparr>cf_schema_version := '' ''\<rparr>), w_state := BadSyntax\<rparr>"

lemma doctor_raises_only_for_schema_errors_witness:
  "\<exists>m. fst (doctor_run demo_env (\<lambda>_. demo_host) [] demo_blank_version) = Inl (SchemaConfigError m)"
proof -
  have "strip '' '' = []" by code_simp
  then have "\<exists>m. fst (load_config demo_env demo_blank_version) = Inl (SchemaConfigError m)"
    by (simp add: load_config_def demo_blank_version_def check_config_fields_def)
  moreover have "is_forge_project demo_blank_version"
    by (simp add: is_forge_project_def demo_blank_version_def file_exists_def)
  moreover have "w_config demo_blank_version \<noteq> BadShape []" by (simp add: demo_blank_version_def)
  ultimately show ?thesis using doctor_raises_only_for_schema_errors [of demo_blank_version] by blast
qed

text \<open>C26: The repair touches nothing unasked. The results are those of the planned actions, in order; an action was carried out only if it was approved (by \<open>--yes\<close> or by the operator) and, when it
  would overwrite an existing \<open>.forge\<close>, forced; and it counts as applied only if its check was done
  again and no longer fails. A dry run, a run without a terminal and without \<open>--yes\<close>, and a run in
  which every action is declined change nothing at all (nothing but what probing the adapters does).\<close>

theorem fix_changes_nothing_unasked:
  assumes "\<forall>a factory opts. dict_get reg a = Some factory \<longrightarrow> unchanged f (factory opts)"
    and "fix_environment E H reg rn dry_run assume_yes force interactive confirm w = (Inr rep, w')"
  shows "(\<forall>x\<in>set (fr_results rep). (rr_outcome x = FixBlocked \<longleftrightarrow> ra_requires_force (rr_action x) \<and> \<not> force) \<and>
      (rr_outcome x \<in> {FixApplied, FixFailed} \<longrightarrow> approved assume_yes confirm (rr_action x)) \<and>
      (rr_outcome x = FixApplied \<longrightarrow> rr_recheck x \<notin> {None, Some DocFail})) \<and>
    (fr_results rep = [] \<or> map rr_action (fr_results rep) = fr_planned rep) \<and>
    (dry_run \<or> \<not> interactive \<and> \<not> assume_yes \<longrightarrow> fr_results rep = [] \<and> f w' = f w) \<and>
    ((\<forall>a\<in>set (fr_planned rep). \<not> approved assume_yes confirm a) \<longrightarrow> f w' = f w)"
proof -
  note pure = doctor_run_unchanged [OF assms(1), of E H]
  from assms(2) obtain report w1 where d: "doctor_run E H reg w = (Inr report, w1)"
    by (auto simp: fix_environment_def bindp_run split: prod.splits sum.splits)
  have f1: "f w1 = f w" using unchanged_result [OF pure d] .
  let ?plan = "build_remediation_plan E (H w1) report"
  show ?thesis
  proof (cases "dry_run \<or> ?plan = [] \<or> (\<not> interactive \<and> \<not> assume_yes)")
    case True
    with assms(2) d have "fr_results rep = []" "w' = w1"
      by (auto simp: fix_environment_def bindp_run asks_run ret_run Let_def split: if_splits)
    with f1 show ?thesis by simp
  next
    case False
    with assms(2) d obtain results w2 final where
      m: "mapp (apply_action E H rn assume_yes force confirm) ?plan w1 = (Inr results, w2)"
      and fin: "doctor_run E H reg w2 = (Inr final, w')" and rep: "fr_planned rep = ?plan" "fr_results rep = results"
      by (auto simp: fix_environment_def bindp_run asks_run ret_run Let_def split: prod.splits sum.splits if_splits)
    have f3: "f w' = f w2" using unchanged_result [OF pure fin] .
    note plan = apply_plan [OF m]
    have "(rr_outcome x = FixBlocked \<longleftrightarrow> ra_requires_force (rr_action x) \<and> \<not> force) \<and>
      (rr_outcome x \<in> {FixApplied, FixFailed} \<longrightarrow> approved assume_yes confirm (rr_action x)) \<and>
      (rr_outcome x = FixApplied \<longrightarrow> rr_recheck x \<notin> {None, Some DocFail})" if "x \<in> set results" for x
    proof -
      from plan that obtain u u' where "apply_action E H rn assume_yes force confirm (rr_action x) u = (Inr x, u')" by blast
      from apply_action_result [OF this] show ?thesis by blast
    qed
    with plan rep f1 f3 False show ?thesis by auto
  qed
qed

definition demo_runner :: runner where
  "demo_runner = executor demo_env (\<lambda>_. demo_host) (\<lambda>_. ret (0, [], []))"

lemma fix_changes_nothing_unasked_witness:
  "\<exists>rep w'. fix_environment demo_env (\<lambda>_. demo_host) [] demo_runner False False False True None empty_world = (Inr rep, w') \<and>
     map rr_outcome (fr_results rep) = [FixBlocked] \<and> w' = empty_world"
proof -
  let ?h = "demo_host" and ?k = "\<lparr>ra_kind = InitProject, ra_check_name = ''Forge project'',
        ra_description = ''Initialize a Forge project at /p'', ra_command = None, ra_requires_force = True\<rparr>"
  have d: "doctor_run demo_env (\<lambda>_. ?h) [] empty_world = (Inr (install_checks ?h @ [no_project_check]), empty_world)"
    by (simp add: doctor_run_def bindp_run asks_run ret_run detect_root_def find_project_root_def is_forge_project_def
        empty_world_def file_exists_def)
  have plan: "build_remediation_plan demo_env ?h (install_checks ?h @ [no_project_check]) = [?k]"
    by (simp add: build_remediation_plan_def has_status_def check_named_def install_checks_def no_project_check_def
        check_python_runtime_def check_virtualenv_def check_forge_install_def check_core_dependencies_def demo_host_def
        core_dependencies_def Let_def demo_env_def)
  have "\<exists>rep. fix_environment demo_env (\<lambda>_. ?h) [] demo_runner False False False True None empty_world = (Inr rep, empty_world) \<and>
      map rr_outcome (fr_results rep) = [FixBlocked]"
    by (simp add: fix_environment_def bindp_run asks_run ret_run d plan Let_def apply_action_def)
  then obtain rep where run: "fix_environment demo_env (\<lambda>_. ?h) [] demo_runner False False False True None empty_world = (Inr rep, empty_world)"
    and b: "map rr_outcome (fr_results rep) = [FixBlocked]" by (elim exE conjE)
  have "\<forall>a factory opts. dict_get ([] :: adapter_registry) a = Some factory \<longrightarrow> unchanged id (factory opts)" by simp
  from fix_changes_nothing_unasked [OF this run] run b show ?thesis by auto
qed

text \<open>Rebuilding the configuration loses nothing. When it returns, the configuration loads, with the
  defaults and the project's name; the file that was there is kept under the first backup name that
  was free, every earlier backup is as it was, and the rewrite is the last entry of the audit log.\<close>

lemma rebuild_keeps_the_old_config:
  assumes "rebuild_config E w = (Inr x, w')"
  shows "fst x \<and> (\<exists>c. w_config w' = Doc c \<and> load_config E w' = (Inr c, w') \<and> pc_name (cf_project c) = base_name (root_path E) \<and>
      cf_default_adapter c = ''dummy'') \<and>
    (\<exists>n. n \<notin> fst ` set (w_backups w) \<and> (\<forall>k<n. k \<in> fst ` set (w_backups w)) \<and>
      w_backups w' = (if file_exists (w_config w) then [(n, w_config w)] else []) @ w_backups w) \<and>
    (\<exists>e. audit_entries w' = audit_entries w @ [e] \<and> ae_action e = ''doctor_autofix_config_rewrite'')"
proof -
  let ?n = "free_suffix (map fst (w_backups w)) 0"
  have n: "?n \<notin> fst ` set (w_backups w) \<and> (\<forall>k<?n. k \<in> fst ` set (w_backups w))"
    using free_suffix_free [of "map fst (w_backups w)" 0] by auto
  let ?bk = "(if file_exists (w_config w) then [(?n, w_config w)] else []) @ w_backups w"
  let ?w = "w\<lparr>w_writes := Suc (w_writes w)\<rparr>"
  from assms obtain w2 w3 w4 where
    m: "move_config_aside E ?n ?w = (Inr (), w2)" and d: "write_default_config E w2 = (Inr (), w3)"
    and e: "audit_config_rewrite E w3 = (Inr (), w4)" and x: "fst x" "w' = w4"
    unfolding rebuild_config_def by (elim thenp_InrE write_file_InrE) (auto simp: bindp_run asks_run thenp_run ret_run
        split: prod.splits sum.splits)
  from d obtain c where c: "build_config (base_name (root_path E)) ''minimal'' ''dummy'' [] = Inr c"
    by (auto simp: write_default_config_def bindp_run lift_result_run split: sum.splits)
  then have name: "base_name (root_path E) \<noteq> []" by (auto simp: build_config_def split: if_splits)
  have "''minimal'' \<in> set supported_profiles" "''dummy'' \<in> set adapter_priority"
    by (simp_all add: supported_profiles_def adapter_priority_def)
  from build_config_ok [OF this name, of "[]"] c have ok: "check_config_fields c = Inr c" "cf_default_adapter c = ''dummy''"
    "pc_name (cf_project c) = base_name (root_path E)" by auto
  have w2: "w_backups w2 = ?bk" "audit_entries w2 = audit_entries w"
    using m by (auto simp: move_config_aside_def bindp_run asks_run whenp_def ret_run audit_entries_def
        split: if_splits elim!: write_file_InrE)
  have w3: "w_config w3 = Doc c" "w_backups w3 = w_backups w2" "audit_entries w3 = audit_entries w2"
    using d c by (auto simp: write_default_config_def bindp_run lift_result_run audit_entries_def elim!: write_file_InrE)
  have w4: "w_config w4 = w_config w3" "w_backups w4 = w_backups w3"
    "\<exists>e. audit_entries w4 = audit_entries w3 @ [e] \<and> ae_action e = ''doctor_autofix_config_rewrite''"
    using e by (auto simp: audit_config_rewrite_def bindp_run env_reads audit_log_def audit_entries_def elim!: write_file_InrE)
  from x w2 w3 w4 have "fst x \<and> w_config w' = Doc c \<and> w_backups w' = ?bk \<and>
      (\<exists>e. audit_entries w' = audit_entries w @ [e] \<and> ae_action e = ''doctor_autofix_config_rewrite'')" by simp
  with n ok show ?thesis by (auto simp: load_config_Inr)
qed

lemma rebuild_keeps_the_old_config_witness:
  "\<exists>x w'. rebuild_config demo_env (empty_world\<lparr>w_config := BadSyntax\<rparr>) = (Inr x, w') \<and>
     w_backups w' = [(0, BadSyntax)] \<and> (\<exists>c. w_config w' = Doc c \<and> pc_name (cf_project c) = ''p'')"
proof -
  have b: "base_name (root_path demo_env) = ''p''" by (simp add: base_name_def demo_env_def)
  have "''minimal'' \<in> set supported_profiles" "''dummy'' \<in> set adapter_priority"
    by (simp_all add: supported_profiles_def adapter_priority_def)
  from build_config_ok [OF this, of "''p''" "[]"] obtain c where c: "build_config ''p'' ''minimal'' ''dummy'' [] = Inr c" by auto
  let ?w = "empty_world\<lparr>w_config := BadSyntax\<rparr>"
  have e: "file_exists (w_config ?w)" "free_suffix [] 0 = 0" "w_backups empty_world = []"
    by (simp_all add: file_exists_def free_suffix.simps empty_world_def)
  have "\<exists>x w'. rebuild_config demo_env ?w = (Inr x, w')"
    using e by (simp add: rebuild_config_def move_config_aside_def write_default_config_def bindp_run thenp_run asks_run ret_run
        lift_result_run whenp_def write_file_ok b c audit_config_rewrite_def audit_log_def env_reads) blast
  then obtain x w' where run: "rebuild_config demo_env ?w = (Inr x, w')" by blast
  from rebuild_keeps_the_old_config [OF run] e b show ?thesis using run by (auto simp: gr0_conv_Suc)
qed

end
