(* ===== verification/AcpRegistry.thy ===== *)
theory AcpRegistry imports JsonText begin

text \<open>
  The catalogue of ACP agents, \<open>kernel/acp_registry_adapter.py\<close>: fetching and caching the registry,
  reading its manifests, installing and removing agents. Nothing validates the registry, so the fields
  of a manifest are whatever JSON it holds. \<open>N\<close> is the network: what the requests answer, counted. The
  archives and what is extracted from them are the paths of \<open>w_acp_files\<close>; path texts are not
  normalised, and file modes are not modelled.
\<close>

section \<open>Manifests\<close>

datatype distribution_type = DistBinary | DistNpx | DistUvx

primrec distribution_name :: "distribution_type \<Rightarrow> string" where
  "distribution_name DistBinary = ''binary''"
| "distribution_name DistNpx = ''npx''"
| "distribution_name DistUvx = ''uvx''"

record binary_distribution =
  bd_archive :: json
  bd_cmd :: json
  bd_args :: json

record package_distribution =
  pd_package :: json
  pd_args :: json

record agent_manifest =
  mf_id :: json
  mf_name :: json
  mf_version :: json
  mf_description :: json
  mf_binary :: "(string, binary_distribution) dict"
  mf_npx :: "package_distribution option"
  mf_uvx :: "package_distribution option"
  mf_repository :: json
  mf_authors :: json
  mf_license :: json
  mf_icon :: json

definition parse_binaries :: "json \<Rightarrow> exn + (string, binary_distribution) dict" where
  "parse_binaries j = (case j of
       JObj rows \<Rightarrow> Inr (foldl (\<lambda>acc (os_arch, info). case info of
           JObj m \<Rightarrow> dict_set os_arch \<lparr>bd_archive = field m ''archive'' (JStr []), bd_cmd = field m ''cmd'' (JStr []),
             bd_args = field m ''args'' (JArr [])\<rparr> acc
         | _ \<Rightarrow> acc) [] rows)
     | _ \<Rightarrow> Inl (no_attribute j ''items''))"

definition parse_package :: "json \<Rightarrow> package_distribution option" where
  "parse_package j = (case j of
       JObj m \<Rightarrow> Some \<lparr>pd_package = field m ''package'' (JStr []), pd_args = field m ''args'' (JArr [])\<rparr>
     | _ \<Rightarrow> None)"

definition parse_manifest :: "json \<Rightarrow> exn + agent_manifest" where
  "parse_manifest raw = bindr (json_get raw ''distribution'' (JObj [])) (\<lambda>dst.
     bindr (json_get dst ''binary'' (JObj [])) (\<lambda>b. bindr (parse_binaries b) (\<lambda>binaries.
     bindr (json_get dst ''npx'' JNull) (\<lambda>npx. bindr (json_get dst ''uvx'' JNull) (\<lambda>uvx.
     bindr (mapr (\<lambda>(k, d). json_get raw k d) [(''id'', JStr []), (''name'', JStr []), (''version'', JStr []),
       (''description'', JNull), (''repository'', JNull), (''authors'', JArr []), (''license'', JNull), (''icon'', JNull)]) (\<lambda>vs.
     Inr \<lparr>mf_id = vs ! 0, mf_name = vs ! 1, mf_version = vs ! 2, mf_description = vs ! 3, mf_binary = binaries,
       mf_npx = parse_package npx, mf_uvx = parse_package uvx, mf_repository = vs ! 4, mf_authors = vs ! 5,
       mf_license = vs ! 6, mf_icon = vs ! 7\<rparr>))))))"

section \<open>The registry and its cache\<close>

record network =
  nw_registry :: "nat \<Rightarrow> exn + json"
  nw_head :: "nat \<Rightarrow> bool"
  nw_archive :: "nat \<Rightarrow> string \<Rightarrow> exn + string"
  nw_extract :: "string \<Rightarrow> string \<Rightarrow> exn + (string \<times> string) list"
  nw_platform :: "string \<times> string"
  nw_resolve :: "string \<Rightarrow> string"

definition request :: "(nat \<Rightarrow> exn + 'a) \<Rightarrow> (world, 'a) prog" where
  "request r = (\<lambda>w. (r (w_requests w), w\<lparr>w_requests := Suc (w_requests w)\<rparr>))"

definition acp_dir :: "env \<Rightarrow> string" where
  "acp_dir E = root_path E @ ''/.forge/acp''"

definition fetch_registry :: "env \<Rightarrow> network \<Rightarrow> bool \<Rightarrow> (world, json) prog" where
  "fetch_registry E N force = bindp (asks w_acp_cache) (\<lambda>cached. case (if force then None else cached) of
       Some d \<Rightarrow> ret d
     | None \<Rightarrow> bindp (catchp (request (nw_registry N)) (\<lambda>e. throw (ACPRegistryError (''Failed to fetch ACP registry: '' @ exn_message e))))
         (\<lambda>d. thenp (updates (\<lambda>w. w\<lparr>w_acp_cache := Some d\<rparr>))
           (thenp (write_file E (acp_dir E @ ''/registry.json'') (\<lambda>w. w\<lparr>w_acp_cache_file := Some d\<rparr>)) (ret d))))"

definition manifests_of :: "json \<Rightarrow> exn + agent_manifest list" where
  "manifests_of registry = bindr (json_get registry ''agents'' (JArr [])) (\<lambda>raw. bindr (json_iter raw) (mapr parse_manifest))"

definition list_agents :: "env \<Rightarrow> network \<Rightarrow> (world, agent_manifest list) prog" where
  "list_agents E N = bindp (fetch_registry E N False) (\<lambda>registry. lift_result (manifests_of registry))"

definition get_agent_manifest :: "env \<Rightarrow> network \<Rightarrow> string \<Rightarrow> (world, agent_manifest option) prog" where
  "get_agent_manifest E N aid = bindp (list_agents E N) (\<lambda>ms. ret (List.find (\<lambda>m. mf_id m = JStr aid) ms))"

definition check_agent_availability :: "env \<Rightarrow> network \<Rightarrow> string \<Rightarrow> (world, bool) prog" where
  "check_agent_availability E N aid = bindp (get_agent_manifest E N aid) (\<lambda>m. ret (m \<noteq> None))"

definition is_registry_accessible :: "network \<Rightarrow> (world, bool) prog" where
  "is_registry_accessible N = request (\<lambda>n. Inr (nw_head N n))"

section \<open>Installing\<close>

definition resolve_distribution :: "env \<Rightarrow> agent_manifest \<Rightarrow> string option \<Rightarrow> exn + distribution_type" where
  "resolve_distribution E m preferred =
     (case List.find (\<lambda>d. preferred = Some (distribution_name d)) [DistBinary, DistNpx, DistUvx] of
       Some d \<Rightarrow> Inr d
     | None \<Rightarrow> if mf_npx m \<noteq> None then Inr DistNpx
         else if mf_uvx m \<noteq> None then Inr DistUvx
         else if mf_binary m \<noteq> [] then Inr DistBinary
         else Inl (ACPRegistryError (''Agent '' @ quoted (py_str E (mf_id m)) @ '' has no supported distribution method'')))"

definition install_npx :: "env \<Rightarrow> agent_manifest \<Rightarrow> exn + string" where
  "install_npx E m = (case mf_npx m of
       None \<Rightarrow> Inl (ACPRegistryError (''Agent '' @ quoted (py_str E (mf_id m)) @ '' has no npx distribution''))
     | Some d \<Rightarrow> Inr (''npx -y '' @ py_str E (pd_package d) @ ''@latest''))"

definition install_uvx :: "env \<Rightarrow> agent_manifest \<Rightarrow> exn + string" where
  "install_uvx E m = (case mf_uvx m of
       None \<Rightarrow> Inl (ACPRegistryError (''Agent '' @ quoted (py_str E (mf_id m)) @ '' has no uvx distribution''))
     | Some d \<Rightarrow> Inr (''uvx '' @ py_str E (pd_package d) @ ''@latest''))"

definition platform_key :: "string \<times> string \<Rightarrow> string" where
  "platform_key p = (case p of (machine, system) \<Rightarrow>
     let m = lower machine;
         arch = (if m \<in> {''x86_64'', ''amd64''} then ''x86_64'' else if m \<in> {''aarch64'', ''arm64''} then ''aarch64'' else m)
     in lower system @ ''-'' @ arch)"

text \<open>\<open>a / b\<close> on paths.\<close>

definition path_div :: "string \<Rightarrow> string \<Rightarrow> string" where
  "path_div a b = (if b = [] then a else if hd b = CHR ''/'' then b else a @ ''/'' @ b)"

definition path_of :: "string \<Rightarrow> json \<Rightarrow> exn + string" where
  "path_of a j = (case j of JStr s \<Rightarrow> Inr (path_div a s)
     | _ \<Rightarrow> Inl (TypeError (''unsupported operand type(s) for /: '' @ quoted ''PosixPath'' @ '' and '' @ quoted (python_type j))))"

definition archive_name :: "json \<Rightarrow> exn + json" where
  "archive_name url = bindr (json_has ''/'' url) (\<lambda>slash. if \<not> slash then Inr url else (case url of
       JStr s \<Rightarrow> Inr (JStr (base_name s)) | _ \<Rightarrow> Inl (no_attribute url ''rsplit'')))"

text \<open>\<open>"".join(path.suffixes)\<close>\<close>

definition suffix_text :: "string \<Rightarrow> string" where
  "suffix_text p = (let n = base_name p in if ends_with n ''.'' then []
     else dropWhile (\<lambda>c. c \<noteq> CHR ''.'') (dropWhile (\<lambda>c. c = CHR ''.'') n))"

definition extract_archive :: "network \<Rightarrow> string \<Rightarrow> string \<Rightarrow> (world, unit) prog" where
  "extract_archive N archive_path target_dir = (let suffix = suffix_text archive_path in
     if ends_with suffix ''.tar.gz'' \<or> ends_with suffix ''.tgz'' \<or> ends_with suffix ''.zip''
     then bindp (asks (\<lambda>w. case w_acp_files w archive_path of Some bytes \<Rightarrow> bytes | None \<Rightarrow> [])) (\<lambda>bytes.
       bindp (lift_result (nw_extract N target_dir bytes)) (\<lambda>files.
         updates (\<lambda>w. w\<lparr>w_acp_files := w_acp_files w ++ map_of files\<rparr>)))
     else ret ())"

definition install_binary :: "env \<Rightarrow> network \<Rightarrow> agent_manifest \<Rightarrow> (world, string) prog" where
  "install_binary E N m = (case dict_get (mf_binary m) (platform_key (nw_platform N)) of
       None \<Rightarrow> throw (ACPRegistryError (''No binary distribution for current platform in agent '' @ quoted (py_str E (mf_id m))))
     | Some dst \<Rightarrow> bindp (lift_result (path_of (acp_dir E @ ''/bin'') (mf_id m))) (\<lambda>agent_dir.
         thenp (write_file E agent_dir (\<lambda>w. w))
         (bindp (lift_result (bindr (archive_name (bd_archive dst)) (path_of agent_dir))) (\<lambda>archive_path.
         bindp (asks (\<lambda>w. archive_path = agent_dir \<or> w_acp_files w archive_path \<noteq> None)) (\<lambda>present.
         thenp (whenp (\<not> present) (catchp
             (bindp (request (\<lambda>n. nw_archive N n (py_str E (bd_archive dst)))) (\<lambda>bytes.
                write_file E archive_path (\<lambda>w. w\<lparr>w_acp_files := (w_acp_files w)(archive_path \<mapsto> bytes)\<rparr>)))
             (\<lambda>e. throw (ACPRegistryError (''Failed to download '' @ py_str E (mf_id m) @ '': '' @ exn_message e)))))
         (thenp (extract_archive N archive_path agent_dir)
           (bindp (lift_result (path_of agent_dir (bd_cmd dst))) (\<lambda>binary_path. ret (nw_resolve N binary_path)))))))))"

definition do_install :: "env \<Rightarrow> network \<Rightarrow> agent_manifest \<Rightarrow> distribution_type \<Rightarrow> (world, string) prog" where
  "do_install E N m d = (case d of DistNpx \<Rightarrow> lift_result (install_npx E m) | DistUvx \<Rightarrow> lift_result (install_uvx E m)
     | DistBinary \<Rightarrow> install_binary E N m)"

section \<open>What is installed\<close>

text \<open>Whatever goes wrong when \<open>installed.json\<close> is read, it counts as empty.\<close>

definition load_installed :: "(world, json) prog" where
  "load_installed = asks (\<lambda>w. case w_acp_installed w of Doc j \<Rightarrow> j | _ \<Rightarrow> JObj [])"

definition save_installed :: "env \<Rightarrow> json \<Rightarrow> (world, unit) prog" where
  "save_installed E j = write_file E (acp_dir E @ ''/installed.json'') (\<lambda>w. w\<lparr>w_acp_installed := Doc j\<rparr>)"

definition installed_entry :: "agent_manifest \<Rightarrow> distribution_type \<Rightarrow> string \<Rightarrow> json_obj" where
  "installed_entry m d path = [(''id'', mf_id m), (''name'', mf_name m), (''version'', mf_version m),
     (''distribution_type'', JStr (distribution_name d)), (''install_path'', JStr path), (''description'', mf_description m)]"

definition set_item :: "json \<Rightarrow> string \<Rightarrow> json \<Rightarrow> exn + json" where
  "set_item j k v = (case j of JObj m \<Rightarrow> Inr (JObj (dict_set k v m))
     | JArr _ \<Rightarrow> Inl (TypeError ''list indices must be integers or slices, not str'')
     | _ \<Rightarrow> Inl (TypeError (quoted (python_type j) @ '' object does not support item assignment'')))"

definition del_item :: "json \<Rightarrow> string \<Rightarrow> exn + json" where
  "del_item j k = (case j of JObj m \<Rightarrow> Inr (JObj (AList.delete k m))
     | JArr _ \<Rightarrow> Inl (TypeError ''list indices must be integers or slices, not str'')
     | _ \<Rightarrow> Inl (TypeError (quoted (python_type j) @ '' object does not support item deletion'')))"

definition record_installation :: "env \<Rightarrow> agent_manifest \<Rightarrow> distribution_type \<Rightarrow> string \<Rightarrow> (world, unit) prog" where
  "record_installation E m d path = bindp load_installed (\<lambda>j.
     bindp (lift_result (set_item j (py_str E (mf_id m)) (JObj (installed_entry m d path)))) (save_installed E))"

definition install_agent :: "env \<Rightarrow> network \<Rightarrow> string \<Rightarrow> string option \<Rightarrow> (world, string) prog" where
  "install_agent E N aid preferred = bindp (get_agent_manifest E N aid) (\<lambda>found. case found of
       None \<Rightarrow> throw (ACPRegistryError (''Agent '' @ quoted aid @ '' not found in registry''))
     | Some m \<Rightarrow> bindp (lift_result (resolve_distribution E m preferred)) (\<lambda>d.
         bindp (do_install E N m d) (\<lambda>path. thenp (record_installation E m d path) (ret path))))"

definition uninstall_agent :: "env \<Rightarrow> string \<Rightarrow> (world, bool) prog" where
  "uninstall_agent E aid = bindp load_installed (\<lambda>j. bindp (lift_result (json_has aid j)) (\<lambda>there.
     if \<not> there then ret False
     else bindp (lift_result (del_item j aid)) (\<lambda>rest. thenp (save_installed E rest) (ret True))))"

definition get_installed_agents :: "(world, json list) prog" where
  "get_installed_agents = bindp load_installed (\<lambda>j. lift_result (case j of
     JObj m \<Rightarrow> Inr (map snd m) | _ \<Rightarrow> Inl (no_attribute j ''values'')))"

section \<open>Lemmas\<close>

lemma fetch_cached: "w_acp_cache w = Some d \<Longrightarrow> fetch_registry E N False w = (Inr d, w)"
  by (simp add: fetch_registry_def prog_simps)

lemma fetch_result:
  assumes "fetch_registry E N force w = (r, w')"
  shows "(\<forall>d. r = Inr d \<longrightarrow> w_acp_cache w' = Some d) \<and> w_acp_installed w' = w_acp_installed w"
  using assms by (auto simp: fetch_registry_def prog_simps request_def split: if_splits option.splits sum.splits)

text \<open>The manifests that can be read.\<close>

definition manifest_shaped :: "json \<Rightarrow> bool" where
  "manifest_shaped raw \<longleftrightarrow> (\<exists>m. raw = JObj m \<and> (case dict_get m ''distribution'' of None \<Rightarrow> True
     | Some d \<Rightarrow> (case d of JObj dst \<Rightarrow> (case dict_get dst ''binary'' of None \<Rightarrow> True
         | Some b \<Rightarrow> (case b of JObj _ \<Rightarrow> True | _ \<Rightarrow> False)) | _ \<Rightarrow> False)))"

lemma parse_binaries_cases: "(\<exists>bs. parse_binaries j = Inr bs) \<longleftrightarrow> (case j of JObj _ \<Rightarrow> True | _ \<Rightarrow> False)"
  by (cases j) (simp_all add: parse_binaries_def)

lemma parse_manifest_cases:
  "if manifest_shaped raw then \<exists>m. parse_manifest raw = Inr m else \<exists>e. parse_manifest raw = Inl (OtherException e)"
proof (cases raw)
  case (JObj m)
  let ?d = "case dict_get m ''distribution'' of Some v \<Rightarrow> v | None \<Rightarrow> JObj []"
  have run: "parse_manifest raw = bindr (json_get ?d ''binary'' (JObj [])) (\<lambda>b. bindr (parse_binaries b) (\<lambda>binaries.
     bindr (json_get ?d ''npx'' JNull) (\<lambda>npx. bindr (json_get ?d ''uvx'' JNull) (\<lambda>uvx. Inr \<lparr>mf_id = field m ''id'' (JStr []),
       mf_name = field m ''name'' (JStr []), mf_version = field m ''version'' (JStr []), mf_description = field m ''description'' JNull,
       mf_binary = binaries, mf_npx = parse_package npx, mf_uvx = parse_package uvx, mf_repository = field m ''repository'' JNull,
       mf_authors = field m ''authors'' (JArr []), mf_license = field m ''license'' JNull, mf_icon = field m ''icon'' JNull\<rparr>))))"
    by (simp add: parse_manifest_def JObj field_def eval_nat_numeral)
  have shaped: "manifest_shaped raw \<longleftrightarrow> (case ?d of JObj dst \<Rightarrow> (case dict_get dst ''binary'' of None \<Rightarrow> True
         | Some b \<Rightarrow> (case b of JObj _ \<Rightarrow> True | _ \<Rightarrow> False)) | _ \<Rightarrow> False)"
    by (simp add: manifest_shaped_def JObj split: option.split)
  show ?thesis
  proof (cases ?d)
    case d: (JObj dst)
    show ?thesis
      by (cases "dict_get dst ''binary''"; (cases "the (dict_get dst ''binary'')")?)
        (simp_all add: run shaped d parse_binaries_def no_attribute_def field_def)
  qed (simp_all add: run shaped json_get_def no_attribute_def)
qed (simp_all add: parse_manifest_def manifest_shaped_def json_get_def no_attribute_def)

lemma mapr_manifests:
  "if \<forall>raw\<in>set raws. manifest_shaped raw then \<exists>ms. mapr parse_manifest raws = Inr ms
   else \<exists>e. mapr parse_manifest raws = Inl (OtherException e)"
proof (induction raws)
  case (Cons raw raws)
  with parse_manifest_cases [of raw] show ?case by (auto split: if_splits)
qed simp

text \<open>What installing does to the list of installed agents.\<close>

definition installed_map :: "world \<Rightarrow> json_obj" where
  "installed_map w = (case w_acp_installed w of Doc (JObj m) \<Rightarrow> m | _ \<Rightarrow> [])"

lemma extract_keeps: "unchanged w_acp_installed (extract_archive N p d)" "unchanged w_acp_cache (extract_archive N p d)"
  by (auto simp: extract_archive_def unchanged_def prog_simps Let_def split: sum.split)

lemma do_install_keeps: "unchanged w_acp_installed (do_install E N m d)" "unchanged w_acp_cache (do_install E N m d)"
proof -
  have r: "unchanged w_acp_installed (request a)" "unchanged w_acp_cache (request a)" for a :: "nat \<Rightarrow> exn + 'b"
    by (simp_all add: unchanged_def request_def)
  show "unchanged w_acp_installed (do_install E N m d)" "unchanged w_acp_cache (do_install E N m d)"
    by (cases d; auto simp: do_install_def install_binary_def intro!: frame_intros r extract_keeps split: option.split)+
qed

lemma list_agents_result:
  assumes "list_agents E N w = (r, w')"
  shows "w_acp_installed w' = w_acp_installed w \<and> (\<forall>ms. r = Inr ms \<longrightarrow>
    (\<exists>registry. w_acp_cache w' = Some registry \<and> manifests_of registry = Inr ms))"
proof (cases "fetch_registry E N False w")
  case (Pair q w1)
  with fetch_result [OF Pair] assms show ?thesis
    by (cases q) (auto simp: list_agents_def prog_simps)
qed

lemma save_installed_run:
  "save_installed E j w = (r, w') \<Longrightarrow> (r = Inr () \<and> w_acp_installed w' = Doc j \<or> (\<exists>e. r = Inl e) \<and> w_acp_installed w' = w_acp_installed w)
     \<and> w_acp_cache w' = w_acp_cache w"
  by (auto simp: save_installed_def write_file_run split: if_splits)

lemma set_item_Inr: "set_item j k v = Inr x \<longleftrightarrow> (\<exists>m. j = JObj m \<and> x = JObj (dict_set k v m))"
  by (cases j) (auto simp: set_item_def)

lemma record_installation_result:
  assumes "record_installation E m d path w = (r, w')" and "mf_id m = JStr aid"
  shows "(r = Inr () \<and> w_acp_installed w' = Doc (JObj (dict_set aid (JObj (installed_entry m d path)) (installed_map w)))
      \<or> (\<exists>e. r = Inl e) \<and> w_acp_installed w' = w_acp_installed w) \<and> w_acp_cache w' = w_acp_cache w"
proof -
  let ?j = "case w_acp_installed w of Doc j \<Rightarrow> j | _ \<Rightarrow> JObj []"
  show ?thesis
  proof (cases "set_item ?j aid (JObj (installed_entry m d path))")
    case (Inl e)
    with assms show ?thesis by (auto simp: record_installation_def load_installed_def prog_simps py_str_def)
  next
    case (Inr x)
    then obtain o' where o': "?j = JObj o'" "x = JObj (dict_set aid (JObj (installed_entry m d path)) o')"
      by (auto simp: set_item_Inr)
    then have "o' = installed_map w" by (auto simp: installed_map_def split: doc_file.splits)
    with assms Inr o' show ?thesis
      using save_installed_run [of E x w r w'] by (auto simp: record_installation_def load_installed_def prog_simps py_str_def)
  qed
qed

lemma install_agent_steps:
  assumes "install_agent E N aid preferred w = (r, w')"
  shows "(\<exists>e. r = Inl e) \<and> w_acp_installed w' = w_acp_installed w \<or>
    (\<exists>ms m d cmd w1 w2. r = Inr cmd \<and> list_agents E N w = (Inr ms, w1) \<and> List.find (\<lambda>m. mf_id m = JStr aid) ms = Some m \<and>
      resolve_distribution E m preferred = Inr d \<and> do_install E N m d w1 = (Inr cmd, w2) \<and>
      record_installation E m d cmd w2 = (Inr (), w'))"
proof -
  obtain q w1 where l: "list_agents E N w = (q, w1)" by (cases "list_agents E N w")
  note same1 = list_agents_result [OF l]
  note run = install_agent_def get_agent_manifest_def prog_simps
  show ?thesis
  proof (cases "\<exists>ms m d. q = Inr ms \<and> List.find (\<lambda>m. mf_id m = JStr aid) ms = Some m \<and> resolve_distribution E m preferred = Inr d")
    case False
    with l assms same1 show ?thesis by (auto simp: run split: sum.splits option.splits)
  next
    case True
    then obtain ms m d where q: "q = Inr ms" "List.find (\<lambda>m. mf_id m = JStr aid) ms = Some m" "resolve_distribution E m preferred = Inr d"
      by blast
    then have mid: "mf_id m = JStr aid" by (auto dest: find_Some_set)
    obtain p w2 where i: "do_install E N m d w1 = (p, w2)" by (cases "do_install E N m d w1")
    have same2: "w_acp_installed w2 = w_acp_installed w1" using unchanged_result [OF do_install_keeps(1) i] .
    obtain u w3 where rec: "record_installation E m d (projr p) w2 = (u, w3)" by (cases "record_installation E m d (projr p) w2")
    note recorded = record_installation_result [OF rec mid]
    from l q i rec assms same1 same2 recorded show ?thesis
      by (cases p; cases u) (auto simp: run)
  qed
qed

lemma delete_dict_set: "AList.delete k (dict_set k x d) = AList.delete k d"
  by (induction d) (auto simp: dict_set_def)

lemma uninstall_installed:
  assumes "w_acp_installed w = Doc (JObj (dict_set aid x old))" and "uninstall_agent E aid w = (Inr b, w2)"
  shows "b \<and> w_acp_installed w2 = Doc (JObj (AList.delete aid old))"
  using assms save_installed_run [of E _ w]
  by (fastforce simp: uninstall_agent_def load_installed_def prog_simps del_item_def delete_dict_set split: sum.splits prod.splits)

section \<open>Properties\<close>

text \<open>Installing an agent records that agent and nothing else. When it returns a command, the command
  is the one the manifest's distribution gives (the distribution asked for if it is one of the three,
  otherwise npx before uvx before binary), \<open>installed.json\<close> holds the agent's entry with that command
  under its id with every other entry as it was, and uninstalling it gives back the other entries.
  When it raises, \<open>installed.json\<close> is as it was.\<close>

lemma install_records_the_agent:
  assumes "install_agent E N aid preferred w = (r, w')"
  shows "(\<forall>e. r = Inl e \<longrightarrow> w_acp_installed w' = w_acp_installed w) \<and>
    (\<forall>cmd. r = Inr cmd \<longrightarrow> (\<exists>registry ms m d. w_acp_cache w' = Some registry \<and> manifests_of registry = Inr ms \<and>
      List.find (\<lambda>m. mf_id m = JStr aid) ms = Some m \<and> resolve_distribution E m preferred = Inr d \<and>
      (d = DistNpx \<longrightarrow> install_npx E m = Inr cmd) \<and> (d = DistUvx \<longrightarrow> install_uvx E m = Inr cmd) \<and>
      w_acp_installed w' = Doc (JObj (dict_set aid (JObj (installed_entry m d cmd)) (installed_map w))) \<and>
      (\<forall>b w2. uninstall_agent E aid w' = (Inr b, w2) \<longrightarrow> b \<and>
         w_acp_installed w2 = Doc (JObj (AList.delete aid (installed_map w))))))"
  using install_agent_steps [OF assms]
proof (elim disjE exE conjE)
  fix ms m d cmd w1 w2
  assume r: "r = Inr cmd" and l: "list_agents E N w = (Inr ms, w1)" and f: "List.find (\<lambda>m. mf_id m = JStr aid) ms = Some m"
    and d: "resolve_distribution E m preferred = Inr d" and i: "do_install E N m d w1 = (Inr cmd, w2)"
    and rec: "record_installation E m d cmd w2 = (Inr (), w')"
  from f have mid: "mf_id m = JStr aid" by (auto dest: find_Some_set)
  from list_agents_result [OF l] unchanged_result [OF do_install_keeps(1) i] unchanged_result [OF do_install_keeps(2) i]
  obtain registry where c: "w_acp_cache w2 = Some registry" "manifests_of registry = Inr ms" "w_acp_installed w2 = w_acp_installed w"
    by auto
  then have "installed_map w2 = installed_map w" by (simp add: installed_map_def)
  with record_installation_result [OF rec mid] c
  have w': "w_acp_cache w' = Some registry"
    "w_acp_installed w' = Doc (JObj (dict_set aid (JObj (installed_entry m d cmd)) (installed_map w)))" by auto
  from i have "d = DistNpx \<longrightarrow> install_npx E m = Inr cmd" "d = DistUvx \<longrightarrow> install_uvx E m = Inr cmd"
    by (auto simp: do_install_def prog_simps)
  with r w' c(2) f d uninstall_installed [OF w'(2)] show ?thesis by blast
qed auto

definition demo_registry_json :: json where
  "demo_registry_json = JObj [(''agents'', JArr [JObj [(''id'', JStr ''a''), (''distribution'',
     JObj [(''npx'', JObj [(''package'', JStr ''pkg'')])])]])]"

definition demo_network :: network where
  "demo_network = \<lparr>nw_registry = (\<lambda>_. Inr demo_registry_json), nw_head = (\<lambda>_. True), nw_archive = (\<lambda>_ _. Inr []),
     nw_extract = (\<lambda>_ _. Inr []), nw_platform = (''x86_64'', ''Linux''), nw_resolve = id\<rparr>"

lemma install_records_the_agent_witness:
  "\<exists>w'. install_agent demo_env demo_network ''a'' None empty_world = (Inr ''npx -y pkg@latest'', w') \<and>
     (\<exists>m d. w_acp_installed w' = Doc (JObj [(''a'', JObj (installed_entry m d ''npx -y pkg@latest''))]))"
proof -
  have f: "fetch_registry demo_env demo_network False empty_world = (Inr demo_registry_json, empty_world\<lparr>w_requests := 1,
      w_acp_cache := Some demo_registry_json, w_writes := 1, w_acp_cache_file := Some demo_registry_json\<rparr>)"
    by (simp add: fetch_registry_def prog_simps request_def demo_network_def empty_world_def demo_env_def)
  have save: "write_ok_at demo_env n p" for n p by (simp add: demo_env_def)
  have empty: "w_acp_installed empty_world = Absent" by (simp add: empty_world_def)
  have "\<exists>w'. install_agent demo_env demo_network ''a'' None empty_world = (Inr ''npx -y pkg@latest'', w')"
    by (simp add: install_agent_def get_agent_manifest_def list_agents_def f prog_simps demo_registry_json_def manifests_of_def
        parse_manifest_def parse_binaries_def parse_package_def field_def eval_nat_numeral resolve_distribution_def do_install_def
        install_npx_def py_str_def record_installation_def load_installed_def empty set_item_def dict_get_def save_installed_def
        save)
  then obtain w' where run: "install_agent demo_env demo_network ''a'' None empty_world = (Inr ''npx -y pkg@latest'', w')" by blast
  have "installed_map empty_world = []" by (simp add: installed_map_def empty_world_def)
  with install_records_the_agent [OF run] run show ?thesis by (auto simp: dict_set_def)
qed

text \<open>One malformed manifest hides every agent. If any entry of the fetched registry is not an object with
  a proper \<open>distribution\<close> (\<open>"distribution": null\<close> is enough), listing the agents raises an
  \<open>AttributeError\<close>, which is no \<open>ACPRegistryError\<close>, and so does installing any other agent; if every entry is
  well formed, both read the registry.\<close>

lemma one_malformed_manifest_hides_all:
  assumes "w_acp_cache w = Some (JObj registry)" and "dict_get registry ''agents'' = Some (JArr raws)"
  shows "((\<forall>raw\<in>set raws. manifest_shaped raw) \<longleftrightarrow> (\<exists>ms. list_agents E N w = (Inr ms, w))) \<and>
    ((\<exists>raw\<in>set raws. \<not> manifest_shaped raw) \<longrightarrow>
      (\<exists>e. list_agents E N w = (Inl (OtherException e), w) \<and> install_agent E N aid preferred w = (Inl (OtherException e), w)))"
proof -
  have l: "list_agents E N w = (mapr parse_manifest raws, w)"
    using assms by (simp add: list_agents_def fetch_cached bindp_run lift_result_run manifests_of_def field_def)
  then show ?thesis
    using mapr_manifests [of raws] by (auto simp: install_agent_def get_agent_manifest_def bindp_run split: if_splits)
qed

definition demo_bad_registry :: world where
  "demo_bad_registry = empty_world\<lparr>w_acp_cache := Some (JObj [(''agents'',
     JArr [JObj [(''id'', JStr ''a'')], JObj [(''distribution'', JNull)]])])\<rparr>"

lemma one_malformed_manifest_hides_all_witness:
  "\<exists>e. install_agent demo_env demo_network ''a'' None demo_bad_registry = (Inl (OtherException e), demo_bad_registry)"
proof -
  let ?raws = "[JObj [(''id'', JStr ''a'')], JObj [(''distribution'', JNull)]]"
  have "\<not> manifest_shaped (JObj [(''distribution'', JNull)])" by (simp add: manifest_shaped_def dict_get_def)
  then have bad: "\<exists>raw\<in>set ?raws. \<not> manifest_shaped raw" by simp
  have "w_acp_cache demo_bad_registry = Some (JObj [(''agents'', JArr ?raws)])" "dict_get [(''agents'', JArr ?raws)] ''agents'' = Some (JArr ?raws)"
    by (simp_all add: demo_bad_registry_def dict_get_def)
  from one_malformed_manifest_hides_all [OF this] bad show ?thesis by blast
qed

end
