(* ===== verification/AcpClient.thy ===== *)
theory AcpClient imports JsonText begin

text \<open>
  The client of an ACP agent, \<open>kernel/acp_client.py\<close>: JSON-RPC, one JSON text per line, over the pipes of
  a subprocess. The other side is a parameter, a \<open>peer\<close>: a state \<open>'p\<close> of the process with what the
  system calls on it answer. Standard output is buffered twice, as in the code: \<open>select\<close> asks whether
  the pipe has something within the time limit, and \<open>readline\<close> hands out a line of its own buffer, and
  reads the pipe, all the lines that are there, when that buffer is empty. Only whole lines are
  written. A line is JSON, or the error its decoding raises. Terminating or killing a process always
  succeeds. \<open>json.dumps\<close> of a request is the request.
\<close>

section \<open>The process\<close>

type_synonym line = "exn + json"

record 'p peer =
  pe_spawn :: "string list \<Rightarrow> exn + 'p"
  pe_write :: "json \<Rightarrow> 'p \<Rightarrow> exn option \<times> 'p"
  pe_readable :: "'p \<Rightarrow> bool \<times> 'p"
  pe_read :: "'p \<Rightarrow> line list \<times> 'p"
  pe_running :: "'p \<Rightarrow> bool"

record 'p process =
  pr_peer :: 'p
  pr_buffer :: "line list"

record 'p acp_client =
  cl_command :: "string list"
  cl_timeout :: string
  cl_process :: "'p process option"
  cl_session_id :: json
  cl_msg_id :: int
  cl_server_info :: json

record session_info =
  si_id :: json
  si_title :: json
  si_metadata :: json

definition new_client :: "string list \<Rightarrow> 'p acp_client" where
  "new_client command = \<lparr>cl_command = command, cl_timeout = ''30.0'', cl_process = None, cl_session_id = JNull,
     cl_msg_id = 0, cl_server_info = JObj []\<rparr>"

definition agent_command_from_install :: "env \<Rightarrow> (string \<Rightarrow> exn + string list) \<Rightarrow> json \<Rightarrow> exn + string list" where
  "agent_command_from_install E shlex_split agent =
     bindr (json_get agent ''install_path'' (JStr [])) (\<lambda>v. shlex_split (py_str E v))"

section \<open>Transport\<close>

definition build_request :: "string \<Rightarrow> json \<Rightarrow> ('p acp_client, json \<times> int) prog" where
  "build_request method params = (\<lambda>c. let n = cl_msg_id c + 1 in
     (Inr (JObj [(''jsonrpc'', JStr ''2.0''), (''method'', JStr method), (''params'', params), (''id'', JInt n)], n), c\<lparr>cl_msg_id := n\<rparr>))"

definition not_running :: exn where
  "not_running = ACPClientError ''ACP process not running''"

definition send :: "'p peer \<Rightarrow> json \<Rightarrow> ('p acp_client, unit) prog" where
  "send P message = (\<lambda>c. case cl_process c of
       None \<Rightarrow> (Inl not_running, c)
     | Some pr \<Rightarrow> (case pe_write P message (pr_peer pr) of (failed, p) \<Rightarrow>
         (case failed of Some e \<Rightarrow> Inl e | None \<Rightarrow> Inr (), c\<lparr>cl_process := Some (pr\<lparr>pr_peer := p\<rparr>)\<rparr>)))"

text \<open>\<open>readline\<close>; \<open>None\<close> is the end of the stream.\<close>

definition readline :: "'p peer \<Rightarrow> 'p process \<Rightarrow> line option \<times> 'p process" where
  "readline P pr = (case pr_buffer pr of
       l # ls \<Rightarrow> (Some l, pr\<lparr>pr_buffer := ls\<rparr>)
     | [] \<Rightarrow> (case pe_read P (pr_peer pr) of
         ([], p) \<Rightarrow> (None, pr\<lparr>pr_peer := p\<rparr>)
       | (l # ls, p) \<Rightarrow> (Some l, pr\<lparr>pr_peer := p, pr_buffer := ls\<rparr>)))"

definition timed_out :: "env \<Rightarrow> 'p acp_client \<Rightarrow> exn" where
  "timed_out E c = ACPClientError (''Timed out after '' @ cl_timeout c @ ''s waiting for a response from agent '' @
     str_of E (JArr (map JStr (take 1 (cl_command c)))))"

text \<open>The end of the stream is \<open>None\<close>, as is the line \<open>null\<close>.\<close>

definition receive :: "env \<Rightarrow> 'p peer \<Rightarrow> ('p acp_client, json) prog" where
  "receive E P = (\<lambda>c. case cl_process c of
       None \<Rightarrow> (Inl not_running, c)
     | Some pr \<Rightarrow> (case pe_readable P (pr_peer pr) of (readable, p) \<Rightarrow>
         if \<not> readable then (Inl (timed_out E c), c\<lparr>cl_process := Some (pr\<lparr>pr_peer := p\<rparr>)\<rparr>)
         else (case readline P (pr\<lparr>pr_peer := p\<rparr>) of (l, pr') \<Rightarrow>
           (case l of None \<Rightarrow> Inr JNull | Some l \<Rightarrow> l, c\<lparr>cl_process := Some pr'\<rparr>))))"

section \<open>Requests with one answer\<close>

definition check_error :: "env \<Rightarrow> string \<Rightarrow> string \<Rightarrow> json \<Rightarrow> exn + unit" where
  "check_error E what fallback response = bindr (json_has ''error'' response) (\<lambda>failed. if \<not> failed then Inr ()
     else bindr (json_item response ''error'') (\<lambda>e. bindr (json_get e ''message'' (JStr fallback)) (\<lambda>m.
       Inl (ACPClientError (''ACP '' @ what @ '' failed: '' @ py_str E m)))))"

text \<open>The answer to a request is the next line, whatever its id.\<close>

definition call :: "env \<Rightarrow> 'p peer \<Rightarrow> string \<Rightarrow> json \<Rightarrow> string \<Rightarrow> string \<Rightarrow> ('p acp_client, json) prog" where
  "call E P method params what fallback = bindp (build_request method params) (\<lambda>(req, n). thenp (send P req)
     (bindp (receive E P) (\<lambda>response. bindp (lift_result (check_error E what fallback response)) (\<lambda>_. ret response))))"

definition client_info :: json where
  "client_info = JObj [(''clientInfo'', JObj [(''name'', JStr ''Forge OS''), (''version'', JStr ''0.5.0'')]), (''capabilities'', JObj [])]"

definition initialize :: "env \<Rightarrow> 'p peer \<Rightarrow> ('p acp_client, json) prog" where
  "initialize E P = bindp (call E P ''initialize'' client_info ''initialize'' ''initialize failed'') (\<lambda>response.
     bindp (lift_result (json_get response ''result'' (JObj []))) (\<lambda>res.
     bindp (lift_result (json_get res ''serverInfo'' (JObj []))) (\<lambda>info. thenp (updates (\<lambda>c. c\<lparr>cl_server_info := info\<rparr>))
     (bindp (lift_result (json_get res ''sessionId'' JNull)) (\<lambda>sid. thenp (updates (\<lambda>c. c\<lparr>cl_session_id := sid\<rparr>)) (ret res))))))"

definition start_client :: "env \<Rightarrow> 'p peer \<Rightarrow> ('p acp_client, json) prog" where
  "start_client E P = bindp (\<lambda>c. case pe_spawn P (cl_command c) of
       Inl e \<Rightarrow> (Inl e, c)
     | Inr p \<Rightarrow> (Inr (), c\<lparr>cl_process := Some \<lparr>pr_peer = p, pr_buffer = []\<rparr>\<rparr>)) (\<lambda>_. initialize E P)"

definition stop_client :: "('p acp_client, unit) prog" where
  "stop_client = updates (\<lambda>c. c\<lparr>cl_process := None\<rparr>)"

definition is_running :: "'p peer \<Rightarrow> 'p acp_client \<Rightarrow> bool" where
  "is_running P c = (case cl_process c of None \<Rightarrow> False | Some pr \<Rightarrow> pe_running P (pr_peer pr))"

definition session_of :: "json \<Rightarrow> exn + session_info" where
  "session_of s = bindr (json_item s ''id'') (\<lambda>i. bindr (json_get s ''title'' JNull) (\<lambda>t.
     bindr (json_get s ''metadata'' (JObj [])) (\<lambda>m. Inr \<lparr>si_id = i, si_title = t, si_metadata = m\<rparr>)))"

definition session_list :: "env \<Rightarrow> 'p peer \<Rightarrow> ('p acp_client, session_info list) prog" where
  "session_list E P = bindp (call E P ''session/list'' (JObj []) ''session list'' ''session list failed'') (\<lambda>response.
     lift_result (bindr (json_get response ''result'' (JObj [])) (\<lambda>res. bindr (json_get res ''sessions'' (JArr [])) (\<lambda>ss.
       bindr (json_iter ss) (mapr session_of)))))"

definition session_resume :: "env \<Rightarrow> 'p peer \<Rightarrow> string \<Rightarrow> ('p acp_client, unit) prog" where
  "session_resume E P sid = bindp (call E P ''session/resume'' (JObj [(''sessionId'', JStr sid)]) ''session resume'' ''resume failed'')
     (\<lambda>_. updates (\<lambda>c. c\<lparr>cl_session_id := JStr sid\<rparr>))"

definition session_close :: "env \<Rightarrow> 'p peer \<Rightarrow> json \<Rightarrow> ('p acp_client, unit) prog" where
  "session_close E P sid = bindp (call E P ''session/close'' (JObj [(''sessionId'', sid)]) ''session close'' ''close failed'')
     (\<lambda>_. ret ())"

definition session_config_options :: "env \<Rightarrow> 'p peer \<Rightarrow> ('p acp_client, json) prog" where
  "session_config_options E P = bindp (call E P ''session/config/options'' (JObj []) ''config options'' ''config options failed'')
     (\<lambda>response. lift_result (json_get response ''result'' (JObj [])))"

section \<open>Prompts\<close>

text \<open>\<open>value == n\<close> for an integer \<open>n\<close>: Python's numbers are equal across types.\<close>

definition equals_int :: "json \<Rightarrow> int \<Rightarrow> bool" where
  "equals_int j n = (case j of JInt i \<Rightarrow> i = n | JFloat r \<Rightarrow> r = of_int n | JBool b \<Rightarrow> of_bool b = n | _ \<Rightarrow> False)"

datatype prompt_step = Ignored | Update json | Answer json

definition classify :: "env \<Rightarrow> int \<Rightarrow> json \<Rightarrow> exn + prompt_step" where
  "classify E n response = (if response = JNull then Inl (ACPClientError ''Connection closed before prompt response'')
     else bindr (json_get response ''method'' JNull) (\<lambda>method.
       if method = JStr ''session/update'' then bindr (json_get response ''params'' (JObj [])) (\<lambda>u. Inr (Update u))
       else bindr (json_has ''id'' response) (\<lambda>has_id. bindr (if has_id then json_item response ''id'' else Inr JNull) (\<lambda>i.
         if \<not> (has_id \<and> equals_int i n) then Inr Ignored
         else bindr (check_error E ''prompt'' ''unknown error'' response) (\<lambda>_.
           bindr (json_get response ''result'' (JObj [])) (\<lambda>r. Inr (Answer r)))))))"

text \<open>The updates yielded, and how the prompt ends; an agent may stream for ever.\<close>

partial_function (option) prompt_loop :: "env \<Rightarrow> 'p peer \<Rightarrow> int \<Rightarrow> json list \<Rightarrow> 'p acp_client
    \<Rightarrow> ((json list \<times> (exn + json)) \<times> 'p acp_client) option" where
  "prompt_loop E P n ups c = (case receive E P c of
       (Inl e, c1) \<Rightarrow> Some ((ups, Inl e), c1)
     | (Inr response, c1) \<Rightarrow> (case classify E n response of
           Inl e \<Rightarrow> Some ((ups, Inl e), c1)
         | Inr Ignored \<Rightarrow> prompt_loop E P n ups c1
         | Inr (Update u) \<Rightarrow> prompt_loop E P n (ups @ [u]) c1
         | Inr (Answer r) \<Rightarrow> Some ((ups, Inr r), c1)))"

definition prompt_params :: "string \<Rightarrow> json \<Rightarrow> json" where
  "prompt_params text sid = JObj [(''sessionId'', sid), (''messages'', JArr [JObj [(''role'', JStr ''user''),
     (''content'', JArr [JObj [(''type'', JStr ''text''), (''text'', JStr text)]])]])]"

definition prompt :: "env \<Rightarrow> 'p peer \<Rightarrow> string \<Rightarrow> string option \<Rightarrow> 'p acp_client
    \<Rightarrow> ((json list \<times> (exn + json)) \<times> 'p acp_client) option" where
  "prompt E P text sid c =
     (let s = (case sid of Some s \<Rightarrow> if s = [] then cl_session_id c else JStr s | None \<Rightarrow> cl_session_id c) in
      case bindp (build_request ''session/prompt'' (prompt_params text s)) (\<lambda>(req, n). thenp (send P req) (ret n)) c of
        (Inl e, c1) \<Rightarrow> Some (([], Inl e), c1)
      | (Inr n, c1) \<Rightarrow> prompt_loop E P n [] c1)"

section \<open>Well-typed agents\<close>

text \<open>The responses the client can take apart, and the agents that send nothing else and stay alive.\<close>

definition session_shaped :: "json \<Rightarrow> bool" where
  "session_shaped j \<longleftrightarrow> (\<exists>m. j = JObj m \<and> dict_get m ''id'' \<noteq> None)"

definition result_shaped :: "json \<Rightarrow> bool" where
  "result_shaped j \<longleftrightarrow> (\<exists>m. j = JObj m \<and> (\<forall>ss. dict_get m ''sessions'' = Some ss \<longrightarrow> (\<exists>xs. ss = JArr xs \<and> list_all session_shaped xs)))"

definition response_shaped :: "json \<Rightarrow> bool" where
  "response_shaped j \<longleftrightarrow> (\<exists>m. j = JObj m \<and> (\<forall>e. dict_get m ''error'' = Some e \<longrightarrow> (\<exists>em. e = JObj em)) \<and>
     (\<forall>r. dict_get m ''result'' = Some r \<longrightarrow> result_shaped r))"

definition lines_shaped :: "line list \<Rightarrow> bool" where
  "lines_shaped ls \<longleftrightarrow> (\<forall>l\<in>set ls. \<exists>j. l = Inr j \<and> response_shaped j)"

definition shaped_peer :: "'p peer \<Rightarrow> bool" where
  "shaped_peer P \<longleftrightarrow> (\<forall>p. fst (pe_read P p) \<noteq> [] \<and> lines_shaped (fst (pe_read P p))) \<and>
     (\<forall>m p e. fst (pe_write P m p) = Some e \<longrightarrow> (\<exists>s. e = OSError s)) \<and> (\<forall>cmd e. pe_spawn P cmd = Inl e \<longrightarrow> (\<exists>s. e = OSError s))"

definition shaped_client :: "'p acp_client \<Rightarrow> bool" where
  "shaped_client c \<longleftrightarrow> (\<forall>pr. cl_process c = Some pr \<longrightarrow> lines_shaped (pr_buffer pr))"

definition client_error :: "exn \<Rightarrow> bool" where
  "client_error e \<longleftrightarrow> (\<exists>m. e = ACPClientError m \<or> e = OSError m)"

text \<open>\<open>safe Q m\<close>: from a well-typed client, \<open>m\<close> leaves a well-typed client, raises client errors only, and
  gives a value in \<open>Q\<close>.\<close>

definition safe :: "('a \<Rightarrow> bool) \<Rightarrow> ('p acp_client, 'a) prog \<Rightarrow> bool" where
  "safe Q m \<longleftrightarrow> (\<forall>c r c'. shaped_client c \<and> m c = (r, c') \<longrightarrow> shaped_client c' \<and>
     (\<forall>e. r = Inl e \<longrightarrow> client_error e) \<and> (\<forall>x. r = Inr x \<longrightarrow> Q x))"

lemma safeD:
  assumes "safe Q m" "shaped_client c" "m c = (r, c')"
  shows "shaped_client c'" "r = Inl e \<Longrightarrow> client_error e" "r = Inr x \<Longrightarrow> Q x"
  using assms unfolding safe_def by blast+

lemma safeI:
  assumes "\<And>c r c'. shaped_client c \<Longrightarrow> m c = (r, c') \<Longrightarrow> shaped_client c' \<and>
    (\<forall>e. r = Inl e \<longrightarrow> client_error e) \<and> (\<forall>x. r = Inr x \<longrightarrow> Q x)"
  shows "safe Q m"
  using assms unfolding safe_def by blast

lemma safe_bindp:
  assumes m: "safe R m" and f: "\<And>x. R x \<Longrightarrow> safe Q (f x)"
  shows "safe Q (bindp m f)"
proof (rule safeI)
  fix c r c' assume c: "shaped_client c" and run: "bindp m f c = (r, c')"
  obtain q c1 where q: "m c = (q, c1)" by (cases "m c")
  note m' = safeD [OF m c q]
  show "shaped_client c' \<and> (\<forall>e. r = Inl e \<longrightarrow> client_error e) \<and> (\<forall>x. r = Inr x \<longrightarrow> Q x)"
  proof (cases q)
    case (Inl e)
    with run q have "r = Inl e" "c' = c1" by (auto simp: bindp_run)
    with Inl m' show ?thesis by blast
  next
    case (Inr x)
    with run q have "f x c1 = (r, c')" by (simp add: bindp_run)
    from safeD [OF f [OF m'(3) [OF Inr]] m'(1) this] show ?thesis by blast
  qed
qed

lemma safe_thenp: "safe R m \<Longrightarrow> safe Q n \<Longrightarrow> safe Q (thenp m n)"
  unfolding thenp_def by (rule safe_bindp)

lemma safe_basic:
  "Q x \<Longrightarrow> safe Q (ret x)"
  "(\<And>e. r = Inl e \<Longrightarrow> client_error e) \<Longrightarrow> (\<And>x. r = Inr x \<Longrightarrow> Q x) \<Longrightarrow> safe Q (lift_result r)"
  "(\<And>c. cl_process (g c) = cl_process c) \<Longrightarrow> safe (\<lambda>_. True) (updates g)"
  by (auto simp: safe_def prog_simps shaped_client_def)

lemma safe_build: "safe (\<lambda>_. True) (build_request method params)"
  by (auto simp: safe_def build_request_def shaped_client_def Let_def)

lemma safe_send:
  assumes "shaped_peer P"
  shows "safe (\<lambda>_. True) (send P req)"
proof -
  have "shaped_client c' \<and> (\<forall>e. r = Inl e \<longrightarrow> client_error e)" if "shaped_client c" "send P req c = (r, c')" for c r c'
  proof (cases "cl_process c")
    case None
    with that show ?thesis by (auto simp: send_def not_running_def client_error_def)
  next
    case (Some pr)
    obtain f p where w: "pe_write P req (pr_peer pr) = (f, p)" by (cases "pe_write P req (pr_peer pr)")
    have "\<forall>e. f = Some e \<longrightarrow> (\<exists>s. e = OSError s)" using assms w unfolding shaped_peer_def by (metis fst_conv)
    with that Some w show ?thesis
      by (auto simp: send_def shaped_client_def client_error_def split: option.splits)
  qed
  then show ?thesis unfolding safe_def by blast
qed

lemma safe_receive:
  assumes "shaped_peer P"
  shows "safe response_shaped (receive E P)"
proof -
  have "shaped_client c' \<and> (\<forall>e. r = Inl e \<longrightarrow> client_error e) \<and> (\<forall>x. r = Inr x \<longrightarrow> response_shaped x)"
    if c: "shaped_client c" and run: "receive E P c = (r, c')" for c r c'
  proof (cases "cl_process c")
    case None
    with that show ?thesis by (auto simp: receive_def not_running_def client_error_def)
  next
    case (Some pr)
    obtain b p where s: "pe_readable P (pr_peer pr) = (b, p)" by (cases "pe_readable P (pr_peer pr)")
    have buf: "lines_shaped (pr_buffer pr)" using c Some by (simp add: shaped_client_def)
    show ?thesis
    proof (cases b)
      case False
      with run Some s buf show ?thesis by (auto simp: receive_def timed_out_def client_error_def shaped_client_def)
    next
      case True
      obtain ls p2 where rd: "pe_read P p = (ls, p2)" by (cases "pe_read P p")
      from assms have "fst (pe_read P p) \<noteq> [] \<and> lines_shaped (fst (pe_read P p))" by (simp add: shaped_peer_def)
      with rd have ls: "ls \<noteq> [] \<and> lines_shaped ls" by simp
      from True run Some s buf rd ls show ?thesis
        by (cases "pr_buffer pr"; cases ls) (auto simp: receive_def readline_def shaped_client_def lines_shaped_def)
    qed
  qed
  then show ?thesis unfolding safe_def by blast
qed

lemma response_error:
  assumes "response_shaped j" and "check_error E what fallback j = Inl e"
  shows "client_error e"
proof -
  from assms(1) obtain m where "j = JObj m" "\<forall>e. dict_get m ''error'' = Some e \<longrightarrow> (\<exists>em. e = JObj em)"
    by (auto simp: response_shaped_def)
  with assms(2) show ?thesis
    by (cases "dict_get m ''error''") (auto simp: check_error_def client_error_def)
qed

lemma safe_call: "shaped_peer P \<Longrightarrow> safe response_shaped (call E P method params what fallback)"
  unfolding call_def case_prod_unfold
  by (intro safe_bindp [where R = "\<lambda>_. True"] safe_thenp [where R = "\<lambda>_. True"] safe_build safe_send
      safe_bindp [where R = response_shaped] safe_receive safe_basic) (auto intro: response_error)

lemma shaped_result: "response_shaped j \<Longrightarrow> \<exists>r. json_get j ''result'' (JObj []) = Inr r \<and> result_shaped r"
  by (auto simp: response_shaped_def result_shaped_def field_def split: option.split)

lemma shaped_sessions:
  assumes "result_shaped r"
  shows "\<exists>xs. bindr (json_get r ''sessions'' (JArr [])) json_iter = Inr xs \<and> list_all session_shaped xs"
  using assms by (auto simp: result_shaped_def field_def split: option.split)

lemma mapr_sessions: "list_all session_shaped xs \<Longrightarrow> \<exists>ss. mapr session_of xs = Inr ss"
proof (induction xs)
  case (Cons x xs)
  then have "\<exists>s. session_of x = Inr s" by (auto simp: session_shaped_def session_of_def)
  with Cons show ?case by auto
qed simp

lemma safe_session_list: "shaped_peer P \<Longrightarrow> safe (\<lambda>_. True) (session_list E P)"
  unfolding session_list_def
proof (rule safe_bindp [OF safe_call])
  fix j assume "response_shaped j"
  then obtain r where r: "json_get j ''result'' (JObj []) = Inr r" "result_shaped r" using shaped_result by blast
  from shaped_sessions [OF r(2)] obtain xs where
    xs: "bindr (json_get r ''sessions'' (JArr [])) json_iter = Inr xs" "list_all session_shaped xs" by blast
  from mapr_sessions [OF xs(2)] r(1) xs(1)
  have "\<exists>ss. bindr (json_get j ''result'' (JObj [])) (\<lambda>res. bindr (json_get res ''sessions'' (JArr [])) (\<lambda>ss.
       bindr (json_iter ss) (mapr session_of))) = Inr ss" by (auto simp: bindr_Inr)
  then show "safe (\<lambda>_. True) (lift_result (bindr (json_get j ''result'' (JObj [])) (\<lambda>res. bindr (json_get res ''sessions'' (JArr [])) (\<lambda>ss.
       bindr (json_iter ss) (mapr session_of)))))" by (elim exE) (simp add: safe_def prog_simps)
qed

lemma safe_initialize: "shaped_peer P \<Longrightarrow> safe (\<lambda>_. True) (initialize E P)"
  unfolding initialize_def
proof (rule safe_bindp [OF safe_call])
  fix j assume "response_shaped j"
  then obtain m where "json_get j ''result'' (JObj []) = Inr (JObj m)" using shaped_result by (auto simp: result_shaped_def)
  then show "safe (\<lambda>_. True) (bindp (lift_result (json_get j ''result'' (JObj []))) (\<lambda>res.
     bindp (lift_result (json_get res ''serverInfo'' (JObj []))) (\<lambda>info. thenp (updates (\<lambda>c. c\<lparr>cl_server_info := info\<rparr>))
     (bindp (lift_result (json_get res ''sessionId'' JNull)) (\<lambda>sid. thenp (updates (\<lambda>c. c\<lparr>cl_session_id := sid\<rparr>)) (ret res))))))"
    by (intro safe_bindp [where R = "\<lambda>r. r = JObj m"] safe_bindp [where R = "\<lambda>_. True"] safe_thenp [where R = "\<lambda>_. True"] safe_basic) auto
qed

lemma safe_start:
  assumes "shaped_peer P"
  shows "safe (\<lambda>_. True) (start_client E P)"
proof -
  let ?spawn = "\<lambda>c :: 'a acp_client. case pe_spawn P (cl_command c) of Inl e \<Rightarrow> (Inl e, c)
     | Inr p \<Rightarrow> (Inr (), c\<lparr>cl_process := Some \<lparr>pr_peer = p, pr_buffer = []\<rparr>\<rparr>)"
  have spawn: "pe_spawn P cmd = Inl e \<Longrightarrow> client_error e" for cmd e
    using assms unfolding shaped_peer_def client_error_def by blast
  have "safe (\<lambda>_. True) ?spawn"
    by (auto simp: safe_def shaped_client_def lines_shaped_def dest: spawn split: sum.splits)
  then show ?thesis unfolding start_client_def by (rule safe_bindp) (rule safe_initialize [OF assms])
qed

lemma classify_error:
  assumes "response_shaped j" and "classify E n j = Inl e"
  shows "client_error e"
proof -
  from assms(1) obtain m where j: "j = JObj m" by (auto simp: response_shaped_def)
  show ?thesis
  proof (cases "check_error E ''prompt'' ''unknown error'' j")
    case (Inl x)
    with response_error [OF assms(1) this] assms(2) j show ?thesis
      by (auto simp: classify_def split: if_splits option.splits)
  next
    case (Inr u)
    with assms(2) j show ?thesis by (auto simp: classify_def split: if_splits option.splits)
  qed
qed

lemma prompt_loop_safe:
  assumes "prompt_loop E P n ups c = Some out"
  shows "shaped_peer P \<longrightarrow> shaped_client c \<longrightarrow> (\<forall>e. snd (fst out) = Inl e \<longrightarrow> client_error e)"
proof (rule prompt_loop.raw_induct [OF _ assms, where Pa = "\<lambda>((((E, P), n), ups), c) out.
    shaped_peer P \<longrightarrow> shaped_client c \<longrightarrow> (\<forall>e. snd (fst out) = Inl e \<longrightarrow> client_error e)", unfolded prod.case])
  fix loop E and P :: "'a peer" and n ups c out
  assume ih: "\<And>E (P :: 'a peer) n ups c out. loop E P n ups c = Some out \<Longrightarrow>
      shaped_peer P \<longrightarrow> shaped_client c \<longrightarrow> (\<forall>e. snd (fst out) = Inl e \<longrightarrow> client_error e)"
    and run: "(case receive E P c of (Inl e, c1) \<Rightarrow> Some ((ups, Inl e), c1)
      | (Inr response, c1) \<Rightarrow> (case classify E n response of Inl e \<Rightarrow> Some ((ups, Inl e), c1)
         | Inr Ignored \<Rightarrow> loop E P n ups c1 | Inr (Update u) \<Rightarrow> loop E P n (ups @ [u]) c1
         | Inr (Answer r) \<Rightarrow> Some ((ups, Inr r), c1))) = Some out"
  show "shaped_peer P \<longrightarrow> shaped_client c \<longrightarrow> (\<forall>e. snd (fst out) = Inl e \<longrightarrow> client_error e)"
  proof (intro impI allI)
    fix e assume P: "shaped_peer P" and c: "shaped_client c" and e: "snd (fst out) = Inl e"
    obtain r c1 where rc: "receive E P c = (r, c1)" by (cases "receive E P c")
    note got = safeD [OF safe_receive [OF P] c rc]
    show "client_error e"
    proof (cases r)
      case (Inl x)
      with run rc e got(2) show ?thesis by auto
    next
      case (Inr j)
      with got(3) have j: "response_shaped j" by blast
      show ?thesis
      proof (cases "classify E n j")
        case (Inl x)
        with run rc Inr e classify_error [OF j] show ?thesis by auto
      next
        case s: (Inr s)
        from run rc Inr e s ih [of E P n _ c1 out] P got(1) show ?thesis by (cases s) auto
      qed
    qed
  qed
qed

section \<open>Properties\<close>


text \<open>An agent that answers everything with one line.\<close>

definition parrot :: "json \<Rightarrow> unit peer" where
  "parrot j = \<lparr>pe_spawn = (\<lambda>_. Inr ()), pe_write = (\<lambda>_ p. (None, p)), pe_readable = (\<lambda>p. (True, p)),
     pe_read = (\<lambda>p. ([Inr j], p)), pe_running = (\<lambda>_. True)\<rparr>"

definition running_client :: "unit acp_client" where
  "running_client = (new_client [''agent''])\<lparr>cl_process := Some \<lparr>pr_peer = (), pr_buffer = []\<rparr>\<rparr>"


text \<open>The lines an agent writes, one at a time and each in time\<close>

inductive hears :: "'p peer \<Rightarrow> 'p \<Rightarrow> json list \<Rightarrow> 'p \<Rightarrow> bool" for P where
  Quiet: "hears P p [] p"
| Hears: "pe_readable P p = (True, p1) \<Longrightarrow> pe_read P p1 = ([Inr j], p2) \<Longrightarrow> hears P p2 js p' \<Longrightarrow> hears P p (j # js) p'"

inductive_simps hears_Nil [simp]: "hears P p [] p'"
inductive_cases hears_ConsE: "hears P p (j # js) p'"

definition is_update :: "json_obj \<Rightarrow> bool" where
  "is_update m \<longleftrightarrow> dict_get m ''method'' = Some (JStr ''session/update'')"

definition answers :: "int \<Rightarrow> json_obj \<Rightarrow> bool" where
  "answers n m \<longleftrightarrow> \<not> is_update m \<and> (case dict_get m ''id'' of Some i \<Rightarrow> equals_int i n | None \<Rightarrow> False)"

definition updates_of :: "json_obj list \<Rightarrow> json list" where
  "updates_of ms = map (\<lambda>m. field m ''params'' (JObj [])) (filter is_update ms)"

lemma classify_object:
  "classify E n (JObj m) = (if is_update m then Inr (Update (field m ''params'' (JObj [])))
     else if \<not> answers n m then Inr Ignored
     else bindr (check_error E ''prompt'' ''unknown error'' (JObj m)) (\<lambda>_. Inr (Answer (field m ''result'' (JObj [])))))"
  by (auto simp: classify_def is_update_def answers_def field_def split: option.splits)

lemma prompt_loop_hears:
  assumes "hears P p (map JObj ms @ [JObj a]) p'" and "\<forall>m\<in>set ms. \<not> answers n m" and "answers n a" and "dict_get a ''error'' = None"
  shows "cl_process c = Some \<lparr>pr_peer = p, pr_buffer = []\<rparr> \<Longrightarrow> prompt_loop E P n ups c =
    Some ((ups @ updates_of ms, Inr (field a ''result'' (JObj []))), c\<lparr>cl_process := Some \<lparr>pr_peer = p', pr_buffer = []\<rparr>\<rparr>)"
  using assms
proof (induction ms arbitrary: p ups c)
  case Nil
  then obtain p1 where "pe_readable P p = (True, p1)" "pe_read P p1 = ([Inr (JObj a)], p')" by (auto elim!: hears_ConsE)
  with Nil show ?case
    by (subst prompt_loop.simps) (auto simp: receive_def readline_def classify_object check_error_def updates_of_def answers_def)
next
  case (Cons m ms)
  then obtain p1 p2 where r: "pe_readable P p = (True, p1)" "pe_read P p1 = ([Inr (JObj m)], p2)"
    "hears P p2 (map JObj ms @ [JObj a]) p'" by (auto elim!: hears_ConsE)
  let ?c = "c\<lparr>cl_process := Some \<lparr>pr_peer = p2, pr_buffer = []\<rparr>\<rparr>"
  from r Cons.prems have rc: "receive E P c = (Inr (JObj m), ?c)" by (simp add: receive_def readline_def)
  have rest: "prompt_loop E P n ups' ?c = Some ((ups' @ updates_of ms, Inr (field a ''result'' (JObj []))),
      ?c\<lparr>cl_process := Some \<lparr>pr_peer = p', pr_buffer = []\<rparr>\<rparr>)" for ups'
    using Cons.IH [of ?c p2 ups'] r(3) Cons.prems by simp
  from Cons.prems(3) rc rest show ?case
    by (subst prompt_loop.simps) (simp add: classify_object updates_of_def)
qed

text \<open>A prompt streams the updates and returns the answer. When the agent writes one line at a time in
  time, messages \<open>ms\<close> of which none answers the prompt's request and then one that does, without an
  error, the prompt yields the parameters of exactly the updates among \<open>ms\<close>, in their order, and returns
  the answer's result; nothing is left unread.\<close>

lemma prompts_stream_the_answer:
  assumes "cl_process c = Some \<lparr>pr_peer = p, pr_buffer = []\<rparr>" and "\<forall>req. pe_write P req p = (None, p1)"
    and "hears P p1 (map JObj ms @ [JObj a]) p'" and "\<forall>m\<in>set ms. \<not> answers (cl_msg_id c + 1) m"
    and "answers (cl_msg_id c + 1) a" and "dict_get a ''error'' = None"
  shows "\<exists>c'. prompt E P text sid c = Some ((updates_of ms, Inr (field a ''result'' (JObj []))), c') \<and>
    cl_msg_id c' = cl_msg_id c + 1 \<and> cl_process c' = Some \<lparr>pr_peer = p', pr_buffer = []\<rparr> \<and> cl_session_id c' = cl_session_id c"
proof -
  let ?c = "c\<lparr>cl_msg_id := cl_msg_id c + 1, cl_process := Some \<lparr>pr_peer = p1, pr_buffer = []\<rparr>\<rparr>"
  have "prompt_loop E P (cl_msg_id c + 1) [] ?c = Some ((updates_of ms, Inr (field a ''result'' (JObj []))),
      ?c\<lparr>cl_process := Some \<lparr>pr_peer = p', pr_buffer = []\<rparr>\<rparr>)"
    using prompt_loop_hears [OF assms(3-6), of ?c E "[]"] by simp
  then show ?thesis
    using assms(1,2) by (simp add: prompt_def build_request_def send_def prog_simps Let_def split: option.split)
qed

definition telegraph :: "json list peer" where
  "telegraph = \<lparr>pe_spawn = (\<lambda>_. Inr []), pe_write = (\<lambda>_ p. (None, p)), pe_readable = (\<lambda>p. (p \<noteq> [], p)),
     pe_read = (\<lambda>p. case p of [] \<Rightarrow> ([], []) | j # js \<Rightarrow> ([Inr j], js)), pe_running = (\<lambda>_. True)\<rparr>"

lemma prompts_stream_the_answer_witness:
  "\<exists>c'. prompt demo_env telegraph ''hi'' None ((new_client [''agent''])\<lparr>cl_process := Some \<lparr>pr_peer =
      [JObj [(''method'', JStr ''session/update''), (''params'', JStr ''a'')], JObj [(''id'', JInt 1), (''result'', JStr ''z'')]],
      pr_buffer = []\<rparr>\<rparr>) = Some (([JStr ''a''], Inr (JStr ''z'')), c')"
proof -
  let ?u = "[(''method'', JStr ''session/update''), (''params'', JStr ''a'')]" and ?a = "[(''id'', JInt 1), (''result'', JStr ''z'')]"
  let ?c = "(new_client [''agent''])\<lparr>cl_process := Some \<lparr>pr_peer = [JObj ?u, JObj ?a], pr_buffer = []\<rparr>\<rparr>"
  have "hears telegraph [JObj ?u, JObj ?a] (map JObj [?u] @ [JObj ?a]) []"
    by (auto simp: telegraph_def intro!: hears.intros)
  moreover have "cl_process ?c = Some \<lparr>pr_peer = [JObj ?u, JObj ?a], pr_buffer = []\<rparr>" by simp
  moreover have "\<forall>req. pe_write telegraph req [JObj ?u, JObj ?a] = (None, [JObj ?u, JObj ?a])" by (simp add: telegraph_def)
  moreover have "\<forall>m\<in>set [?u]. \<not> answers (cl_msg_id ?c + 1) m" "answers (cl_msg_id ?c + 1) ?a" "dict_get ?a ''error'' = None"
    by (simp_all add: answers_def is_update_def dict_get_def equals_int_def new_client_def)
  ultimately have "\<exists>c'. prompt demo_env telegraph ''hi'' None ?c = Some ((updates_of [?u], Inr (field ?a ''result'' (JObj []))), c')"
    using prompts_stream_the_answer [of ?c] by blast
  then show ?thesis by (simp add: updates_of_def is_update_def field_def dict_get_def)
qed

text \<open>An answer that arrives together with an update is not seen, and goes to the next request. When the
  agent writes a notification and the answer at once and then waits, the prompt yields the update and
  raises the timeout although the answer was read; if the agent then says anything more (an update,
  the next answer), the next request takes the old answer for its own.\<close>

lemma answers_in_a_burst_are_missed:
  assumes "cl_process c = Some \<lparr>pr_peer = p, pr_buffer = []\<rparr>" and "\<forall>req. pe_write P req p = (None, p1)"
    and "pe_readable P p1 = (True, p2)" and "pe_read P p2 = ([Inr (JObj m), Inr (JObj a)], p3)"
    and "is_update m" and "pe_readable P p3 = (False, p4)"
  shows "\<exists>c'. prompt E P text sid c = Some (([field m ''params'' (JObj [])], Inl (timed_out E c)), c') \<and>
    (\<forall>p5 p6. (\<forall>req. pe_write P req p4 = (None, p5)) \<longrightarrow> pe_readable P p5 = (True, p6) \<longrightarrow> dict_get a ''error'' = None \<longrightarrow>
      fst (session_config_options E P c') = Inr (field a ''result'' (JObj [])))"
proof -
  let ?c = "c\<lparr>cl_msg_id := cl_msg_id c + 1, cl_process := Some \<lparr>pr_peer = p1, pr_buffer = []\<rparr>\<rparr>"
  let ?c1 = "c\<lparr>cl_msg_id := cl_msg_id c + 1, cl_process := Some \<lparr>pr_peer = p3, pr_buffer = [Inr (JObj a)]\<rparr>\<rparr>"
  let ?c2 = "c\<lparr>cl_msg_id := cl_msg_id c + 1, cl_process := Some \<lparr>pr_peer = p4, pr_buffer = [Inr (JObj a)]\<rparr>\<rparr>"
  have first: "receive E P ?c = (Inr (JObj m), ?c1)" using assms(3,4) by (simp add: receive_def readline_def)
  have second: "receive E P ?c1 = (Inl (timed_out E c), ?c2)" using assms(6) by (simp add: receive_def timed_out_def)
  have "prompt_loop E P (cl_msg_id c + 1) [] ?c = Some (([field m ''params'' (JObj [])], Inl (timed_out E c)), ?c2)"
    using assms(5) by (subst prompt_loop.simps, simp add: first classify_object, subst prompt_loop.simps, simp add: second)
  then have "prompt E P text sid c = Some (([field m ''params'' (JObj [])], Inl (timed_out E c)), ?c2)"
    using assms(1,2) by (simp add: prompt_def build_request_def send_def prog_simps Let_def split: option.split)
  moreover have "fst (session_config_options E P ?c2) = Inr (field a ''result'' (JObj []))"
    if "\<forall>req. pe_write P req p4 = (None, p5)" "pe_readable P p5 = (True, p6)" "dict_get a ''error'' = None" for p5 p6
    using that by (simp add: session_config_options_def call_def build_request_def send_def receive_def readline_def prog_simps
        Let_def check_error_def)
  ultimately show ?thesis by blast
qed

definition bursting :: "line list list peer" where
  "bursting = \<lparr>pe_spawn = (\<lambda>_. Inr []), pe_write = (\<lambda>_ p. (None, p)), pe_readable = (\<lambda>p. (p \<noteq> [], p)),
     pe_read = (\<lambda>p. case p of [] \<Rightarrow> ([], []) | ls # rest \<Rightarrow> (ls, rest)), pe_running = (\<lambda>_. True)\<rparr>"

lemma answers_in_a_burst_are_missed_witness:
  "\<exists>e c'. prompt demo_env bursting ''hi'' None ((new_client [''agent''])\<lparr>cl_process := Some \<lparr>pr_peer =
      [[Inr (JObj [(''method'', JStr ''session/update''), (''params'', JStr ''a'')]), Inr (JObj [(''id'', JInt 1), (''result'', JStr ''z'')])]],
      pr_buffer = []\<rparr>\<rparr>) = Some (([JStr ''a''], Inl (ACPClientError e)), c')"
proof -
  let ?u = "[(''method'', JStr ''session/update''), (''params'', JStr ''a'')]" and ?a = "[(''id'', JInt 1), (''result'', JStr ''z'')]"
  let ?p = "[[Inr (JObj ?u), Inr (JObj ?a)]] :: line list list"
  let ?c = "(new_client [''agent''])\<lparr>cl_process := Some \<lparr>pr_peer = ?p, pr_buffer = []\<rparr>\<rparr>"
  have "cl_process ?c = Some \<lparr>pr_peer = ?p, pr_buffer = []\<rparr>" "\<forall>req. pe_write bursting req ?p = (None, ?p)"
    "pe_readable bursting ?p = (True, ?p)" "pe_read bursting ?p = ([Inr (JObj ?u), Inr (JObj ?a)], [])" "is_update ?u"
    "pe_readable bursting [] = (False, [])"
    by (simp_all add: bursting_def is_update_def dict_get_def)
  from answers_in_a_burst_are_missed [OF this] have "\<exists>c'. prompt demo_env bursting ''hi'' None ?c =
      Some (([field ?u ''params'' (JObj [])], Inl (timed_out demo_env ?c)), c')" by blast
  moreover have "\<exists>e. timed_out demo_env ?c = ACPClientError e" by (simp add: timed_out_def)
  ultimately show ?thesis by (auto simp: field_def dict_get_def)
qed

end
