(* ===== verification/Observer.thy ===== *)
theory Observer imports AcpRegistry AcpClient Cost begin

text \<open>
  The observer of the ACP agents, \<open>observer/monitor.py\<close>: registry reachability, closing stale sessions,
  one restart of an unhealthy agent, and the uptime and restart metrics. It works on the world with the
  state of its own, a record \<open>observer\<close>. The clients its factory makes are a parameter, an \<open>agent_port\<close>
  over a client state \<open>'c\<close>; \<open>acp_port\<close> is the port of the client of \<open>AcpClient\<close>. \<open>shlex_split\<close> splits a
  command line, and a time stamp parses to whether it has a time zone and its seconds.
\<close>

section \<open>The observer's surroundings\<close>

text \<open>A client, numbered, is made for a command; then it is started, asked, stopped.\<close>

record 'c agent_port =
  po_new :: "nat \<Rightarrow> string list \<Rightarrow> 'c"
  po_start :: "('c, unit) prog"
  po_sessions :: "('c, session_info list) prog"
  po_close :: "json \<Rightarrow> ('c, unit) prog"
  po_running :: "'c \<Rightarrow> bool"
  po_stop :: "('c, unit) prog"

definition acp_port :: "env \<Rightarrow> (nat \<Rightarrow> 'p peer) \<Rightarrow> (nat \<times> 'p acp_client) agent_port" where
  "acp_port E P = \<lparr>po_new = (\<lambda>k command. (k, new_client command)),
     po_start = (\<lambda>(k, c). with_local (bindp (start_client E (P k)) (\<lambda>_. ret ())) (k, c)),
     po_sessions = (\<lambda>(k, c). with_local (session_list E (P k)) (k, c)),
     po_close = (\<lambda>sid (k, c). with_local (session_close E (P k) sid) (k, c)),
     po_running = (\<lambda>(k, c). is_running (P k) c),
     po_stop = with_local stop_client\<rparr>"

record 'c surroundings =
  su_port :: "'c agent_port"
  su_network :: network
  su_shlex :: "string \<Rightarrow> exn + string list"
  su_stamp :: "string \<Rightarrow> (bool \<times> real) option"

record observer =
  ob_config :: observer_config
  ob_restarts :: "(string, int) dict"
  ob_unhealthy :: "string list"
  ob_clients :: nat

section \<open>Configuration\<close>

definition default_observer_config :: observer_config where
  "default_observer_config = \<lparr>oc_enabled = False, oc_poll_interval = 60, oc_cleanup_interval = 300,
     oc_health_interval = 300, oc_metrics_interval = 300, oc_stale_max_age = 3600\<rparr>"

text \<open>\<open>validate\<close> is pydantic's \<open>ObserverConfig.model_validate\<close>; \<open>None\<close> is a \<open>ValidationError\<close>.\<close>

definition load_observer_config :: "env \<Rightarrow> (json_obj \<Rightarrow> observer_config option) \<Rightarrow> (world, observer_config) prog" where
  "load_observer_config E validate = bindp (asks (\<lambda>w. file_exists (w_config w))) (\<lambda>there.
     if \<not> there then ret default_observer_config
     else catchp (bindp (load_config E) (\<lambda>c. ret (case dict_get (cf_features c) ''observer'' of
            Some (JBool True) \<Rightarrow> default_observer_config\<lparr>oc_enabled := True\<rparr>
          | Some (JObj raw) \<Rightarrow> (case validate raw of Some oc \<Rightarrow> oc | None \<Rightarrow> default_observer_config)
          | _ \<Rightarrow> default_observer_config)))
       (\<lambda>e. case e of ConfigError _ \<Rightarrow> ret default_observer_config | _ \<Rightarrow> throw e))"

section \<open>Alerts and time\<close>

definition observer_alert :: "env \<Rightarrow> string \<Rightarrow> alert_severity \<Rightarrow> string \<Rightarrow> json_obj \<Rightarrow> (world, bool) prog" where
  "observer_alert E source sev message meta = bindp (uuid4 E) (\<lambda>u. bindp (utc_now E) (\<lambda>t.
     catchp (bindp (add_alert E \<lparr>da_id = u, da_created_at = t, da_source = source, da_severity = sev,
       da_message = message, da_metadata = meta\<rparr>) (\<lambda>_. ret True)) drop_daemon_errors))"

text \<open>The difference of two time stamps: one with a time zone and one without cannot be subtracted.\<close>

definition parse_stamp :: "'c surroundings \<Rightarrow> string \<Rightarrow> exn + bool \<times> real" where
  "parse_stamp S v = (case su_stamp S (utc_suffix v) of Some t \<Rightarrow> Inr t
     | None \<Rightarrow> Inl (ValueError (''Invalid isoformat string: '' @ py_repr (utc_suffix v))))"

definition seconds_between :: "bool \<times> real \<Rightarrow> bool \<times> real \<Rightarrow> exn + real" where
  "seconds_between later earlier = (if fst later \<noteq> fst earlier
     then Inl (TypeError (''can'' @ [CHR 0x27] @ ''t subtract offset-naive and offset-aware datetimes''))
     else Inr (snd later - snd earlier))"

definition session_age :: "env \<Rightarrow> 'c surroundings \<Rightarrow> session_info \<Rightarrow> bool \<times> real \<Rightarrow> exn + real option" where
  "session_age E S s now = bindr (json_get (si_metadata s) ''updated_at'' JNull) (\<lambda>u.
     bindr (if truthy u then Inr u else json_get (si_metadata s) ''created_at'' JNull) (\<lambda>raw.
     if \<not> truthy raw then Inr None
     else (case parse_stamp S (py_str E raw) of Inl _ \<Rightarrow> Inr None
       | Inr t \<Rightarrow> bindr (seconds_between now t) (\<lambda>age. Inr (Some age)))))"

definition agent_id_of :: "env \<Rightarrow> json \<Rightarrow> exn + string" where
  "agent_id_of E agent = bindr (json_get agent ''id'' (JStr ''unknown'')) (\<lambda>v. Inr (py_str E v))"

definition agent_meta :: "string \<Rightarrow> json_obj" where
  "agent_meta aid = [(''agent_id'', JStr aid)]"

text \<open>The next client, for the agent's command.\<close>

definition make_client :: "env \<Rightarrow> 'c surroundings \<Rightarrow> json \<Rightarrow> (observer \<times> world, 'c) prog" where
  "make_client E S agent = bindp (lift_result (agent_command_from_install E (su_shlex S) agent)) (\<lambda>command. \<lambda>(b, w).
     (Inr (po_new (su_port S) (ob_clients b) command), (b\<lparr>ob_clients := Suc (ob_clients b)\<rparr>, w)))"

section \<open>Registry\<close>

definition check_registry :: "env \<Rightarrow> 'c surroundings \<Rightarrow> (observer \<times> world, json_obj option) prog" where
  "check_registry E S = bindp (with_local (is_registry_accessible (su_network S))) (\<lambda>accessible.
     bindp (if accessible then ret False
       else with_local (observer_alert E ''acp-registry'' SevWarning ''ACP registry is not accessible.'' [])) (\<lambda>alerted.
     ret (Some [(''accessible'', JBool accessible), (''alerted'', JBool alerted)])))"

section \<open>Stale sessions\<close>

record cleanup =
  cu_checked :: int
  cu_closed :: int
  cu_errors :: int

definition close_stale :: "env \<Rightarrow> 'c surroundings \<Rightarrow> real \<Rightarrow> bool \<times> real \<Rightarrow> session_info \<Rightarrow> cleanup \<Rightarrow> ('c, cleanup) prog" where
  "close_stale E S max_age now s t0 = (let t = t0\<lparr>cu_checked := cu_checked t0 + 1\<rparr> in
     bindp (lift_result (session_age E S s now)) (\<lambda>age. case age of
       None \<Rightarrow> ret t
     | Some a \<Rightarrow> if a \<le> max_age then ret t
         else catchp (bindp (po_close (su_port S) (si_id s)) (\<lambda>_. ret (t\<lparr>cu_closed := cu_closed t + 1\<rparr>)))
           (\<lambda>_. ret (t\<lparr>cu_errors := cu_errors t + 1\<rparr>))))"

text \<open>One agent: its client is stopped on every path, which nothing in the model sees.\<close>

definition cleanup_agent :: "env \<Rightarrow> 'c surroundings \<Rightarrow> real \<Rightarrow> bool \<times> real \<Rightarrow> json \<Rightarrow> cleanup \<Rightarrow> (observer \<times> world, cleanup) prog" where
  "cleanup_agent E S max_age now agent t = bindp (lift_result (agent_id_of E agent)) (\<lambda>aid.
     bindp (make_client E S agent) (\<lambda>client.
     case bindp (po_start (su_port S)) (\<lambda>_. po_sessions (su_port S)) client of
       (Inl e, _) \<Rightarrow> thenp (with_local (observer_alert E ''acp-sessions'' SevWarning
           (''Could not list sessions for agent '' @ quoted aid @ '': '' @ exn_message e) (agent_meta aid)))
         (ret (t\<lparr>cu_errors := cu_errors t + 1\<rparr>))
     | (Inr sessions, client') \<Rightarrow> lift_result (fst (foldp (close_stale E S max_age now) sessions t client'))))"

definition cleanup_stale_sessions :: "env \<Rightarrow> 'c surroundings \<Rightarrow> (observer \<times> world, json_obj option) prog" where
  "cleanup_stale_sessions E S = bindp (asks (\<lambda>(b, w). oc_stale_max_age (ob_config b))) (\<lambda>max_age.
     bindp (with_local (utc_now E)) (\<lambda>t. bindp (lift_result (parse_stamp S t)) (\<lambda>now.
     bindp (with_local get_installed_agents) (\<lambda>agents.
     bindp (foldp (cleanup_agent E S max_age now) agents \<lparr>cu_checked = 0, cu_closed = 0, cu_errors = 0\<rparr>) (\<lambda>r.
       ret (Some [(''checked'', JInt (cu_checked r)), (''closed'', JInt (cu_closed r)), (''errors'', JInt (cu_errors r))]))))))"

section \<open>Unhealthy agents\<close>

text \<open>\<open>_probe\<close>: start, look, stop; whatever start raises counts as not running.\<close>

definition stop_quietly :: "'c agent_port \<Rightarrow> 'c \<Rightarrow> 'c" where
  "stop_quietly Q c = snd (po_stop Q c)"

definition probe_agent :: "'c agent_port \<Rightarrow> 'c \<Rightarrow> bool \<times> 'c" where
  "probe_agent Q c = (case po_start Q c of (Inl _, c1) \<Rightarrow> (False, stop_quietly Q c1)
     | (Inr _, c1) \<Rightarrow> (po_running Q c1, stop_quietly Q c1))"

record restart_report =
  rs_checked :: int
  rs_healthy :: int
  rs_restarted :: int
  rs_failed :: int

definition set_unhealthy :: "bool \<Rightarrow> string \<Rightarrow> observer \<Rightarrow> observer" where
  "set_unhealthy bad aid b = b\<lparr>ob_unhealthy := (if bad then List.insert aid (ob_unhealthy b) else removeAll aid (ob_unhealthy b))\<rparr>"

definition count_restart :: "string \<Rightarrow> observer \<Rightarrow> observer" where
  "count_restart aid b = b\<lparr>ob_restarts := dict_set aid ((case dict_get (ob_restarts b) aid of Some n \<Rightarrow> n | None \<Rightarrow> 0) + 1) (ob_restarts b)\<rparr>"

definition on_observer :: "(observer \<Rightarrow> observer) \<Rightarrow> (observer \<times> world, unit) prog" where
  "on_observer g = updates (\<lambda>(b, w). (g b, w))"

definition restart_agent :: "env \<Rightarrow> 'c surroundings \<Rightarrow> json \<Rightarrow> restart_report \<Rightarrow> (observer \<times> world, restart_report) prog" where
  "restart_agent E S agent t0 = bindp (lift_result (agent_id_of E agent)) (\<lambda>aid.
     let t = t0\<lparr>rs_checked := rs_checked t0 + 1\<rparr> in
     bindp (make_client E S agent) (\<lambda>client. case probe_agent (su_port S) client of (healthy, client1) \<Rightarrow>
       if healthy then thenp (on_observer (set_unhealthy False aid)) (ret (t\<lparr>rs_healthy := rs_healthy t + 1\<rparr>))
       else thenp (on_observer (count_restart aid)) (case probe_agent (su_port S) client1 of (recovered, _) \<Rightarrow>
         if recovered
         then thenp (on_observer (set_unhealthy False aid)) (thenp (with_local (observer_alert E ''acp-agents'' SevInfo
           (''Agent '' @ quoted aid @ '' recovered after restart.'') (agent_meta aid))) (ret (t\<lparr>rs_restarted := rs_restarted t + 1\<rparr>)))
         else thenp (on_observer (set_unhealthy True aid)) (thenp (with_local (observer_alert E ''acp-agents'' SevCritical
           (''Agent '' @ quoted aid @ '' is unhealthy and failed to restart.'') (agent_meta aid))) (ret (t\<lparr>rs_failed := rs_failed t + 1\<rparr>))))))"

definition restart_unhealthy_agents :: "env \<Rightarrow> 'c surroundings \<Rightarrow> (observer \<times> world, json_obj option) prog" where
  "restart_unhealthy_agents E S = bindp (with_local get_installed_agents) (\<lambda>agents.
     bindp (foldp (restart_agent E S) agents \<lparr>rs_checked = 0, rs_healthy = 0, rs_restarted = 0, rs_failed = 0\<rparr>) (\<lambda>r.
       ret (Some [(''checked'', JInt (rs_checked r)), (''healthy'', JInt (rs_healthy r)),
         (''restarted'', JInt (rs_restarted r)), (''failed'', JInt (rs_failed r))])))"

section \<open>Metrics\<close>

definition load_metrics :: "world \<Rightarrow> observer_metrics option" where
  "load_metrics w = (case w_metrics w of Doc m \<Rightarrow> Some m | _ \<Rightarrow> None)"

definition metrics_path :: string where
  "metrics_path = ''~/.forge/daemon/metrics.json''"

definition write_metrics :: "env \<Rightarrow> observer_metrics \<Rightarrow> (world, unit) prog" where
  "write_metrics E m = bindp (uuid4 E) (\<lambda>_. write_file E metrics_path (\<lambda>w. w\<lparr>w_metrics := Doc m\<rparr>))"

definition fresh_metrics :: agent_metrics where
  "fresh_metrics = \<lparr>mt_uptime_seconds = 0, mt_restarts = 0, mt_last_check = None\<rparr>"

definition metrics_of :: "observer_metrics \<Rightarrow> string \<Rightarrow> agent_metrics" where
  "metrics_of m aid = (case dict_get (om_agents m) aid of Some e \<Rightarrow> e | None \<Rightarrow> fresh_metrics)"

definition pending_restarts :: "observer \<Rightarrow> string \<Rightarrow> int" where
  "pending_restarts b aid = (case dict_get (ob_restarts b) aid of Some n \<Rightarrow> n | None \<Rightarrow> 0)"

definition accrue :: "env \<Rightarrow> string \<Rightarrow> real \<Rightarrow> json \<Rightarrow> observer_metrics \<Rightarrow> (observer \<times> world, observer_metrics) prog" where
  "accrue E now elapsed agent m = bindp (lift_result (agent_id_of E agent)) (\<lambda>aid. \<lambda>(b, w).
     let e = metrics_of m aid;
         e' = \<lparr>mt_uptime_seconds = mt_uptime_seconds e + (if aid \<in> set (ob_unhealthy b) then 0 else elapsed),
           mt_restarts = mt_restarts e + pending_restarts b aid, mt_last_check = Some now\<rparr>
     in (Inr (m\<lparr>om_agents := dict_set aid e' (om_agents m)\<rparr>), (b\<lparr>ob_restarts := AList.delete aid (ob_restarts b)\<rparr>, w)))"

definition elapsed_since :: "'c surroundings \<Rightarrow> string \<Rightarrow> string option \<Rightarrow> exn + real" where
  "elapsed_since S now collected = (case collected of None \<Rightarrow> Inr 0
     | Some c \<Rightarrow> bindr (parse_stamp S c) (\<lambda>previous. bindr (parse_stamp S now) (\<lambda>n.
         bindr (seconds_between n previous) (\<lambda>d. Inr (max d 0)))))"

definition agent_metrics_json :: "agent_metrics \<Rightarrow> json" where
  "agent_metrics_json e = JObj [(''uptime_seconds'', JFloat (mt_uptime_seconds e)), (''restarts'', JInt (mt_restarts e)),
     (''last_check'', opt_str (mt_last_check e))]"

definition collect_metrics :: "env \<Rightarrow> 'c surroundings \<Rightarrow> (observer \<times> world, json_obj option) prog" where
  "collect_metrics E S = bindp (asks (\<lambda>(b, w). case load_metrics w of Some m \<Rightarrow> m
       | None \<Rightarrow> \<lparr>om_collected_at = None, om_agents = []\<rparr>)) (\<lambda>m0.
     bindp (with_local (utc_now E)) (\<lambda>now. bindp (lift_result (elapsed_since S now (om_collected_at m0))) (\<lambda>elapsed.
     bindp (with_local get_installed_agents) (\<lambda>agents. bindp (foldp (accrue E now elapsed) agents m0) (\<lambda>m1.
     let m2 = m1\<lparr>om_collected_at := Some now\<rparr> in
     thenp (with_local (write_metrics E m2)) (ret (Some [(''collected_at'', JStr now),
       (''agents'', JObj (map (\<lambda>(n, e). (n, agent_metrics_json e)) (om_agents m2))), (''path'', JStr metrics_path)])))))))"

section \<open>Lemmas\<close>

lemma pending_simps [simp]:
  "pending_restarts (b\<lparr>ob_restarts := AList.delete k (ob_restarts b)\<rparr>) a = (if a = k then 0 else pending_restarts b a)"
  "pending_restarts (set_unhealthy u k b) a = pending_restarts b a"
  "pending_restarts (count_restart k b) a = pending_restarts b a + (if a = k then 1 else 0)"
  "pending_restarts (b\<lparr>ob_clients := n\<rparr>) a = pending_restarts b a"
  by (auto simp: pending_restarts_def set_unhealthy_def count_restart_def dict_get_def delete_conv' split: option.split)
    (simp_all add: dict_set_def update_conv')

lemma metrics_of_set: "metrics_of (m\<lparr>om_agents := dict_set k e (om_agents m)\<rparr>) a = (if a = k then e else metrics_of m a)"
  by (simp add: metrics_of_def)

text \<open>One pass over the agents: a restart is either pending or counted.\<close>

definition accrued :: "observer_metrics \<times> observer \<Rightarrow> observer_metrics \<times> observer \<Rightarrow> bool" where
  "accrued x y = (case (x, y) of ((m, b), (m', b')) \<Rightarrow> ob_unhealthy b' = ob_unhealthy b \<and>
     (\<forall>a. mt_restarts (metrics_of m' a) + pending_restarts b' a = mt_restarts (metrics_of m a) + pending_restarts b a \<and>
       (pending_restarts b a = 0 \<longrightarrow> pending_restarts b' a = 0) \<and> mt_uptime_seconds (metrics_of m a) \<le> mt_uptime_seconds (metrics_of m' a) \<and>
       (a \<in> set (ob_unhealthy b) \<longrightarrow> mt_uptime_seconds (metrics_of m' a) = mt_uptime_seconds (metrics_of m a))))"

lemma accrue_accrued:
  assumes "accrue E now d agent m (b, w) = (Inr m', (b', w'))" and "0 \<le> d"
  shows "w' = w \<and> accrued (m, b) (m', b') \<and> (\<forall>aid. agent_id_of E agent = Inr aid \<longrightarrow> pending_restarts b' aid = 0)"
  using assms by (auto simp: accrue_def prog_simps Let_def accrued_def metrics_of_set split: sum.splits)

lemma accrue_fold:
  assumes "0 \<le> d"
  shows "foldp (accrue E now d) agents m (b, w) = (Inr m', (b', w')) \<Longrightarrow> w' = w \<and> accrued (m, b) (m', b') \<and>
    (\<forall>agent\<in>set agents. \<forall>aid. agent_id_of E agent = Inr aid \<longrightarrow> pending_restarts b' aid = 0)"
proof (induction agents arbitrary: m b)
  case Nil
  then show ?case by (auto simp: ret_run accrued_def)
next
  case (Cons agent agents)
  then obtain m1 b1 w1 where s: "accrue E now d agent m (b, w) = (Inr m1, (b1, w1))"
    and rest: "foldp (accrue E now d) agents m1 (b1, w1) = (Inr m', (b', w'))"
    by (auto simp: bindp_run split: prod.splits sum.splits)
  from accrue_accrued [OF s assms] have 1: "w1 = w" "accrued (m, b) (m1, b1)"
    "\<forall>aid. agent_id_of E agent = Inr aid \<longrightarrow> pending_restarts b1 aid = 0" by auto
  from Cons.IH [of m1 b1] rest 1(1) have 2: "w' = w" "accrued (m1, b1) (m', b')"
    "\<forall>agent\<in>set agents. \<forall>aid. agent_id_of E agent = Inr aid \<longrightarrow> pending_restarts b' aid = 0" by auto
  from 1(2) 2(2) have "accrued (m, b) (m', b')" unfolding accrued_def by (auto intro: order_trans)
  moreover have "\<forall>aid. agent_id_of E agent = Inr aid \<longrightarrow> pending_restarts b' aid = 0"
    using 1(3) 2(2) by (auto simp: accrued_def)
  ultimately show ?case using 2 by auto
qed

lemma elapsed_nonneg: "elapsed_since S now c = Inr d \<Longrightarrow> 0 \<le> d"
  by (auto simp: elapsed_since_def bindr_Inr split: option.splits)

lemma write_metrics_run:
  "write_metrics E m w = (r, w') \<Longrightarrow> (r = Inr () \<and> w_metrics w' = Doc m) \<or> (r = Inl (OSError metrics_path) \<and> w_metrics w' = w_metrics w)"
  by (auto simp: write_metrics_def prog_simps split: if_splits)

definition last_metrics :: "world \<Rightarrow> observer_metrics" where
  "last_metrics w = (case load_metrics w of Some m \<Rightarrow> m | None \<Rightarrow> \<lparr>om_collected_at = None, om_agents = []\<rparr>)"

lemma agent_id_errors: "agent_id_of E agent = Inl e \<Longrightarrow> \<exists>m. e = OtherException m"
  by (cases agent) (auto simp: agent_id_of_def json_get_def no_attribute_def)

lemma accrue_fold_errors: "foldp (accrue E now d) agents m (b, w) = (Inl e, (b', w')) \<Longrightarrow> (\<exists>m. e = OtherException m) \<and> w' = w"
proof (induction agents arbitrary: m b)
  case (Cons agent agents)
  show ?case
  proof (cases "agent_id_of E agent")
    case (Inl x)
    with Cons.prems agent_id_errors [OF Inl] show ?thesis by (simp add: bindp_run accrue_def lift_result_run)
  next
    case (Inr aid)
    with Cons show ?thesis by (simp add: bindp_run accrue_def lift_result_run Let_def)
  qed
qed (simp add: ret_run)

lemma collect_metrics_steps:
  assumes "collect_metrics E S (b, w) = (r, (b', w'))"
  shows "(\<exists>e. r = Inl e \<and> (\<forall>p. e \<noteq> OSError p) \<and> w_metrics w' = w_metrics w) \<or>
    (\<exists>now d agents m1 w1 u. 0 \<le> d \<and> fst (get_installed_agents w) = Inr agents \<and>
      foldp (accrue E now d) agents (last_metrics w) (b, w1) = (Inr m1, (b', w1)) \<and> w_metrics w1 = w_metrics w \<and>
      write_metrics E (m1\<lparr>om_collected_at := Some now\<rparr>) w1 = (u, w') \<and> ((\<exists>e. u = Inl e \<and> r = Inl e) \<or> u = Inr () \<and> (\<exists>x. r = Inr x)))"
proof -
  let ?now = "now_at E (w_clock w)" and ?w1 = "w\<lparr>w_clock := Suc (w_clock w)\<rparr>"
  have same: "w_metrics ?w1 = w_metrics w" "get_installed_agents ?w1 = (fst (get_installed_agents w), ?w1)"
    by (simp_all add: get_installed_agents_def load_installed_def prog_simps)
  have start: "collect_metrics E S (b, w) = (case elapsed_since S ?now (om_collected_at (last_metrics w)) of Inl e \<Rightarrow> (Inl e, (b, ?w1))
     | Inr d \<Rightarrow> (case fst (get_installed_agents w) of Inl e \<Rightarrow> (Inl e, (b, ?w1))
       | Inr agents \<Rightarrow> bindp (foldp (accrue E ?now d) agents (last_metrics w)) (\<lambda>m1. let m2 = m1\<lparr>om_collected_at := Some ?now\<rparr> in
          thenp (with_local (write_metrics E m2)) (ret (Some [(''collected_at'', JStr ?now),
            (''agents'', JObj (map (\<lambda>(n, e). (n, agent_metrics_json e)) (om_agents m2))), (''path'', JStr metrics_path)]))) (b, ?w1)))"
    by (simp add: collect_metrics_def last_metrics_def bindp_run asks_run with_local_run utc_now_def lift_result_run same(2) split: sum.split)
  show ?thesis
  proof (cases "elapsed_since S ?now (om_collected_at (last_metrics w))")
    case (Inl e)
    then have "\<forall>p. e \<noteq> OSError p"
      by (auto simp: elapsed_since_def bindr_Inl parse_stamp_def seconds_between_def split: option.splits if_splits)
    with Inl assms start show ?thesis by (intro disjI1) auto
  next
    case d: (Inr d)
    show ?thesis
    proof (cases "fst (get_installed_agents w)")
      case (Inl e)
      then have "\<forall>p. e \<noteq> OSError p"
        by (auto simp: get_installed_agents_def load_installed_def prog_simps no_attribute_def split: doc_file.splits json.splits)
      with Inl d assms start show ?thesis by (intro disjI1) auto
    next
      case agents: (Inr agents)
      obtain q b1 w2 where fold: "foldp (accrue E ?now d) agents (last_metrics w) (b, ?w1) = (q, (b1, w2))"
        by (metis surj_pair)
      show ?thesis
      proof (cases q)
        case (Inl e)
        with accrue_fold_errors [OF fold [unfolded Inl]] d agents assms start fold same show ?thesis by (auto simp: bindp_run)
      next
        case (Inr m1)
        from accrue_fold [OF elapsed_nonneg [OF d]] fold Inr have "w2 = ?w1" by blast
        obtain u w3 where wr: "write_metrics E (m1\<lparr>om_collected_at := Some ?now\<rparr>) ?w1 = (u, w3)"
          by (cases "write_metrics E (m1\<lparr>om_collected_at := Some ?now\<rparr>) ?w1")
        have out: "w' = w3 \<and> b' = b1 \<and> ((\<exists>e. u = Inl e \<and> r = Inl e) \<or> u = Inr () \<and> (\<exists>x. r = Inr x))"
          using start assms d agents fold Inr \<open>w2 = ?w1\<close> wr by (auto simp: bindp_run thenp_run with_local_run Let_def ret_run split: sum.splits)
        show ?thesis
          using elapsed_nonneg [OF d] agents fold Inr \<open>w2 = ?w1\<close> wr out same(1)
          by (intro disjI2 exI [of _ ?now] exI [of _ d] exI [of _ agents] exI [of _ m1] exI [of _ ?w1] exI [of _ u]) simp
      qed
    qed
  qed
qed

text \<open>An alert is best-effort.\<close>

lemma observer_alert_total:
  assumes "observer_alert E source sev message meta w = (r, w')"
  shows "(\<exists>b. r = Inr b) \<and> beyond_daemon w' = beyond_daemon w"
proof -
  have "unchanged beyond_daemon (observer_alert E source sev message meta)"
    unfolding observer_alert_def by (intro frame_intros)
  moreover have "\<exists>b. fst (observer_alert E source sev message meta w) = Inr b"
    using best_effort_alert by (simp add: observer_alert_def bindp_run env_reads)
  ultimately show ?thesis using assms unchanged_result by fastforce
qed

text \<open>The rows the observer can use: objects whose command splits.\<close>

definition usable_row :: "env \<Rightarrow> 'c surroundings \<Rightarrow> json \<Rightarrow> bool" where
  "usable_row E S agent \<longleftrightarrow> (\<exists>aid command. agent_id_of E agent = Inr aid \<and> agent_command_from_install E (su_shlex S) agent = Inr command)"

lemma restart_agent_result:
  assumes "restart_agent E S agent t (b, w) = (r, (b', w'))" and "agent_id_of E agent = Inr aid"
    and "agent_command_from_install E (su_shlex S) agent = Inr command"
  shows "\<exists>t'. r = Inr t' \<and> rs_checked t' = rs_checked t + 1 \<and> beyond_daemon w' = beyond_daemon w \<and>
    (let failed = rs_failed t' - rs_failed t; restarted = rs_restarted t' - rs_restarted t; healthy = rs_healthy t' - rs_healthy t in
      healthy + restarted + failed = 1 \<and> 0 \<le> healthy \<and> 0 \<le> restarted \<and> 0 \<le> failed \<and>
      (\<forall>a. pending_restarts b' a = pending_restarts b a + (if a = aid then restarted + failed else 0)) \<and>
      set (ob_unhealthy b') = (if failed = 1 then insert aid (set (ob_unhealthy b)) else set (ob_unhealthy b) - {aid}))"
proof -
  let ?Q = "su_port S" and ?b = "b\<lparr>ob_clients := Suc (ob_clients b)\<rparr>"
  obtain h c1 where p1: "probe_agent ?Q (po_new ?Q (ob_clients b) command) = (h, c1)" by (cases "probe_agent ?Q (po_new ?Q (ob_clients b) command)")
  obtain h2 c2 where p2: "probe_agent ?Q c1 = (h2, c2)" by (cases "probe_agent ?Q c1")
  obtain u v where al: "observer_alert E ''acp-agents'' SevInfo (''Agent '' @ quoted aid @ '' recovered after restart.'') (agent_meta aid) w = (Inr u, v)"
    "beyond_daemon v = beyond_daemon w"
    using observer_alert_total by (metis surj_pair)
  obtain u2 v2 where al2: "observer_alert E ''acp-agents'' SevCritical (''Agent '' @ quoted aid @ '' is unhealthy and failed to restart.'') (agent_meta aid) w = (Inr u2, v2)"
    "beyond_daemon v2 = beyond_daemon w"
    using observer_alert_total by (metis surj_pair)
  note run = restart_agent_def make_client_def on_observer_def prog_simps Let_def assms(2,3) p1 p2
  consider "h" | "\<not> h" "h2" | "\<not> h" "\<not> h2" by blast
  then show ?thesis
  proof cases
    case 1
    with assms(1) show ?thesis by (auto simp: run set_unhealthy_def pending_restarts_def)
  next
    case 2
    with assms(1) al show ?thesis by (auto simp: run) (auto simp: set_unhealthy_def count_restart_def)
  next
    case 3
    with assms(1) al2 show ?thesis by (auto simp: run) (auto simp: set_unhealthy_def count_restart_def)
  qed
qed

lemma restart_fold:
  assumes "\<forall>agent\<in>set agents. usable_row E S agent"
  shows "\<exists>t' b' w'. foldp (restart_agent E S) agents t (b, w) = (Inr t', (b', w')) \<and> beyond_daemon w' = beyond_daemon w \<and>
    rs_checked t' = rs_checked t + int (length agents) \<and>
    rs_healthy t' + rs_restarted t' + rs_failed t' = rs_healthy t + rs_restarted t + rs_failed t + int (length agents) \<and>
    rs_healthy t \<le> rs_healthy t' \<and> rs_restarted t \<le> rs_restarted t' \<and> rs_failed t \<le> rs_failed t' \<and>
    (\<forall>a. pending_restarts b a \<le> pending_restarts b' a) \<and>
    (rs_restarted t' = rs_restarted t \<and> rs_failed t' = rs_failed t \<longrightarrow> (\<forall>a. pending_restarts b' a = pending_restarts b a)) \<and>
    (rs_failed t' = rs_failed t \<longrightarrow> set (ob_unhealthy b') = set (ob_unhealthy b) - {a. \<exists>agent\<in>set agents. agent_id_of E agent = Inr a})"
  using assms
proof (induction agents arbitrary: t b w)
  case (Cons agent agents)
  then obtain aid command where row: "agent_id_of E agent = Inr aid" "agent_command_from_install E (su_shlex S) agent = Inr command"
    by (auto simp: usable_row_def)
  obtain r b1 w1 where s: "restart_agent E S agent t (b, w) = (r, (b1, w1))" by (metis surj_pair)
  from restart_agent_result [OF s row] obtain t1 where t1: "r = Inr t1" "rs_checked t1 = rs_checked t + 1" "beyond_daemon w1 = beyond_daemon w"
    "(rs_healthy t1 - rs_healthy t) + (rs_restarted t1 - rs_restarted t) + (rs_failed t1 - rs_failed t) = 1"
    "rs_healthy t \<le> rs_healthy t1" "rs_restarted t \<le> rs_restarted t1" "rs_failed t \<le> rs_failed t1"
    "\<forall>a. pending_restarts b1 a = pending_restarts b a + (if a = aid then (rs_restarted t1 - rs_restarted t) + (rs_failed t1 - rs_failed t) else 0)"
    "set (ob_unhealthy b1) = (if rs_failed t1 - rs_failed t = 1 then insert aid (set (ob_unhealthy b)) else set (ob_unhealthy b) - {aid})"
    by (auto simp: Let_def)
  from Cons.IH [of t1 b1 w1] Cons.prems obtain t2 b2 w2 where t2:
    "foldp (restart_agent E S) agents t1 (b1, w1) = (Inr t2, (b2, w2))" "beyond_daemon w2 = beyond_daemon w1"
    "rs_checked t2 = rs_checked t1 + int (length agents)"
    "rs_healthy t2 + rs_restarted t2 + rs_failed t2 = rs_healthy t1 + rs_restarted t1 + rs_failed t1 + int (length agents)"
    "rs_healthy t1 \<le> rs_healthy t2" "rs_restarted t1 \<le> rs_restarted t2" "rs_failed t1 \<le> rs_failed t2"
    "\<forall>a. pending_restarts b1 a \<le> pending_restarts b2 a"
    "rs_restarted t2 = rs_restarted t1 \<and> rs_failed t2 = rs_failed t1 \<longrightarrow> (\<forall>a. pending_restarts b2 a = pending_restarts b1 a)"
    "rs_failed t2 = rs_failed t1 \<longrightarrow> set (ob_unhealthy b2) = set (ob_unhealthy b1) - {a. \<exists>agent\<in>set agents. agent_id_of E agent = Inr a}"
    by auto
  have "\<forall>a. pending_restarts b a \<le> pending_restarts b2 a"
  proof
    fix a
    have "pending_restarts b a \<le> pending_restarts b1 a" using t1(6,7,8) by simp
    with t2(8) show "pending_restarts b a \<le> pending_restarts b2 a" by (meson order_trans)
  qed
  moreover have "rs_restarted t2 = rs_restarted t \<and> rs_failed t2 = rs_failed t \<longrightarrow> (\<forall>a. pending_restarts b2 a = pending_restarts b a)"
    using t1(6-8) t2(6,7,9) by simp
  moreover have "rs_failed t2 = rs_failed t \<longrightarrow> set (ob_unhealthy b2) = set (ob_unhealthy b) - {a. \<exists>agent\<in>set (agent # agents). agent_id_of E agent = Inr a}"
    using t1(7,9) t2(7,10) row(1) by auto
  ultimately show ?case
    using s t1 t2 by (intro exI [of _ t2] exI [of _ b2] exI [of _ w2]) (simp add: bindp_run)
qed (simp add: ret_run)

section \<open>Properties\<close>

definition demo_port :: "bool \<Rightarrow> session_info list \<Rightarrow> unit agent_port" where
  "demo_port up ss = \<lparr>po_new = (\<lambda>_ _. ()), po_start = ret (), po_sessions = ret ss, po_close = (\<lambda>_. ret ()),
     po_running = (\<lambda>_. up), po_stop = ret ()\<rparr>"

definition demo_surroundings :: "bool \<Rightarrow> session_info list \<Rightarrow> unit surroundings" where
  "demo_surroundings up ss = \<lparr>su_port = demo_port up ss, su_network = demo_network, su_shlex = (\<lambda>s. Inr [s]),
     su_stamp = (\<lambda>s. Some (s \<noteq> ''naive'', 10))\<rparr>"

definition demo_observer :: observer where
  "demo_observer = \<lparr>ob_config = default_observer_config, ob_restarts = [(''a'', 2)], ob_unhealthy = [], ob_clients = 0\<rparr>"

definition demo_agents :: world where
  "demo_agents = empty_world\<lparr>w_acp_installed := Doc (JObj [(''a'', JObj [(''id'', JStr ''a'')])])\<rparr>"

lemma demo_agent_rows:
  "w_acp_installed demo_agents = Doc (JObj [(''a'', JObj [(''id'', JStr ''a'')])])" "last_metrics demo_agents = \<lparr>om_collected_at = None, om_agents = []\<rparr>"
  "fst (get_installed_agents demo_agents) = Inr [JObj [(''id'', JStr ''a'')]]" "agent_id_of E (JObj [(''id'', JStr ''a'')]) = Inr ''a''"
  "usable_row E (demo_surroundings up ss) (JObj [(''id'', JStr ''a'')])"
  by (simp_all add: demo_agents_def last_metrics_def load_metrics_def empty_world_def get_installed_agents_def load_installed_def prog_simps
      agent_id_of_def field_def dict_get_def py_str_def usable_row_def agent_command_from_install_def demo_surroundings_def)

text \<open>The metrics count every restart once. When \<open>collect_metrics\<close> returns, the file holds for every
  agent the restarts it held plus those attempted since, and what is pending is what was not counted,
  so their sum is as before; no uptime has gone down, and that of an unhealthy agent is as it was.\<close>

lemma metrics_count_every_restart:
  assumes "collect_metrics E S (b, w) = (Inr x, (b', w'))"
  shows "\<exists>m'. load_metrics w' = Some m' \<and> ob_unhealthy b' = ob_unhealthy b \<and>
    (\<forall>a. mt_restarts (metrics_of m' a) + pending_restarts b' a = mt_restarts (metrics_of (last_metrics w) a) + pending_restarts b a \<and>
      mt_uptime_seconds (metrics_of (last_metrics w) a) \<le> mt_uptime_seconds (metrics_of m' a) \<and>
      (a \<in> set (ob_unhealthy b) \<longrightarrow> mt_uptime_seconds (metrics_of m' a) = mt_uptime_seconds (metrics_of (last_metrics w) a)))"
proof -
  from collect_metrics_steps [OF assms] obtain now d agents m1 w1 u where s: "0 \<le> d"
    "foldp (accrue E now d) agents (last_metrics w) (b, w1) = (Inr m1, (b', w1))"
    "write_metrics E (m1\<lparr>om_collected_at := Some now\<rparr>) w1 = (u, w')" "u = Inr ()"
    by auto
  with write_metrics_run [OF s(3)] have "load_metrics w' = Some (m1\<lparr>om_collected_at := Some now\<rparr>)" by (simp add: load_metrics_def)
  moreover have "metrics_of (m1\<lparr>om_collected_at := Some now\<rparr>) a = metrics_of m1 a" for a by (simp add: metrics_of_def)
  ultimately show ?thesis using accrue_fold [OF s(1,2)] by (auto simp: accrued_def)
qed

lemma metrics_count_every_restart_witness:
  "\<exists>x b' w' m'. collect_metrics demo_env (demo_surroundings True []) (demo_observer, demo_agents) = (Inr x, (b', w')) \<and>
     load_metrics w' = Some m' \<and> mt_restarts (metrics_of m' ''a'') + pending_restarts b' ''a'' = 2"
proof -
  have "write_ok_at demo_env n p" for n p by (simp add: demo_env_def)
  then have "\<exists>x b' w'. collect_metrics demo_env (demo_surroundings True []) (demo_observer, demo_agents) = (Inr x, (b', w'))"
    by (simp add: collect_metrics_def demo_agents_def empty_world_def load_metrics_def elapsed_since_def get_installed_agents_def
        load_installed_def accrue_def write_metrics_def agent_id_of_def prog_simps Let_def)
  then obtain x b' w' where run: "collect_metrics demo_env (demo_surroundings True []) (demo_observer, demo_agents) = (Inr x, (b', w'))" by blast
  from metrics_count_every_restart [OF run] obtain m' where "load_metrics w' = Some m'"
    "mt_restarts (metrics_of m' ''a'') + pending_restarts b' ''a'' = mt_restarts (metrics_of (last_metrics demo_agents) ''a'') + pending_restarts demo_observer ''a''"
    by blast
  with run show ?thesis by (simp add: demo_agent_rows metrics_of_def fresh_metrics_def pending_restarts_def demo_observer_def dict_get_def)
qed

text \<open>A write that fails loses restarts. When the metrics cannot be written, the file is as it was, but
  the restarts pending for the installed agents have been taken off the observer's count already, so
  they are counted nowhere.\<close>

lemma failed_writes_lose_restarts:
  assumes "collect_metrics E S (b, w) = (Inl (OSError p), (b', w'))"
  shows "w_metrics w' = w_metrics w \<and> (\<exists>agents. fst (get_installed_agents w) = Inr agents \<and>
    (\<forall>agent\<in>set agents. \<forall>a. agent_id_of E agent = Inr a \<longrightarrow> pending_restarts b' a = 0))"
proof -
  from collect_metrics_steps [OF assms] obtain now d agents m1 w1 u where s: "0 \<le> d" "fst (get_installed_agents w) = Inr agents"
    "foldp (accrue E now d) agents (last_metrics w) (b, w1) = (Inr m1, (b', w1))" "w_metrics w1 = w_metrics w"
    "write_metrics E (m1\<lparr>om_collected_at := Some now\<rparr>) w1 = (u, w')" "u = Inl (OSError p)"
    by auto
  with write_metrics_run [OF s(5)] s accrue_fold [OF s(1,3)] show ?thesis by auto
qed

definition full_disk :: env where
  "full_disk = demo_env\<lparr>write_ok_at := (\<lambda>_ _. False)\<rparr>"

lemma failed_writes_lose_restarts_witness:
  "\<exists>p b' w'. collect_metrics full_disk (demo_surroundings True []) (demo_observer, demo_agents) = (Inl (OSError p), (b', w')) \<and>
     pending_restarts b' ''a'' = 0 \<and> w_metrics w' = Absent"
proof -
  have "\<not> write_ok_at full_disk n p" for n p by (simp add: full_disk_def)
  then have "\<exists>p b' w'. collect_metrics full_disk (demo_surroundings True []) (demo_observer, demo_agents) = (Inl (OSError p), (b', w'))"
    by (simp add: collect_metrics_def demo_agents_def empty_world_def load_metrics_def elapsed_since_def get_installed_agents_def
        load_installed_def accrue_def write_metrics_def agent_id_of_def prog_simps Let_def)
  then obtain p b' w' where run: "collect_metrics full_disk (demo_surroundings True []) (demo_observer, demo_agents) = (Inl (OSError p), (b', w'))" by blast
  have "w_metrics demo_agents = Absent" by (simp add: demo_agents_def empty_world_def)
  with failed_writes_lose_restarts [OF run] run show ?thesis by (auto simp: demo_agent_rows)
qed

text \<open>Whatever the agents do, the health pass ends and counts it. If every installed row names a command,
  the pass returns for any behaviour of the clients: every agent was checked, and was healthy, came
  back after the restart, or failed; a restart is counted only for an agent that did not start; if
  none failed, no installed agent is left in the unhealthy set; and nothing but the daemon's alerts and
  the observer's own state has changed.\<close>

lemma health_pass_counts_every_agent:
  assumes "w_acp_installed w = Doc (JObj rows)" and "\<forall>agent\<in>set (map snd rows). usable_row E S agent"
  shows "\<exists>(t :: restart_report) b' w'. restart_unhealthy_agents E S (b, w) = (Inr (Some [(''checked'', JInt (rs_checked t)), (''healthy'', JInt (rs_healthy t)),
        (''restarted'', JInt (rs_restarted t)), (''failed'', JInt (rs_failed t))]), (b', w')) \<and>
    rs_checked t = int (length rows) \<and> rs_healthy t + rs_restarted t + rs_failed t = rs_checked t \<and>
    (rs_restarted t = 0 \<and> rs_failed t = 0 \<longrightarrow> (\<forall>a. pending_restarts b' a = pending_restarts b a)) \<and>
    (rs_failed t = 0 \<longrightarrow> (\<forall>agent\<in>set (map snd rows). \<forall>a. agent_id_of E agent = Inr a \<longrightarrow> a \<notin> set (ob_unhealthy b'))) \<and>
    beyond_daemon w' = beyond_daemon w"
proof -
  let ?t = "\<lparr>rs_checked = 0, rs_healthy = 0, rs_restarted = 0, rs_failed = 0\<rparr>"
  have g: "get_installed_agents w = (Inr (map snd rows), w)"
    using assms(1) by (simp add: get_installed_agents_def load_installed_def prog_simps)
  from restart_fold [OF assms(2), of ?t b w] obtain t b' w' where f:
    "foldp (restart_agent E S) (map snd rows) ?t (b, w) = (Inr t, (b', w'))" "beyond_daemon w' = beyond_daemon w"
    "rs_checked t = int (length rows)" "rs_healthy t + rs_restarted t + rs_failed t = int (length rows)"
    "rs_restarted t = 0 \<and> rs_failed t = 0 \<longrightarrow> (\<forall>a. pending_restarts b' a = pending_restarts b a)"
    "rs_failed t = 0 \<longrightarrow> set (ob_unhealthy b') = set (ob_unhealthy b) - {a. \<exists>agent\<in>set (map snd rows). agent_id_of E agent = Inr a}"
    by auto
  have "restart_unhealthy_agents E S (b, w) = (Inr (Some [(''checked'', JInt (rs_checked t)), (''healthy'', JInt (rs_healthy t)),
        (''restarted'', JInt (rs_restarted t)), (''failed'', JInt (rs_failed t))]), (b', w'))"
    using g f(1) by (simp add: restart_unhealthy_agents_def bindp_run with_local_run ret_run)
  with f show ?thesis by (intro exI [of _ t] exI [of _ b'] exI [of _ w']) auto
qed

lemma health_pass_counts_every_agent_witness:
  "\<exists>(t :: restart_report) b' w'. restart_unhealthy_agents demo_env (demo_surroundings False []) (demo_observer, demo_agents) =
     (Inr (Some [(''checked'', JInt 1), (''healthy'', JInt (rs_healthy t)), (''restarted'', JInt (rs_restarted t)),
        (''failed'', JInt (rs_failed t))]), (b', w')) \<and> rs_healthy t + rs_restarted t + rs_failed t = 1"
proof -
  have "\<forall>agent\<in>set (map snd [(''a'', JObj [(''id'', JStr ''a'')])]). usable_row demo_env (demo_surroundings False []) agent"
    using demo_agent_rows(5) by simp
  from health_pass_counts_every_agent [OF demo_agent_rows(1) this, of demo_observer] show ?thesis by (elim exE conjE) (intro exI conjI; simp)
qed

text \<open>One agent can stop the clean-up for all. A session of an agent whose time stamp has no time zone, while
  the clock's has one, makes the clean-up raise a \<open>TypeError\<close>: it is not one of the errors the loop
  takes, so no agent after this one is looked at, whatever they are.\<close>

lemma naive_stamp_stops_the_cleanup:
  assumes "w_acp_installed w = Doc (JObj ((k, agent) # rows))" and "usable_row E S agent"
    and "\<forall>n command. \<exists>c1 c2. po_start (su_port S) (po_new (su_port S) n command) = (Inr (), c1) \<and> po_sessions (su_port S) c1 = (Inr (s # ss), c2)"
    and "si_metadata s = JObj m" and "dict_get m ''updated_at'' = Some (JStr v)" and "v \<noteq> []"
    and "su_stamp S (utc_suffix v) = Some (False, x)" and "su_stamp S (utc_suffix (now_at E (w_clock w))) = Some (True, y)"
  shows "\<exists>msg b' w'. cleanup_stale_sessions E S (b, w) = (Inl (TypeError msg), (b', w')) \<and> ob_clients b' = Suc (ob_clients b)"
proof -
  let ?now = "(True, y)" and ?w = "w\<lparr>w_clock := Suc (w_clock w)\<rparr>" and ?t = "\<lparr>cu_checked = 0, cu_closed = 0, cu_errors = 0\<rparr>"
  from assms(2) obtain aid command where row: "agent_id_of E agent = Inr aid" "agent_command_from_install E (su_shlex S) agent = Inr command"
    by (auto simp: usable_row_def)
  from assms(3) obtain c1 c2 where c: "po_start (su_port S) (po_new (su_port S) (ob_clients b) command) = (Inr (), c1)"
    "po_sessions (su_port S) c1 = (Inr (s # ss), c2)" by blast
  have "session_age E S s ?now = Inl (TypeError (''can'' @ [CHR 0x27] @ ''t subtract offset-naive and offset-aware datetimes''))"
    using assms(4-7) by (simp add: session_age_def field_def truthy_def py_str_def parse_stamp_def seconds_between_def)
  then obtain msg where age: "session_age E S s ?now = Inl (TypeError msg)" by blast
  have one: "cleanup_agent E S ma ?now agent ?t (b, ?w) = (Inl (TypeError msg), (b\<lparr>ob_clients := Suc (ob_clients b)\<rparr>, ?w))" for ma
    using row c age by (simp add: cleanup_agent_def make_client_def close_stale_def bindp_run lift_result_run Let_def)
  have g: "get_installed_agents ?w = (Inr (agent # map snd rows), ?w)"
    using assms(1) by (simp add: get_installed_agents_def load_installed_def prog_simps)
  show ?thesis
    using g one assms(8) by (simp add: cleanup_stale_sessions_def bindp_run asks_run with_local_run utc_now_def lift_result_run parse_stamp_def)
qed

definition naive_session :: session_info where
  "naive_session = \<lparr>si_id = JStr ''s'', si_title = JNull, si_metadata = JObj [(''updated_at'', JStr ''naive'')]\<rparr>"

lemma naive_stamp_stops_the_cleanup_witness:
  "\<exists>msg b' w'. cleanup_stale_sessions demo_env (demo_surroundings True [naive_session]) (demo_observer, demo_agents) =
     (Inl (TypeError msg), (b', w')) \<and> ob_clients b' = 1"
proof -
  have "\<forall>n command. \<exists>c1 c2. po_start (su_port (demo_surroundings True [naive_session])) (po_new (su_port (demo_surroundings True [naive_session])) n command) = (Inr (), c1)
      \<and> po_sessions (su_port (demo_surroundings True [naive_session])) c1 = (Inr (naive_session # []), c2)"
    by (simp add: demo_surroundings_def demo_port_def ret_run)
  note th = naive_stamp_stops_the_cleanup [OF demo_agent_rows(1) demo_agent_rows(5) this, where m = "[(''updated_at'', JStr ''naive'')]" and v = "''naive''" and x = 10 and y = 10]
  have "utc_suffix ''naive'' = ''naive''" by (simp add: utc_suffix_def)
  moreover have "utc_suffix (now_at demo_env (w_clock demo_agents)) \<noteq> ''naive''"
    by (simp add: demo_env_def demo_agents_def empty_world_def utc_suffix_def)
  ultimately have "\<exists>msg b' w'. cleanup_stale_sessions demo_env (demo_surroundings True [naive_session]) (demo_observer, demo_agents) =
     (Inl (TypeError msg), (b', w')) \<and> ob_clients b' = Suc (ob_clients demo_observer)"
    by (intro th) (simp_all add: naive_session_def dict_get_def demo_surroundings_def)
  then show ?thesis by (simp add: demo_observer_def)
qed

end
