(* ===== verification/DaemonProcess.thy ===== *)
theory DaemonProcess imports Daemon JsonText begin

text \<open>
  Starting, stopping and probing the daemon, \<open>daemon/process.py\<close> with \<open>use_cases/daemon.py\<close>. First the
  operations as one process runs them: what the system answers to the signals, the lock and the new
  process's own writes are a parameter, an \<open>os_view\<close>, indexed by how often it was looked at. Then
  \<open>start_daemon\<close> as it runs beside others: a step relation over the shared lock, the state file and the
  processes, one step per system call.
\<close>

section \<open>The system\<close>

datatype signal_outcome = Delivered | NoSuchProcess | NotPermitted

record os_view =
  ov_probe :: "nat \<Rightarrow> int \<Rightarrow> signal_outcome"
  ov_term :: "int \<Rightarrow> signal_outcome"
  ov_now :: real
  ov_lock_mtime :: "real option"
  ov_spawn :: "exn + int"
  ov_seen :: "nat \<Rightarrow> exn + daemon_state option"
  ov_exit :: "nat \<Rightarrow> int option"
  ov_log :: "string list option"

record waits =
  wt_timeout :: real
  wt_text :: string
  wt_poll :: real

definition answers_signal :: "int \<Rightarrow> signal_outcome \<Rightarrow> bool" where
  "answers_signal pid sig \<longleftrightarrow> 0 < pid \<and> sig \<noteq> NoSuchProcess"

definition is_pid_alive :: "os_view \<Rightarrow> nat \<Rightarrow> int \<Rightarrow> bool" where
  "is_pid_alive V k pid = answers_signal pid (ov_probe V k pid)"

text \<open>The loop \<open>look; give up when the time is over; sleep\<close>. \<open>look k\<close> is what the \<open>k\<close>-th look decides.\<close>

partial_function (option) poll_until :: "(nat \<Rightarrow> (exn + 'a) option) \<Rightarrow> exn \<Rightarrow> real \<Rightarrow> real \<Rightarrow> nat \<Rightarrow> real \<Rightarrow> (exn + 'a) option" where
  "poll_until look late timeout poll k waited = (case look k of
       Some r \<Rightarrow> Some r
     | None \<Rightarrow> if timeout \<le> waited then Some (Inl late) else poll_until look late timeout poll (Suc k) (waited + poll))"

section \<open>Starting\<close>

definition lock_path :: string where
  "lock_path = ''~/.forge/daemon/start.lock''"

definition stale_lock_seconds :: real where
  "stale_lock_seconds = 60"

definition lock_refused :: "real \<Rightarrow> exn" where
  "lock_refused age = DaemonProcessError (''Another `forge daemon start` appears to be in progress (lock '' @ lock_path @
     '', age '' @ format_fixed 0 age @ ''s).'')"

text \<open>\<open>_acquire_start_lock\<close> when no other process interferes: the file is created, a leftover replaced.\<close>

definition acquire_start_lock :: "os_view \<Rightarrow> exn + unit" where
  "acquire_start_lock V = (case ov_lock_mtime V of
       None \<Rightarrow> Inr ()
     | Some m \<Rightarrow> if stale_lock_seconds < ov_now V - m then Inr () else Inl (lock_refused (ov_now V - m)))"

definition log_tail :: "os_view \<Rightarrow> string" where
  "log_tail V = (case ov_log V of None \<Rightarrow> ''(no daemon log)'' | Some ls \<Rightarrow> join nl (drop (length ls - 20) ls))"

definition ready_at :: "os_view \<Rightarrow> int \<Rightarrow> nat \<Rightarrow> (exn + daemon_state) option" where
  "ready_at V pid k = (case ov_seen V k of
       Inl e \<Rightarrow> Some (Inl e)
     | Inr seen \<Rightarrow> (case (case seen of Some s \<Rightarrow> if ds_pid s = pid then seen else None | None \<Rightarrow> None) of
           Some s \<Rightarrow> Some (Inr s)
         | None \<Rightarrow> (case ov_exit V k of
               Some code \<Rightarrow> Some (Inl (DaemonProcessError (''Daemon process exited with code '' @ show_int code @
                 '' before becoming ready. Log tail:'' @ nl @ log_tail V)))
             | None \<Rightarrow> None)))"

definition start_timeout :: "os_view \<Rightarrow> waits \<Rightarrow> int \<Rightarrow> exn" where
  "start_timeout V T pid = DaemonProcessError (''Timed out after '' @ wt_text T @ ''s waiting for daemon pid '' @ show_int pid @
     '' to persist its state. Log tail:'' @ nl @ log_tail V)"

definition already_running :: "daemon_state \<Rightarrow> exn" where
  "already_running s = DaemonProcessError (''Daemon already running (pid '' @ show_int (ds_pid s) @ '', started '' @ ds_started_at s @ '').'')"

definition start_daemon :: "os_view \<Rightarrow> waits \<Rightarrow> world \<Rightarrow> (exn + daemon_state) option" where
  "start_daemon V T w = (case acquire_start_lock V of
       Inl e \<Rightarrow> Some (Inl e)
     | Inr _ \<Rightarrow> (case fst (daemon_load w) of
           Inl e \<Rightarrow> Some (Inl e)
         | Inr existing \<Rightarrow> (case (case existing of Some s \<Rightarrow> if is_pid_alive V 0 (ds_pid s) then existing else None | None \<Rightarrow> None) of
               Some s \<Rightarrow> Some (Inl (already_running s))
             | None \<Rightarrow> (case ov_spawn V of
                   Inl e \<Rightarrow> Some (Inl e)
                 | Inr pid \<Rightarrow> poll_until (ready_at V pid) (start_timeout V T pid) (wt_timeout T) (wt_poll T) 0 0))))"

section \<open>Stopping and asking\<close>

definition stopped_at :: "os_view \<Rightarrow> int \<Rightarrow> nat \<Rightarrow> (exn + bool) option" where
  "stopped_at V pid k = (if \<not> is_pid_alive V (Suc k) pid then Some (Inr True) else None)"

definition stop_timeout :: "waits \<Rightarrow> int \<Rightarrow> exn" where
  "stop_timeout T pid = DaemonProcessError (''Daemon pid '' @ show_int pid @ '' did not stop within '' @ wt_text T @ ''s after SIGTERM.'')"

definition stop_daemon :: "os_view \<Rightarrow> waits \<Rightarrow> world \<Rightarrow> (exn + bool) option" where
  "stop_daemon V T w = (case fst (daemon_load w) of
       Inl e \<Rightarrow> Some (Inl e)
     | Inr None \<Rightarrow> Some (Inr False)
     | Inr (Some s) \<Rightarrow> if \<not> is_pid_alive V 0 (ds_pid s) then Some (Inr False)
         else if ov_term V (ds_pid s) \<noteq> Delivered then Some (Inl (OSError (show_int (ds_pid s))))
         else poll_until (stopped_at V (ds_pid s)) (stop_timeout T (ds_pid s)) (wt_timeout T) (wt_poll T) 0 0)"

record daemon_view =
  dv_running :: bool
  dv_pid :: "int option"
  dv_started_at :: "string option"
  dv_last_heartbeat :: "string option"
  dv_tasks :: "(string \<times> daemon_task_state) list"
  dv_alerts :: "daemon_alert list"
  dv_stale_state :: bool
  dv_corrupt :: "string option"

definition daemon_status :: "os_view \<Rightarrow> world \<Rightarrow> daemon_view" where
  "daemon_status V w = (let none = \<lparr>dv_running = False, dv_pid = None, dv_started_at = None, dv_last_heartbeat = None,
       dv_tasks = [], dv_alerts = [], dv_stale_state = False, dv_corrupt = None\<rparr> in
     case fst (daemon_load w) of
       Inl e \<Rightarrow> none\<lparr>dv_corrupt := Some (exn_message e)\<rparr>
     | Inr None \<Rightarrow> none
     | Inr (Some s) \<Rightarrow> let running = is_pid_alive V 0 (ds_pid s) in
         \<lparr>dv_running = running, dv_pid = Some (ds_pid s), dv_started_at = Some (ds_started_at s),
          dv_last_heartbeat = ds_last_heartbeat s, dv_tasks = ds_tasks s, dv_alerts = ds_alerts s,
          dv_stale_state = (\<not> running), dv_corrupt = None\<rparr>)"

definition daemon_logs :: "os_view \<Rightarrow> int \<Rightarrow> string list" where
  "daemon_logs V limit = (case ov_log V of None \<Rightarrow> [] | Some ls \<Rightarrow> if limit \<le> 0 then [] else drop (length ls - nat limit) ls)"

section \<open>Starts beside one another\<close>

text \<open>Where a \<open>start_daemon\<close> is: about to create the lock (for the first or second time), to look at its
  age, to remove it; holding it, before the state file is read and before the process is spawned; about
  to remove the lock with the new process or with an error; waiting for the process to record itself.\<close>

datatype start_pc =
    Opening bool
  | Aging bool
  | Removing
  | Holding
  | Spawning
  | Releasing "int option"
  | Waiting int
  | Started int
  | Refused

record start_system =
  sy_clock :: int
  sy_lock :: "int option"
  sy_file :: "int option"
  sy_alive :: "int list"
  sy_fresh :: int
  sy_pc :: "nat \<Rightarrow> start_pc"

definition at_pc :: "nat \<Rightarrow> start_pc \<Rightarrow> start_system \<Rightarrow> start_system" where
  "at_pc i p s = s\<lparr>sy_pc := (sy_pc s)(i := p)\<rparr>"

text \<open>The next system call of start number \<open>i\<close>; \<open>first\<close> says that it is the first of the two attempts.\<close>

definition start_call :: "nat \<Rightarrow> start_system \<Rightarrow> start_system" where
  "start_call i s = (case sy_pc s i of
       Opening first \<Rightarrow> (case sy_lock s of None \<Rightarrow> at_pc i Holding (s\<lparr>sy_lock := Some (sy_clock s)\<rparr>) | Some _ \<Rightarrow> at_pc i (Aging first) s)
     | Aging first \<Rightarrow> (case sy_lock s of
           None \<Rightarrow> at_pc i (if first then Opening False else Refused) s
         | Some m \<Rightarrow> if 60 < sy_clock s - m \<and> first then at_pc i Removing s else at_pc i Refused s)
     | Removing \<Rightarrow> at_pc i (Opening False) (s\<lparr>sy_lock := None\<rparr>)
     | Holding \<Rightarrow> (case sy_file s of
           Some pid \<Rightarrow> if pid \<in> set (sy_alive s) then at_pc i (Releasing None) s else at_pc i Spawning s
         | None \<Rightarrow> at_pc i Spawning s)
     | Spawning \<Rightarrow> at_pc i (Releasing (Some (sy_fresh s))) (s\<lparr>sy_alive := sy_fresh s # sy_alive s, sy_fresh := sy_fresh s + 1\<rparr>)
     | Releasing r \<Rightarrow> at_pc i (case r of Some pid \<Rightarrow> Waiting pid | None \<Rightarrow> Refused) (s\<lparr>sy_lock := None\<rparr>)
     | Waiting pid \<Rightarrow> if sy_file s = Some pid then at_pc i (Started pid) s else s
     | _ \<Rightarrow> s)"

inductive start_step :: "start_system \<Rightarrow> start_system \<Rightarrow> bool" where
  Call: "start_step s (start_call i s)"
| Tick: "start_step s (s\<lparr>sy_clock := sy_clock s + 1\<rparr>)"
| Records: "pid \<in> set (sy_alive s) \<Longrightarrow> start_step s (s\<lparr>sy_file := Some pid\<rparr>)"
| Dies: "start_step s (s\<lparr>sy_alive := removeAll pid (sy_alive s)\<rparr>)"
| GivesUp: "sy_pc s i = Waiting pid \<Longrightarrow> start_step s (at_pc i Refused s)"

definition idle_system :: start_system where
  "idle_system = \<lparr>sy_clock = 0, sy_lock = None, sy_file = None, sy_alive = [], sy_fresh = 1, sy_pc = (\<lambda>_. Opening True)\<rparr>"

section \<open>Lemmas\<close>

lemma poll_until_from:
  assumes "0 < poll"
  shows "timeout \<le> waited + real n * poll \<Longrightarrow> \<exists>r j. poll_until look late timeout poll k waited = Some r \<and> j \<le> n \<and>
    (\<forall>i<j. look (k + i) = None) \<and> (look (k + j) = Some r \<or> look (k + j) = None \<and> r = Inl late \<and> timeout \<le> waited + real j * poll) \<and>
    (\<forall>i<j. waited + real i * poll < timeout)"
proof (induction n arbitrary: k waited)
  case 0
  then show ?case by (subst poll_until.simps) (auto split: option.split)
next
  case (Suc n)
  show ?case
  proof (cases "look k = None \<and> waited < timeout")
    case False
    then show ?thesis by (subst poll_until.simps) (force split: option.split)
  next
    case True
    have "timeout \<le> (waited + poll) + real n * poll" using Suc.prems by (simp add: algebra_simps)
    from Suc.IH [OF this, of "Suc k"] obtain r j where ih: "poll_until look late timeout poll (Suc k) (waited + poll) = Some r" "j \<le> n"
      "\<forall>i<j. look (Suc k + i) = None" "\<forall>i<j. waited + poll + real i * poll < timeout"
      "look (Suc k + j) = Some r \<or> look (Suc k + j) = None \<and> r = Inl late \<and> timeout \<le> waited + poll + real j * poll" by blast
    have "poll_until look late timeout poll k waited = Some r" using True ih(1) by (subst poll_until.simps) simp
    moreover have "\<forall>i<Suc j. look (k + i) = None" using True ih(3) by (auto simp: less_Suc_eq_0_disj)
    moreover have "\<forall>i<Suc j. waited + real i * poll < timeout" using True ih(4) by (auto simp: less_Suc_eq_0_disj algebra_simps)
    moreover have "look (k + Suc j) = Some r \<or> look (k + Suc j) = None \<and> r = Inl late \<and> timeout \<le> waited + real (Suc j) * poll"
      using ih(5) by (auto simp: algebra_simps)
    ultimately show ?thesis using ih(2) by (intro exI [of _ r] exI [of _ "Suc j"]) simp
  qed
qed

text \<open>How many looks there are: one more than the sleeps that reach the time limit.\<close>

definition last_look :: "waits \<Rightarrow> nat" where
  "last_look T = nat \<lceil>wt_timeout T / wt_poll T\<rceil>"

lemma last_look_late:
  assumes "0 < wt_poll T"
  shows "wt_timeout T \<le> real (last_look T) * wt_poll T" and "i < last_look T \<Longrightarrow> real i * wt_poll T < wt_timeout T"
proof -
  have "wt_timeout T / wt_poll T \<le> real (last_look T)" unfolding last_look_def by (rule real_nat_ceiling_ge)
  with assms show "wt_timeout T \<le> real (last_look T) * wt_poll T" by (simp add: pos_divide_le_eq)
  assume "i < last_look T"
  then have "int i < \<lceil>wt_timeout T / wt_poll T\<rceil>" unfolding last_look_def by linarith
  then have "real i < wt_timeout T / wt_poll T" by (simp add: less_ceiling_iff)
  with assms show "real i * wt_poll T < wt_timeout T" by (simp add: pos_less_divide_eq)
qed

lemma poll_until_ends:
  assumes "0 < wt_poll T"
  shows "poll_until look late (wt_timeout T) (wt_poll T) 0 0 = Some (case List.find (\<lambda>k. look k \<noteq> None) [0..<Suc (last_look T)] of
    Some k \<Rightarrow> the (look k) | None \<Rightarrow> Inl late)"
proof -
  let ?n = "last_look T"
  from poll_until_from [OF assms, of "wt_timeout T" 0 ?n look late 0] last_look_late(1) [OF assms]
  obtain r j where r: "poll_until look late (wt_timeout T) (wt_poll T) 0 0 = Some r" "j \<le> ?n" "\<forall>i<j. look i = None"
    "look j = Some r \<or> look j = None \<and> r = Inl late \<and> wt_timeout T \<le> real j * wt_poll T" by auto
  have none: "List.find (\<lambda>k. look k \<noteq> None) [0..<j] = None" using r(3) by (auto simp: find_None)
  have app: "List.find P (xs @ ys) = (case List.find P xs of None \<Rightarrow> List.find P ys | Some x \<Rightarrow> Some x)" for P and xs ys :: "nat list"
    by (induction xs) auto
  have split: "[0..<Suc ?n] = [0..<j] @ j # [Suc j..<Suc ?n]"
    using r(2) upt_add_eq_append [of 0 j "Suc ?n - j"] upt_conv_Cons [of j "Suc ?n"] by simp
  show ?thesis
  proof (cases "look j")
    case (Some q)
    with r none show ?thesis unfolding split by (simp add: app)
  next
    case None
    with r(4) have late: "r = Inl late" "wt_timeout T \<le> real j * wt_poll T" by auto
    then have "j = ?n" using last_look_late(2) [OF assms, of j] r(2) by fastforce
    with r None late none show ?thesis unfolding split by (simp add: app)
  qed
qed

text \<open>The lock works as long as no lock gets as old as a leftover.\<close>

definition in_section :: "start_system \<Rightarrow> nat \<Rightarrow> bool" where
  "in_section s i \<longleftrightarrow> (case sy_pc s i of Holding \<Rightarrow> True | Spawning \<Rightarrow> True | Releasing _ \<Rightarrow> True | _ \<Rightarrow> False)"

definition young_lock :: "start_system \<Rightarrow> bool" where
  "young_lock s \<longleftrightarrow> (\<forall>m. sy_lock s = Some m \<longrightarrow> sy_clock s - m \<le> 60)"

definition young_step :: "start_system \<Rightarrow> start_system \<Rightarrow> bool" where
  "young_step s t \<longleftrightarrow> start_step s t \<and> young_lock s"

definition lock_inv :: "start_system \<Rightarrow> bool" where
  "lock_inv s \<longleftrightarrow> (\<forall>i j. in_section s i \<longrightarrow> in_section s j \<longrightarrow> i = j) \<and> (sy_lock s = None \<longrightarrow> (\<forall>i. \<not> in_section s i)) \<and>
     (\<forall>i. sy_pc s i \<noteq> Removing)"

inductive_cases start_stepE: "start_step s t"

lemma lock_inv_at_pc:
  assumes "lock_inv s" and "sy_pc u = sy_pc s" and "p \<noteq> Removing"
    and "case p of Holding \<Rightarrow> sy_lock s = None \<and> sy_lock u \<noteq> None | Spawning \<Rightarrow> in_section s i \<and> sy_lock u = sy_lock s
      | Releasing _ \<Rightarrow> in_section s i \<and> sy_lock u = sy_lock s | _ \<Rightarrow> sy_lock u = sy_lock s \<or> in_section s i"
  shows "lock_inv (at_pc i p u)"
proof -
  have sec: "in_section (at_pc i p u) k = (if k = i then (case p of Holding \<Rightarrow> True | Spawning \<Rightarrow> True | Releasing _ \<Rightarrow> True | _ \<Rightarrow> False)
      else in_section s k)" for k
    using assms(2) by (simp add: in_section_def at_pc_def)
  have lock: "sy_lock (at_pc i p u) = sy_lock u" "sy_pc (at_pc i p u) k = (if k = i then p else sy_pc s k)" for k
    using assms(2) by (simp_all add: at_pc_def)
  have 1: "\<forall>j k. in_section s j \<longrightarrow> in_section s k \<longrightarrow> j = k" "sy_lock s = None \<longrightarrow> (\<forall>j. \<not> in_section s j)" "\<forall>j. sy_pc s j \<noteq> Removing"
    using assms(1) by (auto simp: lock_inv_def)
  show ?thesis
    unfolding lock_inv_def sec lock
    using assms(3,4) 1 by (cases p) (auto split: if_splits)
qed

lemma start_call_inv:
  assumes "lock_inv s" and "young_lock s"
  shows "lock_inv (start_call i s)"
proof (cases "sy_pc s i")
  case (Opening first)
  then show ?thesis
    using assms by (cases "sy_lock s") (auto simp: start_call_def intro!: lock_inv_at_pc)
next
  case (Aging first)
  then show ?thesis
    using assms by (cases "sy_lock s") (auto simp: start_call_def young_lock_def intro!: lock_inv_at_pc)
next
  case Removing
  with assms show ?thesis by (simp add: lock_inv_def)
next
  case Holding
  then have "in_section s i" by (simp add: in_section_def)
  with Holding assms show ?thesis by (auto simp: start_call_def intro!: lock_inv_at_pc split: option.split)
next
  case Spawning
  then have "in_section s i" by (simp add: in_section_def)
  with Spawning assms show ?thesis by (auto simp: start_call_def intro!: lock_inv_at_pc)
next
  case (Releasing r)
  then have "in_section s i" by (simp add: in_section_def)
  with Releasing assms show ?thesis by (auto simp: start_call_def intro!: lock_inv_at_pc split: option.split)
next
  case (Waiting pid)
  then show ?thesis using assms by (auto simp: start_call_def intro!: lock_inv_at_pc)
qed (use assms in \<open>simp_all add: start_call_def\<close>)

interpretation start_lock: transition_system "\<lambda>s. s = idle_system" young_step lock_inv
proof unfold_locales
  fix s assume "s = idle_system"
  then show "lock_inv s" by (simp add: lock_inv_def idle_system_def in_section_def)
next
  fix s t assume st: "young_step s t" and inv: "lock_inv s"
  have frame: "lock_inv u" if "sy_pc u = sy_pc s" "sy_lock u = sy_lock s" for u
    using inv that by (simp add: lock_inv_def in_section_def)
  from st have "start_step s t" and young: "young_lock s" by (auto simp: young_step_def)
  from this(1) show "lock_inv t"
  proof (rule start_stepE)
    fix i assume "t = start_call i s"
    with start_call_inv [OF inv young] show ?thesis by simp
  next
    fix i pid assume "t = at_pc i Refused s"
    with inv show ?thesis by (auto intro!: lock_inv_at_pc)
  qed (auto intro: frame)
qed

section \<open>Properties\<close>

text \<open>Starting and stopping always end. With a positive poll interval the wait loops look at most
  once more than the interval goes into the time limit: \<open>stop_daemon\<close> returns true at the first look
  that finds the process gone and raises after the last; \<open>start_daemon\<close> ends with the first look
  that finds the new process recorded or dead.\<close>

lemma daemon_waits_end:
  assumes "0 < wt_poll T"
  shows "(\<exists>r. start_daemon V T w = Some r) \<and> (\<exists>r. stop_daemon V T w = Some r) \<and>
    (\<forall>s. w_daemon w = Doc s \<and> is_pid_alive V 0 (ds_pid s) \<and> ov_term V (ds_pid s) = Delivered \<longrightarrow>
      stop_daemon V T w = Some (if \<exists>k\<le>last_look T. \<not> is_pid_alive V (Suc k) (ds_pid s) then Inr True else Inl (stop_timeout T (ds_pid s))))"
proof -
  note ends = poll_until_ends [OF assms]
  have "stop_daemon V T w = Some (if \<exists>k\<le>last_look T. \<not> is_pid_alive V (Suc k) (ds_pid s) then Inr True else Inl (stop_timeout T (ds_pid s)))"
    if "w_daemon w = Doc s \<and> is_pid_alive V 0 (ds_pid s) \<and> ov_term V (ds_pid s) = Delivered" for s
  proof -
    have run: "stop_daemon V T w = Some (case List.find (\<lambda>k. stopped_at V (ds_pid s) k \<noteq> None) [0..<Suc (last_look T)] of
        Some k \<Rightarrow> the (stopped_at V (ds_pid s) k) | None \<Rightarrow> Inl (stop_timeout T (ds_pid s)))"
      using that by (simp add: stop_daemon_def daemon_load_def ends)
    show ?thesis
    proof (cases "List.find (\<lambda>k. stopped_at V (ds_pid s) k \<noteq> None) [0..<Suc (last_look T)]")
      case None
      then have "\<forall>k\<le>last_look T. is_pid_alive V (Suc k) (ds_pid s)"
        unfolding find_None by (auto simp: stopped_at_def split: if_splits)
      with None run show ?thesis by simp
    next
      case (Some k)
      from find_Some_set [OF Some] have "k \<le> last_look T" "\<not> is_pid_alive V (Suc k) (ds_pid s)"
        by (auto simp: stopped_at_def split: if_splits)
      with Some run show ?thesis by (auto simp: stopped_at_def)
    qed
  qed
  moreover have "\<exists>r. start_daemon V T w = Some r"
    by (simp add: start_daemon_def ends split: sum.split option.split)
  moreover have "\<exists>r. stop_daemon V T w = Some r"
    by (simp add: stop_daemon_def ends split: sum.split option.split)
  ultimately show ?thesis by blast
qed

definition demo_waits :: waits where
  "demo_waits = \<lparr>wt_timeout = 1, wt_text = ''1.0'', wt_poll = 1 / 2\<rparr>"

definition demo_system :: os_view where
  "demo_system = \<lparr>ov_probe = (\<lambda>k pid. if k < 2 then Delivered else NoSuchProcess), ov_term = (\<lambda>_. Delivered), ov_now = 0,
     ov_lock_mtime = None, ov_spawn = Inr 8, ov_seen = (\<lambda>_. Inr None), ov_exit = (\<lambda>_. None), ov_log = None\<rparr>"

lemma daemon_waits_end_witness:
  "stop_daemon demo_system demo_waits (empty_world\<lparr>w_daemon := Doc demo_daemon\<rparr>) = Some (Inr True)"
proof -
  have "0 < wt_poll demo_waits" by (simp add: demo_waits_def)
  note th = daemon_waits_end [OF this, of demo_system "empty_world\<lparr>w_daemon := Doc demo_daemon\<rparr>"]
  have "\<lceil>2 :: real\<rceil> = 2" by simp
  then have "1 \<le> last_look demo_waits" by (simp add: last_look_def demo_waits_def)
  then have "\<exists>k\<le>last_look demo_waits. \<not> is_pid_alive demo_system (Suc k) (ds_pid demo_daemon)"
    by (intro exI [of _ 1]) (simp add: is_pid_alive_def answers_signal_def demo_system_def)
  moreover have "is_pid_alive demo_system 0 (ds_pid demo_daemon)" "ov_term demo_system (ds_pid demo_daemon) = Delivered"
    by (simp_all add: is_pid_alive_def answers_signal_def demo_system_def demo_daemon_def)
  ultimately show ?thesis using th by simp
qed

text \<open>The lock keeps starts apart. As long as no lock gets older than 60 seconds, no two starts are
  between reading the state file and having spawned a process at the same time, whatever the order in
  which their system calls, the clock and the daemons go.\<close>

lemma starts_exclude_each_other:
  assumes "young_step\<^sup>*\<^sup>* idle_system s" and "in_section s i" and "in_section s j"
  shows "i = j"
  using start_lock.reachable_inv [OF refl assms(1)] assms(2,3) by (simp add: lock_inv_def)

lemma starts_exclude_each_other_witness:
  "\<exists>s. young_step\<^sup>*\<^sup>* idle_system s \<and> in_section s 0 \<and> (\<forall>j. in_section s j \<longrightarrow> 0 = j)"
proof -
  have "young_step idle_system (start_call 0 idle_system)"
    unfolding young_step_def by (simp add: start_step.Call young_lock_def idle_system_def)
  then have run: "young_step\<^sup>*\<^sup>* idle_system (start_call 0 idle_system)" by blast
  have "in_section (start_call 0 idle_system) 0" by (simp add: in_section_def start_call_def idle_system_def at_pc_def)
  with run starts_exclude_each_other [OF run] show ?thesis by blast
qed

lemma young_call: "young_step\<^sup>*\<^sup>* r s \<Longrightarrow> young_lock s \<Longrightarrow> young_step\<^sup>*\<^sup>* r (start_call i s)"
  by (erule rtranclp.rtrancl_into_rtrancl) (simp add: young_step_def start_step.Call)

lemma young_records:
  "young_step\<^sup>*\<^sup>* r s \<Longrightarrow> young_lock s \<Longrightarrow> pid \<in> set (sy_alive s) \<Longrightarrow> young_step\<^sup>*\<^sup>* r (s\<lparr>sy_file := Some pid\<rparr>)"
  by (erule rtranclp.rtrancl_into_rtrancl) (simp add: young_step_def start_step.Records)

text \<open>The lock does not keep daemons apart. Two starts on an idle system can both return, each with a
  living daemon of its own: the lock is given up when the process is spawned, not when it has
  recorded itself, so the second start finds no state file. The file then names one daemon only, and the
  other is out of reach of a stop.\<close>

lemma two_starts_make_two_daemons:
  "\<exists>s a b. young_step\<^sup>*\<^sup>* idle_system s \<and> sy_pc s 0 = Started a \<and> sy_pc s 1 = Started b \<and> a \<noteq> b \<and>
     {a, b} \<subseteq> set (sy_alive s) \<and> sy_file s = Some b"
proof -
  note run = start_call_def at_pc_def young_lock_def idle_system_def
  let ?a = "start_call 0 (start_call 0 (start_call 0 (start_call 0 idle_system)))"
  let ?b = "start_call 1 (start_call 1 (start_call 1 (start_call 1 ?a)))"
  let ?c = "start_call 0 (?b\<lparr>sy_file := Some 1\<rparr>)"
  let ?d = "start_call 1 (?c\<lparr>sy_file := Some 2\<rparr>)"
  have "young_step\<^sup>*\<^sup>* idle_system ?a" by (intro young_call rtranclp.rtrancl_refl) (simp_all add: run)
  then have "young_step\<^sup>*\<^sup>* idle_system ?b" by (intro young_call) (simp_all add: run)
  then have "young_step\<^sup>*\<^sup>* idle_system ?c" by (intro young_call young_records) (simp_all add: run)
  then have "young_step\<^sup>*\<^sup>* idle_system ?d" by (intro young_call young_records) (simp_all add: run)
  moreover have "sy_pc ?d 0 = Started 1" "sy_pc ?d 1 = Started 2" "set (sy_alive ?d) = {1, 2}" "sy_file ?d = Some 2"
    by (auto simp: run)
  ultimately show ?thesis by (intro exI [of _ ?d] exI [of _ 1] exI [of _ 2]) simp
qed

text \<open>A leftover lock breaks even the exclusion: two starts that both find it too old remove it one
  after the other, the second removing the lock the first has just taken.\<close>

lemma stale_locks_break_the_exclusion:
  "\<exists>s. start_step\<^sup>*\<^sup>* (idle_system\<lparr>sy_lock := Some 0, sy_clock := 61\<rparr>) s \<and> in_section s 0 \<and> in_section s 1"
proof -
  note run = start_call_def at_pc_def idle_system_def in_section_def
  let ?i = "idle_system\<lparr>sy_lock := Some 0, sy_clock := 61\<rparr>"
  let ?a = "start_call 1 (start_call 1 (start_call 0 (start_call 0 ?i)))"
  let ?b = "start_call 1 (start_call 1 (start_call 0 (start_call 0 ?a)))"
  have call: "start_step\<^sup>*\<^sup>* ?i s \<Longrightarrow> start_step\<^sup>*\<^sup>* ?i (start_call i s)" for i s
    by (erule rtranclp.rtrancl_into_rtrancl) (rule start_step.Call)
  have "start_step\<^sup>*\<^sup>* ?i ?b" by (intro call rtranclp.rtrancl_refl)
  moreover have "in_section ?b 0" "in_section ?b 1" by (simp_all add: run)
  ultimately show ?thesis by blast
qed

end
