(* ===== verification/ClaudeRaw.thy ===== *)
theory ClaudeRaw imports Bridge begin

text \<open>
  The kernel adapter over the raw Messages API, \<open>adapters/claude_raw/adapter.py\<close>, as a generator for the
  bridge. The API is a parameter: what each turn answers to its request, \<open>ra_api\<close>. The time limit of a
  session lets a number of turns end, \<open>ra_turns\<close>; the next one times out. A block of a message is what
  the adapter reads of it, with its dump. The kernel's clock runs in turns only: a limit that passes while
  the caller holds the generator is not modelled.
\<close>

section \<open>Tools\<close>

definition spec :: "string \<Rightarrow> string \<Rightarrow> json_obj" where
  "spec ty n = [(''type'', JStr ty), (''name'', JStr n)]"

definition anthropic_client_tools :: "(string, json_obj) dict" where
  "anthropic_client_tools = [(''Bash'', spec ''bash_20250124'' ''bash''),
     (''TextEditor'', spec ''text_editor_20250429'' ''str_replace_based_edit_tool''),
     (''Computer'', spec ''computer_20250124'' ''computer'' @ [(''display_width_px'', JInt 1024), (''display_height_px'', JInt 768)])]"

definition anthropic_server_tools :: "(string, json_obj) dict" where
  "anthropic_server_tools = [(''WebSearch'', spec ''web_search_20250305'' ''web_search''),
     (''WebFetch'', spec ''web_fetch_20250910'' ''web_fetch''),
     (''CodeExecution'', spec ''code_execution_20250522'' ''code_execution''),
     (''ToolSearch'', spec ''tool_search_20250910'' ''tool_search'')]"

definition typed :: "string \<Rightarrow> json" where
  "typed ty = JObj [(''type'', JStr ty)]"

definition object_schema :: "json_obj \<Rightarrow> json" where
  "object_schema props = JObj [(''type'', JStr ''object''), (''properties'', JObj props), (''required'', JArr (map (JStr \<circ> fst)
     (filter (\<lambda>(k, _). k \<noteq> ''view_range'') props)))]"

definition forge_custom_tools :: "(string, json_obj) dict" where
  "forge_custom_tools = [
     (''Read'', [(''name'', JStr ''read_file''),
       (''description'', JStr ''Read a file from the workspace (subject to persona path allowlist).''),
       (''input_schema'', object_schema [(''path'', typed ''string''),
          (''view_range'', JObj [(''type'', JStr ''array''), (''items'', typed ''integer'')])])]),
     (''Write'', [(''name'', JStr ''write_file''),
       (''description'', JStr ''Propose a write to a file. Validator decides if it commits.''),
       (''input_schema'', object_schema [(''path'', typed ''string''), (''content'', typed ''string'')])]),
     (''ProposeEvent'', [(''name'', JStr ''propose_event''),
       (''description'', JStr (''Propose an event for the Forge event store. The Validator checks '' @
          ''the proposal against gate policies before it is appended.'')),
       (''input_schema'', object_schema [(''event_type'', typed ''string''), (''aggregate_id'', typed ''string''), (''data'', typed ''object'')])])]"

definition wire_name :: "json_obj \<Rightarrow> string" where
  "wire_name sp = (case dict_get sp ''name'' of Some (JStr n) \<Rightarrow> n | _ \<Rightarrow> [])"

definition wire_to_abstract :: "(string, string) dict" where
  "wire_to_abstract = foldl (\<lambda>m (abstract, sp). dict_set (wire_name sp) abstract m) []
     (anthropic_client_tools @ anthropic_server_tools @ forge_custom_tools)"

definition client_payload :: "string \<Rightarrow> json_obj option" where
  "client_payload n = (case dict_get anthropic_client_tools n of Some sp \<Rightarrow> Some sp
     | None \<Rightarrow> map_option (dict_set ''strict'' (JBool True)) (dict_get forge_custom_tools n))"

definition build_tool_payload :: "string list \<Rightarrow> string list \<Rightarrow> json_obj list \<times> string list" where
  "build_tool_payload client server = (let servers = List.map_filter (dict_get anthropic_server_tools) server in
     (List.map_filter client_payload client @ servers, map wire_name servers))"

definition claude_raw_capabilities :: kernel_capabilities where
  "claude_raw_capabilities = \<lparr>kc_kernel_id = ''claude_raw'', kc_streaming = True, kc_deterministic_output = False,
     kc_extended_thinking = True, kc_prompt_caching = True, kc_vision = True, kc_batch_api = True, kc_hooks_native = False,
     kc_subagents_native = False, kc_mcp_remote = True, kc_mcp_local_stdio = False,
     kc_client_tools = map fst anthropic_client_tools @ map fst forge_custom_tools, kc_server_tools = map fst anthropic_server_tools,
     kc_max_context_tokens = 200000\<rparr>"

section \<open>The API\<close>

record block =
  bk_type :: "string option"
  bk_name :: string
  bk_id :: string
  bk_input :: json_obj
  bk_tool_use_id :: "string option"
  bk_content :: json
  bk_dump :: json

record final_message =
  fm_content :: "block list"
  fm_stop_reason :: json
  fm_usage :: "json_obj option"

datatype stream_event = TextChunk string | ThinkingChunk string | OtherChunk

datatype turn_outcome = Turn "stream_event list" final_message | TurnTimeout | TurnApiError string | TurnFailed string

record raw_api =
  ra_api :: "nat \<Rightarrow> json \<Rightarrow> turn_outcome"
  ra_turns :: nat
  ra_default_model :: string
  ra_timeout :: real
  ra_mcp_servers :: "json_obj list"

section \<open>The request\<close>

definition bullet_lines :: "string list \<Rightarrow> string" where
  "bullet_lines cs = (let t = join nl (map (\<lambda>c. ''- '' @ c) cs) in if t = [] then ''(none)'' else t)"

definition system_prompt :: "env \<Rightarrow> agent_persona \<Rightarrow> json" where
  "system_prompt E p = JArr [JObj [(''type'', JStr ''text''), (''text'', JStr (
     ''# Role'' @ nl @ ap_role p @ nl @ nl @ ''# Goal'' @ nl @ ap_goal p @ nl @ nl @
     ''# Constraints'' @ nl @ bullet_lines (ap_constraints p) @ nl @ nl @
     ''# Output contract'' @ nl @ str_of E (JObj (ap_output_contract p)) @ nl @ nl @
     ''# Operating principles'' @ nl @
     ''- You are running inside Forge OS. Your outputs are PROPOSALS;'' @ nl @
     ''  the Validator may reject any of them before they commit.'' @ nl @
     ''- Use the `propose_event` tool to commit any state change.'' @ nl @
     ''- Never assume a tool succeeded until you see its tool_result.'' @ nl @
     ''- Do not invent file paths, function names, or APIs. Verify via'' @ nl @
     ''  Read or WebFetch first.'' @ nl)), (''cache_control'', typed ''ephemeral'')]]"

definition client_abstract :: "agent_persona \<Rightarrow> string list \<Rightarrow> string list" where
  "client_abstract p tools = filter (\<lambda>t. t \<in> set tools) (ap_allowed_tools p)"

definition server_abstract :: "agent_persona \<Rightarrow> string list \<Rightarrow> string list" where
  "server_abstract p tools = filter (\<lambda>t. t \<in> set tools) (ap_allowed_server_tools p)"

definition model_of :: "raw_api \<Rightarrow> agent_persona \<Rightarrow> string" where
  "model_of A p = (if ap_preferred_model p = [] then ra_default_model A else ap_preferred_model p)"

definition request_kwargs :: "env \<Rightarrow> raw_api \<Rightarrow> agent_persona \<Rightarrow> string list \<Rightarrow> json_obj" where
  "request_kwargs E A p tools = (let payload = fst (build_tool_payload (client_abstract p tools) (server_abstract p tools));
       base = [(''model'', JStr (model_of A p)), (''max_tokens'', JInt (ap_max_tokens p)), (''temperature'', JFloat (ap_temperature p)),
         (''system'', system_prompt E p)];
       k1 = (if payload = [] then base else dict_set ''tools'' (JArr (map JObj payload)) base);
       k2 = (case ap_thinking_budget_tokens p of
           Some n \<Rightarrow> if n = 0 then k1 else dict_set ''temperature'' (JFloat 1) (dict_set ''thinking''
             (JObj [(''type'', JStr ''enabled''), (''budget_tokens'', JInt n)]) k1)
         | None \<Rightarrow> k1)
     in if ra_mcp_servers A = [] then k2 else dict_set ''betas'' (JArr [JStr ''mcp-client-2025-11-20''])
          (dict_set ''mcp_servers'' (JArr (map JObj (ra_mcp_servers A))) k2))"

section \<open>One turn\<close>

definition delta_events :: "stream_event list \<Rightarrow> kernel_event list" where
  "delta_events = List.map_filter (\<lambda>ev. case ev of TextChunk t \<Rightarrow> Some (Event TextDelta [(''text'', JStr t)])
     | ThinkingChunk t \<Rightarrow> Some (Event ThinkingDelta [(''thinking'', JStr t)]) | OtherChunk \<Rightarrow> None)"

definition server_event :: "string \<Rightarrow> string \<times> json_obj \<Rightarrow> json \<Rightarrow> json_obj \<Rightarrow> kernel_event" where
  "server_event tid rec res extra = Event ServerToolExecuted ([(''tool_name'', JStr (fst rec)), (''tool_use_id'', JStr tid),
     (''inputs'', JObj (snd rec)), (''result'', res), (''kernel_executed'', JBool True)] @ extra)"

text \<open>The client's tool uses, the server tools still without a result, the events of those with one.\<close>

definition sort_block :: "string list \<Rightarrow> block list \<times> (string, string \<times> json_obj) dict \<times> kernel_event list \<Rightarrow> block
    \<Rightarrow> block list \<times> (string, string \<times> json_obj) dict \<times> kernel_event list" where
  "sort_block server = (\<lambda>(uses, pending, evs) b. case bk_type b of
       None \<Rightarrow> (uses, pending, evs)
     | Some ty \<Rightarrow>
         if ty = ''tool_use'' \<and> bk_name b \<notin> set server then (uses @ [b], pending, evs)
         else if ty = ''tool_use'' \<or> ty = ''server_tool_use'' then (uses, dict_set (bk_id b) (bk_name b, bk_input b) pending, evs)
         else if ends_with ty ''_tool_result''
         then (case bk_tool_use_id b of
             None \<Rightarrow> (uses, pending, evs)
           | Some tid \<Rightarrow> (case dict_get pending tid of
               None \<Rightarrow> (uses, pending, evs)
             | Some rec \<Rightarrow> (uses, AList.delete tid pending, evs @ [server_event tid rec (bk_content b) []])))
         else (uses, pending, evs))"

definition sort_blocks :: "string list \<Rightarrow> block list \<Rightarrow> block list \<times> kernel_event list" where
  "sort_blocks server bs = (case foldl (sort_block server) ([], [], []) bs of (uses, pending, evs) \<Rightarrow>
     (uses, evs @ map (\<lambda>(tid, rec). server_event tid rec JNull [(''warning'', JStr ''no paired result block'')]) pending))"

section \<open>The session\<close>

datatype raw_phase =
    Unstarted
  | Ready
  | Emitting "kernel_event list" "block list option"
  | Awaiting block "block list" "json list"
  | Over

record raw_session =
  ss_kwargs :: json_obj
  ss_server_names :: "string list"
  ss_opening :: json_obj
  ss_messages :: "json list"
  ss_turns_left :: nat
  ss_phase :: raw_phase

definition raw_start :: "env \<Rightarrow> raw_api \<Rightarrow> agent_persona \<Rightarrow> string \<Rightarrow> string list \<Rightarrow> string \<Rightarrow> raw_session" where
  "raw_start E A p context_text tools aggregate_id = \<lparr>ss_kwargs = request_kwargs E A p tools,
     ss_server_names = snd (build_tool_payload (client_abstract p tools) (server_abstract p tools)),
     ss_opening = [(''persona'', JStr (ap_name p)), (''model'', JStr (model_of A p)),
       (''client_tools'', JArr (map JStr (client_abstract p tools))), (''server_tools'', JArr (map JStr (server_abstract p tools))),
       (''mcp_servers'', JArr (map (\<lambda>s. field s ''name'' JNull) (ra_mcp_servers A)))],
     ss_messages = [JObj [(''role'', JStr ''user''), (''content'', JStr context_text)]], ss_turns_left = ra_turns A, ss_phase = Unstarted\<rparr>"

definition turn_request :: "json_obj \<Rightarrow> json list \<Rightarrow> json" where
  "turn_request kwargs messages = JObj (dict_set ''messages'' (JArr messages) kwargs)"

definition failed_event :: "string \<Rightarrow> string \<times> json \<Rightarrow> kernel_event" where
  "failed_event why extra = Event AgentFailed [(''reason'', JStr why), extra]"

definition completed_event :: "final_message \<Rightarrow> kernel_event" where
  "completed_event m = Event AgentCompleted [(''stop_reason'', fm_stop_reason m),
     (''usage'', JObj (case fm_usage m of Some u \<Rightarrow> u | None \<Rightarrow> []))]"

definition proposal_of :: "block \<Rightarrow> kernel_event" where
  "proposal_of b = Proposal \<lparr>tu_id = bk_id b, tu_name = bk_name b,
     tu_abstract = (case dict_get wire_to_abstract (bk_name b) of Some a \<Rightarrow> a | None \<Rightarrow> bk_name b), tu_inputs = JObj (bk_input b), tu_payload = []\<rparr>"

definition result_block :: "tool_result \<Rightarrow> json" where
  "result_block r = JObj [(''type'', JStr ''tool_result''), (''tool_use_id'', JStr (tr_tool_use_id r)), (''content'', tr_content r),
     (''is_error'', JBool (tr_is_error r))]"

definition assistant_message :: "final_message \<Rightarrow> json" where
  "assistant_message m = JObj [(''role'', JStr ''assistant''), (''content'', JArr (map bk_dump (fm_content m)))]"

definition results_message :: "json list \<Rightarrow> json" where
  "results_message rs = JObj [(''role'', JStr ''user''), (''content'', JArr rs)]"

definition add_message :: "json \<Rightarrow> raw_session \<Rightarrow> raw_session" where
  "add_message m s = s\<lparr>ss_messages := ss_messages s @ [m]\<rparr>"

text \<open>From the top of the loop to the next event: turns that yield nothing follow one another.\<close>

fun run_turns :: "raw_api \<Rightarrow> nat \<Rightarrow> raw_session \<Rightarrow> kernel_event \<times> raw_session" where
  "run_turns A 0 s = (failed_event ''timeout'' (''timeout_s'', JFloat (ra_timeout A)), s\<lparr>ss_phase := Over\<rparr>)"
| "run_turns A (Suc n) s = (case ra_api A n (turn_request (ss_kwargs s) (ss_messages s)) of
       TurnTimeout \<Rightarrow> (failed_event ''timeout'' (''timeout_s'', JFloat (ra_timeout A)), s\<lparr>ss_phase := Over\<rparr>)
     | TurnApiError m \<Rightarrow> (failed_event ''api_error'' (''detail'', JStr m), s\<lparr>ss_phase := Over\<rparr>)
     | TurnFailed m \<Rightarrow> (failed_event ''internal_error'' (''detail'', JStr m), s\<lparr>ss_phase := Over\<rparr>)
     | Turn chunks m \<Rightarrow> (case sort_blocks (ss_server_names s) (fm_content m) of (uses, server) \<Rightarrow>
         let evs = server @ delta_events chunks; t = (add_message (assistant_message m) s)\<lparr>ss_turns_left := n\<rparr> in
         if fm_stop_reason m \<noteq> JStr ''tool_use''
         then (case evs @ [completed_event m] of e # es \<Rightarrow> (e, s\<lparr>ss_turns_left := n, ss_phase := Emitting es None\<rparr>))
         else (case evs of e # es \<Rightarrow> (e, t\<lparr>ss_phase := Emitting es (Some uses)\<rparr>)
           | [] \<Rightarrow> (case uses of b # bs \<Rightarrow> (proposal_of b, t\<lparr>ss_phase := Awaiting b bs []\<rparr>)
               | [] \<Rightarrow> run_turns A n (add_message (results_message []) t)))))"

text \<open>One \<open>asend\<close>. A resumption without a result after a proposal is an internal error.\<close>

definition raw_step :: "env \<Rightarrow> (exn \<Rightarrow> string) \<Rightarrow> raw_api \<Rightarrow> raw_session generator" where
  "raw_step E repr_exn A s sent = ret (case ss_phase s of
       Unstarted \<Rightarrow> Some (Event SessionStarted (ss_opening s), s\<lparr>ss_phase := Ready\<rparr>)
     | Ready \<Rightarrow> Some (run_turns A (ss_turns_left s) s)
     | Emitting (e # es) next_uses \<Rightarrow> Some (e, s\<lparr>ss_phase := Emitting es next_uses\<rparr>)
     | Emitting [] None \<Rightarrow> None
     | Emitting [] (Some (b # bs)) \<Rightarrow> Some (proposal_of b, s\<lparr>ss_phase := Awaiting b bs []\<rparr>)
     | Emitting [] (Some []) \<Rightarrow> Some (run_turns A (ss_turns_left s) (add_message (results_message []) s))
     | Awaiting b bs rs \<Rightarrow> (case sent of
           None \<Rightarrow> Some (failed_event ''internal_error'' (''detail'', JStr (repr_exn (RuntimeError
             (''ClaudeRawAdapter expected ToolResult via asend() after ToolUseProposal '' @ py_repr (bk_id b) @ '', got NoneType'')))),
             s\<lparr>ss_phase := Over\<rparr>)
         | Some r \<Rightarrow> (case bs of
               b' # bs' \<Rightarrow> Some (proposal_of b', s\<lparr>ss_phase := Awaiting b' bs' (rs @ [result_block r])\<rparr>)
             | [] \<Rightarrow> Some (run_turns A (ss_turns_left s) (add_message (results_message (rs @ [result_block r])) s))))
     | Over \<Rightarrow> None)"

section \<open>Lemmas\<close>

definition client_uses :: "string list \<Rightarrow> final_message \<Rightarrow> block list" where
  "client_uses server m = fst (sort_blocks server (fm_content m))"

lemma sort_block_uses: "fst (foldl (sort_block server) acc bs) =
    fst acc @ filter (\<lambda>b. bk_type b = Some ''tool_use'' \<and> bk_name b \<notin> set server) bs"
  by (induction bs arbitrary: acc) (auto simp: sort_block_def split: option.splits)

lemma client_uses_filter:
  "client_uses server m = filter (\<lambda>b. bk_type b = Some ''tool_use'' \<and> bk_name b \<notin> set server) (fm_content m)"
  using sort_block_uses [of server "([], [], [])" "fm_content m"]
  by (cases "foldl (sort_block server) ([], [], []) (fm_content m)") (simp add: client_uses_def sort_blocks_def)

lemma add_message_sel [simp]:
  "ss_messages (add_message m s) = ss_messages s @ [m]" "ss_kwargs (add_message m s) = ss_kwargs s"
  "ss_server_names (add_message m s) = ss_server_names s" "ss_turns_left (add_message m s) = ss_turns_left s"
  by (simp_all add: add_message_def)

text \<open>What the loop gives: the turns it uses up, and how much is left to say.\<close>

definition left_to_say :: "raw_phase \<Rightarrow> nat" where
  "left_to_say ph = (case ph of Unstarted \<Rightarrow> 2 | Ready \<Rightarrow> 1 | Emitting es None \<Rightarrow> Suc (length es)
     | Emitting es (Some uses) \<Rightarrow> 2 + length es + length uses | Awaiting b bs rs \<Rightarrow> Suc (length bs) | Over \<Rightarrow> 0)"

definition raw_order :: "(raw_session \<times> raw_session) set" where
  "raw_order = inv_image (less_than <*lex*> less_than) (\<lambda>s. (ss_turns_left s, left_to_say (ss_phase s)))"

lemma raw_order_iff: "(s', s) \<in> raw_order \<longleftrightarrow> ss_turns_left s' < ss_turns_left s \<or>
    ss_turns_left s' = ss_turns_left s \<and> left_to_say (ss_phase s') < left_to_say (ss_phase s)"
  by (auto simp: raw_order_def)

lemma run_turns_left: "n \<le> ss_turns_left s \<Longrightarrow> ss_turns_left (snd (run_turns A n s)) < ss_turns_left s \<or>
    ss_turns_left (snd (run_turns A n s)) = ss_turns_left s \<and> ss_phase (snd (run_turns A n s)) = Over"
proof (induction n arbitrary: s)
  case (Suc n)
  have ih: "ss_turns_left (snd (run_turns A n (add_message x (add_message y s\<lparr>ss_turns_left := n\<rparr>)))) \<le> n" for x y
    using Suc.IH [of "add_message x (add_message y s\<lparr>ss_turns_left := n\<rparr>)"] by auto
  have less: "n < ss_turns_left s" using Suc.prems by simp
  show ?case
    using less le_less_trans [OF ih less]
    by (auto simp: Let_def add_message_def split: turn_outcome.split prod.split list.split)
qed simp

lemma raw_step_descends:
  assumes "raw_step E rx A s sent w = (Inr (Some (ev, s')), w')"
  shows "(s', s) \<in> raw_order"
proof -
  have run: "(snd (run_turns A (ss_turns_left s) t), s) \<in> raw_order"
    if "ss_turns_left t = ss_turns_left s" "0 < left_to_say (ss_phase s)" for t
    using run_turns_left [of "ss_turns_left s" t A] that by (auto simp: raw_order_iff left_to_say_def)
  show ?thesis
  proof (cases "ss_phase s")
    case Unstarted
    with assms show ?thesis by (auto simp: raw_step_def ret_run raw_order_iff left_to_say_def)
  next
    case Ready
    with run [of s] show ?thesis using assms by (auto simp: raw_step_def ret_run left_to_say_def dest!: arg_cong [where f = snd])
  next
    case (Emitting es next_uses)
    show ?thesis
    proof (cases es)
      case Nil
      show ?thesis
      proof (cases next_uses)
        case (Some uses)
        with Emitting Nil assms run [of "add_message (results_message []) s"] show ?thesis
          by (cases uses) (auto simp: raw_step_def ret_run raw_order_iff left_to_say_def dest!: arg_cong [where f = snd])
      qed (use Emitting Nil assms in \<open>simp add: raw_step_def ret_run\<close>)
    next
      case (Cons e es')
      with Emitting assms show ?thesis
        by (auto simp: raw_step_def ret_run raw_order_iff left_to_say_def split: option.split)
    qed
  next
    case (Awaiting b bs rs)
    show ?thesis
    proof (cases sent)
      case None
      with Awaiting assms show ?thesis by (auto simp: raw_step_def ret_run raw_order_iff left_to_say_def)
    next
      case (Some r)
      with Awaiting assms run [of "add_message (results_message (rs @ [result_block r])) s"] show ?thesis
        by (cases bs) (auto simp: raw_step_def ret_run raw_order_iff left_to_say_def dest!: arg_cong [where f = snd])
    qed
  next
    case Over
    with assms show ?thesis by (simp add: raw_step_def ret_run)
  qed
qed

lemma wf_raw_order: "wf raw_order"
  by (simp add: raw_order_def wf_lex_prod)

section \<open>The conversation\<close>

text \<open>The messages the adapter may send when \<open>n\<close> turns are left: the opening, and then for every answer of
  the API that asks for tools this answer and one result for each of its client tool uses, in their order.\<close>

inductive conversation :: "raw_api \<Rightarrow> string list \<Rightarrow> json_obj \<Rightarrow> json \<Rightarrow> nat \<Rightarrow> json list \<Rightarrow> bool"
  for A server kwargs m0 where
  Opens: "conversation A server kwargs m0 (ra_turns A) [m0]"
| Answers: "conversation A server kwargs m0 (Suc n) ms \<Longrightarrow> ra_api A n (turn_request kwargs ms) = Turn chunks m \<Longrightarrow>
    fm_stop_reason m = JStr ''tool_use'' \<Longrightarrow> map tr_tool_use_id rs = map bk_id (client_uses server m) \<Longrightarrow>
    conversation A server kwargs m0 n (ms @ [assistant_message m, results_message (map result_block rs)])"

text \<open>The API has asked for the client tools \<open>uses\<close>, and nothing is answered yet.\<close>

definition asked :: "raw_api \<Rightarrow> json \<Rightarrow> raw_session \<Rightarrow> block list \<Rightarrow> bool" where
  "asked A m0 s uses \<longleftrightarrow> (\<exists>ms chunks m. conversation A (ss_server_names s) (ss_kwargs s) m0 (Suc (ss_turns_left s)) ms \<and>
     ra_api A (ss_turns_left s) (turn_request (ss_kwargs s) ms) = Turn chunks m \<and> fm_stop_reason m = JStr ''tool_use'' \<and>
     uses = client_uses (ss_server_names s) m \<and> ss_messages s = ms @ [assistant_message m])"

definition phase_ok :: "raw_api \<Rightarrow> json \<Rightarrow> raw_session \<Rightarrow> bool" where
  "phase_ok A m0 s \<longleftrightarrow> (case ss_phase s of
       Unstarted \<Rightarrow> conversation A (ss_server_names s) (ss_kwargs s) m0 (ss_turns_left s) (ss_messages s)
     | Ready \<Rightarrow> conversation A (ss_server_names s) (ss_kwargs s) m0 (ss_turns_left s) (ss_messages s)
     | Emitting _ (Some uses) \<Rightarrow> asked A m0 s uses
     | Awaiting b bs rs \<Rightarrow> (\<exists>before given. asked A m0 s (before @ b # bs) \<and> rs = map result_block given \<and>
         map tr_tool_use_id given = map bk_id before)
     | _ \<Rightarrow> True)"

definition raw_inv :: "raw_api \<Rightarrow> raw_session \<Rightarrow> raw_session \<Rightarrow> bool" where
  "raw_inv A s0 s \<longleftrightarrow> ss_kwargs s = ss_kwargs s0 \<and> ss_server_names s = ss_server_names s0 \<and> phase_ok A (hd (ss_messages s0)) s"

text \<open>One resumption by a caller that answers a proposal, if at all, under the proposal's own id.\<close>

definition raw_resumes :: "env \<Rightarrow> (exn \<Rightarrow> string) \<Rightarrow> raw_api \<Rightarrow> raw_session \<Rightarrow> raw_session \<Rightarrow> bool" where
  "raw_resumes E rx A s s' \<longleftrightarrow> (\<exists>sent w ev w'. raw_step E rx A s sent w = (Inr (Some (ev, s')), w') \<and>
     (\<forall>b bs rs r. ss_phase s = Awaiting b bs rs \<and> sent = Some r \<longrightarrow> tr_tool_use_id r = bk_id b))"

lemma asked_phase [simp]: "asked A m0 (s\<lparr>ss_phase := ph\<rparr>) uses = asked A m0 s uses"
  by (simp add: asked_def)

lemma asked_answered:
  assumes "asked A m0 s uses" and "map tr_tool_use_id rs = map bk_id uses"
  shows "conversation A (ss_server_names s) (ss_kwargs s) m0 (ss_turns_left s)
    (ss_messages s @ [results_message (map result_block rs)])"
  using assms conversation.Answers [of A "ss_server_names s" "ss_kwargs s" m0 "ss_turns_left s"] by (auto simp: asked_def)

lemma run_turns_names: "ss_kwargs (snd (run_turns A n s)) = ss_kwargs s \<and> ss_server_names (snd (run_turns A n s)) = ss_server_names s"
  by (induction A n s rule: run_turns.induct)
    (auto simp: Let_def add_message_def split: turn_outcome.split prod.split list.split)

lemma run_turns_ok:
  "conversation A (ss_server_names s) (ss_kwargs s) m0 n (ss_messages s) \<Longrightarrow> phase_ok A m0 (snd (run_turns A n s))"
proof (induction n arbitrary: s)
  case 0
  then show ?case by (simp add: phase_ok_def)
next
  case (Suc n)
  show ?case
  proof (cases "ra_api A n (turn_request (ss_kwargs s) (ss_messages s))")
    case (Turn chunks m)
    obtain uses evs where sort: "sort_blocks (ss_server_names s) (fm_content m) = (uses, evs)" by fastforce
    then have uses: "uses = client_uses (ss_server_names s) m" by (simp add: client_uses_def)
    let ?t = "(add_message (assistant_message m) s)\<lparr>ss_turns_left := n\<rparr>"
    show ?thesis
    proof (cases "fm_stop_reason m = JStr ''tool_use''")
      case True
      have asked: "asked A m0 (?t\<lparr>ss_phase := ph\<rparr>) uses" for ph
        using Suc.prems Turn True uses by (auto simp: asked_def)
      show ?thesis
      proof (cases "evs @ delta_events chunks")
        case (Cons e es)
        with Turn sort True asked show ?thesis by (simp add: Let_def phase_ok_def)
      next
        case none: Nil
        show ?thesis
        proof (cases uses)
          case (Cons b bs)
          with none Turn sort True asked show ?thesis
            by (auto simp: Let_def phase_ok_def intro!: exI [of _ "[]"])
        next
          case Nil
          have "conversation A (ss_server_names ?t) (ss_kwargs ?t) m0 n (ss_messages ?t @ [results_message (map result_block [])])"
            using asked_answered [OF asked [of "ss_phase ?t"], of "[]"] Nil by simp
          then have "phase_ok A m0 (snd (run_turns A n (add_message (results_message []) ?t)))"
            by (intro Suc.IH) simp
          with none Nil Turn sort True show ?thesis by (simp add: Let_def)
        qed
      qed
    next
      case False
      with Turn sort show ?thesis by (auto simp: Let_def phase_ok_def split: list.split)
    qed
  qed (use Suc.prems in \<open>simp_all add: phase_ok_def\<close>)
qed

lemma raw_inv_step:
  assumes "raw_resumes E rx A s t" and "raw_inv A s0 s"
  shows "raw_inv A s0 t"
proof -
  let ?m0 = "hd (ss_messages s0)"
  obtain sent w ev w' where step: "raw_step E rx A s sent w = (Inr (Some (ev, t)), w')"
    and proper: "\<And>b bs rs r. ss_phase s = Awaiting b bs rs \<Longrightarrow> sent = Some r \<Longrightarrow> tr_tool_use_id r = bk_id b"
    using assms(1) by (auto simp: raw_resumes_def)
  have names: "ss_kwargs s = ss_kwargs s0" "ss_server_names s = ss_server_names s0" and ok: "phase_ok A ?m0 s"
    using assms(2) by (simp_all add: raw_inv_def)
  have run: "raw_inv A s0 t" if "t = snd (run_turns A (ss_turns_left s) (add s))" "ss_kwargs (add s) = ss_kwargs s"
    "ss_server_names (add s) = ss_server_names s"
    "conversation A (ss_server_names s) (ss_kwargs s) ?m0 (ss_turns_left s) (ss_messages (add s))" for add
    using that names run_turns_names [of A "ss_turns_left s" "add s"] run_turns_ok [of A "add s" ?m0 "ss_turns_left s"]
    by (simp add: raw_inv_def)
  show ?thesis
  proof (cases "ss_phase s")
    case Unstarted
    with step names ok show ?thesis by (auto simp: raw_step_def ret_run raw_inv_def phase_ok_def)
  next
    case Ready
    with step ok show ?thesis
      by (intro run [of "\<lambda>s. s"]) (auto simp: raw_step_def ret_run phase_ok_def dest!: arg_cong [where f = snd])
  next
    case (Emitting es next_uses)
    show ?thesis
    proof (cases es)
      case (Cons e es')
      with Emitting step names ok show ?thesis
        by (auto simp: raw_step_def ret_run raw_inv_def phase_ok_def split: option.splits)
    next
      case Nil
      with Emitting step obtain uses where uses: "next_uses = Some uses" by (cases next_uses) (auto simp: raw_step_def ret_run)
      with Emitting ok have asked: "asked A ?m0 s uses" by (simp add: phase_ok_def)
      show ?thesis
      proof (cases uses)
        case Nil': Nil
        with asked_answered [OF asked, of "[]"] Emitting Nil uses step show ?thesis
          by (intro run [of "add_message (results_message [])"])
            (auto simp: raw_step_def ret_run dest!: arg_cong [where f = snd])
      next
        case (Cons b bs)
        then have "t = s\<lparr>ss_phase := Awaiting b bs []\<rparr>" using Emitting Nil uses step by (auto simp: raw_step_def ret_run)
        with Cons asked names show ?thesis by (auto simp: raw_inv_def phase_ok_def intro!: exI [of _ "[]"])
      qed
    qed
  next
    case (Awaiting b bs rs)
    with ok obtain before given where asked: "asked A ?m0 s (before @ b # bs)" and rs: "rs = map result_block given"
      and given: "map tr_tool_use_id given = map bk_id before" by (auto simp: phase_ok_def)
    show ?thesis
    proof (cases sent)
      case None
      with Awaiting step names show ?thesis by (auto simp: raw_step_def ret_run raw_inv_def phase_ok_def)
    next
      case (Some r)
      have r: "map tr_tool_use_id (given @ [r]) = map bk_id (before @ [b])"
        using proper [OF Awaiting Some] given by simp
      show ?thesis
      proof (cases bs)
        case Nil
        with asked_answered [OF asked, of "given @ [r]"] r Awaiting Some rs step show ?thesis
          by (intro run [of "add_message (results_message (rs @ [result_block r]))"])
            (auto simp: raw_step_def ret_run dest!: arg_cong [where f = snd])
      next
        case (Cons b' bs')
        then have t: "t = s\<lparr>ss_phase := Awaiting b' bs' (rs @ [result_block r])\<rparr>"
          using Awaiting Some step by (auto simp: raw_step_def ret_run)
        have "asked A ?m0 t ((before @ [b]) @ b' # bs')" using asked Cons t by simp
        moreover have "rs @ [result_block r] = map result_block (given @ [r])" using rs by simp
        ultimately have "\<exists>before given. asked A ?m0 t (before @ b' # bs') \<and> rs @ [result_block r] = map result_block given \<and>
            map tr_tool_use_id given = map bk_id before" using r by blast
        then have "phase_ok A ?m0 t" using t by (simp add: phase_ok_def)
        with names t show ?thesis by (simp add: raw_inv_def)
      qed
    qed
  next
    case Over
    with step show ?thesis by (simp add: raw_step_def ret_run)
  qed
qed

interpretation claude: transition_system "\<lambda>s. s = raw_start E A p ctx tools aggregate_id" "raw_resumes E rx A"
  "raw_inv A (raw_start E A p ctx tools aggregate_id)" for E rx A p ctx tools aggregate_id
proof unfold_locales
  fix s assume "s = raw_start E A p ctx tools aggregate_id"
  then show "raw_inv A (raw_start E A p ctx tools aggregate_id) s"
    by (simp add: raw_inv_def phase_ok_def raw_start_def conversation.Opens)
qed (rule raw_inv_step)

lemma turn_request_inj: "turn_request kw ms = turn_request kw ms' \<longleftrightarrow> ms = ms'"
proof
  assume "turn_request kw ms = turn_request kw ms'"
  then have "dict_get (dict_set ''messages'' (JArr ms) kw) ''messages'' = dict_get (dict_set ''messages'' (JArr ms') kw) ''messages''"
    by (simp add: turn_request_def)
  then show "ms = ms'" by simp
qed simp

lemma conversation_not_empty: "conversation A server kw m0 n ms \<Longrightarrow> ms \<noteq> []"
  by (cases rule: conversation.cases) auto

text \<open>Two APIs that agree on the conversations cannot be told apart.\<close>

lemma run_turns_agree:
  assumes "\<And>n ms. conversation A (ss_server_names s) (ss_kwargs s) m0 (Suc n) ms \<Longrightarrow>
      f n (turn_request (ss_kwargs s) ms) = ra_api A n (turn_request (ss_kwargs s) ms)"
  shows "conversation A (ss_server_names s) (ss_kwargs s) m0 n (ss_messages s) \<Longrightarrow>
      run_turns (A\<lparr>ra_api := f\<rparr>) n s = run_turns A n s"
  using assms
proof (induction n arbitrary: s)
  case (Suc n)
  have same: "f n (turn_request (ss_kwargs s) (ss_messages s)) = ra_api A n (turn_request (ss_kwargs s) (ss_messages s))"
    by (rule Suc.prems(2) [OF Suc.prems(1)])
  show ?case
  proof (cases "ra_api A n (turn_request (ss_kwargs s) (ss_messages s))")
    case (Turn chunks m)
    obtain uses evs where sort: "sort_blocks (ss_server_names s) (fm_content m) = (uses, evs)" by fastforce
    let ?t = "(add_message (assistant_message m) s)\<lparr>ss_turns_left := n\<rparr>"
    show ?thesis
    proof (cases "fm_stop_reason m = JStr ''tool_use'' \<and> uses = []")
      case True
      have "asked A m0 ?t []"
        using Suc.prems(1) Turn True sort by (auto simp: asked_def client_uses_def)
      from asked_answered [OF this, of "[]"]
      have "run_turns (A\<lparr>ra_api := f\<rparr>) n (add_message (results_message []) ?t) = run_turns A n (add_message (results_message []) ?t)"
        by (intro Suc.IH) (simp_all add: Suc.prems(2))
      with same Turn sort True show ?thesis by (simp add: Let_def split: list.split)
    next
      case False
      with same Turn sort show ?thesis by (auto simp: Let_def split: list.split)
    qed
  qed (use same in simp_all)
qed simp

section \<open>Properties\<close>


text \<open>C28: The API is only ever asked to continue a conversation in which every tool use is answered. After any
  number of resumptions by a caller that answers each proposal under its own id, the adapter behaves the
  same over two APIs that agree on such conversations: each answer of the API that asks for tools is
  followed by one user message with one result for each client tool it asked for, in its order.\<close>

theorem claude_continues_answered_conversations:
  assumes "(raw_resumes E rx A)\<^sup>*\<^sup>* (raw_start E A p ctx tools aggregate_id) s"
    and "\<And>n ms. conversation A (ss_server_names s) (ss_kwargs s) (JObj [(''role'', JStr ''user''), (''content'', JStr ctx)]) (Suc n) ms \<Longrightarrow>
      f n (turn_request (ss_kwargs s) ms) = ra_api A n (turn_request (ss_kwargs s) ms)"
    and "\<And>b bs rs r. ss_phase s = Awaiting b bs rs \<Longrightarrow> sent = Some r \<Longrightarrow> tr_tool_use_id r = bk_id b"
  shows "raw_step E rx (A\<lparr>ra_api := f\<rparr>) s sent w = raw_step E rx A s sent w"
proof -
  let ?m0 = "JObj [(''role'', JStr ''user''), (''content'', JStr ctx)]"
  have "phase_ok A ?m0 s"
    using claude.reachable_inv [OF refl assms(1)] by (simp add: raw_inv_def raw_start_def)
  then have ok: "case ss_phase s of Ready \<Rightarrow> conversation A (ss_server_names s) (ss_kwargs s) ?m0 (ss_turns_left s) (ss_messages s)
      | Emitting es (Some uses) \<Rightarrow> asked A ?m0 s uses
      | Awaiting b bs rs \<Rightarrow> \<exists>before given. asked A ?m0 s (before @ b # bs) \<and> rs = map result_block given \<and>
          map tr_tool_use_id given = map bk_id before
      | _ \<Rightarrow> True"
    unfolding phase_ok_def by (simp split: raw_phase.splits)
  have run: "run_turns (A\<lparr>ra_api := f\<rparr>) (ss_turns_left s) (add s) = run_turns A (ss_turns_left s) (add s)"
    if "ss_kwargs (add s) = ss_kwargs s" "ss_server_names (add s) = ss_server_names s"
      "conversation A (ss_server_names s) (ss_kwargs s) ?m0 (ss_turns_left s) (ss_messages (add s))" for add
    using that assms(2) by (intro run_turns_agree [where ?m0.0 = ?m0]) simp_all
  show ?thesis
  proof (cases "ss_phase s")
    case Ready
    with run [of "\<lambda>s. s"] ok show ?thesis by (simp add: raw_step_def)
  next
    case (Emitting es next_uses)
    show ?thesis
    proof (cases "es = [] \<and> next_uses = Some []")
      case True
      with Emitting ok have "asked A ?m0 s []" by simp
      from asked_answered [OF this, of "[]"] True Emitting run [of "add_message (results_message [])"]
      show ?thesis by (simp add: raw_step_def)
    qed (use Emitting in \<open>auto simp: raw_step_def neq_Nil_conv split: list.split option.split\<close>)
  next
    case (Awaiting b bs rs)
    with ok obtain before given where asked: "asked A ?m0 s (before @ b # bs)" and rs: "rs = map result_block given"
      and given: "map tr_tool_use_id given = map bk_id before" by auto
    show ?thesis
    proof (cases "\<exists>r. sent = Some r \<and> bs = []")
      case True
      then obtain r where r: "sent = Some r" "bs = []" by blast
      with asked_answered [OF asked, of "given @ [r]"] given assms(3) [OF Awaiting] rs Awaiting
        run [of "add_message (results_message (rs @ [result_block r]))"]
      show ?thesis by (simp add: raw_step_def)
    qed (use Awaiting in \<open>auto simp: raw_step_def split: list.split option.split\<close>)
  qed (simp_all add: raw_step_def)
qed

text \<open>A session of two turns: the API asks for \<open>bash\<close>, and completes.\<close>

definition demo_use :: block where
  "demo_use = \<lparr>bk_type = Some ''tool_use'', bk_name = ''bash'', bk_id = ''t1'', bk_input = [], bk_tool_use_id = None,
     bk_content = JNull, bk_dump = JStr ''bash''\<rparr>"

definition demo_api :: "nat \<Rightarrow> json \<Rightarrow> turn_outcome" where
  "demo_api n request = (if n = 1 then Turn [] \<lparr>fm_content = [demo_use], fm_stop_reason = JStr ''tool_use'', fm_usage = None\<rparr>
     else Turn [TextChunk ''ok''] \<lparr>fm_content = [], fm_stop_reason = JStr ''end_turn'', fm_usage = None\<rparr>)"

definition demo_raw :: raw_api where
  "demo_raw = \<lparr>ra_api = demo_api, ra_turns = 2, ra_default_model = ''m'', ra_timeout = 600, ra_mcp_servers = []\<rparr>"

definition demo_agent :: agent_persona where
  "demo_agent = agent_def_to_persona demo_persona"

definition demo_answer :: tool_result where
  "demo_answer = \<lparr>tr_tool_use_id = ''t1'', tr_content = JNull, tr_is_error = False\<rparr>"

lemma claude_continues_answered_conversations_witness:
  "\<exists>s. (raw_resumes demo_env exn_message demo_raw)\<^sup>*\<^sup>* (raw_start demo_env demo_raw demo_agent ''go'' [] ''a'') s \<and>
     ss_phase s = Awaiting demo_use [] [] \<and>
     raw_step demo_env exn_message (demo_raw\<lparr>ra_api := \<lambda>n request. if request = turn_request (ss_kwargs s) [] then TurnTimeout
       else demo_api n request\<rparr>) s (Some demo_answer) empty_world =
     raw_step demo_env exn_message demo_raw s (Some demo_answer) empty_world"
proof -
  let ?s0 = "raw_start demo_env demo_raw demo_agent ''go'' [] ''a''"
  let ?s1 = "?s0\<lparr>ss_phase := Ready\<rparr>"
  let ?m = "\<lparr>fm_content = [demo_use], fm_stop_reason = JStr ''tool_use'', fm_usage = None\<rparr>"
  let ?s2 = "(add_message (assistant_message ?m) ?s1)\<lparr>ss_turns_left := 1, ss_phase := Awaiting demo_use [] []\<rparr>"
  let ?f = "\<lambda>n request. if request = turn_request (ss_kwargs ?s2) [] then TurnTimeout else demo_api n request"
  have server: "ss_server_names ?s1 = []"
    by (simp add: raw_start_def server_abstract_def demo_agent_def agent_def_to_persona_def build_tool_payload_def map_filter_def)
  have turns: "ss_turns_left ?s1 = Suc (Suc 0)" "ss_phase ?s0 = Unstarted" by (simp_all add: raw_start_def demo_raw_def numeral_2_eq_2)
  have sort: "sort_blocks [] [demo_use] = ([demo_use], [])" by (simp add: sort_blocks_def sort_block_def demo_use_def)
  have api: "ra_api demo_raw = demo_api" by (simp add: demo_raw_def)
  have "run_turns demo_raw (ss_turns_left ?s1) ?s1 = (proposal_of demo_use, ?s2)"
    unfolding turns run_turns.simps api server demo_api_def
    by (simp add: sort delta_events_def Let_def)
  then have "raw_resumes demo_env exn_message demo_raw ?s1 ?s2"
    unfolding raw_resumes_def by (intro exI [of _ None] exI) (auto simp: raw_step_def ret_run)
  moreover have "raw_resumes demo_env exn_message demo_raw ?s0 ?s1"
    unfolding raw_resumes_def by (intro exI [of _ None] exI) (auto simp: raw_step_def ret_run turns)
  ultimately have reach: "(raw_resumes demo_env exn_message demo_raw)\<^sup>*\<^sup>* ?s0 ?s2"
    by (meson rtranclp.rtrancl_into_rtrancl rtranclp.rtrancl_refl)
  have "raw_step demo_env exn_message (demo_raw\<lparr>ra_api := ?f\<rparr>) ?s2 (Some demo_answer) empty_world =
      raw_step demo_env exn_message demo_raw ?s2 (Some demo_answer) empty_world"
  proof (rule claude_continues_answered_conversations [OF reach])
    show "?f n (turn_request (ss_kwargs ?s2) ms) = ra_api demo_raw n (turn_request (ss_kwargs ?s2) ms)"
      if "conversation demo_raw (ss_server_names ?s2) (ss_kwargs ?s2) (JObj [(''role'', JStr ''user''), (''content'', JStr ''go'')]) (Suc n) ms" for n ms
    proof -
      have "ms \<noteq> []" by (rule conversation_not_empty [OF that])
      then show ?thesis by (simp only: api turn_request_inj if_False)
    qed
    show "tr_tool_use_id r = bk_id b" if "ss_phase ?s2 = Awaiting b bs rs" "Some demo_answer = Some r" for b bs rs r
      using that by (auto simp: demo_answer_def demo_use_def)
  qed
  with reach show ?thesis by (intro exI [of _ ?s2]) simp
qed

end
