(* ===== verification/ClaudeCode.thy ===== *)
theory ClaudeCode imports Bridge Security begin

text \<open>
  The kernel adapter over the \<open>claude\<close> command, \<open>adapters/claude_code/\<close>: running it and taking its output
  apart (\<open>runner.py\<close>, \<open>tool_map.py\<close>), the hooks it installs into \<open>.claude/settings.json\<close> for the time of a run
  (\<open>hooks.py\<close>), the spawn with its security gate and its events (\<open>adapter.py\<close>), and the replay of a run from
  these events (\<open>replay.py\<close>). The subprocess is \<open>run_process\<close>. Parameters of the adapter: how
  a path is resolved against the project (\<open>None\<close> is outside), whether \<open>.claude\<close> is empty, the indented
  \<open>json.dumps\<close>, and the time of the files it writes.
\<close>

section \<open>Tools (tool_map.py)\<close>

definition abstract_to_claude :: "(string, string) dict" where
  "abstract_to_claude = [(''read_file'', ''Read''), (''write_file'', ''Write''), (''edit_file'', ''Edit''), (''bash'', ''Bash''),
     (''list_files'', ''LS''), (''glob_files'', ''Glob''), (''search_code'', ''Grep''), (''web_fetch'', ''WebFetch''),
     (''web_search'', ''WebSearch''), (''todo_read'', ''TodoRead''), (''todo_write'', ''TodoWrite'')]"

definition claude_to_abstract :: "(string, string) dict" where
  "claude_to_abstract = map (\<lambda>(k, v). (v, k)) abstract_to_claude"

definition to_claude_tools :: "string list \<Rightarrow> string list" where
  "to_claude_tools = List.map_filter (dict_get abstract_to_claude)"

definition to_abstract_tools :: "string list \<Rightarrow> string list" where
  "to_abstract_tools = List.map_filter (dict_get claude_to_abstract)"

definition default_abstract_tools :: "string list" where
  "default_abstract_tools = map fst abstract_to_claude"

section \<open>The run's output (runner.py)\<close>

definition permission_modes :: "string list" where
  "permission_modes = [''acceptEdits'', ''auto'', ''bypassPermissions'', ''default'', ''dontAsk'', ''plan'']"

definition validate_permission_mode :: "string option \<Rightarrow> exn + unit" where
  "validate_permission_mode mode = (case mode of None \<Rightarrow> Inr ()
     | Some m \<Rightarrow> if m \<in> set permission_modes then Inr ()
         else Inl (ValueError (''Invalid permission_mode `'' @ m @ ''`. Choose one of: '' @ join '', '' permission_modes @ ''.'')))"

definition spawn_error :: "int \<Rightarrow> string \<Rightarrow> exn" where
  "spawn_error code stderr = SpawnError code (''claude exited '' @ show_int code @ '': '' @ take 200 (strip stderr))"

record cli_event =
  ce_type :: json
  ce_raw :: json_obj

record run_result =
  rr_returncode :: json
  rr_events :: "cli_event list"

definition objects_of :: "json list \<Rightarrow> json_obj list" where
  "objects_of = List.map_filter (\<lambda>j. case j of JObj m \<Rightarrow> Some m | _ \<Rightarrow> None)"

definition content_blocks :: "cli_event \<Rightarrow> json_obj list" where
  "content_blocks e = (case field (ce_raw e) ''message'' JNull of
       JObj m \<Rightarrow> (case field m ''content'' JNull of JArr bs \<Rightarrow> objects_of bs | _ \<Rightarrow> [])
     | _ \<Rightarrow> [])"

definition blocks_of_type :: "string \<Rightarrow> cli_event \<Rightarrow> json_obj list" where
  "blocks_of_type ty e = filter (\<lambda>b. field b ''type'' JNull = JStr ty) (content_blocks e)"

definition event_text :: "cli_event \<Rightarrow> exn + string" where
  "event_text e = join_parts 0 (map (\<lambda>b. field b ''text'' (JStr [])) (blocks_of_type ''text'' e))"

definition result_event :: "run_result \<Rightarrow> cli_event option" where
  "result_event r = List.find (\<lambda>e. ce_type e = JStr ''result'') (rev (rr_events r))"

definition assistant_turns :: "run_result \<Rightarrow> cli_event list" where
  "assistant_turns r = filter (\<lambda>e. ce_type e = JStr ''assistant'') (rr_events r)"

definition text_output :: "run_result \<Rightarrow> exn + string" where
  "text_output r = (case map_option (\<lambda>e. field (ce_raw e) ''result'' JNull) (result_event r) of
       Some (JStr s) \<Rightarrow> Inr s
     | _ \<Rightarrow> bindr (mapr event_text (assistant_turns r)) (\<lambda>ts. Inr (join nl (filter (\<lambda>t. t \<noteq> []) ts))))"

definition tool_uses :: "run_result \<Rightarrow> json_obj list" where
  "tool_uses r = concat (map (blocks_of_type ''tool_use'') (assistant_turns r))"

definition result_usage :: "run_result \<Rightarrow> json_obj" where
  "result_usage r = (case map_option (\<lambda>e. field (ce_raw e) ''usage'' JNull) (result_event r) of Some (JObj u) \<Rightarrow> u | _ \<Rightarrow> [])"

definition total_cost_usd :: "run_result \<Rightarrow> json" where
  "total_cost_usd r = (case Option.bind (result_event r) (\<lambda>e. num_of (field (ce_raw e) ''total_cost_usd'' JNull)) of
     Some c \<Rightarrow> JFloat c | None \<Rightarrow> JNull)"

definition result_is_error :: "run_result \<Rightarrow> bool" where
  "result_is_error r = (case result_event r of Some e \<Rightarrow> truthy (field (ce_raw e) ''is_error'' JNull) | None \<Rightarrow> False)"

definition succeeded :: "run_result \<Rightarrow> bool" where
  "succeeded r \<longleftrightarrow> rr_returncode r = JInt 0 \<and> \<not> result_is_error r"

text \<open>\<open>None\<close> is a line that is passed over.\<close>

definition parse_stream_line :: "env \<Rightarrow> string \<Rightarrow> exn + cli_event option" where
  "parse_stream_line E line = (let l = strip line in if l = [] then Inr None else (case parse_json E l of
       Inl (ValueError _) \<Rightarrow> Inr None
     | Inl e \<Rightarrow> Inl e
     | Inr (JObj m) \<Rightarrow> Inr (Some \<lparr>ce_type = field m ''type'' (JStr ''unknown''), ce_raw = m\<rparr>)
     | Inr _ \<Rightarrow> Inr None))"

fun parse_stream_lines :: "env \<Rightarrow> (cli_event \<Rightarrow> (world, unit) prog) \<Rightarrow> string list \<Rightarrow> (world, cli_event list) prog" where
  "parse_stream_lines E on_event [] = ret []"
| "parse_stream_lines E on_event (l # ls) = bindp (lift_result (parse_stream_line E l)) (\<lambda>x. case x of
       None \<Rightarrow> parse_stream_lines E on_event ls
     | Some e \<Rightarrow> thenp (on_event e) (bindp (parse_stream_lines E on_event ls) (\<lambda>es. ret (e # es))))"

definition error_summary :: "env \<Rightarrow> run_result \<Rightarrow> string" where
  "error_summary E r = (case result_event r of None \<Rightarrow> ''no result line in stream''
     | Some e \<Rightarrow> take 200 (strip (py_str E (field (ce_raw e) ''subtype'' (JStr ''error'')) @ '': '' @
         py_str E (field (ce_raw e) ''result'' (JStr [])))))"

section \<open>The adapter\<close>

record claude_code =
  cc_bin :: string
  cc_timeout :: int
  cc_model :: "string option"
  cc_permission_mode :: "string option"
  cc_recording :: bool
  cc_hook_command :: "string option"
  cc_profile :: "security_profile option"
  cc_resolve :: "string \<Rightarrow> exn + string option"
  cc_dir_empty :: "file_system \<Rightarrow> bool"
  cc_dumps :: "json \<Rightarrow> string"
  cc_mtime :: real

definition bind_event_store :: "bool \<Rightarrow> claude_code \<Rightarrow> claude_code" where
  "bind_event_store recording C = C\<lparr>cc_recording := recording\<rparr>"

definition optional_flag :: "string \<Rightarrow> string option \<Rightarrow> string list" where
  "optional_flag flag v = (case v of None \<Rightarrow> [] | Some s \<Rightarrow> if s = [] then [] else [flag, s])"

definition claude_command :: "claude_code \<Rightarrow> string \<Rightarrow> string list \<Rightarrow> string list" where
  "claude_command C prompt tools = [cc_bin C, ''-p'', prompt, ''--output-format'', ''stream-json'', ''--verbose'', ''--no-session-persistence''] @
     (if tools = [] then [] else [''--allowedTools'', join '','' tools]) @ optional_flag ''--model'' (cc_model C) @
     optional_flag ''--permission-mode'' (cc_permission_mode C)"

definition claude_process :: "env \<Rightarrow> claude_code \<Rightarrow> string list \<Rightarrow> (world, int \<times> string \<times> string) prog" where
  "claude_process E C cmd = catchp (subprocess_run E cmd (cc_timeout C)) (\<lambda>e. case e of
       TimeoutExpired _ \<Rightarrow> throw (spawn_error (- 1) (''timed out after '' @ show_int (cc_timeout C) @ ''s''))
     | FileNotFoundError _ \<Rightarrow> throw (spawn_error (- 1) (''claude binary not found: '' @ cc_bin C))
     | _ \<Rightarrow> throw e)"

definition run_claude :: "env \<Rightarrow> claude_code \<Rightarrow> (cli_event \<Rightarrow> (world, unit) prog) \<Rightarrow> string \<Rightarrow> string list \<Rightarrow> (world, run_result) prog" where
  "run_claude E C on_event prompt tools = bindp (claude_process E C (claude_command C prompt tools)) (\<lambda>(code, out, err).
     bindp (parse_stream_lines E on_event (splitlines out)) (\<lambda>es. let r = \<lparr>rr_returncode = JInt code, rr_events = es\<rparr> in
       if succeeded r then ret r else throw (spawn_error code (if err = [] then error_summary E r else err))))"

definition get_claude_version :: "env \<Rightarrow> string \<Rightarrow> int \<Rightarrow> (world, string) prog" where
  "get_claude_version E bin timeout = bindp (catchp (subprocess_run E [bin, ''--version''] timeout) (\<lambda>e. case e of
       FileNotFoundError _ \<Rightarrow> throw (spawn_error (- 1) (''`'' @ bin @ ''` not found on PATH. '' @
         ''Install Claude Code: https://docs.claude.com/en/docs/claude-code''))
     | TimeoutExpired _ \<Rightarrow> throw (spawn_error (- 1) (''`'' @ bin @ '' --version` timed out after '' @ show_int timeout @ ''s''))
     | _ \<Rightarrow> throw e)) (\<lambda>(code, out, err).
     if code \<noteq> 0 then throw (spawn_error code (if err = [] then ''version check failed'' else err))
     else if strip out = [] then throw (spawn_error code (''`'' @ bin @ '' --version` produced no output''))
     else ret (strip out))"

section \<open>Hooks in the settings file (hooks.py)\<close>

definition settings_path :: string where
  "settings_path = ''.claude/settings.json''"

text \<open>\<open>dict(value)\<close>: of an object, or of a sequence of pairs; keys are strings.\<close>

definition pair_of :: "json \<Rightarrow> exn + string \<times> json" where
  "pair_of j = (case j of JArr [JStr k, v] \<Rightarrow> Inr (k, v) | JStr [a, b] \<Rightarrow> Inr ([a], JStr [b])
     | JArr _ \<Rightarrow> Inl (ValueError ''dictionary update sequence'') | JStr _ \<Rightarrow> Inl (ValueError ''dictionary update sequence'')
     | _ \<Rightarrow> Inl (TypeError ''cannot convert dictionary update sequence''))"

definition dict_of :: "json \<Rightarrow> exn + json_obj" where
  "dict_of j = (case j of JObj m \<Rightarrow> Inr m
     | _ \<Rightarrow> bindr (json_iter j) (\<lambda>xs. bindr (mapr pair_of xs) (\<lambda>kvs. Inr (foldl (\<lambda>m (k, v). dict_set k v m) [] kvs))))"

definition hook_block :: "string \<Rightarrow> string \<Rightarrow> json" where
  "hook_block command matcher = JObj [(''matcher'', JStr matcher),
     (''hooks'', JArr [JObj [(''type'', JStr ''command''), (''command'', JStr command)]])]"

definition merge_hooks :: "string \<Rightarrow> json_obj \<Rightarrow> exn + json_obj" where
  "merge_hooks command settings = bindr (dict_of (field settings ''hooks'' (JObj []))) (\<lambda>hooks.
     bindr (json_iter (field hooks ''PreToolUse'' (JArr []))) (\<lambda>pre. bindr (json_iter (field hooks ''PostToolUse'' (JArr []))) (\<lambda>post.
     Inr (dict_set ''hooks'' (JObj (dict_set ''PostToolUse'' (JArr (post @ [hook_block command ''*'']))
       (dict_set ''PreToolUse'' (JArr (pre @ [hook_block command ''*''])) hooks))) settings))))"

definition load_settings :: "env \<Rightarrow> string \<Rightarrow> exn + json_obj" where
  "load_settings E content = (case parse_json E content of
       Inl (ValueError m) \<Rightarrow> Inl (ClaudeSettingsError (''existing .claude/settings.json is not valid JSON: '' @ m))
     | Inl e \<Rightarrow> Inl e
     | Inr (JObj m) \<Rightarrow> Inr m
     | Inr _ \<Rightarrow> Inl (ClaudeSettingsError ''.claude/settings.json must contain a JSON object''))"

definition write_settings :: "env \<Rightarrow> claude_code \<Rightarrow> string \<Rightarrow> (world, unit) prog" where
  "write_settings E C content = write_file E settings_path (\<lambda>w.
     w\<lparr>w_fs := (w_fs w)(settings_path \<mapsto> \<lparr>fe_content = content, fe_mtime = cc_mtime C\<rparr>)\<rparr>)"

text \<open>\<open>Path.read_text\<close> reads every line end as a newline. What is kept for the restoration is this text,
  and whether \<open>.claude\<close> was made.\<close>

fun universal_newlines :: "string \<Rightarrow> string" where
  "universal_newlines [] = []"
| "universal_newlines (c # cs) = (if c = CHR 0x0D then CHR 0x0A # (if take 1 cs = [CHR 0x0A] then universal_newlines (drop 1 cs)
     else universal_newlines cs) else c # universal_newlines cs)"

definition install_hooks :: "env \<Rightarrow> claude_code \<Rightarrow> string \<Rightarrow> (world, string option \<times> bool) prog" where
  "install_hooks E C command = bindp (asks w_claude_dir) (\<lambda>dir.
     thenp (whenp (\<not> dir) (write_file E ''.claude'' (\<lambda>w. w\<lparr>w_claude_dir := True\<rparr>)))
     (bindp (asks (\<lambda>w. map_option (\<lambda>f. universal_newlines (fe_content f)) (w_fs w settings_path))) (\<lambda>original.
     bindp (lift_result (case original of None \<Rightarrow> Inr [] | Some t \<Rightarrow> load_settings E t)) (\<lambda>settings.
     bindp (lift_result (merge_hooks command settings)) (\<lambda>merged.
     thenp (write_settings E C (cc_dumps C (JObj merged) @ nl)) (ret (original, \<not> dir)))))))"

definition remove_settings :: "env \<Rightarrow> claude_code \<Rightarrow> bool \<Rightarrow> (world, unit) prog" where
  "remove_settings E C made_dir = thenp (write_file E settings_path (\<lambda>w. w\<lparr>w_fs := (w_fs w)(settings_path := None)\<rparr>))
     (bindp (asks (\<lambda>w. made_dir \<and> w_claude_dir w \<and> cc_dir_empty C (w_fs w))) (\<lambda>empty.
       whenp empty (write_file E ''.claude'' (\<lambda>w. w\<lparr>w_claude_dir := False\<rparr>))))"

definition restore_settings :: "env \<Rightarrow> claude_code \<Rightarrow> string option \<times> bool \<Rightarrow> (world, unit) prog" where
  "restore_settings E C saved = catchp (case fst saved of Some t \<Rightarrow> write_settings E C t | None \<Rightarrow> remove_settings E C (snd saved))
     (\<lambda>e. case e of OSError _ \<Rightarrow> ret () | _ \<Rightarrow> throw e)"

text \<open>\<open>with self._hook_context(): ...\<close>\<close>

definition with_hooks :: "env \<Rightarrow> claude_code \<Rightarrow> (world, 'a) prog \<Rightarrow> (world, 'a) prog" where
  "with_hooks E C body = (case cc_hook_command C of None \<Rightarrow> body
     | Some command \<Rightarrow> bindp (install_hooks E C command) (\<lambda>saved w. case body w of (r, w1) \<Rightarrow>
         (case restore_settings E C saved w1 of (Inl e, w2) \<Rightarrow> (Inl e, w2) | (Inr _, w2) \<Rightarrow> (r, w2))))"

section \<open>Spawning (adapter.py)\<close>

definition safe_append :: "env \<Rightarrow> claude_code \<Rightarrow> string \<Rightarrow> string \<Rightarrow> json_obj \<Rightarrow> (world, unit) prog" where
  "safe_append E C run_id ty payload = whenp (cc_recording C)
     (catchp (bindp (store_append E run_id ty payload) (\<lambda>_. ret ())) (\<lambda>_. ret ()))"

definition stream_recorder :: "env \<Rightarrow> claude_code \<Rightarrow> string \<Rightarrow> cli_event \<Rightarrow> (world, unit) prog" where
  "stream_recorder E C run_id e = safe_append E C run_id ''AdapterStreamEvent'' [(''type'', ce_type e), (''raw'', JObj (ce_raw e))]"

definition enforce_spawn_allowed :: "env \<Rightarrow> claude_code \<Rightarrow> agent_definition \<Rightarrow> (world, unit) prog" where
  "enforce_spawn_allowed E C persona = (case cc_profile C of None \<Rightarrow> ret ()
     | Some prof \<Rightarrow> bindp (validate_action E prof [(''type'', JStr ''kernel_adapter''), (''adapter_id'', JStr ''claude-code'')]
           ''execute_command'' (JStr (cc_bin C)) (Some ''shell'')) (\<lambda>decision.
         if decision = DecDenied then throw (spawn_error (- 1) (''security profile denied executing `'' @ cc_bin C @
           ''` (capability=shell) for persona '' @ ad_id persona)) else ret ()))"

definition claude_prompt :: "agent_definition \<Rightarrow> string \<Rightarrow> string" where
  "claude_prompt persona ctx = join nl ([''Role: '' @ ad_role persona, nl @ ad_prompt persona] @
     (if ctx = [] then [] else [nl @ nl @ ''Context:'' @ nl @ ctx]) @
     [nl @ nl @ ''Execution directive: this is a non-interactive batch run -- no '' @
      ''user can answer questions. Create every file listed under '' @
      ''`required_outputs` in the context now, at the exact relative path '' @
      ''given, using your file tools. If information is missing, write the '' @
      ''artifact anyway and record your assumptions inside it.''])"

definition file_writing_tools :: "string list" where
  "file_writing_tools = [''Write'', ''Edit'', ''NotebookEdit'']"

text \<open>The path a tool use writes to, with the tool; \<open>None\<close> is a use that gives no output.\<close>

definition output_of :: "claude_code \<Rightarrow> json_obj \<Rightarrow> exn + (string \<times> string) option" where
  "output_of C b = (case field b ''name'' JNull of
       JStr name \<Rightarrow> if name \<notin> set file_writing_tools then Inr None
         else (case field b ''input'' JNull of
             JObj m \<Rightarrow> (case field m ''file_path'' JNull of
                 JStr p \<Rightarrow> if p = [] then Inr None else bindr (cc_resolve C p) (\<lambda>x. Inr (map_option (\<lambda>rel. (rel, name)) x))
               | _ \<Rightarrow> Inr None)
           | _ \<Rightarrow> Inr None)
     | JArr _ \<Rightarrow> Inl (TypeError (''unhashable type: '' @ quoted ''list''))
     | JObj _ \<Rightarrow> Inl (TypeError (''unhashable type: '' @ quoted ''dict''))
     | _ \<Rightarrow> Inr None)"

definition file_artifact :: "string \<times> string \<Rightarrow> output_artifact" where
  "file_artifact = (\<lambda>(rel, name). \<lparr>oa_path = rel, oa_kind = ''file'', oa_description = Some (''Written via '' @ name @ '' tool'')\<rparr>)"

fun first_uses :: "string list \<Rightarrow> (string \<times> string) option list \<Rightarrow> (string \<times> string) list" where
  "first_uses seen [] = []"
| "first_uses seen (x # xs) = (case x of None \<Rightarrow> first_uses seen xs
     | Some (rel, name) \<Rightarrow> if rel \<in> set seen then first_uses seen xs else (rel, name) # first_uses (rel # seen) xs)"

definition extract_outputs :: "claude_code \<Rightarrow> run_result \<Rightarrow> exn + output_artifact list" where
  "extract_outputs C r = bindr (mapr (output_of C) (tool_uses r)) (\<lambda>xs. Inr (map file_artifact (first_uses [] xs)))"

definition claude_metadata :: "string list \<Rightarrow> run_result \<Rightarrow> string \<Rightarrow> exn + json_obj" where
  "claude_metadata granted r run_id = bindr (text_output r) (\<lambda>text. Inr [(''adapter'', JStr ''claude-code''), (''run_id'', JStr run_id),
     (''tools_granted'', JArr (map JStr granted)), (''tool_use_count'', JInt (int (length (tool_uses r)))),
     (''event_count'', JInt (int (length (rr_events r)))), (''text_length'', JInt (int (length text))), (''final_text'', JStr (take 500 text)),
     (''returncode'', rr_returncode r), (''usage'', JObj (result_usage r)), (''total_cost_usd'', total_cost_usd r)])"

definition stage_of :: "agent_definition \<Rightarrow> string option" where
  "stage_of p = (case ad_stage_ids p of [] \<Rightarrow> None | s # _ \<Rightarrow> Some s)"

definition build_handle :: "env \<Rightarrow> claude_code \<Rightarrow> agent_definition \<Rightarrow> string list \<Rightarrow> run_result \<Rightarrow> string \<Rightarrow> (world, agent_handle) prog" where
  "build_handle E C persona granted r run_id = bindp (lift_result (extract_outputs C r)) (\<lambda>outputs.
     bindp (lift_result (claude_metadata granted r run_id)) (\<lambda>meta. bindp (uuid4 E) (\<lambda>u. ret
     \<lparr>ah_handle_id = ''agent-'' @ u, ah_provider = ''claude-code'', ah_persona_id = ad_id persona, ah_stage_id = stage_of persona,
      ah_status = ''completed'', ah_outputs = outputs, ah_metadata = meta\<rparr>)))"

definition record_started :: "env \<Rightarrow> claude_code \<Rightarrow> string \<Rightarrow> agent_definition \<Rightarrow> string \<Rightarrow> string \<Rightarrow> string list \<Rightarrow> string list \<Rightarrow> (world, unit) prog" where
  "record_started E C run_id persona ctx prompt granted tools = safe_append E C run_id ''AdapterSpawnStarted''
     [(''adapter'', JStr ''claude-code''), (''persona_id'', JStr (ad_id persona)), (''role'', JStr (ad_role persona)),
      (''stage_id'', opt_str (stage_of persona)), (''prompt'', JStr prompt), (''context'', JStr ctx),
      (''granted_tools'', JArr (map JStr granted)), (''claude_tools'', JArr (map JStr tools))]"

definition exn_returncode :: "exn \<Rightarrow> int" where
  "exn_returncode e = (case e of SpawnError code _ \<Rightarrow> code | _ \<Rightarrow> - 1)"

definition record_failed :: "env \<Rightarrow> claude_code \<Rightarrow> string \<Rightarrow> exn \<Rightarrow> (world, unit) prog" where
  "record_failed E C run_id e = safe_append E C run_id ''AdapterSpawnFailed''
     [(''adapter'', JStr ''claude-code''), (''returncode'', JInt (exn_returncode e)), (''error'', JStr (exn_message e))]"

definition record_completed :: "env \<Rightarrow> claude_code \<Rightarrow> string \<Rightarrow> agent_handle \<Rightarrow> run_result \<Rightarrow> (world, unit) prog" where
  "record_completed E C run_id h r = bindp (lift_result (text_output r)) (\<lambda>text. safe_append E C run_id ''AdapterSpawnCompleted''
     [(''adapter'', JStr ''claude-code''), (''handle_id'', JStr (ah_handle_id h)), (''status'', JStr (ah_status h)),
      (''returncode'', rr_returncode r), (''tool_use_count'', JInt (int (length (tool_uses r)))), (''text_length'', JInt (int (length text))),
      (''metadata'', JObj (ah_metadata h))])"

definition claude_run_id :: "string \<Rightarrow> string" where
  "claude_run_id u = ''ccrun-'' @ u"

definition claude_spawn :: "env \<Rightarrow> claude_code \<Rightarrow> agent_definition \<Rightarrow> string \<Rightarrow> string list \<Rightarrow> (world, agent_handle) prog" where
  "claude_spawn E C persona ctx requested = (let granted = intersect_tools default_abstract_tools requested;
       tools = to_claude_tools granted; prompt = claude_prompt persona ctx in
     bindp (uuid4_hex E) (\<lambda>u. let run_id = claude_run_id u in
     thenp (record_started E C run_id persona ctx prompt granted tools)
     (bindp (catchp (thenp (enforce_spawn_allowed E C persona) (with_hooks E C (run_claude E C (stream_recorder E C run_id) prompt tools)))
         (\<lambda>e. thenp (record_failed E C run_id e) (throw e))) (\<lambda>r.
     bindp (build_handle E C persona granted r run_id) (\<lambda>h. thenp (record_completed E C run_id h r) (ret h))))))"

definition claude_code_adapter :: "env \<Rightarrow> claude_code \<Rightarrow> kernel_adapter" where
  "claude_code_adapter E C = \<lparr>ka_id = ''claude-code'', ka_capabilities = [''stream'', ''hook_events'', ''replay''],
     ka_default_tools = default_abstract_tools, ka_spawn = claude_spawn E C\<rparr>"

section \<open>Replaying (replay.py)\<close>

record replayed =
  rp_started :: "json_obj option"
  rp_stream :: "(json \<times> json) list"
  rp_terminal :: "(string \<times> json_obj) option"

definition key :: "json_obj \<Rightarrow> string \<Rightarrow> exn + json" where
  "key m k = json_item (JObj m) k"

definition replay_row :: "event_row \<Rightarrow> replayed \<Rightarrow> exn + replayed" where
  "replay_row e s = (let p = er_payload e; ty = er_event_type e in
     if ty = ''AdapterSpawnStarted'' then Inr (s\<lparr>rp_started := Some p\<rparr>)
     else if ty = ''AdapterStreamEvent'' then bindr (key p ''type'') (\<lambda>t. bindr (key p ''raw'') (\<lambda>raw.
         Inr (s\<lparr>rp_stream := rp_stream s @ [(t, raw)]\<rparr>)))
     else if ty \<in> {''AdapterSpawnCompleted'', ''AdapterSpawnFailed''} then Inr (s\<lparr>rp_terminal := Some (ty, p)\<rparr>)
     else Inr s)"

definition nothing_replayed :: replayed where
  "nothing_replayed = \<lparr>rp_started = None, rp_stream = [], rp_terminal = None\<rparr>"

fun replay_events :: "event_row list \<Rightarrow> replayed \<Rightarrow> exn + replayed" where
  "replay_events [] s = Inr s"
| "replay_events (e # es) s = bindr (replay_row e s) (replay_events es)"

text \<open>Only the assistant turns of a replayed run are looked into.\<close>

definition replayed_event :: "json \<times> json \<Rightarrow> exn + cli_event" where
  "replayed_event = (\<lambda>(t, raw). case raw of JObj m \<Rightarrow> Inr \<lparr>ce_type = t, ce_raw = m\<rparr>
     | _ \<Rightarrow> if t = JStr ''assistant'' then Inl (no_attribute raw ''get'') else Inr \<lparr>ce_type = t, ce_raw = []\<rparr>)"

text \<open>The fields of a handle are checked by its model.\<close>

definition as_text :: "json \<Rightarrow> exn + string" where
  "as_text j = (case j of JStr s \<Rightarrow> Inr s | _ \<Rightarrow> Inl (ValidationError ''AgentHandle''))"

definition as_optional_text :: "json \<Rightarrow> exn + string option" where
  "as_optional_text j = (case j of JNull \<Rightarrow> Inr None | _ \<Rightarrow> bindr (as_text j) (\<lambda>s. Inr (Some s)))"

definition as_object :: "json \<Rightarrow> exn + json_obj" where
  "as_object j = (case j of JObj m \<Rightarrow> Inr m | _ \<Rightarrow> Inl (ValidationError ''AgentHandle''))"

definition rebuild_handle :: "claude_code \<Rightarrow> json_obj \<Rightarrow> (json \<times> json) list \<Rightarrow> json_obj \<Rightarrow> exn + agent_handle" where
  "rebuild_handle C started stream terminal = bindr (key terminal ''returncode'') (\<lambda>code.
     bindr (key terminal ''handle_id'') (\<lambda>hid. bindr (key started ''adapter'') (\<lambda>adapter. bindr (key started ''persona_id'') (\<lambda>pid.
     bindr (key terminal ''status'') (\<lambda>status. bindr (mapr replayed_event stream) (\<lambda>es.
     bindr (extract_outputs C \<lparr>rr_returncode = code, rr_events = es\<rparr>) (\<lambda>outputs.
     bindr (key terminal ''metadata'') (\<lambda>meta.
     bindr (as_text hid) (\<lambda>hid. bindr (as_text adapter) (\<lambda>adapter. bindr (as_text pid) (\<lambda>pid.
     bindr (as_optional_text (field started ''stage_id'' JNull)) (\<lambda>sid. bindr (as_text status) (\<lambda>status. bindr (as_object meta) (\<lambda>meta.
     Inr \<lparr>ah_handle_id = hid, ah_provider = adapter, ah_persona_id = pid, ah_stage_id = sid, ah_status = status,
       ah_outputs = outputs, ah_metadata = meta\<rparr>))))))))))))))"

definition reconstruct_handle :: "env \<Rightarrow> claude_code \<Rightarrow> string \<Rightarrow> event_row list \<Rightarrow> exn + agent_handle" where
  "reconstruct_handle E C run_id rows = bindr (replay_events rows nothing_replayed) (\<lambda>s.
     case rp_started s of None \<Rightarrow> Inl (ReplayError (''run '' @ py_repr run_id @ '' has no start event''))
     | Some started \<Rightarrow> (case rp_terminal s of None \<Rightarrow> Inl (ReplayError (''run '' @ py_repr run_id @ '' is incomplete (no terminal event)''))
     | Some (ty, terminal) \<Rightarrow> if ty = ''AdapterSpawnFailed'' then Inl (ReplayError (''run '' @ py_repr run_id @ '' failed (returncode '' @
           py_str E (field terminal ''returncode'' JNull) @ ''): '' @ py_str E (field terminal ''error'' JNull)))
         else rebuild_handle C started (rp_stream s) terminal))"

definition replay_session :: "env \<Rightarrow> claude_code \<Rightarrow> string \<Rightarrow> world \<Rightarrow> exn + agent_handle" where
  "replay_session E C run_id w = (if \<not> cc_recording C then Inl (ReplayError ''no event store configured for replay'')
     else let rows = read_stream (w_db w) run_id in
       if rows = [] then Inl (ReplayError (''no recorded run for run_id '' @ py_repr run_id))
       else (case reconstruct_handle E C run_id rows of
           Inl e \<Rightarrow> Inl (case e of KeyError m \<Rightarrow> ReplayError (''run '' @ py_repr run_id @ '' has a malformed or incompatible event record: '' @ m)
             | TypeError m \<Rightarrow> ReplayError (''run '' @ py_repr run_id @ '' has a malformed or incompatible event record: '' @ m) | _ \<Rightarrow> e)
         | Inr h \<Rightarrow> Inr h))"

section \<open>What a run leaves in the event store\<close>

lemma replay_events_append:
  "replay_events (xs @ ys) s = bindr (replay_events xs s) (replay_events ys)"
proof (induction xs arbitrary: s)
  case (Cons x xs)
  then show ?case by (cases "replay_row x s") auto
qed simp

text \<open>What the rows of a run add up to.\<close>

definition run_record :: "string \<Rightarrow> event_db \<Rightarrow> exn + replayed" where
  "run_record rid db = replay_events (read_stream db rid) nothing_replayed"

definition raw_event :: "cli_event \<Rightarrow> json \<times> json" where
  "raw_event e = (ce_type e, JObj (ce_raw e))"

definition stream_of :: "replayed \<Rightarrow> cli_event list \<Rightarrow> replayed" where
  "stream_of s es = s\<lparr>rp_stream := rp_stream s @ map raw_event es\<rparr>"

lemma stream_of_simps [simp]: "stream_of s [] = s" "stream_of (stream_of s es) fs = stream_of s (es @ fs)"
  "rp_started (stream_of s es) = rp_started s" "rp_terminal (stream_of s es) = rp_terminal s"
  "rp_stream (stream_of s es) = rp_stream s @ map raw_event es"
  by (simp_all add: stream_of_def)

lemma stream_event_raw [simp]: "mapr replayed_event (map raw_event es) = Inr es"
  by (induction es) (auto simp: replayed_event_def raw_event_def)

lemma recorded_append:
  assumes "wf_db db" and "run_record rid db = Inr s"
  shows "\<exists>row. er_event_type row = ty \<and> er_payload row = p \<and> run_record rid (append_row rid ty p db) = replay_row row s"
proof -
  obtain row where row: "read_stream (append_row rid ty p db) rid = read_stream db rid @ [row]"
    "er_event_type row = ty" "er_payload row = p" using assms(1) by (simp add: read_stream_append)
  have "run_record rid (append_row rid ty p db) = replay_row row s"
    using assms(2) row(1) by (cases "replay_row row s") (auto simp: run_record_def replay_events_append)
  with row show ?thesis by blast
qed

lemma recorded_appends:
  assumes "wf_db db" and "run_record rid db = Inr s"
  shows "run_record rid (append_row rid ''AdapterSpawnStarted'' p db) = Inr (s\<lparr>rp_started := Some p\<rparr>)"
    and "run_record rid (append_row rid ''AdapterStreamEvent'' [(''type'', ce_type e), (''raw'', JObj (ce_raw e))] db) = Inr (stream_of s [e])"
    and "run_record rid (append_row rid ''AdapterSpawnCompleted'' p db) = Inr (s\<lparr>rp_terminal := Some (''AdapterSpawnCompleted'', p)\<rparr>)"
    and "run_record rid (append_row rid ''AdapterSpawnFailed'' p db) = Inr (s\<lparr>rp_terminal := Some (''AdapterSpawnFailed'', p)\<rparr>)"
  using recorded_append [OF assms, of "''AdapterSpawnStarted''" p]
    recorded_append [OF assms, of "''AdapterStreamEvent''" "[(''type'', ce_type e), (''raw'', JObj (ce_raw e))]"]
    recorded_append [OF assms, of "''AdapterSpawnCompleted''" p] recorded_append [OF assms, of "''AdapterSpawnFailed''" p]
  by (auto simp: replay_row_def key_def json_item_def dict_get_def stream_of_def raw_event_def)

text \<open>With the writes accepted, an adapter that records appends one row.\<close>

lemma safe_append_run:
  assumes "writes_succeed E" and "cc_recording C"
  shows "safe_append E C rid ty p w = (Inr (), w\<lparr>w_writes := Suc (w_writes w), w_db := append_row rid ty p (w_db w)\<rparr>)"
  using assms by (simp add: safe_append_def whenp_run catchp_run bindp_run store_append_def thenp_run write_file_ok asks_run ret_run)

lemma stream_recorder_run:
  assumes "writes_succeed E" and "cc_recording C"
  shows "stream_recorder E C rid e w = (Inr (), w\<lparr>w_writes := Suc (w_writes w),
    w_db := append_row rid ''AdapterStreamEvent'' [(''type'', ce_type e), (''raw'', JObj (ce_raw e))] (w_db w)\<rparr>)"
  by (simp add: stream_recorder_def safe_append_run assms)

lemma parse_stream_lines_event:
  assumes "parse_stream_line E l = Inr (Some e)" and "f e w = (Inr (), w1)" and "parse_stream_lines E f ls w1 = (r, w2)"
  shows "parse_stream_lines E f (l # ls) w = (case r of Inl x \<Rightarrow> Inl x | Inr es \<Rightarrow> Inr (e # es), w2)"
  using assms by (cases r) (simp_all add: bindp_run lift_result_run thenp_run ret_run)

lemma stream_recorded:
  assumes "parse_stream_lines E (stream_recorder E C rid) ls w = (r, w')" and "writes_succeed E" and "cc_recording C"
    and "wf_db (w_db w)" and "run_record rid (w_db w) = Inr s"
  shows "wf_db (w_db w') \<and> (\<exists>es. run_record rid (w_db w') = Inr (stream_of s es) \<and> (\<forall>x. r = Inr x \<longrightarrow> x = es))"
  using assms(1,4,5)
proof (induction ls arbitrary: w r w' s)
  case Nil
  then show ?case by (auto simp: ret_run intro: exI [of _ "[]"])
next
  case (Cons l ls)
  consider (err) e where "parse_stream_line E l = Inl e" | (skip) "parse_stream_line E l = Inr None"
    | (event) e where "parse_stream_line E l = Inr (Some e)"
    by (cases "parse_stream_line E l"; metis option.exhaust)
  then show ?case
  proof cases
    case err
    with Cons.prems show ?thesis by (auto simp: bindp_run lift_result_run intro: exI [of _ "[]"])
  next
    case skip
    with Cons show ?thesis by (simp add: bindp_run lift_result_run)
  next
    case event
    obtain r1 w1 where rest: "parse_stream_lines E (stream_recorder E C rid) ls
        (w\<lparr>w_writes := Suc (w_writes w), w_db := append_row rid ''AdapterStreamEvent'' [(''type'', ce_type e), (''raw'', JObj (ce_raw e))] (w_db w)\<rparr>) = (r1, w1)"
      by fastforce
    from Cons.IH [OF rest, of "stream_of s [e]"] Cons.prems(2,3)
    obtain es where "wf_db (w_db w1)" "run_record rid (w_db w1) = Inr (stream_of s (e # es))" "\<forall>x. r1 = Inr x \<longrightarrow> x = es"
      by (auto simp: wf_append_row recorded_appends)
    then show ?thesis using Cons.prems(1)
        parse_stream_lines_event [OF event stream_recorder_run [OF assms(2,3)] rest]
      by (cases r1) (auto simp del: parse_stream_lines.simps)
  qed
qed

lemma claude_process_db: "claude_process E C cmd w = (r, w') \<Longrightarrow> w_db w' = w_db w"
  by (auto simp: claude_process_def subprocess_run_def catchp_run throw_run split: prod.splits sum.splits exn.splits)

lemma run_claude_recorded:
  assumes "run_claude E C (stream_recorder E C rid) prompt tools w = (r, w')" and "writes_succeed E" and "cc_recording C"
    and "wf_db (w_db w)" and "run_record rid (w_db w) = Inr s"
  shows "wf_db (w_db w') \<and> (\<exists>es. run_record rid (w_db w') = Inr (stream_of s es) \<and> (\<forall>x. r = Inr x \<longrightarrow> rr_events x = es))"
proof -
  obtain r1 w1 where p: "claude_process E C (claude_command C prompt tools) w = (r1, w1)" by fastforce
  note db = claude_process_db [OF p]
  show ?thesis
  proof (cases r1)
    case (Inl e)
    with assms p db show ?thesis by (auto simp: run_claude_def bindp_run intro: exI [of _ "[]"])
  next
    case (Inr out)
    obtain code o1 err where out: "out = (code, o1, err)" by (cases out)
    obtain r2 w2 where q: "parse_stream_lines E (stream_recorder E C rid) (splitlines o1) w1 = (r2, w2)" by fastforce
    from stream_recorded [OF q assms(2,3)] assms(4,5) db
    obtain es where "wf_db (w_db w2)" "run_record rid (w_db w2) = Inr (stream_of s es)" "\<forall>x. r2 = Inr x \<longrightarrow> x = es" by auto
    then show ?thesis using assms(1) p q Inr out
      by (cases r2) (auto simp: run_claude_def bindp_run Let_def ret_run throw_run split: if_splits)
  qed
qed

section \<open>What the hooks leave in the settings file\<close>

definition settings_content :: "world \<Rightarrow> string option" where
  "settings_content w = map_option fe_content (w_fs w settings_path)"

lemma install_hooks_db [frame_intros]: "unchanged w_db (install_hooks E C command)"
  unfolding install_hooks_def write_settings_def by (intro frame_intros) auto

lemma restore_settings_db: "unchanged w_db (restore_settings E C saved)"
  unfolding restore_settings_def write_settings_def remove_settings_def
  by (auto simp: unchanged_def prog_simps split: option.splits sum.splits exn.splits if_splits prod.splits)

text \<open>The body of \<open>with_hooks\<close> runs on the same event store, and its result is the result.\<close>

lemma with_hooks_run:
  assumes "with_hooks E C body w = (r, w')"
  obtains (failed) e where "w_db w' = w_db w" "r = Inl e"
  | (ran) w1 r1 w2 where "w_db w1 = w_db w" "body w1 = (r1, w2)" "w_db w' = w_db w2" "\<forall>x. r = Inr x \<longrightarrow> r1 = Inr x"
proof (cases "cc_hook_command C")
  case None
  with assms ran [of w r w'] show thesis by (simp add: with_hooks_def)
next
  case (Some c)
  obtain r0 w0 where i: "install_hooks E C c w = (r0, w0)" by fastforce
  note db0 = unchanged_result [OF install_hooks_db i]
  show thesis
  proof (cases r0)
    case (Inl e)
    with assms Some i db0 failed show thesis by (auto simp: with_hooks_def bindp_run)
  next
    case (Inr saved)
    obtain r1 w1 where b: "body w0 = (r1, w1)" by fastforce
    obtain r2 w2 where t: "restore_settings E C saved w1 = (r2, w2)" by fastforce
    have "w' = w2 \<and> (\<forall>x. r = Inr x \<longrightarrow> r1 = Inr x)"
      using assms Some i Inr b t by (cases r2) (auto simp: with_hooks_def bindp_run)
    with ran [OF db0 b] unchanged_result [OF restore_settings_db t] show thesis by simp
  qed
qed

section \<open>Replaying a spawn\<close>

definition run_of :: "env \<Rightarrow> world \<Rightarrow> string" where
  "run_of E w = claude_run_id (uuid_hex_at E (w_uuids w))"

lemma enforce_db: "unchanged w_db (enforce_spawn_allowed E C persona)"
proof -
  have "unchanged w_db (validate_action E prof actor action target cap)" for prof actor action target cap
    unfolding validate_action_def audit_def audit_log_def Let_def by (intro frame_intros) auto
  then show ?thesis unfolding enforce_spawn_allowed_def
    by (cases "cc_profile C") (auto intro!: frame_intros)
qed

text \<open>The guarded part of a spawn: it records what it streams, and a failure.\<close>

definition guarded_run :: "env \<Rightarrow> claude_code \<Rightarrow> agent_definition \<Rightarrow> string \<Rightarrow> string \<Rightarrow> string list \<Rightarrow> (world, run_result) prog" where
  "guarded_run E C persona rid prompt tools = catchp (thenp (enforce_spawn_allowed E C persona)
     (with_hooks E C (run_claude E C (stream_recorder E C rid) prompt tools))) (\<lambda>e. thenp (record_failed E C rid e) (throw e))"

lemma attempt_recorded:
  assumes "thenp (enforce_spawn_allowed E C persona) (with_hooks E C (run_claude E C (stream_recorder E C rid) prompt tools)) w = (r, w')"
    and "writes_succeed E" and "cc_recording C" and "wf_db (w_db w)" and "run_record rid (w_db w) = Inr s"
  shows "wf_db (w_db w') \<and> (\<exists>es. run_record rid (w_db w') = Inr (stream_of s es) \<and> (\<forall>x. r = Inr x \<longrightarrow> rr_events x = es))"
proof -
  obtain r1 w1 where v: "enforce_spawn_allowed E C persona w = (r1, w1)" by fastforce
  note db = unchanged_result [OF enforce_db v]
  show ?thesis
  proof (cases r1)
    case (Inl e)
    with assms v db show ?thesis by (auto simp: thenp_run intro: exI [of _ "[]"])
  next
    case (Inr u)
    with assms(1) v have h: "with_hooks E C (run_claude E C (stream_recorder E C rid) prompt tools) w1 = (r, w')" by (simp add: thenp_run)
    from h show ?thesis
    proof (cases rule: with_hooks_run)
      case (failed e)
      with assms db show ?thesis by (auto intro: exI [of _ "[]"])
    next
      case (ran w2 r2 w3)
      with run_claude_recorded [OF ran(2) assms(2,3)] assms(4,5) db show ?thesis by auto
    qed
  qed
qed

lemma guarded_recorded:
  assumes "guarded_run E C persona rid prompt tools w = (r, w')"
    and "writes_succeed E" and "cc_recording C" and "wf_db (w_db w)" and "run_record rid (w_db w) = Inr s"
  shows "wf_db (w_db w') \<and> (case r of
      Inr x \<Rightarrow> run_record rid (w_db w') = Inr (stream_of s (rr_events x))
    | Inl _ \<Rightarrow> \<exists>es p. run_record rid (w_db w') = Inr ((stream_of s es)\<lparr>rp_terminal := Some (''AdapterSpawnFailed'', p)\<rparr>))"
proof -
  obtain r1 w1 where a: "thenp (enforce_spawn_allowed E C persona) (with_hooks E C (run_claude E C (stream_recorder E C rid) prompt tools)) w = (r1, w1)"
    by fastforce
  from attempt_recorded [OF a assms(2-5)] obtain es where es: "wf_db (w_db w1)" "run_record rid (w_db w1) = Inr (stream_of s es)"
    "\<forall>x. r1 = Inr x \<longrightarrow> rr_events x = es" by blast
  show ?thesis
  proof (cases r1)
    case (Inl e)
    with assms(1) a have "thenp (record_failed E C rid e) (throw e) w1 = (r, w')" by (simp add: guarded_run_def catchp_run)
    with es assms(2,3) show ?thesis
      by (auto simp: record_failed_def thenp_run safe_append_run throw_run wf_append_row recorded_appends) blast
  next
    case (Inr x)
    with assms(1) a es show ?thesis by (auto simp: guarded_run_def catchp_run)
  qed
qed

lemma build_handle_run:
  assumes "build_handle E C persona granted x rid w = (r, w')"
  shows "w_db w' = w_db w \<and> (\<forall>h. r = Inr h \<longrightarrow> extract_outputs C x = Inr (ah_outputs h) \<and> ah_provider h = ''claude-code'' \<and>
    ah_persona_id h = ad_id persona \<and> ah_stage_id h = stage_of persona \<and> ah_status h = ''completed'' \<and>
    dict_get (ah_metadata h) ''run_id'' = Some (JStr rid) \<and> (\<exists>t. text_output x = Inr t))"
proof (cases "extract_outputs C x")
  case (Inl e)
  with assms show ?thesis by (auto simp: build_handle_def bindp_run lift_result_run)
next
  case (Inr outs)
  then show ?thesis using assms
    by (cases "text_output x") (auto simp: build_handle_def bindp_run lift_result_run claude_metadata_def uuid4_def ret_run dict_get_def)
qed

lemma replay_session_recorded:
  assumes "cc_recording C" and "run_record rid (w_db w) = Inr s" and "rp_started s \<noteq> None"
  shows "rp_terminal s = None \<Longrightarrow> \<exists>m. replay_session E C rid w = Inl (ReplayError m)"
    and "rp_terminal s = Some (''AdapterSpawnFailed'', p) \<Longrightarrow> \<exists>m. replay_session E C rid w = Inl (ReplayError m)"
    and "rp_terminal s = Some (''AdapterSpawnCompleted'', p) \<Longrightarrow>
      rebuild_handle C (the (rp_started s)) (rp_stream s) p = Inr h \<Longrightarrow> replay_session E C rid w = Inr h"
proof -
  have "read_stream (w_db w) rid \<noteq> []" using assms(2,3) by (auto simp: run_record_def nothing_replayed_def)
  with assms show "rp_terminal s = None \<Longrightarrow> \<exists>m. replay_session E C rid w = Inl (ReplayError m)"
    "rp_terminal s = Some (''AdapterSpawnFailed'', p) \<Longrightarrow> \<exists>m. replay_session E C rid w = Inl (ReplayError m)"
    "rp_terminal s = Some (''AdapterSpawnCompleted'', p) \<Longrightarrow>
      rebuild_handle C (the (rp_started s)) (rp_stream s) p = Inr h \<Longrightarrow> replay_session E C rid w = Inr h"
    by (auto simp: replay_session_def Let_def reconstruct_handle_def run_record_def)
qed

text \<open>The steps of a spawn. Recording never raises.\<close>

lemma safe_append_returns: "safe_append E C rid ty p w = (r, w') \<Longrightarrow> r = Inr ()"
  by (auto simp: safe_append_def whenp_run catchp_run ret_run split: if_splits prod.splits sum.splits)

lemma claude_spawn_steps:
  assumes "claude_spawn E C persona ctx requested w = (r, w')"
  obtains (steps) granted prompt tools w1 w2 r2 where
    "record_started E C (run_of E w) persona ctx prompt granted tools (w\<lparr>w_uuids := Suc (w_uuids w)\<rparr>) = (Inr (), w1)"
    "guarded_run E C persona (run_of E w) prompt tools w1 = (r2, w2)"
    "case r2 of Inl e \<Rightarrow> r = Inl e \<and> w' = w2
      | Inr x \<Rightarrow> bindp (build_handle E C persona granted x (run_of E w)) (\<lambda>h. thenp (record_completed E C (run_of E w) h x) (ret h)) w2 = (r, w')"
proof -
  let ?granted = "intersect_tools default_abstract_tools requested"
  let ?prompt = "claude_prompt persona ctx"
  obtain q w1 where s: "record_started E C (run_of E w) persona ctx ?prompt ?granted (to_claude_tools ?granted) (w\<lparr>w_uuids := Suc (w_uuids w)\<rparr>) = (q, w1)"
    by fastforce
  then have q: "q = Inr ()" by (auto simp: record_started_def dest: safe_append_returns)
  obtain r2 w2 where g: "guarded_run E C persona (run_of E w) ?prompt (to_claude_tools ?granted) w1 = (r2, w2)" by fastforce
  show thesis
  proof (rule steps [OF s [unfolded q] g])
    show "case r2 of Inl e \<Rightarrow> r = Inl e \<and> w' = w2
      | Inr x \<Rightarrow> bindp (build_handle E C persona ?granted x (run_of E w)) (\<lambda>h. thenp (record_completed E C (run_of E w) h x) (ret h)) w2 = (r, w')"
      using assms(1) s q g
      by (cases r2) (simp_all add: claude_spawn_def Let_def bindp_run thenp_run uuid4_hex_def run_of_def [symmetric] guarded_run_def [symmetric])
  qed
qed

section \<open>Properties\<close>

text \<open>C29: A recorded run replays to what it was. When the database takes every write and holds no rows of the
  fresh run id, the handle a spawn returns names its run in \<open>metadata["run_id"]\<close>, and replaying that run gives the
  very same handle, outputs and metadata included, without the subprocess; the run of a spawn that raised, for
  whatever reason, never replays to a handle.\<close>

theorem replay_gives_the_spawned_handle:
  assumes "claude_spawn E C persona ctx requested w = (r, w')"
    and "writes_succeed E" and "cc_recording C" and "wf_db (w_db w)" and "read_stream (w_db w) (run_of E w) = []"
  shows "case r of
      Inr h \<Rightarrow> dict_get (ah_metadata h) ''run_id'' = Some (JStr (run_of E w)) \<and> replay_session E C (run_of E w) w' = Inr h
    | Inl _ \<Rightarrow> \<exists>m. replay_session E C (run_of E w) w' = Inl (ReplayError m)"
  using assms(1)
proof (cases rule: claude_spawn_steps)
  case (steps granted prompt tools w1 w2 r2)
  have "run_record (run_of E w) (w_db w) = Inr nothing_replayed" using assms(5) by (simp add: run_record_def)
  from recorded_appends(1) [OF assms(4) this] steps(1) [unfolded record_started_def safe_append_run [OF assms(2,3)]] assms(4)
  obtain st where st: "wf_db (w_db w1)" "run_record (run_of E w) (w_db w1) = Inr (nothing_replayed\<lparr>rp_started := Some st\<rparr>)"
    and start: "dict_get st ''adapter'' = Some (JStr ''claude-code'')" "dict_get st ''persona_id'' = Some (JStr (ad_id persona))"
      "dict_get st ''stage_id'' = Some (opt_str (stage_of persona))"
    by (auto simp: wf_append_row dict_get_def)
  note rec = guarded_recorded [OF steps(2) assms(2,3) st]
  show ?thesis
  proof (cases r2)
    case (Inl e)
    with rec steps(3) replay_session_recorded(2) [OF assms(3)] show ?thesis by fastforce
  next
    case (Inr x)
    obtain r3 w3 where b: "build_handle E C persona granted x (run_of E w) w2 = (r3, w3)" by fastforce
    note built = build_handle_run [OF b]
    show ?thesis
    proof (cases r3)
      case (Inl e)
      with b steps(3) Inr have "r = Inl e" "w' = w3" by (auto simp: bindp_run)
      with rec Inr built replay_session_recorded(1) [OF assms(3)] show ?thesis by (simp add: nothing_replayed_def)
    next
      case h: (Inr h)
      with built obtain t where t: "text_output x = Inr t" by blast
      let ?p = "[(''adapter'', JStr ''claude-code''), (''handle_id'', JStr (ah_handle_id h)), (''status'', JStr (ah_status h)),
        (''returncode'', rr_returncode x), (''tool_use_count'', JInt (int (length (tool_uses x)))), (''text_length'', JInt (int (length t))),
        (''metadata'', JObj (ah_metadata h))]"
      have res: "r = Inr h" "w_db w' = append_row (run_of E w) ''AdapterSpawnCompleted'' ?p (w_db w3)"
        using b steps(3) Inr h t
        by (auto simp: bindp_run thenp_run record_completed_def lift_result_run safe_append_run [OF assms(2,3)] ret_run)
      with rec Inr built have "run_record (run_of E w) (w_db w') =
          Inr ((stream_of (nothing_replayed\<lparr>rp_started := Some st\<rparr>) (rr_events x))\<lparr>rp_terminal := Some (''AdapterSpawnCompleted'', ?p)\<rparr>)"
        by (simp add: recorded_appends)
      moreover have "rebuild_handle C st (map raw_event (rr_events x)) ?p = Inr h"
        using built h start
        by (cases h; cases x; cases "stage_of persona")
          (auto simp: rebuild_handle_def key_def json_item_def dict_get_def field_def as_text_def as_optional_text_def as_object_def opt_str_def)
      ultimately show ?thesis using res built h replay_session_recorded(3) [OF assms(3), of "run_of E w" w' _ ?p h]
        by (simp add: nothing_replayed_def)
    qed
  qed
qed

text \<open>A project to run the adapter in: the command prints one turn that writes a file and one result line.\<close>

definition demo_turn :: cli_event where
  "demo_turn = \<lparr>ce_type = JStr ''assistant'', ce_raw = [(''type'', JStr ''assistant''), (''message'', JObj [(''content'', JArr [
     JObj [(''type'', JStr ''tool_use''), (''name'', JStr ''Write''), (''input'', JObj [(''file_path'', JStr ''a.md'')])],
     JObj [(''type'', JStr ''text''), (''text'', JStr ''written'')]])])]\<rparr>"

definition demo_result :: cli_event where
  "demo_result = \<lparr>ce_type = JStr ''result'', ce_raw = [(''type'', JStr ''result''), (''is_error'', JBool False)]\<rparr>"

definition demo_claude_env :: env where
  "demo_claude_env = demo_env\<lparr>run_process := (\<lambda>_ _ _ fs. (Inr (0, ''turn'' @ nl @ ''end'', []), fs)),
     parse_json := (\<lambda>s. Inr (JObj (ce_raw (if s = ''turn'' then demo_turn else demo_result))))\<rparr>"

definition demo_claude :: claude_code where
  "demo_claude = \<lparr>cc_bin = ''claude'', cc_timeout = 120, cc_model = None, cc_permission_mode = None, cc_recording = True,
     cc_hook_command = None, cc_profile = None, cc_resolve = (\<lambda>p. Inr (Some p)), cc_dir_empty = (\<lambda>fs. fs settings_path = None),
     cc_dumps = (\<lambda>_. ''merged''), cc_mtime = 0\<rparr>"

lemma demo_claude_writes: "writes_succeed demo_claude_env"
  by (simp add: writes_succeed_def demo_claude_env_def demo_env_def)

lemma demo_claude_streams:
  "\<exists>w1. guarded_run demo_claude_env demo_claude persona rid prompt tools w = (Inr \<lparr>rr_returncode = JInt 0, rr_events = [demo_turn, demo_result]\<rparr>, w1)"
proof -
  let ?E = demo_claude_env and ?C = demo_claude
  have parts: "splitlines (''turn'' @ nl @ ''end'') = [''turn'', ''end'']" "succeeded \<lparr>rr_returncode = JInt 0, rr_events = [demo_turn, demo_result]\<rparr>"
    "parse_stream_line ?E ''turn'' = Inr (Some demo_turn)" "parse_stream_line ?E ''end'' = Inr (Some demo_result)"
    by code_simp+
  have rec: "cc_recording ?C" by (simp add: demo_claude_def)
  let ?w = "w\<lparr>w_clock := Suc (w_clock w), w_fs := w_fs w\<rparr>"
  obtain w2 where "parse_stream_lines ?E (stream_recorder ?E ?C rid) [''turn'', ''end''] ?w = (Inr [demo_turn, demo_result], w2)"
    using parts(3,4) by (simp add: bindp_run lift_result_run thenp_run stream_recorder_run [OF demo_claude_writes rec] ret_run)
  moreover have "claude_process ?E ?C (claude_command ?C prompt tools) w = (Inr (0, ''turn'' @ nl @ ''end'', []), ?w)"
    by (simp add: claude_process_def catchp_run subprocess_run_def demo_claude_env_def)
  ultimately have "run_claude ?E ?C (stream_recorder ?E ?C rid) prompt tools w = (Inr \<lparr>rr_returncode = JInt 0, rr_events = [demo_turn, demo_result]\<rparr>, w2)"
    using parts(1,2) by (simp add: run_claude_def bindp_run ret_run del: parse_stream_lines.simps append.simps)
  then show ?thesis
    by (auto simp: guarded_run_def catchp_run thenp_run enforce_spawn_allowed_def with_hooks_def demo_claude_def ret_run)
qed

definition demo_claude_run :: "(exn + agent_handle) \<times> world" where
  "demo_claude_run = claude_spawn demo_claude_env demo_claude demo_persona ''c'' [''write_file''] empty_world"

lemma replay_gives_the_spawned_handle_witness:
  "\<exists>h. fst demo_claude_run = Inr h \<and> map oa_path (ah_outputs h) = [''a.md''] \<and>
     replay_session demo_claude_env demo_claude (run_of demo_claude_env empty_world) (snd demo_claude_run) = Inr h"
proof -
  have run: "claude_spawn demo_claude_env demo_claude demo_persona ''c'' [''write_file''] empty_world = (fst demo_claude_run, snd demo_claude_run)"
    by (simp add: demo_claude_run_def)
  have rec: "cc_recording demo_claude" by (simp add: demo_claude_def)
  have replay: "case fst demo_claude_run of
      Inr h \<Rightarrow> dict_get (ah_metadata h) ''run_id'' = Some (JStr (run_of demo_claude_env empty_world)) \<and>
        replay_session demo_claude_env demo_claude (run_of demo_claude_env empty_world) (snd demo_claude_run) = Inr h
    | Inl _ \<Rightarrow> \<exists>m. replay_session demo_claude_env demo_claude (run_of demo_claude_env empty_world) (snd demo_claude_run) = Inl (ReplayError m)"
    by (rule replay_gives_the_spawned_handle [OF run demo_claude_writes rec])
      (simp_all add: empty_world_def empty_db_def read_stream_def wf_empty_db [unfolded empty_db_def])
  have outs: "extract_outputs demo_claude \<lparr>rr_returncode = JInt 0, rr_events = [demo_turn, demo_result]\<rparr> =
      Inr [\<lparr>oa_path = ''a.md'', oa_kind = ''file'', oa_description = Some ''Written via Write tool''\<rparr>]"
    "text_output \<lparr>rr_returncode = JInt 0, rr_events = [demo_turn, demo_result]\<rparr> = Inr ''written''" by code_simp+
  obtain h where "fst demo_claude_run = Inr h" "map oa_path (ah_outputs h) = [''a.md'']"
    using run
  proof (cases rule: claude_spawn_steps)
    case (steps granted prompt tools w1 w2 r2)
    assume found: "\<And>h. fst demo_claude_run = Inr h \<Longrightarrow> map oa_path (ah_outputs h) = [''a.md''] \<Longrightarrow> thesis"
    let ?x = "\<lparr>rr_returncode = JInt 0, rr_events = [demo_turn, demo_result]\<rparr>"
    from steps have r2: "r2 = Inr ?x"
      using demo_claude_streams [of demo_persona "run_of demo_claude_env empty_world" prompt tools w1] by auto
    obtain h w3 where b: "build_handle demo_claude_env demo_claude demo_persona granted ?x (run_of demo_claude_env empty_world) w2 = (Inr h, w3)"
      using outs by (simp add: build_handle_def claude_metadata_def bindp_run lift_result_run uuid4_def ret_run)
    with steps(3) r2 outs(2) have "fst demo_claude_run = Inr h"
      by (simp add: bindp_run thenp_run record_completed_def lift_result_run safe_append_run [OF demo_claude_writes rec] ret_run) (metis fst_conv)
    moreover have "map oa_path (ah_outputs h) = [''a.md'']"
    proof -
      have "map oa_path (projr (extract_outputs demo_claude ?x)) = [''a.md'']" unfolding outs(1) by simp
      moreover have "extract_outputs demo_claude ?x = Inr (ah_outputs h)" using build_handle_run [OF b] by blast
      ultimately show ?thesis by simp
    qed
    ultimately show thesis by (rule found)
  qed
  with replay show ?thesis by simp
qed

text \<open>A text without carriage returns is read as it is; a line that ends in two characters is not.\<close>

lemma universal_newlines_id: "CHR 0x0D \<notin> set t \<Longrightarrow> universal_newlines t = t"
  by (induction t rule: universal_newlines.induct) auto

lemma universal_newlines_crlf: "universal_newlines [CHR 0x0D, CHR 0x0A] = [CHR 0x0A]"
  by simp

lemma install_settings:
  assumes "install_hooks E C command w = (r, w')" and "writes_succeed E"
  shows "case r of Inl _ \<Rightarrow> settings_content w' = settings_content w
    | Inr saved \<Rightarrow> saved = (map_option universal_newlines (settings_content w), \<not> w_claude_dir w) \<and> w_claude_dir w'"
  using assms
  by (auto simp: install_hooks_def write_settings_def bindp_run thenp_run whenp_run write_file_ok asks_run lift_result_run ret_run
      settings_content_def option.map_comp comp_def split: sum.splits prod.splits if_splits)

lemma restore_settings_ok:
  assumes "writes_succeed E"
  shows "\<exists>w'. restore_settings E C saved w = (Inr (), w') \<and> settings_content w' = fst saved \<and>
    (w_claude_dir w' = (w_claude_dir w \<and> \<not> (fst saved = None \<and> snd saved \<and> cc_dir_empty C (w_fs w'))))"
  using assms
  by (cases saved; cases "fst saved")
    (auto simp: restore_settings_def write_settings_def remove_settings_def catchp_run bindp_run thenp_run whenp_run write_file_ok asks_run ret_run
      settings_content_def)

lemma safe_append_keeps: "unchanged (\<lambda>w. (settings_content w, w_fs w, w_claude_dir w, w_audit w)) (safe_append E C rid ty p)"
  by (auto simp: unchanged_def safe_append_def store_append_def settings_content_def prog_simps)

text \<open>The command may do anything to the files; it does not touch the rest.\<close>

lemma claude_process_keeps: "unchanged (\<lambda>w. (w_claude_dir w, w_audit w)) (claude_process E C cmd)"
  by (auto simp: unchanged_def claude_process_def subprocess_run_def catchp_run throw_run split: prod.splits sum.splits exn.splits)

lemma parse_stream_lines_keeps:
  assumes "\<And>e. unchanged f (g e)"
  shows "unchanged f (parse_stream_lines E g ls)"
proof (induction ls)
  case (Cons l ls)
  then show ?case using assms
    by (auto simp: unchanged_def bindp_run lift_result_run thenp_run ret_run split: sum.splits prod.splits option.splits) (metis snd_conv)+
qed (simp add: unchanged_def ret_run)

lemma run_claude_keeps: "unchanged (\<lambda>w. (w_claude_dir w, w_audit w)) (run_claude E C (stream_recorder E C rid) prompt tools)"
proof -
  have "unchanged (\<lambda>w. (w_claude_dir w, w_audit w)) (stream_recorder E C rid e)" for e
    using safe_append_keeps [of E C rid] by (simp add: stream_recorder_def unchanged_def)
  then show ?thesis unfolding run_claude_def Let_def
    by (intro frame_intros claude_process_keeps) (auto intro!: frame_intros parse_stream_lines_keeps split: prod.split)
qed

lemma with_hooks_settings:
  assumes "with_hooks E C body w = (r, w')" and "writes_succeed E" and "cc_hook_command C = Some c"
    and "unchanged w_claude_dir body"
  shows "(settings_content w' = settings_content w \<and> (\<exists>e. r = Inl e)) \<or>
    (settings_content w' = map_option universal_newlines (settings_content w) \<and>
      (\<not> w_claude_dir w \<and> settings_content w = None \<longrightarrow> w_claude_dir w' = (\<not> cc_dir_empty C (w_fs w'))))"
proof -
  obtain r0 w0 where i: "install_hooks E C c w = (r0, w0)" by fastforce
  note ins = install_settings [OF i assms(2)]
  show ?thesis
  proof (cases r0)
    case (Inl e)
    with assms(1,3) i ins show ?thesis by (auto simp: with_hooks_def bindp_run)
  next
    case (Inr saved)
    obtain r1 w1 where b: "body w0 = (r1, w1)" by fastforce
    obtain w2 where t: "restore_settings E C saved w1 = (Inr (), w2)" "settings_content w2 = fst saved"
      "w_claude_dir w2 = (w_claude_dir w1 \<and> \<not> (fst saved = None \<and> snd saved \<and> cc_dir_empty C (w_fs w2)))"
      using restore_settings_ok [OF assms(2)] by blast
    have "w' = w2" using assms(1,3) i Inr b t(1) by (simp add: with_hooks_def bindp_run)
    with ins Inr t(2,3) unchanged_result [OF assms(4) b] show ?thesis by auto
  qed
qed

text \<open>Everything but the guarded part of a spawn leaves files and audit log alone.\<close>

definition claude_view :: "world \<Rightarrow> string option \<times> file_system \<times> bool \<times> audit_entry list option" where
  "claude_view w = (settings_content w, w_fs w, w_claude_dir w, w_audit w)"

lemma safe_append_view: "unchanged claude_view (safe_append E C rid ty p)"
  using safe_append_keeps by (simp add: unchanged_def claude_view_def)

lemma claude_view_blind [simp]: "claude_view (w\<lparr>w_uuids := n\<rparr>) = claude_view w" "claude_view (w\<lparr>w_clock := n\<rparr>) = claude_view w"
  by (simp_all add: claude_view_def settings_content_def)

lemma guarded_run_view:
  assumes "guarded_run E C persona rid prompt tools w = (r, w')"
  shows "\<exists>w2. thenp (enforce_spawn_allowed E C persona) (with_hooks E C (run_claude E C (stream_recorder E C rid) prompt tools)) w = (r, w2) \<and>
    claude_view w' = claude_view w2"
proof -
  obtain r1 w1 where a: "thenp (enforce_spawn_allowed E C persona) (with_hooks E C (run_claude E C (stream_recorder E C rid) prompt tools)) w = (r1, w1)"
    by fastforce
  show ?thesis
  proof (cases r1)
    case (Inl e)
    obtain q w2 where f: "record_failed E C rid e w1 = (q, w2)" by fastforce
    then have "q = Inr ()" "claude_view w2 = claude_view w1"
      by (auto simp: record_failed_def dest: safe_append_returns unchanged_result [OF safe_append_view])
    with assms a Inl f show ?thesis by (auto simp: guarded_run_def catchp_run thenp_run [of "record_failed _ _ _ _"] throw_run)
  qed (use assms a in \<open>auto simp: guarded_run_def catchp_run\<close>)
qed

lemma claude_spawn_view:
  assumes "claude_spawn E C persona ctx requested w = (r, w')"
  obtains (view) rid prompt tools w1 r2 w2 where "thenp (enforce_spawn_allowed E C persona)
      (with_hooks E C (run_claude E C (stream_recorder E C rid) prompt tools)) w1 = (r2, w2)"
    "claude_view w1 = claude_view w" "claude_view w' = claude_view w2" "\<forall>e. r2 = Inl e \<longrightarrow> r = Inl e"
  using assms
proof (cases rule: claude_spawn_steps)
  case (steps granted prompt tools w1 w2 r2)
  have start: "claude_view w1 = claude_view w"
    using steps(1) unchanged_result [OF safe_append_view] by (fastforce simp: record_started_def)
  have rest: "unchanged claude_view (bindp (build_handle E C persona granted x rid) (\<lambda>h. thenp (record_completed E C rid h x) (ret h)))" for x rid
    unfolding build_handle_def record_completed_def
    by (intro frame_intros safe_append_view) auto
  from guarded_run_view [OF steps(2)] obtain w3 where g: "thenp (enforce_spawn_allowed E C persona)
      (with_hooks E C (run_claude E C (stream_recorder E C (run_of E w)) prompt tools)) w1 = (r2, w3)" "claude_view w2 = claude_view w3" by blast
  from steps(3) have "claude_view w' = claude_view w2 \<and> (\<forall>e. r2 = Inl e \<longrightarrow> r = Inl e)"
    using unchanged_result [OF rest] by (cases r2) auto
  with view [OF g(1) start] g(2) show thesis by simp
qed

lemma with_hooks_keeps:
  assumes "\<And>w n. f (w\<lparr>w_writes := n\<rparr>) = f w" and "\<And>w n. f (w\<lparr>w_claude_dir := n\<rparr>) = f w" and "\<And>w n. f (w\<lparr>w_fs := n\<rparr>) = f w"
    and "unchanged f body"
  shows "unchanged f (with_hooks E C body)"
proof -
  have "unchanged f (install_hooks E C c)" for c
    unfolding install_hooks_def write_settings_def using assms(1-3) by (intro frame_intros) auto
  moreover have "unchanged f (restore_settings E C saved)" for saved
    using assms(1-3) unfolding restore_settings_def write_settings_def remove_settings_def
    by (auto simp: unchanged_def prog_simps split: option.splits sum.splits exn.splits if_splits prod.splits)
  ultimately show ?thesis using assms(4)
    by (auto simp: with_hooks_def unchanged_def bindp_run split: option.split sum.split prod.split) (metis snd_conv)+
qed

text \<open>The gate: what it lets through is not denied, and audited when the profile audits.\<close>

lemma enforce_spawn_run:
  assumes "enforce_spawn_allowed E C persona w = (r, w')"
  shows "w_fs w' = w_fs w \<and> w_claude_dir w' = w_claude_dir w \<and> settings_content w' = settings_content w \<and>
    (\<forall>prof. cc_profile C = Some prof \<longrightarrow> (let p = effective_policy prof (Some ''shell'') in
      (p = PolDeny \<longrightarrow> (\<exists>e. r = Inl e \<and> (writes_succeed E \<longrightarrow> exn_returncode e = - 1 \<and> (\<exists>m. e = SpawnError (- 1) m)))) \<and>
      (\<forall>u. r = Inr u \<longrightarrow> p \<noteq> PolDeny \<and> (sp_audit_enabled prof \<longrightarrow> (\<exists>e. audit_of ''execute_command'' (JStr (cc_bin C)) (decide p) e \<and>
         audit_entries w' = audit_entries w @ [e])))))"
proof (cases "cc_profile C")
  case None
  with assms show ?thesis by (simp add: enforce_spawn_allowed_def ret_run)
next
  case (Some prof)
  let ?v = "validate_action E prof [(''type'', JStr ''kernel_adapter''), (''adapter_id'', JStr ''claude-code'')] ''execute_command'' (JStr (cc_bin C)) (Some ''shell'')"
  obtain r1 w1 where v: "?v w = (r1, w1)" by fastforce
  have keep: "unchanged w_claude_dir ?v" unfolding validate_action_def audit_def audit_log_def Let_def by (intro frame_intros) auto
  have ok: "writes_succeed E \<Longrightarrow> \<exists>d. r1 = Inr d"
    using v by (auto simp: validate_action_def Let_def audit_def audit_log_def thenp_run whenp_run bindp_run ret_run env_reads write_file_ok split: if_splits)
  have deny: "decide p = DecDenied \<longleftrightarrow> p = PolDeny" for p by (cases p) auto
  from assms Some v have "w' = w1" "r = (case r1 of Inl e \<Rightarrow> Inl e | Inr d \<Rightarrow> if d = DecDenied then Inl (spawn_error (- 1) (''security profile denied executing `'' @ cc_bin C @
           ''` (capability=shell) for persona '' @ ad_id persona)) else Inr ())"
    by (auto simp: enforce_spawn_allowed_def bindp_run throw_run ret_run split: sum.splits if_splits)
  with Some validate_action_run [OF v] unchanged_result [OF keep v] ok deny show ?thesis
    by (cases r1) (auto simp: Let_def settings_content_def spawn_error_def exn_returncode_def)
qed

lemma run_claude_dir: "unchanged w_claude_dir (run_claude E C (stream_recorder E C rid) prompt tools)"
  using run_claude_keeps by (simp add: unchanged_def)

text \<open>C30: The settings file survives a spawn with hooks. When the writes are taken, the content of
  \<open>.claude/settings.json\<close> after the spawn is the content before, whatever the command did to the file and however
  the run ended, except that line ends are read as newlines; a file that was absent is absent again,
  and so is, after a run that returned, a \<open>.claude\<close> directory the adapter made when nothing else is in it.\<close>

theorem settings_survive_the_hooks:
  assumes "claude_spawn E C persona ctx requested w = (r, w')" and "writes_succeed E" and "cc_hook_command C = Some command"
  shows "settings_content w' \<in> {settings_content w, map_option universal_newlines (settings_content w)} \<and>
    ((\<forall>t. settings_content w = Some t \<longrightarrow> CHR 0x0D \<notin> set t) \<longrightarrow> settings_content w' = settings_content w) \<and>
    ((\<exists>h. r = Inr h) \<and> \<not> w_claude_dir w \<and> settings_content w = None \<longrightarrow> w_claude_dir w' = (\<not> cc_dir_empty C (w_fs w')))"
proof -
  have id: "(\<forall>t. c = Some t \<longrightarrow> CHR 0x0D \<notin> set t) \<Longrightarrow> map_option universal_newlines c = c" for c
    by (cases c) (auto simp: universal_newlines_id)
  have "settings_content w' \<in> {settings_content w, map_option universal_newlines (settings_content w)} \<and>
    ((\<exists>h. r = Inr h) \<and> \<not> w_claude_dir w \<and> settings_content w = None \<longrightarrow> w_claude_dir w' = (\<not> cc_dir_empty C (w_fs w')))"
    using assms(1)
  proof (cases rule: claude_spawn_view)
    case (view rid prompt tools w1 r2 w2)
    obtain r3 w3 where v: "enforce_spawn_allowed E C persona w1 = (r3, w3)" by fastforce
    note gate = enforce_spawn_run [OF v]
    show ?thesis
    proof (cases r3)
      case (Inl e)
      with view v gate show ?thesis by (auto simp: thenp_run claude_view_def)
    next
      case (Inr u)
      with view(1) v have "with_hooks E C (run_claude E C (stream_recorder E C rid) prompt tools) w3 = (r2, w2)" by (simp add: thenp_run)
      from with_hooks_settings [OF this assms(2,3) run_claude_dir] view(2-4) gate show ?thesis
        by (auto simp: claude_view_def)
    qed
  qed
  with id show ?thesis by auto
qed

text \<open>A command that overwrites the settings file and fails.\<close>

lemma settings_survive_the_hooks_witness:
  "settings_content (snd (claude_spawn
       (demo_claude_env\<lparr>run_process := (\<lambda>_ _ _ fs. (Inr (1, [], ''broken''), fs(settings_path \<mapsto> \<lparr>fe_content = ''overwritten'', fe_mtime = 1\<rparr>)))\<rparr>)
       (demo_claude\<lparr>cc_hook_command := Some ''notify''\<rparr>) demo_persona ''c'' [''bash'']
       (empty_world\<lparr>w_fs := [settings_path \<mapsto> \<lparr>fe_content = ''before'', fe_mtime = 0\<rparr>], w_claude_dir := True\<rparr>))) = Some ''before''"
proof -
  let ?E = "demo_claude_env\<lparr>run_process := (\<lambda>_ _ _ fs. (Inr (1, [], ''broken''), fs(settings_path \<mapsto> \<lparr>fe_content = ''overwritten'', fe_mtime = 1\<rparr>)))\<rparr>"
  let ?C = "demo_claude\<lparr>cc_hook_command := Some ''notify''\<rparr>"
  let ?w = "empty_world\<lparr>w_fs := [settings_path \<mapsto> \<lparr>fe_content = ''before'', fe_mtime = 0\<rparr>], w_claude_dir := True\<rparr>"
  obtain r w' where run: "claude_spawn ?E ?C demo_persona ''c'' [''bash''] ?w = (r, w')" by fastforce
  have "writes_succeed ?E" using demo_claude_writes by (simp add: writes_succeed_def)
  then show ?thesis
    using settings_survive_the_hooks [OF run] run by (simp add: settings_content_def)
qed

text \<open>A denied spawn starts nothing. When the security profile denies \<open>shell\<close>, the spawn raises,
  with the adapter's own error when the audit log can be written, and neither the project's files nor \<open>.claude\<close> are
  touched. A spawn that returns a handle was not denied and, if the profile audits,
  its decision for this very binary is the one entry the audit log gained.\<close>

lemma denied_spawns_start_nothing:
  assumes "claude_spawn E C persona ctx requested w = (r, w')" and "cc_profile C = Some prof"
  shows "(effective_policy prof (Some ''shell'') = PolDeny \<longrightarrow>
      (\<exists>e. r = Inl e \<and> (writes_succeed E \<longrightarrow> (\<exists>m. e = SpawnError (- 1) m))) \<and> w_fs w' = w_fs w \<and> w_claude_dir w' = w_claude_dir w) \<and>
    (\<forall>h. r = Inr h \<longrightarrow> effective_policy prof (Some ''shell'') \<noteq> PolDeny \<and>
      (sp_audit_enabled prof \<longrightarrow> (\<exists>e. audit_entries w' = audit_entries w @ [e] \<and>
        audit_of ''execute_command'' (JStr (cc_bin C)) (decide (effective_policy prof (Some ''shell''))) e)))"
  using assms(1)
proof (cases rule: claude_spawn_view)
  case (view rid prompt tools w1 r2 w2)
  obtain r3 w3 where v: "enforce_spawn_allowed E C persona w1 = (r3, w3)" by fastforce
  note gate = enforce_spawn_run [OF v]
  show ?thesis
  proof (cases r3)
    case (Inl e)
    with view v gate assms(2) show ?thesis by (auto simp: thenp_run claude_view_def Let_def)
  next
    case (Inr u)
    let ?body = "with_hooks E C (run_claude E C (stream_recorder E C rid) prompt tools)"
    have "unchanged w_audit ?body"
      using run_claude_keeps by (intro with_hooks_keeps) (simp_all add: unchanged_def)
    moreover from Inr view(1) v have "?body w3 = (r2, w2)" by (simp add: thenp_run)
    ultimately have "w_audit w2 = w_audit w3" by (rule unchanged_result)
    with Inr view(2-3) gate assms(2) show ?thesis by (auto simp: claude_view_def Let_def audit_entries_def)
  qed
qed

lemma denied_spawns_start_nothing_witness:
  "(\<exists>m. fst (claude_spawn demo_claude_env (demo_claude\<lparr>cc_profile := Some \<lparr>sp_profile_id = ''p'', sp_default_policy = PolDeny,
       sp_capabilities = [], sp_audit_enabled = True\<rparr>\<rparr>) demo_persona ''c'' [''bash''] empty_world) = Inl (SpawnError (- 1) m))"
proof -
  let ?P = "\<lparr>sp_profile_id = ''p'', sp_default_policy = PolDeny, sp_capabilities = [], sp_audit_enabled = True\<rparr>"
  let ?C = "demo_claude\<lparr>cc_profile := Some ?P\<rparr>"
  obtain r w' where run: "claude_spawn demo_claude_env ?C demo_persona ''c'' [''bash''] empty_world = (r, w')" by fastforce
  have "cc_profile ?C = Some ?P" "effective_policy ?P (Some ''shell'') = PolDeny"
    by (simp_all add: effective_policy_def matching_rule_def)
  with denied_spawns_start_nothing [OF run] run demo_claude_writes show ?thesis by auto
qed

end
