(* ===== verification/Tasks.thy ===== *)
theory Tasks imports JsonText begin

text \<open>
  Programs that may never end: a \<open>task\<close> gives a result or an exception with the state after, or nothing
  when it hangs. The asynchronous adapters are tasks: they wait for a server, or for a person.
\<close>

type_synonym ('s, 'a) task = "'s \<Rightarrow> ((exn + 'a) \<times> 's) option"

definition bindt :: "('s, 'a) task \<Rightarrow> ('a \<Rightarrow> ('s, 'b) task) \<Rightarrow> ('s, 'b) task" where
  "bindt m f s = (case m s of None \<Rightarrow> None | Some (r, s1) \<Rightarrow> (case r of Inl e \<Rightarrow> Some (Inl e, s1) | Inr x \<Rightarrow> f x s1))"

definition task :: "('s, 'a) prog \<Rightarrow> ('s, 'a) task" where
  "task m s = Some (m s)"

definition catcht :: "('s, 'a) task \<Rightarrow> (exn \<Rightarrow> ('s, 'a) task) \<Rightarrow> ('s, 'a) task" where
  "catcht m h s = (case m s of None \<Rightarrow> None | Some (r, s1) \<Rightarrow> (case r of Inl e \<Rightarrow> h e s1 | Inr x \<Rightarrow> Some (Inr x, s1)))"

text \<open>A task of the client, beside the world.\<close>

definition on_client :: "('c, 'a) task \<Rightarrow> ('c \<times> 'w, 'a) task" where
  "on_client m = (\<lambda>(c, w). map_option (\<lambda>(r, c'). (r, (c', w))) (m c))"

section \<open>Lemmas\<close>

lemma bindt_Some: "bindt m f s = Some (r, s') \<longleftrightarrow>
    (\<exists>e. m s = Some (Inl e, s') \<and> r = Inl e) \<or> (\<exists>x s1. m s = Some (Inr x, s1) \<and> f x s1 = Some (r, s'))"
  by (auto simp: bindt_def split: option.split sum.split)

lemma catcht_Some: "catcht m h s = Some (r, s') \<longleftrightarrow>
    (\<exists>e s1. m s = Some (Inl e, s1) \<and> h e s1 = Some (r, s')) \<or> (\<exists>x. m s = Some (Inr x, s') \<and> r = Inr x)"
  by (auto simp: catcht_def split: option.split sum.split)

lemma task_Some [simp]: "task m s = Some (r, s') \<longleftrightarrow> m s = (r, s')"
  by (simp add: task_def)

lemmas task_defs = bindt_def catcht_def task_def on_client_def

end
