(* ===== verification/OpenClaw.thy ===== *)
theory OpenClaw imports Bridge AcpClient Security Scaffold Tasks begin

text \<open>
  The kernel adapter over an OpenClaw gateway, \<open>adapters/openclaw/adapter.py\<close> with \<open>schemas/openclaw.py\<close>: which
  tools a session may use, which insights of the gateway's memory are kept, how its webhooks and its
  stream become events, and the generator of one session over the ACP client. The adapter's own client is
  the state beside the world: nothing, until the gateway has been started. An \<open>OpenClawError\<close> is a
  \<open>RuntimeError\<close>. Making the insights' file and opening it succeed.
\<close>

section \<open>Tools\<close>

definition openclaw_tool_map :: "(string, string) dict" where
  "openclaw_tool_map = [(''Read'', ''read_file''), (''Write'', ''write_file''), (''Edit'', ''edit_file''), (''Bash'', ''shell''),
     (''Grep'', ''search''), (''Glob'', ''glob''), (''WebFetch'', ''web_fetch'')]"

definition openclaw_to_abstract :: "string \<Rightarrow> string" where
  "openclaw_to_abstract wire = (case List.find (\<lambda>(_, w). w = wire) openclaw_tool_map of Some (a, _) \<Rightarrow> a | None \<Rightarrow> wire)"

record openclaw_policy =
  op_allowlist :: "string list"
  op_denylist :: "string list"
  op_mismatches :: "string list"

definition tool_decision :: "env \<Rightarrow> security_profile option \<Rightarrow> json_obj \<Rightarrow> string \<Rightarrow> (world, security_decision) prog" where
  "tool_decision E enforcer actor tool = (case enforcer of None \<Rightarrow> ret DecDenied
     | Some prof \<Rightarrow> validate_action E prof actor ''use_tool'' (JStr tool) (Some tool))"

fun map_tools :: "env \<Rightarrow> security_profile option \<Rightarrow> json_obj \<Rightarrow> string list \<Rightarrow> openclaw_policy \<Rightarrow> (world, openclaw_policy) prog" where
  "map_tools E enforcer actor [] pol = ret pol"
| "map_tools E enforcer actor (t # ts) pol = (case dict_get openclaw_tool_map t of
       None \<Rightarrow> map_tools E enforcer actor ts (pol\<lparr>op_mismatches := op_mismatches pol @ [t]\<rparr>)
     | Some wire \<Rightarrow> bindp (tool_decision E enforcer actor t) (\<lambda>d. map_tools E enforcer actor ts
         (if d = DecAllowed then pol\<lparr>op_allowlist := op_allowlist pol @ [wire]\<rparr> else pol\<lparr>op_denylist := op_denylist pol @ [wire]\<rparr>)))"

definition openclaw_actor :: "json_obj \<Rightarrow> json_obj" where
  "openclaw_actor actor = (if actor = [] then [(''type'', JStr ''openclaw''), (''id'', JStr ''adapter'')] else actor)"

definition map_tool_policy :: "env \<Rightarrow> security_profile option \<Rightarrow> json_obj \<Rightarrow> string list \<Rightarrow> (world, openclaw_policy) prog" where
  "map_tool_policy E enforcer actor requested = map_tools E enforcer (openclaw_actor actor) requested
     \<lparr>op_allowlist = [], op_denylist = [], op_mismatches = []\<rparr>"

section \<open>Insights\<close>

definition forge_protected_files :: "string list" where
  "forge_protected_files = [''.forge/config.yaml'', ''.forge/state.json'', ''.forge/events.jsonl'', ''.forge/session-log.jsonl'',
     ''.forge/patterns.jsonl'', ''.forge/lessons.yaml'', ''pipeline/state.md'', ''pipeline/gates.yaml'', ''pipeline/stages.yaml'',
     ''pipeline/dependencies.graphml'']"

text \<open>\<open>posixpath.normpath\<close> of a path that does not begin with a slash\<close>

definition norm_step :: "string list \<Rightarrow> string \<Rightarrow> string list" where
  "norm_step comps c = (if c = [] \<or> c = ''.'' then comps
     else if c \<noteq> ''..'' \<or> comps = [] \<or> last comps = ''..'' then comps @ [c] else butlast comps)"

definition normpath :: "string \<Rightarrow> string" where
  "normpath p = (let r = join ''/'' (foldl norm_step [] (split_on CHR ''/'' p)) in if r = [] then ''.'' else r)"

definition back_slash :: char where
  "back_slash = char_of (92::nat)"

definition canonical_relpath :: "string \<Rightarrow> string option" where
  "canonical_relpath path = (let raw = strip (replace_char back_slash CHR ''/'' path) in
     if raw = [] \<or> starts_with ''/'' raw then None
     else let n = normpath raw in if n = ''..'' \<or> starts_with ''../'' n then None else Some n)"

definition protected_name :: "string \<Rightarrow> bool" where
  "protected_name rel \<longleftrightarrow> rel \<in> set forge_protected_files \<or> (starts_with ''.forge/'' rel \<and> ends_with rel ''-audit.jsonl'')"

definition is_protected_path :: "string \<Rightarrow> bool" where
  "is_protected_path path = (case canonical_relpath path of None \<Rightarrow> False | Some rel \<Rightarrow> protected_name rel)"

text \<open>\<open>a or b\<close>\<close>

definition py_or :: "json \<Rightarrow> json \<Rightarrow> json" where
  "py_or a b = (if truthy a then a else b)"

definition refused_target :: "json \<Rightarrow> bool" where
  "refused_target target = (case target of JStr t \<Rightarrow> strip t \<noteq> [] \<and>
       (case canonical_relpath t of None \<Rightarrow> True | Some rel \<Rightarrow> is_protected_path rel)
     | _ \<Rightarrow> False)"

text \<open>The lines of the file are the state.\<close>

fun sync_insights_back :: "env \<Rightarrow> json list \<Rightarrow> (json list, string list) prog" where
  "sync_insights_back E [] = ret []"
| "sync_insights_back E (i # is) = bindp (lift_result (json_get i ''target'' JNull)) (\<lambda>target.
     if refused_target target then sync_insights_back E is
     else bindp (lift_result (json_get i ''id'' JNull)) (\<lambda>ident. bindp (lift_result (json_get i ''title'' JNull)) (\<lambda>title.
       thenp (updates (\<lambda>file_lines. file_lines @ [i])) (bindp (sync_insights_back E is) (\<lambda>ids.
         ret (py_str E (py_or ident (py_or title (JStr []))) # ids))))))"

section \<open>Webhooks\<close>

datatype webhook = Webhook string string json_obj | RawWebhook json_obj

definition webhook_parts :: "env \<Rightarrow> webhook \<Rightarrow> string \<times> string \<times> json" where
  "webhook_parts E h = (case h of Webhook event sid payload \<Rightarrow> (event, sid, JObj payload)
     | RawWebhook m \<Rightarrow> (py_str E (field m ''event'' (JStr [])), py_str E (field m ''session_id'' (JStr [])),
         py_or (field m ''payload'' (JObj [])) (JObj [])))"

text \<open>The aggregate of the event, and the event.\<close>

definition bridge_webhook :: "env \<Rightarrow> webhook \<Rightarrow> exn + string \<times> kernel_event" where
  "bridge_webhook E h = (case webhook_parts E h of (event, sid, payload) \<Rightarrow>
     if event = ''agent.message'' then bindr (json_get payload ''text'' (JStr [])) (\<lambda>t. Inr (sid, Event TextDelta [(''text'', t)]))
     else if event = ''tool.proposed'' then bindr (json_get payload ''tool'' (JStr [])) (\<lambda>tool. let wire = py_str E tool in
       bindr (json_get payload ''tool_use_id'' (JStr wire)) (\<lambda>i. bindr (json_get payload ''inputs'' (JObj [])) (\<lambda>inputs.
       Inr (sid, Proposal \<lparr>tu_id = py_str E i, tu_name = wire, tu_abstract = openclaw_to_abstract wire,
         tu_inputs = py_or inputs (JObj []), tu_payload = []\<rparr>))))
     else if event = ''agent.stopped'' then Inr (sid, Event AgentCompleted [(''session_id'', JStr sid), (''source'', JStr ''openclaw_webhook'')])
     else if event = ''agent.failed'' then bindr (json_get payload ''reason'' (JStr ''openclaw_agent_failed'')) (\<lambda>why.
       Inr (sid, Event AgentFailed [(''reason'', why), (''session_id'', JStr sid)]))
     else Inl (RuntimeError (''unknown OpenClaw webhook event: '' @ py_repr event)))"

section \<open>The session\<close>

record openclaw =
  oc_gateway :: "string list"
  oc_timeout :: string
  oc_profile :: "security_profile option"
  oc_actor :: json_obj
  oc_dumps_indented :: "json \<Rightarrow> string"
  oc_repr_exn :: "exn \<Rightarrow> string"

record openclaw_session_config =
  sc_agent_name :: string
  sc_soul_md :: string
  sc_identity_md :: string
  sc_system_prompt :: string
  sc_model :: string
  sc_allowed_tools :: "string list"
  sc_denied_tools :: "string list"
  sc_max_tokens :: int
  sc_temperature :: real

definition build_openclaw_session_config :: "openclaw \<Rightarrow> agent_persona \<Rightarrow> string list \<Rightarrow> string list \<Rightarrow> openclaw_session_config" where
  "build_openclaw_session_config A p allowed denied = (let
       bullets = join nl (map (\<lambda>c. ''- '' @ c) (ap_constraints p)); constraints = (if bullets = [] then ''(none)'' else bullets);
       contract = oc_dumps_indented A (JObj (ap_output_contract p)); fence = replicate 3 (char_of (96::nat)) in
     \<lparr>sc_agent_name = ap_name p,
      sc_soul_md = ''# SOUL'' @ nl @ nl @ ''You are **'' @ ap_name p @ ''**, an agent operating inside Forge OS via the '' @
        ''OpenClaw kernel.'' @ nl @ nl @ ''## Voice'' @ nl @ ap_role p @ nl,
      sc_identity_md = ''# IDENTITY'' @ nl @ nl @ ''## Role'' @ nl @ ap_role p @ nl @ nl @ ''## Goal'' @ nl @ ap_goal p @ nl @ nl @
        ''## Constraints'' @ nl @ constraints @ nl,
      sc_system_prompt = ''# Role'' @ nl @ ap_role p @ nl @ nl @ ''# Goal'' @ nl @ ap_goal p @ nl @ nl @ ''# Constraints'' @ nl @ constraints @ nl @ nl @
        ''# Output contract'' @ nl @ fence @ ''json'' @ nl @ contract @ nl @ fence @ nl @ nl @ ''# Operating principles'' @ nl @
        ''- You run inside Forge OS via the OpenClaw kernel.'' @ nl @
        ''- Every tool call is gated by Forge'' @ [CHR 0x27] @ ''s Validator; denied tools return an '' @
        ''error result -- do not retry the same call.'' @ nl @ ''- Forge OS decides all gates. Never self-approve a gate.'' @ nl,
      sc_model = ap_preferred_model p, sc_allowed_tools = allowed, sc_denied_tools = denied,
      sc_max_tokens = ap_max_tokens p, sc_temperature = ap_temperature p\<rparr>)"

definition is_available :: "openclaw \<Rightarrow> 'p acp_client option \<Rightarrow> bool" where
  "is_available A c \<longleftrightarrow> c \<noteq> None \<or> oc_gateway A \<noteq> []"

definition unreachable :: "exn \<Rightarrow> bool" where
  "unreachable e = (case e of ACPClientError _ \<Rightarrow> True | OSError _ \<Rightarrow> True | FileNotFoundError _ \<Rightarrow> True | PermissionError _ \<Rightarrow> True | _ \<Rightarrow> False)"

text \<open>Whether there is a client; a client that could not be started is stopped and forgotten.\<close>

definition ensure_client :: "env \<Rightarrow> 'p peer \<Rightarrow> openclaw \<Rightarrow> ('p acp_client option, bool) prog" where
  "ensure_client E P A c = (case c of Some _ \<Rightarrow> (Inr True, c)
     | None \<Rightarrow> if oc_gateway A = [] then (Inr False, None)
         else (case start_client E P ((new_client (oc_gateway A))\<lparr>cl_timeout := oc_timeout A\<rparr>) of
             (Inr _, cl) \<Rightarrow> (Inr True, Some cl)
           | (Inl e, _) \<Rightarrow> (if unreachable e then Inr False else Inl e, None)))"

definition offline_fallback :: "string option" where
  "offline_fallback = (case dropWhile (\<lambda>a. a \<noteq> ''openclaw'') adapter_priority of _ # a # _ \<Rightarrow> Some a | _ \<Rightarrow> None)"

text \<open>A task of the client there is; without one it is not called.\<close>

definition with_open :: "('p acp_client, 'a) task \<Rightarrow> ('p acp_client option, 'a) task" where
  "with_open m c = (case c of None \<Rightarrow> Some (Inl not_running, None) | Some cl \<Rightarrow> map_option (\<lambda>(r, cl'). (r, Some cl')) (m cl))"

definition list_sessions :: "env \<Rightarrow> 'p peer \<Rightarrow> openclaw \<Rightarrow> ('p acp_client option, session_info list) task" where
  "list_sessions E P A = bindt (task (ensure_client E P A)) (\<lambda>here. if here then with_open (task (session_list E P)) else task (ret []))"

definition resume_session :: "env \<Rightarrow> 'p peer \<Rightarrow> openclaw \<Rightarrow> string \<Rightarrow> ('p acp_client option, unit) task" where
  "resume_session E P A sid = bindt (task (ensure_client E P A)) (\<lambda>here. if here then with_open (task (session_resume E P sid))
     else task (throw (RuntimeError ''OpenClaw unavailable: cannot resume session'')))"

definition close_session :: "env \<Rightarrow> 'p peer \<Rightarrow> openclaw \<Rightarrow> string \<Rightarrow> ('p acp_client option, unit) task" where
  "close_session E P A sid = bindt (task (ensure_client E P A)) (\<lambda>here. if here then with_open (task (session_close E P (JStr sid))) else task (ret ()))"

definition openclaw_capabilities :: kernel_capabilities where
  "openclaw_capabilities = \<lparr>kc_kernel_id = ''openclaw'', kc_streaming = True, kc_deterministic_output = False,
     kc_extended_thinking = True, kc_prompt_caching = True, kc_vision = False, kc_batch_api = False, kc_hooks_native = True,
     kc_subagents_native = True, kc_mcp_remote = True, kc_mcp_local_stdio = True, kc_client_tools = map fst openclaw_tool_map,
     kc_server_tools = [], kc_max_context_tokens = 200000\<rparr>"

text \<open>\<open>client.prompt\<close> as the generator it is: sending the request, and going on to the next update; \<open>None\<close> is
  its end.\<close>

definition start_prompt :: "'p peer \<Rightarrow> string \<Rightarrow> json \<Rightarrow> ('p acp_client, int) prog" where
  "start_prompt P ctx sid = bindp (asks (\<lambda>c. py_or sid (cl_session_id c))) (\<lambda>s.
     bindp (build_request ''session/prompt'' (prompt_params ctx s)) (\<lambda>(req, n). thenp (send P req) (ret n)))"

partial_function (option) next_update :: "env \<Rightarrow> 'p peer \<Rightarrow> int \<Rightarrow> 'p acp_client \<Rightarrow> ((exn + json option) \<times> 'p acp_client) option" where
  "next_update E P n c = (case receive E P c of
       (Inl e, c1) \<Rightarrow> Some (Inl e, c1)
     | (Inr response, c1) \<Rightarrow> (case classify E n response of
           Inl e \<Rightarrow> Some (Inl e, c1)
         | Inr Ignored \<Rightarrow> next_update E P n c1
         | Inr (Update u) \<Rightarrow> Some (Inr (Some u), c1)
         | Inr (Answer r) \<Rightarrow> Some (Inr None, c1)))"

definition extract_text :: "env \<Rightarrow> json_obj \<Rightarrow> string" where
  "extract_text E u = (case field u ''content'' JNull of JObj m \<Rightarrow> py_str E (field m ''text'' (JStr [])) | JStr s \<Rightarrow> s
     | _ \<Rightarrow> py_str E (field u ''text'' (JStr [])))"

definition said :: "event_kind \<Rightarrow> string \<Rightarrow> string \<Rightarrow> kernel_event option" where
  "said k key t = (if t = [] then None else Some (Event k [(key, JStr t)]))"

definition translate_update :: "env \<Rightarrow> json \<Rightarrow> kernel_event option" where
  "translate_update E params = (case params of JObj p \<Rightarrow> (case field p ''update'' params of
       JObj u \<Rightarrow> (let get = (\<lambda>k. field u k JNull); kind = py_or (get ''sessionUpdate'') (get ''type'') in
         if kind \<in> JStr ` {''agent_message_chunk'', ''message'', ''text''} then said TextDelta ''text'' (extract_text E u)
         else if kind \<in> JStr ` {''agent_thought_chunk'', ''thinking'', ''thought''} then said ThinkingDelta ''thinking'' (extract_text E u)
         else if kind \<in> JStr ` {''tool_call'', ''tool_call_update'', ''tool''}
         then (let wire = py_str E (py_or (get ''kind'') (py_or (get ''toolName'') (py_or (get ''title'') (JStr [])))) in
           Some (Proposal \<lparr>tu_id = py_str E (py_or (get ''toolCallId'') (py_or (get ''id'') (JStr wire))), tu_name = wire,
             tu_abstract = openclaw_to_abstract wire,
             tu_inputs = py_or (get ''rawInput'') (py_or (get ''input'') (py_or (get ''inputs'') (JObj []))), tu_payload = []\<rparr>))
         else if kind \<in> JStr ` {''error'', ''session_error''}
         then Some (Event AgentFailed [(''reason'', JStr ''session_error''), (''detail'', JObj u)])
         else None)
     | _ \<Rightarrow> None)
     | _ \<Rightarrow> None)"

datatype openclaw_phase = OcNew | OcPrompting | OcStreaming int | OcDeciding int | OcDone

record openclaw_session =
  os_id :: json
  os_phase :: openclaw_phase

definition new_openclaw_session :: openclaw_session where
  "new_openclaw_session = \<lparr>os_id = JNull, os_phase = OcNew\<rparr>"

definition openclaw_unavailable :: kernel_event where
  "openclaw_unavailable = Event AgentFailed [(''reason'', JStr ''openclaw_unavailable''), (''fallback_adapter'', opt_str offline_fallback),
     (''detail'', JStr ''OpenClaw Gateway not reachable; Forge state unchanged.'')]"

definition after_event :: "int \<Rightarrow> kernel_event \<Rightarrow> openclaw_phase" where
  "after_event n ev = (case ev of Proposal _ \<Rightarrow> OcDeciding n | Event k _ \<Rightarrow> if k \<in> {AgentCompleted, AgentFailed} then OcDone else OcStreaming n)"

partial_function (option) openclaw_pull :: "env \<Rightarrow> 'p peer \<Rightarrow> openclaw_session \<Rightarrow> int \<Rightarrow> 'p acp_client option \<times> world
    \<Rightarrow> ((exn + (kernel_event \<times> openclaw_session) option) \<times> 'p acp_client option \<times> world) option" where
  "openclaw_pull E P s n st = (case on_client (with_open (next_update E P n)) st of
       None \<Rightarrow> None
     | Some (Inl e, st1) \<Rightarrow> Some (Inl e, st1)
     | Some (Inr None, st1) \<Rightarrow> Some (Inr (Some (Event AgentCompleted [(''session_id'', os_id s)], s\<lparr>os_phase := OcDone\<rparr>)), st1)
     | Some (Inr (Some u), st1) \<Rightarrow> (case translate_update E u of
           None \<Rightarrow> openclaw_pull E P s n st1
         | Some ev \<Rightarrow> Some (Inr (Some (ev, s\<lparr>os_phase := after_event n ev\<rparr>)), st1)))"

definition openclaw_stream :: "env \<Rightarrow> 'p peer \<Rightarrow> openclaw \<Rightarrow> openclaw_session \<Rightarrow> ('p acp_client option \<times> world, int) task
    \<Rightarrow> ('p acp_client option \<times> world, (kernel_event \<times> openclaw_session) option) task" where
  "openclaw_stream E P A s request = catcht (bindt request (openclaw_pull E P s)) (\<lambda>e. case e of
       ACPClientError _ \<Rightarrow> task (ret (Some (Event AgentFailed [(''reason'', JStr ''openclaw_error''), (''detail'', JStr (oc_repr_exn A e))],
         s\<lparr>os_phase := OcDone\<rparr>)))
     | _ \<Rightarrow> task (throw e))"

definition openclaw_spawn :: "env \<Rightarrow> 'p peer \<Rightarrow> openclaw \<Rightarrow> agent_persona \<Rightarrow> string list \<Rightarrow> string
    \<Rightarrow> ('p acp_client option \<times> world, (kernel_event \<times> openclaw_session) option) task" where
  "openclaw_spawn E P A p tools aggregate_id = bindt (on_client (task (ensure_client E P A))) (\<lambda>here.
     if \<not> here then task (ret (Some (openclaw_unavailable, new_openclaw_session\<lparr>os_phase := OcDone\<rparr>)))
     else let allowed = filter (\<lambda>t. t \<in> set tools) (ap_allowed_tools p) in
       bindt (task (with_local (map_tool_policy E (oc_profile A) (oc_actor A) allowed))) (\<lambda>pol.
       let cfg = build_openclaw_session_config A p (op_allowlist pol) [] in
       bindt (on_client (with_open (task (asks cl_session_id)))) (\<lambda>csid. let sid = py_or csid (JStr aggregate_id) in
       task (ret (Some (Event SessionStarted [(''persona'', JStr (ap_name p)), (''model'', JStr (sc_model cfg)), (''kernel'', JStr ''openclaw''),
           (''session_id'', sid), (''agent'', JStr (sc_agent_name cfg)), (''client_tools'', JArr (map JStr allowed)),
           (''tool_mismatches'', JArr (map JStr (op_mismatches pol)))], \<lparr>os_id = sid, os_phase = OcPrompting\<rparr>))))))"

definition openclaw_step :: "env \<Rightarrow> 'p peer \<Rightarrow> openclaw \<Rightarrow> agent_persona \<Rightarrow> string \<Rightarrow> string list \<Rightarrow> string \<Rightarrow> openclaw_session
    \<Rightarrow> tool_result option \<Rightarrow> ('p acp_client option \<times> world, (kernel_event \<times> openclaw_session) option) task" where
  "openclaw_step E P A p ctx tools aggregate_id s sent = (case os_phase s of
       OcNew \<Rightarrow> openclaw_spawn E P A p tools aggregate_id
     | OcPrompting \<Rightarrow> openclaw_stream E P A s (on_client (with_open (task (start_prompt P ctx (os_id s)))))
     | OcStreaming n \<Rightarrow> openclaw_stream E P A s (task (ret n))
     | OcDeciding n \<Rightarrow> if sent = None then task (throw (RuntimeError ''spawn_agent expected ToolResult, got <class NoneType>''))
         else openclaw_stream E P A s (task (ret n))
     | OcDone \<Rightarrow> task (ret None))"

section \<open>Where a path leads\<close>

text \<open>The reference: walking from the project's directory, one component at a time; \<open>None\<close> leaves the project.
  The directories entered come last first.\<close>

fun walk :: "string list \<Rightarrow> string list \<Rightarrow> string list option" where
  "walk st [] = Some (rev st)"
| "walk st (c # cs) = (if c = [] \<or> c = ''.'' then walk st cs
     else if c = ''..'' then (case st of [] \<Rightarrow> None | _ # st' \<Rightarrow> walk st' cs) else walk (c # st) cs)"

definition leads_to :: "string \<Rightarrow> string list option" where
  "leads_to t = (let raw = strip (replace_char back_slash CHR ''/'' t) in
     if raw = [] \<or> starts_with ''/'' raw then None else walk [] (split_on CHR ''/'' raw))"

lemma norm_step_up: "acc \<noteq> [] \<and> hd acc = ''..'' \<Longrightarrow> norm_step acc c \<noteq> [] \<and> hd (norm_step acc c) = ''..''"
  by (cases acc; cases "tl acc") (auto simp: norm_step_def)

lemma norm_fold_up: "acc \<noteq> [] \<and> hd acc = ''..'' \<Longrightarrow> foldl norm_step acc cs \<noteq> [] \<and> hd (foldl norm_step acc cs) = ''..''"
  by (induction cs arbitrary: acc) (simp_all add: norm_step_up)

lemma norm_fold_walk:
  assumes "''..'' \<notin> set st"
  shows "case walk st cs of Some r \<Rightarrow> foldl norm_step (rev st) cs = r | None \<Rightarrow> foldl norm_step (rev st) cs \<noteq> [] \<and> hd (foldl norm_step (rev st) cs) = ''..''"
  using assms
proof (induction st cs rule: walk.induct)
  case (2 st c cs)
  show ?case
  proof (cases "c = ''..''")
    case True
    show ?thesis
    proof (cases st)
      case Nil
      with True norm_fold_up [of "[''..'']" cs] show ?thesis by (simp add: norm_step_def)
    next
      case (Cons d st')
      with 2 True have "case walk st' cs of Some r \<Rightarrow> foldl norm_step (rev st') cs = r
        | None \<Rightarrow> foldl norm_step (rev st') cs \<noteq> [] \<and> hd (foldl norm_step (rev st') cs) = ''..''" by simp
      moreover have "norm_step (rev (d # st')) ''..'' = rev st'" using 2(4) Cons by (auto simp: norm_step_def)
      ultimately show ?thesis using True Cons by (cases "walk st' cs") simp_all
    qed
  next
    case False
    show ?thesis
    proof (cases "c = [] \<or> c = ''.''")
      case True
      with 2 have "case walk st cs of Some r \<Rightarrow> foldl norm_step (rev st) cs = r
        | None \<Rightarrow> foldl norm_step (rev st) cs \<noteq> [] \<and> hd (foldl norm_step (rev st) cs) = ''..''" by blast
      moreover from True have "walk st (c # cs) = walk st cs" "norm_step (rev st) c = rev st" by (auto simp: norm_step_def)
      ultimately show ?thesis by (simp only: foldl.simps)
    next
      case name: False
      with 2 False have "case walk (c # st) cs of Some r \<Rightarrow> foldl norm_step (rev (c # st)) cs = r
        | None \<Rightarrow> foldl norm_step (rev (c # st)) cs \<noteq> [] \<and> hd (foldl norm_step (rev (c # st)) cs) = ''..''" by simp
      moreover from name False have "walk st (c # cs) = walk (c # st) cs" "norm_step (rev st) c = rev (c # st)" by (auto simp: norm_step_def)
      ultimately show ?thesis by (simp only: foldl.simps)
    qed
  qed
qed simp

text \<open>The components of what walking gives are names.\<close>

definition proper :: "string \<Rightarrow> bool" where
  "proper c \<longleftrightarrow> c \<noteq> [] \<and> c \<noteq> ''.'' \<and> c \<noteq> ''..'' \<and> CHR ''/'' \<notin> set c"

lemma walk_proper:
  "walk st cs = Some r \<Longrightarrow> list_all proper st \<Longrightarrow> \<forall>c\<in>set cs. CHR ''/'' \<notin> set c \<Longrightarrow> list_all proper r"
proof (induction st cs rule: walk.induct)
  case (1 st)
  then show ?case by (auto simp: list_all_iff)
next
  case (2 st c cs)
  show ?case
  proof (cases "c = ''..''")
    case True
    with 2 show ?thesis by (cases st) simp_all
  next
    case False
    with 2 show ?thesis by (cases "c = [] \<or> c = ''.''") (simp_all add: proper_def)
  qed
qed

lemma walk_names: "list_all proper cs \<Longrightarrow> walk st cs = Some (rev st @ cs)"
  by (induction cs arbitrary: st) (auto simp: proper_def)

lemma split_on_parts: "c \<in> set (split_on d s) \<Longrightarrow> d \<notin> set c \<and> set c \<subseteq> set s"
proof (induction s arbitrary: c)
  case (Cons x s)
  then show ?case by (cases "split_on d s") (fastforce split: if_splits)+
qed simp

lemma split_on_append: "d \<notin> set x \<Longrightarrow> split_on d (x @ d # y) = x # split_on d y"
  by (induction x) auto

lemma split_on_single: "d \<notin> set x \<Longrightarrow> split_on d x = [x]"
  by (induction x) auto

lemma split_on_join: "cs \<noteq> [] \<Longrightarrow> \<forall>c\<in>set cs. d \<notin> set c \<Longrightarrow> split_on d (join [d] cs) = cs"
  by (induction "[d]" cs rule: join.induct) (auto simp: split_on_single split_on_append)

lemma join_up: "cs \<noteq> [] \<and> hd cs = ''..'' \<Longrightarrow> join ''/'' cs = ''..'' \<or> starts_with ''../'' (join ''/'' cs)"
  by (cases cs; cases "tl cs") auto

lemma join_proper:
  assumes "list_all proper cs" and "cs \<noteq> []"
  shows "join ''/'' cs \<noteq> [] \<and> join ''/'' cs \<noteq> ''..'' \<and> \<not> starts_with ''../'' (join ''/'' cs) \<and> \<not> starts_with ''/'' (join ''/'' cs)"
proof -
  obtain c ds where cs: "cs = c # ds" using assms(2) by (cases cs) auto
  with assms(1) have c: "proper c" by simp
  then obtain x y where x: "c = x # y" "x \<noteq> CHR ''/''" by (cases c) (auto simp: proper_def)
  have split: "split_on CHR ''/'' (join ''/'' cs) = cs"
    using split_on_join [OF assms(2), of "CHR ''/''"] assms(1) by (auto simp: list_all_iff proper_def)
  have "\<not> starts_with ''../'' (join ''/'' cs)"
  proof
    assume "starts_with ''../'' (join ''/'' cs)"
    then obtain z where "join ''/'' cs = ''..'' @ CHR ''/'' # z"
      by (cases "join ''/'' cs"; cases "tl (join ''/'' cs)"; cases "tl (tl (join ''/'' cs))") auto
    with split have "c = ''..''" using cs split_on_append [of "CHR ''/''" "''..''" z] by auto
    with c show False by (simp add: proper_def)
  qed
  moreover have "join ''/'' cs \<noteq> ''..''"
  proof
    assume "join ''/'' cs = ''..''"
    with split cs have "c = ''..''" by simp
    with c show False by (simp add: proper_def)
  qed
  moreover have "join ''/'' cs \<noteq> [] \<and> \<not> starts_with ''/'' (join ''/'' cs)"
    using cs x by (cases ds) auto
  ultimately show ?thesis by blast
qed

text \<open>The canonical form is where the path leads.\<close>

lemma canonical_leads_to:
  "canonical_relpath t = map_option (\<lambda>st. if st = [] then ''.'' else join ''/'' st) (leads_to t)"
proof -
  let ?raw = "strip (replace_char back_slash CHR ''/'' t)"
  let ?cs = "split_on CHR ''/'' ?raw"
  show ?thesis
  proof (cases "?raw = [] \<or> starts_with ''/'' ?raw")
    case True
    then show ?thesis by (auto simp: canonical_relpath_def leads_to_def Let_def)
  next
    case False
    show ?thesis
    proof (cases "walk [] ?cs")
      case None
      with norm_fold_walk [of "[]" ?cs] join_up [of "foldl norm_step [] ?cs"] False show ?thesis
        by (auto simp: canonical_relpath_def leads_to_def normpath_def Let_def)
    next
      case (Some st)
      then have st: "foldl norm_step [] ?cs = st" "list_all proper st"
        using norm_fold_walk [of "[]" ?cs] walk_proper [OF Some] split_on_parts by auto
      with False Some join_proper [of st] show ?thesis
        by (auto simp: canonical_relpath_def leads_to_def normpath_def Let_def)
    qed
  qed
qed

lemma protected_no_space:
  assumes "protected_name r"
  shows "strip r = r"
proof (rule strip_id)
  have ends: "\<not> py_isspace CHR ''l'' \<and> \<not> py_isspace CHR ''.''" by code_simp
  have "list_all (\<lambda>r. \<not> py_isspace (hd r) \<and> \<not> py_isspace (last r)) forge_protected_files" by code_simp
  moreover have "\<not> py_isspace (hd r) \<and> \<not> py_isspace (last r)" if "starts_with ''.forge/'' r" "ends_with r ''-audit.jsonl''"
  proof -
    from that(1) [unfolded starts_with_append] obtain x where "r = ''.forge/'' @ x" by auto
    moreover from that(2) [unfolded ends_with_def starts_with_append] obtain y where "rev r = rev ''-audit.jsonl'' @ y" by auto
    ultimately have "hd r = CHR ''.''" "hd (rev r) = CHR ''l''" by simp_all
    with ends show ?thesis by (simp add: hd_rev)
  qed
  ultimately show "r = [] \<or> \<not> py_isspace (hd r) \<and> \<not> py_isspace (last r)"
    using assms by (auto simp: protected_name_def list_all_iff)
qed

text \<open>So a path that leads to a protected file is protected, however it is spelled.\<close>

lemma protected_where_it_leads:
  assumes "leads_to t = Some st"
  shows "protected_name (join ''/'' st) \<Longrightarrow> is_protected_path (if st = [] then ''.'' else join ''/'' st)"
proof -
  assume prot: "protected_name (join ''/'' st)"
  have "\<not> protected_name []" by code_simp
  with prot have ne: "st \<noteq> []" by auto
  let ?raw = "strip (replace_char back_slash CHR ''/'' t)"
  from assms have w: "walk [] (split_on CHR ''/'' ?raw) = Some st" by (simp add: leads_to_def Let_def split: if_splits)
  have parts: "\<forall>c\<in>set st. set c \<subseteq> set ?raw"
  proof -
    have "walk ss cs = Some r \<Longrightarrow> set r \<subseteq> set ss \<union> set cs" for ss cs r
      by (induction ss cs rule: walk.induct) (auto split: if_splits list.splits)
    with w split_on_parts show ?thesis by fastforce
  qed
  have proper: "list_all proper st" using walk_proper [OF w] split_on_parts by auto
  have slash: "\<forall>c\<in>set st. CHR ''/'' \<notin> set c" using proper by (auto simp: list_all_iff proper_def)
  have "set (strip s) \<subseteq> set s" for s by (auto simp: strip_def dest!: set_dropWhileD)
  moreover have "back_slash \<notin> set (replace_char back_slash CHR ''/'' t)"
  proof -
    have "back_slash \<noteq> CHR ''/''" by code_simp
    then show ?thesis by (auto simp: replace_char_def)
  qed
  ultimately have "back_slash \<notin> set ?raw" by blast
  moreover have "set (join ''/'' cs) \<subseteq> insert CHR ''/'' (\<Union> (set ` set cs))" for cs
    by (induction cs rule: induct_list012) auto
  moreover have "back_slash \<noteq> CHR ''/''" by code_simp
  ultimately have "back_slash \<notin> set (join ''/'' st)" using parts by blast
  then have "replace_char back_slash CHR ''/'' (join ''/'' st) = join ''/'' st"
    by (auto simp: replace_char_def intro!: map_idI)
  with protected_no_space [OF prot] join_proper [OF proper ne] have "leads_to (join ''/'' st) = Some st"
    using walk_names [OF proper, of "[]"] split_on_join [OF ne slash] by (simp add: leads_to_def Let_def)
  with ne prot show ?thesis by (simp add: is_protected_path_def canonical_leads_to)
qed

text \<open>The insights that are not refused\<close>

definition insight_kept :: "json \<Rightarrow> bool" where
  "insight_kept i = (case i of JObj m \<Rightarrow> \<not> refused_target (field m ''target'' JNull) | _ \<Rightarrow> False)"

lemma sync_insights_run:
  assumes "sync_insights_back E insights ls = (r, ls')"
  shows "\<exists>new. ls' = ls @ new \<and> (\<forall>i\<in>set new. i \<in> set insights \<and> insight_kept i) \<and>
    (\<forall>ids. r = Inr ids \<longrightarrow> length ids = length new \<and> new = filter insight_kept insights)"
  using assms
proof (induction insights arbitrary: ls r)
  case Nil
  then show ?case by (auto simp: ret_run)
next
  case (Cons i insights)
  show ?case
  proof (cases "\<exists>m. i = JObj m")
    case False
    then have "\<exists>e. json_get i ''target'' JNull = Inl e" by (auto simp: json_get_def split: json.splits)
    with Cons(2) show ?thesis by (auto simp: bindp_run lift_result_run)
  next
    case True
    then obtain m where m: "i = JObj m" by blast
    show ?thesis
    proof (cases "insight_kept i")
      case False
      with Cons(2) m have "sync_insights_back E insights ls = (r, ls')" by (simp add: bindp_run lift_result_run insight_kept_def)
      from Cons(1) [OF this] False show ?thesis by auto
    next
      case True
      obtain r1 ls1 where rest: "sync_insights_back E insights (ls @ [i]) = (r1, ls1)" by fastforce
      with Cons(2) m True have res: "ls' = ls1" "\<And>ids. r = Inr ids \<Longrightarrow> \<exists>ids1 x. r1 = Inr ids1 \<and> ids = x # ids1"
        by (auto simp: bindp_run lift_result_run thenp_run updates_run ret_run insight_kept_def split: sum.splits)
      from rest res(1) have "sync_insights_back E insights (ls @ [i]) = (r1, ls')" by simp
      from Cons(1) [OF this] obtain new where new: "ls' = (ls @ [i]) @ new" "\<forall>i\<in>set new. i \<in> set insights \<and> insight_kept i"
        "\<forall>ids. r1 = Inr ids \<longrightarrow> length ids = length new \<and> new = filter insight_kept insights" by blast
      have "\<forall>ids. r = Inr ids \<longrightarrow> length ids = length (i # new) \<and> i # new = filter insight_kept (i # insights)"
        using res(2) new(3) True by fastforce
      moreover have "\<forall>j\<in>set (i # new). j \<in> set (i # insights) \<and> insight_kept j" using new(2) True by auto
      moreover have "ls' = ls @ i # new" using new(1) by simp
      ultimately show ?thesis by blast
    qed
  qed
qed

section \<open>Runs\<close>

text \<open>All of the world but the clock, the supply of ids, the number of writes and the audit log\<close>

definition project_state :: "world \<Rightarrow> world" where
  "project_state w = w\<lparr>w_clock := 0, w_uuids := 0, w_writes := 0, w_audit := None\<rparr>"

lemma audit_keeps_project: "unchanged project_state (audit E prefix actor action target cap dec why)"
  by (auto simp: unchanged_def audit_def env_reads prog_simps audit_log_def project_state_def)

lemma decision_keeps_project: "unchanged project_state (tool_decision E enforcer actor tool)"
  unfolding tool_decision_def validate_action_def Let_def
  by (auto intro!: frame_intros audit_keeps_project split: option.split)

lemma map_tools_keeps_project: "unchanged project_state (map_tools E enforcer actor ts pol)"
  by (induction ts arbitrary: pol) (auto intro!: frame_intros decision_keeps_project split: option.split)

text \<open>An abstract tool is allowed exactly when it has a name there and the profile in force allows it; without one
  nothing is.\<close>

definition tool_allowed :: "security_profile option \<Rightarrow> string \<Rightarrow> bool" where
  "tool_allowed enforcer t = (case enforcer of None \<Rightarrow> False | Some prof \<Rightarrow> decide (effective_policy prof (Some t)) = DecAllowed)"

definition wires :: "string list \<Rightarrow> string list" where
  "wires ts = List.map_filter (dict_get openclaw_tool_map) ts"

lemma tool_decision_allows:
  assumes "tool_decision E enforcer actor t w = (Inr d, w')"
  shows "d = DecAllowed \<longleftrightarrow> tool_allowed enforcer t"
  using assms by (auto simp: tool_decision_def tool_allowed_def ret_run split: option.splits dest: validate_action_run)

lemma map_tools_run:
  assumes "map_tools E enforcer actor ts pol w = (Inr pol', w')"
  shows "pol' = \<lparr>op_allowlist = op_allowlist pol @ wires (filter (tool_allowed enforcer) ts),
    op_denylist = op_denylist pol @ wires (filter (\<lambda>t. \<not> tool_allowed enforcer t) ts),
    op_mismatches = op_mismatches pol @ filter (\<lambda>t. t \<notin> fst ` set openclaw_tool_map) ts\<rparr>"
  using assms
proof (induction ts arbitrary: pol w)
  case Nil
  then show ?case by (simp add: ret_run wires_def map_filter_def)
next
  case (Cons t ts)
  have known: "dict_get openclaw_tool_map t = None \<longleftrightarrow> t \<notin> fst ` set openclaw_tool_map"
    by (simp add: dict_get_def map_of_eq_None_iff)
  have wires: "wires [] = []" "wires (t # ts) = (case dict_get openclaw_tool_map t of None \<Rightarrow> wires ts | Some w \<Rightarrow> w # wires ts)" for t ts
    by (simp_all add: wires_def map_filter_simps split: option.split)
  show ?case
  proof (cases "dict_get openclaw_tool_map t")
    case None
    with Cons.prems have "map_tools E enforcer actor ts (pol\<lparr>op_mismatches := op_mismatches pol @ [t]\<rparr>) w = (Inr pol', w')" by simp
    from Cons.IH [OF this] None known show ?thesis by (simp add: wires)
  next
    case (Some wire)
    with Cons.prems obtain d w1 where d: "tool_decision E enforcer actor t w = (Inr d, w1)"
      and rest: "map_tools E enforcer actor ts (if d = DecAllowed then pol\<lparr>op_allowlist := op_allowlist pol @ [wire]\<rparr>
        else pol\<lparr>op_denylist := op_denylist pol @ [wire]\<rparr>) w1 = (Inr pol', w')"
      by (auto simp: bindp_run split: prod.splits sum.splits)
    from Cons.IH [OF rest] tool_decision_allows [OF d] Some known show ?thesis
      by (cases "d = DecAllowed") (simp_all add: wires)
  qed
qed

lemma tool_policy_fails_closed:
  assumes "map_tool_policy E enforcer actor ts w = (Inr pol, w')"
  shows "pol = \<lparr>op_allowlist = wires (filter (tool_allowed enforcer) ts), op_denylist = wires (filter (\<lambda>t. \<not> tool_allowed enforcer t) ts),
    op_mismatches = filter (\<lambda>t. t \<notin> fst ` set openclaw_tool_map) ts\<rparr>"
  using map_tools_run [OF assms [unfolded map_tool_policy_def]] by simp

lemma openclaw_names_round_trip: "dict_get openclaw_tool_map t = Some wire \<Longrightarrow> openclaw_to_abstract wire = t"
  by (auto simp: openclaw_tool_map_def dict_get_def openclaw_to_abstract_def split: if_splits)

text \<open>The events of a session, from its start, and those that are its last.\<close>

inductive openclaw_run :: "env \<Rightarrow> 'p peer \<Rightarrow> openclaw \<Rightarrow> agent_persona \<Rightarrow> string \<Rightarrow> string list \<Rightarrow> string
    \<Rightarrow> 'p acp_client option \<times> world \<Rightarrow> openclaw_session \<Rightarrow> 'p acp_client option \<times> world \<Rightarrow> kernel_event list \<Rightarrow> bool"
  for E P A p ctx tools aggregate_id st0 where
  Begins: "openclaw_run E P A p ctx tools aggregate_id st0 new_openclaw_session st0 []"
| Resumes: "openclaw_run E P A p ctx tools aggregate_id st0 s st evs \<Longrightarrow>
    openclaw_step E P A p ctx tools aggregate_id s sent st = Some (Inr (Some (ev, s')), st') \<Longrightarrow>
    openclaw_run E P A p ctx tools aggregate_id st0 s' st' (evs @ [ev])"

definition final_event :: "kernel_event \<Rightarrow> bool" where
  "final_event ev = (case ev of Event k _ \<Rightarrow> k = AgentCompleted \<or> k = AgentFailed | Proposal _ \<Rightarrow> False)"

definition starts_session :: "kernel_event \<Rightarrow> bool" where
  "starts_session ev = (case ev of Event k _ \<Rightarrow> k = SessionStarted | Proposal _ \<Rightarrow> False)"

text \<open>What the stream's next event says of the phase after it.\<close>

definition phased :: "kernel_event \<Rightarrow> openclaw_session \<Rightarrow> bool" where
  "phased ev s \<longleftrightarrow> (os_phase s = OcDone \<longleftrightarrow> final_event ev) \<and> os_phase s \<noteq> OcNew \<and>
     ((\<exists>n. os_phase s = OcDeciding n) \<longleftrightarrow> (\<exists>q. ev = Proposal q))"

lemma on_client_world: "on_client m st = Some (r, st') \<Longrightarrow> snd st' = snd st"
  by (cases st) (auto simp: on_client_def)

lemma translate_update_streams: "translate_update E u = Some ev \<Longrightarrow> \<not> starts_session ev"
  by (auto simp: translate_update_def said_def starts_session_def Let_def split: json.splits if_splits)

lemma after_event_phased: "phased ev (s\<lparr>os_phase := after_event n ev\<rparr>)"
  by (auto simp: phased_def after_event_def final_event_def split: kernel_event.split)

lemma openclaw_pull_result:
  fixes P :: "'p peer"
  assumes "openclaw_pull E P s n st = Some out"
  shows "snd (snd out) = snd st \<and> (\<forall>r. fst out = Inr r \<longrightarrow> (\<exists>ev s'. r = Some (ev, s') \<and> phased ev s' \<and> \<not> starts_session ev))"
proof (rule openclaw_pull.raw_induct [OF _ assms, where Pa = "\<lambda>((((E, P), s), n), st) out. snd (snd out) = snd st \<and>
    (\<forall>r. fst out = Inr r \<longrightarrow> (\<exists>ev s'. r = Some (ev, s') \<and> phased ev s' \<and> \<not> starts_session ev))", unfolded prod.case])
  fix loop and E and P :: "'p peer" and s n st out
  assume ih: "\<And>E (P :: 'p peer) s n st out. loop E P s n st = Some out \<Longrightarrow> snd (snd out) = snd st \<and>
      (\<forall>r. fst out = Inr r \<longrightarrow> (\<exists>ev s'. r = Some (ev, s') \<and> phased ev s' \<and> \<not> starts_session ev))"
    and run: "(case on_client (with_open (next_update E P n)) st of
       None \<Rightarrow> None
     | Some (Inl e, st1) \<Rightarrow> Some (Inl e, st1)
     | Some (Inr None, st1) \<Rightarrow> Some (Inr (Some (Event AgentCompleted [(''session_id'', os_id s)], s\<lparr>os_phase := OcDone\<rparr>)), st1)
     | Some (Inr (Some u), st1) \<Rightarrow> (case translate_update E u of
           None \<Rightarrow> loop E P s n st1
         | Some ev \<Rightarrow> Some (Inr (Some (ev, s\<lparr>os_phase := after_event n ev\<rparr>)), st1))) = Some out"
  obtain r st1 where heard: "on_client (with_open (next_update E P n)) st = Some (r, st1)"
    using run by (cases "on_client (with_open (next_update E P n)) st") auto
  then have same: "snd st1 = snd st" by (rule on_client_world)
  have ended: "phased (Event AgentCompleted x) (s\<lparr>os_phase := OcDone\<rparr>)" "\<not> starts_session (Event AgentCompleted x)" for x
    by (simp_all add: phased_def final_event_def starts_session_def)
  consider (error) e where "r = Inl e" | (over) "r = Inr None" | (update) u where "r = Inr (Some u)" by (cases r) auto
  then show "snd (snd out) = snd st \<and> (\<forall>r. fst out = Inr r \<longrightarrow> (\<exists>ev s'. r = Some (ev, s') \<and> phased ev s' \<and> \<not> starts_session ev))"
  proof cases
    case update
    show ?thesis
    proof (cases "translate_update E u")
      case None
      with run heard update have "loop E P s n st1 = Some out" by simp
      from ih [OF this] same show ?thesis by simp
    next
      case (Some ev)
      with run heard update same after_event_phased [where ev = ev and s = s and n = n] translate_update_streams [OF Some] show ?thesis by auto
    qed
  qed (use run heard same ended in auto)
qed

lemma openclaw_stream_result:
  assumes "openclaw_stream E P A s request st = Some (r, st')"
    and "\<And>r st'. request st = Some (r, st') \<Longrightarrow> snd st' = snd st"
  shows "snd st' = snd st \<and> (\<forall>x. r = Inr x \<longrightarrow> (\<exists>ev s'. x = Some (ev, s') \<and> phased ev s' \<and> \<not> starts_session ev)) \<and>
    (\<forall>m. r \<noteq> Inl (ACPClientError m))"
proof -
  let ?good = "\<lambda>x. \<exists>ev s'. x = Some (ev, s') \<and> phased ev s' \<and> \<not> starts_session ev"
  have body: "snd st1 = snd st \<and> (\<forall>x. r1 = Inr x \<longrightarrow> ?good x)" if b: "bindt request (openclaw_pull E P s) st = Some (r1, st1)" for r1 st1
  proof -
    from b [unfolded bindt_Some] show ?thesis
    proof (elim disjE exE conjE)
      fix n st2
      assume req: "request st = Some (Inr n, st2)" and pulled: "openclaw_pull E P s n st2 = Some (r1, st1)"
      from openclaw_pull_result [OF pulled] assms(2) [OF req] show ?thesis by simp
    qed (use assms(2) in auto)
  qed
  have failed: "phased (Event AgentFailed x) (s\<lparr>os_phase := OcDone\<rparr>)" "\<not> starts_session (Event AgentFailed x)" for x
    by (simp_all add: phased_def final_event_def starts_session_def)
  from assms(1) show ?thesis
    unfolding openclaw_stream_def catcht_Some
  proof (elim disjE exE conjE)
    fix e st1
    assume "bindt request (openclaw_pull E P s) st = Some (Inl e, st1)"
      and handled: "(case e of ACPClientError _ \<Rightarrow> task (ret (Some (Event AgentFailed [(''reason'', JStr ''openclaw_error''), (''detail'', JStr (oc_repr_exn A e))],
         s\<lparr>os_phase := OcDone\<rparr>))) | _ \<Rightarrow> task (throw e)) st1 = Some (r, st')"
    with body have "snd st1 = snd st" by blast
    with handled failed show ?thesis by (cases e) (auto simp: prog_simps)
  next
    fix x
    assume "bindt request (openclaw_pull E P s) st = Some (Inr x, st')" and "r = Inr x"
    with body show ?thesis by blast
  qed
qed

lemma openclaw_spawn_result:
  assumes "openclaw_spawn E P A p tools aggregate_id st = Some (Inr x, st')"
  shows "project_state (snd st') = project_state (snd st) \<and> (\<exists>ev s'. x = Some (ev, s') \<and> phased ev s' \<and>
    (if fst st = None \<and> oc_gateway A = [] then ev = openclaw_unavailable else ev = openclaw_unavailable \<or> starts_session ev))"
proof -
  have failed: "phased openclaw_unavailable (new_openclaw_session\<lparr>os_phase := OcDone\<rparr>)"
    by (simp add: phased_def final_event_def openclaw_unavailable_def)
  have started: "phased (Event SessionStarted y) \<lparr>os_id = i, os_phase = OcPrompting\<rparr>" "starts_session (Event SessionStarted y)" for y i
    by (simp_all add: phased_def final_event_def starts_session_def)
  have policy: "project_state (snd st2) = project_state (snd st1)"
    if "with_local (map_tool_policy E e a ts) st1 = (r, st2)" for e a ts r and st1 st2 :: "'a acp_client option \<times> world"
    using that unchanged_result [OF map_tools_keeps_project]
    by (cases st1) (auto simp: with_local_run map_tool_policy_def split: prod.splits)
  have client: "snd st1 = snd st \<and> (fst st = None \<and> oc_gateway A = [] \<longrightarrow> \<not> here)"
    if "on_client (task (ensure_client E P A)) st = Some (Inr here, st1)" for here st1
    using that on_client_world [OF that] by (cases st) (auto simp: on_client_def task_def ensure_client_def)
  from assms show ?thesis
    unfolding openclaw_spawn_def bindt_Some [of "on_client (task (ensure_client E P A))"]
  proof (elim disjE exE conjE)
    fix here st1
    assume first: "on_client (task (ensure_client E P A)) st = Some (Inr here, st1)"
      and rest: "(if \<not> here then task (ret (Some (openclaw_unavailable, new_openclaw_session\<lparr>os_phase := OcDone\<rparr>)))
        else let allowed = filter (\<lambda>t. t \<in> set tools) (ap_allowed_tools p) in
       bindt (task (with_local (map_tool_policy E (oc_profile A) (oc_actor A) allowed))) (\<lambda>pol.
       let cfg = build_openclaw_session_config A p (op_allowlist pol) [] in
       bindt (on_client (with_open (task (asks cl_session_id)))) (\<lambda>csid. let sid = py_or csid (JStr aggregate_id) in
       task (ret (Some (Event SessionStarted [(''persona'', JStr (ap_name p)), (''model'', JStr (sc_model cfg)), (''kernel'', JStr ''openclaw''),
           (''session_id'', sid), (''agent'', JStr (sc_agent_name cfg)), (''client_tools'', JArr (map JStr allowed)),
           (''tool_mismatches'', JArr (map JStr (op_mismatches pol)))], \<lparr>os_id = sid, os_phase = OcPrompting\<rparr>)))))) st1 = Some (Inr x, st')"
    show ?thesis
    proof (cases here)
      case False
      with rest client [OF first] failed show ?thesis by (auto simp: ret_run)
    next
      case True
      from rest True obtain pol st2 csid where pol: "with_local (map_tool_policy E (oc_profile A) (oc_actor A)
          (filter (\<lambda>t. t \<in> set tools) (ap_allowed_tools p))) st1 = (Inr pol, st2)"
        and sid: "on_client (with_open (task (asks cl_session_id))) st2 = Some (Inr csid, st')"
        and x: "\<exists>y i. x = Some (Event SessionStarted y, \<lparr>os_id = i, os_phase = OcPrompting\<rparr>)"
        by (auto simp: Let_def bindt_Some ret_run)
      with client [OF first] policy [OF pol] on_client_world [OF sid] True started show ?thesis by auto
    qed
  qed simp
qed

lemma openclaw_step_streams:
  assumes "openclaw_step E P A p ctx tools aggregate_id s sent st = Some (r, st')" and "os_phase s \<noteq> OcDone" and "os_phase s \<noteq> OcNew"
  shows "(\<exists>request. (\<forall>r st'. request st = Some (r, st') \<longrightarrow> snd st' = snd st) \<and> openclaw_stream E P A s request st = Some (r, st')) \<or>
    (\<exists>m. r = Inl (RuntimeError m))"
proof (cases "os_phase s")
  case OcPrompting
  with assms(1) have "openclaw_stream E P A s (on_client (with_open (task (start_prompt P ctx (os_id s))))) st = Some (r, st')"
    by (simp add: openclaw_step_def)
  then show ?thesis by (blast dest: on_client_world)
next
  case (OcStreaming n)
  with assms(1) have "openclaw_stream E P A s (task (ret n)) st = Some (r, st')" by (simp add: openclaw_step_def)
  moreover have "\<forall>r st'. task (ret n) st = Some (r, st') \<longrightarrow> snd st' = snd st" by (simp add: ret_run)
  ultimately show ?thesis by blast
next
  case (OcDeciding n)
  show ?thesis
  proof (cases sent)
    case None
    with assms(1) OcDeciding show ?thesis by (auto simp: openclaw_step_def throw_run)
  next
    case (Some res)
    with assms(1) OcDeciding have "openclaw_stream E P A s (task (ret n)) st = Some (r, st')" by (simp add: openclaw_step_def)
    moreover have "\<forall>r st'. task (ret n) st = Some (r, st') \<longrightarrow> snd st' = snd st" by (simp add: ret_run)
    ultimately show ?thesis by blast
  qed
qed (use assms in simp_all)

lemma openclaw_step_result:
  assumes "openclaw_step E P A p ctx tools aggregate_id s sent st = Some (Inr x, st')" and "os_phase s \<noteq> OcDone"
  shows "project_state (snd st') = project_state (snd st) \<and> (\<exists>ev s'. x = Some (ev, s') \<and> phased ev s' \<and>
    (if os_phase s \<noteq> OcNew then \<not> starts_session ev
     else if fst st = None \<and> oc_gateway A = [] then ev = openclaw_unavailable else ev = openclaw_unavailable \<or> starts_session ev))"
proof (cases "os_phase s = OcNew")
  case True
  with assms(1) have "openclaw_spawn E P A p tools aggregate_id st = Some (Inr x, st')" by (simp add: openclaw_step_def)
  from openclaw_spawn_result [OF this] True show ?thesis by simp
next
  case False
  from openclaw_step_streams [OF assms False] show ?thesis
  proof (elim disjE exE conjE)
    fix request
    assume keeps: "\<forall>r st'. request st = Some (r, st') \<longrightarrow> snd st' = snd st" and run: "openclaw_stream E P A s request st = Some (Inr x, st')"
    from keeps openclaw_stream_result [OF run] False show ?thesis by auto
  qed simp
qed

lemma openclaw_errors_are_events:
  assumes "openclaw_step E P A p ctx tools aggregate_id s sent st = Some (Inl e, st')" and "os_phase s \<noteq> OcNew"
  shows "e \<noteq> ACPClientError m"
proof (cases "os_phase s = OcDone")
  case True
  with assms(1) show ?thesis by (simp add: openclaw_step_def ret_run)
next
  case False
  from openclaw_step_streams [OF assms(1) False assms(2)] show ?thesis
  proof (elim disjE exE conjE)
    fix request
    assume keeps: "\<forall>r st'. request st = Some (r, st') \<longrightarrow> snd st' = snd st" and run: "openclaw_stream E P A s request st = Some (Inl e, st')"
    from openclaw_stream_result [OF run] keeps show ?thesis by blast
  qed simp
qed

text \<open>The events of a session are in order: what starts it is first, what ends it is last.\<close>

definition events_in_order :: "openclaw \<Rightarrow> 'p acp_client option \<Rightarrow> kernel_event list \<Rightarrow> bool" where
  "events_in_order A c evs \<longleftrightarrow> evs = [] \<or> (list_all (\<lambda>ev. \<not> final_event ev) (butlast evs) \<and> list_all (\<lambda>ev. \<not> starts_session ev) (tl evs) \<and>
     (if c = None \<and> oc_gateway A = [] then evs = [openclaw_unavailable] else evs = [openclaw_unavailable] \<or> starts_session (hd evs)))"

lemma openclaw_run_ok:
  assumes "openclaw_run E P A p ctx tools aggregate_id st0 s st evs"
  shows "project_state (snd st) = project_state (snd st0) \<and> events_in_order A (fst st0) evs \<and>
    (if evs = [] then s = new_openclaw_session \<and> st = st0 else phased (last evs) s)"
  using assms
proof induction
  case Begins
  then show ?case by (simp add: events_in_order_def)
next
  case (Resumes s st evs sent ev s' st')
  show ?case
  proof (cases "os_phase s = OcDone")
    case True
    with Resumes.hyps(2) show ?thesis by (simp add: openclaw_step_def ret_run)
  next
    case False
    from openclaw_step_result [OF Resumes.hyps(2) False] have step: "project_state (snd st') = project_state (snd st)" "phased ev s'"
      "if os_phase s \<noteq> OcNew then \<not> starts_session ev
       else if fst st = None \<and> oc_gateway A = [] then ev = openclaw_unavailable else ev = openclaw_unavailable \<or> starts_session ev" by auto
    show ?thesis
    proof (cases "evs = []")
      case True
      with step Resumes.IH show ?thesis by (simp add: events_in_order_def new_openclaw_session_def split: if_splits)
    next
      case ne: False
      with Resumes.IH have last: "phased (last evs) s" and ord: "events_in_order A (fst st0) evs" by simp_all
      with False have go: "os_phase s \<noteq> OcNew" "\<not> final_event (last evs)" by (simp_all add: phased_def)
      have un: "final_event openclaw_unavailable" by (simp add: final_event_def openclaw_unavailable_def)
      with go have "evs \<noteq> [openclaw_unavailable]" by auto
      with ord ne have old: "list_all (\<lambda>ev. \<not> final_event ev) (butlast evs)" "list_all (\<lambda>ev. \<not> starts_session ev) (tl evs)"
        "\<not> (fst st0 = None \<and> oc_gateway A = [])" "starts_session (hd evs)" by (auto simp: events_in_order_def split: if_splits)
      have "list_all (\<lambda>ev. \<not> final_event ev) (butlast evs @ [last evs])" using old(1) go(2) by simp
      then have "list_all (\<lambda>ev. \<not> final_event ev) evs" using ne by simp
      then have "events_in_order A (fst st0) (evs @ [ev])" using old step(3) go(1) ne by (simp add: events_in_order_def)
      with step Resumes.IH show ?thesis by simp
    qed
  qed
qed

section \<open>Properties\<close>

text \<open>C34: OpenClaw's memory cannot name what is Forge's own. Syncing its insights back only appends to the insights'
  file; when it ends without an error it appends, in their order, exactly the insights whose target is not refused. And
  a text that is written as a target leads, walked from the project's directory, to a place in the project that
  is none of the protected files, however the path was spelled.\<close>

theorem insights_never_name_protected_files:
  assumes "sync_insights_back E insights ls = (r, ls')"
  shows "\<exists>new. ls' = ls @ new \<and> set new \<subseteq> set insights \<and>
    (\<forall>m t. JObj m \<in> set new \<and> field m ''target'' JNull = JStr t \<and> strip t \<noteq> [] \<longrightarrow>
      (\<exists>st. leads_to t = Some st \<and> \<not> protected_name (join ''/'' st))) \<and>
    (\<forall>ids. r = Inr ids \<longrightarrow> length ids = length new \<and> new = filter insight_kept insights)"
proof -
  have safe: "\<exists>st. leads_to t = Some st \<and> \<not> protected_name (join ''/'' st)" if "\<not> refused_target (JStr t)" "strip t \<noteq> []" for t
    using that protected_where_it_leads [of t] by (cases "leads_to t") (auto simp: refused_target_def canonical_leads_to)
  from sync_insights_run [OF assms] obtain new where new: "ls' = ls @ new" "\<forall>i\<in>set new. i \<in> set insights \<and> insight_kept i"
    "\<forall>ids. r = Inr ids \<longrightarrow> length ids = length new \<and> new = filter insight_kept insights" by blast
  have "\<exists>st. leads_to t = Some st \<and> \<not> protected_name (join ''/'' st)"
    if "JObj m \<in> set new" "field m ''target'' JNull = JStr t" "strip t \<noteq> []" for m t
    using new(2) that safe [of t] by (force simp: insight_kept_def)
  with new show ?thesis by (intro exI [of _ new]) blast
qed

lemma insights_never_name_protected_files_witness:
  "snd (sync_insights_back demo_env [JObj [(''target'', JStr ''notes/../.forge//config.yaml''), (''id'', JStr ''a'')],
      JObj [(''target'', JStr ''notes/b.md''), (''id'', JStr ''b'')]] []) = [JObj [(''target'', JStr ''notes/b.md''), (''id'', JStr ''b'')]]"
proof -
  let ?a = "JObj [(''target'', JStr ''notes/../.forge//config.yaml''), (''id'', JStr ''a'')]"
  let ?b = "JObj [(''target'', JStr ''notes/b.md''), (''id'', JStr ''b'')]"
  obtain r ls where run: "sync_insights_back demo_env [?a, ?b] [] = (r, ls)" by fastforce
  have "fst (sync_insights_back demo_env [?a, ?b] []) = Inr [''b'']" by code_simp
  with run have r: "r = Inr [''b'']" by simp
  have kept: "filter insight_kept [?a, ?b] = [?b]" by code_simp
  from insights_never_name_protected_files [OF run] r have "ls = filter insight_kept [?a, ?b]" by auto
  with run kept show ?thesis by simp
qed

text \<open>C35: A session over OpenClaw never harms the project, and its failures are events. In every run nothing of the
  world changes but the clock, the supply of ids, the number of writes and the audit log. The events are in order:
  a session opens with its start, unless the gateway is unavailable, which is then the only event (and always
  so without a client and a gateway), and nothing follows a completion or a failure, after which
  the generator is over. Resuming it without the caller's result after a proposal is an error, and once it has
  begun no error of the client escapes it.\<close>

theorem openclaw_sessions_leave_the_project:
  assumes "openclaw_run E P A p ctx tools aggregate_id st0 s st evs"
  shows "project_state (snd st) = project_state (snd st0) \<and> events_in_order A (fst st0) evs \<and>
    (evs \<noteq> [] \<and> final_event (last evs) \<longrightarrow> openclaw_step E P A p ctx tools aggregate_id s sent st = Some (Inr None, st)) \<and>
    (evs \<noteq> [] \<and> last evs = Proposal q \<longrightarrow> (\<exists>m. openclaw_step E P A p ctx tools aggregate_id s None st = Some (Inl (RuntimeError m), st))) \<and>
    (evs \<noteq> [] \<longrightarrow> openclaw_step E P A p ctx tools aggregate_id s sent st \<noteq> Some (Inl (ACPClientError m), st'))"
proof -
  note ok = openclaw_run_ok [OF assms]
  have "openclaw_step E P A p ctx tools aggregate_id s sent st = Some (Inr None, st)" if "evs \<noteq> []" "final_event (last evs)"
    using ok that by (simp add: phased_def openclaw_step_def task_def ret_run)
  moreover have "\<exists>m. openclaw_step E P A p ctx tools aggregate_id s None st = Some (Inl (RuntimeError m), st)" if "evs \<noteq> []" "last evs = Proposal q"
    using ok that by (auto simp: phased_def openclaw_step_def task_def throw_run)
  moreover have "openclaw_step E P A p ctx tools aggregate_id s sent st \<noteq> Some (Inl (ACPClientError m), st')" if "evs \<noteq> []"
    using ok that openclaw_errors_are_events [of E P A p ctx tools aggregate_id s sent st "ACPClientError m" st' m]
    by (auto simp: phased_def)
  ultimately show ?thesis using ok by blast
qed

text \<open>A session in which the agent asks for a tool and then answers\<close>

definition demo_openclaw :: openclaw where
  "demo_openclaw = \<lparr>oc_gateway = [''openclaw''], oc_timeout = ''30.0'', oc_profile = None, oc_actor = [],
     oc_dumps_indented = (\<lambda>_. ''{}''), oc_repr_exn = (\<lambda>_. ''error'')\<rparr>"

definition openclaw_messages :: "json list" where
  "openclaw_messages = [JObj [(''method'', JStr ''session/update''), (''params'', JObj [(''type'', JStr ''tool''), (''kind'', JStr ''shell'')])],
     JObj [(''id'', JInt 1), (''result'', JStr ''z'')]]"

definition openclaw_client :: "int \<Rightarrow> json list \<Rightarrow> json list acp_client" where
  "openclaw_client n ms = (new_client [''openclaw''])\<lparr>cl_process := Some \<lparr>pr_peer = ms, pr_buffer = []\<rparr>, cl_session_id := JStr ''s'', cl_msg_id := n\<rparr>"

lemma openclaw_sessions_leave_the_project_witness:
  "\<exists>a b s w. openclaw_run demo_env telegraph demo_openclaw (agent_def_to_persona demo_persona) ''hi'' [] ''run'' (Some (openclaw_client 0 openclaw_messages), empty_world)
      s (Some (openclaw_client 1 []), w) [Event SessionStarted a, Proposal b, Event AgentCompleted [(''session_id'', JStr ''s'')]] \<and>
     project_state w = project_state empty_world \<and>
     openclaw_step demo_env telegraph demo_openclaw (agent_def_to_persona demo_persona) ''hi'' [] ''run'' s None (Some (openclaw_client 1 []), w) =
       Some (Inr None, (Some (openclaw_client 1 []), w))"
proof -
  let ?run = "openclaw_run demo_env telegraph demo_openclaw (agent_def_to_persona demo_persona) ''hi'' [] ''run'' (Some (openclaw_client 0 openclaw_messages), empty_world)"
  let ?step = "openclaw_step demo_env telegraph demo_openclaw (agent_def_to_persona demo_persona) ''hi'' [] ''run''"
  let ?s = "\<lambda>ph. \<lparr>os_id = JStr ''s'', os_phase = ph\<rparr>"
  let ?st = "\<lambda>n k. (Some (openclaw_client n (drop k openclaw_messages)), empty_world)"
  have or_s: "py_or (JStr ''s'') y = JStr ''s''" for y by (simp add: py_or_def truthy_def)
  have "\<exists>a. ?step new_openclaw_session None (?st 0 0) = Some (Inr (Some (Event SessionStarted a, ?s OcPrompting)), ?st 0 0)"
    by (simp add: openclaw_step_def new_openclaw_session_def openclaw_spawn_def task_defs prog_simps ensure_client_def
        map_tool_policy_def with_open_def openclaw_client_def or_s Let_def)
  then obtain a where first: "?step new_openclaw_session None (?st 0 0) = Some (Inr (Some (Event SessionStarted a, ?s OcPrompting)), ?st 0 0)" by blast
  have next1: "next_update demo_env telegraph 1 (openclaw_client 1 openclaw_messages) =
      Some (Inr (Some (JObj [(''type'', JStr ''tool''), (''kind'', JStr ''shell'')])), openclaw_client 1 (drop 1 openclaw_messages))"
    by (subst next_update.simps) (simp add: openclaw_client_def openclaw_messages_def receive_def readline_def telegraph_def
        classify_object is_update_def field_def dict_get_def)
  have next2: "next_update demo_env telegraph 1 (openclaw_client 1 (drop 1 openclaw_messages)) = Some (Inr None, openclaw_client 1 [])"
    by (subst next_update.simps) (simp add: openclaw_client_def openclaw_messages_def receive_def readline_def telegraph_def
        classify_object is_update_def answers_def equals_int_def check_error_def field_def dict_get_def)
  have "start_prompt telegraph ''hi'' (JStr ''s'') (openclaw_client 0 openclaw_messages) = (Inr 1, openclaw_client 1 openclaw_messages)"
    by (simp add: start_prompt_def prog_simps or_s build_request_def send_def telegraph_def openclaw_client_def Let_def)
  moreover have "\<exists>b. translate_update demo_env (JObj [(''type'', JStr ''tool''), (''kind'', JStr ''shell'')]) = Some (Proposal b)"
    by (simp add: translate_update_def field_def dict_get_def py_or_def truthy_def Let_def)
  ultimately obtain b where second: "?step (?s OcPrompting) None (?st 0 0) = Some (Inr (Some (Proposal b, ?s (OcDeciding 1))), ?st 1 1)"
    using next1 by (auto simp: openclaw_step_def openclaw_stream_def task_defs with_open_def openclaw_pull.simps after_event_def)
  have third: "?step (?s (OcDeciding 1)) (Some r) (?st 1 1) = Some (Inr (Some (Event AgentCompleted [(''session_id'', JStr ''s'')], ?s OcDone)),
      (Some (openclaw_client 1 []), empty_world))" for r
    using next2 by (subst openclaw_step_def) (simp add: openclaw_stream_def task_defs ret_run with_open_def openclaw_pull.simps)
  have "?run new_openclaw_session (?st 0 0) []" using openclaw_run.Begins by simp
  from openclaw_run.Resumes [OF openclaw_run.Resumes [OF openclaw_run.Resumes [OF this first] second] third]
  have run: "?run (?s OcDone) (Some (openclaw_client 1 []), empty_world)
      [Event SessionStarted a, Proposal b, Event AgentCompleted [(''session_id'', JStr ''s'')]]" by simp
  from openclaw_sessions_leave_the_project [OF run, of None] run show ?thesis
    by (intro exI conjI) (auto simp: final_event_def)
qed

end
