(* ===== verification/ClaudeSdk.thy ===== *)
theory ClaudeSdk imports ClaudeRaw begin

text \<open>
  The kernel adapter over the Claude Agent SDK, \<open>adapters/claude_sdk/adapter.py\<close>: the proxies of Forge's tools,
  the driver of the SDK and the generator, which run as tasks of one event loop and speak over two queues.
  A system's state has the queues and where each task is; a step relation interleaves what
  the tasks do between two suspensions, as the event loop of Python 3.12 and later runs them (a read of a queue that
  is not empty does not suspend, so it cannot time out). The SDK is a parameter only by what it does:
  the messages it gives, the calls of its proxies, its end or its error. What time limits there are may pass at any
  time. A message is what the adapter reads of it; the attributes of a message and of a block
  are given as JSON. Nothing is said of a system whose generator has ended.
\<close>

section \<open>The tools\<close>

text \<open>A Python type as the schema of a property, by its name\<close>

definition sdk_tool :: "string \<Rightarrow> (string \<times> string) list \<Rightarrow> json_obj" where
  "sdk_tool description schema = [(''description'', JStr description), (''input_schema'', JObj (map (map_prod id JStr) schema))]"

definition sdk_abstract_tools :: "(string, json_obj) dict" where
  "sdk_abstract_tools = [
     (''Read'', sdk_tool ''Read the contents of a file from the workspace.'' [(''path'', ''str'')]),
     (''Write'', sdk_tool ''Write content to a file in the workspace (proposes a Write event).''
        [(''path'', ''str''), (''content'', ''str'')]),
     (''Edit'', sdk_tool ''Edit an existing file by find/replace (proposes an Edit event).''
        [(''path'', ''str''), (''old_str'', ''str''), (''new_str'', ''str'')]),
     (''Bash'', sdk_tool ''Execute a shell command inside the Forge sandbox.'' [(''command'', ''str''), (''timeout_s'', ''int'')]),
     (''Grep'', sdk_tool ''Search file contents using ripgrep.'' [(''pattern'', ''str''), (''path'', ''str'')]),
     (''Glob'', sdk_tool ''Match files by pattern.'' [(''pattern'', ''str''), (''path'', ''str'')]),
     (''WebFetch'', sdk_tool (''Fetch a URL through Forge'' @ [CHR 0x27] @ ''s outbound proxy.'') [(''url'', ''str''), (''prompt'', ''str'')]),
     (''ProposeEvent'', sdk_tool ''Commit a domain event to the Forge event store. The Validator decides whether the event is accepted.''
        [(''event_type'', ''str''), (''payload'', ''dict'')])]"

definition proxied :: "string list \<Rightarrow> string list" where
  "proxied abstract_tools = filter (\<lambda>t. t \<in> fst ` set sdk_abstract_tools) abstract_tools"

definition proxy_wire_names :: "string list \<Rightarrow> string list" where
  "proxy_wire_names abstract_tools = map (\<lambda>t. ''mcp__forge-proxy__'' @ lower t) (proxied abstract_tools)"

definition claude_sdk_capabilities :: kernel_capabilities where
  "claude_sdk_capabilities = \<lparr>kc_kernel_id = ''claude_sdk'', kc_streaming = True, kc_deterministic_output = False,
     kc_extended_thinking = True, kc_prompt_caching = True, kc_vision = True, kc_batch_api = False, kc_hooks_native = True,
     kc_subagents_native = True, kc_mcp_remote = True, kc_mcp_local_stdio = True, kc_client_tools = map fst sdk_abstract_tools,
     kc_server_tools = [], kc_max_context_tokens = 200000\<rparr>"

section \<open>The options\<close>

record claude_sdk =
  sa_default_model :: string
  sa_tool_timeout :: string

definition sdk_system_prompt :: "env \<Rightarrow> agent_persona \<Rightarrow> string" where
  "sdk_system_prompt E p = (let q = [char_of (96::nat)] in
     ''# Role'' @ nl @ ap_role p @ nl @ nl @ ''# Goal'' @ nl @ ap_goal p @ nl @ nl @
     ''# Constraints'' @ nl @ bullet_lines (ap_constraints p) @ nl @ nl @
     ''# Output contract'' @ nl @ str_of E (JObj (ap_output_contract p)) @ nl @ nl @
     ''# Operating principles'' @ nl @
     ''- You are running inside Forge OS via the Claude Agent SDK. Your'' @ nl @
     ''  outputs are PROPOSALS; the Validator may reject any of them.'' @ nl @
     ''- Use the '' @ q @ ''mcp__forge-proxy__*'' @ q @ '' tools for ALL side effects. The'' @ nl @
     ''  built-in Read/Write/Bash tools are intentionally disabled.'' @ nl @
     ''- Use '' @ q @ ''propose_event'' @ q @ '' to commit any domain event.'' @ nl @
     ''- Never assume a tool succeeded until you see its tool_result.'' @ nl @
     ''- Do not invent file paths or APIs. Verify via '' @ q @ ''read'' @ q @ '' first.'' @ nl)"

definition sdk_model :: "claude_sdk \<Rightarrow> agent_persona \<Rightarrow> string" where
  "sdk_model A p = (if ap_preferred_model p = [] then sa_default_model A else ap_preferred_model p)"

definition build_options :: "env \<Rightarrow> claude_sdk \<Rightarrow> agent_persona \<Rightarrow> string list \<Rightarrow> json \<Rightarrow> json_obj" where
  "build_options E A p wire server = (let
       base = [(''model'', JStr (sdk_model A p)), (''system_prompt'', JStr (sdk_system_prompt E p)), (''max_turns'', JInt 50),
         (''permission_mode'', JStr ''bypassPermissions''), (''allowed_tools'', JArr (map JStr wire)),
         (''mcp_servers'', JObj [(''forge-proxy'', server)]), (''setting_sources'', JArr (map JStr (ap_setting_sources p)))];
       k1 = (if ap_enable_skills p \<and> ap_setting_sources p \<noteq> [] then dict_set ''skills'' (JStr ''all'') base else base) in
     case ap_thinking_budget_tokens p of
       Some n \<Rightarrow> if n = 0 then k1 else dict_set ''extra_args'' (JObj [(''thinking'',
         JObj [(''type'', JStr ''enabled''), (''budget_tokens'', JInt n)])]) k1
     | None \<Rightarrow> k1)"

text \<open>A persona file's document gives the fields of a persona as they stand, unchecked.\<close>

definition load_persona_from_yaml :: "json \<Rightarrow> exn + json_obj" where
  "load_persona_from_yaml raw = bindr (json_get raw ''kernel_overrides'' (JObj [])) (\<lambda>overrides.
     bindr (json_item raw ''name'') (\<lambda>name. bindr (json_item raw ''role'') (\<lambda>role. bindr (json_item raw ''goal'') (\<lambda>goal.
     bindr (mapr (\<lambda>(k, d). bindr (json_get raw k d) (\<lambda>v. Inr (k, v))) [(''constraints'', JArr []), (''allowed_tools'', JArr []),
       (''allowed_server_tools'', JArr []), (''output_contract'', JObj [])]) (\<lambda>fields.
     bindr (mapr (\<lambda>(k, d). bindr (json_get overrides k d) (\<lambda>v. Inr (k, v))) [(''preferred_model'', JStr ''claude-opus-4-7''),
       (''max_tokens'', JInt 4096), (''temperature'', JFloat 0), (''thinking_budget_tokens'', JNull), (''setting_sources'', JArr []),
       (''enable_skills'', JBool False)]) (\<lambda>knobs.
     Inr ([(''name'', name), (''role'', role), (''goal'', goal)] @ fields @ knobs)))))))"

section \<open>The state\<close>

datatype sdk_item = Item kernel_event | Sentinel

datatype sdk_driver = DriverIdle | Driving | Leaving | DriverDone

datatype sdk_consumer = SdkNew | Fetching | Held kernel_event | Ended "exn option"

text \<open>A call of a proxy that has no answer yet, and whether it waits on the empty queue.\<close>

record sdk_proxy =
  px_id :: string
  px_tool :: string
  px_blocked :: bool

record sdk_state =
  qs_events :: "sdk_item list"
  qs_results :: "tool_result list"
  qs_waiting :: "sdk_proxy list"
  qs_returned :: "(string \<times> json) list"
  qs_driver :: sdk_driver
  qs_consumer :: sdk_consumer
  qs_uuids :: nat

definition new_sdk_state :: "nat \<Rightarrow> sdk_state" where
  "new_sdk_state n = \<lparr>qs_events = [], qs_results = [], qs_waiting = [], qs_returned = [], qs_driver = DriverIdle,
     qs_consumer = SdkNew, qs_uuids = n\<rparr>"

section \<open>The proxies\<close>

definition proxy_call :: "env \<Rightarrow> string \<Rightarrow> json \<Rightarrow> sdk_state \<Rightarrow> tool_proposal \<times> sdk_state" where
  "proxy_call E tool args s = (let i = ''sdk-'' @ take 12 (uuid_hex_at E (qs_uuids s));
       q = \<lparr>tu_id = i, tu_name = ''mcp__forge__'' @ lower tool, tu_abstract = tool, tu_inputs = args,
         tu_payload = [(''abstract_tool'', JStr tool), (''inputs'', args)]\<rparr> in
     (q, s\<lparr>qs_uuids := Suc (qs_uuids s), qs_events := qs_events s @ [Item (Proposal q)],
        qs_waiting := qs_waiting s @ [\<lparr>px_id = i, px_tool = tool, px_blocked = False\<rparr>]\<rparr>))"

definition text_blocks :: "string \<Rightarrow> json" where
  "text_blocks t = JArr [JObj [(''type'', JStr ''text''), (''text'', JStr t)]]"

definition proxy_response :: "tool_result \<Rightarrow> json" where
  "proxy_response r = JObj [(''content'', case tr_content r of JStr t \<Rightarrow> text_blocks t | c \<Rightarrow> c), (''is_error'', JBool (tr_is_error r))]"

definition timed_out_response :: "claude_sdk \<Rightarrow> string \<Rightarrow> json" where
  "timed_out_response A tool = JObj [(''content'', text_blocks (''[forge] Tool '' @ py_repr tool @ '' timed out after '' @
     sa_tool_timeout A @ ''s waiting for Validator/Executor.'')), (''is_error'', JBool True)]"

text \<open>Reading a result: its own answers the call, another's is put back at the end.\<close>

definition proxy_take :: "sdk_proxy \<Rightarrow> tool_result \<Rightarrow> tool_result list \<Rightarrow> sdk_state \<Rightarrow> sdk_state" where
  "proxy_take x r rs s = (if tr_tool_use_id r = px_id x
     then s\<lparr>qs_results := rs, qs_waiting := remove1 x (qs_waiting s), qs_returned := qs_returned s @ [(px_id x, proxy_response r)]\<rparr>
     else s\<lparr>qs_results := rs @ [r], qs_waiting := remove1 x (qs_waiting s) @ [x\<lparr>px_blocked := False\<rparr>]\<rparr>)"

definition proxy_block :: "sdk_proxy \<Rightarrow> sdk_state \<Rightarrow> sdk_state" where
  "proxy_block x s = s\<lparr>qs_waiting := remove1 x (qs_waiting s) @ [x\<lparr>px_blocked := True\<rparr>]\<rparr>"

definition proxy_expire :: "claude_sdk \<Rightarrow> sdk_proxy \<Rightarrow> sdk_state \<Rightarrow> sdk_state" where
  "proxy_expire A x s = s\<lparr>qs_waiting := remove1 x (qs_waiting s), qs_returned := qs_returned s @ [(px_id x, timed_out_response A (px_tool x))]\<rparr>"

section \<open>The driver\<close>

datatype sdk_block = ObjBlock json_obj | DictBlock json_obj

record sdk_message =
  sm_class :: string
  sm_content :: "sdk_block list"
  sm_attrs :: json_obj

definition block_attr :: "string \<Rightarrow> json \<Rightarrow> sdk_block \<Rightarrow> json" where
  "block_attr k d b = (case b of
       ObjBlock attrs \<Rightarrow> let v = field attrs k JNull in if truthy v then v else d
     | DictBlock m \<Rightarrow> field m k d)"

definition block_events :: "sdk_block \<Rightarrow> kernel_event list" where
  "block_events b = (let ty = block_attr ''type'' JNull b in
     if ty = JStr ''text'' then [Event TextDelta [(''text'', block_attr ''text'' (JStr []) b)]]
     else if ty = JStr ''thinking'' then [Event ThinkingDelta [(''text'', block_attr ''thinking'' (JStr []) b)]]
     else [])"

definition sdk_result_event :: "sdk_message \<Rightarrow> kernel_event" where
  "sdk_result_event m = Event (if field (sm_attrs m) ''subtype'' (JStr ''success'') = JStr ''success'' then AgentCompleted else AgentFailed)
     (map (\<lambda>k. (k, field (sm_attrs m) k JNull)) [''result'', ''usage'', ''total_cost_usd'', ''duration_ms'', ''session_id'', ''num_turns''])"

text \<open>What a message puts on the queue, and whether it is the last: then the client is left, which ends the driver.\<close>

definition message_items :: "sdk_message \<Rightarrow> sdk_item list" where
  "message_items m = (if sm_class m = ''AssistantMessage'' then map Item (concat (map block_events (sm_content m)))
     else if sm_class m = ''ResultMessage'' then [Item (sdk_result_event m)] else [])"

definition last_message :: "sdk_message \<Rightarrow> bool" where
  "last_message m \<longleftrightarrow> sm_class m = ''ResultMessage''"

definition driver_hears :: "sdk_message \<Rightarrow> sdk_state \<Rightarrow> sdk_state" where
  "driver_hears m s = s\<lparr>qs_events := qs_events s @ message_items m, qs_driver := (if last_message m then Leaving else qs_driver s)\<rparr>"

definition broken_items :: "string \<Rightarrow> sdk_item list" where
  "broken_items e = [Item (Event AgentFailed [(''error'', JStr e)]), Sentinel]"

definition driver_ends :: "sdk_item list \<Rightarrow> sdk_state \<Rightarrow> sdk_state" where
  "driver_ends items s = s\<lparr>qs_events := qs_events s @ items, qs_driver := DriverDone\<rparr>"

section \<open>The generator\<close>

definition sdk_started :: "claude_sdk \<Rightarrow> agent_persona \<Rightarrow> string list \<Rightarrow> kernel_event" where
  "sdk_started A p tools = Event SessionStarted [(''persona'', JStr (ap_name p)), (''model'', JStr (sdk_model A p)),
     (''kernel'', JStr ''claude_sdk''), (''client_tools'', JArr (map JStr (client_abstract p tools))),
     (''setting_sources'', JArr (map JStr (ap_setting_sources p)))]"

definition sdk_fetch :: "sdk_item \<Rightarrow> sdk_item list \<Rightarrow> sdk_state \<Rightarrow> sdk_state" where
  "sdk_fetch x xs s = s\<lparr>qs_events := xs, qs_consumer := (case x of Sentinel \<Rightarrow> Ended None | Item ev \<Rightarrow> Held ev)\<rparr>"

text \<open>Going on after an event with what the caller sent; the first time starts the driver.\<close>

definition sdk_resume :: "kernel_event \<Rightarrow> tool_result option \<Rightarrow> sdk_state \<Rightarrow> sdk_state" where
  "sdk_resume ev sent s = (if qs_driver s = DriverIdle then s\<lparr>qs_driver := Driving, qs_consumer := Fetching\<rparr>
     else case ev of Event _ _ \<Rightarrow> s\<lparr>qs_consumer := Fetching\<rparr>
       | Proposal _ \<Rightarrow> (case sent of
             None \<Rightarrow> s\<lparr>qs_consumer := Ended (Some (RuntimeError
               ''spawn_agent: caller must asend(ToolResult) after a ToolUseProposal, got NoneType''))\<rparr>
           | Some r \<Rightarrow> s\<lparr>qs_results := qs_results s @ [r], qs_consumer := Fetching\<rparr>))"

section \<open>The system\<close>

datatype sdk_action = Opens kernel_event | Gets sdk_item | Resumes kernel_event "tool_result option" | Overdue
  | Hears sdk_message | Breaks string | Closes
  | Calls tool_proposal | Takes sdk_proxy tool_result | Blocks sdk_proxy | Expires sdk_proxy

definition ended :: "sdk_state \<Rightarrow> bool" where
  "ended s \<longleftrightarrow> (case qs_consumer s of Ended _ \<Rightarrow> True | _ \<Rightarrow> False)"

definition in_client :: "sdk_state \<Rightarrow> bool" where
  "in_client s \<longleftrightarrow> qs_driver s \<in> {Driving, Leaving}"

inductive sdk_step :: "env \<Rightarrow> claude_sdk \<Rightarrow> agent_persona \<Rightarrow> string list \<Rightarrow> sdk_state \<Rightarrow> sdk_action \<Rightarrow> sdk_state \<Rightarrow> bool"
  for E A p tools where
  Open: "qs_consumer s = SdkNew \<Longrightarrow> sdk_step E A p tools s (Opens (sdk_started A p tools)) (s\<lparr>qs_consumer := Held (sdk_started A p tools)\<rparr>)"
| Fetch: "qs_consumer s = Fetching \<Longrightarrow> qs_events s = x # xs \<Longrightarrow> sdk_step E A p tools s (Gets x) (sdk_fetch x xs s)"
| Resume: "qs_consumer s = Held ev \<Longrightarrow> sdk_step E A p tools s (Resumes ev sent) (sdk_resume ev sent s)"
| Overdue: "qs_consumer s = Fetching \<Longrightarrow> sdk_step E A p tools s Overdue (s\<lparr>qs_consumer := Ended (Some (OSError []))\<rparr>)"
| Hear: "\<not> ended s \<Longrightarrow> qs_driver s = Driving \<Longrightarrow> sdk_step E A p tools s (Hears m) (driver_hears m s)"
| Break: "\<not> ended s \<Longrightarrow> in_client s \<Longrightarrow> sdk_step E A p tools s (Breaks e) (driver_ends (broken_items e) s)"
| Close: "\<not> ended s \<Longrightarrow> in_client s \<Longrightarrow> sdk_step E A p tools s Closes (driver_ends [Sentinel] s)"
| Call: "\<not> ended s \<Longrightarrow> in_client s \<Longrightarrow> tool \<in> set (proxied (client_abstract p tools)) \<Longrightarrow> proxy_call E tool args s = (q, s') \<Longrightarrow>
    sdk_step E A p tools s (Calls q) s'"
| Take: "\<not> ended s \<Longrightarrow> x \<in> set (qs_waiting s) \<Longrightarrow> qs_results s = r # rs \<Longrightarrow> sdk_step E A p tools s (Takes x r) (proxy_take x r rs s)"
| Block: "\<not> ended s \<Longrightarrow> x \<in> set (qs_waiting s) \<Longrightarrow> \<not> px_blocked x \<Longrightarrow> qs_results s = [] \<Longrightarrow> sdk_step E A p tools s (Blocks x) (proxy_block x s)"
| Expire: "\<not> ended s \<Longrightarrow> x \<in> set (qs_waiting s) \<Longrightarrow> px_blocked x \<Longrightarrow> sdk_step E A p tools s (Expires x) (proxy_expire A x s)"

inductive sdk_path :: "env \<Rightarrow> claude_sdk \<Rightarrow> agent_persona \<Rightarrow> string list \<Rightarrow> sdk_state \<Rightarrow> sdk_action list \<Rightarrow> sdk_state \<Rightarrow> bool"
  for E A p tools s where
  Stays: "sdk_path E A p tools s [] s"
| Moves: "sdk_path E A p tools s tr s1 \<Longrightarrow> sdk_step E A p tools s1 a s2 \<Longrightarrow> sdk_path E A p tools s (tr @ [a]) s2"

inductive_cases sdk_path_snocE: "sdk_path E A p tools s (tr @ [a]) s2"
inductive_cases sdk_path_NilE: "sdk_path E A p tools s [] s2"

section \<open>What the actions of a run did\<close>

text \<open>What was put on the queue of events, and what was got from it; the results the caller sent, and those read as the
  answer of a call; the calls, and those that are over.\<close>

definition put_items :: "sdk_action \<Rightarrow> sdk_item list" where
  "put_items a = (case a of Hears m \<Rightarrow> message_items m | Breaks e \<Rightarrow> broken_items e | Closes \<Rightarrow> [Sentinel] | Calls q \<Rightarrow> [Item (Proposal q)] | _ \<Rightarrow> [])"

definition got_items :: "sdk_action \<Rightarrow> sdk_item list" where
  "got_items a = (case a of Gets x \<Rightarrow> [x] | _ \<Rightarrow> [])"

definition sent_results :: "sdk_action \<Rightarrow> tool_result list" where
  "sent_results a = (case a of Resumes (Proposal q) (Some r) \<Rightarrow> [r] | _ \<Rightarrow> [])"

definition used_results :: "sdk_action \<Rightarrow> (sdk_proxy \<times> tool_result) list" where
  "used_results a = (case a of Takes x r \<Rightarrow> if tr_tool_use_id r = px_id x then [(x, r)] else [] | _ \<Rightarrow> [])"

definition expired_calls :: "sdk_action \<Rightarrow> sdk_proxy list" where
  "expired_calls a = (case a of Expires x \<Rightarrow> [x] | _ \<Rightarrow> [])"

definition call_ids :: "sdk_action \<Rightarrow> string list" where
  "call_ids a = (case a of Calls q \<Rightarrow> [tu_id q] | _ \<Rightarrow> [])"

definition over_calls :: "sdk_action \<Rightarrow> sdk_proxy list" where
  "over_calls a = map fst (used_results a) @ expired_calls a"

lemmas action_defs = put_items_def got_items_def sent_results_def used_results_def expired_calls_def call_ids_def over_calls_def

abbreviation trace_of :: "('a \<Rightarrow> 'b list) \<Rightarrow> 'a list \<Rightarrow> 'b list" where
  "trace_of f tr \<equiv> concat (map f tr)"

lemmas step_defs = sdk_fetch_def sdk_resume_def driver_hears_def driver_ends_def proxy_call_def proxy_take_def proxy_block_def proxy_expire_def

lemma proxy_call_run: "proxy_call E tool args s = (q, s') \<Longrightarrow> qs_events s' = qs_events s @ [Item (Proposal q)] \<and> qs_results s' = qs_results s \<and>
    qs_waiting s' = qs_waiting s @ [\<lparr>px_id = tu_id q, px_tool = tool, px_blocked = False\<rparr>] \<and> qs_returned s' = qs_returned s \<and>
    qs_consumer s' = qs_consumer s \<and> qs_driver s' = qs_driver s"
  by (auto simp: proxy_call_def Let_def)

lemma remove1_ids: "x \<in> set xs \<Longrightarrow> add_mset (px_id x) (image_mset px_id (mset xs - {#x#})) = image_mset px_id (mset xs)"
  by (metis insert_DiffM image_mset_add_mset set_mset_mset)

text \<open>The driver is not started before the first event is out.\<close>

definition opened :: "sdk_state \<Rightarrow> bool" where
  "opened s \<longleftrightarrow> (qs_driver s = DriverIdle \<longrightarrow> qs_consumer s = SdkNew \<or> (\<exists>k x. qs_consumer s = Held (Event k x)))"

lemma step_opened: "sdk_step E A p tools s a s' \<Longrightarrow> opened s \<Longrightarrow> opened s'"
  by (induction rule: sdk_step.induct) (auto simp: opened_def step_defs sdk_started_def in_client_def Let_def
      split: kernel_event.splits option.splits sdk_item.splits)

definition balanced :: "claude_sdk \<Rightarrow> sdk_state \<Rightarrow> sdk_action list \<Rightarrow> sdk_state \<Rightarrow> bool" where
  "balanced A s tr s' \<longleftrightarrow> qs_events s @ trace_of put_items tr = trace_of got_items tr @ qs_events s' \<and>
     mset (qs_results s) + mset (trace_of sent_results tr) = mset (map snd (trace_of used_results tr)) + mset (qs_results s') \<and>
     mset (map px_id (qs_waiting s)) + mset (trace_of call_ids tr) =
       mset (map px_id (trace_of over_calls tr)) + mset (map px_id (qs_waiting s')) \<and>
     (\<forall>(x, r)\<in>set (trace_of used_results tr). px_id x = tr_tool_use_id r) \<and>
     mset (qs_returned s') = mset (qs_returned s) + mset (map (\<lambda>(x, r). (px_id x, proxy_response r)) (trace_of used_results tr)) +
       mset (map (\<lambda>x. (px_id x, timed_out_response A (px_tool x))) (trace_of expired_calls tr))"

lemma step_balanced:
  assumes "sdk_step E A p tools s a s'" and "opened s"
  shows "balanced A s [a] s'"
  using assms
proof (cases rule: sdk_step.cases)
  case (Resume ev sent)
  with assms(2) show ?thesis
    by (cases ev; cases sent) (auto simp: balanced_def action_defs step_defs opened_def)
next
  case (Call tool args q)
  from proxy_call_run [OF Call(5)] Call(1) show ?thesis by (simp add: balanced_def action_defs)
next
  case (Take x r rs)
  then show ?thesis by (auto simp: balanced_def action_defs step_defs remove1_ids)
qed (auto simp: balanced_def action_defs step_defs remove1_ids split: sdk_item.split)

lemma balance_chain: "(a :: 'b multiset) + b = c + d \<Longrightarrow> d + b' = c' + e \<Longrightarrow> a + (b + b') = c + c' + e"
  by (metis add.assoc)

lemma queue_chain: "a @ b = c @ d \<Longrightarrow> d @ b' = c' @ e \<Longrightarrow> a @ (b @ b') = (c @ c') @ e"
  by (metis append.assoc)

lemma balanced_append:
  assumes "balanced A s tr s1" and "balanced A s1 tr' s2"
  shows "balanced A s (tr @ tr') s2"
proof -
  have "qs_events s @ trace_of put_items (tr @ tr') = trace_of got_items (tr @ tr') @ qs_events s2"
    using assms queue_chain unfolding balanced_def map_append concat_append by blast
  moreover have "mset (qs_results s) + mset (trace_of sent_results (tr @ tr')) =
      mset (map snd (trace_of used_results (tr @ tr'))) + mset (qs_results s2)"
    using assms balance_chain unfolding balanced_def map_append concat_append mset_append by blast
  moreover have "mset (map px_id (qs_waiting s)) + mset (trace_of call_ids (tr @ tr')) =
      mset (map px_id (trace_of over_calls (tr @ tr'))) + mset (map px_id (qs_waiting s2))"
    using assms balance_chain unfolding balanced_def map_append concat_append mset_append by blast
  moreover have "\<forall>(x, r)\<in>set (trace_of used_results (tr @ tr')). px_id x = tr_tool_use_id r"
    using assms unfolding balanced_def map_append concat_append set_append by blast
  moreover have "mset (qs_returned s2) = mset (qs_returned s) + mset (map (\<lambda>(x, r). (px_id x, proxy_response r)) (trace_of used_results (tr @ tr'))) +
       mset (map (\<lambda>x. (px_id x, timed_out_response A (px_tool x))) (trace_of expired_calls (tr @ tr')))"
    using assms unfolding balanced_def map_append concat_append mset_append by (simp add: ac_simps)
  ultimately show ?thesis unfolding balanced_def by blast
qed

lemma path_balanced:
  assumes "sdk_path E A p tools s tr s'" and "opened s"
  shows "opened s' \<and> balanced A s tr s'"
  using assms
proof induction
  case Stays
  then show ?case by (simp add: balanced_def)
next
  case (Moves tr s1 a s2)
  then show ?case using step_opened step_balanced balanced_append by blast
qed

section \<open>Late answers\<close>

lemma new_sdk_opened: "opened (new_sdk_state n)"
  by (simp add: opened_def new_sdk_state_def)

lemma path_append: "sdk_path E A p tools s1 tr' s2 \<Longrightarrow> sdk_path E A p tools s tr s1 \<Longrightarrow> sdk_path E A p tools s (tr @ tr') s2"
  by (induction rule: sdk_path.induct) (simp, metis append.assoc sdk_path.Moves)

lemma path_split: "sdk_path E A p tools s tr s2 \<Longrightarrow> tr = tr1 @ tr2 \<Longrightarrow> \<exists>s1. sdk_path E A p tools s tr1 s1 \<and> sdk_path E A p tools s1 tr2 s2"
proof (induction arbitrary: tr2 rule: sdk_path.induct)
  case Stays
  then show ?case by (auto intro: sdk_path.Stays)
next
  case (Moves tr s1 a s2)
  show ?case
  proof (cases tr2 rule: rev_cases)
    case Nil
    with Moves show ?thesis by (metis append_Nil2 sdk_path.intros)
  next
    case (snoc ys y)
    with Moves show ?thesis by (metis append_assoc butlast_snoc last_snoc sdk_path.Moves)
  qed
qed

text \<open>The calls of a run that have distinct ids are over or wait, not both.\<close>

lemma waiting_ids:
  assumes "sdk_path E A p tools (new_sdk_state n) tr s" and "distinct (trace_of call_ids tr)"
  shows "distinct (map px_id (trace_of over_calls tr) @ map px_id (qs_waiting s))" and
    "set (map px_id (trace_of over_calls tr)) \<union> set (map px_id (qs_waiting s)) = set (trace_of call_ids tr)"
proof -
  from path_balanced [OF assms(1) new_sdk_opened]
  have eq: "mset (trace_of call_ids tr) = mset (map px_id (trace_of over_calls tr) @ map px_id (qs_waiting s))"
    by (simp add: balanced_def new_sdk_state_def)
  with assms(2) show "distinct (map px_id (trace_of over_calls tr) @ map px_id (qs_waiting s))"
    by (metis mset_eq_imp_distinct_iff)
  from mset_eq_setD [OF eq] show "set (map px_id (trace_of over_calls tr)) \<union> set (map px_id (qs_waiting s)) = set (trace_of call_ids tr)"
    by auto
qed

text \<open>A result no waiting call takes stays, and while it stays no call that is not waiting for the queue to fill expires.\<close>

definition spinning :: "tool_result \<Rightarrow> string \<Rightarrow> sdk_state \<Rightarrow> bool" where
  "spinning r i s \<longleftrightarrow> r \<in> set (qs_results s) \<and> (\<forall>x\<in>set (qs_waiting s). px_id x = i \<longrightarrow> \<not> px_blocked x)"

lemma step_keeps_spinning:
  assumes "sdk_step E A p tools s a s'" and "spinning r i s" and "tr_tool_use_id r \<notin> set (map px_id (qs_waiting s))"
  shows "spinning r i s' \<and> (\<forall>x. a = Expires x \<longrightarrow> px_id x \<noteq> i)"
  using assms
proof (cases rule: sdk_step.cases)
  case (Call tool args q)
  from proxy_call_run [OF Call(5)] assms(2) Call(1) show ?thesis by (auto simp: spinning_def)
next
  case (Take x q rs)
  with assms(2,3) show ?thesis
    by (auto simp: spinning_def step_defs dest: notin_set_remove1 split: if_splits) 
next
  case (Expire x)
  with assms(2,3) show ?thesis by (auto simp: spinning_def step_defs dest: notin_set_remove1)
qed (auto simp: spinning_def step_defs split: kernel_event.splits option.splits)

lemma path_keeps_spinning:
  assumes "sdk_path E A p tools s1 tr' s2" and "sdk_path E A p tools (new_sdk_state n) tr s1" and "spinning r i s1"
    and "distinct (trace_of call_ids (tr @ tr'))" and "tr_tool_use_id r \<in> set (map px_id (trace_of over_calls tr))"
  shows "spinning r i s2 \<and> (\<forall>x. Expires x \<in> set tr' \<longrightarrow> px_id x \<noteq> i)"
  using assms
proof induction
  case (Moves tr' s2 a s3)
  from Moves.prems(3) have d: "distinct (trace_of call_ids (tr @ tr'))" by auto
  note before = Moves.IH [OF Moves.prems(1,2) d Moves.prems(4)]
  have "set (map px_id (trace_of over_calls (tr @ tr'))) \<inter> set (map px_id (qs_waiting s2)) = {}"
    using waiting_ids(1) [OF path_append [OF Moves.hyps(1) Moves.prems(1)] d] unfolding distinct_append by blast
  moreover have "set (map px_id (trace_of over_calls tr)) \<subseteq> set (map px_id (trace_of over_calls (tr @ tr')))" by auto
  ultimately have "tr_tool_use_id r \<notin> set (map px_id (qs_waiting s2))" using Moves.prems(4) by blast
  from step_keeps_spinning [OF Moves.hyps(2) conjunct1 [OF before] this] before show ?case by auto
qed simp

lemma step_calls:
  "sdk_step E A p tools s (Calls q) s' \<Longrightarrow> tu_abstract q \<in> set (ap_allowed_tools p) \<inter> set tools \<inter> fst ` set sdk_abstract_tools"
  by (erule sdk_step.cases) (auto simp: proxied_def client_abstract_def proxy_call_def Let_def intro: rev_image_eqI)

lemma path_calls:
  "sdk_path E A p tools s tr s' \<Longrightarrow> Calls q \<in> set tr \<Longrightarrow> tu_abstract q \<in> set (ap_allowed_tools p) \<inter> set tools \<inter> fst ` set sdk_abstract_tools"
  by (induction rule: sdk_path.induct) (auto dest: step_calls)

section \<open>Properties\<close>

text \<open>C31: The SDK's tools get what the caller decided, once. In every run of the system, whatever the SDK does: what the
  generator gets is what was put on the queue of events, in order. Every result the caller sends answers
  one call or is still in the queue. What a call of a proxy returns is the caller's result with the call's id, or the
  message that it timed out; every call returns once or still waits. And a call is proposed only for a tool that Forge
  has, that the persona may use and that was asked for.\<close>

theorem sdk_tools_get_the_decisions:
  assumes "sdk_path E A p tools (new_sdk_state n) tr s"
  shows "trace_of put_items tr = trace_of got_items tr @ qs_events s \<and>
    mset (trace_of sent_results tr) = mset (map snd (trace_of used_results tr)) + mset (qs_results s) \<and>
    (\<forall>(i, j)\<in>set (qs_returned s). (\<exists>r\<in>set (trace_of sent_results tr). tr_tool_use_id r = i \<and> j = proxy_response r) \<or>
      (\<exists>t. j = timed_out_response A t)) \<and>
    mset (trace_of call_ids tr) = mset (map fst (qs_returned s)) + mset (map px_id (qs_waiting s)) \<and>
    (\<forall>q. Calls q \<in> set tr \<longrightarrow> tu_abstract q \<in> set (ap_allowed_tools p) \<inter> set tools \<inter> fst ` set sdk_abstract_tools)"
proof -
  let ?used = "trace_of used_results tr" and ?expired = "trace_of expired_calls tr"
  let ?answers = "map (\<lambda>(x, r). (px_id x, proxy_response r)) ?used @ map (\<lambda>x. (px_id x, timed_out_response A (px_tool x))) ?expired"
  from path_balanced [OF assms new_sdk_opened] have b: "balanced A (new_sdk_state n) tr s" by blast
  then have events: "trace_of put_items tr = trace_of got_items tr @ qs_events s"
    and results: "mset (trace_of sent_results tr) = mset (map snd ?used) + mset (qs_results s)"
    and calls: "mset (trace_of call_ids tr) = mset (map px_id (trace_of over_calls tr)) + mset (map px_id (qs_waiting s))"
    and own: "\<forall>(x, r)\<in>set ?used. px_id x = tr_tool_use_id r"
    and returned: "mset (qs_returned s) = mset ?answers"
    by (simp_all add: balanced_def new_sdk_state_def)
  have "mset (map px_id (trace_of over_calls xs)) = mset (map px_id (map fst (trace_of used_results xs) @ trace_of expired_calls xs))" for xs
    by (induction xs) (simp_all add: over_calls_def)
  moreover have "mset (map fst (qs_returned s)) = mset (map fst ?answers)" using arg_cong [OF returned, of "image_mset fst"] by (simp only: mset_map)
  moreover have "map fst ?answers = map px_id (map fst ?used @ ?expired)" by (simp add: case_prod_beta comp_def)
  ultimately have once: "mset (trace_of call_ids tr) = mset (map fst (qs_returned s)) + mset (map px_id (qs_waiting s))"
    using calls by (simp only:)
  have sent: "set (map snd ?used) \<subseteq> set (trace_of sent_results tr)"
    using arg_cong [OF results, of set_mset] unfolding set_mset_union set_mset_mset by blast
  have "set (qs_returned s) = set ?answers" using returned by (rule mset_eq_setD)
  moreover have "\<forall>(i, j)\<in>set ?answers. (\<exists>r\<in>set (trace_of sent_results tr). tr_tool_use_id r = i \<and> j = proxy_response r) \<or>
      (\<exists>t. j = timed_out_response A t)"
  proof (intro ballI, clarify)
    fix i j
    assume "(i, j) \<in> set ?answers" and none: "\<nexists>t. j = timed_out_response A t"
    then obtain x r where x: "(x, r) \<in> set ?used" and i: "i = px_id x" and j: "j = proxy_response r" by auto
    from x have "r \<in> set (map snd ?used)" by (simp only: set_map) (rule rev_image_eqI, assumption, simp)
    moreover have "tr_tool_use_id r = i" using bspec [OF own x] i by simp
    ultimately show "\<exists>r\<in>set (trace_of sent_results tr). tr_tool_use_id r = i \<and> j = proxy_response r"
      using sent j by blast
  qed
  ultimately have returns: "\<forall>(i, j)\<in>set (qs_returned s). (\<exists>r\<in>set (trace_of sent_results tr). tr_tool_use_id r = i \<and> j = proxy_response r) \<or>
      (\<exists>t. j = timed_out_response A t)" by (simp only:)
  show ?thesis by (intro conjI events results returns once) (use path_calls [OF assms] in blast)
qed

text \<open>A run in which a call times out, is answered late, and the tool is called again\<close>

definition sdk_persona :: agent_persona where
  "sdk_persona = (agent_def_to_persona demo_persona)\<lparr>ap_allowed_tools := [''Read'', ''Write'']\<rparr>"

definition demo_sdk :: claude_sdk where
  "demo_sdk = \<lparr>sa_default_model = ''m'', sa_tool_timeout = ''120.0''\<rparr>"

definition read_call :: "nat \<Rightarrow> tool_proposal" where
  "read_call n = fst (proxy_call demo_env ''Read'' (JObj []) (new_sdk_state n))"

definition read_proxy :: "nat \<Rightarrow> bool \<Rightarrow> sdk_proxy" where
  "read_proxy n b = \<lparr>px_id = tu_id (read_call n), px_tool = ''Read'', px_blocked = b\<rparr>"

definition late_result :: tool_result where
  "late_result = \<lparr>tr_tool_use_id = tu_id (read_call 0), tr_content = JStr ''late'', tr_is_error = False\<rparr>"

definition sdk_state_of :: "sdk_item list \<Rightarrow> tool_result list \<Rightarrow> sdk_proxy list \<Rightarrow> (string \<times> json) list \<Rightarrow> sdk_consumer \<Rightarrow> nat \<Rightarrow> sdk_state" where
  "sdk_state_of es rs ws xs c n = \<lparr>qs_events = es, qs_results = rs, qs_waiting = ws, qs_returned = xs, qs_driver = Driving, qs_consumer = c, qs_uuids = n\<rparr>"

definition late_start :: "sdk_action list" where
  "late_start = [Opens (sdk_started demo_sdk sdk_persona [''Read'']), Resumes (sdk_started demo_sdk sdk_persona [''Read'']) None,
     Calls (read_call 0), Gets (Item (Proposal (read_call 0))), Blocks (read_proxy 0 False)]"

definition late_run :: "sdk_action list" where
  "late_run = late_start @ [Expires (read_proxy 0 True)] @ [] @ [Resumes (Proposal (read_call 0)) (Some late_result)] @ [] @
     [Calls (read_call 1)] @ [Takes (read_proxy 1 False) late_result]"

definition timed_out_once :: "(string \<times> json) list" where
  "timed_out_once = [(tu_id (read_call 0), timed_out_response demo_sdk ''Read'')]"

definition late_state :: sdk_state where
  "late_state = sdk_state_of [Item (Proposal (read_call 1))] [late_result] [read_proxy 1 False] timed_out_once Fetching 2"

lemma read_ids: "tu_id (read_call 0) \<noteq> tu_id (read_call 1)"
  by (simp add: read_call_def proxy_call_def new_sdk_state_def demo_env_def show_nat.simps Let_def)

lemma late_run_path: "sdk_path demo_env demo_sdk sdk_persona [''Read''] (new_sdk_state 0) late_run late_state"
proof -
  let ?path = "sdk_path demo_env demo_sdk sdk_persona [''Read''] (new_sdk_state 0)" and ?step = "sdk_step demo_env demo_sdk sdk_persona [''Read'']"
  let ?ev = "sdk_started demo_sdk sdk_persona [''Read'']"
  have offered: "''Read'' \<in> set (proxied (client_abstract sdk_persona [''Read'']))"
    by (simp add: proxied_def client_abstract_def sdk_persona_def sdk_abstract_tools_def)
  have "?path [] (new_sdk_state 0)" by (rule sdk_path.Stays)
  moreover have "?step (new_sdk_state 0) (Opens ?ev) ((new_sdk_state 0)\<lparr>qs_consumer := Held ?ev\<rparr>)"
    by (rule sdk_step.Open) (simp add: new_sdk_state_def)
  ultimately have "?path [Opens ?ev] ((new_sdk_state 0)\<lparr>qs_consumer := Held ?ev\<rparr>)" using sdk_path.Moves by fastforce
  moreover have "?step ((new_sdk_state 0)\<lparr>qs_consumer := Held ?ev\<rparr>) (Resumes ?ev None) (sdk_state_of [] [] [] [] Fetching 0)"
    using sdk_step.Resume [of "(new_sdk_state 0)\<lparr>qs_consumer := Held ?ev\<rparr>" ?ev] 
    by (simp add: sdk_resume_def new_sdk_state_def sdk_state_of_def)
  ultimately have "?path [Opens ?ev, Resumes ?ev None] (sdk_state_of [] [] [] [] Fetching 0)" using sdk_path.Moves by fastforce
  moreover have call: "?step (sdk_state_of es rs [] xs Fetching n) (Calls (read_call n))
      (sdk_state_of (es @ [Item (Proposal (read_call n))]) rs [read_proxy n False] xs Fetching (Suc n))" for es rs xs n
    using offered by (intro sdk_step.Call [where tool = "''Read''" and args = "JObj []"])
      (simp_all add: sdk_state_of_def ended_def in_client_def proxy_call_def read_call_def read_proxy_def new_sdk_state_def Let_def)
  ultimately have "?path [Opens ?ev, Resumes ?ev None, Calls (read_call 0)]
      (sdk_state_of [Item (Proposal (read_call 0))] [] [read_proxy 0 False] [] Fetching 1)" using sdk_path.Moves by fastforce
  moreover have "?step (sdk_state_of [Item (Proposal (read_call 0))] [] [read_proxy 0 False] [] Fetching 1) (Gets (Item (Proposal (read_call 0))))
      (sdk_state_of [] [] [read_proxy 0 False] [] (Held (Proposal (read_call 0))) 1)"
    using sdk_step.Fetch [of "sdk_state_of [Item (Proposal (read_call 0))] [] [read_proxy 0 False] [] Fetching 1" "Item (Proposal (read_call 0))" "[]"]
    by (simp add: sdk_fetch_def sdk_state_of_def)
  ultimately have "?path [Opens ?ev, Resumes ?ev None, Calls (read_call 0), Gets (Item (Proposal (read_call 0)))]
      (sdk_state_of [] [] [read_proxy 0 False] [] (Held (Proposal (read_call 0))) 1)" using sdk_path.Moves by fastforce
  moreover have "?step (sdk_state_of [] [] [read_proxy 0 False] [] (Held (Proposal (read_call 0))) 1) (Blocks (read_proxy 0 False))
      (sdk_state_of [] [] [read_proxy 0 True] [] (Held (Proposal (read_call 0))) 1)"
    using sdk_step.Block [of "sdk_state_of [] [] [read_proxy 0 False] [] (Held (Proposal (read_call 0))) 1" "read_proxy 0 False"]
    by (simp add: proxy_block_def sdk_state_of_def ended_def read_proxy_def)
  ultimately have "?path late_start (sdk_state_of [] [] [read_proxy 0 True] [] (Held (Proposal (read_call 0))) 1)"
    unfolding late_start_def using sdk_path.Moves by fastforce
  moreover have "?step (sdk_state_of [] [] [read_proxy 0 True] [] (Held (Proposal (read_call 0))) 1) (Expires (read_proxy 0 True))
      (sdk_state_of [] [] [] timed_out_once (Held (Proposal (read_call 0))) 1)"
    using sdk_step.Expire [of "sdk_state_of [] [] [read_proxy 0 True] [] (Held (Proposal (read_call 0))) 1" "read_proxy 0 True"]
    by (simp add: proxy_expire_def sdk_state_of_def ended_def read_proxy_def timed_out_once_def)
  ultimately have "?path (late_start @ [Expires (read_proxy 0 True)]) (sdk_state_of [] [] [] timed_out_once (Held (Proposal (read_call 0))) 1)"
    by (rule sdk_path.Moves)
  moreover have "?step (sdk_state_of [] [] [] timed_out_once (Held (Proposal (read_call 0))) 1) (Resumes (Proposal (read_call 0)) (Some late_result))
      (sdk_state_of [] [late_result] [] timed_out_once Fetching 1)"
    using sdk_step.Resume [of "sdk_state_of [] [] [] timed_out_once (Held (Proposal (read_call 0))) 1" "Proposal (read_call 0)" _ _ _ _ "Some late_result"]
    by (simp add: sdk_resume_def sdk_state_of_def)
  ultimately have "?path ((late_start @ [Expires (read_proxy 0 True)]) @ [Resumes (Proposal (read_call 0)) (Some late_result)])
      (sdk_state_of [] [late_result] [] timed_out_once Fetching 1)" by (rule sdk_path.Moves)
  from sdk_path.Moves [OF this call [of "[]" "[late_result]" timed_out_once 1]]
  have "?path (((late_start @ [Expires (read_proxy 0 True)]) @ [Resumes (Proposal (read_call 0)) (Some late_result)]) @ [Calls (read_call 1)])
      (sdk_state_of [Item (Proposal (read_call 1))] [late_result] [read_proxy 1 False] timed_out_once Fetching 2)" by (simp add: numeral_2_eq_2)
  moreover have "?step (sdk_state_of [Item (Proposal (read_call 1))] [late_result] [read_proxy 1 False] timed_out_once Fetching 2)
      (Takes (read_proxy 1 False) late_result) late_state"
    using read_ids sdk_step.Take [of "sdk_state_of [Item (Proposal (read_call 1))] [late_result] [read_proxy 1 False] timed_out_once Fetching 2"
        "read_proxy 1 False" late_result "[]"]
    by (simp add: proxy_take_def sdk_state_of_def ended_def read_proxy_def late_result_def late_state_def)
  ultimately show ?thesis unfolding late_run_def using sdk_path.Moves by fastforce
qed

lemma sdk_tools_get_the_decisions_witness:
  "\<exists>r\<in>set (trace_of sent_results late_run). r \<in># mset (qs_results late_state)"
  using sdk_tools_get_the_decisions [OF late_run_path]
  by (simp add: late_run_def late_start_def action_defs late_state_def sdk_state_of_def)

text \<open>C32: A late answer turns the time limit of the tools off. When a call times out and its result is sent
  afterwards, then, if the calls' ids are distinct, the result stays in the queue for the rest of the run, and
  no call made after that ever times out: it takes the result and puts it back, again and again, until its own comes.\<close>

theorem late_answers_stop_the_clock:
  assumes "sdk_path E A p tools (new_sdk_state n)
      (tr1 @ [Expires x] @ tr2 @ [Resumes (Proposal q0) (Some r)] @ tr3 @ [Calls q] @ tr4) s"
    and "tr_tool_use_id r = px_id x"
    and "distinct (trace_of call_ids (tr1 @ [Expires x] @ tr2 @ [Resumes (Proposal q0) (Some r)] @ tr3 @ [Calls q] @ tr4))"
  shows "r \<in> set (qs_results s) \<and> (\<forall>y. Expires y \<in> set tr4 \<longrightarrow> px_id y \<noteq> tu_id q)"
proof -
  let ?before = "tr1 @ [Expires x] @ tr2" and ?after = "tr3 @ [Calls q] @ tr4" and ?sent = "Resumes (Proposal q0) (Some r)"
  from path_split [OF assms(1), of "?before @ [?sent]" ?after]
  obtain s1 where p1: "sdk_path E A p tools (new_sdk_state n) (?before @ [?sent]) s1" and p2: "sdk_path E A p tools s1 ?after s" by auto
  from p1 obtain s0 where p0: "sdk_path E A p tools (new_sdk_state n) ?before s0" and step: "sdk_step E A p tools s0 ?sent s1"
    by (metis sdk_path_snocE)
  from path_balanced [OF p0 new_sdk_opened] have "opened s0" by blast
  with step have sent: "r \<in> set (qs_results s1)"
    by (auto elim!: sdk_step.cases simp: sdk_resume_def opened_def)
  have over: "tr_tool_use_id r \<in> set (map px_id (trace_of over_calls (?before @ [?sent])))"
    using assms(2) by (simp add: over_calls_def expired_calls_def)
  have "distinct (trace_of call_ids (?before @ [?sent]))" using assms(3) by auto
  from waiting_ids(2) [OF p1 this] have "set (map px_id (qs_waiting s1)) \<subseteq> set (trace_of call_ids (?before @ [?sent]))" by blast
  moreover have "tu_id q \<notin> set (trace_of call_ids (?before @ [?sent]))" using assms(3) by (auto simp: call_ids_def)
  ultimately have "spinning r (tu_id q) s1" using sent by (auto simp: spinning_def)
  from path_keeps_spinning [OF p2 p1 this _ over] assms(3) show ?thesis by (auto simp: spinning_def)
qed

lemma late_answers_stop_the_clock_witness:
  "late_result \<in> set (qs_results late_state)"
proof -
  have "distinct (trace_of call_ids late_run)" using read_ids by (simp add: late_run_def late_start_def call_ids_def)
  moreover have "tr_tool_use_id late_result = px_id (read_proxy 0 True)" by (simp add: late_result_def read_proxy_def)
  ultimately show ?thesis
    using late_answers_stop_the_clock [OF late_run_path [unfolded late_run_def]] by (simp only: late_run_def)
qed

end
