(* ===== verification/OpenCode.thy ===== *)
theory OpenCode imports ClaudeRaw begin

text \<open>
  The kernel adapter over an OpenCode server, \<open>adapters/opencode/adapter.py\<close>, with the proxy of Forge's own tools that
  the server starts, \<open>adapters/opencode/mcp_proxy.py\<close>: the permissions of a session, the translation of the server's
  events, and one session as a system of three kinds of tasks, the generator, the reader of the server's events and the
  handlers of the proxy's requests, which share a queue and futures. The server is a parameter by what it answers;
  time limits may pass at any time while something is waited for. The identifiers and the tool names of the events
  are strings where they are given, and so is the content of the proxy's requests. There is one session at a time
  for an aggregate, and the adapter is not left while it runs.
\<close>

section \<open>Tools and permissions\<close>

definition opencode_builtin_tools :: "(string, string) dict" where
  "opencode_builtin_tools = [(''Read'', ''read''), (''Write'', ''write''), (''Edit'', ''edit''), (''Bash'', ''bash''), (''Grep'', ''grep''),
     (''Glob'', ''glob''), (''WebFetch'', ''webfetch''), (''Todo'', ''todo'')]"

definition property_type :: "string \<Rightarrow> json" where
  "property_type ty = JObj [(''type'', JStr ty)]"

definition custom_tool :: "string \<Rightarrow> string \<Rightarrow> (string \<times> string) list \<Rightarrow> json_obj" where
  "custom_tool name description properties = [(''name'', JStr name), (''description'', JStr description),
     (''input_schema'', JObj [(''type'', JStr ''object''), (''properties'', JObj (map (map_prod id property_type) properties)),
       (''required'', JArr (map (JStr \<circ> fst) properties))])]"

definition opencode_custom_tools :: "(string, json_obj) dict" where
  "opencode_custom_tools = [
     (''ProposeEvent'', custom_tool ''forge_propose_event'' ''Propose a domain event for the Forge event store.''
        [(''aggregate_id'', ''string''), (''event_type'', ''string''), (''payload'', ''object'')]),
     (''ReadLKG'', custom_tool ''forge_read_lkg'' (''Read from Forge'' @ [CHR 0x27] @ ''s Lessons Knowledge Graph.'') [(''query'', ''string'')])]"

definition custom_name :: "json_obj \<Rightarrow> string" where
  "custom_name t = (case field t ''name'' JNull of JStr s \<Rightarrow> s | _ \<Rightarrow> [])"

definition wire_of :: "string \<Rightarrow> string option" where
  "wire_of abstract = (case dict_get opencode_builtin_tools abstract of Some w \<Rightarrow> Some w
     | None \<Rightarrow> map_option custom_name (dict_get opencode_custom_tools abstract))"

definition ask_for :: "string \<Rightarrow> (string, string) dict \<times> string list \<Rightarrow> (string, string) dict \<times> string list" where
  "ask_for abstract = (\<lambda>(permissions, wires). case wire_of abstract of
       Some w \<Rightarrow> (dict_set w ''ask'' permissions, wires @ [w]) | None \<Rightarrow> (permissions, wires))"

definition build_session_permissions :: "string list \<Rightarrow> (string, string) dict \<times> string list" where
  "build_session_permissions abstract_tools = foldl (\<lambda>acc t. ask_for t acc)
     (foldl (\<lambda>m (_, w). dict_set w ''deny'' m) [] opencode_builtin_tools, []) abstract_tools"

definition opencode_to_abstract :: "string \<Rightarrow> string" where
  "opencode_to_abstract wire = (case List.find (\<lambda>(_, w). w = wire) opencode_builtin_tools of Some (a, _) \<Rightarrow> a
     | None \<Rightarrow> (case List.find (\<lambda>(_, t). custom_name t = wire) opencode_custom_tools of Some (a, _) \<Rightarrow> a | None \<Rightarrow> wire))"

definition opencode_capabilities :: kernel_capabilities where
  "opencode_capabilities = \<lparr>kc_kernel_id = ''opencode'', kc_streaming = True, kc_deterministic_output = False,
     kc_extended_thinking = True, kc_prompt_caching = True, kc_vision = True, kc_batch_api = False, kc_hooks_native = True,
     kc_subagents_native = True, kc_mcp_remote = True, kc_mcp_local_stdio = True, kc_client_tools = map fst opencode_builtin_tools,
     kc_server_tools = [], kc_max_context_tokens = 200000\<rparr>"

section \<open>The session's configuration\<close>

text \<open>A persona of this adapter has more fields; the plain one does not.\<close>

record opencode_knobs =
  ok_agent_name :: string
  ok_template :: string
  ok_extra_options :: json_obj

definition knob :: "opencode_knobs option \<Rightarrow> string \<Rightarrow> (opencode_knobs \<Rightarrow> 'a) \<Rightarrow> exn + 'a" where
  "knob k name f = (case k of Some x \<Rightarrow> Inr (f x)
     | None \<Rightarrow> Inl (OtherException (quoted ''AgentPersona'' @ '' object has no attribute '' @ quoted name)))"

record opencode =
  od_workdir :: string
  od_mcp_command :: "string list"
  od_backchannel_url :: "string option"
  od_proxy_timeout :: int
  od_timeout :: json
  od_dumps :: "json \<Rightarrow> string"
  od_dumps_indented :: "json \<Rightarrow> string"
  od_repr_exn :: "exn \<Rightarrow> string"

definition opencode_system_prompt :: "opencode \<Rightarrow> agent_persona \<Rightarrow> string" where
  "opencode_system_prompt A p = (let fence = replicate 3 (char_of (96::nat)) in
     ''# Role'' @ nl @ ap_role p @ nl @ nl @ ''# Goal'' @ nl @ ap_goal p @ nl @ nl @
     ''# Constraints'' @ nl @ bullet_lines (ap_constraints p) @ nl @ nl @
     ''# Output contract'' @ nl @ fence @ ''json'' @ nl @ od_dumps_indented A (JObj (ap_output_contract p)) @ nl @ fence @ nl @ nl @
     ''# Operating principles'' @ nl @
     ''- You are running inside Forge OS via the OpenCode kernel.'' @ nl @
     ''- Every tool call is gated by Forge'' @ [CHR 0x27] @ ''s Validator. Denied tools '' @
     ''  will return an error result; do not retry the same call.'' @ nl @
     ''- Do not invoke subagents or load skills unless explicitly told.'' @ nl)"

definition mcp_entry :: "opencode \<Rightarrow> string \<Rightarrow> string \<Rightarrow> json" where
  "mcp_entry A url aggregate_id = JObj [(''forge_proxy'', JObj [(''type'', JStr ''local''), (''command'', JArr (map JStr (od_mcp_command A))),
     (''enabled'', JBool True), (''environment'', JObj [(''FORGE_BACKCHANNEL_URL'', JStr url), (''FORGE_AGGREGATE_ID'', JStr aggregate_id),
       (''FORGE_PROXY_TIMEOUT_S'', JStr (show_int (od_proxy_timeout A)))])])]"

definition session_body :: "opencode \<Rightarrow> agent_persona \<Rightarrow> opencode_knobs option \<Rightarrow> (string, string) dict \<Rightarrow> string \<Rightarrow> exn + json_obj" where
  "session_body A p k permissions aggregate_id = bindr (knob k ''primary_agent_template'' ok_template) (\<lambda>template. let
       base = [(''title'', JStr (''forge::'' @ ap_name p)), (''directory'', JStr (od_workdir A)), (''agent'', JStr template),
         (''model'', JStr (ap_preferred_model p)), (''instructions'', JStr (opencode_system_prompt A p)),
         (''permissions'', JObj (map (map_prod id JStr) permissions)), (''temperature'', JFloat (ap_temperature p)),
         (''max_tokens'', JInt (ap_max_tokens p))] in
     bindr (knob k ''extra_provider_options'' ok_extra_options) (\<lambda>extra. let
       thinking = (case ap_thinking_budget_tokens p of
           Some n \<Rightarrow> if n = 0 then [] else [(''thinking'', JObj [(''type'', JStr ''enabled''), (''budget_tokens'', JInt n)])]
         | None \<Rightarrow> []);
       options = (if thinking = [] then extra else foldl (\<lambda>m (k, v). dict_set k v m) thinking extra);
       body = (if options = [] then base else dict_set ''provider_options'' (JObj options) base) in
     if od_mcp_command A = [] then Inr body
     else case od_backchannel_url A of
         None \<Rightarrow> Inl (RuntimeError (''mcp_proxy_command set but back-channel not started; '' @ ''this is a bug in OpenCodeAdapter.__aenter__''))
       | Some url \<Rightarrow> Inr (dict_set ''mcp'' (mcp_entry A url aggregate_id) body)))"

section \<open>The server's events\<close>

datatype sse_item = Said kernel_event | EndMark

text \<open>\<open>a or b\<close>\<close>

definition either :: "json \<Rightarrow> json \<Rightarrow> json" where
  "either a b = (if truthy a then a else b)"

definition text_value :: "json \<Rightarrow> string" where
  "text_value j = (case j of JStr s \<Rightarrow> s | _ \<Rightarrow> [])"

definition delta_items :: "json \<Rightarrow> exn + sse_item list" where
  "delta_items part = bindr (json_get part ''text'' JNull) (\<lambda>t. bindr (json_get part ''thinking'' JNull) (\<lambda>h.
     Inr ((if truthy t then [Said (Event TextDelta [(''text'', t)])] else []) @
          (if truthy h then [Said (Event ThinkingDelta [(''thinking'', h)])] else []))))"

definition permission_proposal :: "json \<Rightarrow> json_obj \<Rightarrow> tool_proposal" where
  "permission_proposal sid props = (let perm = either (field props ''permission_id'' JNull) (field props ''id'' JNull);
       wire = either (field props ''tool'' JNull) (field props ''name'' (JStr [])) in
     \<lparr>tu_id = text_value (either perm wire), tu_name = text_value wire, tu_abstract = opencode_to_abstract (text_value wire),
       tu_inputs = either (field props ''inputs'' JNull) (either (field props ''args'' JNull) (JObj [])),
       tu_payload = [(''permission_id'', perm), (''session_id'', sid)]\<rparr>)"

definition translate_sse :: "json \<Rightarrow> json_obj \<Rightarrow> exn + sse_item list" where
  "translate_sse sid ev = (let ty = either (field ev ''type'' JNull) (field ev ''event'' JNull);
       props = either (field ev ''properties'' JNull) (either (field ev ''data'' JNull) (JObj [])) in
     bindr (json_get props ''session_id'' JNull) (\<lambda>s1. bindr (json_get props ''sessionID'' JNull) (\<lambda>s2. let s = either s1 s2 in
     if truthy s \<and> s \<noteq> sid then Inr []
     else case props of JObj m \<Rightarrow>
       if ty = JStr ''message.part.delta'' then delta_items (either (field m ''part'' JNull) props)
       else if ty = JStr ''permission.requested'' then Inr [Said (Proposal (permission_proposal sid m))]
       else if ty = JStr ''tool.execute.after'' then Inr [Said (Event ServerToolExecuted [(''tool'', field m ''tool'' JNull),
         (''duration_ms'', field m ''duration_ms'' JNull), (''ok'', field m ''ok'' (JBool True))])]
       else if ty = JStr ''session.idle'' then Inr [Said (Event AgentCompleted [(''session_id'', sid)]), EndMark]
       else if ty = JStr ''session.error'' then Inr [Said (Event AgentFailed [(''reason'', JStr ''session_error''), (''detail'', props)]), EndMark]
       else Inr []
     | _ \<Rightarrow> Inr [])))"

definition crash_items :: "string \<Rightarrow> sse_item list" where
  "crash_items e = [Said (Event AgentFailed [(''reason'', JStr ''sse_crash''), (''detail'', JStr e)]), EndMark]"

definition sse_items :: "opencode \<Rightarrow> json \<Rightarrow> json_obj \<Rightarrow> sse_item list" where
  "sse_items A sid ev = (case translate_sse sid ev of Inr items \<Rightarrow> items | Inl e \<Rightarrow> crash_items (od_repr_exn A e))"

section \<open>The proxy of Forge's tools\<close>

definition forge_propose_event :: "string \<Rightarrow> string \<Rightarrow> json_obj \<Rightarrow> string \<times> json" where
  "forge_propose_event aggregate_id event_type payload = (''ProposeEvent'',
     JObj [(''aggregate_id'', JStr aggregate_id), (''event_type'', JStr event_type), (''payload'', JObj payload)])"

definition forge_read_lkg :: "string \<Rightarrow> string \<times> json" where
  "forge_read_lkg query = (''ReadLKG'', JObj [(''query'', JStr query)])"

definition call_body :: "env \<Rightarrow> string \<Rightarrow> string \<times> json \<Rightarrow> (nat, json) prog" where
  "call_body E aggregate_id = (\<lambda>(abstract, inputs) n. (Inr (JObj [(''aggregate_id'', JStr aggregate_id),
     (''call_id'', JStr (''mcp-'' @ take 12 (uuid_hex_at E n))), (''abstract_tool'', JStr abstract), (''inputs'', inputs)]), Suc n))"

datatype http_answer = HttpTimeout | HttpError string | Http int json string

text \<open>What the proxy gives to the model for the answer of the back-channel: its status, its document and its text\<close>

definition call_back :: "env \<Rightarrow> string \<Rightarrow> string \<Rightarrow> string \<Rightarrow> http_answer \<Rightarrow> exn + json" where
  "call_back E aggregate_id timeout abstract answer = (case answer of
       HttpTimeout \<Rightarrow> Inr (JStr (''ERROR: Forge validator timed out after '' @ timeout @ ''s for '' @ abstract))
     | HttpError e \<Rightarrow> Inr (JStr (''ERROR: back-channel transport failure: '' @ e))
     | Http status doc body \<Rightarrow>
         if status = 404 then Inr (JStr (''ERROR: Forge has no record of aggregate '' @ aggregate_id))
         else if status = 504 then Inr (JStr (''ERROR: Forge validator timed out for '' @ abstract))
         else if status \<ge> 400 then Inr (JStr (''ERROR: back-channel returned '' @ show_int status @ '': '' @ body))
         else bindr (json_has ''error'' doc) (\<lambda>failed.
           if failed then bindr (json_item doc ''error'') (\<lambda>e. Inr (JStr (''ERROR: '' @ py_str E e)))
           else json_get doc ''content'' (JStr [])))"

section \<open>The state of a session\<close>

datatype future = FPending | FResult tool_result | FError string | FCancelled

datatype oc_generator = GenNew | GenOpened | GenWaiting | GenHeld kernel_event | GenEnded "exn option"

datatype sse_reader = SseIdle | SseReading | SseDone

text \<open>The requests of the proxy are numbered; \<open>ox_open\<close> are those without a reply yet, with their call ids.\<close>

record oc_state =
  ox_queue :: "sse_item list"
  ox_pending :: "(string, nat) dict"
  ox_futures :: "(nat, future) dict"
  ox_open :: "(nat \<times> string) list"
  ox_replies :: "(nat \<times> int \<times> json) list"
  ox_posts :: "(json \<times> json_obj) list"
  ox_registered :: bool
  ox_session_id :: json
  ox_generator :: oc_generator
  ox_reader :: sse_reader
  ox_requests :: nat

definition new_oc_state :: oc_state where
  "new_oc_state = \<lparr>ox_queue = [], ox_pending = [], ox_futures = [], ox_open = [], ox_replies = [], ox_posts = [],
     ox_registered = False, ox_session_id = JNull, ox_generator = GenNew, ox_reader = SseIdle, ox_requests = 0\<rparr>"

section \<open>The back-channel\<close>

definition http_reply :: "nat \<Rightarrow> int \<Rightarrow> json_obj \<Rightarrow> oc_state \<Rightarrow> oc_state" where
  "http_reply n status doc s = s\<lparr>ox_replies := ox_replies s @ [(n, status, JObj doc)], ox_open := filter (\<lambda>(m, _). m \<noteq> n) (ox_open s)\<rparr>"

definition mcp_proposal :: "string \<Rightarrow> string \<Rightarrow> string \<Rightarrow> json \<Rightarrow> tool_proposal" where
  "mcp_proposal aggregate_id call_id abstract inputs = \<lparr>tu_id = call_id,
     tu_name = (case dict_get opencode_custom_tools abstract of Some t \<Rightarrow> custom_name t | None \<Rightarrow> ''mcp::'' @ abstract),
     tu_abstract = abstract, tu_inputs = inputs, tu_payload = [(''source'', JStr ''mcp_proxy''), (''aggregate_id'', JStr aggregate_id)]\<rparr>"

text \<open>A request with its fields, which are strings when they are there\<close>

definition handle_propose :: "string \<Rightarrow> json_obj \<Rightarrow> oc_state \<Rightarrow> oc_state" where
  "handle_propose aggregate_id body s0 = (let n = ox_requests s0; s = s0\<lparr>ox_requests := Suc n\<rparr>;
       agg = text_value (field body ''aggregate_id'' JNull); call = text_value (field body ''call_id'' JNull);
       abstract = text_value (field body ''abstract_tool'' JNull); inputs = either (field body ''inputs'' JNull) (JObj []) in
     if agg = [] \<or> call = [] \<or> abstract = [] then http_reply n 400 [(''error'', JStr ''missing aggregate_id/call_id/abstract_tool'')] s
     else if \<not> (ox_registered s \<and> agg = aggregate_id) then http_reply n 404 [(''error'', JStr (''unknown aggregate '' @ agg))] s
     else s\<lparr>ox_pending := dict_set call n (ox_pending s), ox_futures := dict_set n FPending (ox_futures s),
        ox_queue := ox_queue s @ [Said (Proposal (mcp_proposal agg call abstract inputs))], ox_open := ox_open s @ [(n, call)]\<rparr>)"

definition result_text :: "opencode \<Rightarrow> tool_result \<Rightarrow> string" where
  "result_text A r = (case tr_content r of JStr t \<Rightarrow> t | c \<Rightarrow> od_dumps A c)"

definition result_reply :: "opencode \<Rightarrow> tool_result \<Rightarrow> json_obj" where
  "result_reply A r = [(if tr_is_error r then ''error'' else ''content'', JStr (result_text A r))]"

definition drop_pending :: "string \<Rightarrow> oc_state \<Rightarrow> oc_state" where
  "drop_pending call s = s\<lparr>ox_pending := AList.delete call (ox_pending s)\<rparr>"

text \<open>The handler of a request goes on when its future is done, or its time is up.\<close>

definition handler_wakes :: "opencode \<Rightarrow> nat \<Rightarrow> string \<Rightarrow> future \<Rightarrow> oc_state \<Rightarrow> oc_state" where
  "handler_wakes A n call fut s = (case fut of FResult r \<Rightarrow> http_reply n 200 (result_reply A r) s
     | FError e \<Rightarrow> http_reply n 500 [(''error'', JStr (''validator error: '' @ e))] (drop_pending call s) | _ \<Rightarrow> s)"

definition handler_expires :: "nat \<Rightarrow> string \<Rightarrow> oc_state \<Rightarrow> oc_state" where
  "handler_expires n call s = http_reply n 504 [(''error'', JStr ''Forge validator timed out'')]
     (drop_pending call (s\<lparr>ox_futures := dict_set n FCancelled (ox_futures s)\<rparr>))"

section \<open>The generator\<close>

definition respond_body :: "opencode \<Rightarrow> tool_result \<Rightarrow> json_obj" where
  "respond_body A r = [(''decision'', JStr (if tr_is_error r then ''deny'' else ''allow''))] @
     (if tr_is_error r then [] else [(''response_data'', JStr (result_text A r))])"

definition respond_permission :: "opencode \<Rightarrow> json \<Rightarrow> tool_result \<Rightarrow> oc_state \<Rightarrow> oc_state" where
  "respond_permission A perm r s = (if perm = JNull then s else s\<lparr>ox_posts := ox_posts s @ [(perm, respond_body A r)]\<rparr>)"

text \<open>The end of the generator once it drains: the reader is stopped, the futures that are left fail.\<close>

definition orphaned :: string where
  "orphaned = ''RuntimeError(\"spawn_agent ended with pending MCP call\")''"

definition fail_future :: "future \<Rightarrow> future" where
  "fail_future f = (if f = FPending then FError orphaned else f)"

definition leave :: "exn option \<Rightarrow> oc_state \<Rightarrow> oc_state" where
  "leave e s = s\<lparr>ox_reader := SseDone, ox_registered := False, ox_generator := GenEnded e,
     ox_futures := map (\<lambda>(n, f). (n, if n \<in> snd ` set (ox_pending s) then fail_future f else f)) (ox_futures s)\<rparr>"

definition resolve_future :: "string \<Rightarrow> tool_result \<Rightarrow> oc_state \<Rightarrow> oc_state" where
  "resolve_future call r s = (case dict_get (ox_pending s) call of None \<Rightarrow> s
     | Some n \<Rightarrow> if dict_get (ox_futures s) n = Some FPending
         then (drop_pending call s)\<lparr>ox_futures := dict_set n (FResult r) (ox_futures s)\<rparr> else drop_pending call s)"

definition opencode_started :: "agent_persona \<Rightarrow> string list \<Rightarrow> string \<Rightarrow> json \<Rightarrow> kernel_event" where
  "opencode_started p tools agent sid = Event SessionStarted [(''persona'', JStr (ap_name p)), (''model'', JStr (ap_preferred_model p)),
     (''kernel'', JStr ''opencode''), (''session_id'', sid), (''client_tools'', JArr (map JStr (client_abstract p tools))),
     (''agent'', JStr agent)]"

text \<open>Creating the session, for what the server answers\<close>

definition create_session :: "opencode \<Rightarrow> agent_persona \<Rightarrow> opencode_knobs option \<Rightarrow> string list \<Rightarrow> string \<Rightarrow> (json_obj \<Rightarrow> exn + json)
    \<Rightarrow> oc_state \<Rightarrow> (exn + kernel_event) \<times> oc_state" where
  "create_session A p k tools aggregate_id create s = (
     case bindr (session_body A p k (fst (build_session_permissions (client_abstract p tools))) aggregate_id) create of
       Inl e \<Rightarrow> (Inl e, s\<lparr>ox_registered := False, ox_generator := GenEnded (Some e)\<rparr>)
     | Inr session \<Rightarrow> (case bindr (json_item session ''id'') (\<lambda>sid. bindr (knob k ''opencode_agent_name'' ok_agent_name) (\<lambda>agent. Inr (sid, agent))) of
           Inl e \<Rightarrow> (Inl e, s\<lparr>ox_registered := True, ox_generator := GenEnded (Some e)\<rparr>)
         | Inr (sid, agent) \<Rightarrow> (Inr (opencode_started p tools agent sid),
             s\<lparr>ox_registered := True, ox_session_id := sid, ox_generator := GenOpened\<rparr>)))"

definition submit_prompt :: "exn + unit \<Rightarrow> oc_state \<Rightarrow> oc_state" where
  "submit_prompt answer s = s\<lparr>ox_reader := SseReading, ox_generator := (case answer of Inl e \<Rightarrow> GenEnded (Some e) | Inr _ \<Rightarrow> GenWaiting)\<rparr>"

definition oc_fetch :: "sse_item \<Rightarrow> sse_item list \<Rightarrow> oc_state \<Rightarrow> oc_state" where
  "oc_fetch x xs s = (case x of Said ev \<Rightarrow> s\<lparr>ox_queue := xs, ox_generator := GenHeld ev\<rparr>
     | EndMark \<Rightarrow> leave (Some (OtherException (quoted ''object'' @ '' object has no attribute '' @ quoted ''kind''))) (s\<lparr>ox_queue := xs\<rparr>))"

definition timed_out_event :: "opencode \<Rightarrow> kernel_event" where
  "timed_out_event A = Event AgentFailed [(''reason'', JStr ''timeout''), (''timeout_s'', od_timeout A)]"

definition ends_turn :: "kernel_event \<Rightarrow> bool" where
  "ends_turn ev = (case ev of Event k _ \<Rightarrow> k \<in> {AgentCompleted, AgentFailed} | Proposal _ \<Rightarrow> False)"

definition mismatch :: "tool_proposal \<Rightarrow> tool_result \<Rightarrow> exn" where
  "mismatch q r = RuntimeError (''ToolResult id mismatch: expected '' @ tu_id q @ '', got '' @ tr_tool_use_id r)"

text \<open>Going on after an event with what the caller sent; \<open>posted\<close> is what the server answers to a permission.\<close>

definition oc_resume :: "opencode \<Rightarrow> kernel_event \<Rightarrow> tool_result option \<Rightarrow> exn + unit \<Rightarrow> oc_state \<Rightarrow> oc_state" where
  "oc_resume A ev sent posted s = (case ev of
       Event _ _ \<Rightarrow> if ends_turn ev then leave None s else s\<lparr>ox_generator := GenWaiting\<rparr>
     | Proposal q \<Rightarrow> (case sent of
           None \<Rightarrow> leave (Some (RuntimeError ''spawn_agent expected ToolResult, got <class NoneType>'')) s
         | Some r \<Rightarrow> if tr_tool_use_id r \<noteq> tu_id q then leave (Some (mismatch q r)) s
             else if field (tu_payload q) ''source'' JNull = JStr ''mcp_proxy'' then (resolve_future (tu_id q) r s)\<lparr>ox_generator := GenWaiting\<rparr>
             else let perm = field (tu_payload q) ''permission_id'' JNull; s1 = respond_permission A perm r s in
               (case if perm = JNull then Inr () else posted of
                  Inl e \<Rightarrow> leave (Some e) s1 | Inr _ \<Rightarrow> s1\<lparr>ox_generator := GenWaiting\<rparr>)))"

section \<open>The system\<close>

datatype oc_action = Creates "json_obj \<Rightarrow> exn + json" "exn + kernel_event" | Submits "exn + unit" | Fetches sse_item | GivesUp
  | Resumes kernel_event "tool_result option" "exn + unit" | Receives json_obj | Crashes string | Drains
  | Proposes json_obj | Wakes nat | Expires nat

definition reader_hears :: "sse_item list \<Rightarrow> oc_state \<Rightarrow> oc_state" where
  "reader_hears items s = s\<lparr>ox_queue := ox_queue s @ items, ox_reader := (if EndMark \<in> set items then SseDone else ox_reader s)\<rparr>"

inductive oc_step :: "env \<Rightarrow> opencode \<Rightarrow> agent_persona \<Rightarrow> opencode_knobs option \<Rightarrow> string list \<Rightarrow> string \<Rightarrow> oc_state \<Rightarrow> oc_action \<Rightarrow> oc_state \<Rightarrow> bool"
  for E A p k tools aggregate_id where
  Create: "ox_generator s = GenNew \<Longrightarrow> create_session A p k tools aggregate_id create s = (r, s') \<Longrightarrow>
    oc_step E A p k tools aggregate_id s (Creates create r) s'"
| Submit: "ox_generator s = GenOpened \<Longrightarrow> oc_step E A p k tools aggregate_id s (Submits answer) (submit_prompt answer s)"
| Fetch: "ox_generator s = GenWaiting \<Longrightarrow> ox_queue s = x # xs \<Longrightarrow> oc_step E A p k tools aggregate_id s (Fetches x) (oc_fetch x xs s)"
| GiveUp: "ox_generator s = GenWaiting \<Longrightarrow>
    oc_step E A p k tools aggregate_id s GivesUp (s\<lparr>ox_generator := GenHeld (timed_out_event A)\<rparr>)"
| Resume: "ox_generator s = GenHeld ev \<Longrightarrow> oc_step E A p k tools aggregate_id s (Resumes ev sent posted) (oc_resume A ev sent posted s)"
| Receive: "ox_reader s = SseReading \<Longrightarrow> oc_step E A p k tools aggregate_id s (Receives ev) (reader_hears (sse_items A (ox_session_id s) ev) s)"
| Crash: "ox_reader s = SseReading \<Longrightarrow> oc_step E A p k tools aggregate_id s (Crashes e) (reader_hears (crash_items e) s)"
| Drain: "ox_reader s = SseReading \<Longrightarrow> oc_step E A p k tools aggregate_id s Drains (s\<lparr>ox_reader := SseDone\<rparr>)"
| Propose: "oc_step E A p k tools aggregate_id s (Proposes body) (handle_propose aggregate_id body s)"
| Wake: "(n, call) \<in> set (ox_open s) \<Longrightarrow> dict_get (ox_futures s) n = Some f \<Longrightarrow> f \<noteq> FPending \<Longrightarrow>
    oc_step E A p k tools aggregate_id s (Wakes n) (handler_wakes A n call f s)"
| Expire: "(n, call) \<in> set (ox_open s) \<Longrightarrow> dict_get (ox_futures s) n = Some FPending \<Longrightarrow>
    oc_step E A p k tools aggregate_id s (Expires n) (handler_expires n call s)"

inductive oc_path :: "env \<Rightarrow> opencode \<Rightarrow> agent_persona \<Rightarrow> opencode_knobs option \<Rightarrow> string list \<Rightarrow> string \<Rightarrow> oc_action list \<Rightarrow> oc_state \<Rightarrow> bool"
  for E A p k tools aggregate_id where
  Begins: "oc_path E A p k tools aggregate_id [] new_oc_state"
| Goes: "oc_path E A p k tools aggregate_id tr s \<Longrightarrow> oc_step E A p k tools aggregate_id s a s' \<Longrightarrow> oc_path E A p k tools aggregate_id (tr @ [a]) s'"

section \<open>Persona files\<close>

text \<open>The plain persona is called with the fields of the other.\<close>

definition load_persona_yaml :: "json \<Rightarrow> exn + json_obj" where
  "load_persona_yaml doc = (let raw = either doc (JObj []) in
     bindr (case raw of JObj m \<Rightarrow> Inr (field m ''kernel_overrides'' (JObj []))
       | JArr _ \<Rightarrow> Inl (TypeError ''pop expected at most 1 argument, got 2'') | _ \<Rightarrow> Inl (no_attribute raw ''pop'')) (\<lambda>o1. let overrides = either o1 (JObj []) in
     bindr (json_get overrides ''opencode'' (JObj [])) (\<lambda>b1. let opencode_block = either b1 (JObj []) in
     bindr (json_item raw ''name'') (\<lambda>_. bindr (json_item raw ''role'') (\<lambda>_. bindr (json_item raw ''goal'') (\<lambda>_.
     bindr (json_get opencode_block ''preferred_model'' (JStr ''anthropic/claude-opus-4-7'')) (\<lambda>_.
       Inl (TypeError (''AgentPersona.__init__() got an unexpected keyword argument '' @ quoted ''opencode_agent_name'')))))))))"

section \<open>Lemmas\<close>

definition requests :: "oc_action list \<Rightarrow> json_obj list" where
  "requests tr = List.map_filter (\<lambda>a. case a of Proposes body \<Rightarrow> Some body | _ \<Rightarrow> None) tr"

definition call_of :: "json_obj \<Rightarrow> string" where
  "call_of body = text_value (field body ''call_id'' JNull)"

text \<open>The caller answered a proposal it was given with this result, which names it.\<close>

definition decided :: "oc_action list \<Rightarrow> tool_proposal \<Rightarrow> tool_result \<Rightarrow> bool" where
  "decided tr q r \<longleftrightarrow> Fetches (Said (Proposal q)) \<in> set tr \<and> (\<exists>posted. Resumes (Proposal q) (Some r) posted \<in> set tr) \<and> tr_tool_use_id r = tu_id q"

definition asked_by :: "oc_action list \<Rightarrow> nat \<Rightarrow> string \<Rightarrow> bool" where
  "asked_by tr n call \<longleftrightarrow> n < length (requests tr) \<and> call_of (requests tr ! n) = call"

definition answered :: "oc_action list \<Rightarrow> nat \<Rightarrow> tool_result \<Rightarrow> bool" where
  "answered tr n r \<longleftrightarrow> (\<exists>q. decided tr q r \<and> asked_by tr n (tu_id q))"

lemma requests_snoc: "requests (tr @ [a]) = requests tr @ (case a of Proposes body \<Rightarrow> [body] | _ \<Rightarrow> [])"
  by (simp add: requests_def map_filter_def split: oc_action.split)

lemma decided_more: "decided tr q r \<Longrightarrow> decided (tr @ [a]) q r"
  by (auto simp: decided_def)

lemma asked_more: "asked_by tr n call \<Longrightarrow> asked_by (tr @ [a]) n call"
  by (auto simp: asked_by_def requests_snoc nth_append)

lemma answered_more: "answered tr n r \<Longrightarrow> answered (tr @ [a]) n r"
  using decided_more asked_more unfolding answered_def by blast

definition oc_inv :: "opencode \<Rightarrow> oc_action list \<Rightarrow> oc_state \<Rightarrow> bool" where
  "oc_inv A tr s \<longleftrightarrow> ox_requests s = length (requests tr) \<and>
     (\<forall>(call, n)\<in>set (ox_pending s). asked_by tr n call) \<and> (\<forall>(n, call)\<in>set (ox_open s). asked_by tr n call) \<and>
     (\<forall>n r. dict_get (ox_futures s) n = Some (FResult r) \<longrightarrow> answered tr n r) \<and>
     (\<forall>(n, status, doc)\<in>set (ox_replies s). status = 200 \<longrightarrow> (\<exists>r. answered tr n r \<and> doc = JObj (result_reply A r))) \<and>
     (\<forall>(perm, body)\<in>set (ox_posts s). \<exists>q r. decided tr q r \<and> field (tu_payload q) ''permission_id'' JNull = perm \<and> body = respond_body A r) \<and>
     (\<forall>ev. ox_generator s = GenHeld ev \<longrightarrow> (\<forall>q. ev = Proposal q \<longrightarrow> Fetches (Said ev) \<in> set tr))"

lemma inv_more:
  assumes "oc_inv A tr s" and "\<forall>body. a \<noteq> Proposes body"
  shows "oc_inv A (tr @ [a]) s"
proof -
  have "requests (tr @ [a]) = requests tr" using assms(2) by (cases a) (simp_all add: requests_snoc)
  with assms(1) asked_more [of tr _ _ a] answered_more [of tr _ _ a] decided_more [of tr _ _ a] show ?thesis
    unfolding oc_inv_def by (simp add: split_def) metis
qed

lemma inv_reply:
  "oc_inv A tr s \<Longrightarrow> (status = 200 \<Longrightarrow> \<exists>r. answered tr n r \<and> JObj doc = JObj (result_reply A r)) \<Longrightarrow> oc_inv A tr (http_reply n status doc s)"
  by (auto simp: oc_inv_def http_reply_def)

lemma inv_drop: "oc_inv A tr s \<Longrightarrow> oc_inv A tr (drop_pending call s)"
  by (auto simp: oc_inv_def drop_pending_def AList.delete_eq)

lemma inv_future: "oc_inv A tr s \<Longrightarrow> (\<And>r. f = FResult r \<Longrightarrow> answered tr n r) \<Longrightarrow> oc_inv A tr (s\<lparr>ox_futures := dict_set n f (ox_futures s)\<rparr>)"
  by (auto simp: oc_inv_def)

lemma inv_generator: "oc_inv A tr s \<Longrightarrow> (\<And>q. g \<noteq> GenHeld (Proposal q)) \<Longrightarrow> oc_inv A tr (s\<lparr>ox_generator := g\<rparr>)"
  by (auto simp: oc_inv_def)

lemma inv_other:
  assumes "oc_inv A tr s"
  shows "oc_inv A tr (s\<lparr>ox_queue := q\<rparr>)" "oc_inv A tr (s\<lparr>ox_reader := rd\<rparr>)" "oc_inv A tr (s\<lparr>ox_registered := b\<rparr>)" "oc_inv A tr (s\<lparr>ox_session_id := i\<rparr>)"
  using assms by (auto simp: oc_inv_def)

lemma dict_get_mapped: "dict_get (map (\<lambda>(n, f). (n, g n f)) d) k = map_option (g k) (dict_get d k)"
  by (induction d) (auto simp: dict_get_def)

lemma inv_leave:
  assumes "oc_inv A tr s"
  shows "oc_inv A tr (leave e s)"
proof -
  have f: "fail_future f = FResult r \<longleftrightarrow> f = FResult r" for f r by (cases f) (simp_all add: fail_future_def)
  have "answered tr n r" if "dict_get (ox_futures (leave e s)) n = Some (FResult r)" for n r
    using that f assms unfolding leave_def oc_inv_def by (simp add: dict_get_mapped split: if_splits) blast+
  with assms show ?thesis unfolding oc_inv_def by (simp add: leave_def)
qed

lemma inv_resolve:
  assumes "oc_inv A tr s" and "decided tr q r"
  shows "oc_inv A tr (resolve_future (tu_id q) r s)"
proof (cases "dict_get (ox_pending s) (tu_id q)")
  case None
  with assms(1) show ?thesis by (simp add: resolve_future_def)
next
  case (Some n)
  then have "(tu_id q, n) \<in> set (ox_pending s)" by (simp add: dict_get_def map_of_SomeD)
  with assms have "answered tr n r" by (auto simp: oc_inv_def answered_def)
  with inv_future [OF inv_drop [OF assms(1)], of "FResult r" n "tu_id q"] inv_drop [OF assms(1)] show ?thesis
    by (simp add: resolve_future_def Some drop_pending_def)
qed

lemma inv_respond:
  "oc_inv A tr s \<Longrightarrow> decided tr q r \<Longrightarrow> oc_inv A tr (respond_permission A (field (tu_payload q) ''permission_id'' JNull) r s)"
  by (auto simp: oc_inv_def respond_permission_def)

lemma inv_resume:
  assumes "oc_inv A tr s" and "ox_generator s = GenHeld ev"
  shows "oc_inv A (tr @ [Resumes ev sent posted]) (oc_resume A ev sent posted s)"
proof -
  have inv: "oc_inv A (tr @ [Resumes ev sent posted]) s" using inv_more [OF assms(1)] by simp
  show ?thesis
  proof (cases ev)
    case (Event kd x)
    with inv show ?thesis by (auto simp: oc_resume_def intro: inv_leave inv_generator)
  next
    case (Proposal q)
    show ?thesis
    proof (cases sent)
      case None
      with inv Proposal show ?thesis by (simp add: oc_resume_def inv_leave)
    next
      case (Some r)
      show ?thesis
      proof (cases "tr_tool_use_id r = tu_id q")
        case False
        with inv Proposal Some show ?thesis by (simp add: oc_resume_def inv_leave)
      next
        case True
        have "Fetches (Said (Proposal q)) \<in> set tr" using assms Proposal by (auto simp: oc_inv_def)
        with True Proposal Some have d: "decided (tr @ [Resumes ev sent posted]) q r" by (auto simp: decided_def)
        note inv_resolve [OF inv d] inv_respond [OF inv d]
        with True Proposal Some inv show ?thesis
          by (auto simp: oc_resume_def Let_def intro: inv_leave inv_generator split: sum.split)
      qed
    qed
  qed
qed

lemma asked_new: "n = length (requests tr) \<Longrightarrow> asked_by (tr @ [Proposes body]) n (call_of body)"
  by (simp add: asked_by_def requests_snoc)

lemma set_dict_set: "x \<in> set (dict_set k v d) \<Longrightarrow> x = (k, v) \<or> x \<in> set d"
  unfolding dict_set_def by (induction d) (auto split: if_splits)

lemma inv_propose:
  assumes "oc_inv A tr s"
  shows "oc_inv A (tr @ [Proposes body]) (handle_propose aggregate_id body s)"
proof -
  let ?tr = "tr @ [Proposes body]" and ?n = "ox_requests s" and ?s = "s\<lparr>ox_requests := Suc (ox_requests s)\<rparr>"
  have n: "?n = length (requests tr)" using assms by (simp add: oc_inv_def)
  have inv: "oc_inv A ?tr ?s"
    using assms asked_more [of tr _ _ "Proposes body"] answered_more [of tr _ _ "Proposes body"] decided_more [of tr _ _ "Proposes body"]
    unfolding oc_inv_def by (simp add: requests_snoc split_def) metis
  have "oc_inv A ?tr (?s\<lparr>ox_pending := dict_set (call_of body) ?n (ox_pending s), ox_futures := dict_set ?n FPending (ox_futures s),
      ox_queue := q, ox_open := ox_open s @ [(?n, call_of body)]\<rparr>)" for q
    using inv asked_new [OF n, of body] by (auto simp: oc_inv_def dest!: set_dict_set)
  with inv show ?thesis
    unfolding handle_propose_def Let_def call_of_def [symmetric] by (auto intro!: inv_reply)
qed

lemma inv_step:
  assumes "oc_step E A p k tools aggregate_id s a s'" and "oc_inv A tr s"
  shows "oc_inv A (tr @ [a]) s'"
  using assms(1)
proof (cases rule: oc_step.cases)
  case (Create create r)
  have "oc_inv A (tr @ [a]) s" using inv_more [OF assms(2)] Create by simp
  with Create show ?thesis by (auto simp: create_session_def intro!: inv_other inv_generator split: sum.splits)
next
  case (Submit answer)
  have "oc_inv A (tr @ [a]) s" using inv_more [OF assms(2)] Submit by simp
  with Submit show ?thesis by (auto simp: submit_prompt_def intro!: inv_other inv_generator split: sum.splits)
next
  case (Fetch x xs)
  have "oc_inv A (tr @ [a]) s" using inv_more [OF assms(2)] Fetch by simp
  with Fetch show ?thesis by (cases x) (auto simp: oc_fetch_def intro!: inv_other inv_leave, auto simp: oc_inv_def)
next
  case GiveUp
  have "oc_inv A (tr @ [a]) s" using inv_more [OF assms(2)] GiveUp by simp
  with GiveUp show ?thesis by (auto simp: timed_out_event_def intro!: inv_generator)
next
  case (Resume ev sent posted)
  with inv_resume [OF assms(2)] show ?thesis by simp
next
  case (Receive ev)
  have "oc_inv A (tr @ [a]) s" using inv_more [OF assms(2)] Receive by simp
  with Receive show ?thesis by (auto simp: reader_hears_def intro!: inv_other)
next
  case (Crash e)
  have "oc_inv A (tr @ [a]) s" using inv_more [OF assms(2)] Crash by simp
  with Crash show ?thesis by (auto simp: reader_hears_def intro!: inv_other)
next
  case Drain
  have "oc_inv A (tr @ [a]) s" using inv_more [OF assms(2)] Drain by simp
  with Drain show ?thesis by (auto intro!: inv_other)
next
  case (Propose body)
  with inv_propose [OF assms(2)] show ?thesis by simp
next
  case (Wake n call f)
  have inv: "oc_inv A (tr @ [a]) s" using inv_more [OF assms(2)] Wake by simp
  with Wake have "answered (tr @ [a]) n r" if "f = FResult r" for r using that by (auto simp: oc_inv_def)
  with inv Wake show ?thesis by (cases f) (auto simp: handler_wakes_def intro!: inv_reply inv_drop)
next
  case (Expire n call)
  have inv: "oc_inv A (tr @ [a]) s" using inv_more [OF assms(2)] Expire by simp
  with Expire show ?thesis by (auto simp: handler_expires_def intro!: inv_reply inv_drop inv_future)
qed

lemma inv_path: "oc_path E A p k tools aggregate_id tr s \<Longrightarrow> oc_inv A tr s"
proof (induction rule: oc_path.induct)
  case Begins
  then show ?case by (simp add: oc_inv_def new_oc_state_def requests_def map_filter_def)
next
  case (Goes tr s a s')
  then show ?case by (blast intro: inv_step)
qed

text \<open>The mark of the stream's end follows an event that ends the turn.\<close>

fun guarded_marks :: "sse_item list \<Rightarrow> bool" where
  "guarded_marks [] = True"
| "guarded_marks (EndMark # xs) = False"
| "guarded_marks (Said ev # xs) = (ends_turn ev \<or> guarded_marks xs)"

definition closing :: "oc_state \<Rightarrow> bool" where
  "closing s \<longleftrightarrow> (case ox_generator s of GenHeld ev \<Rightarrow> ends_turn ev | GenEnded _ \<Rightarrow> True | _ \<Rightarrow> False)"

lemma guarded_append: "guarded_marks xs \<Longrightarrow> guarded_marks ys \<Longrightarrow> guarded_marks (xs @ ys)"
  by (induction xs rule: guarded_marks.induct) auto

lemma guarded_translation: "translate_sse sid ev = Inr items \<Longrightarrow> guarded_marks items"
  by (auto simp: translate_sse_def delta_items_def ends_turn_def Let_def bindr_Inr split: json.splits if_splits)

lemma guarded_items: "guarded_marks (sse_items A sid ev)" "guarded_marks (crash_items e)"
  by (auto simp: sse_items_def crash_items_def ends_turn_def dest: guarded_translation split: sum.split)

lemma generator_kept [simp]:
  "ox_generator (http_reply n status doc s) = ox_generator s" "ox_queue (http_reply n status doc s) = ox_queue s"
  "ox_generator (drop_pending call s) = ox_generator s" "ox_queue (drop_pending call s) = ox_queue s"
  "ox_generator (reader_hears items s) = ox_generator s" "ox_queue (reader_hears items s) = ox_queue s @ items"
  "ox_generator (leave e s) = GenEnded e" "ox_queue (leave e s) = ox_queue s"
  "ox_queue (resolve_future call r s) = ox_queue s" "ox_queue (respond_permission A perm r s) = ox_queue s"
  "ox_generator (handle_propose agg body s) = ox_generator s"
  by (simp_all add: http_reply_def drop_pending_def reader_hears_def leave_def resolve_future_def respond_permission_def handle_propose_def
      Let_def split: option.split)

lemma propose_guarded: "guarded_marks (ox_queue s) \<Longrightarrow> guarded_marks (ox_queue (handle_propose agg body s))"
  by (auto simp: handle_propose_def Let_def intro: guarded_append)

lemma step_guarded:
  assumes "oc_step E A p k tools aggregate_id s a s'" and "guarded_marks (ox_queue s) \<or> closing s"
  shows "(guarded_marks (ox_queue s') \<or> closing s') \<and> a \<noteq> Fetches EndMark"
  using assms(1)
proof (cases rule: oc_step.cases)
  case (Create create r)
  with assms(2) show ?thesis by (auto simp: create_session_def closing_def split: sum.splits)
next
  case (Fetch x xs)
  with assms(2) have "guarded_marks (x # xs)" by (auto simp: closing_def)
  with Fetch show ?thesis by (cases x) (auto simp: oc_fetch_def closing_def)
next
  case (Resume ev sent posted)
  with assms(2) show ?thesis
    by (cases ev; cases sent) (auto simp: oc_resume_def closing_def ends_turn_def Let_def split: sum.split)
next
  case (Wake n call f)
  with assms(2) show ?thesis by (cases f) (auto simp: handler_wakes_def closing_def)
next
  case (Propose body)
  with assms(2) propose_guarded show ?thesis by (auto simp: closing_def)
qed (use assms(2) in \<open>auto simp: closing_def submit_prompt_def timed_out_event_def ends_turn_def handler_expires_def
    intro: guarded_append guarded_items split: sum.split\<close>)

lemma path_guarded: "oc_path E A p k tools aggregate_id tr s \<Longrightarrow> (guarded_marks (ox_queue s) \<or> closing s) \<and> Fetches EndMark \<notin> set tr"
proof (induction rule: oc_path.induct)
  case Begins
  then show ?case by (simp add: new_oc_state_def)
next
  case (Goes tr s a s')
  with step_guarded [OF Goes.hyps(2)] show ?case by auto
qed

text \<open>What the proxy's caller sees of a reply: the content the caller gave, or its error.\<close>

lemma proxy_gives_the_result:
  "call_back E aggregate_id t abstract (Http 200 (JObj (result_reply A r)) body) =
    Inr (JStr (if tr_is_error r then ''ERROR: '' @ result_text A r else result_text A r))"
  by (simp add: call_back_def result_reply_def json_has_def json_item_def json_get_def field_def dict_get_def py_str_def)

text \<open>A session's permissions ask or deny, and ask for nothing but the tools given.\<close>

lemma permissions_never_allow:
  "dict_get (fst (build_session_permissions ts)) w = (if w \<in> Option.these (wire_of ` set ts) then Some ''ask''
     else if w \<in> snd ` set opencode_builtin_tools then Some ''deny'' else None)"
proof -
  have deny: "dict_get (foldl (\<lambda>m (_, w). dict_set w ''deny'' m) d ps) w = (if w \<in> snd ` set ps then Some ''deny'' else dict_get d w)" for d ps
    by (induction ps arbitrary: d) (auto simp: case_prod_beta)
  have ask: "dict_get (fst (foldl (\<lambda>acc t. ask_for t acc) (d, ws) ts)) w =
      (if w \<in> Option.these (wire_of ` set ts) then Some ''ask'' else dict_get d w)" for d ws
    by (induction ts arbitrary: d ws) (auto simp: ask_for_def in_these_eq split: option.splits)
  show ?thesis unfolding build_session_permissions_def ask deny by simp
qed

text \<open>A persona file is never loaded.\<close>

lemma persona_files_never_load: "\<exists>e. load_persona_yaml doc = Inl e"
proof (cases "load_persona_yaml doc")
  case (Inr x)
  then show ?thesis by (auto simp: load_persona_yaml_def Let_def bindr_Inr)
qed simp

text \<open>A session for the plain persona has not begun or has failed.\<close>

definition unstarted :: "oc_state \<Rightarrow> bool" where
  "unstarted s \<longleftrightarrow> (ox_generator s = GenNew \<or> (\<exists>m. ox_generator s = GenEnded (Some (OtherException m)))) \<and> \<not> ox_registered s \<and>
     ox_reader s = SseIdle \<and> ox_posts s = [] \<and> ox_open s = [] \<and> (\<forall>(n, status, doc)\<in>set (ox_replies s). status \<in> {400, 404})"

lemma plain_body: "\<exists>m. session_body A p None permissions aggregate_id = Inl (OtherException m)"
  by (simp add: session_body_def knob_def bindr_Inl)

lemma step_unstarted:
  assumes "oc_step E A p None tools aggregate_id s a s'" and "unstarted s"
  shows "unstarted s' \<and> ((\<exists>create m. a = Creates create (Inl (OtherException m))) \<or> (\<exists>body. a = Proposes body))"
  using assms(1)
proof (cases rule: oc_step.cases)
  case (Create create r)
  obtain m where "session_body A p None (fst (build_session_permissions (client_abstract p tools))) aggregate_id = Inl (OtherException m)"
    using plain_body by blast
  with Create assms(2) show ?thesis by (auto simp: create_session_def unstarted_def bindr_simps)
next
  case (Propose body)
  with assms(2) show ?thesis by (auto simp: unstarted_def handle_propose_def http_reply_def Let_def)
qed (use assms(2) in \<open>auto simp: unstarted_def\<close>)

section \<open>Properties\<close>

text \<open>C36: With OpenCode a tool runs on the caller's word only. In every run, each permission that is answered to the
  server is that of a proposal the caller was given, and says what the caller decided on it, allow exactly
  when its result is no error; each request of the proxy that is answered with success gets, in the model's hands, the
  content, or the error, that the caller gave to a proposal with the call's own id. The mark that ends the
  stream of the server is never taken for an event.\<close>

theorem opencode_acts_on_the_callers_word:
  assumes "oc_path E A p k tools aggregate_id tr s"
  shows "(\<forall>(perm, body)\<in>set (ox_posts s). \<exists>q r. decided tr q r \<and> field (tu_payload q) ''permission_id'' JNull = perm \<and>
      body = respond_body A r \<and> (field body ''decision'' JNull = JStr ''allow'' \<longleftrightarrow> \<not> tr_is_error r)) \<and>
    (\<forall>(n, status, doc)\<in>set (ox_replies s). status = 200 \<longrightarrow> (\<exists>q r. decided tr q r \<and> asked_by tr n (tu_id q) \<and>
      (\<forall>t abstract body. call_back E aggregate_id t abstract (Http status doc body) =
        Inr (JStr (if tr_is_error r then ''ERROR: '' @ result_text A r else result_text A r))))) \<and>
    Fetches EndMark \<notin> set tr"
proof -
  have allow: "field (respond_body A r) ''decision'' JNull = JStr ''allow'' \<longleftrightarrow> \<not> tr_is_error r" for r
    by (simp add: respond_body_def field_def dict_get_def)
  from inv_path [OF assms] have posts: "\<forall>(perm, body)\<in>set (ox_posts s). \<exists>q r. decided tr q r \<and>
      field (tu_payload q) ''permission_id'' JNull = perm \<and> body = respond_body A r"
    and replies: "\<forall>(n, status, doc)\<in>set (ox_replies s). status = 200 \<longrightarrow> (\<exists>r. answered tr n r \<and> doc = JObj (result_reply A r))"
    by (simp_all add: oc_inv_def)
  from posts allow have "\<forall>(perm, body)\<in>set (ox_posts s). \<exists>q r. decided tr q r \<and> field (tu_payload q) ''permission_id'' JNull = perm \<and>
      body = respond_body A r \<and> (field body ''decision'' JNull = JStr ''allow'' \<longleftrightarrow> \<not> tr_is_error r)" by fast
  moreover have "\<forall>(n, status, doc)\<in>set (ox_replies s). status = 200 \<longrightarrow> (\<exists>q r. decided tr q r \<and> asked_by tr n (tu_id q) \<and>
      (\<forall>t abstract body. call_back E aggregate_id t abstract (Http status doc body) =
        Inr (JStr (if tr_is_error r then ''ERROR: '' @ result_text A r else result_text A r))))"
    using replies proxy_gives_the_result unfolding answered_def by fast
  ultimately show ?thesis using path_guarded [OF assms] by blast
qed

text \<open>A session in which the proxy calls a tool\<close>

definition demo_opencode :: opencode where
  "demo_opencode = \<lparr>od_workdir = ''/w'', od_mcp_command = [], od_backchannel_url = None, od_proxy_timeout = 120, od_timeout = JInt 600,
     od_dumps = (\<lambda>_. ''{}''), od_dumps_indented = (\<lambda>_. ''{}''), od_repr_exn = (\<lambda>_. ''error'')\<rparr>"

definition demo_knobs :: opencode_knobs where
  "demo_knobs = \<lparr>ok_agent_name = ''forge'', ok_template = ''build'', ok_extra_options = []\<rparr>"

definition demo_request :: json_obj where
  "demo_request = [(''aggregate_id'', JStr ''run''), (''call_id'', JStr ''c1''), (''abstract_tool'', JStr ''ReadLKG''), (''inputs'', JObj [])]"

definition demo_verdict :: tool_result where
  "demo_verdict = \<lparr>tr_tool_use_id = ''c1'', tr_content = JStr ''lessons'', tr_is_error = False\<rparr>"

definition demo_mcp_proposal :: tool_proposal where
  "demo_mcp_proposal = mcp_proposal ''run'' ''c1'' ''ReadLKG'' (either (JObj []) (JObj []))"

definition demo_create :: "json_obj \<Rightarrow> exn + json" where
  "demo_create _ = Inr (JObj [(''id'', JStr ''s1'')])"

definition demo_session :: "agent_persona \<Rightarrow> oc_action list" where
  "demo_session p = [Creates demo_create (Inr (opencode_started p [] ''forge'' (JStr ''s1''))), Submits (Inr ()), Proposes demo_request,
     Fetches (Said (Proposal demo_mcp_proposal)), Resumes (Proposal demo_mcp_proposal) (Some demo_verdict) (Inr ()), Wakes 0]"

lemma demo_session_path:
  "\<exists>s. oc_path demo_env demo_opencode p (Some demo_knobs) [] ''run'' (demo_session p) s \<and>
    ox_replies s = [(0, 200, JObj (result_reply demo_opencode demo_verdict))]"
proof -
  let ?path = "oc_path demo_env demo_opencode p (Some demo_knobs) [] ''run''"
  let ?ev = "opencode_started p [] ''forge'' (JStr ''s1'')"
  let ?s1 = "new_oc_state\<lparr>ox_registered := True, ox_session_id := JStr ''s1'', ox_generator := GenOpened\<rparr>"
  let ?s2 = "new_oc_state\<lparr>ox_registered := True, ox_session_id := JStr ''s1'', ox_generator := GenWaiting, ox_reader := SseReading\<rparr>"
  let ?s3 = "?s2\<lparr>ox_requests := 1, ox_pending := [(''c1'', 0)], ox_futures := [(0, FPending)], ox_open := [(0, ''c1'')],
    ox_queue := [Said (Proposal demo_mcp_proposal)]\<rparr>"
  let ?s4 = "?s3\<lparr>ox_queue := [], ox_generator := GenHeld (Proposal demo_mcp_proposal)\<rparr>"
  let ?s5 = "?s4\<lparr>ox_generator := GenWaiting, ox_pending := [], ox_futures := [(0, FResult demo_verdict)]\<rparr>"
  let ?s6 = "?s5\<lparr>ox_open := [], ox_replies := [(0, 200, JObj (result_reply demo_opencode demo_verdict))]\<rparr>"
  have "create_session demo_opencode p (Some demo_knobs) [] ''run'' demo_create new_oc_state = (Inr ?ev, ?s1)"
    by (simp add: create_session_def session_body_def knob_def demo_knobs_def demo_opencode_def demo_create_def json_item_def dict_get_def
        bindr_simps new_oc_state_def Let_def)
  from oc_path.Goes [OF oc_path.Begins oc_step.Create [OF _ this]]
  have p1: "?path [Creates demo_create (Inr ?ev)] ?s1" by (simp add: new_oc_state_def)
  from oc_path.Goes [OF p1 oc_step.Submit [of ?s1 _ _ _ _ _ _ "Inr ()"]]
  have p2: "?path [Creates demo_create (Inr ?ev), Submits (Inr ())] ?s2" by (simp add: submit_prompt_def new_oc_state_def)
  have "handle_propose ''run'' demo_request ?s2 = ?s3"
    by (simp add: handle_propose_def demo_request_def field_def dict_get_def text_value_def new_oc_state_def dict_set_def demo_mcp_proposal_def Let_def)
  with oc_path.Goes [OF p2 oc_step.Propose [of _ _ _ _ _ _ ?s2 demo_request]]
  have p3: "?path [Creates demo_create (Inr ?ev), Submits (Inr ()), Proposes demo_request] ?s3" by simp
  from oc_path.Goes [OF p3 oc_step.Fetch [of ?s3 "Said (Proposal demo_mcp_proposal)" "[]"]]
  have p4: "?path [Creates demo_create (Inr ?ev), Submits (Inr ()), Proposes demo_request, Fetches (Said (Proposal demo_mcp_proposal))] ?s4"
    by (simp add: oc_fetch_def new_oc_state_def)
  have "oc_resume demo_opencode (Proposal demo_mcp_proposal) (Some demo_verdict) (Inr ()) ?s4 = ?s5"
    by (simp add: oc_resume_def demo_verdict_def demo_mcp_proposal_def mcp_proposal_def field_def dict_get_def resolve_future_def drop_pending_def
        dict_set_def new_oc_state_def)
  with oc_path.Goes [OF p4 oc_step.Resume [of ?s4 "Proposal demo_mcp_proposal" _ _ _ _ _ _ "Some demo_verdict" "Inr ()"]]
  have p5: "?path [Creates demo_create (Inr ?ev), Submits (Inr ()), Proposes demo_request, Fetches (Said (Proposal demo_mcp_proposal)),
      Resumes (Proposal demo_mcp_proposal) (Some demo_verdict) (Inr ())] ?s5" by simp
  have "handler_wakes demo_opencode 0 ''c1'' (FResult demo_verdict) ?s5 = ?s6"
    by (simp add: handler_wakes_def http_reply_def new_oc_state_def)
  with oc_path.Goes [OF p5 oc_step.Wake [of 0 "''c1''" ?s5 "FResult demo_verdict"]]
  have "?path (demo_session p) ?s6" by (simp add: demo_session_def dict_get_def)
  then show ?thesis by (intro exI [of _ ?s6]) simp
qed

lemma opencode_acts_on_the_callers_word_witness:
  "\<exists>q r. decided (demo_session (agent_def_to_persona demo_persona)) q r \<and> asked_by (demo_session (agent_def_to_persona demo_persona)) 0 (tu_id q) \<and>
    call_back demo_env ''run'' ''120.0'' ''ReadLKG'' (Http 200 (JObj (result_reply demo_opencode demo_verdict)) ''lessons'') =
      Inr (JStr (if tr_is_error r then ''ERROR: '' @ result_text demo_opencode r else result_text demo_opencode r))"
proof -
  let ?p = "agent_def_to_persona demo_persona"
  obtain s where path: "oc_path demo_env demo_opencode ?p (Some demo_knobs) [] ''run'' (demo_session ?p) s"
    and replies: "ox_replies s = [(0, 200, JObj (result_reply demo_opencode demo_verdict))]" using demo_session_path by blast
  have mem: "(0, 200, JObj (result_reply demo_opencode demo_verdict)) \<in> set (ox_replies s)" using replies by simp
  from bspec [OF conjunct1 [OF conjunct2 [OF opencode_acts_on_the_callers_word [OF path]]] mem]
  show ?thesis unfolding prod.case by blast
qed

text \<open>With OpenCode no agent of the pipeline runs. The bridge gives every adapter a plain persona, which has none of the
  fields this adapter reads: whatever the server would answer, creating the session raises, nothing is submitted or
  yielded, no permission is answered, and the proxy's requests are refused.\<close>

lemma plain_personas_never_run:
  assumes "oc_path E A p None tools aggregate_id tr s"
  shows "unstarted s \<and> (\<forall>a\<in>set tr. (\<exists>create m. a = Creates create (Inl (OtherException m))) \<or> (\<exists>body. a = Proposes body))"
  using assms
proof (induction rule: oc_path.induct)
  case Begins
  then show ?case by (simp add: unstarted_def new_oc_state_def)
next
  case (Goes tr s a s')
  with step_unstarted [OF Goes.hyps(2)] show ?case by auto
qed

lemma plain_personas_never_run_witness:
  "\<exists>s m. oc_path demo_env demo_opencode (agent_def_to_persona demo_persona) None [] ''run'' [Creates demo_create (Inl (OtherException m))] s \<and> unstarted s"
proof -
  let ?p = "agent_def_to_persona demo_persona"
  obtain m where "session_body demo_opencode ?p None (fst (build_session_permissions (client_abstract ?p []))) ''run'' = Inl (OtherException m)"
    using plain_body by blast
  then have "create_session demo_opencode ?p None [] ''run'' demo_create new_oc_state = (Inl (OtherException m),
      new_oc_state\<lparr>ox_registered := False, ox_generator := GenEnded (Some (OtherException m))\<rparr>)" by (simp add: create_session_def bindr_simps)
  from oc_path.Goes [OF oc_path.Begins oc_step.Create [OF _ this]]
  have "oc_path demo_env demo_opencode ?p None [] ''run'' [Creates demo_create (Inl (OtherException m))]
      (new_oc_state\<lparr>ox_registered := False, ox_generator := GenEnded (Some (OtherException m))\<rparr>)" by (simp add: new_oc_state_def)
  with plain_personas_never_run [OF this] show ?thesis by blast
qed

end
