(* ===== verification/Harness.thy ===== *)
theory Harness imports Bridge begin

text \<open>
  The comparison of kernels, \<open>harness/comparison_harness.py\<close>: the judges that answer proposals, the recorder of a run, the
  loop that drives one adapter, the statistics over repeats, the drift between outputs and the orchestration.
  An adapter is a generator, as for the bridge. Clock readings are a parameter, numbered by the calls that read
  it. The time limit of a run is the number of resumptions that end in time, \<open>hb_limit\<close>; an adapter's own
  \<open>TimeoutError\<close> counts as any other error. How alike two texts are for \<open>difflib\<close>, and what \<open>json.loads\<close> reads, are
  parameters too. What closing a generator does is not modelled.
\<close>

section \<open>Tasks and judges\<close>

record bench_task =
  bt_task_id :: string
  bt_context :: string
  bt_tools :: "string list"
  bt_expected :: "string list"

type_synonym judge = "tool_proposal \<Rightarrow> bench_task \<Rightarrow> exn + tool_result"

definition auto_approve :: "json \<Rightarrow> judge" where
  "auto_approve content q t = Inr \<lparr>tr_tool_use_id = tu_id q, tr_content = content, tr_is_error = False\<rparr>"

definition scripted_judge :: "(string, json \<times> bool) dict \<Rightarrow> json \<times> bool \<Rightarrow> judge" where
  "scripted_judge script fallback q t = (case (case dict_get script (tu_abstract q) of Some x \<Rightarrow> x | None \<Rightarrow> fallback) of
     (content, is_error) \<Rightarrow> Inr \<lparr>tr_tool_use_id = tu_id q, tr_content = content, tr_is_error = is_error\<rparr>)"

section \<open>The recorder\<close>

datatype bench_status = RunCompleted | RunFailed | RunTimeout | RunError

record bench_result =
  rr_kernel_id :: string
  rr_task_id :: string
  rr_run_index :: nat
  rr_status :: bench_status
  rr_wall_clock :: real
  rr_first_event :: "real option"
  rr_first_token :: "real option"
  rr_completion :: "real option"
  rr_num_proposals :: nat
  rr_overhead :: real
  rr_text_chars :: nat
  rr_thinking_chars :: nat
  rr_input_tokens :: "int option"
  rr_output_tokens :: "int option"
  rr_server_execs :: nat
  rr_event_counts :: "(event_kind, nat) dict"
  rr_final_output :: string
  rr_error :: "string option"

definition run_ok :: "bench_result \<Rightarrow> bool" where
  "run_ok r \<longleftrightarrow> rr_status r = RunCompleted"

record recorder =
  rec_start :: real
  rec_first_event :: "real option"
  rec_first_token :: "real option"
  rec_completion :: "real option"
  rec_pending_send :: "real option"
  rec_num_proposals :: nat
  rec_overhead :: real
  rec_text_chars :: nat
  rec_thinking_chars :: nat
  rec_in_tokens :: "int option"
  rec_out_tokens :: "int option"
  rec_server_execs :: nat
  rec_event_counts :: "(event_kind, nat) dict"
  rec_text_parts :: "string list"
  rec_agent_failed :: bool

definition new_recorder :: "real \<Rightarrow> recorder" where
  "new_recorder t0 = \<lparr>rec_start = t0, rec_first_event = None, rec_first_token = None, rec_completion = None, rec_pending_send = None,
     rec_num_proposals = 0, rec_overhead = 0, rec_text_chars = 0, rec_thinking_chars = 0, rec_in_tokens = None, rec_out_tokens = None,
     rec_server_execs = 0, rec_event_counts = [], rec_text_parts = [], rec_agent_failed = False\<rparr>"

definition mark_send :: "real \<Rightarrow> recorder \<Rightarrow> recorder" where
  "mark_send now s = s\<lparr>rec_pending_send := Some now\<rparr>"

text \<open>\<open>isinstance(v, int)\<close>, of which the booleans are a part\<close>

definition int_value :: "json \<Rightarrow> int option" where
  "int_value j = (case j of JInt i \<Rightarrow> Some i | JBool b \<Rightarrow> Some (of_bool b) | _ \<Rightarrow> None)"

fun first_int :: "json_obj \<Rightarrow> string list \<Rightarrow> int option" where
  "first_int d [] = None"
| "first_int d (k # ks) = (case int_value (field d k JNull) of Some i \<Rightarrow> Some i | None \<Rightarrow> first_int d ks)"

definition int_or :: "int option \<Rightarrow> int option \<Rightarrow> int option" where
  "int_or a b = (case a of Some i \<Rightarrow> if i = 0 then b else a | None \<Rightarrow> b)"

definition usage_keys :: "string list" where
  "usage_keys = [''usage'', ''token_usage'', ''tokenUsage'', ''tokens'']"

definition absorb_key :: "json_obj \<Rightarrow> string \<Rightarrow> recorder \<Rightarrow> recorder" where
  "absorb_key payload k s = (case dict_get payload k of None \<Rightarrow> s
     | Some (JObj u) \<Rightarrow> s\<lparr>rec_in_tokens := int_or (first_int u [''input_tokens'', ''prompt_tokens'', ''input'', ''in'']) (rec_in_tokens s),
         rec_out_tokens := int_or (first_int u [''output_tokens'', ''completion_tokens'', ''output'', ''out'']) (rec_out_tokens s)\<rparr>
     | Some u \<Rightarrow> (case int_value u of Some i \<Rightarrow> s\<lparr>rec_out_tokens := Some i\<rparr> | None \<Rightarrow> s))"

definition absorb_usage :: "json_obj \<Rightarrow> recorder \<Rightarrow> recorder" where
  "absorb_usage payload s = foldl (\<lambda>s k. absorb_key payload k s) s usage_keys"

definition event_kind_of :: "kernel_event \<Rightarrow> event_kind" where
  "event_kind_of ev = (case ev of Event k _ \<Rightarrow> k | Proposal _ \<Rightarrow> ToolUseProposed)"

definition payload_of :: "kernel_event \<Rightarrow> json_obj" where
  "payload_of ev = (case ev of Event _ x \<Rightarrow> x | Proposal q \<Rightarrow> tu_payload q)"

definition text_of :: "env \<Rightarrow> kernel_event \<Rightarrow> string" where
  "text_of E ev = py_str E (field (payload_of ev) ''text'' (JStr []))"

definition observe_time :: "real \<Rightarrow> recorder \<Rightarrow> recorder" where
  "observe_time now s = s\<lparr>rec_first_event := (case rec_first_event s of None \<Rightarrow> Some now | t \<Rightarrow> t),
     rec_overhead := (case rec_pending_send s of Some t \<Rightarrow> rec_overhead s + (now - t) | None \<Rightarrow> rec_overhead s), rec_pending_send := None\<rparr>"

definition count_event :: "event_kind \<Rightarrow> recorder \<Rightarrow> recorder" where
  "count_event k s = s\<lparr>rec_event_counts := dict_set k (Suc (case dict_get (rec_event_counts s) k of Some n \<Rightarrow> n | None \<Rightarrow> 0)) (rec_event_counts s)\<rparr>"

definition observe_kind :: "env \<Rightarrow> real \<Rightarrow> kernel_event \<Rightarrow> recorder \<Rightarrow> recorder" where
  "observe_kind E now ev s = (case event_kind_of ev of
       TextDelta \<Rightarrow> s\<lparr>rec_text_chars := rec_text_chars s + length (text_of E ev), rec_text_parts := rec_text_parts s @ [text_of E ev],
         rec_first_token := (if rec_first_token s = None \<and> text_of E ev \<noteq> [] then Some now else rec_first_token s)\<rparr>
     | ThinkingDelta \<Rightarrow> s\<lparr>rec_thinking_chars := rec_thinking_chars s + length (text_of E ev)\<rparr>
     | ToolUseProposed \<Rightarrow> s\<lparr>rec_num_proposals := Suc (rec_num_proposals s)\<rparr>
     | ServerToolExecuted \<Rightarrow> s\<lparr>rec_server_execs := Suc (rec_server_execs s)\<rparr>
     | AgentFailed \<Rightarrow> s\<lparr>rec_agent_failed := True, rec_completion := Some now\<rparr>
     | AgentCompleted \<Rightarrow> s\<lparr>rec_completion := Some now\<rparr>
     | _ \<Rightarrow> s)"

definition observe :: "env \<Rightarrow> real \<Rightarrow> kernel_event \<Rightarrow> recorder \<Rightarrow> recorder" where
  "observe E now ev s = absorb_usage (payload_of ev) (observe_kind E now ev (count_event (event_kind_of ev) (observe_time now s)))"

definition finish :: "string \<Rightarrow> string \<Rightarrow> nat \<Rightarrow> real \<Rightarrow> bench_status \<Rightarrow> string option \<Rightarrow> recorder \<Rightarrow> bench_result" where
  "finish kernel_id task_id i now status error s = (let rel = map_option (\<lambda>t. t - rec_start s) in
     \<lparr>rr_kernel_id = kernel_id, rr_task_id = task_id, rr_run_index = i,
      rr_status = (if status = RunCompleted \<and> rec_agent_failed s then RunFailed else status),
      rr_wall_clock = now - rec_start s, rr_first_event = rel (rec_first_event s), rr_first_token = rel (rec_first_token s),
      rr_completion = rel (rec_completion s), rr_num_proposals = rec_num_proposals s, rr_overhead = rec_overhead s,
      rr_text_chars = rec_text_chars s, rr_thinking_chars = rec_thinking_chars s, rr_input_tokens = rec_in_tokens s,
      rr_output_tokens = rec_out_tokens s, rr_server_execs = rec_server_execs s, rr_event_counts = rec_event_counts s,
      rr_final_output = strip (concat (rec_text_parts s)), rr_error = error\<rparr>)"

section \<open>One run\<close>

record bench =
  hb_clock :: "nat \<Rightarrow> real"
  hb_limit :: nat
  hb_timeout :: string
  hb_exn_text :: "exn \<Rightarrow> string"

datatype drive_end = DriveDone | DriveLate | DriveRaised exn

text \<open>The clock has been read \<open>k\<close> times; an answered proposal is sent with the judge's result.\<close>

definition judged :: "bench \<Rightarrow> judge \<Rightarrow> bench_task \<Rightarrow> tool_proposal option \<Rightarrow> recorder \<times> nat \<Rightarrow> exn + tool_result option \<times> recorder \<times> nat" where
  "judged H J t pending = (\<lambda>(s, k). case pending of None \<Rightarrow> Inr (None, s, k)
     | Some q \<Rightarrow> bindr (J q t) (\<lambda>r. Inr (Some r, mark_send (hb_clock H k) s, Suc k)))"

definition proposal_in :: "kernel_event \<Rightarrow> tool_proposal option" where
  "proposal_in ev = (case ev of Proposal q \<Rightarrow> Some q | Event _ _ \<Rightarrow> None)"

fun drive :: "env \<Rightarrow> bench \<Rightarrow> judge \<Rightarrow> bench_task \<Rightarrow> 'g generator \<Rightarrow> nat \<Rightarrow> 'g \<Rightarrow> tool_proposal option \<Rightarrow> recorder \<times> nat \<Rightarrow> world
    \<Rightarrow> drive_end \<times> (recorder \<times> nat) \<times> world" where
  "drive E H J t step 0 g pending s w = (case judged H J t pending s of Inl e \<Rightarrow> (DriveRaised e, s, w) | Inr (_, s1) \<Rightarrow> (DriveLate, s1, w))"
| "drive E H J t step (Suc n) g pending s w = (case judged H J t pending s of Inl e \<Rightarrow> (DriveRaised e, s, w)
     | Inr (send, s1) \<Rightarrow> (case step g send w of
         (Inl e, w1) \<Rightarrow> (DriveRaised e, s1, w1)
       | (Inr None, w1) \<Rightarrow> (DriveDone, s1, w1)
       | (Inr (Some (ev, g')), w1) \<Rightarrow> drive E H J t step n g' (proposal_in ev)
           (observe E (hb_clock H (snd s1)) ev (fst s1), Suc (snd s1)) w1))"

definition safe_kernel_id :: "exn + kernel_capabilities \<Rightarrow> string \<Rightarrow> string" where
  "safe_kernel_id caps class_name = (case caps of Inr c \<Rightarrow> kc_kernel_id c | Inl _ \<Rightarrow> class_name)"

record 'g kernel =
  kn_caps :: "exn + kernel_capabilities"
  kn_class :: string
  kn_step :: "'g generator"
  kn_start :: "'g starter"

definition run_aggregate :: "string \<Rightarrow> bench_task \<Rightarrow> nat \<Rightarrow> string" where
  "run_aggregate kernel_id t i = kernel_id @ ''-'' @ bt_task_id t @ ''-'' @ show_nat i"

definition run_kernel_once :: "env \<Rightarrow> bench \<Rightarrow> 'g kernel \<Rightarrow> agent_persona \<Rightarrow> bench_task \<Rightarrow> judge \<Rightarrow> nat \<Rightarrow> nat \<times> world
    \<Rightarrow> bench_result \<times> nat \<times> world" where
  "run_kernel_once E H K p t J i = (\<lambda>(k, w). let kernel_id = safe_kernel_id (kn_caps K) (kn_class K);
       g = kn_start K p (bt_context t) (if bt_tools t = [] then ap_allowed_tools p else bt_tools t) (run_aggregate kernel_id t i) in
     case drive E H J t (kn_step K) (hb_limit H) g None (new_recorder (hb_clock H k), Suc k) w of
       (how, (s, k1), w1) \<Rightarrow> (finish kernel_id (bt_task_id t) i (hb_clock H k1)
         (case how of DriveDone \<Rightarrow> RunCompleted | DriveLate \<Rightarrow> RunTimeout | DriveRaised _ \<Rightarrow> RunError)
         (case how of DriveDone \<Rightarrow> None | DriveLate \<Rightarrow> Some (''timeout after '' @ hb_timeout H @ ''s'')
           | DriveRaised e \<Rightarrow> Some (hb_exn_text H e)) s, Suc k1, w1))"

section \<open>Statistics\<close>

record metric_stats =
  mt_mean :: "real option"
  mt_median :: "real option"
  mt_stdev :: "real option"
  mt_min :: "real option"
  mt_max :: "real option"
  mt_n :: nat

definition average :: "real list \<Rightarrow> real" where
  "average xs = sum_list xs / real (length xs)"

definition median :: "real list \<Rightarrow> real" where
  "median xs = (let ys = sort xs; n = length ys; h = n div 2 in if odd n then ys ! h else (ys ! (h - 1) + ys ! h) / 2)"

definition sample_stdev :: "real list \<Rightarrow> real" where
  "sample_stdev xs = sqrt (sum_list (map (\<lambda>x. (x - average xs)\<^sup>2) xs) / (real (length xs) - 1))"

definition metric_stats_of :: "real option list \<Rightarrow> metric_stats" where
  "metric_stats_of values = (let xs = List.map_filter id values in
     if xs = [] then \<lparr>mt_mean = None, mt_median = None, mt_stdev = None, mt_min = None, mt_max = None, mt_n = 0\<rparr>
     else \<lparr>mt_mean = Some (average xs), mt_median = Some (median xs),
       mt_stdev = Some (if length xs > 1 then sample_stdev xs else 0),
       mt_min = Some (Min (set xs)), mt_max = Some (Max (set xs)), mt_n = length xs\<rparr>)"

record kernel_task_summary =
  ks_kernel_id :: string
  ks_task_id :: string
  ks_runs :: nat
  ks_successes :: nat
  ks_success_rate :: real
  ks_statuses :: "(bench_status, nat) dict"
  ks_wall_clock :: metric_stats
  ks_first_token :: metric_stats
  ks_completion :: metric_stats
  ks_overhead :: metric_stats
  ks_num_proposals :: metric_stats
  ks_text_chars :: metric_stats
  ks_thinking_chars :: metric_stats
  ks_output_tokens :: metric_stats
  ks_errors :: "string list"

definition count_status :: "(bench_status, nat) dict \<Rightarrow> bench_result \<Rightarrow> (bench_status, nat) dict" where
  "count_status m r = dict_set (rr_status r) (Suc (case dict_get m (rr_status r) of Some n \<Rightarrow> n | None \<Rightarrow> 0)) m"

definition summarize_runs :: "string \<Rightarrow> string \<Rightarrow> bench_result list \<Rightarrow> kernel_task_summary" where
  "summarize_runs kernel_id task_id runs = (let ok = filter run_ok runs in
     \<lparr>ks_kernel_id = kernel_id, ks_task_id = task_id, ks_runs = length runs, ks_successes = length ok,
      ks_success_rate = (if runs = [] then 0 else real (length ok) / real (length runs)),
      ks_statuses = foldl count_status [] runs,
      ks_wall_clock = metric_stats_of (map (Some \<circ> rr_wall_clock) ok), ks_first_token = metric_stats_of (map rr_first_token ok),
      ks_completion = metric_stats_of (map rr_completion ok), ks_overhead = metric_stats_of (map (Some \<circ> rr_overhead) ok),
      ks_num_proposals = metric_stats_of (map (Some \<circ> real \<circ> rr_num_proposals) ok), ks_text_chars = metric_stats_of (map (Some \<circ> real \<circ> rr_text_chars) ok),
      ks_thinking_chars = metric_stats_of (map (Some \<circ> real \<circ> rr_thinking_chars) ok),
      ks_output_tokens = metric_stats_of (map (map_option real_of_int \<circ> rr_output_tokens) ok),
      ks_errors = filter (\<lambda>e. e \<noteq> []) (List.map_filter rr_error runs)\<rparr>)"

section \<open>Drift\<close>

record drift_report =
  df_task_id :: string
  df_outputs :: "(string, string) dict"
  df_similarity :: "(string, (string, real) dict) dict"
  df_min_pairwise :: "real option"
  df_high_drift :: "(string \<times> string \<times> real) list"
  df_json_conformant :: "(string, bool) dict"
  df_missing_required :: "(string, json list) dict"
  df_expected_hits :: "(string, string list) dict"

record text_tools =
  tt_ratio :: "string \<Rightarrow> string \<Rightarrow> real"
  tt_loads :: "string \<Rightarrow> exn + json"

fun kernel_pairs :: "text_tools \<Rightarrow> (string \<times> string) list \<Rightarrow> (string \<times> string \<times> real) list" where
  "kernel_pairs T [] = []"
| "kernel_pairs T ((a, x) # rest) = map (\<lambda>(b, y). (a, b, tt_ratio T x y)) rest @ kernel_pairs T rest"

definition set_similarity :: "string \<Rightarrow> string \<Rightarrow> real \<Rightarrow> (string, (string, real) dict) dict \<Rightarrow> (string, (string, real) dict) dict" where
  "set_similarity a b r m = dict_set a (dict_set b r (case dict_get m a of Some row \<Rightarrow> row | None \<Rightarrow> [])) m"

fun similarity_of :: "text_tools \<Rightarrow> (string \<times> string) list \<Rightarrow> (string, (string, real) dict) dict \<Rightarrow> (string, (string, real) dict) dict" where
  "similarity_of T [] m = m"
| "similarity_of T ((a, x) # rest) m = similarity_of T rest (set_similarity a a 1
     (foldl (\<lambda>m (b, y). set_similarity b a (tt_ratio T x y) (set_similarity a b (tt_ratio T x y) m)) m rest))"

definition strip_ticks :: "string \<Rightarrow> string" where
  "strip_ticks s = (let tick = (\<lambda>c. c = char_of (96::nat)) in rev (dropWhile tick (rev (dropWhile tick s))))"

definition try_json :: "text_tools \<Rightarrow> string \<Rightarrow> json_obj option" where
  "try_json T text0 = (let s = strip text0;
       s1 = (if starts_with (replicate 3 (char_of (96::nat))) s
         then let u = strip_ticks s in if starts_with ''json'' (lower u) then drop 4 u else u else s) in
     case tt_loads T s1 of Inr (JObj m) \<Rightarrow> Some m | _ \<Rightarrow> None)"

definition required_fields :: "json_obj \<Rightarrow> exn + json list" where
  "required_fields contract = (if field contract ''type'' JNull = JStr ''object'' then json_iter (field contract ''required'' (JArr [])) else Inr [])"

definition missing_fields :: "json list \<Rightarrow> json_obj option \<Rightarrow> exn + json list" where
  "missing_fields required parsed = (case parsed of None \<Rightarrow> Inr required
     | Some m \<Rightarrow> bindr (mapr (\<lambda>f. case f of JStr k \<Rightarrow> Inr (if dict_get m k = None then [f] else [])
         | JArr _ \<Rightarrow> Inl (TypeError (''unhashable type: '' @ quoted ''list''))
         | JObj _ \<Rightarrow> Inl (TypeError (''unhashable type: '' @ quoted ''dict'')) | _ \<Rightarrow> Inr [f]) required) (\<lambda>fs. Inr (concat fs)))"

definition compute_drift :: "text_tools \<Rightarrow> bench_task \<Rightarrow> (string \<times> bench_result) list \<Rightarrow> agent_persona \<Rightarrow> real \<Rightarrow> exn + drift_report" where
  "compute_drift T t first_success p threshold = (let outputs = map (map_prod id rr_final_output) first_success;
       pairs = kernel_pairs T outputs in
     bindr (required_fields (ap_output_contract p)) (\<lambda>required.
     bindr (if required = [] then Inr [] else mapr (\<lambda>(k, out). bindr (missing_fields required (try_json T out)) (\<lambda>fs. Inr (k, fs))) outputs) (\<lambda>missing. Inr
     \<lparr>df_task_id = bt_task_id t, df_outputs = outputs, df_similarity = similarity_of T outputs (map (\<lambda>(a, _). (a, [])) outputs),
      df_min_pairwise = (if pairs = [] then None else Some (Min (set (map (snd \<circ> snd) pairs)))),
      df_high_drift = sort_key (snd \<circ> snd) (filter (\<lambda>(_, _, r). r < threshold) pairs),
      df_json_conformant = map (map_prod id (\<lambda>out. try_json T out \<noteq> None)) outputs,
      df_missing_required = missing,
      df_expected_hits = (if bt_expected t = [] then []
        else map (map_prod id (\<lambda>out. filter (\<lambda>s. is_substring (lower s) (lower out)) (bt_expected t))) outputs)\<rparr>)))"

section \<open>The comparison\<close>

record comparison_report =
  cr_created_at :: string
  cr_persona_name :: string
  cr_repeats :: nat
  cr_judge :: string
  cr_capabilities :: "(string, exn + kernel_capabilities) dict"
  cr_summaries :: "(string, (string, kernel_task_summary) dict) dict"
  cr_drift :: "(string, drift_report) dict"
  cr_raw_runs :: "bench_result list"
  cr_note :: string

fun repeat_runs :: "env \<Rightarrow> bench \<Rightarrow> 'g kernel \<Rightarrow> agent_persona \<Rightarrow> bench_task \<Rightarrow> judge \<Rightarrow> nat list \<Rightarrow> nat \<times> world \<Rightarrow> bench_result list \<times> nat \<times> world" where
  "repeat_runs E H K p t J [] st = ([], st)"
| "repeat_runs E H K p t J (i # is) st = (case run_kernel_once E H K p t J i st of (r, st1) \<Rightarrow>
     (case repeat_runs E H K p t J is st1 of (rs, st2) \<Rightarrow> (r # rs, st2)))"

fun race :: "env \<Rightarrow> bench \<Rightarrow> (string \<times> 'g kernel) list \<Rightarrow> agent_persona \<Rightarrow> bench_task \<Rightarrow> judge \<Rightarrow> nat \<Rightarrow> nat \<times> world
    \<Rightarrow> (string \<times> bench_result list) list \<times> nat \<times> world" where
  "race E H [] p t J repeats st = ([], st)"
| "race E H ((kid, K) # Ks) p t J repeats st = (case repeat_runs E H K p t J [0..<repeats] st of (rs, st1) \<Rightarrow>
     (case race E H Ks p t J repeats st1 of (rest, st2) \<Rightarrow> ((kid, rs) # rest, st2)))"

definition first_successes :: "(string \<times> bench_result list) list \<Rightarrow> (string \<times> bench_result) list" where
  "first_successes runs = List.map_filter (\<lambda>(kid, rs). map_option (Pair kid) (List.find run_ok rs)) runs"

text \<open>What a task adds to the report\<close>

definition compare_task :: "env \<Rightarrow> bench \<Rightarrow> text_tools \<Rightarrow> (string \<times> 'g kernel) list \<Rightarrow> agent_persona \<Rightarrow> judge \<Rightarrow> nat \<Rightarrow> bench_task
    \<Rightarrow> comparison_report \<Rightarrow> (nat \<times> world, comparison_report) prog" where
  "compare_task E H T Ks p J repeats t rep st = (case race E H Ks p t J repeats st of (runs, st1) \<Rightarrow> let
       rep1 = rep\<lparr>cr_raw_runs := cr_raw_runs rep @ concat (map snd runs),
         cr_summaries := dict_set (bt_task_id t) (map (\<lambda>(kid, rs). (kid, summarize_runs kid (bt_task_id t) rs)) runs) (cr_summaries rep)\<rparr>;
       firsts = first_successes runs in
     if firsts = [] then (Inr rep1, st1)
     else case compute_drift T t firsts p (6 / 10) of Inl e \<Rightarrow> (Inl e, st1)
       | Inr d \<Rightarrow> (Inr (rep1\<lparr>cr_drift := dict_set (bt_task_id t) d (cr_drift rep1)\<rparr>), st1))"

definition compare :: "env \<Rightarrow> bench \<Rightarrow> text_tools \<Rightarrow> (string \<times> 'g kernel) list \<Rightarrow> agent_persona \<Rightarrow> bench_task list \<Rightarrow> judge \<Rightarrow> string \<Rightarrow> nat \<Rightarrow> string
    \<Rightarrow> (nat \<times> world, comparison_report) prog" where
  "compare E H T Ks p ts J judge_name repeats note = bindp (foldp (compare_task E H T Ks p J repeats) ts
       \<lparr>cr_created_at = [], cr_persona_name = ap_name p, cr_repeats = repeats, cr_judge = judge_name,
        cr_capabilities = map (\<lambda>(kid, K). (kid, kn_caps K)) Ks, cr_summaries = [], cr_drift = [], cr_raw_runs = [], cr_note = note\<rparr>)
     (\<lambda>rep. bindp (with_local (iso_now E)) (\<lambda>now. ret (rep\<lparr>cr_created_at := now\<rparr>)))"

section \<open>The leaderboard\<close>

definition fastest :: "(kernel_task_summary \<Rightarrow> metric_stats) \<Rightarrow> (string \<times> kernel_task_summary) list \<Rightarrow> (string \<times> real) option" where
  "fastest metric ks = (let scored = List.map_filter (\<lambda>(k, s). map_option (Pair k) (mt_median (metric s))) ks in
     if scored = [] then None else Some (arg_min_list snd scored))"

definition leaderboard_line :: "string \<Rightarrow> (string \<times> real) option \<Rightarrow> string list" where
  "leaderboard_line label pick = (case pick of None \<Rightarrow> []
     | Some (k, v) \<Rightarrow> let tick = [char_of (96::nat)] in [''- '' @ label @ '': '' @ tick @ k @ tick @ '' ('' @ format_fixed 2 v @ '' s)''])"

definition leaderboard_lines :: "(string, kernel_task_summary) dict \<Rightarrow> string list" where
  "leaderboard_lines ks = (let usable = filter (\<lambda>(_, s). 0 < mt_n (ks_wall_clock s)) ks in
     if length usable < 2 then []
     else [''**Fastest (by metric):**'', []] @ leaderboard_line ''wall-clock'' (fastest ks_wall_clock usable) @
       leaderboard_line ''time-to-first-token'' (fastest ks_first_token usable) @
       leaderboard_line ''tool-loop overhead'' (fastest ks_overhead usable))"

section \<open>The mock kernel\<close>

record mock =
  mk_kernel_id :: string
  mk_output :: string
  mk_thinking :: string
  mk_proposals :: nat
  mk_tokens :: "(int \<times> int option) option"
  mk_fail :: bool

definition chunks :: "nat \<Rightarrow> string \<Rightarrow> string list" where
  "chunks n s = map (\<lambda>i. take n (drop (i * n) s)) [0..<(length s + n - 1) div n]"

text \<open>\<open>s.split()\<close>\<close>

definition split_ws :: "string \<Rightarrow> string list" where
  "split_ws s = filter (\<lambda>w. w \<noteq> []) (split_on CHR '' '' (map (\<lambda>c. if py_isspace c then CHR '' '' else c) s))"

datatype mock_step = MockSay event_kind json_obj | MockAsk nat | MockVerdict

definition mock_texts :: "string \<Rightarrow> mock_step list" where
  "mock_texts s = map (\<lambda>c. MockSay TextDelta [(''text'', JStr c)]) (chunks 6 s)"

definition mock_script :: "mock \<Rightarrow> mock_step list" where
  "mock_script M = (let out = mk_output M; half = length out div 2 in
     [MockSay SessionStarted [(''kernel'', JStr (mk_kernel_id M))]] @
     map (\<lambda>word. MockSay ThinkingDelta [(''text'', JStr (word @ '' ''))]) (split_ws (mk_thinking M)) @
     (if mk_fail M then [MockSay AgentFailed [(''error'', JStr ''simulated kernel failure'')]]
      else mock_texts (take half out) @ concat (map (\<lambda>n. [MockAsk n, MockVerdict]) [0..<mk_proposals M]) @ mock_texts (drop half out) @
        [MockSay AgentCompleted ([(''status'', JStr ''completed'')] @ (case mk_tokens M of None \<Rightarrow> []
           | Some (i, out_tokens) \<Rightarrow> [(''usage'', JObj [(''input_tokens'', JInt i),
               (''output_tokens'', case out_tokens of Some n \<Rightarrow> JInt n | None \<Rightarrow> JNull)])]))]))"

definition mock_proposal :: "nat \<Rightarrow> tool_proposal" where
  "mock_proposal n = \<lparr>tu_id = ''mock-'' @ show_nat n, tu_name = ''shell'', tu_abstract = ''Bash'',
     tu_inputs = JObj [(''command'', JArr [JStr ''echo'', JStr ''hi''])], tu_payload = []\<rparr>"

definition mock_generator :: "mock_step list generator" where
  "mock_generator script sent w = (Inr (case script of [] \<Rightarrow> None
     | MockSay k x # rest \<Rightarrow> Some (Event k x, rest)
     | MockAsk n # rest \<Rightarrow> Some (Proposal (mock_proposal n), rest)
     | MockVerdict # rest \<Rightarrow> Some (Event TextDelta [(''text'', JStr ('' ['' @
         (case sent of Some r \<Rightarrow> if tr_is_error r then ''declined'' else ''accepted'' | None \<Rightarrow> ''accepted'') @ ''] ''))], rest)), w)"

section \<open>What a run's events say\<close>

definition reply_to :: "judge \<Rightarrow> bench_task \<Rightarrow> kernel_event \<Rightarrow> exn + tool_result option" where
  "reply_to J t ev = (case ev of Proposal q \<Rightarrow> bindr (J q t) (\<lambda>r. Inr (Some r)) | Event _ _ \<Rightarrow> Inr None)"

text \<open>The events of a generator until it stops, each proposal answered by the judge.\<close>

inductive judged_events :: "judge \<Rightarrow> bench_task \<Rightarrow> 'g generator \<Rightarrow> 'g \<Rightarrow> tool_result option \<Rightarrow> world \<Rightarrow> kernel_event list \<Rightarrow> world \<Rightarrow> bool"
  for J t step where
  Stops: "step g send w = (Inr None, w') \<Longrightarrow> judged_events J t step g send w [] w'"
| Goes: "step g send w = (Inr (Some (ev, g')), w1) \<Longrightarrow> reply_to J t ev = Inr send' \<Longrightarrow> judged_events J t step g' send' w1 evs w' \<Longrightarrow>
    judged_events J t step g send w (ev # evs) w'"

definition of_kind :: "event_kind \<Rightarrow> kernel_event list \<Rightarrow> kernel_event list" where
  "of_kind k evs = filter (\<lambda>ev. event_kind_of ev = k) evs"

definition measured :: "env \<Rightarrow> kernel_event list \<Rightarrow> recorder \<Rightarrow> bool" where
  "measured E evs s \<longleftrightarrow> rec_num_proposals s = length (of_kind ToolUseProposed evs) \<and> rec_text_parts s = map (text_of E) (of_kind TextDelta evs) \<and>
     rec_text_chars s = length (concat (rec_text_parts s)) \<and>
     rec_thinking_chars s = length (concat (map (text_of E) (of_kind ThinkingDelta evs))) \<and>
     rec_server_execs s = length (of_kind ServerToolExecuted evs) \<and> (rec_agent_failed s \<longleftrightarrow> of_kind AgentFailed evs \<noteq> []) \<and>
     (\<forall>k. dict_get (rec_event_counts s) k = (if of_kind k evs = [] then None else Some (length (of_kind k evs))))"

lemma absorb_key_keeps [simp]:
  "rec_start (absorb_key x k s) = rec_start s"
  "rec_first_event (absorb_key x k s) = rec_first_event s"
  "rec_first_token (absorb_key x k s) = rec_first_token s"
  "rec_completion (absorb_key x k s) = rec_completion s"
  "rec_pending_send (absorb_key x k s) = rec_pending_send s"
  "rec_num_proposals (absorb_key x k s) = rec_num_proposals s"
  "rec_overhead (absorb_key x k s) = rec_overhead s"
  "rec_text_chars (absorb_key x k s) = rec_text_chars s"
  "rec_thinking_chars (absorb_key x k s) = rec_thinking_chars s"
  "rec_server_execs (absorb_key x k s) = rec_server_execs s"
  "rec_event_counts (absorb_key x k s) = rec_event_counts s"
  "rec_text_parts (absorb_key x k s) = rec_text_parts s"
  "rec_agent_failed (absorb_key x k s) = rec_agent_failed s"
  by (auto simp: absorb_key_def split: option.split json.split)

lemma absorb_usage_keeps [simp]:
  "rec_start (absorb_usage x s) = rec_start s"
  "rec_first_event (absorb_usage x s) = rec_first_event s"
  "rec_first_token (absorb_usage x s) = rec_first_token s"
  "rec_completion (absorb_usage x s) = rec_completion s"
  "rec_pending_send (absorb_usage x s) = rec_pending_send s"
  "rec_num_proposals (absorb_usage x s) = rec_num_proposals s"
  "rec_overhead (absorb_usage x s) = rec_overhead s"
  "rec_text_chars (absorb_usage x s) = rec_text_chars s"
  "rec_thinking_chars (absorb_usage x s) = rec_thinking_chars s"
  "rec_server_execs (absorb_usage x s) = rec_server_execs s"
  "rec_event_counts (absorb_usage x s) = rec_event_counts s"
  "rec_text_parts (absorb_usage x s) = rec_text_parts s"
  "rec_agent_failed (absorb_usage x s) = rec_agent_failed s"
  by (simp_all add: absorb_usage_def usage_keys_def)

lemma observe_measured:
  assumes "measured E evs s"
  shows "measured E (evs @ [ev]) (observe E now ev s)"
proof -
  let ?s = "observe_kind E now ev (count_event (event_kind_of ev) (observe_time now s))"
  have "measured E (evs @ [ev]) ?s"
    using assms by (cases "event_kind_of ev")
      (auto simp: measured_def observe_kind_def count_event_def observe_time_def of_kind_def split: if_splits)
  then show ?thesis by (simp add: measured_def observe_def)
qed

text \<open>The times of a recorder whose last clock reading is \<open>before\<close>\<close>

definition timely :: "real \<Rightarrow> recorder \<Rightarrow> bool" where
  "timely before s \<longleftrightarrow> rec_start s \<le> before \<and>
     (\<forall>t. t \<in> {x. Some x \<in> {rec_first_event s, rec_first_token s, rec_completion s}} \<longrightarrow> rec_start s \<le> t \<and> t \<le> before) \<and>
     0 \<le> rec_overhead s \<and> (case rec_pending_send s of None \<Rightarrow> rec_overhead s \<le> before - rec_start s
       | Some t \<Rightarrow> t \<le> before \<and> rec_overhead s \<le> t - rec_start s)"

lemma timely_later: "timely before s \<Longrightarrow> before \<le> now \<Longrightarrow> timely now s"
  by (fastforce simp: timely_def split: option.splits)

lemma mark_send_timely: "timely before s \<Longrightarrow> rec_pending_send s = None \<Longrightarrow> before \<le> now \<Longrightarrow> timely now (mark_send now s)"
  by (fastforce simp: timely_def mark_send_def)

lemma observe_timely:
  assumes "timely before s" and "before \<le> now"
  shows "timely now (observe E now ev s) \<and> rec_pending_send (observe E now ev s) = None"
proof -
  let ?s = "observe_kind E now ev (count_event (event_kind_of ev) (observe_time now s))"
  have t: "timely now (observe_time now s)" "rec_pending_send (observe_time now s) = None"
    using assms by (fastforce simp: timely_def observe_time_def split: option.splits)+
  then have "timely now (count_event k (observe_time now s))" "rec_pending_send (count_event k (observe_time now s)) = None" for k
    by (simp_all add: timely_def count_event_def)
  moreover have "timely now u \<Longrightarrow> timely now (observe_kind E now ev u)" "rec_pending_send (observe_kind E now ev u) = rec_pending_send u" for u
    by (auto simp: timely_def observe_kind_def split: event_kind.split option.splits)
  ultimately have "timely now ?s \<and> rec_pending_send ?s = None" by simp
  moreover have "timely now (absorb_usage x u) = timely now u" for x u
    by (simp add: timely_def split: option.split)
  ultimately show ?thesis by (simp add: observe_def)
qed

lemma drive_measures:
  assumes "judged_events J t step g send w evs w'" and "length evs \<le> n" and "bindr (case pending of None \<Rightarrow> Inr None | Some q \<Rightarrow> bindr (J q t) (\<lambda>r. Inr (Some r))) Inr = Inr send"
    and "mono (hb_clock H)" and "measured E old (fst s)" and "timely (hb_clock H (snd s - 1)) (fst s)" and "rec_pending_send (fst s) = None"
    and "snd s \<noteq> 0"
  shows "\<exists>s'. drive E H J t step (Suc n) g pending s w = (DriveDone, s', w') \<and> measured E (old @ evs) (fst s') \<and>
    timely (hb_clock H (snd s' - 1)) (fst s') \<and> snd s' \<noteq> 0 \<and> rec_start (fst s') = rec_start (fst s)"
  using assms
proof (induction arbitrary: n pending old s rule: judged_events.induct)
  case (Stops g send w w')
  let ?now = "hb_clock H (snd s)"
  have now: "hb_clock H (snd s - 1) \<le> ?now" using Stops.prems(3) by (simp add: monoD)
  have "\<exists>s1. judged H J t pending s = Inr (send, s1) \<and> measured E old (fst s1) \<and> timely (hb_clock H (snd s1 - 1)) (fst s1) \<and> snd s1 \<noteq> 0 \<and>
      rec_start (fst s1) = rec_start (fst s)"
    using Stops.prems mark_send_timely [OF Stops.prems(5,6) now]
    by (cases s; cases pending; cases "J (the pending) t") (auto simp: judged_def measured_def mark_send_def)
  with Stops.hyps show ?case by auto
next
  case (Goes g send w ev g' w1 send' evs w')
  let ?now = "hb_clock H (snd s)"
  have now: "hb_clock H (snd s - 1) \<le> ?now" using Goes.prems(3) by (simp add: monoD)
  have "\<exists>s1. judged H J t pending s = Inr (send, s1) \<and> measured E old (fst s1) \<and> timely (hb_clock H (snd s1 - 1)) (fst s1) \<and> snd s1 \<noteq> 0 \<and>
      rec_start (fst s1) = rec_start (fst s)"
    using Goes.prems mark_send_timely [OF Goes.prems(5,6) now]
    by (cases s; cases pending; cases "J (the pending) t") (auto simp: judged_def measured_def mark_send_def)
  then obtain s1 where s1: "judged H J t pending s = Inr (send, s1)" "measured E old (fst s1)" "timely (hb_clock H (snd s1 - 1)) (fst s1)"
    "snd s1 \<noteq> 0" "rec_start (fst s1) = rec_start (fst s)" by blast
  from Goes.prems(1) obtain m where m: "n = Suc m" "length evs \<le> m" by (cases n) auto
  let ?s2 = "(observe E (hb_clock H (snd s1)) ev (fst s1), Suc (snd s1))"
  have later: "hb_clock H (snd s1 - 1) \<le> hb_clock H (snd s1)" using Goes.prems(3) by (simp add: monoD)
  have "bindr (case proposal_in ev of None \<Rightarrow> Inr None | Some q \<Rightarrow> bindr (J q t) (\<lambda>r. Inr (Some r))) Inr = Inr send'"
    using Goes.hyps(2) by (cases ev) (auto simp: reply_to_def proposal_in_def split: sum.splits)
  moreover note observe_timely [OF s1(3) later, of E ev] observe_measured [OF s1(2), of ev]
  ultimately have "\<exists>s'. drive E H J t step (Suc m) g' (proposal_in ev) ?s2 w1 = (DriveDone, s', w') \<and> measured E ((old @ [ev]) @ evs) (fst s') \<and>
      timely (hb_clock H (snd s' - 1)) (fst s') \<and> snd s' \<noteq> 0 \<and> rec_start (fst s') = rec_start (fst ?s2)"
    by (intro Goes.IH m Goes.prems(3)) auto
  moreover have "rec_start (fst ?s2) = rec_start (fst s)" using s1(5) by (simp add: observe_def observe_kind_def count_event_def observe_time_def split: event_kind.split)
  ultimately show ?case using Goes.hyps(1) s1(1) m(1) by simp
qed

lemma average_bounds:
  assumes "xs \<noteq> []"
  shows "Min (set xs) \<le> average xs" and "average xs \<le> Max (set xs)"
proof -
  have "sum_list (map (\<lambda>_. Min (set xs)) xs) \<le> sum_list (map (\<lambda>x. x) xs)" by (rule sum_list_mono) simp
  moreover have "sum_list (map (\<lambda>x. x) xs) \<le> sum_list (map (\<lambda>_. Max (set xs)) xs)" by (rule sum_list_mono) simp
  ultimately show "Min (set xs) \<le> average xs" "average xs \<le> Max (set xs)"
    using assms by (simp_all add: average_def sum_list_triv field_simps)
qed

lemma median_bounds:
  assumes "xs \<noteq> []"
  shows "Min (set xs) \<le> median xs \<and> median xs \<le> Max (set xs)"
proof -
  let ?ys = "sort xs" and ?h = "length xs div 2"
  have mem: "i < length xs \<Longrightarrow> Min (set xs) \<le> ?ys ! i \<and> ?ys ! i \<le> Max (set xs)" for i
  proof -
    assume "i < length xs"
    then have "?ys ! i \<in> set xs" by (metis length_sort nth_mem set_sort)
    then show ?thesis by simp
  qed
  have "?h < length xs" "?h - 1 < length xs" using assms by (cases xs; simp)+
  from mem [OF this(1)] mem [OF this(2)] show ?thesis by (auto simp: median_def Let_def)
qed

lemma sample_stdev_nonneg: "1 < length xs \<Longrightarrow> 0 \<le> sample_stdev xs"
  unfolding sample_stdev_def by (intro real_sqrt_ge_zero divide_nonneg_nonneg sum_list_nonneg) auto

definition metrics_of_summary :: "kernel_task_summary \<Rightarrow> metric_stats list" where
  "metrics_of_summary k = [ks_wall_clock k, ks_first_token k, ks_completion k, ks_overhead k, ks_num_proposals k, ks_text_chars k,
     ks_thinking_chars k, ks_output_tokens k]"

definition sound_stats :: "nat \<Rightarrow> metric_stats \<Rightarrow> bool" where
  "sound_stats m s \<longleftrightarrow> mt_n s \<le> m \<and> (if mt_n s = 0 then s = \<lparr>mt_mean = None, mt_median = None, mt_stdev = None, mt_min = None, mt_max = None, mt_n = 0\<rparr>
     else (\<exists>lo hi mean med sd. s = \<lparr>mt_mean = Some mean, mt_median = Some med, mt_stdev = Some sd, mt_min = Some lo, mt_max = Some hi, mt_n = mt_n s\<rparr> \<and>
       lo \<le> mean \<and> mean \<le> hi \<and> lo \<le> med \<and> med \<le> hi \<and> 0 \<le> sd))"

lemma stats_sound: "sound_stats (length vs) (metric_stats_of vs)"
proof -
  let ?xs = "List.map_filter id vs"
  have len: "length ?xs \<le> length vs" by (induction vs) (auto simp: map_filter_simps split: option.split)
  show ?thesis
  proof (cases "?xs = []")
    case True
    then show ?thesis by (simp add: metric_stats_of_def sound_stats_def)
  next
    case False
    with len average_bounds [OF False] median_bounds [OF False] sample_stdev_nonneg [of ?xs] show ?thesis
      by (auto simp: metric_stats_of_def sound_stats_def Let_def)
  qed
qed

lemma status_counts: "dict_get (foldl count_status m rs) st = (let n = length (filter (\<lambda>r. rr_status r = st) rs) in
    case dict_get m st of Some k \<Rightarrow> Some (k + n) | None \<Rightarrow> if n = 0 then None else Some n)"
proof (induction rs arbitrary: m)
  case (Cons r rs)
  show ?case unfolding foldl_Cons Cons by (auto simp: count_status_def Let_def split: option.splits)
qed (simp split: option.split)

section \<open>Properties\<close>

text \<open>C39: A measured run says what happened. When an adapter's generator, each of its proposals answered by the judge, yields
  the events \<open>evs\<close> and stops, within the limit, the result is completed, or failed exactly when one of the events
  says that the agent failed; it counts the proposals, the tools the kernel ran and the events of each kind, its output is
  the text of the text events, stripped, and the number of characters that of the text before stripping. If
  the clock never goes back, the times lie between the run's start and its end, and the overhead of the
  tool loop is at most the whole.\<close>

theorem runs_measure_what_happened:
  assumes "judged_events J t (kn_step K) (kn_start K p (bt_context t) (if bt_tools t = [] then ap_allowed_tools p else bt_tools t)
      (run_aggregate (safe_kernel_id (kn_caps K) (kn_class K)) t i)) None w evs w'"
    and "length evs < hb_limit H" and "mono (hb_clock H)"
  shows "\<exists>r k'. run_kernel_once E H K p t J i (k, w) = (r, k', w') \<and>
    rr_status r = (if of_kind AgentFailed evs = [] then RunCompleted else RunFailed) \<and> rr_error r = None \<and>
    rr_num_proposals r = length (of_kind ToolUseProposed evs) \<and> rr_server_execs r = length (of_kind ServerToolExecuted evs) \<and>
    (\<forall>kd. dict_get (rr_event_counts r) kd = (if of_kind kd evs = [] then None else Some (length (of_kind kd evs)))) \<and>
    rr_final_output r = strip (concat (map (text_of E) (of_kind TextDelta evs))) \<and>
    rr_text_chars r = length (concat (map (text_of E) (of_kind TextDelta evs))) \<and>
    0 \<le> rr_overhead r \<and> rr_overhead r \<le> rr_wall_clock r \<and>
    (\<forall>x. Some x \<in> {rr_first_event r, rr_first_token r, rr_completion r} \<longrightarrow> 0 \<le> x \<and> x \<le> rr_wall_clock r)"
proof -
  let ?g = "kn_start K p (bt_context t) (if bt_tools t = [] then ap_allowed_tools p else bt_tools t)
      (run_aggregate (safe_kernel_id (kn_caps K) (kn_class K)) t i)"
  let ?s = "(new_recorder (hb_clock H k), Suc k)"
  obtain n where n: "hb_limit H = Suc n" "length evs \<le> n" using assms(2) by (cases "hb_limit H") auto
  have "measured E [] (fst ?s)" "timely (hb_clock H (snd ?s - 1)) (fst ?s)"
    by (simp_all add: measured_def timely_def new_recorder_def of_kind_def)
  from drive_measures [OF assms(1) n(2), of None H E "[]" ?s] assms(3) this obtain s' where
    run: "drive E H J t (kn_step K) (hb_limit H) ?g None ?s w = (DriveDone, s', w')" and m: "measured E evs (fst s')"
    and ti: "timely (hb_clock H (snd s' - 1)) (fst s')" by (auto simp: n new_recorder_def)
  have "timely (hb_clock H (snd s')) (fst s')" by (rule timely_later [OF ti monoD [OF assms(3)]]) simp
  then have times: "0 \<le> rec_overhead (fst s')" "rec_overhead (fst s') \<le> hb_clock H (snd s') - rec_start (fst s')"
    "\<And>x. Some x \<in> {rec_first_event (fst s'), rec_first_token (fst s'), rec_completion (fst s')} \<Longrightarrow>
      rec_start (fst s') \<le> x \<and> x \<le> hb_clock H (snd s')"
    by (auto simp: timely_def split: option.splits)
  let ?r = "finish (safe_kernel_id (kn_caps K) (kn_class K)) (bt_task_id t) i (hb_clock H (snd s')) RunCompleted None (fst s')"
  have "run_kernel_once E H K p t J i (k, w) = (?r, Suc (snd s'), w')"
    using run by (cases s') (simp add: run_kernel_once_def Let_def)
  moreover have "0 \<le> x \<and> x \<le> rr_wall_clock ?r" if x: "Some x \<in> {rr_first_event ?r, rr_first_token ?r, rr_completion ?r}" for x
  proof -
    from x obtain y where y: "y \<in> {rec_first_event (fst s'), rec_first_token (fst s'), rec_completion (fst s')}"
      and "Some x = map_option (\<lambda>u. u - rec_start (fst s')) y" by (auto simp: finish_def Let_def)
    then obtain u where "y = Some u" "x = u - rec_start (fst s')" by (cases y) auto
    with y times(3) [of u] show ?thesis by (simp add: finish_def Let_def)
  qed
  ultimately show ?thesis using m times(1,2) by (intro exI [of _ ?r] exI [of _ "Suc (snd s')"]) (simp add: finish_def measured_def Let_def)
qed

definition demo_bench :: bench where
  "demo_bench = \<lparr>hb_clock = real, hb_limit = 9, hb_timeout = ''10.0'', hb_exn_text = (\<lambda>_. ''error'')\<rparr>"

definition demo_mock :: mock where
  "demo_mock = \<lparr>mk_kernel_id = ''mock'', mk_output = ''ok'', mk_thinking = [], mk_proposals = 1, mk_tokens = None, mk_fail = False\<rparr>"

definition mock_kernel :: "mock \<Rightarrow> mock_step list kernel" where
  "mock_kernel M = \<lparr>kn_caps = Inl (TypeError ''mcp_local''), kn_class = ''MockAdapter'', kn_step = mock_generator, kn_start = (\<lambda>_ _ _ _. mock_script M)\<rparr>"

definition demo_task :: bench_task where
  "demo_task = \<lparr>bt_task_id = ''t'', bt_context = ''go'', bt_tools = [], bt_expected = []\<rparr>"

definition mock_events :: "kernel_event list" where
  "mock_events = [Event SessionStarted [(''kernel'', JStr ''mock'')], Event TextDelta [(''text'', JStr ''o'')], Proposal (mock_proposal 0),
     Event TextDelta [(''text'', JStr '' [accepted] '')], Event TextDelta [(''text'', JStr ''k'')], Event AgentCompleted [(''status'', JStr ''completed'')]]"

lemma mock_script_of_demo: "mock_script demo_mock = [MockSay SessionStarted [(''kernel'', JStr ''mock'')], MockSay TextDelta [(''text'', JStr ''o'')],
    MockAsk 0, MockVerdict, MockSay TextDelta [(''text'', JStr ''k'')], MockSay AgentCompleted [(''status'', JStr ''completed'')]]"
  by code_simp

lemma runs_measure_what_happened_witness:
  "\<exists>r k'. run_kernel_once demo_env demo_bench (mock_kernel demo_mock) (agent_def_to_persona demo_persona) demo_task (auto_approve (JStr ''yes'')) 0
      (0, empty_world) = (r, k', empty_world) \<and> rr_status r = RunCompleted \<and> rr_num_proposals r = 1 \<and> rr_text_chars r = 14"
proof -
  have "judged_events (auto_approve (JStr ''yes'')) demo_task (kn_step (mock_kernel demo_mock)) (kn_start (mock_kernel demo_mock)
      (agent_def_to_persona demo_persona) (bt_context demo_task) (if bt_tools demo_task = [] then ap_allowed_tools (agent_def_to_persona demo_persona)
        else bt_tools demo_task) (run_aggregate (safe_kernel_id (kn_caps (mock_kernel demo_mock)) (kn_class (mock_kernel demo_mock))) demo_task 0))
      None empty_world mock_events empty_world"
    unfolding mock_events_def mock_kernel_def kernel.simps mock_script_of_demo
    by (intro judged_events.intros) (auto simp: mock_generator_def reply_to_def auto_approve_def)
  moreover have "length mock_events < hb_limit demo_bench" "mono (hb_clock demo_bench)"
    by (simp_all add: mock_events_def demo_bench_def mono_def)
  ultimately have "\<exists>r k'. run_kernel_once demo_env demo_bench (mock_kernel demo_mock) (agent_def_to_persona demo_persona) demo_task
      (auto_approve (JStr ''yes'')) 0 (0, empty_world) = (r, k', empty_world) \<and> rr_status r = (if of_kind AgentFailed mock_events = [] then RunCompleted else RunFailed) \<and>
      rr_num_proposals r = length (of_kind ToolUseProposed mock_events) \<and> rr_text_chars r = length (concat (map (text_of demo_env) (of_kind TextDelta mock_events)))"
    using runs_measure_what_happened [of "auto_approve (JStr ''yes'')" demo_task "mock_kernel demo_mock" "agent_def_to_persona demo_persona" 0
        empty_world mock_events empty_world demo_bench demo_env 0] by blast
  moreover have "of_kind AgentFailed mock_events = []" "length (of_kind ToolUseProposed mock_events) = 1"
    "length (concat (map (text_of demo_env) (of_kind TextDelta mock_events))) = 14"
    by (simp_all add: of_kind_def mock_events_def event_kind_of_def text_of_def payload_of_def field_def dict_get_def py_str_def)
  ultimately show ?thesis by simp
qed


end
