(* ===== verification/Codex.thy ===== *)
theory Codex imports Bridge AcpClient Tasks begin

text \<open>
  The kernel adapter over \<open>codex app-server\<close>, \<open>adapters/codex/adapter.py\<close>: a JSON-RPC client that routes
  what the server says to waiting requests and to the queues of its threads, and the generator that
  turns one thread's messages into events and hands the server's approval requests to the caller. The
  server is a parameter, an \<open>app_server\<close> over a state \<open>'p\<close>. It is read in chunks, as the event loop does: all
  the lines of a chunk are dispatched before a waiting coroutine goes on. Awaiting may never end, so a
  \<open>task\<close> gives nothing when it hangs. One session of a client is modelled; thread ids are compared as JSON.
\<close>

section \<open>The JSON-RPC client\<close>

record 'p app_server =
  av_start :: "exn + 'p"
  av_write :: "json \<Rightarrow> 'p \<Rightarrow> exn option \<times> 'p"
  av_read :: "'p \<Rightarrow> line list \<times> 'p"

text \<open>\<open>rc_reading\<close>: the reading task runs. \<open>rc_results\<close> are the futures that are done. \<open>rc_written\<close> records
  what was written, for the properties.\<close>

record 'p rpc_client =
  rc_proc :: "'p option"
  rc_reading :: bool
  rc_initialized :: bool
  rc_next_id :: int
  rc_pending :: "int list"
  rc_results :: "(int, exn + json) dict"
  rc_queues :: "(json, json_obj list) dict"
  rc_orphans :: "json_obj list"
  rc_written :: "json list"

definition new_rpc_client :: "'p rpc_client" where
  "new_rpc_client = \<lparr>rc_proc = None, rc_reading = False, rc_initialized = False, rc_next_id = 0, rc_pending = [], rc_results = [],
     rc_queues = [], rc_orphans = [], rc_written = []\<rparr>"

text \<open>\<open>value or {}\<close>\<close>

definition or_empty :: "json \<Rightarrow> json" where
  "or_empty j = (if truthy j then j else JObj [])"

definition hashable :: "json \<Rightarrow> exn + unit" where
  "hashable j = (case j of JArr _ \<Rightarrow> Inl (TypeError (''unhashable type: '' @ quoted ''list''))
     | JObj _ \<Rightarrow> Inl (TypeError (''unhashable type: '' @ quoted ''dict'')) | _ \<Rightarrow> Inr ())"

text \<open>\<open>params.get("threadId") or (params.get("thread") or {}).get("id") or (params.get("item") or {}).get("threadId")\<close>\<close>

definition thread_of :: "json_obj \<Rightarrow> exn + json" where
  "thread_of m = (let params = or_empty (field m ''params'' JNull) in
     bindr (json_get params ''threadId'' JNull) (\<lambda>a. if truthy a then Inr a else
     bindr (json_get params ''thread'' JNull) (\<lambda>t. bindr (json_get (or_empty t) ''id'' JNull) (\<lambda>b. if truthy b then Inr b else
     bindr (json_get params ''item'' JNull) (\<lambda>i. json_get (or_empty i) ''threadId'' JNull)))))"

definition resolve :: "env \<Rightarrow> json_obj \<Rightarrow> 'p rpc_client \<Rightarrow> exn + 'p rpc_client" where
  "resolve E m c = (let i = field m ''id'' JNull in bindr (hashable i) (\<lambda>_. case List.find (equals_int i) (rc_pending c) of
       None \<Rightarrow> Inr c
     | Some n \<Rightarrow> Inr (c\<lparr>rc_pending := removeAll n (rc_pending c), rc_results := dict_set n (case dict_get m ''error'' of
           Some e \<Rightarrow> Inl (RuntimeError (''app-server error: '' @ py_str E e))
         | None \<Rightarrow> Inr (field m ''result'' (JObj []))) (rc_results c)\<rparr>)))"

definition route :: "json_obj \<Rightarrow> 'p rpc_client \<Rightarrow> exn + 'p rpc_client" where
  "route m c = bindr (thread_of m) (\<lambda>t. bindr (if truthy t then hashable t else Inr ()) (\<lambda>_.
     case (if truthy t then dict_get (rc_queues c) t else None) of
       Some q \<Rightarrow> Inr (c\<lparr>rc_queues := dict_set t (q @ [m]) (rc_queues c)\<rparr>)
     | None \<Rightarrow> Inr (c\<lparr>rc_orphans := rc_orphans c @ [m]\<rparr>)))"

text \<open>Whatever is raised ends the reading task; every line that is no object raises.\<close>

definition dispatch :: "env \<Rightarrow> json \<Rightarrow> 'p rpc_client \<Rightarrow> exn + 'p rpc_client" where
  "dispatch E msg c = bindr (json_has ''id'' msg) (\<lambda>has_id. bindr (json_has ''method'' msg) (\<lambda>has_method. case msg of
       JObj m \<Rightarrow> if has_id \<and> \<not> has_method then resolve E m c else route m c
     | _ \<Rightarrow> if has_id \<and> \<not> has_method then bindr (json_item msg ''id'') (\<lambda>_. Inr c) else Inl (no_attribute msg ''get'')))"

fun dispatch_lines :: "env \<Rightarrow> line list \<Rightarrow> 'p rpc_client \<Rightarrow> 'p rpc_client" where
  "dispatch_lines E [] c = c"
| "dispatch_lines E (l # ls) c = (case l of Inl _ \<Rightarrow> dispatch_lines E ls c
     | Inr j \<Rightarrow> (case dispatch E j c of Inl _ \<Rightarrow> c\<lparr>rc_reading := False\<rparr> | Inr c' \<Rightarrow> dispatch_lines E ls c'))"

definition read_chunk :: "env \<Rightarrow> 'p app_server \<Rightarrow> 'p rpc_client \<Rightarrow> 'p rpc_client" where
  "read_chunk E S c = (case rc_proc c of None \<Rightarrow> c\<lparr>rc_reading := False\<rparr>
     | Some p \<Rightarrow> (case av_read S p of
           ([], p') \<Rightarrow> c\<lparr>rc_proc := Some p', rc_reading := False\<rparr>
         | (ls, p') \<Rightarrow> dispatch_lines E ls (c\<lparr>rc_proc := Some p'\<rparr>)))"

text \<open>Awaiting what \<open>ready\<close> finds; once nobody reads, it never comes.\<close>

partial_function (option) await_until :: "env \<Rightarrow> 'p app_server \<Rightarrow> ('p rpc_client \<Rightarrow> 'a option) \<Rightarrow> 'p rpc_client \<Rightarrow> ('a \<times> 'p rpc_client) option" where
  "await_until E S ready c = (case ready c of Some x \<Rightarrow> Some (x, c)
     | None \<Rightarrow> if rc_reading c then await_until E S ready (read_chunk E S c) else None)"

definition rpc_write :: "'p app_server \<Rightarrow> json \<Rightarrow> ('p rpc_client, unit) prog" where
  "rpc_write S message = (\<lambda>c. case rc_proc c of None \<Rightarrow> (Inl (OtherException []), c)
     | Some p \<Rightarrow> (case av_write S message p of (failed, p') \<Rightarrow> (case failed of Some e \<Rightarrow> Inl e | None \<Rightarrow> Inr (),
         c\<lparr>rc_proc := Some p', rc_written := rc_written c @ [message]\<rparr>)))"

definition call_message :: "string \<Rightarrow> int \<Rightarrow> json_obj \<Rightarrow> json" where
  "call_message method n params = JObj [(''method'', JStr method), (''id'', JInt n), (''params'', JObj params)]"

definition rpc_request :: "env \<Rightarrow> 'p app_server \<Rightarrow> string \<Rightarrow> json_obj \<Rightarrow> ('p rpc_client, json) task" where
  "rpc_request E S method params c = (let n = rc_next_id c + 1 in
     bindt (task (rpc_write S (call_message method n params))) (\<lambda>_ c1. case await_until E S (\<lambda>c. dict_get (rc_results c) n) c1 of
         None \<Rightarrow> None
       | Some (r, c2) \<Rightarrow> Some (r, c2\<lparr>rc_results := AList.delete n (rc_results c2)\<rparr>))
       (c\<lparr>rc_next_id := n, rc_pending := rc_pending c @ [n]\<rparr>))"

definition rpc_notify :: "'p app_server \<Rightarrow> string \<Rightarrow> json_obj \<Rightarrow> ('p rpc_client, unit) prog" where
  "rpc_notify S method params = rpc_write S (JObj [(''method'', JStr method), (''params'', JObj params)])"

definition response_message :: "json \<Rightarrow> json_obj \<Rightarrow> json" where
  "response_message req_id res = JObj [(''id'', req_id), (''result'', JObj res)]"

definition rpc_respond :: "'p app_server \<Rightarrow> json \<Rightarrow> json_obj \<Rightarrow> ('p rpc_client, unit) prog" where
  "rpc_respond S req_id res = rpc_write S (response_message req_id res)"

definition register_thread :: "json \<Rightarrow> ('p rpc_client, unit) prog" where
  "register_thread t = bindp (lift_result (hashable t)) (\<lambda>_. updates (\<lambda>c. c\<lparr>rc_queues := dict_set t [] (rc_queues c)\<rparr>))"

definition unregister_thread :: "json \<Rightarrow> 'p rpc_client \<Rightarrow> 'p rpc_client" where
  "unregister_thread t c = c\<lparr>rc_queues := AList.delete t (rc_queues c)\<rparr>"

definition rpc_start :: "'p app_server \<Rightarrow> ('p rpc_client, unit) prog" where
  "rpc_start S = (\<lambda>c. case av_start S of Inl e \<Rightarrow> (Inl e, c)
     | Inr p \<Rightarrow> (Inr (), c\<lparr>rc_proc := Some p, rc_reading := True\<rparr>))"

text \<open>The next message of a thread's queue.\<close>

definition next_message :: "json \<Rightarrow> 'p rpc_client \<Rightarrow> json_obj option" where
  "next_message t c = (case dict_get (rc_queues c) t of Some (m # _) \<Rightarrow> Some m | _ \<Rightarrow> None)"

definition queue_of :: "json \<Rightarrow> 'p rpc_client \<Rightarrow> json_obj list" where
  "queue_of t c = (case dict_get (rc_queues c) t of Some q \<Rightarrow> q | None \<Rightarrow> [])"

definition take_message :: "env \<Rightarrow> 'p app_server \<Rightarrow> json \<Rightarrow> ('p rpc_client, json_obj) task" where
  "take_message E S t c = (case await_until E S (next_message t) c of None \<Rightarrow> None
     | Some (m, c1) \<Rightarrow> Some (Inr m, c1\<lparr>rc_queues := dict_set t (tl (queue_of t c1)) (rc_queues c1)\<rparr>))"

section \<open>Approvals\<close>

datatype approval = CommandApproval | FileApproval

definition approval_of :: "json \<Rightarrow> approval option" where
  "approval_of method = (if method = JStr ''item/commandExecution/requestApproval'' then Some CommandApproval
     else if method = JStr ''item/fileChange/requestApproval'' then Some FileApproval else None)"

text \<open>\<open>{c.get("kind") for c in changes if isinstance(c, dict)}\<close>\<close>

definition change_kinds :: "json list \<Rightarrow> exn + json list" where
  "change_kinds changes = mapr (\<lambda>k. bindr (hashable k) (\<lambda>_. Inr k))
     (List.map_filter (\<lambda>c. case c of JObj m \<Rightarrow> Some (field m ''kind'' JNull) | _ \<Rightarrow> None) changes)"

definition abstract_tool_for_approval :: "approval \<Rightarrow> json \<Rightarrow> exn + string" where
  "abstract_tool_for_approval a params = (case a of
       FileApproval \<Rightarrow> bindr (json_get params ''changes'' JNull) (\<lambda>changes.
         bindr (if truthy changes then json_iter changes else Inr []) (\<lambda>cs. bindr (change_kinds cs) (\<lambda>kinds.
         Inr (if kinds \<noteq> [] \<and> set kinds \<subseteq> JStr ` {''update'', ''modify'', ''edit''} then ''Edit'' else ''Write''))))
     | CommandApproval \<Rightarrow> bindr (json_get params ''networkApprovalContext'' JNull) (\<lambda>n.
         Inr (if truthy n then ''NetworkAccess'' else ''Bash'')))"

definition approval_inputs :: "approval \<Rightarrow> json \<Rightarrow> exn + json_obj" where
  "approval_inputs a params = (case a of
       FileApproval \<Rightarrow> bindr (json_get params ''changes'' (JArr [])) (\<lambda>cs. bindr (json_get params ''grantRoot'' JNull) (\<lambda>r.
         Inr [(''changes'', cs), (''grant_root'', r)]))
     | CommandApproval \<Rightarrow> bindr (json_get params ''networkApprovalContext'' JNull) (\<lambda>ctx. if truthy ctx
         then bindr (json_get ctx ''host'' JNull) (\<lambda>h. bindr (json_get ctx ''protocol'' JNull) (\<lambda>p.
           Inr [(''host'', h), (''protocol'', p)]))
         else bindr (json_get params ''command'' JNull) (\<lambda>c. bindr (json_get params ''cwd'' JNull) (\<lambda>d.
           bindr (json_get params ''commandActions'' JNull) (\<lambda>acts.
             Inr [(''command'', c), (''cwd'', d), (''command_actions'', acts)])))))"

text \<open>\<open>isinstance(value, int)\<close>, which holds of a bool too\<close>

definition is_int :: "json \<Rightarrow> bool" where
  "is_int j = (case j of JInt _ \<Rightarrow> True | JBool _ \<Rightarrow> True | _ \<Rightarrow> False)"

definition approval_response :: "tool_result \<Rightarrow> json_obj" where
  "approval_response r = [(''decision'', JStr (if tr_is_error r then ''decline''
     else case tr_content r of JStr s \<Rightarrow> if is_substring ''session'' (lower s) then ''acceptForSession'' else ''accept''
       | _ \<Rightarrow> ''accept''))]"

definition no_decision :: "tool_proposal \<Rightarrow> tool_result" where
  "no_decision p = \<lparr>tr_tool_use_id = tu_id p, tr_content = JStr ''no decision supplied'', tr_is_error = True\<rparr>"

section \<open>The stream\<close>

datatype boundary = KernelExecutes | ForgeExecutes

datatype translated = Ignore | Emit kernel_event | Propose tool_proposal json | Final kernel_event

definition propose :: "env \<Rightarrow> approval \<Rightarrow> json \<Rightarrow> json \<Rightarrow> (world, translated) prog" where
  "propose E a params req_id = bindp (lift_result (abstract_tool_for_approval a params)) (\<lambda>abstract.
     bindp (uuid4_hex E) (\<lambda>u. bindp (lift_result (approval_inputs a params)) (\<lambda>inputs.
     bindp (lift_result (json_get params ''itemId'' JNull)) (\<lambda>item. bindp (lift_result (json_get params ''reason'' JNull)) (\<lambda>why.
     ret (Propose \<lparr>tu_id = ''appr-'' @ take 8 u, tu_name = (case a of FileApproval \<Rightarrow> ''apply_patch'' | CommandApproval \<Rightarrow> ''shell''),
       tu_abstract = abstract, tu_inputs = JObj inputs, tu_payload = [(''item_id'', item), (''reason'', why)]\<rparr> req_id))))))"

definition executed :: "json_obj \<Rightarrow> translated" where
  "executed payload = Emit (Event ServerToolExecuted payload)"

definition completed_item :: "boundary \<Rightarrow> json \<Rightarrow> exn + translated" where
  "completed_item b item = bindr (json_get item ''type'' JNull) (\<lambda>ty. bindr (json_get item ''status'' JNull) (\<lambda>status.
     if ty = JStr ''webSearch'' then bindr (json_get item ''query'' JNull) (\<lambda>q.
       Inr (executed [(''tool'', JStr ''web_search''), (''query'', q), (''execution'', JStr ''kernel_executed'')]))
     else if ty \<in> {JStr ''commandExecution'', JStr ''fileChange''} \<and> b = KernelExecutes
     then Inr (executed [(''tool'', ty), (''status'', status), (''execution'', JStr ''kernel_executed''), (''item'', item)])
     else if ty = JStr ''mcpToolCall'' then bindr (json_get item ''tool'' JNull) (\<lambda>tool. bindr (json_get item ''server'' JNull) (\<lambda>server.
       Inr (executed [(''tool'', tool), (''server'', server), (''status'', status), (''item'', item)])))
     else Inr Ignore))"

definition turn_event :: "json \<Rightarrow> exn + translated" where
  "turn_event params = bindr (json_get params ''turn'' JNull) (\<lambda>t. bindr (json_get (or_empty t) ''status'' JNull) (\<lambda>status.
     if status = JStr ''failed'' then bindr (json_get (or_empty t) ''error'' JNull) (\<lambda>e.
       Inr (Final (Event AgentFailed [(''status'', status), (''error'', e)])))
     else Inr (Final (Event AgentCompleted [(''status'', status)]))))"

definition text_event :: "event_kind \<Rightarrow> string \<Rightarrow> string \<Rightarrow> json \<Rightarrow> exn + translated" where
  "text_event k key from params = bindr (json_get params from (JStr [])) (\<lambda>v. Inr (Emit (Event k [(key, v)])))"

definition translate :: "env \<Rightarrow> boundary \<Rightarrow> json_obj \<Rightarrow> (world, translated) prog" where
  "translate E b m = (let method = field m ''method'' (JStr []); params = or_empty (field m ''params'' JNull) in
     case approval_of method of Some a \<Rightarrow> propose E a params (field m ''id'' JNull)
     | None \<Rightarrow> lift_result (
         if method = JStr ''item/agentMessage/delta'' then text_event TextDelta ''text'' ''delta'' params
         else if method \<in> {JStr ''item/reasoning/summaryTextDelta'', JStr ''item/reasoning/textDelta''}
         then text_event ThinkingDelta ''text'' ''delta'' params
         else if method = JStr ''turn/plan/updated'' then bindr (json_get params ''plan'' (JArr [])) (\<lambda>plan.
           bindr (json_get params ''explanation'' JNull) (\<lambda>x. Inr (Emit (Event PlanUpdated [(''plan'', plan), (''explanation'', x)]))))
         else if method = JStr ''turn/diff/updated'' then text_event DiffUpdated ''diff'' ''diff'' params
         else if method = JStr ''item/completed'' then bindr (json_get params ''item'' JNull) (\<lambda>item. completed_item b (or_empty item))
         else if method = JStr ''turn/completed'' then turn_event params
         else if method = JStr ''error'' then bindr (json_get params ''error'' JNull) (\<lambda>e. Inr (Final (Event AgentFailed [(''error'', e)])))
         else Inr Ignore))"

section \<open>The adapter\<close>

record codex_adapter =
  ca_boundary :: boundary
  ca_approval_policy :: string
  ca_default_model :: string
  ca_cwd :: string
  ca_client_name :: string
  ca_client_version :: string

definition parse_boundary :: "string \<Rightarrow> exn + boundary" where
  "parse_boundary b = (if b = ''kernel'' then Inr KernelExecutes else if b = ''forge'' then Inr ForgeExecutes
     else Inl (ValueError (''execution_boundary must be '' @ quoted ''kernel'' @ '' or '' @ quoted ''forge'')))"

definition codex_capabilities :: kernel_capabilities where
  "codex_capabilities = \<lparr>kc_kernel_id = ''codex'', kc_streaming = True, kc_deterministic_output = False,
     kc_extended_thinking = True, kc_prompt_caching = False, kc_vision = False, kc_batch_api = False, kc_hooks_native = False,
     kc_subagents_native = False, kc_mcp_remote = True, kc_mcp_local_stdio = True,
     kc_client_tools = [''Read'', ''Write'', ''Edit'', ''Bash''], kc_server_tools = [''web_search''], kc_max_context_tokens = 128000\<rparr>"

text \<open>\<open>json.dumps\<close> in the order of the keys\<close>

fun dumps_plain :: "(real \<Rightarrow> string) \<Rightarrow> json \<Rightarrow> string" where
  "dumps_plain repr JNull = ''null''"
| "dumps_plain repr (JBool b) = (if b then ''true'' else ''false'')"
| "dumps_plain repr (JInt i) = show_int i"
| "dumps_plain repr (JFloat r) = repr r"
| "dumps_plain repr (JStr s) = dumps_string s"
| "dumps_plain repr (JArr xs) = ''['' @ join '', '' (map (dumps_plain repr) xs) @ '']''"
| "dumps_plain repr (JObj kvs) = ''{'' @ join '', '' (map (\<lambda>(k, v). dumps_string k @ '': '' @ v) (map (\<lambda>(k, v). (k, dumps_plain repr v)) kvs)) @ ''}''"

definition execution_policy :: "boundary \<Rightarrow> string" where
  "execution_policy b = ''# Execution policy'' @ nl @ (case b of
       ForgeExecutes \<Rightarrow> ''The workspace is READ-ONLY to you. You may '' @ ''inspect files, but every file change or shell command MUST be '' @
         ''performed by calling the Forge tools provided over MCP. Do not '' @ ''attempt to write files or run shell commands directly.''
     | KernelExecutes \<Rightarrow> ''Each command or file change you propose '' @ ''will be reviewed before it runs. Make one well-justified '' @
         ''proposal at a time.'')"

definition persona_preamble :: "(real \<Rightarrow> string) \<Rightarrow> boundary \<Rightarrow> agent_persona \<Rightarrow> string list \<Rightarrow> string" where
  "persona_preamble repr b p tools = (let allowed = (if tools = [] then ap_allowed_tools p else tools) in join (nl @ nl) (
     [''You are operating as a Forge OS stage agent. Follow these '' @ ''instructions exactly.'',
      ''# Role'' @ nl @ ap_role p, ''# Goal'' @ nl @ ap_goal p] @
     (if ap_constraints p = [] then [] else [''# Constraints'' @ nl @ join nl (map (\<lambda>c. ''- '' @ c) (ap_constraints p))]) @
     (if allowed = [] then [] else [''# Allowed tools'' @ nl @ join '', '' allowed]) @ [execution_policy b] @
     (if ap_output_contract p = [] then [] else [''# Output contract'' @ nl @ dumps_plain repr (JObj (ap_output_contract p))])))"

definition sandbox :: "codex_adapter \<Rightarrow> json" where
  "sandbox A = (case ca_boundary A of
       ForgeExecutes \<Rightarrow> JObj [(''type'', JStr ''readOnly''), (''access'', JObj [(''type'', JStr ''fullAccess'')])]
     | KernelExecutes \<Rightarrow> JObj [(''type'', JStr ''workspaceWrite''), (''writableRoots'', JArr [JStr (ca_cwd A)]), (''networkAccess'', JBool True)])"

definition codex_model :: "codex_adapter \<Rightarrow> agent_persona \<Rightarrow> string" where
  "codex_model A p = (if ap_preferred_model p = [] then ca_default_model A else ap_preferred_model p)"

definition start_params :: "codex_adapter \<Rightarrow> agent_persona \<Rightarrow> json_obj" where
  "start_params A p = [(''model'', JStr (codex_model A p)), (''cwd'', JStr (ca_cwd A)), (''approvalPolicy'', JStr (ca_approval_policy A)),
     (''sandbox'', sandbox A), (''serviceName'', JStr (ca_client_name A))]"

definition goal_params :: "agent_persona \<Rightarrow> json \<Rightarrow> json_obj" where
  "goal_params p t = (let goal = take 4000 (ap_goal p) in
     [(''threadId'', t), (''objective'', JStr (if goal = [] then take 4000 (ap_role p) else goal)), (''status'', JStr ''active'')] @
     (case ap_thinking_budget_tokens p of Some n \<Rightarrow> if n = 0 then [] else [(''tokenBudget'', JInt n)] | None \<Rightarrow> []))"

definition turn_params :: "json \<Rightarrow> string \<Rightarrow> json_obj" where
  "turn_params t text = [(''threadId'', t), (''input'', JArr [JObj [(''type'', JStr ''text''), (''text'', JStr text)]])]"

definition ensure_initialized :: "env \<Rightarrow> 'p app_server \<Rightarrow> codex_adapter \<Rightarrow> ('p rpc_client, unit) task" where
  "ensure_initialized E S A = bindt (task (asks rc_initialized)) (\<lambda>done_before. if done_before then task (ret ()) else
     bindt (task (rpc_start S)) (\<lambda>_. bindt (rpc_request E S ''initialize'' [(''clientInfo'', JObj [(''name'', JStr (ca_client_name A)),
       (''title'', JStr ''Forge OS''), (''version'', JStr (ca_client_version A))]), (''capabilities'', JObj [(''experimentalApi'', JBool False)])]) (\<lambda>_.
     bindt (task (rpc_notify S ''initialized'' [])) (\<lambda>_. task (updates (\<lambda>c. c\<lparr>rc_initialized := True\<rparr>))))))"

definition open_thread :: "env \<Rightarrow> 'p app_server \<Rightarrow> codex_adapter \<Rightarrow> agent_persona \<Rightarrow> ('p rpc_client, json) task" where
  "open_thread E S A p = bindt (rpc_request E S ''thread/start'' (start_params A p)) (\<lambda>res.
     bindt (task (lift_result (bindr (json_item res ''thread'') (\<lambda>t. json_item t ''id'')))) (\<lambda>t.
     bindt (task (register_thread t)) (\<lambda>_. task (ret t))))"

text \<open>\<open>try: ... finally: unregister_thread(thread_id)\<close>, for the errors\<close>

definition guarded :: "json \<Rightarrow> ('p rpc_client \<times> world, 'a) task \<Rightarrow> ('p rpc_client \<times> world, 'a) task" where
  "guarded t m = catcht m (\<lambda>e (c, w). Some (Inl e, (unregister_thread t c, w)))"

datatype codex_phase = CxNew | CxStreaming | CxDeciding tool_proposal json | CxEnding

record codex_session =
  cs_thread :: json
  cs_approvals :: "(string, json) dict"
  cs_phase :: codex_phase

definition new_codex_session :: codex_session where
  "new_codex_session = \<lparr>cs_thread = JNull, cs_approvals = [], cs_phase = CxNew\<rparr>"

definition begin_turn :: "env \<Rightarrow> (real \<Rightarrow> string) \<Rightarrow> 'p app_server \<Rightarrow> codex_adapter \<Rightarrow> agent_persona \<Rightarrow> string \<Rightarrow> string list \<Rightarrow> json
    \<Rightarrow> ('p rpc_client, json) task" where
  "begin_turn E repr S A p ctx tools t = bindt (rpc_request E S ''turn/start''
       (turn_params t (persona_preamble repr (ca_boundary A) p tools @ nl @ nl @ ctx))) (\<lambda>turn.
     task (lift_result (bindr (json_get turn ''turn'' (JObj [])) (\<lambda>x. json_get x ''id'' JNull))))"

text \<open>An empty aggregate id draws an identifier, which no event of the model carries.\<close>

definition spawn_codex :: "env \<Rightarrow> (real \<Rightarrow> string) \<Rightarrow> 'p app_server \<Rightarrow> codex_adapter \<Rightarrow> agent_persona \<Rightarrow> string \<Rightarrow> string list \<Rightarrow> string
    \<Rightarrow> ('p rpc_client \<times> world, kernel_event \<times> codex_session) task" where
  "spawn_codex E repr S A p ctx tools aggregate_id = bindt (on_client (ensure_initialized E S A)) (\<lambda>_.
     bindt (task (with_local (whenp (aggregate_id = []) (bindp (uuid4_hex E) (\<lambda>_. ret ()))))) (\<lambda>_.
     bindt (on_client (open_thread E S A p)) (\<lambda>t.
     bindt (on_client (catcht (bindt (rpc_request E S ''thread/goal/set'' (goal_params p t)) (\<lambda>_. task (ret ()))) (\<lambda>_. task (ret ())))) (\<lambda>_.
     guarded t (bindt (on_client (begin_turn E repr S A p ctx tools t)) (\<lambda>turn. task (ret
       (Event SessionStarted [(''thread_id'', t), (''turn_id'', turn), (''kernel'', JStr ''codex''), (''model'', JStr (codex_model A p))],
        \<lparr>cs_thread = t, cs_approvals = [], cs_phase = CxStreaming\<rparr>))))))))"

definition note_approval :: "tool_proposal \<Rightarrow> json \<Rightarrow> codex_session \<Rightarrow> codex_session" where
  "note_approval p req_id s = s\<lparr>cs_approvals := (if is_int req_id then dict_set (tu_id p) req_id (cs_approvals s) else cs_approvals s),
     cs_phase := CxDeciding p req_id\<rparr>"

text \<open>The messages that say nothing are passed over.\<close>

partial_function (option) next_event :: "env \<Rightarrow> 'p app_server \<Rightarrow> codex_adapter \<Rightarrow> codex_session \<Rightarrow> 'p rpc_client \<times> world
    \<Rightarrow> ((exn + kernel_event \<times> codex_session) \<times> 'p rpc_client \<times> world) option" where
  "next_event E S A s st = (case on_client (take_message E S (cs_thread s)) st of
       None \<Rightarrow> None
     | Some (Inl e, st1) \<Rightarrow> Some (Inl e, st1)
     | Some (Inr m, st1) \<Rightarrow> (case with_local (translate E (ca_boundary A) m) st1 of
           (Inl e, st2) \<Rightarrow> Some (Inl e, st2)
         | (Inr Ignore, st2) \<Rightarrow> next_event E S A s st2
         | (Inr (Emit ev), st2) \<Rightarrow> Some (Inr (ev, s\<lparr>cs_phase := CxStreaming\<rparr>), st2)
         | (Inr (Final ev), st2) \<Rightarrow> Some (Inr (ev, s\<lparr>cs_phase := CxEnding\<rparr>), st2)
         | (Inr (Propose p req_id), st2) \<Rightarrow> Some (Inr (Proposal p, note_approval p req_id s), st2)))"

text \<open>\<open>_answer_proposal\<close>: the id noted for the proposal, or the one it came with.\<close>

definition answer_proposal :: "'p app_server \<Rightarrow> codex_session \<Rightarrow> tool_proposal \<Rightarrow> json \<Rightarrow> tool_result \<Rightarrow> ('p rpc_client, codex_session) prog" where
  "answer_proposal S s p req_id r = (let i = (case dict_get (cs_approvals s) (tu_id p) of Some i \<Rightarrow> i | None \<Rightarrow> req_id);
       s' = s\<lparr>cs_approvals := AList.delete (tu_id p) (cs_approvals s)\<rparr>
     in if \<not> is_int i then ret s' else thenp (rpc_respond S i (approval_response r)) (ret s'))"

definition codex_step :: "env \<Rightarrow> (real \<Rightarrow> string) \<Rightarrow> 'p app_server \<Rightarrow> codex_adapter \<Rightarrow> agent_persona \<Rightarrow> string \<Rightarrow> string list \<Rightarrow> string
    \<Rightarrow> codex_session \<Rightarrow> tool_result option \<Rightarrow> ('p rpc_client \<times> world, (kernel_event \<times> codex_session) option) task" where
  "codex_step E repr S A p ctx tools aggregate_id s sent = (case cs_phase s of
       CxNew \<Rightarrow> bindt (spawn_codex E repr S A p ctx tools aggregate_id) (\<lambda>x. task (ret (Some x)))
     | CxStreaming \<Rightarrow> guarded (cs_thread s) (bindt (next_event E S A s) (\<lambda>x. task (ret (Some x))))
     | CxDeciding q req_id \<Rightarrow> guarded (cs_thread s) (bindt (on_client (task (answer_proposal S s q req_id
           (case sent of Some r \<Rightarrow> r | None \<Rightarrow> no_decision q)))) (\<lambda>s'. bindt (next_event E S A s') (\<lambda>x. task (ret (Some x)))))
     | CxEnding \<Rightarrow> task (thenp (updates (\<lambda>(c, w). (unregister_thread (cs_thread s) c, w))) (ret None)))"

section \<open>Lemmas\<close>

text \<open>The responses written: what has an id and no method.\<close>

definition is_response :: "json \<Rightarrow> bool" where
  "is_response j = (case j of JObj m \<Rightarrow> dict_get m ''method'' = None | _ \<Rightarrow> False)"

definition responses :: "'p rpc_client \<Rightarrow> json list" where
  "responses c = filter is_response (rc_written c)"

lemma message_kinds [simp]: "\<not> is_response (call_message method n params)" "is_response (response_message i res)"
  "\<not> is_response (JObj [(''method'', x), (''params'', y)])"
  by (simp_all add: is_response_def call_message_def response_message_def dict_get_def)

text \<open>\<open>quiet f m\<close>: \<open>m\<close> writes no responses to the client \<open>f\<close> finds in the state.\<close>

definition quiet :: "('s \<Rightarrow> 'p rpc_client) \<Rightarrow> ('s, 'a) task \<Rightarrow> bool" where
  "quiet f m \<longleftrightarrow> (\<forall>s r s'. m s = Some (r, s') \<longrightarrow> responses (f s') = responses (f s))"

lemma quietD: "quiet f m \<Longrightarrow> m s = Some (r, s') \<Longrightarrow> responses (f s') = responses (f s)"
  by (auto simp: quiet_def)

lemma quiet_bindt: "quiet f m \<Longrightarrow> (\<And>x. quiet f (k x)) \<Longrightarrow> quiet f (bindt m k)"
  unfolding quiet_def bindt_Some by metis

lemma quiet_catcht: "quiet f m \<Longrightarrow> (\<And>e. quiet f (h e)) \<Longrightarrow> quiet f (catcht m h)"
  unfolding quiet_def catcht_Some by metis

lemma quiet_on_client: "quiet (\<lambda>c. c) m \<Longrightarrow> quiet fst (on_client m)"
  by (auto simp: quiet_def on_client_def)

lemma quiet_pure: "quiet f (task (ret x))" "quiet f (task (lift_result y))"
  by (simp_all add: quiet_def prog_simps)

lemma quiet_world: "quiet fst (task (with_local m))"
  by (auto simp: quiet_def prog_simps split: prod.splits)

lemma quiet_updates: "(\<And>c. rc_written (f c) = rc_written c) \<Longrightarrow> quiet (\<lambda>c. c) (task (updates f))"
  by (simp add: quiet_def prog_simps responses_def)

lemma quiet_guarded: "quiet fst m \<Longrightarrow> quiet fst (guarded t m)"
  unfolding guarded_def by (rule quiet_catcht) (auto simp: quiet_def responses_def unregister_thread_def)

lemma dispatch_written: "dispatch E j c = Inr c' \<Longrightarrow> rc_written c' = rc_written c"
  by (auto simp: dispatch_def resolve_def route_def Let_def bindr_def split: sum.splits json.splits if_splits option.splits)

lemma dispatch_lines_written: "rc_written (dispatch_lines E ls c) = rc_written c"
  by (induction E ls c rule: dispatch_lines.induct) (auto simp: dispatch_written split: sum.split)

lemma read_chunk_written: "rc_written (read_chunk E S c) = rc_written c"
  by (auto simp: read_chunk_def dispatch_lines_written simp del: dispatch_lines.simps split: option.split prod.split list.split)

lemma await_written:
  fixes S :: "'p app_server" and ready :: "'p rpc_client \<Rightarrow> 'a option"
  assumes "await_until E S ready c = Some out"
  shows "rc_written (snd out) = rc_written c"
proof (rule await_until.raw_induct [OF _ assms, where P = "\<lambda>E S ready c out. rc_written (snd out) = rc_written c"])
  fix loop E and S :: "'p app_server" and ready :: "'p rpc_client \<Rightarrow> 'a option" and c out
  assume ih: "\<And>E (S :: 'p app_server) (ready :: 'p rpc_client \<Rightarrow> 'a option) c out. loop E S ready c = Some out \<Longrightarrow> rc_written (snd out) = rc_written c"
    and run: "(case ready c of Some x \<Rightarrow> Some (x, c) | None \<Rightarrow> if rc_reading c then loop E S ready (read_chunk E S c) else None) = Some out"
  show "rc_written (snd out) = rc_written c"
    using run ih [of E S ready "read_chunk E S c" out] by (auto simp: read_chunk_written split: option.splits if_splits)
qed

lemma rpc_write_responses: "rpc_write S msg c = (r, c') \<Longrightarrow> \<not> is_response msg \<Longrightarrow> responses c' = responses c"
  by (auto simp: rpc_write_def responses_def split: option.splits prod.splits)

lemma quiet_request: "quiet (\<lambda>c. c) (rpc_request E S method params)"
  unfolding rpc_request_def quiet_def
proof (intro allI impI)
  fix c r c' assume "(let n = rc_next_id c + 1 in
     bindt (task (rpc_write S (call_message method n params))) (\<lambda>_ c1. case await_until E S (\<lambda>c. dict_get (rc_results c) n) c1 of
         None \<Rightarrow> None
       | Some (r, c2) \<Rightarrow> Some (r, c2\<lparr>rc_results := AList.delete n (rc_results c2)\<rparr>))
       (c\<lparr>rc_next_id := n, rc_pending := rc_pending c @ [n]\<rparr>)) = Some (r, c')"
  then show "responses c' = responses c"
    unfolding Let_def bindt_Some
  proof (elim disjE exE conjE)
    fix e assume "task (rpc_write S (call_message method (rc_next_id c + 1) params))
      (c\<lparr>rc_next_id := rc_next_id c + 1, rc_pending := rc_pending c @ [rc_next_id c + 1]\<rparr>) = Some (Inl e, c')"
    from rpc_write_responses [OF this [unfolded task_Some]] show ?thesis by (simp add: responses_def)
  next
    fix x c1 assume w: "task (rpc_write S (call_message method (rc_next_id c + 1) params))
      (c\<lparr>rc_next_id := rc_next_id c + 1, rc_pending := rc_pending c @ [rc_next_id c + 1]\<rparr>) = Some (Inr x, c1)"
      and a: "(case await_until E S (\<lambda>c'. dict_get (rc_results c') (rc_next_id c + 1)) c1 of None \<Rightarrow> None
        | Some (r, c2) \<Rightarrow> Some (r, c2\<lparr>rc_results := AList.delete (rc_next_id c + 1) (rc_results c2)\<rparr>)) = Some (r, c')"
    from a obtain c2 where "await_until E S (\<lambda>c'. dict_get (rc_results c') (rc_next_id c + 1)) c1 = Some (r, c2)"
      "c' = c2\<lparr>rc_results := AList.delete (rc_next_id c + 1) (rc_results c2)\<rparr>" by (auto split: option.splits)
    with await_written [OF this(1)] rpc_write_responses [OF w [unfolded task_Some]] show ?thesis by (simp add: responses_def)
  qed
qed

lemma quiet_notify: "quiet (\<lambda>c. c) (task (rpc_notify S method params))"
  by (auto simp: quiet_def rpc_notify_def dest!: rpc_write_responses)

lemma quiet_take: "quiet (\<lambda>c. c) (take_message E S t)"
  by (auto simp: quiet_def take_message_def responses_def split: option.splits dest!: await_written)

lemma quiet_rest: "quiet (\<lambda>c. c) (task (rpc_start S))" "quiet (\<lambda>c. c) (task (register_thread t))" "quiet (\<lambda>c. c) (task (asks g))"
  by (auto simp: quiet_def rpc_start_def register_thread_def responses_def prog_simps split: sum.splits)

lemmas quiet_intros = quiet_bindt quiet_catcht quiet_on_client quiet_guarded quiet_pure quiet_world quiet_updates quiet_request
  quiet_notify quiet_take quiet_rest

lemma quiet_spawn: "quiet fst (spawn_codex E repr S A p ctx tools aggregate_id)"
  unfolding spawn_codex_def ensure_initialized_def open_thread_def begin_turn_def
  by (intro quiet_intros) (auto intro!: quiet_intros split: if_split)

lemma next_event_result:
  fixes S :: "'p app_server"
  assumes "next_event E S A s st = Some out"
  shows "responses (fst (snd out)) = responses (fst st) \<and> (\<forall>ev s'. fst out = Inr (ev, s') \<longrightarrow>
    cs_approvals s' = cs_approvals s \<and> cs_phase s' \<in> {CxStreaming, CxEnding} \<or> (\<exists>p i. ev = Proposal p \<and> s' = note_approval p i s))"
proof (rule next_event.raw_induct [OF _ assms, where P = "\<lambda>E (S :: 'p app_server) A s st out. responses (fst (snd out)) = responses (fst st) \<and>
    (\<forall>ev s'. fst out = Inr (ev, s') \<longrightarrow> cs_approvals s' = cs_approvals s \<and> cs_phase s' \<in> {CxStreaming, CxEnding} \<or>
      (\<exists>p i. ev = Proposal p \<and> s' = note_approval p i s))"])
  fix loop E and S :: "'p app_server" and A s st out
  assume ih: "\<And>E (S :: 'p app_server) A s st out. loop E S A s st = Some out \<Longrightarrow> responses (fst (snd out)) = responses (fst st) \<and>
      (\<forall>ev s'. fst out = Inr (ev, s') \<longrightarrow> cs_approvals s' = cs_approvals s \<and> cs_phase s' \<in> {CxStreaming, CxEnding} \<or>
        (\<exists>p i. ev = Proposal p \<and> s' = note_approval p i s))"
    and run: "(case on_client (take_message E S (cs_thread s)) st of None \<Rightarrow> None | Some (Inl e, st1) \<Rightarrow> Some (Inl e, st1)
      | Some (Inr m, st1) \<Rightarrow> (case with_local (translate E (ca_boundary A) m) st1 of (Inl e, st2) \<Rightarrow> Some (Inl e, st2)
        | (Inr Ignore, st2) \<Rightarrow> loop E S A s st2
        | (Inr (Emit ev), st2) \<Rightarrow> Some (Inr (ev, s\<lparr>cs_phase := CxStreaming\<rparr>), st2)
        | (Inr (Propose p req_id), st2) \<Rightarrow> Some (Inr (Proposal p, note_approval p req_id s), st2)
        | (Inr (Final ev), st2) \<Rightarrow> Some (Inr (ev, s\<lparr>cs_phase := CxEnding\<rparr>), st2))) = Some out"
  obtain r st1 where taken: "on_client (take_message E S (cs_thread s)) st = Some (r, st1)"
    using run by (auto split: option.splits)
  have one: "responses (fst st1) = responses (fst st)" by (rule quietD [OF quiet_on_client [OF quiet_take] taken])
  show "responses (fst (snd out)) = responses (fst st) \<and> (\<forall>ev s'. fst out = Inr (ev, s') \<longrightarrow>
      cs_approvals s' = cs_approvals s \<and> cs_phase s' \<in> {CxStreaming, CxEnding} \<or> (\<exists>p i. ev = Proposal p \<and> s' = note_approval p i s))"
  proof (cases r)
    case (Inl e)
    with run taken one show ?thesis by auto
  next
    case (Inr m)
    obtain q st2 where said: "with_local (translate E (ca_boundary A) m) st1 = (q, st2)"
      by (cases "with_local (translate E (ca_boundary A) m) st1")
    then have two: "responses (fst st2) = responses (fst st)"
      using one quietD [OF quiet_world, of "translate E (ca_boundary A) m" st1 q st2] by simp
    show ?thesis
    proof (cases q)
      case (Inl e)
      with run taken Inr said two show ?thesis by auto
    next
      case (Inr tr)
      note known = run taken \<open>r = Inr m\<close> said two Inr
      show ?thesis
      proof (cases tr)
        case (Propose p i)
        with known have "out = (Inr (Proposal p, note_approval p i s), st2)" by simp
        with two show ?thesis by simp blast
      qed (use known ih [of E S A s st2 out] in auto)
    qed
  qed
qed

section \<open>Properties\<close>

definition verdict :: "tool_proposal \<Rightarrow> tool_result option \<Rightarrow> tool_result" where
  "verdict p sent = (case sent of Some r \<Rightarrow> r | None \<Rightarrow> no_decision p)"

text \<open>A session from its start, with the decisions taken on proposals that can be answered: the id of the
  server's request and the caller's verdict.\<close>

inductive codex_run :: "env \<Rightarrow> (real \<Rightarrow> string) \<Rightarrow> 'p app_server \<Rightarrow> codex_adapter \<Rightarrow> agent_persona \<Rightarrow> string \<Rightarrow> string list \<Rightarrow> string
    \<Rightarrow> 'p rpc_client \<times> world \<Rightarrow> codex_session \<Rightarrow> 'p rpc_client \<times> world \<Rightarrow> (json \<times> tool_result) list \<Rightarrow> bool"
  for E repr S A p ctx tools aggregate_id st0 where
  Begins: "codex_run E repr S A p ctx tools aggregate_id st0 new_codex_session st0 []"
| Resumes: "codex_run E repr S A p ctx tools aggregate_id st0 s st ds \<Longrightarrow>
    codex_step E repr S A p ctx tools aggregate_id s sent st = Some (Inr (Some (ev, s')), st') \<Longrightarrow>
    codex_run E repr S A p ctx tools aggregate_id st0 s' st'
      (ds @ (case cs_phase s of CxDeciding q i \<Rightarrow> if is_int i then [(i, verdict q sent)] else [] | _ \<Rightarrow> []))"

definition approvals_ok :: "codex_session \<Rightarrow> bool" where
  "approvals_ok s \<longleftrightarrow> cs_approvals s = (case cs_phase s of CxDeciding q i \<Rightarrow> if is_int i then [(tu_id q, i)] else [] | _ \<Rightarrow> [])"

lemma next_event_ok:
  assumes "next_event E S A s st = Some (Inr (ev, s'), st')" and "cs_approvals s = []"
  shows "approvals_ok s' \<and> responses (fst st') = responses (fst st)"
  using next_event_result [OF assms(1)] assms(2)
  by (auto simp: approvals_ok_def note_approval_def dict_set_def dict_get_def split: codex_phase.splits)

lemma guarded_Inr: "guarded t m st = Some (Inr x, st') \<longleftrightarrow> m st = Some (Inr x, st')"
  by (auto simp: guarded_def catcht_def split: option.splits sum.splits prod.splits)

lemma answered_once:
  assumes "answer_proposal S s q i r c = (Inr s', c')" and "cs_phase s = CxDeciding q i" and "approvals_ok s"
  shows "cs_approvals s' = [] \<and> responses c' = responses c @ (if is_int i then [response_message i (approval_response r)] else [])"
proof -
  have "dict_get (cs_approvals s) (tu_id q) = (if is_int i then Some i else None)" "AList.delete (tu_id q) (cs_approvals s) = []"
    using assms(2,3) by (auto simp: approvals_ok_def dict_get_def)
  with assms(1) show ?thesis
    by (auto simp: answer_proposal_def Let_def rpc_respond_def rpc_write_def responses_def prog_simps split: if_splits option.splits prod.splits)
qed


text \<open>A server that says one line at a time, in a fixed order.\<close>

definition scripted :: "json list \<Rightarrow> json list app_server" where
  "scripted script = \<lparr>av_start = Inr script, av_write = (\<lambda>_ p. (None, p)),
     av_read = (\<lambda>p. case p of [] \<Rightarrow> ([], []) | j # js \<Rightarrow> ([Inr j], js))\<rparr>"

definition answer_line :: "int \<Rightarrow> json_obj \<Rightarrow> json" where
  "answer_line n res = JObj [(''id'', JInt n), (''result'', JObj res)]"

definition demo_approval :: json where
  "demo_approval = JObj [(''id'', JInt 77), (''method'', JStr ''item/commandExecution/requestApproval''),
     (''params'', JObj [(''threadId'', JStr ''t''), (''command'', JStr ''ls'')])]"

definition demo_script :: "json list" where
  "demo_script = [answer_line 1 [], answer_line 2 [(''thread'', JObj [(''id'', JStr ''t'')])], answer_line 3 [],
     answer_line 4 [(''turn'', JObj [(''id'', JStr ''u'')])], demo_approval,
     JObj [(''method'', JStr ''turn/completed''), (''params'', JObj [(''threadId'', JStr ''t'')])]]"

definition demo_codex :: codex_adapter where
  "demo_codex = \<lparr>ca_boundary = KernelExecutes, ca_approval_policy = ''unlessTrusted'', ca_default_model = ''m'', ca_cwd = ''/p'',
     ca_client_name = ''forge_os'', ca_client_version = ''0.1.0''\<rparr>"

lemma scripted_io [simp]: "av_write (scripted script) msg p = (None, p)" "av_read (scripted script) (j # js) = ([Inr j], js)"
  "av_start (scripted script) = Inr script"
  by (simp_all add: scripted_def)

lemma scripted_await:
  assumes "rc_proc c = Some (answer_line n res # js)" and "rc_reading c" and "rc_pending c = [n]" and "rc_results c = []"
  shows "await_until E (scripted script) (\<lambda>c. dict_get (rc_results c) n) c =
    Some (Inr (JObj res), c\<lparr>rc_proc := Some js, rc_pending := [], rc_results := [(n, Inr (JObj res))]\<rparr>)"
proof -
  have "read_chunk E (scripted script) c = c\<lparr>rc_proc := Some js, rc_pending := [], rc_results := [(n, Inr (JObj res))]\<rparr>"
    using assms by (simp add: read_chunk_def answer_line_def dispatch_def resolve_def hashable_def bindr_def equals_int_def
      dict_get_def field_def dict_set_def Let_def)
  moreover have "dict_get (rc_results c) n = None" using assms by (simp add: dict_get_def)
  ultimately show ?thesis
    using assms(2) by (subst await_until.simps, simp, subst await_until.simps, simp add: dict_get_def)
qed

lemma scripted_request:
  assumes "rc_proc c = Some (answer_line (rc_next_id c + 1) res # js)" and "rc_reading c" and "rc_pending c = []" and "rc_results c = []"
  shows "rpc_request E (scripted script) method params c = Some (Inr (JObj res), c\<lparr>rc_proc := Some js, rc_next_id := rc_next_id c + 1,
    rc_written := rc_written c @ [call_message method (rc_next_id c + 1) params]\<rparr>)"
  using assms by (cases c) (simp add: rpc_request_def bindt_def task_def rpc_write_def scripted_await Let_def)

definition codex_persona :: agent_persona where
  "codex_persona = agent_def_to_persona demo_persona"

definition opened_client :: "string \<Rightarrow> json list rpc_client" where
  "opened_client text = \<lparr>rc_proc = Some (drop 4 demo_script), rc_reading = True, rc_initialized = True, rc_next_id = 4, rc_pending = [],
     rc_results = [], rc_queues = [(JStr ''t'', [])], rc_orphans = [],
     rc_written = [call_message ''initialize'' 1 [(''clientInfo'', JObj [(''name'', JStr ''forge_os''), (''title'', JStr ''Forge OS''),
         (''version'', JStr ''0.1.0'')]), (''capabilities'', JObj [(''experimentalApi'', JBool False)])],
       JObj [(''method'', JStr ''initialized''), (''params'', JObj [])], call_message ''thread/start'' 2 (start_params demo_codex codex_persona),
       call_message ''thread/goal/set'' 3 (goal_params codex_persona (JStr ''t'')), call_message ''turn/start'' 4 (turn_params (JStr ''t'') text)]\<rparr>"

lemma demo_spawn: "\<exists>ev text. spawn_codex E repr (scripted demo_script) demo_codex codex_persona ctx tools ''a'' (new_rpc_client, w) =
    Some (Inr (ev, \<lparr>cs_thread = JStr ''t'', cs_approvals = [], cs_phase = CxStreaming\<rparr>), (opened_client text, w))"
proof -
  note request = scripted_request [where script = demo_script and E = E]
  have get: "dict_get [(''thread'', x)] ''thread'' = Some x" "dict_get [(''id'', x)] ''id'' = Some x" "dict_get [(''turn'', x)] ''turn'' = Some x"
    for x :: json by (simp_all add: dict_get_def)
  let ?c0 = "(new_rpc_client :: json list rpc_client)\<lparr>rc_proc := Some demo_script, rc_reading := True\<rparr>"
  have init: "ensure_initialized E (scripted demo_script) demo_codex new_rpc_client = Some (Inr (), ?c0\<lparr>rc_proc := Some (drop 1 demo_script),
      rc_initialized := True, rc_next_id := 1, rc_written := take 2 (rc_written (opened_client []))\<rparr>)"
    using request [where c = ?c0 and res = "[]" and js = "drop 1 demo_script"]
    by (simp add: ensure_initialized_def bindt_def task_def prog_simps rpc_start_def new_rpc_client_def demo_script_def demo_codex_def
      rpc_notify_def rpc_write_def opened_client_def numeral_2_eq_2)
  let ?c1 = "?c0\<lparr>rc_proc := Some (drop 1 demo_script), rc_initialized := True, rc_next_id := 1,
      rc_written := take 2 (rc_written (opened_client []))\<rparr>"
  have opened: "open_thread E (scripted demo_script) demo_codex codex_persona ?c1 = Some (Inr (JStr ''t''), ?c1\<lparr>rc_proc := Some (drop 2 demo_script),
      rc_next_id := 2, rc_written := take 3 (rc_written (opened_client [])), rc_queues := [(JStr ''t'', [])]\<rparr>)"
    using request [where c = ?c1 and res = "[(''thread'', JObj [(''id'', JStr ''t'')])]" and js = "drop 2 demo_script"]
    by (simp add: open_thread_def bindt_def task_def prog_simps new_rpc_client_def demo_script_def opened_client_def get
      register_thread_def hashable_def dict_set_def numeral_2_eq_2 numeral_3_eq_3)
  let ?c2 = "?c1\<lparr>rc_proc := Some (drop 2 demo_script), rc_next_id := 2, rc_written := take 3 (rc_written (opened_client [])),
      rc_queues := [(JStr ''t'', [])]\<rparr>"
  let ?c3 = "?c2\<lparr>rc_proc := Some (drop 3 demo_script), rc_next_id := 3, rc_written := take 4 (rc_written (opened_client []))\<rparr>"
  have goal: "rpc_request E (scripted demo_script) ''thread/goal/set'' (goal_params codex_persona (JStr ''t'')) ?c2 = Some (Inr (JObj []), ?c3)"
    using request [where c = ?c2 and res = "[]" and js = "drop 3 demo_script"]
    by (simp add: new_rpc_client_def demo_script_def opened_client_def numeral_3_eq_3)
  let ?text = "persona_preamble repr KernelExecutes codex_persona tools @ nl @ nl @ ctx"
  have turn: "begin_turn E repr (scripted demo_script) demo_codex codex_persona ctx tools (JStr ''t'') ?c3 = Some (Inr (JStr ''u''), opened_client ?text)"
    using request [where c = ?c3 and res = "[(''turn'', JObj [(''id'', JStr ''u'')])]" and js = "drop 4 demo_script"]
    by (simp add: begin_turn_def bindt_def task_def prog_simps new_rpc_client_def demo_script_def opened_client_def demo_codex_def
      field_def get)
  obtain c1 c2 c3 where c: "c1 = ?c1" "c2 = ?c2" "c3 = ?c3" by blast
  note steps = init [folded c(1)] opened [folded c(1) c(2)] goal [folded c(2) c(3)] turn [folded c(3)]
  show ?thesis
    by (simp add: spawn_codex_def guarded_def bindt_def catcht_def on_client_def task_def prog_simps steps) blast
qed


text \<open>A server that ends while an agent runs hangs the agent. Once the server's output has ended, or a line
  has ended the reading task, and the thread's queue is empty, resuming the agent never returns,
  whatever the time limit: no failure is reported, and the pending requests are not failed either.\<close>

lemma dead_server_hangs_the_agent:
  assumes "cs_phase s = CxStreaming" and "next_message (cs_thread s) c = None"
    and "rc_reading c \<longrightarrow> (\<exists>p p'. rc_proc c = Some p \<and> av_read S p = ([], p'))"
  shows "codex_step E repr S A persona ctx tools aggregate_id s sent (c, w) = None \<and>
    (dict_get (rc_results c1) (rc_next_id c1 + 1) = None \<longrightarrow> \<not> rc_reading c1 \<longrightarrow> rc_proc c1 = Some p1 \<longrightarrow>
      (\<forall>m. fst (av_write S m p1) = None) \<longrightarrow> rpc_request E S method params c1 = None)"
proof -
  have closed: "await_until E S ready c' = None" if "ready c' = None" "\<not> rc_reading c'" for ready :: "'a rpc_client \<Rightarrow> 'b option" and c'
    using that by (subst await_until.simps) simp
  have "await_until E S (next_message (cs_thread s)) c = None"
  proof (cases "rc_reading c")
    case True
    with assms(3) obtain p p' where "rc_proc c = Some p" "av_read S p = ([], p')" by blast
    then have "read_chunk E S c = c\<lparr>rc_proc := Some p', rc_reading := False\<rparr>" by (simp add: read_chunk_def)
    moreover have "next_message (cs_thread s) (c\<lparr>rc_proc := Some p', rc_reading := False\<rparr>) = None"
      using assms(2) by (simp add: next_message_def)
    ultimately show ?thesis
      using True assms(2) by (subst await_until.simps) (simp, subst await_until.simps, simp)
  next
    case False
    with assms(2) show ?thesis by (subst await_until.simps) simp
  qed
  then have "next_event E S A s (c, w) = None"
    by (subst next_event.simps) (simp add: on_client_def take_message_def)
  then have "codex_step E repr S A persona ctx tools aggregate_id s sent (c, w) = None"
    using assms(1) by (simp add: codex_step_def guarded_def catcht_def bindt_def)
  moreover have "rpc_request E S method params c1 = None"
    if known: "dict_get (rc_results c1) (rc_next_id c1 + 1) = None" "\<not> rc_reading c1" "rc_proc c1 = Some p1" and writes: "\<forall>m. fst (av_write S m p1) = None"
  proof -
    let ?msg = "call_message method (rc_next_id c1 + 1) params"
    obtain p2 where "av_write S ?msg p1 = (None, p2)" using writes by (metis prod.collapse)
    with known show ?thesis
      by (simp add: rpc_request_def bindt_def task_def rpc_write_def Let_def, subst await_until.simps, simp)
  qed
  ultimately show ?thesis by blast
qed

lemma dead_server_hangs_the_agent_witness:
  "codex_step demo_env (\<lambda>_. []) (scripted []) demo_codex codex_persona ''go'' [] ''a''
     \<lparr>cs_thread = JStr ''t'', cs_approvals = [], cs_phase = CxStreaming\<rparr> None
     (new_rpc_client\<lparr>rc_proc := Some [], rc_reading := True, rc_queues := [(JStr ''t'', [])]\<rparr>, empty_world) = None"
proof -
  have "av_read (scripted []) [] = ([], [])" by (simp add: scripted_def)
  then show ?thesis
    using dead_server_hangs_the_agent [of "\<lparr>cs_thread = JStr ''t'', cs_approvals = [], cs_phase = CxStreaming\<rparr>"
        "new_rpc_client\<lparr>rc_proc := Some [], rc_reading := True, rc_queues := [(JStr ''t'', [])]\<rparr>" "scripted []"]
    by (simp add: next_message_def dict_get_def)
qed

text \<open>A message of the thread that arrives together with the answer to \<open>thread/start\<close> is put among the orphans,
  which nothing reads: the queue is registered only afterwards.\<close>

lemma early_messages_are_lost:
  assumes "rc_proc c = Some p" and "rc_reading c" and "rc_pending c = []" and "rc_results c = []" and "dict_get (rc_queues c) (JStr t) = None"
    and "\<And>msg. av_write S msg p = (None, p1)"
    and "av_read S p1 = ([Inr (answer_line (rc_next_id c + 1) [(''thread'', JObj [(''id'', JStr t)])]), Inr (JObj m)], p2)"
    and "dict_get m ''id'' = None" and "thread_of m = Inr (JStr t)" and "t \<noteq> []"
  shows "\<exists>c'. open_thread E S A persona c = Some (Inr (JStr t), c') \<and> rc_orphans c' = rc_orphans c @ [m] \<and> queue_of (JStr t) c' = []"
proof -
  let ?n = "rc_next_id c + 1" and ?res = "JObj [(''thread'', JObj [(''id'', JStr t)])]"
  let ?msg = "call_message ''thread/start'' ?n (start_params A persona)"
  obtain c1 where eq: "c1 = c\<lparr>rc_next_id := ?n, rc_pending := rc_pending c @ [?n], rc_proc := Some p1, rc_written := rc_written c @ [?msg]\<rparr>" by blast
  then have c1: "rc_proc c1 = Some p1" "rc_reading c1" "rc_pending c1 = [?n]" "rc_results c1 = []" "rc_queues c1 = rc_queues c"
      "rc_orphans c1 = rc_orphans c" using assms(2-4) by simp_all
  have w: "rpc_write S ?msg (c\<lparr>rc_next_id := ?n, rc_pending := rc_pending c @ [?n]\<rparr>) = (Inr (), c1)"
    using assms(1,6) eq by (simp add: rpc_write_def)
  let ?c2 = "c1\<lparr>rc_proc := Some p2, rc_pending := [], rc_results := [(?n, Inr ?res)], rc_orphans := rc_orphans c @ [m]\<rparr>"
  have "dispatch E (answer_line ?n [(''thread'', JObj [(''id'', JStr t)])]) (c1\<lparr>rc_proc := Some p2\<rparr>) =
      Inr (c1\<lparr>rc_proc := Some p2, rc_pending := [], rc_results := [(?n, Inr ?res)]\<rparr>)"
    using c1 by (simp add: dispatch_def answer_line_def resolve_def hashable_def bindr_def equals_int_def dict_get_def field_def dict_set_def Let_def)
  moreover have "dispatch E (JObj m) (c1\<lparr>rc_proc := Some p2, rc_pending := [], rc_results := [(?n, Inr ?res)]\<rparr>) = Inr ?c2"
    using c1 assms(5,8-10) by (simp add: dispatch_def route_def hashable_def truthy_def)
  ultimately have "read_chunk E S c1 = ?c2" using c1 assms(7) by (simp add: read_chunk_def)
  moreover have "dict_get (rc_results c1) ?n = None" using c1 by (simp add: dict_get_def)
  ultimately have "await_until E S (\<lambda>c. dict_get (rc_results c) ?n) c1 = Some (Inr ?res, ?c2)"
    using c1 by (subst await_until.simps, simp, subst await_until.simps, simp add: dict_get_def)
  then have "rpc_request E S ''thread/start'' (start_params A persona) c = Some (Inr ?res, ?c2\<lparr>rc_results := []\<rparr>)"
    using w by (simp add: rpc_request_def bindt_def task_def Let_def)
  moreover have "dict_get [(''thread'', x)] ''thread'' = Some x" "dict_get [(''id'', x)] ''id'' = Some x" for x :: json
    by (simp_all add: dict_get_def)
  ultimately show ?thesis
    by (simp add: open_thread_def bindt_def task_def prog_simps register_thread_def hashable_def queue_of_def)
qed

end
