(* ===== verification/Human.thy ===== *)
theory Human imports Bridge Tasks begin

text \<open>
  The kernel whose model is a person at a terminal, \<open>adapters/human/adapter.py\<close>. The terminal is a
  parameter: a state \<open>'i\<close> and what it gives for each prompt: a line, the end of the input or the
  interrupt key, or another exception. A person may type nonsense for ever, so the operations are
  tasks. What is printed is not modelled; the ellipsis of a message is three dots.
\<close>

section \<open>Input\<close>

datatype typed_input = Line string | Interrupted | Broken exn

record 'i terminal =
  tm_input :: "string \<Rightarrow> 'i \<Rightarrow> typed_input \<times> 'i"
  tm_show_thinking :: bool

text \<open>What a reading operation ends with: a value, or the interruption that the session handles.\<close>

datatype 'a entered = Entered 'a | Stopped

definition ask :: "'i terminal \<Rightarrow> string \<Rightarrow> ('i, string entered) prog" where
  "ask T prompt i = (case tm_input T prompt i of
       (Line l, i') \<Rightarrow> (Inr (Entered l), i') | (Interrupted, i') \<Rightarrow> (Inr Stopped, i') | (Broken e, i') \<Rightarrow> (Inl e, i'))"

definition forge_abstract_tools :: "string list" where
  "forge_abstract_tools = [''Read'', ''Write'', ''Edit'', ''Bash'', ''Grep'', ''Glob'', ''ProposeEvent'']"

definition human_capabilities :: kernel_capabilities where
  "human_capabilities = \<lparr>kc_kernel_id = ''human'', kc_streaming = False, kc_deterministic_output = False,
     kc_extended_thinking = False, kc_prompt_caching = False, kc_vision = True, kc_batch_api = False, kc_hooks_native = False,
     kc_subagents_native = False, kc_mcp_remote = False, kc_mcp_local_stdio = False, kc_client_tools = sorted_set forge_abstract_tools,
     kc_server_tools = [], kc_max_context_tokens = 1000000000\<rparr>"

definition choices :: "'i terminal \<Rightarrow> string list" where
  "choices T = [''s'', ''c'', ''d'', ''x''] @ (if tm_show_thinking T then [''k''] else [])"

partial_function (option) read_choice :: "'i terminal \<Rightarrow> 'i \<Rightarrow> ((exn + string entered) \<times> 'i) option" where
  "read_choice T i = (case ask T ''> '' i of
       (Inr (Entered l), i1) \<Rightarrow> (let choice = take 1 (lower (strip l)) in
         if choice \<in> set (choices T) then Some (Inr (Entered choice), i1) else read_choice T i1)
     | out \<Rightarrow> Some out)"

section \<open>Proposals\<close>

definition proposable :: "string list \<Rightarrow> string list" where
  "proposable allowed = (let known = filter (\<lambda>t. t \<in> set forge_abstract_tools) allowed in if known = [] then allowed else known)"

partial_function (option) read_tool :: "'i terminal \<Rightarrow> string list \<Rightarrow> 'i \<Rightarrow> ((exn + string entered) \<times> 'i) option" where
  "read_tool T tools i = (case ask T ''  tool name> '' i of
       (Inr (Entered l), i1) \<Rightarrow> if strip l \<in> set tools then Some (Inr (Entered (strip l)), i1) else read_tool T tools i1
     | out \<Rightarrow> Some out)"

text \<open>\<open>None\<close> asks again: no JSON, or no object.\<close>

definition parse_inputs :: "env \<Rightarrow> string \<Rightarrow> exn + json_obj option" where
  "parse_inputs E raw = (if strip raw = [] then Inr (Some []) else (case parse_json E raw of
       Inl (ValueError _) \<Rightarrow> Inr None
     | Inl e \<Rightarrow> Inl e
     | Inr (JObj m) \<Rightarrow> Inr (Some m)
     | Inr _ \<Rightarrow> Inr None))"

partial_function (option) read_inputs :: "env \<Rightarrow> 'i terminal \<Rightarrow> 'i \<Rightarrow> ((exn + json_obj entered) \<times> 'i) option" where
  "read_inputs E T i = (case ask T ''  args (JSON)> '' i of
       (Inr (Entered raw), i1) \<Rightarrow> (case parse_inputs E raw of
           Inl e \<Rightarrow> Some (Inl e, i1)
         | Inr None \<Rightarrow> read_inputs E T i1
         | Inr (Some m) \<Rightarrow> Some (Inr (Entered m), i1))
     | (Inr Stopped, i1) \<Rightarrow> Some (Inr Stopped, i1)
     | (Inl e, i1) \<Rightarrow> Some (Inl e, i1))"

text \<open>Going on with what was entered.\<close>

definition if_entered :: "('s, 'a entered) task \<Rightarrow> ('a \<Rightarrow> ('s, 'b entered) task) \<Rightarrow> ('s, 'b entered) task" where
  "if_entered m f = bindt m (\<lambda>x. case x of Entered v \<Rightarrow> f v | Stopped \<Rightarrow> task (ret Stopped))"

definition collect_proposal :: "env \<Rightarrow> 'i terminal \<Rightarrow> string list \<Rightarrow> ('i \<times> world, tool_proposal entered) task" where
  "collect_proposal E T allowed = if_entered (on_client (read_tool T (proposable allowed))) (\<lambda>name.
     if_entered (on_client (read_inputs E T)) (\<lambda>inputs. task (with_local (bindp (uuid4_hex E) (\<lambda>u. ret (Entered
       \<lparr>tu_id = ''human-'' @ take 12 u, tu_name = name, tu_abstract = name, tu_inputs = JObj inputs,
        tu_payload = [(''tool'', JStr name), (''inputs'', JObj inputs)]\<rparr>))))))"

section \<open>The session\<close>

datatype human_phase = HuNew | HuAsking | HuDeciding | HuEnding

record human_session =
  hs_said :: "string list"
  hs_thought :: "string list"
  hs_phase :: human_phase

definition new_human_session :: human_session where
  "new_human_session = \<lparr>hs_said = [], hs_thought = [], hs_phase = HuNew\<rparr>"

definition spoken :: "event_kind \<Rightarrow> string \<Rightarrow> kernel_event" where
  "spoken k l = Event k [(''text'', JStr l)]"

definition session_summary :: "human_session \<Rightarrow> kernel_event" where
  "session_summary s = Event AgentCompleted [(''text'', JStr (strip (join nl (hs_said s)))), (''thinking'', JStr (join nl (hs_thought s)))]"

definition human_failed :: "string \<Rightarrow> kernel_event" where
  "human_failed why = Event AgentFailed [(''reason'', JStr why)]"

definition human_action :: "env \<Rightarrow> 'i terminal \<Rightarrow> string list \<Rightarrow> human_session \<Rightarrow> string
    \<Rightarrow> ('i \<times> world, (kernel_event \<times> human_session) entered) task" where
  "human_action E T tools s choice =
     (if choice = ''s'' then if_entered (on_client (task (ask T ''  say> ''))) (\<lambda>l. task (ret (Entered
        (spoken TextDelta l, s\<lparr>hs_said := hs_said s @ [l], hs_phase := HuAsking\<rparr>))))
      else if choice = ''k'' then if_entered (on_client (task (ask T ''  think> ''))) (\<lambda>l. task (ret (Entered
        (spoken ThinkingDelta l, s\<lparr>hs_thought := hs_thought s @ [l], hs_phase := HuAsking\<rparr>))))
      else if choice = ''c'' then if_entered (collect_proposal E T tools) (\<lambda>p. task (ret (Entered
        (Proposal p, s\<lparr>hs_phase := HuDeciding\<rparr>))))
      else if choice = ''d'' then task (ret (Entered (session_summary s, s\<lparr>hs_phase := HuEnding\<rparr>)))
      else if_entered (on_client (task (ask T ''  abort reason> ''))) (\<lambda>l. task (ret (Entered
        (human_failed (if l = [] then ''operator aborted'' else l), s\<lparr>hs_phase := HuEnding\<rparr>)))))"

definition human_turn :: "env \<Rightarrow> 'i terminal \<Rightarrow> string list \<Rightarrow> human_session \<Rightarrow> ('i \<times> world, kernel_event \<times> human_session) task" where
  "human_turn E T tools s = bindt (if_entered (on_client (read_choice T)) (human_action E T tools s)) (\<lambda>x. task (ret (case x of
       Entered out \<Rightarrow> out
     | Stopped \<Rightarrow> (human_failed ''operator interrupted (EOF/SIGINT)'', s\<lparr>hs_phase := HuEnding\<rparr>))))"

definition human_step :: "env \<Rightarrow> 'i terminal \<Rightarrow> agent_persona \<Rightarrow> string list \<Rightarrow> human_session \<Rightarrow> tool_result option
    \<Rightarrow> ('i \<times> world, (kernel_event \<times> human_session) option) task" where
  "human_step E T persona tools s sent = (let turn = bindt (human_turn E T tools s) (\<lambda>x. task (ret (Some x))) in case hs_phase s of
       HuNew \<Rightarrow> task (ret (Some (Event SessionStarted [(''kernel'', JStr ''human''), (''persona'', JStr (ap_name persona))],
         s\<lparr>hs_phase := HuAsking\<rparr>)))
     | HuAsking \<Rightarrow> turn
     | HuDeciding \<Rightarrow> if sent = None then task (throw (RuntimeError (''HumanAdapter: ToolUseProposal must be resumed via '' @
         ''asend(ToolResult(...)); got NoneType.''))) else turn
     | HuEnding \<Rightarrow> task (ret None))"

section \<open>Lemmas\<close>

lemma read_tool_offered:
  assumes "read_tool T tools i = Some out"
  shows "\<forall>name. fst out = Inr (Entered name) \<longrightarrow> name \<in> set tools"
proof (rule read_tool.raw_induct [OF _ assms, where P = "\<lambda>T tools i out. \<forall>name. fst out = Inr (Entered name) \<longrightarrow> name \<in> set tools"])
  fix loop and T :: "'i terminal" and tools i out
  assume ih: "\<And>(T :: 'i terminal) tools i out. loop T tools i = Some out \<Longrightarrow> \<forall>name. fst out = Inr (Entered name) \<longrightarrow> name \<in> set tools"
    and run: "(case ask T ''  tool name> '' i of
       (Inr (Entered l), i1) \<Rightarrow> if strip l \<in> set tools then Some (Inr (Entered (strip l)), i1) else loop T tools i1
     | out \<Rightarrow> Some out) = Some out"
  obtain r i1 where asked: "ask T ''  tool name> '' i = (r, i1)" by fastforce
  show "\<forall>name. fst out = Inr (Entered name) \<longrightarrow> name \<in> set tools"
    using run unfolding asked by (auto split: sum.splits entered.splits if_splits dest: ih)
qed

lemma if_entered_Some: "if_entered m f s = Some (r, s') \<longleftrightarrow> (\<exists>e. m s = Some (Inl e, s') \<and> r = Inl e) \<or>
    (m s = Some (Inr Stopped, s') \<and> r = Inr Stopped) \<or> (\<exists>v s1. m s = Some (Inr (Entered v), s1) \<and> f v s1 = Some (r, s'))"
proof (cases "m s")
  case None
  then show ?thesis by (simp add: if_entered_def bindt_def)
next
  case (Some out)
  then show ?thesis
    by (cases out; cases "fst out") (auto simp: if_entered_def bindt_def task_def ret_run split: entered.splits)
qed

lemma collect_proposal_offered:
  assumes "collect_proposal E T allowed st = Some (Inr (Entered q), st')"
  shows "tu_name q \<in> set (proposable allowed)"
  using assms
  by (auto simp: collect_proposal_def if_entered_Some on_client_def prog_simps split: prod.splits dest!: read_tool_offered)

text \<open>The events of a session, from its start.\<close>

inductive human_run :: "env \<Rightarrow> 'i terminal \<Rightarrow> agent_persona \<Rightarrow> string list \<Rightarrow> 'i \<times> world \<Rightarrow> human_session \<Rightarrow> 'i \<times> world \<Rightarrow> kernel_event list \<Rightarrow> bool"
  for E T persona tools st0 where
  Begins: "human_run E T persona tools st0 new_human_session st0 []"
| Resumes: "human_run E T persona tools st0 s st evs \<Longrightarrow> human_step E T persona tools s sent st = Some (Inr (Some (ev, s')), st') \<Longrightarrow>
    human_run E T persona tools st0 s' st' (evs @ [ev])"

text \<open>The lines of the events of one kind.\<close>

definition lines_of :: "event_kind \<Rightarrow> kernel_event list \<Rightarrow> string list" where
  "lines_of k evs = List.map_filter (\<lambda>ev. case ev of Event k' [(''text'', JStr l)] \<Rightarrow> if k' = k then Some l else None | _ \<Rightarrow> None) evs"

text \<open>What an event adds to a session.\<close>

definition recorded :: "string list \<Rightarrow> human_session \<Rightarrow> kernel_event \<Rightarrow> human_session \<Rightarrow> bool" where
  "recorded tools s ev s' \<longleftrightarrow> hs_said s' = hs_said s @ lines_of TextDelta [ev] \<and> hs_thought s' = hs_thought s @ lines_of ThinkingDelta [ev] \<and>
     (\<forall>q. ev = Proposal q \<longrightarrow> tu_name q \<in> set (proposable tools)) \<and> (\<forall>x. ev = Event AgentCompleted x \<longrightarrow> ev = session_summary s)"

lemma lines_of_one: "lines_of k [Event k' x] = (case x of [(''text'', JStr l)] \<Rightarrow> if k' = k then [l] else [] | _ \<Rightarrow> [])"
  "lines_of k [Proposal q] = []"
  by (auto simp: lines_of_def map_filter_def split: list.splits char.splits bool.splits json.splits)

lemma human_action_records:
  assumes "human_action E T tools s choice st = Some (Inr (Entered (ev, s')), st')"
  shows "recorded tools s ev s'"
  using assms
  by (auto simp: human_action_def if_entered_Some prog_simps recorded_def spoken_def session_summary_def human_failed_def lines_of_one
    split: if_splits dest: collect_proposal_offered)

lemma human_step_records:
  assumes "human_step E T persona tools s sent st = Some (Inr (Some (ev, s')), st')"
  shows "recorded tools s ev s'"
proof -
  have turn: "recorded tools s ev s'" if "human_turn E T tools s st = Some (Inr (ev, s'), st')"
  proof -
    from that obtain x where x: "if_entered (on_client (read_choice T)) (human_action E T tools s) st = Some (Inr x, st')"
      and out: "(ev, s') = (case x of Entered out \<Rightarrow> out
        | Stopped \<Rightarrow> (human_failed ''operator interrupted (EOF/SIGINT)'', s\<lparr>hs_phase := HuEnding\<rparr>))"
      by (auto simp: human_turn_def bindt_Some prog_simps)
    show ?thesis
    proof (cases x)
      case (Entered y)
      with x out show ?thesis by (auto simp: if_entered_Some dest: human_action_records)
    next
      case Stopped
      with out show ?thesis by (simp add: recorded_def human_failed_def lines_of_one)
    qed
  qed
  show ?thesis
    using assms turn
    by (auto simp: human_step_def bindt_Some prog_simps recorded_def lines_of_one Let_def split: human_phase.splits if_splits)
qed

lemma lines_of_append: "lines_of k (evs @ evs') = lines_of k evs @ lines_of k evs'"
  by (simp add: lines_of_def map_filter_def)

section \<open>Properties\<close>

text \<open>A person's session proposes offered tools only, and its completion says what was said. In every run,
  each proposal names a tool the persona may propose, and a completion event carries the lines of the
  text events yielded before it, joined and stripped, and those of the thinking events.\<close>

lemma human_sessions_say_what_was_said:
  assumes "human_run E T persona tools st0 s st evs"
  shows "(\<forall>q. Proposal q \<in> set evs \<longrightarrow> tu_name q \<in> set (proposable tools)) \<and>
    (\<forall>before x after. evs = before @ Event AgentCompleted x # after \<longrightarrow>
      x = [(''text'', JStr (strip (join nl (lines_of TextDelta before)))), (''thinking'', JStr (join nl (lines_of ThinkingDelta before)))])"
proof -
  have "hs_said s = lines_of TextDelta evs \<and> hs_thought s = lines_of ThinkingDelta evs"
    if "human_run E T persona tools st0 s st evs" for s st evs
    using that
    by induction (auto simp: new_human_session_def lines_of_def map_filter_def[of _ "[]"] lines_of_append[unfolded lines_of_def]
        dest!: human_step_records simp: recorded_def[unfolded lines_of_def])
  note said = this
  show ?thesis
    using assms
  proof induction
    case Begins
    then show ?case by simp
  next
    case (Resumes s st evs sent ev s' st')
    have rec: "recorded tools s ev s'" by (rule human_step_records [OF Resumes.hyps(2)])
    show ?case
    proof (intro conjI allI impI)
      show "tu_name q \<in> set (proposable tools)" if "Proposal q \<in> set (evs @ [ev])" for q
        using that Resumes.IH rec by (auto simp: recorded_def)
      show "x = [(''text'', JStr (strip (join nl (lines_of TextDelta before)))), (''thinking'', JStr (join nl (lines_of ThinkingDelta before)))]"
        if "evs @ [ev] = before @ Event AgentCompleted x # after" for before x after
      proof (cases after rule: rev_cases)
        case Nil
        with that have "evs = before" "ev = Event AgentCompleted x" by auto
        with rec said [OF Resumes.hyps(1)] show ?thesis by (auto simp: recorded_def session_summary_def)
      next
        case (snoc after' z)
        with that have "evs = before @ Event AgentCompleted x # after'" by simp
        with Resumes.IH show ?thesis by blast
      qed
    qed
  qed
qed

definition typist :: "typed_input list terminal" where
  "typist = \<lparr>tm_input = (\<lambda>_ ls. case ls of [] \<Rightarrow> (Interrupted, []) | l # ls \<Rightarrow> (l, ls)), tm_show_thinking = True\<rparr>"

lemma human_sessions_say_what_was_said_witness:
  "\<exists>s st x. human_run demo_env typist (agent_def_to_persona demo_persona) [''Read''] ([Line ''s'', Line ''hi'', Line ''d''], empty_world) s st
      [Event SessionStarted [(''kernel'', JStr ''human''), (''persona'', JStr ''Builder'')], spoken TextDelta ''hi'', Event AgentCompleted x] \<and>
     x = [(''text'', JStr (strip ''hi'')), (''thinking'', JStr [])]"
proof -
  let ?p = "agent_def_to_persona demo_persona"
  let ?run = "human_run demo_env typist ?p [''Read''] ([Line ''s'', Line ''hi'', Line ''d''], empty_world)"
  have choice: "take 1 (lower (strip ''s'')) = ''s''" "take 1 (lower (strip ''d'')) = ''d''" by code_simp+
  have read: "read_choice typist (Line l # ls) = Some (Inr (Entered l), ls)" if "l \<in> {''s'', ''d''}" for l ls
    using that choice by (subst read_choice.simps) (auto simp: ask_def typist_def choices_def)
  have said: "ask typist q (Line l # ls) = (Inr (Entered l), ls)" for q l ls by (simp add: ask_def typist_def)
  note defs = human_step_def human_turn_def human_action_def if_entered_def task_defs prog_simps read said Let_def
  let ?s1 = "new_human_session\<lparr>hs_phase := HuAsking\<rparr>" and ?s2 = "\<lparr>hs_said = [''hi''], hs_thought = [], hs_phase = HuAsking\<rparr>"
  have "ap_name ?p = ''Builder''" by (simp add: agent_def_to_persona_def demo_persona_def stage_persona_def)
  then have "human_step demo_env typist ?p [''Read''] new_human_session None ([Line ''s'', Line ''hi'', Line ''d''], empty_world) =
      Some (Inr (Some (Event SessionStarted [(''kernel'', JStr ''human''), (''persona'', JStr ''Builder'')], ?s1)), ([Line ''s'', Line ''hi'', Line ''d''], empty_world))"
    by (simp add: defs new_human_session_def)
  from human_run.Resumes [OF human_run.Begins this]
  have one: "?run ?s1 ([Line ''s'', Line ''hi'', Line ''d''], empty_world) [Event SessionStarted [(''kernel'', JStr ''human''), (''persona'', JStr ''Builder'')]]"
    by simp
  have "human_step demo_env typist ?p [''Read''] ?s1 None ([Line ''s'', Line ''hi'', Line ''d''], empty_world) =
      Some (Inr (Some (spoken TextDelta ''hi'', ?s2)), ([Line ''d''], empty_world))"
    by (simp add: defs new_human_session_def)
  from human_run.Resumes [OF one this] have two: "?run ?s2 ([Line ''d''], empty_world)
      [Event SessionStarted [(''kernel'', JStr ''human''), (''persona'', JStr ''Builder'')], spoken TextDelta ''hi'']" by simp
  have "human_step demo_env typist ?p [''Read''] ?s2 None ([Line ''d''], empty_world) =
      Some (Inr (Some (session_summary ?s2, ?s2\<lparr>hs_phase := HuEnding\<rparr>)), ([], empty_world))"
    by (simp add: defs)
  from human_run.Resumes [OF two this] obtain x where three: "?run (?s2\<lparr>hs_phase := HuEnding\<rparr>) ([], empty_world)
      [Event SessionStarted [(''kernel'', JStr ''human''), (''persona'', JStr ''Builder'')], spoken TextDelta ''hi'', Event AgentCompleted x]"
    by (auto simp: session_summary_def)
  from conjunct2 [OF human_sessions_say_what_was_said [OF this], rule_format,
      of "[Event SessionStarted [(''kernel'', JStr ''human''), (''persona'', JStr ''Builder'')], spoken TextDelta ''hi'']" x "[]"]
  have "x = [(''text'', JStr (strip ''hi'')), (''thinking'', JStr [])]"
    by (simp add: lines_of_def map_filter_def spoken_def)
  with three show ?thesis by blast
qed

text \<open>With no tools at all, proposing one never ends: no name is accepted, and only an interruption gets out.\<close>

lemma no_tool_can_be_named:
  assumes "\<And>q i. \<exists>l i'. tm_input T q i = (Line l, i')"
  shows "collect_proposal E T [] st = None"
proof -
  have "\<not> (read_tool T [] i = Some out)" for i out
  proof
    assume run: "read_tool T [] i = Some out"
    have "(\<forall>q i. \<exists>l i'. tm_input T q i = (Line l, i')) \<longrightarrow> tools = [] \<longrightarrow> False" if "read_tool T tools i = Some out" for tools i out
    proof (rule read_tool.raw_induct [OF _ that, where P = "\<lambda>T tools i out. (\<forall>q i. \<exists>l i'. tm_input T q i = (Line l, i')) \<longrightarrow> tools = [] \<longrightarrow> False"])
      fix loop and T :: "'a terminal" and tools i out
      assume ih: "\<And>(T :: 'a terminal) tools i out. loop T tools i = Some out \<Longrightarrow> (\<forall>q i. \<exists>l i'. tm_input T q i = (Line l, i')) \<longrightarrow> tools = [] \<longrightarrow> False"
        and step: "(case ask T ''  tool name> '' i of
          (Inr (Entered l), i1) \<Rightarrow> if strip l \<in> set tools then Some (Inr (Entered (strip l)), i1) else loop T tools i1
        | out \<Rightarrow> Some out) = Some out"
      show "(\<forall>q i. \<exists>l i'. tm_input T q i = (Line l, i')) \<longrightarrow> tools = [] \<longrightarrow> False"
      proof (intro impI)
        assume lines: "\<forall>q i. \<exists>l i'. tm_input T q i = (Line l, i')" and none: "tools = []"
        obtain l i1 where "tm_input T ''  tool name> '' i = (Line l, i1)" using lines by blast
        then have "ask T ''  tool name> '' i = (Inr (Entered l), i1)" by (simp add: ask_def)
        with step none have "loop T [] i1 = Some out" by simp
        from ih [OF this] lines show False by blast
      qed
    qed
    from this [OF run] assms show False by blast
  qed
  then have "read_tool T [] i = None" for i by (cases "read_tool T [] i") auto
  then show ?thesis
    by (cases st) (simp add: collect_proposal_def if_entered_def bindt_def on_client_def proposable_def Let_def)
qed

end
