(* ===== verification/Runner.thy ===== *)
theory Runner imports Observer Dreamer Health begin

text \<open>
  The daemon's process: the tasks it schedules, \<open>daemon/tasks.py\<close>, and its main function, \<open>daemon/runner.py\<close>. Here the
  scheduler of \<open>Daemon\<close> meets the components it runs: the Dreamer behind the throttle of \<open>Cost\<close>, the sweep of
  \<open>Health\<close> and the observer of \<open>Observer\<close>. The observer's own state lives beside the world. What the stop event
  shows and what the clock reads are parameters of the loop; a signal's handler only sets the event. The log
  file, and making the daemon's directory, are left out.
\<close>

section \<open>The tasks\<close>

text \<open>What the tasks ask of their surroundings: the event store, the agents and their registry, pydantic's
  check of the observer's section, the time the file system gives a digest.\<close>

record 'c daemon_setup =
  du_readdb :: "world \<Rightarrow> db_reading"
  du_surroundings :: "'c surroundings"
  du_validate :: "json_obj \<Rightarrow> observer_config option"
  du_mtime :: "world \<Rightarrow> real"

type_synonym daemon_task = "(observer \<times> world) scheduled_task"

definition heartbeat_interval :: real where
  "heartbeat_interval = 30"

definition dreamer_daily_interval :: real where
  "dreamer_daily_interval = 86400"

definition dreamer_weekly_interval :: real where
  "dreamer_weekly_interval = 604800"

definition health_monitor_interval :: real where
  "health_monitor_interval = 3600"

definition default_decay :: decay_settings where
  "default_decay = \<lparr>dc_half_life = 30, dc_threshold = 3 / 10, dc_dormancy_days = 30\<rparr>"

definition digest_task :: "env \<Rightarrow> 'c daemon_setup \<Rightarrow> (world, json_obj option) prog" where
  "digest_task E U = bindp (asks (du_mtime U)) (\<lambda>mtime. bindp (write_digest E mtime None None) (\<lambda>written.
     ret (Some [(''written'', JBool (written \<noteq> None)),
       (''path'', opt_str (map_option (\<lambda>p. root_path E @ ''/'' @ p) written))])))"

definition decay_task :: "env \<Rightarrow> (world, json_obj option) prog" where
  "decay_task E = bindp (apply_decay E None default_decay) (\<lambda>r. ret (Some [(''examined'', JInt (int (dr_examined r))),
     (''decayed'', JInt (int (dr_decayed r))), (''newly_dormant'', JInt (int (length (dr_dormant_ids r)))),
     (''dormant_ids'', JArr (map JStr (dr_dormant_ids r)))]))"

definition reingest_task :: "env \<Rightarrow> (world, json_obj option) prog" where
  "reingest_task E = bindp (reingest_reflections E None 7 ''7'') (\<lambda>r.
     ret (Some [(''reflections_scanned'', JInt (int (rr_reflections_scanned r))),
       (''tensions'', JInt (int (length (rr_tensions r)))), (''lessons_proposed'', JInt (int (length (rr_lessons_proposed r))))]))"

definition gated_task :: "env \<Rightarrow> 'c daemon_setup \<Rightarrow> string \<Rightarrow> real \<Rightarrow> (world, json_obj option) prog \<Rightarrow> daemon_task" where
  "gated_task E U name interval run = \<lparr>st_name = name, st_interval = interval,
     st_run = with_local (throttle_gate E (du_readdb U) None name run)\<rparr>"

definition dreamer_tasks :: "env \<Rightarrow> 'c daemon_setup \<Rightarrow> daemon_task list" where
  "dreamer_tasks E U = [gated_task E U ''dreamer-digest'' dreamer_daily_interval (digest_task E U),
     gated_task E U ''dreamer-decay'' dreamer_daily_interval (decay_task E),
     gated_task E U ''dreamer-reingest'' dreamer_weekly_interval (reingest_task E)]"

definition new_observer :: "observer_config \<Rightarrow> observer" where
  "new_observer config = \<lparr>ob_config = config, ob_restarts = [], ob_unhealthy = [], ob_clients = 0\<rparr>"

definition observer_tasks :: "env \<Rightarrow> 'c daemon_setup \<Rightarrow> observer_config \<Rightarrow> daemon_task list" where
  "observer_tasks E U config = (if \<not> oc_enabled config then [] else
     [\<lparr>st_name = ''observer-registry'', st_interval = oc_poll_interval config, st_run = check_registry E (du_surroundings U)\<rparr>,
      \<lparr>st_name = ''observer-session-cleanup'', st_interval = oc_cleanup_interval config,
        st_run = cleanup_stale_sessions E (du_surroundings U)\<rparr>,
      \<lparr>st_name = ''observer-agent-health'', st_interval = oc_health_interval config,
        st_run = restart_unhealthy_agents E (du_surroundings U)\<rparr>,
      \<lparr>st_name = ''observer-metrics'', st_interval = oc_metrics_interval config, st_run = collect_metrics E (du_surroundings U)\<rparr>])"

definition monitor_task :: "env \<Rightarrow> 'c daemon_setup \<Rightarrow> (world, json_obj option) prog" where
  "monitor_task E U = bindp (monitor_check E (default_checkers E (du_readdb U))) (\<lambda>s.
     ret (Some [(''checked'', JInt (int (sw_checked s))), (''unhealthy'', JInt (int (sw_unhealthy s))),
       (''alerted'', JInt (int (sw_alerted s)))]))"

definition health_monitor_tasks :: "env \<Rightarrow> 'c daemon_setup \<Rightarrow> health_monitor_config \<Rightarrow> daemon_task list" where
  "health_monitor_tasks E U config = (if \<not> hm_enabled config then [] else
     [\<lparr>st_name = ''health-monitor'', st_interval = health_monitor_interval, st_run = with_local (monitor_task E U)\<rparr>])"

definition heartbeat_task :: "env \<Rightarrow> daemon_task" where
  "heartbeat_task E = \<lparr>st_name = ''heartbeat'', st_interval = heartbeat_interval, st_run = with_local (heartbeat E)\<rparr>"

definition build_scheduled_tasks :: "env \<Rightarrow> 'c daemon_setup \<Rightarrow> (world, daemon_task list \<times> observer) prog" where
  "build_scheduled_tasks E U = bindp (load_observer_config E (du_validate U)) (\<lambda>oc.
     bindp (load_monitor_config_from_project E) (\<lambda>hm.
     ret (heartbeat_task E # dreamer_tasks E U @ observer_tasks E U oc @ health_monitor_tasks E U hm, new_observer oc)))"

section \<open>The process\<close>

definition daemon_loop :: "env \<Rightarrow> daemon_task list \<Rightarrow> (nat \<Rightarrow> bool) \<Rightarrow> (nat \<Rightarrow> real) \<Rightarrow> observer \<times> world
    \<Rightarrow> (next_due \<times> observer \<times> world) option" where
  "daemon_loop E tasks stop clock s = run_forever (\<lambda>n r. with_local (on_result E n r))
     (\<lambda>n e. with_local (on_error E n e)) tasks stop clock 0 (Map.empty, s)"

definition daemon_main :: "env \<Rightarrow> 'c daemon_setup \<Rightarrow> int \<Rightarrow> string \<Rightarrow> (nat \<Rightarrow> bool) \<Rightarrow> (nat \<Rightarrow> real) \<Rightarrow> world
    \<Rightarrow> ((exn + int) \<times> world) option" where
  "daemon_main E U pid project_root stop clock w = (case initial_state E pid project_root w of
       (Inl e, w1) \<Rightarrow> Some (Inl e, w1)
     | (Inr _, w1) \<Rightarrow> (case build_scheduled_tasks E U w1 of
         (Inl e, w2) \<Rightarrow> Some (Inl e, w2)
       | (Inr (tasks, b), w2) \<Rightarrow> (case daemon_loop E tasks stop clock (b, w2) of
           None \<Rightarrow> None
         | Some (_, _, w3) \<Rightarrow> Some (bindp (stamp_final_heartbeat E) (\<lambda>_. ret 0) w3))))"

section \<open>What a run keeps\<close>

text \<open>An invariant of the world that every task and both callbacks keep is an invariant of the loop.\<close>

definition beside :: "(world \<Rightarrow> bool) \<Rightarrow> 'l \<times> world \<Rightarrow> bool" where
  "beside I = (\<lambda>(l, w). I w)"

lemma beside_simps [simp]: "beside I (l, w) = I w"
  by (simp add: beside_def)

lemma keeps_with_local [pres_intros]: "keeps I m \<Longrightarrow> keeps (beside I) (with_local m)"
  by (auto simp: keeps_def with_local_run split: prod.splits)

lemma keeps_foldp [pres_intros]: "(\<And>x s. keeps I (f x s)) \<Longrightarrow> keeps I (foldp f xs s)"
  by (induction xs arbitrary: s) (auto intro: keeps_basic keeps_bindp)

lemma keeps_catchp [pres_intros]:
  assumes "keeps I m" and "\<And>e. keeps I (h e)"
  shows "keeps I (catchp m h)"
proof (rule keepsI)
  fix w assume "I w"
  obtain r w' where m: "m w = (r, w')" by (cases "m w")
  from keeps_result [OF assms(1) m \<open>I w\<close>] have "I w'" .
  with m keepsD [OF assms(2)] show "I (snd (catchp m h w))" by (cases r) (auto simp: catchp_run)
qed

lemma keeps_case_option [pres_intros]:
  "keeps I m \<Longrightarrow> (\<And>x. keeps I (g x)) \<Longrightarrow> keeps I (case v of None \<Rightarrow> m | Some x \<Rightarrow> g x)"
  by (cases v) auto

lemma keeps_asks_bind [pres_intros]: "(\<And>w. keeps I (g (f w))) \<Longrightarrow> keeps I (bindp (asks f) g)"
  by (auto simp: keeps_def bindp_run asks_run)

lemma run_pending_keeps:
  assumes "\<forall>t\<in>set tasks. keeps I (st_run t)" and "\<And>n r. keeps I (res n r)" and "\<And>n e. keeps I (err n e)"
    and "I w" and "run_pending res err tasks now (due, w) = (r, (due', w'))"
  shows "I w'"
proof -
  have iso: "keeps I (isolated m)" if "keeps I m" for m
    unfolding isolated_def using that by (intro pres_intros)
  have task: "I (snd (run_task res err t v))" if "t \<in> set tasks" "I v" for t v
  proof -
    obtain r v1 where 1: "st_run t v = (r, v1)" by (cases "st_run t v")
    with that assms(1) have "I v1" by (metis keeps_result)
    with 1 show ?thesis
      using keepsD [OF iso [OF assms(2)]] keepsD [OF iso [OF assms(3)]] by (cases r) (auto simp: run_task_def)
  qed
  have "foldp (pending_step res err now) ts names (due, v) = (r, (due', w')) \<Longrightarrow> set ts \<subseteq> set tasks \<Longrightarrow> I v \<Longrightarrow> I w'"
    for ts names due v
  proof (induction ts arbitrary: names due v)
    case (Cons t ts)
    obtain x v1 where 1: "run_task res err t v = (x, v1)" by (cases "run_task res err t v")
    with task [of t v] Cons.prems have "I v1" by auto
    with Cons 1 show ?case
      by (cases x) (auto simp: bindp_run pending_step_def with_local_run ret_run split: if_splits)
  qed (simp add: ret_run)
  with assms(4,5) show ?thesis unfolding run_pending_def by blast
qed

lemma run_forever_keeps:
  assumes ends: "run_forever res err tasks stop clock k (due, w) = Some (due', w')"
    and tasks: "\<forall>t\<in>set tasks. keeps I (st_run t)" and "\<And>n r. keeps I (res n r)" and "\<And>n e. keeps I (err n e)"
    and "I w"
  shows "I w'"
proof -
  have "res = res \<longrightarrow> err = err \<longrightarrow> tasks = tasks \<longrightarrow> I (snd s) \<longrightarrow> I (snd s')"
    if "run_forever res err tasks stop clock k s = Some s'" for s s'
  proof (rule run_forever.raw_induct [OF _ that, where P = "\<lambda>r e ts st c k s s'. r = res \<longrightarrow> e = err \<longrightarrow> ts = tasks \<longrightarrow> I (snd s) \<longrightarrow> I (snd s')"])
    fix f r e ts st c k s s'
    assume IH: "\<And>r e ts st c k s s'. f r e ts st c k s = Some s' \<Longrightarrow> r = res \<longrightarrow> e = err \<longrightarrow> ts = tasks \<longrightarrow> I (snd s) \<longrightarrow> I (snd s')"
      and step: "(if st k then Some s else let s' = snd (run_pending r e ts (c k) s) in
        if st (Suc k) then Some s' else f r e ts st c (Suc (Suc k)) s') = Some s'"
    show "r = res \<longrightarrow> e = err \<longrightarrow> ts = tasks \<longrightarrow> I (snd s) \<longrightarrow> I (snd s')"
    proof (intro impI)
      assume eqs: "r = res" "e = err" "ts = tasks" and "I (snd s)"
      obtain due w where s: "s = (due, w)" by (cases s)
      obtain x due1 w1 where p: "run_pending res err tasks (c k) (due, w) = (x, (due1, w1))"
        by (metis prod_cases3)
      have "I w1" using run_pending_keeps [OF tasks assms(3,4) _ p] \<open>I (snd s)\<close> s by simp
      with step IH [of res err tasks st c "Suc (Suc k)" "(due1, w1)" s'] eqs s p \<open>I (snd s)\<close> show "I (snd s')"
        by (auto simp: Let_def split: if_splits)
    qed
  qed
  from this [OF ends] assms(5) show ?thesis by simp
qed

text \<open>The observer's passes touch the world by reading it, by asking the registry and by what they write themselves.\<close>

definition by_observer :: "(world \<Rightarrow> bool) \<Rightarrow> env \<Rightarrow> network \<Rightarrow> bool" where
  "by_observer I E N \<longleftrightarrow> keeps I (is_registry_accessible N) \<and> (\<forall>a s m d. keeps I (observer_alert E a s m d)) \<and>
     keeps I (utc_now E) \<and> keeps I get_installed_agents \<and> (\<forall>m. keeps I (write_metrics E m))"

lemma get_installed_agents_reads: "unchanged f get_installed_agents"
  unfolding get_installed_agents_def load_installed_def by (auto simp: unchanged_def prog_simps split: doc_file.splits)

lemma observer_local_keeps [pres_intros]: "keeps (beside I) (on_observer g)"
  by (auto simp: keeps_def on_observer_def updates_run)

lemma make_client_keeps [pres_intros]: "keeps (beside I) (make_client E S agent)"
  by (auto simp: keeps_def make_client_def bindp_run lift_result_run split: sum.split)

lemma accrue_keeps [pres_intros]: "keeps (beside I) (accrue E now d agent m)"
  by (auto simp: keeps_def accrue_def bindp_run lift_result_run Let_def split: sum.split)

lemma observer_tasks_keep:
  assumes "by_observer I E (su_network (du_surroundings U))" and "t \<in> set (observer_tasks E U config)"
  shows "keeps (beside I) (st_run t)"
proof -
  let ?S = "du_surroundings U"
  note [pres_intros] = assms(1) [unfolded by_observer_def, THEN conjunct1]
    assms(1) [unfolded by_observer_def, THEN conjunct2, THEN conjunct1, rule_format]
    assms(1) [unfolded by_observer_def, THEN conjunct2, THEN conjunct2, THEN conjunct1]
    assms(1) [unfolded by_observer_def, THEN conjunct2, THEN conjunct2, THEN conjunct2, THEN conjunct1]
    assms(1) [unfolded by_observer_def, THEN conjunct2, THEN conjunct2, THEN conjunct2, THEN conjunct2, rule_format]
  have [pres_intros]: "keeps (beside I) (asks f)" for f :: "observer \<times> world \<Rightarrow> 'b" by (simp add: keeps_def asks_run)
  have "keeps (beside I) (check_registry E ?S)" unfolding check_registry_def by (intro pres_intros)
  moreover have "keeps (beside I) (cleanup_agent E ?S m n a c)" for m n a c
    unfolding cleanup_agent_def by (intro pres_intros) (auto intro!: pres_intros split: prod.split sum.split)
  then have "keeps (beside I) (cleanup_stale_sessions E ?S)"
    unfolding cleanup_stale_sessions_def by (intro pres_intros)
  moreover have "keeps (beside I) (restart_agent E ?S a r)" for a r
    unfolding restart_agent_def Let_def by (intro pres_intros) (auto intro!: pres_intros split: prod.split)
  then have "keeps (beside I) (restart_unhealthy_agents E ?S)"
    unfolding restart_unhealthy_agents_def by (intro pres_intros)
  moreover have "keeps (beside I) (collect_metrics E ?S)"
    unfolding collect_metrics_def Let_def by (intro pres_intros)
  ultimately show ?thesis using assms(2) by (auto simp: observer_tasks_def split: if_splits)
qed

section \<open>A daemon over its cap\<close>

text \<open>The world but for the daemon's own files, the requests made to the registry, and the environment's counters.\<close>

definition project_of :: "world \<Rightarrow> world" where
  "project_of w = w\<lparr>w_daemon := Absent, w_metrics := Absent, w_requests := 0, w_uuids := 0, w_writes := 0, w_clock := 0\<rparr>"

lemma home_project: "unchanged beyond_daemon m \<Longrightarrow> unchanged project_of m"
proof (rule unchangedI)
  fix w assume m: "unchanged beyond_daemon m"
  have "project_of v = (beyond_daemon v)\<lparr>w_metrics := Absent, w_requests := 0\<rparr>" for v
    by (simp add: project_of_def beyond_daemon_def)
  with unchangedD [OF m] show "project_of (snd (m w)) = project_of w" by simp
qed

lemma heartbeat_stays_home: "unchanged beyond_daemon (heartbeat E)" "unchanged beyond_daemon (stamp_final_heartbeat E)"
  "unchanged beyond_daemon (record_task_run E n st err)" "unchanged beyond_daemon (initial_state E pid here)"
proof -
  have only: "unchanged f (only_daemon_errors e)" for f e
    by (cases e) (simp_all add: only_daemon_errors_def unchanged_basic)
  show "unchanged beyond_daemon (heartbeat E)" unfolding heartbeat_def by (intro frame_intros)
  show "unchanged beyond_daemon (stamp_final_heartbeat E)"
    unfolding stamp_final_heartbeat_def by (intro frame_intros only)
  show "unchanged beyond_daemon (record_task_run E n st err)"
    unfolding record_task_run_def Let_def by (intro frame_intros)
  have "unchanged beyond_daemon (uuid4_hex E)" by (simp add: unchanged_def env_reads beyond_daemon_def)
  then show "unchanged beyond_daemon (initial_state E pid here)"
    unfolding initial_state_def Let_def by (intro frame_intros) (simp_all add: beyond_daemon_def)
qed

lemma callbacks_stay_home: "unchanged beyond_daemon (on_result E n r)" "unchanged beyond_daemon (on_error E n e)"
proof -
  have only: "unchanged f (only_daemon_errors e)" for f e
    by (cases e) (simp_all add: only_daemon_errors_def unchanged_basic)
  show "unchanged beyond_daemon (on_result E n r)" "unchanged beyond_daemon (on_error E n e)"
    unfolding on_result_def on_error_def by (intro frame_intros only heartbeat_stays_home)+
qed

text \<open>The monitor's checkers only read; a sweep writes its alerts.\<close>

lemma checkers_read: "\<forall>(n, check)\<in>set (default_checkers E readdb). unchanged f check"
proof -
  have [frame_intros]: "unchanged f (health_warn_ratio E)"
    unfolding health_warn_ratio_def by (intro frame_intros) (auto intro: unchanged_basic split: exn.split)
  show ?thesis
    by (auto simp: default_checkers_def hook_latency_check_def token_budget_check_def cost_cap_check_def intro!: frame_intros split: option.split)
qed

lemma sweep_stays_home:
  assumes "\<forall>(n, check)\<in>set checkers. unchanged beyond_daemon check"
  shows "unchanged beyond_daemon (monitor_check E checkers)"
proof (rule unchangedI)
  fix w
  have "beyond_daemon (snd (foldp (sweep_one E) cs s v)) = beyond_daemon v" if "set cs \<subseteq> set checkers" for cs s v
    using that
  proof (induction cs arbitrary: s v)
    case (Cons c cs)
    obtain n check where c: "c = (n, check)" by (cases c)
    obtain r v1 where 1: "check v = (r, v1)" by (cases "check v")
    have "unchanged beyond_daemon check" using Cons.prems assms c by auto
    with 1 have v1: "beyond_daemon v1 = beyond_daemon v" by (metis unchanged_result)
    have "\<exists>s' v2. sweep_one E c s v = (Inr s', v2) \<and> beyond_daemon v2 = beyond_daemon v"
    proof (cases r)
      case (Inl e)
      with 1 c v1 show ?thesis by (simp add: sweep_one_def)
    next
      case (Inr h)
      obtain b v2 where 2: "health_alert E n h v1 = (b, v2)" by (cases "health_alert E n h v1")
      with 1 c v1 Inr health_alert_total [OF 2] show ?thesis
        by (auto simp: sweep_one_def Let_def bindp_run ret_run)
    qed
    then obtain s' v2 where "sweep_one E c s v = (Inr s', v2)" "beyond_daemon v2 = beyond_daemon v" by blast
    with Cons.IH [of s' v2] Cons.prems show ?case by (simp add: bindp_run)
  qed (simp add: ret_run)
  then show "beyond_daemon (snd (monitor_check E checkers w)) = beyond_daemon w" by (simp add: monitor_check_def)
qed

lemma by_observer_project: "by_observer (\<lambda>v. project_of v = p) E N"
proof -
  have "unchanged project_of (is_registry_accessible N)" "unchanged project_of (write_metrics E m)" for m
    by (auto simp: unchanged_def is_registry_accessible_def request_def write_metrics_def bindp_run env_reads write_file_run project_of_def)
  moreover have "unchanged project_of (observer_alert E a s m d)" for a s m d
    unfolding observer_alert_def by (intro home_project frame_intros)
  moreover have "unchanged project_of (utc_now E)" by (intro home_project frame_intros)
  ultimately show ?thesis
    unfolding by_observer_def by (auto intro!: unchanged_keeps [where P = "\<lambda>x. x = p"] get_installed_agents_reads)
qed

lemma resolved_cap_reads_config:
  assumes "w_config v = w_config w" and "fst (resolve_cost_cap_usd E w) = Inr cap"
  shows "resolve_cost_cap_usd E v = (Inr cap, v)"
proof -
  have eq: "fst (load_config E v) = fst (load_config E w)" using assms(1) by (simp add: load_config_def)
  have "fst (resolve_cost_cap_usd E v) = fst (resolve_cost_cap_usd E w)"
    by (rule load_config_cases [of E v]; rule load_config_cases [of E w]; use eq in
      \<open>auto simp: resolve_cost_cap_usd_def load_monitor_config_from_project_def prog_simps\<close>)
  moreover have "snd (resolve_cost_cap_usd E v) = v" using unchangedD [OF resolve_cost_cap_unchanged, of id] by simp
  ultimately show ?thesis using assms(2) by (metis prod.collapse)
qed

lemma project_config: "project_of v = project_of w \<Longrightarrow> w_config v = w_config w"
  by (auto simp: project_of_def dest: arg_cong [where f = w_config])

definition over_the_cap :: "env \<Rightarrow> 'c daemon_setup \<Rightarrow> world \<Rightarrow> bool" where
  "over_the_cap E U w \<longleftrightarrow> (case fst (resolve_cost_cap_usd E w) of
       Inr (Some c) \<Rightarrow> \<not> ct_readable (totals (du_readdb U w)) \<or> 8 / 10 * c \<le> spent (totals (du_readdb U w))
     | _ \<Rightarrow> False)"

lemma gated_tasks_keep:
  assumes over: "over_the_cap E U w" and db: "\<And>v. project_of v = project_of w \<Longrightarrow> du_readdb U v = du_readdb U w"
  shows "keeps (beside (\<lambda>v. project_of v = project_of w)) (st_run (gated_task E U name interval run))"
proof -
  from over obtain c where c: "fst (resolve_cost_cap_usd E w) = Inr (Some c)"
    and spent: "\<not> ct_readable (totals (du_readdb U w)) \<or> 8 / 10 * c \<le> spent (totals (du_readdb U w))"
    by (auto simp: over_the_cap_def split: sum.splits option.splits)
  from resolve_cost_cap_total [of E w] c have "0 < c" by auto
  have "keeps (\<lambda>v. project_of v = project_of w) (throttle_gate E (du_readdb U) None name run)"
  proof (rule keepsI)
    fix v assume v: "project_of v = project_of w"
    let ?d = "decide_throttle (Some c) (totals (du_readdb U v))"
    have "td_throttled ?d" using spent db [OF v] \<open>0 < c\<close> by (auto simp: decide_throttle_iff)
    moreover have "evaluate E (du_readdb U) None v = (Inr ?d, v)"
      using resolved_cap_reads_config [OF project_config [OF v] c] by (simp add: evaluate_def bindp_run asks_run ret_run)
    moreover obtain x v1 where a: "record_throttle_alert E name ?d v = (x, v1)" by (cases "record_throttle_alert E name ?d v")
    moreover have "unchanged project_of (record_throttle_alert E name ?d)"
      by (rule home_project, rule unchangedI) (metis record_throttle_alert_total surj_pair snd_conv)
    with a v have "project_of v1 = project_of w" by (metis unchanged_result)
    ultimately show "project_of (snd (throttle_gate E (du_readdb U) None name run v)) = project_of w"
      using record_throttle_alert_total [OF a] by (auto simp: throttle_gate_def bindp_run ret_run)
  qed
  then show ?thesis by (simp add: gated_task_def keeps_with_local)
qed

lemma build_reads: "snd (build_scheduled_tasks E U w) = w"
proof -
  have "unchanged id (load_observer_config E V)" "unchanged id (load_monitor_config_from_project E)" for V
    unfolding load_observer_config_def load_monitor_config_from_project_def
    by (intro frame_intros; auto intro: unchanged_basic split: exn.split)+
  then have "unchanged id (build_scheduled_tasks E U)" unfolding build_scheduled_tasks_def by (intro frame_intros)
  from unchangedD [OF this] show ?thesis by simp
qed

lemma built_tasks:
  assumes "build_scheduled_tasks E U w = (Inr (tasks, b), w')"
  shows "\<exists>oc hm. tasks = heartbeat_task E # dreamer_tasks E U @ observer_tasks E U oc @ health_monitor_tasks E U hm"
  using assms by (auto simp: build_scheduled_tasks_def bindp_run ret_run split: prod.splits sum.splits)

lemma daemon_loop_keeps:
  assumes "daemon_loop E tasks stop clock (b, w) = Some (due, b', w')" and "\<forall>t\<in>set tasks. keeps (beside I) (st_run t)"
    and "\<And>n r. keeps I (on_result E n r)" and "\<And>n e. keeps I (on_error E n e)" and "I w"
  shows "I w'"
proof -
  have "beside I (b', w')"
    using run_forever_keeps [where I = "beside I", OF assms(1) [unfolded daemon_loop_def] assms(2)] assms(3-5)
    by (simp add: keeps_with_local)
  then show ?thesis by simp
qed

lemma daemon_main_cases:
  assumes "daemon_main E U pid here stop clock w = Some (r, w')"
  obtains (refused) e where "initial_state E pid here w = (Inl e, w')" "r = Inl e"
  | (broken) s e where "initial_state E pid here w = (Inr s, w')" "build_scheduled_tasks E U w' = (Inl e, w')" "r = Inl e"
  | (stopped) s w1 tasks b due b' w3 where "initial_state E pid here w = (Inr s, w1)"
      "build_scheduled_tasks E U w1 = (Inr (tasks, b), w1)" "daemon_loop E tasks stop clock (b, w1) = Some (due, b', w3)"
      "bindp (stamp_final_heartbeat E) (\<lambda>_. ret 0) w3 = (r, w')"
proof -
  obtain x w1 where i: "initial_state E pid here w = (x, w1)" by (cases "initial_state E pid here w")
  show thesis
  proof (cases x)
    case (Inl e)
    with assms i show ?thesis by (intro refused [of e]) (simp_all add: daemon_main_def)
  next
    case (Inr s)
    have "snd (build_scheduled_tasks E U w1) = w1" by (rule build_reads)
    then obtain y where y: "build_scheduled_tasks E U w1 = (y, w1)" by (metis prod.collapse)
    show ?thesis
    proof (cases y)
      case (Inl e)
      with assms i \<open>x = Inr s\<close> y show ?thesis by (intro broken [of s e]) (simp_all add: daemon_main_def)
    next
      case z: (Inr tb)
      obtain tasks b where tb: "tb = (tasks, b)" by (cases tb)
      from assms i \<open>x = Inr s\<close> y z tb obtain due b' w3 where "daemon_loop E tasks stop clock (b, w1) = Some (due, b', w3)"
        "bindp (stamp_final_heartbeat E) (\<lambda>_. ret 0) w3 = (r, w')"
        by (auto simp: daemon_main_def split: option.splits)
      with i \<open>x = Inr s\<close> y z tb show ?thesis by (intro stopped) auto
    qed
  qed
qed

lemma home_keeps: "unchanged beyond_daemon m \<Longrightarrow> keeps (\<lambda>v. project_of v = p) m"
  by (rule unchanged_keeps [where P = "\<lambda>x. x = p"]) (rule home_project)

text \<open>C23: A daemon over its cap leaves the project alone. When a cost cap is configured and the recorded spend
  cannot be read or has reached 80 percent of the cap, then whatever the daemon does from its start to its
  stop, with the observer and the monitor on or off, however often its tasks come due and whatever the agents
  answer, the project is what it was: lessons, reflections, digests, logs, event store and pipeline.
  It assumes that what is read of the event store depends on the project's files alone.\<close>

theorem capped_daemon_leaves_the_project:
  assumes run: "daemon_main E U pid here stop clock w = Some (r, w')"
    and over: "over_the_cap E U w"
    and db: "\<And>v. project_of v = project_of w \<Longrightarrow> du_readdb U v = du_readdb U w"
  shows "project_of w' = project_of w"
  using run
proof (cases rule: daemon_main_cases)
  case (refused e)
  then show ?thesis using heartbeat_stays_home(4) by (metis home_project unchanged_result)
next
  case (broken s e)
  then show ?thesis using heartbeat_stays_home(4) by (metis home_project unchanged_result)
next
  case (stopped s w1 tasks b due b' w3)
  let ?I = "\<lambda>v. project_of v = project_of w"
  have 1: "?I w1" using stopped(1) heartbeat_stays_home(4) by (metis home_project unchanged_result)
  from built_tasks [OF stopped(2)] obtain oc hm where
    ts: "tasks = heartbeat_task E # dreamer_tasks E U @ observer_tasks E U oc @ health_monitor_tasks E U hm" by blast
  have "keeps (beside ?I) (st_run t)" if "t \<in> set tasks" for t
  proof -
    from that consider "t = heartbeat_task E" | "t \<in> set (dreamer_tasks E U)" | "t \<in> set (observer_tasks E U oc)"
      | "t \<in> set (health_monitor_tasks E U hm)" unfolding ts by auto
    then show ?thesis
    proof cases
      case 1
      then show ?thesis by (simp add: heartbeat_task_def keeps_with_local home_keeps heartbeat_stays_home)
    next
      case 2
      then show ?thesis using gated_tasks_keep [OF over db] by (auto simp: dreamer_tasks_def)
    next
      case 3
      then show ?thesis by (rule observer_tasks_keep [OF by_observer_project])
    next
      case 4
      have "keeps ?I (monitor_task E U)"
        unfolding monitor_task_def using checkers_read by (intro pres_intros home_keeps sweep_stays_home)
      with 4 show ?thesis by (auto simp: health_monitor_tasks_def keeps_with_local split: if_splits)
    qed
  qed
  then have "?I w3"
    using daemon_loop_keeps [where I = ?I, OF stopped(3) _ _ _ 1] home_keeps [OF callbacks_stay_home(1)] home_keeps [OF callbacks_stay_home(2)] by simp
  moreover have "keeps ?I (bindp (stamp_final_heartbeat E) (\<lambda>_. ret (0 :: int)))"
    by (intro pres_intros home_keeps heartbeat_stays_home)
  ultimately have "?I (snd (bindp (stamp_final_heartbeat E) (\<lambda>_. ret (0 :: int)) w3))" by (simp add: keeps_def)
  then show ?thesis by (simp only: stopped(4) snd_conv)
qed

section \<open>The daemon's record of itself\<close>

definition tallied :: "daemon_task_state \<Rightarrow> bool" where
  "tallied ts \<longleftrightarrow> 0 < dt_runs ts \<and> 0 \<le> dt_failures ts \<and> dt_failures ts \<le> dt_runs ts"

text \<open>\<open>serves did pid here ns w\<close>: the state file is that of this daemon, its alerts are in order, its
  tallies add up, and the tasks \<open>ns\<close> have been recorded.\<close>

definition own_state :: "string \<Rightarrow> int \<Rightarrow> string \<Rightarrow> string list \<Rightarrow> daemon_state \<Rightarrow> bool" where
  "own_state did pid here ns s \<longleftrightarrow> ds_daemon_id s = did \<and> ds_pid s = pid \<and> ds_project_root s = here \<and> alerts_ok (ds_alerts s) \<and>
     (\<forall>n\<in>set ns. dict_get (ds_tasks s) n \<noteq> None) \<and> (\<forall>n ts. dict_get (ds_tasks s) n = Some ts \<longrightarrow> tallied ts)"

definition serves :: "string \<Rightarrow> int \<Rightarrow> string \<Rightarrow> string list \<Rightarrow> world \<Rightarrow> bool" where
  "serves did pid here ns w \<longleftrightarrow> (\<exists>s. w_daemon w = Doc s \<and> own_state did pid here ns s)"

lemma serves_unchanged: "unchanged w_daemon m \<Longrightarrow> keeps (serves did pid here ns) m"
  by (simp add: keeps_def serves_def unchanged_def)

lemma save_serves: "own_state did pid here ns s \<Longrightarrow> serves did pid here ns w \<Longrightarrow> serves did pid here ns (snd (daemon_save E s w))"
  by (cases "daemon_save E s w") (auto simp: serves_def dest!: daemon_save_cases)

lemma heartbeat_serves: "keeps (serves did pid here ns) (heartbeat E)" "keeps (serves did pid here ns) (stamp_final_heartbeat E)"
proof -
  have beat: "own_state did pid here ns s \<Longrightarrow> own_state did pid here ns (s\<lparr>ds_last_heartbeat := h\<rparr>)" for s h
    by (simp add: own_state_def)
  have clock: "serves did pid here ns (w\<lparr>w_clock := n\<rparr>) = serves did pid here ns w" for w n by (simp add: serves_def)
  have only: "keeps I (only_daemon_errors e)" for I e
    by (cases e) (simp_all add: only_daemon_errors_def keeps_basic)
  show "keeps (serves did pid here ns) (heartbeat E)"
  proof (rule keepsI)
    fix w assume w: "serves did pid here ns w"
    then obtain s where s: "w_daemon w = Doc s" "own_state did pid here ns s" by (auto simp: serves_def)
    let ?s = "s\<lparr>ds_last_heartbeat := Some (now_at E (w_clock w))\<rparr>"
    have "serves did pid here ns (snd (daemon_save E ?s (w\<lparr>w_clock := Suc (w_clock w)\<rparr>)))"
      using clock w by (intro save_serves beat s(2)) simp
    moreover have "snd (heartbeat E w) = snd (daemon_save E ?s (w\<lparr>w_clock := Suc (w_clock w)\<rparr>))"
      by (simp add: heartbeat_def bindp_run daemon_load_def s(1) env_reads thenp_run ret_run split: prod.split sum.split)
    ultimately show "serves did pid here ns (snd (heartbeat E w))" by simp
  qed
  show "keeps (serves did pid here ns) (stamp_final_heartbeat E)"
    unfolding stamp_final_heartbeat_def
  proof (intro keeps_catchp only keepsI)
    fix w assume w: "serves did pid here ns w"
    then obtain s where s: "w_daemon w = Doc s" "own_state did pid here ns s" by (auto simp: serves_def)
    from save_serves [OF beat [OF s(2)], of "w\<lparr>w_clock := Suc (w_clock w)\<rparr>"] w clock
    show "serves did pid here ns (snd (bindp daemon_load (\<lambda>s. case s of None \<Rightarrow> ret ()
       | Some s \<Rightarrow> bindp (utc_now E) (\<lambda>t. daemon_save E (s\<lparr>ds_last_heartbeat := Some t\<rparr>))) w))"
      by (simp add: bindp_run daemon_load_def s env_reads)
  qed
qed

lemma add_alert_serves: "keeps (serves did pid here ns) (add_alert E a)"
proof (rule keepsI)
  fix w assume w: "serves did pid here ns w"
  then obtain s where s: "w_daemon w = Doc s" "own_state did pid here ns s" by (auto simp: serves_def)
  show "serves did pid here ns (snd (add_alert E a w))"
  proof (cases "ds_alerts s \<noteq> [] \<and> same_alert (last (ds_alerts s)) a")
    case True
    with s w show ?thesis by (simp add: add_alert_def bindp_run load_required_run daemon_load_def ret_run)
  next
    case False
    let ?s = "s\<lparr>ds_alerts := push_alert a (ds_alerts s)\<rparr>"
    have "own_state did pid here ns ?s"
      using s(2) False push_alert_ok [of "ds_alerts s" a] by (auto simp: own_state_def alerts_ok_def)
    from save_serves [OF this w] have "serves did pid here ns (snd (daemon_save E ?s w))" .
    moreover have "snd (add_alert E a w) = snd (daemon_save E ?s w)"
      using False by (auto simp: add_alert_def bindp_run load_required_run daemon_load_def s(1) thenp_run ret_run Let_def split: prod.split sum.split)
    ultimately show ?thesis by simp
  qed
qed

lemma record_serves:
  assumes "serves did pid here ns w"
  shows "serves did pid here ns (snd (record_task_run E n st err w)) \<and>
    (writes_succeed E \<longrightarrow> serves did pid here (n # ns) (snd (record_task_run E n st err w)))"
proof -
  from assms obtain s where s: "w_daemon w = Doc s" "own_state did pid here ns s" by (auto simp: serves_def)
  let ?old = "case dict_get (ds_tasks s) n of None \<Rightarrow> fresh_task_state | Some ts \<Rightarrow> ts"
  let ?ts = "count_run (now_at E (w_clock w)) st err ?old"
  let ?s = "s\<lparr>ds_tasks := dict_set n ?ts (ds_tasks s)\<rparr>" and ?w = "w\<lparr>w_clock := Suc (w_clock w)\<rparr>"
  have "tallied ?old \<or> ?old = fresh_task_state" using s(2) by (auto simp: own_state_def split: option.split)
  then have "tallied ?ts" by (auto simp: tallied_def count_run_def fresh_task_state_def Let_def)
  then have own: "own_state did pid here (n # ns) ?s" using s(2) by (auto simp: own_state_def)
  have run: "record_task_run E n st err w = daemon_save E ?s ?w"
    using s by (simp add: record_task_run_def bindp_run load_required_run daemon_load_def env_reads Let_def)
  have "own_state did pid here ns ?s" using own by (simp add: own_state_def)
  with save_serves [OF this, of ?w] assms have "serves did pid here ns (snd (daemon_save E ?s ?w))" by (simp add: serves_def)
  moreover have "serves did pid here (n # ns) (snd (daemon_save E ?s ?w))" if "writes_succeed E"
    using own that by (simp add: serves_def daemon_save_def bindp_run env_reads catchp_run write_file_ok)
  ultimately show ?thesis by (simp add: run)
qed

lemma callbacks_serve:
  assumes "serves did pid here ns w"
  shows "serves did pid here ns (snd (on_result E n r w))" "serves did pid here ns (snd (on_error E n e w))"
    "writes_succeed E \<Longrightarrow> serves did pid here (n # ns) (snd (on_result E n r w))"
    "writes_succeed E \<Longrightarrow> serves did pid here (n # ns) (snd (on_error E n e w))"
proof -
  have only: "snd (only_daemon_errors x v) = v" for x v
    by (cases x) (simp_all add: only_daemon_errors_def ret_run throw_run)
  have "snd (on_result E n r w) = snd (record_task_run E n TaskOk None w)"
    "snd (on_error E n e w) = snd (record_task_run E n TaskError (Some (exn_message e)) w)"
    by (simp_all add: on_result_def on_error_def catchp_run only split: prod.split sum.split)
  with record_serves [OF assms] show "serves did pid here ns (snd (on_result E n r w))" "serves did pid here ns (snd (on_error E n e w))"
    "writes_succeed E \<Longrightarrow> serves did pid here (n # ns) (snd (on_result E n r w))"
    "writes_succeed E \<Longrightarrow> serves did pid here (n # ns) (snd (on_error E n e w))"
    by simp_all
qed

text \<open>None of the tasks but the heartbeat and the alerts writes the state file.\<close>

lemma alerting_serves:
  "keeps (serves did pid here ns) (observer_alert E src sev msg meta)" "keeps (serves did pid here ns) (health_alert E n r)"
  "keeps (serves did pid here ns) (record_throttle_alert E task d)"
proof -
  have env: "unchanged w_daemon (utc_now E)" "unchanged w_daemon (uuid4 E)" by (simp_all add: unchanged_def env_reads)
  have dropped: "keeps I (drop_daemon_errors e)" for I e
    by (cases e) (simp_all add: drop_daemon_errors_def keeps_basic)
  note rules = pres_intros serves_unchanged [OF env(1)] serves_unchanged [OF env(2)] add_alert_serves dropped
  show "keeps (serves did pid here ns) (observer_alert E src sev msg meta)" unfolding observer_alert_def by (intro rules)
  show "keeps (serves did pid here ns) (health_alert E n r)" unfolding health_alert_def by (intro rules)
  show "keeps (serves did pid here ns) (record_throttle_alert E task d)"
    unfolding record_throttle_alert_def drop_daemon_errors_def [symmetric] by (intro rules)
qed

lemma dreamer_leaves_the_daemon: "unchanged w_daemon (digest_task E U)" "unchanged w_daemon (decay_task E)" "unchanged w_daemon (reingest_task E)"
proof -
  show "unchanged w_daemon (digest_task E U)"
    unfolding digest_task_def write_digest_def Let_def
    by (intro frame_intros) (auto simp: read_events_def intro!: frame_intros split: option.split list.split)
  show "unchanged w_daemon (decay_task E)"
    unfolding decay_task_def apply_decay_def by (intro frame_intros) (auto intro!: frame_intros split: prod.split list.split)
  have folds: "unchanged w_daemon (foldp f xs a)" if "\<And>x s. unchanged w_daemon (f x s)" for f :: "'b \<Rightarrow> 'd \<Rightarrow> (world, 'd) prog" and xs a
    using that by (induction xs arbitrary: a) (auto intro: frame_intros)
  have lists: "unchanged w_daemon (lesson_list E a b c)" "unchanged w_daemon (reflection_list E n)" for a b c n
    unfolding lesson_list_def reflection_list_def Let_def by (intro frame_intros; auto simp: unchanged_def prog_simps split: option.split)+
  have "unchanged w_daemon (propose_lesson E sh p st pr)" "unchanged w_daemon (record_tension E t su)" for sh p st pr t su
    unfolding propose_lesson_def record_tension_def Let_def by (intro frame_intros; simp)+
  then show "unchanged w_daemon (reingest_task E)"
    unfolding reingest_task_def reingest_reflections_def Let_def by (auto intro!: frame_intros folds lists)
qed

lemma gate_serves: "unchanged w_daemon run \<Longrightarrow> keeps (serves did pid here ns) (throttle_gate E readdb cap task run)"
  unfolding throttle_gate_def evaluate_def
  by (intro pres_intros alerting_serves serves_unchanged) (auto intro: frame_intros split: option.split)

lemma sweep_serves: "keeps (serves did pid here ns) (monitor_task E U)"
proof -
  have one: "keeps (serves did pid here ns) (sweep_one E c s)" if "c \<in> set (default_checkers E (du_readdb U))" for c s
  proof (rule keepsI)
    fix w assume w: "serves did pid here ns w"
    obtain n check where c: "c = (n, check)" by (cases c)
    obtain r v where 1: "check w = (r, v)" by (cases "check w")
    have "unchanged w_daemon check" using checkers_read that c by fast
    with 1 w have v: "serves did pid here ns v" by (metis keeps_result serves_unchanged)
    have "keeps (serves did pid here ns) (bindp (health_alert E n h) (\<lambda>b. ret (g b)))" for h and g :: "bool \<Rightarrow> sweep"
      by (intro pres_intros alerting_serves)
    with v 1 c show "serves did pid here ns (snd (sweep_one E c s w))"
      by (cases r) (auto simp: sweep_one_def Let_def keeps_def)
  qed
  have "set cs \<subseteq> set (default_checkers E (du_readdb U)) \<Longrightarrow> keeps (serves did pid here ns) (foldp (sweep_one E) cs s)" for cs s
    by (induction cs arbitrary: s) (auto intro: pres_intros one)
  then show ?thesis
    unfolding monitor_task_def monitor_check_def by (intro keeps_bindp keeps_basic) simp
qed

lemma by_observer_serves: "by_observer (serves did pid here ns) E N"
proof -
  have "unchanged w_daemon (is_registry_accessible N)" "unchanged w_daemon (write_metrics E m)" "unchanged w_daemon (utc_now E)" for m
    by (auto simp: unchanged_def is_registry_accessible_def request_def write_metrics_def bindp_run env_reads write_file_run)
  then show ?thesis
    unfolding by_observer_def by (auto intro!: serves_unchanged get_installed_agents_reads alerting_serves)
qed

lemma built_tasks_serve:
  assumes "build_scheduled_tasks E U w = (Inr (tasks, b), w')" and "t \<in> set tasks"
  shows "keeps (beside (serves did pid here ns)) (st_run t)"
proof -
  from built_tasks [OF assms(1)] assms(2) obtain oc hm where
    "t = heartbeat_task E \<or> t \<in> set (dreamer_tasks E U) \<or> t \<in> set (observer_tasks E U oc) \<or> t \<in> set (health_monitor_tasks E U hm)" by auto
  moreover have "keeps (beside (serves did pid here ns)) (st_run t)" if "t \<in> set (dreamer_tasks E U)"
    using that by (auto simp: dreamer_tasks_def gated_task_def intro!: keeps_with_local gate_serves dreamer_leaves_the_daemon)
  moreover have "keeps (beside (serves did pid here ns)) (st_run t)" if "t \<in> set (health_monitor_tasks E U hm)"
    using that by (auto simp: health_monitor_tasks_def intro!: keeps_with_local sweep_serves split: if_splits)
  ultimately show ?thesis
    using observer_tasks_keep [OF by_observer_serves] by (auto simp: heartbeat_task_def intro!: keeps_with_local heartbeat_serves)
qed

text \<open>A pass records what it runs; the first pass runs everything.\<close>

lemma serves_subset: "set ns \<subseteq> set ms \<Longrightarrow> serves did pid here ms w \<Longrightarrow> serves did pid here ns w"
  by (auto simp: serves_def own_state_def)

lemma task_run_records:
  assumes "\<And>ns. keeps (beside (serves did pid here ns)) (st_run t)" and "serves did pid here ns w" and "writes_succeed E"
    and "run_task (\<lambda>n r. with_local (on_result E n r)) (\<lambda>n e. with_local (on_error E n e)) t (b, w) = (x, (b', w'))"
  shows "serves did pid here (st_name t # ns) w'"
proof -
  obtain r b1 w1 where 1: "st_run t (b, w) = (r, (b1, w1))" by (metis surj_pair)
  from keeps_result [OF assms(1) 1] assms(2) have "serves did pid here ns w1" by simp
  note called = callbacks_serve(3,4) [OF this assms(3)]
  have iso: "isolated (with_local m) (b1, w1) = (Inr (), (b1, snd (m w1)))" for m
    by (simp add: isolated_def catchp_run with_local_run ret_run split: prod.split sum.split)
  have "w' = snd (on_error E (st_name t) e w1)" if "r = Inl e" for e using that assms(4) 1 by (simp add: run_task_def iso)
  moreover have "w' = snd (on_result E (st_name t) y w1)" if "r = Inr y" for y
    using that assms(4) 1 by (simp add: run_task_def iso)
  ultimately show ?thesis using called by (cases r) simp_all
qed

lemma pending_step_skip: "\<not> is_due due now (st_name t) \<Longrightarrow> pending_step res err now t names (due, w) = (Inr names, (due, w))"
  by (simp add: pending_step_def)

lemma pending_step_due: "is_due due now (st_name t) \<Longrightarrow> run_task res err t w = (Inr u, w') \<Longrightarrow>
    pending_step res err now t names (due, w) = (Inr (names @ [st_name t]), (due(st_name t \<mapsto> now + st_interval t), w'))"
  by (simp add: pending_step_def bindp_run with_local_run ret_run)

lemma first_pass_records:
  assumes tasks: "\<forall>t\<in>set tasks. \<forall>ns. keeps (beside (serves did pid here ns)) (st_run t)" and ok: "writes_succeed E"
    and w: "serves did pid here [] w"
    and run: "run_pending (\<lambda>n r. with_local (on_result E n r)) (\<lambda>n e. with_local (on_error E n e)) tasks now (Map.empty, (b, w)) =
      (x, (due', (b', w')))"
  shows "serves did pid here (map st_name tasks) w'"
proof -
  let ?step = "pending_step (\<lambda>n r. with_local (on_result E n r)) (\<lambda>n e. with_local (on_error E n e)) now"
  have "serves did pid here (map st_name ts @ ns) w'"
    if "foldp ?step ts names (due, (b, w)) = (x, (due', (b', w')))" "set ts \<subseteq> set tasks" "serves did pid here ns w"
      "\<forall>t\<in>set ts. due (st_name t) = None \<or> st_name t \<in> set ns" for ts names due b w ns
    using that
  proof (induction ts arbitrary: names due b w ns)
    case (Cons t ts)
    show ?case
    proof (cases "is_due due now (st_name t)")
      case False
      with Cons.prems have "st_name t \<in> set ns" by (auto simp: is_due_def)
      moreover have "foldp ?step ts names (due, (b, w)) = (x, (due', (b', w')))"
        using Cons.prems(1) False by (simp add: bindp_run pending_step_skip)
      then have "serves did pid here (map st_name ts @ ns) w'" using Cons.prems by (intro Cons.IH) auto
      ultimately show ?thesis using serves_subset [of "map st_name (t # ts) @ ns" "map st_name ts @ ns" did pid here w'] by auto
    next
      case True
      obtain y b1 w1 where 1: "run_task (\<lambda>n r. with_local (on_result E n r)) (\<lambda>n e. with_local (on_error E n e)) t (b, w) = (y, (b1, w1))"
        by (metis surj_pair)
      have 2: "serves did pid here (st_name t # ns) w1"
        using task_run_records [OF _ Cons.prems(3) ok 1] tasks Cons.prems(2) by auto
      have "\<exists>u. y = Inr u"
        using 1 by (auto simp: run_task_def isolated_def catchp_run ret_run split: prod.splits sum.splits)
      then have 3: "foldp ?step ts (names @ [st_name t]) (due(st_name t \<mapsto> now + st_interval t), (b1, w1)) = (x, (due', (b', w')))"
        using Cons.prems(1) True 1 by (auto simp: bindp_run pending_step_due)
      have 4: "\<forall>u\<in>set ts. (due(st_name t \<mapsto> now + st_interval t)) (st_name u) = None \<or> st_name u \<in> set (st_name t # ns)"
        using Cons.prems(4) by simp
      from Cons.IH [OF 3 _ 2 4] Cons.prems(2) have "serves did pid here (map st_name ts @ st_name t # ns) w'" by simp
      then show ?thesis by (rule serves_subset [rotated]) auto
    qed
  qed (simp add: ret_run)
  from this [OF run [unfolded run_pending_def], of "[]"] w show ?thesis by simp
qed

lemma daemon_loop_records:
  assumes tasks: "\<forall>t\<in>set tasks. \<forall>ns. keeps (beside (serves did pid here ns)) (st_run t)" and ok: "writes_succeed E"
    and w: "serves did pid here [] w" and run: "daemon_loop E tasks stop clock (b, w) = Some (due, b', w')"
  shows "serves did pid here (if stop 0 then [] else map st_name tasks) w'"
proof (cases "stop 0")
  case True
  with run w show ?thesis by (simp add: daemon_loop_def run_forever.simps)
next
  case False
  let ?res = "\<lambda>n r. with_local (on_result E n r)" and ?err = "\<lambda>n e. with_local (on_error E n e)"
  obtain x due1 b1 w1 where p: "run_pending ?res ?err tasks (clock 0) (Map.empty, (b, w)) = (x, (due1, (b1, w1)))"
    by (metis surj_pair)
  have 1: "serves did pid here (map st_name tasks) w1" by (rule first_pass_records [OF tasks ok w p])
  from run False p have "(if stop (Suc 0) then Some (due1, b1, w1) else run_forever ?res ?err tasks stop clock 2 (due1, b1, w1)) = Some (due, b', w')"
    by (simp add: daemon_loop_def run_forever.simps [of _ _ _ _ _ 0] numeral_2_eq_2 Let_def split: if_splits)
  moreover have "serves did pid here (map st_name tasks) w'"
    if "run_forever ?res ?err tasks stop clock 2 (due1, b1, w1) = Some (due, b', w')"
    using run_forever_keeps [OF that, where I = "beside (serves did pid here (map st_name tasks))"] tasks 1 callbacks_serve(1,2)
    by (simp add: keeps_with_local keepsI)
  ultimately show ?thesis using 1 False by (auto split: if_splits)
qed

lemma start_records:
  assumes "writes_succeed E"
  shows "\<exists>s w1. initial_state E pid here w = (Inr s, w1) \<and>
    serves (''daemon-'' @ uuid_hex_at E (w_uuids w)) pid here [] w1 \<and> w_config w1 = w_config w"
  using assms by (simp add: initial_state_def bindp_run env_reads Let_def thenp_run daemon_save_def catchp_run write_file_ok ret_run
      serves_def own_state_def alerts_ok_def dict_get_def)

lemma final_stamp:
  assumes "writes_succeed E" and "w_daemon w = Doc s"
  shows "\<exists>w'. stamp_final_heartbeat E w = (Inr (), w') \<and> w_daemon w' = Doc (s\<lparr>ds_last_heartbeat := Some (now_at E (w_clock w))\<rparr>)"
  using assms by (simp add: stamp_final_heartbeat_def catchp_run bindp_run daemon_load_def env_reads daemon_save_def write_file_ok)

lemma loop_ends: "stop n \<Longrightarrow> \<exists>due b' w'. daemon_loop E tasks stop clock (b, w) = Some (due, b', w')"
  using daemon_loop_stops [of stop "LEAST n. stop n" 0 _ _ tasks clock] LeastI [of stop n] not_less_Least [of _ stop]
  unfolding daemon_loop_def by (metis (no_types, lifting) prod_cases3 zero_le)

lemma builds_with_a_valid_config:
  assumes "\<And>c. w_config w = Doc c \<Longrightarrow> valid_config c"
  shows "\<exists>tb. build_scheduled_tasks E U w = (Inr tb, w)"
proof -
  have "\<exists>m. load_config E w = (Inl (ConfigError m), w) \<or> (\<exists>c. load_config E w = (Inr c, w))"
    using assms by (cases "w_config w") (auto simp: load_config_def valid_config_def)
  then show ?thesis
    by (auto simp: build_scheduled_tasks_def load_observer_config_def load_monitor_config_from_project_def prog_simps)
qed

text \<open>C24: A daemon told to stop stops, and leaves its record behind. When its first or any later look at the stop event
  sees it set, the configuration passes its validators or is missing, and writes are taken, then whatever the
  tasks meet (agents that fail, logs that cannot be read, lessons that do not load), the process ends
  with status 0; the state file is that of this daemon, with its identifier, its process and its project, and has
  a heartbeat; its alerts are at most 100 with no two alike in a row; every task's failures are among its runs;
  and unless it was told to stop before the first pass, the heartbeat and the three tasks of the Dreamer have run.\<close>

theorem daemons_stop_with_their_record:
  assumes stop: "stop n" and ok: "writes_succeed E" and config: "\<And>c. w_config w = Doc c \<Longrightarrow> valid_config c"
  shows "\<exists>s w'. daemon_main E U pid here stop clock w = Some (Inr 0, w') \<and> w_daemon w' = Doc s \<and>
    ds_daemon_id s = ''daemon-'' @ uuid_hex_at E (w_uuids w) \<and> ds_pid s = pid \<and> ds_project_root s = here \<and>
    ds_last_heartbeat s \<noteq> None \<and> alerts_ok (ds_alerts s) \<and>
    (\<forall>name ts. dict_get (ds_tasks s) name = Some ts \<longrightarrow> 0 < dt_runs ts \<and> 0 \<le> dt_failures ts \<and> dt_failures ts \<le> dt_runs ts) \<and>
    (stop 0 \<or> (\<forall>name\<in>{''heartbeat'', ''dreamer-digest'', ''dreamer-decay'', ''dreamer-reingest''}. dict_get (ds_tasks s) name \<noteq> None))"
proof -
  let ?did = "''daemon-'' @ uuid_hex_at E (w_uuids w)"
  obtain s0 w1 where 1: "initial_state E pid here w = (Inr s0, w1)" "serves ?did pid here [] w1" "w_config w1 = w_config w"
    using start_records [OF ok] by blast
  from builds_with_a_valid_config [of w1 E U] config 1(3) obtain tasks b where
    2: "build_scheduled_tasks E U w1 = (Inr (tasks, b), w1)" by auto
  obtain due b' w3 where 3: "daemon_loop E tasks stop clock (b, w1) = Some (due, b', w3)" using loop_ends [of stop n, OF stop] by metis
  from daemon_loop_records [OF _ ok 1(2) 3] built_tasks_serve [OF 2]
  have "serves ?did pid here (if stop 0 then [] else map st_name tasks) w3" by blast
  then obtain s where s: "w_daemon w3 = Doc s" "own_state ?did pid here (if stop 0 then [] else map st_name tasks) s"
    by (auto simp: serves_def)
  from final_stamp [OF ok s(1)] obtain w' where 4: "stamp_final_heartbeat E w3 = (Inr (), w')"
    "w_daemon w' = Doc (s\<lparr>ds_last_heartbeat := Some (now_at E (w_clock w3))\<rparr>)" by blast
  have "daemon_main E U pid here stop clock w = Some (Inr 0, w')"
    using 1(1) 2 3 4(1) by (simp add: daemon_main_def bindp_run ret_run)
  moreover have "{''heartbeat'', ''dreamer-digest'', ''dreamer-decay'', ''dreamer-reingest''} \<subseteq> set (map st_name tasks)"
    using built_tasks [OF 2] by (auto simp: heartbeat_task_def dreamer_tasks_def gated_task_def)
  ultimately show ?thesis
    using 4(2) s(2) by (intro exI conjI) (auto simp: own_state_def tallied_def)
qed

text \<open>A configuration that the schema's own validators refuse ends the daemon, after it has recorded its start.\<close>

lemma schema_errors_end_the_daemon:
  assumes "w_config w = Doc c" and "\<not> valid_config c" and "writes_succeed E"
  shows "\<exists>m s w'. daemon_main E U pid here stop clock w = Some (Inl (SchemaConfigError m), w') \<and> w_daemon w' = Doc s \<and> ds_pid s = pid"
proof -
  obtain s0 w1 where 1: "initial_state E pid here w = (Inr s0, w1)"
    "serves (''daemon-'' @ uuid_hex_at E (w_uuids w)) pid here [] w1" "w_config w1 = w_config w"
    using start_records [OF assms(3)] by blast
  obtain m where m: "check_config_fields c = Inl (SchemaConfigError m)"
    using assms(2) by (auto simp: valid_config_def check_config_fields_def split: if_splits)
  have "build_scheduled_tasks E U w1 = (Inl (SchemaConfigError m), w1)"
    using 1(3) assms(1) m by (simp add: build_scheduled_tasks_def load_observer_config_def load_config_def prog_simps file_exists_def)
  with 1(1,2) show ?thesis by (auto simp: daemon_main_def serves_def own_state_def)
qed

section \<open>Concrete daemons\<close>

text \<open>A project with a cap of ten dollars whose event store cannot be read, with the observer and the monitor on.\<close>

definition capped_config :: forge_config where
  "capped_config = \<lparr>cf_schema_version = ''0.1'', cf_project = \<lparr>pc_name = ''Demo'', pc_root_policy = ''project_only''\<rparr>,
     cf_profile = ''minimal'', cf_default_adapter = ''dummy'', cf_adapters = [],
     cf_security = \<lparr>sc_profile = ''baseline''\<rparr>, cf_hooks = \<lparr>hc_enabled = False\<rparr>,
     cf_features = [(''observer'', JBool True), (''health_monitor'', JObj [(''enabled'', JBool True), (''cost_cap_usd'', JInt 10)])]\<rparr>"

definition demo_setup :: "db_reading \<Rightarrow> unit daemon_setup" where
  "demo_setup rd = \<lparr>du_readdb = (\<lambda>_. rd), du_surroundings = demo_surroundings False [], du_validate = (\<lambda>_. None), du_mtime = (\<lambda>_. 0)\<rparr>"

lemma main_returns:
  assumes "stop n"
  shows "\<exists>r w'. daemon_main E U pid here stop clock w = Some (r, w')"
proof -
  have ends: "daemon_loop E tasks stop clock (b, v) \<noteq> None" for tasks b v
    using loop_ends [of stop n E tasks clock b v, OF assms] by auto
  have "daemon_main E U pid here stop clock w \<noteq> None"
    using ends by (simp add: daemon_main_def del: not_None_eq split: prod.split sum.split option.split)
  then show ?thesis by auto
qed

lemma capped_daemon_leaves_the_project_witness:
  "\<exists>r w'. daemon_main demo_env (demo_setup UnreadableDb) 7 ''/p'' (\<lambda>k. 5 \<le> k) real (demo_decay_world\<lparr>w_config := Doc capped_config\<rparr>) = Some (r, w') \<and>
     w_lessons w' = w_lessons demo_decay_world"
proof -
  let ?w = "demo_decay_world\<lparr>w_config := Doc capped_config\<rparr>" and ?U = "demo_setup UnreadableDb"
  obtain r w' where run: "daemon_main demo_env ?U 7 ''/p'' (\<lambda>k. 5 \<le> k) real ?w = Some (r, w')"
    using main_returns [of "\<lambda>k. 5 \<le> k" 5] by blast
  have "check_config_fields capped_config = Inr capped_config" by code_simp
  then have "over_the_cap demo_env ?U ?w"
    by (simp add: over_the_cap_def resolve_cost_cap_usd_def load_monitor_config_from_project_def load_config_def prog_simps
        load_health_monitor_config_def capped_config_def dict_get_def positive_float_def demo_setup_def totals_def unreadable_totals_def)
  from capped_daemon_leaves_the_project [OF run this] have "project_of w' = project_of ?w" by (simp add: demo_setup_def)
  then have "w_lessons (project_of w') = w_lessons (project_of ?w)" by simp
  with run show ?thesis by (auto simp: project_of_def)
qed

lemma daemons_stop_with_their_record_witness:
  "\<exists>s w'. daemon_main demo_env (demo_setup NoDb) 7 ''/p'' (\<lambda>k. 5 \<le> k) real empty_world = Some (Inr 0, w') \<and> w_daemon w' = Doc s \<and>
     ds_pid s = 7 \<and> dict_get (ds_tasks s) ''dreamer-decay'' \<noteq> None"
  using daemons_stop_with_their_record [of "\<lambda>k. 5 \<le> k" 5 demo_env empty_world "demo_setup NoDb" 7 "''/p''" real]
  by (auto simp: empty_world_def)

end
