(* ===== verification/CostReport.thy ===== *)
theory CostReport imports Cost begin

text \<open>
  The cost report, \<open>use_cases/cost.py\<close> with \<open>schemas/cost.py\<close>: what the spawns recorded in the event store used and cost,
  by stage. A completed spawn is joined by its run to the start that names the stage. What SQLite and the
  parsing of payloads give is a parameter, \<open>spawn_log\<close>: a payload is \<open>None\<close> when it is no text or no JSON
  (\<open>decode\<close> of \<open>Cost\<close> is the same function in both modules). The two constant notes of the report are left out.
\<close>

section \<open>The report\<close>

datatype spawn_log = NoStore | BrokenStore exn | SpawnLog "(string \<times> json option) list" "(string \<times> json option) list"

definition unattributed :: string where
  "unattributed = ''(unattributed)''"

definition as_int :: "json option \<Rightarrow> int" where
  "as_int v = (case v of Some (JInt i) \<Rightarrow> i | Some (JFloat r) \<Rightarrow> trunc r | _ \<Rightarrow> 0)"

definition as_price :: "json option \<Rightarrow> real option" where
  "as_price v = (case v of Some (JInt i) \<Rightarrow> Some (of_int i) | Some (JFloat r) \<Rightarrow> Some r | _ \<Rightarrow> None)"

definition round_cost :: "real option \<Rightarrow> real option" where
  "round_cost v = map_option (round_digits 6) v"

definition as_stage :: "json option \<Rightarrow> string option" where
  "as_stage v = (case v of Some (JStr s) \<Rightarrow> Some s | _ \<Rightarrow> None)"

record spend_bucket =
  sb_spawns :: nat
  sb_input :: int
  sb_output :: int
  sb_cost :: "real option"

definition empty_bucket :: spend_bucket where
  "empty_bucket = \<lparr>sb_spawns = 0, sb_input = 0, sb_output = 0, sb_cost = None\<rparr>"

definition add_spend :: "int \<Rightarrow> int \<Rightarrow> real option \<Rightarrow> spend_bucket \<Rightarrow> spend_bucket" where
  "add_spend i out c b = \<lparr>sb_spawns = Suc (sb_spawns b), sb_input = sb_input b + i, sb_output = sb_output b + out,
     sb_cost = (case c of None \<Rightarrow> sb_cost b | Some c \<Rightarrow> Some ((case sb_cost b of None \<Rightarrow> 0 | Some t \<Rightarrow> t) + c))\<rparr>"

record stage_cost =
  sc_stage_id :: string
  sc_spawns :: nat
  sc_input_tokens :: int
  sc_output_tokens :: int
  sc_total_tokens :: int
  sc_cost_usd :: "real option"

record cost_report =
  cr_stages :: "stage_cost list"
  cr_adapters :: "string list"
  cr_production_spawns :: nat
  cr_total_input_tokens :: int
  cr_total_output_tokens :: int
  cr_total_tokens :: int
  cr_total_cost_usd :: "real option"

definition empty_report :: cost_report where
  "empty_report = \<lparr>cr_stages = [], cr_adapters = [], cr_production_spawns = 0, cr_total_input_tokens = 0,
     cr_total_output_tokens = 0, cr_total_tokens = 0, cr_total_cost_usd = None\<rparr>"

definition stage_by_run :: "(string \<times> json option) list \<Rightarrow> (string, string option) dict" where
  "stage_by_run started = foldl (\<lambda>d (run, raw). case decode raw of None \<Rightarrow> d
     | Some p \<Rightarrow> dict_set run (as_stage (dict_get p ''stage_id'')) d) [] started"

definition stage_of_run :: "(string, string option) dict \<Rightarrow> string \<Rightarrow> string" where
  "stage_of_run d run = (case dict_get d run of Some (Some (c # cs)) \<Rightarrow> c # cs | _ \<Rightarrow> unattributed)"

definition spend_of :: "json_obj \<Rightarrow> spend_bucket \<Rightarrow> spend_bucket" where
  "spend_of p = (let metadata = dict_field ''metadata'' p; usage = dict_field ''usage'' metadata in
     add_spend (as_int (dict_get usage ''input_tokens'')) (as_int (dict_get usage ''output_tokens''))
       (as_price (dict_get metadata ''total_cost_usd'')))"

definition adapter_of :: "json_obj \<Rightarrow> string option" where
  "adapter_of p = (case dict_get p ''adapter'' of Some (JStr (c # cs)) \<Rightarrow> Some (c # cs) | _ \<Rightarrow> None)"

definition tally_spawn :: "(string, string option) dict \<Rightarrow> string option \<Rightarrow> (string, spend_bucket) dict \<times> string list
    \<Rightarrow> string \<times> json option \<Rightarrow> (string, spend_bucket) dict \<times> string list" where
  "tally_spawn stages wanted = (\<lambda>(buckets, adapters) (run, raw). case decode raw of
       None \<Rightarrow> (buckets, adapters)
     | Some p \<Rightarrow> (let stage = stage_of_run stages run in
         if wanted \<noteq> None \<and> wanted \<noteq> Some stage then (buckets, adapters)
         else (dict_set stage (spend_of p (case dict_get buckets stage of Some b \<Rightarrow> b | None \<Rightarrow> empty_bucket)) buckets,
           (case adapter_of p of Some a \<Rightarrow> List.insert a adapters | None \<Rightarrow> adapters))))"

definition stage_row :: "string \<times> spend_bucket \<Rightarrow> stage_cost" where
  "stage_row = (\<lambda>(stage, b). \<lparr>sc_stage_id = stage, sc_spawns = sb_spawns b, sc_input_tokens = sb_input b,
     sc_output_tokens = sb_output b, sc_total_tokens = sb_input b + sb_output b, sc_cost_usd = round_cost (sb_cost b)\<rparr>)"

definition cost_report_of :: "string option \<Rightarrow> (string \<times> json option) list \<Rightarrow> (string \<times> json option) list \<Rightarrow> cost_report" where
  "cost_report_of wanted started completed =
     (case foldl (tally_spawn (stage_by_run started) wanted) ([], []) completed of (buckets, adapters) \<Rightarrow>
      let stages = map stage_row (sort_key fst buckets);
          priced = List.map_filter sc_cost_usd stages;
          total_input = sum_list (map sc_input_tokens stages);
          total_output = sum_list (map sc_output_tokens stages)
      in \<lparr>cr_stages = stages, cr_adapters = sort adapters, cr_production_spawns = sum_list (map sc_spawns stages),
        cr_total_input_tokens = total_input, cr_total_output_tokens = total_output, cr_total_tokens = total_input + total_output,
        cr_total_cost_usd = (if priced = [] then None else Some (round_digits 6 (sum_list priced)))\<rparr>)"

definition report_costs :: "spawn_log \<Rightarrow> string option \<Rightarrow> exn + cost_report" where
  "report_costs recorded wanted = (case recorded of NoStore \<Rightarrow> Inr empty_report | BrokenStore e \<Rightarrow> Inl e
     | SpawnLog started completed \<Rightarrow> Inr (cost_report_of wanted started completed))"

section \<open>The spawns it accounts for\<close>

text \<open>The reference: every readable completed spawn, with its stage; what they used and cost, added up.\<close>

definition attributed :: "(string \<times> json option) list \<Rightarrow> (string \<times> json option) list \<Rightarrow> (string \<times> json_obj) list" where
  "attributed started completed = List.map_filter (\<lambda>(run, raw). map_option (Pair (stage_of_run (stage_by_run started) run)) (decode raw)) completed"

definition wanted_spawns :: "string option \<Rightarrow> (string \<times> json_obj) list \<Rightarrow> (string \<times> json_obj) list" where
  "wanted_spawns wanted xs = filter (\<lambda>(stage, p). wanted = None \<or> wanted = Some stage) xs"

definition usage_of :: "string \<Rightarrow> json_obj \<Rightarrow> int" where
  "usage_of k p = as_int (dict_get (dict_field ''usage'' (dict_field ''metadata'' p)) k)"

definition price_of :: "json_obj \<Rightarrow> real option" where
  "price_of p = as_price (dict_get (dict_field ''metadata'' p) ''total_cost_usd'')"

definition total_price :: "json_obj list \<Rightarrow> real option" where
  "total_price ps = (let prices = List.map_filter price_of ps in if prices = [] then None else Some (sum_list prices))"

definition spend :: "json_obj list \<Rightarrow> spend_bucket" where
  "spend ps = \<lparr>sb_spawns = length ps, sb_input = sum_list (map (usage_of ''input_tokens'') ps),
     sb_output = sum_list (map (usage_of ''output_tokens'') ps), sb_cost = total_price ps\<rparr>"

definition of_stage :: "string \<Rightarrow> (string \<times> json_obj) list \<Rightarrow> json_obj list" where
  "of_stage stage xs = map snd (filter (\<lambda>x. fst x = stage) xs)"

lemma spend_snoc: "spend_of p (spend ps) = spend (ps @ [p])"
  by (auto simp: spend_of_def add_spend_def spend_def usage_of_def price_of_def total_price_def Let_def List.map_filter_def split: option.splits)

lemma spend_Nil: "spend [] = empty_bucket"
  by (simp add: spend_def empty_bucket_def total_price_def List.map_filter_def)

lemma of_stage_simps [simp]: "of_stage s [] = []" "of_stage s (xs @ ys) = of_stage s xs @ of_stage s ys"
  "of_stage s [(t, p)] = (if t = s then [p] else [])"
  by (simp_all add: of_stage_def)

text \<open>The fold over the spawns of interest.\<close>

fun tally :: "(string, spend_bucket) dict \<Rightarrow> (string \<times> json_obj) list \<Rightarrow> (string, spend_bucket) dict" where
  "tally d [] = d"
| "tally d ((stage, p) # xs) = tally (dict_set stage (spend_of p (case dict_get d stage of Some b \<Rightarrow> b | None \<Rightarrow> empty_bucket)) d) xs"

fun adapters_in :: "string list \<Rightarrow> (string \<times> json_obj) list \<Rightarrow> string list" where
  "adapters_in as [] = as"
| "adapters_in as ((stage, p) # xs) = adapters_in (case adapter_of p of Some a \<Rightarrow> List.insert a as | None \<Rightarrow> as) xs"

lemma tally_spawns:
  "foldl (tally_spawn (stage_by_run started) wanted) (d, as) completed =
     (tally d (wanted_spawns wanted (attributed started completed)), adapters_in as (wanted_spawns wanted (attributed started completed)))"
proof (induction completed arbitrary: d as)
  case (Cons x xs)
  obtain run raw where x: "x = (run, raw)" by (cases x)
  show ?case
    using Cons by (cases "decode raw") (auto simp: x tally_spawn_def attributed_def wanted_spawns_def List.map_filter_simps Let_def)
qed (simp add: attributed_def wanted_spawns_def List.map_filter_def)

lemma tally_gives_spend:
  assumes "\<forall>stage. dict_get d stage = (let ps = of_stage stage ys in if ps = [] then None else Some (spend ps))"
  shows "dict_get (tally d xs) stage = (let ps = of_stage stage (ys @ xs) in if ps = [] then None else Some (spend ps))"
  using assms
proof (induction xs arbitrary: d ys)
  case (Cons x xs)
  obtain s p where x: "x = (s, p)" by (cases x)
  let ?b = "case dict_get d s of Some b \<Rightarrow> b | None \<Rightarrow> empty_bucket"
  have "?b = spend (of_stage s ys)" using Cons.prems by (simp add: Let_def spend_Nil)
  then have "\<forall>stage. dict_get (dict_set s (spend_of p ?b) d) stage =
      (let ps = of_stage stage (ys @ [(s, p)]) in if ps = [] then None else Some (spend ps))"
    using Cons.prems by (simp add: Let_def spend_snoc)
  from Cons.IH [OF this] show ?case by (simp add: x Let_def)
qed (simp add: Let_def)

lemma tally_distinct: "distinct (map fst d) \<Longrightarrow> distinct (map fst (tally d xs))"
  by (induction d xs rule: tally.induct) simp_all

lemma adapters_in_props: "set (adapters_in as xs) = set as \<union> {a. \<exists>(s, p)\<in>set xs. adapter_of p = Some a} \<and>
    (distinct as \<longrightarrow> distinct (adapters_in as xs))"
  by (induction as xs rule: adapters_in.induct) (auto split: option.splits)

lemma sorted_dict_items:
  fixes d :: "('k::linorder, 'v) dict"
  assumes "distinct (map fst d)"
  shows "map (\<lambda>k. (k, the (dict_get d k))) (sorted_set (map fst d)) = sort_key fst d"
proof -
  have "sorted (map fst (sort_key fst d))" by (rule sorted_sort_key)
  moreover have "distinct (map fst (sort_key fst d))"
    using assms by (metis distinct_map distinct_sort set_sort)
  ultimately have keys: "map fst (sort_key fst d) = sorted_set (map fst d)"
    by (intro sorted_distinct_set_unique) simp_all
  have "the (dict_get d k) = v" if "(k, v) \<in> set (sort_key fst d)" for k v
    using that assms by (simp add: dict_get_def)
  then have "map (\<lambda>k. (k, the (dict_get d k))) (map fst (sort_key fst d)) = sort_key fst d"
    unfolding map_map comp_def by (intro map_idI) auto
  with keys show ?thesis by simp
qed

text \<open>What is added up by stage is added up over all.\<close>

lemma sum_by_stage:
  fixes g :: "json_obj \<Rightarrow> 'a::comm_monoid_add"
  shows "sum_list (map (\<lambda>stage. sum_list (map g (of_stage stage xs))) (sorted_set (map fst xs))) = sum_list (map (g \<circ> snd) xs)"
proof -
  have "(\<Sum>stage\<in>S. sum_list (map g (of_stage stage ys))) = sum_list (map (g \<circ> snd) ys)"
    if "fst ` set ys \<subseteq> S" "finite S" for ys and S :: "string set"
    using that
  proof (induction ys)
    case (Cons y ys)
    have "sum_list (map g (of_stage stage (y # ys))) = (if stage = fst y then g (snd y) else 0) + sum_list (map g (of_stage stage ys))" for stage
      by (cases y) (simp add: of_stage_def)
    with Cons show ?case by (simp add: sum.distrib)
  qed (simp add: of_stage_def)
  from this [of xs "set (sorted_set (map fst xs))"] show ?thesis
    by (simp add: sum_list_distinct_conv_sum_set)
qed

lemma sum_ones: "sum_list (map (\<lambda>_. Suc 0) ps) = length ps"
  by (induction ps) simp_all

definition price_or_zero :: "json_obj \<Rightarrow> real" where
  "price_or_zero p = (case price_of p of None \<Rightarrow> 0 | Some c \<Rightarrow> c)"

definition cost_or_zero :: "real option \<Rightarrow> real" where
  "cost_or_zero c = (case c of None \<Rightarrow> 0 | Some c \<Rightarrow> c)"

lemma total_price_sum: "cost_or_zero (total_price ps) = sum_list (map price_or_zero ps)"
  by (induction ps) (auto simp: cost_or_zero_def total_price_def price_or_zero_def Let_def List.map_filter_def split: option.splits if_splits)

lemma total_price_None: "total_price ps = None \<longleftrightarrow> (\<forall>p\<in>set ps. price_of p = None)"
  by (auto simp: total_price_def Let_def List.map_filter_def filter_empty_conv)

lemma round_digits_error: "\<bar>round_digits 6 r - r\<bar> \<le> 1 / 2000000"
proof -
  have "\<bar>of_int (round_half_even (r * 10 ^ 6)) - r * 10 ^ 6\<bar> \<le> 1 / 2" by (rule round_half_even_bounds)
  then show ?thesis by (simp add: round_digits_def abs_le_iff field_simps)
qed

lemma round_cost_error: "\<bar>cost_or_zero (round_cost c) - cost_or_zero c\<bar> \<le> 1 / 2000000"
  using round_digits_error by (cases c) (simp_all add: cost_or_zero_def round_cost_def)

lemma sum_error:
  fixes f g :: "'a \<Rightarrow> real" and e :: real
  assumes "\<And>x. \<bar>f x - g x\<bar> \<le> e"
  shows "\<bar>sum_list (map f xs) - sum_list (map g xs)\<bar> \<le> length xs * e"
proof (induction xs)
  case (Cons x xs)
  with assms [of x] show ?case by (simp add: algebra_simps abs_le_iff)
qed simp

lemma sum_priced: "sum_list (List.map_filter f xs) = sum_list (map (\<lambda>x. cost_or_zero (f x)) xs)"
  by (induction xs) (auto simp: List.map_filter_simps cost_or_zero_def split: option.split)

lemma report_rows:
  "map stage_row (sort_key fst (tally [] xs)) = map (\<lambda>stage. stage_row (stage, spend (of_stage stage xs))) (sorted_set (map fst xs))"
proof -
  have get: "dict_get (tally [] xs) stage = (let ps = of_stage stage xs in if ps = [] then None else Some (spend ps))" for stage
    using tally_gives_spend [of "[]" "[]" xs stage] by simp
  have empty: "of_stage stage xs = [] \<longleftrightarrow> stage \<notin> fst ` set xs" for stage
    by (auto simp: of_stage_def filter_empty_conv)
  have dist: "distinct (map fst (tally [] xs))" by (rule tally_distinct) simp
  have "fst ` set (tally [] xs) = fst ` set xs"
  proof (rule set_eqI)
    fix k
    have "k \<in> fst ` set (tally [] xs) \<longleftrightarrow> dict_get (tally [] xs) k \<noteq> None"
      by (force simp: dict_get_def map_of_eq_None_iff)
    then show "k \<in> fst ` set (tally [] xs) \<longleftrightarrow> k \<in> fst ` set xs" by (simp add: get Let_def empty)
  qed
  then have keys: "sorted_set (map fst (tally [] xs)) = sorted_set (map fst xs)"
    by (intro sorted_distinct_set_unique) simp_all
  have "sort_key fst (tally [] xs) = map (\<lambda>k. (k, spend (of_stage k xs))) (sorted_set (map fst xs))"
    unfolding sorted_dict_items [OF dist, symmetric] keys by (auto simp: get Let_def empty)
  then show ?thesis by simp
qed

section \<open>Property\<close>

text \<open>C25: The report is the sum of the recorded spawns. Its rows are the stages with readable completed spawns, each once
  and in order, with the number, the tokens and the cost of exactly the spawns attributed to it; its totals are the
  sums over all of them, or over those of the stage asked for; it names exactly the adapters they name. No cost is
  reported just when no spawn carries one, and what is reported is within half a millionth of a dollar, for each
  row and once more, of the sum of the recorded costs.\<close>

theorem cost_report_accounts_for_every_spawn:
  fixes wanted started completed
  defines "xs \<equiv> wanted_spawns wanted (attributed started completed)" and "rp \<equiv> cost_report_of wanted started completed"
  shows "cr_stages rp = map (\<lambda>stage. stage_row (stage, spend (of_stage stage xs))) (sorted_set (map fst xs)) \<and>
    set (cr_adapters rp) = {a. \<exists>(stage, p)\<in>set xs. adapter_of p = Some a} \<and> sorted (cr_adapters rp) \<and> distinct (cr_adapters rp) \<and>
    cr_production_spawns rp = length xs \<and>
    cr_total_input_tokens rp = sum_list (map (usage_of ''input_tokens'' \<circ> snd) xs) \<and>
    cr_total_output_tokens rp = sum_list (map (usage_of ''output_tokens'' \<circ> snd) xs) \<and>
    cr_total_tokens rp = cr_total_input_tokens rp + cr_total_output_tokens rp \<and>
    (case cr_total_cost_usd rp of
       None \<Rightarrow> \<forall>(stage, p)\<in>set xs. price_of p = None
     | Some c \<Rightarrow> (\<exists>(stage, p)\<in>set xs. price_of p \<noteq> None) \<and>
         \<bar>c - sum_list (map (price_or_zero \<circ> snd) xs)\<bar> \<le> (length (cr_stages rp) + 1) / 2000000)"
proof -
  let ?stages = "sorted_set (map fst xs)"
  let ?rows = "map (\<lambda>stage. stage_row (stage, spend (of_stage stage xs))) ?stages"
  let ?priced = "List.map_filter sc_cost_usd ?rows"
  have rp: "rp = (let total_input = sum_list (map sc_input_tokens ?rows); total_output = sum_list (map sc_output_tokens ?rows)
      in \<lparr>cr_stages = ?rows, cr_adapters = sort (adapters_in [] xs), cr_production_spawns = sum_list (map sc_spawns ?rows),
        cr_total_input_tokens = total_input, cr_total_output_tokens = total_output, cr_total_tokens = total_input + total_output,
        cr_total_cost_usd = (if ?priced = [] then None else Some (round_digits 6 (sum_list ?priced)))\<rparr>)"
    by (simp add: rp_def cost_report_of_def tally_spawns report_rows Let_def del: map_map flip: xs_def)
  have spawns: "sum_list (map sc_spawns ?rows) = length xs"
    using sum_by_stage [of "\<lambda>_. Suc 0" xs] by (simp add: stage_row_def spend_def comp_def sum_ones)
  have tokens: "sum_list (map sc_input_tokens ?rows) = sum_list (map (usage_of ''input_tokens'' \<circ> snd) xs)"
    "sum_list (map sc_output_tokens ?rows) = sum_list (map (usage_of ''output_tokens'' \<circ> snd) xs)"
    using sum_by_stage [of "usage_of ''input_tokens''" xs] sum_by_stage [of "usage_of ''output_tokens''" xs]
    by (simp_all add: stage_row_def spend_def comp_def)
  have none: "?priced = [] \<longleftrightarrow> (\<forall>(stage, p)\<in>set xs. price_of p = None)"
    by (force simp: List.map_filter_def filter_empty_conv stage_row_def spend_def round_cost_def total_price_None of_stage_def)
  have "sum_list ?priced = sum_list (map (\<lambda>stage. cost_or_zero (round_cost (total_price (of_stage stage xs)))) ?stages)"
    by (simp add: sum_priced stage_row_def spend_def comp_def)
  moreover have "\<bar>\<dots> - sum_list (map (\<lambda>stage. cost_or_zero (total_price (of_stage stage xs))) ?stages)\<bar> \<le> length ?stages * (1 / 2000000)"
    using sum_error [of "\<lambda>stage. cost_or_zero (round_cost (total_price (of_stage stage xs)))" "\<lambda>stage. cost_or_zero (total_price (of_stage stage xs))"
      "1 / 2000000" ?stages] round_cost_error by blast
  moreover have "sum_list (map (\<lambda>stage. cost_or_zero (total_price (of_stage stage xs))) ?stages) = sum_list (map (price_or_zero \<circ> snd) xs)"
    by (simp add: total_price_sum sum_by_stage)
  ultimately have near: "\<bar>sum_list ?priced - sum_list (map (price_or_zero \<circ> snd) xs)\<bar> \<le> length ?stages * (1 / 2000000)" by simp
  have add_errors: "\<bar>a - b\<bar> \<le> 1 / 2000000 \<Longrightarrow> \<bar>b - c\<bar> \<le> n * (1 / 2000000) \<Longrightarrow> \<bar>a - c\<bar> \<le> (n + 1) / 2000000" for a b c n :: real
    using abs_triangle_ineq [of "a - b" "b - c"] by (simp add: add_divide_distrib)
  have "\<bar>round_digits 6 (sum_list ?priced) - sum_list (map (price_or_zero \<circ> snd) xs)\<bar> \<le> (length ?rows + 1) / 2000000"
    using add_errors [OF round_digits_error near] by simp
  moreover have "cr_stages rp = ?rows" "cr_total_cost_usd rp = (if ?priced = [] then None else Some (round_digits 6 (sum_list ?priced)))"
    by (simp_all add: rp Let_def)
  moreover have "(\<exists>(stage, p)\<in>set xs. price_of p \<noteq> None) \<longleftrightarrow> ?priced \<noteq> []"
    unfolding none by (simp add: split_beta)
  ultimately have cost: "case cr_total_cost_usd rp of
       None \<Rightarrow> \<forall>(stage, p)\<in>set xs. price_of p = None
     | Some c \<Rightarrow> (\<exists>(stage, p)\<in>set xs. price_of p \<noteq> None) \<and>
         \<bar>c - sum_list (map (price_or_zero \<circ> snd) xs)\<bar> \<le> (length (cr_stages rp) + 1) / 2000000"
    using none by (cases "?priced = []") (simp_all del: not_None_eq)
  have "cr_stages rp = ?rows" "cr_adapters rp = sort (adapters_in [] xs)" "cr_production_spawns rp = length xs"
    "cr_total_input_tokens rp = sum_list (map (usage_of ''input_tokens'' \<circ> snd) xs)"
    "cr_total_output_tokens rp = sum_list (map (usage_of ''output_tokens'' \<circ> snd) xs)"
    "cr_total_tokens rp = cr_total_input_tokens rp + cr_total_output_tokens rp"
    using spawns tokens by (simp_all add: rp Let_def del: map_map)
  then show ?thesis using cost adapters_in_props [of "[]" xs] by simp
qed

text \<open>A spawn of stage \<open>qa\<close> with a price, one of a run that never started, and a row that is no JSON.\<close>

definition demo_started :: "(string \<times> json option) list" where
  "demo_started = [(''r1'', Some (JObj [(''stage_id'', JStr ''qa'')]))]"

definition demo_spawn :: "int \<Rightarrow> json_obj \<Rightarrow> json option" where
  "demo_spawn n price = Some (JObj [(''adapter'', JStr ''claude_code''), (''metadata'', JObj (price @
     [(''usage'', JObj [(''input_tokens'', JInt n), (''output_tokens'', JBool True)])]))])"

definition demo_completed :: "(string \<times> json option) list" where
  "demo_completed = [(''r1'', demo_spawn 5 [(''total_cost_usd'', JInt 2)]), (''r2'', demo_spawn 7 []), (''r1'', None)]"

lemma cost_report_accounts_for_every_spawn_witness:
  "let rp = cost_report_of None demo_started demo_completed in
     map sc_stage_id (cr_stages rp) = [unattributed, ''qa''] \<and> cr_production_spawns rp = 2 \<and> cr_total_tokens rp = 12 \<and> cr_total_cost_usd rp \<noteq> None"
proof -
  let ?xs = "wanted_spawns None (attributed demo_started demo_completed)"
  have xs: "?xs = [(''qa'', the (decode (demo_spawn 5 [(''total_cost_usd'', JInt 2)]))), (unattributed, the (decode (demo_spawn 7 [])))]"
    by code_simp
  show ?thesis
    using cost_report_accounts_for_every_spawn [of None demo_started demo_completed]
    by (simp add: xs Let_def sorted_set_def stage_row_def unattributed_def demo_spawn_def decode_def usage_of_def dict_field_def dict_get_def
        as_int_def price_of_def as_price_def split: option.splits)
qed

text \<open>A negative price: the meter behind the throttle leaves it out, the report adds it.\<close>

lemma negative_prices_split_the_meters:
  defines "p \<equiv> [(''metadata'', JObj [(''total_cost_usd'', JInt (- 3))])]"
  shows "cr_total_cost_usd (cost_report_of None [] [(''r'', Some (JObj p))]) = Some (- 3)"
    and "ct_total_cost_usd (totals (Payloads [Some (JObj p)])) = None"
  unfolding p_def by code_simp+

end
