(* ===== verification/Skills.thy ===== *)
theory Skills imports Lazy GlobalMemory begin

text \<open>
  The skills' way from proposal to installation, \<open>use_cases/skills.py\<close>, and the scans of the knowledge base,
  \<open>use_cases/knowledge.py\<close>: references of lessons to artifacts that are not there, repeated lessons, and the token
  budget. A skill's file is what it parses to; a document that is no mapping, whatever it is, is one case.
  The constant field \<open>issue\<close> of a scan's
  entries is left out. A skill's name is the key of its file: a name with a slash, which leads elsewhere, is outside the model.
\<close>

section \<open>Skills\<close>

definition skills_dir :: string where
  "skills_dir = ''~/.forge/skills''"

definition skill_key :: "string \<Rightarrow> string" where
  "skill_key name = name @ ''.yaml''"

definition skill_path :: "string \<Rightarrow> string" where
  "skill_path name = skills_dir @ ''/'' @ skill_key name"

definition skill_files :: "world \<Rightarrow> (string \<times> json_obj doc_file) list" where
  "skill_files w = (case w_skills w of None \<Rightarrow> [] | Some fs \<Rightarrow> fs)"

definition skill_file :: "string \<Rightarrow> world \<Rightarrow> json_obj doc_file" where
  "skill_file name w = (case dict_get (skill_files w) (skill_key name) of None \<Rightarrow> Absent | Some f \<Rightarrow> f)"

text \<open>\<open>yaml.safe_load\<close> of the file, and \<open>isinstance(data, dict)\<close>.\<close>

definition load_skill :: "string \<Rightarrow> (world, json_obj option) prog" where
  "load_skill name = (\<lambda>w. (case skill_file name w of
       Doc d \<Rightarrow> Inr (Some d)
     | Unreadable \<Rightarrow> Inl (OSError (skill_path name))
     | Absent \<Rightarrow> Inl (OSError (skill_path name))
     | BadSyntax \<Rightarrow> Inl (OtherException (skill_path name))
     | _ \<Rightarrow> Inr None, w))"

definition write_skill :: "env \<Rightarrow> string \<Rightarrow> json_obj \<Rightarrow> (world, unit) prog" where
  "write_skill E name d = write_file E (skill_path name)
     (\<lambda>w. w\<lparr>w_skills := Some (dict_set (skill_key name) (Doc d) (skill_files w))\<rparr>)"

definition skill_answer :: "string \<Rightarrow> string \<Rightarrow> json_obj" where
  "skill_answer status name = [(''status'', JStr status), (''name'', JStr name)]"

definition propose_skill :: "env \<Rightarrow> string \<Rightarrow> string \<Rightarrow> (world, json_obj) prog" where
  "propose_skill E name description = bindp (get_profile (root_path E)) (\<lambda>profile.
     thenp (updates (\<lambda>w. w\<lparr>w_skills := Some (skill_files w)\<rparr>)) (bindp (asks (skill_file name)) (\<lambda>f.
     if file_exists f then ret (skill_answer ''exists'' name @ [(''path'', JStr (skill_path name))])
     else thenp (write_skill E name [(''name'', JStr name), (''description'', JStr description), (''status'', JStr ''proposed''),
         (''project_path'', JStr (root_path E)),
         (''patterns'', JArr (case profile of None \<Rightarrow> [] | Some p \<Rightarrow> map JStr (pp_patterns p)))])
       (ret (skill_answer ''proposed'' name @ [(''path'', JStr (skill_path name))])))))"

definition approve_skill :: "env \<Rightarrow> string \<Rightarrow> (world, json_obj) prog" where
  "approve_skill E name = bindp (asks (skill_file name)) (\<lambda>f.
     if \<not> file_exists f then ret (skill_answer ''not_found'' name)
     else bindp (load_skill name) (\<lambda>d. case d of
         None \<Rightarrow> ret (skill_answer ''error'' name)
       | Some d \<Rightarrow> thenp (write_skill E name (dict_set ''status'' (JStr ''approved'') d)) (ret (skill_answer ''approved'' name))))"

definition install_skill :: "env \<Rightarrow> string \<Rightarrow> (world, json_obj) prog" where
  "install_skill E name = bindp (asks (skill_file name)) (\<lambda>f.
     if \<not> file_exists f then ret (skill_answer ''not_found'' name)
     else bindp (load_skill name) (\<lambda>d. case d of
         None \<Rightarrow> ret (skill_answer ''error'' name)
       | Some d \<Rightarrow> if dict_get d ''status'' \<noteq> Some (JStr ''approved'') then ret (skill_answer ''not_approved'' name)
         else thenp (write_skill E name (dict_set ''status'' (JStr ''installed'') d)) (ret (skill_answer ''installed'' name))))"

definition skill_listing :: "string \<times> json_obj doc_file \<Rightarrow> json_obj option" where
  "skill_listing = (\<lambda>(n, f). if \<not> is_yaml_name n then None else (case f of
       Doc d \<Rightarrow> Some [(''name'', field d ''name'' (JStr (file_stem n))), (''description'', field d ''description'' (JStr [])),
         (''status'', field d ''status'' (JStr ''unknown''))]
     | _ \<Rightarrow> None))"

definition list_skills :: "(world, json_obj list) prog" where
  "list_skills = asks (\<lambda>w. List.map_filter skill_listing (sort_key fst (skill_files w)))"

section \<open>Sessions of skill commands\<close>

datatype skill_call = ProposeSkill string string | ApproveSkill string | InstallSkill string

primrec skill_prog :: "env \<Rightarrow> skill_call \<Rightarrow> (world, json_obj) prog" where
  "skill_prog E (ProposeSkill name description) = propose_skill E name description"
| "skill_prog E (ApproveSkill name) = approve_skill E name"
| "skill_prog E (InstallSkill name) = install_skill E name"

definition skill_session :: "env \<Rightarrow> skill_call list \<Rightarrow> world \<Rightarrow> world" where
  "skill_session E calls w = foldl (\<lambda>w call. snd (skill_prog E call w)) w calls"

definition skill_status :: "string \<Rightarrow> world \<Rightarrow> json option" where
  "skill_status name w = (case skill_file name w of Doc d \<Rightarrow> dict_get d ''status'' | _ \<Rightarrow> None)"

lemma skill_file_unchanged [simp]:
  "skill_file n (w\<lparr>w_writes := k\<rparr>) = skill_file n w" "skill_file n (w\<lparr>w_skills := Some (skill_files w)\<rparr>) = skill_file n w"
  by (simp_all add: skill_file_def skill_files_def)

lemma write_skill_status:
  assumes "write_skill E m d w = (r, w')"
  shows "skill_status n w' = skill_status n w \<or> (n = m \<and> skill_status n w' = dict_get d ''status'')"
  using assms by (auto simp: write_skill_def write_file_run skill_status_def skill_file_def skill_files_def skill_key_def split: if_splits)

lemma load_skill_cases:
  obtains e where "load_skill n w = (Inl e, w)" | "load_skill n w = (Inr None, w)"
    | d where "load_skill n w = (Inr (Some d), w)" "skill_status n w = dict_get d ''status''"
  by (cases "skill_file n w") (auto simp: load_skill_def skill_status_def)

text \<open>One command: a skill becomes approved or installed only by the command of that name, and installed
  only from approved.\<close>

lemma skill_step:
  assumes "snd (skill_prog E call w) = w'" and "skill_status n w' \<noteq> skill_status n w"
  shows "(\<exists>d. call = ProposeSkill n d \<and> skill_status n w' = Some (JStr ''proposed'')) \<or>
    (call = ApproveSkill n \<and> skill_status n w' = Some (JStr ''approved'')) \<or>
    (call = InstallSkill n \<and> skill_status n w = Some (JStr ''approved'') \<and> skill_status n w' = Some (JStr ''installed''))"
proof (cases call)
  case (ProposeSkill m d)
  let ?v = "w\<lparr>w_skills := Some (skill_files w)\<rparr>"
  have v: "skill_status n ?v = skill_status n w" by (simp add: skill_status_def)
  have "w' = ?v \<or> (\<exists>d r. write_skill E m d ?v = (r, w') \<and> dict_get d ''status'' = Some (JStr ''proposed''))"
  proof (cases "file_exists (skill_file m w)")
    case True
    with assms(1) ProposeSkill show ?thesis by (auto simp: propose_skill_def get_profile_def profiles_load_def prog_simps)
  next
    case False
    with assms(1) ProposeSkill show ?thesis
      by (auto simp: propose_skill_def get_profile_def profiles_load_def prog_simps dict_get_def split: prod.splits sum.splits)
  qed
  with assms(2) v obtain d' r where w: "write_skill E m d' ?v = (r, w')" "dict_get d' ''status'' = Some (JStr ''proposed'')" by metis
  from write_skill_status [OF w(1), of n] w(2) v assms(2) ProposeSkill show ?thesis by auto
next
  case (ApproveSkill m)
  have "w' = w \<or> (\<exists>d r. write_skill E m (dict_set ''status'' (JStr ''approved'') d) w = (r, w'))"
    using assms(1) ApproveSkill by (cases rule: load_skill_cases [of m w])
      (auto simp: approve_skill_def prog_simps split: prod.splits sum.splits)
  with assms(2) obtain d r where "write_skill E m (dict_set ''status'' (JStr ''approved'') d) w = (r, w')" by auto
  from write_skill_status [OF this, of n] assms(2) ApproveSkill show ?thesis by auto
next
  case (InstallSkill m)
  have "w' = w \<or> (skill_status m w = Some (JStr ''approved'') \<and> (\<exists>d r. write_skill E m (dict_set ''status'' (JStr ''installed'') d) w = (r, w')))"
    using assms(1) InstallSkill by (cases rule: load_skill_cases [of m w])
      (auto simp: install_skill_def prog_simps split: prod.splits sum.splits if_splits)
  with assms(2) obtain d r where "write_skill E m (dict_set ''status'' (JStr ''installed'') d) w = (r, w')"
    "skill_status m w = Some (JStr ''approved'')" by auto
  with write_skill_status [OF this(1), of n] assms(2) InstallSkill show ?thesis by auto
qed

text \<open>The commands a skill has passed through.\<close>

definition was_approved :: "string \<Rightarrow> skill_call list \<Rightarrow> bool" where
  "was_approved n calls \<longleftrightarrow> ApproveSkill n \<in> set calls"

definition was_approved_then_installed :: "string \<Rightarrow> skill_call list \<Rightarrow> bool" where
  "was_approved_then_installed n calls \<longleftrightarrow> (\<exists>pre mid post. calls = pre @ ApproveSkill n # mid @ InstallSkill n # post)"

lemma session_snoc: "skill_session E (calls @ [c]) w = snd (skill_prog E c (skill_session E calls w))"
  by (simp add: skill_session_def)

lemma passed_snoc: "was_approved_then_installed n calls \<Longrightarrow> was_approved_then_installed n (calls @ [c])"
  unfolding was_approved_then_installed_def by (metis append.assoc append_Cons)

lemma installed_now: "was_approved n calls \<Longrightarrow> was_approved_then_installed n (calls @ [InstallSkill n])"
  unfolding was_approved_def was_approved_then_installed_def by (metis append.assoc append_Cons split_list)

text \<open>C19: No skill is installed without approval. Whatever sequence of proposals, approvals and installations is made,
  whichever of them fail, a skill that is approved or installed at the end and was neither at the start has been
  approved on the way, and one that is installed has been approved and installed after that.\<close>

theorem skills_pass_through_approval:
  assumes "skill_status n w \<noteq> Some (JStr ''approved'')" and "skill_status n w \<noteq> Some (JStr ''installed'')"
  shows "(skill_status n (skill_session E calls w) = Some (JStr ''approved'') \<longrightarrow> was_approved n calls) \<and>
    (skill_status n (skill_session E calls w) = Some (JStr ''installed'') \<longrightarrow> was_approved_then_installed n calls)"
proof (induction calls rule: rev_induct)
  case Nil
  then show ?case using assms by (simp add: skill_session_def)
next
  case (snoc c calls)
  let ?v = "skill_session E calls w" and ?v' = "skill_session E (calls @ [c]) w"
  show ?case
  proof (cases "skill_status n ?v' = skill_status n ?v")
    case True
    with snoc passed_snoc show ?thesis by (auto simp: was_approved_def)
  next
    case False
    with skill_step [of E c ?v ?v' n] snoc installed_now show ?thesis by (auto simp: session_snoc was_approved_def)
  qed
qed

lemma skills_pass_through_approval_witness:
  "\<exists>calls. skill_status ''qa'' (skill_session demo_env calls empty_world) = Some (JStr ''installed'') \<and> was_approved_then_installed ''qa'' calls"
proof -
  let ?calls = "[InstallSkill ''qa'', ProposeSkill ''qa'' ''tests'', InstallSkill ''qa'', ApproveSkill ''qa'', InstallSkill ''qa'']"
  have start: "skill_status ''qa'' empty_world = None" by (simp add: skill_status_def skill_file_def skill_files_def empty_world_def)
  have "skill_status ''qa'' (skill_session demo_env ?calls empty_world) = Some (JStr ''installed'')"
    by code_simp
  with skills_pass_through_approval [of "''qa''" empty_world demo_env ?calls] start show ?thesis by auto
qed

section \<open>References of lessons\<close>

definition reference_suffixes :: "string list" where
  "reference_suffixes = [''md'', ''py'', ''yaml'', ''json'', ''txt'', ''toml'']"

text \<open>\<open>[\w/.-]\<close> over code points below 256.\<close>

definition is_ref_char :: "char \<Rightarrow> bool" where
  "is_ref_char c = (let n = ord c in (48 \<le> n \<and> n \<le> 57) \<or> (65 \<le> n \<and> n \<le> 90) \<or> (97 \<le> n \<and> n \<le> 122) \<or>
     c \<in> {CHR ''_'', CHR ''/'', CHR ''.'', CHR ''-''} \<or> n \<in> {170, 178, 179, 181, 185, 186, 188, 189, 190} \<or>
     (192 \<le> n \<and> n \<noteq> 215 \<and> n \<noteq> 247))"

definition suffix_length :: "string \<Rightarrow> nat option" where
  "suffix_length s = map_option (\<lambda>e. Suc (length e)) (List.find (\<lambda>e. take (Suc (length e)) s = CHR ''.'' # e) reference_suffixes)"

text \<open>\<open>[\w/.-]+\.(?:md|...)\<close> at the front of a text: the longest run that a suffix follows, by backtracking.\<close>

definition reference_length :: "string \<Rightarrow> nat option" where
  "reference_length s = (case filter (\<lambda>k. suffix_length (drop k s) \<noteq> None) (rev [1..<Suc (length (takeWhile is_ref_char s))]) of
       [] \<Rightarrow> None | k # _ \<Rightarrow> map_option ((+) k) (suffix_length (drop k s)))"

text \<open>\<open>re.findall\<close>.\<close>

function extract_references :: "string \<Rightarrow> string list" where
  "extract_references [] = []"
| "extract_references (c # cs) = (case reference_length (c # cs) of
     None \<Rightarrow> extract_references cs
   | Some n \<Rightarrow> take n (c # cs) # extract_references (drop (n - 1) cs))"
  by pat_completeness auto
termination by (relation "measure length") auto

record reference_issue =
  ri_lesson_id :: string
  ri_reference :: string
  ri_lesson_text :: string

definition reference_issues :: "string list \<Rightarrow> lesson list \<Rightarrow> reference_issue list" where
  "reference_issues paths lessons = concat (map (\<lambda>l. map (\<lambda>ref. \<lparr>ri_lesson_id = ls_id l, ri_reference = ref, ri_lesson_text = take 80 (ls_text l)\<rparr>)
     (filter (\<lambda>ref. ref \<notin> set paths) (extract_references (ls_text l)))) lessons)"

definition scan_lesson_references :: "env \<Rightarrow> (world, reference_issue list) prog" where
  "scan_lesson_references E = bindp (lesson_list E None None None) (\<lambda>lessons. bindp (load_artifacts E) (\<lambda>artifacts.
     ret (reference_issues (map art_path artifacts) lessons)))"

section \<open>Repeated lessons\<close>

record lesson_conflict =
  lc_existing_id :: string
  lc_duplicate_id :: string
  lc_text :: string

definition lesson_key :: "lesson \<Rightarrow> string" where
  "lesson_key l = lower (strip (ls_text l))"

definition conflict_step :: "lesson_conflict list \<times> (string, string list) dict \<Rightarrow> lesson \<Rightarrow> lesson_conflict list \<times> (string, string list) dict" where
  "conflict_step = (\<lambda>(conflicts, seen) l. let key = lesson_key l in
     ((case dict_get seen key of None \<Rightarrow> conflicts
       | Some ids \<Rightarrow> conflicts @ [\<lparr>lc_existing_id = hd ids, lc_duplicate_id = ls_id l, lc_text = take 80 (ls_text l)\<rparr>]),
      dict_set key ((case dict_get seen key of None \<Rightarrow> [] | Some ids \<Rightarrow> ids) @ [ls_id l]) seen))"

definition scan_lesson_conflicts :: "env \<Rightarrow> (world, lesson_conflict list) prog" where
  "scan_lesson_conflicts E = bindp (lesson_list E None None None) (\<lambda>lessons. ret (fst (foldl conflict_step ([], []) lessons)))"

section \<open>The token budget\<close>

record budget_report =
  br_total_artifacts :: nat
  br_fresh_count :: nat
  br_stale_count :: nat
  br_total_tokens :: nat
  br_avg_tokens :: nat
  br_fresh_tokens :: nat
  br_stale_tokens :: nat

definition report_token_budget :: "env \<Rightarrow> (world, budget_report) prog" where
  "report_token_budget E = bindp (load_artifacts E) (\<lambda>artifacts.
     let total = sum_list (map art_token_estimate artifacts);
         fresh = filter (\<lambda>a. art_status a = Fresh) artifacts; stale = filter (\<lambda>a. art_status a = Stale) artifacts in
     ret \<lparr>br_total_artifacts = length artifacts, br_fresh_count = length fresh, br_stale_count = length stale, br_total_tokens = total,
       br_avg_tokens = total div max (length artifacts) 1, br_fresh_tokens = sum_list (map art_token_estimate fresh),
       br_stale_tokens = sum_list (map art_token_estimate stale)\<rparr>)"

section \<open>What the scans find\<close>

text \<open>A reference is a piece of the text, of path characters, with a stem and one of the suffixes.\<close>

lemma suffix_length_Some:
  assumes "suffix_length s = Some n"
  shows "\<exists>e\<in>set reference_suffixes. n = Suc (length e) \<and> take n s = CHR ''.'' # e"
proof -
  from assms obtain e where e: "List.find (\<lambda>e. take (Suc (length e)) s = CHR ''.'' # e) reference_suffixes = Some e" "n = Suc (length e)"
    by (auto simp: suffix_length_def)
  from e(1) have "e \<in> set reference_suffixes \<and> take (Suc (length e)) s = CHR ''.'' # e" by (auto simp: find_Some_iff)
  with e(2) show ?thesis by blast
qed

lemma suffix_chars: "e \<in> set reference_suffixes \<Longrightarrow> list_all is_ref_char (CHR ''.'' # e)"
  unfolding reference_suffixes_def is_ref_char_def ord_def by auto

lemma reference_length_Some:
  assumes "reference_length s = Some n"
  shows "\<exists>stem e. take n s = stem @ CHR ''.'' # e \<and> stem \<noteq> [] \<and> e \<in> set reference_suffixes \<and> list_all is_ref_char (take n s) \<and> 0 < n"
proof -
  let ?run = "takeWhile is_ref_char s"
  from assms obtain k ks where k: "filter (\<lambda>k. suffix_length (drop k s) \<noteq> None) (rev [1..<Suc (length ?run)]) = k # ks"
    and n: "map_option ((+) k) (suffix_length (drop k s)) = Some n"
    by (auto simp: reference_length_def split: list.splits)
  have "k \<in> set (rev [1..<Suc (length ?run)])" using k by (metis filter_is_subset in_mono list.set_intros(1))
  then have le: "0 < k" "k \<le> length ?run" by auto
  from n obtain m where m: "suffix_length (drop k s) = Some m" "n = k + m" by auto
  from suffix_length_Some [OF m(1)] obtain e where e: "e \<in> set reference_suffixes" "take m (drop k s) = CHR ''.'' # e" by blast
  have split: "take n s = take k s @ CHR ''.'' # e" using e(2) m(2) by (simp add: take_add)
  have "take k s = take k ?run" using le(2) by (metis append_take_drop_id takeWhile_eq_take take_take min.absorb1)
  then have "list_all is_ref_char (take k s)" by (auto simp: list_all_iff dest: in_set_takeD set_takeWhileD)
  moreover have "take k s \<noteq> []" using le by (cases s) auto
  ultimately show ?thesis using split e(1) suffix_chars [OF e(1)] m(2) le by (intro exI [of _ "take k s"] exI [of _ e]) auto
qed

lemma references_are_paths:
  assumes "r \<in> set (extract_references s)"
  shows "(\<exists>pre post. s = pre @ r @ post) \<and> list_all is_ref_char r \<and>
    (\<exists>stem e. r = stem @ CHR ''.'' # e \<and> stem \<noteq> [] \<and> e \<in> set reference_suffixes)"
  using assms
proof (induction s rule: extract_references.induct)
  case (2 c cs)
  show ?case
  proof (cases "reference_length (c # cs)")
    case None
    with 2 have "(\<exists>pre post. cs = pre @ r @ post) \<and> list_all is_ref_char r \<and>
      (\<exists>stem e. r = stem @ CHR ''.'' # e \<and> stem \<noteq> [] \<and> e \<in> set reference_suffixes)" by simp
    then show ?thesis by (metis append_Cons)
  next
    case (Some n)
    from reference_length_Some [OF Some] have r: "list_all is_ref_char (take n (c # cs))" "0 < n"
      "\<exists>stem e. take n (c # cs) = stem @ CHR ''.'' # e \<and> stem \<noteq> [] \<and> e \<in> set reference_suffixes" by blast+
    from 2(3) Some consider "r = take n (c # cs)" | "r \<in> set (extract_references (drop (n - 1) cs))" by auto
    then show ?thesis
    proof cases
      case 1
      then have "c # cs = [] @ r @ drop n (c # cs)" by (simp only: append_take_drop_id append_Nil)
      with 1 r show ?thesis by metis
    next
      case 2
      from "2.IH"(2) [OF Some this] obtain pre post where "drop (n - 1) cs = pre @ r @ post" by blast
      then have "c # cs = (c # take (n - 1) cs @ pre) @ r @ post" by (metis append.assoc append_Cons append_take_drop_id)
      with "2.IH"(2) [OF Some 2] show ?thesis by metis
    qed
  qed
qed simp

text \<open>The suffix is matched without looking further: a log of JSON lines is taken for a JSON file.\<close>

lemma longer_suffixes_are_cut: "extract_references ''see a/log.jsonl, b.py'' = [''a/log.json'', ''b.py'']"
  by code_simp

text \<open>A lesson is reported exactly when an earlier one says the same, with the first that does.\<close>

definition repeats :: "lesson list \<Rightarrow> nat \<Rightarrow> bool" where
  "repeats ls i \<longleftrightarrow> (\<exists>j<i. lesson_key (ls ! j) = lesson_key (ls ! i))"

lemma repeats_append: "i < length ls \<Longrightarrow> repeats (ls @ [l]) i = repeats ls i"
proof -
  assume i: "i < length ls"
  have "(ls @ [l]) ! j = ls ! j" if "j \<le> i" for j using that i by (simp add: nth_append)
  then show ?thesis by (simp add: repeats_def cong: conj_cong)
qed

definition first_like :: "lesson list \<Rightarrow> lesson \<Rightarrow> lesson" where
  "first_like ls l = hd (filter (\<lambda>x. lesson_key x = lesson_key l) ls)"

definition conflict_at :: "lesson list \<Rightarrow> nat \<Rightarrow> lesson_conflict" where
  "conflict_at ls i = \<lparr>lc_existing_id = ls_id (first_like ls (ls ! i)), lc_duplicate_id = ls_id (ls ! i), lc_text = take 80 (ls_text (ls ! i))\<rparr>"

lemma conflicts_are_the_repeats:
  "fst (foldl conflict_step ([], []) ls) = map (conflict_at ls) (filter (repeats ls) [0..<length ls]) \<and>
   (\<forall>key. dict_get (snd (foldl conflict_step ([], []) ls)) key =
     (let ids = map ls_id (filter (\<lambda>l. lesson_key l = key) ls) in if ids = [] then None else Some ids))"
proof (induction ls rule: rev_induct)
  case (snoc l ls)
  obtain cs seen where f: "foldl conflict_step ([], []) ls = (cs, seen)" by fastforce
  let ?same = "filter (\<lambda>x. lesson_key x = lesson_key l) ls"
  from snoc f have seen: "dict_get seen key = (let ids = map ls_id (filter (\<lambda>l. lesson_key l = key) ls) in if ids = [] then None else Some ids)" for key
    by simp
  have old: "map (conflict_at (ls @ [l])) (filter (repeats (ls @ [l])) [0..<length ls]) = map (conflict_at ls) (filter (repeats ls) [0..<length ls])"
  proof (rule map_cong)
    show "filter (repeats (ls @ [l])) [0..<length ls] = filter (repeats ls) [0..<length ls]"
      by (intro filter_cong) (simp_all add: repeats_append)
    fix i assume "i \<in> set (filter (repeats ls) [0..<length ls])"
    then have i: "i < length ls" by simp
    then have "filter (\<lambda>x. lesson_key x = lesson_key (ls ! i)) ls \<noteq> []" by (auto simp: filter_empty_conv)
    with i show "conflict_at (ls @ [l]) i = conflict_at ls i" by (simp add: conflict_at_def first_like_def nth_append)
  qed
  have new: "repeats (ls @ [l]) (length ls) \<longleftrightarrow> ?same \<noteq> []"
    by (simp add: repeats_def nth_append filter_empty_conv cong: conj_cong) (metis in_set_conv_nth)
  have "conflict_at (ls @ [l]) (length ls) = \<lparr>lc_existing_id = hd (map ls_id ?same), lc_duplicate_id = ls_id l, lc_text = take 80 (ls_text l)\<rparr>"
    if "?same \<noteq> []" using that by (simp add: conflict_at_def first_like_def hd_map)
  with old new f snoc show ?case
    by (cases "?same = []") (auto simp: conflict_step_def Let_def seen)
qed simp

end
