(* ===== verification/UseCases.thy ===== *)
theory UseCases imports Observer Channels begin

text \<open>
  Commands that work on several services: the ACP agents' sessions and catalogue, \<open>use_cases/acp.py\<close>, their
  health report, \<open>use_cases/acp_health.py\<close>, and what a channel may ask, \<open>use_cases/channels.py\<close>, with its console
  channel. The clients are those of the observer's \<open>agent_port\<close>; the clients of a command are kept with
  the state they were left in, in the order they were made.
\<close>

section \<open>Clients\<close>

type_synonym 'c clients = "'c list \<times> world"

text \<open>Start a client for an agent, use it, and stop it however the use ends; the start stands before the \<open>try\<close>.\<close>

definition with_client :: "env \<Rightarrow> 'c surroundings \<Rightarrow> json \<Rightarrow> ('c, 'a) prog \<Rightarrow> ('c clients, 'a) prog" where
  "with_client E S agent m = bindp (lift_result (agent_command_from_install E (su_shlex S) agent)) (\<lambda>command. \<lambda>(cs, w).
     case po_start (su_port S) (po_new (su_port S) (length cs) command) of
       (Inl e, c1) \<Rightarrow> (Inl e, (cs @ [c1], w))
     | (Inr _, c1) \<Rightarrow> (case m c1 of (r, c2) \<Rightarrow> (case po_stop (su_port S) c2 of
           (Inl e, c3) \<Rightarrow> (Inl e, (cs @ [c3], w))
         | (Inr _, c3) \<Rightarrow> (r, (cs @ [c3], w)))))"

section \<open>Sessions\<close>

text \<open>\<open>a or ''\<close>.\<close>

definition or_empty :: "json \<Rightarrow> json" where
  "or_empty v = (if truthy v then v else JStr [])"

definition session_row :: "json \<Rightarrow> session_info \<Rightarrow> exn + json_obj" where
  "session_row agent i = bindr (json_get agent ''id'' (JStr [])) (\<lambda>aid.
     Inr [(''id'', si_id i), (''agent_id'', aid), (''title'', or_empty (si_title i)), (''metadata'', si_metadata i)])"

fun agents_named :: "string \<Rightarrow> json list \<Rightarrow> exn + json list" where
  "agents_named aid [] = Inr []"
| "agents_named aid (a # as) = bindr (json_get a ''id'' JNull) (\<lambda>v. bindr (agents_named aid as) (\<lambda>bs.
     Inr (if v = JStr aid then a # bs else bs)))"

definition list_agent_sessions :: "env \<Rightarrow> 'c surroundings \<Rightarrow> json \<Rightarrow> json_obj list \<Rightarrow> ('c clients, json_obj list) prog" where
  "list_agent_sessions E S agent rows = with_client E S agent (bindp (po_sessions (su_port S)) (\<lambda>infos.
     bindp (lift_result (mapr (session_row agent) infos)) (\<lambda>new. ret (rows @ new))))"

definition list_acp_sessions :: "env \<Rightarrow> 'c surroundings \<Rightarrow> string option \<Rightarrow> ('c clients, json_obj list) prog" where
  "list_acp_sessions E S agent_id = bindp (with_local get_installed_agents) (\<lambda>installed.
     bindp (lift_result (case agent_id of Some (c # cs) \<Rightarrow> agents_named (c # cs) installed | _ \<Rightarrow> Inr installed)) (\<lambda>agents.
     foldp (list_agent_sessions E S) agents []))"

definition owns_session :: "string \<Rightarrow> session_info list \<Rightarrow> bool" where
  "owns_session sid infos \<longleftrightarrow> list_ex (\<lambda>i. si_id i = JStr sid) infos"

definition close_on :: "'c surroundings \<Rightarrow> string \<Rightarrow> ('c, bool) prog" where
  "close_on S sid = bindp (po_sessions (su_port S)) (\<lambda>infos.
     if owns_session sid infos then bindp (po_close (su_port S) (JStr sid)) (\<lambda>_. ret True) else ret False)"

primrec close_first :: "env \<Rightarrow> 'c surroundings \<Rightarrow> string \<Rightarrow> json list \<Rightarrow> ('c clients, unit) prog" where
  "close_first E S sid [] = throw (ACPClientError (''Session '' @ quoted sid @ '' not found on any installed agent.''))"
| "close_first E S sid (a # as) = bindp (with_client E S a (close_on S sid)) (\<lambda>shut.
     if shut then ret () else close_first E S sid as)"

definition close_acp_session :: "env \<Rightarrow> 'c surroundings \<Rightarrow> string \<Rightarrow> ('c clients, unit) prog" where
  "close_acp_session E S sid = bindp (with_local get_installed_agents) (\<lambda>installed.
     if installed = [] then throw (ACPClientError ''No ACP agents installed; there is no session to close.'')
     else close_first E S sid installed)"

section \<open>The catalogue\<close>

definition distribution_types :: "agent_manifest \<Rightarrow> string list" where
  "distribution_types m = (if mf_binary m \<noteq> [] then [''binary''] else []) @ (if mf_npx m \<noteq> None then [''npx''] else []) @
     (if mf_uvx m \<noteq> None then [''uvx''] else [])"

definition discover_agents :: "env \<Rightarrow> network \<Rightarrow> (world, json_obj list) prog" where
  "discover_agents E N = bindp (list_agents E N) (\<lambda>ms. ret (map (\<lambda>m. [(''id'', mf_id m), (''name'', mf_name m), (''version'', mf_version m),
     (''description'', or_empty (mf_description m)), (''license'', or_empty (mf_license m)),
     (''distribution_types'', JArr (map JStr (distribution_types m))), (''repository'', or_empty (mf_repository m))]) ms))"

section \<open>The health report\<close>

definition check_registry_health :: "network \<Rightarrow> (world, json_obj) prog" where
  "check_registry_health N = bindp (asks (\<lambda>w. w_acp_cache_file w \<noteq> None)) (\<lambda>cached. bindp (is_registry_accessible N) (\<lambda>reachable.
     ret [(''registry_reachable'', JBool reachable), (''registry_cached'', JBool cached),
       (''status'', JStr (if reachable \<or> cached then ''ok'' else ''unavailable''))]))"

definition agent_health :: "json \<Rightarrow> exn + json_obj" where
  "agent_health a = bindr (json_get a ''id'' (JStr ''unknown'')) (\<lambda>i. bindr (json_get a ''name'' i) (\<lambda>n.
     bindr (json_get a ''version'' (JStr ''unknown'')) (\<lambda>v. bindr (json_get a ''distribution_type'' (JStr ''unknown'')) (\<lambda>d.
       Inr [(''agent_id'', i), (''name'', n), (''version'', v), (''distribution'', d), (''installed'', JBool True),
         (''session_healthy'', JNull), (''stale_sessions'', JArr [])]))))"

definition check_installed_agent_health :: "(world, json_obj list) prog" where
  "check_installed_agent_health = bindp get_installed_agents (\<lambda>as. lift_result (mapr agent_health as))"

definition session_action :: "json \<Rightarrow> exn + json_obj" where
  "session_action a = bindr (json_get a ''id'' (JStr ''unknown'')) (\<lambda>i. Inr [(''agent_id'', i), (''detected_sessions'', JInt 0),
     (''stale_sessions'', JInt 0), (''closed_sessions'', JInt 0), (''status'', JStr ''no_running_agents'')])"

definition detect_and_clean_stale_sessions :: "(world, json_obj list) prog" where
  "detect_and_clean_stale_sessions = bindp get_installed_agents (\<lambda>as. lift_result (mapr session_action as))"

definition get_health_report :: "network \<Rightarrow> (world, json_obj) prog" where
  "get_health_report N = bindp (check_registry_health N) (\<lambda>registry. bindp check_installed_agent_health (\<lambda>agents.
     bindp detect_and_clean_stale_sessions (\<lambda>sessions.
     ret [(''registry'', JObj registry), (''agents'', JArr (map JObj agents)), (''session_actions'', JArr (map JObj sessions)),
       (''healthy'', JBool (dict_get registry ''status'' = Some (JStr ''ok'') \<or> agents \<noteq> []))])))"

section \<open>Channels\<close>

definition channel_error :: "exn \<Rightarrow> bool" where
  "channel_error e = (case e of UnboundSenderError _ \<Rightarrow> True | ChannelPermissionError _ \<Rightarrow> True | ChannelRateLimitError _ \<Rightarrow> True
     | ChannelDuplicateError _ \<Rightarrow> True | ChannelAlreadyBoundError _ \<Rightarrow> True | _ \<Rightarrow> False)"

text \<open>\<open>except ChannelError\<close>: the error's text instead of a result.\<close>

definition or_channel_error :: "(world, 'a) prog \<Rightarrow> (world, string + 'a) prog" where
  "or_channel_error m = catchp (bindp m (\<lambda>x. ret (Inr x))) (\<lambda>e. if channel_error e then ret (Inl (exn_message e)) else throw e)"

definition default_queue :: feedback_queue where
  "default_queue = \<lparr>fq_max_per_window = 5, fq_window_seconds = 60\<rparr>"

definition default_profile :: security_profile where
  "default_profile = \<lparr>sp_profile_id = ''default'', sp_default_policy = PolDeny, sp_capabilities = [], sp_audit_enabled = True\<rparr>"

definition console_id :: string where
  "console_id = ''console''"

text \<open>\<open>moment\<close> is the queue's reading of the clock.\<close>

definition submit_feedback :: "env \<Rightarrow> real \<Rightarrow> string \<Rightarrow> string \<Rightarrow> (world, string + string) prog" where
  "submit_feedback E moment text sender = bindp (get_identity console_id sender) (\<lambda>identity.
     or_channel_error (bindp (authorize_channel_action E default_profile ''feedback'' identity) (\<lambda>_.
       bindp (uuid4 E) (\<lambda>u. bindp (iso_now E) (\<lambda>t.
       bindp (submit E default_queue \<lparr>fb_id = ''fb-'' @ u, fb_channel_id = console_id, fb_sender = sender, fb_text = text,
           fb_trust_level = Untrusted, fb_created_at = t, fb_status = ''pending''\<rparr> moment) (\<lambda>i. ret (fb_id i)))))))"

definition request_pairing :: "env \<Rightarrow> string \<Rightarrow> (world, string + string) prog" where
  "request_pairing E sender = or_channel_error (begin_pairing E console_id sender)"

definition confirm_pairing :: "env \<Rightarrow> string \<Rightarrow> string \<Rightarrow> string \<Rightarrow> (world, string + string \<times> string) prog" where
  "confirm_pairing E sender code forge_identity = bindp (confirm E console_id sender code forge_identity) (\<lambda>bound.
     ret (if \<not> bound then Inl ''invalid pairing code'' else Inr (sender, forge_identity)))"

section \<open>What closing a session does\<close>

lemma with_client_result:
  assumes "with_client E S agent m (cs, w) = (Inr x, (cs', w'))"
  shows "\<exists>command c1 c2 c3. agent_command_from_install E (su_shlex S) agent = Inr command \<and>
    po_start (su_port S) (po_new (su_port S) (length cs) command) = (Inr (), c1) \<and> m c1 = (Inr x, c2) \<and>
    po_stop (su_port S) c2 = (Inr (), c3) \<and> cs' = cs @ [c3] \<and> w' = w"
  using assms by (auto simp: with_client_def bindp_run lift_result_run split: sum.splits prod.splits)

text \<open>The \<open>k\<close>-th client of a command, started, asked for its sessions and stopped; and one that has closed the session.\<close>

definition asked_in_vain :: "env \<Rightarrow> 'c surroundings \<Rightarrow> string \<Rightarrow> nat \<Rightarrow> json \<Rightarrow> 'c \<Rightarrow> bool" where
  "asked_in_vain E S sid k agent c \<longleftrightarrow> (\<exists>command c1 c2 infos. agent_command_from_install E (su_shlex S) agent = Inr command \<and>
     po_start (su_port S) (po_new (su_port S) k command) = (Inr (), c1) \<and> po_sessions (su_port S) c1 = (Inr infos, c2) \<and>
     (\<forall>i\<in>set infos. si_id i \<noteq> JStr sid) \<and> po_stop (su_port S) c2 = (Inr (), c))"

definition closed_there :: "env \<Rightarrow> 'c surroundings \<Rightarrow> string \<Rightarrow> nat \<Rightarrow> json \<Rightarrow> 'c \<Rightarrow> bool" where
  "closed_there E S sid k agent c \<longleftrightarrow> (\<exists>command c1 c2 c3 infos. agent_command_from_install E (su_shlex S) agent = Inr command \<and>
     po_start (su_port S) (po_new (su_port S) k command) = (Inr (), c1) \<and> po_sessions (su_port S) c1 = (Inr infos, c2) \<and>
     (\<exists>i\<in>set infos. si_id i = JStr sid) \<and> po_close (su_port S) (JStr sid) c2 = (Inr (), c3) \<and> po_stop (su_port S) c3 = (Inr (), c))"

lemma close_on_cases:
  assumes "with_client E S agent (close_on S sid) (cs, w) = (Inr shut, (cs', w'))"
  shows "\<exists>c. cs' = cs @ [c] \<and> w' = w \<and> (if shut then closed_there E S sid (length cs) agent c else asked_in_vain E S sid (length cs) agent c)"
proof -
  from with_client_result [OF assms] obtain command c1 c2 c3 where 1: "agent_command_from_install E (su_shlex S) agent = Inr command"
    "po_start (su_port S) (po_new (su_port S) (length cs) command) = (Inr (), c1)" "close_on S sid c1 = (Inr shut, c2)"
    "po_stop (su_port S) c2 = (Inr (), c3)" "cs' = cs @ [c3]" "w' = w" by blast
  from 1(3) obtain infos d where 2: "po_sessions (su_port S) c1 = (Inr infos, d)"
    by (auto simp: close_on_def bindp_run split: sum.splits prod.splits)
  have "if shut then closed_there E S sid (length cs) agent c3 else asked_in_vain E S sid (length cs) agent c3"
  proof (cases "owns_session sid infos")
    case True
    with 1(3) 2 have "shut" "po_close (su_port S) (JStr sid) d = (Inr (), c2)"
      by (auto simp: close_on_def bindp_run ret_run split: sum.splits prod.splits)
    moreover have "\<exists>i\<in>set infos. si_id i = JStr sid" using True by (simp add: owns_session_def list_ex_iff)
    ultimately show ?thesis unfolding closed_there_def using 1(1,2,4) 2 by auto
  next
    case False
    with 1(3) 2 have "\<not> shut" "d = c2" by (auto simp: close_on_def bindp_run ret_run)
    moreover have "\<forall>i\<in>set infos. si_id i \<noteq> JStr sid" using False by (simp add: owns_session_def list_ex_iff)
    ultimately show ?thesis unfolding asked_in_vain_def using 1(1,2,4) 2 by auto
  qed
  with 1 show ?thesis by blast
qed

lemma close_first_result:
  assumes "close_first E S sid agents (cs, w) = (Inr (), (cs', w'))"
  shows "\<exists>pre agent post news c. agents = pre @ agent # post \<and> cs' = cs @ news @ [c] \<and> length news = length pre \<and> w' = w \<and>
    (\<forall>i<length pre. asked_in_vain E S sid (length cs + i) (pre ! i) (news ! i)) \<and> closed_there E S sid (length cs + length pre) agent c"
  using assms
proof (induction agents arbitrary: cs)
  case (Cons a as)
  then obtain shut cs1 w1 where 1: "with_client E S a (close_on S sid) (cs, w) = (Inr shut, (cs1, w1))"
    by (auto simp: bindp_run split: prod.splits sum.splits)
  from close_on_cases [OF 1] obtain c where c: "cs1 = cs @ [c]" "w1 = w"
    "if shut then closed_there E S sid (length cs) a c else asked_in_vain E S sid (length cs) a c" by blast
  show ?case
  proof (cases shut)
    case True
    with Cons.prems 1 c show ?thesis
      by (intro exI [of _ "[]"] exI [of _ a] exI [of _ as] exI [of _ c]) (auto simp: bindp_run ret_run)
  next
    case False
    with Cons.prems 1 c have "close_first E S sid as (cs @ [c], w) = (Inr (), (cs', w'))" by (simp add: bindp_run)
    from Cons.IH [OF this] obtain pre agent post news d where 2: "as = pre @ agent # post" "cs' = (cs @ [c]) @ news @ [d]"
      "length news = length pre" "w' = w" "\<forall>i<length pre. asked_in_vain E S sid (length (cs @ [c]) + i) (pre ! i) (news ! i)"
      "closed_there E S sid (length (cs @ [c]) + length pre) agent d" by blast
    have "\<forall>i<length (a # pre). asked_in_vain E S sid (length cs + i) ((a # pre) ! i) ((c # news) ! i)"
      using 2(5) c(3) False by (auto simp: less_Suc_eq_0_disj)
    with 2 show ?thesis
      by (intro exI [of _ "a # pre"] exI [of _ agent] exI [of _ post] exI [of _ "c # news"] exI [of _ d]) simp
  qed
qed (simp add: throw_run)

text \<open>C38: A session is closed where it lives, and nowhere else. When the command returns, the installed agents up to one
  were started in order; each before the last listed sessions without the one to close and was stopped without
  being told to close anything; the last listed it, was told to close it, and was stopped; the agents after it were
  not started; and the files of the project are as they were.\<close>

theorem sessions_close_where_they_live:
  assumes "close_acp_session E S sid ([], w) = (Inr (), (cs, w'))"
  shows "\<exists>pre agent post news c. get_installed_agents w = (Inr (pre @ agent # post), w) \<and> cs = news @ [c] \<and> length news = length pre \<and>
    (\<forall>i<length pre. asked_in_vain E S sid i (pre ! i) (news ! i)) \<and> closed_there E S sid (length pre) agent c \<and> w' = w"
proof -
  have reads: "snd (get_installed_agents w) = w"
    by (auto simp: get_installed_agents_def load_installed_def bindp_run lift_result_run asks_run)
  then obtain r where r: "get_installed_agents w = (r, w)" by (metis prod.collapse)
  with assms obtain agents where "r = Inr agents" "close_first E S sid agents ([], w) = (Inr (), (cs, w'))"
    by (auto simp: close_acp_session_def bindp_run with_local_run throw_run split: sum.splits if_splits)
  with r close_first_result [of E S sid agents "[]" w cs w'] show ?thesis by auto
qed

lemma sessions_close_where_they_live_witness:
  "\<exists>agent c. close_acp_session demo_env (demo_surroundings True [\<lparr>si_id = JStr ''s1'', si_title = JNull, si_metadata = JObj []\<rparr>]) ''s1'' ([], demo_agents) =
     (Inr (), ([c], demo_agents)) \<and> closed_there demo_env (demo_surroundings True [\<lparr>si_id = JStr ''s1'', si_title = JNull, si_metadata = JObj []\<rparr>]) ''s1'' 0 agent c"
proof -
  let ?S = "demo_surroundings True [\<lparr>si_id = JStr ''s1'', si_title = JNull, si_metadata = JObj []\<rparr>]"
  have run: "close_acp_session demo_env ?S ''s1'' ([], demo_agents) = (Inr (), ([()], demo_agents))"
    by (simp add: close_acp_session_def demo_agents_def empty_world_def get_installed_agents_def load_installed_def prog_simps with_client_def
        agent_command_from_install_def field_def dict_get_def demo_surroundings_def demo_port_def close_on_def owns_session_def)
  from sessions_close_where_they_live [OF run] run show ?thesis by auto
qed

text \<open>An agent that starts and then fails to greet is not stopped: the start stands outside the \<open>try\<close>.\<close>

lemma failed_starts_leave_the_agent:
  defines "S \<equiv> \<lparr>su_port = acp_port demo_env (\<lambda>_. parrot (JObj [(''id'', JInt 1), (''error'', JObj [])])), su_network = demo_network,
    su_shlex = (\<lambda>s. Inr [s]), su_stamp = (\<lambda>_. None)\<rparr>"
  shows "\<exists>e k c. close_acp_session demo_env S ''s1'' ([], demo_agents) = (Inl e, ([(k, c)], demo_agents)) \<and> cl_process c \<noteq> None"
  unfolding S_def
  by (simp add: close_acp_session_def demo_agents_def empty_world_def get_installed_agents_def load_installed_def prog_simps with_client_def
      agent_command_from_install_def field_def dict_get_def acp_port_def parrot_def start_client_def new_client_def initialize_def call_def
      build_request_def send_def receive_def readline_def check_error_def)

end
