(* ===== verification/Spec2Isabelle.thy ===== *)
theory Spec2Isabelle imports Scaffold EventStore Config Pruner TokenBudget Lazy GlobalMemory Backtrack Channels Health Dreamer Executor Bridge Extensions Tracing Doctor Observer DaemonProcess ClaudeRaw ClaudeCode OpenClaw ClaudeSdk OpenCode Harness Codex Human Runner CostReport Skills UseCases begin

text \<open>
  Forge OS (\<open>src/forge_os\<close>) drives a software project through a fixed sequence of stages. Its state is a
  set of files: \<open>.forge/\<close> and \<open>pipeline/\<close> in the project, \<open>~/.forge\<close> for what projects share. Commands
  load some of these files, decide, write some of them and append to logs; agents of several kernels do
  the work of a stage; gates decide whether a stage is done. The theories model the Python code below
  \<open>src/forge_os\<close>; paths in this text are relative to it.

  \<^bold>\<open>The frame.\<close>
  \<^item> \<open>Prelude\<close>: Python strings, dictionaries and exceptions, programs \<open>('w, 'a) prog\<close> (a world to a result or
    an exception and the world after), the ways reading a file can end (\<open>doc_file\<close>), and the rules for
    running programs and for the parts of the world they leave alone.
  \<^item> \<open>Schemas\<close>: the records of \<open>schemas/\<close>, \<open>agents/models.py\<close>, \<open>context/models.py\<close>, \<open>memory/models.py\<close>.
  \<^item> \<open>World\<close>: one record for all files, and \<open>env\<close>, the readings of clock, identifiers, disk and libraries.
  \<^item> \<open>Interfaces\<close>: the locales \<open>journal\<close>, \<open>document_store\<close>, \<open>transition_system\<close> and \<open>progressing_system\<close>, each
    interpreted on the model's own stores, logs and life cycles.
  \<^item> \<open>JsonText\<close>: \<open>json.dumps\<close>, \<open>repr\<close>, \<open>str\<close>, \<open>bool\<close> and \<open>round\<close>.

  \<^bold>\<open>The pipeline.\<close>
  \<^item> \<open>Lifecycle\<close> is the abstract specification: stages, a current stage and four moves. \<open>StateManager\<close> is
    \<open>core/state_manager.py\<close> with \<open>project/status.py\<close>: every transition with its guards, its writes of
    \<open>state.json\<close>, the mirror, the event store and the log, and its errors. \<open>Pipeline\<close> proves that whatever a
    session of commands does, the file goes through moves of the specification only; that no stage
    completes past a failing blocking gate, at most one is active, work is in order; that advancing
    completes the pipeline; and what happens when writes fail.
  \<^item> \<open>Hooks\<close> (\<open>hooks/\<close>) and \<open>Events\<close> (\<open>events/model.py\<close>, \<open>log.py\<close>, \<open>bus.py\<close>): an event is logged, then its hooks
    run in order until a blocking one fails. \<open>EventStore\<close> (\<open>events/store.py\<close>): replaying from a snapshot is
    replaying everything, and gives the state last saved.
  \<^item> \<open>Config\<close> (\<open>config/\<close>), \<open>Gates\<close> (\<open>gates/\<close>), \<open>Scaffold\<close> (\<open>project/profiles.py\<close>, \<open>scaffold.py\<close>), \<open>Reflections\<close>
    (\<open>memory/reflections.py\<close>), \<open>Backtrack\<close> (\<open>project/backtrack_registry.py\<close>, \<open>rework_planner.py\<close>).

  \<^bold>\<open>Context and memory.\<close>
  \<^item> \<open>Artifacts\<close> (\<open>context/registry.py\<close>): staleness reaches exactly what is downstream of a change. \<open>Pruner\<close>
    (\<open>context/pruner.py\<close>): activation is the distance in the graph, a selection keeps its budget, the cache
    is invisible. \<open>Lazy\<close> (\<open>context/lazy.py\<close>), \<open>TokenBudget\<close> (\<open>context/token_monitor.py\<close>).
  \<^item> \<open>Lessons\<close> (\<open>memory/lessons.py\<close>), \<open>GlobalMemory\<close> (\<open>memory/global_store.py\<close>, \<open>project_profiles.py\<close>),
    \<open>Dreamer\<close> (\<open>dreamer/\<close>).

  \<^bold>\<open>Agents.\<close>
  \<^item> \<open>Agents\<close> (\<open>agents/loader.py\<close>, \<open>adapters/base.py\<close>, \<open>registry.py\<close>, \<open>dummy.py\<close>, \<open>async_dummy.py\<close>) and \<open>Executor\<close>
    (\<open>agents/executor.py\<close>): a run is recorded with the verdict of its contract, a dry run completes, and no
    run moves the pipeline. \<open>Bridge\<close> (\<open>adapters/bridge.py\<close>, \<open>kernel/types.py\<close>): the loop over an asynchronous
    kernel always ends in a handle if the kernel makes progress, and says what the kernel said. \<open>ClaudeRaw\<close>
    (\<open>adapters/claude_raw/\<close>) is one such kernel: it always ends, and each of its requests continues a
    conversation in which every tool use has been answered. \<open>Codex\<close> (\<open>adapters/codex/\<close>) drives the codex
    app-server: the server is told the caller's decisions and no others, and a server that dies leaves the
    agent waiting. \<open>Human\<close> (\<open>adapters/human/\<close>) asks a person. Both are \<open>Tasks\<close>, programs that may not end.
    \<open>ClaudeCode\<close> (\<open>adapters/claude_code/\<close>) runs the \<open>claude\<close> command: a run in the event store replays to the
    handle it gave, the user's settings survive its hooks, and a denied spawn starts nothing.
    \<open>OpenClaw\<close> (\<open>adapters/openclaw/\<close>) is a client of a gateway whose sessions it may not alter, and files what
    they teach as insights. \<open>ClaudeSdk\<close> (\<open>adapters/claude_sdk/\<close>) and \<open>OpenCode\<close> (\<open>adapters/opencode/\<close>, with the
    proxy that serves Forge's own tools) run a generator beside the tasks of a library: queues and futures
    they share, every interleaving of their steps; a tool gets the decision that was made for it.
    \<open>Harness\<close> (\<open>harness/\<close>) measures kernels against each other with the same proposals and judges.
  \<^item> \<open>Adapters\<close> (\<open>use_cases/adapters.py\<close>): which kernels there are, which can run, switching them.
  \<^item> \<open>AcpRegistry\<close> (\<open>kernel/acp_registry_adapter.py\<close>): the catalogue of ACP agents and what is installed.
    \<open>AcpClient\<close> (\<open>kernel/acp_client.py\<close>): JSON-RPC with one agent over pipes; a well-typed agent raises no
    type errors, a prompt streams its updates and returns its answer, and answers that arrive in a burst
    are missed. \<open>Observer\<close> (\<open>observer/monitor.py\<close>) watches the installed agents with both.

  \<^bold>\<open>Guards and services.\<close>
  \<^item> \<open>Security\<close> (\<open>project/security_enforcer.py\<close>, \<open>security_audit.py\<close>), \<open>Extensions\<close> (\<open>extensions/\<close>), \<open>Channels\<close>
    (\<open>channels/\<close>): what is denied does not run, is not installed, is not accepted.
  \<^item> \<open>Daemon\<close> (\<open>daemon/state.py\<close>, \<open>scheduler.py\<close>), \<open>Cost\<close> (\<open>cost/\<close>, \<open>daemon/throttle.py\<close>), \<open>Health\<close> (\<open>health/\<close>),
    \<open>Tracing\<close> (\<open>tracing/\<close>). \<open>DaemonProcess\<close> (\<open>daemon/process.py\<close>): starting and stopping the daemon, as one
    process runs it, and several starts beside one another as steps over the lock, the state file and
    the processes: which races the lock excludes and which it does not. \<open>Runner\<close> (\<open>daemon/tasks.py\<close>, \<open>runner.py\<close>)
    is the daemon's process with the tasks it runs: over its cap it leaves the project alone, and told to
    stop it stops and leaves a record of itself.
  \<^item> \<open>Doctor\<close> (\<open>health/doctor.py\<close>, \<open>remediation.py\<close>, \<open>use_cases/doctor.py\<close>): the checks of the environment and
    the fixes, of which none happens unasked.
  \<^item> \<open>CostReport\<close> (\<open>use_cases/cost.py\<close>), \<open>Skills\<close> (\<open>use_cases/skills.py\<close>, \<open>knowledge.py\<close>) and \<open>UseCases\<close>
    (\<open>use_cases/acp.py\<close>, \<open>acp_health.py\<close>, \<open>channels.py\<close>): commands over several services. The report is the sum of the
    recorded spawns, no skill is installed without approval, a session is closed where it lives.

  \<^bold>\<open>Parameters.\<close> \<open>env\<close> holds what the code asks of its surroundings: the readings of the clocks, \<open>uuid4\<close>,
  whether the \<open>n\<close>-th write is accepted, SHA-256, \<open>re.search\<close>, \<open>subprocess.run\<close>, \<open>json.loads\<close>, \<open>str\<close> of a value that
  is no string, and the parsing of dates. \<open>repr\<close> is how a float is written, \<open>readdb\<close> and the trace sources what
  SQLite gives for the files as they are, \<open>reg\<close> the adapter registry. No property assumes more of them than
  it says. Writes succeed or leave the file as it was.

  \<^bold>\<open>Recursion.\<close> \<open>mark\<close> (\<open>Artifacts\<close>) and \<open>visit\<close> (\<open>Pruner\<close>) run on fuel of two more than the number of artifacts: a
  call either stops at a path it has seen (or seen with a better priority) or adds one, and the
  properties prove the result is the complete one. \<open>run_forever\<close> (\<open>Daemon\<close>), \<open>poll_until\<close> (\<open>DaemonProcess\<close>),
  \<open>drain\<close> (\<open>Bridge\<close>), \<open>prompt_loop\<close> (\<open>AcpClient\<close>), \<open>await_until\<close> and \<open>next_event\<close> (\<open>Codex\<close>), the prompts of
  \<open>Human\<close>, and the loops that wait for a gateway's next message (\<open>OpenClaw\<close>) may run for ever, so they are partial functions, and that
  they return, where they do, is a property of its own.

  \<^bold>\<open>Bounds of the model.\<close> Characters are code points below 256. Floats are reals: rounding errors and NaN are
  left out. The parsing of YAML and JSON and the shape checks of pydantic are the cases of \<open>doc_file\<close>; the
  validators written in the repository are modelled. Message texts that quote a library's own text
  carry only what the repository adds. A torn write, and two processes writing at once, are left out.

  \<^bold>\<open>Not modelled.\<close> The command line (\<open>cli/\<close>) prints what the modelled operations return. Of the back ends in
  \<open>adapters/\<close>, starting and stopping OpenCode's server, the sockets of its back-channel and the demonstrations
  at the end of the modules are left out; of \<open>harness/\<close>, the rendering of a report and the waits of the mock.
  \<open>kernel/http.py\<close> wraps a network library. The use cases that only hand on the
  results of the modelled services are left out, and so is the log file of the daemon.
\<close>

end
